(* ===== verification/Prelude.thy ===== *)
theory Prelude
  imports Main "HOL-Library.Word" "HOL-Library.Monad_Syntax" "HOL-Library.Char_ord"
begin

text \<open>
  Shared vocabulary of the development: the widths of the daemons' integers, C strings,
  decimal printing (\<open>int2str\<close> of \<^verbatim>\<open>shared/util.cc\<close>), and the list and option
  lemmas that more than one component uses.

  Conventions of the whole development:
  \<^item> \<open>None\<close> of an operation that returns an option is a run that has left the C++ language:
    a read or a write outside an allocated block, or a null pointer followed. An error that the
    code handles is an ordinary value (a status code or a boolean).
  \<^item> Fixed-width unsigned integers are words; \<^verbatim>\<open>std::string\<close> and
    \<^verbatim>\<open>char*\<close> are lists of characters.
\<close>

unbundle bit_operations_syntax

named_theorems wire_put \<open>every writer appends the bytes of its encoding\<close>
named_theorems wire_get \<open>every reader consumes the bytes of an encoding\<close>
named_theorems wire_len \<open>lengths of encodings\<close>

type_synonym u8 = "8 word"
type_synonym u16 = "16 word"
type_synonym u32 = "32 word"

lemma unat_of_nat_small: "n < 2 ^ LENGTH('a) \<Longrightarrow> unat (of_nat n :: 'a::len word) = n"
  by (simp add: unat_of_nat)

lemma unat_u32_less: "unat (x :: u32) < 2 ^ 32"
proof -
  have "unat x < 2 ^ LENGTH(32)" by (rule unsigned_less)
  then show ?thesis by simp
qed

section \<open>C strings\<close>

abbreviation NUL :: char where
  "NUL \<equiv> CHR 0x00"

text \<open>What a \<^verbatim>\<open>char*\<close> denotes: the characters before the first NUL.\<close>

definition c_str :: "string \<Rightarrow> string" where
  "c_str s = takeWhile (\<lambda>c. c \<noteq> NUL) s"

definition no_nul :: "string \<Rightarrow> bool" where
  "no_nul s \<longleftrightarrow> NUL \<notin> set s"

lemma c_str_id [simp]: "no_nul s \<Longrightarrow> c_str s = s"
  by (auto simp: c_str_def no_nul_def takeWhile_eq_all_conv)

lemma c_str_no_nul [simp]: "no_nul (c_str s)"
  by (auto simp: c_str_def no_nul_def dest: set_takeWhileD)

lemma c_str_idem [simp]: "c_str (c_str s) = c_str s"
  by simp

lemma length_c_str: "length (c_str s) \<le> length s"
  by (simp add: c_str_def length_takeWhile_le)

lemma no_nul_Nil [simp]: "no_nul []"
  by (simp add: no_nul_def)

lemma no_nul_Cons [simp]: "no_nul (c # s) \<longleftrightarrow> c \<noteq> NUL \<and> no_nul s"
  by (auto simp: no_nul_def)

lemma no_nul_append [simp]: "no_nul (s @ t) \<longleftrightarrow> no_nul s \<and> no_nul t"
  by (auto simp: no_nul_def)

text \<open>
  \<^verbatim>\<open>strncpy(dst, src, n)\<close>: at most \<open>n\<close> characters of the C string \<open>src\<close>, then NULs up to
  \<open>n\<close>; the rest of \<open>dst\<close> stays.
\<close>

definition strncpy :: "string \<Rightarrow> string \<Rightarrow> nat \<Rightarrow> string" where
  "strncpy dst src n =
     (let s = take n (c_str src) in s @ replicate (n - length s) NUL @ drop n dst)"

lemma length_strncpy: "n \<le> length dst \<Longrightarrow> length (strncpy dst src n) = length dst"
  by (simp add: strncpy_def Let_def)

lemma take_strncpy:
  "n \<le> length (c_str src) \<Longrightarrow> take n (strncpy dst src n) = take n (c_str src)"
  by (simp add: strncpy_def Let_def)

text \<open>
  \<^verbatim>\<open>strcmp\<close>: the sign of the first difference of the two C strings, characters compared as
  unsigned bytes.
\<close>

fun strcmp :: "string \<Rightarrow> string \<Rightarrow> int" where
  "strcmp [] [] = 0"
| "strcmp [] (d # ds) = (if d = NUL then 0 else -1)"
| "strcmp (c # cs) [] = (if c = NUL then 0 else 1)"
| "strcmp (c # cs) (d # ds) =
     (if c = d then (if c = NUL then 0 else strcmp cs ds)
      else if (of_char c :: nat) < of_char d then -1 else 1)"

lemma of_char_0 [simp]: "(of_char c :: nat) = 0 \<longleftrightarrow> c = NUL"
  using of_char_eq_iff [of c NUL, where 'a = nat] by simp

lemma strcmp_c_str: "strcmp (c_str s) (c_str t) = strcmp s t"
  by (induction s t rule: strcmp.induct) (auto simp: c_str_def)

lemma strcmp_eq_0: "strcmp s t = 0 \<longleftrightarrow> c_str s = c_str t"
  by (induction s t rule: strcmp.induct) (auto simp: c_str_def)

lemma strcmp_swap: "strcmp t s = - strcmp s t"
proof (induction s t rule: strcmp.induct)
  case (4 c cs d ds)
  have "c = d" if "(of_char c :: nat) = of_char d"
    using that by simp
  with 4 show ?case by (auto simp: not_less order.order_iff_strict)
qed auto

lemma strcmp_neg_Cons:
  "strcmp (c # cs) (d # ds) < 0 \<longleftrightarrow>
     (of_char c :: nat) < of_char d \<or> c = d \<and> c \<noteq> NUL \<and> strcmp cs ds < 0"
  by auto

lemma strcmp_trans: "strcmp s t < 0 \<Longrightarrow> strcmp t u < 0 \<Longrightarrow> strcmp s u < 0"
proof (induction s t arbitrary: u rule: strcmp.induct)
  case 1
  then show ?case by simp
next
  case (2 d ds)
  then show ?case by (cases u) (auto split: if_splits)
next
  case (3 c cs)
  then show ?case by (simp split: if_splits)
next
  case (4 c cs d ds)
  show ?case
  proof (cases u)
    case Nil
    with "4.prems"(2) show ?thesis by (simp split: if_splits)
  next
    case (Cons e es)
    have IH: "strcmp cs es < 0" if "c = d" "c \<noteq> NUL" "strcmp cs ds < 0" "strcmp ds es < 0"
      using "4.IH" that by blast
    have st: "(of_char c :: nat) < of_char d \<or> c = d \<and> c \<noteq> NUL \<and> strcmp cs ds < 0"
      using "4.prems"(1) by (simp only: strcmp_neg_Cons)
    have tu: "(of_char d :: nat) < of_char e \<or> d = e \<and> d \<noteq> NUL \<and> strcmp ds es < 0"
      using "4.prems"(2) unfolding Cons by (simp only: strcmp_neg_Cons)
    have "(of_char c :: nat) < of_char e \<or> c = e \<and> c \<noteq> NUL \<and> strcmp cs es < 0"
      using st tu IH by (metis less_trans)
    then show ?thesis unfolding Cons by (simp only: strcmp_neg_Cons)
  qed
qed

section \<open>Decimal printing\<close>

text \<open>
  \<^verbatim>\<open>ostream << n\<close> for an unsigned integer, and so \<open>int2str\<close>: the decimal digits, no
  leading zero.
\<close>

definition digit_char :: "nat \<Rightarrow> char" where
  "digit_char d = char_of (48 + d)"

fun dec_digits :: "nat \<Rightarrow> string" where
  "dec_digits n = (if n < 10 then [digit_char n] else dec_digits (n div 10) @ [digit_char (n mod 10)])"

declare dec_digits.simps [simp del]

definition int2str :: "u32 \<Rightarrow> string" where
  "int2str i = dec_digits (unat i)"

text \<open>The reading of a decimal numeral, to state that printing loses nothing.\<close>

definition digit_val :: "char \<Rightarrow> nat" where
  "digit_val c = of_char c - 48"

definition dec_value :: "string \<Rightarrow> nat" where
  "dec_value s = foldl (\<lambda>n c. 10 * n + digit_val c) 0 s"

lemma digit_val_char [simp]: "d < 10 \<Longrightarrow> digit_val (digit_char d) = d"
  by (simp add: digit_val_def digit_char_def of_char_of)

lemma dec_value_snoc [simp]: "dec_value (s @ [c]) = 10 * dec_value s + digit_val c"
  by (simp add: dec_value_def)

lemma dec_value_dec_digits [simp]: "dec_value (dec_digits n) = n"
proof (induction n rule: dec_digits.induct)
  case (1 n)
  show ?case
  proof (cases "n < 10")
    case True
    then show ?thesis by (subst dec_digits.simps) (simp add: dec_value_def)
  next
    case False
    with 1 have "dec_value (dec_digits (n div 10)) = n div 10" by simp
    with False show ?thesis by (subst dec_digits.simps) simp
  qed
qed

lemma dec_digits_inj: "dec_digits m = dec_digits n \<longleftrightarrow> m = n"
  by (metis dec_value_dec_digits)

lemma int2str_inj: "int2str i = int2str j \<longleftrightarrow> i = j"
  by (simp add: int2str_def dec_digits_inj word_unat_eq_iff)

definition is_digit :: "char \<Rightarrow> bool" where
  "is_digit c \<longleftrightarrow> 48 \<le> (of_char c :: nat) \<and> (of_char c :: nat) \<le> 57"

lemma is_digit_char: "d < 10 \<Longrightarrow> is_digit (digit_char d)"
  by (simp add: is_digit_def digit_char_def of_char_of)

lemma dec_digits_digits: "c \<in> set (dec_digits n) \<Longrightarrow> is_digit c"
proof (induction n rule: dec_digits.induct)
  case (1 n)
  show ?case
  proof (cases "n < 10")
    case True
    with "1.prems" is_digit_char [of n] show ?thesis by (subst (asm) dec_digits.simps) simp
  next
    case False
    with "1.prems" have "c \<in> set (dec_digits (n div 10)) \<or> c = digit_char (n mod 10)"
      by (subst (asm) dec_digits.simps) auto
    with False "1.IH" is_digit_char [of "n mod 10"] show ?thesis by auto
  qed
qed

lemma dec_digits_not_Nil [simp]: "dec_digits n \<noteq> []"
  by (subst dec_digits.simps) simp

section \<open>Lists as the code uses them\<close>

text \<open>\<^verbatim>\<open>std::find(l.begin(), l.end(), x) != l.end()\<close>, then \<^verbatim>\<open>push_back\<close>.\<close>

definition push_new :: "'a \<Rightarrow> 'a list \<Rightarrow> 'a list" where
  "push_new x xs = (if x \<in> set xs then xs else xs @ [x])"

lemma set_push_new [simp]: "set (push_new x xs) = insert x (set xs)"
  by (auto simp: push_new_def)

lemma distinct_push_new [simp]: "distinct (push_new x xs) \<longleftrightarrow> distinct xs"
  by (auto simp: push_new_def)

lemma push_new_mem [simp]: "x \<in> set xs \<Longrightarrow> push_new x xs = xs"
  by (simp add: push_new_def)

text \<open>The position of the first element that satisfies a test, as the linear searches find it.\<close>

fun find_index :: "('a \<Rightarrow> bool) \<Rightarrow> 'a list \<Rightarrow> nat option" where
  "find_index P [] = None"
| "find_index P (x # xs) = (if P x then Some 0 else map_option Suc (find_index P xs))"

lemma find_index_None: "find_index P xs = None \<longleftrightarrow> (\<forall>x\<in>set xs. \<not> P x)"
  by (induction xs) auto

lemma find_index_Some:
  "find_index P xs = Some i \<Longrightarrow> i < length xs \<and> P (xs ! i) \<and> (\<forall>j<i. \<not> P (xs ! j))"
proof (induction xs arbitrary: i)
  case Nil
  then show ?case by simp
next
  case (Cons x xs)
  then show ?case
    by (cases i) (auto split: if_splits simp: less_Suc_eq_0_disj)
qed

lemma find_index_SomeI:
  "i < length xs \<Longrightarrow> P (xs ! i) \<Longrightarrow> (\<And>j. j < i \<Longrightarrow> \<not> P (xs ! j)) \<Longrightarrow> find_index P xs = Some i"
proof (induction xs arbitrary: i)
  case Nil
  then show ?case by simp
next
  case (Cons x xs)
  show ?case
  proof (cases i)
    case 0
    with Cons.prems show ?thesis by simp
  next
    case (Suc k)
    have "\<not> P x" using Cons.prems(3) [of 0] Suc by simp
    moreover have "find_index P xs = Some k"
      by (rule Cons.IH) (use Cons.prems Suc in \<open>fastforce+\<close>)
    ultimately show ?thesis using Suc by simp
  qed
qed

text \<open>Where the keys of a list are distinct, the first match is the only one.\<close>

lemma find_index_distinct:
  assumes "distinct (map f xs)" and "i < length xs"
  shows "find_index (\<lambda>x. f x = f (xs ! i)) xs = Some i"
proof (rule find_index_SomeI)
  fix j assume "j < i"
  with assms have "f (xs ! j) \<noteq> f (xs ! i)"
    by (auto simp: distinct_conv_nth)
  then show "\<not> f (xs ! j) = f (xs ! i)" .
qed (use assms in auto)

lemma find_index_map_None: "find_index (\<lambda>x. f x = k) xs = None \<longleftrightarrow> k \<notin> f ` set xs"
  by (auto simp: find_index_None)

text \<open>Removing the element at a position.\<close>

definition remove_at :: "nat \<Rightarrow> 'a list \<Rightarrow> 'a list" where
  "remove_at i xs = take i xs @ drop (Suc i) xs"

lemma set_remove_at_subset: "set (remove_at i xs) \<subseteq> set xs"
  by (auto simp: remove_at_def dest: in_set_takeD in_set_dropD)

lemma remove_at_split: "i < length xs \<Longrightarrow> xs = take i xs @ xs ! i # drop (Suc i) xs"
  by (rule id_take_nth_drop)

lemma map_remove_at: "map f (remove_at i xs) = remove_at i (map f xs)"
  by (simp add: remove_at_def take_map drop_map)

lemma distinct_remove_at: "distinct xs \<Longrightarrow> distinct (remove_at i xs)"
  using set_take_disj_set_drop_if_distinct [of xs i "Suc i"] by (auto simp: remove_at_def)

lemma set_remove_at_distinct:
  assumes "distinct xs" and "i < length xs"
  shows "set (remove_at i xs) = set xs - {xs ! i}"
proof -
  have "distinct (take i xs @ xs ! i # drop (Suc i) xs)"
    using assms remove_at_split [of i xs] by metis
  moreover have "set xs = set (take i xs @ xs ! i # drop (Suc i) xs)"
    using assms(2) remove_at_split [of i xs] by metis
  ultimately show ?thesis by (auto simp: remove_at_def)
qed

end
