(* ===== verification/Byte_Buffer.thy ===== *)
theory Byte_Buffer
  imports Prelude
begin

text \<open>
  The message buffer of \<^verbatim>\<open>shared/byte_buffer.h\<close> and \<^verbatim>\<open>shared/byte_buffer.cc\<close>.

  The heap block behind \<^verbatim>\<open>buffer_data\<close> is a function from offsets to bytes of which the
  first \<open>num_bytes_allocated\<close> offsets exist; \<^verbatim>\<open>new uint8_t[n]\<close> leaves them indeterminate, so
  every allocation takes the contents it happens to find as a parameter \<open>junk\<close>. The code makes
  no bounds check, so a \<^verbatim>\<open>memcpy\<close> that leaves the block is \<open>None\<close>. Because an index inside a
  block is below \<open>2 ^ 32\<close>, no index arithmetic that the code reaches wraps.

  The second half of the theory is the byte-level view of the operations that the codecs of the
  next theories are stated in: \<open>put_bytes\<close> appends bytes, \<open>holds\<close> says which bytes follow the
  cursor, \<open>skip\<close> moves it.
\<close>

section \<open>State\<close>

record byte_buffer =
  num_bytes_allocated :: u32
  num_bytes_stored :: u32
  cur_index :: u32
  buffer_data :: "nat \<Rightarrow> u8"

record timeval =
  tv_sec :: int
  tv_usec :: int

definition byte_buffer_new :: "(nat \<Rightarrow> u8) \<Rightarrow> byte_buffer" where
  "byte_buffer_new junk =
     \<lparr>num_bytes_allocated = 2048, num_bytes_stored = 0, cur_index = 0, buffer_data = junk\<rparr>"

text \<open>\<^verbatim>\<open>operator=\<close>: a new block, of which only the stored bytes are copied.\<close>

definition byte_buffer_assign :: "(nat \<Rightarrow> u8) \<Rightarrow> byte_buffer \<Rightarrow> byte_buffer option" where
  "byte_buffer_assign junk other =
     (if num_bytes_stored other \<le> num_bytes_allocated other
      then Some \<lparr>num_bytes_allocated = num_bytes_allocated other,
                 num_bytes_stored = num_bytes_stored other,
                 cur_index = cur_index other,
                 buffer_data = (\<lambda>i. if i < unat (num_bytes_stored other)
                                     then buffer_data other i else junk i)\<rparr>
      else None)"

definition buf_reset :: "byte_buffer \<Rightarrow> byte_buffer" where
  "buf_reset b = b\<lparr>cur_index := 0\<rparr>"

definition buf_resize :: "(nat \<Rightarrow> u8) \<Rightarrow> u32 \<Rightarrow> byte_buffer \<Rightarrow> byte_buffer" where
  "buf_resize junk newLength b =
     (let b = (if num_bytes_allocated b < newLength
               then b\<lparr>num_bytes_allocated := newLength, buffer_data := junk\<rparr> else b)
      in b\<lparr>num_bytes_stored := 0, cur_index := 0\<rparr>)"

section \<open>Reading and writing memory\<close>

fun write_mem :: "(nat \<Rightarrow> u8) \<Rightarrow> nat \<Rightarrow> u8 list \<Rightarrow> (nat \<Rightarrow> u8)" where
  "write_mem d i [] = d"
| "write_mem d i (x # xs) = write_mem (d(i := x)) (Suc i) xs"

definition read_mem :: "(nat \<Rightarrow> u8) \<Rightarrow> nat \<Rightarrow> nat \<Rightarrow> u8 list" where
  "read_mem d i n = map d [i..<i + n]"

text \<open>\<^verbatim>\<open>memcpy(&buffer_data[cur_index], src, n)\<close> and the copy the other way.\<close>

definition memcpy_in :: "u8 list \<Rightarrow> byte_buffer \<Rightarrow> byte_buffer option" where
  "memcpy_in bs b =
     (if unat (cur_index b) + length bs \<le> unat (num_bytes_allocated b)
      then Some (b\<lparr>buffer_data := write_mem (buffer_data b) (unat (cur_index b)) bs\<rparr>)
      else None)"

definition memcpy_out :: "nat \<Rightarrow> byte_buffer \<Rightarrow> u8 list option" where
  "memcpy_out n b =
     (if unat (cur_index b) + n \<le> unat (num_bytes_allocated b)
      then Some (read_mem (buffer_data b) (unat (cur_index b)) n)
      else None)"

text \<open>\<^verbatim>\<open>htons\<close>, \<^verbatim>\<open>htonl\<close> and back: the bytes in network order.\<close>

definition be16 :: "u16 \<Rightarrow> u8 list" where
  "be16 x = [ucast (drop_bit 8 x), ucast x]"

definition be32 :: "u32 \<Rightarrow> u8 list" where
  "be32 x = [ucast (drop_bit 24 x), ucast (drop_bit 16 x), ucast (drop_bit 8 x), ucast x]"

definition un_be16 :: "u8 list \<Rightarrow> u16" where
  "un_be16 bs = push_bit 8 (ucast (bs ! 0)) OR ucast (bs ! 1)"

definition un_be32 :: "u8 list \<Rightarrow> u32" where
  "un_be32 bs = push_bit 24 (ucast (bs ! 0)) OR push_bit 16 (ucast (bs ! 1))
     OR push_bit 8 (ucast (bs ! 2)) OR ucast (bs ! 3)"

section \<open>The stream operators\<close>

definition put_u8 :: "u8 \<Rightarrow> byte_buffer \<Rightarrow> byte_buffer option" where
  "put_u8 data1 b = do {
     b \<leftarrow> memcpy_in [data1] b;
     let b = b\<lparr>cur_index := cur_index b + 1\<rparr>;
     Some (b\<lparr>num_bytes_stored := cur_index b\<rparr>)
   }"

definition put_u16 :: "u16 \<Rightarrow> byte_buffer \<Rightarrow> byte_buffer option" where
  "put_u16 data2 b = do {
     b \<leftarrow> memcpy_in (be16 data2) b;
     let b = b\<lparr>cur_index := cur_index b + 2\<rparr>;
     Some (b\<lparr>num_bytes_stored := cur_index b\<rparr>)
   }"

definition put_u32 :: "u32 \<Rightarrow> byte_buffer \<Rightarrow> byte_buffer option" where
  "put_u32 data4 b = do {
     b \<leftarrow> memcpy_in (be32 data4) b;
     let b = b\<lparr>cur_index := cur_index b + 4\<rparr>;
     Some (b\<lparr>num_bytes_stored := cur_index b\<rparr>)
   }"

definition put_bool :: "bool \<Rightarrow> byte_buffer \<Rightarrow> byte_buffer option" where
  "put_bool v b = (if v then put_u16 1 b else put_u16 0 b)"

definition put_char :: "char \<Rightarrow> byte_buffer \<Rightarrow> byte_buffer option" where
  "put_char c b = put_u8 (of_char c) b"

definition put_timeval :: "timeval \<Rightarrow> byte_buffer \<Rightarrow> byte_buffer option" where
  "put_timeval tv b = do {
     b \<leftarrow> put_u32 (word_of_int (tv_sec tv)) b;
     put_u32 (word_of_int (tv_usec tv)) b
   }"

definition get_u8 :: "byte_buffer \<Rightarrow> (u8 \<times> byte_buffer) option" where
  "get_u8 b = do {
     bs \<leftarrow> memcpy_out 1 b;
     Some (bs ! 0, b\<lparr>cur_index := cur_index b + 1\<rparr>)
   }"

definition get_u16 :: "byte_buffer \<Rightarrow> (u16 \<times> byte_buffer) option" where
  "get_u16 b = do {
     bs \<leftarrow> memcpy_out 2 b;
     Some (un_be16 bs, b\<lparr>cur_index := cur_index b + 2\<rparr>)
   }"

definition get_u32 :: "byte_buffer \<Rightarrow> (u32 \<times> byte_buffer) option" where
  "get_u32 b = do {
     bs \<leftarrow> memcpy_out 4 b;
     Some (un_be32 bs, b\<lparr>cur_index := cur_index b + 4\<rparr>)
   }"

definition get_bool :: "byte_buffer \<Rightarrow> (bool \<times> byte_buffer) option" where
  "get_bool b = do {
     (data2, b) \<leftarrow> get_u16 b;
     Some (if data2 \<noteq> 0 then True else False, b)
   }"

definition get_char :: "byte_buffer \<Rightarrow> (char \<times> byte_buffer) option" where
  "get_char b = do {
     (data1, b) \<leftarrow> get_u8 b;
     Some (char_of (unat data1), b)
   }"

definition get_timeval :: "byte_buffer \<Rightarrow> (timeval \<times> byte_buffer) option" where
  "get_timeval b = do {
     (s, b) \<leftarrow> get_u32 b;
     (u, b) \<leftarrow> get_u32 b;
     Some (\<lparr>tv_sec = uint s, tv_usec = uint u\<rparr>, b)
   }"

section \<open>The byte-level view\<close>

text \<open>Appending bytes one at a time; every writer below is one of these runs.\<close>

fun put_bytes :: "u8 list \<Rightarrow> byte_buffer \<Rightarrow> byte_buffer option" where
  "put_bytes [] b = Some b"
| "put_bytes (x # xs) b = Option.bind (put_u8 x b) (put_bytes xs)"

definition skip :: "nat \<Rightarrow> byte_buffer \<Rightarrow> byte_buffer" where
  "skip n b = b\<lparr>cur_index := cur_index b + of_nat n\<rparr>"

definition holds :: "byte_buffer \<Rightarrow> u8 list \<Rightarrow> bool" where
  "holds b bs \<longleftrightarrow> unat (cur_index b) + length bs \<le> unat (num_bytes_allocated b) \<and>
     read_mem (buffer_data b) (unat (cur_index b)) (length bs) = bs"

text \<open>What \<^verbatim>\<open>send\<close> transmits: the stored bytes from the start of the block.\<close>

definition sent_bytes :: "byte_buffer \<Rightarrow> u8 list" where
  "sent_bytes b = read_mem (buffer_data b) 0 (unat (num_bytes_stored b))"

lemma length_read_mem [simp]: "length (read_mem d i n) = n"
  by (simp add: read_mem_def)

lemma read_mem_append: "read_mem d i (m + n) = read_mem d i m @ read_mem d (i + m) n"
  using upt_add_eq_append [of i "i + m" n] by (simp add: read_mem_def add.assoc)

lemma write_mem_append: "write_mem d i (xs @ ys) = write_mem (write_mem d i xs) (i + length xs) ys"
  by (induction xs arbitrary: d i) simp_all

lemma write_mem_below: "j < i \<Longrightarrow> write_mem d i xs j = d j"
  by (induction xs arbitrary: d i) simp_all

lemma write_mem_above: "i + length xs \<le> j \<Longrightarrow> write_mem d i xs j = d j"
  by (induction xs arbitrary: d i) simp_all

lemma read_write_mem [simp]: "read_mem (write_mem d i xs) i (length xs) = xs"
proof (induction xs arbitrary: d i)
  case Nil
  then show ?case by (simp add: read_mem_def)
next
  case (Cons x xs)
  have "read_mem (write_mem d i (x # xs)) i (1 + length xs) =
      read_mem (write_mem (d(i := x)) (Suc i) xs) i 1 @
      read_mem (write_mem (d(i := x)) (Suc i) xs) (i + 1) (length xs)"
    by (simp only: read_mem_append write_mem.simps)
  also have "read_mem (write_mem (d(i := x)) (Suc i) xs) i 1 = [x]"
    by (simp add: read_mem_def write_mem_below)
  finally show ?case using Cons.IH by simp
qed

lemma read_mem_write_before:
  "i + n \<le> j \<Longrightarrow> read_mem (write_mem d j xs) i n = read_mem d i n"
  by (auto simp: read_mem_def intro!: write_mem_below)

lemma unat_add_le:
  fixes i a :: u32
  assumes "unat i + n \<le> unat a"
  shows "unat (i + of_nat n) = unat i + n"
proof -
  have "unat i + n < 2 ^ LENGTH(32)"
    using assms unsigned_less [of a] by (rule le_less_trans)
  then show ?thesis
    by (simp add: unat_word_ariths unat_of_nat mod_add_right_eq)
qed

lemma put_u8_eq:
  "put_u8 x b =
     (if unat (cur_index b) + 1 \<le> unat (num_bytes_allocated b)
      then Some (b\<lparr>buffer_data := (buffer_data b)(unat (cur_index b) := x),
                   cur_index := cur_index b + 1, num_bytes_stored := cur_index b + 1\<rparr>)
      else None)"
  by (simp add: put_u8_def memcpy_in_def)

text \<open>A run of bytes is written as a whole or, one byte too many, not at all.\<close>

lemma put_bytes_closed:
  "put_bytes bs b =
     (if bs = [] then Some b
      else if unat (cur_index b) + length bs \<le> unat (num_bytes_allocated b)
      then Some (b\<lparr>buffer_data := write_mem (buffer_data b) (unat (cur_index b)) bs,
                   cur_index := cur_index b + of_nat (length bs),
                   num_bytes_stored := cur_index b + of_nat (length bs)\<rparr>)
      else None)"
proof (induction bs arbitrary: b)
  case Nil
  then show ?case by simp
next
  case (Cons x xs)
  show ?case
  proof (cases "unat (cur_index b) + 1 \<le> unat (num_bytes_allocated b)")
    case True
    have u: "unat (cur_index b + 1) = unat (cur_index b) + 1"
      using unat_add_le [OF True] by simp
    show ?thesis using True by (simp add: put_u8_eq Cons.IH u)
  next
    case False
    then show ?thesis by (simp add: put_u8_eq)
  qed
qed

lemma put_bytes_Nil_fun [simp]: "put_bytes [] = Some"
  by (rule ext) simp

lemma put_bytes_append: "put_bytes (xs @ ys) b = Option.bind (put_bytes xs b) (put_bytes ys)"
proof (induction xs arbitrary: b)
  case Nil
  then show ?case by simp
next
  case (Cons x xs)
  have "put_bytes (xs @ ys) = (\<lambda>b. Option.bind (put_bytes xs b) (put_bytes ys))"
    by (rule ext) (rule Cons.IH)
  then show ?case by simp
qed

lemma put_bytes_simp_append [wire_put]:
  "Option.bind (put_bytes xs b) (put_bytes ys) = put_bytes (xs @ ys) b"
  by (simp add: put_bytes_append)

lemma bind_put_bytes [wire_put]:
  "Option.bind (put_bytes xs b) (\<lambda>b'. Option.bind (put_bytes ys b') F) =
     Option.bind (put_bytes (xs @ ys) b) F"
  by (simp add: put_bytes_append Option.bind_assoc)

lemma be16_Cons: "\<exists>h l. be16 x = [h, l]"
  by (simp add: be16_def)

lemma length_be16 [simp]: "length (be16 x) = 2"
  by (simp add: be16_def)

lemma length_be32 [simp]: "length (be32 x) = 4"
  by (simp add: be32_def)

lemma be16_not_Nil [simp]: "be16 x \<noteq> []"
  by (simp add: be16_def)

lemma be32_not_Nil [simp]: "be32 x \<noteq> []"
  by (simp add: be32_def)

lemma put_u8_bytes [wire_put]: "put_u8 x b = put_bytes [x] b"
  by simp

lemma put_bytes_memcpy:
  assumes "bs \<noteq> []"
  shows "Option.bind (memcpy_in bs b)
      (\<lambda>b. Some (b\<lparr>cur_index := cur_index b + of_nat (length bs),
                   num_bytes_stored := cur_index b + of_nat (length bs)\<rparr>)) = put_bytes bs b"
  using assms by (simp add: put_bytes_closed memcpy_in_def)

declare put_bytes.simps(2) [simp del]

lemma put_u16_bytes [wire_put]: "put_u16 x b = put_bytes (be16 x) b"
proof -
  have "be16 x \<noteq> []" by (simp add: be16_def)
  from put_bytes_memcpy [OF this, of b] show ?thesis
    by (simp add: put_u16_def)
qed

lemma put_u32_bytes [wire_put]: "put_u32 x b = put_bytes (be32 x) b"
proof -
  have "be32 x \<noteq> []" by simp
  from put_bytes_memcpy [OF this, of b] show ?thesis
    by (simp add: put_u32_def)
qed

lemma un_be16_be16 [simp]: "un_be16 (be16 x) = x"
  by (rule bit_word_eqI)
    (auto simp: un_be16_def be16_def bit_simps numeral_2_eq_2 not_less dest: le_Suc_ex)

lemma un_be32_be32 [simp]: "un_be32 (be32 x) = x"
proof (rule bit_word_eqI)
  fix n assume n: "n < LENGTH(32)"
  consider "n < 8" | "8 \<le> n \<and> n < 16" | "16 \<le> n \<and> n < 24" | "24 \<le> n"
    by linarith
  then show "bit (un_be32 (be32 x)) n \<longleftrightarrow> bit x n"
    using n by cases (auto simp: un_be32_def be32_def bit_simps)
qed

lemma skip_0 [simp]: "skip 0 b = b"
  by (simp add: skip_def)

lemma skip_skip [simp]: "skip m (skip n b) = skip (n + m) b"
  by (simp add: skip_def)

lemma skip_alloc [simp]: "num_bytes_allocated (skip n b) = num_bytes_allocated b"
  by (simp add: skip_def)

lemma holds_Nil [simp]: "holds b [] \<longleftrightarrow> cur_index b \<le> num_bytes_allocated b"
  by (simp add: holds_def read_mem_def word_le_nat_alt)

lemma holds_append [wire_get]:
  "holds b (xs @ ys) \<longleftrightarrow> holds b xs \<and> holds (skip (length xs) b) ys"
proof (cases "unat (cur_index b) + length xs \<le> unat (num_bytes_allocated b)")
  case True
  then show ?thesis
    using unat_add_le [OF True] by (auto simp: holds_def skip_def read_mem_append)
qed (simp add: holds_def)

lemma holds_memcpy_out: "holds b bs \<Longrightarrow> n = length bs \<Longrightarrow> memcpy_out n b = Some bs"
  by (simp add: holds_def memcpy_out_def)

lemma get_u8_holds [wire_get]: "holds b [x] \<Longrightarrow> get_u8 b = Some (x, skip 1 b)"
  using holds_memcpy_out [of b "[x]" 1] by (simp add: get_u8_def skip_def)

lemma get_u16_holds [wire_get]: "holds b (be16 x) \<Longrightarrow> get_u16 b = Some (x, skip 2 b)"
  using holds_memcpy_out [of b "be16 x" 2] by (simp add: get_u16_def skip_def)

lemma get_u32_holds [wire_get]: "holds b (be32 x) \<Longrightarrow> get_u32 b = Some (x, skip 4 b)"
  using holds_memcpy_out [of b "be32 x" 4] by (simp add: get_u32_def skip_def)

text \<open>What was put is what the cursor, moved back, finds.\<close>

lemma put_bytes_holds:
  assumes "put_bytes bs b = Some b'" and "bs \<noteq> []"
  shows "holds (b'\<lparr>cur_index := cur_index b\<rparr>) bs"
  using assms by (auto simp: put_bytes_closed holds_def split: if_splits)

lemma put_bytes_sent:
  assumes "put_bytes bs (buf_reset b) = Some b'" and "bs \<noteq> []"
  shows "sent_bytes b' = bs" and "num_bytes_stored b' = of_nat (length bs)"
    and "num_bytes_allocated b' = num_bytes_allocated b" and "cur_index b' = of_nat (length bs)"
    and "length bs \<le> unat (num_bytes_allocated b)"
proof -
  from assms have le: "length bs \<le> unat (num_bytes_allocated b)"
    by (auto simp: put_bytes_closed buf_reset_def split: if_splits)
  have u: "unat (of_nat (length bs) :: u32) = length bs"
    using unat_add_le [of 0 "length bs"] le by simp
  from assms le show "num_bytes_stored b' = of_nat (length bs)"
    "num_bytes_allocated b' = num_bytes_allocated b" "cur_index b' = of_nat (length bs)"
    "length bs \<le> unat (num_bytes_allocated b)"
    by (auto simp: put_bytes_closed buf_reset_def split: if_splits)
  from assms le u show "sent_bytes b' = bs"
    by (auto simp: put_bytes_closed buf_reset_def sent_bytes_def split: if_splits)
qed

lemma put_bytes_fits:
  "bs \<noteq> [] \<Longrightarrow> (\<exists>b'. put_bytes bs b = Some b') \<longleftrightarrow>
     unat (cur_index b) + length bs \<le> unat (num_bytes_allocated b)"
  by (simp add: put_bytes_closed)

lemma read_mem_junk_cong:
  "(\<And>j. i \<le> j \<Longrightarrow> j < i + n \<Longrightarrow> d j = e j) \<Longrightarrow> read_mem d i n = read_mem e i n"
  by (auto simp: read_mem_def)

end
