(* ===== verification/Wire.thy ===== *)
theory Wire
  imports Byte_Buffer
begin

text \<open>
  The contract between a pair of stream operators and their wire format, as locales.

  \<^item> \<open>wire_codec\<close>: the writer appends \<open>enc x\<close>, and the reader gives back any \<open>ok\<close> value whose
    encoding follows the cursor, and moves the cursor past it. Round trips, the condition under
    which a write leaves the block, and unique decodability are consequences.
  \<^item> \<open>bounded_codec\<close>: the encodings of \<open>ok\<close> values have a greatest length.
  \<^item> \<open>fixed_codec\<close>: all encodings have the same length.

  Every message field of the later theories interprets one of them. The combinators \<open>put_list\<close>
  and \<open>get_list\<close> are the counted loops with which the code sends \<^verbatim>\<open>std::list\<close> and
  \<^verbatim>\<open>std::vector\<close>.
\<close>

section \<open>The contract\<close>

locale wire_codec =
  fixes enc :: "'a \<Rightarrow> u8 list"
    and put :: "'a \<Rightarrow> byte_buffer \<Rightarrow> byte_buffer option"
    and get :: "byte_buffer \<Rightarrow> ('a \<times> byte_buffer) option"
    and ok :: "'a \<Rightarrow> bool"
  assumes put_enc: "put x b = put_bytes (enc x) b"
    and get_enc: "ok x \<Longrightarrow> holds b (enc x) \<Longrightarrow> get b = Some (x, skip (length (enc x)) b)"
begin

lemma put_None_iff:
  "enc x \<noteq> [] \<Longrightarrow>
     put x b = None \<longleftrightarrow> unat (num_bytes_allocated b) < unat (cur_index b) + length (enc x)"
  by (simp add: put_enc put_bytes_closed not_le)

lemma roundtrip:
  assumes "put x b = Some b'" and "enc x \<noteq> []" and "ok x"
  shows "get (b'\<lparr>cur_index := cur_index b\<rparr>) = Some (x, b')"
proof -
  have "holds (b'\<lparr>cur_index := cur_index b\<rparr>) (enc x)"
    using assms by (auto simp: put_enc intro: put_bytes_holds)
  with assms(3) have
    "get (b'\<lparr>cur_index := cur_index b\<rparr>) = Some (x, skip (length (enc x)) (b'\<lparr>cur_index := cur_index b\<rparr>))"
    by (rule get_enc)
  also have "skip (length (enc x)) (b'\<lparr>cur_index := cur_index b\<rparr>) = b'"
    using assms by (auto simp: put_enc put_bytes_closed skip_def split: if_splits)
  finally show ?thesis .
qed

lemma transport:
  assumes "put x (buf_reset b) = Some b'" and "enc x \<noteq> []" and "ok x"
    and "holds r (sent_bytes b')"
  shows "get r = Some (x, skip (length (enc x)) r)"
  using assms put_bytes_sent(1) [of "enc x" b b'] by (simp add: put_enc get_enc)

lemma decode_unique:
  assumes "ok x" and "ok y" and "enc x @ r = enc y @ s" and "length (enc x @ r) < 2 ^ 32"
  shows "x = y" and "r = s"
proof -
  define b where "b = \<lparr>num_bytes_allocated = of_nat (length (enc x @ r)), num_bytes_stored = 0,
    cur_index = 0, buffer_data = write_mem (\<lambda>_. 0) 0 (enc x @ r)\<rparr>"
  have len: "unat (of_nat (length (enc x @ r)) :: u32) = length (enc x @ r)"
    by (rule unat_of_nat_small) (use assms(4) in simp)
  have h: "holds b (enc x @ r)"
    using len read_write_mem [of "\<lambda>_. 0" 0 "enc x @ r"]
    by (simp add: holds_def b_def del: length_append)
  then have hx: "holds b (enc x)" by (simp only: holds_append)
  have hy: "holds b (enc y)" using h unfolding assms(3) by (simp only: holds_append)
  from hx hy show "x = y"
    using get_enc [OF assms(1) hx] get_enc [OF assms(2) hy] by simp
  then show "r = s" using assms(3) by simp
qed

end

locale bounded_codec = wire_codec +
  fixes m :: nat
  assumes enc_bound: "ok x \<Longrightarrow> length (enc x) \<le> m"
begin

lemma put_fits:
  assumes "ok x" and "enc x \<noteq> []"
    and "unat (cur_index b) + m \<le> unat (num_bytes_allocated b)"
  shows "\<exists>b'. put x b = Some b'"
  using assms enc_bound [OF assms(1)] by (simp add: put_enc put_bytes_fits)

end

locale fixed_codec = wire_codec +
  fixes m :: nat
  assumes enc_fixed: "length (enc x) = m"

sublocale fixed_codec \<subseteq> bounded_codec
  by unfold_locales (simp add: enc_fixed)

section \<open>Scalars\<close>

interpretation u8: fixed_codec "\<lambda>x. [x]" put_u8 get_u8 "\<lambda>_. True" 1
  by unfold_locales (simp_all only: wire_put, simp_all add: get_u8_holds)

interpretation u16: fixed_codec be16 put_u16 get_u16 "\<lambda>_. True" 2
  by unfold_locales (simp_all add: wire_put get_u16_holds)

interpretation u32: fixed_codec be32 put_u32 get_u32 "\<lambda>_. True" 4
  by unfold_locales (simp_all add: wire_put get_u32_holds)

definition enc_bool :: "bool \<Rightarrow> u8 list" where
  "enc_bool v = be16 (if v then 1 else 0)"

interpretation bool: fixed_codec enc_bool put_bool get_bool "\<lambda>_. True" 2
  by unfold_locales
    (auto simp: enc_bool_def put_bool_def put_u16_bytes get_bool_def get_u16_holds)

definition enc_char :: "char \<Rightarrow> u8 list" where
  "enc_char c = [of_char c]"

lemma char_of_unat_of_char [simp]: "char_of (unat (of_char c :: u8)) = c"
proof -
  have "unat (of_char c :: u8) = unat (of_nat (of_char c) :: u8)"
    by (simp add: of_nat_of_char)
  also have "\<dots> = of_char c"
    by (rule unat_of_nat_small) simp
  finally show ?thesis by simp
qed

interpretation char: fixed_codec enc_char put_char get_char "\<lambda>_. True" 1
proof unfold_locales
  fix c b
  assume "holds b (enc_char c)"
  then have "get_u8 b = Some (of_char c, skip 1 b)"
    unfolding enc_char_def by (rule get_u8_holds)
  then show "get_char b = Some (c, skip (length (enc_char c)) b)"
    by (simp add: get_char_def enc_char_def)
qed (simp_all add: enc_char_def put_char_def put_u8_bytes)

text \<open>
  A \<^verbatim>\<open>timeval\<close> travels as two 32-bit words: only times below \<open>2 ^ 32\<close> come back.
\<close>

definition timeval_ok :: "timeval \<Rightarrow> bool" where
  "timeval_ok tv \<longleftrightarrow> 0 \<le> tv_sec tv \<and> tv_sec tv < 2 ^ 32 \<and> 0 \<le> tv_usec tv \<and> tv_usec tv < 2 ^ 32"

definition enc_timeval :: "timeval \<Rightarrow> u8 list" where
  "enc_timeval tv = be32 (word_of_int (tv_sec tv)) @ be32 (word_of_int (tv_usec tv))"

lemma uint_word_of_int_32: "0 \<le> k \<Longrightarrow> k < 2 ^ 32 \<Longrightarrow> uint (word_of_int k :: u32) = k"
  by (simp add: unsigned_of_int take_bit_int_eq_self)

interpretation timeval: fixed_codec enc_timeval put_timeval get_timeval timeval_ok 8
proof unfold_locales
  fix tv b
  assume "timeval_ok tv" and "holds b (enc_timeval tv)"
  then show "get_timeval b = Some (tv, skip (length (enc_timeval tv)) b)"
    by (auto simp: enc_timeval_def get_timeval_def holds_append get_u32_holds timeval_ok_def
        uint_word_of_int_32)
qed (simp_all add: enc_timeval_def put_timeval_def wire_put)

section \<open>Counted lists\<close>

fun put_all :: "('a \<Rightarrow> byte_buffer \<Rightarrow> byte_buffer option) \<Rightarrow> 'a list \<Rightarrow> byte_buffer \<Rightarrow> byte_buffer option" where
  "put_all put [] b = Some b"
| "put_all put (x # xs) b = do { b \<leftarrow> put x b; put_all put xs b }"

fun get_n :: "(byte_buffer \<Rightarrow> ('a \<times> byte_buffer) option) \<Rightarrow> nat \<Rightarrow> byte_buffer \<Rightarrow> ('a list \<times> byte_buffer) option" where
  "get_n get 0 b = Some ([], b)"
| "get_n get (Suc n) b = do { (x, b) \<leftarrow> get b; (xs, b) \<leftarrow> get_n get n b; Some (x # xs, b) }"

definition put_list :: "('a \<Rightarrow> byte_buffer \<Rightarrow> byte_buffer option) \<Rightarrow> 'a list \<Rightarrow> byte_buffer \<Rightarrow> byte_buffer option" where
  "put_list put xs b = do { b \<leftarrow> put_u32 (of_nat (length xs)) b; put_all put xs b }"

definition get_list :: "(byte_buffer \<Rightarrow> ('a \<times> byte_buffer) option) \<Rightarrow> byte_buffer \<Rightarrow> ('a list \<times> byte_buffer) option" where
  "get_list get b = do { (n, b) \<leftarrow> get_u32 b; get_n get (unat n) b }"

definition enc_list :: "('a \<Rightarrow> u8 list) \<Rightarrow> 'a list \<Rightarrow> u8 list" where
  "enc_list enc xs = be32 (of_nat (length xs)) @ concat (map enc xs)"

definition list_ok :: "('a \<Rightarrow> bool) \<Rightarrow> 'a list \<Rightarrow> bool" where
  "list_ok ok xs \<longleftrightarrow> length xs < 2 ^ 32 \<and> list_all ok xs"

context wire_codec
begin

lemma put_all_enc: "put_all put xs b = put_bytes (concat (map enc xs)) b"
proof (induction xs arbitrary: b)
  case Nil
  then show ?case by simp
next
  case (Cons x xs)
  have "put_all put xs = put_bytes (concat (map enc xs))"
    by (rule ext) (rule Cons.IH)
  then show ?case by (simp add: put_enc [of x] put_bytes_append)
qed

lemma get_n_enc:
  assumes "list_all ok xs" and "holds b (concat (map enc xs))"
  shows "get_n get (length xs) b = Some (xs, skip (length (concat (map enc xs))) b)"
  using assms
proof (induction xs arbitrary: b)
  case Nil
  then show ?case by simp
next
  case (Cons x xs)
  then show ?case by (auto simp: holds_append get_enc)
qed

lemma list_codec: "wire_codec (enc_list enc) (put_list put) (get_list get) (list_ok ok)"
proof
  fix xs b
  show "put_list put xs b = put_bytes (enc_list enc xs) b"
    by (simp add: put_list_def enc_list_def put_all_enc put_u32_bytes put_bytes_append)
next
  fix xs b
  assume "list_ok ok xs" and h: "holds b (enc_list enc xs)"
  then have ok: "list_all ok xs" and n: "unat (of_nat (length xs) :: u32) = length xs"
    by (simp_all add: list_ok_def unat_of_nat)
  from h have "get_u32 b = Some (of_nat (length xs), skip 4 b)"
    and "holds (skip 4 b) (concat (map enc xs))"
    by (simp_all add: enc_list_def holds_append get_u32_holds)
  with get_n_enc [OF ok, of "skip 4 b"]
  show "get_list get b = Some (xs, skip (length (enc_list enc xs)) b)"
    by (simp add: get_list_def enc_list_def n)
qed

end

lemma length_enc_list:
  "length (enc_list enc xs) = 4 + (\<Sum>x\<leftarrow>xs. length (enc x))"
  by (simp add: enc_list_def length_concat comp_def)

end
