(* ===== verification/Rendezvous.thy ===== *)
theory Rendezvous
  imports Wire
begin

text \<open>
  The rendezvous marker of \<^verbatim>\<open>shared/rendezvous.h\<close> and \<^verbatim>\<open>shared/rendezvous.cc\<close>: 28 bytes
  in the header of every message, of which only \<open>id\<close> and \<open>seq\<close> are compared. A
  \<^verbatim>\<open>std::map<rendezvous, T>\<close> is therefore a map from \<open>rend_key\<close>, ordered as
  \<^verbatim>\<open>operator<\<close> orders markers.
\<close>

record rendezvous =
  rz_id :: u8
  rz_unused1 :: u16
  rz_unused2 :: u8
  rz_seq :: u32
  rz_unused3 :: u32
  rz_unused4 :: u32
  rz_unused5 :: u32
  rz_unused6 :: u32
  rz_unused7 :: u32

definition rendezvous_new :: rendezvous where
  "rendezvous_new = \<lparr>rz_id = 0, rz_unused1 = 0, rz_unused2 = 0, rz_seq = 0, rz_unused3 = 0,
     rz_unused4 = 0, rz_unused5 = 0, rz_unused6 = 0, rz_unused7 = 0\<rparr>"

definition rendezvous_of :: "u32 \<Rightarrow> u32 \<Rightarrow> rendezvous" where
  "rendezvous_of id_num seq_num =
     \<lparr>rz_id = ucast id_num, rz_unused1 = 0, rz_unused2 = 0, rz_seq = seq_num, rz_unused3 = 0,
      rz_unused4 = 0, rz_unused5 = 0, rz_unused6 = 0, rz_unused7 = 0\<rparr>"

definition rendezvous_copy :: "rendezvous \<Rightarrow> rendezvous" where
  "rendezvous_copy r =
     \<lparr>rz_id = rz_id r, rz_unused1 = rz_unused1 r, rz_unused2 = rz_unused2 r, rz_seq = rz_seq r,
      rz_unused3 = rz_unused3 r, rz_unused4 = rz_unused4 r, rz_unused5 = rz_unused5 r,
      rz_unused6 = rz_unused6 r, rz_unused7 = rz_unused7 r\<rparr>"

definition rendezvous_eq :: "rendezvous \<Rightarrow> rendezvous \<Rightarrow> bool" where
  "rendezvous_eq a r = (if rz_id a = rz_id r \<and> rz_seq a = rz_seq r then True else False)"

definition rendezvous_lt :: "rendezvous \<Rightarrow> rendezvous \<Rightarrow> bool" where
  "rendezvous_lt a r =
     (if rz_id a < rz_id r then True
      else if rz_id a > rz_id r then False
      else if rz_seq a < rz_seq r then True
      else False)"

definition put_rendezvous :: "rendezvous \<Rightarrow> byte_buffer \<Rightarrow> byte_buffer option" where
  "put_rendezvous r b = do {
     b \<leftarrow> put_u8 (rz_id r) b;
     b \<leftarrow> put_u16 (rz_unused1 r) b;
     b \<leftarrow> put_u8 (rz_unused2 r) b;
     b \<leftarrow> put_u32 (rz_seq r) b;
     b \<leftarrow> put_u32 (rz_unused3 r) b;
     b \<leftarrow> put_u32 (rz_unused4 r) b;
     b \<leftarrow> put_u32 (rz_unused5 r) b;
     b \<leftarrow> put_u32 (rz_unused6 r) b;
     put_u32 (rz_unused7 r) b
   }"

definition get_rendezvous :: "byte_buffer \<Rightarrow> (rendezvous \<times> byte_buffer) option" where
  "get_rendezvous b = do {
     (i, b) \<leftarrow> get_u8 b;
     (u1, b) \<leftarrow> get_u16 b;
     (u2, b) \<leftarrow> get_u8 b;
     (s, b) \<leftarrow> get_u32 b;
     (u3, b) \<leftarrow> get_u32 b;
     (u4, b) \<leftarrow> get_u32 b;
     (u5, b) \<leftarrow> get_u32 b;
     (u6, b) \<leftarrow> get_u32 b;
     (u7, b) \<leftarrow> get_u32 b;
     Some (\<lparr>rz_id = i, rz_unused1 = u1, rz_unused2 = u2, rz_seq = s, rz_unused3 = u3,
            rz_unused4 = u4, rz_unused5 = u5, rz_unused6 = u6, rz_unused7 = u7\<rparr>, b)
   }"

definition enc_rendezvous :: "rendezvous \<Rightarrow> u8 list" where
  "enc_rendezvous r = [rz_id r] @ be16 (rz_unused1 r) @ [rz_unused2 r] @ be32 (rz_seq r) @
     be32 (rz_unused3 r) @ be32 (rz_unused4 r) @ be32 (rz_unused5 r) @ be32 (rz_unused6 r) @
     be32 (rz_unused7 r)"

interpretation rendezvous: fixed_codec enc_rendezvous put_rendezvous get_rendezvous "\<lambda>_. True" 28
proof unfold_locales
  fix r b
  show "put_rendezvous r b = put_bytes (enc_rendezvous r) b"
    by (simp add: put_rendezvous_def enc_rendezvous_def wire_put)
next
  fix r b assume "holds b (enc_rendezvous r)"
  then have "holds b ([rz_id r] @ be16 (rz_unused1 r) @ [rz_unused2 r] @ be32 (rz_seq r) @
     be32 (rz_unused3 r) @ be32 (rz_unused4 r) @ be32 (rz_unused5 r) @ be32 (rz_unused6 r) @
     be32 (rz_unused7 r))"
    unfolding enc_rendezvous_def .
  then show "get_rendezvous b = Some (r, skip (length (enc_rendezvous r)) b)"
    unfolding holds_append by (auto simp: get_rendezvous_def enc_rendezvous_def wire_get)
qed (simp add: enc_rendezvous_def)

lemmas [wire_put] = rendezvous.put_enc
lemmas [wire_get] = rendezvous.get_enc
lemmas [wire_len] = rendezvous.enc_fixed

section \<open>Keys\<close>

datatype rend_key = RKey (rk_id: u8) (rk_seq: u32)

definition key_of :: "rendezvous \<Rightarrow> rend_key" where
  "key_of r = RKey (rz_id r) (rz_seq r)"

instantiation rend_key :: linorder
begin

definition less_eq_rend_key :: "rend_key \<Rightarrow> rend_key \<Rightarrow> bool" where
  "a \<le> b \<longleftrightarrow> rk_id a < rk_id b \<or> rk_id a = rk_id b \<and> rk_seq a \<le> rk_seq b"

definition less_rend_key :: "rend_key \<Rightarrow> rend_key \<Rightarrow> bool" where
  "a < b \<longleftrightarrow> rk_id a < rk_id b \<or> rk_id a = rk_id b \<and> rk_seq a < rk_seq b"

instance
  by standard (auto simp: less_eq_rend_key_def less_rend_key_def rend_key.expand)

end

lemma rendezvous_lt_key: "rendezvous_lt a b \<longleftrightarrow> key_of a < key_of b"
  by (auto simp: rendezvous_lt_def key_of_def less_rend_key_def)

lemma rendezvous_eq_key: "rendezvous_eq a b \<longleftrightarrow> key_of a = key_of b"
  by (simp add: rendezvous_eq_def key_of_def)

lemma rendezvous_copy_id [simp]: "rendezvous_copy r = r"
  by (simp add: rendezvous_copy_def)

lemma key_of_new [simp]: "key_of rendezvous_new = RKey 0 0"
  by (simp add: key_of_def rendezvous_new_def)

lemma key_of_of [simp]: "key_of (rendezvous_of i s) = RKey (ucast i) s"
  by (simp add: key_of_def rendezvous_of_def)

end
