(* ===== verification/Util.thy ===== *)
theory Util
  imports Prelude
begin

text \<open>
  \<^verbatim>\<open>shared/util.cc\<close> and \<^verbatim>\<open>shared/util.h\<close>: time arithmetic, the log files and the scoped
  lock guards. The clock, the thread id, \<^verbatim>\<open>strerror_r\<close> and the return codes of the system
  calls are arguments. Times are integers: a \<^verbatim>\<open>time_t\<close> or \<^verbatim>\<open>long\<close> of 64 bits does not
  overflow on them while the nanoseconds are normalised.
\<close>

section \<open>Times\<close>

record timespec =
  ts_sec :: int
  ts_nsec :: int

definition timespec_add :: "timespec \<Rightarrow> timespec \<Rightarrow> timespec" where
  "timespec_add t1 t2 =
     (let sec = ts_sec t1 + ts_sec t2; nsec = ts_nsec t1 + ts_nsec t2 in
      if nsec \<ge> 1000000000 then \<lparr>ts_sec = sec + 1, ts_nsec = nsec - 1000000000\<rparr>
      else \<lparr>ts_sec = sec, ts_nsec = nsec\<rparr>)"

definition timespec_diff :: "timespec \<Rightarrow> timespec \<Rightarrow> bool \<times> timespec" where
  "timespec_diff t1 t2 =
     (if ts_sec t1 = ts_sec t2 then
        (let sec = 0; nsec = ts_nsec t1 - ts_nsec t2 in
         if nsec < 0 then (False, \<lparr>ts_sec = sec - 1, ts_nsec = 1000000000 + nsec\<rparr>)
         else (True, \<lparr>ts_sec = sec, ts_nsec = nsec\<rparr>))
      else if ts_sec t1 < ts_sec t2 then
        (let sec = ts_sec t1 - ts_sec t2 + 1;
             nsec = -1 * (1000000000 - ts_nsec t1 + ts_nsec t2);
             (sec, nsec) = (if nsec \<le> -1000000000 then (sec - 1, nsec + 1000000000) else (sec, nsec));
             (sec, nsec) = (if nsec < 0 then (sec - 1, 1000000000 + nsec) else (sec, nsec))
         in (False, \<lparr>ts_sec = sec, ts_nsec = nsec\<rparr>))
      else
        (let sec = ts_sec t1 - ts_sec t2 - 1; nsec = ts_nsec t1 + 1000000000 - ts_nsec t2 in
         if nsec \<ge> 1000000000 then (True, \<lparr>ts_sec = sec + 1, ts_nsec = nsec - 1000000000\<rparr>)
         else (True, \<lparr>ts_sec = sec, ts_nsec = nsec\<rparr>)))"

definition nanoseconds :: "timespec \<Rightarrow> int" where
  "nanoseconds t = ts_sec t * 1000000000 + ts_nsec t"

definition timespec_ok :: "timespec \<Rightarrow> bool" where
  "timespec_ok t \<longleftrightarrow> 0 \<le> ts_nsec t \<and> ts_nsec t < 1000000000"

lemma timespec_add_ok: "timespec_ok t1 \<Longrightarrow> timespec_ok t2 \<Longrightarrow> timespec_ok (timespec_add t1 t2)"
  by (simp add: timespec_add_def timespec_ok_def Let_def)

lemma timespec_diff_nanoseconds:
  "nanoseconds (snd (timespec_diff t1 t2)) = nanoseconds t1 - nanoseconds t2"
  by (simp add: timespec_diff_def nanoseconds_def Let_def algebra_simps)

lemma timespec_diff_ok:
  "timespec_ok t1 \<Longrightarrow> timespec_ok t2 \<Longrightarrow> timespec_ok (snd (timespec_diff t1 t2))"
  by (simp add: timespec_diff_def timespec_ok_def Let_def)

lemma timespec_diff_ge:
  "timespec_ok t1 \<Longrightarrow> timespec_ok t2 \<Longrightarrow>
     fst (timespec_diff t1 t2) \<longleftrightarrow> nanoseconds t2 \<le> nanoseconds t1"
  by (auto simp: timespec_diff_def timespec_ok_def nanoseconds_def Let_def)

section \<open>Log files\<close>

text \<open>
  A file system is a map from names to contents. The rotation moves \<^verbatim>\<open>name.i\<close> over
  \<^verbatim>\<open>name.(i+1)\<close>, for \<open>i\<close> from 4 down to 0; \<open>ren\<close> says which \<^verbatim>\<open>rename\<close>s the system lets
  succeed and \<open>opn\<close> whether \<^verbatim>\<open>open\<close> does. \<open>Inl\<close> is the thrown \<^verbatim>\<open>log_exception\<close>, with the
  files as they are at that moment.
\<close>

type_synonym file_system = "string \<Rightarrow> string option"

definition log_exception :: "string \<Rightarrow> string" where
  "log_exception e = ''Log exception: '' @ e"

definition log_name :: "string \<Rightarrow> nat \<Rightarrow> string" where
  "log_name filename i = (if i = 0 then filename else filename @ ''.'' @ int2str (of_nat i))"

fun log_rotate ::
    "(string \<Rightarrow> string \<Rightarrow> bool) \<Rightarrow> string \<Rightarrow> nat \<Rightarrow> file_system \<Rightarrow> (string \<times> file_system) + file_system" where
  "log_rotate ren filename n fs =
     (let next = (\<lambda>fs. case n of 0 \<Rightarrow> Inr fs | Suc i \<Rightarrow> log_rotate ren filename i fs);
          f1 = log_name filename n; f2 = filename @ ''.'' @ int2str (of_nat (n + 1)) in
      case fs f1 of
        None \<Rightarrow> next fs
      | Some c \<Rightarrow>
          if ren f1 f2 then next (fs(f1 := None, f2 \<mapsto> c))
          else Inl (log_exception ''log rotate failed'', fs))"

definition log_file_new ::
    "(string \<Rightarrow> string \<Rightarrow> bool) \<Rightarrow> bool \<Rightarrow> string \<Rightarrow> file_system \<Rightarrow> (string \<times> file_system) + file_system" where
  "log_file_new ren opn filename fs =
     (case log_rotate ren filename 4 fs of
        Inl e \<Rightarrow> Inl e
      | Inr fs \<Rightarrow>
          if opn then Inr (fs(filename \<mapsto> []))
          else Inl (log_exception (''open failed for file '' @ filename), fs))"

declare log_rotate.simps [simp del]

lemma log_name_eq [simp]: "i < 10 \<Longrightarrow> j < 10 \<Longrightarrow> log_name f i = log_name f j \<longleftrightarrow> i = j"
proof -
  assume "i < 10" "j < 10"
  then have "int2str (of_nat i) = int2str (of_nat j) \<longleftrightarrow> i = j"
    by (simp add: int2str_inj word_unat_eq_iff unat_of_nat_small)
  then show ?thesis by (auto simp: log_name_def)
qed

lemma log_rotate_moves:
  assumes "\<And>i. ren (log_name f i) (log_name f (Suc i))" and "n < 9"
  shows "\<exists>fs'. log_rotate ren f n fs = Inr fs' \<and>
     fs' f = None \<and>
     (\<forall>i \<le> n. fs' (log_name f (Suc i)) =
        (if i = n \<and> fs (log_name f n) = None then fs (log_name f (Suc n)) else fs (log_name f i))) \<and>
     (\<forall>g. (\<forall>i \<le> Suc n. g \<noteq> log_name f i) \<longrightarrow> fs' g = fs g)"
  using assms(2)
proof (induction n arbitrary: fs)
  case 0
  have "f \<noteq> log_name f (Suc 0)" by (simp add: log_name_def)
  have [simp]: "log_name f 0 = f" "f @ CHR ''.'' # int2str 1 = log_name f (Suc 0)"
    by (simp_all add: log_name_def)
  with \<open>f \<noteq> log_name f (Suc 0)\<close> assms(1) [of 0] show ?case
    by (auto simp: log_rotate.simps [of _ _ 0] Let_def split: option.split)
next
  case (Suc n)
  define fs1 where "fs1 = (case fs (log_name f (Suc n)) of None \<Rightarrow> fs
      | Some c \<Rightarrow> fs(log_name f (Suc n) := None, log_name f (Suc (Suc n)) \<mapsto> c))"
  have nm: "f @ ''.'' @ int2str (of_nat (Suc n + 1)) = log_name f (Suc (Suc n))"
    by (simp add: log_name_def)
  have step: "log_rotate ren f (Suc n) fs = log_rotate ren f n fs1"
    unfolding log_rotate.simps [of _ _ "Suc n"] fs1_def nm Let_def
    using assms(1) [of "Suc n"] by (simp split: option.split)
  from Suc.IH [of fs1] Suc.prems obtain fs' where IH: "log_rotate ren f n fs1 = Inr fs'"
      "fs' f = None"
      "\<And>i. i \<le> n \<Longrightarrow> fs' (log_name f (Suc i)) =
        (if i = n \<and> fs1 (log_name f n) = None then fs1 (log_name f (Suc n)) else fs1 (log_name f i))"
      "\<And>g. (\<forall>i \<le> Suc n. g \<noteq> log_name f i) \<Longrightarrow> fs' g = fs1 g"
    by auto
  have old: "fs1 (log_name f i) = fs (log_name f i)" if "i \<le> n" for i
    using that Suc.prems by (auto simp: fs1_def split: option.split)
  have gap: "fs1 (log_name f (Suc n)) = None"
    using Suc.prems by (auto simp: fs1_def split: option.split)
  have top: "fs1 (log_name f (Suc (Suc n))) =
      (if fs (log_name f (Suc n)) = None then fs (log_name f (Suc (Suc n))) else fs (log_name f (Suc n)))"
    by (auto simp: fs1_def split: option.split)
  have "fs' (log_name f (Suc (Suc n))) = fs1 (log_name f (Suc (Suc n)))"
    by (rule IH(4)) (use Suc.prems in auto)
  with top have new: "fs' (log_name f (Suc (Suc n))) =
      (if fs (log_name f (Suc n)) = None then fs (log_name f (Suc (Suc n))) else fs (log_name f (Suc n)))"
    by simp
  have rest: "fs' g = fs g" if "\<forall>i \<le> Suc (Suc n). g \<noteq> log_name f i" for g
    using that IH(4) [of g] by (auto simp: fs1_def split: option.split)
  have "fs' (log_name f (Suc i)) = fs (log_name f i)" if "i \<le> n" for i
    using that IH(3) [OF that] gap old [OF that] by auto
  then show ?case
    using step IH(1,2) new rest by (auto simp: le_Suc_eq)
qed

text \<open>
  \<^verbatim>\<open>log_file::write\<close>: the line that is appended, and what goes to standard error when the
  system wrote \<open>rv\<close> bytes only. \<open>tstr\<close> is what \<^verbatim>\<open>ctime_r\<close> left in its buffer, cut at 20.
\<close>

definition write_stderr :: "string \<Rightarrow> (int \<Rightarrow> string) \<Rightarrow> string \<Rightarrow> int \<Rightarrow> string" where
  "write_stderr tstr strerror msg errnum =
     take 20 tstr @ (if errnum \<noteq> 0 then c_str (strerror errnum) else []) @ msg @ [CHR 0x0A]"

definition write_stdout :: "string \<Rightarrow> string \<Rightarrow> string" where
  "write_stdout tstr msg = take 20 tstr @ msg @ [CHR 0x0A]"

definition log_file_line :: "string \<Rightarrow> nat \<Rightarrow> (int \<Rightarrow> string) \<Rightarrow> string \<Rightarrow> int \<Rightarrow> string" where
  "log_file_line tstr tid strerror msg errnum =
     (let s = take 20 tstr;
          s = s @ ''tid('' @ int2str (of_nat tid) @ '') '';
          s = (if errnum \<noteq> 0 then s @ c_str (strerror errnum) else s)
      in s @ msg @ [CHR 0x0A])"

record log_output =
  lo_file :: string
  lo_stderr :: string
  lo_stdout :: string

definition log_file_write ::
    "string \<Rightarrow> nat \<Rightarrow> (int \<Rightarrow> string) \<Rightarrow> (string \<Rightarrow> int) \<Rightarrow> int \<Rightarrow> string \<Rightarrow> int \<Rightarrow> log_output \<Rightarrow> log_output" where
  "log_file_write tstr tid strerror os_write errno msg errnum o' =
     (let s = log_file_line tstr tid strerror msg errnum; rv = os_write s;
          o' = o'\<lparr>lo_file := lo_file o' @ take (nat rv) s\<rparr> in
      if rv \<noteq> int (length s) then
        o'\<lparr>lo_stderr := lo_stderr o' @ write_stderr tstr strerror ''log_file::write failed: '' errno
             @ write_stderr tstr strerror (''          original msg: '' @ msg) 0\<rparr>
      else o')"

definition write_log ::
    "bool \<Rightarrow> string \<Rightarrow> nat \<Rightarrow> (int \<Rightarrow> string) \<Rightarrow> (string \<Rightarrow> int) \<Rightarrow> int \<Rightarrow> string \<Rightarrow> int \<Rightarrow> log_output \<Rightarrow> log_output" where
  "write_log open_log tstr tid strerror os_write errno msg errnum o' =
     (if open_log then log_file_write tstr tid strerror os_write errno msg errnum o'
      else if errnum \<noteq> 0 then o'\<lparr>lo_stderr := lo_stderr o' @ write_stderr tstr strerror msg errnum\<rparr>
      else o'\<lparr>lo_stdout := lo_stdout o' @ write_stdout tstr msg\<rparr>)"

definition write_usage_log ::
    "bool \<Rightarrow> string \<Rightarrow> nat \<Rightarrow> (int \<Rightarrow> string) \<Rightarrow> (string \<Rightarrow> int) \<Rightarrow> int \<Rightarrow> string \<Rightarrow> int \<Rightarrow> log_output \<Rightarrow> log_output" where
  "write_usage_log open_log tstr tid strerror os_write errno msg errnum o' =
     (if open_log then log_file_write tstr tid strerror os_write errno msg errnum o'
      else if errnum \<noteq> 0 then o'\<lparr>lo_stderr := lo_stderr o' @ write_stderr tstr strerror msg errnum\<rparr>
      else o'\<lparr>lo_stdout := lo_stdout o' @ write_stdout tstr msg\<rparr>)"

section \<open>Lock guards\<close>

text \<open>
  \<^verbatim>\<open>autoRdLock\<close>, \<^verbatim>\<open>autoWrLock\<close>, \<^verbatim>\<open>autoLock\<close> and \<^verbatim>\<open>autoLockDebug\<close>. A guard
  object has its flag \<^verbatim>\<open>locked_\<close>, the number of times it has acquired the lock and not released it
  (which is the system's state, not the program's) and the lines it has logged. \<open>rc\<close> is the
  return code of the pthread function, 0 for success.
\<close>

abbreviation EDEADLK :: int where "EDEADLK \<equiv> 35"

record guard =
  gd_locked :: bool
  held :: int
  guard_log :: "string list"

definition guard_init :: guard where
  "guard_init = \<lparr>gd_locked = False, held = 0, guard_log = []\<rparr>"

definition acquired :: "int \<Rightarrow> guard \<Rightarrow> guard" where
  "acquired rc g = (if rc = 0 then g\<lparr>held := held g + 1\<rparr> else g)"

definition released :: "int \<Rightarrow> guard \<Rightarrow> guard" where
  "released rc g = (if rc = 0 then g\<lparr>held := held g - 1\<rparr> else g)"

definition guard_say :: "string \<Rightarrow> guard \<Rightarrow> guard" where
  "guard_say msg g = g\<lparr>guard_log := guard_log g @ [msg]\<rparr>"

definition autoRdLock_unlock :: "int \<Rightarrow> guard \<Rightarrow> int \<times> guard" where
  "autoRdLock_unlock rc g =
     (if gd_locked g = True then
        (let g = released rc g in
         if rc \<noteq> 0 \<and> rc \<noteq> EDEADLK then (rc, guard_say ''pthread_rwlock_unlock failed!'' g)
         else (rc, g\<lparr>gd_locked := False\<rparr>))
      else (0, g))"

definition autoRdLock_lock :: "int \<Rightarrow> guard \<Rightarrow> int \<times> guard" where
  "autoRdLock_lock rc g =
     (if gd_locked g = False then
        (let g = acquired rc g in
         if rc \<noteq> 0 then (rc, guard_say ''pthread_rwlock_rdlock failed!'' g)
         else (rc, g\<lparr>gd_locked := True\<rparr>))
      else (0, g))"

definition autoWrLock_unlock :: "int \<Rightarrow> guard \<Rightarrow> int \<times> guard" where
  "autoWrLock_unlock rc g =
     (if gd_locked g = True then
        (let g = released rc g in
         if rc \<noteq> 0 \<and> rc \<noteq> EDEADLK then (rc, guard_say ''pthread_rwlock_unlock failed!'' g)
         else (rc, g\<lparr>gd_locked := False\<rparr>))
      else (0, g))"

definition autoWrLock_lock :: "int \<Rightarrow> guard \<Rightarrow> int \<times> guard" where
  "autoWrLock_lock rc g =
     (if gd_locked g = False then
        (let g = acquired rc g in
         if rc \<noteq> 0 then (rc, guard_say ''pthread_rwlock_rdlock failed!'' g)
         else (rc, g\<lparr>gd_locked := True\<rparr>))
      else (0, g))"

definition autoLock_unlock :: "int \<Rightarrow> guard \<Rightarrow> int \<times> guard" where
  "autoLock_unlock rc g =
     (if gd_locked g = True then
        (let g = released rc g in
         if rc \<noteq> 0 \<and> rc \<noteq> EDEADLK then (rc, guard_say ''pthread_mutex_unlock failed!'' g)
         else (rc, g\<lparr>gd_locked := False\<rparr>))
      else (0, g))"

definition autoLock_lock :: "int \<Rightarrow> guard \<Rightarrow> int \<times> guard" where
  "autoLock_lock rc g =
     (if gd_locked g = False then
        (let g = acquired rc g in
         if rc \<noteq> 0 then (rc, guard_say ''pthread_mutex_lock failed!'' g)
         else (rc, g\<lparr>gd_locked := True\<rparr>))
      else (0, g))"

definition autoLockDebug_unlock :: "string \<Rightarrow> int \<Rightarrow> guard \<Rightarrow> int \<times> guard" where
  "autoLockDebug_unlock nm rc g =
     (if gd_locked g = True then
        (let g = released rc g in
         if rc \<noteq> 0 \<and> rc \<noteq> EDEADLK then (rc, guard_say (nm @ '' pthread_mutex_unlock failed'') g)
         else (rc, g\<lparr>gd_locked := False\<rparr>))
      else (0, guard_say (nm @ '' did not have lock'') g))"

definition autoLockDebug_lock :: "string \<Rightarrow> int \<Rightarrow> guard \<Rightarrow> int \<times> guard" where
  "autoLockDebug_lock nm rc g =
     (if gd_locked g = False then
        (let g = acquired rc g in
         if rc \<noteq> 0 then (rc, guard_say (nm @ '' pthread_mutex_lock failed'') g)
         else (rc, g\<lparr>gd_locked := True\<rparr>))
      else (0, guard_say (nm @ '' already had lock'') g))"

definition autoLockDebug_delete :: "string \<Rightarrow> int \<Rightarrow> guard \<Rightarrow> guard" where
  "autoLockDebug_delete nm rc g = (if gd_locked g = True then snd (autoLockDebug_unlock nm rc g) else g)"

text \<open>
  The contract of a guard: the constructor locks, the body calls \<open>lock\<close> and \<open>unlock\<close> in any
  order, with any outcome, and the destructor unlocks.
\<close>

datatype guard_op = Lock int | Unlock int

locale scoped_guard =
  fixes lk :: "int \<Rightarrow> guard \<Rightarrow> int \<times> guard"
    and ul :: "int \<Rightarrow> guard \<Rightarrow> int \<times> guard"
    and dtor :: "int \<Rightarrow> guard \<Rightarrow> guard"
  assumes lk_flag: "gd_locked (snd (lk rc g)) \<longleftrightarrow> gd_locked g \<or> rc = 0"
    and lk_held: "held (snd (lk rc g)) = held g + of_bool (\<not> gd_locked g \<and> rc = 0)"
    and ul_flag: "gd_locked (snd (ul rc g)) \<longleftrightarrow> gd_locked g \<and> rc \<noteq> 0 \<and> rc \<noteq> EDEADLK"
    and ul_held: "held (snd (ul rc g)) = held g - of_bool (gd_locked g \<and> rc = 0)"
    and dtor_flag: "gd_locked (dtor rc g) \<longleftrightarrow> gd_locked (snd (ul rc g))"
    and dtor_held: "held (dtor rc g) = held (snd (ul rc g))"
begin

fun run :: "guard_op list \<Rightarrow> guard \<Rightarrow> guard" where
  "run [] g = g"
| "run (Lock rc # ops) g = run ops (snd (lk rc g))"
| "run (Unlock rc # ops) g = run ops (snd (ul rc g))"

lemma run_balanced:
  "Unlock EDEADLK \<notin> set ops \<Longrightarrow> held g = of_bool (gd_locked g) \<Longrightarrow>
     held (run ops g) = of_bool (gd_locked (run ops g))"
  by (induction ops g rule: run.induct) (auto simp: lk_flag lk_held ul_flag ul_held)

lemma scope_releases:
  assumes "Unlock EDEADLK \<notin> set ops"
  shows "held (dtor 0 (run ops (snd (lk rc guard_init)))) = 0"
    and "\<not> gd_locked (dtor 0 (run ops (snd (lk rc guard_init))))"
proof -
  have "held (snd (lk rc guard_init)) = of_bool (gd_locked (snd (lk rc guard_init)))"
    by (simp add: lk_flag lk_held guard_init_def)
  from run_balanced [OF assms this]
  show "held (dtor 0 (run ops (snd (lk rc guard_init)))) = 0"
    and "\<not> gd_locked (dtor 0 (run ops (snd (lk rc guard_init))))"
    by (simp_all add: dtor_held dtor_flag ul_held ul_flag)
qed

end

lemmas guard_defs = acquired_def released_def guard_say_def Let_def

interpretation autoRdLock: scoped_guard autoRdLock_lock autoRdLock_unlock
  "\<lambda>rc g. snd (autoRdLock_unlock rc g)"
  by unfold_locales (auto simp: autoRdLock_lock_def autoRdLock_unlock_def guard_defs)

interpretation autoWrLock: scoped_guard autoWrLock_lock autoWrLock_unlock
  "\<lambda>rc g. snd (autoWrLock_unlock rc g)"
  by unfold_locales (auto simp: autoWrLock_lock_def autoWrLock_unlock_def guard_defs)

interpretation autoLock: scoped_guard autoLock_lock autoLock_unlock
  "\<lambda>rc g. snd (autoLock_unlock rc g)"
  by unfold_locales (auto simp: autoLock_lock_def autoLock_unlock_def guard_defs)

interpretation autoLockDebug: scoped_guard "autoLockDebug_lock nm" "autoLockDebug_unlock nm"
  "autoLockDebug_delete nm" for nm
  by unfold_locales (auto simp: autoLockDebug_lock_def autoLockDebug_unlock_def
      autoLockDebug_delete_def guard_defs)

end
