(* ===== verification/Message.thy ===== *)
theory Message
  imports Rendezvous Util
begin

text \<open>
  The message classes of \<^verbatim>\<open>shared/message.h\<close> and \<^verbatim>\<open>shared/message.cc\<close>. A class is a
  record, a derived class an extension of it, and \<^verbatim>\<open>parse\<close> and \<^verbatim>\<open>write\<close> work on any
  extension, as the virtual calls of the code do. \<open>msg_put\<close> and \<open>msg_get\<close> are \<^verbatim>\<open>buf << x\<close> and
  \<^verbatim>\<open>buf >> x\<close> on the object's own buffer.

  The locale \<open>wire_message\<close> states what a class promises: \<^verbatim>\<open>write\<close> appends the encoding of its
  fields, \<^verbatim>\<open>parse\<close> into a \<open>fresh\<close> object recovers the fields (its \<open>view\<close>) from any buffer that
  holds the encoding.
  Its lemma \<open>delivered\<close> then follows a message from the sender's object through the bytes on the
  wire to the receiver's object.
\<close>

abbreviation NCCP_MessageRequest :: u16 where "NCCP_MessageRequest \<equiv> 1"
abbreviation NCCP_MessageResponse :: u16 where "NCCP_MessageResponse \<equiv> 2"
abbreviation NCCP_MessagePeriodic :: u16 where "NCCP_MessagePeriodic \<equiv> 3"

abbreviation NCCP_Operation_NOP :: u8 where "NCCP_Operation_NOP \<equiv> 0"
abbreviation NCCP_Operation_StopPeriodic :: u8 where "NCCP_Operation_StopPeriodic \<equiv> 33"
abbreviation NCCP_Operation_AckPeriodic :: u8 where "NCCP_Operation_AckPeriodic \<equiv> 34"

section \<open>message\<close>

text \<open>Connections, requests and responses are known by their addresses.\<close>

type_synonym addr = nat

record message =
  msg_buf :: byte_buffer
  msg_type :: u16
  msg_version :: u8
  msg_op :: u8
  msg_rend :: rendezvous
  msg_periodic :: bool
  msg_return_rend :: rendezvous
  msg_conn :: "addr option"

text \<open>
  Members a constructor does not set keep what the object's memory \<open>m\<close> held.
\<close>

definition message_new :: "(nat \<Rightarrow> u8) \<Rightarrow> 'a message_scheme \<Rightarrow> 'a message_scheme" where
  "message_new junk m =
     m\<lparr>msg_buf := byte_buffer_new junk, msg_rend := rendezvous_new,
       msg_return_rend := rendezvous_new, msg_version := 0, msg_conn := None\<rparr>"

definition message_of_bytes ::
    "(nat \<Rightarrow> u8) \<Rightarrow> (nat \<Rightarrow> u8) \<Rightarrow> u8 list \<Rightarrow> 'a message_scheme \<Rightarrow> 'a message_scheme option" where
  "message_of_bytes junk junk' mbuf m = do {
     let b = byte_buffer_new junk;
     let sz = (of_nat (length mbuf) :: u32);
     let b = (if sz \<ge> num_bytes_allocated b then buf_resize junk' sz b else b);
     b \<leftarrow> put_all put_u8 mbuf b;
     Some (m\<lparr>msg_buf := buf_reset b, msg_rend := rendezvous_new,
             msg_return_rend := rendezvous_new, msg_conn := None\<rparr>)
   }"

definition msg_put :: "(byte_buffer \<Rightarrow> byte_buffer option) \<Rightarrow> 'a message_scheme \<Rightarrow> 'a message_scheme option" where
  "msg_put p m = map_option (\<lambda>b. m\<lparr>msg_buf := b\<rparr>) (p (msg_buf m))"

definition msg_get :: "(byte_buffer \<Rightarrow> ('x \<times> byte_buffer) option) \<Rightarrow> 'a message_scheme \<Rightarrow> ('x \<times> 'a message_scheme) option" where
  "msg_get g m = map_option (\<lambda>(x, b). (x, m\<lparr>msg_buf := b\<rparr>)) (g (msg_buf m))"

definition message_parse :: "'a message_scheme \<Rightarrow> 'a message_scheme option" where
  "message_parse m = do {
     (t, m) \<leftarrow> msg_get get_u16 m;
     (v, m) \<leftarrow> msg_get get_u8 m;
     (o', m) \<leftarrow> msg_get get_u8 m;
     (r, m) \<leftarrow> msg_get get_rendezvous m;
     (p, m) \<leftarrow> msg_get get_bool m;
     Some (m\<lparr>msg_type := t, msg_version := v, msg_op := o', msg_rend := r, msg_periodic := p\<rparr>)
   }"

definition message_write :: "'a message_scheme \<Rightarrow> 'a message_scheme option" where
  "message_write m = do {
     m \<leftarrow> msg_put (put_u16 (msg_type m)) m;
     m \<leftarrow> msg_put (put_u8 (msg_version m)) m;
     m \<leftarrow> msg_put (put_u8 (msg_op m)) m;
     m \<leftarrow> msg_put (put_rendezvous (msg_rend m)) m;
     msg_put (put_bool (msg_periodic m)) m
   }"

section \<open>request, response, periodic\<close>

record request = message +
  req_period :: timeval
  req_received_response :: bool
  req_timeout :: u32
  req_resp :: "addr option"
  req_received_stop :: bool
  req_received_ack :: bool

definition request_new :: "(nat \<Rightarrow> u8) \<Rightarrow> 'a request_scheme \<Rightarrow> 'a request_scheme" where
  "request_new junk r =
     (message_new junk r)\<lparr>msg_type := NCCP_MessageRequest, req_received_response := False,
       req_received_stop := False, req_received_ack := False, req_timeout := 30\<rparr>"

definition request_of_bytes ::
    "(nat \<Rightarrow> u8) \<Rightarrow> (nat \<Rightarrow> u8) \<Rightarrow> u8 list \<Rightarrow> 'a request_scheme \<Rightarrow> 'a request_scheme option" where
  "request_of_bytes junk junk' mbuf r = do {
     r \<leftarrow> message_of_bytes junk junk' mbuf r;
     Some (r\<lparr>req_timeout := 30, req_received_response := False, req_received_stop := False,
             req_received_ack := False\<rparr>)
   }"

text \<open>\<^verbatim>\<open>request_rendezvous(response*)\<close>: the value is whether the caller deletes the response.\<close>

definition request_rendezvous_resp :: "addr \<Rightarrow> 'a request_scheme \<Rightarrow> bool \<times> 'a request_scheme" where
  "request_rendezvous_resp res r =
     (False, r\<lparr>req_resp := Some res, req_received_response := True\<rparr>)"

definition request_rendezvous_periodic :: "u8 \<Rightarrow> 'a request_scheme \<Rightarrow> bool \<times> 'a request_scheme" where
  "request_rendezvous_periodic per_op r =
     (True,
      if per_op = NCCP_Operation_StopPeriodic then r\<lparr>req_received_stop := True\<rparr>
      else if per_op = NCCP_Operation_AckPeriodic then r\<lparr>req_received_ack := True\<rparr>
      else r)"

text \<open>
  \<^verbatim>\<open>wait_for_response\<close>: the waiting thread re-reads the flag after every return of
  \<^verbatim>\<open>pthread_cond_timedwait\<close>. A wake-up is the pair of its return code, \<open>True\<close> for
  \<^verbatim>\<open>ETIMEDOUT\<close>, and the flag as the other threads left it; running out of wake-ups is still
  waiting, \<open>None\<close>. The value is the function's and the flag it leaves is \<open>False\<close>.
\<close>

fun wait_loop :: "bool \<Rightarrow> bool \<Rightarrow> (bool \<times> bool) list \<Rightarrow> bool option" where
  "wait_loop received timedout wakes =
     (if \<not> received \<and> \<not> timedout then
        (case wakes of [] \<Rightarrow> None | (rc, flag) # ws \<Rightarrow> wait_loop flag rc ws)
      else Some (if timedout then False else True))"

definition wait_for_response ::
    "(bool \<times> bool) list \<Rightarrow> 'a request_scheme \<Rightarrow> (bool \<times> 'a request_scheme) option" where
  "wait_for_response wakes r = do {
     rtn \<leftarrow> wait_loop (req_received_response r) False wakes;
     Some (rtn, r\<lparr>req_received_response := False\<rparr>)
   }"

definition prepare_for_periodic :: "'a request_scheme \<Rightarrow> 'a request_scheme" where
  "prepare_for_periodic r = r\<lparr>req_received_stop := False, req_received_ack := False\<rparr>"

definition request_parse :: "'a request_scheme \<Rightarrow> 'a request_scheme option" where
  "request_parse m = do {
     m \<leftarrow> message_parse m;
     if msg_periodic m then do {
       (p, m) \<leftarrow> msg_get get_timeval m;
       Some (m\<lparr>req_period := p\<rparr>)
     } else Some m
   }"

definition request_write :: "'a request_scheme \<Rightarrow> 'a request_scheme option" where
  "request_write m = do {
     m \<leftarrow> message_write m;
     if msg_periodic m then msg_put (put_timeval (req_period m)) m else Some m
   }"

definition get_period :: "'a request_scheme \<Rightarrow> timespec" where
  "get_period r = \<lparr>ts_sec = tv_sec (req_period r), ts_nsec = tv_usec (req_period r) * 1000\<rparr>"

record response = message +
  resp_req :: "addr option"
  end_of_message :: bool

definition response_of_bytes ::
    "(nat \<Rightarrow> u8) \<Rightarrow> (nat \<Rightarrow> u8) \<Rightarrow> u8 list \<Rightarrow> 'a response_scheme \<Rightarrow> 'a response_scheme option" where
  "response_of_bytes junk junk' mbuf r = do {
     r \<leftarrow> message_of_bytes junk junk' mbuf r;
     Some (r\<lparr>resp_req := None, end_of_message := True\<rparr>)
   }"

definition response_new ::
    "(nat \<Rightarrow> u8) \<Rightarrow> addr \<Rightarrow> 'b request_scheme \<Rightarrow> 'a response_scheme \<Rightarrow> 'a response_scheme" where
  "response_new junk req_addr r resp =
     (message_new junk resp)\<lparr>resp_req := Some req_addr, end_of_message := True,
       msg_type := NCCP_MessageResponse, msg_version := msg_version r, msg_op := msg_op r,
       msg_rend := rendezvous_copy (msg_rend r), msg_periodic := msg_periodic r,
       msg_return_rend := rendezvous_copy (msg_return_rend r), msg_conn := msg_conn r\<rparr>"

definition response_parse :: "'a response_scheme \<Rightarrow> 'a response_scheme option" where
  "response_parse m = do {
     m \<leftarrow> message_parse m;
     m \<leftarrow> (if msg_periodic m then do {
            (r, m) \<leftarrow> msg_get get_rendezvous m;
            Some (m\<lparr>msg_return_rend := r\<rparr>) }
          else Some m);
     (e, m) \<leftarrow> msg_get get_bool m;
     Some (m\<lparr>end_of_message := e\<rparr>)
   }"

definition response_write :: "'a response_scheme \<Rightarrow> 'a response_scheme option" where
  "response_write m = do {
     m \<leftarrow> message_write m;
     m \<leftarrow> (if msg_periodic m then msg_put (put_rendezvous (msg_return_rend m)) m else Some m);
     msg_put (put_bool (end_of_message m)) m
   }"

definition periodic_new :: "(nat \<Rightarrow> u8) \<Rightarrow> 'a message_scheme \<Rightarrow> 'a message_scheme" where
  "periodic_new junk m = (message_new junk m)\<lparr>msg_type := NCCP_MessagePeriodic\<rparr>"

definition periodic_parse :: "'a message_scheme \<Rightarrow> 'a message_scheme option" where
  "periodic_parse m = do {
     (t, m) \<leftarrow> msg_get get_u16 m;
     (v, m) \<leftarrow> msg_get get_u8 m;
     (o', m) \<leftarrow> msg_get get_u8 m;
     (r, m) \<leftarrow> msg_get get_rendezvous m;
     (rr, m) \<leftarrow> msg_get get_rendezvous m;
     Some (m\<lparr>msg_type := t, msg_version := v, msg_op := o', msg_rend := r, msg_return_rend := rr\<rparr>)
   }"

definition periodic_write :: "'a message_scheme \<Rightarrow> 'a message_scheme option" where
  "periodic_write m = do {
     m \<leftarrow> msg_put (put_u16 (msg_type m)) m;
     m \<leftarrow> msg_put (put_u8 (msg_version m)) m;
     m \<leftarrow> msg_put (put_u8 (msg_op m)) m;
     m \<leftarrow> msg_put (put_rendezvous (msg_rend m)) m;
     msg_put (put_rendezvous (msg_return_rend m)) m
   }"

section \<open>What a message class promises\<close>

lemma put_all_u8: "put_all put_u8 bs b = put_bytes bs b"
  using u8.put_all_enc [of bs b] by simp

text \<open>The receiving constructor always finds room, and leaves the cursor at the first byte.\<close>

lemma message_of_bytes_holds:
  fixes m :: "'a message_scheme"
  assumes "length mbuf < 2 ^ 32"
  shows "\<exists>m'. message_of_bytes junk junk' mbuf m = Some m' \<and> holds (msg_buf m') mbuf"
proof (cases "mbuf = []")
  case True
  then show ?thesis
    by (simp add: message_of_bytes_def byte_buffer_new_def buf_reset_def)
next
  case False
  define b where "b = (if (of_nat (length mbuf) :: u32) \<ge> num_bytes_allocated (byte_buffer_new junk)
      then buf_resize junk' (of_nat (length mbuf)) (byte_buffer_new junk) else byte_buffer_new junk)"
  have u: "unat (of_nat (length mbuf) :: u32) = length mbuf"
    by (rule unat_of_nat_small) (use assms in simp)
  have cur: "cur_index b = 0"
    by (simp add: b_def buf_resize_def byte_buffer_new_def Let_def)
  have "length mbuf \<le> unat (num_bytes_allocated b)"
    using u by (auto simp: b_def buf_resize_def byte_buffer_new_def Let_def word_le_nat_alt
        word_less_nat_alt split: if_splits)
  with False cur have "\<exists>b'. put_bytes mbuf b = Some b'"
    by (simp add: put_bytes_fits)
  then obtain b' where b': "put_bytes mbuf b = Some b'" ..
  from put_bytes_holds [OF this False] cur have "holds (buf_reset b') mbuf"
    by (simp add: buf_reset_def)
  with b' show ?thesis
    by (simp add: message_of_bytes_def put_all_u8 b_def Let_def)
qed

locale wire_message =
  fixes enc :: "'a message_scheme \<Rightarrow> u8 list"
    and view :: "'a message_scheme \<Rightarrow> 'v"
    and wr :: "'a message_scheme \<Rightarrow> 'a message_scheme option"
    and rd :: "'a message_scheme \<Rightarrow> 'a message_scheme option"
    and ok :: "'a message_scheme \<Rightarrow> bool"
    and fresh :: "'a message_scheme \<Rightarrow> bool"
  assumes write_enc: "wr m = map_option (\<lambda>b. m\<lparr>msg_buf := b\<rparr>) (put_bytes (enc m) (msg_buf m))"
    and enc_buf: "enc (m\<lparr>msg_buf := b\<rparr>) = enc m"
    and enc_not_Nil: "enc m \<noteq> []"
    and fresh_bytes: "fresh r0 \<Longrightarrow> message_of_bytes junk junk' mbuf r0 = Some r \<Longrightarrow> fresh r"
    and parse_enc: "ok m \<Longrightarrow> fresh r \<Longrightarrow> holds (msg_buf r) (enc m) \<Longrightarrow>
      \<exists>r'. rd r = Some r' \<and> view r' = view m \<and> msg_buf r' = skip (length (enc m)) (msg_buf r)"
begin

lemma write_fits:
  "cur_index (msg_buf m) = 0 \<Longrightarrow>
     (\<exists>m'. wr m = Some m') \<longleftrightarrow> length (enc m) \<le> unat (num_bytes_allocated (msg_buf m))"
  by (simp add: write_enc put_bytes_closed enc_not_Nil)

lemma write_sent:
  assumes "wr (m\<lparr>msg_buf := buf_reset (msg_buf m)\<rparr>) = Some m'"
  shows "sent_bytes (msg_buf m') = enc m" and "num_bytes_stored (msg_buf m') = of_nat (length (enc m))"
    and "length (enc m) < 2 ^ 32"
proof -
  from assms obtain b where b: "put_bytes (enc m) (buf_reset (msg_buf m)) = Some b" "msg_buf m' = b"
    by (auto simp: write_enc enc_buf)
  from put_bytes_sent [OF b(1) enc_not_Nil] b(2)
  show "sent_bytes (msg_buf m') = enc m"
    and "num_bytes_stored (msg_buf m') = of_nat (length (enc m))"
    by simp_all
  from put_bytes_sent(5) [OF b(1) enc_not_Nil] unat_u32_less [of "num_bytes_allocated (msg_buf m)"]
  show "length (enc m) < 2 ^ 32" by simp
qed

lemma delivered:
  assumes "wr (m\<lparr>msg_buf := buf_reset (msg_buf m)\<rparr>) = Some m'" and "ok m"
    and "fresh r0"
  shows "\<exists>r r'. message_of_bytes junk junk' (sent_bytes (msg_buf m')) r0 = Some r \<and>
      rd r = Some r' \<and> view r' = view m"
proof -
  note sent = write_sent [OF assms(1)]
  from message_of_bytes_holds [OF sent(3)] obtain r where
    r: "message_of_bytes junk junk' (enc m) r0 = Some r" "holds (msg_buf r) (enc m)"
    by blast
  from parse_enc [OF assms(2) fresh_bytes [OF assms(3) r(1)] r(2)] r(1) sent(1) show ?thesis by auto
qed

end

section \<open>The base classes\<close>

lemma bind_map_option: "Option.bind (map_option f x) g = Option.bind x (\<lambda>y. g (f y))"
  by (cases x) simp_all

lemma bind_put_map [wire_put]:
  "Option.bind (put_bytes xs b) (\<lambda>b'. map_option f (put_bytes ys b')) =
     map_option f (put_bytes (xs @ ys) b)"
  by (cases "put_bytes xs b") (simp_all add: put_bytes_append)

lemma map_option_map_put [wire_put]:
  "Option.bind (put_bytes xs b) (\<lambda>b'. Some (f b')) = map_option f (put_bytes xs b)"
  by (cases "put_bytes xs b") simp_all

lemmas msg_simps = msg_put_def msg_get_def bind_map_option map_option_case

definition enc_message :: "'a message_scheme \<Rightarrow> u8 list" where
  "enc_message m = be16 (msg_type m) @ [msg_version m] @ [msg_op m] @
     enc_rendezvous (msg_rend m) @ enc_bool (msg_periodic m)"

lemmas [wire_put] = bool.put_enc timeval.put_enc
lemmas [wire_get] = bool.get_enc timeval.get_enc
lemmas [wire_len] = bool.enc_fixed timeval.enc_fixed

lemma length_enc_message [wire_len]: "length (enc_message m) = 34"
  by (simp add: enc_message_def wire_len)

lemma message_write_enc [wire_put]:
  "message_write m = map_option (\<lambda>b. m\<lparr>msg_buf := b\<rparr>) (put_bytes (enc_message m) (msg_buf m))"
  by (simp add: message_write_def msg_put_def bind_map_option wire_put enc_message_def)

lemma message_parse_enc [wire_get]:
  assumes "holds (msg_buf r) (enc_message m)"
  shows "message_parse r = Some (r\<lparr>msg_type := msg_type m, msg_version := msg_version m,
    msg_op := msg_op m, msg_rend := msg_rend m, msg_periodic := msg_periodic m,
    msg_buf := skip 34 (msg_buf r)\<rparr>)"
proof -
  have "holds (msg_buf r) (be16 (msg_type m) @ [msg_version m] @ [msg_op m] @
     enc_rendezvous (msg_rend m) @ enc_bool (msg_periodic m))"
    using assms unfolding enc_message_def .
  then show ?thesis
    unfolding holds_append by (auto simp: message_parse_def msg_get_def wire_get wire_len)
qed

lemma enc_message_buf [simp]: "enc_message (m\<lparr>msg_buf := b\<rparr>) = enc_message m"
  by (simp add: enc_message_def)

definition enc_request :: "'a request_scheme \<Rightarrow> u8 list" where
  "enc_request m = enc_message m @ (if msg_periodic m then enc_timeval (req_period m) else [])"

definition request_ok :: "'a request_scheme \<Rightarrow> bool" where
  "request_ok m \<longleftrightarrow> (msg_periodic m \<longrightarrow> timeval_ok (req_period m))"

definition request_view :: "'a request_scheme \<Rightarrow>
    u16 \<times> u8 \<times> u8 \<times> rendezvous \<times> bool \<times> timeval option" where
  "request_view m = (msg_type m, msg_version m, msg_op m, msg_rend m, msg_periodic m,
     if msg_periodic m then Some (req_period m) else None)"

lemma length_enc_request: "length (enc_request m) \<le> 42"
  by (simp add: enc_request_def wire_len)

lemma enc_request_buf [simp]: "enc_request (m\<lparr>msg_buf := b\<rparr>) = enc_request m"
  by (simp add: enc_request_def)

lemma request_write_enc [wire_put]:
  "request_write m = map_option (\<lambda>b. m\<lparr>msg_buf := b\<rparr>) (put_bytes (enc_request m) (msg_buf m))"
  by (simp add: request_write_def msg_put_def bind_map_option wire_put enc_request_def)

definition request_read :: "'a request_scheme \<Rightarrow> 'b request_scheme \<Rightarrow> 'b request_scheme" where
  "request_read m r = r\<lparr>msg_type := msg_type m, msg_version := msg_version m, msg_op := msg_op m,
     msg_rend := msg_rend m, msg_periodic := msg_periodic m,
     req_period := (if msg_periodic m then req_period m else req_period r),
     msg_buf := skip (length (enc_request m)) (msg_buf r)\<rparr>"

lemma request_parse_enc [wire_get]:
  assumes "request_ok m" and "holds (msg_buf r) (enc_request m)"
  shows "request_parse r = Some (request_read m r)"
proof (cases "msg_periodic m")
  case True
  with assms show ?thesis
    by (auto simp: request_parse_def enc_request_def request_ok_def request_read_def msg_get_def
        wire_get wire_len)
next
  case False
  with assms show ?thesis
    by (auto simp: request_parse_def enc_request_def request_ok_def request_read_def msg_get_def
        wire_get wire_len)
qed

lemma request_read_sel [simp]:
  "msg_buf (request_read m r) = skip (length (enc_request m)) (msg_buf r)"
  "request_view (request_read m r) = request_view m"
  by (simp_all add: request_read_def request_view_def)

lemma enc_message_not_Nil [simp]: "enc_message m \<noteq> []"
  using length_enc_message [of m] by auto

interpretation request: wire_message enc_request request_view request_write request_parse request_ok
  "\<lambda>_. True"
  by unfold_locales
    (rule request_write_enc, rule enc_request_buf, simp add: enc_request_def, rule TrueI,
      auto simp: wire_get)

definition enc_response :: "'a response_scheme \<Rightarrow> u8 list" where
  "enc_response m = enc_message m @
     (if msg_periodic m then enc_rendezvous (msg_return_rend m) else []) @ enc_bool (end_of_message m)"

definition response_view :: "'a response_scheme \<Rightarrow>
    u16 \<times> u8 \<times> u8 \<times> rendezvous \<times> bool \<times> rendezvous option \<times> bool" where
  "response_view m = (msg_type m, msg_version m, msg_op m, msg_rend m, msg_periodic m,
     if msg_periodic m then Some (msg_return_rend m) else None, end_of_message m)"

lemma length_enc_response: "length (enc_response m) \<le> 64"
  by (simp add: enc_response_def wire_len)

lemma enc_response_buf [simp]: "enc_response (m\<lparr>msg_buf := b\<rparr>) = enc_response m"
  by (simp add: enc_response_def)

lemma response_write_enc [wire_put]:
  "response_write m = map_option (\<lambda>b. m\<lparr>msg_buf := b\<rparr>) (put_bytes (enc_response m) (msg_buf m))"
  by (simp add: response_write_def msg_put_def bind_map_option wire_put enc_response_def)

definition response_read :: "'a response_scheme \<Rightarrow> 'b response_scheme \<Rightarrow> 'b response_scheme" where
  "response_read m r = r\<lparr>msg_type := msg_type m, msg_version := msg_version m, msg_op := msg_op m,
     msg_rend := msg_rend m, msg_periodic := msg_periodic m,
     msg_return_rend := (if msg_periodic m then msg_return_rend m else msg_return_rend r),
     end_of_message := end_of_message m,
     msg_buf := skip (length (enc_response m)) (msg_buf r)\<rparr>"

lemma response_parse_enc [wire_get]:
  assumes "holds (msg_buf r) (enc_response m)"
  shows "response_parse r = Some (response_read m r)"
  using assms
  by (cases "msg_periodic m")
    (auto simp: response_parse_def enc_response_def response_read_def msg_get_def wire_get wire_len)

lemma response_read_sel [simp]:
  "msg_buf (response_read m r) = skip (length (enc_response m)) (msg_buf r)"
  "response_view (response_read m r) = response_view m"
  by (simp_all add: response_read_def response_view_def)

interpretation response: wire_message enc_response response_view response_write response_parse
  "\<lambda>_. True" "\<lambda>_. True"
  by unfold_locales
    (rule response_write_enc, rule enc_response_buf, simp add: enc_response_def, rule TrueI,
      auto simp: wire_get)

definition enc_periodic :: "'a message_scheme \<Rightarrow> u8 list" where
  "enc_periodic m = be16 (msg_type m) @ [msg_version m] @ [msg_op m] @
     enc_rendezvous (msg_rend m) @ enc_rendezvous (msg_return_rend m)"

definition periodic_view :: "'a message_scheme \<Rightarrow> u16 \<times> u8 \<times> u8 \<times> rendezvous \<times> rendezvous" where
  "periodic_view m = (msg_type m, msg_version m, msg_op m, msg_rend m, msg_return_rend m)"

interpretation periodic: wire_message enc_periodic periodic_view periodic_write periodic_parse
  "\<lambda>_. True" "\<lambda>_. True"
proof unfold_locales
  fix m r :: "'a message_scheme"
  assume "holds (msg_buf r) (enc_periodic m)"
  then have "holds (msg_buf r) (be16 (msg_type m) @ [msg_version m] @ [msg_op m] @
     enc_rendezvous (msg_rend m) @ enc_rendezvous (msg_return_rend m))"
    unfolding enc_periodic_def .
  then show "\<exists>r'. periodic_parse r = Some r' \<and> periodic_view r' = periodic_view m \<and>
      msg_buf r' = skip (length (enc_periodic m)) (msg_buf r)"
    unfolding holds_append
    by (auto simp: periodic_parse_def periodic_view_def enc_periodic_def msg_get_def wire_get wire_len)
qed (simp_all add: periodic_write_def msg_put_def bind_map_option wire_put enc_periodic_def)

section \<open>Sample objects\<close>

text \<open>A request and a response of any class, for the examples at concrete values.\<close>

definition blank_request :: "'a \<Rightarrow> 'a request_scheme" where
  "blank_request rest =
     \<lparr>msg_buf = byte_buffer_new (\<lambda>_. 0), msg_type = NCCP_MessageRequest, msg_version = 0, msg_op = 0,
      msg_rend = rendezvous_new, msg_periodic = False, msg_return_rend = rendezvous_new,
      msg_conn = None, req_period = \<lparr>tv_sec = 0, tv_usec = 0\<rparr>, req_received_response = False,
      req_timeout = 30, req_resp = None, req_received_stop = False, req_received_ack = False,
      \<dots> = rest\<rparr>"

definition blank_response :: "'a \<Rightarrow> 'a response_scheme" where
  "blank_response rest =
     \<lparr>msg_buf = byte_buffer_new (\<lambda>_. 0), msg_type = NCCP_MessageResponse, msg_version = 0, msg_op = 0,
      msg_rend = rendezvous_new, msg_periodic = False, msg_return_rend = rendezvous_new,
      msg_conn = None, resp_req = None, end_of_message = True, \<dots> = rest\<rparr>"

end
