(* ===== verification/Nccp_String.thy ===== *)
theory Nccp_String
  imports Wire
begin

text \<open>
  The length-prefixed string of \<^verbatim>\<open>shared/onl_types.h\<close>, twice: as the class is written, a
  256-character array beside an 8-bit length, and as the list of its first \<open>length\<close> characters
  (\<open>nstring\<close>), which is all the class ever shows. The first half defines the array operations;
  the refinement lemmas (collected in \<open>nccp_refines\<close>) say that the operations on lists are what
  the array operations compute. The later theories use the list form.
\<close>

named_theorems nccp_refines \<open>array operations of nccp_string against the list view\<close>

section \<open>The class\<close>

record nccp_string =
  nccp_str :: string
  nccp_length :: u8

definition len255 :: "nat \<Rightarrow> u8" where
  "len255 l = (if l > 255 then 255 else of_nat l)"

text \<open>
  Constructors: \<open>arr\<close> is what the 256 characters held before. Storing at an index is a list update;
  all indices the class uses are at most 255.
\<close>

definition nccp_string_new :: "string \<Rightarrow> nccp_string" where
  "nccp_string_new arr = \<lparr>nccp_str = (arr[0 := NUL])[255 := NUL], nccp_length = 0\<rparr>"

definition nccp_string_of_cstr :: "string \<Rightarrow> string \<Rightarrow> nccp_string" where
  "nccp_string_of_cstr arr c =
     (let arr = arr[255 := NUL];
          len = len255 (length (c_str c));
          arr = strncpy arr c (unat len)
      in \<lparr>nccp_str = arr[unat len := NUL], nccp_length = len\<rparr>)"

definition nccp_string_of_chars :: "string \<Rightarrow> string \<Rightarrow> u8 \<Rightarrow> nccp_string" where
  "nccp_string_of_chars arr c len =
     (let arr = arr[255 := NUL];
          arr = strncpy arr c (unat len)
      in \<lparr>nccp_str = arr[unat len := NUL], nccp_length = len\<rparr>)"

definition nccp_string_copy :: "string \<Rightarrow> nccp_string \<Rightarrow> nccp_string" where
  "nccp_string_copy arr s =
     (let arr = arr[255 := NUL];
          len = nccp_length s;
          arr = strncpy arr (nccp_str s) (unat len)
      in \<lparr>nccp_str = arr[unat len := NUL], nccp_length = len\<rparr>)"

definition nccp_string_assign :: "nccp_string \<Rightarrow> nccp_string \<Rightarrow> nccp_string" where
  "nccp_string_assign this s =
     (let len = nccp_length s;
          arr = strncpy (nccp_str this) (nccp_str s) (unat len)
      in \<lparr>nccp_str = arr[unat len := NUL], nccp_length = len\<rparr>)"

definition nccp_string_assign_cstr :: "nccp_string \<Rightarrow> string \<Rightarrow> nccp_string" where
  "nccp_string_assign_cstr this c =
     (let len = len255 (length (c_str c));
          arr = strncpy (nccp_str this) c (unat len)
      in \<lparr>nccp_str = arr[unat len := NUL], nccp_length = len\<rparr>)"

definition nccp_string_assign_string :: "nccp_string \<Rightarrow> string \<Rightarrow> nccp_string" where
  "nccp_string_assign_string this s = nccp_string_assign_cstr this (c_str s)"

definition nccp_string_eq :: "nccp_string \<Rightarrow> nccp_string \<Rightarrow> bool" where
  "nccp_string_eq s t = (if strcmp (nccp_str s) (nccp_str t) = 0 then True else False)"

definition nccp_string_lt :: "nccp_string \<Rightarrow> nccp_string \<Rightarrow> bool" where
  "nccp_string_lt s t = (if strcmp (nccp_str s) (nccp_str t) < 0 then True else False)"

definition nccp_string_gt :: "nccp_string \<Rightarrow> nccp_string \<Rightarrow> bool" where
  "nccp_string_gt s t = (if strcmp (nccp_str s) (nccp_str t) > 0 then True else False)"

definition nccp_getString :: "nccp_string \<Rightarrow> string" where
  "nccp_getString s = c_str (nccp_str s)"

definition put_nccp_string :: "nccp_string \<Rightarrow> byte_buffer \<Rightarrow> byte_buffer option" where
  "put_nccp_string s b = do {
     b \<leftarrow> put_u32 (ucast (nccp_length s)) b;
     put_all (\<lambda>i. put_char (nccp_str s ! i)) [0..<unat (nccp_length s)] b
   }"

text \<open>Reading overwrites an existing object: characters past the new terminator stay.\<close>

definition get_nccp_string :: "nccp_string \<Rightarrow> byte_buffer \<Rightarrow> (nccp_string \<times> byte_buffer) option" where
  "get_nccp_string s b = do {
     (l, b) \<leftarrow> get_u32 b;
     let len = (if l > 255 then 255 else ucast l :: u8);
     (cs, b) \<leftarrow> get_n get_char (unat len) b;
     let arr = cs @ drop (unat len) (nccp_str s);
     Some (\<lparr>nccp_str = arr[unat len := NUL], nccp_length = len\<rparr>, b)
   }"

section \<open>The list view\<close>

type_synonym nstring = string

definition nccp_ok :: "nccp_string \<Rightarrow> bool" where
  "nccp_ok s \<longleftrightarrow> length (nccp_str s) = 256 \<and> nccp_str s ! unat (nccp_length s) = NUL"

definition nstr :: "nccp_string \<Rightarrow> nstring" where
  "nstr s = take (unat (nccp_length s)) (nccp_str s)"

definition nstr_of :: "string \<Rightarrow> nstring" where
  "nstr_of c = take 255 (c_str c)"

definition nstr_of_chars :: "string \<Rightarrow> nat \<Rightarrow> nstring" where
  "nstr_of_chars c n = (let t = take n (c_str c) in t @ replicate (n - length t) NUL)"

text \<open>Copying goes through \<^verbatim>\<open>strncpy\<close>, which stops at a NUL inside the string and pads.\<close>

definition nstr_copy :: "nstring \<Rightarrow> nstring" where
  "nstr_copy s = nstr_of_chars s (length s)"

definition nstr_eq :: "nstring \<Rightarrow> nstring \<Rightarrow> bool" where
  "nstr_eq s t \<longleftrightarrow> strcmp s t = 0"

definition nstr_lt :: "nstring \<Rightarrow> nstring \<Rightarrow> bool" where
  "nstr_lt s t \<longleftrightarrow> strcmp s t < 0"

definition nstr_ok :: "nstring \<Rightarrow> bool" where
  "nstr_ok s \<longleftrightarrow> length s \<le> 255"

definition enc_nstr :: "nstring \<Rightarrow> u8 list" where
  "enc_nstr s = be32 (of_nat (length s)) @ concat (map enc_char s)"

definition put_nstr :: "nstring \<Rightarrow> byte_buffer \<Rightarrow> byte_buffer option" where
  "put_nstr s b = do { b \<leftarrow> put_u32 (of_nat (length s)) b; put_all put_char s b }"

definition get_nstr :: "byte_buffer \<Rightarrow> (nstring \<times> byte_buffer) option" where
  "get_nstr b = do { (l, b) \<leftarrow> get_u32 b; get_n get_char (min 255 (unat l)) b }"

lemma length_enc_nstr [wire_len]: "length (enc_nstr s) = 4 + length s"
  by (induction s) (simp_all add: enc_nstr_def enc_char_def)

lemma enc_nstr_not_Nil [simp]: "enc_nstr s \<noteq> []"
  using length_enc_nstr [of s] by auto

interpretation nstr: bounded_codec enc_nstr put_nstr get_nstr nstr_ok 259
proof unfold_locales
  fix s b
  show "put_nstr s b = put_bytes (enc_nstr s) b"
    by (simp add: put_nstr_def enc_nstr_def char.put_all_enc put_u32_bytes put_bytes_append)
  assume ok: "nstr_ok s" and h: "holds b (enc_nstr s)"
  then have g: "get_u32 b = Some (of_nat (length s), skip 4 b)"
    and hs: "holds (skip 4 b) (concat (map enc_char s))"
    by (simp_all add: enc_nstr_def holds_append get_u32_holds)
  have n: "unat (of_nat (length s) :: u32) = length s"
    by (rule unat_of_nat_small) (use ok in \<open>simp add: nstr_ok_def\<close>)
  have "get_n get_char (length s) (skip 4 b) =
      Some (s, skip (length (concat (map enc_char s))) (skip 4 b))"
    by (rule char.get_n_enc) (use hs in \<open>simp_all add: list_all_iff\<close>)
  with g n ok show "get_nstr b = Some (s, skip (length (enc_nstr s)) b)"
    by (simp add: get_nstr_def enc_nstr_def nstr_ok_def min_absorb2)
next
  fix s assume "nstr_ok s"
  then show "length (enc_nstr s) \<le> 259" by (simp add: length_enc_nstr nstr_ok_def)
qed

lemmas [wire_put] = nstr.put_enc
lemmas [wire_get] = nstr.get_enc

section \<open>The array operations refine the list view\<close>

lemma take_c_str: "take n (c_str s) = c_str (take n s)"
proof (induction s arbitrary: n)
  case (Cons c s)
  then show ?case by (cases n) (simp_all add: c_str_def)
qed (simp add: c_str_def)

lemma c_str_take_NUL: "i < length s \<Longrightarrow> s ! i = NUL \<Longrightarrow> c_str s = c_str (take i s)"
proof (induction s arbitrary: i)
  case (Cons c s)
  then show ?case by (cases i) (simp_all add: c_str_def)
qed simp

lemma unat_u8_less: "unat (n :: u8) < 256"
  using unsigned_less [of n] by simp

lemma unat_len255: "unat (len255 l) = min 255 l"
  by (auto simp: len255_def min_def unat_of_nat_small)

lemma take_strncpy_chars:
  assumes "n \<le> length arr"
  shows "take n ((strncpy arr c n)[n := NUL]) = nstr_of_chars c n"
  using assms by (simp add: strncpy_def nstr_of_chars_def Let_def)

lemma strncpy_ok:
  assumes "length arr = 256"
  shows "nccp_ok \<lparr>nccp_str = (strncpy arr c (unat len))[unat len := NUL], nccp_length = len\<rparr>"
    and "nstr \<lparr>nccp_str = (strncpy arr c (unat len))[unat len := NUL], nccp_length = len\<rparr> =
      nstr_of_chars c (unat len)"
  using assms unat_u8_less [of len]
  by (simp_all add: nccp_ok_def nstr_def length_strncpy take_strncpy_chars [simplified])

lemma nstr_of_chars_min: "nstr_of_chars c (min 255 (length (c_str c))) = nstr_of c"
  by (simp add: nstr_of_chars_def nstr_of_def Let_def min_def)

lemma nccp_string_new_refines [nccp_refines]:
  "length arr = 256 \<Longrightarrow> nccp_ok (nccp_string_new arr) \<and> nstr (nccp_string_new arr) = []"
  by (simp add: nccp_ok_def nstr_def nccp_string_new_def)

lemma nccp_string_of_cstr_refines [nccp_refines]:
  "length arr = 256 \<Longrightarrow>
     nccp_ok (nccp_string_of_cstr arr c) \<and> nstr (nccp_string_of_cstr arr c) = nstr_of c"
  using strncpy_ok [of "arr[255 := NUL]" c "len255 (length (c_str c))"]
  by (simp add: nccp_string_of_cstr_def Let_def unat_len255 nstr_of_chars_min)

lemma nccp_string_of_chars_refines [nccp_refines]:
  "length arr = 256 \<Longrightarrow> nccp_ok (nccp_string_of_chars arr c len) \<and>
     nstr (nccp_string_of_chars arr c len) = nstr_of_chars c (unat len)"
  using strncpy_ok [of "arr[255 := NUL]" c len] by (simp add: nccp_string_of_chars_def Let_def)

lemma nstr_of_chars_array:
  assumes "nccp_ok s"
  shows "nstr_of_chars (nccp_str s) (unat (nccp_length s)) = nstr_copy (nstr s)"
  using assms unat_u8_less [of "nccp_length s"]
  by (simp add: nstr_of_chars_def nstr_copy_def nstr_def nccp_ok_def take_c_str)

lemma nccp_string_copy_refines [nccp_refines]:
  assumes "length arr = 256" and "nccp_ok s"
  shows "nccp_ok (nccp_string_copy arr s) \<and> nstr (nccp_string_copy arr s) = nstr_copy (nstr s)"
  using strncpy_ok [of "arr[255 := NUL]" "nccp_str s" "nccp_length s"] assms
  by (simp add: nccp_string_copy_def Let_def nstr_of_chars_array)

lemma nccp_string_assign_refines [nccp_refines]:
  assumes "nccp_ok this" and "nccp_ok s"
  shows "nccp_ok (nccp_string_assign this s) \<and> nstr (nccp_string_assign this s) = nstr_copy (nstr s)"
  using strncpy_ok [of "nccp_str this" "nccp_str s" "nccp_length s"] assms
  by (simp add: nccp_string_assign_def Let_def nstr_of_chars_array nccp_ok_def [of this])

lemma nccp_string_assign_cstr_refines [nccp_refines]:
  assumes "nccp_ok this"
  shows "nccp_ok (nccp_string_assign_cstr this c) \<and> nstr (nccp_string_assign_cstr this c) = nstr_of c"
  using strncpy_ok [of "nccp_str this" c "len255 (length (c_str c))"] assms
  by (simp add: nccp_string_assign_cstr_def Let_def unat_len255 nstr_of_chars_min nccp_ok_def [of this])

lemma nccp_string_assign_string_refines [nccp_refines]:
  assumes "nccp_ok this"
  shows "nccp_ok (nccp_string_assign_string this c) \<and>
    nstr (nccp_string_assign_string this c) = nstr_of c"
  using nccp_string_assign_cstr_refines [OF assms, of "c_str c"]
  by (simp add: nccp_string_assign_string_def nstr_of_def)

lemma c_str_array: "nccp_ok s \<Longrightarrow> c_str (nccp_str s) = c_str (nstr s)"
  using unat_u8_less [of "nccp_length s"]
  by (simp add: nccp_ok_def nstr_def) (rule c_str_take_NUL; simp)

lemma strcmp_array:
  "nccp_ok s \<Longrightarrow> nccp_ok t \<Longrightarrow> strcmp (nccp_str s) (nccp_str t) = strcmp (nstr s) (nstr t)"
  by (metis c_str_array strcmp_c_str)

lemma nccp_string_eq_refines [nccp_refines]:
  "nccp_ok s \<Longrightarrow> nccp_ok t \<Longrightarrow> nccp_string_eq s t = nstr_eq (nstr s) (nstr t)"
  by (simp add: nccp_string_eq_def nstr_eq_def strcmp_array)

lemma nccp_string_lt_refines [nccp_refines]:
  "nccp_ok s \<Longrightarrow> nccp_ok t \<Longrightarrow> nccp_string_lt s t = nstr_lt (nstr s) (nstr t)"
  by (simp add: nccp_string_lt_def nstr_lt_def strcmp_array)

lemma nccp_string_gt_refines [nccp_refines]:
  "nccp_ok s \<Longrightarrow> nccp_ok t \<Longrightarrow> nccp_string_gt s t = nstr_lt (nstr t) (nstr s)"
  using strcmp_swap [of "nstr s" "nstr t"]
  by (simp add: nccp_string_gt_def nstr_lt_def strcmp_array)

lemma nccp_getString_refines [nccp_refines]:
  "nccp_ok s \<Longrightarrow> nccp_getString s = c_str (nstr s)"
  by (simp add: nccp_getString_def c_str_array)

lemma put_all_nth: "put_all (\<lambda>i. put (xs ! i)) is b = put_all put (map (\<lambda>i. xs ! i) is) b"
proof (induction "is" arbitrary: b)
  case (Cons i "is")
  have "put_all (\<lambda>i. put (xs ! i)) is = put_all put (map (\<lambda>i. xs ! i) is)"
    by (rule ext) (rule Cons.IH)
  then show ?case by simp
qed simp

lemma put_nccp_string_refines [nccp_refines]:
  assumes "nccp_ok s"
  shows "put_nccp_string s b = put_nstr (nstr s) b"
proof -
  have len: "length (nstr s) = unat (nccp_length s)"
    using assms unat_u8_less [of "nccp_length s"] by (simp add: nstr_def nccp_ok_def)
  have "map (\<lambda>i. nccp_str s ! i) [0..<unat (nccp_length s)] = nstr s"
    using assms unat_u8_less [of "nccp_length s"]
    by (auto simp: nstr_def nccp_ok_def intro: nth_equalityI)
  moreover have "ucast (nccp_length s) = (of_nat (length (nstr s)) :: u32)"
    by (simp add: len)
  ultimately show ?thesis
    by (simp add: put_nccp_string_def put_nstr_def put_all_nth)
qed

lemma get_n_length: "get_n get n b = Some (xs, b') \<Longrightarrow> length xs = n"
proof (induction n arbitrary: b xs)
  case (Suc n)
  then show ?case by (auto simp: bind_eq_Some_conv)
qed simp

lemma get_nccp_string_refines [nccp_refines]:
  assumes "nccp_ok s"
  shows "map_option (\<lambda>(s', b'). (nstr s', b')) (get_nccp_string s b) = get_nstr b"
    and "get_nccp_string s b = Some (s', b') \<Longrightarrow> nccp_ok s'"
proof -
  have len: "unat (if l > 255 then 255 else ucast l :: u8) = min 255 (unat l)" for l :: u32
    by (auto simp: word_less_nat_alt min_def unsigned_ucast_eq take_bit_nat_eq_self)
  show "map_option (\<lambda>(s', b'). (nstr s', b')) (get_nccp_string s b) = get_nstr b"
  proof (cases "get_u32 b")
    case None
    then show ?thesis by (simp add: get_nccp_string_def get_nstr_def)
  next
    case (Some p)
    obtain l b1 where p: "p = (l, b1)" by (cases p)
    define n :: u8 where "n = (if l > 255 then 255 else ucast l)"
    have n: "unat n = min 255 (unat l)" by (simp only: n_def len)
    have "get_nccp_string s b = do {
        (cs, b) \<leftarrow> get_n get_char (unat n) b1;
        Some (\<lparr>nccp_str = (cs @ drop (unat n) (nccp_str s))[unat n := NUL], nccp_length = n\<rparr>, b) }"
      by (simp add: get_nccp_string_def Some p Let_def n_def)
    moreover have "get_nstr b = get_n get_char (unat n) b1"
      by (simp add: get_nstr_def Some p n)
    ultimately show ?thesis
      by (cases "get_n get_char (unat n) b1") (auto simp: nstr_def dest: get_n_length)
  qed
  assume "get_nccp_string s b = Some (s', b')"
  then obtain n b1 cs where "get_n get_char (unat n) b1 = Some (cs, b')"
    and "s' = \<lparr>nccp_str = (cs @ drop (unat n) (nccp_str s))[unat n := NUL], nccp_length = n\<rparr>"
    by (auto simp: get_nccp_string_def bind_eq_Some_conv Let_def)
  then show "nccp_ok s'"
    using assms unat_u8_less [of n] by (auto simp: nccp_ok_def dest!: get_n_length)
qed

text \<open>A string with no NUL inside survives copying and is compared by equality.\<close>

lemma nstr_copy_id [simp]: "no_nul s \<Longrightarrow> nstr_copy s = s"
  by (simp add: nstr_copy_def nstr_of_chars_def)

lemma length_nstr_copy [simp]: "length (nstr_copy s) = length s"
  using length_c_str [of s] by (simp add: nstr_copy_def nstr_of_chars_def Let_def)

lemma c_str_nstr_copy [simp]: "c_str (nstr_copy s) = c_str s"
proof -
  have "c_str (c_str s @ replicate n NUL) = c_str s" for n
    by (cases n) (simp_all add: c_str_def takeWhile_append takeWhile_idem)
  then show ?thesis
    using length_c_str [of s] by (simp add: nstr_copy_def nstr_of_chars_def Let_def)
qed

lemma nstr_ok_copy [simp]: "nstr_ok (nstr_copy s) = nstr_ok s"
  by (simp add: nstr_ok_def)

lemma nstr_ok_of [simp]: "nstr_ok (nstr_of c)"
  by (simp add: nstr_ok_def nstr_of_def)

lemma no_nul_nstr_of [simp]: "no_nul (nstr_of c)"
  using c_str_no_nul [of c] by (auto simp: no_nul_def nstr_of_def dest: in_set_takeD)

lemma nstr_of_id: "no_nul s \<Longrightarrow> length s \<le> 255 \<Longrightarrow> nstr_of s = s"
  by (simp add: nstr_of_def)

lemma nstr_of_Nil [simp]: "nstr_of [] = []"
  by (simp add: nstr_of_def c_str_def)

lemma nstr_eq_c_str: "nstr_eq s t \<longleftrightarrow> c_str s = c_str t"
  by (simp add: nstr_eq_def strcmp_eq_0)

end
