(* ===== verification/Switch_Types.thy ===== *)
theory Switch_Types
  imports Message Nccp_String
begin

text \<open>
  Switch ports, switches and the messages to the network management daemon:
  \<^verbatim>\<open>shared/switch_types.cc\<close>, \<^verbatim>\<open>shared/switch_requests.cc\<close> and
  \<^verbatim>\<open>shared/switch_responses.cc\<close>.
\<close>

section \<open>Ports and switches\<close>

type_synonym switch_vlan = u32

record switch_port =
  sp_switchid :: nstring
  sp_port :: u32
  sp_interswitch :: bool
  sp_pass_tag :: bool

definition switch_port_new :: switch_port where
  "switch_port_new = \<lparr>sp_switchid = nstr_of '''', sp_port = 0, sp_interswitch = False,
     sp_pass_tag = False\<rparr>"

definition switch_port_of :: "string \<Rightarrow> u32 \<Rightarrow> switch_port" where
  "switch_port_of switch_id portnum = \<lparr>sp_switchid = nstr_of switch_id, sp_port = portnum,
     sp_interswitch = False, sp_pass_tag = False\<rparr>"

definition switch_port_of_inter :: "string \<Rightarrow> u32 \<Rightarrow> bool \<Rightarrow> bool \<Rightarrow> switch_port" where
  "switch_port_of_inter switch_id portnum interswitch_port p_t =
     \<lparr>sp_switchid = nstr_of switch_id, sp_port = portnum, sp_interswitch = interswitch_port,
      sp_pass_tag = p_t\<rparr>"

definition switch_port_copy :: "switch_port \<Rightarrow> switch_port" where
  "switch_port_copy sp = \<lparr>sp_switchid = nstr_copy (sp_switchid sp), sp_port = sp_port sp,
     sp_interswitch = sp_interswitch sp, sp_pass_tag = sp_pass_tag sp\<rparr>"

text \<open>Equality leaves the pass-tag flag out, the order leaves the inter-switch flag out too.\<close>

definition switch_port_eq :: "switch_port \<Rightarrow> switch_port \<Rightarrow> bool" where
  "switch_port_eq a sp \<longleftrightarrow> nstr_eq (sp_switchid a) (sp_switchid sp) \<and> sp_port a = sp_port sp \<and>
     sp_interswitch a = sp_interswitch sp"

definition switch_port_lt :: "switch_port \<Rightarrow> switch_port \<Rightarrow> bool" where
  "switch_port_lt a sp =
     (if nstr_lt (sp_switchid a) (sp_switchid sp) then True
      else if nstr_lt (sp_switchid sp) (sp_switchid a) then False
      else if sp_port a < sp_port sp then True
      else False)"

definition switch_port_valid :: "switch_port \<Rightarrow> bool" where
  "switch_port_valid p = (if sp_port p = 0 then False else True)"

definition getSwitchId :: "switch_port \<Rightarrow> string" where
  "getSwitchId p = c_str (sp_switchid p)"

definition put_switch_port :: "switch_port \<Rightarrow> byte_buffer \<Rightarrow> byte_buffer option" where
  "put_switch_port sp b = do {
     b \<leftarrow> put_nstr (sp_switchid sp) b;
     b \<leftarrow> put_u32 (sp_port sp) b;
     b \<leftarrow> put_bool (sp_interswitch sp) b;
     put_bool (sp_pass_tag sp) b
   }"

definition get_switch_port :: "byte_buffer \<Rightarrow> (switch_port \<times> byte_buffer) option" where
  "get_switch_port b = do {
     (s, b) \<leftarrow> get_nstr b;
     (p, b) \<leftarrow> get_u32 b;
     (i, b) \<leftarrow> get_bool b;
     (t, b) \<leftarrow> get_bool b;
     Some (\<lparr>sp_switchid = s, sp_port = p, sp_interswitch = i, sp_pass_tag = t\<rparr>, b)
   }"

definition show_switch_port :: "switch_port \<Rightarrow> string" where
  "show_switch_port sp =
     (if sp_interswitch sp then
        (if sp_pass_tag sp
         then ''switch id:'' @ c_str (sp_switchid sp) @ '' port:'' @ int2str (sp_port sp) @
              '' inter-switch port:True pass_vlan_tag:True''
         else ''switch id:'' @ c_str (sp_switchid sp) @ '' port:'' @ int2str (sp_port sp) @
              '' inter-switch port:True'')
      else
        (if sp_pass_tag sp
         then ''switch id:'' @ c_str (sp_switchid sp) @ '' port:'' @ int2str (sp_port sp) @
              '' inter-switch port:False pass_vlan_tag:True''
         else ''switch id:'' @ c_str (sp_switchid sp) @ '' port:'' @ int2str (sp_port sp) @
              '' inter-switch port:False''))"

definition switch_port_ok :: "switch_port \<Rightarrow> bool" where
  "switch_port_ok p \<longleftrightarrow> nstr_ok (sp_switchid p)"

definition enc_switch_port :: "switch_port \<Rightarrow> u8 list" where
  "enc_switch_port sp = enc_nstr (sp_switchid sp) @ be32 (sp_port sp) @
     enc_bool (sp_interswitch sp) @ enc_bool (sp_pass_tag sp)"

interpretation switch_port: bounded_codec enc_switch_port put_switch_port get_switch_port
  switch_port_ok 267
proof unfold_locales
  fix p b assume "switch_port_ok p" and "holds b (enc_switch_port p)"
  then show "get_switch_port b = Some (p, skip (length (enc_switch_port p)) b)"
    by (auto simp: get_switch_port_def enc_switch_port_def switch_port_ok_def wire_get wire_len ac_simps)
next
  fix p assume "switch_port_ok p"
  then show "length (enc_switch_port p) \<le> 267"
    by (simp add: enc_switch_port_def switch_port_ok_def wire_len nstr_ok_def)
qed (simp add: enc_switch_port_def put_switch_port_def wire_put)

lemmas [wire_put] = switch_port.put_enc
lemmas [wire_get] = switch_port.get_enc

record switch_info =
  sw_switchid :: nstring
  sw_ports :: u32
  sw_management_port :: u32

definition switch_info_new :: switch_info where
  "switch_info_new = \<lparr>sw_switchid = nstr_of '''', sw_ports = 0, sw_management_port = 0\<rparr>"

definition switch_info_of :: "string \<Rightarrow> u32 \<Rightarrow> switch_info" where
  "switch_info_of switch_id num_ports =
     \<lparr>sw_switchid = nstr_of switch_id, sw_ports = num_ports, sw_management_port = 0\<rparr>"

definition switch_info_copy :: "switch_info \<Rightarrow> switch_info" where
  "switch_info_copy si = \<lparr>sw_switchid = nstr_copy (sw_switchid si), sw_ports = sw_ports si,
     sw_management_port = sw_management_port si\<rparr>"

definition put_switch_info :: "switch_info \<Rightarrow> byte_buffer \<Rightarrow> byte_buffer option" where
  "put_switch_info si b = do {
     b \<leftarrow> put_nstr (sw_switchid si) b;
     b \<leftarrow> put_u32 (sw_ports si) b;
     put_u32 (sw_management_port si) b
   }"

definition get_switch_info :: "byte_buffer \<Rightarrow> (switch_info \<times> byte_buffer) option" where
  "get_switch_info b = do {
     (s, b) \<leftarrow> get_nstr b;
     (p, b) \<leftarrow> get_u32 b;
     (m, b) \<leftarrow> get_u32 b;
     Some (\<lparr>sw_switchid = s, sw_ports = p, sw_management_port = m\<rparr>, b)
   }"

definition show_switch_info :: "switch_info \<Rightarrow> string" where
  "show_switch_info si = ''switch id:'' @ c_str (sw_switchid si) @ '' number of ports:'' @
     int2str (sw_ports si) @ '' management port:'' @ int2str (sw_management_port si)"

definition enc_switch_info :: "switch_info \<Rightarrow> u8 list" where
  "enc_switch_info si = enc_nstr (sw_switchid si) @ be32 (sw_ports si) @ be32 (sw_management_port si)"

interpretation switch_info: bounded_codec enc_switch_info put_switch_info get_switch_info
  "\<lambda>si. nstr_ok (sw_switchid si)" 267
proof unfold_locales
  fix si :: switch_info and b assume "nstr_ok (sw_switchid si)" and "holds b (enc_switch_info si)"
  then show "get_switch_info b = Some (si, skip (length (enc_switch_info si)) b)"
    by (auto simp: get_switch_info_def enc_switch_info_def wire_get ac_simps)
next
  fix si :: switch_info assume "nstr_ok (sw_switchid si)"
  then show "length (enc_switch_info si) \<le> 267"
    by (simp add: enc_switch_info_def wire_len nstr_ok_def)
qed (simp add: enc_switch_info_def put_switch_info_def wire_put)

lemma switch_port_eq_equiv:
  "switch_port_eq a a" "switch_port_eq a b \<Longrightarrow> switch_port_eq b a"
  "switch_port_eq a b \<Longrightarrow> switch_port_eq b c \<Longrightarrow> switch_port_eq a c"
  by (auto simp: switch_port_eq_def nstr_eq_c_str)

lemma switch_port_eq_id: "switch_port_eq a b \<Longrightarrow> getSwitchId a = getSwitchId b"
  by (simp add: switch_port_eq_def nstr_eq_c_str getSwitchId_def)

lemma getSwitchId_copy [simp]: "getSwitchId (switch_port_copy p) = getSwitchId p"
  by (simp add: getSwitchId_def switch_port_copy_def)

lemma switch_port_lt_trans:
  "switch_port_lt a b \<Longrightarrow> switch_port_lt b c \<Longrightarrow> switch_port_lt a c"
proof -
  assume ab: "switch_port_lt a b" and bc: "switch_port_lt b c"
  let ?s = sp_switchid
  have swap: "strcmp y x = - strcmp x y" for x y by (rule strcmp_swap)
  have le: "strcmp (?s a) (?s b) < 0 \<or> strcmp (?s a) (?s b) = 0 \<and> sp_port a < sp_port b"
    and le': "strcmp (?s b) (?s c) < 0 \<or> strcmp (?s b) (?s c) = 0 \<and> sp_port b < sp_port c"
    using ab bc swap [of "?s a" "?s b"] swap [of "?s b" "?s c"]
    by (auto simp: switch_port_lt_def nstr_lt_def split: if_splits)
  have eq: "strcmp x y = strcmp x' y'" if "c_str x = c_str x'" "c_str y = c_str y'" for x y x' y'
    using that by (metis strcmp_c_str)
  have "strcmp (?s a) (?s c) < 0 \<or> strcmp (?s a) (?s c) = 0 \<and> sp_port a < sp_port c"
    using le le' strcmp_trans [of "?s a" "?s b" "?s c"] eq [of "?s a" "?s b" "?s c" "?s c"]
      eq [of "?s a" "?s a" "?s b" "?s c"]
    by (auto simp: strcmp_eq_0)
  then show ?thesis
    using swap [of "?s a" "?s c"] by (auto simp: switch_port_lt_def nstr_lt_def)
qed

end
