(* ===== verification/Onl_Types.thy ===== *)
theory Onl_Types
  imports Nccp_String
begin

text \<open>
  The values that the daemons exchange, from \<^verbatim>\<open>shared/onl_types.h\<close> and
  \<^verbatim>\<open>shared/onl_types.cc\<close>: experiments, components, clusters, parameters, node and next-hop
  descriptions, and the conversion of addresses. Strings are in the list form of the previous
  theory: \<^verbatim>\<open>x = s.c_str()\<close> is \<open>nstr_of\<close>, \<^verbatim>\<open>x = y\<close> between \<^verbatim>\<open>nccp_string\<close>s is
  \<open>nstr_copy\<close>, and \<^verbatim>\<open>getString()\<close> is \<open>c_str\<close>.

  Each class interprets \<open>bounded_codec\<close>, with the most bytes it can take on the wire. An array
  access through \<open>arr_get\<close> and \<open>arr_set\<close> is \<open>None\<close> outside the array.
\<close>

section \<open>Arrays\<close>

definition arr_get :: "'a list \<Rightarrow> nat \<Rightarrow> 'a option" where
  "arr_get xs i = (if i < length xs then Some (xs ! i) else None)"

definition arr_set :: "'a list \<Rightarrow> nat \<Rightarrow> 'a \<Rightarrow> 'a list option" where
  "arr_set xs i v = (if i < length xs then Some (xs[i := v]) else None)"

section \<open>experiment_info\<close>

record experiment_info =
  ei_ID :: nstring
  ei_expName :: nstring
  ei_userName :: nstring

definition experiment_info_copy :: "experiment_info \<Rightarrow> experiment_info" where
  "experiment_info_copy eid =
     \<lparr>ei_ID = nstr_copy (ei_ID eid), ei_expName = nstr_copy (ei_expName eid),
      ei_userName = nstr_copy (ei_userName eid)\<rparr>"

definition experiment_info_eq :: "experiment_info \<Rightarrow> experiment_info \<Rightarrow> bool" where
  "experiment_info_eq e f =
     (if nstr_eq (ei_ID e) (ei_ID f) \<and> nstr_eq (ei_expName e) (ei_expName f) \<and>
         nstr_eq (ei_userName e) (ei_userName f) then True else False)"

definition put_experiment_info :: "experiment_info \<Rightarrow> byte_buffer \<Rightarrow> byte_buffer option" where
  "put_experiment_info eid b = do {
     b \<leftarrow> put_nstr (ei_ID eid) b;
     b \<leftarrow> put_nstr (ei_expName eid) b;
     put_nstr (ei_userName eid) b
   }"

definition get_experiment_info :: "byte_buffer \<Rightarrow> (experiment_info \<times> byte_buffer) option" where
  "get_experiment_info b = do {
     (i, b) \<leftarrow> get_nstr b;
     (e, b) \<leftarrow> get_nstr b;
     (u, b) \<leftarrow> get_nstr b;
     Some (\<lparr>ei_ID = i, ei_expName = e, ei_userName = u\<rparr>, b)
   }"

definition experiment_info_ok :: "experiment_info \<Rightarrow> bool" where
  "experiment_info_ok e \<longleftrightarrow> nstr_ok (ei_ID e) \<and> nstr_ok (ei_expName e) \<and> nstr_ok (ei_userName e)"

definition enc_experiment_info :: "experiment_info \<Rightarrow> u8 list" where
  "enc_experiment_info e = enc_nstr (ei_ID e) @ enc_nstr (ei_expName e) @ enc_nstr (ei_userName e)"

interpretation experiment_info: bounded_codec enc_experiment_info put_experiment_info
  get_experiment_info experiment_info_ok 777
proof unfold_locales
  fix e b assume "experiment_info_ok e" and "holds b (enc_experiment_info e)"
  then show "get_experiment_info b = Some (e, skip (length (enc_experiment_info e)) b)"
    by (auto simp: get_experiment_info_def enc_experiment_info_def experiment_info_ok_def
        wire_get ac_simps)
next
  fix e assume "experiment_info_ok e"
  then show "length (enc_experiment_info e) \<le> 777"
    by (auto simp: enc_experiment_info_def experiment_info_ok_def wire_len nstr_ok_def)
qed (simp add: enc_experiment_info_def put_experiment_info_def wire_put)

lemmas [wire_put] = experiment_info.put_enc
lemmas [wire_get] = experiment_info.get_enc

section \<open>component and cluster\<close>

record component =
  comp_type :: nstring
  comp_id :: u32
  comp_parent :: u32
  comp_label :: nstring
  comp_cp :: nstring
  comp_is_router :: bool

definition component_new :: component where
  "component_new = \<lparr>comp_type = nstr_of '''', comp_id = 0, comp_parent = 0, comp_label = nstr_of '''',
     comp_cp = nstr_of '''', comp_is_router = False\<rparr>"

definition component_of :: "string \<Rightarrow> u32 \<Rightarrow> component" where
  "component_of t i = \<lparr>comp_type = nstr_of t, comp_id = i, comp_parent = 0, comp_label = nstr_of '''',
     comp_cp = nstr_of '''', comp_is_router = False\<rparr>"

definition component_copy :: "component \<Rightarrow> component" where
  "component_copy c = \<lparr>comp_type = nstr_copy (comp_type c), comp_id = comp_id c,
     comp_parent = comp_parent c, comp_label = nstr_copy (comp_label c),
     comp_cp = nstr_copy (comp_cp c), comp_is_router = comp_is_router c\<rparr>"

definition isExtDev :: "component \<Rightarrow> bool" where
  "isExtDev c \<longleftrightarrow> c_str (comp_type c) = ''ExtDev'' \<or> c_str (comp_type c) = ''extdev''"

definition put_component :: "component \<Rightarrow> byte_buffer \<Rightarrow> byte_buffer option" where
  "put_component c b = do {
     b \<leftarrow> put_nstr (comp_type c) b;
     b \<leftarrow> put_u32 (comp_id c) b;
     b \<leftarrow> put_u32 (comp_parent c) b;
     b \<leftarrow> put_nstr (comp_label c) b;
     b \<leftarrow> put_nstr (comp_cp c) b;
     if comp_is_router c then put_u8 1 b else put_u8 0 b
   }"

definition get_component :: "byte_buffer \<Rightarrow> (component \<times> byte_buffer) option" where
  "get_component b = do {
     (t, b) \<leftarrow> get_nstr b;
     (i, b) \<leftarrow> get_u32 b;
     (p, b) \<leftarrow> get_u32 b;
     (l, b) \<leftarrow> get_nstr b;
     (cp, b) \<leftarrow> get_nstr b;
     (tmp_ir, b) \<leftarrow> get_u8 b;
     Some (\<lparr>comp_type = t, comp_id = i, comp_parent = p, comp_label = l, comp_cp = cp,
            comp_is_router = (if tmp_ir = 0 then False else True)\<rparr>, b)
   }"

definition component_ok :: "component \<Rightarrow> bool" where
  "component_ok c \<longleftrightarrow> nstr_ok (comp_type c) \<and> nstr_ok (comp_label c) \<and> nstr_ok (comp_cp c)"

definition enc_component :: "component \<Rightarrow> u8 list" where
  "enc_component c = enc_nstr (comp_type c) @ be32 (comp_id c) @ be32 (comp_parent c) @
     enc_nstr (comp_label c) @ enc_nstr (comp_cp c) @ [if comp_is_router c then 1 else 0]"

interpretation component: bounded_codec enc_component put_component get_component component_ok 786
proof unfold_locales
  fix c b
  show "put_component c b = put_bytes (enc_component c) b"
    by (cases "comp_is_router c")
      (simp_all add: enc_component_def put_component_def wire_put)
next
  fix c b assume "component_ok c" and "holds b (enc_component c)"
  then show "get_component b = Some (c, skip (length (enc_component c)) b)"
    by (cases "comp_is_router c")
      (auto simp: get_component_def enc_component_def component_ok_def wire_get ac_simps)
next
  fix c assume "component_ok c"
  then show "length (enc_component c) \<le> 786"
    by (auto simp: enc_component_def component_ok_def wire_len nstr_ok_def)
qed

lemmas [wire_put] = component.put_enc
lemmas [wire_get] = component.get_enc

text \<open>
  A cluster derives from component. Its array has 255 entries, but both constructors clear the
  entries \<^verbatim>\<open>0 .. 255\<close>.
\<close>

record cluster = component +
  hardware :: "u32 list"
  numHardware :: u32

fun clear_hardware :: "nat list \<Rightarrow> u32 list \<Rightarrow> u32 list option" where
  "clear_hardware [] hw = Some hw"
| "clear_hardware (i # is) hw = do { hw \<leftarrow> arr_set hw i 0; clear_hardware is hw }"

definition cluster_new :: "u32 list \<Rightarrow> cluster option" where
  "cluster_new hw = do {
     hw \<leftarrow> clear_hardware [0..<256] hw;
     Some (component.extend component_new \<lparr>hardware = hw, numHardware = 0\<rparr>)
   }"

definition cluster_of :: "u32 list \<Rightarrow> string \<Rightarrow> u32 \<Rightarrow> cluster option" where
  "cluster_of hw t i = do {
     hw \<leftarrow> clear_hardware [0..<256] hw;
     Some (component.extend (component_of t i) \<lparr>hardware = hw, numHardware = 0\<rparr>)
   }"

fun copy_hardware :: "nat list \<Rightarrow> u32 list \<Rightarrow> u32 list \<Rightarrow> u32 list option" where
  "copy_hardware [] src hw = Some hw"
| "copy_hardware (i # is) src hw = do {
     v \<leftarrow> arr_get src i; hw \<leftarrow> arr_set hw i v; copy_hardware is src hw }"

definition cluster_copy :: "u32 list \<Rightarrow> cluster \<Rightarrow> cluster option" where
  "cluster_copy hw c = do {
     hw \<leftarrow> copy_hardware [0..<unat (numHardware c)] (hardware c) hw;
     Some (component.extend (component_copy (component.truncate c))
             \<lparr>hardware = hw, numHardware = numHardware c\<rparr>)
   }"

fun put_hardware :: "nat list \<Rightarrow> u32 list \<Rightarrow> byte_buffer \<Rightarrow> byte_buffer option" where
  "put_hardware [] hw b = Some b"
| "put_hardware (i # is) hw b = do { v \<leftarrow> arr_get hw i; b \<leftarrow> put_u32 v b; put_hardware is hw b }"

fun get_hardware :: "nat list \<Rightarrow> u32 list \<Rightarrow> byte_buffer \<Rightarrow> (u32 list \<times> byte_buffer) option" where
  "get_hardware [] hw b = Some (hw, b)"
| "get_hardware (i # is) hw b = do {
     (v, b) \<leftarrow> get_u32 b; hw \<leftarrow> arr_set hw i v; get_hardware is hw b }"

definition put_cluster :: "cluster \<Rightarrow> byte_buffer \<Rightarrow> byte_buffer option" where
  "put_cluster c b = do {
     b \<leftarrow> put_component (component.truncate c) b;
     b \<leftarrow> put_u32 (numHardware c) b;
     put_hardware [0..<unat (numHardware c)] (hardware c) b
   }"

definition parseExtra :: "cluster \<Rightarrow> byte_buffer \<Rightarrow> (cluster \<times> byte_buffer) option" where
  "parseExtra c b = do {
     (n, b) \<leftarrow> get_u32 b;
     (hw, b) \<leftarrow> get_hardware [0..<unat n] (hardware c) b;
     Some (c\<lparr>numHardware := n, hardware := hw\<rparr>, b)
   }"

definition get_cluster :: "cluster \<Rightarrow> byte_buffer \<Rightarrow> (cluster \<times> byte_buffer) option" where
  "get_cluster c b = do {
     (comp, b) \<leftarrow> get_component b;
     (n, b) \<leftarrow> get_u32 b;
     (hw, b) \<leftarrow> get_hardware [0..<unat n] (hardware c) b;
     Some (component.extend comp \<lparr>hardware = hw, numHardware = n\<rparr>, b)
   }"

section \<open>experiment\<close>

record onl_experiment =
  exp_addr :: nstring
  exp_port :: u32
  exp_info :: experiment_info

definition experiment_of :: "string \<Rightarrow> u32 \<Rightarrow> experiment_info \<Rightarrow> onl_experiment" where
  "experiment_of a p ei =
     \<lparr>exp_addr = nstr_of a, exp_port = p, exp_info = experiment_info_copy ei\<rparr>"

definition experiment_copy :: "onl_experiment \<Rightarrow> onl_experiment" where
  "experiment_copy e = \<lparr>exp_addr = nstr_copy (exp_addr e), exp_port = exp_port e,
     exp_info = experiment_info_copy (exp_info e)\<rparr>"

definition put_experiment :: "onl_experiment \<Rightarrow> byte_buffer \<Rightarrow> byte_buffer option" where
  "put_experiment e b = do {
     b \<leftarrow> put_nstr (exp_addr e) b;
     b \<leftarrow> put_u32 (exp_port e) b;
     put_experiment_info (exp_info e) b
   }"

definition get_experiment :: "byte_buffer \<Rightarrow> (onl_experiment \<times> byte_buffer) option" where
  "get_experiment b = do {
     (a, b) \<leftarrow> get_nstr b;
     (p, b) \<leftarrow> get_u32 b;
     (i, b) \<leftarrow> get_experiment_info b;
     Some (\<lparr>exp_addr = a, exp_port = p, exp_info = i\<rparr>, b)
   }"

definition experiment_ok :: "onl_experiment \<Rightarrow> bool" where
  "experiment_ok e \<longleftrightarrow> nstr_ok (exp_addr e) \<and> experiment_info_ok (exp_info e)"

definition enc_experiment :: "onl_experiment \<Rightarrow> u8 list" where
  "enc_experiment e = enc_nstr (exp_addr e) @ be32 (exp_port e) @ enc_experiment_info (exp_info e)"

interpretation onl_experiment: bounded_codec enc_experiment put_experiment get_experiment
  experiment_ok 1040
proof unfold_locales
  fix e b assume "experiment_ok e" and "holds b (enc_experiment e)"
  then show "get_experiment b = Some (e, skip (length (enc_experiment e)) b)"
    by (auto simp: get_experiment_def enc_experiment_def experiment_ok_def
        wire_get ac_simps)
next
  fix e assume ok: "experiment_ok e"
  then have "length (enc_experiment_info (exp_info e)) \<le> 777"
    by (simp add: experiment_ok_def experiment_info.enc_bound)
  with ok show "length (enc_experiment e) \<le> 1040"
    by (simp add: enc_experiment_def experiment_ok_def wire_len nstr_ok_def)
qed (simp add: enc_experiment_def put_experiment_def wire_put)

lemmas [wire_put] = onl_experiment.put_enc
lemmas [wire_get] = onl_experiment.get_enc

section \<open>param\<close>

type_synonym paramtype = u16

abbreviation unknown_param :: paramtype where "unknown_param \<equiv> 0"
abbreviation int_param :: paramtype where "int_param \<equiv> 1"
abbreviation double_param :: paramtype where "double_param \<equiv> 2"
abbreviation bool_param :: paramtype where "bool_param \<equiv> 3"
abbreviation string_param :: paramtype where "string_param \<equiv> 4"
abbreviation max_param_type :: paramtype where "max_param_type \<equiv> string_param"

text \<open>
  Doubles travel as text; \<open>double_val\<close> holds the text whose \<^verbatim>\<open>atof\<close> the field is (the empty text
  for the initial 0).
\<close>

record param =
  pt :: paramtype
  int_val :: u32
  double_val :: string
  bool_val :: bool
  string_val :: nstring

definition param_new :: param where
  "param_new = \<lparr>pt = string_param, int_val = 0, double_val = '''', bool_val = False,
     string_val = nstr_of ''''\<rparr>"

definition param_of :: "string \<Rightarrow> param" where
  "param_of s = \<lparr>pt = string_param, int_val = 0, double_val = '''', bool_val = False,
     string_val = nstr_of s\<rparr>"

definition param_copy :: "param \<Rightarrow> param" where
  "param_copy p = \<lparr>pt = pt p, int_val = int_val p, double_val = double_val p,
     bool_val = bool_val p, string_val = nstr_copy (string_val p)\<rparr>"

definition param_getString :: "param \<Rightarrow> string" where
  "param_getString p =
     (if pt p = int_param then int2str (int_val p)
      else if pt p = double_param \<or> pt p = string_param then c_str (string_val p)
      else if pt p = bool_param then (if bool_val p then ''1'' else ''0'')
      else '''')"

text \<open>
  \<^verbatim>\<open>getCString\<close> hands out the characters of a string that dies with the call, except where it
  points into the object itself.
\<close>

definition param_getCString :: "param \<Rightarrow> string option" where
  "param_getCString p =
     (if pt p = int_param then None
      else if pt p = double_param \<or> pt p = string_param then Some (c_str (string_val p))
      else None)"

definition put_param :: "param \<Rightarrow> byte_buffer \<Rightarrow> byte_buffer option" where
  "put_param p b = do {
     b \<leftarrow> put_u16 (pt p) b;
     if pt p = int_param then put_u32 (int_val p) b
     else if pt p = double_param \<or> pt p = string_param then put_nstr (string_val p) b
     else if pt p = bool_param then (if bool_val p then put_u8 1 b else put_u8 0 b)
     else Some b
   }"

definition get_param :: "param \<Rightarrow> byte_buffer \<Rightarrow> (param \<times> byte_buffer) option" where
  "get_param p b = do {
     (t, b) \<leftarrow> get_u16 b;
     let p = p\<lparr>pt := (if t > max_param_type then unknown_param else t)\<rparr>;
     if pt p = int_param then do { (v, b) \<leftarrow> get_u32 b; Some (p\<lparr>int_val := v\<rparr>, b) }
     else if pt p = double_param then do {
       (s, b) \<leftarrow> get_nstr b;
       Some (p\<lparr>string_val := s, double_val := c_str s\<rparr>, b) }
     else if pt p = string_param then do { (s, b) \<leftarrow> get_nstr b; Some (p\<lparr>string_val := s\<rparr>, b) }
     else if pt p = bool_param then do {
       (tmp_ir, b) \<leftarrow> get_u8 b;
       Some (p\<lparr>bool_val := (if tmp_ir = 0 then False else True)\<rparr>, b) }
     else Some (p, b)
   }"

text \<open>\<^verbatim>\<open>std::list<param>\<close> and \<^verbatim>\<open>std::vector<param>\<close> are sent and read by the same loops.\<close>

definition put_param_list :: "param list \<Rightarrow> byte_buffer \<Rightarrow> byte_buffer option" where
  "put_param_list plist b = put_list put_param plist b"

definition get_param_list :: "param list \<Rightarrow> byte_buffer \<Rightarrow> (param list \<times> byte_buffer) option" where
  "get_param_list plist b = do {
     (ps, b) \<leftarrow> get_list (get_param param_new) b;
     Some (plist @ ps, b)
   }"

definition put_param_vec :: "param list \<Rightarrow> byte_buffer \<Rightarrow> byte_buffer option" where
  "put_param_vec pvec b = put_list put_param pvec b"

definition get_param_vec :: "param list \<Rightarrow> byte_buffer \<Rightarrow> (param list \<times> byte_buffer) option" where
  "get_param_vec pvec b = do {
     (ps, b) \<leftarrow> get_list (get_param param_new) b;
     Some (pvec @ ps, b)
   }"

text \<open>A parameter is canonical when only the field of its type differs from a fresh one.\<close>

definition param_ok :: "param \<Rightarrow> bool" where
  "param_ok p \<longleftrightarrow> pt p \<le> max_param_type \<and> nstr_ok (string_val p) \<and>
     (pt p \<noteq> int_param \<longrightarrow> int_val p = 0) \<and>
     (pt p \<noteq> bool_param \<longrightarrow> \<not> bool_val p) \<and>
     (pt p \<noteq> double_param \<and> pt p \<noteq> string_param \<longrightarrow> string_val p = []) \<and>
     double_val p = (if pt p = double_param then c_str (string_val p) else '''')"

definition enc_param :: "param \<Rightarrow> u8 list" where
  "enc_param p = be16 (pt p) @
     (if pt p = int_param then be32 (int_val p)
      else if pt p = double_param \<or> pt p = string_param then enc_nstr (string_val p)
      else if pt p = bool_param then [if bool_val p then 1 else 0]
      else [])"

lemma param_type_cases:
  fixes t :: paramtype
  assumes "t \<le> 4"
  shows "t = 0 \<or> t = 1 \<or> t = 2 \<or> t = 3 \<or> t = 4"
proof -
  have "unat t \<le> 4" using assms by (simp add: word_le_nat_alt)
  then show ?thesis by (simp add: word_unat_eq_iff) arith
qed

interpretation param: bounded_codec enc_param put_param "get_param param_new" param_ok 261
proof unfold_locales
  fix p b
  show "put_param p b = put_bytes (enc_param p) b"
    by (simp add: enc_param_def put_param_def wire_put)
next
  fix p b assume ok: "param_ok p" and h: "holds b (enc_param p)"
  obtain t i d v s where p: "p = \<lparr>pt = t, int_val = i, double_val = d, bool_val = v, string_val = s\<rparr>"
    by (cases p)
  from ok have "t \<le> 4" by (simp add: param_ok_def p)
  then consider "t = 0" | "t = 1" | "t = 2" | "t = 3" | "t = 4"
    using param_type_cases by blast
  then show "get_param param_new b = Some (p, skip (length (enc_param p)) b)"
  proof cases
    case 4
    with h ok show ?thesis
      by (cases v) (auto simp: p get_param_def enc_param_def param_ok_def param_new_def wire_get)
  qed (use h ok in \<open>auto simp: p get_param_def enc_param_def param_ok_def param_new_def wire_get\<close>)
next
  fix p assume "param_ok p"
  then show "length (enc_param p) \<le> 261"
    by (auto simp: enc_param_def param_ok_def wire_len nstr_ok_def)
qed

lemma get_param_list_Nil: "get_param_list [] b = get_list (get_param param_new) b"
  by (cases "get_list (get_param param_new) b") (auto simp: get_param_list_def)

lemma get_param_vec_Nil: "get_param_vec [] b = get_list (get_param param_new) b"
  by (cases "get_list (get_param param_new) b") (auto simp: get_param_vec_def)

interpretation param_list: wire_codec "enc_list enc_param" put_param_list "get_param_list []"
  "list_ok param_ok"
  using param.list_codec
  by (simp add: wire_codec_def put_param_list_def get_param_list_Nil)

interpretation param_vec: wire_codec "enc_list enc_param" put_param_vec "get_param_vec []"
  "list_ok param_ok"
  using param.list_codec
  by (simp add: wire_codec_def put_param_vec_def get_param_vec_Nil)

lemmas [wire_put] = param.put_enc param_list.put_enc param_vec.put_enc
lemmas [wire_get] = param.get_enc param_list.get_enc param_vec.get_enc

end
