(* ===== verification/Onl_Nodes.thy ===== *)
theory Onl_Nodes
  imports Onl_Types
begin

text \<open>
  The rest of \<^verbatim>\<open>shared/onl_types.cc\<close>: next hops, nodes, the conversion between 32-bit addresses
  and dotted text, and what can be proved of the cluster class, whose loops leave its array.
\<close>

section \<open>nh_info\<close>

record nh_info =
  nh_ipaddr :: nstring
  nh_ntype :: nstring
  nh_is_router :: bool
  nh_mac_addr :: nstring
  nh_dev_ipaddr :: nstring

definition nh_info_new :: nh_info where
  "nh_info_new = \<lparr>nh_ipaddr = nstr_of '''', nh_ntype = nstr_of '''', nh_is_router = False,
     nh_mac_addr = nstr_of '''', nh_dev_ipaddr = nstr_of ''''\<rparr>"

definition nh_info_init :: "string \<Rightarrow> string \<Rightarrow> bool \<Rightarrow> string \<Rightarrow> string \<Rightarrow> nh_info" where
  "nh_info_init ip rtype rrouter devip mac =
     \<lparr>nh_ipaddr = nstr_of ip, nh_ntype = nstr_of rtype, nh_is_router = rrouter,
      nh_mac_addr = nstr_of mac, nh_dev_ipaddr = nstr_of devip\<rparr>"

definition nh_info_copy :: "nh_info \<Rightarrow> nh_info" where
  "nh_info_copy ni =
     \<lparr>nh_ipaddr = nstr_copy (nh_ipaddr ni), nh_ntype = nstr_copy (nh_ntype ni),
      nh_is_router = nh_is_router ni, nh_mac_addr = nstr_copy (nh_mac_addr ni),
      nh_dev_ipaddr = nstr_copy (nh_dev_ipaddr ni)\<rparr>"

definition put_nh_info :: "nh_info \<Rightarrow> byte_buffer \<Rightarrow> byte_buffer option" where
  "put_nh_info ni b = do {
     b \<leftarrow> put_nstr (nh_ipaddr ni) b;
     b \<leftarrow> put_nstr (nh_ntype ni) b;
     b \<leftarrow> put_bool (nh_is_router ni) b;
     b \<leftarrow> put_nstr (nh_mac_addr ni) b;
     put_nstr (nh_dev_ipaddr ni) b
   }"

definition get_nh_info :: "byte_buffer \<Rightarrow> (nh_info \<times> byte_buffer) option" where
  "get_nh_info b = do {
     (ip, b) \<leftarrow> get_nstr b;
     (t, b) \<leftarrow> get_nstr b;
     (r, b) \<leftarrow> get_bool b;
     (mac, b) \<leftarrow> get_nstr b;
     (dev, b) \<leftarrow> get_nstr b;
     Some (\<lparr>nh_ipaddr = ip, nh_ntype = t, nh_is_router = r, nh_mac_addr = mac,
            nh_dev_ipaddr = dev\<rparr>, b)
   }"

definition nh_info_ok :: "nh_info \<Rightarrow> bool" where
  "nh_info_ok ni \<longleftrightarrow> nstr_ok (nh_ipaddr ni) \<and> nstr_ok (nh_ntype ni) \<and>
     nstr_ok (nh_mac_addr ni) \<and> nstr_ok (nh_dev_ipaddr ni)"

definition enc_nh_info :: "nh_info \<Rightarrow> u8 list" where
  "enc_nh_info ni = enc_nstr (nh_ipaddr ni) @ enc_nstr (nh_ntype ni) @
     enc_bool (nh_is_router ni) @ enc_nstr (nh_mac_addr ni) @ enc_nstr (nh_dev_ipaddr ni)"

lemmas [wire_put] = bool.put_enc timeval.put_enc
lemmas [wire_get] = bool.get_enc timeval.get_enc
lemmas [wire_len] = bool.enc_fixed timeval.enc_fixed

interpretation nh_info: bounded_codec enc_nh_info put_nh_info get_nh_info nh_info_ok 1038
proof unfold_locales
  fix ni b assume "nh_info_ok ni" and "holds b (enc_nh_info ni)"
  then show "get_nh_info b = Some (ni, skip (length (enc_nh_info ni)) b)"
    by (auto simp: get_nh_info_def enc_nh_info_def nh_info_ok_def wire_get ac_simps)
next
  fix ni assume "nh_info_ok ni"
  then show "length (enc_nh_info ni) \<le> 1038"
    by (auto simp: enc_nh_info_def nh_info_ok_def wire_len nstr_ok_def)
qed (simp add: enc_nh_info_def put_nh_info_def wire_put)

lemmas [wire_put] = nh_info.put_enc
lemmas [wire_get] = nh_info.get_enc

section \<open>node_info\<close>

record node_info =
  ni_ipaddr :: nstring
  ni_dev_ipaddr :: nstring
  ni_subnet :: nstring
  ni_port :: u32
  ni_real_port :: u32
  ni_vlanid :: u32
  ni_bandwidth :: u32
  ni_nexthop :: nh_info

definition node_info_new :: node_info where
  "node_info_new = \<lparr>ni_ipaddr = nstr_of '''', ni_dev_ipaddr = nstr_of '''', ni_subnet = nstr_of '''',
     ni_port = 0, ni_real_port = 0, ni_vlanid = 0, ni_bandwidth = 1000, ni_nexthop = nh_info_new\<rparr>"

definition node_info_of :: "string \<Rightarrow> string \<Rightarrow> u32 \<Rightarrow> string \<Rightarrow> bool \<Rightarrow> string \<Rightarrow> u32 \<Rightarrow> node_info" where
  "node_info_of ip sn portnum rtype rrouter next_hop_ip rport =
     \<lparr>ni_ipaddr = nstr_of ip, ni_dev_ipaddr = nstr_of '''', ni_subnet = nstr_of sn,
      ni_port = portnum, ni_real_port = rport, ni_vlanid = 0, ni_bandwidth = 1000,
      ni_nexthop = nh_info_new\<lparr>nh_ipaddr := nstr_of next_hop_ip, nh_is_router := rrouter,
        nh_ntype := nstr_of rtype\<rparr>\<rparr>"

definition node_info_of_dev :: "string \<Rightarrow> string \<Rightarrow> u32 \<Rightarrow> u32 \<Rightarrow> string \<Rightarrow> node_info" where
  "node_info_of_dev ip sn portnum rport devip =
     \<lparr>ni_ipaddr = nstr_of ip, ni_dev_ipaddr = nstr_of devip, ni_subnet = nstr_of sn,
      ni_port = portnum, ni_real_port = rport, ni_vlanid = 0, ni_bandwidth = 1000,
      ni_nexthop = nh_info_new\<rparr>"

definition node_info_copy :: "node_info \<Rightarrow> node_info" where
  "node_info_copy ni =
     \<lparr>ni_ipaddr = nstr_copy (ni_ipaddr ni), ni_dev_ipaddr = nstr_copy (ni_dev_ipaddr ni),
      ni_subnet = nstr_copy (ni_subnet ni), ni_port = ni_port ni, ni_real_port = ni_real_port ni,
      ni_vlanid = ni_vlanid ni, ni_bandwidth = ni_bandwidth ni,
      ni_nexthop = nh_info_copy (ni_nexthop ni)\<rparr>"

definition setNextHop :: "string \<Rightarrow> bool \<Rightarrow> string \<Rightarrow> string \<Rightarrow> string \<Rightarrow> node_info \<Rightarrow> node_info" where
  "setNextHop rtype rrouter ip devip mac ni =
     ni\<lparr>ni_nexthop := nh_info_init ip rtype rrouter devip mac\<rparr>"

definition put_node_info :: "node_info \<Rightarrow> byte_buffer \<Rightarrow> byte_buffer option" where
  "put_node_info ni b = do {
     b \<leftarrow> put_nstr (ni_ipaddr ni) b;
     b \<leftarrow> put_nstr (ni_subnet ni) b;
     b \<leftarrow> put_u32 (ni_port ni) b;
     b \<leftarrow> put_nh_info (ni_nexthop ni) b;
     b \<leftarrow> put_u32 (ni_real_port ni) b;
     b \<leftarrow> put_u32 (ni_vlanid ni) b;
     b \<leftarrow> put_u32 (ni_bandwidth ni) b;
     put_nstr (ni_dev_ipaddr ni) b
   }"

definition get_node_info :: "byte_buffer \<Rightarrow> (node_info \<times> byte_buffer) option" where
  "get_node_info b = do {
     (ip, b) \<leftarrow> get_nstr b;
     (sn, b) \<leftarrow> get_nstr b;
     (p, b) \<leftarrow> get_u32 b;
     (nh, b) \<leftarrow> get_nh_info b;
     (rp, b) \<leftarrow> get_u32 b;
     (v, b) \<leftarrow> get_u32 b;
     (bw, b) \<leftarrow> get_u32 b;
     (dev, b) \<leftarrow> get_nstr b;
     Some (\<lparr>ni_ipaddr = ip, ni_dev_ipaddr = dev, ni_subnet = sn, ni_port = p, ni_real_port = rp,
            ni_vlanid = v, ni_bandwidth = bw, ni_nexthop = nh\<rparr>, b)
   }"

definition node_info_ok :: "node_info \<Rightarrow> bool" where
  "node_info_ok ni \<longleftrightarrow> nstr_ok (ni_ipaddr ni) \<and> nstr_ok (ni_dev_ipaddr ni) \<and>
     nstr_ok (ni_subnet ni) \<and> nh_info_ok (ni_nexthop ni)"

definition enc_node_info :: "node_info \<Rightarrow> u8 list" where
  "enc_node_info ni = enc_nstr (ni_ipaddr ni) @ enc_nstr (ni_subnet ni) @ be32 (ni_port ni) @
     enc_nh_info (ni_nexthop ni) @ be32 (ni_real_port ni) @ be32 (ni_vlanid ni) @
     be32 (ni_bandwidth ni) @ enc_nstr (ni_dev_ipaddr ni)"

interpretation node_info: bounded_codec enc_node_info put_node_info get_node_info node_info_ok 1831
proof unfold_locales
  fix ni b assume "node_info_ok ni" and "holds b (enc_node_info ni)"
  then show "get_node_info b = Some (ni, skip (length (enc_node_info ni)) b)"
    by (auto simp: get_node_info_def enc_node_info_def node_info_ok_def wire_get ac_simps)
next
  fix ni assume ok: "node_info_ok ni"
  then have "length (enc_nh_info (ni_nexthop ni)) \<le> 1038"
    by (simp add: node_info_ok_def nh_info.enc_bound)
  with ok show "length (enc_node_info ni) \<le> 1831"
    by (simp add: enc_node_info_def node_info_ok_def wire_len nstr_ok_def)
qed (simp add: enc_node_info_def put_node_info_def wire_put)

lemmas [wire_put] = node_info.put_enc
lemmas [wire_get] = node_info.get_enc

section \<open>Addresses\<close>

text \<open>
  \<^verbatim>\<open>inet_pton(AF_INET, ...)\<close> of the C library: four decimal numbers up to 255, no leading zeros,
  separated by dots. The state is the finished octets and the one being read, if it has a digit.
\<close>

fun inet_pton_loop :: "nat list \<Rightarrow> nat option \<Rightarrow> string \<Rightarrow> nat list option" where
  "inet_pton_loop octs cur [] =
     (case cur of None \<Rightarrow> None
      | Some n \<Rightarrow> if length octs = 3 then Some (octs @ [n]) else None)"
| "inet_pton_loop octs cur (c # cs) =
     (if is_digit c then
        (case cur of
           None \<Rightarrow> if length octs = 4 then None else inet_pton_loop octs (Some (digit_val c)) cs
         | Some n \<Rightarrow> if n = 0 \<or> 10 * n + digit_val c > 255 then None
                     else inet_pton_loop octs (Some (10 * n + digit_val c)) cs)
      else if c = CHR ''.'' then
        (case cur of
           None \<Rightarrow> None
         | Some n \<Rightarrow> if length octs = 3 then None else inet_pton_loop (octs @ [n]) None cs)
      else None)"

definition inet_pton :: "string \<Rightarrow> nat list option" where
  "inet_pton s = inet_pton_loop [] None (c_str s)"

definition inet_ntop :: "u8 list \<Rightarrow> string" where
  "inet_ntop bs = dec_digits (unat (bs ! 0)) @ ''.'' @ dec_digits (unat (bs ! 1)) @ ''.'' @
     dec_digits (unat (bs ! 2)) @ ''.'' @ dec_digits (unat (bs ! 3))"

definition getAsIP :: "nstring \<Rightarrow> u32" where
  "getAsIP s = (case inet_pton s of None \<Rightarrow> 0 | Some bs \<Rightarrow> un_be32 (map of_nat bs))"

definition addr_int2str :: "u32 \<Rightarrow> string" where
  "addr_int2str addr = inet_ntop (be32 addr)"

lemma is_digit_dot [simp]: "\<not> is_digit (CHR ''.'')"
  by (simp add: is_digit_def)

lemma dec_digits_less_10: "n < 10 \<Longrightarrow> dec_digits n = [digit_char n]"
  by (subst dec_digits.simps) simp

lemma dec_digits_ge_10: "10 \<le> n \<Longrightarrow> dec_digits n = dec_digits (n div 10) @ [digit_char (n mod 10)]"
  by (subst dec_digits.simps) simp

text \<open>Reading back the digits of a number up to 255.\<close>

lemma inet_pton_loop_digits:
  assumes "n \<le> 255" and "length octs < 4"
  shows "inet_pton_loop octs None (dec_digits n @ cs) = inet_pton_loop octs (Some n) cs"
  using assms
proof (induction n arbitrary: cs rule: dec_digits.induct)
  case (1 n)
  show ?case
  proof (cases "n < 10")
    case True
    with "1.prems" show ?thesis by (simp add: dec_digits_less_10 is_digit_char)
  next
    case False
    with 1 have "inet_pton_loop octs None (dec_digits (n div 10) @ digit_char (n mod 10) # cs) =
        inet_pton_loop octs (Some (n div 10)) (digit_char (n mod 10) # cs)"
      by simp
    moreover have "n div 10 \<noteq> 0" "10 * (n div 10) + n mod 10 = n" using False by simp_all
    ultimately show ?thesis using False "1.prems"
      by (simp add: dec_digits_ge_10 is_digit_char del: div_eq_0_iff)
  qed
qed

lemma unat_u8_255: "unat (x :: u8) \<le> 255"
  using unat_u8_less [of x] by simp

lemma no_nul_dec_digits [simp]: "no_nul (dec_digits n)"
  by (auto simp: no_nul_def is_digit_def dest: dec_digits_digits)

lemma inet_pton_ntop:
  "length bs = 4 \<Longrightarrow> inet_pton (inet_ntop bs) = Some (map unat bs)"
proof -
  assume "length bs = 4"
  then obtain a b c d where bs: "bs = [a, b, c, d]"
    by (auto simp: numeral_eq_Suc length_Suc_conv)
  show ?thesis
    by (simp add: bs inet_pton_def inet_ntop_def inet_pton_loop_digits unat_u8_255)
      (simp add: inet_pton_loop_digits [where cs = "[]", simplified] unat_u8_255)
qed

lemma getAsIP_addr_int2str: "getAsIP (addr_int2str a) = a"
proof -
  have "map (of_nat \<circ> unat) (be32 a) = be32 a" by (simp add: be32_def)
  then show ?thesis by (simp add: getAsIP_def addr_int2str_def inet_pton_ntop)
qed

lemma length_dec_digits_u8: "length (dec_digits (unat (x :: u8))) \<le> 3"
proof -
  have "n \<le> 255 \<Longrightarrow> length (dec_digits n) \<le> 3" for n
    by (simp add: dec_digits_less_10 dec_digits_ge_10 not_less
        dec_digits.simps [of n] dec_digits.simps [of "n div 10"] dec_digits.simps [of "n div 10 div 10"])
  then show ?thesis by (simp add: unat_u8_255)
qed

lemma length_addr_int2str: "length (addr_int2str a) \<le> 15"
proof -
  have *: "a \<le> 3 \<Longrightarrow> b \<le> 3 \<Longrightarrow> c \<le> 3 \<Longrightarrow> d \<le> 3 \<Longrightarrow> a + (b + (c + d)) \<le> (12::nat)" for a b c d
    by simp
  show ?thesis
    using * [OF length_dec_digits_u8 [of "be32 a ! 0"] length_dec_digits_u8 [of "be32 a ! 1"]
      length_dec_digits_u8 [of "be32 a ! 2"] length_dec_digits_u8 [of "be32 a ! 3"]]
    by (simp add: addr_int2str_def inet_ntop_def)
qed

section \<open>The array of a cluster\<close>

lemma clear_hardware_None:
  "length hw \<in> set is \<Longrightarrow> clear_hardware is hw = None"
  by (induction "is" hw rule: clear_hardware.induct) (auto simp: arr_set_def)

lemma cluster_new_overruns: "length hw = 255 \<Longrightarrow> cluster_new hw = None \<and> cluster_of hw t i = None"
  by (simp add: cluster_new_def cluster_of_def clear_hardware_None)

lemma get_hardware_overrun:
  "length hw \<in> set is \<Longrightarrow> get_hardware is hw b = None"
proof (induction "is" hw b rule: get_hardware.induct)
  case (2 i "is" hw b)
  then show ?case
    by (cases "get_u32 b") (auto simp: arr_set_def)
qed simp

text \<open>
  The count on the wire is used unchecked: any count above 255 is a write outside the array, or
  the buffer ends first.
\<close>

lemma parseExtra_overrun:
  assumes "length (hardware c) = 255" and "parseExtra c b = Some (c', b')"
  shows "unat (numHardware c') \<le> 255"
proof (rule ccontr)
  assume "\<not> unat (numHardware c') \<le> 255"
  then have "length (hardware c) \<in> set [0..<unat (numHardware c')]"
    using assms(1) by simp
  with assms show False
    by (auto simp: parseExtra_def bind_eq_Some_conv get_hardware_overrun)
qed

lemma put_hardware_enc:
  "list_all (\<lambda>i. i < length hw) is \<Longrightarrow>
     put_hardware is hw b = put_bytes (concat (map (\<lambda>i. be32 (hw ! i)) is)) b"
proof (induction "is" arbitrary: b)
  case (Cons i "is")
  then have "put_hardware is hw = put_bytes (concat (map (\<lambda>i. be32 (hw ! i)) is))" by auto
  with Cons.prems show ?case by (simp add: arr_get_def put_u32_bytes put_bytes_append)
qed simp

lemma get_hardware_enc:
  assumes "list_all (\<lambda>i. i < length hw \<and> i < length old) is"
    and "holds b (concat (map (\<lambda>i. be32 (hw ! i)) is))"
  shows "get_hardware is old b =
    Some (fold (\<lambda>i old. old[i := hw ! i]) is old, skip (4 * length is) b)"
  using assms
proof (induction "is" arbitrary: b old)
  case (Cons i "is")
  then show ?case by (auto simp: arr_set_def wire_get ac_simps)
qed simp

lemma fold_update_prefix:
  "n \<le> length hw \<Longrightarrow> n \<le> length old \<Longrightarrow>
     fold (\<lambda>i old. old[i := hw ! i]) [0..<n] old = take n hw @ drop n old"
proof (induction n)
  case (Suc n)
  then show ?case
    by (simp add: take_Suc_conv_app_nth list_update_append Cons_nth_drop_Suc [symmetric])
qed simp

definition cluster_ok :: "cluster \<Rightarrow> bool" where
  "cluster_ok c \<longleftrightarrow> component_ok (component.truncate c) \<and> length (hardware c) = 255 \<and>
     unat (numHardware c) \<le> 255"

definition enc_cluster :: "cluster \<Rightarrow> u8 list" where
  "enc_cluster c = enc_component (component.truncate c) @ be32 (numHardware c) @
     concat (map (\<lambda>i. be32 (hardware c ! i)) [0..<unat (numHardware c)])"

lemma put_cluster_enc: "cluster_ok c \<Longrightarrow> put_cluster c b = put_bytes (enc_cluster c) b"
proof -
  assume "cluster_ok c"
  then have "put_hardware [0..<unat (numHardware c)] (hardware c) =
      put_bytes (concat (map (\<lambda>i. be32 (hardware c ! i)) [0..<unat (numHardware c)]))"
    by (intro ext put_hardware_enc) (auto simp: cluster_ok_def list_all_iff)
  then show ?thesis by (simp add: put_cluster_def enc_cluster_def wire_put)
qed

text \<open>A cluster within its array comes back, into any object; the tail of the array stays.\<close>

lemma get_cluster_enc:
  assumes "cluster_ok c" and "length (hardware old) = 255" and "holds b (enc_cluster c)"
  shows "get_cluster old b =
    Some (c\<lparr>hardware := take (unat (numHardware c)) (hardware c) @
             drop (unat (numHardware c)) (hardware old)\<rparr>,
          skip (length (enc_component (component.truncate c)) + 4 + 4 * unat (numHardware c)) b)"
proof -
  let ?n = "unat (numHardware c)"
  have comp: "get_component b =
      Some (component.truncate c, skip (length (enc_component (component.truncate c))) b)"
    using assms by (simp add: enc_cluster_def cluster_ok_def wire_get)
  have hw: "get_hardware [0..<?n] (hardware old)
      (skip (length (enc_component (component.truncate c)) + 4) b) =
      Some (take ?n (hardware c) @ drop ?n (hardware old),
        skip (length (enc_component (component.truncate c)) + 4 + 4 * ?n) b)"
    using assms
    by (subst get_hardware_enc [where hw = "hardware c"])
      (auto simp: cluster_ok_def list_all_iff fold_update_prefix enc_cluster_def wire_get)
  show ?thesis
    using assms comp hw
    by (cases c) (auto simp: get_cluster_def enc_cluster_def wire_get component.defs)
qed

end
