(* ===== verification/Onl_Messages.thy ===== *)
theory Onl_Messages
  imports Message Onl_Nodes
begin

text \<open>
  The requests and responses between the resource daemon, the base daemons and the user
  interface: \<^verbatim>\<open>shared/onl_requests.cc\<close> and \<^verbatim>\<open>shared/onl_responses.cc\<close>. Every class is an
  extension of \<open>request\<close> or \<open>response\<close>, has the constructors, \<^verbatim>\<open>parse\<close> and \<^verbatim>\<open>write\<close> of the
  source, and interprets \<open>wire_message\<close>.
\<close>

lemma message_of_bytes_more:
  "message_of_bytes junk junk' mbuf m = Some m' \<Longrightarrow> message.more m' = message.more m"
  by (auto simp: message_of_bytes_def bind_eq_Some_conv Let_def)

lemmas class_simps = msg_put_def bind_map_option
lemmas parse_simps = msg_get_def bind_map_option

section \<open>i_am_up\<close>

abbreviation NCCP_Operation_IAmUp :: u8 where "NCCP_Operation_IAmUp \<equiv> 57"

record i_am_up = request +
  iau_cp :: nstring

text \<open>\<^verbatim>\<open>gethostname(name, 64)\<close> leaves \<open>hostname\<close> in the 65-character array.\<close>

definition i_am_up_new :: "(nat \<Rightarrow> u8) \<Rightarrow> string \<Rightarrow> i_am_up \<Rightarrow> i_am_up" where
  "i_am_up_new junk hostname r =
     (request_new junk r)\<lparr>msg_op := NCCP_Operation_IAmUp, msg_periodic := False,
       iau_cp := nstr_of hostname\<rparr>"

definition i_am_up_parse :: "i_am_up \<Rightarrow> i_am_up option" where
  "i_am_up_parse m = do {
     m \<leftarrow> request_parse m;
     (c, m) \<leftarrow> msg_get get_nstr m;
     Some (m\<lparr>iau_cp := c\<rparr>)
   }"

definition i_am_up_write :: "i_am_up \<Rightarrow> i_am_up option" where
  "i_am_up_write m = do {
     m \<leftarrow> request_write m;
     msg_put (put_nstr (iau_cp m)) m
   }"

definition enc_i_am_up :: "i_am_up \<Rightarrow> u8 list" where
  "enc_i_am_up m = enc_request m @ enc_nstr (iau_cp m)"

interpretation i_am_up: wire_message enc_i_am_up "\<lambda>m. (request_view m, iau_cp m)"
  i_am_up_write i_am_up_parse "\<lambda>m. request_ok m \<and> nstr_ok (iau_cp m)" "\<lambda>_. True"
proof unfold_locales
  fix m r :: i_am_up
  assume "request_ok m \<and> nstr_ok (iau_cp m)" and "holds (msg_buf r) (enc_i_am_up m)"
  then have "i_am_up_parse r = Some ((request_read m r)\<lparr>iau_cp := iau_cp m,
      msg_buf := skip (length (enc_i_am_up m)) (msg_buf r)\<rparr>)"
    by (auto simp: i_am_up_parse_def enc_i_am_up_def parse_simps wire_get)
  then show "\<exists>r'. i_am_up_parse r = Some r' \<and> (request_view r', iau_cp r') = (request_view m, iau_cp m) \<and>
      msg_buf r' = skip (length (enc_i_am_up m)) (msg_buf r)"
    by (simp add: request_view_def request_read_def)
qed (simp_all add: i_am_up_write_def enc_i_am_up_def class_simps wire_put enc_request_def)

section \<open>crd_request and its classes\<close>

abbreviation NCCP_Operation_StartExperiment :: u8 where "NCCP_Operation_StartExperiment \<equiv> 55"
abbreviation NCCP_Operation_EndExperiment :: u8 where "NCCP_Operation_EndExperiment \<equiv> 43"
abbreviation NCCP_Operation_Refresh :: u8 where "NCCP_Operation_Refresh \<equiv> 35"
abbreviation NCCP_Operation_CfgNode :: u8 where "NCCP_Operation_CfgNode \<equiv> 36"
abbreviation NCCP_Operation_EndCfgNode :: u8 where "NCCP_Operation_EndCfgNode \<equiv> 37"

record crd_request = request +
  crd_exp :: onl_experiment
  crd_comp :: component

definition crd_request_new ::
    "(nat \<Rightarrow> u8) \<Rightarrow> onl_experiment \<Rightarrow> component \<Rightarrow> 'a crd_request_scheme \<Rightarrow> 'a crd_request_scheme" where
  "crd_request_new junk e c r =
     (request_new junk r)\<lparr>crd_exp := experiment_copy e, crd_comp := component_copy c,
       req_timeout := 60\<rparr>"

definition crd_request_of_bytes ::
    "(nat \<Rightarrow> u8) \<Rightarrow> (nat \<Rightarrow> u8) \<Rightarrow> u8 list \<Rightarrow> 'a crd_request_scheme \<Rightarrow> 'a crd_request_scheme option" where
  "crd_request_of_bytes junk junk' mbuf r = do {
     r \<leftarrow> request_of_bytes junk junk' mbuf r;
     Some (r\<lparr>req_timeout := 60\<rparr>)
   }"

definition crd_request_parse :: "'a crd_request_scheme \<Rightarrow> 'a crd_request_scheme option" where
  "crd_request_parse m = do {
     m \<leftarrow> request_parse m;
     (e, m) \<leftarrow> msg_get get_experiment m;
     (c, m) \<leftarrow> msg_get get_component m;
     Some (m\<lparr>crd_exp := e, crd_comp := c\<rparr>)
   }"

definition crd_request_write :: "'a crd_request_scheme \<Rightarrow> 'a crd_request_scheme option" where
  "crd_request_write m = do {
     m \<leftarrow> request_write m;
     m \<leftarrow> msg_put (put_experiment (crd_exp m)) m;
     msg_put (put_component (crd_comp m)) m
   }"

definition enc_crd_request :: "'a crd_request_scheme \<Rightarrow> u8 list" where
  "enc_crd_request m = enc_request m @ enc_experiment (crd_exp m) @ enc_component (crd_comp m)"

definition crd_request_ok :: "'a crd_request_scheme \<Rightarrow> bool" where
  "crd_request_ok m \<longleftrightarrow> request_ok m \<and> experiment_ok (crd_exp m) \<and> component_ok (crd_comp m)"

definition crd_request_read :: "'a crd_request_scheme \<Rightarrow> 'b crd_request_scheme \<Rightarrow> 'b crd_request_scheme" where
  "crd_request_read m r = (request_read m r)\<lparr>crd_exp := crd_exp m, crd_comp := crd_comp m,
     msg_buf := skip (length (enc_crd_request m)) (msg_buf r)\<rparr>"

definition crd_request_view where
  "crd_request_view m = (request_view m, crd_exp m, crd_comp m)"

lemma enc_crd_request_not_Nil [simp]: "enc_crd_request m \<noteq> []"
  by (simp add: enc_crd_request_def enc_request_def)

lemma enc_crd_request_buf [simp]: "enc_crd_request (m\<lparr>msg_buf := b\<rparr>) = enc_crd_request m"
  by (simp add: enc_crd_request_def)

lemma crd_request_write_enc [wire_put]:
  "crd_request_write m = map_option (\<lambda>b. m\<lparr>msg_buf := b\<rparr>) (put_bytes (enc_crd_request m) (msg_buf m))"
  by (simp add: crd_request_write_def enc_crd_request_def class_simps wire_put)

lemma crd_request_parse_enc [wire_get]:
  "crd_request_ok m \<Longrightarrow> holds (msg_buf r) (enc_crd_request m) \<Longrightarrow>
     crd_request_parse r = Some (crd_request_read m r)"
  by (auto simp: crd_request_parse_def crd_request_ok_def enc_crd_request_def crd_request_read_def
      parse_simps wire_get ac_simps)

lemma crd_request_read_sel [simp]:
  "msg_buf (crd_request_read m r) = skip (length (enc_crd_request m)) (msg_buf r)"
  "crd_request_view (crd_request_read m r) = crd_request_view m"
  by (simp_all add: crd_request_read_def crd_request_view_def request_view_def request_read_def)

lemma length_enc_crd_request: "crd_request_ok m \<Longrightarrow> length (enc_crd_request m) \<le> 1868"
  using length_enc_request [of m] onl_experiment.enc_bound [of "crd_exp m"]
    component.enc_bound [of "crd_comp m"]
  by (simp add: crd_request_ok_def enc_crd_request_def)

interpretation crd_request: wire_message enc_crd_request crd_request_view crd_request_write
  crd_request_parse crd_request_ok "\<lambda>_. True"
  by unfold_locales (rule crd_request_write_enc, rule enc_crd_request_buf,
      rule enc_crd_request_not_Nil, rule TrueI, auto simp: wire_get)

text \<open>
  \<^verbatim>\<open>end_experiment\<close> and \<^verbatim>\<open>end_configure_node\<close> add constructors only.
\<close>

definition end_experiment_new :: "(nat \<Rightarrow> u8) \<Rightarrow> onl_experiment \<Rightarrow> component \<Rightarrow> crd_request \<Rightarrow> crd_request" where
  "end_experiment_new junk e c r =
     (crd_request_new junk e c r)\<lparr>msg_op := NCCP_Operation_EndExperiment, msg_periodic := False\<rparr>"

definition end_configure_node_new ::
    "(nat \<Rightarrow> u8) \<Rightarrow> onl_experiment \<Rightarrow> component \<Rightarrow> crd_request \<Rightarrow> crd_request" where
  "end_configure_node_new junk e c r =
     (crd_request_new junk e c r)\<lparr>msg_op := NCCP_Operation_EndCfgNode, msg_periodic := False\<rparr>"

subsection \<open>start_experiment\<close>

record start_experiment = crd_request +
  se_ipaddr :: nstring
  se_cores :: u32
  se_memory :: u32
  se_init_params :: "param list"

definition start_experiment_new ::
    "(nat \<Rightarrow> u8) \<Rightarrow> onl_experiment \<Rightarrow> component \<Rightarrow> string \<Rightarrow> start_experiment \<Rightarrow> start_experiment" where
  "start_experiment_new junk e c ip r =
     (crd_request_new junk e c r)\<lparr>req_timeout := 120, msg_op := NCCP_Operation_StartExperiment,
       msg_periodic := False, se_ipaddr := nstr_of ip, se_init_params := []\<rparr>"

definition start_experiment_parse :: "start_experiment \<Rightarrow> start_experiment option" where
  "start_experiment_parse m = do {
     m \<leftarrow> crd_request_parse m;
     (ip, m) \<leftarrow> msg_get get_nstr m;
     (ps, m) \<leftarrow> msg_get (get_param_list (se_init_params m)) m;
     (c, m) \<leftarrow> msg_get get_u32 m;
     (mem, m) \<leftarrow> msg_get get_u32 m;
     Some (m\<lparr>se_ipaddr := ip, se_init_params := ps, se_cores := c, se_memory := mem\<rparr>)
   }"

definition start_experiment_write :: "start_experiment \<Rightarrow> start_experiment option" where
  "start_experiment_write m = do {
     m \<leftarrow> crd_request_write m;
     m \<leftarrow> msg_put (put_nstr (se_ipaddr m)) m;
     m \<leftarrow> msg_put (put_param_list (se_init_params m)) m;
     m \<leftarrow> msg_put (put_u32 (se_cores m)) m;
     msg_put (put_u32 (se_memory m)) m
   }"

definition set_init_params :: "param list \<Rightarrow> start_experiment \<Rightarrow> start_experiment" where
  "set_init_params params m = m\<lparr>se_init_params := map param_copy params\<rparr>"

definition enc_start_experiment :: "start_experiment \<Rightarrow> u8 list" where
  "enc_start_experiment m = enc_crd_request m @ enc_nstr (se_ipaddr m) @
     enc_list enc_param (se_init_params m) @ be32 (se_cores m) @ be32 (se_memory m)"

definition start_experiment_ok :: "start_experiment \<Rightarrow> bool" where
  "start_experiment_ok m \<longleftrightarrow> crd_request_ok m \<and> nstr_ok (se_ipaddr m) \<and>
     list_ok param_ok (se_init_params m)"

definition start_experiment_view where
  "start_experiment_view m =
     (crd_request_view m, se_ipaddr m, se_cores m, se_memory m, se_init_params m)"

lemmas read_simps = crd_request_read_def crd_request_view_def request_view_def request_read_def

lemma crd_request_read_init_params [simp]:
  "se_init_params (crd_request_read m (r :: start_experiment)) = se_init_params r"
  by (simp add: read_simps)

interpretation start_experiment: wire_message enc_start_experiment start_experiment_view
  start_experiment_write start_experiment_parse start_experiment_ok "\<lambda>r. se_init_params r = []"
proof unfold_locales
  fix m r :: start_experiment
  assume "start_experiment_ok m" and "se_init_params r = []"
    and "holds (msg_buf r) (enc_start_experiment m)"
  then have "start_experiment_parse r = Some ((crd_request_read m r)\<lparr>se_ipaddr := se_ipaddr m,
      se_init_params := se_init_params m, se_cores := se_cores m, se_memory := se_memory m,
      msg_buf := skip (length (enc_start_experiment m)) (msg_buf r)\<rparr>)"
    by (auto simp: start_experiment_parse_def start_experiment_ok_def enc_start_experiment_def
        parse_simps wire_get ac_simps)
  then show "\<exists>r'. start_experiment_parse r = Some r' \<and>
      start_experiment_view r' = start_experiment_view m \<and>
      msg_buf r' = skip (length (enc_start_experiment m)) (msg_buf r)"
    by (simp add: start_experiment_view_def read_simps)
next
  fix r0 r :: start_experiment and junk junk' mbuf
  assume "se_init_params r0 = []" and "message_of_bytes junk junk' mbuf r0 = Some r"
  then show "se_init_params r = []"
    by (auto simp: message_of_bytes_def bind_eq_Some_conv Let_def)
qed (simp_all add: start_experiment_write_def enc_start_experiment_def class_simps wire_put)

subsection \<open>refresh and configure_node\<close>

record refresh = crd_request +
  rf_reboot_params :: "param list"

definition refresh_new :: "(nat \<Rightarrow> u8) \<Rightarrow> onl_experiment \<Rightarrow> component \<Rightarrow> refresh \<Rightarrow> refresh" where
  "refresh_new junk e c r =
     (crd_request_new junk e c r)\<lparr>msg_op := NCCP_Operation_Refresh, msg_periodic := False,
       rf_reboot_params := []\<rparr>"

definition refresh_parse :: "refresh \<Rightarrow> refresh option" where
  "refresh_parse m = do {
     m \<leftarrow> crd_request_parse m;
     (ps, m) \<leftarrow> msg_get (get_param_list (rf_reboot_params m)) m;
     Some (m\<lparr>rf_reboot_params := ps\<rparr>)
   }"

definition refresh_write :: "refresh \<Rightarrow> refresh option" where
  "refresh_write m = do {
     m \<leftarrow> crd_request_write m;
     msg_put (put_param_list (rf_reboot_params m)) m
   }"

definition set_reboot_params :: "param list \<Rightarrow> refresh \<Rightarrow> refresh" where
  "set_reboot_params params m = m\<lparr>rf_reboot_params := map param_copy params\<rparr>"

definition enc_refresh :: "refresh \<Rightarrow> u8 list" where
  "enc_refresh m = enc_crd_request m @ enc_list enc_param (rf_reboot_params m)"

lemma crd_request_read_reboot_params [simp]:
  "rf_reboot_params (crd_request_read m (r :: refresh)) = rf_reboot_params r"
  by (simp add: read_simps)

interpretation refresh: wire_message enc_refresh "\<lambda>m. (crd_request_view m, rf_reboot_params m)"
  refresh_write refresh_parse "\<lambda>m. crd_request_ok m \<and> list_ok param_ok (rf_reboot_params m)"
  "\<lambda>r. rf_reboot_params r = []"
proof unfold_locales
  fix m r :: refresh
  assume "crd_request_ok m \<and> list_ok param_ok (rf_reboot_params m)" and "rf_reboot_params r = []"
    and "holds (msg_buf r) (enc_refresh m)"
  then have "refresh_parse r = Some ((crd_request_read m r)\<lparr>rf_reboot_params := rf_reboot_params m,
      msg_buf := skip (length (enc_refresh m)) (msg_buf r)\<rparr>)"
    by (auto simp: refresh_parse_def enc_refresh_def parse_simps wire_get)
  then show "\<exists>r'. refresh_parse r = Some r' \<and>
      (crd_request_view r', rf_reboot_params r') = (crd_request_view m, rf_reboot_params m) \<and>
      msg_buf r' = skip (length (enc_refresh m)) (msg_buf r)"
    by (simp add: read_simps)
next
  fix r0 r :: refresh and junk junk' mbuf
  assume "rf_reboot_params r0 = []" and "message_of_bytes junk junk' mbuf r0 = Some r"
  then show "rf_reboot_params r = []"
    by (auto simp: message_of_bytes_def bind_eq_Some_conv Let_def)
qed (simp_all add: refresh_write_def enc_refresh_def class_simps wire_put)

record configure_node = crd_request +
  cn_node_conf :: node_info

definition configure_node_new ::
    "(nat \<Rightarrow> u8) \<Rightarrow> onl_experiment \<Rightarrow> component \<Rightarrow> node_info \<Rightarrow> configure_node \<Rightarrow> configure_node" where
  "configure_node_new junk e c ni r =
     (crd_request_new junk e c r)\<lparr>msg_op := NCCP_Operation_CfgNode, msg_periodic := False,
       cn_node_conf := node_info_copy ni\<rparr>"

definition configure_node_parse :: "configure_node \<Rightarrow> configure_node option" where
  "configure_node_parse m = do {
     m \<leftarrow> crd_request_parse m;
     (ni, m) \<leftarrow> msg_get get_node_info m;
     Some (m\<lparr>cn_node_conf := ni\<rparr>)
   }"

definition configure_node_write :: "configure_node \<Rightarrow> configure_node option" where
  "configure_node_write m = do {
     m \<leftarrow> crd_request_write m;
     msg_put (put_node_info (cn_node_conf m)) m
   }"

definition enc_configure_node :: "configure_node \<Rightarrow> u8 list" where
  "enc_configure_node m = enc_crd_request m @ enc_node_info (cn_node_conf m)"

interpretation configure_node: wire_message enc_configure_node
  "\<lambda>m. (crd_request_view m, cn_node_conf m)" configure_node_write configure_node_parse
  "\<lambda>m. crd_request_ok m \<and> node_info_ok (cn_node_conf m)" "\<lambda>_. True"
proof unfold_locales
  fix m r :: configure_node
  assume "crd_request_ok m \<and> node_info_ok (cn_node_conf m)"
    and "holds (msg_buf r) (enc_configure_node m)"
  then have "configure_node_parse r = Some ((crd_request_read m r)\<lparr>cn_node_conf := cn_node_conf m,
      msg_buf := skip (length (enc_configure_node m)) (msg_buf r)\<rparr>)"
    by (auto simp: configure_node_parse_def enc_configure_node_def parse_simps wire_get)
  then show "\<exists>r'. configure_node_parse r = Some r' \<and>
      (crd_request_view r', cn_node_conf r') = (crd_request_view m, cn_node_conf m) \<and>
      msg_buf r' = skip (length (enc_configure_node m)) (msg_buf r)"
    by (simp add: read_simps)
qed (simp_all add: configure_node_write_def enc_configure_node_def class_simps wire_put)

section \<open>rli_request\<close>

text \<open>Only parsed here: the user interface that writes it is another program.\<close>

record rli_request = request +
  rli_id :: u32
  rli_port :: u16
  rli_version :: nstring
  rli_params :: "param list"

definition rli_request_parse :: "'a rli_request_scheme \<Rightarrow> 'a rli_request_scheme option" where
  "rli_request_parse m = do {
     m \<leftarrow> request_parse m;
     (i, m) \<leftarrow> msg_get get_u32 m;
     (p, m) \<leftarrow> msg_get get_u16 m;
     (v, m) \<leftarrow> msg_get get_nstr m;
     (ps, m) \<leftarrow> msg_get (get_param_vec (rli_params m)) m;
     Some (m\<lparr>rli_id := i, rli_port := p, rli_version := v, rli_params := ps\<rparr>)
   }"

definition enc_rli_request :: "'a rli_request_scheme \<Rightarrow> u8 list" where
  "enc_rli_request m = enc_request m @ be32 (rli_id m) @ be16 (rli_port m) @
     enc_nstr (rli_version m) @ enc_list enc_param (rli_params m)"

lemma rli_request_parse_enc:
  fixes m r :: "'a rli_request_scheme"
  assumes "request_ok m" and "nstr_ok (rli_version m)" and "list_ok param_ok (rli_params m)"
    and "rli_params r = []" and "holds (msg_buf r) (enc_rli_request m)"
  shows "rli_request_parse r = Some ((request_read m r)\<lparr>rli_id := rli_id m, rli_port := rli_port m,
    rli_version := rli_version m, rli_params := rli_params m,
    msg_buf := skip (length (enc_rli_request m)) (msg_buf r)\<rparr>)"
proof -
  have "rli_params (request_read m r) = []"
    using assms(4) by (simp add: request_read_def)
  then show ?thesis
    using assms by (auto simp: rli_request_parse_def enc_rli_request_def parse_simps wire_get ac_simps)
qed

end
