(* ===== verification/Onl_Responses.thy ===== *)
theory Onl_Responses
  imports Onl_Messages
begin

text \<open>
  \<^verbatim>\<open>shared/onl_responses.h\<close> and \<^verbatim>\<open>shared/onl_responses.cc\<close>: the status codes and the
  classes of the answers to the resource daemon and to the user interface.
\<close>

type_synonym NCCP_StatusType = u32

abbreviation NCCP_Status_OperationIncomplete :: NCCP_StatusType where
  "NCCP_Status_OperationIncomplete \<equiv> 0"
abbreviation NCCP_Status_Fine :: NCCP_StatusType where "NCCP_Status_Fine \<equiv> 1"
abbreviation NCCP_Status_TimeoutLocal :: NCCP_StatusType where "NCCP_Status_TimeoutLocal \<equiv> 2"
abbreviation NCCP_Status_TimeoutRemote :: NCCP_StatusType where "NCCP_Status_TimeoutRemote \<equiv> 3"
abbreviation NCCP_Status_StillRemaining :: NCCP_StatusType where "NCCP_Status_StillRemaining \<equiv> 4"
abbreviation NCCP_Status_Failed :: NCCP_StatusType where "NCCP_Status_Failed \<equiv> 5"
abbreviation NCCP_Status_AllocFailed :: NCCP_StatusType where "NCCP_Status_AllocFailed \<equiv> 6"
abbreviation NCCP_Status_Testing :: NCCP_StatusType where "NCCP_Status_Testing \<equiv> 7"

section \<open>crd_response\<close>

record crd_response = response +
  cr_status :: NCCP_StatusType
  cr_exp :: onl_experiment
  cr_comp :: component

text \<open>
  \<^verbatim>\<open>getExperiment()\<close> and \<^verbatim>\<open>getComponent()\<close> return copies, which are copied again into the
  response.
\<close>

definition crd_response_new_status ::
    "(nat \<Rightarrow> u8) \<Rightarrow> addr \<Rightarrow> 'b crd_request_scheme \<Rightarrow> NCCP_StatusType \<Rightarrow> 'a crd_response_scheme \<Rightarrow> 'a crd_response_scheme" where
  "crd_response_new_status junk ra req stat r =
     (response_new junk ra req r)\<lparr>cr_status := stat,
       cr_exp := experiment_copy (experiment_copy (crd_exp req)),
       cr_comp := component_copy (component_copy (crd_comp req))\<rparr>"

definition crd_response_new ::
    "(nat \<Rightarrow> u8) \<Rightarrow> addr \<Rightarrow> 'b crd_request_scheme \<Rightarrow> 'a crd_response_scheme \<Rightarrow> 'a crd_response_scheme" where
  "crd_response_new junk ra req r =
     (response_new junk ra req r)\<lparr>cr_status := NCCP_Status_Fine,
       cr_exp := experiment_copy (experiment_copy (crd_exp req)),
       cr_comp := component_copy (component_copy (crd_comp req))\<rparr>"

definition crd_response_parse :: "'a crd_response_scheme \<Rightarrow> 'a crd_response_scheme option" where
  "crd_response_parse m = do {
     m \<leftarrow> response_parse m;
     (s, m) \<leftarrow> msg_get get_u32 m;
     (e, m) \<leftarrow> msg_get get_experiment m;
     (c, m) \<leftarrow> msg_get get_component m;
     Some (m\<lparr>cr_status := s, cr_exp := e, cr_comp := c\<rparr>)
   }"

definition crd_response_write :: "'a crd_response_scheme \<Rightarrow> 'a crd_response_scheme option" where
  "crd_response_write m = do {
     m \<leftarrow> response_write m;
     m \<leftarrow> msg_put (put_u32 (cr_status m)) m;
     m \<leftarrow> msg_put (put_experiment (cr_exp m)) m;
     msg_put (put_component (cr_comp m)) m
   }"

definition enc_crd_response :: "'a crd_response_scheme \<Rightarrow> u8 list" where
  "enc_crd_response m = enc_response m @ be32 (cr_status m) @ enc_experiment (cr_exp m) @
     enc_component (cr_comp m)"

definition crd_response_ok :: "'a crd_response_scheme \<Rightarrow> bool" where
  "crd_response_ok m \<longleftrightarrow> experiment_ok (cr_exp m) \<and> component_ok (cr_comp m)"

definition crd_response_view where
  "crd_response_view m = (response_view m, cr_status m, cr_exp m, cr_comp m)"

definition crd_response_read :: "'a crd_response_scheme \<Rightarrow> 'b crd_response_scheme \<Rightarrow> 'b crd_response_scheme" where
  "crd_response_read m r = (response_read m r)\<lparr>cr_status := cr_status m, cr_exp := cr_exp m,
     cr_comp := cr_comp m, msg_buf := skip (length (enc_crd_response m)) (msg_buf r)\<rparr>"

lemma enc_crd_response_not_Nil [simp]: "enc_crd_response m \<noteq> []"
  by (simp add: enc_crd_response_def enc_response_def)

lemma enc_crd_response_buf [simp]: "enc_crd_response (m\<lparr>msg_buf := b\<rparr>) = enc_crd_response m"
  by (simp add: enc_crd_response_def)

lemma crd_response_write_enc [wire_put]:
  "crd_response_write m = map_option (\<lambda>b. m\<lparr>msg_buf := b\<rparr>) (put_bytes (enc_crd_response m) (msg_buf m))"
  by (simp add: crd_response_write_def enc_crd_response_def class_simps wire_put)

lemma crd_response_parse_enc [wire_get]:
  "crd_response_ok m \<Longrightarrow> holds (msg_buf r) (enc_crd_response m) \<Longrightarrow>
     crd_response_parse r = Some (crd_response_read m r)"
  by (auto simp: crd_response_parse_def crd_response_ok_def enc_crd_response_def
      crd_response_read_def parse_simps wire_get ac_simps)

lemmas resp_read_simps =
  crd_response_read_def crd_response_view_def response_view_def response_read_def

lemma crd_response_read_sel [simp]:
  "msg_buf (crd_response_read m r) = skip (length (enc_crd_response m)) (msg_buf r)"
  "crd_response_view (crd_response_read m r) = crd_response_view m"
  by (simp_all add: resp_read_simps)

lemma length_enc_crd_response: "crd_response_ok m \<Longrightarrow> length (enc_crd_response m) \<le> 1894"
  using length_enc_response [of m] onl_experiment.enc_bound [of "cr_exp m"]
    component.enc_bound [of "cr_comp m"]
  by (simp add: crd_response_ok_def enc_crd_response_def)

interpretation crd_response: wire_message enc_crd_response crd_response_view crd_response_write
  crd_response_parse crd_response_ok "\<lambda>_. True"
  by unfold_locales (rule crd_response_write_enc, rule enc_crd_response_buf,
      rule enc_crd_response_not_Nil, rule TrueI, auto simp: wire_get)

subsection \<open>crd_hwresponse and crd_endconfig_response\<close>

record crd_hwresponse = crd_response +
  hw_id :: u32

definition crd_hwresponse_new ::
    "(nat \<Rightarrow> u8) \<Rightarrow> addr \<Rightarrow> 'b crd_request_scheme \<Rightarrow> NCCP_StatusType \<Rightarrow> u32 \<Rightarrow> crd_hwresponse \<Rightarrow> crd_hwresponse" where
  "crd_hwresponse_new junk ra req stat i r =
     (crd_response_new_status junk ra req stat r)\<lparr>hw_id := i\<rparr>"

definition crd_hwresponse_parse :: "crd_hwresponse \<Rightarrow> crd_hwresponse option" where
  "crd_hwresponse_parse m = do {
     m \<leftarrow> crd_response_parse m;
     (i, m) \<leftarrow> msg_get get_u32 m;
     Some (m\<lparr>hw_id := i\<rparr>)
   }"

definition crd_hwresponse_write :: "crd_hwresponse \<Rightarrow> crd_hwresponse option" where
  "crd_hwresponse_write m = do {
     m \<leftarrow> crd_response_write m;
     msg_put (put_u32 (hw_id m)) m
   }"

definition enc_crd_hwresponse :: "crd_hwresponse \<Rightarrow> u8 list" where
  "enc_crd_hwresponse m = enc_crd_response m @ be32 (hw_id m)"

interpretation crd_hwresponse: wire_message enc_crd_hwresponse
  "\<lambda>m. (crd_response_view m, hw_id m)" crd_hwresponse_write crd_hwresponse_parse
  crd_response_ok "\<lambda>_. True"
proof unfold_locales
  fix m r :: crd_hwresponse
  assume "crd_response_ok m" and "holds (msg_buf r) (enc_crd_hwresponse m)"
  then have "crd_hwresponse_parse r = Some ((crd_response_read m r)\<lparr>hw_id := hw_id m,
      msg_buf := skip (length (enc_crd_hwresponse m)) (msg_buf r)\<rparr>)"
    by (auto simp: crd_hwresponse_parse_def enc_crd_hwresponse_def parse_simps wire_get)
  then show "\<exists>r'. crd_hwresponse_parse r = Some r' \<and>
      (crd_response_view r', hw_id r') = (crd_response_view m, hw_id m) \<and>
      msg_buf r' = skip (length (enc_crd_hwresponse m)) (msg_buf r)"
    by (simp add: resp_read_simps)
qed (simp_all add: crd_hwresponse_write_def enc_crd_hwresponse_def class_simps wire_put)

record crd_endconfig_response = crd_response +
  ec_vmname :: nstring

definition crd_endconfig_response_new ::
    "(nat \<Rightarrow> u8) \<Rightarrow> addr \<Rightarrow> 'b crd_request_scheme \<Rightarrow> NCCP_StatusType \<Rightarrow> crd_endconfig_response \<Rightarrow> crd_endconfig_response" where
  "crd_endconfig_response_new junk ra req stat r =
     (crd_response_new_status junk ra req stat r)\<lparr>ec_vmname := []\<rparr>"

definition crd_endconfig_response_new_vm ::
    "(nat \<Rightarrow> u8) \<Rightarrow> addr \<Rightarrow> 'b crd_request_scheme \<Rightarrow> NCCP_StatusType \<Rightarrow> string \<Rightarrow> crd_endconfig_response \<Rightarrow> crd_endconfig_response" where
  "crd_endconfig_response_new_vm junk ra req stat vmn r =
     (crd_response_new_status junk ra req stat r)\<lparr>ec_vmname := nstr_of vmn\<rparr>"

definition crd_endconfig_response_parse :: "crd_endconfig_response \<Rightarrow> crd_endconfig_response option" where
  "crd_endconfig_response_parse m = do {
     m \<leftarrow> crd_response_parse m;
     (v, m) \<leftarrow> msg_get get_nstr m;
     Some (m\<lparr>ec_vmname := v\<rparr>)
   }"

definition crd_endconfig_response_write :: "crd_endconfig_response \<Rightarrow> crd_endconfig_response option" where
  "crd_endconfig_response_write m = do {
     m \<leftarrow> crd_response_write m;
     msg_put (put_nstr (ec_vmname m)) m
   }"

definition enc_crd_endconfig_response :: "crd_endconfig_response \<Rightarrow> u8 list" where
  "enc_crd_endconfig_response m = enc_crd_response m @ enc_nstr (ec_vmname m)"

interpretation crd_endconfig_response: wire_message enc_crd_endconfig_response
  "\<lambda>m. (crd_response_view m, ec_vmname m)" crd_endconfig_response_write
  crd_endconfig_response_parse "\<lambda>m. crd_response_ok m \<and> nstr_ok (ec_vmname m)" "\<lambda>_. True"
proof unfold_locales
  fix m r :: crd_endconfig_response
  assume "crd_response_ok m \<and> nstr_ok (ec_vmname m)"
    and "holds (msg_buf r) (enc_crd_endconfig_response m)"
  then have "crd_endconfig_response_parse r = Some ((crd_response_read m r)\<lparr>ec_vmname := ec_vmname m,
      msg_buf := skip (length (enc_crd_endconfig_response m)) (msg_buf r)\<rparr>)"
    by (auto simp: crd_endconfig_response_parse_def enc_crd_endconfig_response_def parse_simps wire_get)
  then show "\<exists>r'. crd_endconfig_response_parse r = Some r' \<and>
      (crd_response_view r', ec_vmname r') = (crd_response_view m, ec_vmname m) \<and>
      msg_buf r' = skip (length (enc_crd_endconfig_response m)) (msg_buf r)"
    by (simp add: resp_read_simps)
qed (simp_all add: crd_endconfig_response_write_def enc_crd_endconfig_response_def class_simps wire_put)

section \<open>rli_response\<close>

record rli_response = response +
  rr_status :: NCCP_StatusType
  rr_time_stamp :: u32
  rr_clock_rate :: u32
  rr_value :: u32
  rr_status_msg :: nstring

definition rli_response_new :: "(nat \<Rightarrow> u8) \<Rightarrow> addr \<Rightarrow> 'b rli_request_scheme \<Rightarrow> rli_response \<Rightarrow> rli_response" where
  "rli_response_new junk ra req r =
     (response_new junk ra req r)\<lparr>rr_status := NCCP_Status_Fine, rr_time_stamp := 0,
       rr_clock_rate := 0, rr_value := 0, rr_status_msg := nstr_of ''''\<rparr>"

definition rli_response_new_status ::
    "(nat \<Rightarrow> u8) \<Rightarrow> addr \<Rightarrow> 'b rli_request_scheme \<Rightarrow> NCCP_StatusType \<Rightarrow> rli_response \<Rightarrow> rli_response" where
  "rli_response_new_status junk ra req stat r =
     (response_new junk ra req r)\<lparr>rr_status := stat, rr_time_stamp := 0,
       rr_clock_rate := 0, rr_value := 0, rr_status_msg := nstr_of ''''\<rparr>"

text \<open>
  With a value, the time of day \<open>now\<close> in milliseconds goes along, cut to 32 bits.
\<close>

definition rli_response_new_value ::
    "(nat \<Rightarrow> u8) \<Rightarrow> timeval \<Rightarrow> addr \<Rightarrow> 'b rli_request_scheme \<Rightarrow> NCCP_StatusType \<Rightarrow> u32 \<Rightarrow> rli_response \<Rightarrow> rli_response" where
  "rli_response_new_value junk now ra req stat val r =
     (response_new junk ra req r)\<lparr>rr_status := stat, rr_value := val, rr_status_msg := nstr_of '''',
       rr_clock_rate := 1000,
       rr_time_stamp := word_of_int (tv_sec now * 1000 + tv_usec now div 1000)\<rparr>"

definition rli_response_new_rate ::
    "(nat \<Rightarrow> u8) \<Rightarrow> addr \<Rightarrow> 'b rli_request_scheme \<Rightarrow> NCCP_StatusType \<Rightarrow> u32 \<Rightarrow> u32 \<Rightarrow> u32 \<Rightarrow> rli_response \<Rightarrow> rli_response" where
  "rli_response_new_rate junk ra req stat val ts rate r =
     (response_new junk ra req r)\<lparr>rr_status := stat, rr_value := val, rr_time_stamp := ts,
       rr_clock_rate := rate, rr_status_msg := nstr_of ''''\<rparr>"

definition rli_response_new_msg ::
    "(nat \<Rightarrow> u8) \<Rightarrow> addr \<Rightarrow> 'b rli_request_scheme \<Rightarrow> NCCP_StatusType \<Rightarrow> string \<Rightarrow> rli_response \<Rightarrow> rli_response" where
  "rli_response_new_msg junk ra req stat msg r =
     (response_new junk ra req r)\<lparr>rr_status := stat, rr_time_stamp := 0, rr_clock_rate := 0,
       rr_value := 0, rr_status_msg := nstr_of msg\<rparr>"

definition rli_response_parse :: "rli_response \<Rightarrow> rli_response option" where
  "rli_response_parse m = do {
     m \<leftarrow> response_parse m;
     (s, m) \<leftarrow> msg_get get_u32 m;
     (t, m) \<leftarrow> msg_get get_u32 m;
     (c, m) \<leftarrow> msg_get get_u32 m;
     (v, m) \<leftarrow> msg_get get_u32 m;
     (sm, m) \<leftarrow> msg_get get_nstr m;
     Some (m\<lparr>rr_status := s, rr_time_stamp := t, rr_clock_rate := c, rr_value := v,
             rr_status_msg := sm\<rparr>)
   }"

definition rli_response_write :: "rli_response \<Rightarrow> rli_response option" where
  "rli_response_write m = do {
     m \<leftarrow> response_write m;
     m \<leftarrow> msg_put (put_u32 (rr_status m)) m;
     m \<leftarrow> msg_put (put_u32 (rr_time_stamp m)) m;
     m \<leftarrow> msg_put (put_u32 (rr_clock_rate m)) m;
     m \<leftarrow> msg_put (put_u32 (rr_value m)) m;
     msg_put (put_nstr (rr_status_msg m)) m
   }"

definition enc_rli_response :: "rli_response \<Rightarrow> u8 list" where
  "enc_rli_response m = enc_response m @ be32 (rr_status m) @ be32 (rr_time_stamp m) @
     be32 (rr_clock_rate m) @ be32 (rr_value m) @ enc_nstr (rr_status_msg m)"

definition rli_response_view where
  "rli_response_view m = (response_view m, rr_status m, rr_time_stamp m, rr_clock_rate m,
     rr_value m, rr_status_msg m)"

interpretation rli_response: wire_message enc_rli_response rli_response_view rli_response_write
  rli_response_parse "\<lambda>m. nstr_ok (rr_status_msg m)" "\<lambda>_. True"
proof unfold_locales
  fix m r :: rli_response
  assume "nstr_ok (rr_status_msg m)" and "holds (msg_buf r) (enc_rli_response m)"
  then have "rli_response_parse r = Some ((response_read m r)\<lparr>rr_status := rr_status m,
      rr_time_stamp := rr_time_stamp m, rr_clock_rate := rr_clock_rate m, rr_value := rr_value m,
      rr_status_msg := rr_status_msg m,
      msg_buf := skip (length (enc_rli_response m)) (msg_buf r)\<rparr>)"
    by (auto simp: rli_response_parse_def enc_rli_response_def parse_simps wire_get ac_simps)
  then show "\<exists>r'. rli_response_parse r = Some r' \<and> rli_response_view r' = rli_response_view m \<and>
      msg_buf r' = skip (length (enc_rli_response m)) (msg_buf r)"
    by (simp add: rli_response_view_def response_view_def response_read_def)
qed (simp_all add: rli_response_write_def enc_rli_response_def class_simps wire_put)

lemma length_enc_rli_response: "nstr_ok (rr_status_msg m) \<Longrightarrow> length (enc_rli_response m) \<le> 339"
  using length_enc_response [of m]
  by (simp add: enc_rli_response_def wire_len nstr_ok_def)

lemma length_enc_crd_endconfig_response:
  "crd_response_ok m \<Longrightarrow> nstr_ok (ec_vmname m) \<Longrightarrow> length (enc_crd_endconfig_response m) \<le> 2153"
  using length_enc_crd_response [of m]
  by (simp add: enc_crd_endconfig_response_def wire_len nstr_ok_def)

end
