(* ===== verification/Switch_Messages.thy ===== *)
theory Switch_Messages
  imports Switch_Types Onl_Responses
begin

text \<open>
  The requests that the resource daemon sends to the network management daemon, and the answers:
  \<^verbatim>\<open>shared/switch_requests.cc\<close> and \<^verbatim>\<open>shared/switch_responses.cc\<close>.
  \<^verbatim>\<open>start_session\<close>, \<^verbatim>\<open>end_session\<close> and \<^verbatim>\<open>add_vlan\<close> add constructors only: their
  \<^verbatim>\<open>parse\<close> and \<^verbatim>\<open>write\<close> call those of \<open>switch_request\<close>.
\<close>

abbreviation NCCP_Operation_AddVlan :: u8 where "NCCP_Operation_AddVlan \<equiv> 62"
abbreviation NCCP_Operation_StartSession :: u8 where "NCCP_Operation_StartSession \<equiv> 55"
abbreviation NCCP_Operation_ClearVlans :: u8 where "NCCP_Operation_ClearVlans \<equiv> 43"
abbreviation NCCP_Operation_DeleteVlan :: u8 where "NCCP_Operation_DeleteVlan \<equiv> 63"
abbreviation NCCP_Operation_AddToVlan :: u8 where "NCCP_Operation_AddToVlan \<equiv> 64"
abbreviation NCCP_Operation_DeleteFromVlan :: u8 where "NCCP_Operation_DeleteFromVlan \<equiv> 65"
abbreviation NCCP_Operation_Initialize :: u8 where "NCCP_Operation_Initialize \<equiv> 66"

section \<open>switch_request\<close>

record switch_request = request +
  sr_sessionID :: nstring

definition switch_request_of :: "(nat \<Rightarrow> u8) \<Rightarrow> string \<Rightarrow> 'a switch_request_scheme \<Rightarrow> 'a switch_request_scheme" where
  "switch_request_of junk str r = (request_new junk r)\<lparr>sr_sessionID := nstr_of str\<rparr>"

definition switch_request_parse :: "'a switch_request_scheme \<Rightarrow> 'a switch_request_scheme option" where
  "switch_request_parse m = do {
     m \<leftarrow> request_parse m;
     (s, m) \<leftarrow> msg_get get_nstr m;
     Some (m\<lparr>sr_sessionID := s\<rparr>)
   }"

definition switch_request_write :: "'a switch_request_scheme \<Rightarrow> 'a switch_request_scheme option" where
  "switch_request_write m = do {
     m \<leftarrow> request_write m;
     msg_put (put_nstr (sr_sessionID m)) m
   }"

definition enc_switch_request :: "'a switch_request_scheme \<Rightarrow> u8 list" where
  "enc_switch_request m = enc_request m @ enc_nstr (sr_sessionID m)"

definition switch_request_ok :: "'a switch_request_scheme \<Rightarrow> bool" where
  "switch_request_ok m \<longleftrightarrow> request_ok m \<and> nstr_ok (sr_sessionID m)"

definition switch_request_view where
  "switch_request_view m = (request_view m, sr_sessionID m)"

definition switch_request_read :: "'a switch_request_scheme \<Rightarrow> 'b switch_request_scheme \<Rightarrow> 'b switch_request_scheme" where
  "switch_request_read m r = (request_read m r)\<lparr>sr_sessionID := sr_sessionID m,
     msg_buf := skip (length (enc_switch_request m)) (msg_buf r)\<rparr>"

lemma enc_switch_request_not_Nil [simp]: "enc_switch_request m \<noteq> []"
  by (simp add: enc_switch_request_def)

lemma enc_switch_request_buf [simp]: "enc_switch_request (m\<lparr>msg_buf := b\<rparr>) = enc_switch_request m"
  by (simp add: enc_switch_request_def)

lemma switch_request_write_enc [wire_put]:
  "switch_request_write m = map_option (\<lambda>b. m\<lparr>msg_buf := b\<rparr>) (put_bytes (enc_switch_request m) (msg_buf m))"
  by (simp add: switch_request_write_def enc_switch_request_def class_simps wire_put)

lemma switch_request_parse_enc [wire_get]:
  "switch_request_ok m \<Longrightarrow> holds (msg_buf r) (enc_switch_request m) \<Longrightarrow>
     switch_request_parse r = Some (switch_request_read m r)"
  by (auto simp: switch_request_parse_def switch_request_ok_def enc_switch_request_def
      switch_request_read_def parse_simps wire_get)

lemmas sw_read_simps =
  switch_request_read_def switch_request_view_def request_view_def request_read_def

lemma switch_request_read_sel [simp]:
  "msg_buf (switch_request_read m r) = skip (length (enc_switch_request m)) (msg_buf r)"
  "switch_request_view (switch_request_read m r) = switch_request_view m"
  by (simp_all add: sw_read_simps)

interpretation switch_request: wire_message enc_switch_request switch_request_view
  switch_request_write switch_request_parse switch_request_ok "\<lambda>_. True"
  by unfold_locales (rule switch_request_write_enc, rule enc_switch_request_buf,
      rule enc_switch_request_not_Nil, rule TrueI, auto simp: wire_get)

definition switch_request_of_bytes ::
    "(nat \<Rightarrow> u8) \<Rightarrow> (nat \<Rightarrow> u8) \<Rightarrow> u8 list \<Rightarrow> switch_request \<Rightarrow> switch_request option" where
  "switch_request_of_bytes junk junk' mbuf r = request_of_bytes junk junk' mbuf r"

definition start_session_new :: "(nat \<Rightarrow> u8) \<Rightarrow> string \<Rightarrow> switch_request \<Rightarrow> switch_request" where
  "start_session_new junk sid r =
     (switch_request_of junk sid r)\<lparr>msg_op := NCCP_Operation_StartSession, msg_periodic := False,
       req_timeout := 360\<rparr>"

definition end_session_new :: "(nat \<Rightarrow> u8) \<Rightarrow> string \<Rightarrow> switch_request \<Rightarrow> switch_request" where
  "end_session_new junk sid r =
     (switch_request_of junk sid r)\<lparr>msg_op := NCCP_Operation_ClearVlans, msg_periodic := False,
       req_timeout := 360\<rparr>"

definition add_vlan_new :: "(nat \<Rightarrow> u8) \<Rightarrow> string \<Rightarrow> switch_request \<Rightarrow> switch_request" where
  "add_vlan_new junk sid r =
     (switch_request_of junk sid r)\<lparr>msg_op := NCCP_Operation_AddVlan, msg_periodic := False,
       req_timeout := 360\<rparr>"

section \<open>delete_vlan\<close>

record delete_vlan = switch_request +
  dv_vlanid :: switch_vlan

definition delete_vlan_new :: "(nat \<Rightarrow> u8) \<Rightarrow> switch_vlan \<Rightarrow> string \<Rightarrow> delete_vlan \<Rightarrow> delete_vlan" where
  "delete_vlan_new junk vlan sid r =
     (switch_request_of junk sid r)\<lparr>msg_op := NCCP_Operation_DeleteVlan, msg_periodic := False,
       dv_vlanid := vlan\<rparr>"

definition delete_vlan_parse :: "delete_vlan \<Rightarrow> delete_vlan option" where
  "delete_vlan_parse m = do {
     m \<leftarrow> switch_request_parse m;
     (v, m) \<leftarrow> msg_get get_u32 m;
     Some (m\<lparr>dv_vlanid := v\<rparr>)
   }"

definition delete_vlan_write :: "delete_vlan \<Rightarrow> delete_vlan option" where
  "delete_vlan_write m = do {
     m \<leftarrow> switch_request_write m;
     msg_put (put_u32 (dv_vlanid m)) m
   }"

definition enc_delete_vlan :: "delete_vlan \<Rightarrow> u8 list" where
  "enc_delete_vlan m = enc_switch_request m @ be32 (dv_vlanid m)"

interpretation delete_vlan: wire_message enc_delete_vlan
  "\<lambda>m. (switch_request_view m, dv_vlanid m)" delete_vlan_write delete_vlan_parse
  switch_request_ok "\<lambda>_. True"
proof unfold_locales
  fix m r :: delete_vlan
  assume "switch_request_ok m" and "holds (msg_buf r) (enc_delete_vlan m)"
  then have "delete_vlan_parse r = Some ((switch_request_read m r)\<lparr>dv_vlanid := dv_vlanid m,
      msg_buf := skip (length (enc_delete_vlan m)) (msg_buf r)\<rparr>)"
    by (auto simp: delete_vlan_parse_def enc_delete_vlan_def parse_simps wire_get)
  then show "\<exists>r'. delete_vlan_parse r = Some r' \<and>
      (switch_request_view r', dv_vlanid r') = (switch_request_view m, dv_vlanid m) \<and>
      msg_buf r' = skip (length (enc_delete_vlan m)) (msg_buf r)"
    by (simp add: sw_read_simps)
qed (simp_all add: delete_vlan_write_def enc_delete_vlan_def class_simps wire_put)

section \<open>add_to_vlan and delete_from_vlan\<close>

text \<open>The two classes have the same members and the same format; they differ in the operation.\<close>

record add_to_vlan = switch_request +
  av_vlanid :: switch_vlan
  av_port :: switch_port

definition add_to_vlan_new ::
    "(nat \<Rightarrow> u8) \<Rightarrow> switch_vlan \<Rightarrow> switch_port \<Rightarrow> string \<Rightarrow> add_to_vlan \<Rightarrow> add_to_vlan" where
  "add_to_vlan_new junk vlan p sid r =
     (switch_request_of junk sid r)\<lparr>msg_op := NCCP_Operation_AddToVlan, msg_periodic := False,
       av_vlanid := vlan, av_port := switch_port_copy p, req_timeout := 360\<rparr>"

definition add_to_vlan_parse :: "add_to_vlan \<Rightarrow> add_to_vlan option" where
  "add_to_vlan_parse m = do {
     m \<leftarrow> switch_request_parse m;
     (v, m) \<leftarrow> msg_get get_u32 m;
     (p, m) \<leftarrow> msg_get get_switch_port m;
     Some (m\<lparr>av_vlanid := v, av_port := p\<rparr>)
   }"

definition add_to_vlan_write :: "add_to_vlan \<Rightarrow> add_to_vlan option" where
  "add_to_vlan_write m = do {
     m \<leftarrow> switch_request_write m;
     m \<leftarrow> msg_put (put_u32 (av_vlanid m)) m;
     msg_put (put_switch_port (av_port m)) m
   }"

definition enc_add_to_vlan :: "add_to_vlan \<Rightarrow> u8 list" where
  "enc_add_to_vlan m = enc_switch_request m @ be32 (av_vlanid m) @ enc_switch_port (av_port m)"

definition add_to_vlan_view where
  "add_to_vlan_view m = (switch_request_view m, av_vlanid m, av_port m)"

definition add_to_vlan_ok :: "add_to_vlan \<Rightarrow> bool" where
  "add_to_vlan_ok m \<longleftrightarrow> switch_request_ok m \<and> switch_port_ok (av_port m)"

interpretation add_to_vlan: wire_message enc_add_to_vlan add_to_vlan_view add_to_vlan_write
  add_to_vlan_parse add_to_vlan_ok "\<lambda>_. True"
proof unfold_locales
  fix m r :: add_to_vlan
  assume "add_to_vlan_ok m" and "holds (msg_buf r) (enc_add_to_vlan m)"
  then have "add_to_vlan_parse r = Some ((switch_request_read m r)\<lparr>av_vlanid := av_vlanid m,
      av_port := av_port m, msg_buf := skip (length (enc_add_to_vlan m)) (msg_buf r)\<rparr>)"
    by (auto simp: add_to_vlan_parse_def enc_add_to_vlan_def add_to_vlan_ok_def parse_simps
        wire_get ac_simps)
  then show "\<exists>r'. add_to_vlan_parse r = Some r' \<and> add_to_vlan_view r' = add_to_vlan_view m \<and>
      msg_buf r' = skip (length (enc_add_to_vlan m)) (msg_buf r)"
    by (simp add: add_to_vlan_view_def sw_read_simps)
qed (simp_all add: add_to_vlan_write_def enc_add_to_vlan_def class_simps wire_put)

record delete_from_vlan = switch_request +
  df_vlanid :: switch_vlan
  df_port :: switch_port

definition delete_from_vlan_new ::
    "(nat \<Rightarrow> u8) \<Rightarrow> switch_vlan \<Rightarrow> switch_port \<Rightarrow> string \<Rightarrow> delete_from_vlan \<Rightarrow> delete_from_vlan" where
  "delete_from_vlan_new junk vlan p sid r =
     (switch_request_of junk sid r)\<lparr>msg_op := NCCP_Operation_DeleteFromVlan, msg_periodic := False,
       df_vlanid := vlan, df_port := switch_port_copy p, req_timeout := 360\<rparr>"

definition delete_from_vlan_parse :: "delete_from_vlan \<Rightarrow> delete_from_vlan option" where
  "delete_from_vlan_parse m = do {
     m \<leftarrow> switch_request_parse m;
     (v, m) \<leftarrow> msg_get get_u32 m;
     (p, m) \<leftarrow> msg_get get_switch_port m;
     Some (m\<lparr>df_vlanid := v, df_port := p\<rparr>)
   }"

definition delete_from_vlan_write :: "delete_from_vlan \<Rightarrow> delete_from_vlan option" where
  "delete_from_vlan_write m = do {
     m \<leftarrow> switch_request_write m;
     m \<leftarrow> msg_put (put_u32 (df_vlanid m)) m;
     msg_put (put_switch_port (df_port m)) m
   }"

definition enc_delete_from_vlan :: "delete_from_vlan \<Rightarrow> u8 list" where
  "enc_delete_from_vlan m = enc_switch_request m @ be32 (df_vlanid m) @ enc_switch_port (df_port m)"

interpretation delete_from_vlan: wire_message enc_delete_from_vlan
  "\<lambda>m. (switch_request_view m, df_vlanid m, df_port m)" delete_from_vlan_write
  delete_from_vlan_parse "\<lambda>m. switch_request_ok m \<and> switch_port_ok (df_port m)" "\<lambda>_. True"
proof unfold_locales
  fix m r :: delete_from_vlan
  assume "switch_request_ok m \<and> switch_port_ok (df_port m)"
    and "holds (msg_buf r) (enc_delete_from_vlan m)"
  then have "delete_from_vlan_parse r = Some ((switch_request_read m r)\<lparr>df_vlanid := df_vlanid m,
      df_port := df_port m, msg_buf := skip (length (enc_delete_from_vlan m)) (msg_buf r)\<rparr>)"
    by (auto simp: delete_from_vlan_parse_def enc_delete_from_vlan_def parse_simps wire_get ac_simps)
  then show "\<exists>r'. delete_from_vlan_parse r = Some r' \<and>
      (switch_request_view r', df_vlanid r', df_port r') = (switch_request_view m, df_vlanid m, df_port m) \<and>
      msg_buf r' = skip (length (enc_delete_from_vlan m)) (msg_buf r)"
    by (simp add: sw_read_simps)
qed (simp_all add: delete_from_vlan_write_def enc_delete_from_vlan_def class_simps wire_put)

section \<open>initialize\<close>

record initialize = request +
  in_switches :: "switch_info list"

definition initialize_new :: "(nat \<Rightarrow> u8) \<Rightarrow> initialize \<Rightarrow> initialize" where
  "initialize_new junk r =
     (request_new junk r)\<lparr>msg_op := NCCP_Operation_Initialize, msg_periodic := False,
       req_timeout := 300, in_switches := []\<rparr>"

definition add_switch :: "switch_info \<Rightarrow> initialize \<Rightarrow> initialize" where
  "add_switch newSwitch r = r\<lparr>in_switches := in_switches r @ [switch_info_copy newSwitch]\<rparr>"

text \<open>\<^verbatim>\<open>push_back\<close> copies the entry that the loop reads into.\<close>

fun get_switches :: "nat \<Rightarrow> byte_buffer \<Rightarrow> (switch_info list \<times> byte_buffer) option" where
  "get_switches 0 b = Some ([], b)"
| "get_switches (Suc n) b = do {
     (cur, b) \<leftarrow> get_switch_info b;
     (rest, b) \<leftarrow> get_switches n b;
     Some (switch_info_copy cur # rest, b)
   }"

definition initialize_parse :: "initialize \<Rightarrow> initialize option" where
  "initialize_parse m = do {
     m \<leftarrow> request_parse m;
     (n, m) \<leftarrow> msg_get get_u32 m;
     (sws, m) \<leftarrow> msg_get (get_switches (unat n)) m;
     Some (m\<lparr>in_switches := in_switches m @ sws\<rparr>)
   }"

definition initialize_write :: "initialize \<Rightarrow> initialize option" where
  "initialize_write m = do {
     m \<leftarrow> request_write m;
     m \<leftarrow> msg_put (put_u32 (of_nat (length (in_switches m)))) m;
     msg_put (put_all put_switch_info (in_switches m)) m
   }"

definition enc_initialize :: "initialize \<Rightarrow> u8 list" where
  "enc_initialize m = enc_request m @ be32 (of_nat (length (in_switches m))) @
     concat (map enc_switch_info (in_switches m))"

definition switch_clean :: "switch_info \<Rightarrow> bool" where
  "switch_clean si \<longleftrightarrow> no_nul (sw_switchid si) \<and> nstr_ok (sw_switchid si)"

definition initialize_ok :: "initialize \<Rightarrow> bool" where
  "initialize_ok m \<longleftrightarrow> request_ok m \<and> length (in_switches m) < 2 ^ 32 \<and>
     list_all switch_clean (in_switches m)"

lemma get_switches_enc:
  assumes "list_all switch_clean sws" and "holds b (concat (map enc_switch_info sws))"
  shows "get_switches (length sws) b =
    Some (sws, skip (length (concat (map enc_switch_info sws))) b)"
  using assms
proof (induction sws arbitrary: b)
  case (Cons s sws)
  then have "switch_info_copy s = s"
    by (simp add: switch_info_copy_def switch_clean_def)
  with Cons show ?case
    by (auto simp: switch_clean_def wire_get switch_info.get_enc)
qed simp

interpretation initialize: wire_message enc_initialize "\<lambda>m. (request_view m, in_switches m)"
  initialize_write initialize_parse initialize_ok "\<lambda>r. in_switches r = []"
proof unfold_locales
  fix m r :: initialize
  assume ok: "initialize_ok m" and fresh: "in_switches r = []"
    and h: "holds (msg_buf r) (enc_initialize m)"
  have n: "unat (of_nat (length (in_switches m)) :: u32) = length (in_switches m)"
    by (rule unat_of_nat_small) (use ok in \<open>simp add: initialize_ok_def\<close>)
  have "in_switches (request_read m r) = []"
    using fresh by (simp add: request_read_def)
  with ok h n have "initialize_parse r = Some ((request_read m r)\<lparr>in_switches := in_switches m,
      msg_buf := skip (length (enc_initialize m)) (msg_buf r)\<rparr>)"
    by (auto simp: initialize_parse_def enc_initialize_def initialize_ok_def parse_simps
        wire_get get_switches_enc ac_simps)
  then show "\<exists>r'. initialize_parse r = Some r' \<and>
      (request_view r', in_switches r') = (request_view m, in_switches m) \<and>
      msg_buf r' = skip (length (enc_initialize m)) (msg_buf r)"
    by (simp add: request_read_def request_view_def)
next
  fix r0 r :: initialize and junk junk' mbuf
  assume "in_switches r0 = []" and "message_of_bytes junk junk' mbuf r0 = Some r"
  then show "in_switches r = []"
    by (auto simp: message_of_bytes_def bind_eq_Some_conv Let_def)
qed (simp_all add: initialize_write_def enc_initialize_def class_simps wire_put
    switch_info.put_all_enc)

section \<open>Responses\<close>

record switch_response = response +
  sres_status :: NCCP_StatusType

definition switch_response_new ::
    "(nat \<Rightarrow> u8) \<Rightarrow> addr \<Rightarrow> 'b request_scheme \<Rightarrow> NCCP_StatusType \<Rightarrow> 'a switch_response_scheme \<Rightarrow> 'a switch_response_scheme" where
  "switch_response_new junk ra req stat r = (response_new junk ra req r)\<lparr>sres_status := stat\<rparr>"

definition switch_response_parse :: "'a switch_response_scheme \<Rightarrow> 'a switch_response_scheme option" where
  "switch_response_parse m = do {
     m \<leftarrow> response_parse m;
     (s, m) \<leftarrow> msg_get get_u32 m;
     Some (m\<lparr>sres_status := s\<rparr>)
   }"

definition switch_response_write :: "'a switch_response_scheme \<Rightarrow> 'a switch_response_scheme option" where
  "switch_response_write m = do {
     m \<leftarrow> response_write m;
     msg_put (put_u32 (sres_status m)) m
   }"

definition enc_switch_response :: "'a switch_response_scheme \<Rightarrow> u8 list" where
  "enc_switch_response m = enc_response m @ be32 (sres_status m)"

definition switch_response_read :: "'a switch_response_scheme \<Rightarrow> 'b switch_response_scheme \<Rightarrow> 'b switch_response_scheme" where
  "switch_response_read m r = (response_read m r)\<lparr>sres_status := sres_status m,
     msg_buf := skip (length (enc_switch_response m)) (msg_buf r)\<rparr>"

lemma switch_response_write_enc [wire_put]:
  "switch_response_write m = map_option (\<lambda>b. m\<lparr>msg_buf := b\<rparr>) (put_bytes (enc_switch_response m) (msg_buf m))"
  by (simp add: switch_response_write_def enc_switch_response_def class_simps wire_put)

lemma switch_response_parse_enc [wire_get]:
  "holds (msg_buf r) (enc_switch_response m) \<Longrightarrow>
     switch_response_parse r = Some (switch_response_read m r)"
  by (auto simp: switch_response_parse_def enc_switch_response_def
      switch_response_read_def parse_simps wire_get)

lemmas sres_read_simps = switch_response_read_def response_view_def response_read_def

lemma switch_response_read_buf [simp]:
  "msg_buf (switch_response_read m r) = skip (length (enc_switch_response m)) (msg_buf r)"
  by (simp add: switch_response_read_def)

interpretation switch_response: wire_message enc_switch_response
  "\<lambda>m. (response_view m, sres_status m)" switch_response_write switch_response_parse
  "\<lambda>_. True" "\<lambda>_. True"
  by unfold_locales
    (rule switch_response_write_enc, simp add: enc_switch_response_def,
      simp add: enc_switch_response_def, rule TrueI, auto simp: wire_get sres_read_simps)

record add_vlan_response = switch_response +
  avr_vlanid :: switch_vlan

definition add_vlan_response_new ::
    "(nat \<Rightarrow> u8) \<Rightarrow> addr \<Rightarrow> 'b request_scheme \<Rightarrow> NCCP_StatusType \<Rightarrow> switch_vlan \<Rightarrow> add_vlan_response \<Rightarrow> add_vlan_response" where
  "add_vlan_response_new junk ra req stat vlan r =
     (switch_response_new junk ra req stat r)\<lparr>avr_vlanid := vlan\<rparr>"

definition add_vlan_response_parse :: "add_vlan_response \<Rightarrow> add_vlan_response option" where
  "add_vlan_response_parse m = do {
     m \<leftarrow> switch_response_parse m;
     (v, m) \<leftarrow> msg_get get_u32 m;
     Some (m\<lparr>avr_vlanid := v\<rparr>)
   }"

definition add_vlan_response_write :: "add_vlan_response \<Rightarrow> add_vlan_response option" where
  "add_vlan_response_write m = do {
     m \<leftarrow> switch_response_write m;
     msg_put (put_u32 (avr_vlanid m)) m
   }"

definition enc_add_vlan_response :: "add_vlan_response \<Rightarrow> u8 list" where
  "enc_add_vlan_response m = enc_switch_response m @ be32 (avr_vlanid m)"

interpretation add_vlan_response: wire_message enc_add_vlan_response
  "\<lambda>m. (response_view m, sres_status m, avr_vlanid m)" add_vlan_response_write
  add_vlan_response_parse "\<lambda>_. True" "\<lambda>_. True"
proof unfold_locales
  fix m r :: add_vlan_response
  assume "holds (msg_buf r) (enc_add_vlan_response m)"
  then have "add_vlan_response_parse r = Some ((switch_response_read m r)\<lparr>avr_vlanid := avr_vlanid m,
      msg_buf := skip (length (enc_add_vlan_response m)) (msg_buf r)\<rparr>)"
    by (auto simp: add_vlan_response_parse_def enc_add_vlan_response_def parse_simps wire_get)
  then show "\<exists>r'. add_vlan_response_parse r = Some r' \<and>
      (response_view r', sres_status r', avr_vlanid r') = (response_view m, sres_status m, avr_vlanid m) \<and>
      msg_buf r' = skip (length (enc_add_vlan_response m)) (msg_buf r)"
    by (simp add: sres_read_simps)
qed (simp_all add: add_vlan_response_write_def enc_add_vlan_response_def enc_switch_response_def
    class_simps wire_put)

section \<open>Sample objects\<close>

definition blank_switch_request :: "string \<Rightarrow> 'a \<Rightarrow> 'a switch_request_scheme" where
  "blank_switch_request sid rest =
     \<lparr>msg_buf = byte_buffer_new (\<lambda>_. 0), msg_type = NCCP_MessageRequest, msg_version = 0, msg_op = 0,
      msg_rend = rendezvous_new, msg_periodic = False, msg_return_rend = rendezvous_new,
      msg_conn = None, req_period = \<lparr>tv_sec = 0, tv_usec = 0\<rparr>, req_received_response = False,
      req_timeout = 30, req_resp = None, req_received_stop = False, req_received_ack = False,
      sr_sessionID = sid, \<dots> = rest\<rparr>"

definition blank_switch_response :: "NCCP_StatusType \<Rightarrow> 'a \<Rightarrow> 'a switch_response_scheme" where
  "blank_switch_response st rest =
     \<lparr>msg_buf = byte_buffer_new (\<lambda>_. 0), msg_type = NCCP_MessageResponse, msg_version = 0, msg_op = 0,
      msg_rend = rendezvous_new, msg_periodic = False, msg_return_rend = rendezvous_new,
      msg_conn = None, resp_req = None, end_of_message = True, sres_status = st, \<dots> = rest\<rparr>"

lemmas blank_defs = blank_request_def blank_response_def blank_switch_request_def blank_switch_response_def

lemma blank_switch_sel [simp]:
  "sr_sessionID (blank_switch_request sid x) = sid" "msg_op (blank_switch_request sid x) = 0"
  "msg_rend (blank_switch_request sid x) = rendezvous_new"
  "sres_status (blank_switch_response st y) = st"
  by (simp_all add: blank_defs)

end
