(* ===== verification/Nmd_Switch.thy ===== *)
theory Nmd_Switch
  imports Switch_Messages "HOL-Library.Signed_Division"
begin

text \<open>
  \<^verbatim>\<open>nmd/nmd_switch.cc\<close>: the commands that configure the Ethernet switches. A command is
  text; running it (\<^verbatim>\<open>system\<close>) appends it to \<open>executed\<close>, and the shell's answer is the
  argument \<open>sh_status\<close>, the exit status of a command. The switches that the daemon knows are
  \<open>switches\<close>, the member of \<^verbatim>\<open>switch_info_set\<close>.

  Output streams are strings that grow at the end. \<open>None\<close> is undefined behaviour.
\<close>

abbreviation newline :: char where "newline \<equiv> CHR 0x0A"
abbreviation quote :: char where "quote \<equiv> CHR 0x22"

definition show_int :: "int \<Rightarrow> string" where
  "show_int i = (if i < 0 then CHR ''-'' # dec_digits (nat (- i)) else dec_digits (nat i))"

section \<open>The limit on ssh connections\<close>

record switch_ssh_lock =
  ssh_switch_id :: string
  outstanding :: int

definition switch_ssh_lock_new :: switch_ssh_lock where
  "switch_ssh_lock_new = \<lparr>ssh_switch_id = '''', outstanding = 0\<rparr>"

text \<open>
  The waiting loop tries 300 times, a second apart; \<open>others\<close> is what the other threads do to the
  counter before each try (nothing, after the end of the list).
\<close>

fun start_ssh_loop :: "nat \<Rightarrow> (int \<Rightarrow> int) list \<Rightarrow> switch_ssh_lock \<Rightarrow> bool \<times> switch_ssh_lock" where
  "start_ssh_loop 0 others l = (False, l)"
| "start_ssh_loop (Suc n) others l =
     (let l = (case others of [] \<Rightarrow> l | f # _ \<Rightarrow> l\<lparr>outstanding := f (outstanding l)\<rparr>) in
      if outstanding l < 10 then (True, l\<lparr>outstanding := outstanding l + 1\<rparr>)
      else start_ssh_loop n (drop 1 others) l)"

definition start_ssh :: "(int \<Rightarrow> int) list \<Rightarrow> switch_ssh_lock \<Rightarrow> bool \<times> switch_ssh_lock" where
  "start_ssh others l =
     (if outstanding l < 10 then (True, l\<lparr>outstanding := outstanding l + 1\<rparr>)
      else start_ssh_loop 300 others l)"

definition finish_ssh :: "switch_ssh_lock \<Rightarrow> switch_ssh_lock" where
  "finish_ssh l =
     (let n = outstanding l - 1 in l\<lparr>outstanding := (if n < 0 then 0 else n)\<rparr>)"

section \<open>State\<close>

record shell =
  sh_status :: "string \<Rightarrow> int"
  sh_others :: "string \<Rightarrow> (int \<Rightarrow> int) list"

record net =
  switches :: "switch_info list"
  ssh_locks :: "string \<Rightarrow> switch_ssh_lock"
  executed :: "string list"

definition net_new :: net where
  "net_new = \<lparr>switches = [], ssh_locks = (\<lambda>_. switch_ssh_lock_new), executed = []\<rparr>"

definition sw_getSwitchId :: "switch_info \<Rightarrow> string" where
  "sw_getSwitchId si = c_str (sw_switchid si)"

definition is_arista_switch :: "string \<Rightarrow> bool" where
  "is_arista_switch switch_id \<longleftrightarrow> switch_id = ''onlsw7'' \<or> switch_id = ''onlsw8'' \<or>
     switch_id = ''onlsw9'' \<or> switch_id = ''onlsw10''"

definition is_arista64_switch :: "string \<Rightarrow> bool" where
  "is_arista64_switch switch_id \<longleftrightarrow> switch_id = ''onlsw11'' \<or> switch_id = ''onlsw12''"

definition is_cisco_switch :: "string \<Rightarrow> bool" where
  "is_cisco_switch switch_id \<longleftrightarrow> switch_id = ''onlsw1'' \<or> switch_id = ''onlsw2'' \<or>
     switch_id = ''onlsw3'' \<or> switch_id = ''onlsw4''"

text \<open>\<^verbatim>\<open>switch_info_set\<close>; \<^verbatim>\<open>set_switches\<close> also names the ssh locks.\<close>

definition initialize_ssh_locks :: "switch_info list \<Rightarrow> net \<Rightarrow> net" where
  "initialize_ssh_locks sws s =
     s\<lparr>ssh_locks := fold (\<lambda>sw locks.
        let i = sw_getSwitchId sw in
        if is_arista_switch i \<or> is_arista64_switch i \<or> is_cisco_switch i
        then locks(i := (locks i)\<lparr>ssh_switch_id := i\<rparr>) else locks) sws (ssh_locks s)\<rparr>"

definition set_switches :: "switch_info list \<Rightarrow> net \<Rightarrow> net" where
  "set_switches sws s = initialize_ssh_locks sws (s\<lparr>switches := map switch_info_copy sws\<rparr>)"

definition get_switch :: "net \<Rightarrow> string \<Rightarrow> switch_info" where
  "get_switch s switch_id =
     (case find (\<lambda>sw. sw_getSwitchId sw = switch_id) (switches s) of
        Some sw \<Rightarrow> switch_info_copy sw
      | None \<Rightarrow> switch_info_of ''not_found'' 0)"

definition get_num_ports :: "net \<Rightarrow> string \<Rightarrow> u32" where
  "get_num_ports s switch_id =
     (let sw = get_switch s switch_id in
      if sw_getSwitchId sw \<noteq> switch_id then 0 else sw_ports sw)"

definition get_management_port :: "net \<Rightarrow> string \<Rightarrow> u32" where
  "get_management_port s switch_id =
     (let sw = get_switch s switch_id in
      if sw_getSwitchId sw \<noteq> switch_id then 0 else sw_management_port sw)"

definition exec_ssh :: "shell \<Rightarrow> string \<Rightarrow> net \<Rightarrow> bool \<times> net" where
  "exec_ssh sh cmd s =
     (let rtn = sh_status sh (c_str cmd) in (rtn = 0, s\<lparr>executed := executed s @ [c_str cmd]\<rparr>))"

definition exec_snmp :: "shell \<Rightarrow> string \<Rightarrow> net \<Rightarrow> bool \<times> net" where
  "exec_snmp sh cmd s =
     (let rtn = sh_status sh (c_str cmd) in (rtn = 0, s\<lparr>executed := executed s @ [c_str cmd]\<rparr>))"

definition net_start_ssh :: "shell \<Rightarrow> string \<Rightarrow> net \<Rightarrow> bool \<times> net" where
  "net_start_ssh sh i s =
     (case start_ssh (sh_others sh i) (ssh_locks s i) of
        (ok, l) \<Rightarrow> (ok, s\<lparr>ssh_locks := (ssh_locks s)(i := l)\<rparr>))"

definition net_finish_ssh :: "string \<Rightarrow> net \<Rightarrow> net" where
  "net_finish_ssh i s = s\<lparr>ssh_locks := (ssh_locks s)(i := finish_ssh (ssh_locks s i))\<rparr>"

section \<open>Commands\<close>

definition start_command :: "string \<Rightarrow> string \<Rightarrow> string" where
  "start_command switch_id cmd =
     (if is_arista_switch switch_id \<or> is_arista64_switch switch_id then
        cmd @ ''ssh -n admin@'' @ switch_id @ '' '' @ [quote] @ ''enable'' @ [newline] @
        ''configure'' @ [newline]
      else if is_cisco_switch switch_id then
        cmd @ ''ssh -i /root/.ssh/cisco_id_rsa admin@'' @ switch_id @ '' '' @ [quote] @
        ''configure ; '' @ [newline]
      else cmd)"

definition between_command :: "string \<Rightarrow> string \<Rightarrow> string" where
  "between_command switch_id cmd = cmd"

definition send_command :: "shell \<Rightarrow> string \<Rightarrow> string \<Rightarrow> net \<Rightarrow> bool \<times> net" where
  "send_command sh switch_id cmd s =
     (if is_arista_switch switch_id \<or> is_arista64_switch switch_id \<or> is_cisco_switch switch_id then
        (let cmd = cmd @ [quote, newline];
             (started, s) = net_start_ssh sh switch_id s;
             (rtn, s) = exec_ssh sh cmd s
         in (rtn, net_finish_ssh switch_id s))
      else (True, s))"

section \<open>Port numbers and bit maps\<close>

text \<open>
  \<^verbatim>\<open>get_arista64_port\<close>: the loop that takes four ports from the remainder for each module, and
  the buffer of ten characters that the number is printed into.
\<close>

function port_module :: "int \<Rightarrow> int \<Rightarrow> int \<times> int" where
  "port_module base remainder =
     (if remainder > 3 then port_module (base + 1) (remainder - 4) else (base, remainder))"
  by auto
termination by (relation "measure (\<lambda>(b, r). nat r)") auto

declare port_module.simps [simp del]

definition sprintf_10 :: "int \<Rightarrow> string option" where
  "sprintf_10 i = (if length (show_int i) < 10 then Some (show_int i) else None)"

definition get_arista64_port :: "int \<Rightarrow> string option" where
  "get_arista64_port port =
     (if port < 49 then sprintf_10 port
      else
        (let (base, remainder) = port_module 49 (port - 49); remainder = remainder + 1 in
         do {
           b \<leftarrow> sprintf_10 base;
           r \<leftarrow> sprintf_10 remainder;
           Some (b @ ''/'' @ r)
         }))"

definition hex_digit :: "nat \<Rightarrow> char" where
  "hex_digit d = (if d < 10 then char_of (48 + d) else char_of (87 + d))"

definition getHexString :: "u8 \<Rightarrow> string" where
  "getHexString bval = (let up = unat (drop_bit 4 bval); down = unat (and bval 0x0f) in
     [hex_digit up, hex_digit down])"

text \<open>
  \<open>p\<close> is a signed number, so a port 0 makes the bit shift negative; \<open>numBytes\<close> bounds the index
  from above only.
\<close>

fun set_egress_bits :: "switch_port list \<Rightarrow> int \<Rightarrow> u8 list \<Rightarrow> u8 list option" where
  "set_egress_bits [] numBytes bytes = Some bytes"
| "set_egress_bits (q # qs) numBytes bytes =
     (let p = sint (sp_port q - 1); byte_ndx = p sdiv 8; bit_shift = p smod 8 in
      if byte_ndx < numBytes then
        (if byte_ndx < 0 \<or> bit_shift < 0 then None
         else set_egress_bits qs numBytes
           (bytes[nat byte_ndx := or (bytes ! nat byte_ndx) (drop_bit (nat bit_shift) 0x80)]))
      else set_egress_bits qs numBytes bytes)"

definition encodeEgressPorts :: "switch_port list \<Rightarrow> int \<Rightarrow> bool \<Rightarrow> string option" where
  "encodeEgressPorts ports numBytes is_complement = do {
     bytes \<leftarrow> set_egress_bits ports numBytes (replicate (nat numBytes) 0);
     let bytes = (if is_complement then map not bytes else bytes);
     Some (concat (map getHexString bytes))
   }"

section \<open>Membership of a VLAN\<close>

type_synonym port_list = "switch_port list"
type_synonym cmd_result = "(bool \<times> string \<times> net) option"

text \<open>The ports of a list, with commas: the loop counts \<^verbatim>\<open>num_ports\<close> down.\<close>

fun ports_cmd :: "(u32 \<Rightarrow> string option) \<Rightarrow> int \<Rightarrow> port_list \<Rightarrow> string option" where
  "ports_cmd f num_ports [] = Some []"
| "ports_cmd f num_ports (p # ps) = do {
     t \<leftarrow> f (sp_port p);
     rest \<leftarrow> ports_cmd f (num_ports - 1) ps;
     Some (t @ (if num_ports - 1 > 0 then '','' else []) @ rest)
   }"

definition arista_port :: "u32 \<Rightarrow> string option" where
  "arista_port p = Some (int2str p)"

definition arista64_port :: "u32 \<Rightarrow> string option" where
  "arista64_port p = get_arista64_port (sint p)"

definition cisco_port :: "u32 \<Rightarrow> string option" where
  "cisco_port p = Some (''ethernet 1/'' @ int2str p)"

definition set_switch_vlan_membership_arista ::
    "port_list \<Rightarrow> string \<Rightarrow> switch_vlan \<Rightarrow> string \<Rightarrow> net \<Rightarrow> cmd_result" where
  "set_switch_vlan_membership_arista switch_ports switch_id vlan_id cmd s =
     (let num_ports = int (length switch_ports); num_switch_ports = sint (get_num_ports s switch_id) in
      if num_switch_ports = 0 then Some (False, cmd, s)
      else do {
        let cmd = cmd @ ''interface ethernet 1-'' @ show_int num_switch_ports @ [newline] @
          ''switchport trunk allowed vlan remove '' @ int2str vlan_id @ [newline] @
          ''exit'' @ [newline];
        if num_ports > 0 then do {
          ps \<leftarrow> ports_cmd arista_port num_ports switch_ports;
          Some (True, cmd @ ''interface ethernet '' @ ps @ [newline] @
            ''switchport trunk allowed vlan add '' @ int2str vlan_id @ [newline] @
            ''show vlan '' @ int2str vlan_id @ [newline] @ ''exit'' @ [newline], s)
        } else Some (True, cmd, s)
      })"

definition set_switch_vlan_membership_arista64 ::
    "port_list \<Rightarrow> string \<Rightarrow> switch_vlan \<Rightarrow> string \<Rightarrow> net \<Rightarrow> cmd_result" where
  "set_switch_vlan_membership_arista64 switch_ports switch_id vlan_id cmd s =
     (let num_ports = int (length switch_ports); num_switch_ports = sint (get_num_ports s switch_id) in
      do {
        last_port \<leftarrow> get_arista64_port num_switch_ports;
        if num_switch_ports = 0 then Some (False, cmd, s)
        else do {
          let cmd = cmd @ ''interface ethernet 1-'' @ last_port @ [newline] @
            ''switchport trunk allowed vlan remove '' @ int2str vlan_id @ [newline] @
            ''exit'' @ [newline];
          if num_ports > 0 then do {
            ps \<leftarrow> ports_cmd arista64_port num_ports switch_ports;
            Some (True, cmd @ ''interface ethernet '' @ ps @ [newline] @
              ''switchport trunk allowed vlan add '' @ int2str vlan_id @ [newline] @
              ''exit'' @ [newline], s)
          } else Some (True, cmd, s)
        }
      })"

definition set_switch_vlan_membership_cisco ::
    "port_list \<Rightarrow> string \<Rightarrow> switch_vlan \<Rightarrow> string \<Rightarrow> net \<Rightarrow> cmd_result" where
  "set_switch_vlan_membership_cisco switch_ports switch_id vlan_id cmd s =
     (let num_ports = int (length switch_ports); num_switch_ports = sint (get_num_ports s switch_id) in
      if num_switch_ports = 0 then Some (False, cmd, s)
      else do {
        let cmd = cmd @ ''interface ethernet 1/1-'' @ show_int num_switch_ports @ '' ; '' @
          ''switchport trunk allowed vlan remove '' @ int2str vlan_id @ '' ; '' @
          ''exit ; '' @ [newline];
        if num_ports > 0 then do {
          ps \<leftarrow> ports_cmd cisco_port num_ports switch_ports;
          Some (True, cmd @ ''interface '' @ ps @ '' ; '' @ [newline] @
            ''switchport trunk allowed vlan add '' @ int2str vlan_id @ '' ; '' @ [newline] @
            ''show vlan id '' @ int2str vlan_id @ '' ; '' @ [newline] @ ''exit ; '' @ [newline], s)
        } else Some (True, cmd, s)
      })"

definition snmp_cmd :: "string \<Rightarrow> string" where
  "snmp_cmd switch_id = ''snmpset -v3 '' @ ''-u admin '' @ ''-l authNoPriv '' @ ''-a MD5 '' @
     ''-A netgearSwPW '' @ switch_id"

definition set_switch_vlan_membership_snmp ::
    "shell \<Rightarrow> port_list \<Rightarrow> string \<Rightarrow> switch_vlan \<Rightarrow> net \<Rightarrow> (bool \<times> net) option" where
  "set_switch_vlan_membership_snmp sh switch_ports switch_id vlan_id s =
     (let numBytes = (uint (get_num_ports s switch_id) + 7) div 8 in
      if numBytes = 0 then Some (False, s)
      else do {
        portStr \<leftarrow> encodeEgressPorts switch_ports numBytes True;
        let cmd1 = snmp_cmd switch_id @ '' Q-BRIDGE-MIB::dot1qVlanForbiddenEgressPorts.'' @
          int2str vlan_id @ '' x '' @ portStr;
        let (ok1, s) = exec_snmp sh cmd1 s;
        portStr \<leftarrow> encodeEgressPorts switch_ports numBytes False;
        let cmd2 = snmp_cmd switch_id @ '' Q-BRIDGE-MIB::dot1qVlanStaticEgressPorts.'' @
          int2str vlan_id @ '' x '' @ portStr;
        let (ok2, s) = exec_snmp sh cmd2 s;
        Some (ok1 \<and> ok2, s)
      })"

definition set_switch_vlan_membership ::
    "shell \<Rightarrow> port_list \<Rightarrow> string \<Rightarrow> switch_vlan \<Rightarrow> string \<Rightarrow> net \<Rightarrow> cmd_result" where
  "set_switch_vlan_membership sh switch_ports switch_id vlan_id cmd s =
     (if is_arista_switch switch_id then
        set_switch_vlan_membership_arista switch_ports switch_id vlan_id cmd s
      else if is_arista64_switch switch_id then
        set_switch_vlan_membership_arista64 switch_ports switch_id vlan_id cmd s
      else if is_cisco_switch switch_id then
        set_switch_vlan_membership_cisco switch_ports switch_id vlan_id cmd s
      else do {
        (ok, s) \<leftarrow> set_switch_vlan_membership_snmp sh switch_ports switch_id vlan_id s;
        Some (ok, cmd, s) })"

section \<open>Native VLANs\<close>

definition set_switch_pvids_arista ::
    "port_list \<Rightarrow> string \<Rightarrow> switch_vlan \<Rightarrow> string \<Rightarrow> net \<Rightarrow> cmd_result" where
  "set_switch_pvids_arista host_ports switch_id vlan_id cmd s =
     (let num_ports = int (length host_ports) in
      if num_ports = 0 then Some (True, cmd, s)
      else do {
        ps \<leftarrow> ports_cmd arista_port num_ports host_ports;
        Some (True, cmd @ ''interface ethernet '' @ ps @ [newline] @
          ''switchport trunk native vlan '' @ int2str vlan_id @ [newline] @
          ''exit'' @ [newline], s)
      })"

definition set_switch_pvids_arista64 ::
    "port_list \<Rightarrow> string \<Rightarrow> switch_vlan \<Rightarrow> string \<Rightarrow> net \<Rightarrow> cmd_result" where
  "set_switch_pvids_arista64 host_ports switch_id vlan_id cmd s =
     (let num_ports = int (length host_ports) in
      if num_ports = 0 then Some (True, cmd, s)
      else do {
        ps \<leftarrow> ports_cmd arista64_port num_ports host_ports;
        Some (True, cmd @ ''interface ethernet '' @ ps @ [newline] @
          ''switchport trunk native vlan '' @ int2str vlan_id @ [newline] @
          ''exit'' @ [newline], s)
      })"

definition set_switch_pvids_cisco ::
    "port_list \<Rightarrow> string \<Rightarrow> switch_vlan \<Rightarrow> string \<Rightarrow> net \<Rightarrow> cmd_result" where
  "set_switch_pvids_cisco host_ports switch_id vlan_id cmd s =
     (let num_ports = int (length host_ports) in
      if num_ports = 0 then Some (True, cmd, s)
      else do {
        ps \<leftarrow> ports_cmd cisco_port num_ports host_ports;
        Some (True, cmd @ ''interface '' @ ps @ '' ; '' @ [newline] @
          ''switchport access vlan '' @ int2str vlan_id @ '' ; '' @ [newline] @
          ''exit ; '' @ [newline], s)
      })"

text \<open>The result of each command is dropped.\<close>

fun set_switch_pvids_snmp :: "shell \<Rightarrow> port_list \<Rightarrow> string \<Rightarrow> switch_vlan \<Rightarrow> net \<Rightarrow> bool \<times> net" where
  "set_switch_pvids_snmp sh [] switch_id vlan_id s = (True, s)"
| "set_switch_pvids_snmp sh (p # ps) switch_id vlan_id s =
     (let cmd = snmp_cmd switch_id @ '' Q-BRIDGE-MIB::dot1qPvid.'' @ int2str (sp_port p) @
        '' u '' @ int2str vlan_id
      in set_switch_pvids_snmp sh ps switch_id vlan_id (snd (exec_snmp sh cmd s)))"

definition set_switch_pvids ::
    "shell \<Rightarrow> port_list \<Rightarrow> string \<Rightarrow> switch_vlan \<Rightarrow> string \<Rightarrow> net \<Rightarrow> cmd_result" where
  "set_switch_pvids sh switch_ports switch_id vlan_id cmd s =
     (let management_port = get_management_port s switch_id;
          host_ports = filter (\<lambda>p. \<not> sp_interswitch p \<and> sp_port p \<noteq> management_port) switch_ports in
      if is_arista_switch switch_id then set_switch_pvids_arista host_ports switch_id vlan_id cmd s
      else if is_arista64_switch switch_id then
        set_switch_pvids_arista64 host_ports switch_id vlan_id cmd s
      else if is_cisco_switch switch_id then
        set_switch_pvids_cisco host_ports switch_id vlan_id cmd s
      else
        (let (ok, s) = set_switch_pvids_snmp sh host_ports switch_id vlan_id s in Some (ok, cmd, s)))"

definition set_switch_pvid ::
    "shell \<Rightarrow> switch_port \<Rightarrow> string \<Rightarrow> switch_vlan \<Rightarrow> string \<Rightarrow> net \<Rightarrow> cmd_result" where
  "set_switch_pvid sh port switch_id vlan_id cmd s =
     set_switch_pvids sh [port] switch_id vlan_id cmd s"

section \<open>Initialising a switch\<close>

abbreviation default_vlan :: switch_vlan where "default_vlan \<equiv> 255"

definition initialize_switch_arista :: "shell \<Rightarrow> string \<Rightarrow> net \<Rightarrow> (bool \<times> net) option" where
  "initialize_switch_arista sh switch_id s =
     (case net_start_ssh sh switch_id s of
        (False, s) \<Rightarrow> Some (False, s)
      | (True, s) \<Rightarrow>
          (let eth_switch = get_switch s switch_id;
               cmd = ''ssh -n admin@'' @ switch_id @ '' '' @ [quote] @ ''enable'' @ [newline] @
                 ''configure'' @ [newline] @
                 ''interface ethernet 1-'' @ int2str (sw_ports eth_switch) @ [newline] @
                 ''switchport trunk allowed vlan none'' @ [newline] @
                 ''switchport trunk native vlan '' @ int2str default_vlan @ [newline] @
                 [quote, newline];
               (rtn, s) = exec_ssh sh cmd s
           in Some (rtn, net_finish_ssh switch_id s)))"

definition initialize_switch_arista64 :: "shell \<Rightarrow> string \<Rightarrow> net \<Rightarrow> (bool \<times> net) option" where
  "initialize_switch_arista64 sh switch_id s =
     (case net_start_ssh sh switch_id s of
        (False, s) \<Rightarrow> Some (False, s)
      | (True, s) \<Rightarrow> do {
          let eth_switch = get_switch s switch_id;
          last_port \<leftarrow> get_arista64_port (sint (sw_ports eth_switch));
          let cmd = ''ssh -n admin@'' @ switch_id @ '' '' @ [quote] @ ''enable'' @ [newline] @
                 ''configure'' @ [newline] @
                 ''interface ethernet 1-'' @ last_port @ [newline] @
                 ''switchport trunk allowed vlan none'' @ [newline] @
                 ''switchport trunk native vlan '' @ int2str default_vlan @ [newline] @
                 [quote, newline];
          let (rtn, s) = exec_ssh sh cmd s;
          Some (rtn, net_finish_ssh switch_id s)
        })"

definition initialize_switch_cisco :: "shell \<Rightarrow> string \<Rightarrow> net \<Rightarrow> (bool \<times> net) option" where
  "initialize_switch_cisco sh switch_id s =
     (case net_start_ssh sh switch_id s of
        (False, s) \<Rightarrow> Some (False, s)
      | (True, s) \<Rightarrow>
          (let eth_switch = get_switch s switch_id;
               cmd = ''ssh -i /root/.ssh/cisco_id_rsa admin@'' @ switch_id @ '' '' @ [quote] @
                 ''configure ; '' @ [newline] @
                 ''interface ethernet 1/1-'' @ int2str (sw_ports eth_switch) @ '' ; '' @ [newline] @
                 ''switchport trunk allowed vlan none ; '' @ [newline] @
                 ''switchport trunk native vlan '' @ int2str default_vlan @ '' ; exit '' @ [newline] @
                 [quote, newline];
               (rtn, s) = exec_ssh sh cmd s
           in Some (rtn, net_finish_ssh switch_id s)))"

text \<open>\<open>ids\<close> are the identifiers of the daemon's VLANs, in the order of the array.\<close>

fun clear_memberships ::
    "shell \<Rightarrow> switch_vlan list \<Rightarrow> string \<Rightarrow> string \<Rightarrow> net \<Rightarrow> (bool \<times> string \<times> net) option" where
  "clear_memberships sh [] switch_id cmd s = Some (True, cmd, s)"
| "clear_memberships sh (v # vs) switch_id cmd s = do {
     (ok, cmd, s) \<leftarrow> set_switch_vlan_membership sh [] switch_id v cmd s;
     (oks, cmd, s) \<leftarrow> clear_memberships sh vs switch_id cmd s;
     Some (ok \<and> oks, cmd, s)
   }"

definition initialize_switch_snmp ::
    "shell \<Rightarrow> switch_vlan list \<Rightarrow> string \<Rightarrow> net \<Rightarrow> (bool \<times> net) option" where
  "initialize_switch_snmp sh ids switch_id s = do {
     (ok1, cmd, s) \<leftarrow> clear_memberships sh ids switch_id [] s;
     let num_ports = get_num_ports s switch_id;
     let all_ports = map (\<lambda>i. switch_port_of switch_id (of_nat i)) [1..<Suc (unat num_ports)];
     (ok2, cmd, s) \<leftarrow> set_switch_pvids sh all_ports switch_id default_vlan cmd s;
     Some (ok1 \<and> ok2, s)
   }"

definition initialize_switch ::
    "shell \<Rightarrow> switch_vlan list \<Rightarrow> string \<Rightarrow> net \<Rightarrow> (bool \<times> net) option" where
  "initialize_switch sh ids switch_id s =
     (if is_arista_switch switch_id then initialize_switch_arista sh switch_id s
      else if is_arista64_switch switch_id then initialize_switch_arista64 sh switch_id s
      else if is_cisco_switch switch_id then initialize_switch_cisco sh switch_id s
      else initialize_switch_snmp sh ids switch_id s)"

section \<open>Facts about the encodings\<close>

lemma port_module_closed:
  "0 \<le> r \<Longrightarrow> port_module b r = (b + r div 4, r mod 4)"
proof (induction b r rule: port_module.induct)
  case (1 b r)
  show ?case
  proof (cases "r > 3")
    case True
    have "(r - 4) div 4 = r div 4 - 1" "(r - 4) mod 4 = r mod 4"
      by presburger+
    with True 1 show ?thesis by (subst port_module.simps) simp
  next
    case False
    with 1 show ?thesis by (subst port_module.simps) simp
  qed
qed

lemma ports_cmd_commas:
  assumes "ps \<noteq> []" and "\<forall>p \<in> set ps. f (sp_port p) = Some (g p)"
  shows "ports_cmd f (int (length ps)) ps = Some (g (hd ps) @ concat (map (\<lambda>p. '','' @ g p) (tl ps)))"
  using assms
proof (induction ps)
  case (Cons p ps)
  then show ?case by (cases ps) simp_all
qed simp

definition has_port :: "switch_port list \<Rightarrow> nat \<Rightarrow> bool" where
  "has_port ps n \<longleftrightarrow> (\<exists>q \<in> set ps. unat (sp_port q) = n)"

definition port_number_ok :: "switch_port \<Rightarrow> bool" where
  "port_number_ok q \<longleftrightarrow> 0 < sp_port q \<and> sp_port q < 0x80000000"

lemma sint_small: "x < 0x80000000 \<Longrightarrow> sint (x :: u32) = int (unat x)"
  by (simp add: sint_uint signed_take_bit_int_eq_self_iff word_less_def order_trans [OF _ uint_ge_0])

lemma sint_port_pred:
  assumes "port_number_ok q"
  shows "sint (sp_port q - 1) = int (unat (sp_port q)) - 1"
proof -
  have p: "0 < sp_port q" "sp_port q < 0x80000000" using assms by (simp_all add: port_number_ok_def)
  then have u: "unat (sp_port q - 1) = unat (sp_port q) - 1" "0 < unat (sp_port q)"
    by (simp_all add: unat_minus_one unat_gt_0 order.strict_implies_not_eq word_less_nat_alt)
  have "unat (sp_port q) < 2 ^ 31" using p(2) by (simp add: word_less_nat_alt)
  with u have "unat (sp_port q - 1) < 2 ^ 31" by simp
  then have "sint (sp_port q - 1) = int (unat (sp_port q - 1))"
    by (simp add: sint_small word_less_nat_alt)
  with u show ?thesis by simp
qed

lemma bit_0x80: "bit (0x80 :: u8) n \<longleftrightarrow> n = 7"
proof -
  have "(0x80 :: u8) = push_bit 7 1" by simp
  then have "bit (0x80 :: u8) n \<longleftrightarrow> bit (push_bit 7 (1 :: u8)) n" by simp
  also have "\<dots> \<longleftrightarrow> n = 7"
    by (auto simp only: bit_push_bit_iff bit_1_iff possible_bit_word len_num0 len_num1 len_bit0)
  finally show ?thesis .
qed

lemma bit_drop_0x80: "bit (drop_bit s (0x80 :: u8)) i \<longleftrightarrow> i + s = 7"
  by (simp only: bit_drop_bit_eq o_apply bit_0x80) auto

lemma set_egress_bits_bit:
  assumes "list_all port_number_ok qs" and "length bytes = nb"
  shows "\<exists>bs. set_egress_bits qs (int nb) bytes = Some bs \<and> length bs = nb \<and>
    (\<forall>k < 8 * nb. bit (bs ! (k div 8)) (7 - k mod 8) \<longleftrightarrow>
       bit (bytes ! (k div 8)) (7 - k mod 8) \<or> has_port qs (Suc k))"
  using assms
proof (induction qs arbitrary: bytes)
  case Nil
  then show ?case by (simp add: has_port_def)
next
  case (Cons q qs)
  then have q: "port_number_ok q" by simp
  define m where "m = unat (sp_port q) - 1"
  have pos: "0 < unat (sp_port q)" using q by (simp add: port_number_ok_def word_less_nat_alt)
  have p: "sint (sp_port q - 1) = int m" using sint_port_pred [OF q] pos by (simp add: m_def)
  have dm: "int m sdiv 8 = int (m div 8)" "int m smod 8 = int (m mod 8)"
    by (cases "m = 0"; simp add: signed_divide_int_def signed_modulo_int_def zdiv_int zmod_int)+
  show ?case
  proof (cases "m div 8 < nb")
    case False
    with Cons p dm have e: "set_egress_bits (q # qs) (int nb) bytes = set_egress_bits qs (int nb) bytes"
      by (simp add: Let_def)
    have "\<And>k. k < 8 * nb \<Longrightarrow> has_port (q # qs) (Suc k) = has_port qs (Suc k)"
      using False pos by (auto simp: has_port_def m_def)
    with Cons.IH [of bytes] Cons.prems e show ?thesis by simp
  next
    case True
    define bytes' where "bytes' = bytes[m div 8 := or (bytes ! (m div 8)) (drop_bit (m mod 8) 0x80)]"
    have e: "set_egress_bits (q # qs) (int nb) bytes = set_egress_bits qs (int nb) bytes'"
      using True p dm by (simp add: Let_def bytes'_def)
    have "length bytes' = nb" using Cons.prems by (simp add: bytes'_def)
    from Cons.IH [OF _ this] Cons.prems obtain bs where bs:
      "set_egress_bits qs (int nb) bytes' = Some bs" "length bs = nb"
      "\<And>k. k < 8 * nb \<Longrightarrow> bit (bs ! (k div 8)) (7 - k mod 8) \<longleftrightarrow>
         bit (bytes' ! (k div 8)) (7 - k mod 8) \<or> has_port qs (Suc k)" by auto
    have step: "bit (bytes' ! (k div 8)) (7 - k mod 8) \<longleftrightarrow>
        bit (bytes ! (k div 8)) (7 - k mod 8) \<or> unat (sp_port q) = Suc k" if "k < 8 * nb" for k
    proof -
      have "k mod 8 \<le> 7" by simp
      have "unat (sp_port q) = Suc k \<longleftrightarrow> m = k" using pos by (auto simp: m_def)
      also have "\<dots> \<longleftrightarrow> m div 8 = k div 8 \<and> m mod 8 = k mod 8" by (metis div_mult_mod_eq)
      finally have eq: "unat (sp_port q) = Suc k \<longleftrightarrow> m div 8 = k div 8 \<and> m mod 8 = k mod 8" .
      have "7 - k mod 8 + m mod 8 = 7 \<longleftrightarrow> m mod 8 = k mod 8" using \<open>k mod 8 \<le> 7\<close> by arith
      with eq True Cons.prems(2) show ?thesis
        by (auto simp: bytes'_def nth_list_update bit_or_iff bit_drop_0x80)
    qed
    show ?thesis
      by (rule exI [of _ bs]) (use e bs step in \<open>auto simp: has_port_def\<close>)
  qed
qed

lemma encodeEgressPorts_bits:
  assumes "list_all port_number_ok qs"
  shows "\<exists>bs. encodeEgressPorts qs (int nb) c = Some (concat (map getHexString bs)) \<and> length bs = nb \<and>
    (\<forall>k < 8 * nb. bit (bs ! (k div 8)) (7 - k mod 8) \<longleftrightarrow> has_port qs (Suc k) \<noteq> c)"
proof -
  from set_egress_bits_bit [OF assms, of "replicate nb 0" nb] obtain bs where
    "set_egress_bits qs (int nb) (replicate nb 0) = Some bs" "length bs = nb"
    "\<And>k. k < 8 * nb \<Longrightarrow> bit (bs ! (k div 8)) (7 - k mod 8) \<longleftrightarrow> has_port qs (Suc k)"
    by auto
  then show ?thesis
    by (intro exI [of _ "if c then map not bs else bs"])
      (auto simp: encodeEgressPorts_def bit_not_iff)
qed

end
