(* ===== verification/Nmd_Types.thy ===== *)
theory Nmd_Types
  imports Nmd_Switch
begin

text \<open>
  \<^verbatim>\<open>nmd/nmd_types.cc\<close>: VLANs, sessions and the set of VLANs that hands them out.

  The daemon's global objects are one record: \<open>nm_net\<close> what the switch commands use, the array of
  VLANs, the list of free identifiers and the list of sessions. A pointer into the array or the list
  is a position in it. The mutexes of the objects guard single operations and are left out here;
  log lines are not kept. A session's commands run in parallel threads and the session waits for
  all of them: \<open>session_clear\<close> and \<open>create_vlans\<close> run them in the order in which they are started, and \<open>Nmd_Schedules\<close>
  has the clearing with every other order.
\<close>

abbreviation NO_FREE_VLANS :: u32 where "NO_FREE_VLANS \<equiv> - 1"
abbreviation VLAN_NOT_FOUND :: u32 where "VLAN_NOT_FOUND \<equiv> - 1"
abbreviation (input) CMD_NULL :: int where "CMD_NULL \<equiv> 0"
abbreviation (input) CMD_SENT :: int where "CMD_SENT \<equiv> 1"
abbreviation (input) CMD_FAILED :: int where "CMD_FAILED \<equiv> 2"
abbreviation (input) CMD_FINE :: int where "CMD_FINE \<equiv> 3"

section \<open>State\<close>

record vlan =
  inUse :: bool
  vlanId :: switch_vlan
  ports :: port_list
  v_session :: string

record session =
  sessionID :: string
  sess_switches :: "string list"
  active_vlans :: "switch_vlan list"
  removed_vlans :: "switch_vlan list"
  cleared :: bool

record nmd =
  nm_net :: net
  vlan_arr :: "vlan list"
  free_vlans :: "switch_vlan list"
  sessions :: "session list"

section \<open>vlan\<close>

definition set_in_use :: "bool \<Rightarrow> string \<Rightarrow> vlan \<Rightarrow> bool \<times> vlan" where
  "set_in_use in_use sid v =
     (if in_use \<and> inUse v then (False, v) else (True, v\<lparr>inUse := in_use, v_session := sid\<rparr>))"

definition get_switch_ports :: "string \<Rightarrow> vlan \<Rightarrow> port_list" where
  "get_switch_ports switch_id v = filter (\<lambda>p. getSwitchId p = switch_id) (ports v)"

definition add_port :: "switch_port \<Rightarrow> vlan \<Rightarrow> bool \<times> vlan" where
  "add_port p v = (True, v\<lparr>ports := ports v @ [switch_port_copy p]\<rparr>)"

text \<open>\<^verbatim>\<open>list::remove\<close>: every element that \<^verbatim>\<open>==\<close> the argument.\<close>

definition remove_port :: "switch_port \<Rightarrow> port_list \<Rightarrow> port_list" where
  "remove_port p ps = filter (\<lambda>q. \<not> switch_port_eq q p) ps"

fun pvid_cmds ::
    "shell \<Rightarrow> port_list \<Rightarrow> string \<Rightarrow> switch_vlan \<Rightarrow> string \<Rightarrow> net \<Rightarrow> cmd_result" where
  "pvid_cmds sh [] switch_id vid cmd s = Some (True, cmd, s)"
| "pvid_cmds sh (p # ps) switch_id vid cmd s =
     (if \<not> sp_pass_tag p then do {
        let cmd = between_command switch_id cmd;
        (ok, cmd, s) \<leftarrow> set_switch_pvid sh p (getSwitchId p) vid cmd s;
        (oks, cmd, s) \<leftarrow> pvid_cmds sh ps switch_id vid cmd s;
        Some (ok \<and> oks, cmd, s)
      } else pvid_cmds sh ps switch_id vid cmd s)"

definition get_add_ports_cmd :: "shell \<Rightarrow> vlan \<Rightarrow> string \<Rightarrow> string \<Rightarrow> net \<Rightarrow> cmd_result" where
  "get_add_ports_cmd sh v switch_id cmd s = do {
     let switch_ports = get_switch_ports switch_id v;
     (ok, cmd, s) \<leftarrow> set_switch_vlan_membership sh switch_ports switch_id (vlanId v) cmd s;
     (oks, cmd, s) \<leftarrow> pvid_cmds sh switch_ports switch_id (vlanId v) cmd s;
     Some (ok \<and> oks, cmd, s)
   }"

definition delete_port :: "shell \<Rightarrow> switch_port \<Rightarrow> vlan \<Rightarrow> net \<Rightarrow> (bool \<times> vlan \<times> net) option" where
  "delete_port sh p v s = do {
     let v = v\<lparr>ports := remove_port p (ports v)\<rparr>;
     let i = getSwitchId p;
     let switch_ports = get_switch_ports i v;
     let cmd = start_command i [];
     (ok1, cmd, s) \<leftarrow> set_switch_vlan_membership sh switch_ports i (vlanId v) cmd s;
     let cmd = between_command i cmd;
     (ok2, cmd, s) \<leftarrow> set_switch_pvid sh p i default_vlan cmd s;
     let (ok3, s) = send_command sh i cmd s;
     Some (ok1 \<and> ok2 \<and> ok3, v, s)
   }"

definition vlan_initialize :: "vlan \<Rightarrow> vlan" where
  "vlan_initialize v = v\<lparr>ports := [], inUse := False\<rparr>"

fun clear_switches :: "shell \<Rightarrow> vlan \<Rightarrow> string list \<Rightarrow> net \<Rightarrow> (bool \<times> net) option" where
  "clear_switches sh v [] s = Some (True, s)"
| "clear_switches sh v (i # is) s = do {
     let pvidPorts = get_switch_ports i v;
     let cmd = start_command i [];
     (ok1, cmd, s) \<leftarrow> set_switch_pvids sh pvidPorts i default_vlan cmd s;
     let cmd = between_command i cmd;
     (ok2, cmd, s) \<leftarrow> set_switch_vlan_membership sh [] i (vlanId v) cmd s;
     let (sent, s) = send_command sh i cmd s;
     (oks, s) \<leftarrow> clear_switches sh v is s;
     Some (ok1 \<and> ok2 \<and> oks, s)
   }"

definition clear_vlan :: "shell \<Rightarrow> vlan \<Rightarrow> net \<Rightarrow> (bool \<times> vlan \<times> net) option" where
  "clear_vlan sh v s = do {
     let switch_list = fold (\<lambda>p l. push_new (getSwitchId p) l) (ports v) [];
     (status, s) \<leftarrow> clear_switches sh v switch_list s;
     Some (status, v\<lparr>ports := [], inUse := False, v_session := ''''\<rparr>, s)
   }"

section \<open>The set of VLANs\<close>

definition vlan_set_new :: "u32 \<Rightarrow> net \<Rightarrow> nmd" where
  "vlan_set_new num_vlans s =
     \<lparr>nm_net = s,
      vlan_arr = map (\<lambda>i. \<lparr>inUse = False, vlanId = 2 + of_nat i, ports = [], v_session = ''''\<rparr>)
        [0..<unat num_vlans],
      free_vlans = map (\<lambda>i. 2 + of_nat i) [0..<unat num_vlans],
      sessions = []\<rparr>"

definition get_vlan :: "switch_vlan \<Rightarrow> nmd \<Rightarrow> nat option" where
  "get_vlan vlan_id nm = find_index (\<lambda>v. vlanId v = vlan_id) (vlan_arr nm)"

definition get_vlan_index :: "switch_vlan \<Rightarrow> nmd \<Rightarrow> u32" where
  "get_vlan_index vlan_id nm =
     (case find_index (\<lambda>v. vlanId v = vlan_id) (vlan_arr nm) of
        Some i \<Rightarrow> of_nat i
      | None \<Rightarrow> VLAN_NOT_FOUND)"

definition get_vlan_by_index :: "u32 \<Rightarrow> nmd \<Rightarrow> nat option" where
  "get_vlan_by_index index nm =
     (if unat index \<ge> length (vlan_arr nm) then None else Some (unat index))"

definition free_vlan :: "switch_vlan \<Rightarrow> nmd \<Rightarrow> nmd" where
  "free_vlan vlan_id nm = nm\<lparr>free_vlans := push_new vlan_id (free_vlans nm)\<rparr>"

definition upd_vlan :: "nat \<Rightarrow> (vlan \<Rightarrow> vlan) \<Rightarrow> nmd \<Rightarrow> nmd" where
  "upd_vlan i f nm = nm\<lparr>vlan_arr := (vlan_arr nm)[i := f (vlan_arr nm ! i)]\<rparr>"

text \<open>
  \<^verbatim>\<open>vlan::get_clear_vlan_cmd\<close> and \<^verbatim>\<open>clear_if_empty\<close>, for the VLAN at position \<open>i\<close>.
\<close>

definition get_clear_vlan_cmd ::
    "shell \<Rightarrow> nat \<Rightarrow> string \<Rightarrow> string \<Rightarrow> nmd \<Rightarrow> (nat \<times> string \<times> nmd) option" where
  "get_clear_vlan_cmd sh i switch_id cmd nm =
     (let v = vlan_arr nm ! i;
          removals = filter (\<lambda>p. getSwitchId p = switch_id) (ports v) in
      if removals = [] then Some (0, cmd, nm)
      else do {
        let pvidPorts = get_switch_ports switch_id v;
        (ok1, cmd, s) \<leftarrow> set_switch_pvids sh pvidPorts switch_id default_vlan cmd (nm_net nm);
        let cmd = between_command switch_id cmd;
        (ok2, cmd, s) \<leftarrow> set_switch_vlan_membership sh [] switch_id (vlanId v) cmd s;
        let nm = nm\<lparr>nm_net := s\<rparr>;
        let nm = upd_vlan i (\<lambda>v. v\<lparr>ports := fold remove_port removals (ports v)\<rparr>) nm;
        let nm = (if ports (vlan_arr nm ! i) = []
          then free_vlan (vlanId v) (upd_vlan i (\<lambda>v. v\<lparr>inUse := False, v_session := ''''\<rparr>) nm)
          else nm);
        Some (length pvidPorts, cmd, nm)
      })"

definition clear_if_empty :: "nat \<Rightarrow> nmd \<Rightarrow> nmd" where
  "clear_if_empty i nm =
     (let v = vlan_arr nm ! i in
      if inUse v \<and> ports v = []
      then free_vlan (vlanId v) (upd_vlan i (\<lambda>v. v\<lparr>inUse := False, v_session := ''''\<rparr>) nm)
      else nm)"

section \<open>session\<close>

definition session_new :: "string \<Rightarrow> session" where
  "session_new str = \<lparr>sessionID = str, sess_switches = [], active_vlans = [], removed_vlans = [],
     cleared = False\<rparr>"

definition add_switch_id :: "string \<Rightarrow> session \<Rightarrow> bool \<times> session" where
  "add_switch_id swid se =
     (if cleared se then (False, se)
      else (True, se\<lparr>sess_switches := push_new swid (sess_switches se)\<rparr>))"

definition session_add_vlan :: "switch_vlan \<Rightarrow> session \<Rightarrow> session" where
  "session_add_vlan vlan_id se = se\<lparr>active_vlans := push_new vlan_id (active_vlans se)\<rparr>"

text \<open>
  The waiting loop over the states of the commands. Each pass sees the states as the threads have
  left them; it stops at the first command that is still running.
\<close>

fun poll_pass :: "int list \<Rightarrow> bool \<Rightarrow> bool \<times> bool" where
  "poll_pass [] rtn = (True, rtn)"
| "poll_pass (st # sts) rtn =
     (if st = CMD_SENT then (False, rtn) else poll_pass sts (if st = CMD_FAILED then False else rtn))"

fun poll_loop :: "int list list \<Rightarrow> bool \<Rightarrow> bool option" where
  "poll_loop [] rtn = None"
| "poll_loop (sts # passes) rtn =
     (case poll_pass sts rtn of
        (finished, rtn) \<Rightarrow> if finished then Some rtn else poll_loop passes rtn)"

text \<open>
  One switch's command: built for all VLANs of the session, then sent by a thread or, when no thread
  can be made, in place. \<open>send_state\<close> is the state both ways leave.
\<close>

definition send_state :: "shell \<Rightarrow> string \<Rightarrow> string \<Rightarrow> net \<Rightarrow> int \<times> net" where
  "send_state sh switch_id cmd s =
     (let (r, s) = send_command sh switch_id cmd s in (if r then CMD_FINE else CMD_FAILED, s))"

fun add_ports_cmds :: "shell \<Rightarrow> string \<Rightarrow> switch_vlan list \<Rightarrow> string \<Rightarrow> nmd \<Rightarrow> (string \<times> nmd) option" where
  "add_ports_cmds sh swid [] cmd nm = Some (cmd, nm)"
| "add_ports_cmds sh swid (vid # vids) cmd nm = do {
     i \<leftarrow> get_vlan vid nm;
     (ok, cmd, s) \<leftarrow> get_add_ports_cmd sh (vlan_arr nm ! i) swid cmd (nm_net nm);
     add_ports_cmds sh swid vids (between_command swid cmd) (nm\<lparr>nm_net := s\<rparr>)
   }"

fun create_on_switches :: "shell \<Rightarrow> string list \<Rightarrow> switch_vlan list \<Rightarrow> nmd \<Rightarrow> (int list \<times> nmd) option" where
  "create_on_switches sh [] vids nm = Some ([], nm)"
| "create_on_switches sh (swid # swids) vids nm = do {
     (cmd, nm) \<leftarrow> add_ports_cmds sh swid vids (start_command swid []) nm;
     let (st, s) = send_state sh swid cmd (nm_net nm);
     (sts, nm) \<leftarrow> create_on_switches sh swids vids (nm\<lparr>nm_net := s\<rparr>);
     Some (st # sts, nm)
   }"

text \<open>Before that the ports of every VLAN are logged, through the pointer that \<^verbatim>\<open>get_vlan\<close> gives.\<close>

definition print_vlans :: "switch_vlan list \<Rightarrow> nmd \<Rightarrow> unit option" where
  "print_vlans vids nm = (if list_all (\<lambda>vid. get_vlan vid nm \<noteq> None) vids then Some () else None)"

definition create_vlans :: "shell \<Rightarrow> session \<Rightarrow> nmd \<Rightarrow> (bool \<times> nmd) option" where
  "create_vlans sh se nm =
     (if cleared se then Some (False, nm)
      else do {
        print_vlans (active_vlans se) nm;
        (sts, nm) \<leftarrow> create_on_switches sh (sess_switches se) (active_vlans se) nm;
        rtn \<leftarrow> poll_loop [sts] True;
        Some (rtn, nm)
      })"

fun clear_cmds ::
    "shell \<Rightarrow> string \<Rightarrow> switch_vlan list \<Rightarrow> nat \<Rightarrow> string \<Rightarrow> nmd \<Rightarrow> (nat \<times> string \<times> nmd) option" where
  "clear_cmds sh swid [] num_rm cmd nm = Some (num_rm, cmd, nm)"
| "clear_cmds sh swid (vid # vids) num_rm cmd nm = do {
     i \<leftarrow> get_vlan vid nm;
     (n, cmd, nm) \<leftarrow> get_clear_vlan_cmd sh i swid cmd nm;
     clear_cmds sh swid vids (num_rm + n) (between_command swid cmd) nm
   }"

fun clear_on_switches :: "shell \<Rightarrow> string list \<Rightarrow> switch_vlan list \<Rightarrow> nmd \<Rightarrow> (int list \<times> nmd) option" where
  "clear_on_switches sh [] vids nm = Some ([], nm)"
| "clear_on_switches sh (swid # swids) vids nm = do {
     (num_rm, cmd, nm) \<leftarrow> clear_cmds sh swid vids 0 (start_command swid []) nm;
     let (st, s) = (if num_rm > 0 then send_state sh swid cmd (nm_net nm) else (CMD_FINE, nm_net nm));
     (sts, nm) \<leftarrow> clear_on_switches sh swids vids (nm\<lparr>nm_net := s\<rparr>);
     Some (st # sts, nm)
   }"

fun clear_empty_vlans :: "switch_vlan list \<Rightarrow> nmd \<Rightarrow> nmd option" where
  "clear_empty_vlans [] nm = Some nm"
| "clear_empty_vlans (vid # vids) nm = do {
     i \<leftarrow> get_vlan vid nm;
     clear_empty_vlans vids (clear_if_empty i nm)
   }"

definition session_clear :: "shell \<Rightarrow> session \<Rightarrow> nmd \<Rightarrow> (bool \<times> session \<times> nmd) option" where
  "session_clear sh se nm =
     (if cleared se then Some (True, se, nm)
      else do {
        let se = se\<lparr>cleared := True,
          removed_vlans := fold push_new (active_vlans se) (removed_vlans se)\<rparr>;
        (sts, nm) \<leftarrow> clear_on_switches sh (sess_switches se) (removed_vlans se) nm;
        rtn \<leftarrow> poll_loop [sts] True;
        nm \<leftarrow> clear_empty_vlans (removed_vlans se) nm;
        Some (rtn, se, nm)
      })"

definition remove_vlan :: "shell \<Rightarrow> switch_vlan \<Rightarrow> session \<Rightarrow> nmd \<Rightarrow> (bool \<times> session \<times> nmd) option" where
  "remove_vlan sh vlan_id se nm =
     (let se = (if vlan_id \<in> set (active_vlans se)
        then se\<lparr>active_vlans := removeAll vlan_id (active_vlans se),
                removed_vlans := removed_vlans se @ [vlan_id]\<rparr>
        else se) in
      if active_vlans se = [] then session_clear sh se nm else Some (True, se, nm))"

text \<open>\<^verbatim>\<open>~session\<close>.\<close>

definition session_delete :: "shell \<Rightarrow> session \<Rightarrow> nmd \<Rightarrow> nmd option" where
  "session_delete sh se nm =
     (if \<not> cleared se then map_option (snd \<circ> snd) (session_clear sh se nm) else Some nm)"

section \<open>The operations of vlan_set\<close>

definition get_session :: "string \<Rightarrow> nmd \<Rightarrow> nat option" where
  "get_session sid nm = find_index (\<lambda>se. sessionID se = sid) (sessions nm)"

definition set_session :: "nat \<Rightarrow> session \<Rightarrow> nmd \<Rightarrow> nmd" where
  "set_session j se nm = nm\<lparr>sessions := (sessions nm)[j := se]\<rparr>"

definition remove_session :: "nat \<Rightarrow> nmd \<Rightarrow> nmd" where
  "remove_session j nm = nm\<lparr>sessions := remove_at j (sessions nm)\<rparr>"

text \<open>The session that the allocation belongs to, made when it is the first.\<close>

definition ensure_session :: "string \<Rightarrow> nmd \<Rightarrow> nmd" where
  "ensure_session sid nm =
     (case get_session sid nm of
        None \<Rightarrow> nm\<lparr>sessions := sessions nm @ [session_new sid]\<rparr>
      | Some j \<Rightarrow> nm)"

definition alloc_vlan :: "string \<Rightarrow> nmd \<Rightarrow> switch_vlan \<times> nmd" where
  "alloc_vlan sid nm =
     (case free_vlans nm of
        [] \<Rightarrow> (NO_FREE_VLANS, nm)
      | vid # rest \<Rightarrow>
          (let nm = nm\<lparr>free_vlans := rest\<rparr> in
           case get_vlan vid nm of
             None \<Rightarrow> (NO_FREE_VLANS, nm)
           | Some i \<Rightarrow>
               (let (ok, v) = set_in_use True sid (vlan_arr nm ! i) in
                if ok then
                  (let nm = upd_vlan i (\<lambda>_. v) nm;
                       nm = ensure_session sid nm;
                       j = (case get_session sid nm of None \<Rightarrow> 0 | Some j \<Rightarrow> j);
                       nm = set_session j (session_add_vlan (vlanId v) (sessions nm ! j)) nm
                   in (vlanId v, nm))
                else (NO_FREE_VLANS, nm))))"

definition vs_add_vlan :: "string \<Rightarrow> nmd \<Rightarrow> bool \<times> switch_vlan \<times> nmd" where
  "vs_add_vlan sid nm =
     (case alloc_vlan sid nm of
        (vlan_id, nm) \<Rightarrow> (if vlan_id = NO_FREE_VLANS then False else True, vlan_id, nm))"

definition vs_delete_vlan :: "shell \<Rightarrow> switch_vlan \<Rightarrow> string \<Rightarrow> nmd \<Rightarrow> (bool \<times> nmd) option" where
  "vs_delete_vlan sh vlan_id sid nm =
     (case get_session sid nm of
        None \<Rightarrow> Some (True, nm)
      | Some j \<Rightarrow> do {
          (rtn, se, nm) \<leftarrow> remove_vlan sh vlan_id (sessions nm ! j) nm;
          let nm = set_session j se nm;
          Some (rtn, if cleared se then remove_session j nm else nm)
        })"

definition vs_clear_session :: "shell \<Rightarrow> string \<Rightarrow> nmd \<Rightarrow> (bool \<times> nmd) option" where
  "vs_clear_session sh sid nm =
     (case get_session sid nm of
        None \<Rightarrow> Some (True, nm)
      | Some j \<Rightarrow> do {
          (rtn, se, nm) \<leftarrow> session_clear sh (sessions nm ! j) nm;
          let nm = set_session j se nm;
          Some (rtn, if cleared se then remove_session j nm else nm)
        })"

definition vs_create_session_vlans :: "shell \<Rightarrow> string \<Rightarrow> nmd \<Rightarrow> (bool \<times> nmd) option" where
  "vs_create_session_vlans sh sid nm =
     (case get_session sid nm of
        None \<Rightarrow> Some (False, nm)
      | Some j \<Rightarrow> create_vlans sh (sessions nm ! j) nm)"

definition vs_add_to_vlan ::
    "switch_vlan \<Rightarrow> switch_port \<Rightarrow> string \<Rightarrow> nmd \<Rightarrow> (bool \<times> nmd) option" where
  "vs_add_to_vlan vlan_id port sid nm =
     (case get_session sid nm of
        Some j \<Rightarrow> do {
          i \<leftarrow> get_vlan vlan_id nm;
          let v = vlan_arr nm ! i;
          if \<not> inUse v then Some (False, nm)
          else if v_session v = sid then
            (let nm = upd_vlan i (\<lambda>v. snd (add_port port v)) nm;
                 nm = set_session j (snd (add_switch_id (getSwitchId port) (sessions nm ! j))) nm
             in Some (True, nm))
          else Some (False, nm)
        }
      | None \<Rightarrow> Some (False, nm))"

definition vs_delete_from_vlan ::
    "shell \<Rightarrow> switch_vlan \<Rightarrow> switch_port \<Rightarrow> string \<Rightarrow> nmd \<Rightarrow> (bool \<times> nmd) option" where
  "vs_delete_from_vlan sh vlan_id port sid nm = do {
     i \<leftarrow> get_vlan vlan_id nm;
     let v = vlan_arr nm ! i;
     if \<not> inUse v then Some (False, nm)
     else if v_session v = sid then do {
       (ok, v, s) \<leftarrow> delete_port sh port v (nm_net nm);
       Some (True, upd_vlan i (\<lambda>_. v) (nm\<lparr>nm_net := s\<rparr>))
     } else Some (False, nm)
   }"

fun delete_sessions :: "shell \<Rightarrow> session list \<Rightarrow> nmd \<Rightarrow> nmd option" where
  "delete_sessions sh [] nm = Some nm"
| "delete_sessions sh (se # ses) nm = do {
     nm \<leftarrow> session_delete sh se nm;
     delete_sessions sh ses nm
   }"

definition initialize_vlans :: "shell \<Rightarrow> nmd \<Rightarrow> nmd option" where
  "initialize_vlans sh nm = do {
     let nm = nm\<lparr>vlan_arr := map vlan_initialize (vlan_arr nm)\<rparr>;
     nm \<leftarrow> delete_sessions sh (sessions nm) nm;
     Some (nm\<lparr>sessions := []\<rparr>)
   }"

end
