(* ===== verification/Nmd_Pool.thy ===== *)
theory Nmd_Pool
  imports Nmd_Types
begin

text \<open>
  What the clearing of a session does to the pool of VLANs. \<open>pool_inv\<close> is the agreement of the
  array with the list of free identifiers; the operations on single VLANs keep it, and the loops of
  \<^verbatim>\<open>clear_session\<close> are described by what they make of each VLAN (\<open>drop_switch\<close>, \<open>freed\<close>).

  The commands of a switch are defined behaviour when port numbers are positive and below 2^31 and
  the switches have fewer ports than that (\<open>ports_inv\<close>).
\<close>

section \<open>Commands that are defined\<close>

definition net_ok :: "net \<Rightarrow> bool" where
  "net_ok s \<longleftrightarrow> (\<forall>sw \<in> set (switches s). sw_ports sw < 0x80000000)"

lemma length_dec_digits: "n < 10 ^ Suc k \<Longrightarrow> length (dec_digits n) \<le> Suc k"
proof (induction n arbitrary: k rule: dec_digits.induct)
  case (1 n)
  show ?case
  proof (cases "n < 10")
    case True
    then show ?thesis by (simp add: dec_digits.simps [of n])
  next
    case False
    with 1(2) obtain j where k: "k = Suc j" by (cases k) auto
    have "n div 10 < 10 ^ Suc j" using 1(2) k by (simp add: less_mult_imp_div_less mult.commute)
    with 1(1) [OF False, of j] False k show ?thesis by (simp add: dec_digits.simps [of n])
  qed
qed

lemma sprintf_10_defined: "0 \<le> i \<Longrightarrow> i < 10 ^ 9 \<Longrightarrow> sprintf_10 i = Some (dec_digits (nat i))"
  using length_dec_digits [of "nat i" 8] by (simp add: sprintf_10_def show_int_def nat_less_iff)

lemma get_arista64_port_low: "0 \<le> p \<Longrightarrow> p < 49 \<Longrightarrow> get_arista64_port p = Some (dec_digits (nat p))"
  by (simp add: get_arista64_port_def sprintf_10_defined)

lemma get_arista64_port_module:
  assumes "49 \<le> p" and "p < 0x80000000"
  shows "get_arista64_port p =
    Some (dec_digits (49 + nat (p - 49) div 4) @ ''/'' @ dec_digits (nat (p - 49) mod 4 + 1))"
proof -
  define r where "r = nat (p - 49)"
  have r: "p - 49 = int r" using assms(1) by (simp add: r_def)
  have "r < 2147483648" using assms r by simp
  then have d: "int r div 4 < 536870912" by presburger
  have "nat (49 + int r div 4) = 49 + r div 4" "nat (int r mod 4 + 1) = r mod 4 + 1"
    by (simp_all add: nat_add_distrib nat_div_distrib nat_mod_distrib)
  moreover have "sprintf_10 (49 + int r div 4) = Some (dec_digits (nat (49 + int r div 4)))"
    by (rule sprintf_10_defined) (use d in simp_all)
  moreover have "sprintf_10 (int r mod 4 + 1) = Some (dec_digits (nat (int r mod 4 + 1)))"
    by (rule sprintf_10_defined) (use pos_mod_bound [of 4 "int r"] in simp_all)
  ultimately show ?thesis
    using assms(1) by (simp add: get_arista64_port_def port_module_closed r flip: r_def)
qed

lemma get_arista64_port_defined: "0 \<le> p \<Longrightarrow> p < 0x80000000 \<Longrightarrow> \<exists>t. get_arista64_port p = Some t"
  by (cases "p < 49") (auto simp: get_arista64_port_low get_arista64_port_module)

lemma port_cmd_defined:
  assumes "port_number_ok p"
  shows "\<exists>t. arista_port (sp_port p) = Some t" and "\<exists>t. arista64_port (sp_port p) = Some t"
    and "\<exists>t. cisco_port (sp_port p) = Some t"
proof -
  have "sp_port p < 0x80000000" using assms by (simp add: port_number_ok_def)
  then show "\<exists>t. arista64_port (sp_port p) = Some t"
    using get_arista64_port_defined [of "uint (sp_port p)"]
    by (simp add: arista64_port_def sint_small word_less_def)
qed (simp_all add: arista_port_def cisco_port_def)

lemma ports_cmd_defined:
  "\<forall>p \<in> set ps. \<exists>t. f (sp_port p) = Some t \<Longrightarrow> \<exists>t. ports_cmd f n ps = Some t"
proof (induction ps arbitrary: n)
  case (Cons p ps)
  then obtain t where "f (sp_port p) = Some t" by auto
  moreover obtain u where "ports_cmd f (n - 1) ps = Some u" using Cons by fastforce
  ultimately show ?case by simp
qed simp

lemma ports_cmds_defined:
  assumes "list_all port_number_ok ps"
  shows "\<exists>t. ports_cmd arista_port n ps = Some t" and "\<exists>t. ports_cmd arista64_port n ps = Some t"
    and "\<exists>t. ports_cmd cisco_port n ps = Some t"
  using assms port_cmd_defined by (auto simp: list_all_iff intro!: ports_cmd_defined)

lemma get_num_ports_bound: "net_ok s \<Longrightarrow> get_num_ports s i < 0x80000000"
  by (auto simp: net_ok_def get_num_ports_def get_switch_def Let_def switch_info_copy_def
      switch_info_of_def find_Some_iff split: option.split)

lemma exec_switches [simp]:
  "switches (snd (exec_ssh sh cmd s)) = switches s" "switches (snd (exec_snmp sh cmd s)) = switches s"
  by (simp_all add: exec_ssh_def exec_snmp_def Let_def)

lemma snmp_membership_defined:
  assumes "list_all port_number_ok ps"
  shows "\<exists>ok s'. set_switch_vlan_membership_snmp sh ps i v s = Some (ok, s') \<and> switches s' = switches s"
proof -
  define nb where "nb = nat ((uint (get_num_ports s i) + 7) div 8)"
  have nb: "(uint (get_num_ports s i) + 7) div 8 = int nb"
    by (simp add: nb_def pos_imp_zdiv_nonneg_iff)
  from encodeEgressPorts_bits [OF assms, of nb True] encodeEgressPorts_bits [OF assms, of nb False]
  show ?thesis
    by (auto simp: set_switch_vlan_membership_snmp_def nb exec_snmp_def Let_def)
qed

lemma membership_defined:
  assumes "net_ok s" and "list_all port_number_ok ps"
  shows "\<exists>ok cmd' s'. set_switch_vlan_membership sh ps i v cmd s = Some (ok, cmd', s') \<and>
    switches s' = switches s"
proof -
  note b = get_num_ports_bound [OF assms(1), of i]
  then obtain lp where "get_arista64_port (uint (get_num_ports s i)) = Some lp"
    using get_arista64_port_defined [of "uint (get_num_ports s i)"] by (auto simp: word_less_def)
  with b have lp: "get_arista64_port (sint (get_num_ports s i)) = Some lp"
    by (simp add: sint_small)
  from ports_cmds_defined [OF assms(2), of "int (length ps)"] obtain t1 t2 t3 where
    t: "ports_cmd arista_port (int (length ps)) ps = Some t1"
      "ports_cmd arista64_port (int (length ps)) ps = Some t2"
      "ports_cmd cisco_port (int (length ps)) ps = Some t3" by auto
  from snmp_membership_defined [OF assms(2), of sh i v s] obtain ok s' where
    sn: "set_switch_vlan_membership_snmp sh ps i v s = Some (ok, s')" "switches s' = switches s" by auto
  show ?thesis
    by (simp add: set_switch_vlan_membership_def set_switch_vlan_membership_arista_def
        set_switch_vlan_membership_arista64_def set_switch_vlan_membership_cisco_def
        t lp sn Let_def del: length_greater_0_conv length_0_conv of_nat_0_less_iff) blast
qed

lemma pvids_snmp_switches [simp]:
  "switches (snd (set_switch_pvids_snmp sh ps i v s)) = switches s"
  by (induction sh ps i v s rule: set_switch_pvids_snmp.induct) (simp_all add: Let_def)

lemma pvids_defined:
  assumes "list_all port_number_ok ps"
  shows "\<exists>ok cmd' s'. set_switch_pvids sh ps i v cmd s = Some (ok, cmd', s') \<and> switches s' = switches s"
proof -
  define hs where "hs = filter (\<lambda>p. \<not> sp_interswitch p \<and> sp_port p \<noteq> get_management_port s i) ps"
  have "list_all port_number_ok hs" using assms by (auto simp: hs_def list_all_iff)
  from ports_cmds_defined [OF this, of "int (length hs)"] obtain t1 t2 t3 where
    t: "ports_cmd arista_port (int (length hs)) hs = Some t1"
      "ports_cmd arista64_port (int (length hs)) hs = Some t2"
      "ports_cmd cisco_port (int (length hs)) hs = Some t3" by auto
  show ?thesis
    by (auto simp: set_switch_pvids_def set_switch_pvids_arista_def set_switch_pvids_arista64_def
        set_switch_pvids_cisco_def t Let_def simp flip: hs_def split: prod.split)
      (metis pvids_snmp_switches snd_conv)
qed

lemma send_state_switches [simp]: "switches (snd (send_state sh i cmd s)) = switches s"
  by (simp add: send_state_def send_command_def net_start_ssh_def net_finish_ssh_def Let_def
      exec_ssh_def split: prod.split)

section \<open>The pool\<close>

definition ids :: "nmd \<Rightarrow> switch_vlan list" where
  "ids nm = map vlanId (vlan_arr nm)"

text \<open>The VLANs of \<open>L\<close> are lost: not in use, but not in the list of free ones either.\<close>

definition pool_inv :: "switch_vlan set \<Rightarrow> nmd \<Rightarrow> bool" where
  "pool_inv L nm \<longleftrightarrow> distinct (ids nm) \<and> distinct (free_vlans nm) \<and> set (free_vlans nm) \<subseteq> set (ids nm) \<and>
     L \<inter> set (free_vlans nm) = {} \<and>
     (\<forall>v \<in> set (vlan_arr nm). (inUse v \<longleftrightarrow> vlanId v \<notin> set (free_vlans nm) \<and> vlanId v \<notin> L) \<and>
        (\<not> inUse v \<longrightarrow> ports v = []))"

definition ports_inv :: "nmd \<Rightarrow> bool" where
  "ports_inv nm \<longleftrightarrow> (\<forall>v \<in> set (vlan_arr nm). list_all port_number_ok (ports v)) \<and> net_ok (nm_net nm)"

definition map_vlan :: "switch_vlan \<Rightarrow> (vlan \<Rightarrow> vlan) \<Rightarrow> vlan list \<Rightarrow> vlan list" where
  "map_vlan vid f = map (\<lambda>v. if vlanId v = vid then f v else v)"

lemma get_vlan_Some:
  "distinct (ids nm) \<Longrightarrow> get_vlan vid nm = Some i \<longleftrightarrow> i < length (vlan_arr nm) \<and> vlanId (vlan_arr nm ! i) = vid"
  using find_index_distinct [of vlanId "vlan_arr nm" i]
  by (auto simp: get_vlan_def ids_def dest: find_index_Some)

lemma get_vlan_ex: "vid \<in> set (ids nm) \<Longrightarrow> \<exists>i. get_vlan vid nm = Some i"
  by (cases "get_vlan vid nm") (auto simp: get_vlan_def find_index_None ids_def)

lemma upd_map_vlan:
  assumes "distinct (map vlanId vs)" and "i < length vs" and "vlanId (vs ! i) = vid"
  shows "vs[i := f (vs ! i)] = map_vlan vid f vs"
proof (rule nth_equalityI)
  fix j assume "j < length (vs[i := f (vs ! i)])"
  with assms show "vs[i := f (vs ! i)] ! j = map_vlan vid f vs ! j"
    by (auto simp: map_vlan_def nth_list_update distinct_conv_nth)
qed (simp add: map_vlan_def)

text \<open>What one switch's clearing and the final clearing make of a VLAN.\<close>

definition freed :: "vlan \<Rightarrow> vlan" where
  "freed v = v\<lparr>ports := [], inUse := False, v_session := ''''\<rparr>"

definition drop_switch :: "string \<Rightarrow> vlan \<Rightarrow> vlan" where
  "drop_switch sw v =
     (let ps = filter (\<lambda>p. getSwitchId p \<noteq> sw) (ports v) in
      if ports v \<noteq> [] \<and> ps = [] then freed v else v\<lparr>ports := ps\<rparr>)"

definition close_empty :: "vlan \<Rightarrow> vlan" where
  "close_empty v = (if inUse v \<and> ports v = [] then freed v else v)"

lemma vlanId_keep [simp]:
  "vlanId (freed v) = vlanId v" "vlanId (drop_switch sw v) = vlanId v" "vlanId (close_empty v) = vlanId v"
  by (simp_all add: freed_def drop_switch_def close_empty_def Let_def)

lemma vlanId_fold [simp]: "vlanId (fold drop_switch sws v) = vlanId v"
  by (induction sws arbitrary: v) simp_all

lemma fold_remove_port:
  "fold remove_port rs ps = filter (\<lambda>q. \<forall>r \<in> set rs. \<not> switch_port_eq q r) ps"
  by (induction rs arbitrary: ps) (auto simp: remove_port_def intro: filter_cong)

lemma remove_switch_ports:
  "fold remove_port (filter (\<lambda>p. getSwitchId p = sw) ps) ps = filter (\<lambda>p. getSwitchId p \<noteq> sw) ps"
  unfolding fold_remove_port
  by (rule filter_cong) (auto dest: switch_port_eq_id intro: switch_port_eq_equiv)

lemma drop_switch_ports [simp]: "ports (drop_switch sw v) = filter (\<lambda>p. getSwitchId p \<noteq> sw) (ports v)"
  by (auto simp: drop_switch_def freed_def Let_def)

text \<open>A step on one VLAN that frees it, or leaves its use and its identifier alone.\<close>

lemma pool_inv_step:
  assumes inv: "pool_inv L nm" and arr: "vlan_arr nm' = map_vlan vid f (vlan_arr nm)"
    and f: "\<And>v. v \<in> set (vlan_arr nm) \<Longrightarrow> vlanId v = vid \<Longrightarrow> vlanId (f v) = vid \<and>
      (if e then \<not> inUse (f v) else inUse (f v) = inUse v) \<and> (\<not> inUse (f v) \<longrightarrow> ports (f v) = [])"
    and free: "free_vlans nm' = (if e then push_new vid (free_vlans nm) else free_vlans nm)"
    and vid: "vid \<in> set (ids nm)" and lost: "e \<Longrightarrow> vid \<notin> L"
  shows "pool_inv L nm'" and "ids nm' = ids nm"
proof -
  show ids: "ids nm' = ids nm"
    using arr f by (auto simp: ids_def map_vlan_def)
  show "pool_inv L nm'"
    unfolding pool_inv_def ids
  proof (intro conjI ballI)
    fix v assume "v \<in> set (vlan_arr nm')"
    then obtain u where u: "u \<in> set (vlan_arr nm)" "v = (if vlanId u = vid then f u else u)"
      by (auto simp: arr map_vlan_def)
    with inv have "inUse u \<longleftrightarrow> vlanId u \<notin> set (free_vlans nm) \<and> vlanId u \<notin> L" "\<not> inUse u \<longrightarrow> ports u = []"
      by (auto simp: pool_inv_def)
    with u f [OF u(1)] free lost show "(inUse v \<longleftrightarrow> vlanId v \<notin> set (free_vlans nm') \<and> vlanId v \<notin> L)"
      and "\<not> inUse v \<longrightarrow> ports v = []"
      by (auto split: if_splits)
  qed (use inv free vid lost in \<open>auto simp: pool_inv_def split: if_splits\<close>)
qed

lemma pool_inv_vlanD:
  assumes "pool_inv L nm" and "get_vlan vid nm = Some i"
  shows "vlan_arr nm ! i \<in> set (vlan_arr nm)" and "vlanId (vlan_arr nm ! i) = vid"
    and "(vlan_arr nm)[i := f (vlan_arr nm ! i)] = map_vlan vid f (vlan_arr nm)"
    and "u \<in> set (vlan_arr nm) \<Longrightarrow> vlanId u = vid \<Longrightarrow> u = vlan_arr nm ! i"
    and "i < length (vlan_arr nm)"
proof -
  have dist: "distinct (ids nm)" using assms(1) by (simp add: pool_inv_def)
  note i = assms(2) [unfolded get_vlan_Some [OF dist]]
  then show "vlan_arr nm ! i \<in> set (vlan_arr nm)" "vlanId (vlan_arr nm ! i) = vid"
    "i < length (vlan_arr nm)" by simp_all
  show "(vlan_arr nm)[i := f (vlan_arr nm ! i)] = map_vlan vid f (vlan_arr nm)"
    using upd_map_vlan [of "vlan_arr nm" i vid f] dist i by (simp add: ids_def)
  show "u = vlan_arr nm ! i" if "u \<in> set (vlan_arr nm)" "vlanId u = vid"
  proof -
    have "inj_on vlanId (set (vlan_arr nm))" using dist by (simp add: ids_def distinct_map)
    with that i show ?thesis by (metis inj_onD nth_mem)
  qed
qed

lemma get_clear_vlan_cmd_empty:
  assumes inv: "pool_inv L nm" and i: "get_vlan vid nm = Some i"
    and none: "filter (\<lambda>p. getSwitchId p = sw) (ports (vlan_arr nm ! i)) = []"
  shows "get_clear_vlan_cmd sh i sw cmd nm = Some (0, cmd, nm)"
    and "vlan_arr nm = map_vlan vid (drop_switch sw) (vlan_arr nm)"
proof -
  note vd = pool_inv_vlanD [OF inv i]
  have "filter (\<lambda>p. getSwitchId p \<noteq> sw) (ports (vlan_arr nm ! i)) = ports (vlan_arr nm ! i)"
    using none by (auto simp: filter_empty_conv)
  then have "drop_switch sw (vlan_arr nm ! i) = vlan_arr nm ! i"
    by (simp add: drop_switch_def Let_def)
  with vd(3) [of "drop_switch sw"] show "vlan_arr nm = map_vlan vid (drop_switch sw) (vlan_arr nm)"
    by simp
  show "get_clear_vlan_cmd sh i sw cmd nm = Some (0, cmd, nm)"
    using none by (simp add: get_clear_vlan_cmd_def Let_def)
qed

lemma get_clear_vlan_cmd_some:
  assumes inv: "pool_inv L nm" and ok: "ports_inv nm" and i: "get_vlan vid nm = Some i"
    and some: "filter (\<lambda>p. getSwitchId p = sw) (ports (vlan_arr nm ! i)) \<noteq> []"
  shows "\<exists>n cmd' nm'. get_clear_vlan_cmd sh i sw cmd nm = Some (n, cmd', nm') \<and>
    vlan_arr nm' = map_vlan vid (drop_switch sw) (vlan_arr nm) \<and> pool_inv L nm' \<and>
    sessions nm' = sessions nm \<and> switches (nm_net nm') = switches (nm_net nm)"
proof -
  define v where "v = vlan_arr nm ! i"
  note vd = pool_inv_vlanD [OF inv i, folded v_def]
  have "list_all port_number_ok (get_switch_ports sw v)"
    using ok vd(1) by (auto simp: ports_inv_def get_switch_ports_def list_all_iff)
  from pvids_defined [OF this] obtain ok1 cmd1 s1 where
    pv: "set_switch_pvids sh (get_switch_ports sw v) sw default_vlan cmd (nm_net nm) = Some (ok1, cmd1, s1)"
      "switches s1 = switches (nm_net nm)" by blast
  have "net_ok s1" using ok pv(2) by (simp add: ports_inv_def net_ok_def)
  from membership_defined [OF this, of "[]" sh sw vid cmd1] obtain ok2 cmd2 s2 where
    mem: "set_switch_vlan_membership sh [] sw vid cmd1 s1 = Some (ok2, cmd2, s2)"
      "switches s2 = switches s1" by auto
  define ps where "ps = filter (\<lambda>p. getSwitchId p \<noteq> sw) (ports v)"
  have pne: "ports v \<noteq> []" using some by (auto simp: v_def)
  have inuse: "inUse v" using inv vd(1) pne by (auto simp: pool_inv_def)
  define nm' where "nm' = nm\<lparr>nm_net := s2, vlan_arr := map_vlan vid (drop_switch sw) (vlan_arr nm),
      free_vlans := (if ps = [] then push_new vid (free_vlans nm) else free_vlans nm)\<rparr>"
  have drop: "drop_switch sw v = (if ps = [] then freed v else v\<lparr>ports := ps\<rparr>)"
    using pne by (simp add: drop_switch_def ps_def Let_def)
  have arr: "(vlan_arr nm)[i := drop_switch sw v] = map_vlan vid (drop_switch sw) (vlan_arr nm)"
    by (rule vd(3))
  have nth: "map_vlan vid f (vlan_arr nm) ! i = f v" for f
    using vd(2,5) by (simp add: map_vlan_def v_def)
  note body = get_clear_vlan_cmd_def Let_def between_command_def upd_vlan_def free_vlan_def
  have "get_clear_vlan_cmd sh i sw cmd nm = Some (length (get_switch_ports sw v), cmd2, nm')"
    using some vd(2,5) pv(1) mem(1) remove_switch_ports [of sw "ports v"] arr drop
    by (cases "ps = []") (simp_all add: body nm'_def freed_def nth flip: v_def ps_def)
  moreover have "pool_inv L nm'"
  proof (rule pool_inv_step(1) [OF inv, where f = "drop_switch sw" and vid = vid and e = "ps = []"])
    fix u assume u: "u \<in> set (vlan_arr nm)" "vlanId u = vid"
    then have "u = v" by (rule vd(4))
    with drop inuse show "vlanId (drop_switch sw u) = vid \<and>
        (if ps = [] then \<not> inUse (drop_switch sw u) else inUse (drop_switch sw u) = inUse u) \<and>
        (\<not> inUse (drop_switch sw u) \<longrightarrow> ports (drop_switch sw u) = [])"
      using vd(2) by (simp add: freed_def)
  qed (use vd(1,2) inuse inv in \<open>auto simp: nm'_def ids_def pool_inv_def\<close>)
  ultimately show ?thesis
    using pv(2) mem(2) by (simp add: nm'_def)
qed

lemma get_clear_vlan_cmd_spec:
  assumes "pool_inv L nm" and "ports_inv nm" and "get_vlan vid nm = Some i"
  shows "\<exists>n cmd' nm'. get_clear_vlan_cmd sh i sw cmd nm = Some (n, cmd', nm') \<and>
    vlan_arr nm' = map_vlan vid (drop_switch sw) (vlan_arr nm) \<and> pool_inv L nm' \<and>
    sessions nm' = sessions nm \<and> switches (nm_net nm') = switches (nm_net nm)"
proof (cases "filter (\<lambda>p. getSwitchId p = sw) (ports (vlan_arr nm ! i)) = []")
  case True
  from get_clear_vlan_cmd_empty [OF assms(1,3) True] assms(1) show ?thesis by force
next
  case False
  from get_clear_vlan_cmd_some [OF assms False] show ?thesis .
qed

lemma clear_if_empty_spec:
  assumes inv: "pool_inv L nm" and i: "get_vlan vid nm = Some i"
  shows "vlan_arr (clear_if_empty i nm) = map_vlan vid close_empty (vlan_arr nm)"
    and "pool_inv L (clear_if_empty i nm)" and "sessions (clear_if_empty i nm) = sessions nm"
    and "nm_net (clear_if_empty i nm) = nm_net nm"
proof -
  define v where "v = vlan_arr nm ! i"
  note vd = pool_inv_vlanD [OF inv i, folded v_def]
  define e where "e \<longleftrightarrow> inUse v \<and> ports v = []"
  have ce: "close_empty v = (if e then freed v else v)" by (simp add: close_empty_def e_def)
  have arr: "(vlan_arr nm)[i := close_empty v] = map_vlan vid close_empty (vlan_arr nm)"
    by (rule vd(3))
  have "freed v = v\<lparr>inUse := False, v_session := ''''\<rparr>" if e
    using that by (cases v) (simp add: e_def freed_def)
  then have eq: "clear_if_empty i nm = nm\<lparr>vlan_arr := map_vlan vid close_empty (vlan_arr nm),
      free_vlans := (if e then push_new vid (free_vlans nm) else free_vlans nm)\<rparr>"
    using arr ce vd(2,5)
    by (simp add: clear_if_empty_def Let_def free_vlan_def upd_vlan_def flip: v_def e_def)
      (auto simp: v_def list_update_id)
  show "vlan_arr (clear_if_empty i nm) = map_vlan vid close_empty (vlan_arr nm)"
    "sessions (clear_if_empty i nm) = sessions nm" "nm_net (clear_if_empty i nm) = nm_net nm"
    by (simp_all add: eq)
  show "pool_inv L (clear_if_empty i nm)"
  proof (rule pool_inv_step(1) [OF inv, where f = close_empty and vid = vid and e = e])
    fix u assume u: "u \<in> set (vlan_arr nm)" "vlanId u = vid"
    then have "u = v" by (rule vd(4))
    with ce vd(1,2) inv show "vlanId (close_empty u) = vid \<and>
        (if e then \<not> inUse (close_empty u) else inUse (close_empty u) = inUse u) \<and>
        (\<not> inUse (close_empty u) \<longrightarrow> ports (close_empty u) = [])"
      by (auto simp: freed_def pool_inv_def)
  qed (use vd(1,2) inv in \<open>auto simp: eq ids_def e_def pool_inv_def\<close>)
qed

section \<open>The loops of clear_session\<close>

lemma pool_inv_ids: "pool_inv L nm \<Longrightarrow> distinct (ids nm)"
  by (simp add: pool_inv_def)

lemma ids_map_vlan:
  "vlan_arr nm' = map f (vlan_arr nm) \<Longrightarrow> (\<And>v. vlanId (f v) = vlanId v) \<Longrightarrow> ids nm' = ids nm"
  by (simp add: ids_def comp_def)

lemma map_vlan_drop: "map_vlan vid f = map (\<lambda>v. if vlanId v = vid then f v else v)"
  by (simp add: map_vlan_def fun_eq_iff)

lemma ports_inv_drop:
  "ports_inv nm \<Longrightarrow> vlan_arr nm' = map f (vlan_arr nm) \<Longrightarrow> (\<And>v. set (ports (f v)) \<subseteq> set (ports v)) \<Longrightarrow>
     switches (nm_net nm') = switches (nm_net nm) \<Longrightarrow> ports_inv nm'"
  by (fastforce simp: ports_inv_def net_ok_def list_all_iff)

lemma drop_switch_idem [simp]: "drop_switch sw (drop_switch sw v) = drop_switch sw v"
  by (auto simp: drop_switch_def freed_def Let_def filter_empty_conv)

lemma clear_cmds_spec:
  assumes "pool_inv L nm" and "ports_inv nm" and "set vids \<subseteq> set (ids nm)"
  shows "\<exists>n cmd' nm'. clear_cmds sh sw vids num cmd nm = Some (n, cmd', nm') \<and>
    vlan_arr nm' = map (\<lambda>v. if vlanId v \<in> set vids then drop_switch sw v else v) (vlan_arr nm) \<and>
    pool_inv L nm' \<and> sessions nm' = sessions nm \<and> switches (nm_net nm') = switches (nm_net nm)"
  using assms
proof (induction vids arbitrary: num cmd nm)
  case Nil
  then show ?case by simp
next
  case (Cons vid vids)
  from Cons.prems(3) get_vlan_ex [of vid nm] obtain i where i: "get_vlan vid nm = Some i" by auto
  from get_clear_vlan_cmd_spec [OF Cons.prems(1,2) i, of sh sw cmd] obtain n1 cmd1 nm1 where
    g: "get_clear_vlan_cmd sh i sw cmd nm = Some (n1, cmd1, nm1)"
      "vlan_arr nm1 = map_vlan vid (drop_switch sw) (vlan_arr nm)" "pool_inv L nm1"
      "sessions nm1 = sessions nm" "switches (nm_net nm1) = switches (nm_net nm)" by blast
  have "ids nm1 = ids nm"
    by (rule ids_map_vlan [OF g(2) [unfolded map_vlan_drop]]) simp
  moreover have "ports_inv nm1"
    by (rule ports_inv_drop [OF Cons.prems(2) g(2) [unfolded map_vlan_drop] _ g(5)]) auto
  ultimately obtain n2 cmd2 nm2 where
    r: "clear_cmds sh sw vids (num + n1) cmd1 nm1 = Some (n2, cmd2, nm2)"
      "vlan_arr nm2 = map (\<lambda>v. if vlanId v \<in> set vids then drop_switch sw v else v) (vlan_arr nm1)"
      "pool_inv L nm2" "sessions nm2 = sessions nm1" "switches (nm_net nm2) = switches (nm_net nm1)"
    using Cons.IH [OF g(3), of "num + n1" cmd1] Cons.prems(3) by auto
  have "vlan_arr nm2 = map (\<lambda>v. if vlanId v \<in> set (vid # vids) then drop_switch sw v else v) (vlan_arr nm)"
    by (auto simp: r(2) g(2) map_vlan_drop)
  with i g r show ?case by (simp add: between_command_def)
qed

lemma clear_on_switches_spec:
  assumes "pool_inv L nm" and "ports_inv nm" and "set vids \<subseteq> set (ids nm)"
  shows "\<exists>sts nm'. clear_on_switches sh sws vids nm = Some (sts, nm') \<and> set sts \<subseteq> {CMD_FAILED, CMD_FINE} \<and>
    vlan_arr nm' = map (\<lambda>v. if vlanId v \<in> set vids then fold drop_switch sws v else v) (vlan_arr nm) \<and>
    pool_inv L nm' \<and> sessions nm' = sessions nm \<and> switches (nm_net nm') = switches (nm_net nm)"
  using assms
proof (induction sws arbitrary: nm)
  case Nil
  then show ?case by (simp cong: if_cong)
next
  case (Cons sw sws)
  from clear_cmds_spec [OF Cons.prems, of sh sw 0 "start_command sw []"] obtain n cmd nm1 where
    c: "clear_cmds sh sw vids 0 (start_command sw []) nm = Some (n, cmd, nm1)"
      "vlan_arr nm1 = map (\<lambda>v. if vlanId v \<in> set vids then drop_switch sw v else v) (vlan_arr nm)"
      "pool_inv L nm1" "sessions nm1 = sessions nm" "switches (nm_net nm1) = switches (nm_net nm)" by blast
  obtain st s where st: "(if n > 0 then send_state sh sw cmd (nm_net nm1) else (CMD_FINE, nm_net nm1)) = (st, s)"
    by force
  then have sw: "switches s = switches (nm_net nm1)" and "st \<in> {CMD_FAILED, CMD_FINE}"
    using send_state_switches [of sh sw cmd "nm_net nm1"]
    by (auto simp: send_state_def split: if_splits prod.splits)
  define nm2 where "nm2 = nm1\<lparr>nm_net := s\<rparr>"
  have nm2: "vlan_arr nm2 = vlan_arr nm1" "sessions nm2 = sessions nm1" "nm_net nm2 = s"
    by (simp_all add: nm2_def)
  have "pool_inv L nm2" using c(3) by (simp add: pool_inv_def ids_def nm2_def)
  moreover have "ids nm2 = ids nm"
    by (rule ids_map_vlan [OF c(2) [folded nm2(1)]]) simp
  moreover have "ports_inv nm2"
    by (rule ports_inv_drop [OF Cons.prems(2) c(2) [folded nm2(1)]]) (auto simp: nm2(3) sw c(5))
  ultimately obtain sts nm3 where
    r: "clear_on_switches sh sws vids nm2 = Some (sts, nm3)" "set sts \<subseteq> {CMD_FAILED, CMD_FINE}"
      "vlan_arr nm3 = map (\<lambda>v. if vlanId v \<in> set vids then fold drop_switch sws v else v) (vlan_arr nm2)"
      "pool_inv L nm3" "sessions nm3 = sessions nm2" "switches (nm_net nm3) = switches (nm_net nm2)"
    using Cons.IH [of nm2] Cons.prems(3) by auto
  have "vlan_arr nm3 = map (\<lambda>v. if vlanId v \<in> set vids then fold drop_switch (sw # sws) v else v) (vlan_arr nm)"
    by (auto simp: r(3) c(2) nm2(1))
  with c(1,4,5) st r sw nm2 \<open>st \<in> _\<close> show ?case
    by (simp flip: nm2_def)
qed

lemma clear_empty_vlans_spec:
  assumes "pool_inv L nm" and "set vids \<subseteq> set (ids nm)"
  shows "\<exists>nm'. clear_empty_vlans vids nm = Some nm' \<and>
    vlan_arr nm' = map (\<lambda>v. if vlanId v \<in> set vids then close_empty v else v) (vlan_arr nm) \<and>
    pool_inv L nm' \<and> sessions nm' = sessions nm \<and> nm_net nm' = nm_net nm"
  using assms
proof (induction vids arbitrary: nm)
  case Nil
  then show ?case by simp
next
  case (Cons vid vids)
  from Cons.prems(2) get_vlan_ex [of vid nm] obtain i where i: "get_vlan vid nm = Some i" by auto
  note c = clear_if_empty_spec [OF Cons.prems(1) i]
  have "ids (clear_if_empty i nm) = ids nm"
    by (rule ids_map_vlan [OF c(1) [unfolded map_vlan_drop]]) simp
  with Cons.IH [OF c(2)] Cons.prems(2) obtain nm' where
    r: "clear_empty_vlans vids (clear_if_empty i nm) = Some nm'"
      "vlan_arr nm' = map (\<lambda>v. if vlanId v \<in> set vids then close_empty v else v) (vlan_arr (clear_if_empty i nm))"
      "pool_inv L nm'" "sessions nm' = sessions nm" "nm_net nm' = nm_net nm"
    using c(3,4) by auto
  have idem: "close_empty (close_empty v) = close_empty v" for v
    by (simp add: close_empty_def freed_def)
  have "vlan_arr nm' = map (\<lambda>v. if vlanId v \<in> set (vid # vids) then close_empty v else v) (vlan_arr nm)"
    by (auto simp: r(2) c(1) map_vlan_drop idem)
  with i r show ?case by simp
qed

lemma fold_drop_switch:
  "fold drop_switch sws v =
     (let ps = filter (\<lambda>p. getSwitchId p \<notin> set sws) (ports v) in
      if ports v \<noteq> [] \<and> ps = [] then freed v else v\<lparr>ports := ps\<rparr>)"
proof (induction sws arbitrary: v)
  case Nil
  then show ?case by simp
next
  case (Cons sw sws)
  have f: "filter (\<lambda>p. getSwitchId p \<notin> set sws) (filter (\<lambda>p. getSwitchId p \<noteq> sw) ps) =
      filter (\<lambda>p. getSwitchId p \<notin> set (sw # sws)) ps" for ps
    by (induction ps) auto
  show ?case
    unfolding fold_Cons comp_apply Cons.IH drop_switch_ports f
    by (auto simp: Let_def drop_switch_def freed_def filter_empty_conv)
qed

lemma poll_pass_done:
  "CMD_SENT \<notin> set sts \<Longrightarrow> poll_pass sts rtn = (True, rtn \<and> CMD_FAILED \<notin> set sts)"
  by (induction sts rtn rule: poll_pass.induct) auto

lemma set_fold_push_new [simp]: "set (fold push_new xs ys) = set xs \<union> set ys"
  by (induction xs arbitrary: ys) auto

lemma distinct_fold_push_new [simp]: "distinct (fold push_new xs ys) = distinct ys"
  by (induction xs arbitrary: ys) auto

definition owned :: "session \<Rightarrow> switch_vlan set" where
  "owned se = set (active_vlans se) \<union> set (removed_vlans se)"

theorem session_clear_spec:
  assumes inv: "pool_inv L nm" "ports_inv nm" and own: "owned se \<subseteq> set (ids nm)" and nc: "\<not> cleared se"
    and vs: "\<And>v. v \<in> set (vlan_arr nm) \<Longrightarrow> vlanId v \<in> owned se \<Longrightarrow>
      inUse v \<and> (\<forall>p \<in> set (ports v). getSwitchId p \<in> set (sess_switches se))"
  shows "\<exists>rtn se' nm'. session_clear sh se nm = Some (rtn, se', nm') \<and> cleared se' \<and>
    sessionID se' = sessionID se \<and> pool_inv L nm' \<and> ports_inv nm' \<and> sessions nm' = sessions nm \<and>
    switches (nm_net nm') = switches (nm_net nm) \<and>
    vlan_arr nm' = map (\<lambda>v. if vlanId v \<in> owned se then freed v else v) (vlan_arr nm)"
proof -
  define se1 where "se1 = se\<lparr>cleared := True, removed_vlans := fold push_new (active_vlans se) (removed_vlans se)\<rparr>"
  have R: "set (removed_vlans se1) = owned se" and S: "sess_switches se1 = sess_switches se"
    by (simp_all add: se1_def owned_def)
  from clear_on_switches_spec [OF inv, of "removed_vlans se1" sh "sess_switches se1"] own R obtain sts nm1 where
    c: "clear_on_switches sh (sess_switches se1) (removed_vlans se1) nm = Some (sts, nm1)"
      "set sts \<subseteq> {CMD_FAILED, CMD_FINE}"
      "vlan_arr nm1 = map (\<lambda>v. if vlanId v \<in> owned se then fold drop_switch (sess_switches se) v else v) (vlan_arr nm)"
      "pool_inv L nm1" "sessions nm1 = sessions nm" "switches (nm_net nm1) = switches (nm_net nm)"
    using S by auto
  have "CMD_SENT \<notin> set sts" using c(2) by auto
  then obtain rtn where p: "poll_loop [sts] True = Some rtn" by (simp add: poll_pass_done)
  have "ids nm1 = ids nm" by (rule ids_map_vlan [OF c(3)]) simp
  with clear_empty_vlans_spec [OF c(4), of "removed_vlans se1"] own R obtain nm2 where
    e: "clear_empty_vlans (removed_vlans se1) nm1 = Some nm2"
      "vlan_arr nm2 = map (\<lambda>v. if vlanId v \<in> owned se then close_empty v else v) (vlan_arr nm1)"
      "pool_inv L nm2" "sessions nm2 = sessions nm1" "nm_net nm2 = nm_net nm1" by auto
  have one: "close_empty (fold drop_switch (sess_switches se) v) = freed v"
    if "v \<in> set (vlan_arr nm)" "vlanId v \<in> owned se" for v
    using vs [OF that]
    by (auto simp: fold_drop_switch Let_def close_empty_def freed_def filter_empty_conv)
  have arr: "vlan_arr nm2 = map (\<lambda>v. if vlanId v \<in> owned se then freed v else v) (vlan_arr nm)"
    by (auto simp: e(2) c(3) one)
  moreover have "ports_inv nm2"
    by (rule ports_inv_drop [OF inv(2) arr]) (auto simp: freed_def e(5) c(6))
  moreover have "session_clear sh se nm = Some (rtn, se1, nm2)"
    using nc c(1) p e(1) by (simp add: session_clear_def flip: se1_def)
  ultimately show ?thesis using e c by (auto simp: se1_def)
qed

end
