(* ===== verification/Nmd_Sessions.thy ===== *)
theory Nmd_Sessions
  imports Nmd_Pool
begin

text \<open>
  The invariant of the daemon's state and its preservation by every operation of
  \<^verbatim>\<open>vlan_set\<close>. The lists are read through two maps, \<open>vl\<close> from identifiers to VLANs and
  \<open>sess\<close> from names to sessions; an operation is an update of these maps.
\<close>

section \<open>The two maps\<close>

definition vl :: "nmd \<Rightarrow> switch_vlan \<Rightarrow> vlan option" where
  "vl nm vid = find (\<lambda>v. vlanId v = vid) (vlan_arr nm)"

definition sess :: "nmd \<Rightarrow> string \<Rightarrow> session option" where
  "sess nm sid = find (\<lambda>se. sessionID se = sid) (sessions nm)"

lemma find_find_index: "find P xs = map_option ((!) xs) (find_index P xs)"
  by (induction xs) (simp_all add: option.map_comp comp_def)

lemma vl_get_vlan: "vl nm vid = map_option ((!) (vlan_arr nm)) (get_vlan vid nm)"
  by (simp add: vl_def get_vlan_def find_find_index)

lemma sess_get_session: "sess nm sid = map_option ((!) (sessions nm)) (get_session sid nm)"
  by (simp add: sess_def get_session_def find_find_index)

lemma vl_Some: "vl nm vid = Some v \<Longrightarrow> v \<in> set (vlan_arr nm) \<and> vlanId v = vid"
  by (auto simp: vl_def find_Some_iff)

lemma vl_mem: "distinct (ids nm) \<Longrightarrow> vl nm vid = Some v \<longleftrightarrow> v \<in> set (vlan_arr nm) \<and> vlanId v = vid"
proof
  assume d: "distinct (ids nm)" and v: "v \<in> set (vlan_arr nm) \<and> vlanId v = vid"
  then obtain u where u: "vl nm vid = Some u" by (cases "vl nm vid") (auto simp: vl_def find_None_iff)
  with vl_Some [OF u] v d have "u = v" by (auto simp: ids_def distinct_map inj_on_def)
  with u show "vl nm vid = Some v" by simp
qed (rule vl_Some)

lemma vl_None: "vl nm vid = None \<longleftrightarrow> vid \<notin> set (ids nm)"
  by (auto simp: vl_def find_None_iff ids_def)

lemma sess_Some: "sess nm sid = Some se \<Longrightarrow> se \<in> set (sessions nm) \<and> sessionID se = sid"
  by (auto simp: sess_def find_Some_iff)

lemma find_map: "(\<And>x. k (f x) = k x) \<Longrightarrow> find (\<lambda>x. k x = c) (map f xs) = map_option f (find (\<lambda>x. k x = c) xs)"
  by (induction xs) auto

lemma vl_map:
  "vlan_arr nm' = map f (vlan_arr nm) \<Longrightarrow> (\<And>v. vlanId (f v) = vlanId v) \<Longrightarrow>
     vl nm' vid = map_option f (vl nm vid)"
  by (simp add: vl_def find_map)

lemma vl_map_vlan:
  assumes "vlan_arr nm' = map_vlan vid f (vlan_arr nm)" and "\<And>v. vlanId (f v) = vlanId v"
  shows "vl nm' = (vl nm)(vid := map_option f (vl nm vid))"
proof
  fix w
  have "vl nm' w = map_option (\<lambda>v. if vlanId v = vid then f v else v) (vl nm w)"
    by (rule vl_map) (simp_all add: assms map_vlan_def)
  then show "vl nm' w = ((vl nm)(vid := map_option f (vl nm vid))) w"
    by (cases "vl nm w") (auto dest: vl_Some)
qed

lemma find_list_update:
  "find_index (\<lambda>x. k x = c) xs = Some j \<Longrightarrow> k y = c \<Longrightarrow>
     find (\<lambda>x. k x = d) (xs[j := y]) = (if d = c then Some y else find (\<lambda>x. k x = d) xs)"
  by (induction xs arbitrary: j) (auto split: if_splits)

lemma sess_set_session:
  "get_session sid nm = Some j \<Longrightarrow> sessionID se = sid \<Longrightarrow>
     sess (set_session j se nm) = (sess nm)(sid \<mapsto> se)"
  by (auto simp: sess_def set_session_def get_session_def fun_eq_iff find_list_update)

lemma find_append: "find P (xs @ ys) = (case find P xs of None \<Rightarrow> find P ys | Some x \<Rightarrow> Some x)"
  by (induction xs) auto

lemma sess_append:
  "sess nm (sessionID se) = None \<Longrightarrow>
     sess (nm\<lparr>sessions := sessions nm @ [se]\<rparr>) = (sess nm)(sessionID se \<mapsto> se)"
  by (auto simp: sess_def find_append fun_eq_iff split: option.split)

lemma find_remove_at:
  "distinct (map k xs) \<Longrightarrow> find_index (\<lambda>x. k x = c) xs = Some j \<Longrightarrow>
     find (\<lambda>x. k x = d) (remove_at j xs) = (if d = c then None else find (\<lambda>x. k x = d) xs)"
  by (induction xs arbitrary: j) (auto simp: remove_at_def find_None_iff image_iff split: if_splits)

lemma sess_remove_session:
  "distinct (map sessionID (sessions nm)) \<Longrightarrow> get_session sid nm = Some j \<Longrightarrow>
     sess (remove_session j nm) = (sess nm)(sid := None)"
  by (auto simp: sess_def remove_session_def get_session_def fun_eq_iff find_remove_at)

lemma get_session_None: "get_session sid nm = None \<longleftrightarrow> sess nm sid = None"
  by (simp add: sess_get_session)

lemma get_session_SomeD:
  "get_session sid nm = Some j \<Longrightarrow>
     j < length (sessions nm) \<and> sessionID (sessions nm ! j) = sid \<and> sess nm sid = Some (sessions nm ! j)"
  by (auto simp: sess_get_session) (auto simp: get_session_def dest: find_index_Some)

section \<open>The invariant\<close>

definition session_ok :: "session \<Rightarrow> bool" where
  "session_ok se \<longleftrightarrow> \<not> cleared se \<and> active_vlans se \<noteq> [] \<and> distinct (active_vlans se @ removed_vlans se)"

definition sess_inv :: "nmd \<Rightarrow> bool" where
  "sess_inv nm \<longleftrightarrow> distinct (map sessionID (sessions nm)) \<and>
     (\<forall>sid se. sess nm sid = Some se \<longrightarrow> session_ok se \<and>
        (\<forall>vid \<in> owned se. \<exists>v. vl nm vid = Some v \<and> inUse v \<and> v_session v = sid)) \<and>
     (\<forall>vid v. vl nm vid = Some v \<longrightarrow> inUse v \<longrightarrow>
        (\<exists>se. sess nm (v_session v) = Some se \<and> vid \<in> owned se \<and>
           (\<forall>p \<in> set (ports v). getSwitchId p \<in> set (sess_switches se))))"

definition nmd_inv :: "switch_vlan set \<Rightarrow> nmd \<Rightarrow> bool" where
  "nmd_inv L nm \<longleftrightarrow> pool_inv L nm \<and> sess_inv nm \<and> ports_inv nm \<and> NO_FREE_VLANS \<notin> set (ids nm)"

lemma nmd_invD:
  assumes "nmd_inv L nm"
  shows "pool_inv L nm" "sess_inv nm" "ports_inv nm" "NO_FREE_VLANS \<notin> set (ids nm)" "distinct (ids nm)"
    "distinct (map sessionID (sessions nm))"
  using assms by (auto simp: nmd_inv_def sess_inv_def pool_inv_def)

lemma sess_invD:
  assumes "sess_inv nm"
  shows "sess nm sid = Some se \<Longrightarrow> session_ok se"
    and "sess nm sid = Some se \<Longrightarrow> vid \<in> owned se \<Longrightarrow> \<exists>v. vl nm vid = Some v \<and> inUse v \<and> v_session v = sid"
    and "vl nm vid = Some v \<Longrightarrow> inUse v \<Longrightarrow> \<exists>se. sess nm (v_session v) = Some se \<and> vid \<in> owned se \<and>
      (\<forall>p \<in> set (ports v). getSwitchId p \<in> set (sess_switches se))"
  using assms unfolding sess_inv_def by blast+

text \<open>The invariant depends on the two maps only, besides the pool.\<close>

lemma sess_inv_cong:
  "sess_inv nm \<Longrightarrow> sess nm' = sess nm \<Longrightarrow> vl nm' = vl nm \<Longrightarrow>
     distinct (map sessionID (sessions nm')) \<Longrightarrow> sess_inv nm'"
  by (simp add: sess_inv_def)

lemma nmd_inv_net:
  assumes "nmd_inv L nm" and "switches s = switches (nm_net nm)"
  shows "nmd_inv L (nm\<lparr>nm_net := s\<rparr>)"
  using assms
  by (simp add: nmd_inv_def pool_inv_def ids_def ports_inv_def net_ok_def sess_inv_def sess_def vl_def)

lemma owned_other:
  assumes "sess_inv nm" and "sess nm s1 = Some e1" and "sess nm s2 = Some e2"
    and "vid \<in> owned e1" and "vid \<in> owned e2"
  shows "s1 = s2"
proof -
  from sess_invD(2) [OF assms(1,2,4)] sess_invD(2) [OF assms(1,3,5)] show ?thesis by auto
qed

section \<open>The initial state\<close>

lemma word_ids_distinct:
  "n + 2 < 2 ^ 32 \<Longrightarrow> distinct (map (\<lambda>i. 2 + of_nat i :: u32) [0..<n])"
proof -
  assume n: "n + 2 < 2 ^ 32"
  have "i = j" if "i < n" "j < n" "(2 + of_nat i :: u32) = 2 + of_nat j" for i j
  proof -
    from that(3) have "(of_nat i :: u32) = of_nat j" by simp
    moreover have "unat (of_nat i :: u32) = i" "unat (of_nat j :: u32) = j"
      by (rule unat_of_nat_small; use that n in simp)+
    ultimately show ?thesis by metis
  qed
  then show ?thesis by (auto simp: distinct_map inj_on_def)
qed

lemma vlan_set_new_inv:
  assumes "unat n + 3 < 2 ^ 32" and "net_ok s"
  shows "nmd_inv {} (vlan_set_new n s)"
proof -
  define nm where "nm = vlan_set_new n s"
  have i: "ids nm = map (\<lambda>i. 2 + of_nat i) [0..<unat n]" "free_vlans nm = ids nm" "sessions nm = []"
    "nm_net nm = s" by (simp_all add: nm_def vlan_set_new_def ids_def comp_def)
  have v: "\<not> inUse v \<and> ports v = [] \<and> vlanId v \<in> set (ids nm)" if "v \<in> set (vlan_arr nm)" for v
    using that by (auto simp: nm_def vlan_set_new_def ids_def)
  have "(2 + of_nat k :: u32) \<noteq> - 1" if "k < unat n" for k
  proof
    assume "(2 + of_nat k :: u32) = - 1"
    then have "(of_nat (3 + k) :: u32) = 0" by (simp add: algebra_simps eq_neg_iff_add_eq_0)
    then have "unat (of_nat (3 + k) :: u32) = 0" by simp
    with that assms(1) show False by (simp add: unat_of_nat_small del: of_nat_add)
  qed
  then have "NO_FREE_VLANS \<notin> set (ids nm)" by (auto simp: i(1))
  moreover have "distinct (ids nm)" using assms(1) word_ids_distinct [of "unat n"] by (simp add: i(1))
  moreover have "sess nm = (\<lambda>_. None)" by (simp add: sess_def i(3) fun_eq_iff)
  ultimately show ?thesis
    using v assms(2) vl_Some [of nm] unfolding nm_def [symmetric]
    by (fastforce simp: nmd_inv_def pool_inv_def ports_inv_def sess_inv_def i(2-4))
qed

section \<open>Allocation\<close>

lemma alloc_vlan_empty: "free_vlans nm = [] \<Longrightarrow> alloc_vlan sid nm = (NO_FREE_VLANS, nm)"
  by (simp add: alloc_vlan_def)

lemma map_sessionID_set_session [simp]:
  "get_session sid nm = Some j \<Longrightarrow> sessionID se = sid \<Longrightarrow>
     map sessionID (sessions (set_session j se nm)) = map sessionID (sessions nm)"
  by (auto simp: set_session_def map_update dest!: get_session_SomeD intro: list_update_same_conv [THEN iffD2])

definition session_of :: "string \<Rightarrow> nmd \<Rightarrow> session" where
  "session_of sid nm = (case sess nm sid of None \<Rightarrow> session_new sid | Some se \<Rightarrow> se)"

lemma sessionID_of [simp]: "sessionID (session_of sid nm) = sid"
  by (auto simp: session_of_def session_new_def dest: sess_Some split: option.split)

lemma alloc_vlan_eq:
  assumes inv: "pool_inv L nm" "distinct (map sessionID (sessions nm))" and free: "free_vlans nm = vid # rest"
  shows "\<exists>nm'. alloc_vlan sid nm = (vid, nm') \<and> free_vlans nm' = rest \<and> nm_net nm' = nm_net nm \<and>
    vlan_arr nm' = map_vlan vid (\<lambda>v. v\<lparr>inUse := True, v_session := sid\<rparr>) (vlan_arr nm) \<and>
    sess nm' = (sess nm)(sid \<mapsto> session_add_vlan vid (session_of sid nm)) \<and>
    distinct (map sessionID (sessions nm'))"
proof -
  have "vid \<in> set (ids nm)" using inv(1) free by (simp add: pool_inv_def)
  then obtain i where i: "get_vlan vid nm = Some i" using get_vlan_ex by blast
  note vd = pool_inv_vlanD [OF inv(1) i]
  define f where "f = (\<lambda>v :: vlan. v\<lparr>inUse := True, v_session := sid\<rparr>)"
  have nu: "\<not> inUse (vlan_arr nm ! i)" using inv(1) vd(1,2) free by (auto simp: pool_inv_def)
  define nm2 where "nm2 = nm\<lparr>free_vlans := rest, vlan_arr := map_vlan vid f (vlan_arr nm)\<rparr>"
  define nm3 where "nm3 = (if sess nm sid = None then nm2\<lparr>sessions := sessions nm @ [session_new sid]\<rparr> else nm2)"
  have s2: "sess nm2 = sess nm" "sessions nm2 = sessions nm" by (simp_all add: nm2_def sess_def fun_eq_iff)
  have s3: "sess nm3 = (sess nm)(sid \<mapsto> session_of sid nm)"
    using sess_append [of nm2 "session_new sid"] s2
    by (auto simp: nm3_def session_of_def session_new_def fun_eq_iff split: option.split)
  then obtain j where j: "get_session sid nm3 = Some j" by (cases "get_session sid nm3") (auto simp: get_session_None)
  note jd = get_session_SomeD [OF j]
  have sj: "sessions nm3 ! j = session_of sid nm" using jd s3 by simp
  have d3: "distinct (map sessionID (sessions nm3))"
    using inv(2) by (auto simp: nm3_def s2 session_new_def sess_def find_None_iff)
  define nm4 where "nm4 = set_session j (session_add_vlan vid (session_of sid nm)) nm3"
  have id4: "sessionID (session_add_vlan vid (session_of sid nm)) = sid" by (simp add: session_add_vlan_def)
  have gv: "get_vlan vid (nm\<lparr>free_vlans := rest\<rparr>) = Some i" using i by (simp add: get_vlan_def)
  have up: "upd_vlan i (\<lambda>_. f (vlan_arr nm ! i)) (nm\<lparr>free_vlans := rest\<rparr>) = nm2"
    using vd(3) [of f] by (simp add: upd_vlan_def nm2_def)
  have vid2: "vlanId (f (vlan_arr nm ! i)) = vid" using vd(2) by (simp add: f_def)
  have case3: "ensure_session sid nm2 = nm3"
    using s2 by (auto simp: nm3_def ensure_session_def get_session_None split: option.split)
  have siu: "set_in_use True sid (vlan_arr nm ! i) = (True, f (vlan_arr nm ! i))"
    using nu by (simp add: set_in_use_def f_def)
  have "alloc_vlan sid nm = (vid, nm4)"
    unfolding alloc_vlan_def free
    by (simp add: gv siu up case3 vid2 j sj nm4_def Let_def)
  moreover have "sess nm4 = (sess nm)(sid \<mapsto> session_add_vlan vid (session_of sid nm))"
    unfolding nm4_def sess_set_session [OF j id4] s3 by simp
  moreover have "distinct (map sessionID (sessions nm4))"
    using d3 j id4 by (simp add: nm4_def)
  moreover have "free_vlans nm4 = rest" "nm_net nm4 = nm_net nm" "vlan_arr nm4 = map_vlan vid f (vlan_arr nm)"
    by (simp_all add: nm4_def set_session_def nm3_def nm2_def)
  ultimately show ?thesis by (auto simp: f_def)
qed

lemma alloc_vlan_inv:
  assumes inv: "nmd_inv L nm" and free: "free_vlans nm = vid # rest" and al: "alloc_vlan sid nm = (w, nm')"
  shows "w = vid" and "nmd_inv L nm'"
    and "vl nm' = (vl nm)(vid := map_option (\<lambda>v. v\<lparr>inUse := True, v_session := sid\<rparr>) (vl nm vid))"
proof -
  note I = nmd_invD [OF inv]
  from alloc_vlan_eq [OF I(1,6) free, of sid] al have
    w: "w = vid" and r: "free_vlans nm' = rest" "nm_net nm' = nm_net nm"
    "vlan_arr nm' = map_vlan vid (\<lambda>v. v\<lparr>inUse := True, v_session := sid\<rparr>) (vlan_arr nm)"
    "sess nm' = (sess nm)(sid \<mapsto> session_add_vlan vid (session_of sid nm))"
    "distinct (map sessionID (sessions nm'))" by auto
  show "w = vid" by (rule w)
  show vl': "vl nm' = (vl nm)(vid := map_option (\<lambda>v. v\<lparr>inUse := True, v_session := sid\<rparr>) (vl nm vid))"
    by (rule vl_map_vlan [OF r(3)]) simp
  have ids: "ids nm' = ids nm" by (rule ids_map_vlan [OF r(3) [unfolded map_vlan_drop]]) simp
  have vidin: "vid \<in> set (ids nm)" using I(1) free by (simp add: pool_inv_def)
  then obtain v where v: "vl nm vid = Some v" by (cases "vl nm vid") (auto simp: vl_None)
  have nu: "\<not> inUse v" "ports v = []"
    using I(1) vl_Some [OF v] free by (auto simp: pool_inv_def)
  have pool: "pool_inv L nm'"
    unfolding pool_inv_def ids using I(1) free r(1) by (auto simp: pool_inv_def r(3) map_vlan_def)
  have pinv: "ports_inv nm'"
    using I(3) by (auto simp: ports_inv_def r(2,3) map_vlan_def)
  define e where "e = session_of sid nm"
  have se: "sess nm' = (sess nm)(sid \<mapsto> session_add_vlan vid e)" using r(4) by (simp add: e_def)
  have own: "owned (session_add_vlan vid e) = insert vid (owned e)"
    by (auto simp: owned_def session_add_vlan_def)
  have fresh: "vid \<notin> owned x" if "sess nm s = Some x" for s x
    using sess_invD(2) [OF I(2) that, of vid] v nu(1) by auto
  have eold: "sess nm sid = Some e \<or> sess nm sid = None \<and> e = session_new sid"
    by (auto simp: e_def session_of_def split: option.split)
  have ok: "session_ok (session_add_vlan vid e)"
    using eold sess_invD(1) [OF I(2), of sid e] fresh [of sid e]
    by (auto simp: session_ok_def session_add_vlan_def session_new_def owned_def push_new_def)
  have sw: "sess_switches (session_add_vlan vid e) = sess_switches e" by (simp add: session_add_vlan_def)
  have "sess_inv nm'"
    unfolding sess_inv_def
  proof (intro conjI allI impI)
    fix s x assume x: "sess nm' s = Some x"
    show "session_ok x"
      using x ok sess_invD(1) [OF I(2)] by (auto simp: se split: if_splits)
    show "\<forall>w\<in>owned x. \<exists>u. vl nm' w = Some u \<and> inUse u \<and> v_session u = s"
    proof
      fix w assume w: "w \<in> owned x"
      show "\<exists>u. vl nm' w = Some u \<and> inUse u \<and> v_session u = s"
      proof (cases "w = vid")
        case True
        with x w have "s = sid" using fresh by (auto simp: se split: if_splits)
        with True v show ?thesis by (simp add: vl')
      next
        case False
        then have "\<exists>y. sess nm s = Some y \<and> w \<in> owned y"
          using x w own eold by (auto simp: se owned_def session_new_def split: if_splits)
        with False sess_invD(2) [OF I(2)] show ?thesis by (auto simp: vl')
      qed
    qed
  next
    fix w u assume u: "vl nm' w = Some u" "inUse u"
    show "\<exists>x. sess nm' (v_session u) = Some x \<and> w \<in> owned x \<and>
        (\<forall>p\<in>set (ports u). getSwitchId p \<in> set (sess_switches x))"
    proof (cases "w = vid")
      case True
      with u v nu own show ?thesis by (auto simp: vl' se)
    next
      case False
      with u have u0: "vl nm w = Some u" by (simp add: vl')
      from sess_invD(3) [OF I(2) u0 u(2)] obtain x where
        x: "sess nm (v_session u) = Some x" "w \<in> owned x"
          "\<forall>p\<in>set (ports u). getSwitchId p \<in> set (sess_switches x)" by blast
      with eold own sw show ?thesis by (cases "v_session u = sid") (auto simp: se)
    qed
  qed (rule r(5))
  with pool pinv I(4) ids show "nmd_inv L nm'" by (simp add: nmd_inv_def)
qed

section \<open>Clearing a session\<close>

definition owned_by :: "string \<Rightarrow> nmd \<Rightarrow> switch_vlan set" where
  "owned_by sid nm = (case sess nm sid of None \<Rightarrow> {} | Some se \<Rightarrow> owned se)"

text \<open>The session at position \<open>j\<close>, or a variant of it with the same VLANs, is cleared and removed.\<close>

lemma drop_session:
  assumes inv: "nmd_inv L nm" and j: "get_session sid nm = Some j"
    and se: "sessionID se = sid" "owned se = owned (sessions nm ! j)" "\<not> cleared se"
      "sess_switches se = sess_switches (sessions nm ! j)"
  shows "\<exists>rtn se' nm1. session_clear sh se nm = Some (rtn, se', nm1) \<and> cleared se' \<and>
    nmd_inv L (remove_session j (set_session j se' nm1)) \<and>
    sess (remove_session j (set_session j se' nm1)) = (sess nm)(sid := None) \<and>
    vlan_arr (remove_session j (set_session j se' nm1)) =
      map (\<lambda>v. if vlanId v \<in> owned_by sid nm then freed v else v) (vlan_arr nm)"
proof -
  note I = nmd_invD [OF inv]
  note jd = get_session_SomeD [OF j]
  define e where "e = sessions nm ! j"
  have e: "sess nm sid = Some e" using jd by (simp add: e_def)
  have O: "owned_by sid nm = owned e" by (simp add: owned_by_def e)
  have own: "owned se \<subseteq> set (ids nm)"
    using sess_invD(2) [OF I(2) e] vl_None [of nm] se(2) by (force simp: e_def)
  have vs: "inUse v \<and> (\<forall>p \<in> set (ports v). getSwitchId p \<in> set (sess_switches se))"
    if "v \<in> set (vlan_arr nm)" "vlanId v \<in> owned se" for v
  proof -
    have v: "vl nm (vlanId v) = Some v" using that(1) I(5) by (simp add: vl_mem)
    from sess_invD(2) [OF I(2) e, of "vlanId v"] v that(2) se(2)
    have u: "inUse v" "v_session v = sid" by (auto simp: e_def)
    from sess_invD(3) [OF I(2) v u(1)] e u(2) se(4) show ?thesis by (auto simp: u e_def)
  qed
  from session_clear_spec [OF I(1,3) own se(3) vs, of sh] obtain rtn se' nm1 where
    c: "session_clear sh se nm = Some (rtn, se', nm1)" "cleared se'" "sessionID se' = sid"
      "pool_inv L nm1" "ports_inv nm1" "sessions nm1 = sessions nm"
      "vlan_arr nm1 = map (\<lambda>v. if vlanId v \<in> owned se then freed v else v) (vlan_arr nm)"
    using se(1) by auto
  have arr: "vlan_arr nm1 = map (\<lambda>v. if vlanId v \<in> owned e then freed v else v) (vlan_arr nm)"
    using c(7) se(2) by (simp add: e_def)
  have s1: "sess nm1 = sess nm" by (simp add: sess_def c(6) fun_eq_iff)
  have j1: "get_session sid nm1 = Some j" using j by (simp add: get_session_def c(6))
  define nm2 where "nm2 = remove_session j (set_session j se' nm1)"
  have d2: "distinct (map sessionID (sessions (set_session j se' nm1)))"
    using I(6) j1 c(3,6) by simp
  have j2: "get_session sid (set_session j se' nm1) = Some j"
  proof -
    have "find_index (\<lambda>x. sessionID x = sessionID (sessions (set_session j se' nm1) ! j))
        (sessions (set_session j se' nm1)) = Some j"
      by (rule find_index_distinct [OF d2]) (use jd c(6) in \<open>simp add: set_session_def\<close>)
    then show ?thesis using jd c(3,6) by (simp add: get_session_def set_session_def)
  qed
  have s2: "sess nm2 = (sess nm)(sid := None)"
    unfolding nm2_def sess_remove_session [OF d2 j2] sess_set_session [OF j1 c(3)] s1 by simp
  have arr2: "vlan_arr nm2 = vlan_arr nm1" "free_vlans nm2 = free_vlans nm1" "nm_net nm2 = nm_net nm1"
    by (simp_all add: nm2_def remove_session_def set_session_def)
  have v2: "vl nm2 w = map_option (\<lambda>v. if vlanId v \<in> owned e then freed v else v) (vl nm w)" for w
    by (rule vl_map) (simp_all add: arr2 arr)
  have ids: "ids nm2 = ids nm" by (rule ids_map_vlan [OF trans [OF arr2(1) arr]]) simp
  have dd: "distinct (map sessionID (sessions nm2))"
    using d2 by (simp add: nm2_def remove_session_def map_remove_at distinct_remove_at)
  have "sess_inv nm2"
    unfolding sess_inv_def
  proof (intro conjI allI impI)
    fix s x assume x: "sess nm2 s = Some x"
    then have x0: "sess nm s = Some x" "s \<noteq> sid" by (auto simp: s2 split: if_splits)
    show "session_ok x" by (rule sess_invD(1) [OF I(2) x0(1)])
    show "\<forall>w\<in>owned x. \<exists>u. vl nm2 w = Some u \<and> inUse u \<and> v_session u = s"
    proof
      fix w assume w: "w \<in> owned x"
      with owned_other [OF I(2) x0(1) e w] x0(2) have "w \<notin> owned e" by blast
      with sess_invD(2) [OF I(2) x0(1) w] show "\<exists>u. vl nm2 w = Some u \<and> inUse u \<and> v_session u = s"
        by (auto simp: v2 dest: vl_Some)
    qed
  next
    fix w u assume u: "vl nm2 w = Some u" "inUse u"
    then obtain u0 where u0: "vl nm w = Some u0" "u = (if vlanId u0 \<in> owned e then freed u0 else u0)"
      by (auto simp: v2)
    with u(2) have uu: "u = u0" "w \<notin> owned e" by (auto simp: freed_def dest: vl_Some split: if_splits)
    from sess_invD(3) [OF I(2) u0(1)] u(2) uu(1) obtain x where
      x: "sess nm (v_session u) = Some x" "w \<in> owned x"
        "\<forall>p\<in>set (ports u). getSwitchId p \<in> set (sess_switches x)" by blast
    with uu(2) e have "v_session u \<noteq> sid" by auto
    with x show "\<exists>x. sess nm2 (v_session u) = Some x \<and> w \<in> owned x \<and>
        (\<forall>p\<in>set (ports u). getSwitchId p \<in> set (sess_switches x))"
      by (simp add: s2)
  qed (rule dd)
  moreover have "pool_inv L nm2" using c(4) by (simp add: pool_inv_def ids_def arr2)
  moreover have "ports_inv nm2" using c(5) by (simp add: ports_inv_def arr2)
  ultimately have "nmd_inv L nm2" using I(4) ids by (simp add: nmd_inv_def)
  with c(1,2) s2 arr arr2 O show ?thesis by (auto simp: nm2_def)
qed

lemma vs_clear_session_spec:
  assumes inv: "nmd_inv L nm"
  shows "\<exists>rtn nm'. vs_clear_session sh sid nm = Some (rtn, nm') \<and> nmd_inv L nm' \<and>
    sess nm' = (sess nm)(sid := None) \<and>
    vlan_arr nm' = map (\<lambda>v. if vlanId v \<in> owned_by sid nm then freed v else v) (vlan_arr nm)"
proof (cases "get_session sid nm")
  case None
  then have "sess nm sid = None" by (simp add: get_session_None)
  with None inv show ?thesis
    by (simp add: vs_clear_session_def owned_by_def fun_upd_idem cong: if_cong) blast
next
  case (Some j)
  note jd = get_session_SomeD [OF Some]
  have "\<not> cleared (sessions nm ! j)"
    using sess_invD(1) [OF nmd_invD(2) [OF inv]] jd by (auto simp: session_ok_def)
  from drop_session [OF inv Some _ refl this refl, of sh] jd obtain rtn se' nm1 where
    "session_clear sh (sessions nm ! j) nm = Some (rtn, se', nm1)" "cleared se'"
    "nmd_inv L (remove_session j (set_session j se' nm1))"
    "sess (remove_session j (set_session j se' nm1)) = (sess nm)(sid := None)"
    "vlan_arr (remove_session j (set_session j se' nm1)) =
      map (\<lambda>v. if vlanId v \<in> owned_by sid nm then freed v else v) (vlan_arr nm)" by blast
  with Some show ?thesis by (simp add: vs_clear_session_def)
qed

section \<open>Deleting a VLAN\<close>

definition retire :: "switch_vlan \<Rightarrow> session \<Rightarrow> session" where
  "retire vid se = (if vid \<in> set (active_vlans se)
     then se\<lparr>active_vlans := removeAll vid (active_vlans se), removed_vlans := removed_vlans se @ [vid]\<rparr>
     else se)"

lemma retire_simps [simp]:
  "sessionID (retire vid se) = sessionID se" "cleared (retire vid se) = cleared se"
  "sess_switches (retire vid se) = sess_switches se" "owned (retire vid se) = owned se"
  by (auto simp: retire_def owned_def)

lemma vs_delete_vlan_spec:
  assumes inv: "nmd_inv L nm" and se: "sess nm sid = Some se"
  shows "\<exists>rtn nm'. vs_delete_vlan sh vid sid nm = Some (rtn, nm') \<and> nmd_inv L nm' \<and>
    (if set (active_vlans se) \<subseteq> {vid}
     then sess nm' = (sess nm)(sid := None) \<and>
       vlan_arr nm' = map (\<lambda>v. if vlanId v \<in> owned se then freed v else v) (vlan_arr nm)
     else rtn \<and> sess nm' = (sess nm)(sid \<mapsto> retire vid se) \<and> vlan_arr nm' = vlan_arr nm \<and>
       free_vlans nm' = free_vlans nm)"
proof -
  note I = nmd_invD [OF inv]
  from se obtain j where j: "get_session sid nm = Some j" by (auto simp: sess_get_session)
  note jd = get_session_SomeD [OF j]
  have ej: "sessions nm ! j = se" using jd se by simp
  have ok: "session_ok se" by (rule sess_invD(1) [OF I(2) se])
  have rv: "remove_vlan sh vid se nm = (if active_vlans (retire vid se) = []
      then session_clear sh (retire vid se) nm else Some (True, retire vid se, nm))"
    by (simp add: remove_vlan_def retire_def Let_def)
  have last: "active_vlans (retire vid se) = [] \<longleftrightarrow> set (active_vlans se) \<subseteq> {vid}"
    using ok by (auto simp: retire_def session_ok_def removeAll_filter_not_eq filter_empty_conv
        dest!: subset_singletonD)
  show ?thesis
  proof (cases "active_vlans (retire vid se) = []")
    case True
    from drop_session [OF inv j, of "retire vid se" sh] ok jd ej obtain rtn se' nm1 where
      "session_clear sh (retire vid se) nm = Some (rtn, se', nm1)" "cleared se'"
      "nmd_inv L (remove_session j (set_session j se' nm1))"
      "sess (remove_session j (set_session j se' nm1)) = (sess nm)(sid := None)"
      "vlan_arr (remove_session j (set_session j se' nm1)) =
        map (\<lambda>v. if vlanId v \<in> owned_by sid nm then freed v else v) (vlan_arr nm)"
      by (auto simp: session_ok_def)
    with True last j ej rv se show ?thesis by (simp add: vs_delete_vlan_def owned_by_def)
  next
    case False
    define nm' where "nm' = set_session j (retire vid se) nm"
    have id: "sessionID (retire vid se) = sid" using jd ej by simp
    have s': "sess nm' = (sess nm)(sid \<mapsto> retire vid se)"
      unfolding nm'_def by (rule sess_set_session [OF j id])
    have rok: "session_ok (retire vid se)"
      using ok False by (auto simp: session_ok_def retire_def distinct_removeAll)
    have vl': "vl nm' = vl nm" by (simp add: vl_def nm'_def set_session_def fun_eq_iff)
    have "sess_inv nm'"
      unfolding sess_inv_def
    proof (intro conjI allI impI)
      show "distinct (map sessionID (sessions nm'))" using I(6) j id by (simp add: nm'_def)
    next
      fix s x assume "sess nm' s = Some x"
      then show "session_ok x" "\<forall>w\<in>owned x. \<exists>u. vl nm' w = Some u \<and> inUse u \<and> v_session u = s"
        using rok sess_invD(1,2) [OF I(2)] se by (auto simp: s' vl' split: if_splits)
    next
      fix w u assume "vl nm' w = Some u" "inUse u"
      with sess_invD(3) [OF I(2), of w u] se
      show "\<exists>x. sess nm' (v_session u) = Some x \<and> w \<in> owned x \<and>
          (\<forall>p\<in>set (ports u). getSwitchId p \<in> set (sess_switches x))"
        by (cases "v_session u = sid") (auto simp: s' vl')
    qed
    moreover have "pool_inv L nm'" "ports_inv nm'" "ids nm' = ids nm"
      using I(1,3) by (simp_all add: nm'_def set_session_def pool_inv_def ports_inv_def ids_def)
    ultimately have "nmd_inv L nm'" using I(4) by (simp add: nmd_inv_def)
    moreover have "vs_delete_vlan sh vid sid nm = Some (True, nm')"
      using j ej rv False ok by (simp add: vs_delete_vlan_def nm'_def session_ok_def)
    ultimately show ?thesis
      using False last s' by (auto simp: nm'_def set_session_def)
  qed
qed

lemma vs_delete_vlan_unknown: "sess nm sid = None \<Longrightarrow> vs_delete_vlan sh vid sid nm = Some (True, nm)"
  by (simp add: vs_delete_vlan_def get_session_None flip: get_session_None)

section \<open>Adding a port\<close>

definition with_port :: "switch_port \<Rightarrow> vlan \<Rightarrow> vlan" where
  "with_port p v = v\<lparr>ports := ports v @ [switch_port_copy p]\<rparr>"

definition with_switch :: "string \<Rightarrow> session \<Rightarrow> session" where
  "with_switch sw se = se\<lparr>sess_switches := push_new sw (sess_switches se)\<rparr>"

lemma vs_add_to_vlan_spec:
  assumes inv: "nmd_inv L nm" and p: "port_number_ok p" and vid: "vl nm vid = Some v"
  shows "if inUse v \<and> v_session v = sid
    then \<exists>nm' se. vs_add_to_vlan vid p sid nm = Some (True, nm') \<and> nmd_inv L nm' \<and>
      sess nm sid = Some se \<and> sess nm' = (sess nm)(sid \<mapsto> with_switch (getSwitchId p) se) \<and>
      vl nm' = (vl nm)(vid \<mapsto> with_port p v) \<and> free_vlans nm' = free_vlans nm
    else vs_add_to_vlan vid p sid nm = Some (False, nm)"
proof -
  note I = nmd_invD [OF inv]
  from vid obtain i where i: "get_vlan vid nm = Some i" "vlan_arr nm ! i = v" by (auto simp: vl_get_vlan)
  note vd = pool_inv_vlanD [OF I(1) i(1)]
  show ?thesis
  proof (cases "inUse v \<and> v_session v = sid")
    case False
    with i show ?thesis by (auto simp: vs_add_to_vlan_def split: option.split)
  next
    case True
    from sess_invD(3) [OF I(2) vid] True obtain se where
      se: "sess nm sid = Some se" "vid \<in> owned se" by auto
    then obtain j where j: "get_session sid nm = Some j" by (auto simp: sess_get_session)
    note jd = get_session_SomeD [OF j]
    have ej: "sessions nm ! j = se" using jd se by simp
    have ok: "session_ok se" by (rule sess_invD(1) [OF I(2) se(1)])
    define se' where "se' = with_switch (getSwitchId p) se"
    have id: "sessionID se' = sid" using jd ej by (simp add: se'_def with_switch_def)
    have own: "owned se' = owned se" "set (sess_switches se') = insert (getSwitchId p) (set (sess_switches se))"
      by (simp_all add: se'_def with_switch_def owned_def)
    have ok': "session_ok se'" using ok by (simp add: se'_def with_switch_def session_ok_def)
    define nm1 where "nm1 = nm\<lparr>vlan_arr := map_vlan vid (with_port p) (vlan_arr nm)\<rparr>"
    have up: "upd_vlan i (\<lambda>v. snd (add_port p v)) nm = nm1"
      using vd(3) [of "with_port p"] i(2) by (simp add: upd_vlan_def nm1_def add_port_def with_port_def)
    define nm2 where "nm2 = set_session j se' nm1"
    have j1: "get_session sid nm1 = Some j" using j by (simp add: get_session_def nm1_def)
    have s2: "sess nm2 = (sess nm)(sid \<mapsto> se')"
      unfolding nm2_def sess_set_session [OF j1 id] by (simp add: sess_def nm1_def fun_eq_iff)
    have arr2: "vlan_arr nm2 = map_vlan vid (with_port p) (vlan_arr nm)" "free_vlans nm2 = free_vlans nm"
      "nm_net nm2 = nm_net nm" by (simp_all add: nm2_def set_session_def nm1_def)
    have v2: "vl nm2 = (vl nm)(vid \<mapsto> with_port p v)"
      using vl_map_vlan [OF arr2(1)] vid by (simp add: with_port_def)
    have ids: "ids nm2 = ids nm"
      by (rule ids_map_vlan [OF arr2(1) [unfolded map_vlan_drop]]) (simp add: with_port_def)
    have "sess_inv nm2"
      unfolding sess_inv_def
    proof (intro conjI allI impI)
      show "distinct (map sessionID (sessions nm2))"
        using I(6) j1 id unfolding nm2_def by (simp add: nm1_def)
    next
      fix s x assume x: "sess nm2 s = Some x"
      then obtain x0 where x0: "sess nm s = Some x0" "owned x = owned x0"
        using se own by (auto simp: s2 split: if_splits)
      show "session_ok x"
        using x ok' sess_invD(1) [OF I(2)] by (auto simp: s2 split: if_splits)
      show "\<forall>w\<in>owned x. \<exists>u. vl nm2 w = Some u \<and> inUse u \<and> v_session u = s"
      proof
        fix w assume "w \<in> owned x"
        with x0 have "w \<in> owned x0" by simp
        from sess_invD(2) [OF I(2) x0(1) this] vid
        show "\<exists>u. vl nm2 w = Some u \<and> inUse u \<and> v_session u = s"
          by (cases "w = vid") (auto simp: v2 with_port_def)
      qed
    next
      fix w u assume u: "vl nm2 w = Some u" "inUse u"
      show "\<exists>x. sess nm2 (v_session u) = Some x \<and> w \<in> owned x \<and>
          (\<forall>p\<in>set (ports u). getSwitchId p \<in> set (sess_switches x))"
      proof (cases "w = vid")
        case w: True
        with u v2 have "u = with_port p v" by simp
        with sess_invD(3) [OF I(2) vid] True se own w show ?thesis
          by (auto simp: s2 with_port_def)
      next
        case False
        with u have "vl nm w = Some u" by (simp add: v2)
        from sess_invD(3) [OF I(2) this u(2)] own se show ?thesis
          by (cases "v_session u = sid") (auto simp: s2)
      qed
    qed
    moreover have "pool_inv L nm2"
    proof (rule pool_inv_step(1) [OF I(1) arr2(1), where e = False])
      fix u assume "u \<in> set (vlan_arr nm)" "vlanId u = vid"
      then have "u = v" using vd(4) i(2) by simp
      with True show "vlanId (with_port p u) = vid \<and>
          (if False then \<not> inUse (with_port p u) else inUse (with_port p u) = inUse u) \<and>
          (\<not> inUse (with_port p u) \<longrightarrow> ports (with_port p u) = [])"
        using vd(2) i(2) by (simp add: with_port_def)
    qed (use arr2(2) vid vl_None [of nm vid] in auto)
    moreover have "ports_inv nm2"
      using I(3) p by (auto simp: ports_inv_def arr2 map_vlan_def with_port_def port_number_ok_def switch_port_copy_def)
    ultimately have "nmd_inv L nm2" using I(4) ids by (simp add: nmd_inv_def)
    moreover have "vs_add_to_vlan vid p sid nm = Some (True, nm2)"
    proof -
      have "sessions nm1 ! j = se" using ej by (simp add: nm1_def)
      moreover have "snd (add_switch_id (getSwitchId p) se) = se'"
        using ok by (simp add: add_switch_id_def se'_def with_switch_def session_ok_def)
      ultimately show ?thesis using j i True by (simp add: vs_add_to_vlan_def up nm2_def)
    qed
    ultimately show ?thesis using True se(1) s2 v2 arr2(2) by (auto simp: se'_def)
  qed
qed

text \<open>An identifier that no VLAN has makes the code follow a null pointer, once the session exists.\<close>

lemma vs_add_to_vlan_null:
  "vid \<notin> set (ids nm) \<Longrightarrow> vs_add_to_vlan vid p sid nm = (if sess nm sid = None then Some (False, nm) else None)"
  by (cases "get_session sid nm")
    (auto simp: vs_add_to_vlan_def sess_get_session vl_get_vlan simp flip: vl_None)

section \<open>Configuring the switches\<close>

lemma pvid_cmds_defined:
  "list_all port_number_ok ps \<Longrightarrow>
     \<exists>ok cmd' s'. pvid_cmds sh ps i v cmd s = Some (ok, cmd', s') \<and> switches s' = switches s"
proof (induction ps arbitrary: cmd s)
  case (Cons p ps)
  then have p: "list_all port_number_ok [p]" "list_all port_number_ok ps" by simp_all
  from pvids_defined [OF p(1), of sh "getSwitchId p" v cmd s] obtain ok cmd1 s1 where
    "set_switch_pvid sh p (getSwitchId p) v cmd s = Some (ok, cmd1, s1)" "switches s1 = switches s"
    by (auto simp: set_switch_pvid_def)
  with Cons.IH [OF p(2), of cmd1 s1] Cons.IH [OF p(2), of cmd s] show ?case
    by (auto simp: between_command_def)
qed auto

lemma add_ports_cmds_defined:
  "ports_inv nm \<Longrightarrow> set vids \<subseteq> set (ids nm) \<Longrightarrow>
     \<exists>cmd' s'. add_ports_cmds sh sw vids cmd nm = Some (cmd', nm\<lparr>nm_net := s'\<rparr>) \<and>
       switches s' = switches (nm_net nm)"
proof (induction vids arbitrary: cmd nm)
  case Nil
  then show ?case by (auto intro: exI [of _ "nm_net nm"])
next
  case (Cons vid vids)
  then obtain i where i: "get_vlan vid nm = Some i" using get_vlan_ex [of vid nm] by auto
  then have "vlan_arr nm ! i \<in> set (vlan_arr nm)" by (auto simp: get_vlan_def dest: find_index_Some)
  with Cons.prems(1) have ps: "list_all port_number_ok (get_switch_ports sw (vlan_arr nm ! i))"
    by (auto simp: ports_inv_def get_switch_ports_def list_all_iff)
  have nk: "net_ok (nm_net nm)" using Cons.prems(1) by (simp add: ports_inv_def)
  from membership_defined [OF nk ps, of sh sw "vlanId (vlan_arr nm ! i)" cmd] obtain ok1 cmd1 s1 where
    m: "set_switch_vlan_membership sh (get_switch_ports sw (vlan_arr nm ! i)) sw (vlanId (vlan_arr nm ! i)) cmd
      (nm_net nm) = Some (ok1, cmd1, s1)" "switches s1 = switches (nm_net nm)" by blast
  from pvid_cmds_defined [OF ps, of sh sw "vlanId (vlan_arr nm ! i)" cmd1 s1] obtain ok2 cmd2 s2 where
    p: "pvid_cmds sh (get_switch_ports sw (vlan_arr nm ! i)) sw (vlanId (vlan_arr nm ! i)) cmd1 s1 =
      Some (ok2, cmd2, s2)" "switches s2 = switches s1" by blast
  have "ports_inv (nm\<lparr>nm_net := s2\<rparr>)" "set vids \<subseteq> set (ids (nm\<lparr>nm_net := s2\<rparr>))"
    using Cons.prems m(2) p(2) by (simp_all add: ports_inv_def net_ok_def ids_def)
  from Cons.IH [OF this, of cmd2] m p i show ?case
    by (auto simp: get_add_ports_cmd_def between_command_def)
qed

lemma create_on_switches_defined:
  "ports_inv nm \<Longrightarrow> set vids \<subseteq> set (ids nm) \<Longrightarrow>
     \<exists>sts s'. create_on_switches sh sws vids nm = Some (sts, nm\<lparr>nm_net := s'\<rparr>) \<and>
       set sts \<subseteq> {CMD_FAILED, CMD_FINE} \<and> switches s' = switches (nm_net nm)"
proof (induction sws arbitrary: nm)
  case Nil
  then show ?case by (auto intro: exI [of _ "nm_net nm"])
next
  case (Cons sw sws)
  from add_ports_cmds_defined [OF Cons.prems, of sh sw "start_command sw []"] obtain cmd s1 where
    a: "add_ports_cmds sh sw vids (start_command sw []) nm = Some (cmd, nm\<lparr>nm_net := s1\<rparr>)"
      "switches s1 = switches (nm_net nm)" by blast
  obtain st s2 where st: "send_state sh sw cmd s1 = (st, s2)" by force
  then have s2: "switches s2 = switches s1" "st \<in> {CMD_FAILED, CMD_FINE}"
    using send_state_switches [of sh sw cmd s1] by (auto simp: send_state_def split: prod.splits if_splits)
  have "ports_inv (nm\<lparr>nm_net := s2\<rparr>)" "set vids \<subseteq> set (ids (nm\<lparr>nm_net := s2\<rparr>))"
    using Cons.prems a(2) s2(1) by (simp_all add: ports_inv_def net_ok_def ids_def)
  from Cons.IH [OF this] a st s2 show ?case by auto
qed

lemma vs_create_session_vlans_spec:
  assumes inv: "nmd_inv L nm"
  shows "\<exists>rtn s'. vs_create_session_vlans sh sid nm = Some (rtn, nm\<lparr>nm_net := s'\<rparr>) \<and>
    nmd_inv L (nm\<lparr>nm_net := s'\<rparr>) \<and> (rtn \<longrightarrow> sess nm sid \<noteq> None)"
proof (cases "get_session sid nm")
  case None
  moreover have "nm\<lparr>nm_net := nm_net nm\<rparr> = nm" by (cases nm) simp
  ultimately show ?thesis
    using inv by (intro exI [of _ False] exI [of _ "nm_net nm"]) (simp add: vs_create_session_vlans_def)
next
  case (Some j)
  note I = nmd_invD [OF inv]
  note jd = get_session_SomeD [OF Some]
  define se where "se = sessions nm ! j"
  have se: "sess nm sid = Some se" using jd by (simp add: se_def)
  have "set (active_vlans se) \<subseteq> set (ids nm)"
    using sess_invD(2) [OF I(2) se] vl_None [of nm] by (force simp: owned_def)
  note sub = this
  then have pv: "print_vlans (active_vlans se) nm = Some ()"
    using get_vlan_ex by (auto simp: print_vlans_def list_all_iff)
  from create_on_switches_defined [OF I(3) sub, of sh "sess_switches se"] obtain sts s' where
    c: "create_on_switches sh (sess_switches se) (active_vlans se) nm = Some (sts, nm\<lparr>nm_net := s'\<rparr>)"
      "set sts \<subseteq> {CMD_FAILED, CMD_FINE}" "switches s' = switches (nm_net nm)" by blast
  have "CMD_SENT \<notin> set sts" using c(2) by auto
  moreover have "\<not> cleared se" using sess_invD(1) [OF I(2) se] by (simp add: session_ok_def)
  ultimately show ?thesis
    using Some c nmd_inv_net [OF inv c(3)] se
    by (auto simp: vs_create_session_vlans_def create_vlans_def poll_pass_done pv simp flip: se_def)
qed

end
