(* ===== verification/Dispatcher.thy ===== *)
theory Dispatcher
  imports Message
begin

text \<open>
  \<^verbatim>\<open>shared/dispatcher.cc\<close> and \<^verbatim>\<open>shared/dispatcher.h\<close>: the tables that map an operation to
  a message class, and the map from rendezvous markers to the requests that wait for an answer.

  A class of the tables is what \<^verbatim>\<open>indirect_constructor<T>\<close> and the virtual \<^verbatim>\<open>parse\<close> do on
  the objects of type \<open>'o\<close>. The request objects that pointers lead to are kept in \<open>requests\<close>;
  an address without an object is freed memory, and using it is \<open>None\<close>.
\<close>

section \<open>State\<close>

record 'o nccp_class =
  construct :: "u8 list \<Rightarrow> 'o option"
  vparse :: "'o \<Rightarrow> 'o option"

datatype 'o object = Obj 'o | Per message

record 'o dispatcher =
  req_map :: "u8 \<Rightarrow> 'o nccp_class option"
  resp_map :: "u8 \<Rightarrow> 'o nccp_class option"
  rend_map :: "rend_key \<Rightarrow> addr option"
  next_seq :: "u8 \<Rightarrow> u32"
  requests :: "addr \<Rightarrow> request option"

definition dispatcher_new :: "(addr \<Rightarrow> request option) \<Rightarrow> 'o dispatcher" where
  "dispatcher_new heap = \<lparr>req_map = (\<lambda>_. None), resp_map = (\<lambda>_. None), rend_map = (\<lambda>_. None),
     next_seq = (\<lambda>_. 1), requests = heap\<rparr>"

definition register_req :: "'o nccp_class \<Rightarrow> u8 \<Rightarrow> 'o dispatcher \<Rightarrow> bool \<times> 'o dispatcher" where
  "register_req T op d =
     (if req_map d op \<noteq> None then (False, d) else (True, d\<lparr>req_map := (req_map d)(op \<mapsto> T)\<rparr>))"

definition register_resp :: "'o nccp_class \<Rightarrow> u8 \<Rightarrow> 'o dispatcher \<Rightarrow> bool \<times> 'o dispatcher" where
  "register_resp T op d =
     (if resp_map d op \<noteq> None then (False, d) else (True, d\<lparr>resp_map := (resp_map d)(op \<mapsto> T)\<rparr>))"

text \<open>
  The type and the operation are read from the first four bytes; a shorter message makes the code
  read what it never wrote. \<open>Some None\<close> is the \<^verbatim>\<open>NULL\<close> it returns. \<open>mem\<close> is the memory a new
  \<^verbatim>\<open>periodic\<close> is built in.
\<close>

definition create_message ::
    "(nat \<Rightarrow> u8) \<Rightarrow> (nat \<Rightarrow> u8) \<Rightarrow> message \<Rightarrow> 'o dispatcher \<Rightarrow> u8 list \<Rightarrow> 'o object option option" where
  "create_message junk junk' mem d mbuf =
     (if length mbuf < 4 then None
      else
        (let type = un_be16 (take 2 mbuf); op = mbuf ! 3 in
         if type = NCCP_MessageRequest then
           (case req_map d op of
              None \<Rightarrow> Some None
            | Some T \<Rightarrow> do {
                rtn \<leftarrow> construct T mbuf;
                rtn \<leftarrow> vparse T rtn;
                Some (Some (Obj rtn)) })
         else if type = NCCP_MessageResponse then
           (case resp_map d op of
              None \<Rightarrow> Some None
            | Some T \<Rightarrow> do {
                rtn \<leftarrow> construct T mbuf;
                rtn \<leftarrow> vparse T rtn;
                Some (Some (Obj rtn)) })
         else if type = NCCP_MessagePeriodic then do {
           rtn \<leftarrow> message_of_bytes junk junk' mbuf mem;
           rtn \<leftarrow> periodic_parse rtn;
           Some (Some (Per rtn)) }
         else Some None))"

section \<open>Rendezvous\<close>

definition register_rendezvous :: "addr option \<Rightarrow> 'o dispatcher \<Rightarrow> 'o dispatcher option" where
  "register_rendezvous req d =
     (case req of
        None \<Rightarrow> Some d
      | Some a \<Rightarrow> do {
          r \<leftarrow> requests d a;
          let i = msg_op r;
          let seq = next_seq d i;
          let d = d\<lparr>next_seq := (next_seq d)(i := seq + 1)\<rparr>;
          let rend = rendezvous_of (ucast i) seq;
          let d = d\<lparr>requests := (requests d)(a \<mapsto> r\<lparr>msg_rend := rendezvous_copy rend\<rparr>)\<rparr>;
          Some (d\<lparr>rend_map := (rend_map d)(key_of rend \<mapsto> a)\<rparr>)
        })"

definition register_periodic_rendezvous :: "addr option \<Rightarrow> 'o dispatcher \<Rightarrow> 'o dispatcher option" where
  "register_periodic_rendezvous req d =
     (case req of
        None \<Rightarrow> Some d
      | Some a \<Rightarrow> do {
          r \<leftarrow> requests d a;
          let i = msg_op r;
          let seq = next_seq d i;
          let d = d\<lparr>next_seq := (next_seq d)(i := seq + 1)\<rparr>;
          let return_rend = rendezvous_of (ucast i) seq;
          let r = prepare_for_periodic (r\<lparr>msg_return_rend := rendezvous_copy return_rend\<rparr>);
          let d = d\<lparr>requests := (requests d)(a \<mapsto> r)\<rparr>;
          Some (d\<lparr>rend_map := (rend_map d)(key_of return_rend \<mapsto> a)\<rparr>)
        })"

text \<open>The value says whether the caller deletes the message.\<close>

definition call_rendezvous_resp ::
    "addr \<Rightarrow> 'a response_scheme \<Rightarrow> 'o dispatcher \<Rightarrow> (bool \<times> 'o dispatcher) option" where
  "call_rendezvous_resp resp_addr resp d =
     (case rend_map d (key_of (msg_rend resp)) of
        None \<Rightarrow> Some (True, d)
      | Some a \<Rightarrow> do {
          r \<leftarrow> requests d a;
          let (del, r) = request_rendezvous_resp resp_addr r;
          Some (del, d\<lparr>requests := (requests d)(a \<mapsto> r)\<rparr>)
        })"

definition call_rendezvous_periodic ::
    "'a message_scheme \<Rightarrow> 'o dispatcher \<Rightarrow> (bool \<times> 'o dispatcher) option" where
  "call_rendezvous_periodic per d =
     (case rend_map d (key_of (msg_rend per)) of
        None \<Rightarrow> Some (True, d)
      | Some a \<Rightarrow> do {
          r \<leftarrow> requests d a;
          let (del, r) = request_rendezvous_periodic (msg_op per) r;
          Some (del, d\<lparr>requests := (requests d)(a \<mapsto> r)\<rparr>)
        })"

definition clear_rendezvous :: "addr \<Rightarrow> 'o dispatcher \<Rightarrow> 'o dispatcher option" where
  "clear_rendezvous a d = do {
     r \<leftarrow> requests d a;
     let d = d\<lparr>rend_map := (rend_map d)(key_of (msg_rend r) := None)\<rparr>;
     Some (d\<lparr>requests := (requests d)(a \<mapsto> r\<lparr>msg_rend := rendezvous_copy rendezvous_new\<rparr>)\<rparr>)
   }"

definition clear_periodic_rendezvous :: "addr \<Rightarrow> 'o dispatcher \<Rightarrow> 'o dispatcher option" where
  "clear_periodic_rendezvous a d = do {
     r \<leftarrow> requests d a;
     let d = d\<lparr>rend_map := (rend_map d)(key_of (msg_return_rend r) := None)\<rparr>;
     Some (d\<lparr>requests := (requests d)(a \<mapsto> r\<lparr>msg_return_rend := rendezvous_copy rendezvous_new\<rparr>)\<rparr>)
   }"

section \<open>Messages reach an object of their class\<close>

text \<open>
  What a class also promises: its encoding starts with the type, the version and the operation.
  A class of the table built from \<open>wr\<close>, \<open>rd\<close> and the constructor from bytes then gives back,
  for the bytes of a message, an object with the sender's fields.
\<close>

definition class_of ::
    "(u8 list \<Rightarrow> 'm \<Rightarrow> 'm option) \<Rightarrow> ('m \<Rightarrow> 'm option) \<Rightarrow> 'm \<Rightarrow> ('m \<Rightarrow> 'o) \<Rightarrow> ('o \<Rightarrow> 'm) \<Rightarrow> 'o nccp_class" where
  "class_of ctor prs mem into out =
     \<lparr>construct = (\<lambda>mbuf. map_option into (ctor mbuf mem)),
      vparse = (\<lambda>x. map_option into (prs (out x)))\<rparr>"

locale typed_message =
  wire_message enc view wr rd ok fresh
  for enc :: "'a message_scheme \<Rightarrow> u8 list"
    and view :: "'a message_scheme \<Rightarrow> 'v"
    and wr :: "'a message_scheme \<Rightarrow> 'a message_scheme option"
    and rd :: "'a message_scheme \<Rightarrow> 'a message_scheme option"
    and ok :: "'a message_scheme \<Rightarrow> bool"
    and fresh :: "'a message_scheme \<Rightarrow> bool" +
  fixes ctor :: "(nat \<Rightarrow> u8) \<Rightarrow> (nat \<Rightarrow> u8) \<Rightarrow> u8 list \<Rightarrow> 'a message_scheme \<Rightarrow> 'a message_scheme option"
  assumes enc_header: "\<exists>tl. enc m = be16 (msg_type m) @ [msg_version m, msg_op m] @ tl"
    and ctor_bytes: "message_of_bytes junk junk' mbuf r0 = Some b \<Longrightarrow>
      \<exists>r. ctor junk junk' mbuf r0 = Some r \<and> msg_buf r = msg_buf b \<and> (fresh b \<longrightarrow> fresh r)"
begin

lemma header: "4 \<le> length (enc m)" "un_be16 (take 2 (enc m)) = msg_type m" "enc m ! 3 = msg_op m"
proof -
  obtain tl where "enc m = be16 (msg_type m) @ [msg_version m, msg_op m] @ tl"
    using enc_header by blast
  then show "4 \<le> length (enc m)" "un_be16 (take 2 (enc m)) = msg_type m" "enc m ! 3 = msg_op m"
    by (simp_all add: nth_append)
qed

lemma rebuilt:
  assumes "wr (m\<lparr>msg_buf := buf_reset (msg_buf m)\<rparr>) = Some m'" and "ok m" and "fresh mem"
  shows "\<exists>r r'. ctor junk junk' (enc m) mem = Some r \<and> rd r = Some r' \<and> view r' = view m"
proof -
  from message_of_bytes_holds [OF write_sent(3) [OF assms(1)]] obtain b
    where b: "message_of_bytes junk junk' (enc m) mem = Some b" "holds (msg_buf b) (enc m)" by blast
  from ctor_bytes [OF b(1)] fresh_bytes [OF assms(3) b(1)] obtain r
    where r: "ctor junk junk' (enc m) mem = Some r" "msg_buf r = msg_buf b" "fresh r" by blast
  from parse_enc [OF assms(2) r(3)] r b show ?thesis by auto
qed

lemma created:
  assumes "wr (m\<lparr>msg_buf := buf_reset (msg_buf m)\<rparr>) = Some m'" and "ok m" and "fresh mem"
    and "out \<circ> into = id"
    and "msg_type m = NCCP_MessageRequest \<and> req_map d (msg_op m) = Some T \<or>
      msg_type m = NCCP_MessageResponse \<and> resp_map d (msg_op m) = Some T"
    and "T = class_of (ctor junk junk') rd mem into out"
  shows "\<exists>r. create_message pj pj' pmem d (sent_bytes (msg_buf m')) = Some (Some (Obj (into r))) \<and>
    view r = view m"
proof -
  have [simp]: "out (into x) = x" for x
    using assms(4) by (simp add: fun_eq_iff)
  from rebuilt [OF assms(1-3)] obtain r r' where
    "ctor junk junk' (enc m) mem = Some r" "rd r = Some r'" "view r' = view m" by blast
  with assms(5,6) header [of m] write_sent(1) [OF assms(1)] show ?thesis
    by (auto simp: create_message_def class_of_def)
qed

end

lemma request_of_bytes_bytes:
  "message_of_bytes junk junk' mbuf r0 = Some b \<Longrightarrow>
     \<exists>r. request_of_bytes junk junk' mbuf r0 = Some r \<and> msg_buf r = msg_buf b"
  by (simp add: request_of_bytes_def)

lemma response_of_bytes_bytes:
  "message_of_bytes junk junk' mbuf r0 = Some b \<Longrightarrow>
     \<exists>r. response_of_bytes junk junk' mbuf r0 = Some r \<and> msg_buf r = msg_buf b"
  by (simp add: response_of_bytes_def)

lemma enc_request_header:
  "\<exists>tl. enc_request m = be16 (msg_type m) @ [msg_version m, msg_op m] @ tl"
  by (simp add: enc_request_def enc_message_def)

lemma enc_response_header:
  "\<exists>tl. enc_response m = be16 (msg_type m) @ [msg_version m, msg_op m] @ tl"
  by (simp add: enc_response_def enc_message_def)

interpretation request: typed_message enc_request request_view request_write request_parse request_ok
  "\<lambda>_. True" request_of_bytes
  by unfold_locales (rule enc_request_header, use request_of_bytes_bytes in blast)

interpretation response: typed_message enc_response response_view response_write response_parse
  "\<lambda>_. True" "\<lambda>_. True" response_of_bytes
  by unfold_locales (rule enc_response_header, use response_of_bytes_bytes in blast)

end
