(* ===== verification/Nmd_Requests.thy ===== *)
theory Nmd_Requests
  imports Nmd_Sessions Dispatcher
begin

text \<open>
  \<^verbatim>\<open>nmd/nmd_requests.cc\<close> and \<^verbatim>\<open>nmd/nmd_main.cc\<close>: the handlers of the seven requests, the
  table they are registered in, and the runs of the daemon. A handler gives the response it sends
  and the daemon's new state; its own value is always true, so that the request is deleted.
\<close>

section \<open>Handlers\<close>

definition getSessionID :: "'a switch_request_scheme \<Rightarrow> string" where
  "getSessionID m = c_str (sr_sessionID m)"

datatype nmd_response = Add_Vlan_Response add_vlan_response | Switch_Response switch_response

definition add_vlan_handle ::
    "(nat \<Rightarrow> u8) \<Rightarrow> addr \<Rightarrow> add_vlan_response \<Rightarrow> switch_request \<Rightarrow> nmd \<Rightarrow> nmd_response \<times> nmd" where
  "add_vlan_handle junk this mem req nm =
     (let (ok, vlan, nm) = vs_add_vlan (getSessionID req) nm;
          status = (if \<not> ok then NCCP_Status_Failed else NCCP_Status_Fine)
      in (Add_Vlan_Response (add_vlan_response_new junk this req status vlan mem), nm))"

definition delete_vlan_handle ::
    "shell \<Rightarrow> (nat \<Rightarrow> u8) \<Rightarrow> addr \<Rightarrow> switch_response \<Rightarrow> delete_vlan \<Rightarrow> nmd \<Rightarrow> (nmd_response \<times> nmd) option" where
  "delete_vlan_handle sh junk this mem req nm = do {
     (ok, nm) \<leftarrow> vs_delete_vlan sh (dv_vlanid req) (getSessionID req) nm;
     let status = (if \<not> ok then NCCP_Status_Failed else NCCP_Status_Fine);
     Some (Switch_Response (switch_response_new junk this req status mem), nm)
   }"

definition add_to_vlan_handle ::
    "(nat \<Rightarrow> u8) \<Rightarrow> addr \<Rightarrow> switch_response \<Rightarrow> add_to_vlan \<Rightarrow> nmd \<Rightarrow> (nmd_response \<times> nmd) option" where
  "add_to_vlan_handle junk this mem req nm = do {
     (ok, nm) \<leftarrow> vs_add_to_vlan (av_vlanid req) (av_port req) (getSessionID req) nm;
     let status = (if \<not> ok then NCCP_Status_Failed else NCCP_Status_Fine);
     Some (Switch_Response (switch_response_new junk this req status mem), nm)
   }"

definition add_to_vlan_send_response ::
    "(nat \<Rightarrow> u8) \<Rightarrow> addr \<Rightarrow> switch_response \<Rightarrow> add_to_vlan \<Rightarrow> bool \<Rightarrow> nmd_response" where
  "add_to_vlan_send_response junk this mem req fine =
     (let status = (if \<not> fine then NCCP_Status_Failed else NCCP_Status_Fine)
      in Switch_Response (switch_response_new junk this req status mem))"

text \<open>The handler only answers: the ports go when the session's last VLAN is deleted.\<close>

definition delete_from_vlan_handle ::
    "(nat \<Rightarrow> u8) \<Rightarrow> addr \<Rightarrow> switch_response \<Rightarrow> delete_from_vlan \<Rightarrow> nmd \<Rightarrow> nmd_response \<times> nmd" where
  "delete_from_vlan_handle junk this mem req nm =
     (let status = NCCP_Status_Fine
      in (Switch_Response (switch_response_new junk this req status mem), nm))"

definition start_session_handle ::
    "shell \<Rightarrow> (nat \<Rightarrow> u8) \<Rightarrow> addr \<Rightarrow> switch_response \<Rightarrow> switch_request \<Rightarrow> nmd \<Rightarrow> (nmd_response \<times> nmd) option" where
  "start_session_handle sh junk this mem req nm = do {
     (ok, nm) \<leftarrow> vs_create_session_vlans sh (getSessionID req) nm;
     let status = (if \<not> ok then NCCP_Status_Failed else NCCP_Status_Fine);
     Some (Switch_Response (switch_response_new junk this req status mem), nm)
   }"

definition end_session_handle ::
    "shell \<Rightarrow> (nat \<Rightarrow> u8) \<Rightarrow> addr \<Rightarrow> switch_response \<Rightarrow> switch_request \<Rightarrow> nmd \<Rightarrow> (nmd_response \<times> nmd) option" where
  "end_session_handle sh junk this mem req nm = do {
     (ok, nm) \<leftarrow> vs_clear_session sh (getSessionID req) nm;
     let status = (if \<not> ok then NCCP_Status_Failed else NCCP_Status_Fine);
     Some (Switch_Response (switch_response_new junk this req status mem), nm)
   }"

text \<open>One thread per switch: its status, and the network as all of them leave it.\<close>

definition initialize_switch_thread ::
    "shell \<Rightarrow> switch_vlan list \<Rightarrow> string \<Rightarrow> net \<Rightarrow> (NCCP_StatusType \<times> net) option" where
  "initialize_switch_thread sh vids switch_id s = do {
     (ok, s) \<leftarrow> initialize_switch sh vids switch_id s;
     Some (if \<not> ok then NCCP_Status_Failed else NCCP_Status_Fine, s)
   }"

fun initialize_threads ::
    "shell \<Rightarrow> switch_vlan list \<Rightarrow> string list \<Rightarrow> net \<Rightarrow> (NCCP_StatusType list \<times> net) option" where
  "initialize_threads sh vids [] s = Some ([], s)"
| "initialize_threads sh vids (i # is) s = do {
     (st, s) \<leftarrow> initialize_switch_thread sh vids i s;
     (sts, s) \<leftarrow> initialize_threads sh vids is s;
     Some (st # sts, s)
   }"

definition initialize_handle ::
    "shell \<Rightarrow> (nat \<Rightarrow> u8) \<Rightarrow> addr \<Rightarrow> switch_response \<Rightarrow> initialize \<Rightarrow> nmd \<Rightarrow> (nmd_response \<times> nmd) option" where
  "initialize_handle sh junk this mem req nm = do {
     let s = set_switches (in_switches req) (nm_net nm);
     (sts, s) \<leftarrow> initialize_threads sh (map vlanId (vlan_arr nm)) (map sw_getSwitchId (in_switches req)) s;
     let nm = nm\<lparr>nm_net := s\<rparr>;
     let status = (if \<exists>st \<in> set sts. st \<noteq> NCCP_Status_Fine then NCCP_Status_Failed else NCCP_Status_Fine);
     nm \<leftarrow> (if status = NCCP_Status_Fine then initialize_vlans sh nm else Some nm);
     Some (Switch_Response (switch_response_new junk this req status mem), nm)
   }"

section \<open>The classes and their table\<close>

datatype nmd_request =
    Add_Vlan (un_add_vlan: switch_request)
  | Delete_Vlan (un_delete_vlan: delete_vlan)
  | Add_To_Vlan (un_add_to_vlan: add_to_vlan)
  | Delete_From_Vlan (un_delete_from_vlan: delete_from_vlan)
  | Initialize (un_initialize: initialize)
  | Start_Session (un_start_session: switch_request)
  | End_Session (un_end_session: switch_request)

record nmd_memory =
  mem_request :: switch_request
  mem_delete :: delete_vlan
  mem_add_to :: add_to_vlan
  mem_delete_from :: delete_from_vlan
  mem_initialize :: initialize
  mem_response :: switch_response
  mem_add_response :: add_vlan_response

text \<open>\<^verbatim>\<open>main\<close>: the seven registrations, in order; \<open>mem\<close> is the memory of new objects.\<close>

definition nmd_register ::
    "(nat \<Rightarrow> u8) \<Rightarrow> (nat \<Rightarrow> u8) \<Rightarrow> nmd_memory \<Rightarrow> nmd_request dispatcher \<Rightarrow> nmd_request dispatcher" where
  "nmd_register junk junk' mem d =
     (let d = snd (register_req (class_of (request_of_bytes junk junk') switch_request_parse
            (mem_request mem) Add_Vlan un_add_vlan) NCCP_Operation_AddVlan d);
          d = snd (register_req (class_of (request_of_bytes junk junk') delete_vlan_parse
            (mem_delete mem) Delete_Vlan un_delete_vlan) NCCP_Operation_DeleteVlan d);
          d = snd (register_req (class_of (request_of_bytes junk junk') add_to_vlan_parse
            (mem_add_to mem) Add_To_Vlan un_add_to_vlan) NCCP_Operation_AddToVlan d);
          d = snd (register_req (class_of (request_of_bytes junk junk') delete_from_vlan_parse
            (mem_delete_from mem) Delete_From_Vlan un_delete_from_vlan) NCCP_Operation_DeleteFromVlan d);
          d = snd (register_req (class_of (request_of_bytes junk junk') initialize_parse
            (mem_initialize mem) Initialize un_initialize) NCCP_Operation_Initialize d);
          d = snd (register_req (class_of (request_of_bytes junk junk') switch_request_parse
            (mem_request mem) Start_Session un_start_session) NCCP_Operation_StartSession d)
      in snd (register_req (class_of (request_of_bytes junk junk') switch_request_parse
            (mem_request mem) End_Session un_end_session) NCCP_Operation_ClearVlans d))"

definition nmd_main ::
    "(nat \<Rightarrow> u8) \<Rightarrow> (nat \<Rightarrow> u8) \<Rightarrow> nmd_memory \<Rightarrow> (addr \<Rightarrow> request option) \<Rightarrow> nmd_request dispatcher \<times> nmd" where
  "nmd_main junk junk' mem heap =
     (nmd_register junk junk' mem (dispatcher_new heap), vlan_set_new 253 net_new)"

text \<open>The virtual \<^verbatim>\<open>handle\<close>.\<close>

definition nmd_handle ::
    "shell \<Rightarrow> (nat \<Rightarrow> u8) \<Rightarrow> addr \<Rightarrow> nmd_memory \<Rightarrow> nmd_request \<Rightarrow> nmd \<Rightarrow> (nmd_response \<times> nmd) option" where
  "nmd_handle sh junk this mem req nm =
     (case req of
        Add_Vlan r \<Rightarrow> Some (add_vlan_handle junk this (mem_add_response mem) r nm)
      | Delete_Vlan r \<Rightarrow> delete_vlan_handle sh junk this (mem_response mem) r nm
      | Add_To_Vlan r \<Rightarrow> add_to_vlan_handle junk this (mem_response mem) r nm
      | Delete_From_Vlan r \<Rightarrow> Some (delete_from_vlan_handle junk this (mem_response mem) r nm)
      | Initialize r \<Rightarrow> initialize_handle sh junk this (mem_response mem) r nm
      | Start_Session r \<Rightarrow> start_session_handle sh junk this (mem_response mem) r nm
      | End_Session r \<Rightarrow> end_session_handle sh junk this (mem_response mem) r nm)"

definition response_status :: "nmd_response \<Rightarrow> NCCP_StatusType" where
  "response_status r = (case r of Add_Vlan_Response x \<Rightarrow> sres_status x | Switch_Response x \<Rightarrow> sres_status x)"

definition response_rend :: "nmd_response \<Rightarrow> rendezvous" where
  "response_rend r = (case r of Add_Vlan_Response x \<Rightarrow> msg_rend x | Switch_Response x \<Rightarrow> msg_rend x)"

definition request_rend :: "nmd_request \<Rightarrow> rendezvous" where
  "request_rend r = (case r of Add_Vlan x \<Rightarrow> msg_rend x | Delete_Vlan x \<Rightarrow> msg_rend x
     | Add_To_Vlan x \<Rightarrow> msg_rend x | Delete_From_Vlan x \<Rightarrow> msg_rend x | Initialize x \<Rightarrow> msg_rend x
     | Start_Session x \<Rightarrow> msg_rend x | End_Session x \<Rightarrow> msg_rend x)"

definition request_session :: "nmd_request \<Rightarrow> string option" where
  "request_session r = (case r of Add_Vlan x \<Rightarrow> Some (getSessionID x) | Delete_Vlan x \<Rightarrow> Some (getSessionID x)
     | Add_To_Vlan x \<Rightarrow> Some (getSessionID x) | Delete_From_Vlan x \<Rightarrow> Some (getSessionID x)
     | Initialize x \<Rightarrow> None | Start_Session x \<Rightarrow> Some (getSessionID x) | End_Session x \<Rightarrow> Some (getSessionID x))"

section \<open>Initialisation\<close>

lemma clear_cmds_idle:
  assumes "\<forall>v \<in> set (vlan_arr nm). ports v = []" and "set vids \<subseteq> set (ids nm)"
  shows "clear_cmds sh sw vids num cmd nm = Some (num, cmd, nm)"
  using assms(2)
proof (induction vids)
  case (Cons vid vids)
  then obtain i where i: "get_vlan vid nm = Some i" using get_vlan_ex [of vid nm] by auto
  then have "ports (vlan_arr nm ! i) = []"
    using assms(1) by (auto simp: get_vlan_def dest: find_index_Some)
  with i Cons show ?case by (simp add: get_clear_vlan_cmd_def Let_def between_command_def)
qed simp

lemma clear_on_switches_idle:
  assumes "\<forall>v \<in> set (vlan_arr nm). ports v = []" and "set vids \<subseteq> set (ids nm)"
  shows "\<exists>sts. clear_on_switches sh sws vids nm = Some (sts, nm) \<and> set sts \<subseteq> {CMD_FINE}"
proof (induction sws)
  case (Cons sw sws)
  have "nm\<lparr>nm_net := nm_net nm\<rparr> = nm" by (cases nm) simp
  with Cons clear_cmds_idle [OF assms] show ?case by auto
qed simp

lemma clear_empty_vlans_idle:
  assumes "\<forall>v \<in> set (vlan_arr nm). \<not> inUse v" and "set vids \<subseteq> set (ids nm)"
  shows "clear_empty_vlans vids nm = Some nm"
  using assms(2)
proof (induction vids)
  case (Cons vid vids)
  then obtain i where i: "get_vlan vid nm = Some i" using get_vlan_ex [of vid nm] by auto
  then have "\<not> inUse (vlan_arr nm ! i)"
    using assms(1) by (auto simp: get_vlan_def dest: find_index_Some)
  with i Cons show ?case by (simp add: clear_if_empty_def Let_def)
qed simp

lemma session_delete_idle:
  assumes "\<forall>v \<in> set (vlan_arr nm). \<not> inUse v \<and> ports v = []" and "owned se \<subseteq> set (ids nm)"
  shows "session_delete sh se nm = Some nm"
proof (cases "cleared se")
  case False
  define vids where "vids = fold push_new (active_vlans se) (removed_vlans se)"
  have v: "set vids \<subseteq> set (ids nm)" using assms(2) by (simp add: vids_def owned_def)
  from clear_on_switches_idle [OF _ v, of sh "sess_switches se"] assms(1) obtain sts where
    "clear_on_switches sh (sess_switches se) vids nm = Some (sts, nm)" "set sts \<subseteq> {CMD_FINE}" by auto
  moreover from this have "CMD_SENT \<notin> set sts" by auto
  ultimately show ?thesis
    using False clear_empty_vlans_idle [OF _ v] assms(1)
    by (simp add: session_delete_def session_clear_def poll_pass_done flip: vids_def)
qed (simp add: session_delete_def)

lemma delete_sessions_idle:
  "\<forall>v \<in> set (vlan_arr nm). \<not> inUse v \<and> ports v = [] \<Longrightarrow> \<forall>se \<in> set ses. owned se \<subseteq> set (ids nm) \<Longrightarrow>
     delete_sessions sh ses nm = Some nm"
  by (induction ses) (simp_all add: session_delete_idle)

text \<open>
  The VLANs are emptied and the sessions go, without a command to a switch; but nothing is put back
  into the list of free identifiers.
\<close>

lemma initialize_vlans_eq:
  assumes "nmd_inv L nm"
  shows "initialize_vlans sh nm = Some (nm\<lparr>vlan_arr := map vlan_initialize (vlan_arr nm), sessions := []\<rparr>)"
proof -
  note I = nmd_invD [OF assms]
  have "\<forall>se \<in> set (sessions nm). owned se \<subseteq> set (ids nm)"
  proof
    fix se assume "se \<in> set (sessions nm)"
    then obtain j where j: "j < length (sessions nm)" "se = sessions nm ! j" by (auto simp: in_set_conv_nth)
    with find_index_distinct [OF I(6) j(1)] have "sess nm (sessionID se) = Some se"
      by (simp add: sess_get_session get_session_def)
    from sess_invD(2) [OF I(2) this] vl_None [of nm] show "owned se \<subseteq> set (ids nm)" by force
  qed
  then show ?thesis
    using delete_sessions_idle [of "nm\<lparr>vlan_arr := map vlan_initialize (vlan_arr nm)\<rparr>" "sessions nm" sh]
    by (simp add: initialize_vlans_def vlan_initialize_def ids_def comp_def)
qed

lemma initialize_switch_defined:
  assumes "net_ok s"
  shows "\<exists>ok s'. initialize_switch sh vids i s = Some (ok, s') \<and> switches s' = switches s"
proof -
  have mem: "\<exists>ok cmd' t. clear_memberships sh vids i cmd s = Some (ok, cmd', t) \<and> switches t = switches s"
    if "net_ok s" for cmd s
    using that
  proof (induction vids arbitrary: cmd s)
    case (Cons v vids)
    from membership_defined [OF Cons.prems, of "[]" sh i v cmd] obtain ok1 cmd1 s1 where
      1: "set_switch_vlan_membership sh [] i v cmd s = Some (ok1, cmd1, s1)" "switches s1 = switches s" by auto
    have "net_ok s1" using Cons.prems 1(2) by (simp add: net_ok_def)
    from Cons.IH [OF this, of cmd1] 1 show ?case by auto
  qed auto
  have ports: "list_all port_number_ok (map (\<lambda>n. switch_port_of i (of_nat n)) [1..<Suc (unat (get_num_ports s i))])"
    if "net_ok s" for s
  proof -
    have "port_number_ok (switch_port_of i (of_nat n))" if "1 \<le> n" "n \<le> unat (get_num_ports s i)" for n
    proof -
      have "unat (get_num_ports s i) < 0x80000000"
        using get_num_ports_bound [OF \<open>net_ok s\<close>, of i] by (simp add: word_less_nat_alt)
      with that have "unat (of_nat n :: u32) = n" by (intro unat_of_nat_small) simp
      with that \<open>unat (get_num_ports s i) < 0x80000000\<close> show ?thesis
        by (simp add: port_number_ok_def switch_port_of_def word_less_nat_alt)
    qed
    then show ?thesis by (auto simp: list_all_iff)
  qed
  have "\<exists>ok s'. initialize_switch_snmp sh vids i s = Some (ok, s') \<and> switches s' = switches s"
  proof -
    from mem [OF assms, of "[]"] obtain ok1 cmd1 s1 where
      1: "clear_memberships sh vids i [] s = Some (ok1, cmd1, s1)" "switches s1 = switches s" by blast
    have "net_ok s1" using assms 1(2) by (simp add: net_ok_def)
    from pvids_defined [OF ports [OF this], of sh i default_vlan cmd1 s1] 1 show ?thesis
      by (auto simp: initialize_switch_snmp_def Let_def)
  qed
  moreover have "\<exists>t. get_arista64_port (sint (sw_ports (get_switch s' i))) = Some t" if "switches s' = switches s" for s'
  proof -
    have "sw_ports (get_switch s' i) < 0x80000000"
      using assms that by (auto simp: net_ok_def get_switch_def switch_info_copy_def switch_info_of_def find_Some_iff split: option.split)
    then show ?thesis using get_arista64_port_defined [of "uint (sw_ports (get_switch s' i))"]
      by (simp add: sint_small word_less_def)
  qed
  note this [of "snd (net_start_ssh sh i s)"]
  moreover have "switches (snd (net_start_ssh sh i s)) = switches s" by (simp add: net_start_ssh_def split: prod.split)
  ultimately show ?thesis
    by (cases "net_start_ssh sh i s")
      (auto simp: initialize_switch_def initialize_switch_arista_def initialize_switch_arista64_def
        initialize_switch_cisco_def exec_ssh_def net_finish_ssh_def Let_def split: bool.split)
qed

lemma initialize_threads_defined:
  "net_ok s \<Longrightarrow> \<exists>sts s'. initialize_threads sh vids is s = Some (sts, s') \<and> switches s' = switches s"
proof (induction "is" arbitrary: s)
  case (Cons i "is")
  from initialize_switch_defined [OF Cons.prems, of sh vids i] obtain ok s1 where
    1: "initialize_switch sh vids i s = Some (ok, s1)" "switches s1 = switches s" by blast
  have "net_ok s1" using Cons.prems 1(2) by (simp add: net_ok_def)
  from Cons.IH [OF this] 1 show ?case by (auto simp: initialize_switch_thread_def)
qed simp

text \<open>The VLANs that the sessions have, all of which an initialisation loses.\<close>

definition taken :: "nmd \<Rightarrow> switch_vlan set" where
  "taken nm = {vid. \<exists>sid se. sess nm sid = Some se \<and> vid \<in> owned se}"

lemma initialized_inv:
  assumes "nmd_inv L nm"
  shows "nmd_inv (L \<union> taken nm) (nm\<lparr>vlan_arr := map vlan_initialize (vlan_arr nm), sessions := []\<rparr>)"
proof -
  note I = nmd_invD [OF assms]
  let ?nm = "nm\<lparr>vlan_arr := map vlan_initialize (vlan_arr nm), sessions := []\<rparr>"
  have ids: "ids ?nm = ids nm" by (simp add: ids_def vlan_initialize_def comp_def)
  have taken: "vid \<notin> set (free_vlans nm)" if "vid \<in> taken nm" for vid
  proof -
    from that obtain sid se where "sess nm sid = Some se" "vid \<in> owned se" by (auto simp: taken_def)
    from sess_invD(2) [OF I(2) this] obtain v where "vl nm vid = Some v" "inUse v" by blast
    with vl_Some [of nm vid v] I(1) show ?thesis by (auto simp: pool_inv_def)
  qed
  have used: "vlanId v \<in> taken nm" if "v \<in> set (vlan_arr nm)" "inUse v" for v
  proof -
    have "vl nm (vlanId v) = Some v" using vl_mem [OF I(5)] that(1) by blast
    from sess_invD(3) [OF I(2) this that(2)] show ?thesis by (auto simp: taken_def)
  qed
  have "vlanId v \<in> set (free_vlans nm) \<or> vlanId v \<in> L \<union> taken nm" if "v \<in> set (vlan_arr nm)" for v
    using I(1) that used [OF that] by (auto simp: pool_inv_def)
  then have "pool_inv (L \<union> taken nm) ?nm"
    using I(1) taken unfolding pool_inv_def ids by (auto simp: vlan_initialize_def)
  moreover have "ports_inv ?nm" using I(3) by (simp add: ports_inv_def vlan_initialize_def)
  moreover have "sess ?nm = (\<lambda>_. None)" by (simp add: sess_def fun_eq_iff)
  moreover have "vl ?nm vid = map_option vlan_initialize (vl nm vid)" for vid
    by (rule vl_map) (simp_all add: vlan_initialize_def)
  then have "\<not> inUse v" if "vl ?nm vid = Some v" for vid v using that by (auto simp: vlan_initialize_def)
  ultimately show ?thesis using I(4) by (auto simp: nmd_inv_def sess_inv_def ids)
qed

section \<open>Runs of the daemon\<close>

text \<open>
  The requests that are handled one after another. Ports are numbered from 1, and the numbers of ports and the sizes of
  switches are below \<open>2^31\<close>: the daemon stores other numbers without a check, and computes with them as signed
  numbers later.
\<close>

definition request_sane :: "nmd_request \<Rightarrow> bool" where
  "request_sane r \<longleftrightarrow> (case r of
      Add_To_Vlan x \<Rightarrow> port_number_ok (av_port x)
    | Initialize x \<Rightarrow> \<forall>sw \<in> set (in_switches x). sw_ports sw < 0x80000000
    | _ \<Rightarrow> True)"

text \<open>The request that makes the daemon follow a null pointer.\<close>

definition unknown_vlan :: "nmd_request \<Rightarrow> nmd \<Rightarrow> bool" where
  "unknown_vlan r nm \<longleftrightarrow> (case r of
      Add_To_Vlan x \<Rightarrow> sess nm (getSessionID x) \<noteq> None \<and> av_vlanid x \<notin> set (ids nm)
    | _ \<Rightarrow> False)"

text \<open>The VLANs that are in no list any more after the request.\<close>

definition lost_by :: "nmd_request \<Rightarrow> nmd_response \<Rightarrow> nmd \<Rightarrow> switch_vlan set" where
  "lost_by r resp nm = (case r of
      Initialize x \<Rightarrow> if response_status resp = NCCP_Status_Fine then taken nm else {}
    | _ \<Rightarrow> {})"

lemmas handle_defs = nmd_handle_def add_vlan_handle_def delete_vlan_handle_def add_to_vlan_handle_def
  delete_from_vlan_handle_def start_session_handle_def end_session_handle_def vs_add_vlan_def

lemma initialize_handle_ex:
  assumes inv: "nmd_inv L nm" and sane: "\<forall>sw \<in> set (in_switches x). sw_ports sw < 0x80000000"
  shows "\<exists>resp nm'. initialize_handle sh junk this mem x nm = Some (resp, nm') \<and> set (ids nm') = set (ids nm) \<and>
    nmd_inv (L \<union> (if response_status resp = NCCP_Status_Fine then taken nm else {})) nm' \<and> response_rend resp = msg_rend x"
proof -
  define s0 where "s0 = set_switches (in_switches x) (nm_net nm)"
  have ok: "net_ok s0"
    using sane by (auto simp: s0_def net_ok_def set_switches_def initialize_ssh_locks_def switch_info_copy_def)
  from initialize_threads_defined [OF ok, of sh "map vlanId (vlan_arr nm)" "map sw_getSwitchId (in_switches x)"]
  obtain sts s1 where t: "initialize_threads sh (map vlanId (vlan_arr nm)) (map sw_getSwitchId (in_switches x)) s0 =
      Some (sts, s1)" "switches s1 = switches s0" by blast
  let ?nm = "nm\<lparr>nm_net := s1\<rparr>"
  have "nmd_inv L ?nm"
    using inv ok t(2) by (simp add: nmd_inv_def pool_inv_def ids_def ports_inv_def net_ok_def sess_inv_def sess_def vl_def)
  note i = this initialize_vlans_eq [OF this, of sh] initialized_inv [OF this]
  have same: "taken ?nm = taken nm" "ids ?nm = ids nm"
    "ids (?nm\<lparr>vlan_arr := map vlan_initialize (vlan_arr nm), sessions := []\<rparr>) = ids nm"
    by (simp_all add: taken_def sess_def ids_def vlan_initialize_def comp_def)
  show ?thesis
  proof (cases "\<exists>st \<in> set sts. st \<noteq> NCCP_Status_Fine")
    case True
    then show ?thesis using t(1) i(1) same
      by (simp add: initialize_handle_def response_status_def response_rend_def switch_response_new_def response_new_def
          flip: s0_def)
  next
    case False
    then show ?thesis using t(1) i(2,3) same
      by (simp add: initialize_handle_def response_status_def response_rend_def switch_response_new_def response_new_def
          flip: s0_def)
  qed
qed

lemma nmd_handle_ex:
  assumes inv: "nmd_inv L nm" and sane: "request_sane req" and known: "\<not> unknown_vlan req nm"
  shows "\<exists>resp nm'. nmd_handle sh junk this mem req nm = Some (resp, nm') \<and> nmd_inv (L \<union> lost_by req resp nm) nm'"
proof (cases req)
  case (Add_Vlan r)
  show ?thesis
  proof (cases "free_vlans nm")
    case Nil
    with Add_Vlan inv show ?thesis by (simp add: handle_defs alloc_vlan_empty lost_by_def)
  next
    case (Cons vid rest)
    obtain w nm' where "alloc_vlan (getSessionID r) nm = (w, nm')" by force
    with Add_Vlan alloc_vlan_inv [OF inv Cons this] show ?thesis by (simp add: handle_defs lost_by_def)
  qed
next
  case (Delete_Vlan r)
  with vs_delete_vlan_spec [OF inv, of "getSessionID r" _ sh "dv_vlanid r"]
    vs_delete_vlan_unknown [of nm "getSessionID r" sh "dv_vlanid r"] inv show ?thesis
    by (cases "sess nm (getSessionID r)") (auto simp: handle_defs lost_by_def)
next
  case (Add_To_Vlan r)
  show ?thesis
  proof (cases "vl nm (av_vlanid r)")
    case None
    then show ?thesis
      using vs_add_to_vlan_null [of "av_vlanid r" nm "av_port r" "getSessionID r"] known inv Add_To_Vlan
      by (auto simp: handle_defs lost_by_def unknown_vlan_def vl_None)
  next
    case (Some v)
    have "port_number_ok (av_port r)" using sane Add_To_Vlan by (simp add: request_sane_def)
    from vs_add_to_vlan_spec [OF inv this Some, of "getSessionID r"] inv Add_To_Vlan show ?thesis
      by (auto simp: handle_defs lost_by_def split: if_splits)
  qed
next
  case (Delete_From_Vlan r)
  with inv show ?thesis by (simp add: handle_defs lost_by_def)
next
  case (Initialize r)
  with initialize_handle_ex [OF inv, of r sh junk this "mem_response mem"] sane obtain resp nm' where
    "initialize_handle sh junk this (mem_response mem) r nm = Some (resp, nm')"
    "nmd_inv (L \<union> (if response_status resp = NCCP_Status_Fine then taken nm else {})) nm'"
    by (auto simp: request_sane_def)
  then show ?thesis using Initialize by (intro exI [of _ resp] exI [of _ nm']) (simp add: nmd_handle_def lost_by_def)
next
  case (Start_Session r)
  with vs_create_session_vlans_spec [OF inv, of sh "getSessionID r"] show ?thesis
    by (auto simp: handle_defs lost_by_def)
next
  case (End_Session r)
  with vs_clear_session_spec [OF inv, of sh "getSessionID r"] show ?thesis
    by (auto simp: handle_defs lost_by_def)
qed

lemma nmd_handle_unknown: "unknown_vlan req nm \<Longrightarrow> nmd_handle sh junk this mem req nm = None"
  using vs_add_to_vlan_null by (auto simp: unknown_vlan_def handle_defs split: nmd_request.splits)

text \<open>The states that the daemon reaches with the VLANs of \<open>lost\<close> lost.\<close>

inductive nmd_reach :: "shell \<Rightarrow> switch_vlan set \<Rightarrow> nmd \<Rightarrow> bool" for sh :: shell where
  start: "net_ok s \<Longrightarrow> nmd_reach sh {} (vlan_set_new 253 s)"
| step: "nmd_reach sh lost nm \<Longrightarrow> request_sane req \<Longrightarrow>
     nmd_handle sh junk this mem req nm = Some (resp, nm') \<Longrightarrow> nmd_reach sh (lost \<union> lost_by req resp nm) nm'"

lemma nmd_reach_inv: "nmd_reach sh lost nm \<Longrightarrow> nmd_inv lost nm"
proof (induction rule: nmd_reach.induct)
  case (start s)
  show ?case by (rule vlan_set_new_inv [OF _ start]) simp
next
  case (step lost nm req junk this mem resp nm')
  have "\<not> unknown_vlan req nm" using nmd_handle_unknown step.hyps(3) by fastforce
  from nmd_handle_ex [OF step.IH step.hyps(2) this, of sh junk this mem] step.hyps(3) show ?case by auto
qed

text \<open>The set of identifiers never changes.\<close>

lemma ids_vl: "vl nm' = f \<Longrightarrow> dom f = dom (vl nm) \<Longrightarrow> set (ids nm') = set (ids nm)"
  using vl_None [of nm] vl_None [of nm'] by (fastforce simp: dom_def)

lemma ids_map: "vlan_arr nm' = map (\<lambda>v. if P v then freed v else v) (vlan_arr nm) \<Longrightarrow> ids nm' = ids nm"
  by (drule ids_map_vlan) simp_all

lemma nmd_handle_ids:
  assumes inv: "nmd_inv L nm" and sane: "request_sane req"
    and h: "nmd_handle sh junk this mem req nm = Some (resp, nm')"
  shows "set (ids nm') = set (ids nm)"
proof (cases req)
  case (Add_Vlan r)
  show ?thesis
  proof (cases "free_vlans nm")
    case Nil
    with Add_Vlan h show ?thesis by (auto simp: handle_defs alloc_vlan_empty Let_def)
  next
    case (Cons vid rest)
    obtain w nm1 where a: "alloc_vlan (getSessionID r) nm = (w, nm1)" by force
    with Add_Vlan h have "nm' = nm1" by (auto simp: handle_defs Let_def)
    with alloc_vlan_inv(3) [OF inv Cons a] show ?thesis
      by (intro ids_vl [OF alloc_vlan_inv(3) [OF inv Cons a, folded \<open>nm' = nm1\<close>]])
        (auto simp: dom_def)
  qed
next
  case (Delete_Vlan r)
  show ?thesis
  proof (cases "sess nm (getSessionID r)")
    case None
    with Delete_Vlan h show ?thesis by (auto simp: handle_defs vs_delete_vlan_unknown)
  next
    case (Some se)
    from vs_delete_vlan_spec [OF inv Some, of sh "dv_vlanid r"] Delete_Vlan h
    have "vlan_arr nm' = map (\<lambda>v. if vlanId v \<in> owned se then freed v else v) (vlan_arr nm) \<or>
        vlan_arr nm' = vlan_arr nm"
      by (auto simp: handle_defs split: if_splits)
    then have "ids nm' = ids nm" by (elim disjE) (rule ids_map, assumption, simp add: ids_def)
    then show ?thesis by simp
  qed
next
  case (Add_To_Vlan r)
  have p: "port_number_ok (av_port r)" using sane Add_To_Vlan by (simp add: request_sane_def)
  show ?thesis
  proof (cases "vl nm (av_vlanid r)")
    case None
    then show ?thesis
      using vs_add_to_vlan_null [of "av_vlanid r" nm "av_port r" "getSessionID r"] h Add_To_Vlan
      by (auto simp: handle_defs vl_None split: if_splits)
  next
    case (Some v)
    from vs_add_to_vlan_spec [OF inv p Some, of "getSessionID r"] Add_To_Vlan h
    have "nm' = nm \<or> vl nm' = (vl nm)(av_vlanid r \<mapsto> with_port (av_port r) v)"
      by (auto simp: handle_defs split: if_splits)
    moreover have "dom ((vl nm)(av_vlanid r \<mapsto> with_port (av_port r) v)) = dom (vl nm)"
      using Some by (auto simp: dom_def)
    ultimately show ?thesis using ids_vl [of nm' "(vl nm)(av_vlanid r \<mapsto> with_port (av_port r) v)" nm] by blast
  qed
next
  case (Delete_From_Vlan r)
  with h show ?thesis by (auto simp: handle_defs Let_def)
next
  case (Initialize r)
  with initialize_handle_ex [OF inv, of r sh junk this "mem_response mem"] sane h show ?thesis
    by (auto simp: request_sane_def handle_defs)
next
  case (Start_Session r)
  with vs_create_session_vlans_spec [OF inv, of sh "getSessionID r"] h show ?thesis
    by (auto simp: handle_defs ids_def)
next
  case (End_Session r)
  with vs_clear_session_spec [OF inv, of sh "getSessionID r"] h show ?thesis
    by (auto simp: handle_defs ids_map)
qed

lemma nmd_reach_ids: "nmd_reach sh lost nm \<Longrightarrow> set (ids nm) = (\<lambda>i. 2 + of_nat i) ` {..<253}"
proof (induction rule: nmd_reach.induct)
  case (start s)
  have "ids (vlan_set_new 253 s) = map (\<lambda>i. 2 + of_nat i) [0..<253]"
    by (simp add: ids_def vlan_set_new_def comp_def)
  then show ?case by (simp add: lessThan_atLeast0)
next
  case (step lost nm req junk this mem resp nm')
  from nmd_handle_ids [OF nmd_reach_inv [OF step.hyps(1)] step.hyps(2,3)] step.IH show ?case by simp
qed

lemma nmd_id_range:
  assumes "(x :: u32) \<in> (\<lambda>i. 2 + of_nat i) ` {..<253}"
  shows "2 \<le> x \<and> x < default_vlan"
proof -
  from assms obtain i where i: "i < 253" "x = of_nat (2 + i)" by auto
  have "unat x = 2 + i" unfolding i(2) by (rule unat_of_nat_small) (use i(1) in simp)
  with i(1) show ?thesis by (simp add: word_le_nat_alt word_less_nat_alt)
qed

text \<open>An identifier is lost or free, or exactly one session has it.\<close>

lemma nmd_partition:
  assumes inv: "nmd_inv L nm" and vid: "vid \<in> set (ids nm)"
  shows "vid \<notin> set (free_vlans nm) \<and> vid \<notin> L \<longleftrightarrow> (\<exists>!sid. \<exists>se. sess nm sid = Some se \<and> vid \<in> owned se)"
    and "vid \<in> L \<Longrightarrow> vid \<notin> set (free_vlans nm)" and "vid \<in> L \<Longrightarrow> sess nm sid = Some se \<Longrightarrow> vid \<notin> owned se"
proof -
  note I = nmd_invD [OF inv]
  from vid obtain v where v: "vl nm vid = Some v" by (cases "vl nm vid") (auto simp: vl_None)
  have use: "inUse v \<longleftrightarrow> vid \<notin> set (free_vlans nm) \<and> vid \<notin> L"
    using I(1) vl_Some [OF v] by (auto simp: pool_inv_def)
  show "vid \<notin> set (free_vlans nm) \<and> vid \<notin> L \<longleftrightarrow> (\<exists>!sid. \<exists>se. sess nm sid = Some se \<and> vid \<in> owned se)"
  proof
    assume "vid \<notin> set (free_vlans nm) \<and> vid \<notin> L"
    with use sess_invD(3) [OF I(2) v] obtain se where
      se: "sess nm (v_session v) = Some se" "vid \<in> owned se" by auto
    then show "\<exists>!sid. \<exists>se. sess nm sid = Some se \<and> vid \<in> owned se"
      using owned_other [OF I(2)] by blast
  next
    assume "\<exists>!sid. \<exists>se. sess nm sid = Some se \<and> vid \<in> owned se"
    then obtain sid se where "sess nm sid = Some se" "vid \<in> owned se" by blast
    from sess_invD(2) [OF I(2) this] v use show "vid \<notin> set (free_vlans nm) \<and> vid \<notin> L" by auto
  qed
  show "vid \<notin> set (free_vlans nm)" if "vid \<in> L" using I(1) that by (auto simp: pool_inv_def)
  show "vid \<notin> owned se" if "vid \<in> L" "sess nm sid = Some se"
    using sess_invD(2) [OF I(2) that(2), of vid] that(1) v use by auto
qed

end
