(* ===== verification/Nmd_Threads.thy ===== *)
theory Nmd_Threads
  imports Nmd_Requests
begin

text \<open>
  Threads of the network daemon. First the versions of \<^verbatim>\<open>session\<close>'s two long operations that do
  not use threads, which the code keeps beside the others: they are the reference for the threaded
  ones. Then the limit on ssh connections, as a step relation. Then two interleavings.
\<close>

section \<open>The operations without threads\<close>

fun create_loop :: "shell \<Rightarrow> string list \<Rightarrow> switch_vlan list \<Rightarrow> bool \<Rightarrow> nmd \<Rightarrow> (bool \<times> nmd) option" where
  "create_loop sh [] vids rtn nm = Some (rtn, nm)"
| "create_loop sh (swid # swids) vids rtn nm = do {
     (cmd, nm) \<leftarrow> add_ports_cmds sh swid vids (start_command swid []) nm;
     let (r, s) = send_command sh swid cmd (nm_net nm);
     create_loop sh swids vids (if \<not> r then False else rtn) (nm\<lparr>nm_net := s\<rparr>)
   }"

definition create_vlans_unthreaded :: "shell \<Rightarrow> session \<Rightarrow> nmd \<Rightarrow> (bool \<times> nmd) option" where
  "create_vlans_unthreaded sh se nm =
     (if cleared se then Some (False, nm)
      else do {
        print_vlans (active_vlans se) nm;
        create_loop sh (sess_switches se) (active_vlans se) True nm
      })"

fun clear_loop :: "shell \<Rightarrow> string list \<Rightarrow> switch_vlan list \<Rightarrow> bool \<Rightarrow> nmd \<Rightarrow> (bool \<times> nmd) option" where
  "clear_loop sh [] vids rtn nm = Some (rtn, nm)"
| "clear_loop sh (swid # swids) vids rtn nm = do {
     (num_rm, cmd, nm) \<leftarrow> clear_cmds sh swid vids 0 (start_command swid []) nm;
     if num_rm > 0 then
       (let (r, s) = send_command sh swid cmd (nm_net nm) in
        clear_loop sh swids vids (if \<not> r then False else rtn) (nm\<lparr>nm_net := s\<rparr>))
     else clear_loop sh swids vids rtn nm
   }"

definition clear_session_unthreaded :: "shell \<Rightarrow> session \<Rightarrow> nmd \<Rightarrow> (bool \<times> session \<times> nmd) option" where
  "clear_session_unthreaded sh se nm =
     (if cleared se then Some (True, se, nm)
      else do {
        let se = se\<lparr>cleared := True,
          removed_vlans := fold push_new (active_vlans se) (removed_vlans se)\<rparr>;
        (rtn, nm) \<leftarrow> clear_loop sh (sess_switches se) (removed_vlans se) True nm;
        nm \<leftarrow> clear_empty_vlans (removed_vlans se) nm;
        Some (rtn, se, nm)
      })"

lemma create_loop_threads:
  "create_loop sh sws vids rtn nm =
     map_option (\<lambda>(sts, nm). (rtn \<and> CMD_FAILED \<notin> set sts, nm)) (create_on_switches sh sws vids nm)"
proof (induction sws arbitrary: rtn nm)
  case (Cons sw sws)
  show ?case
  proof (cases "add_ports_cmds sh sw vids (start_command sw []) nm")
    case (Some cn)
    obtain cmd nm1 where cn: "cn = (cmd, nm1)" by force
    obtain r s where r: "send_command sh sw cmd (nm_net nm1) = (r, s)" by force
    show ?thesis
      using Some cn r Cons.IH [of _ "nm1\<lparr>nm_net := s\<rparr>"]
      by (cases "create_on_switches sh sws vids (nm1\<lparr>nm_net := s\<rparr>)") (auto simp: send_state_def)
  qed simp
qed simp

lemma create_on_switches_sent:
  "create_on_switches sh sws vids nm = Some (sts, nm') \<Longrightarrow> CMD_SENT \<notin> set sts"
  by (induction sh sws vids nm arbitrary: sts nm' rule: create_on_switches.induct)
    (auto simp: bind_eq_Some_conv send_state_def split: prod.splits if_splits)

text \<open>Creating the VLANs of a session with one thread per switch gives the result, the
  commands and the switches' state of the version without threads, when the threads run in the
  order in which they are started.\<close>

lemma create_vlans_threads: "create_vlans sh se nm = create_vlans_unthreaded sh se nm"
proof (cases "create_on_switches sh (sess_switches se) (active_vlans se) nm")
  case (Some r)
  obtain sts nm' where "r = (sts, nm')" by force
  with Some create_on_switches_sent [of sh "sess_switches se" "active_vlans se" nm sts nm'] show ?thesis
    by (simp add: create_vlans_def create_vlans_unthreaded_def create_loop_threads poll_pass_done)
qed (simp add: create_vlans_def create_vlans_unthreaded_def create_loop_threads)

lemma clear_loop_threads:
  "clear_loop sh sws vids rtn nm =
     map_option (\<lambda>(sts, nm). (rtn \<and> CMD_FAILED \<notin> set sts, nm)) (clear_on_switches sh sws vids nm)"
proof (induction sws arbitrary: rtn nm)
  case (Cons sw sws)
  show ?case
  proof (cases "clear_cmds sh sw vids 0 (start_command sw []) nm")
    case (Some cn)
    obtain n cmd nm1 where cn: "cn = (n, cmd, nm1)" by (cases cn)
    obtain r s where r: "send_command sh sw cmd (nm_net nm1) = (r, s)" by force
    have "nm1\<lparr>nm_net := nm_net nm1\<rparr> = nm1" by (cases nm1) simp
    then show ?thesis
      using Some cn r Cons.IH [of _ "nm1\<lparr>nm_net := s\<rparr>"] Cons.IH [of _ nm1]
      by (cases "create_on_switches sh sws vids (nm1\<lparr>nm_net := s\<rparr>)";
          cases "clear_on_switches sh sws vids (nm1\<lparr>nm_net := s\<rparr>)";
          cases "clear_on_switches sh sws vids nm1") (auto simp: send_state_def)
  qed simp
qed simp

lemma clear_on_switches_sent:
  "clear_on_switches sh sws vids nm = Some (sts, nm') \<Longrightarrow> CMD_SENT \<notin> set sts"
  by (induction sh sws vids nm arbitrary: sts nm' rule: clear_on_switches.induct)
    (auto simp: bind_eq_Some_conv send_state_def split: prod.splits if_splits)

text \<open>With the threads run in the order in which they are started, clearing a session does what the version without
  threads does; \<open>Nmd_Schedules\<close> has the other orders.\<close>

lemma session_clear_in_order: "session_clear sh se nm = clear_session_unthreaded sh se nm"
proof -
  define vids where "vids = fold push_new (active_vlans se) (removed_vlans se)"
  show ?thesis
  proof (cases "clear_on_switches sh (sess_switches se) vids nm")
    case (Some r)
    obtain sts nm' where "r = (sts, nm')" by force
    with Some clear_on_switches_sent [of sh "sess_switches se" vids nm sts nm'] show ?thesis
      by (simp add: session_clear_def clear_session_unthreaded_def clear_loop_threads poll_pass_done
          flip: vids_def)
  qed (simp add: session_clear_def clear_session_unthreaded_def clear_loop_threads flip: vids_def)
qed

section \<open>The limit on ssh connections\<close>

text \<open>
  One switch's lock and the number of ssh commands that run. \<^verbatim>\<open>start_ssh\<close> that finds a free place
  counts its command. When it gives up after 300 tries, \<^verbatim>\<open>initialize_switch\<close> does not run one, but
  \<^verbatim>\<open>send_command\<close> ignores the result and runs it all the same.
\<close>

record ssh_state =
  sst_lock :: switch_ssh_lock
  sst_running :: nat

inductive ssh_step :: "bool \<Rightarrow> ssh_state \<Rightarrow> ssh_state \<Rightarrow> bool" where
  started: "outstanding (sst_lock s) < 10 \<Longrightarrow> start_ssh others (sst_lock s) = (True, l) \<Longrightarrow>
     ssh_step False s \<lparr>sst_lock = l, sst_running = sst_running s + 1\<rparr>"
| ended: "0 < sst_running s \<Longrightarrow>
     ssh_step False s \<lparr>sst_lock = finish_ssh (sst_lock s), sst_running = sst_running s - 1\<rparr>"
| gave_up: "start_ssh [] (sst_lock s) = (False, l) \<Longrightarrow>
     ssh_step True s \<lparr>sst_lock = l, sst_running = sst_running s + 1\<rparr>"

inductive ssh_reach :: "bool \<Rightarrow> ssh_state \<Rightarrow> bool" for late :: bool where
  ssh_init: "ssh_reach late \<lparr>sst_lock = switch_ssh_lock_new, sst_running = 0\<rparr>"
| ssh_next: "ssh_reach late s \<Longrightarrow> ssh_step k s s' \<Longrightarrow> k \<longrightarrow> late \<Longrightarrow> ssh_reach late s'"

lemma start_ssh_free:
  "outstanding l < 10 \<Longrightarrow> start_ssh others l = (True, l\<lparr>outstanding := outstanding l + 1\<rparr>)"
  by (simp add: start_ssh_def)

lemma start_ssh_loop_full: "10 \<le> outstanding l \<Longrightarrow> start_ssh_loop n [] l = (False, l)"
  by (induction n) simp_all

lemma start_ssh_full: "10 \<le> outstanding l \<Longrightarrow> start_ssh [] l = (False, l)"
  by (simp add: start_ssh_def start_ssh_loop_full)

text \<open>While every command waits for \<^verbatim>\<open>start_ssh\<close> to succeed, the lock of a switch counts
  exactly the ssh commands that run, and there are never more than ten.\<close>

lemma ssh_counted:
  "ssh_reach False s \<Longrightarrow> outstanding (sst_lock s) = int (sst_running s) \<and> sst_running s \<le> 10"
proof (induction rule: ssh_reach.induct)
  case ssh_init
  show ?case by (simp add: switch_ssh_lock_new_def)
next
  case (ssh_next s k s')
  from ssh_next(2,3,4) show ?case
    by cases (auto simp: start_ssh_free finish_ssh_def Let_def)
qed

lemma ssh_counted_example:
  "(1 :: int) = int 1 \<and> (1 :: nat) \<le> 10"
proof -
  have "ssh_step False \<lparr>sst_lock = switch_ssh_lock_new, sst_running = 0\<rparr>
      \<lparr>sst_lock = switch_ssh_lock_new\<lparr>outstanding := 1\<rparr>, sst_running = 0 + 1\<rparr>"
    using ssh_step.started [of "\<lparr>sst_lock = switch_ssh_lock_new, sst_running = 0\<rparr>" "[]" "switch_ssh_lock_new\<lparr>outstanding := 1\<rparr>"]
    by (simp add: switch_ssh_lock_new_def start_ssh_def)
  from ssh_counted [OF ssh_reach.ssh_next [OF ssh_reach.ssh_init this]] show ?thesis by simp
qed

lemma ssh_up_to_10: "n \<le> 10 \<Longrightarrow> \<exists>s. ssh_reach late s \<and> sst_running s = n \<and> outstanding (sst_lock s) = int n"
proof (induction n)
  case 0
  show ?case by (rule exI, rule conjI, rule ssh_init) (simp add: switch_ssh_lock_new_def)
next
  case (Suc n)
  then obtain s where s: "ssh_reach late s" "sst_running s = n" "outstanding (sst_lock s) = int n" by auto
  with Suc.prems have "ssh_step False s \<lparr>sst_lock = (sst_lock s)\<lparr>outstanding := int n + 1\<rparr>,
      sst_running = n + 1\<rparr>"
    using ssh_step.started [of s "[]" "(sst_lock s)\<lparr>outstanding := int n + 1\<rparr>"]
    by (simp add: start_ssh_free)
  from ssh_reach.ssh_next [OF s(1) this] show ?case by (intro exI) (auto intro: conjI)
qed

text \<open>\<^verbatim>\<open>send_command\<close> ignores that \<^verbatim>\<open>start_ssh\<close> gave up, so the limit does not hold: any
  number of commands can run on one switch while its lock counts ten.\<close>

lemma ssh_beyond: "\<exists>s. ssh_reach True s \<and> sst_running s = 10 + n \<and> outstanding (sst_lock s) = 10"
proof (induction n)
  case 0
  from ssh_up_to_10 [of 10 True] show ?case by auto
next
  case (Suc n)
  then obtain s where s: "ssh_reach True s" "sst_running s = 10 + n" "outstanding (sst_lock s) = 10" by auto
  have "ssh_step True s \<lparr>sst_lock = sst_lock s, sst_running = sst_running s + 1\<rparr>"
    by (rule ssh_step.gave_up) (simp add: start_ssh_full s(3))
  from ssh_reach.ssh_next [OF s(1) this] s show ?case by (intro exI) auto
qed

section \<open>Two interleavings\<close>

text \<open>
  \<^verbatim>\<open>clear_session\<close> gives a VLAN back when the last of its ports is removed, and goes through all
  of its VLANs once more at the end (\<open>clear_empty_vlans\<close>). In between another session can be given
  the VLAN; having no ports yet it is then freed under that session, and given to a third one.
\<close>

lemma pool_free_list:
  assumes "pool_inv L nm" and "\<And>v. v \<in> set (vlan_arr nm) \<Longrightarrow> inUse v \<longleftrightarrow> vlanId v \<noteq> vid \<and> vlanId v \<notin> L"
    and "vid \<in> set (ids nm)" and "vid \<notin> L"
  shows "free_vlans nm = [vid]"
proof -
  have "set (free_vlans nm) = {vid}"
  proof
    show "set (free_vlans nm) \<subseteq> {vid}"
    proof
      fix w assume w: "w \<in> set (free_vlans nm)"
      with assms(1) obtain v where "v \<in> set (vlan_arr nm)" "vlanId v = w"
        by (auto simp: pool_inv_def ids_def)
      with assms(1,2) w show "w \<in> {vid}" by (auto simp: pool_inv_def)
    qed
    from assms(3) obtain v where "v \<in> set (vlan_arr nm)" "vlanId v = vid" by (auto simp: ids_def)
    with assms(1,2,4) show "{vid} \<subseteq> set (free_vlans nm)" by (auto simp: pool_inv_def)
  qed
  moreover have "distinct (free_vlans nm)" using assms(1) by (simp add: pool_inv_def)
  ultimately show ?thesis
    by (metis distinct_card card.empty card_insert_disjoint empty_iff finite.emptyI length_0_conv
        length_Suc_conv list.set_intros(1) singletonD One_nat_def is_singletonI' list.simps(15))
qed

text \<open>C39: The two passes of \<^verbatim>\<open>clear_session\<close> are not atomic: when the only VLAN it frees is given
  to a second session between them, the last pass frees it again under that session and a third
  session gets it as well.\<close>

theorem freed_under_a_session:
  assumes inv: "nmd_inv L nm" and se: "sess nm a = Some se" "owned se = {vid}"
    and v: "vl nm vid = Some v" "ports v \<noteq> []" and free: "free_vlans nm = []"
    and abc: "b \<noteq> c"
  shows "\<exists>sts nm1 nm2 nm3 nm4.
    clear_on_switches sh (sess_switches se) [vid] nm = Some (sts, nm1) \<and>
    alloc_vlan b nm1 = (vid, nm2) \<and>
    clear_empty_vlans [vid] nm2 = Some nm3 \<and>
    alloc_vlan c nm3 = (vid, nm4) \<and>
    vid \<in> owned_by b nm4 \<and> vid \<in> owned_by c nm4"
proof -
  note I = nmd_invD [OF inv]
  have vid: "set [vid] \<subseteq> set (ids nm)" using v(1) vl_None [of nm vid] by auto
  note vm = vl_Some [OF v(1)]
  have sw: "\<forall>p \<in> set (ports v). getSwitchId p \<in> set (sess_switches se)" "inUse v"
    using sess_invD(2) [OF I(2) se(1), of vid] se v sess_invD(3) [OF I(2) v(1)] by auto
  from clear_on_switches_spec [OF I(1,3) vid, of sh "sess_switches se"] obtain sts nm1 where
    c: "clear_on_switches sh (sess_switches se) [vid] nm = Some (sts, nm1)" "pool_inv L nm1"
      "vlan_arr nm1 = map (\<lambda>v. if vlanId v \<in> set [vid] then fold drop_switch (sess_switches se) v else v) (vlan_arr nm)"
      "sessions nm1 = sessions nm" by blast
  have one: "fold drop_switch (sess_switches se) v = freed v"
    using sw v(2) by (simp add: fold_drop_switch Let_def filter_empty_conv)
  have arr1: "vlan_arr nm1 = map_vlan vid freed (vlan_arr nm)"
    unfolding c(3) map_vlan_def
  proof (rule map_cong [OF refl])
    fix u assume "u \<in> set (vlan_arr nm)"
    with vl_mem [OF I(5), of vid u] v(1) one
    show "(if vlanId u \<in> set [vid] then fold drop_switch (sess_switches se) u else u) =
        (if vlanId u = vid then freed u else u)" by auto
  qed
  have use: "inUse u \<longleftrightarrow> vlanId u \<notin> L" if "u \<in> set (vlan_arr nm)" for u
    using I(1) that free by (auto simp: pool_inv_def)
  have vL: "vid \<notin> L" using use [of v] vm sw(2) by simp
  have ids1: "ids nm1 = ids nm" by (rule ids_map_vlan [OF arr1 [unfolded map_vlan_drop]]) simp
  have free1: "free_vlans nm1 = [vid]"
    by (rule pool_free_list [OF c(2)]) (use use vid vL ids1 in \<open>auto simp: arr1 map_vlan_def freed_def\<close>)
  from alloc_vlan_eq [OF c(2) _ free1, of b] I(6) c(4) obtain nm2 where
    a2: "alloc_vlan b nm1 = (vid, nm2)" "free_vlans nm2 = []"
      "vlan_arr nm2 = map_vlan vid (\<lambda>v. v\<lparr>inUse := True, v_session := b\<rparr>) (vlan_arr nm1)"
      "sess nm2 = (sess nm1)(b \<mapsto> session_add_vlan vid (session_of b nm1))"
      "distinct (map sessionID (sessions nm2))" by auto
  have ids2: "ids nm2 = ids nm" unfolding ids1 [symmetric]
    by (rule ids_map_vlan [OF a2(3) [unfolded map_vlan_drop]]) simp
  have idle: "ports u = []" if "u \<in> set (vlan_arr nm)" "\<not> inUse u" for u
    using I(1) that by (simp add: pool_inv_def)
  have arr2: "(inUse u \<longleftrightarrow> vlanId u \<notin> L) \<and> (vlanId u = vid \<longrightarrow> ports u = []) \<and> (\<not> inUse u \<longrightarrow> ports u = [])" if "u \<in> set (vlan_arr nm2)" for u
    using that use vL idle by (auto simp: a2(3) arr1 map_vlan_def freed_def)
  have pool2: "pool_inv L nm2"
    using nmd_invD(5) [OF inv] arr2 by (simp add: pool_inv_def ids2 a2(2))
  from clear_empty_vlans_spec [OF pool2, of "[vid]"] vid ids2 obtain nm3 where
    c3: "clear_empty_vlans [vid] nm2 = Some nm3" "pool_inv L nm3" "sessions nm3 = sessions nm2"
      "vlan_arr nm3 = map (\<lambda>v. if vlanId v \<in> set [vid] then close_empty v else v) (vlan_arr nm2)" by auto
  have ids3: "ids nm3 = ids nm" unfolding ids2 [symmetric] by (rule ids_map_vlan [OF c3(4)]) simp
  have free3: "free_vlans nm3 = [vid]"
    by (rule pool_free_list [OF c3(2)])
      (use arr2 vid vL ids3 in \<open>auto simp: c3(4) close_empty_def freed_def\<close>)
  have s3: "sess nm3 = sess nm2" by (simp add: sess_def c3(3) fun_eq_iff)
  from alloc_vlan_eq [OF c3(2) _ free3, of c] a2(5) c3(3) obtain nm4 where
    a4: "alloc_vlan c nm3 = (vid, nm4)"
      "sess nm4 = (sess nm3)(c \<mapsto> session_add_vlan vid (session_of c nm3))" by auto
  have "vid \<in> owned_by b nm4" "vid \<in> owned_by c nm4"
    using abc a4(2) s3 a2(4) by (auto simp: owned_by_def owned_def session_add_vlan_def)
  with c(1) a2(1) c3(1) a4(1) show ?thesis by blast
qed

text \<open>A pool with one VLAN, which the session \<open>a\<close> has, with one port.\<close>

definition full_nmd :: nmd where
  "full_nmd = \<lparr>nm_net = net_new,
     vlan_arr = [\<lparr>inUse = True, vlanId = 2, ports = [switch_port_of ''sw'' 1], v_session = ''a''\<rparr>],
     free_vlans = [],
     sessions = [\<lparr>sessionID = ''a'', sess_switches = [''sw''], active_vlans = [2], removed_vlans = [],
       cleared = False\<rparr>]\<rparr>"

lemma full_nmd_inv: "nmd_inv {} full_nmd"
  by (simp add: nmd_inv_def pool_inv_def sess_inv_def ports_inv_def full_nmd_def ids_def sess_def vl_def
      owned_def session_ok_def net_ok_def net_new_def port_number_ok_def switch_port_of_def getSwitchId_def nstr_of_def c_str_def)

theorem freed_under_a_session_witness:
  "\<exists>nm4. 2 \<in> owned_by ''b'' nm4 \<and> 2 \<in> owned_by ''c'' nm4"
proof -
  have se: "sess full_nmd ''a'' = Some (sessions full_nmd ! 0)" "owned (sessions full_nmd ! 0) = {2}"
    and v: "vl full_nmd 2 = Some (vlan_arr full_nmd ! 0)" "ports (vlan_arr full_nmd ! 0) \<noteq> []"
    and free: "free_vlans full_nmd = []"
    by (simp_all add: full_nmd_def sess_def vl_def owned_def)
  from freed_under_a_session [OF full_nmd_inv se v free, of "''b''" "''c''"
      "\<lparr>sh_status = (\<lambda>_. 0), sh_others = (\<lambda>_. [])\<rparr>"] show ?thesis by auto
qed

text \<open>
  \<^verbatim>\<open>alloc_vlan\<close> looks the session up under the lock, releases it, and takes it again to add a new
  session. Its two parts, and two requests of one session that run them in turn.
\<close>

definition alloc_lookup :: "string \<Rightarrow> nmd \<Rightarrow> (nat \<times> nat option) option \<times> nmd" where
  "alloc_lookup sid nm =
     (case free_vlans nm of
        [] \<Rightarrow> (None, nm)
      | vid # rest \<Rightarrow>
          (let nm = nm\<lparr>free_vlans := rest\<rparr> in
           case get_vlan vid nm of
             None \<Rightarrow> (None, nm)
           | Some i \<Rightarrow>
               (let (ok, v) = set_in_use True sid (vlan_arr nm ! i) in
                if ok then
                  (let nm = upd_vlan i (\<lambda>_. v) nm in (Some (i, get_session sid nm), nm))
                else (None, nm))))"

definition alloc_attach :: "string \<Rightarrow> (nat \<times> nat option) option \<Rightarrow> nmd \<Rightarrow> switch_vlan \<times> nmd" where
  "alloc_attach sid found nm =
     (case found of
        None \<Rightarrow> (NO_FREE_VLANS, nm)
      | Some (i, s) \<Rightarrow>
          (let nm = (case s of None \<Rightarrow> nm\<lparr>sessions := sessions nm @ [session_new sid]\<rparr> | Some j \<Rightarrow> nm);
               j = (case s of None \<Rightarrow> length (sessions nm) - 1 | Some j \<Rightarrow> j);
               nm = set_session j (session_add_vlan (vlanId (vlan_arr nm ! i)) (sessions nm ! j)) nm
           in (vlanId (vlan_arr nm ! i), nm)))"

lemma set_session_sel [simp]: "vlan_arr (set_session j se nm) = vlan_arr nm"
  by (simp add: set_session_def)

lemma find_index_append_new:
  "find_index P xs = None \<Longrightarrow> P y \<Longrightarrow> find_index P (xs @ [y]) = Some (length xs)"
  by (induction xs) (auto split: if_splits)

lemma alloc_vlan_split: "alloc_vlan sid nm = (case alloc_lookup sid nm of (f, nm') \<Rightarrow> alloc_attach sid f nm')"
proof (cases "free_vlans nm")
  case (Cons vid rest)
  define nm0 where "nm0 = nm\<lparr>free_vlans := rest\<rparr>"
  show ?thesis
  proof (cases "get_vlan vid nm0")
    case (Some i)
    obtain ok v where sv: "set_in_use True sid (vlan_arr nm0 ! i) = (ok, v)" by force
    then have idv: "vlanId v = vlanId (vlan_arr nm0 ! i)" by (auto simp: set_in_use_def split: if_splits)
    have i: "i < length (vlan_arr nm0)" using Some by (auto simp: get_vlan_def dest: find_index_Some)
    define nm1 where "nm1 = upd_vlan i (\<lambda>_. v) nm0"
    have v1: "vlan_arr nm1 ! i = v" using i by (simp add: nm1_def upd_vlan_def)
    show ?thesis
    proof (cases "get_session sid nm1")
      case None
      then have "get_session sid (nm1\<lparr>sessions := sessions nm1 @ [session_new sid]\<rparr>) = Some (length (sessions nm1))"
        by (simp add: get_session_def find_index_append_new session_new_def)
      with Cons Some sv None v1 show ?thesis
        by (simp add: alloc_vlan_def alloc_lookup_def alloc_attach_def ensure_session_def Let_def
            flip: nm0_def nm1_def)
    next
      case (Some j)
      with Cons \<open>get_vlan vid nm0 = Some i\<close> sv v1 show ?thesis
        by (simp add: alloc_vlan_def alloc_lookup_def alloc_attach_def ensure_session_def Let_def
            flip: nm0_def nm1_def)
    qed
  qed (simp add: alloc_vlan_def alloc_lookup_def alloc_attach_def Cons Let_def flip: nm0_def)
qed (simp add: alloc_vlan_def alloc_lookup_def alloc_attach_def)

lemma alloc_lookup_some:
  assumes inv: "pool_inv L nm" and free: "free_vlans nm = vid # rest"
  shows "\<exists>i nm'. alloc_lookup sid nm = (Some (i, get_session sid nm), nm') \<and> sessions nm' = sessions nm \<and>
    free_vlans nm' = rest \<and> pool_inv L nm' \<and> vlanId (vlan_arr nm' ! i) = vid \<and> map vlanId (vlan_arr nm') = ids nm"
proof -
  have "vid \<in> set (ids nm)" using inv free by (simp add: pool_inv_def)
  then obtain i where i: "get_vlan vid nm = Some i" using get_vlan_ex by blast
  note vd = pool_inv_vlanD [OF inv i]
  define f where "f = (\<lambda>v :: vlan. v\<lparr>inUse := True, v_session := sid\<rparr>)"
  have nu: "\<not> inUse (vlan_arr nm ! i)" using inv vd(1,2) free by (auto simp: pool_inv_def)
  define nm' where "nm' = nm\<lparr>free_vlans := rest, vlan_arr := map_vlan vid f (vlan_arr nm)\<rparr>"
  have gv: "get_vlan vid (nm\<lparr>free_vlans := rest\<rparr>) = Some i" using i by (simp add: get_vlan_def)
  have up: "upd_vlan i (\<lambda>_. f (vlan_arr nm ! i)) (nm\<lparr>free_vlans := rest\<rparr>) = nm'"
    using vd(3) [of f] by (simp add: upd_vlan_def nm'_def)
  have siu: "set_in_use True sid (vlan_arr nm ! i) = (True, f (vlan_arr nm ! i))"
    using nu by (simp add: set_in_use_def f_def)
  have gs: "get_session sid nm' = get_session sid nm" by (simp add: get_session_def nm'_def)
  have ids: "map vlanId (vlan_arr nm') = ids nm"
    by (simp add: nm'_def map_vlan_def ids_def f_def comp_def if_distrib cong: if_cong)
  have "pool_inv L nm'"
    using inv free ids unfolding pool_inv_def ids_def [of nm']
    by (auto simp: nm'_def map_vlan_def f_def)
  moreover have "alloc_lookup sid nm = (Some (i, get_session sid nm), nm')"
    by (simp add: alloc_lookup_def free gv siu up gs Let_def)
  moreover have "vlanId (vlan_arr nm' ! i) = vid"
    using vd(2,5) by (simp add: nm'_def map_vlan_def f_def)
  ultimately show ?thesis using ids by (auto simp: nm'_def)
qed

lemma alloc_attach_new:
  assumes "vlanId (vlan_arr nm ! i) = vid"
  shows "alloc_attach sid (Some (i, None)) nm =
    (vid, nm\<lparr>sessions := sessions nm @ [session_add_vlan vid (session_new sid)]\<rparr>)"
  using assms by (simp add: alloc_attach_def set_session_def Let_def)

text \<open>Two requests of a new session that both look it up before either has added it leave two
  sessions of that name, so that the second VLAN belongs to a session that no request can find.\<close>

lemma duplicate_session:
  assumes inv: "pool_inv L nm" and none: "sess nm sid = None" and free: "free_vlans nm = x # y # rest"
  shows "\<exists>f1 nm1 f2 nm2 nm3 nm4.
    alloc_lookup sid nm = (f1, nm1) \<and> alloc_lookup sid nm1 = (f2, nm2) \<and>
    alloc_attach sid f1 nm2 = (x, nm3) \<and> alloc_attach sid f2 nm3 = (y, nm4) \<and>
    \<not> distinct (map sessionID (sessions nm4)) \<and> x \<noteq> y \<and> owned_by sid nm4 = {x}"
proof -
  from alloc_lookup_some [OF inv free, of sid] none obtain i nm1 where
    l1: "alloc_lookup sid nm = (Some (i, None), nm1)" "sessions nm1 = sessions nm"
      "free_vlans nm1 = y # rest" "pool_inv L nm1" "vlanId (vlan_arr nm1 ! i) = x"
    by (auto simp flip: get_session_None)
  have none1: "get_session sid nm1 = None"
    using none l1(2) by (simp add: get_session_None sess_def)
  from alloc_lookup_some [OF l1(4,3), of sid] none1 obtain k nm2 where
    l2: "alloc_lookup sid nm1 = (Some (k, None), nm2)" "sessions nm2 = sessions nm"
      "vlanId (vlan_arr nm2 ! k) = y" "map vlanId (vlan_arr nm2) = ids nm1"
    using l1(2) by auto
  have x: "vlanId (vlan_arr nm2 ! i) = x"
  proof -
    have "i < length (vlan_arr nm)"
      using l1(1) by (auto simp: alloc_lookup_def get_vlan_def Let_def
          dest!: find_index_Some split: list.splits option.splits if_splits prod.splits)
    moreover have "length (vlan_arr nm1) = length (vlan_arr nm)"
      using l1(1) by (auto simp: alloc_lookup_def upd_vlan_def Let_def
          split: list.splits option.splits if_splits prod.splits)
    moreover have "length (vlan_arr nm2) = length (vlan_arr nm1)"
      using l2(4) by (metis ids_def length_map)
    ultimately show ?thesis
      using l2(4) l1(5) by (metis ids_def nth_map)
  qed
  define nm3 where "nm3 = nm2\<lparr>sessions := sessions nm @ [session_add_vlan x (session_new sid)]\<rparr>"
  define nm4 where "nm4 = nm3\<lparr>sessions := sessions nm3 @ [session_add_vlan y (session_new sid)]\<rparr>"
  have a1: "alloc_attach sid (Some (i, None)) nm2 = (x, nm3)"
    using alloc_attach_new [of nm2 i x sid] x l2(2) by (simp add: nm3_def)
  have a2: "alloc_attach sid (Some (k, None)) nm3 = (y, nm4)"
    using alloc_attach_new [of nm3 k y sid] l2(3) by (simp add: nm3_def nm4_def)
  have ss: "sessions nm4 = sessions nm @ [session_add_vlan x (session_new sid), session_add_vlan y (session_new sid)]"
    by (simp add: nm4_def nm3_def)
  have "sess nm4 sid = Some (session_add_vlan x (session_new sid))"
    using none by (simp add: sess_def ss find_append session_add_vlan_def session_new_def)
  then have "owned_by sid nm4 = {x}"
    by (simp add: owned_by_def owned_def session_add_vlan_def session_new_def)
  moreover have "x \<noteq> y" using inv free by (auto simp: pool_inv_def)
  moreover have "\<not> distinct (map sessionID (sessions nm4))"
    by (simp add: ss session_add_vlan_def session_new_def)
  ultimately show ?thesis using l1(1) l2(1) a1 a2 by blast
qed

lemma duplicate_session_example:
  "\<exists>nm4. \<not> distinct (map sessionID (sessions nm4)) \<and> owned_by ''a'' nm4 = {2}"
proof -
  have "pool_inv {} (vlan_set_new 2 net_new)" "sess (vlan_set_new 2 net_new) ''a'' = None"
    "free_vlans (vlan_set_new 2 net_new) = [2, 3]"
    by (simp_all add: pool_inv_def vlan_set_new_def ids_def sess_def upt_rec)
  from duplicate_session [OF this] show ?thesis by blast
qed

end
