(* ===== verification/Nmd_Schedules.thy ===== *)
theory Nmd_Schedules
  imports Nmd_Threads "HOL-Library.Multiset"
begin

text \<open>
  \<^verbatim>\<open>session::clear_session_threaded\<close> as a step relation: the thread of the request builds one command after another
  and starts a thread for each, the threads take their steps at any time, and the request's thread reads the states of the
  commands over and over until none is still being sent. Whatever the order, it ends as \<open>session_clear\<close> does.
\<close>

section \<open>The threads\<close>

text \<open>Where the thread of a command is in \<^verbatim>\<open>send_command_wrapper\<close> and the \<^verbatim>\<open>send_command\<close> that it calls
  (\<^verbatim>\<open>nmd_switch.cc\<close>): before \<^verbatim>\<open>start_ssh\<close>, before it runs the command, before \<^verbatim>\<open>finish_ssh\<close>, before it stores the
  state, at its end.\<close>

datatype sender = At_Start | At_Exec | At_Finish bool | At_Store bool | At_End

record switch_cmd =
  sc_switch_id :: string
  sc_cmd :: string
  sc_state :: int
  sc_sender :: sender

datatype main_thread = Building "string list" | Polling nat bool | Returned bool

record clear_run =
  cr_main :: main_thread
  switch_commands :: "switch_cmd list"
  cr_nmd :: nmd

definition has_ssh :: "string \<Rightarrow> bool" where
  "has_ssh i \<longleftrightarrow> is_arista_switch i \<or> is_arista64_switch i \<or> is_cisco_switch i"

definition send_command_wrapper :: "shell \<Rightarrow> switch_cmd \<Rightarrow> net \<Rightarrow> switch_cmd \<times> net" where
  "send_command_wrapper sh c s = (case sc_sender c of
     At_Start \<Rightarrow> if has_ssh (sc_switch_id c)
       then (c\<lparr>sc_sender := At_Exec\<rparr>, snd (net_start_ssh sh (sc_switch_id c) s))
       else (c\<lparr>sc_sender := At_Store True\<rparr>, s)
   | At_Exec \<Rightarrow> let (r, s) = exec_ssh sh (sc_cmd c @ [quote, newline]) s in (c\<lparr>sc_sender := At_Finish r\<rparr>, s)
   | At_Finish r \<Rightarrow> (c\<lparr>sc_sender := At_Store r\<rparr>, net_finish_ssh (sc_switch_id c) s)
   | At_Store r \<Rightarrow> (c\<lparr>sc_sender := At_End, sc_state := (if r then CMD_FINE else CMD_FAILED)\<rparr>, s)
   | At_End \<Rightarrow> (c, s))"

text \<open>\<open>built\<close>: a command with a thread, or that needs none; \<open>in_place\<close>: no thread can be made. The VLANs of the session are
  \<open>vids\<close>.\<close>

inductive clear_step :: "shell \<Rightarrow> switch_vlan list \<Rightarrow> clear_run \<Rightarrow> clear_run \<Rightarrow> bool" for sh vids where
  built: "cr_main r = Building (sw # sws) \<Longrightarrow>
    clear_cmds sh sw vids 0 (start_command sw []) (cr_nmd r) = Some (n, cmd, nm) \<Longrightarrow>
    clear_step sh vids r \<lparr>cr_main = Building sws, switch_commands = switch_commands r @ [if n > 0
      then \<lparr>sc_switch_id = sw, sc_cmd = cmd, sc_state = CMD_SENT, sc_sender = At_Start\<rparr>
      else \<lparr>sc_switch_id = sw, sc_cmd = cmd, sc_state = CMD_FINE, sc_sender = At_End\<rparr>], cr_nmd = nm\<rparr>"
| in_place: "cr_main r = Building (sw # sws) \<Longrightarrow>
    clear_cmds sh sw vids 0 (start_command sw []) (cr_nmd r) = Some (n, cmd, nm) \<Longrightarrow> n > 0 \<Longrightarrow>
    send_state sh sw cmd (nm_net nm) = (st, s) \<Longrightarrow>
    clear_step sh vids r \<lparr>cr_main = Building sws, switch_commands = switch_commands r @
      [\<lparr>sc_switch_id = sw, sc_cmd = cmd, sc_state = st, sc_sender = At_End\<rparr>], cr_nmd = nm\<lparr>nm_net := s\<rparr>\<rparr>"
| sends: "i < length (switch_commands r) \<Longrightarrow> sc_sender (switch_commands r ! i) \<noteq> At_End \<Longrightarrow>
    send_command_wrapper sh (switch_commands r ! i) (nm_net (cr_nmd r)) = (c, s) \<Longrightarrow>
    clear_step sh vids r (r\<lparr>switch_commands := (switch_commands r)[i := c], cr_nmd := (cr_nmd r)\<lparr>nm_net := s\<rparr>\<rparr>)"
| waits: "cr_main r = Building [] \<Longrightarrow> clear_step sh vids r (r\<lparr>cr_main := Polling 0 True\<rparr>)"
| unfinished: "cr_main r = Polling i rtn \<Longrightarrow> i < length (switch_commands r) \<Longrightarrow> sc_state (switch_commands r ! i) = CMD_SENT \<Longrightarrow>
    clear_step sh vids r (r\<lparr>cr_main := Polling 0 rtn\<rparr>)"
| polled: "cr_main r = Polling i rtn \<Longrightarrow> i < length (switch_commands r) \<Longrightarrow> sc_state (switch_commands r ! i) \<noteq> CMD_SENT \<Longrightarrow>
    clear_step sh vids r
      (r\<lparr>cr_main := Polling (Suc i) (if sc_state (switch_commands r ! i) = CMD_FAILED then False else rtn)\<rparr>)"
| returns: "cr_main r = Polling (length (switch_commands r)) rtn \<Longrightarrow> clear_empty_vlans vids (cr_nmd r) = Some nm \<Longrightarrow>
    clear_step sh vids r (r\<lparr>cr_main := Returned rtn, cr_nmd := nm\<rparr>)"

inductive_cases clear_stepE: "clear_step sh vids r r'"

section \<open>A network that is behind\<close>

text \<open>Building commands reads neither the ssh locks nor what was executed: it goes the same way on a network on which the
  threads have not yet executed the commands \<open>D\<close>.\<close>

definition net_behind :: "string multiset \<Rightarrow> net \<Rightarrow> net \<Rightarrow> bool" where
  "net_behind D s t \<longleftrightarrow> switches t = switches s \<and> mset (executed s) = mset (executed t) + D"

definition nmd_behind :: "string multiset \<Rightarrow> nmd \<Rightarrow> nmd \<Rightarrow> bool" where
  "nmd_behind D nm nm2 \<longleftrightarrow> net_behind D (nm_net nm) (nm_net nm2) \<and> vlan_arr nm2 = vlan_arr nm \<and>
     free_vlans nm2 = free_vlans nm \<and> sessions nm2 = sessions nm"

lemma behind_exec:
  assumes "net_behind D s t" "exec_snmp sh cmd s = (ok, s')"
  shows "\<exists>t'. exec_snmp sh cmd t = (ok, t') \<and> net_behind D s' t'"
  using assms by (auto simp: exec_snmp_def net_behind_def)

lemma behind_get:
  assumes "net_behind D s t"
  shows "get_num_ports t sw = get_num_ports s sw" "get_management_port t sw = get_management_port s sw"
  using assms by (simp_all add: net_behind_def get_num_ports_def get_management_port_def get_switch_def)

lemma behind_membership_snmp:
  assumes "net_behind D s t" "set_switch_vlan_membership_snmp sh ps sw v s = Some (ok, s')"
  shows "\<exists>t'. set_switch_vlan_membership_snmp sh ps sw v t = Some (ok, t') \<and> net_behind D s' t'"
  using assms behind_get [OF assms(1), of sw]
  by (auto simp: set_switch_vlan_membership_snmp_def exec_snmp_def net_behind_def Let_def bind_eq_Some_conv split: if_splits)

lemma behind_membership:
  assumes "net_behind D s t" "set_switch_vlan_membership sh ps sw v cmd s = Some (ok, cmd', s')"
  shows "\<exists>t'. set_switch_vlan_membership sh ps sw v cmd t = Some (ok, cmd', t') \<and> net_behind D s' t'"
proof (cases "has_ssh sw")
  case True
  then show ?thesis using assms behind_get [OF assms(1), of sw]
    by (auto simp: has_ssh_def set_switch_vlan_membership_def set_switch_vlan_membership_arista_def
        set_switch_vlan_membership_arista64_def set_switch_vlan_membership_cisco_def Let_def bind_eq_Some_conv split: if_splits)
next
  case False
  then obtain "cmd' = cmd" "set_switch_vlan_membership_snmp sh ps sw v s = Some (ok, s')"
    using assms(2) by (auto simp: has_ssh_def set_switch_vlan_membership_def bind_eq_Some_conv)
  with False behind_membership_snmp [OF assms(1) this(2)] show ?thesis
    by (auto simp: has_ssh_def set_switch_vlan_membership_def)
qed

lemma behind_pvids_snmp:
  "net_behind D s t \<Longrightarrow> set_switch_pvids_snmp sh ps sw v s = (ok, s') \<Longrightarrow>
    \<exists>t'. set_switch_pvids_snmp sh ps sw v t = (ok, t') \<and> net_behind D s' t'"
proof (induction ps arbitrary: s t)
  case (Cons p ps)
  from Cons.prems(2) show ?case
    by (auto simp: Let_def exec_snmp_def intro!: Cons.IH Cons.prems) (use Cons.prems(1) in \<open>simp add: net_behind_def\<close>)
qed auto

lemma behind_pvids:
  assumes "net_behind D s t" "set_switch_pvids sh ps sw v cmd s = Some (ok, cmd', s')"
  shows "\<exists>t'. set_switch_pvids sh ps sw v cmd t = Some (ok, cmd', t') \<and> net_behind D s' t'"
proof (cases "has_ssh sw")
  case True
  then show ?thesis using assms behind_get [OF assms(1), of sw]
    by (auto simp: has_ssh_def set_switch_pvids_def set_switch_pvids_arista_def
        set_switch_pvids_arista64_def set_switch_pvids_cisco_def Let_def bind_eq_Some_conv split: if_splits)
next
  case False
  let ?h = "filter (\<lambda>p. \<not> sp_interswitch p \<and> sp_port p \<noteq> get_management_port s sw) ps"
  from False assms(2) have s: "set_switch_pvids_snmp sh ?h sw v s = (ok, s')" "cmd' = cmd"
    by (auto simp: has_ssh_def set_switch_pvids_def Let_def split: prod.splits)
  with False behind_pvids_snmp [OF assms(1) s(1)] behind_get [OF assms(1), of sw] show ?thesis
    by (auto simp: has_ssh_def set_switch_pvids_def Let_def)
qed

section \<open>The commands of one switch\<close>

lemma behind_free_vlan: "nmd_behind D nm nm2 \<Longrightarrow> nmd_behind D (free_vlan v nm) (free_vlan v nm2)"
  by (simp add: nmd_behind_def free_vlan_def)

lemma behind_upd_vlan: "nmd_behind D nm nm2 \<Longrightarrow> nmd_behind D (upd_vlan i f nm) (upd_vlan i f nm2)"
  by (simp add: nmd_behind_def upd_vlan_def)

lemma behind_clear_cmd:
  assumes "nmd_behind D nm nm2" "get_clear_vlan_cmd sh i sw cmd nm = Some (n, cmd', nm')"
  shows "\<exists>nm2'. get_clear_vlan_cmd sh i sw cmd nm2 = Some (n, cmd', nm2') \<and> nmd_behind D nm' nm2'"
proof (cases "filter (\<lambda>p. getSwitchId p = sw) (ports (vlan_arr nm ! i)) = []")
  case True
  then show ?thesis using assms by (auto simp: get_clear_vlan_cmd_def nmd_behind_def Let_def)
next
  case False
  have arr: "vlan_arr nm2 = vlan_arr nm" and net: "net_behind D (nm_net nm) (nm_net nm2)"
    using assms(1) by (simp_all add: nmd_behind_def)
  from assms(2) False obtain ok1 c1 s1 ok2 s2 where
    1: "set_switch_pvids sh (get_switch_ports sw (vlan_arr nm ! i)) sw default_vlan cmd (nm_net nm) = Some (ok1, c1, s1)" and
    2: "set_switch_vlan_membership sh [] sw (vlanId (vlan_arr nm ! i)) (between_command sw c1) s1 = Some (ok2, cmd', s2)"
    by (auto simp: get_clear_vlan_cmd_def Let_def bind_eq_Some_conv)
  from behind_pvids [OF net 1] obtain t1 where
    t1: "set_switch_pvids sh (get_switch_ports sw (vlan_arr nm ! i)) sw default_vlan cmd (nm_net nm2) = Some (ok1, c1, t1)"
      "net_behind D s1 t1" by blast
  from behind_membership [OF t1(2) 2] obtain t2 where
    t2: "set_switch_vlan_membership sh [] sw (vlanId (vlan_arr nm ! i)) (between_command sw c1) t1 = Some (ok2, cmd', t2)"
      "net_behind D s2 t2" by blast
  have u: "nmd_behind D (nm\<lparr>nm_net := s2\<rparr>) (nm2\<lparr>nm_net := t2\<rparr>)" using assms(1) t2(2) by (simp add: nmd_behind_def)
  have "vlan_arr (upd_vlan i f (nm2\<lparr>nm_net := t2\<rparr>)) = vlan_arr (upd_vlan i f (nm\<lparr>nm_net := s2\<rparr>))" for f
    by (simp add: upd_vlan_def arr)
  with False assms(2) 1 2 t1(1) t2(1) show ?thesis
    by (auto simp: get_clear_vlan_cmd_def Let_def arr behind_upd_vlan [OF u]
        behind_free_vlan [OF behind_upd_vlan [OF behind_upd_vlan [OF u]]])
qed

lemma behind_get_vlan: "nmd_behind D nm nm2 \<Longrightarrow> get_vlan v nm2 = get_vlan v nm"
  by (simp add: nmd_behind_def get_vlan_def)

lemma behind_clear_cmds:
  "nmd_behind D nm nm2 \<Longrightarrow> clear_cmds sh sw vids k cmd nm = Some (n, cmd', nm') \<Longrightarrow>
    \<exists>nm2'. clear_cmds sh sw vids k cmd nm2 = Some (n, cmd', nm2') \<and> nmd_behind D nm' nm2'"
proof (induction vids arbitrary: k cmd nm nm2)
  case (Cons v vids)
  from Cons.prems(2) obtain i m c nm1 where
    i: "get_vlan v nm = Some i" "get_clear_vlan_cmd sh i sw cmd nm = Some (m, c, nm1)"
      "clear_cmds sh sw vids (k + m) (between_command sw c) nm1 = Some (n, cmd', nm')"
    by (auto simp: bind_eq_Some_conv)
  from behind_clear_cmd [OF Cons.prems(1) i(2)] obtain nm3 where
    "get_clear_vlan_cmd sh i sw cmd nm2 = Some (m, c, nm3)" "nmd_behind D nm1 nm3" by blast
  with Cons.IH [OF this(2) i(3)] behind_get_vlan [OF Cons.prems(1)] i(1) show ?case by auto
qed auto

lemma behind_clear_empty:
  "nmd_behind D nm nm2 \<Longrightarrow> clear_empty_vlans vids nm = Some nm' \<Longrightarrow>
    \<exists>nm2'. clear_empty_vlans vids nm2 = Some nm2' \<and> nmd_behind D nm' nm2'"
proof (induction vids arbitrary: nm nm2)
  case (Cons v vids)
  from Cons.prems(2) obtain i where
    i: "get_vlan v nm = Some i" "clear_empty_vlans vids (clear_if_empty i nm) = Some nm'"
    by (auto simp: bind_eq_Some_conv)
  have "vlan_arr nm2 = vlan_arr nm" using Cons.prems(1) by (simp add: nmd_behind_def)
  then have "nmd_behind D (clear_if_empty i nm) (clear_if_empty i nm2)"
    using Cons.prems(1) by (auto simp: clear_if_empty_def Let_def intro: behind_free_vlan behind_upd_vlan)
  from Cons.IH [OF this i(2)] behind_get_vlan [OF Cons.prems(1)] i(1) show ?case by auto
qed auto

section \<open>What the threads still have to do\<close>

definition sent_text :: "switch_cmd \<Rightarrow> string" where
  "sent_text c = c_str (sc_cmd c @ [quote, newline])"

definition pending :: "switch_cmd \<Rightarrow> string multiset" where
  "pending c = (case sc_sender c of At_Start \<Rightarrow> if has_ssh (sc_switch_id c) then {# sent_text c #} else {#}
     | At_Exec \<Rightarrow> {# sent_text c #} | _ \<Rightarrow> {#})"

definition goes_well :: "shell \<Rightarrow> switch_cmd \<Rightarrow> bool" where
  "goes_well sh c = (case sc_sender c of At_Start \<Rightarrow> has_ssh (sc_switch_id c) \<longrightarrow> sh_status sh (sent_text c) = 0
     | At_Exec \<Rightarrow> sh_status sh (sent_text c) = 0 | At_Finish r \<Rightarrow> r | At_Store r \<Rightarrow> r | At_End \<Rightarrow> sc_state c \<noteq> CMD_FAILED)"

definition cmd_ok :: "switch_cmd \<Rightarrow> bool" where
  "cmd_ok c \<longleftrightarrow> (sc_state c = CMD_SENT \<longleftrightarrow> sc_sender c \<noteq> At_End)"

definition steps_left :: "switch_cmd \<Rightarrow> nat" where
  "steps_left c = (case sc_sender c of At_Start \<Rightarrow> 4 | At_Exec \<Rightarrow> 3 | At_Finish r \<Rightarrow> 2 | At_Store r \<Rightarrow> 1 | At_End \<Rightarrow> 0)"

lemmas sender_defs = pending_def goes_well_def cmd_ok_def steps_left_def sent_text_def

lemma wrapper_step:
  assumes "send_command_wrapper sh c t = (c', t')" "sc_sender c \<noteq> At_End" "cmd_ok c" "net_behind (pending c + D) s t"
  shows "cmd_ok c' \<and> goes_well sh c' = goes_well sh c \<and> net_behind (pending c' + D) s t' \<and> steps_left c' < steps_left c"
  using assms
  by (cases "sc_sender c")
    (auto simp: send_command_wrapper_def sender_defs net_behind_def net_start_ssh_def net_finish_ssh_def exec_ssh_def Let_def
      split: if_splits prod.splits)

lemma send_behind:
  assumes "net_behind D s t" "send_command sh sw cmd s = (r, s')"
  shows "\<exists>t'. send_command sh sw cmd t = (r, t') \<and> net_behind D s' t'"
  using assms
  by (auto simp: send_command_def net_behind_def net_start_ssh_def net_finish_ssh_def exec_ssh_def Let_def
      split: if_splits prod.splits)

lemma sent_later:
  assumes "net_behind D s t" "send_command sh sw cmd s = (r, s')"
    and "c = \<lparr>sc_switch_id = sw, sc_cmd = cmd, sc_state = CMD_SENT, sc_sender = At_Start\<rparr>"
  shows "goes_well sh c = r \<and> net_behind (D + pending c) s' t"
  using assms
  by (auto simp: send_command_def sender_defs has_ssh_def net_behind_def net_start_ssh_def net_finish_ssh_def exec_ssh_def Let_def
      split: if_splits prod.splits)

section \<open>The invariant\<close>

definition all_pending :: "switch_cmd list \<Rightarrow> string multiset" where
  "all_pending cs = sum_list (map pending cs)"

lemma all_pending_simps [simp]:
  "all_pending [] = {#}" "all_pending (xs @ ys) = all_pending xs + all_pending ys" "all_pending (c # cs) = pending c + all_pending cs"
  by (simp_all add: all_pending_def)

lemma ended_pending: "\<forall>c \<in> set cs. sc_sender c = At_End \<Longrightarrow> all_pending cs = {#}"
  by (induction cs) (simp_all add: pending_def)

text \<open>\<open>rtn\<close> and \<open>nm1\<close> are what the version without threads has after its loop over the switches, \<open>nm'\<close> what it ends with.\<close>

fun main_inv :: "shell \<Rightarrow> switch_vlan list \<Rightarrow> bool \<Rightarrow> nmd \<Rightarrow> nmd \<Rightarrow> switch_cmd list \<Rightarrow> nmd \<Rightarrow> main_thread \<Rightarrow> bool" where
  "main_inv sh vids rtn nm1 nm' cs nm (Building sws) \<longleftrightarrow>
     (\<exists>nm0. clear_loop sh sws vids (\<forall>c \<in> set cs. goes_well sh c) nm0 = Some (rtn, nm1) \<and> nmd_behind (all_pending cs) nm0 nm)"
| "main_inv sh vids rtn nm1 nm' cs nm (Polling i b) \<longleftrightarrow>
     rtn = (\<forall>c \<in> set cs. goes_well sh c) \<and> nmd_behind (all_pending cs) nm1 nm \<and> i \<le> length cs \<and>
     (b \<or> (\<exists>c \<in> set cs. sc_state c = CMD_FAILED)) \<and>
     (\<forall>j < i. sc_state (cs ! j) \<noteq> CMD_SENT \<and> (b \<longrightarrow> sc_state (cs ! j) \<noteq> CMD_FAILED))"
| "main_inv sh vids rtn nm1 nm' cs nm (Returned b) \<longleftrightarrow>
     b = rtn \<and> (\<forall>c \<in> set cs. sc_sender c = At_End) \<and> nmd_behind {#} nm' nm"

definition clear_inv :: "shell \<Rightarrow> switch_vlan list \<Rightarrow> bool \<Rightarrow> nmd \<Rightarrow> nmd \<Rightarrow> clear_run \<Rightarrow> bool" where
  "clear_inv sh vids rtn nm1 nm' r \<longleftrightarrow> (\<forall>c \<in> set (switch_commands r). cmd_ok c) \<and>
     main_inv sh vids rtn nm1 nm' (switch_commands r) (cr_nmd r) (cr_main r)"

lemma main_inv_sends:
  assumes c: "send_command_wrapper sh c (nm_net nm) = (c', t')" "sc_sender c \<noteq> At_End" "cmd_ok c"
    and inv: "main_inv sh vids rtn nm1 nm' (xs @ c # ys) nm m"
  shows "cmd_ok c' \<and> main_inv sh vids rtn nm1 nm' (xs @ c' # ys) (nm\<lparr>nm_net := t'\<rparr>) m"
proof -
  have step: "cmd_ok c' \<and> goes_well sh c' = goes_well sh c \<and> nmd_behind (all_pending (xs @ c' # ys)) nm0 (nm\<lparr>nm_net := t'\<rparr>)"
    if "nmd_behind (all_pending (xs @ c # ys)) nm0 nm" for nm0
    using wrapper_step [OF c, of "all_pending xs + all_pending ys" "nm_net nm0"] that by (simp add: nmd_behind_def ac_simps)
  have sent: "sc_state c = CMD_SENT" using c(2,3) by (simp add: cmd_ok_def)
  show ?thesis
  proof (cases m)
    case (Building sws)
    then show ?thesis using inv step by fastforce
  next
    case (Polling i b)
    then have i: "i \<le> length xs" using inv sent by (auto simp: not_le dest: spec [of _ "length xs"])
    then have "(xs @ c' # ys) ! j = (xs @ c # ys) ! j" if "j < i" for j using that by (simp add: nth_append)
    then show ?thesis using Polling inv step [of nm1] sent by auto
  next
    case (Returned b)
    then show ?thesis using inv c(2) by simp
  qed
qed

lemma main_inv_built:
  assumes inv: "main_inv sh vids rtn nm1 nm' cs nm (Building (sw # sws))"
    and b: "clear_cmds sh sw vids 0 (start_command sw []) nm = Some (n, cmd, nm2)"
    and c: "c = (if n > 0 then \<lparr>sc_switch_id = sw, sc_cmd = cmd, sc_state = CMD_SENT, sc_sender = At_Start\<rparr>
      else \<lparr>sc_switch_id = sw, sc_cmd = cmd, sc_state = CMD_FINE, sc_sender = At_End\<rparr>)"
  shows "main_inv sh vids rtn nm1 nm' (cs @ [c]) nm2 (Building sws)"
proof -
  from inv obtain nm0 where l: "clear_loop sh (sw # sws) vids (\<forall>c \<in> set cs. goes_well sh c) nm0 = Some (rtn, nm1)"
    and nb: "nmd_behind (all_pending cs) nm0 nm" by auto
  from l obtain k cm nm3 where k: "clear_cmds sh sw vids 0 (start_command sw []) nm0 = Some (k, cm, nm3)"
    by (auto simp: bind_eq_Some_conv)
  from behind_clear_cmds [OF nb k] b have same: "k = n" "cm = cmd" "nmd_behind (all_pending cs) nm3 nm2" by auto
  show ?thesis
  proof (cases "n > 0")
    case False
    then have "goes_well sh c" "pending c = {#}" by (simp_all add: c goes_well_def pending_def)
    with False l k same show ?thesis by auto
  next
    case True
    obtain r s where r: "send_command sh sw cmd (nm_net nm3) = (r, s)" by force
    have "net_behind (all_pending cs) (nm_net nm3) (nm_net nm2)" using same(3) by (simp add: nmd_behind_def)
    from sent_later [OF this r] c True have c': "goes_well sh c = r" "net_behind (all_pending cs + pending c) s (nm_net nm2)" by auto
    have "nmd_behind (all_pending (cs @ [c])) (nm3\<lparr>nm_net := s\<rparr>) nm2"
      using same(3) c'(2) by (simp add: nmd_behind_def)
    moreover have "clear_loop sh sws vids (\<forall>c \<in> set (cs @ [c]). goes_well sh c) (nm3\<lparr>nm_net := s\<rparr>) = Some (rtn, nm1)"
      using l k same(1,2) True r c'(1) by (auto split: if_splits)
    ultimately show ?thesis by (subst main_inv.simps) blast
  qed
qed

lemma main_inv_in_place:
  assumes inv: "main_inv sh vids rtn nm1 nm' cs nm (Building (sw # sws))"
    and b: "clear_cmds sh sw vids 0 (start_command sw []) nm = Some (n, cmd, nm2)" "n > 0"
    and st: "send_state sh sw cmd (nm_net nm2) = (st, t)"
  shows "main_inv sh vids rtn nm1 nm' (cs @ [\<lparr>sc_switch_id = sw, sc_cmd = cmd, sc_state = st, sc_sender = At_End\<rparr>])
    (nm2\<lparr>nm_net := t\<rparr>) (Building sws)"
proof -
  let ?c = "\<lparr>sc_switch_id = sw, sc_cmd = cmd, sc_state = st, sc_sender = At_End\<rparr>"
  from inv obtain nm0 where l: "clear_loop sh (sw # sws) vids (\<forall>c \<in> set cs. goes_well sh c) nm0 = Some (rtn, nm1)"
    and nb: "nmd_behind (all_pending cs) nm0 nm" by auto
  from l obtain k cm nm3 where k: "clear_cmds sh sw vids 0 (start_command sw []) nm0 = Some (k, cm, nm3)"
    by (auto simp: bind_eq_Some_conv)
  from behind_clear_cmds [OF nb k] b have same: "k = n" "cm = cmd" "nmd_behind (all_pending cs) nm3 nm2" by auto
  obtain r s where r: "send_command sh sw cmd (nm_net nm3) = (r, s)" by force
  have "net_behind (all_pending cs) (nm_net nm3) (nm_net nm2)" using same(3) by (simp add: nmd_behind_def)
  from send_behind [OF this r] st have t: "st = (if r then CMD_FINE else CMD_FAILED)" "net_behind (all_pending cs) s t"
    by (auto simp: send_state_def)
  have "nmd_behind (all_pending (cs @ [?c])) (nm3\<lparr>nm_net := s\<rparr>) (nm2\<lparr>nm_net := t\<rparr>)"
    using same(3) t(2) by (simp add: nmd_behind_def pending_def)
  moreover have "clear_loop sh sws vids (\<forall>c \<in> set (cs @ [?c]). goes_well sh c) (nm3\<lparr>nm_net := s\<rparr>) = Some (rtn, nm1)"
    using l k same(1,2) b(2) r t(1) by (auto simp: goes_well_def split: if_splits)
  ultimately show ?thesis by (subst main_inv.simps) blast
qed

lemma all_ended:
  assumes "\<forall>c \<in> set cs. cmd_ok c" "\<forall>j < length cs. sc_state (cs ! j) \<noteq> CMD_SENT"
  shows "\<forall>c \<in> set cs. sc_sender c = At_End"
proof
  fix c assume "c \<in> set cs"
  with assms show "sc_sender c = At_End" by (auto simp: cmd_ok_def in_set_conv_nth [of c])
qed

text \<open>At the end of a pass that finds no command being sent, its result is that of all commands.\<close>

lemma main_inv_returns:
  assumes inv: "main_inv sh vids rtn nm1 nm' cs nm (Polling (length cs) b)" and ok: "\<forall>c \<in> set cs. cmd_ok c"
    and e: "clear_empty_vlans vids nm1 = Some nm'" "clear_empty_vlans vids nm = Some nm2"
  shows "main_inv sh vids rtn nm1 nm' cs nm2 (Returned b)"
proof -
  have ended: "\<forall>c \<in> set cs. sc_sender c = At_End" by (rule all_ended [OF ok]) (use inv in simp)
  then have g: "goes_well sh c \<longleftrightarrow> sc_state c \<noteq> CMD_FAILED" if "c \<in> set cs" for c using that by (simp add: goes_well_def)
  have "b \<longrightarrow> (\<forall>c \<in> set cs. sc_state c \<noteq> CMD_FAILED)" using inv by (auto simp: in_set_conv_nth)
  then have "b = rtn" using inv g unfolding main_inv.simps by blast
  moreover have "nmd_behind {#} nm' nm2"
    using inv ended_pending [OF ended] behind_clear_empty [of "{#}" nm1 nm vids nm'] e by auto
  ultimately show ?thesis using ended by simp
qed

lemma clear_inv_step:
  assumes "clear_step sh vids r r'" "clear_inv sh vids rtn nm1 nm' r" "clear_empty_vlans vids nm1 = Some nm'"
  shows "clear_inv sh vids rtn nm1 nm' r'"
  using assms(1)
proof cases
  case (built sw sws n cmd nm)
  then show ?thesis using assms(2) main_inv_built [of sh vids rtn nm1 nm' "switch_commands r" "cr_nmd r" sw sws n cmd nm]
    by (simp add: clear_inv_def cmd_ok_def)
next
  case (in_place sw sws n cmd nm st s)
  have "st \<noteq> CMD_SENT" using in_place(5) by (auto simp: send_state_def split: prod.splits if_splits)
  with in_place show ?thesis
    using assms(2) main_inv_in_place [of sh vids rtn nm1 nm' "switch_commands r" "cr_nmd r" sw sws n cmd nm st s]
    by (simp add: clear_inv_def cmd_ok_def)
next
  case (sends i c s)
  let ?cs = "switch_commands r"
  have cs: "?cs = take i ?cs @ ?cs ! i # drop (Suc i) ?cs" "?cs[i := c] = take i ?cs @ c # drop (Suc i) ?cs"
    using sends(2) by (simp_all add: id_take_nth_drop upd_conv_take_nth_drop)
  have ok: "\<forall>c \<in> set ?cs. cmd_ok c" "cmd_ok (?cs ! i)" using assms(2) sends(2) by (simp_all add: clear_inv_def)
  have inv: "main_inv sh vids rtn nm1 nm' (take i ?cs @ ?cs ! i # drop (Suc i) ?cs) (cr_nmd r) (cr_main r)"
    using assms(2) cs(1) by (simp add: clear_inv_def)
  have "\<forall>c \<in> set (take i ?cs @ drop (Suc i) ?cs). cmd_ok c" using ok(1) by (auto dest: in_set_takeD in_set_dropD)
  with main_inv_sends [OF sends(4,3) ok(2) inv] sends(1) cs(2) show ?thesis by (simp add: clear_inv_def)
next
  case waits
  then show ?thesis using assms(2) by (auto simp: clear_inv_def)
next
  case (unfinished i b)
  then show ?thesis using assms(2) by (auto simp: clear_inv_def)
next
  case (polled i b)
  then show ?thesis using assms(2) by (auto simp: clear_inv_def less_Suc_eq)
next
  case (returns b nm)
  then show ?thesis using assms(2,3) main_inv_returns [of sh vids rtn nm1 nm' "switch_commands r" "cr_nmd r" b nm]
    by (simp add: clear_inv_def)
qed

section \<open>Every run can end\<close>

fun main_left :: "nat \<Rightarrow> main_thread \<Rightarrow> nat" where
  "main_left n (Building sws) = 7 * length sws + n + 2"
| "main_left n (Polling i b) = n - i + 1"
| "main_left n (Returned b) = 0"

definition clear_left :: "clear_run \<Rightarrow> nat" where
  "clear_left r = main_left (length (switch_commands r)) (cr_main r) + sum_list (map steps_left (switch_commands r))"

lemma clear_progress:
  assumes inv: "clear_inv sh vids rtn nm1 nm' r" and e: "clear_empty_vlans vids nm1 = Some nm'"
    and open_run: "\<forall>b. cr_main r \<noteq> Returned b"
  shows "\<exists>r'. clear_step sh vids r r' \<and> clear_left r' < clear_left r"
proof (cases "\<exists>i < length (switch_commands r). sc_sender (switch_commands r ! i) \<noteq> At_End")
  case True
  let ?cs = "switch_commands r"
  from True obtain i where i: "i < length ?cs" "sc_sender (?cs ! i) \<noteq> At_End" by blast
  obtain c s where w: "send_command_wrapper sh (?cs ! i) (nm_net (cr_nmd r)) = (c, s)" by force
  have "steps_left c < steps_left (?cs ! i)"
    using w i(2) by (cases "sc_sender (?cs ! i)") (auto simp: send_command_wrapper_def steps_left_def Let_def split: if_splits prod.splits)
  moreover have "sum_list (map steps_left (?cs[i := c])) + steps_left (?cs ! i) = sum_list (map steps_left ?cs) + steps_left c"
    using i(1) elem_le_sum_list [of i "map steps_left ?cs"] by (simp add: map_update sum_list_update)
  ultimately have "clear_left (r\<lparr>switch_commands := ?cs[i := c], cr_nmd := (cr_nmd r)\<lparr>nm_net := s\<rparr>\<rparr>) < clear_left r"
    by (simp add: clear_left_def)
  with clear_step.sends [OF i w] show ?thesis by blast
next
  case False
  then have idle: "sc_state (switch_commands r ! i) \<noteq> CMD_SENT" if "i < length (switch_commands r)" for i
    using that inv by (auto simp: clear_inv_def cmd_ok_def)
  show ?thesis
  proof (cases "cr_main r")
    case (Building sws)
    show ?thesis
    proof (cases sws)
      case Nil
      then show ?thesis using clear_step.waits [of r sh vids] Building by (force simp: clear_left_def)
    next
      case (Cons sw rest)
      with inv Building obtain nm0 b where nm0: "clear_loop sh (sw # rest) vids b nm0 = Some (rtn, nm1)"
        "nmd_behind (all_pending (switch_commands r)) nm0 (cr_nmd r)" by (auto simp: clear_inv_def)
      then obtain k where "clear_cmds sh sw vids 0 (start_command sw []) nm0 = Some k" by (auto simp: bind_eq_Some_conv)
      with behind_clear_cmds [OF nm0(2)] obtain n cmd nm where
        c: "clear_cmds sh sw vids 0 (start_command sw []) (cr_nmd r) = Some (n, cmd, nm)" by (cases k) blast
      from clear_step.built [OF _ c] Building Cons show ?thesis
        by (force simp: clear_left_def steps_left_def)
    qed
  next
    case (Polling i b)
    then have i: "i \<le> length (switch_commands r)" using inv by (simp add: clear_inv_def)
    show ?thesis
    proof (cases "i < length (switch_commands r)")
      case True
      from clear_step.polled [OF Polling True idle [OF True]] Polling True show ?thesis by (force simp: clear_left_def)
    next
      case False
      with i Polling have p: "cr_main r = Polling (length (switch_commands r)) b" by simp
      have "nmd_behind (all_pending (switch_commands r)) nm1 (cr_nmd r)" using inv Polling by (simp add: clear_inv_def)
      from behind_clear_empty [OF this e] obtain nm where "clear_empty_vlans vids (cr_nmd r) = Some nm" by blast
      from clear_step.returns [OF p this] Polling show ?thesis by (force simp: clear_left_def)
    qed
  qed (use open_run in simp)
qed

lemma clear_ends:
  assumes "clear_inv sh vids rtn nm1 nm' r" "clear_empty_vlans vids nm1 = Some nm'"
  shows "\<exists>r'. rtranclp (clear_step sh vids) r r' \<and> cr_main r' = Returned rtn"
  using assms(1)
proof (induction "clear_left r" arbitrary: r rule: less_induct)
  case less
  show ?case
  proof (cases "\<exists>b. cr_main r = Returned b")
    case True
    then show ?thesis using less.prems by (auto simp: clear_inv_def)
  next
    case False
    then obtain r' where r': "clear_step sh vids r r'" "clear_left r' < clear_left r"
      using clear_progress [OF less.prems assms(2)] by blast
    from less.hyps [OF r'(2) clear_inv_step [OF r'(1) less.prems assms(2)]] r'(1) show ?thesis
      by (meson converse_rtranclp_into_rtranclp)
  qed
qed

lemma clear_runs:
  assumes "rtranclp (clear_step sh vids) r r'" "clear_inv sh vids rtn nm1 nm' r" "clear_empty_vlans vids nm1 = Some nm'"
  shows "clear_inv sh vids rtn nm1 nm' r'"
  using assms(1,2) by induction (simp_all add: clear_inv_step [OF _ _ assms(3)])

section \<open>The outcome\<close>

definition clear_start :: "session \<Rightarrow> nmd \<Rightarrow> clear_run" where
  "clear_start se nm = \<lparr>cr_main = Building (sess_switches se), switch_commands = [], cr_nmd = nm\<rparr>"

lemma clear_start_inv:
  assumes "session_clear sh se nm = Some (rtn, se', nm')" "\<not> cleared se"
  shows "\<exists>nm1. clear_inv sh (removed_vlans se') rtn nm1 nm' (clear_start se nm) \<and> clear_empty_vlans (removed_vlans se') nm1 = Some nm'"
  using assms unfolding session_clear_in_order clear_session_unthreaded_def
  by (auto simp: clear_inv_def clear_start_def nmd_behind_def net_behind_def Let_def bind_eq_Some_conv) metis

text \<open>C35: However the threads of \<open>clear_session\<close> are interleaved, with each other and with the thread that builds the
  commands and polls, and whether or not threads can be made, the clearing can always end, and it ends as \<open>session_clear\<close>
  does: with the same result, no earlier than the last of its threads, the same VLANs, free identifiers and sessions, and
  the same commands executed, in some order.\<close>

theorem session_clear_threads:
  assumes "session_clear sh se nm = Some (rtn, se', nm')" "\<not> cleared se"
    and "rtranclp (clear_step sh (removed_vlans se')) (clear_start se nm) r"
  shows "(\<exists>r'. rtranclp (clear_step sh (removed_vlans se')) r r' \<and> cr_main r' = Returned rtn) \<and>
    (\<forall>b. cr_main r = Returned b \<longrightarrow> b = rtn \<and> (\<forall>c \<in> set (switch_commands r). sc_sender c = At_End) \<and>
      vlan_arr (cr_nmd r) = vlan_arr nm' \<and> free_vlans (cr_nmd r) = free_vlans nm' \<and> sessions (cr_nmd r) = sessions nm' \<and>
      mset (executed (nm_net (cr_nmd r))) = mset (executed (nm_net nm')))"
proof -
  from clear_start_inv [OF assms(1,2)] obtain nm1 where
    i: "clear_inv sh (removed_vlans se') rtn nm1 nm' (clear_start se nm)" and
    e: "clear_empty_vlans (removed_vlans se') nm1 = Some nm'" by blast
  note inv = clear_runs [OF assms(3) i e]
  have "cr_main r = Returned b \<Longrightarrow> main_inv sh (removed_vlans se') rtn nm1 nm' (switch_commands r) (cr_nmd r) (Returned b)" for b
    using inv unfolding clear_inv_def by simp
  then show ?thesis using clear_ends [OF inv e] by (auto simp: nmd_behind_def net_behind_def)
qed

section \<open>Example\<close>

text \<open>A session with ports on two switches; the command to the first fails.\<close>

definition two_switches :: nmd where
  "two_switches = \<lparr>nm_net = net_new\<lparr>switches := [switch_info_of ''onlsw7'' 48, switch_info_of ''onlsw8'' 48]\<rparr>,
     vlan_arr = [\<lparr>inUse = True, vlanId = 2, ports = [switch_port_of ''onlsw7'' 1, switch_port_of ''onlsw8'' 3], v_session = ''a''\<rparr>],
     free_vlans = [],
     sessions = [\<lparr>sessionID = ''a'', sess_switches = [''onlsw7'', ''onlsw8''], active_vlans = [2], removed_vlans = [],
       cleared = False\<rparr>]\<rparr>"

definition deaf_switch :: shell where
  "deaf_switch = \<lparr>sh_status = (\<lambda>t. if take 19 t = ''ssh -n admin@onlsw7'' then 255 else 0), sh_others = (\<lambda>_. [])\<rparr>"

lemma two_switches_clear:
  "map_option (\<lambda>(rtn, se', nm'). (rtn, removed_vlans se', free_vlans nm', length (executed (nm_net nm'))))
     (session_clear deaf_switch (sessions two_switches ! 0) two_switches) = Some (False, [2], [2], 2)"
  by code_simp

theorem session_clear_threads_witness:
  "\<exists>r. rtranclp (clear_step deaf_switch [2]) (clear_start (sessions two_switches ! 0) two_switches) r \<and>
    cr_main r = Returned False \<and> free_vlans (cr_nmd r) = [2] \<and> length (executed (nm_net (cr_nmd r))) = 2"
proof -
  let ?se = "sessions two_switches ! 0"
  obtain se' nm' where c: "session_clear deaf_switch ?se two_switches = Some (False, se', nm')" "removed_vlans se' = [2]"
    "free_vlans nm' = [2]" "length (executed (nm_net nm')) = 2"
    using two_switches_clear by (auto simp: map_option_case split: option.splits)
  have open_se: "\<not> cleared ?se" by (simp add: two_switches_def)
  from session_clear_threads [OF c(1) open_se rtranclp.rtrancl_refl] obtain r where
    r: "rtranclp (clear_step deaf_switch (removed_vlans se')) (clear_start ?se two_switches) r" "cr_main r = Returned False" by blast
  from session_clear_threads [OF c(1) open_se r(1)] r c show ?thesis by (metis mset_eq_length)
qed

end
