(* ===== verification/Nccp_Connection.thy ===== *)
theory Nccp_Connection
  imports Message Onl_Nodes
begin

text \<open>
  \<^verbatim>\<open>shared/nccp_connection.cc\<close>: connections and the listener. The socket is what the system
  gives: \<open>sock_in\<close> holds the pieces in which the incoming bytes arrive, one or more reads per piece
  and no piece empty, then end of file; \<open>sock_out\<close> the bytes that the system has accepted. The
  results of \<^verbatim>\<open>send\<close>, \<^verbatim>\<open>select\<close> and \<^verbatim>\<open>pthread_create\<close> are arguments.

  A message on the wire is its length in network order, four bytes, then its bytes (\<open>frame\<close>).
\<close>

section \<open>State\<close>

record nccp_connection =
  sockfd :: int
  sock_ready :: bool
  closed :: bool
  finished :: bool
  message_count :: int
  local_addr :: u32
  local_port :: u16
  remote_addr :: u32
  remote_port :: u16
  sock_in :: "u8 list list"
  sock_out :: "u8 list"

definition nccpconn_exception :: "string \<Rightarrow> string" where
  "nccpconn_exception e = ''NCCP connection exception: '' @ e"

text \<open>
  The connecting constructor: \<open>gethost\<close> is the lookup of \<^verbatim>\<open>gethostbyname_r\<close>, the address in
  network order; \<open>sfd\<close> what \<^verbatim>\<open>socket\<close> returns and \<open>conn_err\<close> the \<^verbatim>\<open>errno\<close> of a
  failed \<^verbatim>\<open>connect\<close>. The members it leaves alone keep what was in the memory \<open>m\<close>, and the log
  lines come with the result.
\<close>

definition connect_error_log :: "int \<Rightarrow> string" where
  "connect_error_log errno =
     ''nccp_connection::connect error '' @
     (if errno = 13 then ''EACCES''
      else if errno = 1 then ''EPERM''
      else if errno = 98 then ''EADDRINUSE''
      else if errno = 11 then ''EAGAIN''
      else if errno = 114 then ''EALREADY''
      else if errno = 111 then ''ECONNREFUSED''
      else if errno = 14 then ''EFAULT''
      else if errno = 115 then ''EINPROGRESS''
      else if errno = 110 then ''ETIMEDOUT''
      else int2str (of_int errno))"

definition nccp_connection_connect ::
    "(string \<Rightarrow> u8 list option) \<Rightarrow> int \<Rightarrow> int option \<Rightarrow> string \<Rightarrow> u16 \<Rightarrow> nccp_connection \<Rightarrow>
     (string + nccp_connection) \<times> string list" where
  "nccp_connection_connect gethost sfd conn_err addr port m =
     (let m = m\<lparr>sockfd := -1, sock_ready := False, closed := False, finished := False,
                message_count := 0\<rparr>;
          logstr = ''nccp_connection::nccp_connection: connect to addr '' @ addr @ '' port '' @
                   int2str (ucast port) in
      if port = 0 then (Inr m, [logstr])
      else
        (case gethost (c_str addr) of
           None \<Rightarrow> (Inl (nccpconn_exception ''gethostbyname_r error''), [logstr])
         | Some bs \<Rightarrow>
             (let m = m\<lparr>local_addr := 0, local_port := 0, remote_addr := un_be32 bs,
                        remote_port := port, sockfd := sfd\<rparr> in
              if sfd < 0 then (Inl (nccpconn_exception ''socket creation error''), [logstr])
              else
                (case conn_err of
                   Some errno \<Rightarrow> (Inl (nccpconn_exception ''connect error''),
                                  [logstr, connect_error_log errno])
                 | None \<Rightarrow> (Inr m, [logstr])))))"

definition nccp_connection_of ::
    "int \<Rightarrow> u32 \<Rightarrow> u16 \<Rightarrow> u32 \<Rightarrow> u16 \<Rightarrow> u8 list list \<Rightarrow> nccp_connection" where
  "nccp_connection_of sfd la lp ra rp inp =
     \<lparr>sockfd = sfd, sock_ready = False, closed = False, finished = False, message_count = 0,
      local_addr = la, local_port = lp, remote_addr = ra, remote_port = rp,
      sock_in = inp, sock_out = []\<rparr>"

definition conn_close :: "nccp_connection \<Rightarrow> nccp_connection" where
  "conn_close c = (if closed c then c else c\<lparr>closed := True, sockfd := -1\<rparr>)"

definition conn_eq :: "nccp_connection \<Rightarrow> nccp_connection \<Rightarrow> bool" where
  "conn_eq a c =
     (if local_addr a = 0 \<or> local_port a = 0 then False
      else if local_addr c = 0 \<or> local_port c = 0 then False
      else if local_addr a = local_addr c \<and> local_port a = local_port c \<and>
              remote_addr a = remote_addr c \<and> remote_port a = remote_port c then True
      else False)"

definition increment_msg_count :: "nccp_connection \<Rightarrow> nccp_connection" where
  "increment_msg_count c = c\<lparr>message_count := message_count c + 1\<rparr>"

definition decrement_msg_count :: "nccp_connection \<Rightarrow> nccp_connection" where
  "decrement_msg_count c = c\<lparr>message_count := message_count c - 1\<rparr>"

definition has_outstanding_msgs :: "nccp_connection \<Rightarrow> bool" where
  "has_outstanding_msgs c = (if message_count c = 0 then False else True)"

definition get_remote_hostname :: "(u32 \<Rightarrow> string option) \<Rightarrow> nccp_connection \<Rightarrow> string" where
  "get_remote_hostname getname c =
     (case getname (remote_addr c) of
        None \<Rightarrow> []
      | Some host \<Rightarrow> takeWhile (\<lambda>x. x \<noteq> CHR ''.'') (c_str host))"

section \<open>Receiving\<close>

text \<open>\<^verbatim>\<open>read\<close> of at most \<open>n\<close> bytes: some of the next piece, nothing at the end of file.\<close>

fun sock_read :: "nat \<Rightarrow> u8 list list \<Rightarrow> u8 list \<times> u8 list list" where
  "sock_read n [] = ([], [])"
| "sock_read n (p # ps) = (take n p, if length p \<le> n then ps else drop n p # ps)"

function (sequential) read_rest :: "nat \<Rightarrow> u8 list list \<Rightarrow> u8 list option \<times> u8 list list" where
  "read_rest 0 ps = (Some [], ps)"
| "read_rest n ps =
     (case sock_read n ps of
        ([], ps') \<Rightarrow> (None, ps')
      | (x # xs, ps') \<Rightarrow>
          (case read_rest (n - length (x # xs)) ps' of
             (r, ps'') \<Rightarrow> (map_option ((@) (x # xs)) r, ps'')))"
  by pat_completeness auto
termination by (relation "measure fst") auto

text \<open>
  \<open>word\<close> is what the variable \<^verbatim>\<open>msg_length\<close> held before the read of the length: a read that
  returns fewer than four bytes leaves the other ones.
\<close>

definition get_message :: "u8 list \<Rightarrow> nccp_connection \<Rightarrow> u8 list option \<times> nccp_connection" where
  "get_message word c =
     (let (bs, ps) = sock_read 4 (sock_in c);
          msg_length = un_be32 (bs @ drop (length bs) word);
          c = c\<lparr>sock_in := ps\<rparr> in
      if bs = [] then (None, conn_close c)
      else if msg_length \<le> 0 then (None, conn_close c)
      else
        (case read_rest (unat msg_length) ps of
           (None, ps) \<Rightarrow> (None, conn_close (c\<lparr>sock_in := ps\<rparr>))
         | (Some buf, ps) \<Rightarrow> (Some buf, c\<lparr>sock_in := ps\<rparr>)))"

datatype select_result = SelFailed | SelTimeout | SelReady

text \<open>
  \<^verbatim>\<open>receive_messages_forever\<close>: one entry of the list per round, with the result of
  \<^verbatim>\<open>select\<close>, the old content of \<^verbatim>\<open>msg_length\<close> and whether a thread could be created. The
  value is the messages handed to a thread, and whether the loop has returned.
\<close>

fun receive_messages_forever ::
    "(select_result \<times> u8 list \<times> bool) list \<Rightarrow> nccp_connection \<Rightarrow> u8 list list \<times> bool \<times> nccp_connection" where
  "receive_messages_forever [] c = ([], closed c \<or> finished c, c)"
| "receive_messages_forever ((sel, word, thread) # rounds) c =
     (if closed c \<or> finished c then ([], True, c)
      else
        (case sel of
           SelFailed \<Rightarrow> ([], True, c)
         | SelTimeout \<Rightarrow> receive_messages_forever rounds c
         | SelReady \<Rightarrow>
             (case get_message word c of
                (None, c) \<Rightarrow> ([], True, c)
              | (Some m, c) \<Rightarrow>
                  (let c = increment_msg_count c in
                   if \<not> thread then ([], True, c)
                   else
                     (case receive_messages_forever rounds c of
                        (ms, returned, c) \<Rightarrow> (m # ms, returned, c))))))"

definition receive_messages ::
    "(select_result \<times> u8 list \<times> bool) list \<Rightarrow> nccp_connection \<Rightarrow> u8 list list \<times> bool \<times> nccp_connection" where
  "receive_messages rounds c =
     (case receive_messages_forever rounds c of
        (ms, returned, c) \<Rightarrow> (ms, returned, if returned then c\<lparr>finished := True\<rparr> else c))"

section \<open>Sending\<close>

text \<open>\<^verbatim>\<open>send\<close> with the return code \<open>rc\<close>: an error, or the number of bytes it took.\<close>

definition sock_send :: "int \<Rightarrow> u8 list \<Rightarrow> nccp_connection \<Rightarrow> nccp_connection" where
  "sock_send rc bs c = (if rc < 0 then c else c\<lparr>sock_out := sock_out c @ take (nat rc) bs\<rparr>)"

definition send_message ::
    "('m message_scheme \<Rightarrow> 'm message_scheme option) \<Rightarrow> int \<Rightarrow> int \<Rightarrow> 'm message_scheme \<Rightarrow> nccp_connection \<Rightarrow>
     (bool \<times> 'm message_scheme \<times> nccp_connection) option" where
  "send_message vwrite rc1 rc2 m c = do {
     m \<leftarrow> vwrite m;
     let buf = msg_buf m;
     let msg_length = be32 (num_bytes_stored buf);
     if num_bytes_stored buf = 0 then Some (False, m, c)
     else if rc1 < 0 then Some (False, m, conn_close c)
     else do {
       let c = sock_send rc1 msg_length c;
       if rc2 < 0 then Some (False, m, conn_close c)
       else Some (True, m, sock_send rc2 (sent_bytes buf) c)
     }
   }"

text \<open>\<^verbatim>\<open>message::send\<close>.\<close>

definition message_send ::
    "('m message_scheme \<Rightarrow> 'm message_scheme option) \<Rightarrow> int \<Rightarrow> int \<Rightarrow> 'm message_scheme \<Rightarrow> nccp_connection option \<Rightarrow>
     (bool \<times> 'm message_scheme \<times> nccp_connection option) option" where
  "message_send vwrite rc1 rc2 m conn =
     (case conn of
        Some c \<Rightarrow>
          if \<not> closed c then do {
            (ok, m, c) \<leftarrow> send_message vwrite rc1 rc2 (m\<lparr>msg_buf := buf_reset (msg_buf m)\<rparr>) c;
            Some (ok, m, Some c)
          } else Some (False, m, conn)
      | None \<Rightarrow> Some (False, m, conn))"

section \<open>Framing\<close>

definition frame :: "u8 list \<Rightarrow> u8 list" where
  "frame m = be32 (of_nat (length m)) @ m"

definition pieces_ok :: "u8 list list \<Rightarrow> bool" where
  "pieces_ok ps \<longleftrightarrow> [] \<notin> set ps"

lemma pieces_ok_simps [simp]: "pieces_ok []" "pieces_ok (p # ps) \<longleftrightarrow> p \<noteq> [] \<and> pieces_ok ps"
  by (auto simp: pieces_ok_def)

lemma sock_read_pieces:
  assumes "pieces_ok ps" and "sock_read n ps = (bs, ps')"
  shows "concat ps = bs @ concat ps'" and "pieces_ok ps'" and "length bs \<le> n"
    and "0 < n \<Longrightarrow> bs = [] \<longleftrightarrow> ps = []"
  using assms by (cases ps; auto split: if_splits)+

text \<open>Reading the body: whatever the pieces, exactly the next \<open>n\<close> bytes, if there are so many.\<close>

lemma read_rest_enough:
  "pieces_ok ps \<Longrightarrow> n \<le> length (concat ps) \<Longrightarrow>
     \<exists>ps'. read_rest n ps = (Some (take n (concat ps)), ps') \<and>
       concat ps' = drop n (concat ps) \<and> pieces_ok ps'"
proof (induction n ps rule: read_rest.induct)
  case (2 v ps)
  obtain bs qs where r: "sock_read (Suc v) ps = (bs, qs)" by force
  note q = sock_read_pieces [OF "2.prems"(1) r]
  from q(4) "2.prems"(2) have "bs \<noteq> []" by auto
  then obtain x xs where bs: "bs = x # xs" by (cases bs) auto
  have "Suc v - length bs \<le> length (concat qs)" using q(1,3) "2.prems"(2) by simp
  with "2.IH" [OF r [symmetric] bs q(2)] bs obtain ps' where
    "read_rest (Suc v - length bs) qs = (Some (take (Suc v - length bs) (concat qs)), ps')"
    "concat ps' = drop (Suc v - length bs) (concat qs)" "pieces_ok ps'" by auto
  then show ?case using q(1,3) r bs by auto
qed simp

lemma read_rest_short:
  "pieces_ok ps \<Longrightarrow> length (concat ps) < n \<Longrightarrow> fst (read_rest n ps) = None"
proof (induction n ps rule: read_rest.induct)
  case (2 v ps)
  obtain bs qs where r: "sock_read (Suc v) ps = (bs, qs)" by force
  note q = sock_read_pieces [OF "2.prems"(1) r]
  show ?case
  proof (cases bs)
    case Nil
    with r show ?thesis by simp
  next
    case (Cons x xs)
    with q(1,3) "2.prems"(2) have "length (concat qs) < Suc v - length bs" by simp
    with "2.IH" [OF r [symmetric] Cons q(2)] r Cons show ?thesis
      by (auto split: prod.splits)
  qed
qed simp

lemma un_be32_be32_append: "un_be32 (be32 x @ ys) = x"
proof -
  have "un_be32 (be32 x @ ys) = un_be32 (be32 x)"
    by (simp add: un_be32_def be32_def)
  then show ?thesis by simp
qed

lemma get_message_frame:
  assumes ps: "sock_in c = p # ps" "pieces_ok (p # ps)" "4 \<le> length p"
    and str: "concat (p # ps) = frame m @ rest"
    and m: "m \<noteq> []" "length m < 2 ^ 32"
  shows "\<exists>ps'. get_message word c = (Some m, c\<lparr>sock_in := ps'\<rparr>) \<and> concat ps' = rest \<and>
    pieces_ok ps' \<and> ps' = snd (read_rest (length m) (snd (sock_read 4 (p # ps))))"
proof -
  obtain bs qs where r: "sock_read 4 (p # ps) = (bs, qs)" by force
  note q = sock_read_pieces [OF ps(2) r]
  have "length bs = 4" using r ps(3) by auto
  with q(1) str have bs: "bs = be32 (of_nat (length m))" and qs: "concat qs = m @ rest"
    by (auto simp: frame_def append_eq_append_conv)
  have u: "unat (of_nat (length m) :: u32) = length m"
    by (rule unat_of_nat_small) (use m in simp)
  with m(1) have nz: "\<not> (of_nat (length m) :: u32) \<le> 0"
    by (auto simp: word_le_nat_alt)
  from read_rest_enough [OF q(2), of "length m"] qs obtain ps' where
    "read_rest (length m) qs = (Some m, ps')" "concat ps' = rest" "pieces_ok ps'" by auto
  moreover have "un_be32 (bs @ drop (length bs) word) = of_nat (length m)"
    using bs by (simp add: un_be32_be32_append)
  ultimately show ?thesis using r bs u nz ps(1)
    by (simp add: get_message_def Let_def)
qed

lemma get_message_eof: "sock_in c = [] \<Longrightarrow> get_message word c = (None, conn_close c)"
  by (cases c) (simp add: get_message_def Let_def)

text \<open>The four bytes of each length arrive in one piece; the bodies may be cut anywhere.\<close>

fun whole_prefixes :: "u8 list list \<Rightarrow> u8 list list \<Rightarrow> bool" where
  "whole_prefixes [] ps = True"
| "whole_prefixes (m # ms) ps =
     ((case ps of [] \<Rightarrow> False | p # _ \<Rightarrow> 4 \<le> length p) \<and>
      whole_prefixes ms (snd (read_rest (length m) (snd (sock_read 4 ps)))))"

text \<open>C13: Framing: a connection that is sent any messages, their bodies cut into pieces anywhere, hands
  over exactly these messages in their order and closes at the end of the stream, having counted each once.\<close>

theorem receive_all:
  assumes "whole_prefixes ms (sock_in c)" and "pieces_ok (sock_in c)"
    and "concat (sock_in c) = concat (map frame ms)"
    and "\<forall>m \<in> set ms. m \<noteq> [] \<and> length m < 2 ^ 32"
    and "length words = Suc (length ms)" and "\<not> closed c" and "\<not> finished c"
  shows "receive_messages_forever (map (\<lambda>w. (SelReady, w, True)) words) c =
    (ms, True, c\<lparr>sock_in := [], closed := True, sockfd := -1,
                 message_count := message_count c + int (length ms)\<rparr>)"
  using assms
proof (induction ms arbitrary: c words)
  case Nil
  then obtain w where w: "words = [w]" by (cases words) auto
  have "sock_in c = []" using Nil.prems(2,3) by (cases "sock_in c") auto
  with Nil.prems w show ?case by (simp add: get_message_eof conn_close_def)
next
  case (Cons m ms)
  then obtain w ws where w: "words = w # ws" by (cases words) auto
  from Cons.prems(1) obtain p ps where ps: "sock_in c = p # ps" "4 \<le> length p"
    by (auto split: list.splits)
  have "concat (p # ps) = frame m @ concat (map frame ms)" using Cons.prems(3) ps by simp
  from get_message_frame [OF ps(1) _ ps(2) this, of w] Cons.prems(2,4) ps(1) obtain ps' where g:
    "get_message w c = (Some m, c\<lparr>sock_in := ps'\<rparr>)" "concat ps' = concat (map frame ms)"
    "pieces_ok ps'" "ps' = snd (read_rest (length m) (snd (sock_read 4 (p # ps))))" by auto
  with Cons.prems ps(1) w
    Cons.IH [of "c\<lparr>sock_in := ps', message_count := message_count c + 1\<rparr>" ws]
  show ?case by (simp add: increment_msg_count_def)
qed

theorem receive_all_witness:
  "\<exists>c'.
    receive_messages_forever (map (\<lambda>w. (SelReady, w, True)) [[], [], []])
      (nccp_connection_of 3 0 0 0 0 [[0, 0, 0, 2, 8], [9], [0, 0, 0, 1], [7]]) = ([[8, 9], [7]], True, c')"
proof -
  have "whole_prefixes [[8, 9], [7]] (sock_in (nccp_connection_of 3 0 0 0 0 [[0, 0, 0, 2, 8], [9], [0, 0, 0, 1], [7]]))"
    "concat (sock_in (nccp_connection_of 3 0 0 0 0 [[0, 0, 0, 2, 8], [9], [0, 0, 0, 1], [7]])) =
      concat (map frame [[8, 9], [7]])"
    by (simp_all add: nccp_connection_of_def frame_def be32_def)
  from receive_all [OF this(1) _ this(2), of "[[], [], []]"] show ?thesis
    by (auto simp: nccp_connection_of_def)
qed

text \<open>A length that arrives in pieces is not put together: the first piece is completed with the
  bytes that the variable held before, and when these make it zero the connection is closed and the
  message lost.\<close>

lemma get_message_cut:
  assumes "sock_in c = p # ps" and "p \<noteq> []" and "length p < 4"
    and "un_be32 (p @ drop (length p) word) = 0"
  shows "get_message word c = (None, conn_close (c\<lparr>sock_in := ps\<rparr>))"
  using assms by (simp add: get_message_def Let_def)

lemma get_message_cut_example:
  "fst (get_message [0, 0, 0, 0] (nccp_connection_of 3 0 0 0 0 [[0, 0], [0, 1, 7]])) = None"
  by (subst get_message_cut [of _ "[0, 0]" "[[0, 1, 7]]"])
    (simp_all add: nccp_connection_of_def un_be32_def numeral_nat)

section \<open>A message over the connection\<close>

context wire_message
begin

lemma message_send_frame:
  assumes "\<not> closed c" and "wr (m\<lparr>msg_buf := buf_reset (msg_buf m)\<rparr>) = Some m'"
    and "rc1 = 4" and "rc2 = int (length (enc m))"
  shows "message_send wr rc1 rc2 m (Some c) =
    Some (True, m', Some (c\<lparr>sock_out := sock_out c @ frame (enc m)\<rparr>))"
    and "enc m \<noteq> []" and "length (enc m) < 2 ^ 32"
proof -
  note s = write_sent [OF assms(2)]
  have "unat (num_bytes_stored (msg_buf m')) = length (enc m)"
    using s(2,3) by (simp add: unat_of_nat_small)
  with enc_not_Nil [of m] have nz: "num_bytes_stored (msg_buf m') \<noteq> 0"
    by auto
  with assms s show "message_send wr rc1 rc2 m (Some c) =
      Some (True, m', Some (c\<lparr>sock_out := sock_out c @ frame (enc m)\<rparr>))"
    by (simp add: message_send_def send_message_def sock_send_def frame_def)
qed (use enc_not_Nil write_sent(3) [OF assms(2)] in auto)

end

end
