(* ===== verification/Nmd_Wire.thy ===== *)
theory Nmd_Wire
  imports Nmd_Requests Nccp_Connection
begin

text \<open>
  From the resource daemon's object to the network daemon's: the classes of the requests satisfy the
  contract \<open>typed_message\<close> of the dispatcher, and the table that \<^verbatim>\<open>main\<close> fills has each class
  under its operation. \<open>sent_over\<close> is one message through a connection and the receiving loop.
\<close>

lemma header_append:
  "\<exists>tl. xs = hdr @ tl \<Longrightarrow> \<exists>tl. xs @ ys = hdr @ tl"
  by auto

lemma enc_switch_request_header:
  "\<exists>tl. enc_switch_request m = be16 (msg_type m) @ [msg_version m, msg_op m] @ tl"
  using enc_request_header [of m] by (auto simp: enc_switch_request_def)

interpretation switch_request: typed_message enc_switch_request switch_request_view
  switch_request_write switch_request_parse switch_request_ok "\<lambda>_. True" request_of_bytes
  by unfold_locales (rule enc_switch_request_header, use request_of_bytes_bytes in blast)

interpretation delete_vlan: typed_message enc_delete_vlan
  "\<lambda>m. (switch_request_view m, dv_vlanid m)" delete_vlan_write delete_vlan_parse
  switch_request_ok "\<lambda>_. True" request_of_bytes
proof unfold_locales
  fix m :: delete_vlan
  show "\<exists>tl. enc_delete_vlan m = be16 (msg_type m) @ [msg_version m, msg_op m] @ tl"
    using enc_switch_request_header [of m] by (auto simp: enc_delete_vlan_def)
qed (use request_of_bytes_bytes in blast)

interpretation add_to_vlan: typed_message enc_add_to_vlan add_to_vlan_view add_to_vlan_write
  add_to_vlan_parse add_to_vlan_ok "\<lambda>_. True" request_of_bytes
proof unfold_locales
  fix m :: add_to_vlan
  show "\<exists>tl. enc_add_to_vlan m = be16 (msg_type m) @ [msg_version m, msg_op m] @ tl"
    using enc_switch_request_header [of m] by (auto simp: enc_add_to_vlan_def)
qed (use request_of_bytes_bytes in blast)

interpretation delete_from_vlan: typed_message enc_delete_from_vlan
  "\<lambda>m. (switch_request_view m, df_vlanid m, df_port m)" delete_from_vlan_write
  delete_from_vlan_parse "\<lambda>m. switch_request_ok m \<and> switch_port_ok (df_port m)" "\<lambda>_. True"
  request_of_bytes
proof unfold_locales
  fix m :: delete_from_vlan
  show "\<exists>tl. enc_delete_from_vlan m = be16 (msg_type m) @ [msg_version m, msg_op m] @ tl"
    using enc_switch_request_header [of m] by (auto simp: enc_delete_from_vlan_def)
qed (use request_of_bytes_bytes in blast)

interpretation initialize: typed_message enc_initialize "\<lambda>m. (request_view m, in_switches m)"
  initialize_write initialize_parse initialize_ok "\<lambda>r. in_switches r = []" request_of_bytes
proof unfold_locales
  fix m :: initialize
  show "\<exists>tl. enc_initialize m = be16 (msg_type m) @ [msg_version m, msg_op m] @ tl"
    using enc_request_header [of m] by (auto simp: enc_initialize_def)
next
  fix junk junk' mbuf and r0 b :: initialize
  assume "message_of_bytes junk junk' mbuf r0 = Some b"
  then show "\<exists>r. request_of_bytes junk junk' mbuf r0 = Some r \<and> msg_buf r = msg_buf b \<and>
      (in_switches b = [] \<longrightarrow> in_switches r = [])"
    by (simp add: request_of_bytes_def)
qed

section \<open>The table of the daemon\<close>

lemma nmd_table:
  assumes "req_map d = (\<lambda>_. None)"
  shows "req_map (nmd_register junk junk' mem d) NCCP_Operation_AddVlan =
      Some (class_of (request_of_bytes junk junk') switch_request_parse (mem_request mem) Add_Vlan un_add_vlan)"
    and "req_map (nmd_register junk junk' mem d) NCCP_Operation_DeleteVlan =
      Some (class_of (request_of_bytes junk junk') delete_vlan_parse (mem_delete mem) Delete_Vlan un_delete_vlan)"
    and "req_map (nmd_register junk junk' mem d) NCCP_Operation_AddToVlan =
      Some (class_of (request_of_bytes junk junk') add_to_vlan_parse (mem_add_to mem) Add_To_Vlan un_add_to_vlan)"
    and "req_map (nmd_register junk junk' mem d) NCCP_Operation_DeleteFromVlan =
      Some (class_of (request_of_bytes junk junk') delete_from_vlan_parse (mem_delete_from mem)
        Delete_From_Vlan un_delete_from_vlan)"
    and "req_map (nmd_register junk junk' mem d) NCCP_Operation_Initialize =
      Some (class_of (request_of_bytes junk junk') initialize_parse (mem_initialize mem) Initialize un_initialize)"
    and "req_map (nmd_register junk junk' mem d) NCCP_Operation_StartSession =
      Some (class_of (request_of_bytes junk junk') switch_request_parse (mem_request mem)
        Start_Session un_start_session)"
    and "req_map (nmd_register junk junk' mem d) NCCP_Operation_ClearVlans =
      Some (class_of (request_of_bytes junk junk') switch_request_parse (mem_request mem)
        End_Session un_end_session)"
  by (simp_all add: nmd_register_def register_req_def Let_def assms)

section \<open>One message over a connection\<close>

text \<open>
  What a sender's connection puts on the wire, arriving at a receiver's in the pieces \<open>ps\<close>, is
  handed over as the message's bytes.
\<close>

context typed_message
begin

lemma sent_over:
  assumes "\<not> closed c" and "wr (m\<lparr>msg_buf := buf_reset (msg_buf m)\<rparr>) = Some m'" and "sock_out c = []"
    and "message_send wr 4 (int (length (enc m))) m (Some c) = Some (sent, m'', Some c')"
    and "sock_in r = p # ps" and "pieces_ok (p # ps)" and "4 \<le> length p"
    and "concat (p # ps) = sock_out c'"
  shows "\<exists>r'. get_message word r = (Some (enc m), r') \<and> closed r' = closed r \<and> concat (sock_in r') = []"
proof -
  note f = message_send_frame [OF assms(1,2) refl refl]
  from f(1) assms(3,4) have "sock_out c' = frame (enc m)" by simp
  with assms(8) have "concat (p # ps) = frame (enc m) @ []" by simp
  from get_message_frame [OF assms(5-7) this f(2,3), of word] show ?thesis by auto
qed

end

end
