(* ===== verification/Nmd_Properties.thy ===== *)
theory Nmd_Properties
  imports Nmd_Schedules Nmd_Wire
begin

text \<open>
  The properties of the network management daemon: its requests over all runs, its threads, the
  commands it sends to switches. The first section has the states in which the examples are computed.
\<close>

section \<open>Sample states\<close>


definition response_vlan :: "nmd_response \<Rightarrow> switch_vlan option" where
  "response_vlan r = (case r of Add_Vlan_Response x \<Rightarrow> Some (avr_vlanid x) | Switch_Response x \<Rightarrow> None)"

definition quiet_shell :: shell where
  "quiet_shell = \<lparr>sh_status = (\<lambda>_. 0), sh_others = (\<lambda>_. [])\<rparr>"

definition sample_memory :: nmd_memory where
  "sample_memory =
     \<lparr>mem_request = blank_switch_request '''' (), mem_delete = blank_switch_request '''' (delete_vlan.fields 0),
      mem_add_to = blank_switch_request '''' (add_to_vlan.fields 0 switch_port_new),
      mem_delete_from = blank_switch_request '''' (delete_from_vlan.fields 0 switch_port_new),
      mem_initialize = blank_request (initialize.fields []),
      mem_response = blank_switch_response 0 (),
      mem_add_response = blank_switch_response 0 (add_vlan_response.fields 0)\<rparr>"

definition fresh_nmd :: nmd where
  "fresh_nmd = vlan_set_new 253 net_new"

lemma fresh_nmd_reach: "nmd_reach quiet_shell {} fresh_nmd"
  unfolding fresh_nmd_def by (rule nmd_reach.start) (simp add: net_ok_def net_new_def)

lemma vlan_set_new_free:
  "unat n = Suc k \<Longrightarrow> free_vlans (vlan_set_new n s) = 2 # map (\<lambda>i. 2 + of_nat i) [1..<Suc k]"
  by (simp add: vlan_set_new_def upt_conv_Cons del: upt_Suc)

definition fresh_rest :: "switch_vlan list" where
  "fresh_rest = map (\<lambda>i. 2 + of_nat i) [1..<Suc 252]"

lemma fresh_nmd_sel:
  "sessions fresh_nmd = []" "sess fresh_nmd sid = None" "owned_by sid fresh_nmd = {}"
  "free_vlans fresh_nmd = 2 # fresh_rest"
proof -
  show "sessions fresh_nmd = []" by (simp add: fresh_nmd_def vlan_set_new_def del: upt_Suc)
  then show "sess fresh_nmd sid = None" "owned_by sid fresh_nmd = {}"
    by (simp_all add: sess_def owned_by_def)
  show "free_vlans fresh_nmd = 2 # fresh_rest"
    unfolding fresh_nmd_def fresh_rest_def by (rule vlan_set_new_free) simp
qed

lemma fresh_nmd_2: "2 \<in> set (ids fresh_nmd)"
  using nmd_reach_ids [OF fresh_nmd_reach] by (auto intro: image_eqI [of _ _ 0])

text \<open>A session with one VLAN.\<close>

definition one_vlan_nmd :: nmd where
  "one_vlan_nmd = snd (alloc_vlan ''exp'' fresh_nmd)"

lemma one_vlan_alloc: "alloc_vlan ''exp'' fresh_nmd = (2, one_vlan_nmd)"
  using alloc_vlan_inv(1) [OF nmd_reach_inv [OF fresh_nmd_reach] fresh_nmd_sel(4), of "''exp''"]
  by (cases "alloc_vlan ''exp'' fresh_nmd") (simp add: one_vlan_nmd_def)

lemma one_vlan_reach: "nmd_reach quiet_shell {} one_vlan_nmd"
proof -
  have sane: "request_sane (Add_Vlan (blank_switch_request ''exp'' ()))" by (simp add: request_sane_def)
  have "nmd_handle quiet_shell (\<lambda>_. 0) 0 sample_memory (Add_Vlan (blank_switch_request ''exp'' ())) fresh_nmd =
      Some (Add_Vlan_Response (add_vlan_response_new (\<lambda>_. 0) 0 (blank_switch_request ''exp'' () :: switch_request)
        NCCP_Status_Fine 2 (mem_add_response sample_memory)), one_vlan_nmd)"
    by (simp add: handle_defs getSessionID_def c_str_def one_vlan_alloc)
  from nmd_reach.step [OF fresh_nmd_reach sane this] show ?thesis by (simp add: lost_by_def)
qed

lemma one_vlan_sess:
  "sess one_vlan_nmd = [''exp'' \<mapsto> session_add_vlan 2 (session_new ''exp'')]"
  using alloc_vlan_eq [OF nmd_invD(1,6) [OF nmd_reach_inv [OF fresh_nmd_reach]] fresh_nmd_sel(4), of "''exp''"]
  by (auto simp: one_vlan_alloc session_of_def fresh_nmd_sel fun_eq_iff)

lemma one_vlan_owned: "owned_by ''exp'' one_vlan_nmd = {2}"
  by (simp add: owned_by_def one_vlan_sess owned_def session_add_vlan_def session_new_def)

lemma one_vlan_ids: "2 \<in> set (ids one_vlan_nmd)" "0 \<notin> set (ids one_vlan_nmd)"
proof -
  show "2 \<in> set (ids one_vlan_nmd)"
    using nmd_reach_ids [OF one_vlan_reach] by (auto intro: image_eqI [of _ _ 0])
  show "0 \<notin> set (ids one_vlan_nmd)"
  proof
    assume "0 \<in> set (ids one_vlan_nmd)"
    with nmd_reach_ids [OF one_vlan_reach] nmd_id_range [of 0] show False by simp
  qed
qed

lemma response_rend_new [simp]:
  "response_rend (Switch_Response (switch_response_new junk this req st m)) = msg_rend req"
  "response_rend (Add_Vlan_Response (add_vlan_response_new junk this req st v m')) = msg_rend req"
  "response_status (Switch_Response (switch_response_new junk this req st m)) = st"
  "response_status (Add_Vlan_Response (add_vlan_response_new junk this req st v m')) = st"
  "response_vlan (Add_Vlan_Response (add_vlan_response_new junk this req st v m')) = Some v"
  by (simp_all add: response_rend_def response_status_def response_vlan_def switch_response_new_def
      add_vlan_response_new_def response_new_def)

lemma pool_free:
  assumes "pool_inv L nm"
  shows "set (free_vlans nm) = {vid. vid \<notin> L \<and> (\<exists>v. vl nm vid = Some v \<and> \<not> inUse v)}"
proof -
  have d: "distinct (ids nm)" and sub: "set (free_vlans nm) \<subseteq> set (ids nm)"
    and use: "\<And>v. v \<in> set (vlan_arr nm) \<Longrightarrow> inUse v \<longleftrightarrow> vlanId v \<notin> set (free_vlans nm) \<and> vlanId v \<notin> L"
    and out: "L \<inter> set (free_vlans nm) = {}"
    using assms by (simp_all add: pool_inv_def)
  show ?thesis
  proof (rule set_eqI)
    fix w
    show "w \<in> set (free_vlans nm) \<longleftrightarrow> w \<in> {vid. vid \<notin> L \<and> (\<exists>v. vl nm vid = Some v \<and> \<not> inUse v)}"
    proof (cases "vl nm w")
      case None
      moreover have "w \<notin> set (free_vlans nm)" using None sub by (auto simp: vl_None)
      ultimately show ?thesis by simp
    next
      case (Some v)
      with use [of v] vl_Some [OF Some] out show ?thesis by auto
    qed
  qed
qed

lemma owned_by_use:
  assumes "nmd_inv L nm" and "vl nm vid = Some v"
  shows "vid \<in> owned_by sid nm \<longleftrightarrow> inUse v \<and> v_session v = sid"
proof
  assume "vid \<in> owned_by sid nm"
  then obtain se where "sess nm sid = Some se" "vid \<in> owned se"
    by (auto simp: owned_by_def split: option.splits)
  from sess_invD(2) [OF nmd_invD(2) [OF assms(1)] this] assms(2) show "inUse v \<and> v_session v = sid"
    by simp
next
  assume v: "inUse v \<and> v_session v = sid"
  with sess_invD(3) [OF nmd_invD(2) [OF assms(1)] assms(2)] obtain se where
    "sess nm sid = Some se" "vid \<in> owned se" by blast
  then show "vid \<in> owned_by sid nm" by (simp add: owned_by_def)
qed

lemma freed_free:
  assumes "nmd_inv L nm" and "nmd_inv L nm'"
    and arr: "vlan_arr nm' = map (\<lambda>v. if vlanId v \<in> owned_by sid nm then freed v else v) (vlan_arr nm)"
  shows "set (free_vlans nm') = set (free_vlans nm) \<union> owned_by sid nm"
    and "vl nm' vid = map_option (\<lambda>v. if vid \<in> owned_by sid nm then freed v else v) (vl nm vid)"
proof -
  have vl': "vl nm' w = map_option (\<lambda>v. if w \<in> owned_by sid nm then freed v else v) (vl nm w)" for w
    using vl_map [OF arr, of w] vl_Some [of nm w] by (cases "vl nm w") auto
  then show "vl nm' vid = map_option (\<lambda>v. if vid \<in> owned_by sid nm then freed v else v) (vl nm vid)" .
  have ex: "w \<notin> L \<and> (\<exists>v. vl nm w = Some v)" if "w \<in> owned_by sid nm" for w
  proof -
    from that obtain se where "sess nm sid = Some se" "w \<in> owned se"
      by (auto simp: owned_by_def split: option.splits)
    from sess_invD(2) [OF nmd_invD(2) [OF assms(1)] this] obtain v where v: "vl nm w = Some v" "inUse v" by blast
    with vl_Some [of nm w v] nmd_invD(1) [OF assms(1)] show ?thesis by (auto simp: pool_inv_def)
  qed
  note free = pool_free [OF nmd_invD(1) [OF assms(1)]] pool_free [OF nmd_invD(1) [OF assms(2)]]
  show "set (free_vlans nm') = set (free_vlans nm) \<union> owned_by sid nm"
  proof (rule set_eqI)
    fix w
    show "w \<in> set (free_vlans nm') \<longleftrightarrow> w \<in> set (free_vlans nm) \<union> owned_by sid nm"
      using ex [of w] by (cases "vl nm w") (auto simp: free vl' freed_def)
  qed
qed

text \<open>A request for a port.\<close>

definition port_request :: "string \<Rightarrow> switch_vlan \<Rightarrow> add_to_vlan" where
  "port_request sid vid = blank_switch_request sid (add_to_vlan.fields vid (switch_port_of ''sw'' 1))"

lemma port_request_sel:
  "av_vlanid (port_request sid vid) = vid" "port_number_ok (av_port (port_request sid vid))"
  "getSessionID (port_request ''exp'' vid) = ''exp''" "getSessionID (port_request ''other'' vid) = ''other''"
  by (simp_all add: port_request_def blank_defs add_to_vlan.defs getSessionID_def c_str_def
      port_number_ok_def switch_port_of_def)

section \<open>Requests\<close>

text \<open>C1: In every state that the daemon reaches by handling requests one after another, initialisations included, a
  request is answered, except the one that makes it follow a null pointer: an add_to_vlan for an existing session that
  names a VLAN the daemon does not have. The answer carries the rendezvous marker of the request, by which the client
  finds it, and the state stays consistent. The port numbers of the requests and the sizes of the switches are taken to
  be in the range that the commands are computed for.\<close>

theorem nmd_request_answered:
  assumes "nmd_reach sh lost nm" and "request_sane req"
  shows "if unknown_vlan req nm then nmd_handle sh junk this mem req nm = None
    else \<exists>resp nm'. nmd_handle sh junk this mem req nm = Some (resp, nm') \<and>
      nmd_reach sh (lost \<union> lost_by req resp nm) nm' \<and> nmd_inv (lost \<union> lost_by req resp nm) nm' \<and>
      response_rend resp = request_rend req"
proof (cases "unknown_vlan req nm")
  case False
  note inv = nmd_reach_inv [OF assms(1)]
  from nmd_handle_ex [OF inv assms(2) False, of sh junk this mem] obtain resp nm' where
    h: "nmd_handle sh junk this mem req nm = Some (resp, nm')" "nmd_inv (lost \<union> lost_by req resp nm) nm'" by blast
  have "response_rend resp = request_rend req"
  proof (cases req)
    case (Initialize x)
    with initialize_handle_ex [OF inv, of x sh junk this "mem_response mem"] assms(2) h(1) show ?thesis
      by (auto simp: request_sane_def nmd_handle_def request_rend_def)
  qed (use h(1) in \<open>auto simp: handle_defs request_rend_def bind_eq_Some_conv Let_def split: prod.splits\<close>)
  with h nmd_reach.step [OF assms h(1)] False show ?thesis by auto
qed (simp add: nmd_handle_unknown)

text \<open>A session's end is answered, an initialisation with a session that has a VLAN is answered and loses the VLAN when
  no switch fails, and a port for a VLAN that does not exist is not answered.\<close>

theorem nmd_request_answered_witness:
  "(\<exists>resp nm'. nmd_handle quiet_shell (\<lambda>_. 0) 0 sample_memory (End_Session (blank_switch_request ''exp'' ()))
      one_vlan_nmd = Some (resp, nm') \<and> nmd_reach quiet_shell {} nm' \<and>
      response_rend resp = request_rend (End_Session (blank_switch_request ''exp'' ()))) \<and>
   (\<exists>resp nm' lost'. nmd_handle quiet_shell (\<lambda>_. 0) 0 sample_memory (Initialize (blank_request (initialize.fields [])))
      one_vlan_nmd = Some (resp, nm') \<and> nmd_reach quiet_shell lost' nm') \<and>
   nmd_handle quiet_shell (\<lambda>_. 0) 0 sample_memory (Add_To_Vlan (port_request ''exp'' 0)) one_vlan_nmd = None"
proof (intro conjI)
  note a = nmd_request_answered [OF one_vlan_reach, of _ "\<lambda>_. 0" 0 sample_memory]
  show "\<exists>resp nm'. nmd_handle quiet_shell (\<lambda>_. 0) 0 sample_memory (End_Session (blank_switch_request ''exp'' ()))
      one_vlan_nmd = Some (resp, nm') \<and> nmd_reach quiet_shell {} nm' \<and>
      response_rend resp = request_rend (End_Session (blank_switch_request ''exp'' ()))"
    using a [of "End_Session (blank_switch_request ''exp'' ())"] by (auto simp: request_sane_def unknown_vlan_def lost_by_def)
  show "\<exists>resp nm' lost'. nmd_handle quiet_shell (\<lambda>_. 0) 0 sample_memory (Initialize (blank_request (initialize.fields [])))
      one_vlan_nmd = Some (resp, nm') \<and> nmd_reach quiet_shell lost' nm'"
    using a [of "Initialize (blank_request (initialize.fields []))"]
    by (auto simp: request_sane_def unknown_vlan_def blank_defs initialize.defs)
  have "unknown_vlan (Add_To_Vlan (port_request ''exp'' 0)) one_vlan_nmd"
    by (simp add: unknown_vlan_def port_request_sel one_vlan_ids one_vlan_sess)
  then show "nmd_handle quiet_shell (\<lambda>_. 0) 0 sample_memory (Add_To_Vlan (port_request ''exp'' 0)) one_vlan_nmd = None"
    using a [of "Add_To_Vlan (port_request ''exp'' 0)"] by (simp add: request_sane_def port_request_sel)
qed

text \<open>C5: No VLAN is in two sessions: whatever requests the daemon has handled one after another, an identifier is free, or
  exactly one session has it, or it was lost, and then it is neither free nor in a session; lost are the VLANs
  that sessions had when an initialisation succeeded. The list of free identifiers has no duplicates.\<close>

theorem nmd_vlan_owned_once:
  assumes "nmd_reach sh lost nm" and "vid \<in> set (ids nm)"
  shows "distinct (free_vlans nm) \<and>
    (vid \<notin> set (free_vlans nm) \<and> vid \<notin> lost \<longleftrightarrow> (\<exists>!sid. \<exists>se. sess nm sid = Some se \<and> vid \<in> owned se)) \<and>
    (vid \<in> lost \<longrightarrow> vid \<notin> set (free_vlans nm) \<and> (\<forall>sid se. sess nm sid = Some se \<longrightarrow> vid \<notin> owned se))"
  using nmd_partition [OF nmd_reach_inv [OF assms(1)] assms(2)] nmd_invD(1) [OF nmd_reach_inv [OF assms(1)]]
  by (auto simp: pool_inv_def)

theorem nmd_vlan_owned_once_witness:
  "distinct (free_vlans one_vlan_nmd) \<and>
    (2 \<notin> set (free_vlans one_vlan_nmd) \<longleftrightarrow>
      (\<exists>!sid. \<exists>se. sess one_vlan_nmd sid = Some se \<and> 2 \<in> owned se))"
  using nmd_vlan_owned_once [OF one_vlan_reach one_vlan_ids(1)] by simp

text \<open>C10: An add_vlan request fails, and changes nothing, exactly when no VLAN is free; otherwise it
  gives the requester's session a VLAN that no session had, numbered from 2 to 254 (so never the
  default VLAN), and leaves what the other sessions have alone.\<close>

theorem add_vlan_allocates:
  assumes "nmd_reach sh lost nm" and "add_vlan_handle junk this m r nm = (resp, nm')"
  shows "if free_vlans nm = [] then response_status resp = NCCP_Status_Failed \<and> nm' = nm
    else \<exists>vid. response_status resp = NCCP_Status_Fine \<and> response_vlan resp = Some vid \<and>
      2 \<le> vid \<and> vid < default_vlan \<and> (\<forall>sid. vid \<notin> owned_by sid nm) \<and>
      owned_by (getSessionID r) nm' = insert vid (owned_by (getSessionID r) nm) \<and>
      (\<forall>sid. sid \<noteq> getSessionID r \<longrightarrow> owned_by sid nm' = owned_by sid nm) \<and>
      set (free_vlans nm') = set (free_vlans nm) - {vid}"
proof (cases "free_vlans nm")
  case Nil
  with assms(2) show ?thesis by (auto simp: add_vlan_handle_def vs_add_vlan_def alloc_vlan_empty)
next
  case (Cons vid rest)
  note inv = nmd_reach_inv [OF assms(1)]
  note I = nmd_invD [OF inv]
  from alloc_vlan_eq [OF I(1,6) Cons, of "getSessionID r"] obtain nm1 where
    a: "alloc_vlan (getSessionID r) nm = (vid, nm1)" "free_vlans nm1 = rest"
      "sess nm1 = (sess nm)(getSessionID r \<mapsto> session_add_vlan vid (session_of (getSessionID r) nm))" by auto
  have vid: "vid \<in> set (ids nm)" and dist: "distinct (vid # rest)"
    using I(1) Cons by (auto simp: pool_inv_def)
  have range: "2 \<le> vid \<and> vid < default_vlan"
    using nmd_id_range [of vid] vid nmd_reach_ids [OF assms(1)] by simp
  have ne: "vid \<noteq> NO_FREE_VLANS" using I(4) vid by auto
  from vid obtain v where v: "vl nm vid = Some v" by (cases "vl nm vid") (auto simp: vl_None)
  have "vid \<in> set (free_vlans nm)" by (simp add: Cons)
  then have "\<not> inUse v" unfolding pool_free [OF I(1)] using v by simp
  then have no: "\<forall>sid. vid \<notin> owned_by sid nm" using owned_by_use [OF inv v] by simp
  have "owned_by (getSessionID r) nm1 = insert vid (owned_by (getSessionID r) nm)"
    "\<forall>sid. sid \<noteq> getSessionID r \<longrightarrow> owned_by sid nm1 = owned_by sid nm"
    by (auto simp: owned_by_def a(3) owned_def session_add_vlan_def session_of_def session_new_def
        split: option.split)
  with assms(2) a ne Cons no range dist show ?thesis
    by (auto simp: add_vlan_handle_def vs_add_vlan_def)
qed

theorem add_vlan_allocates_witness:
  "2 \<notin> owned_by ''exp'' fresh_nmd \<and>
   (\<exists>resp nm'. add_vlan_handle (\<lambda>_. 0) 0 (mem_add_response sample_memory)
       (blank_switch_request ''exp'' ()) fresh_nmd = (resp, nm') \<and>
     response_status resp = NCCP_Status_Fine \<and> (\<exists>vid. response_vlan resp = Some vid \<and> vid < default_vlan))"
proof -
  obtain resp nm' where h: "add_vlan_handle (\<lambda>_. 0) 0 (mem_add_response sample_memory)
      (blank_switch_request ''exp'' ()) fresh_nmd = (resp, nm')" by force
  from add_vlan_allocates [OF fresh_nmd_reach h] fresh_nmd_sel(4) h show ?thesis
    by (auto simp: fresh_nmd_sel(3))
qed

text \<open>C9: An end_session request frees all VLANs of the session, the ones already deleted
  included, whatever the switches answer; the session is gone, its VLANs have no ports, and the other
  sessions and their VLANs are as before.\<close>

theorem end_session_frees:
  assumes "nmd_reach sh lost nm"
  shows "\<exists>resp nm'. end_session_handle sh junk this m r nm = Some (resp, nm') \<and>
    set (free_vlans nm') = set (free_vlans nm) \<union> owned_by (getSessionID r) nm \<and>
    sess nm' = (sess nm)(getSessionID r := None) \<and>
    (\<forall>vid. vl nm' vid = map_option (\<lambda>v. if vid \<in> owned_by (getSessionID r) nm then freed v else v) (vl nm vid))"
proof -
  note inv = nmd_reach_inv [OF assms]
  from vs_clear_session_spec [OF inv, of sh "getSessionID r"] obtain rtn nm' where
    c: "vs_clear_session sh (getSessionID r) nm = Some (rtn, nm')" "nmd_inv lost nm'"
      "sess nm' = (sess nm)(getSessionID r := None)"
      "vlan_arr nm' = map (\<lambda>v. if vlanId v \<in> owned_by (getSessionID r) nm then freed v else v) (vlan_arr nm)"
    by blast
  from freed_free [OF inv c(2,4)] c(1,3) show ?thesis by (auto simp: end_session_handle_def)
qed

theorem end_session_frees_witness:
  "\<exists>resp nm'. end_session_handle quiet_shell (\<lambda>_. 0) 0 (mem_response sample_memory)
      (blank_switch_request ''exp'' ()) one_vlan_nmd = Some (resp, nm') \<and>
    2 \<in> set (free_vlans nm') \<and> sess nm' ''exp'' = None"
  using end_session_frees [OF one_vlan_reach, of "\<lambda>_. 0" 0 "mem_response sample_memory"
      "blank_switch_request ''exp'' ()"] one_vlan_owned
  by (auto simp: getSessionID_def c_str_def)

text \<open>C11: A delete_vlan request never frees a VLAN by itself: unless it names the last active VLAN of
  the session, the VLAN stays with the session and keeps its ports; the last one ends the session and
  frees all that it ever had.\<close>

theorem delete_vlan_deferred:
  assumes "nmd_reach sh lost nm" and "sess nm (getSessionID r) = Some se"
  shows "\<exists>resp nm'. delete_vlan_handle sh junk this m r nm = Some (resp, nm') \<and>
    (if set (active_vlans se) \<subseteq> {dv_vlanid r}
     then sess nm' (getSessionID r) = None \<and>
       set (free_vlans nm') = set (free_vlans nm) \<union> owned_by (getSessionID r) nm
     else response_status resp = NCCP_Status_Fine \<and> vlan_arr nm' = vlan_arr nm \<and>
       free_vlans nm' = free_vlans nm \<and>
       owned_by (getSessionID r) nm' = owned_by (getSessionID r) nm)"
proof -
  note inv = nmd_reach_inv [OF assms(1)]
  from vs_delete_vlan_spec [OF inv assms(2), of sh "dv_vlanid r"] obtain rtn nm' where
    d: "vs_delete_vlan sh (dv_vlanid r) (getSessionID r) nm = Some (rtn, nm')" "nmd_inv lost nm'"
      "if set (active_vlans se) \<subseteq> {dv_vlanid r}
       then sess nm' = (sess nm)(getSessionID r := None) \<and>
         vlan_arr nm' = map (\<lambda>v. if vlanId v \<in> owned se then freed v else v) (vlan_arr nm)
       else rtn \<and> sess nm' = (sess nm)(getSessionID r \<mapsto> retire (dv_vlanid r) se) \<and>
         vlan_arr nm' = vlan_arr nm \<and> free_vlans nm' = free_vlans nm" by blast
  have ob: "owned_by (getSessionID r) nm = owned se" using assms(2) by (simp add: owned_by_def)
  show ?thesis
  proof (cases "set (active_vlans se) \<subseteq> {dv_vlanid r}")
    case True
    with d(3) have "vlan_arr nm' = map (\<lambda>v. if vlanId v \<in> owned_by (getSessionID r) nm then freed v else v)
        (vlan_arr nm)" by (simp add: ob)
    from freed_free(1) [OF inv d(2) this] d(1,3) True show ?thesis by (simp add: delete_vlan_handle_def)
  next
    case False
    with d(3) have "owned_by (getSessionID r) nm' = owned_by (getSessionID r) nm"
      by (simp add: ob) (simp add: owned_by_def)
    with d(1,3) False show ?thesis by (simp add: delete_vlan_handle_def)
  qed
qed

theorem delete_vlan_deferred_witness:
  "\<exists>resp nm'. delete_vlan_handle quiet_shell (\<lambda>_. 0) 0 (mem_response sample_memory)
      (blank_switch_request ''exp'' (delete_vlan.fields 2)) one_vlan_nmd = Some (resp, nm') \<and>
    sess nm' ''exp'' = None \<and> 2 \<in> set (free_vlans nm')"
proof -
  have id: "getSessionID (blank_switch_request ''exp'' (delete_vlan.fields 2) :: delete_vlan) = ''exp''"
    by (simp add: getSessionID_def c_str_def)
  have vid: "dv_vlanid (blank_switch_request ''exp'' (delete_vlan.fields 2)) = 2"
    by (simp add: blank_defs delete_vlan.defs)
  have "sess one_vlan_nmd (getSessionID (blank_switch_request ''exp'' (delete_vlan.fields 2) :: delete_vlan)) =
      Some (session_add_vlan 2 (session_new ''exp''))"
    by (simp add: one_vlan_sess id)
  from delete_vlan_deferred [OF one_vlan_reach this, of "\<lambda>_. 0" 0 "mem_response sample_memory"]
  show ?thesis by (auto simp: id vid session_add_vlan_def session_new_def one_vlan_owned)
qed

text \<open>C12: A port is added exactly when the VLAN belongs to the session that asks; otherwise the
  request fails and nothing changes.\<close>

theorem add_to_vlan_owner:
  assumes "nmd_reach sh lost nm" and "av_vlanid r \<in> set (ids nm)" and "port_number_ok (av_port r)"
  shows "\<exists>resp nm'. add_to_vlan_handle junk this m r nm = Some (resp, nm') \<and>
    (response_status resp = NCCP_Status_Fine \<longleftrightarrow> av_vlanid r \<in> owned_by (getSessionID r) nm) \<and>
    (if av_vlanid r \<in> owned_by (getSessionID r) nm
     then vl nm' = (vl nm)(av_vlanid r := map_option (with_port (av_port r)) (vl nm (av_vlanid r)))
     else nm' = nm)"
proof -
  note inv = nmd_reach_inv [OF assms(1)]
  from assms(2) obtain v where v: "vl nm (av_vlanid r) = Some v"
    by (cases "vl nm (av_vlanid r)") (auto simp: vl_None)
  from vs_add_to_vlan_spec [OF inv assms(3) v, of "getSessionID r"]
    owned_by_use [OF inv v, of "getSessionID r"]
  show ?thesis by (cases "av_vlanid r \<in> owned_by (getSessionID r) nm") (auto simp: add_to_vlan_handle_def v)
qed

theorem add_to_vlan_owner_witness:
  "(\<exists>resp nm'. add_to_vlan_handle (\<lambda>_. 0) 0 (mem_response sample_memory) (port_request ''exp'' 2)
      one_vlan_nmd = Some (resp, nm') \<and> response_status resp = NCCP_Status_Fine) \<and>
   (\<exists>resp. add_to_vlan_handle (\<lambda>_. 0) 0 (mem_response sample_memory) (port_request ''other'' 2)
      one_vlan_nmd = Some (resp, one_vlan_nmd) \<and> response_status resp \<noteq> NCCP_Status_Fine)"
proof -
  have "owned_by ''other'' one_vlan_nmd = {}" by (simp add: owned_by_def one_vlan_sess)
  with add_to_vlan_owner [OF one_vlan_reach _ port_request_sel(2), of "''exp''" 2 "\<lambda>_. 0" 0 "mem_response sample_memory"]
    add_to_vlan_owner [OF one_vlan_reach _ port_request_sel(2), of "''other''" 2 "\<lambda>_. 0" 0 "mem_response sample_memory"]
  show ?thesis by (auto simp: port_request_sel one_vlan_ids one_vlan_owned)
qed

text \<open>An add_to_vlan request that names a VLAN the daemon does not have follows the null
  pointer that \<^verbatim>\<open>get_vlan\<close> gives, whenever its session exists.\<close>

lemma add_to_vlan_unknown:
  assumes "av_vlanid r \<notin> set (ids nm)" and "sess nm (getSessionID r) = Some se"
  shows "add_to_vlan_handle junk this m r nm = None"
  using vs_add_to_vlan_null [OF assms(1), of "av_port r" "getSessionID r"] assms(2)
  by (simp add: add_to_vlan_handle_def)

lemma add_to_vlan_unknown_example:
  "add_to_vlan_handle (\<lambda>_. 0) 0 (mem_response sample_memory) (port_request ''exp'' 0) one_vlan_nmd = None"
  by (rule add_to_vlan_unknown) (simp_all add: port_request_sel one_vlan_ids one_vlan_sess)

text \<open>Initialising the VLANs again forgets all sessions and marks every VLAN as unused, but
  a VLAN that was in use does not return to the list of free ones: no request can obtain it again.\<close>

lemma initialize_leaks:
  assumes "nmd_reach sh lost nm" and "vid \<in> owned_by sid nm"
  shows "\<exists>nm' v. initialize_vlans sh nm = Some nm' \<and> sessions nm' = [] \<and> vl nm' vid = Some v \<and>
    \<not> inUse v \<and> vid \<notin> set (free_vlans nm')"
proof -
  note inv = nmd_reach_inv [OF assms(1)]
  from assms(2) obtain se where "sess nm sid = Some se" "vid \<in> owned se"
    by (auto simp: owned_by_def split: option.splits)
  from sess_invD(2) [OF nmd_invD(2) [OF inv] this] obtain v where
    v: "vl nm vid = Some v" "inUse v" by blast
  then have "vid \<notin> set (free_vlans nm)" by (simp add: pool_free [OF nmd_invD(1) [OF inv]])
  moreover have "vl (nm\<lparr>vlan_arr := map vlan_initialize (vlan_arr nm), sessions := []\<rparr>) vid =
      Some (vlan_initialize v)"
    using v(1) by (simp add: vl_def find_map vlan_initialize_def)
  ultimately show ?thesis by (simp add: initialize_vlans_eq [OF inv] vlan_initialize_def)
qed

lemma initialize_leaks_example:
  "\<exists>nm'. initialize_vlans quiet_shell one_vlan_nmd = Some nm' \<and> 2 \<notin> set (free_vlans nm')"
  using initialize_leaks [OF one_vlan_reach, of 2 "''exp''"] one_vlan_owned by auto

end
