(* ===== verification/Switch_Properties.thy ===== *)
theory Switch_Properties
  imports Nmd_Pool
begin

text \<open>
  What the network daemon sends to switches: the bit map of ports for snmp, the names of ports of a
  64-port Arista switch, the command that gives a VLAN its ports.
\<close>

section \<open>Bit maps of ports\<close>

text \<open>The digits that \<^verbatim>\<open>getHexString\<close> writes, read back.\<close>

definition hex_val :: "char \<Rightarrow> nat" where
  "hex_val c = (if of_char c < (58 :: nat) then of_char c - 48 else of_char c - 87)"

fun read_hex :: "string \<Rightarrow> u8 list" where
  "read_hex (c # d # cs) = of_nat (16 * hex_val c + hex_val d) # read_hex cs"
| "read_hex cs = []"

lemma hex_val_digit: "d < 16 \<Longrightarrow> hex_val (hex_digit d) = d"
  by (simp add: hex_val_def hex_digit_def of_char_of)

lemma unat_low_nibble: "unat (and (b :: u8) 0x0f) = unat b mod 16"
proof -
  have "and b 0x0f = take_bit 4 b" by (simp add: take_bit_eq_mask mask_numeral)
  then have "unat (and b 0x0f) = unat (take_bit 4 b)" by (rule arg_cong)
  also have "\<dots> = take_bit 4 (unat b)" by (rule unsigned_take_bit_eq)
  finally show ?thesis by (simp only: take_bit_eq_mod) simp
qed

lemma unat_nibbles: "16 * unat (drop_bit 4 (b :: u8)) + unat (and b 0x0f) = unat b"
proof -
  note unat_low_nibble [of b]
  moreover have "unat (drop_bit 4 b) = unat b div 16"
    using unat_drop_bit_eq [of 4 b] by (simp add: drop_bit_eq_div unat_div_distrib)
  ultimately show ?thesis by simp
qed

lemma read_getHexString: "read_hex (getHexString b @ cs) = b # read_hex cs"
proof -
  have "unat (drop_bit 4 b) < 16" "unat (and b 0x0f) < 16"
    using unat_nibbles [of b] unat_u8_less [of b] by (simp_all add: unat_low_nibble)
  then show ?thesis
    by (simp add: getHexString_def Let_def hex_val_digit unat_nibbles flip: of_nat_add of_nat_mult)
qed

lemma read_hex_concat: "read_hex (concat (map getHexString bs)) = bs"
  by (induction bs) (simp_all add: read_getHexString)

lemma length_hex_concat: "length (concat (map getHexString bs)) = 2 * length bs"
  by (induction bs) (simp_all add: getHexString_def Let_def)

text \<open>C34: The text that snmp is given is two hexadecimal digits for each eight ports of the switch, and
  in it the bit of a port, the first being the highest bit of the first byte, is set when the port is
  in the list, or when it is not for the complement (the forbidden ports).\<close>

theorem egress_ports_bitmap:
  assumes "list_all port_number_ok ps"
  shows "\<exists>t. encodeEgressPorts ps (int n) complement = Some t \<and> length t = 2 * n \<and>
    (\<forall>k < 8 * n. bit (read_hex t ! (k div 8)) (7 - k mod 8) \<longleftrightarrow> has_port ps (Suc k) \<noteq> complement)"
  using encodeEgressPorts_bits [OF assms, of n complement]
  by (auto simp: read_hex_concat length_hex_concat)

theorem egress_ports_bitmap_witness:
  "\<exists>t. encodeEgressPorts [switch_port_of ''sw'' 3, switch_port_of ''sw'' 16] (int 2) False = Some t \<and>
    length t = 4 \<and> bit (read_hex t ! 0) 5 \<and> \<not> bit (read_hex t ! 0) 7 \<and> bit (read_hex t ! 1) 0"
proof -
  have ok: "list_all port_number_ok [switch_port_of ''sw'' 3, switch_port_of ''sw'' 16]"
    by (simp add: port_number_ok_def switch_port_of_def)
  from egress_ports_bitmap [OF ok, of 2 False] obtain t where
    t: "encodeEgressPorts [switch_port_of ''sw'' 3, switch_port_of ''sw'' 16] (int 2) False = Some t"
      "length t = 4" and bits: "\<And>k. k < 16 \<Longrightarrow> bit (read_hex t ! (k div 8)) (7 - k mod 8) \<longleftrightarrow>
        has_port [switch_port_of ''sw'' 3, switch_port_of ''sw'' 16] (Suc k)" by auto
  from t bits [of 2] bits [of 0] bits [of 15] show ?thesis
    by (auto simp: has_port_def switch_port_of_def)
qed

section \<open>Names of ports\<close>

text \<open>On a switch with 64 ports the first 48 are named by their number and those after it by
  module and lane: the four lanes of the first module, 49, are 49/1 to 49/4, and so on. The buffer of ten
  characters is never overrun.\<close>

lemma arista64_port_name:
  assumes "0 \<le> p" and "p < 0x80000000"
  shows "get_arista64_port p =
    Some (if p < 49 then dec_digits (nat p)
      else dec_digits (49 + nat (p - 49) div 4) @ ''/'' @ dec_digits (nat (p - 49) mod 4 + 1))"
  using get_arista64_port_low [OF assms(1)] get_arista64_port_module [OF _ assms(2)] by auto

lemma arista64_port_name_example:
  "get_arista64_port 48 = Some ''48'' \<and> get_arista64_port 49 = Some ''49/1'' \<and>
   get_arista64_port 56 = Some ''50/4''"
  using arista64_port_name [of 48] arista64_port_name [of 49] arista64_port_name [of 56]
  by (simp add: dec_digits.simps digit_char_def char_of_eq_iff)

section \<open>The membership command\<close>

text \<open>The command that gives a VLAN its ports on an Arista switch first takes the VLAN off all ports
  of the switch and then adds it to exactly the ports of the list, in their order and separated by
  commas; a switch that is not known gets no command, which counts as a failure.\<close>

lemma arista_membership_command:
  assumes "is_arista_switch i" and "ps \<noteq> []"
  shows "set_switch_vlan_membership sh ps i v cmd s =
    (if get_num_ports s i = 0 then Some (False, cmd, s)
     else Some (True, cmd @
       ''interface ethernet 1-'' @ show_int (sint (get_num_ports s i)) @ [newline] @
       ''switchport trunk allowed vlan remove '' @ int2str v @ [newline] @ ''exit'' @ [newline] @
       ''interface ethernet '' @ int2str (sp_port (hd ps)) @
         concat (map (\<lambda>p. '','' @ int2str (sp_port p)) (tl ps)) @ [newline] @
       ''switchport trunk allowed vlan add '' @ int2str v @ [newline] @
       ''show vlan '' @ int2str v @ [newline] @ ''exit'' @ [newline], s))"
  using assms ports_cmd_commas [OF assms(2), of arista_port "\<lambda>p. int2str (sp_port p)"]
    signed_eq_0_iff [where 'a = int, of "get_num_ports s i"]
  by (simp add: set_switch_vlan_membership_def set_switch_vlan_membership_arista_def arista_port_def Let_def)

lemma arista_membership_command_example:
  "set_switch_vlan_membership \<lparr>sh_status = (\<lambda>_. 0), sh_others = (\<lambda>_. [])\<rparr>
      [switch_port_of ''onlsw7'' 2, switch_port_of ''onlsw7'' 5] ''onlsw7'' 9 []
      (net_new\<lparr>switches := [switch_info_of ''onlsw7'' 48]\<rparr>) =
    Some (True, ''interface ethernet 1-48'' @ [newline] @
      ''switchport trunk allowed vlan remove 9'' @ [newline] @ ''exit'' @ [newline] @
      ''interface ethernet 2,5'' @ [newline] @ ''switchport trunk allowed vlan add 9'' @ [newline] @
      ''show vlan 9'' @ [newline] @ ''exit'' @ [newline],
      net_new\<lparr>switches := [switch_info_of ''onlsw7'' 48]\<rparr>)"
proof -
  have n: "get_num_ports (net_new\<lparr>switches := [switch_info_of ''onlsw7'' 48]\<rparr>) ''onlsw7'' = 48"
    by (simp add: get_num_ports_def get_switch_def switch_info_of_def switch_info_copy_def
        sw_getSwitchId_def nstr_of_def nstr_copy_def nstr_of_chars_def c_str_def Let_def)
  show ?thesis
    by (subst arista_membership_command)
      (simp_all add: n is_arista_switch_def switch_port_of_def int2str_def show_int_def dec_digits.simps
        digit_char_def char_of_eq_iff)
qed

end
