(* ===== verification/Rendezvous_Matching.thy ===== *)
theory Rendezvous_Matching
  imports Dispatcher
begin

text \<open>
  What the rendezvous map is for: an answer finds the request it answers. The events are the calls
  of the dispatcher with the callers' discipline (a request is registered when it is not yet
  waiting, cleared by the one that registered it, deleted when it no longer waits), each one under
  its lock. That a request which its owner has cleared no longer waits is proved in \<open>Rendezvous_Owners\<close>, from the calls
  of the owners alone. Markers are not reused before an operation has used 2^32 - 2 of them, which the guard of
  the registering events states.
\<close>

datatype rv_event =
    New addr request
  | Register addr
  | RegisterPeriodic addr
  | Response addr response
  | PeriodicMsg message
  | Clear addr
  | ClearPeriodic addr
  | Delete addr

definition waiting :: "addr \<Rightarrow> 'o dispatcher \<Rightarrow> bool" where
  "waiting a d \<longleftrightarrow> a \<in> ran (rend_map d)"

definition seq_left :: "addr \<Rightarrow> 'o dispatcher \<Rightarrow> bool" where
  "seq_left a d \<longleftrightarrow> (\<forall>r. requests d a = Some r \<longrightarrow> next_seq d (msg_op r) < - 1)"

inductive rv_step :: "rv_event \<Rightarrow> 'o dispatcher \<Rightarrow> 'o dispatcher \<Rightarrow> bool" where
  new: "requests d a = None \<Longrightarrow>
     rv_step (New a r) d (d\<lparr>requests := (requests d)(a \<mapsto> r)\<rparr>)"
| register: "\<not> waiting a d \<Longrightarrow> seq_left a d \<Longrightarrow> register_rendezvous (Some a) d = Some d' \<Longrightarrow>
     rv_step (Register a) d d'"
| register_periodic: "\<not> waiting a d \<Longrightarrow> seq_left a d \<Longrightarrow>
     register_periodic_rendezvous (Some a) d = Some d' \<Longrightarrow> rv_step (RegisterPeriodic a) d d'"
| response: "call_rendezvous_resp ra rs d = Some (del, d') \<Longrightarrow> rv_step (Response ra rs) d d'"
| periodic: "call_rendezvous_periodic p d = Some (del, d') \<Longrightarrow> rv_step (PeriodicMsg p) d d'"
| clear: "requests d a = Some r \<Longrightarrow> rend_map d (key_of (msg_rend r)) = Some a \<Longrightarrow>
     clear_rendezvous a d = Some d' \<Longrightarrow> rv_step (Clear a) d d'"
| clear_periodic: "requests d a = Some r \<Longrightarrow> rend_map d (key_of (msg_return_rend r)) = Some a \<Longrightarrow>
     clear_periodic_rendezvous a d = Some d' \<Longrightarrow> rv_step (ClearPeriodic a) d d'"
| delete: "requests d a = Some r \<Longrightarrow> \<not> waiting a d \<Longrightarrow>
     rv_step (Delete a) d (d\<lparr>requests := (requests d)(a := None)\<rparr>)"

inductive rv_run :: "rv_event list \<Rightarrow> 'o dispatcher \<Rightarrow> 'o dispatcher \<Rightarrow> bool" where
  rv_nil: "rv_run [] d d"
| rv_cons: "rv_step e d d' \<Longrightarrow> rv_run es d' d'' \<Longrightarrow> rv_run (e # es) d d''"

inductive_cases rv_step_cases [elim!]:
  "rv_step (New a r) d d'" "rv_step (Register a) d d'" "rv_step (RegisterPeriodic a) d d'"
  "rv_step (Response a r) d d'" "rv_step (PeriodicMsg p) d d'" "rv_step (Clear a) d d'"
  "rv_step (ClearPeriodic a) d d'" "rv_step (Delete a) d d'"

inductive_simps rv_run_simps [simp]: "rv_run [] d d'" "rv_run (e # es) d d'"

text \<open>
  The invariant: an entry leads to a live request that carries its key, a request has at most one
  entry, and the sequence numbers in use are below the next one.
\<close>

definition rv_inv :: "'o dispatcher \<Rightarrow> bool" where
  "rv_inv d \<longleftrightarrow>
     (\<forall>k a. rend_map d k = Some a \<longrightarrow>
        (\<exists>r. requests d a = Some r \<and> (k = key_of (msg_rend r) \<or> k = key_of (msg_return_rend r)))) \<and>
     (\<forall>k k' a. rend_map d k = Some a \<longrightarrow> rend_map d k' = Some a \<longrightarrow> k = k') \<and>
     (\<forall>i s a. rend_map d (RKey i s) = Some a \<longrightarrow> 0 < s \<and> s < next_seq d i) \<and>
     (\<forall>i. 0 < next_seq d i)"

lemma rv_invD:
  assumes "rv_inv d"
  shows "rend_map d k = Some a \<Longrightarrow>
      \<exists>r. requests d a = Some r \<and> (k = key_of (msg_rend r) \<or> k = key_of (msg_return_rend r))"
    and "rend_map d k = Some a \<Longrightarrow> rend_map d k' = Some a \<Longrightarrow> k = k'"
    and "rend_map d (RKey i s) = Some a \<Longrightarrow> 0 < s \<and> s < next_seq d i"
    and "0 < next_seq d i"
  using assms unfolding rv_inv_def by blast+

lemma rv_invI:
  assumes "\<And>k a. rend_map d k = Some a \<Longrightarrow>
      \<exists>r. requests d a = Some r \<and> (k = key_of (msg_rend r) \<or> k = key_of (msg_return_rend r))"
    and "\<And>k k' a. rend_map d k = Some a \<Longrightarrow> rend_map d k' = Some a \<Longrightarrow> k = k'"
    and "\<And>i s a. rend_map d (RKey i s) = Some a \<Longrightarrow> 0 < s \<and> s < next_seq d i"
    and "\<And>i. 0 < next_seq d i"
  shows "rv_inv d"
  using assms unfolding rv_inv_def by blast

lemma rv_inv_new: "rv_inv (dispatcher_new heap)"
  by (rule rv_invI) (simp_all add: dispatcher_new_def)

lemma word_succ_less:
  assumes "(x :: u32) < - 1"
  shows "x < x + 1" and "s < x \<Longrightarrow> s < x + 1"
proof -
  have "1 + x \<noteq> 0"
    using assms by (metis add.commute eq_neg_iff_add_eq_0 order.strict_iff_order)
  then have "unat (x + 1) = Suc (unat x)"
    by (simp add: unatSuc add.commute)
  then show "x < x + 1" and "s < x \<Longrightarrow> s < x + 1"
    by (simp_all add: word_less_nat_alt)
qed

text \<open>An update of one request that keeps its two markers keeps the invariant.\<close>

lemma rv_inv_update:
  assumes "rv_inv d" and "requests d a = Some r" and "msg_rend r' = msg_rend r"
    and "msg_return_rend r' = msg_return_rend r"
  shows "rv_inv (d\<lparr>requests := (requests d)(a \<mapsto> r')\<rparr>)"
proof (rule rv_invI)
  fix k b
  assume "rend_map (d\<lparr>requests := (requests d)(a \<mapsto> r')\<rparr>) k = Some b"
  with rv_invD(1) [OF assms(1), of k b] assms(2-4)
  show "\<exists>x. requests (d\<lparr>requests := (requests d)(a \<mapsto> r')\<rparr>) b = Some x \<and>
      (k = key_of (msg_rend x) \<or> k = key_of (msg_return_rend x))"
    by (cases "b = a") auto
qed (use rv_invD [OF assms(1)] in auto)

text \<open>Registration: a fresh key, for a request that has none.\<close>

lemma rv_inv_register:
  assumes "rv_inv d" and "\<not> waiting a d" and "i = rk_id k" and "rk_seq k = next_seq d i"
    and "next_seq d i < - 1" and "k = key_of (msg_rend r') \<or> k = key_of (msg_return_rend r')"
  shows "rv_inv (d\<lparr>next_seq := (next_seq d)(i := next_seq d i + 1),
      requests := (requests d)(a \<mapsto> r'), rend_map := (rend_map d)(k \<mapsto> a)\<rparr>)"
proof (rule rv_invI)
  fix k' b
  assume "rend_map (d\<lparr>next_seq := (next_seq d)(i := next_seq d i + 1),
      requests := (requests d)(a \<mapsto> r'), rend_map := (rend_map d)(k \<mapsto> a)\<rparr>) k' = Some b"
  then have "k' = k \<and> b = a \<or> rend_map d k' = Some b \<and> b \<noteq> a"
    using assms(2) by (auto simp: waiting_def ran_def split: if_splits)
  with rv_invD(1) [OF assms(1), of k' b] assms(6)
  show "\<exists>x. requests (d\<lparr>next_seq := (next_seq d)(i := next_seq d i + 1),
      requests := (requests d)(a \<mapsto> r'), rend_map := (rend_map d)(k \<mapsto> a)\<rparr>) b = Some x \<and>
      (k' = key_of (msg_rend x) \<or> k' = key_of (msg_return_rend x))"
    by auto
next
  fix k1 k2 b
  assume "rend_map (d\<lparr>next_seq := (next_seq d)(i := next_seq d i + 1),
      requests := (requests d)(a \<mapsto> r'), rend_map := (rend_map d)(k \<mapsto> a)\<rparr>) k1 = Some b"
    and "rend_map (d\<lparr>next_seq := (next_seq d)(i := next_seq d i + 1),
      requests := (requests d)(a \<mapsto> r'), rend_map := (rend_map d)(k \<mapsto> a)\<rparr>) k2 = Some b"
  with assms(2) rv_invD(2) [OF assms(1), of k1 b k2] show "k1 = k2"
    by (auto simp: waiting_def ran_def split: if_splits)
next
  fix j s b
  assume "rend_map (d\<lparr>next_seq := (next_seq d)(i := next_seq d i + 1),
      requests := (requests d)(a \<mapsto> r'), rend_map := (rend_map d)(k \<mapsto> a)\<rparr>) (RKey j s) = Some b"
  then have "k = RKey j s \<or> rend_map d (RKey j s) = Some b"
    by (auto split: if_splits)
  with assms(3,4) rv_invD(3) [OF assms(1), of j s b] rv_invD(4) [OF assms(1), of i]
    word_succ_less [OF assms(5)]
  show "0 < s \<and> s < next_seq (d\<lparr>next_seq := (next_seq d)(i := next_seq d i + 1),
      requests := (requests d)(a \<mapsto> r'), rend_map := (rend_map d)(k \<mapsto> a)\<rparr>) j"
    by (cases "j = i"; cases k) auto
next
  fix j
  from rv_invD(4) [OF assms(1), of j] word_succ_less [OF assms(5)]
  show "0 < next_seq (d\<lparr>next_seq := (next_seq d)(i := next_seq d i + 1),
      requests := (requests d)(a \<mapsto> r'), rend_map := (rend_map d)(k \<mapsto> a)\<rparr>) j"
    by (cases "j = i") (auto intro: order.strict_trans)
qed

lemma rv_inv_erase:
  assumes "rv_inv d" and "requests d a = Some r" and "rend_map d k = Some a"
  shows "rv_inv (d\<lparr>rend_map := (rend_map d)(k := None), requests := (requests d)(a \<mapsto> r')\<rparr>)"
proof (rule rv_invI)
  fix k' b
  assume "rend_map (d\<lparr>rend_map := (rend_map d)(k := None), requests := (requests d)(a \<mapsto> r')\<rparr>) k' = Some b"
  then have k': "k' \<noteq> k" "rend_map d k' = Some b"
    by (simp_all split: if_splits)
  with rv_invD(2) [OF assms(1,3)] have "b \<noteq> a" by metis
  with rv_invD(1) [OF assms(1) k'(2)]
  show "\<exists>x. requests (d\<lparr>rend_map := (rend_map d)(k := None), requests := (requests d)(a \<mapsto> r')\<rparr>) b = Some x \<and>
      (k' = key_of (msg_rend x) \<or> k' = key_of (msg_return_rend x))"
    by simp
next
  fix k1 k2 b
  assume "rend_map (d\<lparr>rend_map := (rend_map d)(k := None), requests := (requests d)(a \<mapsto> r')\<rparr>) k1 = Some b"
    and "rend_map (d\<lparr>rend_map := (rend_map d)(k := None), requests := (requests d)(a \<mapsto> r')\<rparr>) k2 = Some b"
  then show "k1 = k2"
    using rv_invD(2) [OF assms(1), of k1 b k2] by (simp split: if_splits)
next
  fix i s b
  assume "rend_map (d\<lparr>rend_map := (rend_map d)(k := None), requests := (requests d)(a \<mapsto> r')\<rparr>) (RKey i s) = Some b"
  then show "0 < s \<and> s < next_seq (d\<lparr>rend_map := (rend_map d)(k := None), requests := (requests d)(a \<mapsto> r')\<rparr>) i"
    using rv_invD(3) [OF assms(1), of i s b] by (simp split: if_splits)
qed (use rv_invD(4) [OF assms(1)] in simp)

lemma key_of_op [simp]: "(ucast (ucast (x :: u8) :: u32) :: u8) = x"
  by (rule bit_word_eqI) (simp add: bit_simps)

lemmas rv_defs = register_rendezvous_def register_periodic_rendezvous_def prepare_for_periodic_def
  call_rendezvous_resp_def call_rendezvous_periodic_def request_rendezvous_resp_def
  request_rendezvous_periodic_def clear_rendezvous_def clear_periodic_rendezvous_def

theorem rv_inv_step: "rv_step e d d' \<Longrightarrow> rv_inv d \<Longrightarrow> rv_inv d'"
proof (induction rule: rv_step.induct)
  case (new d a r)
  show ?case
  proof (rule rv_invI)
    fix k b
    assume "rend_map (d\<lparr>requests := (requests d)(a \<mapsto> r)\<rparr>) k = Some b"
    with rv_invD(1) [OF new(2), of k b] new(1)
    show "\<exists>x. requests (d\<lparr>requests := (requests d)(a \<mapsto> r)\<rparr>) b = Some x \<and>
        (k = key_of (msg_rend x) \<or> k = key_of (msg_return_rend x))"
      by auto
  qed (use rv_invD [OF new(2)] in auto)
next
  case (register a d d')
  then obtain r where r: "requests d a = Some r" by (auto simp: rv_defs bind_eq_Some_conv)
  with register have d': "d' = d\<lparr>next_seq := (next_seq d)(msg_op r := next_seq d (msg_op r) + 1),
      requests := (requests d)(a \<mapsto> r\<lparr>msg_rend := rendezvous_of (ucast (msg_op r)) (next_seq d (msg_op r))\<rparr>),
      rend_map := (rend_map d)(RKey (msg_op r) (next_seq d (msg_op r)) \<mapsto> a)\<rparr>"
    by (simp add: rv_defs Let_def)
  show ?case unfolding d'
    by (rule rv_inv_register) (use register r in \<open>auto simp: seq_left_def\<close>)
next
  case (register_periodic a d d')
  then obtain r where r: "requests d a = Some r" by (auto simp: rv_defs bind_eq_Some_conv)
  with register_periodic have d': "d' = d\<lparr>next_seq := (next_seq d)(msg_op r := next_seq d (msg_op r) + 1),
      requests := (requests d)(a \<mapsto>
        r\<lparr>msg_return_rend := rendezvous_of (ucast (msg_op r)) (next_seq d (msg_op r)),
          req_received_stop := False, req_received_ack := False\<rparr>),
      rend_map := (rend_map d)(RKey (msg_op r) (next_seq d (msg_op r)) \<mapsto> a)\<rparr>"
    by (simp add: rv_defs Let_def)
  show ?case unfolding d'
    by (rule rv_inv_register) (use register_periodic r in \<open>auto simp: seq_left_def\<close>)
next
  case (response ra rs d del d')
  then show ?case
    by (auto simp: rv_defs bind_eq_Some_conv split: option.splits intro!: rv_inv_update)
next
  case (periodic p d del d')
  then show ?case
    by (auto simp: rv_defs bind_eq_Some_conv split: option.splits intro!: rv_inv_update)
next
  case (clear d a r d')
  then show ?case
    by (auto simp: rv_defs bind_eq_Some_conv intro: rv_inv_erase)
next
  case (clear_periodic d a r d')
  then show ?case
    by (auto simp: rv_defs bind_eq_Some_conv intro: rv_inv_erase)
next
  case (delete d a r)
  show ?case
  proof (rule rv_invI)
    fix k b
    assume "rend_map (d\<lparr>requests := (requests d)(a := None)\<rparr>) k = Some b"
    with rv_invD(1) [OF delete(3), of k b] delete(2)
    show "\<exists>x. requests (d\<lparr>requests := (requests d)(a := None)\<rparr>) b = Some x \<and>
        (k = key_of (msg_rend x) \<or> k = key_of (msg_return_rend x))"
      by (auto simp: waiting_def ran_def)
  qed (use rv_invD [OF delete(3)] in auto)
qed

lemma rv_inv_run: "rv_run es d d' \<Longrightarrow> rv_inv d \<Longrightarrow> rv_inv d'"
  by (induction rule: rv_run.induct) (auto intro: rv_inv_step)

text \<open>Nothing but its own clearing removes an entry, and the request keeps its markers meanwhile.\<close>

lemma rv_step_keeps:
  assumes "rv_step e d d'" and "rv_inv d" and "rend_map d k = Some a"
    and "requests d a = Some r" and "e \<noteq> Clear a" and "e \<noteq> ClearPeriodic a"
  shows "rend_map d' k = Some a \<and> (\<exists>r'. requests d' a = Some r' \<and> msg_rend r' = msg_rend r)"
  using assms
proof (induction rule: rv_step.induct)
  case (new d b r')
  then show ?case by auto
next
  case (register b d d')
  then have "b \<noteq> a" by (auto simp: waiting_def ran_def)
  obtain i s where k: "k = RKey i s" by (cases k)
  with register rv_invD(3) [OF register.prems(1), of i s a] \<open>b \<noteq> a\<close> show ?case
    by (auto simp: rv_defs bind_eq_Some_conv Let_def)
next
  case (register_periodic b d d')
  then have "b \<noteq> a" by (auto simp: waiting_def ran_def)
  obtain i s where k: "k = RKey i s" by (cases k)
  with register_periodic rv_invD(3) [OF register_periodic.prems(1), of i s a] \<open>b \<noteq> a\<close> show ?case
    by (auto simp: rv_defs bind_eq_Some_conv Let_def)
next
  case (response ra rs d del d')
  then show ?case
    by (auto simp: rv_defs bind_eq_Some_conv split: option.splits)
next
  case (periodic p d del d')
  then show ?case
    by (auto simp: rv_defs bind_eq_Some_conv split: option.splits)
next
  case (clear d b r' d')
  then have "b \<noteq> a" by auto
  with clear show ?case by (auto simp: rv_defs bind_eq_Some_conv)
next
  case (clear_periodic d b r' d')
  then have "b \<noteq> a" by auto
  with clear_periodic show ?case by (auto simp: rv_defs bind_eq_Some_conv)
next
  case (delete d b r')
  then show ?case by (auto simp: waiting_def ran_def)
qed

lemma rv_run_keeps:
  assumes "rv_run es d d'" and "rv_inv d" and "rend_map d k = Some a" and "requests d a = Some r"
    and "Clear a \<notin> set es" and "ClearPeriodic a \<notin> set es"
  shows "rend_map d' k = Some a \<and> (\<exists>r'. requests d' a = Some r' \<and> msg_rend r' = msg_rend r)"
  using assms
proof (induction arbitrary: r rule: rv_run.induct)
  case (rv_nil d)
  then show ?case by auto
next
  case (rv_cons e d d' es d'')
  from rv_step_keeps [OF rv_cons(1,4,5,6)] rv_cons.prems obtain r'
    where "rend_map d' k = Some a" "requests d' a = Some r'" "msg_rend r' = msg_rend r" by auto
  with rv_cons.IH [OF rv_inv_step [OF rv_cons(1,4)] this(1,2)] rv_cons.prems show ?case by auto
qed

end
