(* ===== verification/Nccp_Listener.thy ===== *)
theory Nccp_Listener
  imports Nccp_Connection
begin

text \<open>
  The listener of \<^verbatim>\<open>shared/nccp_connection.cc\<close>, and the count of messages that decides when it
  deletes a connection. The interfaces of the machine and the results of the socket calls are
  arguments. The last section follows the count through the life of the message objects.
\<close>

section \<open>The listener\<close>

record nccp_listener =
  connections :: "nccp_connection list"
  acceptfd :: int
  lis_addr :: u32
  lis_port :: u16

definition strncmp_eq :: "string \<Rightarrow> string \<Rightarrow> nat \<Rightarrow> bool" where
  "strncmp_eq s t n \<longleftrightarrow> take n (c_str s) = take n (c_str t)"

definition find_interface :: "string \<Rightarrow> u8 list list \<Rightarrow> u8 list option" where
  "find_interface addr ifs = find (\<lambda>i. strncmp_eq (inet_ntop i) (c_str addr) (length addr)) ifs"

text \<open>
  \<open>ifs\<close> are the addresses that \<^verbatim>\<open>ioctl\<close> lists, \<open>None\<close> when it fails; the other arguments
  are what \<^verbatim>\<open>socket\<close> (twice), \<^verbatim>\<open>bind\<close> and \<^verbatim>\<open>listen\<close> return.
\<close>

definition nccp_listener_new ::
    "int \<Rightarrow> u8 list list option \<Rightarrow> int \<Rightarrow> int \<Rightarrow> int \<Rightarrow> string \<Rightarrow> u16 \<Rightarrow> nccp_listener \<Rightarrow>
     string + nccp_listener" where
  "nccp_listener_new tmpsock ifs sfd bind_rc listen_rc addr port m =
     (let m = m\<lparr>connections := [], acceptfd := -1\<rparr> in
      if port = 0 then Inr m
      else if tmpsock < 0 then Inl (nccpconn_exception ''socket creation failed'')
      else
        (case ifs of
           None \<Rightarrow> Inl (nccpconn_exception ''ioctl SIOCGIFCONF failed'')
         | Some is \<Rightarrow>
             (case find_interface addr is of
                None \<Rightarrow> Inl (nccpconn_exception (''no such interface found:'' @ addr))
              | Some i \<Rightarrow>
                  (let m = m\<lparr>lis_addr := un_be32 i, lis_port := port, acceptfd := sfd\<rparr> in
                   if sfd < 0 then Inl (nccpconn_exception ''socket creation error'')
                   else if bind_rc < 0 then Inl (nccpconn_exception ''bind error'')
                   else if listen_rc < 0 then Inl (nccpconn_exception ''listen failed'')
                   else Inr m))))"

definition nccp_listener_delete :: "nccp_listener \<Rightarrow> nccp_connection list \<times> nccp_listener" where
  "nccp_listener_delete l = (connections l, l\<lparr>connections := [], acceptfd := -1\<rparr>)"

definition add_connection ::
    "int \<Rightarrow> u32 \<Rightarrow> u16 \<Rightarrow> u8 list list \<Rightarrow> nccp_listener \<Rightarrow> nccp_listener" where
  "add_connection new_sd raddr rport inp l =
     l\<lparr>connections := connections l @
        [nccp_connection_of new_sd (lis_addr l) (lis_port l) raddr rport inp]\<rparr>"

fun cleanup_from :: "nccp_connection list \<Rightarrow> nccp_connection list \<times> nccp_connection list" where
  "cleanup_from [] = ([], [])"
| "cleanup_from (c # cs) =
     (case cleanup_from cs of
        (kept, deleted) \<Rightarrow>
          if finished c \<and> \<not> has_outstanding_msgs c then (kept, c # deleted)
          else (c # kept, deleted))"

definition cleanup :: "nccp_listener \<Rightarrow> nccp_connection list \<times> nccp_listener" where
  "cleanup l = (case cleanup_from (connections l) of
     (kept, deleted) \<Rightarrow> (deleted, l\<lparr>connections := kept\<rparr>))"

text \<open>
  The accepting loop. In every round the connections go on by themselves (\<open>env\<close>); then
  \<^verbatim>\<open>select\<close> fails, which throws, or a connection is accepted.
\<close>

fun listener_receive_messages_forever ::
    "((nccp_connection list \<Rightarrow> nccp_connection list) \<times> bool \<times> int \<times> u32 \<times> u16 \<times> u8 list list) list \<Rightarrow>
     nccp_listener \<Rightarrow> string + nccp_listener" where
  "listener_receive_messages_forever [] l = Inr l"
| "listener_receive_messages_forever ((env, sel_ok, sd, ra, rp, inp) # rounds) l =
     (if acceptfd l = -1 then Inr l
      else
        (let l = snd (cleanup (l\<lparr>connections := env (connections l)\<rparr>)) in
         if \<not> sel_ok then Inl (nccpconn_exception ''select failed'')
         else listener_receive_messages_forever rounds (add_connection sd ra rp inp l)))"

lemma cleanup_from_filter:
  "cleanup_from cs = (filter (\<lambda>c. \<not> (finished c \<and> \<not> has_outstanding_msgs c)) cs,
     filter (\<lambda>c. finished c \<and> \<not> has_outstanding_msgs c) cs)"
  by (induction cs) auto

section \<open>The count of messages\<close>

text \<open>
  \<^verbatim>\<open>message::set_connection\<close> and the destructor of \<^verbatim>\<open>message\<close>; connections are the values of
  a map from addresses.
\<close>

type_synonym conns = "addr \<Rightarrow> nccp_connection"

definition set_connection ::
    "addr option \<Rightarrow> 'a message_scheme \<Rightarrow> conns \<Rightarrow> 'a message_scheme \<times> conns" where
  "set_connection conn m cs =
     (if msg_conn m = conn then (m, cs)
      else
        (let cs = (case msg_conn m of None \<Rightarrow> cs | Some c \<Rightarrow> cs(c := decrement_msg_count (cs c)));
             m = m\<lparr>msg_conn := conn\<rparr>;
             cs = (case msg_conn m of None \<Rightarrow> cs | Some c \<Rightarrow> cs(c := increment_msg_count (cs c)))
         in (m, cs)))"

definition message_delete :: "'a message_scheme \<Rightarrow> conns \<Rightarrow> conns" where
  "message_delete m cs =
     (case msg_conn m of None \<Rightarrow> cs | Some c \<Rightarrow> cs(c := decrement_msg_count (cs c)))"

text \<open>
  The events that touch the count: a connection reads a message (\<^verbatim>\<open>receive_messages_forever\<close>),
  a message object is built, attached to a connection, deleted. \<open>cnt_received\<close> counts the first kind.
\<close>

record cnt_state =
  cnt_conns :: conns
  cnt_objs :: "addr \<Rightarrow> message option"
  cnt_received :: "addr \<Rightarrow> nat"

inductive cnt_step :: "cnt_state \<Rightarrow> cnt_state \<Rightarrow> bool" where
  read: "cnt_step s (s\<lparr>cnt_conns := (cnt_conns s)(c := increment_msg_count (cnt_conns s c)),
     cnt_received := (cnt_received s)(c := Suc (cnt_received s c))\<rparr>)"
| build: "cnt_objs s a = None \<Longrightarrow> msg_conn m = None \<Longrightarrow>
     cnt_step s (s\<lparr>cnt_objs := (cnt_objs s)(a \<mapsto> m)\<rparr>)"
| attach: "cnt_objs s a = Some m \<Longrightarrow> set_connection conn m (cnt_conns s) = (m', cs) \<Longrightarrow>
     cnt_step s (s\<lparr>cnt_objs := (cnt_objs s)(a \<mapsto> m'), cnt_conns := cs\<rparr>)"
| remove: "cnt_objs s a = Some m \<Longrightarrow>
     cnt_step s (s\<lparr>cnt_objs := (cnt_objs s)(a := None), cnt_conns := message_delete m (cnt_conns s)\<rparr>)"

definition attached :: "addr \<Rightarrow> (addr \<Rightarrow> message option) \<Rightarrow> addr set" where
  "attached c objs = {a. \<exists>m. objs a = Some m \<and> msg_conn m = Some c}"

definition cnt_inv :: "cnt_state \<Rightarrow> bool" where
  "cnt_inv s \<longleftrightarrow> finite (dom (cnt_objs s)) \<and>
     (\<forall>c. message_count (cnt_conns s c) =
        int (cnt_received s c) + int (card (attached c (cnt_objs s))))"

lemma attached_upd_Some:
  "attached c (objs(a \<mapsto> m)) =
     (if msg_conn m = Some c then insert a (attached c objs) else attached c objs - {a})"
  by (auto simp: attached_def)

lemma attached_upd_None: "attached c (objs(a := None)) = attached c objs - {a}"
  by (auto simp: attached_def)

lemma finite_attached: "finite (dom objs) \<Longrightarrow> finite (attached c objs)"
  by (rule finite_subset [of _ "dom objs"]) (auto simp: attached_def)

lemma in_attached: "objs a = Some m \<Longrightarrow> a \<in> attached c objs \<longleftrightarrow> msg_conn m = Some c"
  by (simp add: attached_def)

lemma attached_upd_same [simp]:
  "objs a = Some m \<Longrightarrow> msg_conn m' = msg_conn m \<Longrightarrow> attached c (objs(a \<mapsto> m')) = attached c objs"
  by (auto simp: attached_def)

lemmas cnt_defs = increment_msg_count_def decrement_msg_count_def Let_def

lemma cnt_card_Diff:
  assumes "finite (dom objs)" and "objs a = Some m"
  shows "int (card (attached c objs - {a})) =
    int (card (attached c objs)) - (if msg_conn m = Some c then 1 else 0)"
proof (cases "msg_conn m = Some c")
  case True
  with card_Suc_Diff1 [OF finite_attached [OF assms(1)], of a c] in_attached [of objs a m c] assms(2)
  show ?thesis by simp
next
  case False
  with in_attached [of objs a m c] assms(2) show ?thesis by simp
qed

lemma cnt_card_insert:
  "finite (dom objs) \<Longrightarrow> objs a = Some m \<Longrightarrow>
     int (card (insert a (attached c objs))) =
       int (card (attached c objs)) + (if msg_conn m = Some c then 0 else 1)"
  using finite_attached [of objs c] in_attached [of objs a m c]
  by (auto simp: card_insert_if)

lemma cnt_inv_step: "cnt_step s s' \<Longrightarrow> cnt_inv s \<Longrightarrow> cnt_inv s'"
proof (induction rule: cnt_step.induct)
  case (read s c)
  then show ?case by (auto simp: cnt_inv_def cnt_defs)
next
  case (build s a m)
  moreover have "a \<notin> attached c (cnt_objs s)" for c
    using build(1) by (simp add: attached_def)
  ultimately show ?case by (simp add: cnt_inv_def attached_upd_Some)
next
  case (attach s a m conn m' cs)
  then have fin: "finite (dom (cnt_objs s))" by (simp add: cnt_inv_def)
  note card = cnt_card_Diff [of "cnt_objs s", OF fin attach(1)]
    cnt_card_insert [of "cnt_objs s", OF fin attach(1)]
  show ?case
  proof (cases "msg_conn m = conn")
    case True
    with attach show ?thesis
      by (simp add: cnt_inv_def set_connection_def fun_upd_idem)
  next
    case False
    with attach(2) have m': "msg_conn m' = conn" and
      cs: "message_count (cs c) = message_count (cnt_conns s c)
        - (if msg_conn m = Some c then 1 else 0) + (if conn = Some c then 1 else 0)" for c
      by (auto simp: set_connection_def cnt_defs split: option.splits)
    show ?thesis
      using attach(3) fin False by (auto simp: cnt_inv_def cs attached_upd_Some m' card)
  qed
next
  case (remove s a m)
  then have fin: "finite (dom (cnt_objs s))" by (simp add: cnt_inv_def)
  with remove show ?case
    by (auto simp: cnt_inv_def message_delete_def attached_upd_None cnt_card_Diff cnt_defs
        split: option.splits)
qed

lemma cnt_inv_init:
  "cnt_inv \<lparr>cnt_conns = (\<lambda>_. nccp_connection_of sfd la lp ra rp inp), cnt_objs = (\<lambda>_. None),
     cnt_received = (\<lambda>_. 0)\<rparr>"
  by (simp add: cnt_inv_def attached_def nccp_connection_of_def)

lemma cnt_inv_steps: "cnt_step\<^sup>*\<^sup>* s s' \<Longrightarrow> cnt_inv s \<Longrightarrow> cnt_inv s'"
  by (induction rule: rtranclp_induct) (auto intro: cnt_inv_step)

lemma cnt_received_mono: "cnt_step\<^sup>*\<^sup>* s s' \<Longrightarrow> cnt_received s c \<le> cnt_received s' c"
proof (induction rule: rtranclp_induct)
  case (step t u)
  from step(2) have "cnt_received t c \<le> cnt_received u c" by cases auto
  with step show ?case by simp
qed simp

lemma cnt_inv_outstanding:
  "cnt_inv s \<Longrightarrow> has_outstanding_msgs (cnt_conns s c) \<longleftrightarrow>
     0 < cnt_received s c \<or> attached c (cnt_objs s) \<noteq> {}"
  using finite_attached [of "cnt_objs s" c] card_gt_0_iff [of "attached c (cnt_objs s)"]
  by (auto simp: cnt_inv_def has_outstanding_msgs_def)

end
