(* ===== verification/Process_Message.thy ===== *)
theory Process_Message
  imports Rendezvous_Matching Nccp_Listener
begin

text \<open>
  Where a message meets its handler: \<^verbatim>\<open>nccp_connection::process_message\<close> with the loop of
  periodic requests, and \<^verbatim>\<open>request::send_and_wait\<close>. Clock readings, the results of
  \<^verbatim>\<open>nanosleep\<close> and what a virtual \<^verbatim>\<open>handle\<close> does to the dispatcher's state, together with
  what other threads do meanwhile, are arguments.
\<close>

section \<open>The periodic loop\<close>

record 'o round =
  rd_now :: timespec
  rd_handle :: "'o dispatcher \<Rightarrow> bool \<times> 'o dispatcher"
  rd_after :: timespec
  rd_sleeps :: "(int \<times> int \<times> timespec) list"

abbreviation EINTR :: int where "EINTR \<equiv> 4"

text \<open>
  \<^verbatim>\<open>nanosleep\<close> until it is not interrupted: its result, and the sleeps that were asked for.
  Without a further result the thread is still asleep.
\<close>

fun sleep_loop :: "timespec \<Rightarrow> (int \<times> int \<times> timespec) list \<Rightarrow> int option \<times> timespec list" where
  "sleep_loop sleep_time [] = (None, [sleep_time])"
| "sleep_loop sleep_time ((ns_ret, errno, remaining) # rs) =
     (if ns_ret \<noteq> 0 \<and> errno = EINTR then
        (case sleep_loop remaining rs of (r, ss) \<Rightarrow> (r, sleep_time # ss))
      else (Some ns_ret, [sleep_time]))"

datatype loop_end = Stopped | SleepFailed | Running

record 'o loop_result =
  lr_end :: loop_end
  lr_delete :: bool
  lr_fires :: "timespec list"
  lr_sleeps :: "timespec list"
  lr_state :: "'o dispatcher"

fun periodic_loop ::
    "addr \<Rightarrow> timespec option \<Rightarrow> bool \<Rightarrow> timespec list \<Rightarrow> timespec list \<Rightarrow> 'o round list \<Rightarrow>
     'o dispatcher \<Rightarrow> 'o loop_result option" where
  "periodic_loop a prev del fires sleeps rounds d =
     (case requests d a of
        None \<Rightarrow> None
      | Some r \<Rightarrow>
          if req_received_stop r then
            Some \<lparr>lr_end = Stopped, lr_delete = del, lr_fires = fires, lr_sleeps = sleeps, lr_state = d\<rparr>
          else
            (case rounds of
               [] \<Rightarrow> Some \<lparr>lr_end = Running, lr_delete = del, lr_fires = fires, lr_sleeps = sleeps,
                        lr_state = d\<rparr>
             | rd # rounds \<Rightarrow>
                 (let period = get_period r;
                      next = (case prev of None \<Rightarrow> timespec_add (rd_now rd) period
                              | Some t \<Rightarrow> timespec_add t period);
                      fires = fires @ [next];
                      (del, d) = rd_handle rd d;
                      (later, sleep_time) = timespec_diff next (rd_after rd) in
                  if \<not> later then periodic_loop a (Some next) del fires sleeps rounds d
                  else
                    (case sleep_loop sleep_time (rd_sleeps rd) of
                       (None, ss) \<Rightarrow>
                         Some \<lparr>lr_end = Running, lr_delete = del, lr_fires = fires,
                           lr_sleeps = sleeps @ ss, lr_state = d\<rparr>
                     | (Some rc, ss) \<Rightarrow>
                         if rc = -1 then
                           Some \<lparr>lr_end = SleepFailed, lr_delete = del, lr_fires = fires,
                             lr_sleeps = sleeps @ ss, lr_state = d\<rparr>
                         else periodic_loop a (Some next) del fires (sleeps @ ss) rounds d))))"

declare periodic_loop.simps [simp del]

section \<open>process_message\<close>

text \<open>
  The object that \<^verbatim>\<open>create_message\<close> built, as its base class. A new request is at address
  \<open>a\<close>, free until then; \<open>handle\<close> is its virtual function. The count of messages follows
  \<^verbatim>\<open>set_connection\<close> and the destructor. The switch's default branch is never taken: only
  these three types are built, and \<^verbatim>\<open>parse\<close> reads the type again from the same bytes.
\<close>

datatype received = Received_Request request | Received_Response response | Received_Periodic message

record 'o daemon =
  dm_disp :: "'o dispatcher"
  dm_conns :: conns

definition delete_request :: "addr \<Rightarrow> 'o daemon \<Rightarrow> 'o daemon option" where
  "delete_request a s = do {
     r \<leftarrow> requests (dm_disp s) a;
     Some (s\<lparr>dm_disp := (dm_disp s)\<lparr>requests := (requests (dm_disp s))(a := None)\<rparr>,
             dm_conns := message_delete r (dm_conns s)\<rparr>)
   }"

definition process_message ::
    "addr \<Rightarrow> addr \<Rightarrow> ('o dispatcher \<Rightarrow> bool \<times> 'o dispatcher) \<Rightarrow> 'o round list \<Rightarrow> received option \<Rightarrow>
     'o daemon \<Rightarrow> 'o daemon option" where
  "process_message this a handle rounds msg s =
     (case msg of
        None \<Rightarrow> Some s
      | Some (Received_Request req) \<Rightarrow> do {
          let (req, cs) = set_connection (Some this) req (dm_conns s);
          let s = s\<lparr>dm_conns := cs,
                    dm_disp := (dm_disp s)\<lparr>requests := (requests (dm_disp s))(a \<mapsto> req)\<rparr>\<rparr>;
          (delete_msg, s) \<leftarrow>
            (if msg_periodic req then do {
               d \<leftarrow> register_periodic_rendezvous (Some a) (dm_disp s);
               res \<leftarrow> periodic_loop a None True [] [] rounds d;
               if lr_end res = Running then Some (False, s\<lparr>dm_disp := lr_state res\<rparr>)
               else do {
                 d \<leftarrow> clear_periodic_rendezvous a (lr_state res);
                 Some (lr_delete res, s\<lparr>dm_disp := d\<rparr>) }
             } else
               (let (del, d) = handle (dm_disp s) in Some (del, s\<lparr>dm_disp := d\<rparr>)));
          if delete_msg then delete_request a s else Some s
        }
      | Some (Received_Response resp) \<Rightarrow> do {
          let (resp, cs) = set_connection (Some this) resp (dm_conns s);
          (del, d) \<leftarrow> call_rendezvous_resp a resp (dm_disp s);
          let s = s\<lparr>dm_conns := cs, dm_disp := d\<rparr>;
          Some (if del then s\<lparr>dm_conns := message_delete resp (dm_conns s)\<rparr> else s)
        }
      | Some (Received_Periodic per) \<Rightarrow> do {
          let (per, cs) = set_connection (Some this) per (dm_conns s);
          (del, d) \<leftarrow> call_rendezvous_periodic per (dm_disp s);
          let s = s\<lparr>dm_conns := cs, dm_disp := d\<rparr>;
          Some (if del then s\<lparr>dm_conns := message_delete per (dm_conns s)\<rparr> else s)
        })"

section \<open>send_and_wait\<close>

text \<open>
  \<open>sent\<close> is the result of \<^verbatim>\<open>message::send\<close>, \<open>env\<close> what the other threads do to the
  dispatcher while this one waits, \<open>wakes\<close> its wake-ups. \<open>Some None\<close>: still waiting.
\<close>

definition send_and_wait ::
    "bool \<Rightarrow> ('o dispatcher \<Rightarrow> 'o dispatcher) \<Rightarrow> (bool \<times> bool) list \<Rightarrow> addr \<Rightarrow> 'o dispatcher \<Rightarrow>
     (bool \<times> 'o dispatcher) option option" where
  "send_and_wait sent env wakes a d = do {
     d \<leftarrow> register_rendezvous (Some a) d;
     if \<not> sent then do {
       d \<leftarrow> clear_rendezvous a d;
       Some (Some (False, d)) }
     else do {
       let d = env d;
       r \<leftarrow> requests d a;
       case wait_for_response wakes r of
         None \<Rightarrow> Some None
       | Some (got_reply, r) \<Rightarrow> do {
           let d = d\<lparr>requests := (requests d)(a \<mapsto> r)\<rparr>;
           d \<leftarrow> clear_rendezvous a d;
           Some (Some (got_reply, d)) }
     }
   }"

section \<open>What the loop does\<close>

text \<open>
  The k-th fire time is the first reading of the clock plus k periods, however long the handlers
  take, as long as the period does not change.
\<close>

fun fire_times :: "timespec \<Rightarrow> timespec \<Rightarrow> nat \<Rightarrow> timespec list" where
  "fire_times t p 0 = []"
| "fire_times t p (Suc n) = timespec_add t p # fire_times (timespec_add t p) p n"

lemma nanoseconds_fire_times:
  "i < n \<Longrightarrow> nanoseconds (fire_times t p n ! i) = nanoseconds t + int (Suc i) * nanoseconds p"
proof (induction t p n arbitrary: i rule: fire_times.induct)
  case (2 t p n)
  have "nanoseconds (timespec_add t p) = nanoseconds t + nanoseconds p"
    by (simp add: nanoseconds_def timespec_add_def Let_def algebra_simps)
  with 2 show ?case by (cases i) (simp_all add: algebra_simps)
qed simp

definition period_kept :: "addr \<Rightarrow> timespec \<Rightarrow> 'o round list \<Rightarrow> bool" where
  "period_kept a p rounds \<longleftrightarrow> (\<forall>rd \<in> set rounds. \<forall>d r.
     requests d a = Some r \<longrightarrow> get_period r = p \<longrightarrow>
     (\<exists>r'. requests (snd (rd_handle rd d)) a = Some r' \<and> get_period r' = p))"

lemma periodic_loop_fires:
  assumes "requests d a = Some r" and "get_period r = p" and "period_kept a p rounds"
  shows "\<exists>res n. periodic_loop a (Some t) del fires sleeps rounds d = Some res \<and>
    lr_fires res = fires @ fire_times t p n \<and> n \<le> length rounds"
  using assms
proof (induction rounds arbitrary: t d r del fires sleeps)
  case Nil
  then show ?case
    by (auto simp: periodic_loop.simps [of a _ _ _ _ "[]"] intro: exI [of _ 0])
next
  case (Cons rd rounds)
  obtain del' d' where h: "rd_handle rd d = (del', d')" by force
  obtain later st where td: "timespec_diff (timespec_add t p) (rd_after rd) = (later, st)" by force
  obtain rc ss where sl: "sleep_loop st (rd_sleeps rd) = (rc, ss)" by force
  from Cons.prems h obtain r' where r': "requests d' a = Some r'" "get_period r' = p"
    by (fastforce simp: period_kept_def)
  have pk: "period_kept a p rounds" using Cons.prems(3) by (simp add: period_kept_def)
  have one: "fire_times t p 1 = [timespec_add t p]" by simp
  note step = periodic_loop.simps [of a "Some t" del fires sleeps "rd # rounds" d]
  show ?case
  proof (cases "req_received_stop r")
    case True
    with Cons.prems show ?thesis by (auto simp: step intro: exI [of _ 0])
  next
    case False
    obtain res n where IH: "periodic_loop a (Some (timespec_add t p)) del' (fires @ [timespec_add t p])
        (if later then sleeps @ ss else sleeps) rounds d' = Some res"
        "lr_fires res = fires @ fire_times t p (Suc n)" "n \<le> length rounds"
      using Cons.IH [OF r' pk, of "timespec_add t p" del' "fires @ [timespec_add t p]"
          "if later then sleeps @ ss else sleeps"] by auto
    show ?thesis
    proof (cases "later \<and> (rc = None \<or> rc = Some (-1))")
      case True
      with False Cons.prems h td sl show ?thesis
        by (auto simp: step Let_def intro!: exI [of _ "Suc 0"])
    next
      case go: False
      with False Cons.prems h td sl have
        "periodic_loop a (Some t) del fires sleeps (rd # rounds) d = Some res"
        using IH(1) by (auto simp: step Let_def split: if_splits)
      with IH(2,3) show ?thesis by (intro exI [of _ res] exI [of _ "Suc n"]) simp
    qed
  qed
qed

lemma periodic_loop_first:
  "periodic_loop a None del fires sleeps (rd # rounds) d =
     periodic_loop a (Some (rd_now rd)) del fires sleeps (rd # rounds) d"
  by (simp add: periodic_loop.simps [of a _ _ _ _ "rd # rounds"] split: option.split)

lemma sleep_loop_first: "hd (snd (sleep_loop t rs)) = t \<and> snd (sleep_loop t rs) \<noteq> []"
  by (induction t rs rule: sleep_loop.induct) (auto split: prod.split)

section \<open>What send_and_wait leaves behind\<close>

lemma register_rendezvous_entry:
  assumes "register_rendezvous (Some a) d = Some d'"
  shows "\<exists>r. requests d' a = Some r \<and> rend_map d' (key_of (msg_rend r)) = Some a"
  using assms by (auto simp: rv_defs bind_eq_Some_conv Let_def)

lemma clear_rendezvous_gone:
  assumes "clear_rendezvous a d = Some d'" and "rv_inv d" and "requests d a = Some r"
    and "rend_map d (key_of (msg_rend r)) = Some a"
  shows "\<not> waiting a d'"
proof
  assume "waiting a d'"
  then obtain k where "rend_map d' k = Some a" by (auto simp: waiting_def ran_def)
  with assms(1,3) have "k \<noteq> key_of (msg_rend r)" "rend_map d k = Some a"
    by (auto simp: rv_defs bind_eq_Some_conv split: if_splits)
  with rv_invD(2) [OF assms(2) _ assms(4)] show False by metis
qed

text \<open>While it waits, its entry stays; so clearing finds the request, whatever the outcome.\<close>

lemma send_and_wait_defined:
  assumes "rv_inv d" and "requests d a = Some r" and "\<not> waiting a d" and "seq_left a d"
    and env: "\<And>d'. \<exists>es. rv_run es d' (env d') \<and> Clear a \<notin> set es \<and> ClearPeriodic a \<notin> set es"
  shows "\<exists>res. send_and_wait sent env wakes a d = Some res \<and>
    (\<forall>got d'. res = Some (got, d') \<longrightarrow> \<not> waiting a d' \<and> (got \<longrightarrow> sent))"
proof -
  from assms(2) obtain d1 where d1: "register_rendezvous (Some a) d = Some d1"
    by (simp add: rv_defs Let_def)
  have inv1: "rv_inv d1"
    by (rule rv_inv_step [OF rv_step.register [OF assms(3,4) d1] assms(1)])
  from register_rendezvous_entry [OF d1] obtain r1 where
    r1: "requests d1 a = Some r1" "rend_map d1 (key_of (msg_rend r1)) = Some a" by blast
  show ?thesis
  proof (cases sent)
    case False
    from r1 obtain d2 where d2: "clear_rendezvous a d1 = Some d2" by (simp add: rv_defs Let_def)
    with clear_rendezvous_gone [OF d2 inv1 r1] d1 False show ?thesis
      by (simp add: send_and_wait_def)
  next
    case True
    from env [of d1] obtain es where es: "rv_run es d1 (env d1)" "Clear a \<notin> set es"
      "ClearPeriodic a \<notin> set es" by blast
    have inv2: "rv_inv (env d1)" by (rule rv_inv_run [OF es(1) inv1])
    from rv_run_keeps [OF es(1) inv1 r1(2,1) es(2,3)] obtain r2 where
      r2: "requests (env d1) a = Some r2" "rend_map (env d1) (key_of (msg_rend r2)) = Some a"
      by auto
    show ?thesis
    proof (cases "wait_for_response wakes r2")
      case None
      with d1 True r2 show ?thesis by (simp add: send_and_wait_def)
    next
      case (Some w)
      then obtain got r3 where w: "w = (got, r3)" "msg_rend r3 = msg_rend r2"
          "msg_return_rend r3 = msg_return_rend r2"
        by (cases w) (auto simp: wait_for_response_def bind_eq_Some_conv)
      define d3 where "d3 = (env d1)\<lparr>requests := (requests (env d1))(a \<mapsto> r3)\<rparr>"
      have d3: "requests d3 a = Some r3" "rend_map d3 (key_of (msg_rend r3)) = Some a" "rv_inv d3"
        using r2 w rv_inv_update [OF inv2 r2(1) w(2,3)] by (simp_all add: d3_def)
      then obtain d4 where d4: "clear_rendezvous a d3 = Some d4" by (simp add: rv_defs Let_def)
      with clear_rendezvous_gone [OF d4 d3(3,1,2)] d1 True r2 Some w(1) show ?thesis
        by (simp add: send_and_wait_def d3_def)
    qed
  qed
qed

end
