(* ===== verification/Step_Systems.thy ===== *)
theory Step_Systems
  imports Main
begin

text \<open>
  The contracts of a step relation: \<open>kept\<close>, an invariant that every step keeps; \<open>ending\<close>, also a number that every step makes
  smaller, and a step from every state that is not final. What follows for runs is proved here once.
\<close>

locale kept =
  fixes step :: "'a \<Rightarrow> 'a \<Rightarrow> bool" and inv :: "'a \<Rightarrow> bool"
  assumes keeps: "inv w \<Longrightarrow> step w w' \<Longrightarrow> inv w'"
begin

lemma reach: "step\<^sup>*\<^sup>* w w' \<Longrightarrow> inv w \<Longrightarrow> inv w'"
  by (induction rule: rtranclp_induct) (auto intro: keeps)

lemma runs: "(step ^^ n) w w' \<Longrightarrow> inv w \<Longrightarrow> inv w'"
  using reach relpowp_imp_rtranclp by metis

end

locale ending = kept step inv for step :: "'a \<Rightarrow> 'a \<Rightarrow> bool" and inv :: "'a \<Rightarrow> bool" +
  fixes rank :: "'a \<Rightarrow> nat" and final :: "'a \<Rightarrow> bool"
  assumes smaller: "inv w \<Longrightarrow> step w w' \<Longrightarrow> rank w' < rank w"
    and progress: "inv w \<Longrightarrow> \<not> final w \<Longrightarrow> \<exists>w'. step w w'"
begin

lemma bound: "(step ^^ n) w w' \<Longrightarrow> inv w \<Longrightarrow> n + rank w' \<le> rank w"
proof (induction n arbitrary: w')
  case (Suc n)
  then obtain w1 where w1: "(step ^^ n) w w1" "step w1 w'" by auto
  then show ?case using Suc.IH [OF w1(1) Suc.prems(2)] smaller [OF runs [OF w1(1) Suc.prems(2)] w1(2)] by simp
qed simp

lemma ends: "inv w \<Longrightarrow> \<exists>w'. step\<^sup>*\<^sup>* w w' \<and> final w'"
proof (induction "rank w" arbitrary: w rule: less_induct)
  case less
  show ?case
  proof (cases "final w")
    case False
    then obtain w1 where s: "step w w1" using progress less.prems by blast
    then obtain w' where "step\<^sup>*\<^sup>* w1 w'" "final w'" using less.hyps [OF smaller [OF less.prems s] keeps [OF less.prems s]] by blast
    then show ?thesis using s by (meson converse_rtranclp_into_rtranclp)
  qed blast
qed

end

end
