(* ===== verification/Rendezvous_Owners.thy ===== *)
theory Rendezvous_Owners
  imports Process_Message Step_Systems
begin

text \<open>
  The map of waiting requests from the side of their owners, the threads that register a request, clear it and delete it.
  A state has, beside the dispatcher, the two sets of what the owners have called: \<open>W\<close>, the requests with
  \<^verbatim>\<open>register_rendezvous\<close> and not yet \<^verbatim>\<open>clear_rendezvous\<close>, as in \<^verbatim>\<open>send_and_wait\<close>, and \<open>P\<close>, the same for
  the calls for periodic requests, as in \<^verbatim>\<open>nccp_connection::process_message\<close>. A periodic request that is relayed is in
  both. No step looks at the map to see whether it may be taken: an owner deletes its request when it has cleared what it
  has registered, whatever the map holds then, and writes it freely but for the marker it waits with.
\<close>

type_synonym 'o owned_state = "addr set \<times> addr set \<times> 'o dispatcher"

inductive owner_step :: "'o owned_state \<Rightarrow> 'o owned_state \<Rightarrow> bool" where
  made: "requests d a = None \<Longrightarrow> owner_step (W, P, d) (W, P, d\<lparr>requests := (requests d)(a \<mapsto> r)\<rparr>)"
| written: "requests d a = Some r \<Longrightarrow> (a \<in> W \<Longrightarrow> msg_rend r' = msg_rend r) \<Longrightarrow>
     (a \<in> P \<Longrightarrow> msg_return_rend r' = msg_return_rend r) \<Longrightarrow>
     owner_step (W, P, d) (W, P, d\<lparr>requests := (requests d)(a \<mapsto> r')\<rparr>)"
| registered: "a \<notin> W \<Longrightarrow> seq_left a d \<Longrightarrow> register_rendezvous (Some a) d = Some d' \<Longrightarrow>
     owner_step (W, P, d) (insert a W, P, d')"
| registered_periodic: "a \<notin> P \<Longrightarrow> seq_left a d \<Longrightarrow> register_periodic_rendezvous (Some a) d = Some d' \<Longrightarrow>
     owner_step (W, P, d) (W, insert a P, d')"
| answered: "call_rendezvous_resp ra (rs :: response) d = Some (del, d') \<Longrightarrow> owner_step (W, P, d) (W, P, d')"
| answered_periodic: "call_rendezvous_periodic (p :: message) d = Some (del, d') \<Longrightarrow> owner_step (W, P, d) (W, P, d')"
| cleared: "a \<in> W \<Longrightarrow> clear_rendezvous a d = Some d' \<Longrightarrow> owner_step (W, P, d) (W - {a}, P, d')"
| cleared_periodic: "a \<in> P \<Longrightarrow> clear_periodic_rendezvous a d = Some d' \<Longrightarrow> owner_step (W, P, d) (W, P - {a}, d')"
| deleted: "a \<notin> W \<Longrightarrow> a \<notin> P \<Longrightarrow> requests d a = Some r \<Longrightarrow>
     owner_step (W, P, d) (W, P, d\<lparr>requests := (requests d)(a := None)\<rparr>)"

text \<open>The key under which a request waits.\<close>

definition waits_under :: "addr set \<Rightarrow> addr set \<Rightarrow> 'o dispatcher \<Rightarrow> rend_key \<Rightarrow> addr \<Rightarrow> bool" where
  "waits_under W P d k a \<longleftrightarrow> (\<exists>r. requests d a = Some r \<and>
     (a \<in> W \<and> k = key_of (msg_rend r) \<or> a \<in> P \<and> k = key_of (msg_return_rend r)))"

definition owner_inv :: "'o owned_state \<Rightarrow> bool" where
  "owner_inv s = (case s of (W, P, d) \<Rightarrow>
     (\<forall>a \<in> W \<union> P. requests d a \<noteq> None) \<and>
     (\<forall>k a. rend_map d k = Some a \<longleftrightarrow> waits_under W P d k a) \<and>
     (\<forall>a r. a \<in> W \<longrightarrow> a \<in> P \<longrightarrow> requests d a = Some r \<longrightarrow> key_of (msg_rend r) \<noteq> key_of (msg_return_rend r)) \<and>
     (\<forall>i n a. rend_map d (RKey i n) = Some a \<longrightarrow> n < next_seq d i))"

lemma owner_invD:
  assumes "owner_inv (W, P, d)"
  shows "a \<in> W \<or> a \<in> P \<Longrightarrow> \<exists>r. requests d a = Some r"
    and "rend_map d k = Some a \<longleftrightarrow> waits_under W P d k a"
    and "a \<in> W \<Longrightarrow> a \<in> P \<Longrightarrow> requests d a = Some r \<Longrightarrow> key_of (msg_rend r) \<noteq> key_of (msg_return_rend r)"
    and "rend_map d (RKey i n) = Some a \<Longrightarrow> n < next_seq d i"
  using assms unfolding owner_inv_def by (blast | auto)+

lemma owner_invI:
  assumes "\<And>a. a \<in> W \<or> a \<in> P \<Longrightarrow> \<exists>r. requests d a = Some r"
    and "\<And>k a. rend_map d k = Some a \<longleftrightarrow> waits_under W P d k a"
    and "\<And>a r. a \<in> W \<Longrightarrow> a \<in> P \<Longrightarrow> requests d a = Some r \<Longrightarrow> key_of (msg_rend r) \<noteq> key_of (msg_return_rend r)"
    and "\<And>i n a. rend_map d (RKey i n) = Some a \<Longrightarrow> n < next_seq d i"
  shows "owner_inv (W, P, d)"
  using assms unfolding owner_inv_def by auto

lemma owner_inv_new: "owner_inv ({}, {}, dispatcher_new heap)"
  by (rule owner_invI) (simp_all add: dispatcher_new_def waits_under_def)

text \<open>A step that leaves the map alone, and the markers of the requests that wait.\<close>

lemma owner_inv_frame:
  assumes inv: "owner_inv (W, P, d)" and map: "rend_map d' = rend_map d" "next_seq d' = next_seq d"
    and keep: "\<And>a r. a \<in> W \<or> a \<in> P \<Longrightarrow> requests d a = Some r \<Longrightarrow> \<exists>r'. requests d' a = Some r' \<and>
      (a \<in> W \<longrightarrow> msg_rend r' = msg_rend r) \<and> (a \<in> P \<longrightarrow> msg_return_rend r' = msg_return_rend r)"
  shows "owner_inv (W, P, d')"
proof -
  note I = owner_invD [OF inv]
  have both: "\<exists>r r'. requests d a = Some r \<and> requests d' a = Some r' \<and>
      (a \<in> W \<longrightarrow> msg_rend r' = msg_rend r) \<and> (a \<in> P \<longrightarrow> msg_return_rend r' = msg_return_rend r)"
    if a: "a \<in> W \<or> a \<in> P" for a
  proof -
    obtain r where "requests d a = Some r" using I(1) [OF a] by blast
    then show ?thesis using keep [OF a] by blast
  qed
  have "waits_under W P d' k a \<longleftrightarrow> waits_under W P d k a" for k a
    using both [of a] unfolding waits_under_def by fastforce
  then show ?thesis
  proof (intro owner_invI)
    show "\<exists>r. requests d' a = Some r" if "a \<in> W \<or> a \<in> P" for a using both [OF that] by blast
    show "key_of (msg_rend r') \<noteq> key_of (msg_return_rend r')" if "a \<in> W" "a \<in> P" "requests d' a = Some r'" for a r'
      using both [of a] I(3) [OF that(1,2)] that by auto
  qed (use I map both in auto)
qed

text \<open>Registering with a number that no entry has; \<open>W'\<close> and \<open>P'\<close> are the sets with the request.\<close>

lemma owner_inv_register:
  assumes inv: "owner_inv (W, P, d)" and r: "requests d a = Some r" and left: "next_seq d i < - 1"
    and new: "k = RKey i (next_seq d i)"
    and case1: "W' = insert a W \<and> P' = P \<and> a \<notin> W \<and> key_of (msg_rend r') = k \<and> msg_return_rend r' = msg_return_rend r \<or>
      W' = W \<and> P' = insert a P \<and> a \<notin> P \<and> key_of (msg_return_rend r') = k \<and> msg_rend r' = msg_rend r"
    and d': "rend_map d' = (rend_map d)(k \<mapsto> a)" "requests d' = (requests d)(a \<mapsto> r')"
      "next_seq d' = (next_seq d)(i := next_seq d i + 1)"
  shows "owner_inv (W', P', d')"
proof -
  note I = owner_invD [OF inv]
  have fresh: "rend_map d k = None" using I(4) [of i "next_seq d i"] new by (cases "rend_map d k") auto
  have no: "\<not> waits_under W P d k b" for b using I(2) [of k b] fresh by simp
  have old: "a \<in> W \<Longrightarrow> key_of (msg_rend r) \<noteq> k" "a \<in> P \<Longrightarrow> key_of (msg_return_rend r) \<noteq> k"
    using no [of a] r unfolding waits_under_def by auto
  have "waits_under W' P' d' j b \<longleftrightarrow> (j = k \<and> b = a \<or> j \<noteq> k \<and> waits_under W P d j b)" for j b
    using case1 no [of b] old r unfolding waits_under_def d'(2) by (cases "b = a") auto
  then have map: "rend_map d' j = Some b \<longleftrightarrow> waits_under W' P' d' j b" for j b
    using I(2) [of j b] by (auto simp: d'(1))
  show ?thesis
  proof (rule owner_invI)
    show "\<exists>x. requests d' b = Some x" if "b \<in> W' \<or> b \<in> P'" for b
      using that case1 I(1) [of b] by (auto simp: d'(2))
    show "key_of (msg_rend x) \<noteq> key_of (msg_return_rend x)" if "b \<in> W'" "b \<in> P'" "requests d' b = Some x" for b x
      using that case1 old I(3) [of b] by (cases "b = a") (auto simp: d'(2))
    show "n < next_seq d' j" if "rend_map d' (RKey j n) = Some b" for j n b
      using that I(4) [of j n b] word_succ_less [OF left] new by (auto simp: d'(1,3) split: if_splits)
  qed (rule map)
qed

text \<open>Clearing takes the key out under which the request waits, and no other.\<close>

lemma owner_inv_clear:
  assumes inv: "owner_inv (W, P, d)" and r: "requests d a = Some r"
    and case1: "a \<in> W \<and> W' = W - {a} \<and> P' = P \<and> k = key_of (msg_rend r) \<and> msg_return_rend r' = msg_return_rend r \<or>
      a \<in> P \<and> W' = W \<and> P' = P - {a} \<and> k = key_of (msg_return_rend r) \<and> msg_rend r' = msg_rend r"
    and d': "rend_map d' = (rend_map d)(k := None)" "requests d' = (requests d)(a \<mapsto> r')" "next_seq d' = next_seq d"
  shows "owner_inv (W', P', d')"
proof -
  note I = owner_invD [OF inv]
  have here: "waits_under W P d k a" using case1 r by (auto simp: waits_under_def)
  have one: "b = a" if "waits_under W P d k b" for b
    using here that I(2) by (metis option.inject)
  have apart: "key_of (msg_rend r) \<noteq> key_of (msg_return_rend r)" if "a \<in> W" "a \<in> P" by (rule I(3) [OF that r])
  have "waits_under W' P' d' j b \<longleftrightarrow> (j \<noteq> k \<and> waits_under W P d j b)" for j b
  proof (cases "b = a")
    case True
    then show ?thesis using case1 apart r unfolding waits_under_def d'(2) by auto
  next
    case False
    then have "waits_under W' P' d' j b \<longleftrightarrow> waits_under W P d j b"
      using case1 unfolding waits_under_def d'(2) by auto
    then show ?thesis using one [of b] False by auto
  qed
  then have map: "rend_map d' j = Some b \<longleftrightarrow> waits_under W' P' d' j b" for j b
    using I(2) [of j b] by (auto simp: d'(1))
  show ?thesis
  proof (rule owner_invI)
    show "\<exists>x. requests d' b = Some x" if "b \<in> W' \<or> b \<in> P'" for b
      using that case1 I(1) [of b] by (auto simp: d'(2))
    show "key_of (msg_rend x) \<noteq> key_of (msg_return_rend x)" if "b \<in> W'" "b \<in> P'" "requests d' b = Some x" for b x
      using that case1 I(3) [of b] by (cases "b = a") (auto simp: d'(2))
    show "n < next_seq d' j" if "rend_map d' (RKey j n) = Some b" for j n b
      using that I(4) [of j n b] by (auto simp: d'(1,3) split: if_splits)
  qed (rule map)
qed

lemma owner_inv_step: "owner_step s s' \<Longrightarrow> owner_inv s \<Longrightarrow> owner_inv s'"
proof (induction rule: owner_step.induct)
  case (made d a W P r)
  show ?case by (rule owner_inv_frame [OF made(2)]) (use made(1) in auto)
next
  case (written d a r W r' P)
  show ?case by (rule owner_inv_frame [OF written(4)]) (use written(1-3) in auto)
next
  case (registered a W d d' P)
  then obtain r where r: "requests d a = Some r" by (auto simp: rv_defs bind_eq_Some_conv)
  show ?case
    by (rule owner_inv_register [OF registered(4) r, of "msg_op r" _ "insert a W" P
          "r\<lparr>msg_rend := rendezvous_of (ucast (msg_op r)) (next_seq d (msg_op r))\<rparr>"])
      (use registered(1-3) r in \<open>auto simp: seq_left_def rv_defs Let_def\<close>)
next
  case (registered_periodic a P d d' W)
  then obtain r where r: "requests d a = Some r" by (auto simp: rv_defs bind_eq_Some_conv)
  show ?case
    by (rule owner_inv_register [OF registered_periodic(4) r, of "msg_op r" _ W "insert a P"
          "prepare_for_periodic (r\<lparr>msg_return_rend := rendezvous_of (ucast (msg_op r)) (next_seq d (msg_op r))\<rparr>)"])
      (use registered_periodic(1-3) r in \<open>auto simp: seq_left_def rv_defs Let_def\<close>)
next
  case (answered ra rs d del d' W P)
  show ?case
    by (rule owner_inv_frame [OF answered(2)])
      (use answered(1) in \<open>auto simp: rv_defs bind_eq_Some_conv split: option.splits\<close>)
next
  case (answered_periodic p d del d' W P)
  show ?case
    by (rule owner_inv_frame [OF answered_periodic(2)])
      (use answered_periodic(1) in \<open>auto simp: rv_defs bind_eq_Some_conv split: option.splits\<close>)
next
  case (cleared a W d d' P)
  then obtain r where r: "requests d a = Some r" by (auto simp: rv_defs bind_eq_Some_conv)
  show ?case
    by (rule owner_inv_clear [OF cleared(3) r, of "W - {a}" P "key_of (msg_rend r)" "r\<lparr>msg_rend := rendezvous_new\<rparr>"])
      (use cleared(1,2) r in \<open>auto simp: rv_defs Let_def\<close>)
next
  case (cleared_periodic a P d d' W)
  then obtain r where r: "requests d a = Some r" by (auto simp: rv_defs bind_eq_Some_conv)
  show ?case
    by (rule owner_inv_clear [OF cleared_periodic(3) r, of W "P - {a}" "key_of (msg_return_rend r)"
          "r\<lparr>msg_return_rend := rendezvous_new\<rparr>"])
      (use cleared_periodic(1,2) r in \<open>auto simp: rv_defs Let_def\<close>)
next
  case (deleted a W P d r)
  show ?case by (rule owner_inv_frame [OF deleted(4)]) (use deleted(1,2) in auto)
qed

interpretation owners: kept owner_step owner_inv
  by unfold_locales (rule owner_inv_step)

text \<open>A request that waits only for its answer: the owners' steps are steps of the dispatcher's runs, of which the deletion
  of a request that does not wait is one.\<close>

lemma owner_delete_step:
  assumes "owner_inv (W, P, d)" and "a \<notin> W" "a \<notin> P" and "requests d a = Some r"
  shows "rv_step (Delete a) d (d\<lparr>requests := (requests d)(a := None)\<rparr>)"
proof (rule rv_step.delete [OF assms(4)])
  show "\<not> waiting a d" using owner_invD(2) [OF assms(1)] assms(2,3) by (auto simp: waiting_def ran_def waits_under_def)
qed

end
