(* ===== verification/Rendezvous_Properties.thy ===== *)
theory Rendezvous_Properties
  imports Rendezvous_Owners
begin

text \<open>
  The properties of the shared request machinery: an answer finds the request it answers, waiting
  ends cleanly, requests in the map are alive, periodic requests fire on time, and the count of
  messages of a connection. The first section has a dispatcher with one request, for the examples.
\<close>

section \<open>A dispatcher with one request\<close>

definition one_request :: "unit dispatcher" where
  "one_request = dispatcher_new [5 \<mapsto> (blank_request () :: request)]"

definition one_waiting :: "unit dispatcher" where
  "one_waiting = the (register_rendezvous (Some 5) one_request)"

lemma one_request_facts:
  "rv_inv one_request" "\<not> waiting 5 one_request" "seq_left 5 one_request"
  "requests one_request 5 = Some (blank_request ())"
proof -
  show "rv_inv one_request" unfolding one_request_def by (rule rv_inv_new)
  have "(1 :: u32) < - 1" by (simp add: word_less_def uint_word_ariths(4))
  then show "\<not> waiting 5 one_request" "seq_left 5 one_request"
    "requests one_request 5 = Some (blank_request ())"
    by (simp_all add: one_request_def waiting_def seq_left_def dispatcher_new_def)
qed

lemma one_waiting_reg: "register_rendezvous (Some 5) one_request = Some one_waiting"
  by (simp add: one_waiting_def register_rendezvous_def one_request_facts Let_def)

lemma one_waiting_facts:
  "requests one_waiting 5 = Some ((blank_request ())\<lparr>msg_rend := rendezvous_of 0 1\<rparr>)"
  "rend_map one_waiting (RKey 0 1) = Some 5" "rv_inv one_waiting"
proof -
  show "requests one_waiting 5 = Some ((blank_request ())\<lparr>msg_rend := rendezvous_of 0 1\<rparr>)"
    "rend_map one_waiting (RKey 0 1) = Some 5"
    unfolding one_waiting_def
    by (simp_all add: register_rendezvous_def one_request_def dispatcher_new_def blank_request_def Let_def)
  show "rv_inv one_waiting"
    by (rule rv_inv_step [OF rv_step.register [OF one_request_facts(2,3) one_waiting_reg] one_request_facts(1)])
qed

definition one_answer :: response where
  "one_answer = (blank_response ())\<lparr>msg_rend := rendezvous_of 0 1\<rparr>"

section \<open>Answers\<close>

text \<open>C3: A response that carries the marker a request was sent with reaches that request, and no
  other one, whatever the other threads have done since the request was registered: it is woken with
  this response and the response is not deleted.\<close>

theorem answer_reaches_request:
  assumes "rv_inv d" and "\<not> waiting a d" and "seq_left a d"
    and "register_rendezvous (Some a) d = Some d1" and "requests d1 a = Some sent"
    and "rv_run es d1 d2" and "Clear a \<notin> set es" and "ClearPeriodic a \<notin> set es"
    and "msg_rend resp = msg_rend sent"
  shows "\<exists>d3 r. call_rendezvous_resp ra resp d2 = Some (False, d3) \<and> requests d3 a = Some r \<and>
    req_resp r = Some ra \<and> req_received_response r \<and> (\<forall>b. b \<noteq> a \<longrightarrow> requests d3 b = requests d2 b)"
proof -
  have inv1: "rv_inv d1" by (rule rv_inv_step [OF rv_step.register [OF assms(2-4)] assms(1)])
  from register_rendezvous_entry [OF assms(4)] assms(5)
  have "rend_map d1 (key_of (msg_rend sent)) = Some a" by simp
  from rv_run_keeps [OF assms(6) inv1 this assms(5,7,8)] assms(9) show ?thesis
    by (auto simp: call_rendezvous_resp_def request_rendezvous_resp_def)
qed

theorem answer_reaches_request_witness:
  "\<exists>d3 r. call_rendezvous_resp 9 one_answer one_waiting = Some (False, d3) \<and> requests d3 5 = Some r \<and>
    req_resp r = Some 9"
  using answer_reaches_request [OF one_request_facts(1-3) one_waiting_reg one_waiting_facts(1) rv_nil,
      of one_answer 9]
  by (auto simp: one_answer_def)

text \<open>C27: When every owner clears what it has registered before it deletes a request, the map of waiting requests never
  leads to a deleted one: in every state that the calls of any number of threads reach, an entry leads to a live request,
  with the entry's marker, that has been registered and not cleared since, and each such request has its entry,
  so that a response can find it; a request that is cleared is in the map no more.\<close>

theorem waiting_requests_live:
  assumes "owner_step\<^sup>*\<^sup>* ({}, {}, dispatcher_new heap) (W, P, d)"
  shows "(rend_map d k = Some a \<longleftrightarrow> (\<exists>r. requests d a = Some r \<and>
      (a \<in> W \<and> k = key_of (msg_rend r) \<or> a \<in> P \<and> k = key_of (msg_return_rend r)))) \<and>
    (waiting b d \<longleftrightarrow> b \<in> W \<or> b \<in> P)"
proof -
  note I = owner_invD [OF owners.reach [OF assms owner_inv_new]]
  have "b \<in> W \<or> b \<in> P \<Longrightarrow> \<exists>j. waits_under W P d j b" using I(1) [of b] by (auto simp: waits_under_def)
  then have "waiting b d \<longleftrightarrow> b \<in> W \<or> b \<in> P" using I(2) by (auto simp: waiting_def ran_def waits_under_def)
  then show ?thesis using I(2) [of k a] by (simp add: waits_under_def)
qed

text \<open>A request is registered, and then cleared and deleted.\<close>

theorem waiting_requests_live_witness:
  "rend_map one_waiting (RKey 0 1) = Some 5 \<and> waiting 5 one_waiting \<and>
   (\<exists>d d'. clear_rendezvous 5 one_waiting = Some d \<and> \<not> waiting 5 d \<and>
     owner_step ({}, {}, d) ({}, {}, d') \<and> requests d' 5 = None)"
proof -
  let ?heap = "[5 \<mapsto> (blank_request () :: request)]"
  have 1: "owner_step\<^sup>*\<^sup>* ({}, {}, dispatcher_new ?heap) ({5}, {}, one_waiting)"
    using owner_step.registered [OF _ one_request_facts(3) one_waiting_reg, of "{}" "{}"] by (simp add: one_request_def)
  obtain d where d: "clear_rendezvous 5 one_waiting = Some d" "requests d 5 \<noteq> None"
    using one_waiting_facts(1) by (simp add: clear_rendezvous_def Let_def)
  have "owner_step ({5}, {}, one_waiting) ({}, {}, d)" using owner_step.cleared [OF _ d(1), of "{5}" "{}"] by simp
  with 1 have 2: "owner_step\<^sup>*\<^sup>* ({}, {}, dispatcher_new ?heap) ({}, {}, d)" by simp
  have "owner_step ({}, {}, d) ({}, {}, d\<lparr>requests := (requests d)(5 := None)\<rparr>)"
    using d(2) by (auto intro: owner_step.deleted)
  then show ?thesis
    using d(1) waiting_requests_live [OF 1, of "RKey 0 1" 5 5] waiting_requests_live [OF 2, of "RKey 0 1" 5 5] one_waiting_facts(1,2)
    by (intro conjI exI) auto
qed

text \<open>C25: \<^verbatim>\<open>send_and_wait\<close> never follows a dangling pointer and always takes its marker out
  of the map again, whether sending fails, the answer comes or the wait times out, and it reports an
  answer only when the message was sent.\<close>

theorem send_and_wait_clears:
  assumes "rv_inv d" and "requests d a = Some r" and "\<not> waiting a d" and "seq_left a d"
    and "\<forall>d'. \<exists>es. rv_run es d' (env d') \<and> Clear a \<notin> set es \<and> ClearPeriodic a \<notin> set es"
  shows "\<exists>res. send_and_wait sent env wakes a d = Some res \<and>
    (\<forall>got d'. res = Some (got, d') \<longrightarrow> \<not> waiting a d' \<and> (got \<longrightarrow> sent))"
  using send_and_wait_defined [OF assms(1-4)] assms(5) by blast

theorem send_and_wait_clears_witness:
  "\<exists>d'. send_and_wait True id [(True, False)] 5 one_request = Some (Some (False, d')) \<and> \<not> waiting 5 d'"
proof -
  have "\<forall>d'. \<exists>es. rv_run es d' (id d') \<and> Clear 5 \<notin> set es \<and> ClearPeriodic 5 \<notin> set es"
    by (auto intro!: exI [of _ "[]"])
  from send_and_wait_clears [OF one_request_facts(1,4,2,3) this, of True "[(True, False)]"]
  obtain res where res: "send_and_wait True id [(True, False)] 5 one_request = Some res"
    "\<forall>got d'. res = Some (got, d') \<longrightarrow> \<not> waiting 5 d'" by blast
  moreover have "\<exists>d'. res = Some (False, d')"
    using res(1)
    by (auto simp: send_and_wait_def one_waiting_reg one_waiting_facts wait_for_response_def
        bind_eq_Some_conv blank_request_def)
  ultimately show ?thesis by auto
qed

text \<open>
  \<^verbatim>\<open>call_rendezvous\<close> looks the request up under the lock and uses it after releasing the lock:
  its two parts.
\<close>

definition find_rendezvous :: "'a message_scheme \<Rightarrow> 'o dispatcher \<Rightarrow> addr option" where
  "find_rendezvous m d = rend_map d (key_of (msg_rend m))"

definition answer_request :: "addr \<Rightarrow> addr option \<Rightarrow> 'o dispatcher \<Rightarrow> (bool \<times> 'o dispatcher) option" where
  "answer_request resp_addr found d =
     (case found of
        None \<Rightarrow> Some (True, d)
      | Some a \<Rightarrow> do {
          r \<leftarrow> requests d a;
          let (del, r) = request_rendezvous_resp resp_addr r;
          Some (del, d\<lparr>requests := (requests d)(a \<mapsto> r)\<rparr>)
        })"

lemma call_rendezvous_split: "call_rendezvous_resp ra resp d = answer_request ra (find_rendezvous resp d) d"
  by (simp add: call_rendezvous_resp_def answer_request_def find_rendezvous_def)

text \<open>C40: When the request gives up waiting between the two parts of \<^verbatim>\<open>call_rendezvous\<close>, and is
  deleted as its owner may then do, the late response is handed to a deleted object.\<close>

theorem late_answer_after_delete:
  assumes "rv_inv d" and "requests d a = Some r" and "rend_map d (key_of (msg_rend r)) = Some a"
    and "msg_rend resp = msg_rend r"
  shows "\<exists>d2. find_rendezvous resp d = Some a \<and> rv_run [Clear a, Delete a] d d2 \<and>
    answer_request ra (Some a) d2 = None"
proof -
  from assms(2) obtain d1 where d1: "clear_rendezvous a d = Some d1" by (simp add: rv_defs Let_def)
  then obtain r1 where r1: "requests d1 a = Some r1" using assms(2) by (auto simp: rv_defs Let_def)
  have "rv_run [Clear a, Delete a] d (d1\<lparr>requests := (requests d1)(a := None)\<rparr>)"
    by (rule rv_cons [OF rv_step.clear [OF assms(2,3) d1]
          rv_cons [OF rv_step.delete [OF r1 clear_rendezvous_gone [OF d1 assms(1-3)]] rv_nil]])
  then show ?thesis using assms(3,4)
    by (intro exI conjI) (auto simp: find_rendezvous_def answer_request_def)
qed

theorem late_answer_after_delete_witness:
  "\<exists>d2. find_rendezvous one_answer one_waiting = Some 5 \<and> rv_run [Clear 5, Delete 5] one_waiting d2 \<and>
    answer_request 9 (Some 5) d2 = None"
  by (rule late_answer_after_delete [OF one_waiting_facts(3,1)])
    (simp_all add: one_waiting_facts one_answer_def)

section \<open>Periodic requests\<close>

text \<open>C33: The k-th time a periodic request is due is the first clock reading plus k periods to the
  nanosecond, however long its handlers take and whether or not sleeps are interrupted, as long as its
  period is not changed.\<close>

theorem periodic_on_time:
  assumes "requests d a = Some r" and "period_kept a (get_period r) (rd # rounds)"
  shows "\<exists>res. periodic_loop a None True [] [] (rd # rounds) d = Some res \<and>
    (\<forall>k < length (lr_fires res). nanoseconds (lr_fires res ! k) =
      nanoseconds (rd_now rd) + int (Suc k) * nanoseconds (get_period r))"
proof -
  from periodic_loop_fires [OF assms(1) refl assms(2), of "rd_now rd" True "[]" "[]"] obtain res n where
    "periodic_loop a (Some (rd_now rd)) True [] [] (rd # rounds) d = Some res"
    "lr_fires res = fire_times (rd_now rd) (get_period r) n" by auto
  moreover have "length (fire_times t p n) = n" for t p
    by (induction t p n rule: fire_times.induct) simp_all
  ultimately show ?thesis by (auto simp: periodic_loop_first nanoseconds_fire_times)
qed

definition every_ms :: request where
  "every_ms = (blank_request ())\<lparr>req_period := \<lparr>tv_sec = 0, tv_usec = 1000\<rparr>\<rparr>"

definition slow_round :: "int \<Rightarrow> int \<Rightarrow> unit round" where
  "slow_round before after = \<lparr>rd_now = \<lparr>ts_sec = 0, ts_nsec = before\<rparr>, rd_handle = (\<lambda>d. (True, d)),
     rd_after = \<lparr>ts_sec = 0, ts_nsec = after\<rparr>, rd_sleeps = []\<rparr>"

theorem periodic_on_time_witness:
  "\<exists>res. periodic_loop 7 None True [] [] [slow_round 10 5000000, slow_round 0 5000000]
      (dispatcher_new [7 \<mapsto> every_ms]) = Some res \<and>
    (\<forall>k < length (lr_fires res). nanoseconds (lr_fires res ! k) = 10 + int (Suc k) * 1000000)"
proof -
  have "period_kept 7 (get_period every_ms) [slow_round 10 5000000, slow_round 0 5000000]"
    by (simp add: period_kept_def slow_round_def)
  from periodic_on_time [OF _ this, of "dispatcher_new [7 \<mapsto> every_ms]"] show ?thesis
    by (auto simp: dispatcher_new_def slow_round_def every_ms_def get_period_def nanoseconds_def)
qed

section \<open>The count of messages\<close>

text \<open>A message is counted when it is read and again when its object is attached to the connection,
  but given back once: a connection that has ever received a message always counts outstanding ones,
  so the listener never deletes it.\<close>

lemma received_never_cleaned:
  assumes "cnt_step\<^sup>*\<^sup>* \<lparr>cnt_conns = (\<lambda>_. nccp_connection_of sfd la lp ra rp inp), cnt_objs = (\<lambda>_. None),
      cnt_received = (\<lambda>_. 0)\<rparr> s"
    and "0 < cnt_received s c" and "cnt_step\<^sup>*\<^sup>* s s'"
  shows "has_outstanding_msgs (cnt_conns s' c) \<and> cnt_conns s' c \<notin> set (fst (cleanup l))"
proof -
  have "cnt_inv s'" by (rule cnt_inv_steps [OF assms(3) cnt_inv_steps [OF assms(1) cnt_inv_init]])
  moreover have "0 < cnt_received s' c"
    using cnt_received_mono [OF assms(3), of c] assms(2) by simp
  ultimately have "has_outstanding_msgs (cnt_conns s' c)" by (simp add: cnt_inv_outstanding)
  then show ?thesis by (auto simp: cleanup_def cleanup_from_filter)
qed

lemma received_never_cleaned_example:
  "has_outstanding_msgs (increment_msg_count (nccp_connection_of 3 0 0 0 0 []))"
proof -
  define s0 where "s0 = \<lparr>cnt_conns = (\<lambda>_. nccp_connection_of 3 0 0 0 0 []), cnt_objs = (\<lambda>_. None),
      cnt_received = (\<lambda>_. 0)\<rparr>"
  define s1 where "s1 = s0\<lparr>cnt_conns := (cnt_conns s0)(1 := increment_msg_count (cnt_conns s0 1)),
     cnt_received := (cnt_received s0)(1 := Suc (cnt_received s0 1))\<rparr>"
  have "cnt_step\<^sup>*\<^sup>* s0 s1" unfolding s1_def by (intro r_into_rtranclp cnt_step.read)
  from received_never_cleaned [OF this [unfolded s0_def] _ rtranclp.rtrancl_refl, of 1]
  show ?thesis by (simp add: s1_def s0_def)
qed

end
