(* ===== verification/Wire_Properties.thy ===== *)
theory Wire_Properties
  imports Onl_Nodes Onl_Responses Onl_Messages
begin

text \<open>
  What travels between the daemons: strings, addresses, parameters, the messages of the resource
  daemon, and the sizes that they can have.
\<close>

section \<open>Strings\<close>

text \<open>Any text put into a wire string, sent and read into another wire string, whatever that one
  held before, arrives as its first 255 characters up to the first NUL.\<close>

lemma string_delivered:
  assumes "length arr = 256" and "nccp_ok old"
  shows "\<exists>b s b'. put_nccp_string (nccp_string_of_cstr arr c) (byte_buffer_new junk) = Some b \<and>
    get_nccp_string old (buf_reset b) = Some (s, b') \<and> nccp_ok s \<and> nccp_getString s = take 255 (c_str c)"
proof -
  note r = nccp_string_of_cstr_refines [OF assms(1), of c]
  define x where "x = nstr_of c"
  have ok: "nstr_ok x" by (simp add: x_def)
  have put: "put_nccp_string (nccp_string_of_cstr arr c) (byte_buffer_new junk) = put_nstr x (byte_buffer_new junk)"
    using put_nccp_string_refines [of "nccp_string_of_cstr arr c"] r by (simp add: x_def)
  from nstr.put_fits [OF ok, of "byte_buffer_new junk"] obtain b where
    b: "put_nstr x (byte_buffer_new junk) = Some b" by (auto simp: byte_buffer_new_def)
  from nstr.roundtrip [OF b _ ok] have "get_nstr (buf_reset b) = Some (x, b)"
    by (simp add: buf_reset_def byte_buffer_new_def)
  with get_nccp_string_refines(1) [OF assms(2), of "buf_reset b"] obtain s where
    s: "get_nccp_string old (buf_reset b) = Some (s, b)" "nstr s = x" by auto
  from get_nccp_string_refines(2) [OF assms(2) s(1)] have "nccp_ok s" .
  with s(2) nccp_getString_refines [of s] have "nccp_getString s = take 255 (c_str c)"
    using no_nul_nstr_of [of c] by (simp add: x_def) (simp add: nstr_of_def)
  with b put s(1) \<open>nccp_ok s\<close> show ?thesis by auto
qed

lemma string_delivered_example:
  "\<exists>b s b'. put_nccp_string (nccp_string_of_cstr (replicate 256 NUL) ''onlsw7'') (byte_buffer_new (\<lambda>_. 0)) = Some b \<and>
    get_nccp_string (nccp_string_of_cstr (replicate 256 NUL) ''a longer text'') (buf_reset b) = Some (s, b') \<and>
    nccp_getString s = ''onlsw7''"
proof -
  have ok: "nccp_ok (nccp_string_of_cstr (replicate 256 NUL) ''a longer text'')"
    by (simp add: nccp_string_of_cstr_refines)
  from string_delivered [OF _ ok, of "replicate 256 NUL" "''onlsw7''" "\<lambda>_. 0"] show ?thesis
    by (auto simp: c_str_def)
qed

text \<open>An address that is printed and read back is the same address, and no printed address is longer
  than fifteen characters, so none is cut in a wire string.\<close>

lemma address_roundtrip: "getAsIP (addr_int2str a) = a \<and> length (addr_int2str a) \<le> 15"
  by (simp add: getAsIP_addr_int2str length_addr_int2str)

section \<open>Parameters\<close>

lemma nstr_ok_Nil [simp]: "nstr_ok []"
  by (simp add: nstr_ok_def)

text \<open>A list of parameters of any types read after the same list was written is the same list, and
  the cursor is then behind it.\<close>

lemma params_roundtrip:
  assumes "put_param_list ps b = Some b'" and "list_ok param_ok ps"
  shows "get_param_list [] (b'\<lparr>cur_index := cur_index b\<rparr>) = Some (ps, b')"
  using param_list.roundtrip [OF assms(1) _ assms(2)] by (simp add: enc_list_def)

lemma params_roundtrip_example:
  "\<exists>b'. put_param_list [param_of ''eth0'', param_new] (byte_buffer_new (\<lambda>_. 0)) = Some b' \<and>
    get_param_list [] (b'\<lparr>cur_index := 0\<rparr>) = Some ([param_of ''eth0'', param_new], b')"
proof -
  have ok: "list_ok param_ok [param_of ''eth0'', param_new]"
    by (simp add: list_ok_def param_ok_def param_of_def param_new_def)
  have "length (enc_list enc_param [param_of ''eth0'', param_new]) \<le> 2048"
    using param.enc_bound [of "param_of ''eth0''"] param.enc_bound [of param_new] ok
    by (simp add: length_enc_list list_ok_def)
  then obtain b' where b': "put_param_list [param_of ''eth0'', param_new] (byte_buffer_new (\<lambda>_. 0)) = Some b'"
    using put_bytes_fits [of "enc_list enc_param [param_of ''eth0'', param_new]" "byte_buffer_new (\<lambda>_. 0)"]
    unfolding param_list.put_enc by (auto simp: enc_list_def byte_buffer_new_def)
  from params_roundtrip [OF b' ok] b' show ?thesis by (simp add: byte_buffer_new_def)
qed

section \<open>Messages of the resource daemon\<close>

text \<open>A start_experiment request that could be written reaches the object that the receiver builds
  from its bytes with all its fields: the header, the experiment and the component, the address, the
  sizes of the virtual machine and the parameters.\<close>

lemma start_experiment_delivered:
  assumes "start_experiment_write (m\<lparr>msg_buf := buf_reset (msg_buf m)\<rparr>) = Some m'"
    and "start_experiment_ok m" and "se_init_params mem = []"
  shows "\<exists>r r'. message_of_bytes junk junk' (sent_bytes (msg_buf m')) mem = Some r \<and>
    start_experiment_parse r = Some r' \<and> start_experiment_view r' = start_experiment_view m"
  by (rule start_experiment.delivered [OF assms])

definition sample_experiment :: onl_experiment where
  "sample_experiment = experiment_of ''drn06'' 3001
     \<lparr>ei_ID = nstr_of ''17'', ei_expName = nstr_of ''ring'', ei_userName = nstr_of ''user''\<rparr>"

definition sample_start :: start_experiment where
  "sample_start = \<lparr>msg_buf = byte_buffer_new (\<lambda>_. 0), msg_type = NCCP_MessageRequest, msg_version = 0,
     msg_op = NCCP_Operation_StartExperiment, msg_rend = rendezvous_of 52 1, msg_periodic = False,
     msg_return_rend = rendezvous_new, msg_conn = None, req_period = \<lparr>tv_sec = 0, tv_usec = 0\<rparr>,
     req_received_response = False, req_timeout = 120, req_resp = None, req_received_stop = False,
     req_received_ack = False, crd_exp = sample_experiment, crd_comp = component_of ''pc1core'' 3,
     se_ipaddr = nstr_of ''10.0.1.2'', se_cores = 2, se_memory = 1024, se_init_params = [param_of ''eth0'']\<rparr>"

lemmas sample_defs = sample_start_def sample_experiment_def experiment_of_def experiment_info_copy_def
  component_of_def byte_buffer_new_def

lemmas ok_defs = request_ok_def experiment_ok_def experiment_info_ok_def component_ok_def

lemmas enc_defs = enc_request_def enc_experiment_def enc_experiment_info_def enc_component_def

lemma sample_start_written: "\<exists>m'. start_experiment_write (sample_start\<lparr>msg_buf := buf_reset (msg_buf sample_start)\<rparr>) = Some m'"
proof -
  have "length (enc_start_experiment (sample_start\<lparr>msg_buf := buf_reset (msg_buf sample_start)\<rparr>)) \<le> 2048"
    by (simp add: enc_start_experiment_def enc_crd_request_def enc_defs sample_defs wire_len length_enc_list
        enc_param_def param_of_def nstr_of_def c_str_def)
  then show ?thesis
    by (subst start_experiment.write_fits) (simp_all add: buf_reset_def sample_defs)
qed

lemma start_experiment_delivered_example:
  "\<exists>m' r r'. start_experiment_write (sample_start\<lparr>msg_buf := buf_reset (msg_buf sample_start)\<rparr>) = Some m' \<and>
    message_of_bytes (\<lambda>_. 1) (\<lambda>_. 1) (sent_bytes (msg_buf m')) (sample_start\<lparr>se_init_params := [], se_cores := 0\<rparr>) = Some r \<and>
    start_experiment_parse r = Some r' \<and> start_experiment_view r' = start_experiment_view sample_start"
proof -
  from sample_start_written obtain m' where
    m': "start_experiment_write (sample_start\<lparr>msg_buf := buf_reset (msg_buf sample_start)\<rparr>) = Some m'" ..
  have "start_experiment_ok sample_start"
    by (simp add: start_experiment_ok_def crd_request_ok_def ok_defs sample_defs list_ok_def param_ok_def
        param_of_def)
  from start_experiment_delivered [OF m' this, of "sample_start\<lparr>se_init_params := [], se_cores := 0\<rparr>"] m'
  show ?thesis by simp
qed

section \<open>Sizes\<close>

text \<open>Every response of the resource daemon about an experiment and a component fits into the fixed
  2048 bytes of a message buffer, so that writing it never leaves the buffer.\<close>

lemma crd_response_fits:
  assumes "crd_response_ok m" and "cur_index (msg_buf m) = 0" and "num_bytes_allocated (msg_buf m) = 2048"
  shows "\<exists>m'. crd_response_write m = Some m'"
  using crd_response.write_fits [OF assms(2)] length_enc_crd_response [OF assms(1)] assms(3) by simp

definition sample_response :: crd_response where
  "sample_response = \<lparr>msg_buf = byte_buffer_new (\<lambda>_. 0), msg_type = NCCP_MessageResponse, msg_version = 0,
     msg_op = NCCP_Operation_StartExperiment, msg_rend = rendezvous_of 52 1, msg_periodic = False,
     msg_return_rend = rendezvous_new, msg_conn = None, resp_req = None, end_of_message = True,
     cr_status = NCCP_Status_Fine, cr_exp = sample_experiment, cr_comp = component_of ''pc1core'' 3\<rparr>"

lemma crd_response_fits_example: "\<exists>m'. crd_response_write sample_response = Some m'"
  by (rule crd_response_fits)
    (simp_all add: sample_response_def crd_response_ok_def ok_defs sample_defs)

definition long_name :: nstring where
  "long_name = replicate 255 (CHR ''x'')"

definition long_configure :: configure_node where
  "long_configure = \<lparr>msg_buf = byte_buffer_new (\<lambda>_. 0), msg_type = NCCP_MessageRequest, msg_version = 0,
     msg_op = NCCP_Operation_CfgNode, msg_rend = rendezvous_of 55 1, msg_periodic = False,
     msg_return_rend = rendezvous_new, msg_conn = None, req_period = \<lparr>tv_sec = 0, tv_usec = 0\<rparr>,
     req_received_response = False, req_timeout = 30, req_resp = None, req_received_stop = False,
     req_received_ack = False,
     crd_exp = \<lparr>exp_addr = long_name, exp_port = 3001,
       exp_info = \<lparr>ei_ID = long_name, ei_expName = long_name, ei_userName = long_name\<rparr>\<rparr>,
     crd_comp = \<lparr>comp_type = long_name, comp_id = 3, comp_parent = 0, comp_label = long_name,
       comp_cp = long_name, comp_is_router = False\<rparr>,
     cn_node_conf = node_info_new\<lparr>ni_ipaddr := long_name, ni_subnet := long_name\<rparr>\<rparr>"

text \<open>A configure_node request need not fit: with long names the message is larger than the 2048 bytes
  of the buffer, though every field is within its limits, and writing it runs over the end of the block.\<close>

lemma configure_node_overruns:
  "crd_request_ok long_configure \<and> node_info_ok (cn_node_conf long_configure) \<and>
   num_bytes_allocated (msg_buf long_configure) = 2048 \<and> configure_node_write long_configure = None"
proof -
  have "2048 < length (enc_configure_node long_configure)"
    by (simp add: enc_configure_node_def enc_crd_request_def enc_defs long_configure_def long_name_def
        wire_len enc_node_info_def enc_nh_info_def
        node_info_new_def)
  then have "\<not> (\<exists>m'. configure_node_write long_configure = Some m')"
    by (subst configure_node.write_fits) (simp_all add: long_configure_def byte_buffer_new_def)
  then show ?thesis
    by (simp add: crd_request_ok_def ok_defs long_configure_def long_name_def byte_buffer_new_def
        nstr_ok_def node_info_ok_def node_info_new_def nh_info_ok_def nh_info_new_def)
qed

text \<open>Both constructors of a cluster write one entry past its array of 255, and reading a cluster that
  announces more than 255 entries never succeeds within the array.\<close>

lemma cluster_overruns:
  assumes "length hw = 255"
  shows "cluster_new hw = None \<and> cluster_of hw t i = None \<and>
    (\<forall>c b c' b'. hardware c = hw \<longrightarrow> parseExtra c b = Some (c', b') \<longrightarrow> unat (numHardware c') \<le> 255)"
  using cluster_new_overruns [OF assms] parseExtra_overrun assms by blast

lemma cluster_overruns_example: "cluster_new (replicate 255 0) = None"
  using cluster_overruns [of "replicate 255 0"] by simp

section \<open>Rendezvous markers\<close>

text \<open>The markers are strictly and totally ordered by operation and sequence number, as the map of
  waiting requests needs, and a marker always travels as 28 bytes that give it back.\<close>

lemma rendezvous_markers:
  "\<not> rendezvous_lt x x \<and> (rendezvous_lt x y \<longrightarrow> rendezvous_lt y z \<longrightarrow> rendezvous_lt x z) \<and>
   (rendezvous_lt x y \<or> rendezvous_eq x y \<or> rendezvous_lt y x) \<and>
   (put_rendezvous x b = Some b' \<longrightarrow>
     get_rendezvous (b'\<lparr>cur_index := cur_index b\<rparr>) = Some (x, b') \<and>
     cur_index b' = cur_index b + 28)"
proof (intro conjI impI)
  assume "put_rendezvous x b = Some b'"
  then show "get_rendezvous (b'\<lparr>cur_index := cur_index b\<rparr>) = Some (x, b')"
    using rendezvous.enc_fixed [of x] by (intro rendezvous.roundtrip) auto
next
  assume p: "put_rendezvous x b = Some b'"
  have ne: "enc_rendezvous x \<noteq> []" using rendezvous.enc_fixed [of x] by auto
  from p have "put_bytes (enc_rendezvous x) b = Some b'" by (simp add: rendezvous.put_enc)
  with ne show "cur_index b' = cur_index b + 28"
    using rendezvous.enc_fixed [of x] by (auto simp: put_bytes_closed split: if_splits)
qed (auto simp: rendezvous_lt_key rendezvous_eq_key)

lemma rendezvous_markers_example:
  "rendezvous_lt (rendezvous_of 1 2) (rendezvous_of 2 1) \<and>
   \<not> rendezvous_lt (rendezvous_of 1 2) (rendezvous_of 1 2) \<and>
   (\<exists>b'. put_rendezvous (rendezvous_of 1 2) (byte_buffer_new (\<lambda>_. 0)) = Some b' \<and> cur_index b' = 28)"
proof -
  have ne: "enc_rendezvous (rendezvous_of 1 2) \<noteq> []"
    using rendezvous.enc_fixed [of "rendezvous_of 1 2"] by auto
  obtain b' where "put_rendezvous (rendezvous_of 1 2) (byte_buffer_new (\<lambda>_. 0)) = Some b'"
    using ne rendezvous.put_fits [of "rendezvous_of 1 2" "byte_buffer_new (\<lambda>_. 0)"]
      rendezvous.enc_fixed [of "rendezvous_of 1 2"] by (auto simp: byte_buffer_new_def)
  with rendezvous_markers [of "rendezvous_of 1 2" "rendezvous_of 2 1" _ "byte_buffer_new (\<lambda>_. 0)" b']
  show ?thesis by (auto simp: byte_buffer_new_def rendezvous_lt_key less_rend_key_def)
qed

end
