(* ===== verification/Util_Properties.thy ===== *)
theory Util_Properties
  imports Util
begin

text \<open>The properties of the utilities: times, log files, guards of mutexes.\<close>

section \<open>Times\<close>

text \<open>The difference of two normalised times is normalised, differs by exactly their distance in
  nanoseconds, also when it is negative, and the result says whether the first is not earlier.\<close>

lemma timespec_difference:
  assumes "timespec_ok t1" and "timespec_ok t2"
  shows "timespec_ok (snd (timespec_diff t1 t2)) \<and>
    nanoseconds (snd (timespec_diff t1 t2)) = nanoseconds t1 - nanoseconds t2 \<and>
    (fst (timespec_diff t1 t2) \<longleftrightarrow> nanoseconds t2 \<le> nanoseconds t1)"
  using timespec_diff_ok [OF assms] timespec_diff_nanoseconds timespec_diff_ge [OF assms] by simp

lemma timespec_difference_example:
  "timespec_diff \<lparr>ts_sec = 1, ts_nsec = 5\<rparr> \<lparr>ts_sec = 2, ts_nsec = 0\<rparr> =
      (False, \<lparr>ts_sec = -1, ts_nsec = 5\<rparr>) \<and>
    nanoseconds \<lparr>ts_sec = -1, ts_nsec = 5\<rparr> = 1000000005 - 2000000000"
  using timespec_difference [of "\<lparr>ts_sec = 1, ts_nsec = 5\<rparr>" "\<lparr>ts_sec = 2, ts_nsec = 0\<rparr>"]
  by (simp add: timespec_ok_def timespec_diff_def nanoseconds_def)

section \<open>Log files\<close>

text \<open>Opening a log moves the old one and its four predecessors one number up, the fifth being lost
  when a fourth takes its place, starts an empty file, and touches no other file.\<close>

lemma log_files_rotate:
  assumes "\<forall>i. ren (log_name f i) (log_name f (Suc i))"
  shows "\<exists>fs'. log_file_new ren True f fs = Inr fs' \<and> fs' f = Some [] \<and>
    (\<forall>i \<le> 4. fs' (log_name f (Suc i)) =
      (if i = 4 \<and> fs (log_name f 4) = None then fs (log_name f 5) else fs (log_name f i))) \<and>
    (\<forall>g. (\<forall>i \<le> 5. g \<noteq> log_name f i) \<longrightarrow> fs' g = fs g)"
proof -
  from log_rotate_moves [of ren f 4 fs] assms obtain fs' where
    fs': "log_rotate ren f 4 fs = Inr fs'"
      "\<forall>i \<le> 4. fs' (log_name f (Suc i)) =
        (if i = 4 \<and> fs (log_name f 4) = None then fs (log_name f 5) else fs (log_name f i))"
      "\<forall>g. (\<forall>i \<le> 5. g \<noteq> log_name f i) \<longrightarrow> fs' g = fs g" by auto
  have "log_name f (Suc i) \<noteq> f" for i by (simp add: log_name_def)
  moreover have "log_name f 0 = f" by (simp add: log_name_def)
  then have "g \<noteq> f" if "\<forall>i \<le> 5. g \<noteq> log_name f i" for g using that by (metis le0)
  ultimately show ?thesis using fs' by (auto simp: log_file_new_def)
qed

lemma log_files_rotate_example:
  "\<exists>fs'. log_file_new (\<lambda>_ _. True) True ''crd'' [''crd'' \<mapsto> ''old'', ''crd.1'' \<mapsto> ''older''] = Inr fs' \<and>
    fs' ''crd'' = Some [] \<and> fs' ''crd.1'' = Some ''old'' \<and> fs' ''crd.2'' = Some ''older''"
proof -
  have n: "log_name ''crd'' 0 = ''crd''" "log_name ''crd'' (Suc 0) = ''crd.1''" "log_name ''crd'' 2 = ''crd.2''"
    by (simp_all add: log_name_def int2str_def dec_digits.simps digit_char_def char_of_eq_iff)
  from log_files_rotate [of "\<lambda>_ _. True" "''crd''" "[''crd'' \<mapsto> ''old'', ''crd.1'' \<mapsto> ''older'']"]
  obtain fs' where fs': "log_file_new (\<lambda>_ _. True) True ''crd'' [''crd'' \<mapsto> ''old'', ''crd.1'' \<mapsto> ''older''] = Inr fs'"
    "fs' ''crd'' = Some []" and m: "\<forall>i \<le> 4. fs' (log_name ''crd'' (Suc i)) =
      (if i = 4 \<and> [''crd'' \<mapsto> ''old'', ''crd.1'' \<mapsto> ''older''] (log_name ''crd'' 4) = None
       then [''crd'' \<mapsto> ''old'', ''crd.1'' \<mapsto> ''older''] (log_name ''crd'' 5)
       else [''crd'' \<mapsto> ''old'', ''crd.1'' \<mapsto> ''older''] (log_name ''crd'' i))" by auto
  from m [rule_format, of 0] m [rule_format, of "Suc 0"] fs' n show ?thesis by (auto simp: numeral_2_eq_2)
qed

section \<open>Guards\<close>

text \<open>A guard gives its mutex back exactly once when its scope ends, after any sequence of lock and
  unlock calls on it with any results but \<^verbatim>\<open>EDEADLK\<close> from an unlock; so do the guards for reading, for
  writing and for debugging.\<close>

lemma guards_release:
  assumes "Unlock EDEADLK \<notin> set ops"
  shows "held (snd (autoLock_unlock 0 (autoLock.run ops (snd (autoLock_lock rc guard_init))))) = 0 \<and>
    held (snd (autoRdLock_unlock 0 (autoRdLock.run ops (snd (autoRdLock_lock rc guard_init))))) = 0 \<and>
    held (snd (autoWrLock_unlock 0 (autoWrLock.run ops (snd (autoWrLock_lock rc guard_init))))) = 0 \<and>
    held (autoLockDebug_delete nm 0 (autoLockDebug.run nm ops (snd (autoLockDebug_lock nm rc guard_init)))) = 0"
  using autoLock.scope_releases(1) [OF assms] autoRdLock.scope_releases(1) [OF assms]
    autoWrLock.scope_releases(1) [OF assms] autoLockDebug.scope_releases(1) [OF assms] by blast

lemma guards_release_example:
  "held (snd (autoLock_unlock 0 (autoLock.run [Unlock 0, Lock 0, Lock 0] (snd (autoLock_lock 0 guard_init))))) = 0"
  using guards_release [of "[Unlock 0, Lock 0, Lock 0]" 0] by simp

end
