(* ===== verification/Resource_Store.thy ===== *)
theory Resource_Store
  imports Prelude
begin

text \<open>
  The objects of the testbed database's mapping of topologies (\<^verbatim>\<open>database/src/internal.h\<close>). They are
  shared by \<^verbatim>\<open>boost::shared_ptr\<close>, so a pointer never dangles and is null or the address of an
  object. Addresses are natural numbers: those below \<open>node_count\<close> are the objects created so far, and
  \<^verbatim>\<open>new\<close> takes the next one. A reference count is not modelled: an object that nothing points to
  stays in the store, which no operation can see.

  \<^verbatim>\<open>new node_resource()\<close> and \<^verbatim>\<open>new link_resource()\<close> are value-initialised: all members of a
  fundamental type are zero. A \<^verbatim>\<open>std::map<int,int>\<close> is the list of its entries in the order of
  the keys.
\<close>

section \<open>Maps from ports to capacities\<close>

type_synonym port_map = "(int \<times> int) list"

text \<open>\<^verbatim>\<open>m[k]\<close> creates the entry when it is missing.\<close>

fun port_touch :: "int \<Rightarrow> port_map \<Rightarrow> port_map" where
  "port_touch k [] = [(k, 0)]"
| "port_touch k ((j, v) # m) =
     (if k < j then (k, 0) # (j, v) # m else if k = j then (j, v) # m else (j, v) # port_touch k m)"

definition port_value :: "int \<Rightarrow> port_map \<Rightarrow> int" where
  "port_value k m = (case map_of m k of None \<Rightarrow> 0 | Some v \<Rightarrow> v)"

fun port_put :: "int \<Rightarrow> int \<Rightarrow> port_map \<Rightarrow> port_map" where
  "port_put k w [] = [(k, w)]"
| "port_put k w ((j, v) # m) =
     (if k < j then (k, w) # (j, v) # m else if k = j then (j, w) # m else (j, v) # port_put k w m)"

text \<open>\<^verbatim>\<open>m[k] -= w\<close> with an unsigned \<open>w\<close>.\<close>

definition port_sub :: "u32 \<Rightarrow> u32 \<Rightarrow> port_map \<Rightarrow> port_map" where
  "port_sub k w m = port_put (sint k) (sint ((of_int (port_value (sint k) m) :: u32) - w)) m"

lemma port_value_absent: "\<forall>i \<in> set (map fst m). k < i \<Longrightarrow> port_value k m = 0"
  by (force simp: port_value_def dest: map_of_SomeD split: option.split)

lemma port_value_touch [simp]:
  "sorted_wrt (<) (map fst m) \<Longrightarrow> port_value j (port_touch k m) = port_value j m"
proof (induction k m rule: port_touch.induct)
  case (2 k i v m)
  have "port_value k ((i, v) # m) = 0" if "k < i"
    using 2(2) that by (intro port_value_absent) auto
  with 2 show ?case by (auto simp: port_value_def)
qed (simp add: port_value_def)

lemma port_value_put [simp]:
  "sorted_wrt (<) (map fst m) \<Longrightarrow> port_value j (port_put k v m) = (if j = k then v else port_value j m)"
  by (induction k v m rule: port_put.induct) (auto simp: port_value_def)

lemma set_port_put: "fst ` set (port_put k v m) = insert k (fst ` set m)"
  by (induction k v m rule: port_put.induct) auto

lemma sorted_port_put [simp]: "sorted_wrt (<) (map fst m) \<Longrightarrow> sorted_wrt (<) (map fst (port_put k v m))"
proof (induction k v m rule: port_put.induct)
  case (2 k w j v m)
  have "\<forall>i \<in> set (map fst (port_put k w m)). j < i" if "j < k"
    using 2(2) that set_port_put [of k w m] by auto
  then show ?case using 2 by auto
qed simp

section \<open>Objects\<close>

type_synonym nptr = nat
type_synonym lptr = nat

record node_resource =
  n_type :: string
  n_label :: u32
  n_is_parent :: bool
  n_parent :: "nptr option"
  n_children :: "nptr list"
  n_links :: "lptr list"
  n_user_nodes :: "nptr list"
  n_has_vport :: bool
  n_fixed :: bool
  n_node :: string
  n_acl :: string
  n_cp :: string
  n_marked :: bool
  n_level :: u32
  n_priority :: u32
  n_in :: u32
  n_cost :: u32
  n_mapped_node :: "nptr option"
  n_is_split :: bool
  n_hosted_type :: string
  n_dev_type :: string
  n_core_capacity :: u32
  n_mem_capacity :: u32
  n_port_capacities :: port_map
  n_potential_corecap :: u32
  n_potential_memcap :: u32
  n_vmid :: u32
  n_ext_tag :: string
  n_ext_ip :: string
  n_root_only :: bool

record link_resource =
  l_label :: u32
  l_capacity :: u32
  l_node1 :: "nptr option"
  l_node1_port :: u32
  l_node1_rport :: int
  l_node1_mac :: string
  l_node1_capacity :: u32
  l_node2 :: "nptr option"
  l_node2_port :: u32
  l_node2_capacity :: u32
  l_node2_rport :: int
  l_node2_mac :: string
  l_conns :: "int list"
  l_marked :: bool
  l_level :: u32
  l_in :: u32
  l_linkid :: u32
  l_added :: bool
  l_rload :: u32
  l_lload :: u32
  l_cost :: int
  l_potential_rcap :: u32
  l_potential_lcap :: u32
  l_user_link :: "lptr option"
  l_mapped_path :: "lptr list"
  l_mp_linkdir :: "int list"
  l_added_vgige_links :: "lptr list"

definition new_node :: node_resource where
  "new_node = \<lparr>n_type = [], n_label = 0, n_is_parent = False, n_parent = None, n_children = [], n_links = [],
     n_user_nodes = [], n_has_vport = False, n_fixed = False, n_node = [], n_acl = [], n_cp = [],
     n_marked = False, n_level = 0, n_priority = 0, n_in = 0, n_cost = 0, n_mapped_node = None,
     n_is_split = False, n_hosted_type = [], n_dev_type = [], n_core_capacity = 0, n_mem_capacity = 0,
     n_port_capacities = [], n_potential_corecap = 0, n_potential_memcap = 0, n_vmid = 0, n_ext_tag = [],
     n_ext_ip = [], n_root_only = False\<rparr>"

definition new_link :: link_resource where
  "new_link = \<lparr>l_label = 0, l_capacity = 0, l_node1 = None, l_node1_port = 0, l_node1_rport = 0,
     l_node1_mac = [], l_node1_capacity = 0, l_node2 = None, l_node2_port = 0, l_node2_capacity = 0,
     l_node2_rport = 0, l_node2_mac = [], l_conns = [], l_marked = False, l_level = 0, l_in = 0,
     l_linkid = 0, l_added = False, l_rload = 0, l_lload = 0, l_cost = 0, l_potential_rcap = 0,
     l_potential_lcap = 0, l_user_link = None, l_mapped_path = [], l_mp_linkdir = [],
     l_added_vgige_links = []\<rparr>"

section \<open>The store\<close>

record store =
  node_at :: "nptr \<Rightarrow> node_resource"
  link_at :: "lptr \<Rightarrow> link_resource"
  node_count :: nat
  link_count :: nat

definition empty_store :: store where
  "empty_store = \<lparr>node_at = (\<lambda>_. new_node), link_at = (\<lambda>_. new_link), node_count = 0, link_count = 0\<rparr>"

definition upd_node :: "nptr \<Rightarrow> (node_resource \<Rightarrow> node_resource) \<Rightarrow> store \<Rightarrow> store" where
  "upd_node n f s = s\<lparr>node_at := (node_at s)(n := f (node_at s n))\<rparr>"

definition upd_link :: "lptr \<Rightarrow> (link_resource \<Rightarrow> link_resource) \<Rightarrow> store \<Rightarrow> store" where
  "upd_link l f s = s\<lparr>link_at := (link_at s)(l := f (link_at s l))\<rparr>"

definition alloc_node :: "node_resource \<Rightarrow> store \<Rightarrow> nptr \<times> store" where
  "alloc_node x s = (node_count s, s\<lparr>node_at := (node_at s)(node_count s := x), node_count := Suc (node_count s)\<rparr>)"

definition alloc_link :: "link_resource \<Rightarrow> store \<Rightarrow> lptr \<times> store" where
  "alloc_link x s = (link_count s, s\<lparr>link_at := (link_at s)(link_count s := x), link_count := Suc (link_count s)\<rparr>)"

lemma upd_node_sel [simp]:
  "node_at (upd_node n f s) m = (if m = n then f (node_at s n) else node_at s m)"
  "link_at (upd_node n f s) = link_at s"
  "node_count (upd_node n f s) = node_count s"
  "link_count (upd_node n f s) = link_count s"
  by (simp_all add: upd_node_def)

lemma upd_link_sel [simp]:
  "link_at (upd_link l f s) m = (if m = l then f (link_at s l) else link_at s m)"
  "node_at (upd_link l f s) = node_at s"
  "node_count (upd_link l f s) = node_count s"
  "link_count (upd_link l f s) = link_count s"
  by (simp_all add: upd_link_def)

lemma alloc_node_sel [simp]:
  "fst (alloc_node x s) = node_count s"
  "node_at (snd (alloc_node x s)) m = (if m = node_count s then x else node_at s m)"
  "link_at (snd (alloc_node x s)) = link_at s"
  "node_count (snd (alloc_node x s)) = Suc (node_count s)"
  "link_count (snd (alloc_node x s)) = link_count s"
  by (simp_all add: alloc_node_def)

lemma alloc_link_sel [simp]:
  "fst (alloc_link x s) = link_count s"
  "link_at (snd (alloc_link x s)) m = (if m = link_count s then x else link_at s m)"
  "node_at (snd (alloc_link x s)) = node_at s"
  "node_count (snd (alloc_link x s)) = node_count s"
  "link_count (snd (alloc_link x s)) = Suc (link_count s)"
  by (simp_all add: alloc_link_def)

end
