(* ===== verification/Topology.thy ===== *)
theory Topology
  imports Resource_Store
begin

text \<open>
  \<^verbatim>\<open>database/src/topology.cc\<close>: the nodes and links of an experiment, or of the testbed itself, with
  the operations that build them from labels. A topology is a list of nodes and a list of links; the
  objects are in the store. The invariant \<open>topo_wf\<close> says that labels are unique, that links and parents
  lead to nodes of the topology and that every node lists its links; the operations keep it as long as
  they succeed.
\<close>

type_synonym resp = "int \<times> string"

record topology =
  t_nodes :: "nptr list"
  t_links :: "lptr list"
  t_intercluster_cost :: int
  t_host_cost :: int

definition topology_new :: topology where
  "topology_new = \<lparr>t_nodes = [], t_links = [], t_intercluster_cost = 0, t_host_cost = 0\<rparr>"

text \<open>The destructor breaks the cycles among the objects.\<close>

definition topology_delete :: "topology \<Rightarrow> store \<Rightarrow> store" where
  "topology_delete t s =
     fold (\<lambda>l. upd_link l (\<lambda>x. x\<lparr>l_node1 := None, l_node2 := None\<rparr>)) (t_links t)
       (fold (\<lambda>n. upd_node n (\<lambda>x. x\<lparr>n_links := [], n_children := [], n_parent := None\<rparr>)) (t_nodes t) s)"

definition tolower :: "char \<Rightarrow> char" where
  "tolower c = (if 65 \<le> (of_char c :: nat) \<and> (of_char c :: nat) \<le> 90 then char_of (of_char c + 32 :: nat) else c)"

definition lowercase :: "string \<Rightarrow> string" where
  "lowercase s = map tolower s"

text \<open>Signed results: an overflow is undefined.\<close>

definition i32 :: "int \<Rightarrow> int option" where
  "i32 i = (if - (2 ^ 31) \<le> i \<and> i < 2 ^ 31 then Some i else None)"

section \<open>Adding and removing\<close>

definition success :: resp where
  "success = (1, ''success'')"

definition label_used :: "u32 \<Rightarrow> resp" where
  "label_used l = (-1, ''label '' @ int2str l @ '' already used'')"

definition label_not_found :: "string \<Rightarrow> u32 \<Rightarrow> resp" where
  "label_not_found what l = (-1, what @ int2str l @ '' not found'')"

text \<open>
  The loop that \<^verbatim>\<open>add_node\<close> and \<^verbatim>\<open>add_copy_node\<close> share looks for the label and, on the way,
  enters the new node \<open>h\<close> in its parent. \<open>None\<close>: the label is used; \<open>Some b\<close>: it is not, and \<open>b\<close> says
  whether the parent was found.
\<close>

fun scan_nodes :: "nptr \<Rightarrow> u32 \<Rightarrow> bool \<Rightarrow> nptr list \<Rightarrow> store \<Rightarrow> bool option \<times> store" where
  "scan_nodes h pl found [] s = (Some found, s)"
| "scan_nodes h pl found (n # ns) s =
    (if n_label (node_at s n) = n_label (node_at s h) then (None, s)
     else if \<not> found \<and> n_label (node_at s n) = pl then
       scan_nodes h pl True ns
         (upd_node n (\<lambda>x. x\<lparr>n_is_parent := True, n_children := n_children x @ [h]\<rparr>)
           (upd_node h (\<lambda>x. x\<lparr>n_parent := Some n\<rparr>) s))
     else scan_nodes h pl found ns s)"

definition place_node :: "nptr \<Rightarrow> u32 \<Rightarrow> topology \<Rightarrow> store \<Rightarrow> resp \<times> topology \<times> store" where
  "place_node h pl t s =
    (case scan_nodes h pl (pl = 0) (t_nodes t) s of
      (None, s) \<Rightarrow> (label_used (n_label (node_at s h)), t, s)
    | (Some False, s) \<Rightarrow> (label_not_found ''parent_label '' pl, t, s)
    | (Some True, s) \<Rightarrow> (success, t\<lparr>t_nodes := t_nodes t @ [h]\<rparr>, s))"

definition fill_ports :: "int \<Rightarrow> int \<Rightarrow> port_map" where
  "fill_ports num bw = fold (\<lambda>i. port_put (int i) bw) [0..<nat num] []"

definition add_node ::
  "string \<Rightarrow> u32 \<Rightarrow> u32 \<Rightarrow> bool \<Rightarrow> int \<Rightarrow> int \<Rightarrow> int \<Rightarrow> int \<Rightarrow> string \<Rightarrow> topology \<Rightarrow> store \<Rightarrow> resp \<times> topology \<times> store" where
  "add_node type label parent_label vport cores mem num_interface interfacebw tag t s =
    (let (h, s) = alloc_node (new_node
       \<lparr>n_type := lowercase type, n_label := label, n_has_vport := vport, n_acl := ''unused'', n_cp := ''unused'',
        n_core_capacity := of_int cores, n_mem_capacity := of_int mem, n_potential_corecap := of_int cores,
        n_potential_memcap := of_int mem, n_ext_tag := tag, n_port_capacities := fill_ports num_interface interfacebw\<rparr>) s
     in place_node h parent_label t s)"

text \<open>The loop that copies the capacities reads and writes with \<^verbatim>\<open>operator[]\<close>, so it may add entries
  to the original.\<close>

fun copy_ports :: "nat list \<Rightarrow> port_map \<Rightarrow> port_map \<Rightarrow> port_map \<times> port_map" where
  "copy_ports [] from to = (from, to)"
| "copy_ports (i # is) from to =
    (let from = port_touch (int i) from in copy_ports is from (port_put (int i) (port_value (int i) from) to))"

definition add_copy_node :: "nptr \<Rightarrow> topology \<Rightarrow> store \<Rightarrow> resp \<times> topology \<times> store" where
  "add_copy_node cp t s =
    (let x = node_at s cp;
         (from, ports) = copy_ports [0..<length (n_port_capacities x)] (n_port_capacities x) [];
         s = upd_node cp (\<lambda>x. x\<lparr>n_port_capacities := from\<rparr>) s;
         (h, s) = alloc_node (new_node
           \<lparr>n_type := n_type x, n_label := n_label x, n_is_parent := n_is_parent x, n_fixed := n_fixed x,
            n_has_vport := n_has_vport x, n_node := n_node x, n_acl := n_acl x, n_cp := n_cp x,
            n_dev_type := n_dev_type x, n_marked := n_marked x, n_level := n_level x, n_priority := n_priority x,
            n_in := n_in x, n_cost := n_cost x, n_user_nodes := [cp], n_is_split := n_is_split x,
            n_hosted_type := n_hosted_type x, n_core_capacity := n_core_capacity x,
            n_mem_capacity := n_mem_capacity x, n_potential_corecap := n_potential_corecap x,
            n_potential_memcap := n_potential_memcap x, n_vmid := n_vmid x, n_port_capacities := ports\<rparr>) s
     in place_node h (case n_parent x of None \<Rightarrow> 0 | Some p \<Rightarrow> n_label (node_at s p)) t s)"

definition node_with :: "store \<Rightarrow> u32 \<Rightarrow> nptr list \<Rightarrow> nptr option" where
  "node_with s label ns = find (\<lambda>n. n_label (node_at s n) = label) ns"

definition link_with :: "store \<Rightarrow> u32 \<Rightarrow> lptr list \<Rightarrow> lptr option" where
  "link_with s label ls = find (\<lambda>l. l_label (link_at s l) = label) ls"

text \<open>The common end of \<^verbatim>\<open>add_link\<close> and \<^verbatim>\<open>add_copy_link\<close>: \<open>x\<close> is the new link.\<close>

definition place_link :: "link_resource \<Rightarrow> u32 \<Rightarrow> u32 \<Rightarrow> topology \<Rightarrow> store \<Rightarrow> resp \<times> topology \<times> store" where
  "place_link x label1 label2 t s =
    (if link_with s (l_label x) (t_links t) \<noteq> None then (label_used (l_label x), t, s)
     else case node_with s label1 (t_nodes t) of
       None \<Rightarrow> (label_not_found ''node1_label '' label1, t, s)
     | Some n1 \<Rightarrow> (case node_with s label2 (t_nodes t) of
         None \<Rightarrow> (label_not_found ''node2_label '' label2, t, s)
       | Some n2 \<Rightarrow>
           let (l, s) = alloc_link (x\<lparr>l_node1 := Some n1, l_node2 := Some n2\<rparr>) s;
               s = upd_node n1 (\<lambda>y. y\<lparr>n_links := n_links y @ [l]\<rparr>) s;
               s = upd_node n2 (\<lambda>y. y\<lparr>n_links := n_links y @ [l]\<rparr>) s
           in (success, t\<lparr>t_links := t_links t @ [l]\<rparr>, s)))"

definition add_link ::
  "u32 \<Rightarrow> u32 \<Rightarrow> u32 \<Rightarrow> u32 \<Rightarrow> u32 \<Rightarrow> u32 \<Rightarrow> u32 \<Rightarrow> u32 \<Rightarrow> u32 \<Rightarrow> u32 \<Rightarrow> u32 \<Rightarrow> u32 \<Rightarrow>
   topology \<Rightarrow> store \<Rightarrow> resp \<times> topology \<times> store" where
  "add_link label capacity node1_label node1_port node1_rport node2_label node2_port node2_rport
      rload lload node1_cap node2_cap t s =
    place_link (new_link
      \<lparr>l_label := label, l_capacity := capacity, l_node1_port := node1_port, l_node2_port := node2_port,
       l_node1_rport := sint node1_rport, l_node2_rport := sint node2_rport,
       l_node1_capacity := (if 0 < node1_cap then node1_cap else capacity),
       l_node2_capacity := (if 0 < node2_cap then node2_cap else capacity),
       l_potential_rcap := capacity - rload, l_potential_lcap := capacity - lload,
       l_rload := rload, l_lload := lload\<rparr>) node1_label node2_label t s"

definition add_simple_link ::
  "u32 \<Rightarrow> u32 \<Rightarrow> u32 \<Rightarrow> u32 \<Rightarrow> u32 \<Rightarrow> u32 \<Rightarrow> u32 \<Rightarrow> u32 \<Rightarrow> topology \<Rightarrow> store \<Rightarrow> resp \<times> topology \<times> store" where
  "add_simple_link label capacity node1_label node1_port node2_label node2_port rload lload t s =
    add_link label capacity node1_label node1_port node1_port node2_label node2_port node2_port rload lload 0 0 t s"

definition add_cap_link ::
  "u32 \<Rightarrow> u32 \<Rightarrow> u32 \<Rightarrow> u32 \<Rightarrow> u32 \<Rightarrow> u32 \<Rightarrow> u32 \<Rightarrow> u32 \<Rightarrow> u32 \<Rightarrow> u32 \<Rightarrow> topology \<Rightarrow> store \<Rightarrow> resp \<times> topology \<times> store" where
  "add_cap_link label capacity node1_label node1_port node1_cap node2_label node2_port node2_cap rload lload t s =
    add_link label capacity node1_label node1_port node1_port node2_label node2_port node2_port rload lload
      node1_cap node2_cap t s"

text \<open>\<^verbatim>\<open>add_copy_link\<close> follows the ends of the link it copies in the loop over the nodes, and the first
  one in the message when there is no node; a null end is undefined.\<close>

definition add_copy_link :: "lptr \<Rightarrow> topology \<Rightarrow> store \<Rightarrow> (resp \<times> topology \<times> store) option" where
  "add_copy_link lnk t s =
    (let y = link_at s lnk;
         x = new_link
           \<lparr>l_label := l_label y, l_capacity := l_capacity y, l_node1_port := l_node1_port y,
            l_node2_port := l_node2_port y, l_node1_rport := l_node1_rport y, l_node2_rport := l_node2_rport y,
            l_node1_capacity := l_node1_capacity y, l_node2_capacity := l_node2_capacity y,
            l_marked := l_marked y, l_level := l_level y, l_in := l_in y, l_linkid := l_linkid y,
            l_added := l_added y, l_rload := l_rload y, l_lload := l_lload y, l_cost := l_cost y,
            l_potential_rcap := l_potential_rcap y, l_potential_lcap := l_potential_lcap y,
            l_user_link := Some lnk\<rparr>
     in if link_with s (l_label x) (t_links t) \<noteq> None then Some (label_used (l_label x), t, s)
     else do {
       n1 \<leftarrow> l_node1 y;
       if t_nodes t = [] then Some (label_not_found ''node1_label '' (n_label (node_at s n1)), t, s)
       else do {
         n2 \<leftarrow> l_node2 y;
         Some (place_link x (n_label (node_at s n1)) (n_label (node_at s n2)) t s) } })"

definition remove_node :: "u32 \<Rightarrow> topology \<Rightarrow> store \<Rightarrow> resp \<times> topology" where
  "remove_node label t s = (case node_with s label (t_nodes t) of
     Some n \<Rightarrow> (success, t\<lparr>t_nodes := remove1 n (t_nodes t)\<rparr>)
   | None \<Rightarrow> (label_not_found ''label '' label, t))"

definition remove_link :: "u32 \<Rightarrow> topology \<Rightarrow> store \<Rightarrow> resp \<times> topology" where
  "remove_link label t s = (case link_with s label (t_links t) of
     Some l \<Rightarrow> (success, t\<lparr>t_links := remove1 l (t_links t)\<rparr>)
   | None \<Rightarrow> (label_not_found ''label '' label, t))"

section \<open>Reading\<close>

definition get_node :: "string \<Rightarrow> topology \<Rightarrow> store \<Rightarrow> nptr option" where
  "get_node node t s = find (\<lambda>n. n_node (node_at s n) = node) (t_nodes t)"

definition node_value :: "(node_resource \<Rightarrow> 'a) \<Rightarrow> 'a \<Rightarrow> u32 \<Rightarrow> topology \<Rightarrow> store \<Rightarrow> 'a" where
  "node_value f d label t s = (case node_with s label (t_nodes t) of Some n \<Rightarrow> f (node_at s n) | None \<Rightarrow> d)"

definition link_value :: "(link_resource \<Rightarrow> 'a) \<Rightarrow> 'a \<Rightarrow> u32 \<Rightarrow> topology \<Rightarrow> store \<Rightarrow> 'a" where
  "link_value f d label t s = (case link_with s label (t_links t) of Some l \<Rightarrow> f (link_at s l) | None \<Rightarrow> d)"

definition topo_get_component :: "u32 \<Rightarrow> topology \<Rightarrow> store \<Rightarrow> string" where
  "topo_get_component = node_value n_node []"

definition topo_get_type :: "u32 \<Rightarrow> topology \<Rightarrow> store \<Rightarrow> string" where
  "topo_get_type = node_value n_type []"

definition has_virtual_port :: "u32 \<Rightarrow> topology \<Rightarrow> store \<Rightarrow> bool" where
  "has_virtual_port = node_value n_has_vport False"

definition get_vmid :: "u32 \<Rightarrow> topology \<Rightarrow> store \<Rightarrow> u32" where
  "get_vmid = node_value n_vmid 0"

definition get_extip :: "u32 \<Rightarrow> topology \<Rightarrow> store \<Rightarrow> string" where
  "get_extip = node_value n_ext_ip []"

definition get_label :: "string \<Rightarrow> u32 \<Rightarrow> topology \<Rightarrow> store \<Rightarrow> u32" where
  "get_label node vm t s =
    (case find (\<lambda>n. n_node (node_at s n) = node \<and>
        (n_vmid (node_at s n) = vm \<or> vm = 0 \<or> n_type (node_at s n) = ''vgige'')) (t_nodes t) of
      Some n \<Rightarrow> n_label (node_at s n) | None \<Rightarrow> 0)"

text \<open>The argument \<open>conns\<close> is the list passed by reference.\<close>

definition get_conns :: "u32 \<Rightarrow> int list \<Rightarrow> topology \<Rightarrow> store \<Rightarrow> int list" where
  "get_conns label conns = link_value l_conns conns label"

definition get_realport :: "u32 \<Rightarrow> int \<Rightarrow> topology \<Rightarrow> store \<Rightarrow> int" where
  "get_realport label ndx = link_value (\<lambda>x. if ndx = 1 then l_node1_rport x else l_node2_rport x) (-1) label"

definition topo_get_capacity :: "u32 \<Rightarrow> int \<Rightarrow> topology \<Rightarrow> store \<Rightarrow> int" where
  "topo_get_capacity label ndx =
     link_value (\<lambda>x. sint (if ndx = 1 then l_node1_capacity x else l_node2_capacity x)) (-1) label"

definition get_macaddr :: "u32 \<Rightarrow> int \<Rightarrow> topology \<Rightarrow> store \<Rightarrow> string" where
  "get_macaddr label ndx = link_value (\<lambda>x. if ndx = 1 then l_node1_mac x else l_node2_mac x) [] label"

text \<open>\<^verbatim>\<open>rtn += capacity\<close> adds as unsigned integers and converts.\<close>

definition compute_host_cost :: "topology \<Rightarrow> store \<Rightarrow> int option" where
  "compute_host_cost t s = i32 (2 * sint (fold (\<lambda>n (r :: u32).
     let x = node_at s n in
     if n_marked x \<and> take 2 (n_type x) = ''pc''
     then (case n_links x of [] \<Rightarrow> r | l # _ \<Rightarrow> r + l_capacity (link_at s l)) else r) (t_nodes t) 0))"

fun path_cost :: "store \<Rightarrow> int \<Rightarrow> lptr list \<Rightarrow> int \<Rightarrow> int option" where
  "path_cost s c [] r = Some r"
| "path_cost s c (p # ps) r = do {
     n1 \<leftarrow> l_node1 (link_at s p);
     inter \<leftarrow> (if n_dev_type (node_at s n1) = ''infrastructure''
       then do { n2 \<leftarrow> l_node2 (link_at s p); Some (n_dev_type (node_at s n2) = ''infrastructure'') }
       else Some False);
     r \<leftarrow> (if inter then i32 (r + c) else Some r);
     path_cost s c ps r }"

fun intercluster_cost :: "store \<Rightarrow> lptr list \<Rightarrow> int \<Rightarrow> int option" where
  "intercluster_cost s [] r = Some r"
| "intercluster_cost s (l # ls) r = do {
     r \<leftarrow> path_cost s (l_cost (link_at s l)) (l_mapped_path (link_at s l)) r;
     intercluster_cost s ls r }"

definition compute_intercluster_cost :: "topology \<Rightarrow> store \<Rightarrow> int option" where
  "compute_intercluster_cost t s = intercluster_cost s (t_links t) 0"

section \<open>The invariant\<close>

definition topo_wf :: "topology \<Rightarrow> store \<Rightarrow> bool" where
  "topo_wf t s \<longleftrightarrow>
     (\<forall>n \<in> set (t_nodes t). n < node_count s) \<and> (\<forall>l \<in> set (t_links t). l < link_count s) \<and>
     distinct (map (\<lambda>n. n_label (node_at s n)) (t_nodes t)) \<and>
     distinct (map (\<lambda>l. l_label (link_at s l)) (t_links t)) \<and>
     (\<forall>l \<in> set (t_links t). \<exists>a \<in> set (t_nodes t). \<exists>b \<in> set (t_nodes t).
        l_node1 (link_at s l) = Some a \<and> l_node2 (link_at s l) = Some b \<and>
        l \<in> set (n_links (node_at s a)) \<and> l \<in> set (n_links (node_at s b))) \<and>
     (\<forall>n \<in> set (t_nodes t). \<forall>l \<in> set (n_links (node_at s n)).
        l \<in> set (t_links t) \<and> (l_node1 (link_at s l) = Some n \<or> l_node2 (link_at s l) = Some n)) \<and>
     (\<forall>n \<in> set (t_nodes t). \<forall>p. n_parent (node_at s n) = Some p \<longrightarrow>
        p \<in> set (t_nodes t) \<and> n \<in> set (n_children (node_at s p))) \<and>
     (\<forall>n \<in> set (t_nodes t). \<forall>c \<in> set (n_children (node_at s n)).
        c \<in> set (t_nodes t) \<and> n_parent (node_at s c) = Some n)"

lemma topo_wfD:
  assumes "topo_wf t s"
  shows wf_node_count: "n \<in> set (t_nodes t) \<Longrightarrow> n < node_count s"
    and wf_link_count: "l \<in> set (t_links t) \<Longrightarrow> l < link_count s"
    and wf_node_labels: "distinct (map (\<lambda>n. n_label (node_at s n)) (t_nodes t))"
    and wf_link_labels: "distinct (map (\<lambda>l. l_label (link_at s l)) (t_links t))"
    and wf_ends: "l \<in> set (t_links t) \<Longrightarrow> \<exists>a \<in> set (t_nodes t). \<exists>b \<in> set (t_nodes t).
        l_node1 (link_at s l) = Some a \<and> l_node2 (link_at s l) = Some b \<and>
        l \<in> set (n_links (node_at s a)) \<and> l \<in> set (n_links (node_at s b))"
    and wf_listed: "n \<in> set (t_nodes t) \<Longrightarrow> l \<in> set (n_links (node_at s n)) \<Longrightarrow>
        l \<in> set (t_links t) \<and> (l_node1 (link_at s l) = Some n \<or> l_node2 (link_at s l) = Some n)"
    and wf_parent: "n \<in> set (t_nodes t) \<Longrightarrow> n_parent (node_at s n) = Some p \<Longrightarrow>
        p \<in> set (t_nodes t) \<and> n \<in> set (n_children (node_at s p))"
    and wf_child: "n \<in> set (t_nodes t) \<Longrightarrow> c \<in> set (n_children (node_at s n)) \<Longrightarrow>
        c \<in> set (t_nodes t) \<and> n_parent (node_at s c) = Some n"
  using assms unfolding topo_wf_def by blast+

lemma topo_wf_new: "topo_wf topology_new s"
  by (simp add: topo_wf_def topology_new_def)

lemma node_with_None: "node_with s label ns = None \<longleftrightarrow> label \<notin> (\<lambda>n. n_label (node_at s n)) ` set ns"
  by (auto simp: node_with_def find_None_iff)

lemma node_with_SomeD:
  "node_with s label ns = Some n \<Longrightarrow> n \<in> set ns \<and> n_label (node_at s n) = label"
  by (auto simp: node_with_def find_Some_iff)

lemma node_with_Cons:
  "node_with s label (n # ns) = (if n_label (node_at s n) = label then Some n else node_with s label ns)"
  by (simp add: node_with_def)

lemma link_with_None: "link_with s label ls = None \<longleftrightarrow> label \<notin> (\<lambda>l. l_label (link_at s l)) ` set ls"
  by (auto simp: link_with_def find_None_iff)

lemma link_with_SomeD:
  "link_with s label ls = Some l \<Longrightarrow> l \<in> set ls \<and> l_label (link_at s l) = label"
  by (auto simp: link_with_def find_Some_iff)

lemma find_snoc: "find P (xs @ [x]) = (case find P xs of None \<Rightarrow> if P x then Some x else None | r \<Rightarrow> r)"
  by (induction xs) auto

lemma find_cong_set: "(\<And>x. x \<in> set xs \<Longrightarrow> P x = Q x) \<Longrightarrow> find P xs = find Q xs"
  by (induction xs) auto

text \<open>What the scan does to the store when it enters \<open>h\<close> in the parent \<open>p\<close>.\<close>

definition enter_child :: "nptr \<Rightarrow> nptr \<Rightarrow> store \<Rightarrow> store" where
  "enter_child p h s = upd_node p (\<lambda>x. x\<lparr>n_is_parent := True, n_children := n_children x @ [h]\<rparr>)
     (upd_node h (\<lambda>x. x\<lparr>n_parent := Some p\<rparr>) s)"

lemma enter_child_sel:
  "link_at (enter_child p h s) = link_at s"
  "n_label (node_at (enter_child p h s) m) = n_label (node_at s m)"
  "n_links (node_at (enter_child p h s) m) = n_links (node_at s m)"
  "n_type (node_at (enter_child p h s) m) = n_type (node_at s m)"
  "n_parent (node_at (enter_child p h s) m) = (if m = h then Some p else n_parent (node_at s m))"
  "n_children (node_at (enter_child p h s) m) =
     (if m = p then n_children (node_at s p) @ [h] else n_children (node_at s m))"
  "node_count (enter_child p h s) = node_count s"
  "link_count (enter_child p h s) = link_count s"
  by (auto simp: enter_child_def)

lemma scan_found:
  "n_label (node_at s h) \<notin> (\<lambda>n. n_label (node_at s n)) ` set ns \<Longrightarrow> scan_nodes h pl True ns s = (Some True, s)"
  by (induction ns arbitrary: s) auto

lemma scan_used:
  "n_label (node_at s h) \<in> (\<lambda>n. n_label (node_at s n)) ` set ns \<Longrightarrow> fst (scan_nodes h pl found ns s) = None"
proof (induction ns arbitrary: s found)
  case (Cons n ns)
  have "n_label (node_at (enter_child n h s) m) = n_label (node_at s m)" for m by (simp add: enter_child_sel)
  with Cons.prems Cons.IH [of "enter_child n h s" True] Cons.IH [of s found]
  show ?case by (auto simp flip: enter_child_def)
qed simp

lemma scan_fresh:
  assumes "n_label (node_at s h) \<notin> (\<lambda>n. n_label (node_at s n)) ` set ns"
  shows "scan_nodes h pl False ns s = (case node_with s pl ns of
    None \<Rightarrow> (Some False, s) | Some p \<Rightarrow> (Some True, enter_child p h s))"
  using assms
proof (induction ns)
  case (Cons n ns)
  have "scan_nodes h pl True ns (enter_child n h s) = (Some True, enter_child n h s)"
    using Cons.prems by (intro scan_found) (auto simp: enter_child_sel)
  with Cons show ?case by (auto simp: node_with_Cons simp flip: enter_child_def)
qed (simp add: node_with_def)

lemma topo_wf_cong:
  assumes "topo_wf t s" and "\<And>n. n \<in> set (t_nodes t) \<Longrightarrow> node_at s' n = node_at s n"
    and "\<And>l. l \<in> set (t_links t) \<Longrightarrow> link_at s' l = link_at s l"
    and "node_count s \<le> node_count s'" and "link_count s \<le> link_count s'"
  shows "topo_wf t s'"
  unfolding topo_wf_def
proof (intro conjI ballI allI impI)
  show "distinct (map (\<lambda>n. n_label (node_at s' n)) (t_nodes t))"
    using wf_node_labels [OF assms(1)] assms(2) by (simp cong: map_cong)
  show "distinct (map (\<lambda>l. l_label (link_at s' l)) (t_links t))"
    using wf_link_labels [OF assms(1)] assms(3) by (simp cong: map_cong)
next
  fix n assume n: "n \<in> set (t_nodes t)"
  show "n < node_count s'" using wf_node_count [OF assms(1) n] assms(4) by simp
  { fix l assume "l \<in> set (n_links (node_at s' n))"
    then have "l \<in> set (n_links (node_at s n))" using assms(2) [OF n] by simp
    from wf_listed [OF assms(1) n this] assms(3)
    show "l \<in> set (t_links t)" "l_node1 (link_at s' l) = Some n \<or> l_node2 (link_at s' l) = Some n" by auto }
  { fix p assume "n_parent (node_at s' n) = Some p"
    then have "n_parent (node_at s n) = Some p" using assms(2) [OF n] by simp
    from wf_parent [OF assms(1) n this] assms(2)
    show "p \<in> set (t_nodes t)" "n \<in> set (n_children (node_at s' p))" by auto }
  { fix c assume "c \<in> set (n_children (node_at s' n))"
    then have "c \<in> set (n_children (node_at s n))" using assms(2) [OF n] by simp
    from wf_child [OF assms(1) n this] assms(2)
    show "c \<in> set (t_nodes t)" "n_parent (node_at s' c) = Some n" by auto }
next
  fix l assume l: "l \<in> set (t_links t)"
  show "l < link_count s'" using wf_link_count [OF assms(1) l] assms(5) by simp
  from wf_ends [OF assms(1) l] show "\<exists>a\<in>set (t_nodes t). \<exists>b\<in>set (t_nodes t).
      l_node1 (link_at s' l) = Some a \<and> l_node2 (link_at s' l) = Some b \<and>
      l \<in> set (n_links (node_at s' a)) \<and> l \<in> set (n_links (node_at s' b))"
    using assms(2,3) l by force
qed

lemma topo_wf_alloc:
  assumes "topo_wf t s"
  shows "topo_wf t (snd (alloc_node x s))"
proof (rule topo_wf_cong [OF assms])
  show "node_at (snd (alloc_node x s)) n = node_at s n" if "n \<in> set (t_nodes t)" for n
    using wf_node_count [OF assms that] by simp
qed simp_all

text \<open>A new node without links and children, entered in the topology.\<close>

lemma topo_wf_root:
  assumes wf: "topo_wf t s" and h: "node_count s = Suc h" "h \<notin> set (t_nodes t)"
    and x: "n_links (node_at s h) = []" "n_children (node_at s h) = []" "n_parent (node_at s h) = None"
    and fresh: "n_label (node_at s h) \<notin> (\<lambda>n. n_label (node_at s n)) ` set (t_nodes t)"
  shows "topo_wf (t\<lparr>t_nodes := t_nodes t @ [h]\<rparr>) s"
  unfolding topo_wf_def
proof (intro conjI ballI allI impI)
  show "distinct (map (\<lambda>n. n_label (node_at s n)) (t_nodes (t\<lparr>t_nodes := t_nodes t @ [h]\<rparr>)))"
    using wf_node_labels [OF wf] fresh by auto
  show "distinct (map (\<lambda>l. l_label (link_at s l)) (t_links (t\<lparr>t_nodes := t_nodes t @ [h]\<rparr>)))"
    using wf_link_labels [OF wf] by simp
next
  fix n assume n: "n \<in> set (t_nodes (t\<lparr>t_nodes := t_nodes t @ [h]\<rparr>))"
  then have old: "n \<noteq> h \<Longrightarrow> n \<in> set (t_nodes t)" by auto
  show "n < node_count s" using old h(1) wf_node_count [OF wf, of n] by (cases "n = h") simp_all
  { fix l assume l: "l \<in> set (n_links (node_at s n))"
    then have "n \<noteq> h" using x(1) by auto
    from wf_listed [OF wf old [OF this] l]
    show "l \<in> set (t_links (t\<lparr>t_nodes := t_nodes t @ [h]\<rparr>))"
      "l_node1 (link_at s l) = Some n \<or> l_node2 (link_at s l) = Some n" by auto }
  { fix p assume p: "n_parent (node_at s n) = Some p"
    then have "n \<noteq> h" using x(3) by auto
    from wf_parent [OF wf old [OF this] p]
    show "p \<in> set (t_nodes (t\<lparr>t_nodes := t_nodes t @ [h]\<rparr>))" "n \<in> set (n_children (node_at s p))" by auto }
  { fix c assume c: "c \<in> set (n_children (node_at s n))"
    then have "n \<noteq> h" using x(2) by auto
    from wf_child [OF wf old [OF this] c]
    show "c \<in> set (t_nodes (t\<lparr>t_nodes := t_nodes t @ [h]\<rparr>))" "n_parent (node_at s c) = Some n" by auto }
next
  fix l assume l: "l \<in> set (t_links (t\<lparr>t_nodes := t_nodes t @ [h]\<rparr>))"
  then show "l < link_count s" using wf_link_count [OF wf] by simp
  show "\<exists>a\<in>set (t_nodes (t\<lparr>t_nodes := t_nodes t @ [h]\<rparr>)). \<exists>b\<in>set (t_nodes (t\<lparr>t_nodes := t_nodes t @ [h]\<rparr>)).
      l_node1 (link_at s l) = Some a \<and> l_node2 (link_at s l) = Some b \<and>
      l \<in> set (n_links (node_at s a)) \<and> l \<in> set (n_links (node_at s b))"
    using wf_ends [OF wf, of l] l by auto
qed

lemma topo_wf_enter_child:
  assumes wf: "topo_wf t s" and h: "h \<in> set (t_nodes t)" and p: "p \<in> set (t_nodes t)"
    and none: "n_parent (node_at s h) = None"
  shows "topo_wf t (enter_child p h s)"
  unfolding topo_wf_def
proof (intro conjI ballI allI impI)
  fix n c assume n: "n \<in> set (t_nodes t)" and c: "c \<in> set (n_children (node_at (enter_child p h s) n))"
  have "c \<noteq> h" if "c \<in> set (n_children (node_at s n))"
    using wf_child [OF wf n that] none by auto
  with c wf_child [OF wf n] h p show "c \<in> set (t_nodes t)" "n_parent (node_at (enter_child p h s) c) = Some n"
    by (auto simp: enter_child_sel split: if_splits)
next
  fix n q assume n: "n \<in> set (t_nodes t)" and q: "n_parent (node_at (enter_child p h s) n) = Some q"
  then show "q \<in> set (t_nodes t)" "n \<in> set (n_children (node_at (enter_child p h s) q))"
    using wf_parent [OF wf n] p by (auto simp: enter_child_sel split: if_splits)
next
  fix l assume l: "l \<in> set (t_links t)"
  from wf_ends [OF wf l] show "\<exists>a\<in>set (t_nodes t). \<exists>b\<in>set (t_nodes t).
      l_node1 (link_at (enter_child p h s) l) = Some a \<and> l_node2 (link_at (enter_child p h s) l) = Some b \<and>
      l \<in> set (n_links (node_at (enter_child p h s) a)) \<and> l \<in> set (n_links (node_at (enter_child p h s) b))"
    by (simp add: enter_child_sel)
qed (use wf_node_count [OF wf] wf_link_count [OF wf] wf_link_labels [OF wf] wf_node_labels [OF wf]
    wf_listed [OF wf] in \<open>auto simp: enter_child_sel\<close>)

lemma place_node_cases:
  assumes "topo_wf t s" and "alloc_node x s = (h, s1)"
    and "n_links x = []" and "n_children x = []" and "n_parent x = None"
  shows "place_node h pl t s1 =
    (if n_label x \<in> (\<lambda>n. n_label (node_at s n)) ` set (t_nodes t)
     then (label_used (n_label x), t, snd (scan_nodes h pl (pl = 0) (t_nodes t) s1))
     else if pl = 0 then (success, t\<lparr>t_nodes := t_nodes t @ [h]\<rparr>, s1)
     else case node_with s pl (t_nodes t) of
       None \<Rightarrow> (label_not_found ''parent_label '' pl, t, s1)
     | Some p \<Rightarrow> (success, t\<lparr>t_nodes := t_nodes t @ [h]\<rparr>, enter_child p h s1))"
proof -
  have h: "h = node_count s" "s1 = snd (alloc_node x s)" using assms(2) by (auto simp: alloc_node_def)
  have same: "node_at s1 n = node_at s n" if "n \<in> set (t_nodes t)" for n
    using wf_node_count [OF assms(1) that] by (simp add: h)
  have labels: "(\<lambda>n. n_label (node_at s1 n)) ` set (t_nodes t) = (\<lambda>n. n_label (node_at s n)) ` set (t_nodes t)"
    by (rule image_cong) (simp_all add: same)
  have with_eq: "node_with s1 pl (t_nodes t) = node_with s pl (t_nodes t)"
    unfolding node_with_def by (rule find_cong_set) (simp add: same)
  have x: "n_label (node_at s1 h) = n_label x" by (simp add: h)
  have lab: "n_label (node_at (snd (scan_nodes h pl f ns s2)) m) = n_label (node_at s2 m)" for f ns s2 m
    by (induction ns arbitrary: f s2) (auto simp: enter_child_sel(2) simp flip: enter_child_def)
  show ?thesis
  proof (cases "n_label x \<in> (\<lambda>n. n_label (node_at s n)) ` set (t_nodes t)")
    case True
    then have "fst (scan_nodes h pl (pl = 0) (t_nodes t) s1) = None" by (intro scan_used) (simp add: labels x)
    then obtain s2 where s2: "scan_nodes h pl (pl = 0) (t_nodes t) s1 = (None, s2)" by (metis prod.collapse)
    then have "n_label (node_at s2 h) = n_label x" using lab [of "pl = 0" "t_nodes t" s1 h] x by simp
    then show ?thesis using True s2 by (simp add: place_node_def)
  next
    case False
    then have fresh: "n_label (node_at s1 h) \<notin> (\<lambda>n. n_label (node_at s1 n)) ` set (t_nodes t)" by (simp add: labels x)
    show ?thesis
      using False scan_found [OF fresh, of pl] scan_fresh [OF fresh, of pl]
      by (auto simp: place_node_def with_eq split: option.splits)
  qed
qed

section \<open>The topology as a map from labels\<close>

text \<open>
  The abstraction of a topology: the type and the parent's label of each node label, and the ends, ports
  and capacity of each link label. \<open>spec_add_node\<close> and \<open>spec_add_link\<close> are what the callers rely on.
\<close>

type_synonym node_map = "u32 \<rightharpoonup> string \<times> u32 option"
type_synonym link_map = "u32 \<rightharpoonup> u32 option \<times> u32 \<times> u32 option \<times> u32 \<times> u32"

definition label_of :: "store \<Rightarrow> nptr option \<Rightarrow> u32 option" where
  "label_of s p = map_option (\<lambda>n. n_label (node_at s n)) p"

definition node_map :: "topology \<Rightarrow> store \<Rightarrow> node_map" where
  "node_map t s = (\<lambda>label. map_option (\<lambda>n. (n_type (node_at s n), label_of s (n_parent (node_at s n))))
     (node_with s label (t_nodes t)))"

definition link_map :: "topology \<Rightarrow> store \<Rightarrow> link_map" where
  "link_map t s = (\<lambda>label. map_option (\<lambda>l. let x = link_at s l in
       (label_of s (l_node1 x), l_node1_port x, label_of s (l_node2 x), l_node2_port x, l_capacity x))
     (link_with s label (t_links t)))"

definition spec_add_node :: "string \<Rightarrow> u32 \<Rightarrow> u32 \<Rightarrow> node_map \<Rightarrow> resp \<times> node_map" where
  "spec_add_node type label parent N =
    (if label \<in> dom N then (label_used label, N)
     else if parent \<noteq> 0 \<and> parent \<notin> dom N then (label_not_found ''parent_label '' parent, N)
     else (success, N(label \<mapsto> (lowercase type, if parent = 0 then None else Some parent))))"

definition spec_add_link ::
  "u32 \<Rightarrow> u32 \<Rightarrow> u32 \<Rightarrow> u32 \<Rightarrow> u32 \<Rightarrow> u32 \<Rightarrow> node_map \<Rightarrow> link_map \<Rightarrow> resp \<times> link_map" where
  "spec_add_link label capacity label1 port1 label2 port2 N L =
    (if label \<in> dom L then (label_used label, L)
     else if label1 \<notin> dom N then (label_not_found ''node1_label '' label1, L)
     else if label2 \<notin> dom N then (label_not_found ''node2_label '' label2, L)
     else (success, L(label \<mapsto> (Some label1, port1, Some label2, port2, capacity))))"

lemma dom_node_map: "label \<in> dom (node_map t s) \<longleftrightarrow> node_with s label (t_nodes t) \<noteq> None"
  by (auto simp: node_map_def dom_def)

lemma dom_link_map: "label \<in> dom (link_map t s) \<longleftrightarrow> link_with s label (t_links t) \<noteq> None"
  by (auto simp: link_map_def dom_def)

lemma maps_cong:
  assumes wf: "topo_wf t s"
    and nodes: "\<And>n. n \<in> set (t_nodes t) \<Longrightarrow> n_label (node_at s' n) = n_label (node_at s n) \<and>
      n_type (node_at s' n) = n_type (node_at s n) \<and> n_parent (node_at s' n) = n_parent (node_at s n)"
    and links: "\<And>l. l \<in> set (t_links t) \<Longrightarrow> link_at s' l = link_at s l"
  shows "node_map t s' = node_map t s" "link_map t s' = link_map t s"
proof -
  have w: "node_with s' label (t_nodes t) = node_with s label (t_nodes t)" for label
    unfolding node_with_def by (rule find_cong_set) (simp add: nodes)
  have wl: "link_with s' label (t_links t) = link_with s label (t_links t)" for label
    unfolding link_with_def by (rule find_cong_set) (simp add: links)
  have p: "label_of s' (n_parent (node_at s n)) = label_of s (n_parent (node_at s n))" if "n \<in> set (t_nodes t)" for n
    using wf_parent [OF wf that] nodes by (cases "n_parent (node_at s n)") (auto simp: label_of_def)
  show "node_map t s' = node_map t s"
    by (auto simp: node_map_def w nodes p fun_eq_iff intro!: option.map_cong dest: node_with_SomeD)
  have e: "label_of s' (l_node1 (link_at s l)) = label_of s (l_node1 (link_at s l)) \<and>
      label_of s' (l_node2 (link_at s l)) = label_of s (l_node2 (link_at s l))" if "l \<in> set (t_links t)" for l
    using wf_ends [OF wf that] nodes by (auto simp: label_of_def)
  show "link_map t s' = link_map t s"
    by (auto simp: link_map_def wl links e fun_eq_iff intro!: option.map_cong dest: link_with_SomeD)
qed

lemma scan_keeps:
  "link_at (snd (scan_nodes h pl found ns s)) = link_at s \<and> (m \<noteq> h \<longrightarrow>
     n_label (node_at (snd (scan_nodes h pl found ns s)) m) = n_label (node_at s m) \<and>
     n_type (node_at (snd (scan_nodes h pl found ns s)) m) = n_type (node_at s m) \<and>
     n_parent (node_at (snd (scan_nodes h pl found ns s)) m) = n_parent (node_at s m))"
  by (induction ns arbitrary: found s) (auto simp: enter_child_sel simp flip: enter_child_def)

lemma node_map_snoc:
  assumes "node_with s (n_label (node_at s h)) (t_nodes t) = None"
  shows "node_map (t\<lparr>t_nodes := t_nodes t @ [h]\<rparr>) s =
    (node_map t s)(n_label (node_at s h) \<mapsto> (n_type (node_at s h), label_of s (n_parent (node_at s h))))"
  using assms by (auto simp: node_map_def fun_eq_iff node_with_def find_snoc split: option.splits)

definition spec_place_node :: "string \<Rightarrow> u32 \<Rightarrow> u32 \<Rightarrow> node_map \<Rightarrow> resp \<times> node_map" where
  "spec_place_node type label parent N =
    (if label \<in> dom N then (label_used label, N)
     else if parent \<noteq> 0 \<and> parent \<notin> dom N then (label_not_found ''parent_label '' parent, N)
     else (success, N(label \<mapsto> (type, if parent = 0 then None else Some parent))))"

lemma place_node_refines:
  assumes wf: "topo_wf t s" and al: "alloc_node x s = (h, s1)"
    and x: "n_links x = []" "n_children x = []" "n_parent x = None"
    and run: "place_node h pl t s1 = (r, t', s')"
  shows "(r, node_map t' s') = spec_place_node (n_type x) (n_label x) pl (node_map t s) \<and>
    link_map t' s' = link_map t s \<and> (n_label x \<notin> dom (node_map t s) \<longrightarrow> topo_wf t' s')"
proof -
  have h: "h = node_count s" "s1 = snd (alloc_node x s)" using al by (auto simp: alloc_node_def)
  have new: "h \<notin> set (t_nodes t)" using wf_node_count [OF wf] h by fastforce
  have same: "node_at s1 n = node_at s n" if "n \<in> set (t_nodes t)" for n
    using wf_node_count [OF wf that] by (simp add: h)
  have wf1: "topo_wf t s1" using topo_wf_alloc [OF wf] by (simp add: h)
  have maps1: "node_map t s1 = node_map t s" "link_map t s1 = link_map t s"
    using maps_cong [OF wf, of s1] same by (auto simp: h)
  have at_h: "node_at s1 h = x" by (simp add: h)
  have dom: "n_label x \<in> (\<lambda>n. n_label (node_at s n)) ` set (t_nodes t) \<longleftrightarrow> n_label x \<in> dom (node_map t s)"
    by (simp add: dom_node_map node_with_None)
  note cases = place_node_cases [OF wf al x, of pl, unfolded dom run]
  show ?thesis
  proof (cases "n_label x \<in> dom (node_map t s)")
    case True
    let ?s = "snd (scan_nodes h pl (pl = 0) (t_nodes t) s1)"
    have k: "node_map t ?s = node_map t s1" "link_map t ?s = link_map t s1"
      using new by (intro maps_cong [OF wf1] scan_keeps [THEN conjunct2, rule_format] fun_cong [OF scan_keeps [THEN conjunct1]], metis)+
    from cases True have "r = label_used (n_label x)" "t' = t" "s' = ?s" by simp_all
    with k maps1 True show ?thesis by (simp add: spec_place_node_def)
  next
    case False
    then have fresh: "n_label (node_at s1 h) \<notin> (\<lambda>n. n_label (node_at s1 n)) ` set (t_nodes t)"
      using at_h same dom by (auto simp: image_iff)
    then have unknown: "node_with s1 (n_label (node_at s1 h)) (t_nodes t) = None" by (simp add: node_with_None)
    let ?t = "t\<lparr>t_nodes := t_nodes t @ [h]\<rparr>"
    have root: "topo_wf ?t s1" using topo_wf_root [OF wf1 _ new _ _ _ fresh] x at_h h by simp
    have links: "link_map ?t s1 = link_map t s1" by (simp add: link_map_def)
    have node: "node_map ?t s1 = (node_map t s)(n_label x \<mapsto> (n_type x, None))"
      using node_map_snoc [OF unknown] at_h x(3) maps1(1) by (simp add: label_of_def)
    show ?thesis
    proof (cases "pl = 0")
      case True
      then show ?thesis using cases False root links maps1 node
        by (simp add: spec_place_node_def)
    next
      case pl: False
      show ?thesis
      proof (cases "node_with s pl (t_nodes t)")
        case None
        then have "pl \<notin> dom (node_map t s)" by (simp add: dom_node_map)
        then show ?thesis using None cases False pl wf1 maps1 by (simp add: spec_place_node_def)
      next
        case (Some p)
        then have p: "p \<in> set (t_nodes t)" "n_label (node_at s p) = pl" using node_with_SomeD by auto
        have "topo_wf ?t (enter_child p h s1)"
          by (rule topo_wf_enter_child [OF root]) (use p x at_h in auto)
        moreover have "node_map ?t (enter_child p h s1) = (node_map t s)(n_label x \<mapsto> (n_type x, Some pl))"
        proof -
          have "node_with (enter_child p h s1) (n_label (node_at (enter_child p h s1) h)) (t_nodes t) = None"
            using unknown by (simp add: node_with_def enter_child_sel)
          from node_map_snoc [OF this] have "node_map ?t (enter_child p h s1) =
              (node_map t (enter_child p h s1))(n_label x \<mapsto> (n_type x, Some pl))"
            using p same new at_h by (simp add: enter_child_sel label_of_def)
          moreover have "node_map t (enter_child p h s1) = node_map t s1"
            by (rule maps_cong(1) [OF wf1]) (use new in \<open>auto simp: enter_child_sel\<close>)
          ultimately show ?thesis using maps1 by simp
        qed
        moreover have "link_map ?t (enter_child p h s1) = link_map t s"
          using links maps1(2) by (simp add: link_map_def link_with_def label_of_def enter_child_sel)
        moreover have "pl \<in> dom (node_map t s)" using Some by (simp add: dom_node_map)
        ultimately show ?thesis using Some cases False pl by (simp add: spec_place_node_def)
      qed
    qed
  qed
qed

text \<open>The new link \<open>l\<close> between \<open>n1\<close> and \<open>n2\<close>; a loop is listed twice.\<close>

definition attach_link :: "nptr \<Rightarrow> nptr \<Rightarrow> link_resource \<Rightarrow> store \<Rightarrow> store" where
  "attach_link n1 n2 x s =
     upd_node n2 (\<lambda>y. y\<lparr>n_links := n_links y @ [link_count s]\<rparr>)
       (upd_node n1 (\<lambda>y. y\<lparr>n_links := n_links y @ [link_count s]\<rparr>)
         (snd (alloc_link (x\<lparr>l_node1 := Some n1, l_node2 := Some n2\<rparr>) s)))"

lemma attach_link_sel:
  "n_label (node_at (attach_link n1 n2 x s) m) = n_label (node_at s m)"
  "n_type (node_at (attach_link n1 n2 x s) m) = n_type (node_at s m)"
  "n_parent (node_at (attach_link n1 n2 x s) m) = n_parent (node_at s m)"
  "n_children (node_at (attach_link n1 n2 x s) m) = n_children (node_at s m)"
  "set (n_links (node_at (attach_link n1 n2 x s) m)) =
     set (n_links (node_at s m)) \<union> (if m = n1 \<or> m = n2 then {link_count s} else {})"
  "link_at (attach_link n1 n2 x s) l =
     (if l = link_count s then x\<lparr>l_node1 := Some n1, l_node2 := Some n2\<rparr> else link_at s l)"
  "node_count (attach_link n1 n2 x s) = node_count s"
  "link_count (attach_link n1 n2 x s) = Suc (link_count s)"
  by (auto simp: attach_link_def)

lemma place_link_cases:
  "place_link x label1 label2 t s =
    (if l_label x \<in> dom (link_map t s) then (label_used (l_label x), t, s)
     else case node_with s label1 (t_nodes t) of
       None \<Rightarrow> (label_not_found ''node1_label '' label1, t, s)
     | Some n1 \<Rightarrow> (case node_with s label2 (t_nodes t) of
         None \<Rightarrow> (label_not_found ''node2_label '' label2, t, s)
       | Some n2 \<Rightarrow> (success, t\<lparr>t_links := t_links t @ [link_count s]\<rparr>, attach_link n1 n2 x s)))"
  by (simp add: place_link_def dom_link_map attach_link_def alloc_link_def split: option.splits)

lemma topo_wf_attach:
  assumes wf: "topo_wf t s" and n: "n1 \<in> set (t_nodes t)" "n2 \<in> set (t_nodes t)"
    and fresh: "l_label x \<notin> (\<lambda>l. l_label (link_at s l)) ` set (t_links t)"
  shows "topo_wf (t\<lparr>t_links := t_links t @ [link_count s]\<rparr>) (attach_link n1 n2 x s)"
    (is "topo_wf ?t ?s")
proof -
  have old: "l \<noteq> link_count s" if "l \<in> set (t_links t)" for l using wf_link_count [OF wf that] by simp
  have labels: "map (\<lambda>l. l_label (link_at ?s l)) (t_links ?t) = map (\<lambda>l. l_label (link_at s l)) (t_links t) @ [l_label x]"
    using old by (simp add: attach_link_sel)
  have dist: "distinct (map (\<lambda>l. l_label (link_at ?s l)) (t_links ?t))"
    unfolding labels using wf_link_labels [OF wf] fresh by simp
  have listed: "l \<in> set (t_links ?t) \<and> (l_node1 (link_at ?s l) = Some m \<or> l_node2 (link_at ?s l) = Some m)"
    if "m \<in> set (t_nodes t)" "l \<in> set (n_links (node_at ?s m))" for m l
  proof (cases "l \<in> set (n_links (node_at s m))")
    case True
    then show ?thesis using wf_listed [OF wf that(1) True] old by (auto simp: attach_link_sel)
  qed (use that in \<open>auto simp: attach_link_sel split: if_splits\<close>)
  have ends: "\<exists>a\<in>set (t_nodes t). \<exists>b\<in>set (t_nodes t). l_node1 (link_at ?s l) = Some a \<and> l_node2 (link_at ?s l) = Some b \<and>
      l \<in> set (n_links (node_at ?s a)) \<and> l \<in> set (n_links (node_at ?s b))" if "l \<in> set (t_links ?t)" for l
  proof (cases "l = link_count s")
    case False
    then show ?thesis using wf_ends [OF wf, of l] that by (auto simp: attach_link_sel)
  qed (use n in \<open>simp add: attach_link_sel\<close>)
  have count: "\<forall>l \<in> set (t_links ?t). l < Suc (link_count s)" using wf_link_count [OF wf] by fastforce
  have rest: "(\<forall>n \<in> set (t_nodes t). n < node_count s) \<and>
      distinct (map (\<lambda>n. n_label (node_at s n)) (t_nodes t)) \<and>
      (\<forall>n \<in> set (t_nodes t). \<forall>p. n_parent (node_at s n) = Some p \<longrightarrow>
        p \<in> set (t_nodes t) \<and> n \<in> set (n_children (node_at s p))) \<and>
      (\<forall>n \<in> set (t_nodes t). \<forall>c \<in> set (n_children (node_at s n)).
        c \<in> set (t_nodes t) \<and> n_parent (node_at s c) = Some n)"
    using wf unfolding topo_wf_def by blast
  have "\<forall>l \<in> set (t_links ?t). \<exists>a\<in>set (t_nodes t). \<exists>b\<in>set (t_nodes t). l_node1 (link_at ?s l) = Some a \<and>
      l_node2 (link_at ?s l) = Some b \<and> l \<in> set (n_links (node_at ?s a)) \<and> l \<in> set (n_links (node_at ?s b))"
    using ends by blast
  moreover have "\<forall>m \<in> set (t_nodes t). \<forall>l \<in> set (n_links (node_at ?s m)).
      l \<in> set (t_links ?t) \<and> (l_node1 (link_at ?s l) = Some m \<or> l_node2 (link_at ?s l) = Some m)"
    using listed by blast
  moreover have nodes: "t_nodes ?t = t_nodes t" by simp
  ultimately show ?thesis
    using dist count rest unfolding topo_wf_def nodes attach_link_sel(1-4,7,8) by (elim conjE, intro conjI)
qed

lemma link_map_attach:
  assumes wf: "topo_wf t s" and "link_with s (l_label x) (t_links t) = None"
  shows "link_map (t\<lparr>t_links := t_links t @ [link_count s]\<rparr>) (attach_link n1 n2 x s) =
    (link_map t s)(l_label x \<mapsto> (Some (n_label (node_at s n1)), l_node1_port x,
      Some (n_label (node_at s n2)), l_node2_port x, l_capacity x))"
proof -
  have old: "l \<noteq> link_count s" if "l \<in> set (t_links t)" for l using wf_link_count [OF wf that] by simp
  have w: "link_with (attach_link n1 n2 x s) label (t_links t) = link_with s label (t_links t)" for label
    unfolding link_with_def by (rule find_cong_set) (simp add: old attach_link_sel)
  have e: "label_of (attach_link n1 n2 x s) p = label_of s p" for p by (simp add: label_of_def attach_link_sel)
  have "link_with (attach_link n1 n2 x s) label (t_links t @ [link_count s]) =
      (case link_with s label (t_links t) of None \<Rightarrow> if label = l_label x then Some (link_count s) else None | r \<Rightarrow> r)" for label
    using w [of label] by (simp add: link_with_def find_snoc attach_link_sel)
  then show ?thesis using assms(2) old
    by (auto simp: link_map_def fun_eq_iff e attach_link_sel(6) Let_def
        split: option.splits dest!: link_with_SomeD) (simp_all add: label_of_def)
qed

definition spec_place_link :: "link_resource \<Rightarrow> u32 \<Rightarrow> u32 \<Rightarrow> node_map \<Rightarrow> link_map \<Rightarrow> resp \<times> link_map" where
  "spec_place_link x label1 label2 =
     spec_add_link (l_label x) (l_capacity x) label1 (l_node1_port x) label2 (l_node2_port x)"

lemma place_link_refines:
  assumes wf: "topo_wf t s" and run: "place_link x label1 label2 t s = (r, t', s')"
  shows "topo_wf t' s' \<and> node_map t' s' = node_map t s \<and>
    (r, link_map t' s') = spec_place_link x label1 label2 (node_map t s) (link_map t s)"
proof (cases "l_label x \<in> dom (link_map t s)")
  case True
  then show ?thesis using run wf
    by (auto simp: place_link_cases spec_place_link_def spec_add_link_def)
next
  case False
  then have fresh: "link_with s (l_label x) (t_links t) = None" by (simp add: dom_link_map)
  show ?thesis
  proof (cases "node_with s label1 (t_nodes t) = None \<or> node_with s label2 (t_nodes t) = None")
    case True
    then show ?thesis using False run wf
      by (auto simp: place_link_cases spec_place_link_def spec_add_link_def dom_node_map split: option.splits)
  next
    case both: False
    then obtain n1 n2 where n: "node_with s label1 (t_nodes t) = Some n1" "node_with s label2 (t_nodes t) = Some n2"
      by auto
    note m = node_with_SomeD [OF n(1)] node_with_SomeD [OF n(2)]
    have t': "r = success" "t' = t\<lparr>t_links := t_links t @ [link_count s]\<rparr>" "s' = attach_link n1 n2 x s"
      using run False n by (auto simp: place_link_cases)
    have "node_map t' s' = node_map t s"
      by (simp add: t' node_map_def node_with_def attach_link_sel label_of_def)
    moreover have "topo_wf t' s'" unfolding t'
      by (rule topo_wf_attach [OF wf]) (use m fresh in \<open>auto simp: link_with_None\<close>)
    ultimately show ?thesis using t' link_map_attach [OF wf fresh, of n1 n2] m False both
      by (auto simp: spec_place_link_def spec_add_link_def dom_node_map)
  qed
qed

section \<open>Building a topology\<close>

text \<open>The calls with which the resource daemon and the database build a topology.\<close>

datatype build =
    Build_Node string u32 u32 bool int int int int string
  | Build_Link u32 u32 u32 u32 u32 u32 u32 u32 u32 u32 u32 u32

fun build_step :: "build \<Rightarrow> topology \<Rightarrow> store \<Rightarrow> resp \<times> topology \<times> store" where
  "build_step (Build_Node type label parent vport cores mem num bw tag) t s =
     add_node type label parent vport cores mem num bw tag t s"
| "build_step (Build_Link label cap label1 port1 rport1 label2 port2 rport2 rload lload cap1 cap2) t s =
     add_link label cap label1 port1 rport1 label2 port2 rport2 rload lload cap1 cap2 t s"

fun build_all :: "build list \<Rightarrow> topology \<Rightarrow> store \<Rightarrow> resp list \<times> topology \<times> store" where
  "build_all [] t s = ([], t, s)"
| "build_all (b # bs) t s =
     (let (r, t, s) = build_step b t s; (rs, t, s) = build_all bs t s in (r # rs, t, s))"

fun spec_step :: "build \<Rightarrow> node_map \<Rightarrow> link_map \<Rightarrow> resp \<times> node_map \<times> link_map" where
  "spec_step (Build_Node type label parent vport cores mem num bw tag) N L =
     (let (r, N) = spec_add_node type label parent N in (r, N, L))"
| "spec_step (Build_Link label cap label1 port1 rport1 label2 port2 rport2 rload lload cap1 cap2) N L =
     (let (r, L) = spec_add_link label cap label1 port1 label2 port2 N L in (r, N, L))"

fun spec_all :: "build list \<Rightarrow> node_map \<Rightarrow> link_map \<Rightarrow> resp list \<times> node_map \<times> link_map" where
  "spec_all [] N L = ([], N, L)"
| "spec_all (b # bs) N L =
     (let (r, N, L) = spec_step b N L; (rs, N, L) = spec_all bs N L in (r # rs, N, L))"

fun build_labels :: "build list \<Rightarrow> u32 list" where
  "build_labels [] = []"
| "build_labels (Build_Node type label parent vport cores mem num bw tag # bs) = label # build_labels bs"
| "build_labels (Build_Link label cap label1 port1 rport1 label2 port2 rport2 rload lload cap1 cap2 # bs) = build_labels bs"

lemma add_node_refines:
  assumes "topo_wf t s" and "add_node type label parent vport cores mem num bw tag t s = (r, t', s')"
  shows "(r, node_map t' s') = spec_add_node type label parent (node_map t s) \<and>
    link_map t' s' = link_map t s \<and> (label \<notin> dom (node_map t s) \<longrightarrow> topo_wf t' s')"
proof -
  let ?x = "new_node
       \<lparr>n_type := lowercase type, n_label := label, n_has_vport := vport, n_acl := ''unused'', n_cp := ''unused'',
        n_core_capacity := of_int cores, n_mem_capacity := of_int mem, n_potential_corecap := of_int cores,
        n_potential_memcap := of_int mem, n_ext_tag := tag, n_port_capacities := fill_ports num bw\<rparr>"
  obtain h s1 where h: "alloc_node ?x s = (h, s1)" by force
  then have "place_node h parent t s1 = (r, t', s')" using assms(2) by (simp add: add_node_def)
  from place_node_refines [OF assms(1) h _ _ _ this] show ?thesis
    by (simp add: new_node_def spec_place_node_def spec_add_node_def)
qed

lemma add_link_refines:
  assumes "topo_wf t s"
    and "add_link label cap label1 port1 rport1 label2 port2 rport2 rload lload cap1 cap2 t s = (r, t', s')"
  shows "topo_wf t' s' \<and> node_map t' s' = node_map t s \<and>
    (r, link_map t' s') = spec_add_link label cap label1 port1 label2 port2 (node_map t s) (link_map t s)"
  using place_link_refines [OF assms(1) assms(2) [unfolded add_link_def]] by (simp add: spec_place_link_def)

lemma dom_spec_add_node: "snd (spec_add_node type label parent N) = N' \<Longrightarrow> dom N' \<subseteq> insert label (dom N)"
  by (auto simp: spec_add_node_def split: if_splits)

lemma build_refines_from:
  assumes "topo_wf t s" and "distinct (build_labels bs)" and "set (build_labels bs) \<inter> dom (node_map t s) = {}"
    and "build_all bs t s = (rs, t', s')"
  shows "topo_wf t' s' \<and> spec_all bs (node_map t s) (link_map t s) = (rs, node_map t' s', link_map t' s')"
  using assms
proof (induction bs arbitrary: t s rs)
  case (Cons b bs)
  obtain r t1 s1 where step: "build_step b t s = (r, t1, s1)" by (metis prod_cases3)
  obtain rs1 where rest: "build_all bs t1 s1 = (rs1, t', s')" "rs = r # rs1"
    using Cons.prems(4) step by (auto split: prod.splits)
  have one: "topo_wf t1 s1 \<and> spec_step b (node_map t s) (link_map t s) = (r, node_map t1 s1, link_map t1 s1) \<and>
      distinct (build_labels bs) \<and> set (build_labels bs) \<inter> dom (node_map t1 s1) = {}"
  proof (cases b)
    case (Build_Node type label parent vport cores mem num bw tag)
    have add: "add_node type label parent vport cores mem num bw tag t s = (r, t1, s1)"
      using step Build_Node by simp
    have "dom (node_map t1 s1) \<subseteq> insert label (dom (node_map t s))"
      using add_node_refines [OF Cons.prems(1) add] dom_spec_add_node by (metis snd_conv)
    then show ?thesis using add_node_refines [OF Cons.prems(1) add] Cons.prems(2,3) Build_Node
      by (auto split: prod.splits)
  next
    case (Build_Link label cap label1 port1 rport1 label2 port2 rport2 rload lload cap1 cap2)
    have "add_link label cap label1 port1 rport1 label2 port2 rport2 rload lload cap1 cap2 t s = (r, t1, s1)"
      using step Build_Link by simp
    from add_link_refines [OF Cons.prems(1) this] Cons.prems(2,3) Build_Link show ?thesis
      by (auto split: prod.splits)
  qed
  from Cons.IH [of t1 s1 rs1] one rest show ?case by simp
qed simp

text \<open>C17: Whatever nodes and links a caller adds to a new topology, as long as it does not use a node label
  twice, every call answers as the specification over maps from labels does, the topology is then the
  specified map, and it is well formed: labels are unique, ends of links and parents are nodes of it,
  every node lists its links and children.\<close>

theorem build_refines:
  assumes "distinct (build_labels bs)" and "build_all bs topology_new s = (rs, t', s')"
  shows "topo_wf t' s' \<and>
    spec_all bs (\<lambda>_. None) (\<lambda>_. None) = (rs, node_map t' s', link_map t' s')"
proof -
  have "node_map topology_new s = (\<lambda>_. None)" "link_map topology_new s = (\<lambda>_. None)"
    by (simp_all add: node_map_def link_map_def topology_new_def node_with_def link_with_def fun_eq_iff)
  with build_refines_from [OF topo_wf_new assms(1) _ assms(2)] show ?thesis by simp
qed

definition sample_build :: "build list" where
  "sample_build = [Build_Node ''IXP'' 1 0 False 1 1 0 0 [], Build_Node ''npr'' 2 1 False 1 1 0 0 [],
     Build_Node ''PC1core'' 3 0 True 2 2 2 1000 [], Build_Link 7 1000 2 0 0 3 1 1 0 0 0 0,
     Build_Link 8 1000 2 0 0 9 1 1 0 0 0 0, Build_Link 7 1000 2 0 0 3 1 1 0 0 0 0]"

theorem build_refines_witness:
  "\<exists>rs t' s'. build_all sample_build topology_new empty_store = (rs, t', s') \<and> topo_wf t' s' \<and>
    map fst rs = [1, 1, 1, 1, -1, -1]"
proof -
  obtain rs t' s' where run: "build_all sample_build topology_new empty_store = (rs, t', s')" by (metis prod_cases3)
  have "topo_wf t' s' \<and> spec_all sample_build (\<lambda>_. None) (\<lambda>_. None) = (rs, node_map t' s', link_map t' s')"
    by (rule build_refines [OF _ run]) (simp add: sample_build_def)
  moreover have "map fst (fst (spec_all sample_build (\<lambda>_. None) (\<lambda>_. None))) = [1, 1, 1, 1, -1, -1]"
    by (simp add: sample_build_def spec_add_node_def spec_add_link_def success_def label_used_def label_not_found_def)
  ultimately show ?thesis using run by auto
qed

lemma scan_skip:
  assumes "\<forall>n \<in> set xs. n_label (node_at s n) \<noteq> n_label (node_at s h) \<and> n_label (node_at s n) \<noteq> pl"
  shows "scan_nodes h pl False (xs @ ys) s = scan_nodes h pl False ys s"
  using assms by (induction xs) auto

lemma scan_found_children:
  "n_children (node_at (snd (scan_nodes h pl True ns s)) m) = n_children (node_at s m)"
  by (induction ns) auto

text \<open>When the parent comes before the node that already has the label, \<^verbatim>\<open>add_node\<close> answers that
  the label is used and leaves the topology as it was, but the parent keeps the rejected node as a child:
  a child that is no node of the topology.\<close>

lemma add_node_dangling:
  assumes wf: "topo_wf t s" and nodes: "t_nodes t = xs @ p # ys" and p: "n_label (node_at s p) = parent" "parent \<noteq> 0"
    and used: "label \<in> (\<lambda>n. n_label (node_at s n)) ` set ys"
  shows "\<exists>s' h. add_node type label parent vport cores mem num bw tag t s = (label_used label, t, s') \<and>
    h \<in> set (n_children (node_at s' p)) \<and> h \<notin> set (t_nodes t)"
proof -
  let ?x = "new_node
       \<lparr>n_type := lowercase type, n_label := label, n_has_vport := vport, n_acl := ''unused'', n_cp := ''unused'',
        n_core_capacity := of_int cores, n_mem_capacity := of_int mem, n_potential_corecap := of_int cores,
        n_potential_memcap := of_int mem, n_ext_tag := tag, n_port_capacities := fill_ports num bw\<rparr>"
  obtain h s1 where h: "alloc_node ?x s = (h, s1)" by force
  have h': "h = node_count s" "s1 = snd (alloc_node ?x s)" using h by (auto simp: alloc_node_def)
  have new: "h \<notin> set (t_nodes t)" using wf_node_count [OF wf] h' by fastforce
  have same: "node_at s1 n = node_at s n" if "n \<in> set (t_nodes t)" for n
    using wf_node_count [OF wf that] by (simp add: h')
  have at_h: "node_at s1 h = ?x" by (simp add: h')
  from wf_node_labels [OF wf] nodes have dist: "distinct (map (\<lambda>n. n_label (node_at s n)) (xs @ p # ys))" by simp
  have skip: "\<forall>n \<in> set xs. n_label (node_at s1 n) \<noteq> n_label (node_at s1 h) \<and> n_label (node_at s1 n) \<noteq> parent"
    using dist used p same nodes at_h by (auto simp: new_node_def) (metis image_eqI disjoint_iff)
  have here: "n_label (node_at s1 p) \<noteq> n_label (node_at s1 h)"
    using dist used p same [of p] nodes at_h by (auto simp: new_node_def)
  let ?s = "enter_child p h s1"
  have "scan_nodes h parent (parent = 0) (t_nodes t) s1 = scan_nodes h parent True ys ?s"
    using scan_skip [OF skip, of "p # ys"] here p same [of p] nodes by (simp add: enter_child_def)
  moreover have "fst (scan_nodes h parent True ys ?s) = None"
    using used same nodes at_h by (intro scan_used) (auto simp: enter_child_sel new_node_def image_iff)
  ultimately obtain s2 where s2: "scan_nodes h parent (parent = 0) (t_nodes t) s1 = (None, s2)"
      "s2 = snd (scan_nodes h parent True ys ?s)" by (metis prod.collapse)
  then have "h \<in> set (n_children (node_at s2 p))" by (simp add: scan_found_children enter_child_sel)
  moreover have "n_label (node_at s2 h) = label" using s2(2) at_h
  proof -
    have "n_label (node_at (snd (scan_nodes h parent f ns s)) h) = n_label (node_at s h)" for f ns s
      by (induction ns arbitrary: f s) (auto simp: enter_child_sel(2) simp flip: enter_child_def)
    then show ?thesis by (simp add: s2(2) enter_child_sel at_h new_node_def)
  qed
  moreover have "add_node type label parent vport cores mem num bw tag t s = place_node h parent t s1"
    using h by (simp add: add_node_def)
  ultimately show ?thesis using new s2(1) by (auto simp: place_node_def)
qed

definition two_nodes :: "topology \<times> store" where
  "two_nodes = snd (build_all [Build_Node ''IXP'' 1 0 False 1 1 0 0 [], Build_Node ''PC1core'' 2 0 False 1 1 0 0 []]
     topology_new empty_store)"

lemma two_nodes: "t_nodes (fst two_nodes) = [0, Suc 0]" "n_label (node_at (snd two_nodes) 0) = 1"
  "n_label (node_at (snd two_nodes) (Suc 0)) = 2" "topo_wf (fst two_nodes) (snd two_nodes)"
proof -
  let ?b = "[Build_Node ''IXP'' 1 0 False 1 1 0 0 [], Build_Node ''PC1core'' 2 0 False 1 1 0 0 []]"
  obtain rs t s where run: "build_all ?b topology_new empty_store = (rs, t, s)" by (metis prod_cases3)
  from build_refines_from [OF topo_wf_new _ _ run] have "topo_wf t s"
    by (simp add: node_map_def topology_new_def node_with_def)
  then show "topo_wf (fst two_nodes) (snd two_nodes)" by (simp only: two_nodes_def run) simp
qed (simp_all add: two_nodes_def add_node_def place_node_def alloc_node_def topology_new_def empty_store_def
    new_node_def success_def)

lemma add_node_dangling_example:
  "\<exists>s' h. add_node ''npr'' 2 1 False 1 1 0 0 [] (fst two_nodes) (snd two_nodes) = (label_used 2, fst two_nodes, s') \<and>
    h \<in> set (n_children (node_at s' 0)) \<and> h \<notin> set (t_nodes (fst two_nodes))"
  by (rule add_node_dangling [of _ _ "[]" _ "[Suc 0]", OF two_nodes(4)]) (simp_all add: two_nodes)

end
