(* ===== verification/Subnet.thy ===== *)
theory Subnet
  imports Topology "HOL-Library.Signed_Division"
begin

text \<open>
  \<^verbatim>\<open>database/src/onldb.cc\<close>: the cost of an edge, the subnet of a node (\<^verbatim>\<open>get_subnet\<close>), that is what
  it reaches through virtual switches (nodes of type \<^verbatim>\<open>vgige\<close>), and whether a part of a subnet is already
  mapped to a cluster (\<^verbatim>\<open>subnet_mapped\<close>). \<open>get_subnet_reach\<close> says that the worklist of \<^verbatim>\<open>get_subnet\<close>
  computes exactly the reachable nodes.
\<close>

definition in_list :: "'a \<Rightarrow> 'a list \<Rightarrow> bool" where
  "in_list x xs = List.member xs x"

lemma in_list_iff [simp]: "in_list x xs \<longleftrightarrow> x \<in> set xs"
  by (simp add: in_list_def)

section \<open>The cost of an edge\<close>

abbreviation MAX_INTERCLUSTER_CAPACITY :: int where
  "MAX_INTERCLUSTER_CAPACITY \<equiv> 10000"

text \<open>The sum has a half of the difference in it, as a \<^verbatim>\<open>double\<close>; its conversion to \<^verbatim>\<open>int\<close> cuts it off.\<close>

definition calculate_edge_cost :: "int \<Rightarrow> int \<Rightarrow> int" where
  "calculate_edge_cost rload lload =
    (let rtraffic = (if rload > MAX_INTERCLUSTER_CAPACITY then MAX_INTERCLUSTER_CAPACITY else rload);
         ltraffic = (if lload > MAX_INTERCLUSTER_CAPACITY then MAX_INTERCLUSTER_CAPACITY else lload);
         rtraffic = rtraffic sdiv 1000;
         ltraffic = ltraffic sdiv 1000
     in (2 * (rtraffic + ltraffic) + \<bar>rtraffic - ltraffic\<bar>) sdiv 2)"

lemma sdiv_nonneg: "0 \<le> a \<Longrightarrow> 0 < b \<Longrightarrow> (a :: int) sdiv b = a div b"
  by (cases "a = 0") (simp_all add: signed_divide_int_def)

lemma calculate_edge_cost_nonneg:
  assumes "0 \<le> rload" and "0 \<le> lload"
  defines "r \<equiv> min rload 10000 div 1000" and "l \<equiv> min lload 10000 div 1000"
  shows "calculate_edge_cost rload lload = (3 * max r l + min r l) div 2"
proof -
  have "calculate_edge_cost rload lload = (2 * (r + l) + \<bar>r - l\<bar>) sdiv 2"
    using assms(1,2) by (auto simp: calculate_edge_cost_def r_def l_def Let_def sdiv_nonneg min_def)
  also have "\<dots> = (2 * (r + l) + \<bar>r - l\<bar>) div 2"
    using assms by (intro sdiv_nonneg) (auto simp: r_def l_def)
  also have "2 * (r + l) + \<bar>r - l\<bar> = 3 * max r l + min r l" by (auto simp: max_def min_def)
  finally show ?thesis .
qed

lemma calculate_edge_cost_bounds:
  assumes "0 \<le> rload" and "0 \<le> lload"
  shows "0 \<le> calculate_edge_cost rload lload" "calculate_edge_cost rload lload \<le> 20"
  using assms by (auto simp: calculate_edge_cost_nonneg max_def min_def)

section \<open>Subnets\<close>

record subnet_info =
  sn_nodes :: "nptr list"
  sn_links :: "lptr list"

abbreviation is_vgige :: "store \<Rightarrow> nptr \<Rightarrow> bool" where
  "is_vgige s n \<equiv> n_type (node_at s n) = ''vgige''"

text \<open>A node that is not in the subnet yet is added, with the link that led to it; the worklist gets it
  when it is a virtual switch.\<close>

definition visit_node :: "store \<Rightarrow> nptr \<Rightarrow> lptr \<Rightarrow> subnet_info \<times> nptr list \<Rightarrow> subnet_info \<times> nptr list" where
  "visit_node s n l = (\<lambda>(sn, pending).
    if in_list n (sn_nodes sn) then (sn, pending)
    else (sn\<lparr>sn_nodes := sn_nodes sn @ [n],
             sn_links := (if in_list l (sn_links sn) then sn_links sn else sn_links sn @ [l])\<rparr>,
          if is_vgige s n \<and> \<not> in_list n pending then pending @ [n] else pending))"

definition port_end :: "store \<Rightarrow> nptr \<Rightarrow> int \<Rightarrow> lptr \<Rightarrow> nptr option" where
  "port_end s n port l = (let x = link_at s l in
     if l_node1 x = Some n \<and> l_node1_port x = of_int port then l_node2 x
     else if l_node2 x = Some n \<and> l_node2_port x = of_int port then l_node1 x else None)"

definition other_end :: "store \<Rightarrow> nptr \<Rightarrow> lptr \<Rightarrow> nptr option" where
  "other_end s n l = (let x = link_at s l in if l_node1 x = Some n then l_node2 x else l_node1 x)"

fun seed_subnet :: "store \<Rightarrow> nptr \<Rightarrow> int \<Rightarrow> lptr list \<Rightarrow> subnet_info \<times> nptr list \<Rightarrow> subnet_info \<times> nptr list" where
  "seed_subnet s source port [] w = w"
| "seed_subnet s source port (l # ls) w = seed_subnet s source port ls
    (case port_end s source port l of None \<Rightarrow> w | Some n \<Rightarrow> visit_node s n l w)"

fun expand_subnet :: "store \<Rightarrow> nptr \<Rightarrow> lptr list \<Rightarrow> subnet_info \<times> nptr list \<Rightarrow> (subnet_info \<times> nptr list) option" where
  "expand_subnet s p [] w = Some w"
| "expand_subnet s p (l # ls) w = do { n \<leftarrow> other_end s p l; expand_subnet s p ls (visit_node s n l w) }"

partial_function (option) drain_subnet :: "store \<Rightarrow> subnet_info \<Rightarrow> nptr list \<Rightarrow> subnet_info option" where
  "drain_subnet s sn pending = (case pending of [] \<Rightarrow> Some sn
   | p # _ \<Rightarrow> do {
       (sn, pending) \<leftarrow> expand_subnet s p (n_links (node_at s p)) (sn, pending);
       drain_subnet s sn (tl pending) })"

definition get_subnet :: "store \<Rightarrow> nptr \<Rightarrow> int \<Rightarrow> subnet_info option" where
  "get_subnet s source port =
    (let sn = \<lparr>sn_nodes = [source], sn_links = []\<rparr>;
         (sn, pending) = (if \<not> is_vgige s source then seed_subnet s source port (n_links (node_at s source)) (sn, [])
           else (sn, [source]))
     in drain_subnet s sn pending)"

text \<open>What a subnet is: the source, what its port leads to, and what virtual switches lead to.\<close>

inductive subnet_reach :: "store \<Rightarrow> nptr \<Rightarrow> int \<Rightarrow> nptr \<Rightarrow> bool" for s source port where
  source: "subnet_reach s source port source"
| port: "\<not> is_vgige s source \<Longrightarrow> l \<in> set (n_links (node_at s source)) \<Longrightarrow> port_end s source port l = Some n \<Longrightarrow>
    subnet_reach s source port n"
| switch: "subnet_reach s source port m \<Longrightarrow> is_vgige s m \<Longrightarrow> l \<in> set (n_links (node_at s m)) \<Longrightarrow>
    other_end s m l = Some n \<Longrightarrow> subnet_reach s source port n"

text \<open>A set of nodes that no link leaves.\<close>

definition link_closed :: "store \<Rightarrow> nptr set \<Rightarrow> bool" where
  "link_closed s N \<longleftrightarrow> finite N \<and> (\<forall>n \<in> N. \<forall>l \<in> set (n_links (node_at s n)).
     \<exists>a \<in> N. \<exists>b \<in> N. l_node1 (link_at s l) = Some a \<and> l_node2 (link_at s l) = Some b)"

lemma topo_wf_closed: "topo_wf t s \<Longrightarrow> link_closed s (set (t_nodes t))"
  unfolding link_closed_def using wf_listed wf_ends by (metis List.finite_set)

lemma link_closedD:
  assumes "link_closed s N" and "n \<in> N" and "l \<in> set (n_links (node_at s n))"
  obtains a b where "a \<in> N" "b \<in> N" "l_node1 (link_at s l) = Some a" "l_node2 (link_at s l) = Some b"
  using assms unfolding link_closed_def by blast

lemma other_end_closed:
  assumes "link_closed s N" and "n \<in> N" and "l \<in> set (n_links (node_at s n))"
  obtains m where "m \<in> N" "other_end s n l = Some m"
proof -
  from assms obtain a b where "a \<in> N" "b \<in> N" "l_node1 (link_at s l) = Some a" "l_node2 (link_at s l) = Some b"
    by (rule link_closedD)
  then show ?thesis using that by (cases "a = n") (auto simp: other_end_def)
qed

lemma port_end_closed:
  assumes "link_closed s N" and "n \<in> N" and "l \<in> set (n_links (node_at s n))" and "port_end s n port l = Some m"
  shows "m \<in> N"
  using assms by (elim link_closedD) (auto simp: port_end_def Let_def split: if_splits)

lemma subnet_reach_closed:
  assumes "link_closed s N" and "source \<in> N" and "subnet_reach s source port n"
  shows "n \<in> N"
  using assms(3)
proof induction
  case (port l n)
  then show ?case using port_end_closed [OF assms(1,2)] by blast
next
  case (switch m l n)
  then show ?case using other_end_closed [OF assms(1)] by (metis option.inject)
qed (rule assms(2))

text \<open>
  The invariant of the worklist: the nodes of the subnet are distinct and reachable, the waiting ones are
  virtual switches among them, and what the others lead to is in the subnet.
\<close>

definition subnet_inv :: "store \<Rightarrow> nptr \<Rightarrow> int \<Rightarrow> subnet_info \<Rightarrow> nptr list \<Rightarrow> bool" where
  "subnet_inv s source port sn pending \<longleftrightarrow>
     distinct (sn_nodes sn) \<and> set pending \<subseteq> set (sn_nodes sn) \<and> (\<forall>n \<in> set pending. is_vgige s n) \<and>
     (\<forall>n \<in> set (sn_nodes sn). subnet_reach s source port n) \<and>
     (\<forall>l \<in> set (sn_links sn). \<exists>n. subnet_reach s source port n \<and> l \<in> set (n_links (node_at s n)))"

definition neighbours :: "store \<Rightarrow> nptr \<Rightarrow> lptr list \<Rightarrow> nptr set" where
  "neighbours s p ls = {n. \<exists>l \<in> set ls. other_end s p l = Some n}"

lemma neighbours_simps [simp]:
  "neighbours s p [] = {}"
  "neighbours s p (l # ls) = set_option (other_end s p l) \<union> neighbours s p ls"
  by (auto simp: neighbours_def)

lemma visit_node_inv:
  assumes "subnet_inv s source port sn pending" and "subnet_reach s source port n"
    and "subnet_reach s source port m" and "l \<in> set (n_links (node_at s m))"
    and "visit_node s n l (sn, pending) = (sn', pending')"
  shows "subnet_inv s source port sn' pending' \<and> set (sn_nodes sn') = insert n (set (sn_nodes sn)) \<and>
    (\<exists>new. pending' = pending @ new \<and> length pending' + card (set (sn_nodes sn)) \<le> length pending + card (set (sn_nodes sn')) \<and>
      (\<forall>m \<in> set (sn_nodes sn') - set (sn_nodes sn). is_vgige s m \<longrightarrow> m \<in> set new))"
  using assms by (auto simp: subnet_inv_def visit_node_def split: if_splits)

lemma expand_subnet_inv:
  assumes "link_closed s N" and "p \<in> N" and "set ls \<subseteq> set (n_links (node_at s p))" and "is_vgige s p"
    and "subnet_reach s source port p" and "subnet_inv s source port sn pending"
  shows "\<exists>sn' new. expand_subnet s p ls (sn, pending) = Some (sn', pending @ new) \<and>
    subnet_inv s source port sn' (pending @ new) \<and>
    set (sn_nodes sn') = set (sn_nodes sn) \<union> neighbours s p ls \<and>
    length new + card (set (sn_nodes sn)) \<le> card (set (sn_nodes sn')) \<and>
    (\<forall>m \<in> set (sn_nodes sn') - set (sn_nodes sn). is_vgige s m \<longrightarrow> m \<in> set new)"
  using assms(3,6)
proof (induction ls arbitrary: sn pending)
  case (Cons l ls)
  then have l: "l \<in> set (n_links (node_at s p))" by simp
  obtain n where n: "other_end s p l = Some n" using other_end_closed [OF assms(1,2) l] by blast
  obtain sn1 pending1 where v: "visit_node s n l (sn, pending) = (sn1, pending1)" by force
  from visit_node_inv [OF Cons.prems(2) subnet_reach.switch [OF assms(5,4) l n] assms(5) l v] obtain new1
    where 1: "subnet_inv s source port sn1 pending1" "set (sn_nodes sn1) = insert n (set (sn_nodes sn))"
      "pending1 = pending @ new1" "length new1 + card (set (sn_nodes sn)) \<le> card (set (sn_nodes sn1))"
      "\<forall>m \<in> set (sn_nodes sn1) - set (sn_nodes sn). is_vgige s m \<longrightarrow> m \<in> set new1" by auto
  from Cons.IH [OF _ 1(1)] Cons.prems(1) obtain sn2 new2
    where 2: "expand_subnet s p ls (sn1, pending1) = Some (sn2, pending1 @ new2)"
      "subnet_inv s source port sn2 (pending1 @ new2)" "set (sn_nodes sn2) = set (sn_nodes sn1) \<union> neighbours s p ls"
      "length new2 + card (set (sn_nodes sn1)) \<le> card (set (sn_nodes sn2))"
      "\<forall>m \<in> set (sn_nodes sn2) - set (sn_nodes sn1). is_vgige s m \<longrightarrow> m \<in> set new2" by auto
  show ?case
    by (rule exI [of _ sn2], rule exI [of _ "new1 @ new2"]) (use 1 2 n v in auto)
qed simp

lemma drain_subnet_reach:
  assumes "link_closed s N" and "source \<in> N" and "subnet_inv s source port sn pending"
    and "\<forall>m \<in> set (sn_nodes sn) - set pending. is_vgige s m \<longrightarrow>
      neighbours s m (n_links (node_at s m)) \<subseteq> set (sn_nodes sn)"
  shows "\<exists>sn'. drain_subnet s sn pending = Some sn' \<and> set (sn_nodes sn) \<subseteq> set (sn_nodes sn') \<and>
    subnet_inv s source port sn' [] \<and> (\<forall>m \<in> set (sn_nodes sn'). is_vgige s m \<longrightarrow>
      neighbours s m (n_links (node_at s m)) \<subseteq> set (sn_nodes sn'))"
  using assms(3,4)
proof (induction "length pending + (card N - card (set (sn_nodes sn)))" arbitrary: sn pending rule: less_induct)
  case less
  show ?case
  proof (cases pending)
    case Nil
    then show ?thesis using less.prems by (simp add: drain_subnet.simps)
  next
    case (Cons p ps)
    with less.prems have p: "p \<in> set (sn_nodes sn)" "is_vgige s p" "subnet_reach s source port p"
      by (auto simp: subnet_inv_def)
    have pN: "p \<in> N" by (rule subnet_reach_closed [OF assms(1,2) p(3)])
    from expand_subnet_inv [OF assms(1) pN order_refl p(2,3) less.prems(1)] obtain sn' new
      where e: "expand_subnet s p (n_links (node_at s p)) (sn, pending) = Some (sn', pending @ new)"
        "subnet_inv s source port sn' (pending @ new)"
        "set (sn_nodes sn') = set (sn_nodes sn) \<union> neighbours s p (n_links (node_at s p))"
        "length new + card (set (sn_nodes sn)) \<le> card (set (sn_nodes sn'))"
        "\<forall>m \<in> set (sn_nodes sn') - set (sn_nodes sn). is_vgige s m \<longrightarrow> m \<in> set new" by blast
    have "set (sn_nodes sn') \<subseteq> N" using e(2) subnet_reach_closed [OF assms(1,2)] by (auto simp: subnet_inv_def)
    then have "card (set (sn_nodes sn')) \<le> card N" using assms(1) by (auto simp: link_closed_def intro: card_mono)
    with e(4) Cons have smaller: "length (ps @ new) + (card N - card (set (sn_nodes sn'))) <
        length pending + (card N - card (set (sn_nodes sn)))" by simp
    have inv: "subnet_inv s source port sn' (ps @ new)" using e(2) Cons by (auto simp: subnet_inv_def)
    have "\<forall>m \<in> set (sn_nodes sn') - set (ps @ new). is_vgige s m \<longrightarrow>
        neighbours s m (n_links (node_at s m)) \<subseteq> set (sn_nodes sn')"
      using less.prems(2) e(3,5) Cons by auto
    from less.hyps [OF smaller inv this] obtain sn'' where
      r: "drain_subnet s sn' (ps @ new) = Some sn''" "set (sn_nodes sn') \<subseteq> set (sn_nodes sn'')"
        "subnet_inv s source port sn'' []" "\<forall>m \<in> set (sn_nodes sn''). is_vgige s m \<longrightarrow>
          neighbours s m (n_links (node_at s m)) \<subseteq> set (sn_nodes sn'')" by blast
    have "drain_subnet s sn pending = Some sn''"
      by (subst drain_subnet.simps) (use e(1) Cons r(1) in simp)
    with r e(3) show ?thesis by blast
  qed
qed

lemma seed_subnet_inv:
  assumes "\<not> is_vgige s source" and "set ls \<subseteq> set (n_links (node_at s source))" and "subnet_inv s source port sn pending"
    and "\<forall>m \<in> set (sn_nodes sn). is_vgige s m \<longrightarrow> m \<in> set pending"
    and "seed_subnet s source port ls (sn, pending) = (sn', pending')"
  shows "subnet_inv s source port sn' pending' \<and> set (sn_nodes sn) \<subseteq> set (sn_nodes sn') \<and>
    (\<forall>m \<in> set (sn_nodes sn'). is_vgige s m \<longrightarrow> m \<in> set pending') \<and>
    (\<forall>l \<in> set ls. \<forall>n. port_end s source port l = Some n \<longrightarrow> n \<in> set (sn_nodes sn'))"
  using assms(2-)
proof (induction ls arbitrary: sn pending)
  case (Cons l ls)
  show ?case
  proof (cases "port_end s source port l")
    case None
    with Cons.IH [of sn pending] Cons.prems show ?thesis by simp
  next
    case (Some n)
    obtain sn1 pending1 where v: "visit_node s n l (sn, pending) = (sn1, pending1)" by force
    have "subnet_reach s source port n" using subnet_reach.port [OF assms(1) _ Some] Cons.prems(1) by simp
    from visit_node_inv [OF Cons.prems(2) this subnet_reach.source _ v] Cons.prems(1)
    have 1: "subnet_inv s source port sn1 pending1" "set (sn_nodes sn1) = insert n (set (sn_nodes sn))"
      "\<forall>m \<in> set (sn_nodes sn1). is_vgige s m \<longrightarrow> m \<in> set pending1"
      using Cons.prems(3) by (auto; blast)+
    have "seed_subnet s source port ls (sn1, pending1) = (sn', pending')" using Cons.prems(4) Some v by simp
    from Cons.IH [OF _ 1(1,3) this] Cons.prems(1) 1(2) Some show ?thesis by auto
  qed
qed simp

lemma get_subnet_reach:
  assumes "link_closed s N" and "source \<in> N"
  shows "\<exists>sn. get_subnet s source port = Some sn \<and> distinct (sn_nodes sn) \<and>
    (\<forall>n. n \<in> set (sn_nodes sn) \<longleftrightarrow> subnet_reach s source port n) \<and>
    (\<forall>l \<in> set (sn_links sn). \<exists>n. subnet_reach s source port n \<and> l \<in> set (n_links (node_at s n)))"
proof -
  let ?sn = "\<lparr>sn_nodes = [source], sn_links = []\<rparr>"
  obtain sn pending where start: "(if \<not> is_vgige s source then seed_subnet s source port (n_links (node_at s source)) (?sn, [])
      else (?sn, [source])) = (sn, pending)" by force
  have ini: "subnet_inv s source port ?sn (if is_vgige s source then [source] else [])"
    by (auto simp: subnet_inv_def subnet_reach.source)
  have 1: "subnet_inv s source port sn pending \<and> source \<in> set (sn_nodes sn) \<and>
      (\<forall>m \<in> set (sn_nodes sn). is_vgige s m \<longrightarrow> m \<in> set pending) \<and>
      (\<not> is_vgige s source \<longrightarrow> (\<forall>l \<in> set (n_links (node_at s source)). \<forall>n.
         port_end s source port l = Some n \<longrightarrow> n \<in> set (sn_nodes sn)))"
  proof (cases "is_vgige s source")
    case True
    then show ?thesis using start ini by auto
  next
    case False
    then show ?thesis using seed_subnet_inv [OF False order_refl, of port ?sn "[]" sn pending] start ini by auto
  qed
  then obtain sn' where 2: "drain_subnet s sn pending = Some sn'" "set (sn_nodes sn) \<subseteq> set (sn_nodes sn')"
    "subnet_inv s source port sn' []" "\<forall>m \<in> set (sn_nodes sn'). is_vgige s m \<longrightarrow>
      neighbours s m (n_links (node_at s m)) \<subseteq> set (sn_nodes sn')"
    using drain_subnet_reach [OF assms, of port sn pending] by auto
  have "n \<in> set (sn_nodes sn')" if "subnet_reach s source port n" for n
    using that
  proof induction
    case (switch m l n)
    then show ?case using 2(4) by (auto simp: neighbours_def)
  qed (use 1 2(2) in auto)
  moreover have "get_subnet s source port = Some sn'"
    using start 2(1) by (simp add: get_subnet_def split: if_splits)
  ultimately show ?thesis using 2(3) by (auto simp: subnet_inv_def)
qed

section \<open>Parts of a subnet that are mapped to a cluster\<close>

definition is_infrastructure :: "store \<Rightarrow> nptr \<Rightarrow> bool" where
  "is_infrastructure s n \<longleftrightarrow> n_dev_type (node_at s n) = ''infrastructure''"

text \<open>A link of a path has an end on the switch of the cluster; the second end is read only when the
  first one is not it.\<close>

definition touches :: "store \<Rightarrow> u32 \<Rightarrow> lptr \<Rightarrow> bool option" where
  "touches s cin l = do {
     n1 \<leftarrow> l_node1 (link_at s l);
     if n_in (node_at s n1) = cin \<and> is_infrastructure s n1 then Some True
     else do {
       n2 \<leftarrow> l_node2 (link_at s l);
       Some (n_in (node_at s n2) = cin \<and> is_infrastructure s n2) } }"

fun path_through :: "store \<Rightarrow> u32 \<Rightarrow> lptr list \<Rightarrow> nat \<Rightarrow> bool option" where
  "path_through s cin [] n = Some False"
| "path_through s cin (l # ls) n = do {
     t \<leftarrow> touches s cin l;
     let n = (if t then n + 1 else n);
     if n > 1 then Some True else path_through s cin ls n }"

fun links_through :: "store \<Rightarrow> u32 \<Rightarrow> lptr list \<Rightarrow> bool option" where
  "links_through s cin [] = Some False"
| "links_through s cin (l # ls) =
    (if l_marked (link_at s l) then do {
       b \<leftarrow> path_through s cin (l_mapped_path (link_at s l)) 0;
       if b then Some True else links_through s cin ls }
     else links_through s cin ls)"

text \<open>A potential mapping counts when its label is the label of a link of the subnet.\<close>

fun potential_through :: "store \<Rightarrow> subnet_info \<Rightarrow> u32 \<Rightarrow> lptr list \<Rightarrow> bool option" where
  "potential_through s sn cin [] = Some False"
| "potential_through s sn cin (p # ps) =
    (if link_with s (l_label (link_at s p)) (sn_links sn) = None then potential_through s sn cin ps
     else do {
       b \<leftarrow> path_through s cin (l_mapped_path (link_at s p)) 0;
       if b then Some True else potential_through s sn cin ps })"

definition subnet_mapped :: "store \<Rightarrow> subnet_info \<Rightarrow> u32 \<Rightarrow> lptr list \<Rightarrow> nptr option \<Rightarrow> bool option" where
  "subnet_mapped s sn cin potential excluded =
    (if list_ex (\<lambda>n. n_marked (node_at s n) \<and> is_vgige s n \<and> n_in (node_at s n) = cin \<and> excluded \<noteq> Some n) (sn_nodes sn)
     then Some True
     else do {
       b \<leftarrow> links_through s cin (sn_links sn);
       if b then Some True else potential_through s sn cin potential })"

text \<open>A path whose links have ends: \<open>path_through\<close> says that two of its links touch the switch.\<close>

definition ends_known :: "store \<Rightarrow> lptr list \<Rightarrow> bool" where
  "ends_known s ls \<longleftrightarrow> (\<forall>l \<in> set ls. l_node1 (link_at s l) \<noteq> None \<and> l_node2 (link_at s l) \<noteq> None)"

lemma ends_known_simps [simp]:
  "ends_known s []"
  "ends_known s (l # ls) \<longleftrightarrow> l_node1 (link_at s l) \<noteq> None \<and> l_node2 (link_at s l) \<noteq> None \<and> ends_known s ls"
  "ends_known s (ls @ ms) \<longleftrightarrow> ends_known s ls \<and> ends_known s ms"
  by (auto simp: ends_known_def)

definition touching :: "store \<Rightarrow> u32 \<Rightarrow> lptr \<Rightarrow> bool" where
  "touching s cin l \<longleftrightarrow> (\<exists>n. (l_node1 (link_at s l) = Some n \<or> l_node2 (link_at s l) = Some n) \<and>
     n_in (node_at s n) = cin \<and> is_infrastructure s n)"

lemma touches_touching:
  "l_node1 (link_at s l) \<noteq> None \<Longrightarrow> l_node2 (link_at s l) \<noteq> None \<Longrightarrow> touches s cin l = Some (touching s cin l)"
  by (auto simp: touches_def touching_def)

lemma path_through_count:
  "ends_known s ls \<Longrightarrow> n \<le> 1 \<Longrightarrow> path_through s cin ls n = Some (1 < n + length (filter (touching s cin) ls))"
  by (induction ls arbitrary: n) (auto simp: touches_touching)

lemma links_through_known:
  assumes "\<forall>l \<in> set ls. ends_known s (l_mapped_path (link_at s l))"
  shows "links_through s cin ls = Some (\<exists>l \<in> set ls. l_marked (link_at s l) \<and>
    1 < length (filter (touching s cin) (l_mapped_path (link_at s l))))"
  using assms by (induction ls) (auto simp: path_through_count)

lemma potential_through_ignored:
  assumes "\<forall>p \<in> set ps. l_label (link_at s p) \<notin> (\<lambda>l. l_label (link_at s l)) ` set (sn_links sn)"
  shows "potential_through s sn cin ps = Some False"
  using assms by (induction ps) (auto simp: link_with_None)

lemma subnet_mapped_known:
  assumes "\<forall>l \<in> set (sn_links sn). ends_known s (l_mapped_path (link_at s l))"
    and "\<forall>p \<in> set ps. l_label (link_at s p) \<notin> (\<lambda>l. l_label (link_at s l)) ` set (sn_links sn)"
  shows "subnet_mapped s sn cin ps excluded = Some
    ((\<exists>n \<in> set (sn_nodes sn). n_marked (node_at s n) \<and> is_vgige s n \<and> n_in (node_at s n) = cin \<and> excluded \<noteq> Some n) \<or>
     (\<exists>l \<in> set (sn_links sn). l_marked (link_at s l) \<and>
        1 < length (filter (touching s cin) (l_mapped_path (link_at s l)))))"
  unfolding subnet_mapped_def links_through_known [OF assms(1)] potential_through_ignored [OF assms(2)]
  by (auto simp: list_ex_iff)

end
