(* ===== verification/Path_Search.thy ===== *)
theory Path_Search
  imports Subnet
begin

text \<open>
  \<^verbatim>\<open>onldb::find_cheapest_path\<close>: the search for a path through the switches of the testbed for one
  link of an experiment. \<open>hop\<close> says when a path may be continued over a link, \<open>route\<close> what a path is;
  the search ends, answers with a route, and answers -1 only when there is none.

  Costs are integers without a bound here: they are sums of capacities in Mbps over the links of a path.
  The counters \<^verbatim>\<open>fnd_path\<close> and \<^verbatim>\<open>num_paths\<close> are only printed.
\<close>

definition node_hosted :: "store \<Rightarrow> nptr \<Rightarrow> bool" where
  "node_hosted s n \<longleftrightarrow> n_dev_type (node_at s n) = ''hosted''"

record link_path =
  lp_path :: "lptr list"
  lp_sink :: nptr
  lp_cost :: int
  lp_sink_port :: int

text \<open>What the search is about: the link of the user, where its path starts and ends, its subnet and loads.\<close>

record path_query =
  q_ulink :: link_resource
  q_source :: nptr
  q_src_port :: int
  q_sink :: "nptr option"
  q_sink_port :: int
  q_subnet :: subnet_info
  q_potential :: "lptr list"
  q_rload :: int
  q_lload :: int

section \<open>The search\<close>

text \<open>
  The other end of a link, with the port there and the direction; an inner \<open>None\<close>: the link is
  not for this path. The port counts only at the source, and not when the source has virtual ports.
\<close>

definition next_node :: "store \<Rightarrow> path_query \<Rightarrow> nptr \<Rightarrow> int \<Rightarrow> lptr \<Rightarrow> (nptr \<times> int \<times> bool) option option" where
  "next_node s q n1 port1 l =
    (let x = link_at s l;
         port_of = (\<lambda>n2 port. if \<not> is_infrastructure s n2 then sint port else -1)
     in if l_node1 x = Some n1 \<and> (n1 \<noteq> q_source q \<or> port1 < 0 \<or> port1 = sint (l_node1_port x) \<or> n_has_vport (node_at s n1))
     then do { n2 \<leftarrow> l_node2 x; Some (Some (n2, port_of n2 (l_node2_port x), True)) }
     else if l_node2 x = Some n1 \<and>
        (n1 \<noteq> q_source q \<or> port1 < 0 \<or> of_int port1 = l_node2_port x \<or> n_has_vport (node_at s n1))
     then do { n2 \<leftarrow> l_node1 x; Some (Some (n2, port_of n2 (l_node1_port x), False)) }
     else Some None)"

definition at_sink :: "store \<Rightarrow> path_query \<Rightarrow> nptr \<Rightarrow> int \<Rightarrow> bool" where
  "at_sink s q n port \<longleftrightarrow> q_sink q = Some n \<and> (port = q_sink_port q \<or> n_has_vport (node_at s n))"

definition interswitch :: "store \<Rightarrow> nptr \<Rightarrow> nptr \<Rightarrow> bool" where
  "interswitch s n1 n2 \<longleftrightarrow> is_infrastructure s n1 \<and> is_infrastructure s n2"

text \<open>The potential capacities of a link in the direction of the path: to the right and to the left.\<close>

definition caps :: "store \<Rightarrow> lptr \<Rightarrow> bool \<Rightarrow> int \<times> int" where
  "caps s l right = (let x = link_at s l in
     if right then (sint (l_potential_rcap x), sint (l_potential_lcap x))
     else (sint (l_potential_lcap x), sint (l_potential_rcap x)))"

text \<open>Whether the subnet of the link already has a virtual switch or a link on one of the two switches;
  at the ends of the path the ends of the user's link do not count.\<close>

definition switch_taken :: "store \<Rightarrow> path_query \<Rightarrow> nptr \<Rightarrow> nptr \<Rightarrow> bool option" where
  "switch_taken s q n1 n2 = do {
     b \<leftarrow> subnet_mapped s (q_subnet q) (n_in (node_at s n2)) (q_potential q)
       (if q_sink q = Some n2 then l_node2 (q_ulink q) else None);
     if b then Some True
     else subnet_mapped s (q_subnet q) (n_in (node_at s n1)) (q_potential q)
       (if n1 = q_source q then l_node1 (q_ulink q) else None) }"

text \<open>The cost of going over a link, or \<open>None\<close> inside when it cannot be used.\<close>

definition link_cost :: "store \<Rightarrow> path_query \<Rightarrow> nptr \<Rightarrow> nptr \<Rightarrow> lptr \<Rightarrow> bool \<Rightarrow> int option option" where
  "link_cost s q n1 n2 l right =
    (let (rcap, lcap) = caps s l right;
         finish = (\<lambda>rcap lcap c.
           if n1 = q_source q \<and> n_has_vport (node_at s n1) \<and> of_int rcap < l_node1_capacity (q_ulink q) then None
           else if q_sink q = Some n2 \<and> n_has_vport (node_at s n2) \<and> of_int lcap < l_node2_capacity (q_ulink q) then None
           else Some c)
     in if interswitch s n1 n2 then
       (if rcap < q_rload q \<or> lcap < q_lload q then Some None
        else do {
          taken \<leftarrow> switch_taken s q n1 n2;
          if taken then Some None
          else (let lcap = lcap - q_lload q; rcap = rcap - q_rload q
                in Some (finish rcap lcap (l_cost (q_ulink q) + (rcap + lcap) sdiv 2))) })
     else Some (finish rcap lcap 0))"

text \<open>The first path to the node is replaced when the new one is cheaper; a first path is added.\<close>

fun put_path :: "link_path \<Rightarrow> link_path list \<Rightarrow> link_path list" where
  "put_path new [] = [new]"
| "put_path new (p # ps) =
    (if lp_sink p = lp_sink new then (if lp_cost new < lp_cost p then new else p) # ps
     else p # put_path new ps)"

definition relax_link :: "store \<Rightarrow> path_query \<Rightarrow> nptr list \<Rightarrow> link_path \<Rightarrow> lptr \<Rightarrow> link_path list \<Rightarrow> link_path list option" where
  "relax_link s q seen p l paths = do {
     nxt \<leftarrow> next_node s q (lp_sink p) (lp_sink_port p) l;
     case nxt of None \<Rightarrow> Some paths
     | Some (n2, port2, right) \<Rightarrow>
         if (\<not> in_list n2 seen \<and> is_infrastructure s n2) \<or> at_sink s q n2 port2 then do {
           cost \<leftarrow> link_cost s q (lp_sink p) n2 l right;
           case cost of None \<Rightarrow> Some paths
           | Some c \<Rightarrow> Some (put_path \<lparr>lp_path = lp_path p @ [l], lp_sink = n2, lp_cost = lp_cost p + c,
               lp_sink_port = port2\<rparr> paths) }
         else Some paths }"

fun relax_links :: "store \<Rightarrow> path_query \<Rightarrow> nptr list \<Rightarrow> link_path \<Rightarrow> lptr list \<Rightarrow> link_path list \<Rightarrow> link_path list option" where
  "relax_links s q seen p [] paths = Some paths"
| "relax_links s q seen p (l # ls) paths = do {
     paths \<leftarrow> relax_link s q seen p l paths; relax_links s q seen p ls paths }"

text \<open>One level: the paths that were there at its start, the new ones go to the back.\<close>

fun search_level :: "store \<Rightarrow> path_query \<Rightarrow> nptr list \<Rightarrow> nat \<Rightarrow> link_path list \<Rightarrow> link_path list option" where
  "search_level s q seen 0 paths = Some paths"
| "search_level s q seen (Suc k) [] = None"
| "search_level s q seen (Suc k) (p # paths) = do {
     paths \<leftarrow> relax_links s q seen p (n_links (node_at s (lp_sink p))) paths;
     search_level s q seen k paths }"

fun note_paths :: "path_query \<Rightarrow> link_path list \<Rightarrow> link_path option \<Rightarrow> nptr list \<Rightarrow> link_path option \<times> nptr list" where
  "note_paths q [] found seen = (found, seen)"
| "note_paths q (p # ps) found seen =
    (if q_sink q = Some (lp_sink p) then note_paths q ps (Some p) seen
     else note_paths q ps found (if in_list (lp_sink p) seen then seen else seen @ [lp_sink p]))"

partial_function (option) search_paths :: "store \<Rightarrow> path_query \<Rightarrow> nptr list \<Rightarrow> link_path list \<Rightarrow> link_path option option" where
  "search_paths s q seen paths =
    (if paths = [] then Some None
     else do {
       paths \<leftarrow> search_level s q seen (length paths) paths;
       let (found, seen) = note_paths q paths None seen;
       if found \<noteq> None then Some found else search_paths s q seen paths })"

definition start_path :: "path_query \<Rightarrow> link_path" where
  "start_path q = \<lparr>lp_path = [], lp_sink = q_source q, lp_cost = 0, lp_sink_port = q_src_port q\<rparr>"

definition cap_load :: "u32 \<Rightarrow> int" where
  "cap_load load = (if sint load > MAX_INTERCLUSTER_CAPACITY then MAX_INTERCLUSTER_CAPACITY else sint load)"

text \<open>Two ends on one machine need no path when one of them is hosted and the other is hosted or virtual.\<close>

definition same_host :: "store \<Rightarrow> nptr \<Rightarrow> nptr option \<Rightarrow> bool option" where
  "same_host s n1 node2 =
    (if node_hosted s n1 \<or> is_vgige s n1 then do {
       n2 \<leftarrow> node2;
       Some ((node_hosted s n1 \<and> node_hosted s n2) \<or> (node_hosted s n1 \<and> is_vgige s n2) \<or>
         (is_vgige s n1 \<and> node_hosted s n2)) }
     else Some False)"

definition path_query_of :: "link_resource \<Rightarrow> link_resource \<Rightarrow> nptr \<Rightarrow> subnet_info \<Rightarrow> lptr list \<Rightarrow> path_query" where
  "path_query_of u x source subnet potential =
     \<lparr>q_ulink = u, q_source = source, q_src_port = sint (l_node1_port x), q_sink = l_node2 x,
      q_sink_port = sint (l_node2_port x), q_subnet = subnet, q_potential = potential,
      q_rload = cap_load (l_rload u), q_lload = cap_load (l_lload u)\<rparr>"

text \<open>\<open>path\<close> is the link object that says from where to where and gets the path; the cost is -1 when there
  is none.\<close>

definition find_cheapest_path :: "lptr \<Rightarrow> lptr \<Rightarrow> lptr list \<Rightarrow> store \<Rightarrow> (int \<times> store) option" where
  "find_cheapest_path ulink path potential s =
    (let u = link_at s ulink; x = link_at s path in do {
       n1 \<leftarrow> l_node1 u;
       subnet \<leftarrow> get_subnet s n1 (sint (l_node1_port u));
       inside \<leftarrow> (if l_node1 x = l_node2 x then same_host s n1 (l_node2 u) else Some False);
       if inside then Some (0, upd_link path (\<lambda>x. x\<lparr>l_cost := 0\<rparr>) s)
       else do {
         source \<leftarrow> l_node1 x;
         let q = path_query_of u x source subnet potential;
         found \<leftarrow> search_paths s q [] [start_path q];
         case found of
           None \<Rightarrow> Some (-1, s)
         | Some p \<Rightarrow> Some (lp_cost p, upd_link path (\<lambda>x. x\<lparr>l_cost := lp_cost p,
             l_mapped_path := l_mapped_path x @ lp_path p\<rparr>) s) } })"

section \<open>Routes\<close>

text \<open>A path may be continued over a link: what the search looks at besides the nodes it has seen.\<close>

definition hop :: "store \<Rightarrow> path_query \<Rightarrow> nptr \<Rightarrow> int \<Rightarrow> lptr \<Rightarrow> nptr \<Rightarrow> int \<Rightarrow> int \<Rightarrow> bool" where
  "hop s q n1 port1 l n2 port2 c \<longleftrightarrow> l \<in> set (n_links (node_at s n1)) \<and>
     (\<exists>right. next_node s q n1 port1 l = Some (Some (n2, port2, right)) \<and>
        (is_infrastructure s n2 \<or> at_sink s q n2 port2) \<and> link_cost s q n1 n2 l right = Some (Some c))"

inductive route :: "store \<Rightarrow> path_query \<Rightarrow> link_path \<Rightarrow> bool" for s q where
  start: "route s q (start_path q)"
| step: "route s q p \<Longrightarrow> lp_path p = [] \<or> q_sink q \<noteq> Some (lp_sink p) \<Longrightarrow> hop s q (lp_sink p) (lp_sink_port p) l n2 port2 c \<Longrightarrow>
    route s q \<lparr>lp_path = lp_path p @ [l], lp_sink = n2, lp_cost = lp_cost p + c, lp_sink_port = port2\<rparr>"

definition reaches :: "store \<Rightarrow> path_query \<Rightarrow> link_path \<Rightarrow> bool" where
  "reaches s q p \<longleftrightarrow> route s q p \<and> lp_path p \<noteq> [] \<and> q_sink q = Some (lp_sink p)"

text \<open>What the search relies on: links lead to nodes of \<open>N\<close>, the paths of mapped links are known, the
  cost of the user's link is not negative.\<close>

definition query_ok :: "store \<Rightarrow> path_query \<Rightarrow> nptr set \<Rightarrow> bool" where
  "query_ok s q N \<longleftrightarrow> link_closed s N \<and> q_source q \<in> N \<and> 0 \<le> l_cost (q_ulink q) \<and>
     (\<forall>l \<in> set (sn_links (q_subnet q)) \<union> set (q_potential q). ends_known s (l_mapped_path (link_at s l)))"

lemma links_through_total:
  "\<forall>l \<in> set ls. ends_known s (l_mapped_path (link_at s l)) \<Longrightarrow> \<exists>b. links_through s cin ls = Some b"
  by (simp add: links_through_known)

lemma potential_through_total:
  "\<forall>p \<in> set ps. ends_known s (l_mapped_path (link_at s p)) \<Longrightarrow> \<exists>b. potential_through s sn cin ps = Some b"
  by (induction ps) (auto simp: path_through_count)

lemma switch_taken_total:
  assumes "query_ok s q N"
  shows "\<exists>b. switch_taken s q n1 n2 = Some b"
proof -
  have "\<exists>b. subnet_mapped s (q_subnet q) cin (q_potential q) ex = Some b" for cin ex
    using assms links_through_total [of "sn_links (q_subnet q)" s cin]
      potential_through_total [of "q_potential q" s "q_subnet q" cin]
    by (auto simp: subnet_mapped_def query_ok_def)
  then obtain b b' where
    "subnet_mapped s (q_subnet q) (n_in (node_at s n2)) (q_potential q) (if q_sink q = Some n2 then l_node2 (q_ulink q) else None) = Some b"
    "subnet_mapped s (q_subnet q) (n_in (node_at s n1)) (q_potential q) (if n1 = q_source q then l_node1 (q_ulink q) else None) = Some b'"
    by blast
  then show ?thesis by (simp only: switch_taken_def) auto
qed

lemma link_cost_total:
  assumes "query_ok s q N"
  shows "\<exists>c. link_cost s q n1 n2 l right = Some c"
  using switch_taken_total [OF assms, of n1 n2] by (auto simp: link_cost_def Let_def split: prod.splits)

lemma link_cost_nonneg:
  assumes "query_ok s q N" and "link_cost s q n1 n2 l right = Some (Some c)"
  shows "0 \<le> c"
  using assms by (auto simp: link_cost_def query_ok_def Let_def sdiv_nonneg bind_eq_Some_conv split: prod.splits if_splits)

lemma next_node_total:
  assumes "link_closed s N" and "n1 \<in> N" and "l \<in> set (n_links (node_at s n1))"
  shows "\<exists>r. next_node s q n1 port1 l = Some r"
  using assms by (elim link_closedD) (auto simp: next_node_def Let_def)

lemma next_node_in:
  assumes "link_closed s N" and "n1 \<in> N" and "l \<in> set (n_links (node_at s n1))"
    and "next_node s q n1 port1 l = Some (Some (n2, port2, right))"
  shows "n2 \<in> N"
  using assms by (elim link_closedD) (auto simp: next_node_def Let_def split: if_splits)

lemma next_node_port:
  "next_node s q n1 port1 l = Some (Some (n2, port2, right)) \<Longrightarrow> is_infrastructure s n2 \<Longrightarrow> port2 = -1"
  by (auto simp: next_node_def Let_def bind_eq_Some_conv split: if_splits)

lemma hop_in: "query_ok s q N \<Longrightarrow> n1 \<in> N \<Longrightarrow> hop s q n1 port1 l n2 port2 c \<Longrightarrow> n2 \<in> N"
  by (auto simp: hop_def query_ok_def dest: next_node_in)

lemma hop_nonneg: "query_ok s q N \<Longrightarrow> hop s q n1 port1 l n2 port2 c \<Longrightarrow> 0 \<le> c"
  by (auto simp: hop_def dest: link_cost_nonneg)

lemma hop_port: "hop s q n1 port1 l n2 port2 c \<Longrightarrow> q_sink q \<noteq> Some n2 \<Longrightarrow> is_infrastructure s n2 \<and> port2 = -1"
  by (auto simp: hop_def at_sink_def dest: next_node_port)

lemma route_in: "route s q p \<Longrightarrow> query_ok s q N \<Longrightarrow> lp_sink p \<in> N \<and> 0 \<le> lp_cost p"
proof (induction rule: route.induct)
  case (step p l n2 port2 c)
  then show ?case using hop_in hop_nonneg by fastforce
qed (auto simp: start_path_def query_ok_def)

section \<open>One level\<close>

definition sinks :: "link_path list \<Rightarrow> nptr set" where
  "sinks ps = lp_sink ` set ps"

lemma sinks_simps [simp]:
  "sinks [] = {}" "sinks (p # ps) = insert (lp_sink p) (sinks ps)" "sinks (ps @ qs) = sinks ps \<union> sinks qs"
  by (auto simp: sinks_def)

text \<open>Where the hops from a node lead is seen or waits.\<close>

definition expanded :: "store \<Rightarrow> path_query \<Rightarrow> nptr \<Rightarrow> int \<Rightarrow> lptr list \<Rightarrow> nptr set \<Rightarrow> bool" where
  "expanded s q n port ls M \<longleftrightarrow> (\<forall>l \<in> set ls. \<forall>n2 port2 c. hop s q n port l n2 port2 c \<longrightarrow> n2 \<in> M)"

text \<open>Paths on the list: routes; a path that is not at the sink has no port and is at a switch that was not seen
  unless it was there before.\<close>

definition paths_ok :: "store \<Rightarrow> path_query \<Rightarrow> link_path list \<Rightarrow> bool" where
  "paths_ok s q ps \<longleftrightarrow> (\<forall>p \<in> set ps. route s q p \<and> lp_path p \<noteq> [] \<and>
     (q_sink q \<noteq> Some (lp_sink p) \<longrightarrow> lp_sink_port p = -1))"

lemma map_put_path:
  "\<exists>new'. map lp_sink (put_path new ps) = map lp_sink ps @ new' \<and> set new' = {lp_sink new} - sinks ps"
  by (induction new ps rule: put_path.induct) auto

lemma set_put_path: "set (put_path new ps) \<subseteq> insert new (set ps)"
  by (induction new ps rule: put_path.induct) auto

lemma relax_link_spec:
  assumes ok: "query_ok s q N" and p: "route s q p" "lp_path p = [] \<or> q_sink q \<noteq> Some (lp_sink p)" and l: "l \<in> set (n_links (node_at s (lp_sink p)))"
    and paths: "paths_ok s q paths"
  shows "\<exists>paths' new. relax_link s q seen p l paths = Some paths' \<and> paths_ok s q paths' \<and>
    map lp_sink paths' = map lp_sink paths @ new \<and> (\<forall>n \<in> set new. n \<notin> set seen \<or> q_sink q = Some n) \<and>
    expanded s q (lp_sink p) (lp_sink_port p) [l] (set seen \<union> sinks paths')"
proof -
  have pN: "lp_sink p \<in> N" using route_in [OF p(1) ok] by simp
  obtain nxt where nxt: "next_node s q (lp_sink p) (lp_sink_port p) l = Some nxt"
    using next_node_total ok pN l unfolding query_ok_def by blast
  have stay: ?thesis if "relax_link s q seen p l paths = Some paths"
      and "expanded s q (lp_sink p) (lp_sink_port p) [l] (set seen \<union> sinks paths)"
    using that paths by (intro exI [of _ paths] exI [of _ "[]"]) simp
  show ?thesis
  proof (cases nxt)
    case None
    then show ?thesis using nxt by (intro stay) (auto simp: relax_link_def expanded_def hop_def)
  next
    case (Some r)
    then obtain n2 port2 right where r: "nxt = Some (n2, port2, right)" by (metis prod_cases3)
    obtain cost where cost: "link_cost s q (lp_sink p) n2 l right = Some cost"
      using link_cost_total [OF ok] by blast
    show ?thesis
    proof (cases "((n2 \<notin> set seen \<and> is_infrastructure s n2) \<or> at_sink s q n2 port2) \<and> cost \<noteq> None")
      case False
      then show ?thesis using nxt r cost
        by (intro stay) (auto simp: relax_link_def expanded_def hop_def)
    next
      case True
      then obtain c where c: "cost = Some c" by auto
      let ?new = "\<lparr>lp_path = lp_path p @ [l], lp_sink = n2, lp_cost = lp_cost p + c, lp_sink_port = port2\<rparr>"
      have h: "hop s q (lp_sink p) (lp_sink_port p) l n2 port2 c"
        using nxt r cost c True l by (auto simp: hop_def)
      have run: "relax_link s q seen p l paths = Some (put_path ?new paths)"
        using nxt r cost c True by (simp add: relax_link_def)
      have "route s q ?new" by (rule route.step [OF p h])
      moreover have "q_sink q \<noteq> Some n2 \<Longrightarrow> port2 = -1" using hop_port [OF h] by simp
      ultimately have "paths_ok s q (put_path ?new paths)"
        using set_put_path [of ?new paths] paths by (fastforce simp: paths_ok_def)
      moreover obtain new where new: "map lp_sink (put_path ?new paths) = map lp_sink paths @ new"
          "set new = {n2} - sinks paths" using map_put_path [of ?new paths] by auto
      moreover have "n2 \<notin> set seen \<or> q_sink q = Some n2" using True by (auto simp: at_sink_def)
      moreover have "n2 \<in> sinks (put_path ?new paths)"
      proof -
        have "sinks (put_path ?new paths) = set (map lp_sink paths @ new)"
          using new(1) by (metis sinks_def set_map)
        then show ?thesis using new(2) by (auto simp: sinks_def)
      qed
      then have "expanded s q (lp_sink p) (lp_sink_port p) [l] (set seen \<union> sinks (put_path ?new paths))"
        using nxt r by (auto simp: expanded_def hop_def)
      ultimately show ?thesis using run by (intro exI [of _ "put_path ?new paths"] exI [of _ new]) auto
    qed
  qed
qed

lemma expanded_mono: "expanded s q n port ls M \<Longrightarrow> M \<subseteq> M' \<Longrightarrow> expanded s q n port ls M'"
  by (auto simp: expanded_def)

lemma sinks_map: "sinks ps = set (map lp_sink ps)"
  by (simp add: sinks_def)

lemma relax_links_spec:
  assumes ok: "query_ok s q N" and p: "route s q p" "lp_path p = [] \<or> q_sink q \<noteq> Some (lp_sink p)" and ls: "set ls \<subseteq> set (n_links (node_at s (lp_sink p)))"
    and paths: "paths_ok s q paths"
  shows "\<exists>paths' new. relax_links s q seen p ls paths = Some paths' \<and> paths_ok s q paths' \<and>
    map lp_sink paths' = map lp_sink paths @ new \<and> (\<forall>n \<in> set new. n \<notin> set seen \<or> q_sink q = Some n) \<and>
    expanded s q (lp_sink p) (lp_sink_port p) ls (set seen \<union> sinks paths')"
  using ls paths
proof (induction ls arbitrary: paths)
  case Nil
  then show ?case by (simp add: expanded_def)
next
  case (Cons l ls)
  then have l: "l \<in> set (n_links (node_at s (lp_sink p)))" by simp
  from relax_link_spec [OF ok p l Cons.prems(2), of seen] obtain paths1 new1 where
    1: "relax_link s q seen p l paths = Some paths1" "paths_ok s q paths1"
      "map lp_sink paths1 = map lp_sink paths @ new1" "\<forall>n \<in> set new1. n \<notin> set seen \<or> q_sink q = Some n"
      "expanded s q (lp_sink p) (lp_sink_port p) [l] (set seen \<union> sinks paths1)" by blast
  from Cons.IH [OF _ 1(2)] Cons.prems(1) obtain paths2 new2 where
    2: "relax_links s q seen p ls paths1 = Some paths2" "paths_ok s q paths2"
      "map lp_sink paths2 = map lp_sink paths1 @ new2" "\<forall>n \<in> set new2. n \<notin> set seen \<or> q_sink q = Some n"
      "expanded s q (lp_sink p) (lp_sink_port p) ls (set seen \<union> sinks paths2)" by auto
  have "set seen \<union> sinks paths1 \<subseteq> set seen \<union> sinks paths2" using 2(3) by (auto simp: sinks_map simp del: set_map)
  from expanded_mono [OF 1(5) this] 2(5)
  have "expanded s q (lp_sink p) (lp_sink_port p) (l # ls) (set seen \<union> sinks paths2)" by (auto simp: expanded_def)
  then show ?case using 1 2 by (intro exI [of _ paths2] exI [of _ "new1 @ new2"]) auto
qed

abbreviation links_at :: "store \<Rightarrow> nptr \<Rightarrow> lptr list" where
  "links_at s n \<equiv> n_links (node_at s n)"

lemma search_level_spec:
  assumes ok: "query_ok s q N" and "paths_ok s q paths" and "k \<le> length paths"
    and "\<forall>p \<in> set (take k paths). q_sink q \<noteq> Some (lp_sink p)" and "sinks (take k paths) \<subseteq> set seen"
  shows "\<exists>paths' new. search_level s q seen k paths = Some paths' \<and> paths_ok s q paths' \<and>
    map lp_sink paths' = map lp_sink (drop k paths) @ new \<and>
    (\<forall>n \<in> set new. n \<notin> set seen \<or> q_sink q = Some n) \<and>
    (\<forall>n \<in> sinks (take k paths). expanded s q n (-1) (links_at s n) (set seen \<union> sinks paths'))"
  using assms(2-)
proof (induction k arbitrary: paths)
  case (Suc k)
  then obtain p ps where paths: "paths = p # ps" by (cases paths) auto
  have p: "route s q p" "lp_path p = [] \<or> q_sink q \<noteq> Some (lp_sink p)" "lp_sink_port p = -1" and ps: "paths_ok s q ps"
    using Suc.prems(1,3) paths by (auto simp: paths_ok_def)
  from relax_links_spec [OF ok p(1,2) order_refl ps, of seen] obtain paths1 new1 where
    1: "relax_links s q seen p (links_at s (lp_sink p)) ps = Some paths1" "paths_ok s q paths1"
      "map lp_sink paths1 = map lp_sink ps @ new1" "\<forall>n \<in> set new1. n \<notin> set seen \<or> q_sink q = Some n"
      "expanded s q (lp_sink p) (-1) (links_at s (lp_sink p)) (set seen \<union> sinks paths1)"
    unfolding p(3) by blast
  have len: "k \<le> length ps" using Suc.prems(2) paths by simp
  have len1: "length ps \<le> length paths1" using arg_cong [OF 1(3), of length] by simp
  have k: "map lp_sink (take k paths1) = map lp_sink (take k ps)"
    "map lp_sink (drop k paths1) = map lp_sink (drop k ps) @ new1"
    using arg_cong [OF 1(3), of "take k"] arg_cong [OF 1(3), of "drop k"] len by (simp_all add: take_map drop_map)
  have non: "\<forall>p \<in> set (take k paths1). q_sink q \<noteq> Some (lp_sink p)"
  proof -
    have "\<forall>n \<in> set (map lp_sink (take k ps)). q_sink q \<noteq> Some n" using Suc.prems(3) paths by auto
    then show ?thesis unfolding k(1) [symmetric] by simp
  qed
  have take1: "sinks (take k paths1) = sinks (take k ps)" using k(1) by (simp add: sinks_map del: set_map)
  have seen: "lp_sink p \<in> set seen" "sinks (take k ps) \<subseteq> set seen" using Suc.prems(4) paths by auto
  from Suc.IH [OF 1(2) _ non] len len1 seen(2) take1 obtain paths2 new2 where
    2: "search_level s q seen k paths1 = Some paths2" "paths_ok s q paths2"
      "map lp_sink paths2 = map lp_sink (drop k paths1) @ new2"
      "\<forall>n \<in> set new2. n \<notin> set seen \<or> q_sink q = Some n"
      "\<forall>n \<in> sinks (take k ps). expanded s q n (-1) (links_at s n) (set seen \<union> sinks paths2)" by auto
  have "sinks paths1 = sinks (take k paths1) \<union> sinks (drop k paths1)"
    by (simp add: sinks_def flip: image_Un set_append)
  moreover have "sinks (drop k paths1) \<subseteq> sinks paths2" using 2(3) by (auto simp: sinks_map simp del: set_map)
  ultimately have "set seen \<union> sinks paths1 \<subseteq> set seen \<union> sinks paths2" using take1 seen(2) by auto
  from expanded_mono [OF 1(5) this] 2(5)
  have "\<forall>n \<in> sinks (take (Suc k) paths). expanded s q n (-1) (links_at s n) (set seen \<union> sinks paths2)"
    using paths by simp
  moreover have "search_level s q seen (Suc k) paths = Some paths2" using 1(1) 2(1) paths by simp
  ultimately show ?case using 1(4) 2(2,3,4) k(2) paths
    by (intro exI [of _ paths2] exI [of _ "new1 @ new2"]) auto
qed (auto simp: sinks_def)

section \<open>The whole search\<close>

lemma note_paths_spec:
  assumes "note_paths q ps found seen = (found', seen')"
  shows "(\<forall>p. found' = Some p \<longrightarrow> found = Some p \<or> p \<in> set ps \<and> q_sink q = Some (lp_sink p)) \<and>
    (found' = None \<longrightarrow> found = None \<and> (\<forall>p \<in> set ps. q_sink q \<noteq> Some (lp_sink p)) \<and> set seen' = set seen \<union> sinks ps)"
  using assms by (induction q ps found seen rule: note_paths.induct) (auto split: if_splits)

definition search_inv :: "store \<Rightarrow> path_query \<Rightarrow> nptr set \<Rightarrow> nptr list \<Rightarrow> link_path list \<Rightarrow> bool" where
  "search_inv s q N seen paths \<longleftrightarrow> paths_ok s q paths \<and> (\<forall>p \<in> set paths. q_sink q \<noteq> Some (lp_sink p)) \<and>
     sinks paths \<subseteq> set seen \<and> set seen \<subseteq> N \<and> (\<forall>n \<in> set seen. q_sink q \<noteq> Some n) \<and>
     expanded s q (q_source q) (q_src_port q) (links_at s (q_source q)) (set seen) \<and>
     (\<forall>n \<in> set seen - sinks paths. expanded s q n (-1) (links_at s n) (set seen))"

text \<open>When nothing waits, what was seen is all that a route reaches.\<close>

lemma search_done:
  assumes "search_inv s q N seen []"
  shows "\<not> reaches s q p"
proof -
  have hop_seen: "n2 \<in> set seen" if "hop s q n1 port1 l n2 port2 c"
    and "n1 = q_source q \<and> port1 = q_src_port q \<or> n1 \<in> set seen \<and> port1 = -1" for n1 port1 l n2 port2 c
    using assms that unfolding search_inv_def expanded_def by (fastforce simp: hop_def)
  have "p = start_path q \<or> lp_sink p \<in> set seen \<and> lp_sink_port p = -1" if "route s q p"
    using that
  proof induction
    case (step p l n2 port2 c)
    then have "n2 \<in> set seen" using hop_seen by (auto simp: start_path_def)
    moreover have "q_sink q \<noteq> Some n2" using assms \<open>n2 \<in> set seen\<close> by (auto simp: search_inv_def)
    ultimately show ?case using hop_port [OF step(3)] by simp
  qed simp
  then show ?thesis using assms by (auto simp: reaches_def start_path_def search_inv_def)
qed

lemma search_level_found:
  assumes ok: "query_ok s q N" and paths: "paths_ok s q paths'"
    and noted: "note_paths q paths' None seen = (found, seen')"
  shows "found = Some p \<Longrightarrow> reaches s q p"
    and "found = None \<Longrightarrow> (\<forall>p \<in> set paths'. q_sink q \<noteq> Some (lp_sink p)) \<and> set seen' = set seen \<union> sinks paths' \<and>
      sinks paths' \<subseteq> N"
proof -
  show "reaches s q p" if "found = Some p"
    using note_paths_spec [OF noted] that paths by (auto simp: reaches_def paths_ok_def)
  have "sinks paths' \<subseteq> N" using paths route_in [OF _ ok] by (auto simp: sinks_def paths_ok_def)
  then show "(\<forall>p \<in> set paths'. q_sink q \<noteq> Some (lp_sink p)) \<and> set seen' = set seen \<union> sinks paths' \<and> sinks paths' \<subseteq> N"
    if "found = None" using note_paths_spec [OF noted] that by auto
qed

lemma search_paths_spec:
  assumes ok: "query_ok s q N" and "search_inv s q N seen paths"
  shows "\<exists>r. search_paths s q seen paths = Some r \<and> (\<forall>p. r = Some p \<longrightarrow> reaches s q p) \<and>
    (r = None \<longrightarrow> (\<forall>p. \<not> reaches s q p))"
  using assms(2)
proof (induction "2 * card (N - set seen) + (if paths = [] then 0 else 1)" arbitrary: seen paths rule: less_induct)
  case less
  note inv = less.prems [unfolded search_inv_def]
  show ?case
  proof (cases "paths = []")
    case True
    then show ?thesis using search_done less.prems by (auto simp: search_paths.simps)
  next
    case False
    have all: "take (length paths) paths = paths" "drop (length paths) paths = []" by simp_all
    from search_level_spec [OF ok, of paths "length paths" seen] inv obtain paths1 where
      1: "search_level s q seen (length paths) paths = Some paths1" "paths_ok s q paths1"
        "\<forall>n \<in> sinks paths1. n \<notin> set seen \<or> q_sink q = Some n"
        "\<forall>n \<in> sinks paths. expanded s q n (-1) (links_at s n) (set seen \<union> sinks paths1)"
      by (auto simp: sinks_map simp del: set_map)
    obtain found seen1 where noted: "note_paths q paths1 None seen = (found, seen1)" by force
    note res = search_level_found [OF ok 1(2) noted]
    have run: "search_paths s q seen paths = (if found \<noteq> None then Some found else search_paths s q seen1 paths1)"
      using 1(1) noted False by (subst search_paths.simps) simp
    show ?thesis
    proof (cases found)
      case (Some p)
      then show ?thesis using run res(1) [OF Some] by simp
    next
      case None
      note res2 = res(2) [OF None]
      have fresh: "sinks paths1 \<inter> set seen = {}" using 1(3) res2 by (auto simp: sinks_def)
      have inv1: "search_inv s q N seen1 paths1"
        unfolding search_inv_def
      proof (intro conjI ballI)
        show "expanded s q (q_source q) (q_src_port q) (links_at s (q_source q)) (set seen1)"
          by (rule expanded_mono [of _ _ _ _ _ "set seen"]) (use inv res2 in auto)
        show "expanded s q n (-1) (links_at s n) (set seen1)" if "n \<in> set seen1 - sinks paths1" for n
        proof (cases "n \<in> sinks paths")
          case True
          then show ?thesis using 1(4) res2 by simp
        next
          case False
          then have "expanded s q n (-1) (links_at s n) (set seen)" using inv that res2 by auto
          then show ?thesis by (rule expanded_mono) (use res2 in auto)
        qed
      qed (use inv res2 1(2) in \<open>auto simp: sinks_def\<close>)
      have "2 * card (N - set seen1) + (if paths1 = [] then 0 else 1) < 2 * card (N - set seen) + 1"
      proof (cases "paths1 = []")
        case True
        then show ?thesis using res2 by simp
      next
        case False
        then obtain n where "n \<in> sinks paths1" by (cases paths1) auto
        then have "N - set seen1 \<subset> N - set seen" using res2 fresh by auto
        moreover have "finite (N - set seen)" using ok by (auto simp: query_ok_def link_closed_def)
        ultimately have "card (N - set seen1) < card (N - set seen)" by (rule psubset_card_mono [rotated])
        then show ?thesis by simp
      qed
      with less.hyps [OF _ inv1] False run None show ?thesis by simp
    qed
  qed
qed

lemma search_from_start:
  assumes ok: "query_ok s q N"
  shows "\<exists>r. search_paths s q [] [start_path q] = Some r \<and> (\<forall>p. r = Some p \<longrightarrow> reaches s q p) \<and>
    (r = None \<longrightarrow> (\<forall>p. \<not> reaches s q p))"
proof -
  have p: "lp_sink (start_path q) = q_source q" "lp_sink_port (start_path q) = q_src_port q" by (simp_all add: start_path_def)
  from relax_links_spec [OF ok route.start _ order_refl, of "[]" "[]"] obtain paths1 where
    1: "relax_links s q [] (start_path q) (links_at s (q_source q)) [] = Some paths1" "paths_ok s q paths1"
      "expanded s q (q_source q) (q_src_port q) (links_at s (q_source q)) (sinks paths1)"
    unfolding p by (auto simp: paths_ok_def start_path_def)
  obtain found seen1 where noted: "note_paths q paths1 None [] = (found, seen1)" by force
  note res = search_level_found [OF ok 1(2) noted]
  have run: "search_paths s q [] [start_path q] = (if found \<noteq> None then Some found else search_paths s q seen1 paths1)"
    using 1(1) noted p by (subst search_paths.simps) simp
  show ?thesis
  proof (cases found)
    case (Some p)
    then show ?thesis using run res(1) [OF Some] by simp
  next
    case None
    have "search_inv s q N seen1 paths1"
      using res(2) [OF None] 1(2,3) by (auto simp: search_inv_def sinks_def)
    from search_paths_spec [OF ok this] run None show ?thesis by simp
  qed
qed

section \<open>What a found path is\<close>

text \<open>One link of a path, from \<open>a\<close> to \<open>b\<close>: between two switches it has the capacity for the loads in the direction
  of the path.\<close>

definition crosses :: "store \<Rightarrow> int \<Rightarrow> int \<Rightarrow> nptr \<Rightarrow> lptr \<Rightarrow> nptr \<Rightarrow> bool" where
  "crosses s rload lload a l b \<longleftrightarrow> l \<in> set (links_at s a) \<and> (\<exists>right.
     (if right then l_node1 (link_at s l) = Some a \<and> l_node2 (link_at s l) = Some b
      else l_node2 (link_at s l) = Some a \<and> l_node1 (link_at s l) = Some b) \<and>
     (interswitch s a b \<longrightarrow> rload \<le> fst (caps s l right) \<and> lload \<le> snd (caps s l right)))"

fun trip :: "store \<Rightarrow> int \<Rightarrow> int \<Rightarrow> nptr \<Rightarrow> lptr list \<Rightarrow> nptr \<Rightarrow> bool" where
  "trip s rload lload a [] b \<longleftrightarrow> a = b"
| "trip s rload lload a (l # ls) b \<longleftrightarrow> (\<exists>m. crosses s rload lload a l m \<and>
     (ls \<noteq> [] \<longrightarrow> is_infrastructure s m) \<and> trip s rload lload m ls b)"

lemma trip_snoc:
  "trip s rload lload a (ls @ [l]) b \<longleftrightarrow> (\<exists>m. trip s rload lload a ls m \<and> (ls \<noteq> [] \<longrightarrow> is_infrastructure s m) \<and>
     crosses s rload lload m l b)"
proof (induction ls arbitrary: a)
  case (Cons k ls)
  have "trip s rload lload a ((k # ls) @ [l]) b \<longleftrightarrow> (\<exists>m. crosses s rload lload a k m \<and> is_infrastructure s m \<and>
      (\<exists>m'. trip s rload lload m ls m' \<and> (ls \<noteq> [] \<longrightarrow> is_infrastructure s m') \<and> crosses s rload lload m' l b))"
    using Cons by simp
  also have "\<dots> \<longleftrightarrow> (\<exists>m'. (\<exists>m. crosses s rload lload a k m \<and> (ls \<noteq> [] \<longrightarrow> is_infrastructure s m) \<and>
      trip s rload lload m ls m') \<and> is_infrastructure s m' \<and> crosses s rload lload m' l b)"
  proof (cases "ls = []")
    case True
    then show ?thesis by auto
  next
    case False
    then show ?thesis by (simp add: conj_ac ex_simps [symmetric] del: ex_simps) (subst ex_comm, simp only: conj_ac)
  qed
  finally show ?case by simp
qed simp

lemma hop_crosses:
  assumes "hop s q n1 port1 l n2 port2 c"
  shows "crosses s (q_rload q) (q_lload q) n1 l n2"
proof -
  from assms obtain right where h: "l \<in> set (links_at s n1)" "next_node s q n1 port1 l = Some (Some (n2, port2, right))"
    "link_cost s q n1 n2 l right = Some (Some c)" by (auto simp: hop_def)
  have "if right then l_node1 (link_at s l) = Some n1 \<and> l_node2 (link_at s l) = Some n2
      else l_node2 (link_at s l) = Some n1 \<and> l_node1 (link_at s l) = Some n2"
    using h(2) by (auto simp: next_node_def Let_def bind_eq_Some_conv split: if_splits)
  moreover have "interswitch s n1 n2 \<longrightarrow> q_rload q \<le> fst (caps s l right) \<and> q_lload q \<le> snd (caps s l right)"
    using h(3) by (auto simp: link_cost_def split: prod.splits if_splits)
  ultimately show ?thesis unfolding crosses_def using h(1) by blast
qed

lemma route_trip:
  "route s q p \<Longrightarrow> trip s (q_rload q) (q_lload q) (q_source q) (lp_path p) (lp_sink p) \<and>
     (lp_path p \<noteq> [] \<and> q_sink q \<noteq> Some (lp_sink p) \<longrightarrow> is_infrastructure s (lp_sink p))"
proof (induction rule: route.induct)
  case (step p l n2 port2 c)
  then show ?case using hop_crosses [OF step(3)] hop_port [OF step(3)] by (auto simp: trip_snoc)
qed (simp add: start_path_def)

text \<open>Mapped paths consist of objects that exist and have both ends.\<close>

definition paths_known :: "store \<Rightarrow> bool" where
  "paths_known s \<longleftrightarrow> (\<forall>l < link_count s. ends_known s (l_mapped_path (link_at s l)) \<and>
     (\<forall>p \<in> set (l_mapped_path (link_at s l)). p < link_count s))"

text \<open>The result of the search, with the path and the links that the user's link gets.\<close>

definition path_result :: "store \<Rightarrow> link_resource \<Rightarrow> lptr \<Rightarrow> nptr \<Rightarrow> nptr \<Rightarrow> path_query \<Rightarrow> int \<Rightarrow> store \<Rightarrow> bool" where
  "path_result s u path source sink q c s' \<longleftrightarrow>
     c = -1 \<and> s' = s \<and> (\<nexists>p. reaches s q p) \<or>
     0 \<le> c \<and> (\<exists>ls. s' = upd_link path (\<lambda>x. x\<lparr>l_cost := c, l_mapped_path := l_mapped_path x @ ls\<rparr>) s \<and>
       trip s (cap_load (l_rload u)) (cap_load (l_lload u)) source ls sink)"

lemma find_cheapest_path_result:
  assumes user: "link_closed s M" "l_node1 (link_at s ulink) = Some n1" "n1 \<in> M" "l_node2 (link_at s ulink) = Some n2"
    and base: "link_closed s N" "l_node1 (link_at s path) = Some source" "source \<in> N"
      "l_node2 (link_at s path) = Some sink"
    and known: "paths_known s" "\<forall>n \<in> M. \<forall>l \<in> set (links_at s n). l < link_count s"
      "\<forall>p \<in> set potential. p < link_count s"
    and cost: "0 \<le> l_cost (link_at s ulink)"
  shows "\<exists>c s' subnet. find_cheapest_path ulink path potential s = Some (c, s') \<and>
    get_subnet s n1 (sint (l_node1_port (link_at s ulink))) = Some subnet \<and>
    path_result s (link_at s ulink) path source sink
      (path_query_of (link_at s ulink) (link_at s path) source subnet potential) c s'"
proof -
  let ?u = "link_at s ulink" and ?x = "link_at s path"
  obtain subnet where sn: "get_subnet s n1 (sint (l_node1_port ?u)) = Some subnet"
    and links: "\<forall>l \<in> set (sn_links subnet). \<exists>n. subnet_reach s n1 (sint (l_node1_port ?u)) n \<and> l \<in> set (links_at s n)"
    using get_subnet_reach [OF user(1,3)] by blast
  have "l < link_count s" if "l \<in> set (sn_links subnet) \<union> set potential" for l
    using that links known(2,3) subnet_reach_closed [OF user(1,3)] by blast
  then have "\<forall>l \<in> set (sn_links subnet) \<union> set potential. ends_known s (l_mapped_path (link_at s l))"
    using known(1) unfolding paths_known_def by blast
  then have ok: "query_ok s (path_query_of ?u ?x source subnet potential) N"
    using base(1,3) cost by (simp add: query_ok_def path_query_of_def)
  let ?q = "path_query_of ?u ?x source subnet potential"
  have "\<exists>b. same_host s n1 (l_node2 ?u) = Some b" using user(4) by (auto simp: same_host_def)
  then obtain inside where inside: "(if l_node1 ?x = l_node2 ?x then same_host s n1 (l_node2 ?u) else Some False) = Some inside"
    by (cases "l_node1 ?x = l_node2 ?x") auto
  then have same: "inside \<Longrightarrow> source = sink" using base(2,4) by (auto split: if_splits)
  show ?thesis
  proof (cases inside)
    case True
    then have run: "find_cheapest_path ulink path potential s = Some (0, upd_link path (\<lambda>x. x\<lparr>l_cost := 0\<rparr>) s)"
      using user(2) sn inside by (simp add: find_cheapest_path_def)
    have "upd_link path (\<lambda>x. x\<lparr>l_cost := 0\<rparr>) s =
        upd_link path (\<lambda>x. x\<lparr>l_cost := 0, l_mapped_path := l_mapped_path x @ []\<rparr>) s" by (simp add: upd_link_def)
    moreover have "trip s (cap_load (l_rload ?u)) (cap_load (l_lload ?u)) source [] sink" using same True by simp
    ultimately have "path_result s ?u path source sink ?q 0 (upd_link path (\<lambda>x. x\<lparr>l_cost := 0\<rparr>) s)"
      unfolding path_result_def by blast
    with run sn show ?thesis by blast
  next
    case False
    from search_from_start [OF ok] obtain r where r: "search_paths s ?q [] [start_path ?q] = Some r"
      "\<forall>p. r = Some p \<longrightarrow> reaches s ?q p" "r = None \<longrightarrow> (\<forall>p. \<not> reaches s ?q p)" by blast
    have run: "find_cheapest_path ulink path potential s = (case r of
        None \<Rightarrow> Some (-1, s)
      | Some p \<Rightarrow> Some (lp_cost p, upd_link path (\<lambda>x. x\<lparr>l_cost := lp_cost p,
             l_mapped_path := l_mapped_path x @ lp_path p\<rparr>) s))"
      using user(2) sn inside False base(2) r(1) by (simp add: find_cheapest_path_def)
    show ?thesis
    proof (cases r)
      case None
      then show ?thesis using run sn r(3) by (auto simp: path_result_def)
    next
      case (Some p)
      then have p: "reaches s ?q p" using r(2) by simp
      have "0 \<le> lp_cost p" using route_in [OF _ ok] p by (auto simp: reaches_def)
      moreover have "trip s (cap_load (l_rload ?u)) (cap_load (l_lload ?u)) source (lp_path p) sink"
      proof -
        have "route s ?q p" "lp_sink p = sink" using p base(4) by (auto simp: reaches_def path_query_of_def)
        from route_trip [OF this(1)] this(2) show ?thesis by (simp add: path_query_of_def)
      qed
      ultimately show ?thesis using run sn Some by (auto simp: path_result_def)
    qed
  qed
qed

end
