(* ===== verification/Path_Mapping.thy ===== *)
theory Path_Mapping
  imports Path_Search
begin

text \<open>
  \<^verbatim>\<open>database/src/onldb.cc\<close>: what uses the path search. \<^verbatim>\<open>compute_path_costs\<close> asks whether the links
  of a node to the nodes that are already mapped have paths, and lowers the potential capacities on the way;
  \<^verbatim>\<open>map_edges\<close> maps these links and adds their loads to the links of the testbed.
\<close>

section \<open>Potential capacities\<close>

definition init_potential :: "link_resource \<Rightarrow> link_resource" where
  "init_potential x = x\<lparr>l_potential_lcap := (if l_lload x < l_capacity x then l_capacity x - l_lload x else 0),
     l_potential_rcap := (if l_rload x < l_capacity x then l_capacity x - l_rload x else 0)\<rparr>"

definition initialize_base_potential_loads :: "topology \<Rightarrow> store \<Rightarrow> store" where
  "initialize_base_potential_loads base s = fold (\<lambda>l. upd_link l init_potential) (t_links base) s"

text \<open>The links of a node, or of the children of a cluster, whose other end is mapped.\<close>

definition end_marked :: "store \<Rightarrow> nptr option \<Rightarrow> bool option" where
  "end_marked s p = map_option (\<lambda>n. n_marked (node_at s n)) p"

definition other_marked :: "store \<Rightarrow> nptr \<Rightarrow> lptr \<Rightarrow> bool option" where
  "other_marked s n l = (let x = link_at s l in do {
     b \<leftarrow> (if l_node1 x = Some n then end_marked s (l_node2 x) else Some False);
     if b then Some True
     else if l_node2 x = Some n then end_marked s (l_node1 x) else Some False })"

fun mapped_edges_of :: "store \<Rightarrow> nptr \<Rightarrow> lptr list \<Rightarrow> lptr list \<Rightarrow> lptr list option" where
  "mapped_edges_of s n [] es = Some es"
| "mapped_edges_of s n (l # ls) es = do {
     b \<leftarrow> other_marked s n l; mapped_edges_of s n ls (if b then es @ [l] else es) }"

fun mapped_edges_all :: "store \<Rightarrow> nptr list \<Rightarrow> lptr list \<Rightarrow> lptr list option" where
  "mapped_edges_all s [] es = Some es"
| "mapped_edges_all s (n # ns) es = do {
     es \<leftarrow> mapped_edges_of s n (n_links (node_at s n)) es; mapped_edges_all s ns es }"

definition get_mapped_edges :: "nptr \<Rightarrow> lptr list \<Rightarrow> store \<Rightarrow> lptr list option" where
  "get_mapped_edges n es s = mapped_edges_all s
     (if n_is_parent (node_at s n) then n_children (node_at s n) else [n]) es"

section \<open>The cost of the paths to mapped neighbours\<close>

text \<open>The end points and ports of a path: a virtual switch has no port.\<close>

definition path_port :: "store \<Rightarrow> nptr \<Rightarrow> u32 \<Rightarrow> u32" where
  "path_port s n port = (if is_vgige s n then -1 else port)"

definition path_link :: "store \<Rightarrow> link_resource \<Rightarrow> nptr option \<Rightarrow> nptr option \<Rightarrow> link_resource option" where
  "path_link s u source sink = do {
     n1 \<leftarrow> l_node1 u;
     n2 \<leftarrow> l_node2 u;
     Some (new_link\<lparr>l_node1 := source, l_node1_port := path_port s n1 (l_node1_port u),
       l_node2 := sink, l_node2_port := path_port s n2 (l_node2_port u)\<rparr>) }"

definition spend :: "u32 \<Rightarrow> int \<Rightarrow> u32" where
  "spend cap load = (if cap < of_int load then 0 else cap - of_int load)"

fun spend_path :: "int \<Rightarrow> int \<Rightarrow> lptr list \<Rightarrow> nptr option \<Rightarrow> store \<Rightarrow> store" where
  "spend_path rload lload [] prev s = s"
| "spend_path rload lload (p # ps) prev s =
    (let x = link_at s p in
     if l_node1 x \<noteq> l_node2 x then
       if l_node1 x = prev then spend_path rload lload ps (l_node2 x)
         (upd_link p (\<lambda>x. x\<lparr>l_potential_rcap := spend (l_potential_rcap x) rload,
            l_potential_lcap := spend (l_potential_lcap x) lload\<rparr>) s)
       else if l_node2 x = prev then spend_path rload lload ps (l_node1 x)
         (upd_link p (\<lambda>x. x\<lparr>l_potential_rcap := spend (l_potential_rcap x) lload,
            l_potential_lcap := spend (l_potential_lcap x) rload\<rparr>) s)
       else spend_path rload lload ps prev s
     else spend_path rload lload ps prev s)"

text \<open>The tests that pass over a link: an end that is the node with the other end not mapped, or a link
  that is mapped already.\<close>

definition skip_link :: "store \<Rightarrow> nptr \<Rightarrow> link_resource \<Rightarrow> bool option" where
  "skip_link s node u = do {
     b \<leftarrow> (if l_node1 u = Some node then map_option Not (end_marked s (l_node2 u)) else Some False);
     if b then Some True
     else do {
       b \<leftarrow> (if l_node2 u = Some node then map_option Not (end_marked s (l_node1 u)) else Some False);
       Some (b \<or> l_marked u) } }"

definition mapped_end :: "store \<Rightarrow> nptr option \<Rightarrow> nptr option option" where
  "mapped_end s p = map_option (\<lambda>n. n_mapped_node (node_at s n)) p"

text \<open>The loop of \<^verbatim>\<open>compute_path_costs\<close>; a failure prints the labels of both ends.\<close>

fun path_costs :: "nptr \<Rightarrow> nptr \<Rightarrow> lptr list \<Rightarrow> lptr list \<Rightarrow> int \<Rightarrow> store \<Rightarrow> (int \<times> store) option" where
  "path_costs node n [] edges cost s = Some (cost, s)"
| "path_costs node n (l # ls) edges cost s = (let u = link_at s l in do {
     skip \<leftarrow> skip_link s node u;
     if skip then path_costs node n ls edges cost s
     else do {
       (source, sink) \<leftarrow> (if l_node1 u = Some node then do { m \<leftarrow> mapped_end s (l_node2 u); Some (Some n, m) }
         else do { m \<leftarrow> mapped_end s (l_node1 u); Some (m, Some n) });
       x \<leftarrow> path_link s u source sink;
       let (p, s) = alloc_link x s;
       (c, s) \<leftarrow> find_cheapest_path l p edges s;
       if c < 0 then (if source = None \<or> sink = None then None else Some (-1, s))
       else path_costs node n ls (edges @ [p]) (cost + c)
         (spend_path (cap_load (l_rload u)) (cap_load (l_lload u)) (l_mapped_path (link_at s p)) source s) } })"

definition compute_path_costs :: "nptr \<Rightarrow> nptr \<Rightarrow> store \<Rightarrow> (int \<times> store) option" where
  "compute_path_costs node n s = path_costs node n (n_links (node_at s node)) [] 0 s"

section \<open>Mapping links\<close>

text \<open>Adding a load to one direction of a link: the load is cut at the capacity.\<close>

definition take_right :: "int \<Rightarrow> link_resource \<Rightarrow> link_resource" where
  "take_right load x = (let new = l_rload x + of_int load in
     if new > l_capacity x then x\<lparr>l_rload := l_capacity x, l_potential_rcap := 0\<rparr>
     else x\<lparr>l_rload := new, l_potential_rcap := l_potential_rcap x - of_int load\<rparr>)"

definition take_left :: "int \<Rightarrow> link_resource \<Rightarrow> link_resource" where
  "take_left load x = (let new = l_lload x + of_int load in
     if new > l_capacity x then x\<lparr>l_lload := l_capacity x, l_potential_lcap := 0\<rparr>
     else x\<lparr>l_lload := new, l_potential_lcap := l_potential_lcap x - of_int load\<rparr>)"

definition charge_port :: "nptr \<Rightarrow> u32 \<Rightarrow> u32 \<Rightarrow> store \<Rightarrow> store" where
  "charge_port n port load = upd_node n (\<lambda>x. x\<lparr>n_port_capacities := port_sub port load (n_port_capacities x)\<rparr>)"

text \<open>What one step of the loop over the path writes: the path and its directions, the loads of a link of the
  testbed, the real port of the user's link with the capacity of that port.\<close>

definition note_link :: "lptr \<Rightarrow> lptr \<Rightarrow> bool \<Rightarrow> store \<Rightarrow> store" where
  "note_link l p right s =
     upd_link l (\<lambda>x. x\<lparr>l_mp_linkdir := l_mp_linkdir x @ [if right then 1 else 0]\<rparr>)
       (upd_link l (\<lambda>x. x\<lparr>l_mapped_path := l_mapped_path x @ [p]\<rparr>) s)"

definition load_link :: "lptr \<Rightarrow> bool \<Rightarrow> int \<Rightarrow> int \<Rightarrow> store \<Rightarrow> store" where
  "load_link p right rload lload s =
     upd_link p (\<lambda>x. take_left (if right then lload else rload) (take_right (if right then rload else lload) x)) s"

definition set_rport :: "bool \<Rightarrow> lptr \<Rightarrow> nptr \<Rightarrow> u32 \<Rightarrow> u32 \<Rightarrow> store \<Rightarrow> store" where
  "set_rport at_source l n port load s = charge_port n port load
     (upd_link l (\<lambda>x. if at_source then x\<lparr>l_node1_rport := sint port\<rparr> else x\<lparr>l_node2_rport := sint port\<rparr>) s)"

text \<open>The end where a path leaves a link, and its ports and loads.\<close>

definition far_end :: "store \<Rightarrow> lptr \<Rightarrow> bool \<Rightarrow> nptr option" where
  "far_end s p right = (if right then l_node2 (link_at s p) else l_node1 (link_at s p))"

definition set_ports :: "lptr \<Rightarrow> nptr \<Rightarrow> nptr option \<Rightarrow> nptr option \<Rightarrow> bool \<Rightarrow> lptr \<Rightarrow> bool \<Rightarrow> store \<Rightarrow> store option" where
  "set_ports l source sink prev seen p right s =
    (let x = link_at s p;
         (near_port, near_load) = (if right then (l_node1_port x, l_rload x) else (l_node2_port x, l_lload x));
         (far_port, far_load) = (if right then (l_node2_port x, l_lload x) else (l_node1_port x, l_rload x))
     in if prev = Some source \<and> \<not> seen then Some (set_rport True l source near_port near_load s)
        else if far_end s p right = sink \<and> seen then map_option (\<lambda>m. set_rport False l m far_port far_load s) sink
        else Some s)"

text \<open>The loop over the found path. \<open>seen\<close> is \<^verbatim>\<open>source_seen\<close>; what is printed reads the first
  connection and both ends of each link.\<close>

fun take_path :: "lptr \<Rightarrow> nptr \<Rightarrow> nptr option \<Rightarrow> int \<Rightarrow> int \<Rightarrow> lptr list \<Rightarrow> nptr option \<Rightarrow> bool \<Rightarrow> store \<Rightarrow> store option" where
  "take_path l source sink rload lload [] prev seen s = Some s"
| "take_path l source sink rload lload (p # ps) prev seen s =
    (let right = (prev = l_node1 (link_at s p));
         s = load_link p right rload lload (note_link l p right s)
     in do {
       s \<leftarrow> set_ports l source sink prev seen p right s;
       if l_conns (link_at s p) = [] \<or> l_node1 (link_at s p) = None \<or> l_node2 (link_at s p) = None then None
       else take_path l source sink rload lload ps (far_end s p right) (seen \<or> prev = Some source) s })"

text \<open>A found path with links starts at a node.\<close>

definition enter_path :: "lptr \<Rightarrow> nptr option \<Rightarrow> nptr option \<Rightarrow> int \<Rightarrow> int \<Rightarrow> lptr list \<Rightarrow> store \<Rightarrow> store option" where
  "enter_path l source sink rload lload ps s = (case ps of [] \<Rightarrow> Some s
     | _ \<Rightarrow> do { n \<leftarrow> source; take_path l n sink rload lload ps source False s })"

text \<open>One link of \<^verbatim>\<open>map_edges\<close>.\<close>

definition map_edge :: "nptr \<Rightarrow> nptr \<Rightarrow> lptr \<Rightarrow> store \<Rightarrow> store option" where
  "map_edge unode rnode l s = (let u = link_at s l in
     if l_marked u then Some s
     else do {
       let right = (l_node1 u = Some unode);
       other \<leftarrow> end_marked s (if right then l_node2 u else l_node1 u);
       if \<not> other then Some s
       else do {
         m \<leftarrow> mapped_end s (if right then l_node2 u else l_node1 u);
         let (source, sink) = (if right then (Some rnode, m) else (m, Some rnode));
         x \<leftarrow> path_link s u source sink;
         let (p, s) = alloc_link x s;
         (c, s) \<leftarrow> find_cheapest_path l p [] s;
         if c < 0 then Some s
         else do {
           s \<leftarrow> enter_path l source sink (sint (l_rload u)) (sint (l_lload u)) (l_mapped_path (link_at s p)) s;
           Some (upd_link l (\<lambda>x. x\<lparr>l_marked := True\<rparr>) s) } } })"

fun map_edge_list :: "nptr \<Rightarrow> nptr \<Rightarrow> lptr list \<Rightarrow> store \<Rightarrow> store option" where
  "map_edge_list unode rnode [] s = Some s"
| "map_edge_list unode rnode (l # ls) s = do { s \<leftarrow> map_edge unode rnode l s; map_edge_list unode rnode ls s }"

definition map_edges :: "nptr \<Rightarrow> nptr \<Rightarrow> topology \<Rightarrow> store \<Rightarrow> store option" where
  "map_edges unode rnode base s =
     map_edge_list unode rnode (n_links (node_at s unode)) (initialize_base_potential_loads base s)"

section \<open>Loads and capacities\<close>

text \<open>The potential capacity is what the load leaves of the capacity.\<close>

definition balanced :: "link_resource \<Rightarrow> bool" where
  "balanced x \<longleftrightarrow> l_potential_rcap x = (if l_rload x < l_capacity x then l_capacity x - l_rload x else 0) \<and>
     l_potential_lcap x = (if l_lload x < l_capacity x then l_capacity x - l_lload x else 0)"

lemma balanced_init: "balanced (init_potential x)"
  by (simp add: balanced_def init_potential_def)

lemma load_sum:
  assumes "0 \<le> load" and "unat w + nat load < 2 ^ 32"
  shows "unat (w + of_int load :: u32) = unat w + nat load" "unat (of_int load :: u32) = nat load"
proof -
  have l: "(of_int load :: u32) = of_nat (nat load)" using assms(1) by simp
  have n: "nat load < 2 ^ LENGTH(32)" using assms(2) by simp
  show u: "unat (of_int load :: u32) = nat load" unfolding l by (rule unat_of_nat_small [OF n])
  show "unat (w + of_int load :: u32) = unat w + nat load"
    using assms(2) u by (subst unat_add_lem [THEN iffD1]) simp_all
qed

lemma take_load_value:
  assumes "0 \<le> load" and "unat w + nat load < 2 ^ 32"
  defines "new \<equiv> w + of_int load :: u32"
  shows "unat (if new > cap then cap else new) = min (unat w + nat load) (unat cap)"
  using load_sum [OF assms(1,2)] by (auto simp: new_def word_less_nat_alt min_def)

lemma take_right_load:
  assumes "0 \<le> load" and "unat (l_rload x) + nat load < 2 ^ 32"
  shows "unat (l_rload (take_right load x)) = min (unat (l_rload x) + nat load) (unat (l_capacity x))"
    "l_lload (take_right load x) = l_lload x" "l_capacity (take_right load x) = l_capacity x"
  using take_load_value [OF assms, of "l_capacity x"] by (auto simp: take_right_def Let_def split: if_splits)

lemma take_left_load:
  assumes "0 \<le> load" and "unat (l_lload x) + nat load < 2 ^ 32"
  shows "unat (l_lload (take_left load x)) = min (unat (l_lload x) + nat load) (unat (l_capacity x))"
    "l_rload (take_left load x) = l_rload x" "l_capacity (take_left load x) = l_capacity x"
  using take_load_value [OF assms, of "l_capacity x"] by (auto simp: take_left_def Let_def split: if_splits)

lemma balance_step:
  assumes "0 \<le> load" and "unat w + nat load < 2 ^ 32" and "pot = (if w < cap then cap - w else (0 :: u32))"
  defines "new \<equiv> w + of_int load"
  shows "new \<le> cap \<Longrightarrow> pot - of_int load = (if new < cap then cap - new else 0)"
proof -
  assume le: "new \<le> cap"
  have "unat w + nat load \<le> unat cap" using le load_sum [OF assms(1,2)] by (simp add: new_def word_le_nat_alt)
  then have "w \<le> cap" by (simp add: word_le_nat_alt)
  then have "pot = cap - w" using assms(3) by auto
  then have "pot - of_int load = cap - new" by (simp add: new_def)
  then show ?thesis using le by auto
qed

lemma balanced_take_right:
  assumes "balanced x" and "0 \<le> load" and "unat (l_rload x) + nat load < 2 ^ 32"
  shows "balanced (take_right load x)"
  using assms(1) balance_step [OF assms(2,3) assms(1) [unfolded balanced_def, THEN conjunct1]]
  by (auto simp: balanced_def take_right_def Let_def)

lemma balanced_take_left:
  assumes "balanced x" and "0 \<le> load" and "unat (l_lload x) + nat load < 2 ^ 32"
  shows "balanced (take_left load x)"
  using assms(1) balance_step [OF assms(2,3) assms(1) [unfolded balanced_def, THEN conjunct2]]
  by (auto simp: balanced_def take_left_def Let_def)

section \<open>What mapping leaves unchanged\<close>

text \<open>The graph stays, and so do the marks and mapped paths of all links but \<open>l\<close>; new objects may appear.\<close>

definition graph_frame :: "lptr \<Rightarrow> store \<Rightarrow> store \<Rightarrow> bool" where
  "graph_frame l s s' \<longleftrightarrow> link_count s \<le> link_count s' \<and>
     (\<forall>n. n_links (node_at s' n) = n_links (node_at s n) \<and> n_marked (node_at s' n) = n_marked (node_at s n) \<and>
        n_mapped_node (node_at s' n) = n_mapped_node (node_at s n)) \<and>
     (\<forall>k < link_count s. let x = link_at s k; x' = link_at s' k in
        l_node1 x' = l_node1 x \<and> l_node2 x' = l_node2 x \<and> l_conns x' = l_conns x \<and> l_cost x' = l_cost x \<and>
        (k \<noteq> l \<longrightarrow> l_marked x' = l_marked x \<and> l_mapped_path x' = l_mapped_path x \<and> l_mp_linkdir x' = l_mp_linkdir x))"

lemma graph_frame_refl [simp]: "graph_frame l s s"
  by (simp add: graph_frame_def)

lemma graph_frame_trans: "graph_frame l s s' \<Longrightarrow> graph_frame l s' s'' \<Longrightarrow> graph_frame l s s''"
  unfolding graph_frame_def Let_def by (auto dest: order.strict_trans2)

lemma graph_frame_upd:
  assumes "\<And>x. l_node1 (f x) = l_node1 x \<and> l_node2 (f x) = l_node2 x \<and> l_conns (f x) = l_conns x \<and> l_cost (f x) = l_cost x"
    and "k \<noteq> l \<Longrightarrow> (\<And>x. l_marked (f x) = l_marked x \<and> l_mapped_path (f x) = l_mapped_path x \<and>
      l_mp_linkdir (f x) = l_mp_linkdir x)"
  shows "graph_frame l s (upd_link k f s)"
  using assms by (auto simp: graph_frame_def)

lemma graph_frame_charge: "graph_frame l s (charge_port n port load s)"
  by (auto simp: graph_frame_def charge_port_def)

text \<open>Following a path with the recorded directions: 1 is from the first end to the second.\<close>

fun follow :: "store \<Rightarrow> nptr \<Rightarrow> lptr list \<Rightarrow> int list \<Rightarrow> nptr \<Rightarrow> bool" where
  "follow s a [] [] b \<longleftrightarrow> a = b"
| "follow s a (p # ps) (d # ds) b \<longleftrightarrow> d \<in> {0, 1} \<and>
     (if d = 1 then l_node1 (link_at s p) = Some a \<and> (\<exists>m. l_node2 (link_at s p) = Some m \<and> follow s m ps ds b)
      else l_node2 (link_at s p) = Some a \<and> (\<exists>m. l_node1 (link_at s p) = Some m \<and> follow s m ps ds b))"
| "follow s a _ _ b \<longleftrightarrow> False"

lemma follow_length: "follow s a ps ds b \<Longrightarrow> length ds = length ps"
  by (induction s a ps ds b rule: follow.induct) (auto split: if_splits)

lemma follow_cong:
  "\<forall>p \<in> set ps. l_node1 (link_at s' p) = l_node1 (link_at s p) \<and> l_node2 (link_at s' p) = l_node2 (link_at s p) \<Longrightarrow>
    follow s' a ps ds b = follow s a ps ds b"
  by (induction s a ps ds b rule: follow.induct) auto

text \<open>Links that lead from \<open>a\<close> to \<open>b\<close>, in whatever direction each is read.\<close>

fun chain :: "store \<Rightarrow> nptr \<Rightarrow> lptr list \<Rightarrow> nptr \<Rightarrow> bool" where
  "chain s a [] b \<longleftrightarrow> a = b"
| "chain s a (p # ps) b \<longleftrightarrow> (\<exists>m. (l_node1 (link_at s p) = Some a \<and> l_node2 (link_at s p) = Some m \<or>
     l_node2 (link_at s p) = Some a \<and> l_node1 (link_at s p) = Some m) \<and> chain s m ps b)"

lemma trip_chain: "trip s rload lload a ls b \<Longrightarrow> chain s a ls b"
proof (induction ls arbitrary: a)
  case (Cons l ls)
  then obtain m where m: "crosses s rload lload a l m" "chain s m ls b" by auto
  then show ?case unfolding chain.simps crosses_def by metis
qed simp

lemma chain_cong:
  "\<forall>p \<in> set ps. l_node1 (link_at s' p) = l_node1 (link_at s p) \<and> l_node2 (link_at s' p) = l_node2 (link_at s p) \<Longrightarrow>
    chain s' a ps b = chain s a ps b"
  by (induction ps arbitrary: a) auto

lemma take_right_keeps [simp]:
  "l_node1 (take_right w x) = l_node1 x" "l_node2 (take_right w x) = l_node2 x" "l_conns (take_right w x) = l_conns x"
  "l_cost (take_right w x) = l_cost x" "l_marked (take_right w x) = l_marked x"
  "l_mapped_path (take_right w x) = l_mapped_path x" "l_mp_linkdir (take_right w x) = l_mp_linkdir x"
  by (simp_all add: take_right_def Let_def)

lemma take_left_keeps [simp]:
  "l_node1 (take_left w x) = l_node1 x" "l_node2 (take_left w x) = l_node2 x" "l_conns (take_left w x) = l_conns x"
  "l_cost (take_left w x) = l_cost x" "l_marked (take_left w x) = l_marked x"
  "l_mapped_path (take_left w x) = l_mapped_path x" "l_mp_linkdir (take_left w x) = l_mp_linkdir x"
  by (simp_all add: take_left_def Let_def)

lemma frame_steps:
  "graph_frame l s (note_link l p right s)" "graph_frame l s (load_link p right rload lload s)"
  "graph_frame l s (set_rport b l n port load s)"
proof -
  show "graph_frame l s (note_link l p right s)"
    unfolding note_link_def by (rule graph_frame_trans; rule graph_frame_upd) auto
  show "graph_frame l s (load_link p right rload lload s)"
    unfolding load_link_def by (rule graph_frame_upd) auto
  show "graph_frame l s (set_rport b l n port load s)"
    unfolding set_rport_def by (rule graph_frame_trans [OF graph_frame_upd graph_frame_charge]) auto
qed

lemma link_steps:
  "l_mapped_path (link_at (note_link l p right s) l) = l_mapped_path (link_at s l) @ [p]"
  "l_mp_linkdir (link_at (note_link l p right s) l) = l_mp_linkdir (link_at s l) @ [if right then 1 else 0]"
  "k \<noteq> l \<Longrightarrow> link_at (note_link l p right s) k = link_at s k"
  "k \<noteq> p \<Longrightarrow> link_at (load_link p right rload lload s) k = link_at s k"
  "l_mapped_path (link_at (set_rport b l n port load s) k) = l_mapped_path (link_at s k)"
  "l_mp_linkdir (link_at (set_rport b l n port load s) k) = l_mp_linkdir (link_at s k)"
  "k \<noteq> l \<Longrightarrow> link_at (set_rport b l n port load s) k = link_at s k"
  by (auto simp: note_link_def load_link_def set_rport_def charge_port_def)

lemma link_ends_steps:
  "l_node1 (link_at (load_link p right rload lload s) k) = l_node1 (link_at s k)"
  "l_node2 (link_at (load_link p right rload lload s) k) = l_node2 (link_at s k)"
  "l_conns (link_at (load_link p right rload lload s) k) = l_conns (link_at s k)"
  by (auto simp: load_link_def)

lemma set_ports_spec:
  assumes "p \<noteq> l"
  shows "\<exists>s'. set_ports l source (Some b) prev seen p right s = Some s' \<and> graph_frame l s s' \<and>
    link_at s' p = link_at s p \<and> l_mapped_path (link_at s' l) = l_mapped_path (link_at s l) \<and>
    l_mp_linkdir (link_at s' l) = l_mp_linkdir (link_at s l)"
  using assms by (auto simp: set_ports_def Let_def frame_steps link_steps split: prod.splits)

lemma take_path_step:
  assumes pl: "p \<noteq> l" and join: "l_node1 (link_at s p) = Some a \<and> l_node2 (link_at s p) = Some m \<or>
      l_node2 (link_at s p) = Some a \<and> l_node1 (link_at s p) = Some m"
    and conns: "l_conns (link_at s p) \<noteq> []"
  defines "right \<equiv> l_node1 (link_at s p) = Some a"
  shows "\<exists>s1 seen1. take_path l source (Some b) rload lload (p # ps) (Some a) seen s =
      take_path l source (Some b) rload lload ps (Some m) seen1 s1 \<and> graph_frame l s s1 \<and>
      l_mapped_path (link_at s1 l) = l_mapped_path (link_at s l) @ [p] \<and>
      l_mp_linkdir (link_at s1 l) = l_mp_linkdir (link_at s l) @ [if right then 1 else 0]"
proof -
  let ?s = "load_link p right rload lload (note_link l p right s)"
  have ends: "l_node1 (link_at ?s p) = l_node1 (link_at s p)" "l_node2 (link_at ?s p) = l_node2 (link_at s p)"
    "l_conns (link_at ?s p) = l_conns (link_at s p)"
    using pl by (simp_all add: link_ends_steps link_steps(3))
  have right: "(Some a = l_node1 (link_at s p)) = right" by (auto simp: right_def)
  have old: "graph_frame l s ?s" "l_mapped_path (link_at ?s l) = l_mapped_path (link_at s l) @ [p]"
    "l_mp_linkdir (link_at ?s l) = l_mp_linkdir (link_at s l) @ [if right then 1 else 0]"
    using pl by (auto intro: graph_frame_trans frame_steps simp: link_steps)
  from set_ports_spec [OF pl, of source b "Some a" seen right ?s] obtain s1 where
    s1: "set_ports l source (Some b) (Some a) seen p right ?s = Some s1" "graph_frame l ?s s1"
      "link_at s1 p = link_at ?s p" "l_mapped_path (link_at s1 l) = l_mapped_path (link_at ?s l)"
      "l_mp_linkdir (link_at s1 l) = l_mp_linkdir (link_at ?s l)" by blast
  have "far_end s1 p right = Some m" using join s1(3) ends by (auto simp: far_end_def right_def)
  then have "take_path l source (Some b) rload lload (p # ps) (Some a) seen s =
      take_path l source (Some b) rload lload ps (Some m) (seen \<or> Some a = Some source) s1"
    using s1(1,3) ends conns join by (auto simp: right Let_def)
  with s1 old graph_frame_trans [OF old(1) s1(2)] show ?thesis by metis
qed

lemma graph_frameD:
  assumes "graph_frame l s s'"
  shows "link_count s \<le> link_count s'"
    and "n_links (node_at s' n) = n_links (node_at s n)" and "n_marked (node_at s' n) = n_marked (node_at s n)"
    and "n_mapped_node (node_at s' n) = n_mapped_node (node_at s n)"
    and "k < link_count s \<Longrightarrow> l_node1 (link_at s' k) = l_node1 (link_at s k)"
    and "k < link_count s \<Longrightarrow> l_node2 (link_at s' k) = l_node2 (link_at s k)"
    and "k < link_count s \<Longrightarrow> l_conns (link_at s' k) = l_conns (link_at s k)"
    and "k < link_count s \<Longrightarrow> l_cost (link_at s' k) = l_cost (link_at s k)"
    and "k < link_count s \<Longrightarrow> k \<noteq> l \<Longrightarrow> l_marked (link_at s' k) = l_marked (link_at s k)"
    and "k < link_count s \<Longrightarrow> k \<noteq> l \<Longrightarrow> l_mapped_path (link_at s' k) = l_mapped_path (link_at s k)"
    and "k < link_count s \<Longrightarrow> k \<noteq> l \<Longrightarrow> l_mp_linkdir (link_at s' k) = l_mp_linkdir (link_at s k)"
  using assms by (auto simp: graph_frame_def Let_def)

lemma take_path_follows:
  assumes "chain s a ps b" and "l \<notin> set ps" and "\<forall>p \<in> set ps. p < link_count s \<and> l_conns (link_at s p) \<noteq> []"
  shows "\<exists>s' ds. take_path l source (Some b) rload lload ps (Some a) seen s = Some s' \<and> graph_frame l s s' \<and>
    l_mapped_path (link_at s' l) = l_mapped_path (link_at s l) @ ps \<and>
    l_mp_linkdir (link_at s' l) = l_mp_linkdir (link_at s l) @ ds \<and> follow s a ps ds b"
  using assms
proof (induction ps arbitrary: a s seen)
  case (Cons p ps)
  then obtain m where m: "l_node1 (link_at s p) = Some a \<and> l_node2 (link_at s p) = Some m \<or>
      l_node2 (link_at s p) = Some a \<and> l_node1 (link_at s p) = Some m" "chain s m ps b" by auto
  let ?d = "if l_node1 (link_at s p) = Some a then 1 else 0 :: int"
  from take_path_step [OF _ m(1), of l source b rload lload ps seen] Cons.prems obtain s1 seen1 where
    1: "take_path l source (Some b) rload lload (p # ps) (Some a) seen s =
        take_path l source (Some b) rload lload ps (Some m) seen1 s1" "graph_frame l s s1"
      "l_mapped_path (link_at s1 l) = l_mapped_path (link_at s l) @ [p]"
      "l_mp_linkdir (link_at s1 l) = l_mp_linkdir (link_at s l) @ [?d]" by auto
  have same: "\<forall>k \<in> set ps. l_node1 (link_at s1 k) = l_node1 (link_at s k) \<and> l_node2 (link_at s1 k) = l_node2 (link_at s k)"
    using graph_frameD(5,6) [OF 1(2)] Cons.prems(3) by simp
  have "chain s1 m ps b" using chain_cong [OF same] m(2) by simp
  moreover have "\<forall>k \<in> set ps. k < link_count s1 \<and> l_conns (link_at s1 k) \<noteq> []"
    using graph_frameD(1,7) [OF 1(2)] Cons.prems(3) by fastforce
  ultimately obtain s' ds where 2: "take_path l source (Some b) rload lload ps (Some m) seen1 s1 = Some s'"
    "graph_frame l s1 s'" "l_mapped_path (link_at s' l) = l_mapped_path (link_at s1 l) @ ps"
    "l_mp_linkdir (link_at s' l) = l_mp_linkdir (link_at s1 l) @ ds" "follow s1 m ps ds b"
    using Cons.IH [of s1 m seen1] Cons.prems(2) by auto
  have "follow s m ps ds b" using 2(5) follow_cong [OF same] by simp
  then have "follow s a (p # ps) (?d # ds) b" using m(1) by auto
  moreover have "take_path l source (Some b) rload lload (p # ps) (Some a) seen s = Some s'" using 1(1) 2(1) by simp
  moreover have "l_mapped_path (link_at s' l) = l_mapped_path (link_at s l) @ p # ps" using 1(3) 2(3) by simp
  moreover have "l_mp_linkdir (link_at s' l) = l_mp_linkdir (link_at s l) @ ?d # ds" using 1(4) 2(4) by simp
  ultimately show ?case using graph_frame_trans [OF 1(2) 2(2)] by blast
qed (auto intro!: exI [of _ "[]"])

lemma take_path_count:
  "take_path l source sink rload lload ps prev seen s = Some s' \<Longrightarrow> link_count s' = link_count s"
proof (induction ps arbitrary: prev seen s)
  case (Cons p ps)
  have c: "link_count (note_link l p right s) = link_count s" "link_count (load_link p right rload lload s) = link_count s"
    "link_count (set_rport b l n port load s) = link_count s" for right b n port load s
    by (simp_all add: note_link_def load_link_def set_rport_def charge_port_def)
  have "link_count s2 = link_count s1" if "set_ports l source sink prev seen p right s1 = Some s2" for right s1 s2
    using that by (auto simp: set_ports_def c Let_def split: if_splits)
  then show ?case using Cons by (auto simp: Let_def c bind_eq_Some_conv split: if_splits)
qed simp

section \<open>Mapping one link\<close>

text \<open>What \<^verbatim>\<open>map_edges\<close> relies on. \<open>M\<close> are the nodes of the experiment, \<open>N\<close> those of the testbed.\<close>

definition mapping_ok :: "store \<Rightarrow> nptr set \<Rightarrow> nptr set \<Rightarrow> bool" where
  "mapping_ok s M N \<longleftrightarrow> link_closed s M \<and> link_closed s N \<and> M \<inter> N = {} \<and> paths_known s \<and>
     (\<forall>n \<in> M \<union> N. \<forall>l \<in> set (links_at s n). l < link_count s) \<and>
     (\<forall>n \<in> M. \<forall>l \<in> set (links_at s n). 0 \<le> l_cost (link_at s l)) \<and>
     (\<forall>n \<in> N. \<forall>l \<in> set (links_at s n). l_conns (link_at s l) \<noteq> []) \<and>
     (\<forall>n \<in> M. n_marked (node_at s n) \<longrightarrow> (\<exists>m \<in> N. n_mapped_node (node_at s n) = Some m))"

lemma mapping_okD:
  assumes "mapping_ok s M N"
  shows "link_closed s M" "link_closed s N" "M \<inter> N = {}" "paths_known s"
    and "n \<in> M \<union> N \<Longrightarrow> l \<in> set (links_at s n) \<Longrightarrow> l < link_count s"
    and "n \<in> M \<Longrightarrow> l \<in> set (links_at s n) \<Longrightarrow> 0 \<le> l_cost (link_at s l)"
    and "n \<in> N \<Longrightarrow> l \<in> set (links_at s n) \<Longrightarrow> l_conns (link_at s l) \<noteq> []"
    and "n \<in> M \<Longrightarrow> n_marked (node_at s n) \<Longrightarrow> \<exists>m \<in> N. n_mapped_node (node_at s n) = Some m"
  using assms unfolding mapping_ok_def by blast+

text \<open>A link of the experiment is no link of the testbed.\<close>

lemma links_apart:
  assumes "mapping_ok s M N" and "n \<in> M" and "l \<in> set (links_at s n)" and "m \<in> N" and "p \<in> set (links_at s m)"
  shows "p \<noteq> l"
  using link_closedD [OF mapping_okD(1) [OF assms(1)] assms(2,3)] link_closedD [OF mapping_okD(2) [OF assms(1)] assms(4,5)]
    mapping_okD(3) [OF assms(1)] by (metis IntI empty_iff option.inject)

lemma mapping_ok_frame:
  assumes ok: "mapping_ok s M N" and f: "graph_frame l s s'" and known: "paths_known s'"
  shows "mapping_ok s' M N"
proof -
  have lt: "k < link_count s" if "n \<in> M \<union> N" "k \<in> set (links_at s n)" for n k using mapping_okD(5) [OF ok that] .
  have closed: "link_closed s' P" if "link_closed s P" "P \<subseteq> M \<union> N" for P
    unfolding link_closed_def
  proof (intro conjI ballI)
    show "finite P" using that by (simp add: link_closed_def)
    fix n k assume n: "n \<in> P" and k: "k \<in> set (links_at s' n)"
    then have k': "k \<in> set (links_at s n)" using graph_frameD(2) [OF f] by simp
    then have "k < link_count s" using lt that n by blast
    then show "\<exists>a\<in>P. \<exists>b\<in>P. l_node1 (link_at s' k) = Some a \<and> l_node2 (link_at s' k) = Some b"
      using link_closedD [OF that(1) n k'] graph_frameD(5,6) [OF f] by metis
  qed
  have "k < link_count s'" if "n \<in> M \<union> N" "k \<in> set (links_at s' n)" for n k
    using lt [OF that(1)] that(2) graph_frameD(1,2) [OF f] by fastforce
  moreover have "0 \<le> l_cost (link_at s' k)" if "n \<in> M" "k \<in> set (links_at s' n)" for n k
    using mapping_okD(6) [OF ok that(1), of k] lt [of n k] that graph_frameD(2) [OF f, of n] graph_frameD(8) [OF f, of k] by simp
  moreover have "l_conns (link_at s' k) \<noteq> []" if "n \<in> N" "k \<in> set (links_at s' n)" for n k
    using mapping_okD(7) [OF ok that(1), of k] lt [of n k] that graph_frameD(2) [OF f, of n] graph_frameD(7) [OF f, of k] by simp
  ultimately show ?thesis
    using closed [OF mapping_okD(1) [OF ok]] closed [OF mapping_okD(2) [OF ok]] mapping_okD(3,8) [OF ok] known
      graph_frameD(3,4) [OF f] unfolding mapping_ok_def by auto
qed

lemma crosses_ends:
  assumes "crosses s rload lload a l b"
  shows "l \<in> set (links_at s a)" and "l_node1 (link_at s l) = Some a \<and> l_node2 (link_at s l) = Some b \<or>
    l_node2 (link_at s l) = Some a \<and> l_node1 (link_at s l) = Some b"
proof -
  from assms obtain right where "if right then l_node1 (link_at s l) = Some a \<and> l_node2 (link_at s l) = Some b
      else l_node2 (link_at s l) = Some a \<and> l_node1 (link_at s l) = Some b" unfolding crosses_def by blast
  then show "l_node1 (link_at s l) = Some a \<and> l_node2 (link_at s l) = Some b \<or>
    l_node2 (link_at s l) = Some a \<and> l_node1 (link_at s l) = Some b" by (cases right) simp_all
  show "l \<in> set (links_at s a)" using assms unfolding crosses_def by blast
qed

lemma crosses_closed:
  assumes "link_closed s N" and "a \<in> N" and "crosses s rload lload a l m"
  shows "m \<in> N"
proof -
  from link_closedD [OF assms(1,2) crosses_ends(1) [OF assms(3)]] obtain c d where
    "c \<in> N" "d \<in> N" "l_node1 (link_at s l) = Some c" "l_node2 (link_at s l) = Some d" .
  then show ?thesis using crosses_ends(2) [OF assms(3)] by auto
qed

lemma trip_in:
  assumes "link_closed s N" and "a \<in> N" and "trip s rload lload a ls b"
  shows "b \<in> N \<and> (\<forall>p \<in> set ls. \<exists>n \<in> N. p \<in> set (links_at s n))"
  using assms(2,3)
proof (induction ls arbitrary: a)
  case (Cons l ls)
  then obtain m where m: "crosses s rload lload a l m" "trip s rload lload m ls b" by auto
  from Cons.IH [OF crosses_closed [OF assms(1) Cons.prems(1) m(1)] m(2)] crosses_ends(1) [OF m(1)] Cons.prems(1)
  show ?case by auto
qed simp

lemma trip_cong:
  assumes "trip s' rload lload a ls b" and "a \<in> N" and "link_closed s N"
    and nodes: "\<And>n. node_at s' n = node_at s n"
    and links: "\<And>n l. n \<in> N \<Longrightarrow> l \<in> set (links_at s n) \<Longrightarrow> link_at s' l = link_at s l"
  shows "trip s rload lload a ls b"
  using assms(1,2)
proof (induction ls arbitrary: a)
  case (Cons l ls)
  then obtain m where m: "crosses s' rload lload a l m" "ls \<noteq> [] \<longrightarrow> is_infrastructure s' m" "trip s' rload lload m ls b"
    by auto
  have l: "l \<in> set (links_at s a)" using crosses_ends(1) [OF m(1)] by (simp add: nodes)
  have same: "link_at s' l = link_at s l" by (rule links [OF Cons.prems(2) l])
  have c: "crosses s rload lload a l m"
    using m(1) unfolding crosses_def caps_def interswitch_def is_infrastructure_def nodes same .
  have "trip s rload lload m ls b" by (rule Cons.IH [OF m(3) crosses_closed [OF assms(3) Cons.prems(2) c]])
  then show ?case using c m(2) by (auto simp: is_infrastructure_def nodes)
qed simp

lemma paths_known_frame:
  assumes "paths_known s" and f: "graph_frame l s s'" and count: "link_count s' = link_count s"
    and path: "\<forall>p \<in> set (l_mapped_path (link_at s' l)). p < link_count s \<and>
      l_node1 (link_at s p) \<noteq> None \<and> l_node2 (link_at s p) \<noteq> None"
  shows "paths_known s'"
proof -
  have "p < link_count s \<and> l_node1 (link_at s p) \<noteq> None \<and> l_node2 (link_at s p) \<noteq> None"
    if "k < link_count s" "p \<in> set (l_mapped_path (link_at s' k))" for k p
  proof (cases "k = l")
    case False
    then have "l_mapped_path (link_at s' k) = l_mapped_path (link_at s k)" using graph_frameD(10) [OF f that(1)] by simp
    then show ?thesis using assms(1) that by (auto simp: paths_known_def ends_known_def)
  qed (use path that in simp)
  then show ?thesis using graph_frameD(5,6) [OF f] unfolding paths_known_def ends_known_def count by metis
qed

lemma alloc_link_frame: "graph_frame l s (snd (alloc_link x s))"
  by (auto simp: graph_frame_def)

text \<open>The outcome for one link: nothing but a new object, or the link is marked and has a path from the
  mapped node of its first end to that of its second, with one direction for each link of the path.\<close>

definition edge_ends :: "store \<Rightarrow> nptr \<Rightarrow> nptr \<Rightarrow> lptr \<Rightarrow> (nptr \<times> nptr) option" where
  "edge_ends s unode rnode l = (if l_node1 (link_at s l) = Some unode
     then map_option (Pair rnode) (Option.bind (l_node2 (link_at s l)) (\<lambda>n. n_mapped_node (node_at s n)))
     else map_option (\<lambda>m. (m, rnode)) (Option.bind (l_node1 (link_at s l)) (\<lambda>n. n_mapped_node (node_at s n))))"

definition edge_mapped :: "store \<Rightarrow> nptr set \<Rightarrow> nptr \<Rightarrow> nptr \<Rightarrow> lptr \<Rightarrow> store \<Rightarrow> bool" where
  "edge_mapped s N unode rnode l s' \<longleftrightarrow> (\<exists>source sink ls ds. edge_ends s unode rnode l = Some (source, sink) \<and>
     source \<in> N \<and>
     l_mapped_path (link_at s' l) = l_mapped_path (link_at s l) @ ls \<and>
     l_mp_linkdir (link_at s' l) = l_mp_linkdir (link_at s l) @ ds \<and> follow s source ls ds sink \<and>
     trip s (cap_load (l_rload (link_at s l))) (cap_load (l_lload (link_at s l))) source ls sink)"

text \<open>A found path is entered in the user's link.\<close>

lemma take_found_path:
  assumes ok: "mapping_ok s M N" and l: "n \<in> M" "l \<in> set (links_at s n)" and source: "source \<in> N"
    and trip: "trip s rl ll source ls sink"
    and f: "graph_frame l s s2" "paths_known s2"
      "l_mapped_path (link_at s2 l) = l_mapped_path (link_at s l)" "l_mp_linkdir (link_at s2 l) = l_mp_linkdir (link_at s l)"
  shows "\<exists>s' ds. take_path l source (Some sink) rload lload ls (Some source) False s2 = Some s' \<and>
    graph_frame l s s' \<and> link_count s' = link_count s2 \<and> paths_known s' \<and>
    l_mapped_path (link_at s' l) = l_mapped_path (link_at s l) @ ls \<and>
    l_mp_linkdir (link_at s' l) = l_mp_linkdir (link_at s l) @ ds \<and> follow s source ls ds sink"
proof -
  note closed = mapping_okD(2) [OF ok]
  have in_N: "\<exists>m \<in> N. p \<in> set (links_at s m)" if "p \<in> set ls" for p using trip_in [OF closed source trip] that by blast
  have ls: "p < link_count s" "p \<noteq> l" "l_conns (link_at s p) \<noteq> []"
      "l_node1 (link_at s p) \<noteq> None" "l_node2 (link_at s p) \<noteq> None" if p: "p \<in> set ls" for p
  proof -
    obtain m where m: "m \<in> N" "p \<in> set (links_at s m)" using in_N [OF p] by blast
    show "p < link_count s" using mapping_okD(5) [OF ok _ m(2)] m(1) by blast
    show "p \<noteq> l" by (rule links_apart [OF ok l m])
    show "l_conns (link_at s p) \<noteq> []" by (rule mapping_okD(7) [OF ok m])
    show "l_node1 (link_at s p) \<noteq> None" "l_node2 (link_at s p) \<noteq> None"
      using link_closedD [OF closed m] by fastforce+
  qed
  have same: "\<forall>p \<in> set ls. l_node1 (link_at s2 p) = l_node1 (link_at s p) \<and> l_node2 (link_at s2 p) = l_node2 (link_at s p)"
    using ls(1) graph_frameD(5,6) [OF f(1)] by blast
  have "chain s2 source ls sink" using chain_cong [OF same] trip_chain [OF trip] by simp
  moreover have "\<forall>p \<in> set ls. p < link_count s2 \<and> l_conns (link_at s2 p) \<noteq> []"
    using ls(1,3) graph_frameD(1,7) [OF f(1)] by fastforce
  moreover have "l \<notin> set ls" using ls(2) by blast
  ultimately obtain s' ds where t: "take_path l source (Some sink) rload lload ls (Some source) False s2 = Some s'"
    "graph_frame l s2 s'" "l_mapped_path (link_at s' l) = l_mapped_path (link_at s2 l) @ ls"
    "l_mp_linkdir (link_at s' l) = l_mp_linkdir (link_at s2 l) @ ds" "follow s2 source ls ds sink"
    using take_path_follows by blast
  have count: "link_count s' = link_count s2" using take_path_count [OF t(1)] .
  have "l < link_count s" using mapping_okD(5) [OF ok _ l(2)] l(1) by blast
  then have old: "\<forall>p \<in> set (l_mapped_path (link_at s l)). p < link_count s \<and> l_node1 (link_at s p) \<noteq> None \<and> l_node2 (link_at s p) \<noteq> None"
    using mapping_okD(4) [OF ok] by (auto simp: paths_known_def ends_known_def)
  have "paths_known s'"
    by (rule paths_known_frame [OF f(2) t(2) count])
      (use t(3) f(3) old ls graph_frameD(1,5,6) [OF f(1)] in \<open>auto dest: less_le_trans\<close>)
  then show ?thesis using t f(3,4) count graph_frame_trans [OF f(1) t(2)] follow_cong [OF same] by auto
qed

lemma find_path_frame:
  assumes "path_result s1 u p source sink q c s2" and "p = link_count s" and "s1 = snd (alloc_link x s)"
    and "l_mapped_path x = []" and ok: "mapping_ok s M N" and source: "source \<in> N" and l: "l < link_count s"
  shows "graph_frame l s s2 \<and> paths_known s2 \<and> link_at s2 l = link_at s l \<and>
    (0 \<le> c \<longrightarrow> trip s (cap_load (l_rload u)) (cap_load (l_lload u)) source (l_mapped_path (link_at s2 p)) sink)"
proof -
  have ok1: "paths_known s1"
    using mapping_okD(4) [OF ok] assms(3,4)
    by (auto simp: paths_known_def ends_known_def less_Suc_eq)
  have frame1: "graph_frame l s s1" using alloc_link_frame assms(3) by simp
  have at_l: "link_at s1 l = link_at s l" using assms(3) l by simp
  from assms(1) consider "c = -1" "s2 = s1" | ls where "0 \<le> c"
      "s2 = upd_link p (\<lambda>x. x\<lparr>l_cost := c, l_mapped_path := l_mapped_path x @ ls\<rparr>) s1"
      "trip s1 (cap_load (l_rload u)) (cap_load (l_lload u)) source ls sink"
    by (auto simp: path_result_def)
  then show ?thesis
  proof cases
    case 1
    then show ?thesis using ok1 frame1 at_l by simp
  next
    case (2 ls)
    note closed = mapping_okD(2) [OF ok]
    have trip: "trip s (cap_load (l_rload u)) (cap_load (l_lload u)) source ls sink"
    proof (rule trip_cong [OF 2(3) source closed])
      show "node_at s1 n = node_at s n" for n using assms(3) by simp
      show "link_at s1 k = link_at s k" if "n \<in> N" "k \<in> set (links_at s n)" for n k
        using mapping_okD(5) [OF ok _ that(2)] that(1) assms(3) by simp
    qed
    have ls: "k < link_count s \<and> l_node1 (link_at s k) \<noteq> None \<and> l_node2 (link_at s k) \<noteq> None" if k: "k \<in> set ls" for k
    proof -
      obtain m where m: "m \<in> N" "k \<in> set (links_at s m)" using trip_in [OF closed source trip] k by blast
      show ?thesis using mapping_okD(5) [OF ok _ m(2)] m(1) link_closedD [OF closed m] by blast
    qed
    have path: "l_mapped_path (link_at s2 p) = ls" using 2(2) assms(2-4) by simp
    have "graph_frame l s s2" using frame1 assms(2) by (auto simp: graph_frame_def 2(2) Let_def)
    moreover have "paths_known s2"
      unfolding paths_known_def ends_known_def
    proof (intro allI impI conjI ballI)
      fix k e assume k: "k < link_count s2" "e \<in> set (l_mapped_path (link_at s2 k))"
      have "e < link_count s1 \<and> l_node1 (link_at s1 e) \<noteq> None \<and> l_node2 (link_at s1 e) \<noteq> None"
      proof (cases "k = p")
        case True
        then show ?thesis using k(2) path ls [of e] assms(3) by simp
      next
        case False
        then show ?thesis using k ok1 2(2) by (auto simp: paths_known_def ends_known_def)
      qed
      then show "e < link_count s2" "l_node1 (link_at s2 e) \<noteq> None" "l_node2 (link_at s2 e) \<noteq> None"
        using 2(2) by auto
    qed
    moreover have "link_at s2 l = link_at s l" using 2(2) at_l l assms(2) by simp
    ultimately show ?thesis using trip path by simp
  qed
qed

lemma map_edge_result:
  assumes ok: "mapping_ok s M N" and u: "unode \<in> M" "l \<in> set (links_at s unode)" and r: "rnode \<in> N"
  shows "\<exists>s'. map_edge unode rnode l s = Some s' \<and> graph_frame l s s' \<and> mapping_ok s' M N \<and>
    (if l_marked (link_at s' l) then l_marked (link_at s l) \<or> edge_mapped s N unode rnode l s'
     else link_at s' l = link_at s l)"
proof -
  let ?u = "link_at s l"
  obtain a b where ab: "a \<in> M" "b \<in> M" "l_node1 ?u = Some a" "l_node2 ?u = Some b"
    by (rule link_closedD [OF mapping_okD(1) [OF ok] u])
  have count: "l < link_count s" using mapping_okD(5) [OF ok _ u(2)] u(1) by blast
  have stay: ?thesis if "map_edge unode rnode l s = Some s" "\<not> l_marked ?u \<or> l_marked ?u" using that ok
    by (intro exI [of _ s]) auto
  let ?o = "if a = unode then b else a"
  show ?thesis
  proof (cases "l_marked ?u \<or> \<not> n_marked (node_at s ?o)")
    case True
    have "map_edge unode rnode l s = Some s" using True ab
      by (cases "l_marked ?u"; cases "a = unode") (simp_all add: map_edge_def Let_def end_marked_def)
    moreover have "l_marked ?u \<longrightarrow> l_marked ?u \<or> edge_mapped s N unode rnode l s" by simp
    ultimately show ?thesis using ok by (intro exI [of _ s]) simp
  next
    case False
    obtain m where m: "m \<in> N" "n_mapped_node (node_at s ?o) = Some m"
    proof -
      have "?o \<in> M" using ab by simp
      from mapping_okD(8) [OF ok this] False that show ?thesis by blast
    qed
    define source sink where "source = (if a = unode then rnode else m)" and "sink = (if a = unode then m else rnode)"
    have N: "source \<in> N" using m(1) r by (simp add: source_def)
    have ends: "edge_ends s unode rnode l = Some (source, sink)"
      using ab m by (auto simp: edge_ends_def source_def sink_def)
    let ?x = "new_link\<lparr>l_node1 := Some source, l_node1_port := path_port s a (l_node1_port ?u),
       l_node2 := Some sink, l_node2_port := path_port s b (l_node2_port ?u)\<rparr>"
    let ?s1 = "snd (alloc_link ?x s)" and ?p = "link_count s"
    have at: "link_at ?s1 ?p = ?x" "link_at ?s1 l = ?u" using count by simp_all
    have known: "paths_known ?s1"
      using mapping_okD(4) [OF ok] by (auto simp: paths_known_def ends_known_def less_Suc_eq new_link_def)
    have ok1: "mapping_ok ?s1 M N" by (rule mapping_ok_frame [OF ok alloc_link_frame known])
    have lt: "\<forall>n \<in> M. \<forall>k \<in> set (links_at ?s1 n). k < link_count ?s1"
      using mapping_okD(5) [OF ok1] by blast
    have cost: "0 \<le> l_cost (link_at ?s1 l)" using mapping_okD(6) [OF ok u] at by simp
    have e: "l_node1 (link_at ?s1 l) = Some a" "l_node2 (link_at ?s1 l) = Some b"
      "l_node1 (link_at ?s1 ?p) = Some source" "l_node2 (link_at ?s1 ?p) = Some sink"
      unfolding at using ab by simp_all
    have "\<forall>p \<in> set []. p < link_count ?s1" by simp
    from find_cheapest_path_result [OF mapping_okD(1) [OF ok1] e(1) ab(1) e(2) mapping_okD(2) [OF ok1] e(3) N e(4)
        known lt this cost] obtain c s2 subnet where
      found: "find_cheapest_path l ?p [] ?s1 = Some (c, s2)"
      and res: "path_result ?s1 (link_at ?s1 l) ?p source sink
        (path_query_of (link_at ?s1 l) (link_at ?s1 ?p) source subnet []) c s2" by blast
    have mp: "l_mapped_path ?x = []" by (simp add: new_link_def)
    have f: "graph_frame l s s2" "paths_known s2" "link_at s2 l = ?u"
      "0 \<le> c \<Longrightarrow> trip s (cap_load (l_rload ?u)) (cap_load (l_lload ?u)) source (l_mapped_path (link_at s2 ?p)) sink"
      using find_path_frame [OF res refl refl mp ok N count] unfolding at(2) by blast+
    have alloc: "alloc_link ?x s = (?p, ?s1)" by (simp add: alloc_link_def)
    let ?ls = "l_mapped_path (link_at s2 ?p)"
    have x: "path_link s ?u (Some source) (Some sink) = Some ?x" using ab by (simp add: path_link_def)
    have "map_edge unode rnode l s = do {
        x \<leftarrow> path_link s ?u (Some source) (Some sink);
        let (p, s) = alloc_link x s;
        (c, s) \<leftarrow> find_cheapest_path l p [] s;
        if c < 0 then Some s
        else do {
          s \<leftarrow> enter_path l (Some source) (Some sink) (sint (l_rload ?u)) (sint (l_lload ?u)) (l_mapped_path (link_at s p)) s;
          Some (upd_link l (\<lambda>x. x\<lparr>l_marked := True\<rparr>) s) } }"
      using False ab m(2) unfolding map_edge_def Let_def source_def sink_def
      by (cases "a = unode") (simp_all add: end_marked_def mapped_end_def)
    then have run: "map_edge unode rnode l s = (if c < 0 then Some s2 else do {
          s \<leftarrow> enter_path l (Some source) (Some sink) (sint (l_rload ?u)) (sint (l_lload ?u)) ?ls s2;
          Some (upd_link l (\<lambda>x. x\<lparr>l_marked := True\<rparr>) s) })"
      unfolding x bind.bind_lunit by (subst (asm) alloc) (simp only: Let_def prod.case found bind.bind_lunit)
    show ?thesis
    proof (cases "c < 0")
      case neg: True
      then have "map_edge unode rnode l s = Some s2" using run by simp
      then show ?thesis using f(1,3) mapping_ok_frame [OF ok f(1,2)] by (intro exI [of _ s2]) simp
    next
      case pos: False
      then have trip: "trip s (cap_load (l_rload ?u)) (cap_load (l_lload ?u)) source ?ls sink" using f(4) by simp
      have pd: "l_mapped_path (link_at s2 l) = l_mapped_path ?u" "l_mp_linkdir (link_at s2 l) = l_mp_linkdir ?u"
        using f(3) by simp_all
      from take_found_path [OF ok u N trip f(1,2) pd] obtain s3 ds where
        t: "take_path l source (Some sink) (sint (l_rload ?u)) (sint (l_lload ?u)) ?ls (Some source) False s2 = Some s3"
          "graph_frame l s s3" "paths_known s3" "l_mapped_path (link_at s3 l) = l_mapped_path ?u @ ?ls"
          "l_mp_linkdir (link_at s3 l) = l_mp_linkdir ?u @ ds" "follow s source ?ls ds sink" by blast
      let ?s4 = "upd_link l (\<lambda>x. x\<lparr>l_marked := True\<rparr>) s3"
      have "map_edge unode rnode l s = Some ?s4" using run pos t(1) by (cases ?ls) (simp_all add: enter_path_def)
      moreover have "graph_frame l s ?s4"
        by (rule graph_frame_trans [OF t(2)]) (rule graph_frame_upd, simp_all)
      moreover have "paths_known ?s4" using t(3) by (auto simp: paths_known_def ends_known_def)
      moreover have "edge_mapped s N unode rnode l ?s4" using ends N t(4-6) trip by (auto simp: edge_mapped_def)
      moreover have "l_marked (link_at ?s4 l)" by simp
      ultimately show ?thesis using mapping_ok_frame [OF ok] by (intro exI [of _ ?s4]) simp
    qed
  qed
qed

section \<open>Mapping the links of a node\<close>

text \<open>After the mapping of its links, a link that was not marked and now is has a path over links of the testbed
  that leads from the mapped node of one end to that of the other, with the direction of each of its links.\<close>

definition edge_routed :: "store \<Rightarrow> nptr set \<Rightarrow> nptr \<Rightarrow> nptr \<Rightarrow> lptr \<Rightarrow> store \<Rightarrow> bool" where
  "edge_routed s N unode rnode l s' \<longleftrightarrow> (\<exists>source sink ls ds. edge_ends s unode rnode l = Some (source, sink) \<and>
     l_mapped_path (link_at s' l) = l_mapped_path (link_at s l) @ ls \<and>
     l_mp_linkdir (link_at s' l) = l_mp_linkdir (link_at s l) @ ds \<and> follow s source ls ds sink \<and>
     (\<forall>p \<in> set ls. \<exists>n \<in> N. p \<in> set (links_at s n)))"

lemma edge_mapped_routed:
  assumes "link_closed s N" and "edge_mapped s N unode rnode l s'"
  shows "edge_routed s N unode rnode l s'"
  using assms(2) trip_in [OF assms(1)] by (fastforce simp: edge_mapped_def edge_routed_def)

lemma edge_ends_frame: "graph_frame k s s' \<Longrightarrow> l < link_count s \<Longrightarrow> edge_ends s' unode rnode l = edge_ends s unode rnode l"
  by (simp add: edge_ends_def graph_frameD(4,5,6) cong: Option.bind_cong)

lemma map_edge_marked: "l_marked (link_at s l) \<Longrightarrow> map_edge unode rnode l s = Some s"
  by (simp add: map_edge_def Let_def)

lemma edge_routed_before:
  assumes ok: "mapping_ok s M N" and f: "graph_frame k s s1"
    and l: "l < link_count s" "l_mapped_path (link_at s1 l) = l_mapped_path (link_at s l)"
      "l_mp_linkdir (link_at s1 l) = l_mp_linkdir (link_at s l)" and "edge_routed s1 N unode rnode l s'"
  shows "edge_routed s N unode rnode l s'"
proof -
  from assms(6) obtain source sink ls ds where e: "edge_ends s unode rnode l = Some (source, sink)"
    "l_mapped_path (link_at s' l) = l_mapped_path (link_at s l) @ ls"
    "l_mp_linkdir (link_at s' l) = l_mp_linkdir (link_at s l) @ ds" "follow s1 source ls ds sink"
    "\<forall>p \<in> set ls. \<exists>n \<in> N. p \<in> set (links_at s n)"
    unfolding edge_routed_def l(2,3) edge_ends_frame [OF f l(1)] graph_frameD(2) [OF f] by blast
  have "p < link_count s" if "p \<in> set ls" for p using e(5) that mapping_okD(5) [OF ok] by blast
  then have "\<forall>p \<in> set ls. l_node1 (link_at s1 p) = l_node1 (link_at s p) \<and> l_node2 (link_at s1 p) = l_node2 (link_at s p)"
    using graph_frameD(5,6) [OF f] by blast
  from follow_cong [OF this] e show ?thesis unfolding edge_routed_def by blast
qed

lemma edge_routed_after:
  assumes "edge_routed s N unode rnode l s1" and "l_mapped_path (link_at s' l) = l_mapped_path (link_at s1 l)"
    and "l_mp_linkdir (link_at s' l) = l_mp_linkdir (link_at s1 l)"
  shows "edge_routed s N unode rnode l s'"
  using assms unfolding edge_routed_def by simp

lemma map_edge_list_result:
  assumes ok: "mapping_ok s M N" and u: "unode \<in> M" "set ls \<subseteq> set (links_at s unode)" and r: "rnode \<in> N"
  shows "\<exists>s'. map_edge_list unode rnode ls s = Some s' \<and> mapping_ok s' M N \<and>
    (\<forall>n. links_at s' n = links_at s n \<and> n_marked (node_at s' n) = n_marked (node_at s n)) \<and>
    (\<forall>l < link_count s. (l_marked (link_at s l) \<longrightarrow> l_marked (link_at s' l) \<and>
        l_mapped_path (link_at s' l) = l_mapped_path (link_at s l) \<and> l_mp_linkdir (link_at s' l) = l_mp_linkdir (link_at s l)) \<and>
      (\<not> l_marked (link_at s l) \<and> l_marked (link_at s' l) \<longrightarrow> edge_routed s N unode rnode l s'))"
  using ok u(2)
proof (induction ls arbitrary: s)
  case (Cons l ls)
  then have l: "l \<in> set (links_at s unode)" by simp
  from map_edge_result [OF Cons.prems(1) u(1) l r] obtain s1 where
    1: "map_edge unode rnode l s = Some s1" "graph_frame l s s1" "mapping_ok s1 M N"
      "if l_marked (link_at s1 l) then l_marked (link_at s l) \<or> edge_mapped s N unode rnode l s1
       else link_at s1 l = link_at s l" by blast
  note D = graph_frameD [OF 1(2)]
  have "set ls \<subseteq> set (links_at s1 unode)" using Cons.prems(2) D(2) by simp
  from Cons.IH [OF 1(3) this] obtain s' where 2: "map_edge_list unode rnode ls s1 = Some s'" "mapping_ok s' M N"
    "\<And>n. links_at s' n = links_at s1 n \<and> n_marked (node_at s' n) = n_marked (node_at s1 n)"
    "\<And>k. k < link_count s1 \<Longrightarrow> l_marked (link_at s1 k) \<Longrightarrow> l_marked (link_at s' k) \<and>
        l_mapped_path (link_at s' k) = l_mapped_path (link_at s1 k) \<and> l_mp_linkdir (link_at s' k) = l_mp_linkdir (link_at s1 k)"
    "\<And>k. k < link_count s1 \<Longrightarrow> \<not> l_marked (link_at s1 k) \<Longrightarrow> l_marked (link_at s' k) \<Longrightarrow> edge_routed s1 N unode rnode k s'"
    by blast
  have step: "(l_marked (link_at s k) \<longrightarrow> l_marked (link_at s' k) \<and>
        l_mapped_path (link_at s' k) = l_mapped_path (link_at s k) \<and> l_mp_linkdir (link_at s' k) = l_mp_linkdir (link_at s k)) \<and>
      (\<not> l_marked (link_at s k) \<and> l_marked (link_at s' k) \<longrightarrow> edge_routed s N unode rnode k s')" if k: "k < link_count s" for k
  proof -
    have k1: "k < link_count s1" using k D(1) by simp
    show ?thesis
    proof (cases "l_marked (link_at s k)")
      case True
      have "l_marked (link_at s1 k) \<and> l_mapped_path (link_at s1 k) = l_mapped_path (link_at s k) \<and>
          l_mp_linkdir (link_at s1 k) = l_mp_linkdir (link_at s k)"
      proof (cases "k = l")
        case eq: True
        then have "s1 = s" using map_edge_marked [of s l] True 1(1) by simp
        then show ?thesis using True by simp
      qed (use D(9-11) [OF k] True in simp)
      then show ?thesis using 2(4) [OF k1] True by simp
    next
      case False
      have "edge_routed s N unode rnode k s'" if m: "l_marked (link_at s' k)"
      proof (cases "l_marked (link_at s1 k)")
        case True
        then have "k = l" using D(9) [OF k] False by blast
        then have "edge_routed s N unode rnode k s1"
          using edge_mapped_routed [OF mapping_okD(2) [OF Cons.prems(1)]] 1(4) True False by simp
        then show ?thesis by (rule edge_routed_after) (use 2(4) [OF k1 True] in simp_all)
      next
        case unmarked: False
        have "l_mapped_path (link_at s1 k) = l_mapped_path (link_at s k) \<and> l_mp_linkdir (link_at s1 k) = l_mp_linkdir (link_at s k)"
          using 1(4) unmarked D(10,11) [OF k] by (cases "k = l") auto
        then show ?thesis using edge_routed_before [OF Cons.prems(1) 1(2) k] 2(5) [OF k1 unmarked m] by blast
      qed
      then show ?thesis using False by simp
    qed
  qed
  show ?case using 1(1) 2(1-3) D(2,3) step by (intro exI [of _ s']) simp
qed simp

lemma init_fold:
  "node_at (fold (\<lambda>l. upd_link l init_potential) ls s) = node_at s \<and>
   link_count (fold (\<lambda>l. upd_link l init_potential) ls s) = link_count s \<and>
   (\<forall>k. link_at (fold (\<lambda>l. upd_link l init_potential) ls s) k =
      (if k \<in> set ls then init_potential (link_at s k) else link_at s k))"
proof (induction ls arbitrary: s)
  case (Cons l ls)
  have "init_potential (init_potential x) = init_potential x" for x by (simp add: init_potential_def)
  then show ?case using Cons [of "upd_link l init_potential s"] by auto
qed simp

lemma initialize_result:
  shows "node_at (initialize_base_potential_loads base s) = node_at s"
    and "link_count (initialize_base_potential_loads base s) = link_count s"
    and "link_at (initialize_base_potential_loads base s) k =
      (if k \<in> set (t_links base) then init_potential (link_at s k) else link_at s k)"
  using init_fold [of "t_links base" s] by (simp_all add: initialize_base_potential_loads_def)

lemma init_potential_keeps [simp]:
  "l_node1 (init_potential x) = l_node1 x" "l_node2 (init_potential x) = l_node2 x" "l_conns (init_potential x) = l_conns x"
  "l_cost (init_potential x) = l_cost x" "l_marked (init_potential x) = l_marked x"
  "l_mapped_path (init_potential x) = l_mapped_path x" "l_mp_linkdir (init_potential x) = l_mp_linkdir x"
  by (simp_all add: init_potential_def)

lemma initialize_frame: "graph_frame l s (initialize_base_potential_loads base s)"
  by (simp add: graph_frame_def initialize_result Let_def)

lemma initialize_ok:
  assumes "mapping_ok s M N"
  shows "mapping_ok (initialize_base_potential_loads base s) M N"
proof (rule mapping_ok_frame [OF assms initialize_frame])
  show "paths_known (initialize_base_potential_loads base s)"
    using mapping_okD(4) [OF assms] by (simp add: paths_known_def ends_known_def initialize_result)
qed

lemma map_edges_routed:
  assumes ok: "mapping_ok s M N" and u: "unode \<in> M" and r: "rnode \<in> N"
  shows "\<exists>s'. map_edges unode rnode base s = Some s' \<and> mapping_ok s' M N \<and>
    (\<forall>l \<in> set (links_at s unode). (l_marked (link_at s l) \<longrightarrow> l_marked (link_at s' l) \<and>
        l_mapped_path (link_at s' l) = l_mapped_path (link_at s l) \<and> l_mp_linkdir (link_at s' l) = l_mp_linkdir (link_at s l)) \<and>
      (\<not> l_marked (link_at s l) \<and> l_marked (link_at s' l) \<longrightarrow> edge_routed s N unode rnode l s'))"
proof -
  let ?s = "initialize_base_potential_loads base s"
  note ok1 = initialize_ok [OF ok, of base]
  have "set (links_at s unode) \<subseteq> set (links_at ?s unode)" by (simp add: initialize_result)
  from map_edge_list_result [OF ok1 u this r] obtain s' where
    s': "map_edge_list unode rnode (links_at s unode) ?s = Some s'" "mapping_ok s' M N"
      "\<forall>l < link_count ?s. (l_marked (link_at ?s l) \<longrightarrow> l_marked (link_at s' l) \<and>
        l_mapped_path (link_at s' l) = l_mapped_path (link_at ?s l) \<and> l_mp_linkdir (link_at s' l) = l_mp_linkdir (link_at ?s l)) \<and>
      (\<not> l_marked (link_at ?s l) \<and> l_marked (link_at s' l) \<longrightarrow> edge_routed ?s N unode rnode l s')" by blast
  have "(l_marked (link_at s l) \<longrightarrow> l_marked (link_at s' l) \<and>
        l_mapped_path (link_at s' l) = l_mapped_path (link_at s l) \<and> l_mp_linkdir (link_at s' l) = l_mp_linkdir (link_at s l)) \<and>
      (\<not> l_marked (link_at s l) \<and> l_marked (link_at s' l) \<longrightarrow> edge_routed s N unode rnode l s')"
    if "l \<in> set (links_at s unode)" for l
  proof -
    have l: "l < link_count s" using mapping_okD(5) [OF ok _ that] u by blast
    have same: "l_marked (link_at ?s l) = l_marked (link_at s l)" "l_mapped_path (link_at ?s l) = l_mapped_path (link_at s l)"
      "l_mp_linkdir (link_at ?s l) = l_mp_linkdir (link_at s l)" by (simp_all add: initialize_result)
    have l': "l < link_count ?s" using l by (simp add: initialize_result)
    show ?thesis
      using spec [OF s'(3), of l] l' edge_routed_before [OF ok initialize_frame l same(2,3)] unfolding same by blast
  qed
  then show ?thesis using s'(1,2) by (auto simp: map_edges_def initialize_result(1))
qed

end
