(* ===== verification/Edge_Loads.thy ===== *)
theory Edge_Loads
  imports Subnet "HOL-Library.Product_Lexorder"
begin

text \<open>
  \<^verbatim>\<open>database/src/onldb.cc\<close>: the loads that the leaves of an experiment put on its links
  (\<^verbatim>\<open>add_edge_load\<close>, \<^verbatim>\<open>calculate_edge_loads\<close>). A flood ends, and it loads every link at most once.
\<close>

section \<open>Flooding the load of a leaf\<close>

text \<open>
  \<^verbatim>\<open>add_edge_load\<close> as one function over the links that its loop has left: a link that was not seen
  and starts at the port, or at any port of a virtual switch, gets the load, and the other end goes on.
\<close>

partial_function (option) flood ::
  "nptr \<Rightarrow> int \<Rightarrow> int \<Rightarrow> lptr list \<Rightarrow> lptr list \<Rightarrow> store \<Rightarrow> (lptr list \<times> store) option" where
  "flood node port load ls seen s = (case ls of [] \<Rightarrow> Some (seen, s)
   | l # ls' \<Rightarrow>
       let x = link_at s l; vgige = is_vgige s node in
       if in_list l seen then flood node port load ls' seen s
       else if l_node1 x = Some node \<and> (l_node1_port x = of_int port \<or> vgige) then do {
         m \<leftarrow> l_node2 x;
         (seen, s) \<leftarrow> flood m (sint (l_node2_port x)) load (n_links (node_at s m)) (seen @ [l])
           (upd_link l (\<lambda>x. x\<lparr>l_rload := l_rload x + of_int load\<rparr>) s);
         flood node port load ls' seen s }
       else if l_node2 x = Some node \<and> (l_node2_port x = of_int port \<or> vgige) then do {
         m \<leftarrow> l_node1 x;
         (seen, s) \<leftarrow> flood m (sint (l_node1_port x)) load (n_links (node_at s m)) (seen @ [l])
           (upd_link l (\<lambda>x. x\<lparr>l_lload := l_lload x + of_int load\<rparr>) s);
         flood node port load ls' seen s }
       else flood node port load ls' seen s)"

definition add_edge_load :: "nptr \<Rightarrow> int \<Rightarrow> int \<Rightarrow> lptr list \<Rightarrow> store \<Rightarrow> (lptr list \<times> store) option" where
  "add_edge_load node port load seen s = flood node port load (n_links (node_at s node)) seen s"

fun leaf_loads :: "nptr \<Rightarrow> lptr list \<Rightarrow> lptr list \<Rightarrow> store \<Rightarrow> (lptr list \<times> store) option" where
  "leaf_loads n [] seen s = Some (seen, s)"
| "leaf_loads n (l # ls) seen s = (let x = link_at s l in do {
     (seen, s) \<leftarrow> (if l_node1 x = Some n then add_edge_load n (sint (l_node1_port x)) (sint (l_node1_capacity x)) seen s
       else do { m \<leftarrow> l_node2 x; add_edge_load m (sint (l_node2_port x)) (sint (l_node2_capacity x)) seen s });
     leaf_loads n ls seen s })"

fun all_leaf_loads :: "nptr list \<Rightarrow> store \<Rightarrow> store option" where
  "all_leaf_loads [] s = Some s"
| "all_leaf_loads (n # ns) s = do {
     s \<leftarrow> (if \<not> is_vgige s n \<and> \<not> n_is_parent (node_at s n)
       then map_option snd (leaf_loads n (n_links (node_at s n)) [] s) else Some s);
     all_leaf_loads ns s }"

definition edge_cost_of :: "link_resource \<Rightarrow> link_resource" where
  "edge_cost_of x = x\<lparr>l_cost := calculate_edge_cost (sint (l_rload x)) (sint (l_lload x))\<rparr>"

definition calculate_edge_loads :: "topology \<Rightarrow> store \<Rightarrow> store option" where
  "calculate_edge_loads req s = map_option (fold (\<lambda>l. upd_link l edge_cost_of) (t_links req))
     (all_leaf_loads (t_nodes req) s)"

section \<open>Every link is loaded once\<close>

text \<open>What a flood has done when it has seen \<open>seen'\<close>: the links that are new in it got the load, each in one
  direction, and nothing else has changed.\<close>

definition loaded :: "int \<Rightarrow> link_resource \<Rightarrow> link_resource \<Rightarrow> bool" where
  "loaded load x x' \<longleftrightarrow> x' = x\<lparr>l_rload := l_rload x + of_int load\<rparr> \<or> x' = x\<lparr>l_lload := l_lload x + of_int load\<rparr>"

definition flooded :: "int \<Rightarrow> lptr list \<Rightarrow> store \<Rightarrow> lptr list \<Rightarrow> store \<Rightarrow> bool" where
  "flooded load seen s seen' s' \<longleftrightarrow> (\<exists>new. seen' = seen @ new \<and> distinct new \<and> set new \<inter> set seen = {} \<and>
     node_at s' = node_at s \<and> link_count s' = link_count s \<and> node_count s' = node_count s \<and>
     (\<forall>l. if l \<in> set new then loaded load (link_at s l) (link_at s' l) else link_at s' l = link_at s l))"

lemma flooded_refl [simp]: "flooded load seen s seen s"
  by (simp add: flooded_def)

lemma flooded_trans:
  assumes "flooded load seen s seen1 s1" and "flooded load seen1 s1 seen2 s2"
  shows "flooded load seen s seen2 s2"
proof -
  from assms obtain new1 new2 where
    1: "seen1 = seen @ new1" "distinct new1" "set new1 \<inter> set seen = {}"
      "\<And>l. if l \<in> set new1 then loaded load (link_at s l) (link_at s1 l) else link_at s1 l = link_at s l"
    and 2: "seen2 = seen1 @ new2" "distinct new2" "set new2 \<inter> set seen1 = {}"
      "\<And>l. if l \<in> set new2 then loaded load (link_at s1 l) (link_at s2 l) else link_at s2 l = link_at s1 l"
    and rest: "node_at s2 = node_at s" "link_count s2 = link_count s" "node_count s2 = node_count s"
    unfolding flooded_def by metis
  have "if l \<in> set (new1 @ new2) then loaded load (link_at s l) (link_at s2 l) else link_at s2 l = link_at s l" for l
  proof (cases "l \<in> set new1")
    case True
    then have "l \<notin> set new2" using 1(1) 2(3) by auto
    then show ?thesis using 1(4) [of l] 2(4) [of l] True by simp
  next
    case False
    then show ?thesis using 1(4) [of l] 2(4) [of l] by auto
  qed
  then show ?thesis using 1(1-3) 2(1-3) rest unfolding flooded_def by (intro exI [of _ "new1 @ new2"]) auto
qed

lemma flooded_step:
  assumes "l \<notin> set seen" and "\<And>x. loaded load x (f x)"
  shows "flooded load seen s (seen @ [l]) (upd_link l f s)"
  using assms unfolding flooded_def by (intro exI [of _ "[l]"]) auto

lemma flooded_ends:
  assumes "flooded load seen s seen' s'"
  shows "node_at s' = node_at s" "l_node1 (link_at s' l) = l_node1 (link_at s l)" "l_node2 (link_at s' l) = l_node2 (link_at s l)"
proof -
  from assms have "node_at s' = node_at s" "link_at s' l = link_at s l \<or> loaded load (link_at s l) (link_at s' l)"
    unfolding flooded_def by metis+
  then show "node_at s' = node_at s" "l_node1 (link_at s' l) = l_node1 (link_at s l)" "l_node2 (link_at s' l) = l_node2 (link_at s l)"
    by (auto simp: loaded_def)
qed

lemma link_closed_flooded: "flooded load seen s seen' s' \<Longrightarrow> link_closed s N \<Longrightarrow> link_closed s' N"
  by (simp add: link_closed_def flooded_ends)

definition links_in :: "store \<Rightarrow> nptr set \<Rightarrow> lptr set" where
  "links_in s N = (\<Union>n \<in> N. set (n_links (node_at s n)))"

lemma finite_links_in: "link_closed s N \<Longrightarrow> finite (links_in s N)"
  by (simp add: links_in_def link_closed_def)

lemma flood_returns:
  assumes "link_closed s N" and "node \<in> N" and "set ls \<subseteq> set (n_links (node_at s node))"
  shows "\<exists>seen' s'. flood node port load ls seen s = Some (seen', s') \<and> flooded load seen s seen' s' \<and>
    set seen' \<subseteq> set seen \<union> links_in s N"
  using assms
proof (induction "(card (links_in s N - set seen), length ls)" arbitrary: node port ls seen s rule: less_induct)
  case less
  show ?case
  proof (cases ls)
    case Nil
    then show ?thesis by (simp add: flood.simps)
  next
    case (Cons l ls')
    let ?x = "link_at s l"
    have l: "l \<in> set (n_links (node_at s node))" and ls': "set ls' \<subseteq> set (n_links (node_at s node))"
      using less.prems(3) Cons by auto
    obtain a b where ab: "a \<in> N" "b \<in> N" "l_node1 ?x = Some a" "l_node2 ?x = Some b"
      by (rule link_closedD [OF less.prems(1,2) l])
    have lN: "l \<in> links_in s N" using l less.prems(2) by (auto simp: links_in_def)
    have skip: ?thesis if "flood node port load ls seen s = flood node port load ls' seen s"
      using less.hyps [of s seen ls' node port] less.prems(1,2) ls' Cons that by simp
    have go: ?thesis if new: "l \<notin> set seen" and m: "m \<in> N" and f: "\<And>x. loaded load x (f x)"
      and run: "flood node port load ls seen s = do {
        (seen, s) \<leftarrow> flood m port' load (n_links (node_at s m)) (seen @ [l]) (upd_link l f s);
        flood node port load ls' seen s }" for m f port'
    proof -
      let ?s = "upd_link l f s"
      note f1 = flooded_step [OF new f, where s = s]
      have same: "links_in s' N = links_in s N" if "node_at s' = node_at s" for s' using that by (simp add: links_in_def)
      have nn: "links_in ?s N = links_in s N" by (simp add: links_in_def)
      have "card (links_in ?s N - set (seen @ [l])) < card (links_in s N - set seen)"
      proof (rule psubset_card_mono)
        show "finite (links_in s N - set seen)" using finite_links_in [OF less.prems(1)] by simp
        show "links_in ?s N - set (seen @ [l]) \<subset> links_in s N - set seen" unfolding nn using lN new by auto
      qed
      then have "\<exists>seen' s'. flood m port' load (n_links (node_at ?s m)) (seen @ [l]) ?s = Some (seen', s') \<and>
          flooded load (seen @ [l]) ?s seen' s' \<and> set seen' \<subseteq> set (seen @ [l]) \<union> links_in ?s N"
        using link_closed_flooded [OF f1 less.prems(1)] m by (intro less.hyps) auto
      then obtain seen1 s1 where 1: "flood m port' load (n_links (node_at s m)) (seen @ [l]) ?s = Some (seen1, s1)"
        "flooded load (seen @ [l]) ?s seen1 s1" "set seen1 \<subseteq> set (seen @ [l]) \<union> links_in s N"
        unfolding nn by auto
      note f2 = flooded_trans [OF f1 1(2)]
      have n1: "node_at s1 = node_at s" by (rule flooded_ends(1) [OF f2])
      have sub: "set seen \<subseteq> set seen1" using f2 by (auto simp: flooded_def)
      have "card (links_in s1 N - set seen1) \<le> card (links_in s N - set seen)"
        using finite_links_in [OF less.prems(1)] sub by (intro card_mono) (auto simp: same [OF n1])
      then have "(card (links_in s1 N - set seen1), length ls') < (card (links_in s N - set seen), length ls)"
        using Cons by (auto simp: less_prod_def)
      moreover have "set ls' \<subseteq> set (n_links (node_at s1 node))" using ls' n1 by simp
      ultimately obtain seen2 s2 where
        2: "flood node port load ls' seen1 s1 = Some (seen2, s2)" "flooded load seen1 s1 seen2 s2"
          "set seen2 \<subseteq> set seen1 \<union> links_in s N"
        using less.hyps [OF _ link_closed_flooded [OF f2 less.prems(1)] less.prems(2)] unfolding same [OF n1] by blast
      have "flood node port load ls seen s = Some (seen2, s2)" unfolding run using 1(1) 2(1) by simp
      moreover have "set seen2 \<subseteq> set seen \<union> links_in s N" using 1(3) 2(3) lN by auto
      ultimately show ?thesis using flooded_trans [OF f2 2(2)] by blast
    qed
    have r: "loaded load x (x\<lparr>l_rload := l_rload x + of_int load\<rparr>)" "loaded load x (x\<lparr>l_lload := l_lload x + of_int load\<rparr>)" for x
      by (simp_all add: loaded_def)
    note unfold = flood.simps [of node port load ls seen s, unfolded Cons, simplified, unfolded Let_def]
    show ?thesis
    proof (cases "l \<in> set seen")
      case True
      then show ?thesis by (intro skip) (simp add: Cons unfold)
    next
      case new: False
      let ?any = "is_vgige s node"
      consider "a = node \<and> (l_node1_port ?x = of_int port \<or> ?any)"
        | "\<not> (a = node \<and> (l_node1_port ?x = of_int port \<or> ?any))" "b = node \<and> (l_node2_port ?x = of_int port \<or> ?any)"
        | "\<not> (a = node \<and> (l_node1_port ?x = of_int port \<or> ?any))" "\<not> (b = node \<and> (l_node2_port ?x = of_int port \<or> ?any))"
        by blast
      then show ?thesis
      proof cases
        case 1
        then show ?thesis by (intro go [OF new ab(2) r(1)]) (simp add: Cons unfold ab new)
      next
        case 2
        then show ?thesis by (intro go [OF new ab(1) r(2)]) (auto simp: Cons unfold ab new)
      next
        case 3
        then show ?thesis by (intro skip) (auto simp: Cons unfold ab new)
      qed
    qed
  qed
qed

lemma add_edge_load_returns:
  assumes "link_closed s N" and "node \<in> N"
  shows "\<exists>seen' s'. add_edge_load node port load seen s = Some (seen', s') \<and> flooded load seen s seen' s' \<and>
    set seen' \<subseteq> set seen \<union> links_in s N"
  using flood_returns [OF assms order_refl] by (simp add: add_edge_load_def)

section \<open>Which links a flood loads\<close>

text \<open>
  The load of a leaf as it should spread, without an order of the links: from a place, a port of a node, it crosses each
  link that is attached there (to any port, when the node is a virtual switch), from the first end to the second
  (\<open>right\<close>) or back, and goes on from the other end. A path of the load crosses no link twice.
\<close>

definition leaves :: "store \<Rightarrow> nptr \<Rightarrow> int \<Rightarrow> bool \<Rightarrow> lptr \<Rightarrow> bool" where
  "leaves s n port right l \<longleftrightarrow> l \<in> set (n_links (node_at s n)) \<and> (let x = link_at s l in
     if right then l_node1 x = Some n \<and> (l_node1_port x = of_int port \<or> is_vgige s n)
     else l_node2 x = Some n \<and> (l_node2_port x = of_int port \<or> is_vgige s n))"

definition far_node :: "bool \<Rightarrow> link_resource \<Rightarrow> nptr option" where
  "far_node right x = (if right then l_node2 x else l_node1 x)"

definition far_port :: "bool \<Rightarrow> link_resource \<Rightarrow> int" where
  "far_port right x = sint (if right then l_node2_port x else l_node1_port x)"

inductive load_path :: "store \<Rightarrow> nptr \<Rightarrow> int \<Rightarrow> (lptr \<times> bool) list \<Rightarrow> nptr \<Rightarrow> int \<Rightarrow> bool" for s n port where
  here: "load_path s n port [] n port"
| cross: "load_path s n port path m q \<Longrightarrow> leaves s m q right l \<Longrightarrow> l \<notin> fst ` set path \<Longrightarrow>
     far_node right (link_at s l) = Some m' \<Longrightarrow>
     load_path s n port (path @ [(l, right)]) m' (far_port right (link_at s l))"

definition crossed :: "store \<Rightarrow> nptr \<Rightarrow> int \<Rightarrow> lptr \<Rightarrow> bool \<Rightarrow> bool" where
  "crossed s n port l right \<longleftrightarrow> (\<exists>path m q. load_path s n port (path @ [(l, right)]) m q)"

definition with_load :: "bool \<Rightarrow> int \<Rightarrow> link_resource \<Rightarrow> link_resource" where
  "with_load right load x =
     (if right then x\<lparr>l_rload := l_rload x + of_int load\<rparr> else x\<lparr>l_lload := l_lload x + of_int load\<rparr>)"

text \<open>Paths depend on the nodes and on the ends of the links only.\<close>

definition same_ends :: "store \<Rightarrow> store \<Rightarrow> bool" where
  "same_ends s s' \<longleftrightarrow> node_at s' = node_at s \<and> (\<forall>l. l_node1 (link_at s' l) = l_node1 (link_at s l) \<and>
     l_node2 (link_at s' l) = l_node2 (link_at s l) \<and> l_node1_port (link_at s' l) = l_node1_port (link_at s l) \<and>
     l_node2_port (link_at s' l) = l_node2_port (link_at s l))"

lemma same_endsD:
  assumes "same_ends s s'"
  shows "leaves s' = leaves s" "far_node right (link_at s' l) = far_node right (link_at s l)"
    "far_port right (link_at s' l) = far_port right (link_at s l)" "same_ends s' s"
  using assms by (auto simp: same_ends_def leaves_def far_node_def far_port_def fun_eq_iff Let_def)

lemma load_path_same: "load_path s n port path m q \<Longrightarrow> same_ends s s' \<Longrightarrow> load_path s' n port path m q"
proof (induction rule: load_path.induct)
  case (cross path m q right l m')
  note e = same_endsD [OF cross.prems]
  have "load_path s' n port (path @ [(l, right)]) m' (far_port right (link_at s' l))"
    by (rule load_path.cross) (use cross e in simp_all)
  then show ?case by (simp add: e)
qed (rule load_path.here)

lemma flooded_same_ends:
  assumes "flooded load seen s seen' s'"
  shows "same_ends s s'"
proof -
  have or: "link_at s' l = link_at s l \<or> loaded load (link_at s l) (link_at s' l)" for l
    using assms unfolding flooded_def by metis
  have "l_node1 (link_at s' l) = l_node1 (link_at s l) \<and> l_node2 (link_at s' l) = l_node2 (link_at s l) \<and>
    l_node1_port (link_at s' l) = l_node1_port (link_at s l) \<and> l_node2_port (link_at s' l) = l_node2_port (link_at s l)" for l
    using or [of l] by (auto simp: loaded_def)
  then show ?thesis unfolding same_ends_def flooded_ends(1) [OF assms] by blast
qed

lemma loaded_with_load: "loaded load x (with_load right load x)"
  by (simp add: loaded_def with_load_def)

text \<open>All links that leave a place are in a set.\<close>

definition seen_from :: "store \<Rightarrow> lptr set \<Rightarrow> nptr \<Rightarrow> int \<Rightarrow> bool" where
  "seen_from s S n port \<longleftrightarrow> (\<forall>right l. leaves s n port right l \<longrightarrow> l \<in> S)"

text \<open>What a flood from a place has done to a link that it has seen first: it has crossed it from a place, of which all
  links are seen when the flood is over, or which is its own place, to a place of which all links are seen.\<close>

definition flooded_link :: "int \<Rightarrow> nptr \<Rightarrow> int \<Rightarrow> lptr set \<Rightarrow> store \<Rightarrow> store \<Rightarrow> nptr \<Rightarrow> int \<Rightarrow> lptr \<Rightarrow> bool" where
  "flooded_link load node port S s s' n0 p0 l \<longleftrightarrow> (\<exists>right n' p' m. leaves s n' p' right l \<and> crossed s n0 p0 l right \<and>
     far_node right (link_at s l) = Some m \<and> seen_from s S m (far_port right (link_at s l)) \<and>
     (seen_from s S n' p' \<or> n' = node \<and> p' = port) \<and> link_at s' l = with_load right load (link_at s l))"

definition flood_post :: "nptr \<Rightarrow> int \<Rightarrow> int \<Rightarrow> lptr list \<Rightarrow> lptr list \<Rightarrow> store \<Rightarrow> lptr list \<times> store \<Rightarrow> bool" where
  "flood_post node port load ls seen s y \<longleftrightarrow> flooded load seen s (fst y) (snd y) \<and>
     (set ls \<subseteq> set (n_links (node_at s node)) \<longrightarrow>
       (\<forall>l \<in> set ls. \<forall>right. leaves s node port right l \<longrightarrow> l \<in> set (fst y)) \<and>
       (\<forall>n0 p0 path. load_path s n0 p0 path node port \<longrightarrow> fst ` set path \<subseteq> set seen \<longrightarrow>
         (\<forall>l \<in> set (fst y) - set seen. flooded_link load node port (set (fst y)) s (snd y) n0 p0 l)))"

lemma paths_same:
  assumes "same_ends s s'"
  shows "seen_from s' = seen_from s" "crossed s' = crossed s"
proof -
  show "seen_from s' = seen_from s" using same_endsD(1) [OF assms] by (simp add: seen_from_def fun_eq_iff)
  have "load_path s' n port path m q = load_path s n port path m q" for n port path m q
    using load_path_same [OF _ assms] load_path_same [OF _ same_endsD(4) [OF assms]] by blast
  then show "crossed s' = crossed s" by (simp add: crossed_def fun_eq_iff)
qed

lemma leaves_mem: "leaves s n port right l \<Longrightarrow> l \<in> set (n_links (node_at s n))"
  by (simp add: leaves_def)

lemma seen_from_mono: "seen_from s S n port \<Longrightarrow> S \<subseteq> S' \<Longrightarrow> seen_from s S' n port"
  by (auto simp: seen_from_def)

lemma flooded_subset: "flooded load seen s seen' s' \<Longrightarrow> set seen \<subseteq> set seen'"
  by (auto simp: flooded_def)

lemma flooded_old: "flooded load seen s seen' s' \<Longrightarrow> l \<in> set seen \<Longrightarrow> link_at s' l = link_at s l"
  unfolding flooded_def by (metis IntI empty_iff)

lemma flooded_untouched: "flooded load seen s seen' s' \<Longrightarrow> l \<notin> set seen' \<Longrightarrow> link_at s' l = link_at s l"
  unfolding flooded_def by (metis Un_iff set_append)

lemma flooded_link_keep:
  assumes l: "flooded_link load node port S s s' n0 p0 l" and "S \<subseteq> S'" and "link_at s'' l = link_at s' l"
  shows "flooded_link load node port S' s s'' n0 p0 l"
  using l assms(2,3) seen_from_mono [OF _ assms(2)] unfolding flooded_link_def by metis

lemma flood_post_skip:
  assumes "flood_post node port load ls seen s y" and "l \<in> set seen \<or> (\<forall>right. \<not> leaves s node port right l)"
  shows "flood_post node port load (l # ls) seen s y"
  using assms flooded_subset [of load seen s "fst y" "snd y"] by (auto simp: flood_post_def)

lemma flood_post_cross:
  assumes leave: "l \<in> set (n_links (node_at s node)) \<Longrightarrow> leaves s node port right l" and new: "l \<notin> set seen"
    and m: "far_node right (link_at s l) = Some m"
    and far: "flood_post m (far_port right (link_at s l)) load (n_links (node_at s m)) (seen @ [l])
      (upd_link l (with_load right load) s) (seen1, s1)"
    and rest: "flood_post node port load ls seen1 s1 y"
  shows "flood_post node port load (l # ls) seen s y"
proof -
  let ?s = "upd_link l (with_load right load) s" and ?q = "far_port right (link_at s l)"
  have f0: "flooded load seen s (seen @ [l]) ?s" by (rule flooded_step [OF new loaded_with_load])
  have f1: "flooded load (seen @ [l]) ?s seen1 s1" using far by (simp add: flood_post_def)
  have f2: "flooded load seen1 s1 (fst y) (snd y)" using rest by (simp add: flood_post_def)
  note f01 = flooded_trans [OF f0 f1]
  note e0 = flooded_same_ends [OF f0] and e1 = flooded_same_ends [OF f01]
  have nodes: "node_at ?s = node_at s" "node_at s1 = node_at s" using e0 e1 by (simp_all add: same_ends_def)
  have sub1: "insert l (set seen) \<subseteq> set seen1" using flooded_subset [OF f1] by simp
  have sub2: "set seen1 \<subseteq> set (fst y)" by (rule flooded_subset [OF f2])
  have same: "seen_from ?s = seen_from s" "seen_from s1 = seen_from s" "crossed ?s = crossed s" "crossed s1 = crossed s"
    by (simp_all add: paths_same e0 e1)
  have at_far: "seen_from s (set seen1) m ?q"
    using far nodes(1) same_endsD(1) [OF e0] leaves_mem unfolding flood_post_def seen_from_def by auto
  have "flooded_link load node port (set (fst y)) s (snd y) n0 p0 k"
    if path: "load_path s n0 p0 path node port" "fst ` set path \<subseteq> set seen" and ls: "set (l # ls) \<subseteq> set (n_links (node_at s node))"
      and k: "k \<in> set (fst y)" "k \<notin> set seen" for n0 p0 path k
  proof -
    have go: "load_path s n0 p0 (path @ [(l, right)]) m ?q"
      by (rule load_path.cross [OF path(1)]) (use leave ls m path(2) new in auto)
    consider "k = l" | "k \<in> set seen1" "k \<noteq> l" | "k \<notin> set seen1" by blast
    then show ?thesis
    proof cases
      case 1
      have "link_at (snd y) l = link_at s1 l" by (rule flooded_old [OF f2]) (use sub1 in simp)
      moreover have "link_at s1 l = with_load right load (link_at s l)"
        using flooded_old [OF f1, of l] by (simp add: upd_link_def)
      ultimately show ?thesis
        using leave ls m at_far sub2 go seen_from_mono unfolding 1 flooded_link_def crossed_def
        by (intro exI [of _ right] exI [of _ node] exI [of _ port] exI [of _ m]) auto
    next
      case 2
      have "flooded_link load m ?q (set seen1) ?s s1 n0 p0 k"
        using far load_path_same [OF go e0] path(2) 2 k(2) nodes(1) unfolding flood_post_def by force
      then have "flooded_link load node port (set seen1) s s1 n0 p0 k"
        using 2(2) at_far same_endsD [OF e0] unfolding flooded_link_def same by (auto simp: upd_link_def)
      moreover have "link_at (snd y) k = link_at s1 k" by (rule flooded_old [OF f2 2(1)])
      ultimately show ?thesis using sub2 flooded_link_keep by blast
    next
      case 3
      have "flooded_link load node port (set (fst y)) s1 (snd y) n0 p0 k"
        using rest load_path_same [OF path(1) e1] path(2) sub1 3 k(1) ls nodes(2) unfolding flood_post_def by force
      moreover have "link_at s1 k = link_at s k" by (rule flooded_untouched [OF f01 3])
      ultimately show ?thesis using same_endsD [OF e1] unfolding flooded_link_def same by metis
    qed
  qed
  moreover have "\<forall>k \<in> set (l # ls). \<forall>r. leaves s node port r k \<longrightarrow> k \<in> set (fst y)"
    if "set (l # ls) \<subseteq> set (n_links (node_at s node))"
    using rest that nodes(2) sub1 sub2 same_endsD(1) [OF e1] unfolding flood_post_def by auto
  ultimately show ?thesis using flooded_trans [OF f01 f2] unfolding flood_post_def by blast
qed

lemma flood_posts: "flood node port load ls seen s = Some y \<Longrightarrow> flood_post node port load ls seen s y"
proof (erule flood.raw_induct [rotated])
  fix f :: "nptr \<Rightarrow> int \<Rightarrow> int \<Rightarrow> lptr list \<Rightarrow> lptr list \<Rightarrow> store \<Rightarrow> (lptr list \<times> store) option"
    and node port load ls seen s y
  assume ih: "\<And>node port load ls seen s y. f node port load ls seen s = Some y \<Longrightarrow> flood_post node port load ls seen s y"
    and run: "(case ls of [] \<Rightarrow> Some (seen, s)
     | l # ls' \<Rightarrow>
       let x = link_at s l; vgige = is_vgige s node in
       if in_list l seen then f node port load ls' seen s
       else if l_node1 x = Some node \<and> (l_node1_port x = of_int port \<or> vgige) then do {
         m \<leftarrow> l_node2 x;
         (seen, s) \<leftarrow> f m (sint (l_node2_port x)) load (n_links (node_at s m)) (seen @ [l])
           (upd_link l (\<lambda>x. x\<lparr>l_rload := l_rload x + of_int load\<rparr>) s);
         f node port load ls' seen s }
       else if l_node2 x = Some node \<and> (l_node2_port x = of_int port \<or> vgige) then do {
         m \<leftarrow> l_node1 x;
         (seen, s) \<leftarrow> f m (sint (l_node1_port x)) load (n_links (node_at s m)) (seen @ [l])
           (upd_link l (\<lambda>x. x\<lparr>l_lload := l_lload x + of_int load\<rparr>) s);
         f node port load ls' seen s }
       else f node port load ls' seen s) = Some y"
  show "flood_post node port load ls seen s y"
  proof (cases ls)
    case Nil
    then show ?thesis using run by (auto simp: flood_post_def)
  next
    case (Cons l ls')
    let ?x = "link_at s l"
    have go: ?thesis if new: "l \<notin> set seen" and leave: "l \<in> set (n_links (node_at s node)) \<Longrightarrow> leaves s node port right l"
      and m: "far_node right ?x = Some m" and 1: "f m (far_port right ?x) load (n_links (node_at s m)) (seen @ [l])
        (upd_link l (with_load right load) s) = Some (seen1, s1)" and 2: "f node port load ls' seen1 s1 = Some y"
      for right m seen1 s1
      unfolding Cons by (rule flood_post_cross [OF leave new m ih [OF 1] ih [OF 2]])
    have w: "with_load True load = (\<lambda>x. x\<lparr>l_rload := l_rload x + of_int load\<rparr>)"
      "with_load False load = (\<lambda>x. x\<lparr>l_lload := l_lload x + of_int load\<rparr>)" by (simp_all add: with_load_def fun_eq_iff)
    consider "l \<in> set seen"
      | "l \<notin> set seen" "l_node1 ?x = Some node \<and> (l_node1_port ?x = of_int port \<or> is_vgige s node)"
      | "l \<notin> set seen" "\<not> (l_node1 ?x = Some node \<and> (l_node1_port ?x = of_int port \<or> is_vgige s node))"
        "l_node2 ?x = Some node \<and> (l_node2_port ?x = of_int port \<or> is_vgige s node)"
      | "l \<notin> set seen" "\<not> (l_node1 ?x = Some node \<and> (l_node1_port ?x = of_int port \<or> is_vgige s node))"
        "\<not> (l_node2 ?x = Some node \<and> (l_node2_port ?x = of_int port \<or> is_vgige s node))"
      by blast
    then show ?thesis
    proof cases
      case 1
      then have "f node port load ls' seen s = Some y" using run by (simp add: Cons)
      then show ?thesis unfolding Cons using 1 by (intro flood_post_skip ih) simp_all
    next
      case 2
      then obtain m seen1 s1 where "l_node2 ?x = Some m"
        "f m (sint (l_node2_port ?x)) load (n_links (node_at s m)) (seen @ [l])
          (upd_link l (\<lambda>x. x\<lparr>l_rload := l_rload x + of_int load\<rparr>) s) = Some (seen1, s1)"
        "f node port load ls' seen1 s1 = Some y"
        using run by (auto simp: Cons Let_def bind_eq_Some_conv)
      then show ?thesis using 2 by (intro go [of True m seen1 s1]) (simp_all add: leaves_def far_node_def far_port_def w)
    next
      case 3
      then obtain m seen1 s1 where "l_node1 ?x = Some m"
        "f m (sint (l_node1_port ?x)) load (n_links (node_at s m)) (seen @ [l])
          (upd_link l (\<lambda>x. x\<lparr>l_lload := l_lload x + of_int load\<rparr>) s) = Some (seen1, s1)"
        "f node port load ls' seen1 s1 = Some y"
        using run by (auto simp: Cons Let_def bind_eq_Some_conv)
      then show ?thesis using 3 by (intro go [of False m seen1 s1]) (simp_all add: leaves_def far_node_def far_port_def w)
    next
      case 4
      then have "f node port load ls' seen s = Some y" using run 4(2,3) unfolding Cons by (auto simp: Let_def split: if_splits)
      moreover have "\<not> leaves s node port right l" for right using 4(2,3) by (cases right) (auto simp: leaves_def Let_def)
      ultimately show ?thesis unfolding Cons by (intro flood_post_skip ih) simp_all
    qed
  qed
qed

text \<open>A path of the load stays among the links that are seen.\<close>

lemma path_seen:
  assumes top: "seen_from s S n0 p0" and flood: "\<And>l. l \<in> S \<Longrightarrow> flooded_link load n0 p0 S s s' n0 p0 l"
    and path: "load_path s n0 p0 path m q"
  shows "seen_from s S m q \<and> fst ` set path \<subseteq> S"
  using path
proof (induction rule: load_path.induct)
  case (cross path m q right l m')
  then have l: "l \<in> S" by (auto simp: seen_from_def)
  from flood [OF l] top obtain r n' p' k where
    r: "leaves s n' p' r l" "far_node r (link_at s l) = Some k" "seen_from s S k (far_port r (link_at s l))"
      "seen_from s S n' p'" unfolding flooded_link_def by blast
  have "seen_from s S m' (far_port right (link_at s l))"
  proof (cases "r = right")
    case True
    then show ?thesis using r(2,3) cross.hyps by simp
  next
    case False
    then have "m' = n'" using r(1) cross.hyps(4) by (auto simp: leaves_def far_node_def Let_def split: if_splits)
    moreover have "leaves s n' p' d j" if "leaves s n' (far_port right (link_at s l)) d j" for d j
      using that r(1) False by (cases right) (auto simp: leaves_def far_port_def Let_def split: if_splits)
    ultimately show ?thesis using r(4) by (auto simp: seen_from_def)
  qed
  then show ?case using cross.IH l by simp
qed (use top in simp)

lemma add_edge_load_spec:
  assumes "link_closed s N" and "node \<in> N"
  shows "\<exists>seen s'. add_edge_load node port load [] s = Some (seen, s') \<and> distinct seen \<and> node_at s' = node_at s \<and>
    (\<forall>l. if \<exists>right. crossed s node port l right
      then l \<in> set seen \<and> (\<exists>right. crossed s node port l right \<and> link_at s' l = with_load right load (link_at s l))
      else l \<notin> set seen \<and> link_at s' l = link_at s l)"
proof -
  obtain seen s' where run: "add_edge_load node port load [] s = Some (seen, s')"
    using add_edge_load_returns [OF assms, of port load "[]"] by blast
  then have post: "flood_post node port load (n_links (node_at s node)) [] s (seen, s')"
    unfolding add_edge_load_def by (rule flood_posts)
  then have f: "flooded load [] s seen s'" by (simp add: flood_post_def)
  have top: "seen_from s (set seen) node port"
    using post leaves_mem unfolding flood_post_def seen_from_def by auto
  have l: "flooded_link load node port (set seen) s s' node port l" if "l \<in> set seen" for l
    using post that load_path.here [of s node port] unfolding flood_post_def by force
  have "l \<in> set seen" if "crossed s node port l right" for l right
    using path_seen [OF top l] that unfolding crossed_def by force
  moreover have "\<exists>right. crossed s node port l right \<and> link_at s' l = with_load right load (link_at s l)" if "l \<in> set seen" for l
    using l [OF that] unfolding flooded_link_def by blast
  moreover have "distinct seen" "node_at s' = node_at s" using f by (auto simp: flooded_def)
  ultimately show ?thesis using run flooded_untouched [OF f] by (intro exI [of _ seen] exI [of _ s']) (auto; metis)
qed

definition same_graph :: "store \<Rightarrow> store \<Rightarrow> bool" where
  "same_graph s s' \<longleftrightarrow> node_at s' = node_at s \<and> (\<forall>l. l_node1 (link_at s' l) = l_node1 (link_at s l) \<and>
     l_node2 (link_at s' l) = l_node2 (link_at s l))"

lemma same_graph_refl [simp]: "same_graph s s"
  by (simp add: same_graph_def)

lemma same_graph_trans: "same_graph s s' \<Longrightarrow> same_graph s' s'' \<Longrightarrow> same_graph s s''"
  by (simp add: same_graph_def)

lemma flooded_same_graph: "flooded load seen s seen' s' \<Longrightarrow> same_graph s s'"
  by (simp add: same_graph_def flooded_ends)

lemma link_closed_same: "same_graph s s' \<Longrightarrow> link_closed s N \<Longrightarrow> link_closed s' N"
  by (simp add: link_closed_def same_graph_def)

lemma leaf_loads_returns:
  assumes "link_closed s N" and "n \<in> N" and "set ls \<subseteq> set (n_links (node_at s n))"
  shows "\<exists>seen' s'. leaf_loads n ls seen s = Some (seen', s') \<and> same_graph s s'"
  using assms
proof (induction ls arbitrary: seen s)
  case (Cons l ls)
  then have "l \<in> set (n_links (node_at s n))" by simp
  from link_closedD [OF Cons.prems(1,2) this] obtain a b where
    ab: "a \<in> N" "b \<in> N" "l_node1 (link_at s l) = Some a" "l_node2 (link_at s l) = Some b" .
  obtain m port load where call: "m \<in> N"
    "leaf_loads n (l # ls) seen s = do { (seen, s) \<leftarrow> add_edge_load m port load seen s; leaf_loads n ls seen s }"
    using ab by (cases "a = n") (auto simp: Let_def)
  from add_edge_load_returns [OF Cons.prems(1) call(1)] obtain seen1 s1 where
    1: "add_edge_load m port load seen s = Some (seen1, s1)" "flooded load seen s seen1 s1" by blast
  note g = flooded_same_graph [OF 1(2)]
  have "set ls \<subseteq> set (n_links (node_at s1 n))" using Cons.prems(3) g by (simp add: same_graph_def)
  from Cons.IH [OF link_closed_same [OF g Cons.prems(1)] Cons.prems(2) this, of seen1] call(2) 1(1) same_graph_trans [OF g]
  show ?case by auto
qed simp

lemma all_leaf_loads_returns:
  assumes "link_closed s N" and "set ns \<subseteq> N"
  shows "\<exists>s'. all_leaf_loads ns s = Some s' \<and> same_graph s s'"
  using assms
proof (induction ns arbitrary: s)
  case (Cons n ns)
  have "\<exists>s1. (if \<not> is_vgige s n \<and> \<not> n_is_parent (node_at s n)
       then map_option snd (leaf_loads n (n_links (node_at s n)) [] s) else Some s) = Some s1 \<and> same_graph s s1"
    using leaf_loads_returns [OF Cons.prems(1), of n "n_links (node_at s n)" "[]"] Cons.prems(2) by auto
  then obtain s1 where 1: "(if \<not> is_vgige s n \<and> \<not> n_is_parent (node_at s n)
       then map_option snd (leaf_loads n (n_links (node_at s n)) [] s) else Some s) = Some s1" "same_graph s s1" by blast
  from Cons.IH [OF link_closed_same [OF 1(2) Cons.prems(1)]] Cons.prems(2) obtain s' where
    "all_leaf_loads ns s1 = Some s'" "same_graph s1 s'" by auto
  with 1 same_graph_trans [OF 1(2)] show ?case by (intro exI [of _ s']) simp
qed simp

lemma cost_fold:
  "node_at (fold (\<lambda>l. upd_link l edge_cost_of) ls s) = node_at s \<and>
   (\<forall>k. link_at (fold (\<lambda>l. upd_link l edge_cost_of) ls s) k =
      (if k \<in> set ls then edge_cost_of (link_at s k) else link_at s k))"
proof (induction ls arbitrary: s)
  case (Cons l ls)
  have "edge_cost_of (edge_cost_of x) = edge_cost_of x" for x by (simp add: edge_cost_of_def)
  then show ?case using Cons [of "upd_link l edge_cost_of s"] by auto
qed simp

lemma calculate_edge_loads_returns:
  assumes "link_closed s N" and "set (t_nodes req) \<subseteq> N"
  shows "\<exists>s'. calculate_edge_loads req s = Some s' \<and> same_graph s s' \<and>
    (\<forall>l \<in> set (t_links req). l_cost (link_at s' l) =
      calculate_edge_cost (sint (l_rload (link_at s' l))) (sint (l_lload (link_at s' l))))"
proof -
  obtain s1 where 1: "all_leaf_loads (t_nodes req) s = Some s1" "same_graph s s1"
    using all_leaf_loads_returns [OF assms] by blast
  show ?thesis using 1 cost_fold [of "t_links req" s1]
    by (auto simp: calculate_edge_loads_def same_graph_def edge_cost_of_def)
qed

end
