(* ===== verification/Switch_Merge.thy ===== *)
theory Switch_Merge
  imports Edge_Loads
begin

text \<open>
  \<^verbatim>\<open>database/src/onldb.cc\<close>: the merging of virtual switches (\<^verbatim>\<open>merge_vswitches\<close>) and the costs of
  the nodes (\<^verbatim>\<open>calculate_node_costs\<close>). Merging contracts the graph (\<open>merge_loop_result\<close>), unless a
  switch is linked to itself: then the loop over its links goes on for ever (\<open>merge_links_forever\<close>).
\<close>

section \<open>Merging virtual switches\<close>

text \<open>The first link between two virtual switches whose loads are small enough.\<close>

fun find_merge :: "store \<Rightarrow> lptr list \<Rightarrow> lptr option option" where
  "find_merge s [] = Some None"
| "find_merge s (l # ls) = (let x = link_at s l in do {
     n1 \<leftarrow> l_node1 x;
     if is_vgige s n1 then do {
       n2 \<leftarrow> l_node2 x;
       if is_vgige s n2 \<and> l_lload x \<le> 10000 \<and> l_rload x \<le> 10000 then Some (Some l) else find_merge s ls }
     else find_merge s ls })"

text \<open>The loop over the links of \<open>n2\<close>, by the position of its iterator: the list may grow on the way, when
  \<open>n1\<close> and \<open>n2\<close> are one node.\<close>

partial_function (option) merge_links ::
  "nptr \<Rightarrow> nptr \<Rightarrow> lptr \<Rightarrow> nat \<Rightarrow> topology \<Rightarrow> store \<Rightarrow> (topology \<times> store) option" where
  "merge_links n1 n2 r i t s = (let ls = n_links (node_at s n2) in
     if length ls \<le> i then Some (t, s)
     else let l = ls ! i; x = link_at s l in
       if l = r then merge_links n1 n2 r (Suc i) t s
       else if l_node1 x = Some n1 \<and> l_node2 x = Some n2 \<or> l_node1 x = Some n2 \<and> l_node2 x = Some n1
       then merge_links n1 n2 r (Suc i) (t\<lparr>t_links := removeAll l (t_links t)\<rparr>) s
       else merge_links n1 n2 r (Suc i) t
         (upd_node n1 (\<lambda>y. y\<lparr>n_links := n_links y @ [l]\<rparr>)
           (upd_link l (\<lambda>x. if l_node1 x = Some n2 then x\<lparr>l_node1 := Some n1\<rparr> else x\<lparr>l_node2 := Some n1\<rparr>) s)))"

definition merge_pair :: "nptr \<Rightarrow> nptr \<Rightarrow> lptr \<Rightarrow> topology \<Rightarrow> store \<Rightarrow> (topology \<times> store) option" where
  "merge_pair n1 n2 r t s = do {
     (t, s) \<leftarrow> merge_links n1 n2 r 0 t s;
     let s = upd_node n2 (\<lambda>y. y\<lparr>n_links := []\<rparr>) s;
     let s = upd_node n1 (\<lambda>y. y\<lparr>n_user_nodes := n_user_nodes y @ n_user_nodes (node_at s n2)\<rparr>) s;
     let s = upd_node n2 (\<lambda>y. y\<lparr>n_user_nodes := []\<rparr>) s;
     let s = upd_node n1 (\<lambda>y. y\<lparr>n_links := removeAll r (n_links y)\<rparr>) s;
     let t = t\<lparr>t_links := remove1 r (t_links t)\<rparr>;
     let t = t\<lparr>t_nodes := removeAll n2 (t_nodes t)\<rparr>;
     Some (t, s) }"

partial_function (option) merge_loop :: "topology \<Rightarrow> store \<Rightarrow> (topology \<times> store) option" where
  "merge_loop t s = do {
     f \<leftarrow> find_merge s (t_links t);
     case f of None \<Rightarrow> Some (t, s)
     | Some r \<Rightarrow> do {
         n1 \<leftarrow> l_node1 (link_at s r);
         n2 \<leftarrow> l_node2 (link_at s r);
         (t, s) \<leftarrow> merge_pair n1 n2 r t s;
         merge_loop t s } }"

definition merge_vswitches :: "topology \<Rightarrow> store \<Rightarrow> (topology \<times> store) option" where
  "merge_vswitches req s =
    (if list_ex (\<lambda>n. n_fixed (node_at s n)) (t_nodes req) then Some (req, s) else merge_loop req s)"


section \<open>The costs of the nodes\<close>

definition link_costs :: "store \<Rightarrow> nptr \<Rightarrow> int" where
  "link_costs s n = sum_list (map (\<lambda>l. l_cost (link_at s l)) (n_links (node_at s n)))"

definition set_cost :: "int \<Rightarrow> nptr \<Rightarrow> store \<Rightarrow> store" where
  "set_cost c n s = upd_node n (\<lambda>x. x\<lparr>n_cost := of_int c\<rparr>) s"

text \<open>A cluster has the cost of all links of its children, a node of its own the cost of its links, the parts of
  a cluster nothing besides what their cluster gives them.\<close>

fun children_costs :: "nptr list \<Rightarrow> int \<Rightarrow> store \<Rightarrow> int \<times> store" where
  "children_costs [] cost s = (cost, s)"
| "children_costs (c # cs) cost s = (let child_cost = link_costs s c in
     children_costs cs (cost + child_cost) (set_cost child_cost c s))"

fun node_costs :: "nptr list \<Rightarrow> store \<Rightarrow> store" where
  "node_costs [] s = s"
| "node_costs (n # ns) s = (let x = node_at s n;
     (cost, s) = (if n_is_parent x then children_costs (n_children x) 0 s
       else if n_parent x = None then (link_costs s n, s) else (0, s))
     in node_costs ns (set_cost cost n s))"

definition calculate_node_costs :: "topology \<Rightarrow> store \<Rightarrow> (topology \<times> store) option" where
  "calculate_node_costs req s = do {
     s \<leftarrow> calculate_edge_loads req s;
     (req, s) \<leftarrow> merge_vswitches req s;
     Some (req, node_costs (t_nodes req) s) }"

section \<open>A loop at a switch\<close>

definition one_end :: "nptr \<Rightarrow> link_resource \<Rightarrow> bool" where
  "one_end n x \<longleftrightarrow> (l_node1 x = Some n) \<noteq> (l_node2 x = Some n)"

definition feeds_itself :: "nptr \<Rightarrow> nptr \<Rightarrow> lptr \<Rightarrow> nat \<Rightarrow> lptr \<Rightarrow> store \<Rightarrow> bool" where
  "feeds_itself n m r i k s \<longleftrightarrow> n = m \<and> k \<in> set (drop i (n_links (node_at s n))) \<and> k \<noteq> r \<and> one_end n (link_at s k)"

lemma merge_links_forever_aux:
  assumes "merge_links n m r i t s = Some y"
  shows "\<not> feeds_itself n m r i k s"
proof (rule merge_links.raw_induct [where P = "\<lambda>n m r i t s y. \<not> feeds_itself n m r i k s", OF _ assms], rule notI)
  fix ml n m r i t s y
  assume IH: "\<And>n m r i t s y. ml n m r i t s = Some y \<Longrightarrow> \<not> feeds_itself n m r i k s"
    and body: "(let ls = n_links (node_at s m) in
     if length ls \<le> i then Some (t, s)
     else let l = ls ! i; x = link_at s l in
       if l = r then ml n m r (Suc i) t s
       else if l_node1 x = Some n \<and> l_node2 x = Some m \<or> l_node1 x = Some m \<and> l_node2 x = Some n
       then ml n m r (Suc i) (t\<lparr>t_links := removeAll l (t_links t)\<rparr>) s
       else ml n m r (Suc i) t
         (upd_node n (\<lambda>y. y\<lparr>n_links := n_links y @ [l]\<rparr>)
           (upd_link l (\<lambda>x. if l_node1 x = Some m then x\<lparr>l_node1 := Some n\<rparr> else x\<lparr>l_node2 := Some n\<rparr>) s))) = Some y"
    and feeds: "feeds_itself n m r i k s"
  let ?ls = "n_links (node_at s n)"
  from feeds have pre: "n = m" "k \<in> set (drop i ?ls)" "k \<noteq> r" "one_end n (link_at s k)" by (auto simp: feeds_itself_def)
  have i: "i < length ?ls" using pre(2) by (cases "i < length ?ls") auto
  then have at: "drop i ?ls = ?ls ! i # drop (Suc i) ?ls" by (simp add: Cons_nth_drop_Suc)
  have not_loop: "\<not> (l_node1 (link_at s k) = Some n \<and> l_node2 (link_at s k) = Some n)" using pre(4) by (auto simp: one_end_def)
  let ?l = "?ls ! i"
  show False
  proof (cases "?l = r \<or> l_node1 (link_at s ?l) = Some n \<and> l_node2 (link_at s ?l) = Some n")
    case True
    then have "feeds_itself n n r (Suc i) k s" using pre not_loop unfolding at by (auto simp: feeds_itself_def)
    moreover obtain t' where "ml n n r (Suc i) t' s = Some y" using body [folded pre(1)] i True by (auto simp: Let_def split: if_splits)
    ultimately show ?thesis using IH by blast
  next
    case False
    let ?f = "\<lambda>x. if l_node1 x = Some n then x\<lparr>l_node1 := Some n\<rparr> else x\<lparr>l_node2 := Some n\<rparr>"
    let ?s = "upd_node n (\<lambda>y. y\<lparr>n_links := n_links y @ [?l]\<rparr>) (upd_link ?l ?f s)"
    have "k \<in> set (drop (Suc i) (n_links (node_at ?s n)))" using pre(2) i unfolding at by auto
    moreover have "one_end n (link_at ?s k)" using pre(4) by (auto simp: one_end_def)
    ultimately have "feeds_itself n n r (Suc i) k ?s" using pre(3) by (simp add: feeds_itself_def)
    moreover have "ml n n r (Suc i) t ?s = Some y" using body [folded pre(1)] i False by (auto simp: Let_def split: if_splits)
    ultimately show ?thesis using IH by blast
  qed
qed

lemma merge_links_forever:
  assumes "k \<in> set (n_links (node_at s n))" and "k \<noteq> r" and "one_end n (link_at s k)"
  shows "merge_links n n r 0 t s = None"
  using merge_links_forever_aux [of n n r 0 t s _ k] assms by (cases "merge_links n n r 0 t s") (auto simp: feeds_itself_def)

lemma merge_vswitches_forever:
  assumes "\<forall>n \<in> set (t_nodes req). \<not> n_fixed (node_at s n)" and "find_merge s (t_links req) = Some (Some r)"
    and "l_node1 (link_at s r) = Some n" "l_node2 (link_at s r) = Some n"
    and "k \<in> set (n_links (node_at s n))" "k \<noteq> r" "one_end n (link_at s k)"
  shows "merge_vswitches req s = None"
  using assms(1-4) merge_links_forever [OF assms(5-7)]
  by (auto simp: merge_vswitches_def merge_loop.simps [of req s] merge_pair_def list_ex_iff)

section \<open>One merge\<close>

definition joins :: "store \<Rightarrow> nptr \<Rightarrow> nptr \<Rightarrow> lptr \<Rightarrow> bool" where
  "joins s a b l \<longleftrightarrow> l_node1 (link_at s l) = Some a \<and> l_node2 (link_at s l) = Some b \<or>
     l_node1 (link_at s l) = Some b \<and> l_node2 (link_at s l) = Some a"

definition redirect :: "nptr \<Rightarrow> nptr \<Rightarrow> link_resource \<Rightarrow> link_resource" where
  "redirect n1 n2 x = (if l_node1 x = Some n2 then x\<lparr>l_node1 := Some n1\<rparr> else x\<lparr>l_node2 := Some n1\<rparr>)"

text \<open>The links \<open>ls\<close> of \<open>n2\<close> have gone to \<open>n1\<close>, but for \<open>r\<close> and those that join the two, which have left the
  topology.\<close>

definition moved_to :: "nptr \<Rightarrow> nptr \<Rightarrow> lptr \<Rightarrow> lptr list \<Rightarrow> topology \<Rightarrow> store \<Rightarrow> topology \<Rightarrow> store \<Rightarrow> bool" where
  "moved_to n1 n2 r ls t s t' s' \<longleftrightarrow>
     t' = t\<lparr>t_links := t_links t'\<rparr> \<and>
     t_links t' = filter (\<lambda>l. \<not> (l \<in> set ls \<and> l \<noteq> r \<and> joins s n1 n2 l)) (t_links t) \<and>
     (\<forall>l. link_at s' l = (if l \<in> set ls \<and> l \<noteq> r \<and> \<not> joins s n1 n2 l then redirect n1 n2 (link_at s l) else link_at s l)) \<and>
     (\<forall>n. node_at s' n = (if n = n1 then (node_at s n1)\<lparr>n_links := n_links (node_at s n1) @
        filter (\<lambda>l. l \<noteq> r \<and> \<not> joins s n1 n2 l) ls\<rparr> else node_at s n))"

lemma merge_links_result:
  assumes "n1 \<noteq> n2" and "drop i (n_links (node_at s n2)) = ls" and "distinct ls"
  shows "\<exists>t' s'. merge_links n1 n2 r i t s = Some (t', s') \<and> moved_to n1 n2 r ls t s t' s'"
  using assms(2,3)
proof (induction ls arbitrary: i t s)
  case Nil
  then show ?case by (subst merge_links.simps) (simp add: Let_def moved_to_def filter_True)
next
  case (Cons l ls)
  then have i: "i < length (n_links (node_at s n2))" and l: "n_links (node_at s n2) ! i = l"
    and rest: "drop (Suc i) (n_links (node_at s n2)) = ls"
    by (metis drop_all linorder_not_le list.discI) (metis Cons.prems(1) hd_drop_conv_nth drop_all linorder_not_le list.discI list.sel(1),
      metis Cons.prems(1) drop_Suc list.sel(3) tl_drop)
  have new: "l \<notin> set ls" "distinct ls" using Cons.prems(2) by auto
  note unfold = merge_links.simps [of n1 n2 r i t s]
  consider "l = r" | "l \<noteq> r" "joins s n1 n2 l" | "l \<noteq> r" "\<not> joins s n1 n2 l" by blast
  then show ?case
  proof cases
    case 1
    from Cons.IH [OF rest new(2), of t] obtain t' s' where
      "merge_links n1 n2 r (Suc i) t s = Some (t', s')" "moved_to n1 n2 r ls t s t' s'" by blast
    then show ?thesis using 1 i l new(1) by (auto simp: unfold Let_def moved_to_def intro!: filter_cong)
  next
    case 2
    from Cons.IH [OF rest new(2), of "t\<lparr>t_links := removeAll l (t_links t)\<rparr>"] obtain t' s' where
      "merge_links n1 n2 r (Suc i) (t\<lparr>t_links := removeAll l (t_links t)\<rparr>) s = Some (t', s')"
      "moved_to n1 n2 r ls (t\<lparr>t_links := removeAll l (t_links t)\<rparr>) s t' s'" by blast
    then show ?thesis using 2 i l new(1)
      by (auto simp: unfold Let_def moved_to_def joins_def removeAll_filter_not_eq intro!: filter_cong)
  next
    case 3
    let ?s = "upd_node n1 (\<lambda>y. y\<lparr>n_links := n_links y @ [l]\<rparr>) (upd_link l (redirect n1 n2) s)"
    have "drop (Suc i) (n_links (node_at ?s n2)) = ls" using rest assms(1) by simp
    from Cons.IH [OF this new(2), of t] obtain t' s' where
      run: "merge_links n1 n2 r (Suc i) t ?s = Some (t', s')" and m: "moved_to n1 n2 r ls t ?s t' s'" by blast
    have "merge_links n1 n2 r i t s = Some (t', s')"
      using 3 i l run unfolding joins_def by (auto simp: unfold Let_def redirect_def [abs_def])
    moreover have "joins ?s n1 n2 k = joins s n1 n2 k" if "k \<in> set ls" for k
      using that new(1) by (auto simp: joins_def)
    then have "moved_to n1 n2 r (l # ls) t s t' s'" using m 3 new(1) unfolding moved_to_def
      by (auto cong: filter_cong conj_cong intro!: filter_cong)
    ultimately show ?thesis by blast
  qed
qed

section \<open>Merging contracts the graph\<close>

definition mergeable :: "store \<Rightarrow> lptr \<Rightarrow> bool" where
  "mergeable s l \<longleftrightarrow> (\<exists>a b. l_node1 (link_at s l) = Some a \<and> l_node2 (link_at s l) = Some b \<and> is_vgige s a \<and> is_vgige s b) \<and>
     l_lload (link_at s l) \<le> 10000 \<and> l_rload (link_at s l) \<le> 10000"

text \<open>What merging relies on: the links of the topology have their ends in it and are listed there, and the lists
  of a virtual switch have no link twice and none from the switch to itself.\<close>

definition merge_ok :: "topology \<Rightarrow> store \<Rightarrow> bool" where
  "merge_ok t s \<longleftrightarrow> distinct (t_links t) \<and>
     (\<forall>l \<in> set (t_links t). \<exists>a b. l_node1 (link_at s l) = Some a \<and> l_node2 (link_at s l) = Some b \<and>
        a \<in> set (t_nodes t) \<and> b \<in> set (t_nodes t) \<and> l \<in> set (n_links (node_at s a)) \<and> l \<in> set (n_links (node_at s b))) \<and>
     (\<forall>n \<in> set (t_nodes t). is_vgige s n \<longrightarrow> distinct (n_links (node_at s n)) \<and>
        (\<forall>l \<in> set (n_links (node_at s n)). \<exists>a b. l_node1 (link_at s l) = Some a \<and> l_node2 (link_at s l) = Some b \<and>
           a \<noteq> b \<and> (n = a \<or> n = b)))"

lemma merge_ok_link:
  assumes "merge_ok t s" and "l \<in> set (t_links t)"
  obtains a b where "l_node1 (link_at s l) = Some a" "l_node2 (link_at s l) = Some b" "a \<in> set (t_nodes t)" "b \<in> set (t_nodes t)"
    "l \<in> set (n_links (node_at s a))" "l \<in> set (n_links (node_at s b))"
  using assms unfolding merge_ok_def by blast

lemma merge_ok_switch:
  assumes "merge_ok t s" and "n \<in> set (t_nodes t)" and "is_vgige s n"
  shows "distinct (n_links (node_at s n))"
    and "l \<in> set (n_links (node_at s n)) \<Longrightarrow> \<exists>m. n \<noteq> m \<and> joins s n m l"
  using assms unfolding merge_ok_def joins_def by (blast, metis)

lemma find_merge_result:
  assumes "\<forall>l \<in> set ls. l_node1 (link_at s l) \<noteq> None \<and> l_node2 (link_at s l) \<noteq> None"
  shows "find_merge s ls = Some (find (mergeable s) ls)"
  using assms by (induction ls) (auto simp: Let_def mergeable_def)

text \<open>The effect of one merge on what the topology shows.\<close>

definition merge_map :: "nptr \<Rightarrow> nptr \<Rightarrow> nptr \<Rightarrow> nptr" where
  "merge_map n1 n2 n = (if n = n2 then n1 else n)"

lemma merge_pair_result:
  assumes ok: "merge_ok t s" and r: "r \<in> set (t_links t)" "joins s n1 n2 r" "n1 \<noteq> n2"
    and vgige: "is_vgige s n1" "is_vgige s n2"
  shows "\<exists>t' s'. merge_pair n1 n2 r t s = Some (t', s') \<and> t_nodes t' = removeAll n2 (t_nodes t) \<and>
    distinct (t_links t') \<and> set (t_links t') = {l \<in> set (t_links t). \<not> joins s n1 n2 l} \<and>
    (\<forall>l. link_at s' l = (if l \<in> set (n_links (node_at s n2)) \<and> \<not> joins s n1 n2 l then redirect n1 n2 (link_at s l) else link_at s l)) \<and>
    (\<forall>n. n_type (node_at s' n) = n_type (node_at s n)) \<and>
    n_links (node_at s' n1) = removeAll r (n_links (node_at s n1)) @
      filter (\<lambda>l. \<not> joins s n1 n2 l) (n_links (node_at s n2)) \<and>
    (\<forall>n. n \<noteq> n1 \<and> n \<noteq> n2 \<longrightarrow> n_links (node_at s' n) = n_links (node_at s n))"
proof -
  have n2: "n2 \<in> set (t_nodes t)" "distinct (n_links (node_at s n2))"
    using merge_ok_link [OF ok r(1)] r(2) merge_ok_switch(1) [OF ok _ vgige(2)] unfolding joins_def by (metis option.inject)+
  have "drop 0 (n_links (node_at s n2)) = n_links (node_at s n2)" by simp
  from merge_links_result [OF r(3) this n2(2)] obtain t1 s1 where
    1: "merge_links n1 n2 r 0 t s = Some (t1, s1)" "moved_to n1 n2 r (n_links (node_at s n2)) t s t1 s1" by blast
  have links: "l \<in> set (n_links (node_at s n2))" if "l \<in> set (t_links t)" "joins s n1 n2 l" for l
    using merge_ok_link [OF ok that(1)] that(2) unfolding joins_def by (metis option.inject)
  have nodes: "t_nodes t1 = t_nodes t"
    using 1(2) unfolding moved_to_def by (metis topology.select_convs(1) topology.surjective topology.update_convs(2))
  have dist: "distinct (t_links t)" using ok by (simp add: merge_ok_def)
  obtain t' s' where pair: "merge_pair n1 n2 r t s = Some (t', s')" and
    parts: "t_links t' = remove1 r (t_links t1)" "t_nodes t' = removeAll n2 (t_nodes t1)"
      "link_at s' = link_at s1" "\<forall>n. n_type (node_at s' n) = n_type (node_at s1 n)"
      "n_links (node_at s' n1) = removeAll r (n_links (node_at s1 n1))"
      "\<forall>n. n \<noteq> n1 \<and> n \<noteq> n2 \<longrightarrow> n_links (node_at s' n) = n_links (node_at s1 n)"
    using 1(1) r(3) by (simp add: merge_pair_def Let_def)
  have "filter (\<lambda>l. l \<noteq> r \<and> \<not> joins s n1 n2 l) ls = filter (\<lambda>l. \<not> joins s n1 n2 l) ls"
    "removeAll r (filter (\<lambda>l. \<not> joins s n1 n2 l) ls) = filter (\<lambda>l. \<not> joins s n1 n2 l) ls" for ls
    using r(2) by (auto intro!: filter_cong removeAll_id)
  then have "n_links (node_at s' n1) = removeAll r (n_links (node_at s n1)) @
      filter (\<lambda>l. \<not> joins s n1 n2 l) (n_links (node_at s n2))"
    using parts(5) 1(2) by (simp add: moved_to_def)
  moreover have "set (t_links t') = {l \<in> set (t_links t). \<not> joins s n1 n2 l}"
    using 1(2) parts(1) dist links r(1,2) unfolding moved_to_def by auto
  moreover have "distinct (t_links t')" using 1(2) parts(1) dist unfolding moved_to_def by simp
  moreover have "link_at s' l = (if l \<in> set (n_links (node_at s n2)) \<and> \<not> joins s n1 n2 l
      then redirect n1 n2 (link_at s l) else link_at s l)" for l
    using 1(2) parts(3) r(2) unfolding moved_to_def by auto
  ultimately show ?thesis using pair parts(2,4,6) nodes 1(2) unfolding moved_to_def by auto
qed

text \<open>
  \<open>f\<close> says which node stands for which: the topology keeps the nodes that stand for themselves, its links
  join what stands for their old ends, a link is lost only with ends that have become one, and what stands
  for a node was joined to it by links that may be merged.
\<close>

definition may_merge :: "topology \<Rightarrow> store \<Rightarrow> (nptr \<times> nptr) set" where
  "may_merge t s = {(a, b). \<exists>l \<in> set (t_links t). mergeable s l \<and> joins s a b l}"

definition contracts :: "(nptr \<Rightarrow> nptr) \<Rightarrow> topology \<Rightarrow> store \<Rightarrow> topology \<Rightarrow> store \<Rightarrow> bool" where
  "contracts f t s t' s' \<longleftrightarrow>
     t_nodes t' = filter (\<lambda>n. f n = n) (t_nodes t) \<and>
     (\<forall>n. f n \<noteq> n \<longrightarrow> n \<in> set (t_nodes t) \<and> f n \<in> set (t_nodes t') \<and> (n, f n) \<in> (may_merge t s)\<^sup>*) \<and>
     set (t_links t') \<subseteq> set (t_links t) \<and>
     (\<forall>l \<in> set (t_links t). if l \<in> set (t_links t')
        then l_node1 (link_at s' l) = map_option f (l_node1 (link_at s l)) \<and> l_node2 (link_at s' l) = map_option f (l_node2 (link_at s l))
        else map_option f (l_node1 (link_at s l)) = map_option f (l_node2 (link_at s l))) \<and>
     (\<forall>l. l_rload (link_at s' l) = l_rload (link_at s l) \<and> l_lload (link_at s' l) = l_lload (link_at s l)) \<and>
     (\<forall>n. n_type (node_at s' n) = n_type (node_at s n))"

lemma contractsD:
  assumes "contracts f t s t' s'"
  shows "t_nodes t' = filter (\<lambda>n. f n = n) (t_nodes t)"
    and "f n \<noteq> n \<Longrightarrow> n \<in> set (t_nodes t) \<and> f n \<in> set (t_nodes t') \<and> (n, f n) \<in> (may_merge t s)\<^sup>*"
    and "set (t_links t') \<subseteq> set (t_links t)"
    and "l \<in> set (t_links t') \<Longrightarrow> l_node1 (link_at s' l) = map_option f (l_node1 (link_at s l)) \<and>
      l_node2 (link_at s' l) = map_option f (l_node2 (link_at s l))"
    and "l \<in> set (t_links t) \<Longrightarrow> l \<notin> set (t_links t') \<Longrightarrow>
      map_option f (l_node1 (link_at s l)) = map_option f (l_node2 (link_at s l))"
    and "l_rload (link_at s' l) = l_rload (link_at s l)" "l_lload (link_at s' l) = l_lload (link_at s l)"
    and "n_type (node_at s' n) = n_type (node_at s n)"
  using assms unfolding contracts_def by (auto split: if_splits)

lemma contracts_refl: "contracts id t s t s"
  by (simp add: contracts_def option.map_id)

lemma may_merge_sym: "sym (may_merge t s)"
  by (rule symI) (auto simp: may_merge_def joins_def)

lemma contracts_near:
  assumes "contracts f t s t' s'"
  shows "(n, f n) \<in> (may_merge t s)\<^sup>*" "(f n, n) \<in> (may_merge t s)\<^sup>*"
proof -
  show 1: "(n, f n) \<in> (may_merge t s)\<^sup>*" using contractsD(2) [OF assms, of n] by (cases "f n = n") auto
  show "(f n, n) \<in> (may_merge t s)\<^sup>*" by (rule symD [OF sym_rtrancl [OF may_merge_sym] 1])
qed

lemma contracts_may_merge:
  assumes c: "contracts f t s t' s'" and ok: "merge_ok t s"
    and type: "\<And>n. is_vgige s (f n) = is_vgige s n"
  shows "(may_merge t' s')\<^sup>* \<subseteq> (may_merge t s)\<^sup>*"
proof (rule rtrancl_subset_rtrancl, rule subrelI)
  fix a b assume "(a, b) \<in> may_merge t' s'"
  then obtain l where l: "l \<in> set (t_links t')" "mergeable s' l" "joins s' a b l" by (auto simp: may_merge_def)
  have lt: "l \<in> set (t_links t)" using contractsD(3) [OF c] l(1) by blast
  from merge_ok_link [OF ok lt] obtain x y where xy: "l_node1 (link_at s l) = Some x" "l_node2 (link_at s l) = Some y" .
  have ends: "l_node1 (link_at s' l) = Some (f x)" "l_node2 (link_at s' l) = Some (f y)"
    using contractsD(4) [OF c l(1)] xy by simp_all
  have m: "mergeable s l" using l(2) xy ends type by (simp add: mergeable_def contractsD(6-8) [OF c])
  have "(x, y) \<in> may_merge t s" "(y, x) \<in> may_merge t s"
    using m lt xy unfolding may_merge_def joins_def by auto
  then have xy': "(f x, f y) \<in> (may_merge t s)\<^sup>*" "(f y, f x) \<in> (may_merge t s)\<^sup>*"
    using contracts_near [OF c] by (meson rtrancl.rtrancl_into_rtrancl rtrancl_trans)+
  show "(a, b) \<in> (may_merge t s)\<^sup>*" using l(3) ends xy' by (auto simp: joins_def)
qed

lemma contracts_trans:
  assumes c1: "contracts f t s t1 s1" and c2: "contracts g t1 s1 t2 s2" and ok: "merge_ok t s"
    and type: "\<And>n. is_vgige s (f n) = is_vgige s n"
  shows "contracts (g \<circ> f) t s t2 s2"
proof -
  have both: "g (f n) = n \<longleftrightarrow> f n = n \<and> g n = n" for n
  proof
    assume n: "g (f n) = n"
    have "f n = n"
    proof (rule ccontr)
      assume "f n \<noteq> n"
      then have "n \<notin> set (t_nodes t1)" using contractsD(1) [OF c1] by simp
      moreover have "n \<in> set (t_nodes t1)"
        using contractsD(2) [OF c2, of "f n"] n \<open>f n \<noteq> n\<close> contractsD(1) [OF c2] by auto
      ultimately show False by blast
    qed
    then show "f n = n \<and> g n = n" using n by simp
  qed simp
  have "t_nodes t2 = filter (\<lambda>n. (g \<circ> f) n = n) (t_nodes t)"
    using contractsD(1) [OF c1] contractsD(1) [OF c2] both by (simp add: conj_commute)
  moreover have "n \<in> set (t_nodes t) \<and> (g \<circ> f) n \<in> set (t_nodes t2) \<and> (n, (g \<circ> f) n) \<in> (may_merge t s)\<^sup>*"
    if "(g \<circ> f) n \<noteq> n" for n
  proof -
    have near: "(n, g (f n)) \<in> (may_merge t s)\<^sup>*"
      using contracts_near(1) [OF c1] contracts_near(1) [OF c2, of "f n"] contracts_may_merge [OF c1 ok type]
      by (meson rtrancl_trans subset_iff)
    show ?thesis
    proof (cases "f n = n")
      case True
      then show ?thesis using that contractsD(2) [OF c2, of n] contractsD(1) [OF c1] near by auto
    next
      case False
      have "g (f n) \<in> set (t_nodes t2)"
      proof (cases "g (f n) = f n")
        case True
        then show ?thesis using contractsD(2) [OF c1 False] contractsD(1) [OF c2] by simp
      qed (use contractsD(2) [OF c2] in blast)
      then show ?thesis using contractsD(2) [OF c1 False] near by simp
    qed
  qed
  moreover have "if l \<in> set (t_links t2)
      then l_node1 (link_at s2 l) = map_option (g \<circ> f) (l_node1 (link_at s l)) \<and>
        l_node2 (link_at s2 l) = map_option (g \<circ> f) (l_node2 (link_at s l))
      else map_option (g \<circ> f) (l_node1 (link_at s l)) = map_option (g \<circ> f) (l_node2 (link_at s l))"
    if l: "l \<in> set (t_links t)" for l
  proof (cases "l \<in> set (t_links t1)")
    case True
    then show ?thesis using contractsD(4) [OF c1 True] contractsD(4,5) [OF c2, of l]
      by (auto simp: option.map_comp)
  next
    case False
    then show ?thesis using contractsD(5) [OF c1 l False] contractsD(3) [OF c2]
      by (auto simp flip: option.map_comp)
  qed
  moreover have "set (t_links t2) \<subseteq> set (t_links t)" using contractsD(3) [OF c1] contractsD(3) [OF c2] by blast
  ultimately show ?thesis unfolding contracts_def using contractsD(6-8) [OF c1] contractsD(6-8) [OF c2] by auto
qed

lemma redirect_ends:
  assumes "l_node1 x = Some a" and "l_node2 x = Some b" and "(a = n2) \<noteq> (b = n2)"
  shows "l_node1 (redirect n1 n2 x) = Some (merge_map n1 n2 a)" "l_node2 (redirect n1 n2 x) = Some (merge_map n1 n2 b)"
    "l_rload (redirect n1 n2 x) = l_rload x" "l_lload (redirect n1 n2 x) = l_lload x"
  using assms by (auto simp: redirect_def merge_map_def)

lemma merge_pair_contracts:
  assumes ok: "merge_ok t s" and r: "r \<in> set (t_links t)" "mergeable s r"
    and ends: "l_node1 (link_at s r) = Some n1" "l_node2 (link_at s r) = Some n2"
  shows "\<exists>t' s'. merge_pair n1 n2 r t s = Some (t', s') \<and> merge_ok t' s' \<and>
    contracts (merge_map n1 n2) t s t' s' \<and> length (t_links t') < length (t_links t)"
proof -
  let ?f = "merge_map n1 n2" and ?ls = "n_links (node_at s n2)"
  have vgige: "is_vgige s n1" "is_vgige s n2" using r(2) ends by (auto simp: mergeable_def)
  have nodes: "n1 \<in> set (t_nodes t)" "n2 \<in> set (t_nodes t)" and listed: "r \<in> set (n_links (node_at s n1))" "r \<in> set ?ls"
    using merge_ok_link [OF ok r(1)] ends by (metis option.inject)+
  have ne: "n1 \<noteq> n2" using merge_ok_switch(2) [OF ok nodes(1) vgige(1) listed(1)] ends by (auto simp: joins_def)
  have join: "joins s n1 n2 r" using ends by (simp add: joins_def)
  from merge_pair_result [OF ok r(1) join ne vgige] obtain t' s' where
    pair: "merge_pair n1 n2 r t s = Some (t', s')" and t': "t_nodes t' = removeAll n2 (t_nodes t)" "distinct (t_links t')"
      "set (t_links t') = {l \<in> set (t_links t). \<not> joins s n1 n2 l}"
    and links: "\<And>l. link_at s' l = (if l \<in> set ?ls \<and> \<not> joins s n1 n2 l then redirect n1 n2 (link_at s l) else link_at s l)"
    and types: "\<And>n. n_type (node_at s' n) = n_type (node_at s n)"
    and lists: "n_links (node_at s' n1) = removeAll r (n_links (node_at s n1)) @ filter (\<lambda>l. \<not> joins s n1 n2 l) ?ls"
      "\<And>n. n \<noteq> n1 \<Longrightarrow> n \<noteq> n2 \<Longrightarrow> n_links (node_at s' n) = n_links (node_at s n)" by blast
  have one: "\<exists>m. m \<noteq> n1 \<and> m \<noteq> n2 \<and> joins s n2 m l" if "l \<in> set ?ls" "\<not> joins s n1 n2 l" for l
    using merge_ok_switch(2) [OF ok nodes(2) vgige(2) that(1)] that(2) unfolding joins_def by metis
  have moved: "l_node1 (link_at s' l) = map_option ?f (l_node1 (link_at s l)) \<and>
      l_node2 (link_at s' l) = map_option ?f (l_node2 (link_at s l))" if l: "l \<in> set ?ls" "\<not> joins s n1 n2 l" for l
    using one [OF l] links [of l] l unfolding joins_def by (auto simp: redirect_def merge_map_def)
  have kept: "l_node1 (link_at s' l) = map_option ?f (l_node1 (link_at s l)) \<and>
      l_node2 (link_at s' l) = map_option ?f (l_node2 (link_at s l))" if l: "l \<in> set (t_links t')" for l
  proof (cases "l \<in> set ?ls")
    case True
    then show ?thesis using moved [of l] l t'(3) by blast
  next
    case False
    have "l \<in> set (t_links t)" using l t'(3) by blast
    from merge_ok_link [OF ok this] obtain a b where ab: "l_node1 (link_at s l) = Some a" "l_node2 (link_at s l) = Some b"
      "l \<in> set (n_links (node_at s a))" "l \<in> set (n_links (node_at s b))" .
    then have "a \<noteq> n2" "b \<noteq> n2" using False by auto
    then show ?thesis using False links [of l] ab by (simp add: merge_map_def)
  qed
  have loads: "l_rload (link_at s' l) = l_rload (link_at s l) \<and> l_lload (link_at s' l) = l_lload (link_at s l)" for l
    using links [of l] by (simp add: redirect_def)
  have near: "(n2, n1) \<in> (may_merge t s)\<^sup>*"
    using r join by (intro r_into_rtrancl) (auto simp: may_merge_def joins_def)
  have c: "contracts ?f t s t' s'"
    unfolding contracts_def
  proof (intro conjI allI ballI impI)
    show "t_nodes t' = filter (\<lambda>n. ?f n = n) (t_nodes t)"
      using t'(1) ne by (auto simp: merge_map_def removeAll_filter_not_eq intro!: filter_cong)
    fix l assume l: "l \<in> set (t_links t)"
    show "if l \<in> set (t_links t') then l_node1 (link_at s' l) = map_option ?f (l_node1 (link_at s l)) \<and>
        l_node2 (link_at s' l) = map_option ?f (l_node2 (link_at s l))
      else map_option ?f (l_node1 (link_at s l)) = map_option ?f (l_node2 (link_at s l))"
      using kept [of l] l t'(3) ne by (auto simp: joins_def merge_map_def)
  qed (use nodes ne near t' loads types in \<open>auto simp: merge_map_def split: if_splits\<close>)
  have listed': "l \<in> set (n_links (node_at s' (?f a)))" if "l \<in> set (t_links t')" "l \<in> set (n_links (node_at s a))" for l a
    using that lists t'(3) join ne by (cases "a = n1"; cases "a = n2") (auto simp: merge_map_def)
  have ok': "merge_ok t' s'"
    unfolding merge_ok_def
  proof (intro conjI ballI impI)
    show "distinct (t_links t')" by (rule t'(2))
  next
    fix l assume l: "l \<in> set (t_links t')"
    then have lt: "l \<in> set (t_links t)" using t'(3) by blast
    from merge_ok_link [OF ok this] obtain a b where ab: "l_node1 (link_at s l) = Some a" "l_node2 (link_at s l) = Some b"
      "a \<in> set (t_nodes t)" "b \<in> set (t_nodes t)" "l \<in> set (n_links (node_at s a))" "l \<in> set (n_links (node_at s b))" .
    have "?f a \<in> set (t_nodes t')" "?f b \<in> set (t_nodes t')" using ab(3,4) nodes ne t'(1) by (auto simp: merge_map_def)
    then show "\<exists>a b. l_node1 (link_at s' l) = Some a \<and> l_node2 (link_at s' l) = Some b \<and> a \<in> set (t_nodes t') \<and>
      b \<in> set (t_nodes t') \<and> l \<in> set (n_links (node_at s' a)) \<and> l \<in> set (n_links (node_at s' b))"
      using kept [OF l] ab(1,2) listed' [OF l ab(5)] listed' [OF l ab(6)] by auto
  next
    fix n assume n: "n \<in> set (t_nodes t')" and v: "is_vgige s' n"
    then have n': "n \<in> set (t_nodes t)" "is_vgige s n" "n \<noteq> n2" using t'(1) types by auto
    note d = merge_ok_switch(1) [OF ok n'(1,2)]
    have apart: "l \<notin> set ?ls \<or> joins s n1 n2 l" if "l \<in> set (n_links (node_at s n1))" for l
      using one [of l] merge_ok_switch(2) [OF ok nodes(1) vgige(1) that] ne
      by (auto simp: joins_def) (rule ccontr, blast)
    show "distinct (n_links (node_at s' n))"
    proof (cases "n = n1")
      case True
      have "distinct (removeAll r (n_links (node_at s n1)))" using d True by (simp add: distinct_removeAll)
      moreover have "distinct (filter (\<lambda>l. \<not> joins s n1 n2 l) ?ls)" using merge_ok_switch(1) [OF ok nodes(2) vgige(2)] by simp
      ultimately show ?thesis unfolding True lists(1) using apart by auto
    next
      case False
      then show ?thesis using d lists(2) n'(3) by simp
    qed
    fix l assume l: "l \<in> set (n_links (node_at s' n))"
    have "\<exists>m. n \<noteq> m \<and> joins s' n m l"
    proof (cases "l \<in> set ?ls \<and> \<not> joins s n1 n2 l")
      case True
      then obtain m where m: "m \<noteq> n1" "m \<noteq> n2" "joins s n2 m l" using one by blast
      then have j: "joins s' n1 m l" using moved [of l] True by (auto simp: joins_def merge_map_def)
      show ?thesis
      proof (cases "n = n1")
        case False
        then have "l \<in> set (n_links (node_at s n))" using l lists(2) n'(3) by simp
        from merge_ok_switch(2) [OF ok n'(1,2) this] have "n = m" using m(3) n'(3) by (auto simp: joins_def)
        then show ?thesis using j False by (auto simp: joins_def)
      qed (use j m in auto)
    next
      case False
      then have "l \<in> set (n_links (node_at s n))" using l lists n'(3) by (cases "n = n1") auto
      from merge_ok_switch(2) [OF ok n'(1,2) this] show ?thesis using links [of l] False by (auto simp: joins_def)
    qed
    then show "\<exists>a b. l_node1 (link_at s' l) = Some a \<and> l_node2 (link_at s' l) = Some b \<and> a \<noteq> b \<and> (n = a \<or> n = b)"
      unfolding joins_def by metis
  qed
  have "set (t_links t') \<subset> set (t_links t)" using t'(3) r(1) join by blast
  then have "card (set (t_links t')) < card (set (t_links t))" by (rule psubset_card_mono [OF finite_set])
  then have "length (t_links t') < length (t_links t)"
    using t'(2) ok by (simp add: distinct_card merge_ok_def)
  then show ?thesis using pair c ok' by blast
qed

lemma merge_loop_result:
  assumes "merge_ok t s"
  shows "\<exists>t' s' f. merge_loop t s = Some (t', s') \<and> merge_ok t' s' \<and> contracts f t s t' s' \<and>
    (\<forall>l \<in> set (t_links t'). \<not> mergeable s' l)"
  using assms
proof (induction "length (t_links t)" arbitrary: t s rule: less_induct)
  case less
  note ok = less.prems
  have "\<forall>l \<in> set (t_links t). l_node1 (link_at s l) \<noteq> None \<and> l_node2 (link_at s l) \<noteq> None"
    using merge_ok_link [OF ok] by (metis option.distinct(1))
  note found = find_merge_result [OF this]
  show ?case
  proof (cases "find (mergeable s) (t_links t)")
    case None
    then have "merge_loop t s = Some (t, s)" using found by (simp add: merge_loop.simps)
    moreover have "\<forall>l \<in> set (t_links t). \<not> mergeable s l" using None by (simp add: find_None_iff)
    ultimately show ?thesis using ok contracts_refl by blast
  next
    case (Some r)
    then have r: "r \<in> set (t_links t)" "mergeable s r" by (auto simp: find_Some_iff)
    then obtain n1 n2 where ends: "l_node1 (link_at s r) = Some n1" "l_node2 (link_at s r) = Some n2"
      "is_vgige s n1" "is_vgige s n2" by (auto simp: mergeable_def)
    from merge_pair_contracts [OF ok r ends(1,2)] obtain t1 s1 where
      1: "merge_pair n1 n2 r t s = Some (t1, s1)" "merge_ok t1 s1" "contracts (merge_map n1 n2) t s t1 s1"
        "length (t_links t1) < length (t_links t)" by blast
    from less.hyps [OF 1(4) 1(2)] obtain t' s' g where
      2: "merge_loop t1 s1 = Some (t', s')" "merge_ok t' s'" "contracts g t1 s1 t' s'" "\<forall>l \<in> set (t_links t'). \<not> mergeable s' l"
      by blast
    have "merge_loop t s = Some (t', s')" using found Some ends 1(1) 2(1) by (simp add: merge_loop.simps [of t s])
    moreover have "contracts (g \<circ> merge_map n1 n2) t s t' s'"
      using ends by (intro contracts_trans [OF 1(3) 2(3) ok]) (simp add: merge_map_def)
    ultimately show ?thesis using 2(2,4) by blast
  qed
qed

end
