(* ===== verification/Database_Properties.thy ===== *)
theory Database_Properties
  imports Path_Mapping Switch_Merge
begin

text \<open>
  The properties of the mapping of topologies (\<^verbatim>\<open>database/src/onldb.cc\<close>), each with a concrete input.
\<close>

section \<open>A small experiment and a small testbed\<close>

text \<open>
  The experiment: the hosts 0 and 1 with the link 0. The testbed: the hosts 2 and 3, linked by 1 and 2 to the
  switch 4. Host 0 is mapped to 2. The link 3 asks for a path from 2 to 3.
\<close>

definition small_node :: "nptr \<Rightarrow> node_resource" where
  "small_node n = (
     if n = 0 then new_node\<lparr>n_type := ''pc'', n_label := 1, n_links := [0], n_marked := True, n_mapped_node := Some 2\<rparr>
     else if n = 1 then new_node\<lparr>n_type := ''pc'', n_label := 2, n_links := [0]\<rparr>
     else if n = 2 then new_node\<lparr>n_type := ''pc'', n_label := 3, n_links := [1], n_in := 5\<rparr>
     else if n = 3 then new_node\<lparr>n_type := ''pc'', n_label := 4, n_links := [2], n_in := 5\<rparr>
     else new_node\<lparr>n_type := ''sw'', n_dev_type := ''infrastructure'', n_label := 5, n_links := [1, 2], n_in := 5\<rparr>)"

definition small_link :: "lptr \<Rightarrow> link_resource" where
  "small_link l = (
     if l = 0 then new_link\<lparr>l_label := 1, l_capacity := 1000, l_node1 := Some 0, l_node2 := Some 1, l_rload := 100, l_lload := 200\<rparr>
     else if l = 1 then new_link\<lparr>l_label := 2, l_capacity := 1000, l_conns := [7], l_node1 := Some 2, l_node2 := Some 4, l_node2_port := 1\<rparr>
     else if l = 2 then new_link\<lparr>l_label := 3, l_capacity := 1000, l_conns := [8], l_node1 := Some 4, l_node1_port := 2, l_node2 := Some 3\<rparr>
     else new_link\<lparr>l_node1 := Some 2, l_node2 := Some 3\<rparr>)"

definition small_net :: store where
  "small_net = \<lparr>node_at = small_node, link_at = small_link, node_count = 5, link_count = 4\<rparr>"

definition small_base :: topology where
  "small_base = topology_new\<lparr>t_nodes := [2, 3, 4], t_links := [1, 2]\<rparr>"

lemma small_net_sel [simp]:
  "node_at small_net = small_node" "link_at small_net = small_link" "link_count small_net = 4"
  by (simp_all add: small_net_def)

lemma less_four: "(l :: nat) < 4 \<longleftrightarrow> l = 0 \<or> l = 1 \<or> l = 2 \<or> l = 3"
  by auto

lemma small_closed: "link_closed small_net {0, 1}" "link_closed small_net {2, 3, 4}"
  by (simp_all add: link_closed_def small_node_def small_link_def new_node_def new_link_def)

lemma small_known: "paths_known small_net"
  by (simp add: paths_known_def ends_known_def less_four small_link_def new_link_def)

lemma small_ok: "mapping_ok small_net {0, 1} {2, 3, 4}"
  using small_closed small_known
  by (simp add: mapping_ok_def small_node_def small_link_def new_node_def new_link_def)

declare drain_subnet.simps [code] search_paths.simps [code] flood.simps [code] merge_links.simps [code] merge_loop.simps [code]

section \<open>Subnets\<close>

text \<open>C29: Over any graph of links, cyclic ones included, \<^verbatim>\<open>get_subnet\<close> returns; the nodes it lists are
  exactly those that the port of the source reaches through virtual switches, each once, and every link it
  lists is a link of one of them.\<close>

theorem subnet_computed:
  assumes "link_closed s N" and "source \<in> N"
  shows "\<exists>sn. get_subnet s source port = Some sn \<and> distinct (sn_nodes sn) \<and>
    (\<forall>n. n \<in> set (sn_nodes sn) \<longleftrightarrow> subnet_reach s source port n) \<and>
    (\<forall>l \<in> set (sn_links sn). \<exists>n. subnet_reach s source port n \<and> l \<in> set (n_links (node_at s n)))"
  by (rule get_subnet_reach [OF assms])

theorem subnet_computed_witness:
  "(\<forall>n. n \<in> {0, 1} \<longleftrightarrow> subnet_reach small_net 0 0 n) \<and> map_option sn_nodes (get_subnet small_net 0 0) = Some [0, 1]"
proof -
  have run: "map_option sn_nodes (get_subnet small_net 0 0) = Some [0, 1]" by code_simp
  then show ?thesis using subnet_computed [OF small_closed(1), of 0 0] by auto
qed

text \<open>The potential mappings that \<^verbatim>\<open>compute_path_costs\<close> passes on are new links, whose label is 0. As
  long as no link of the experiment has the label 0 they never count: \<^verbatim>\<open>subnet_mapped\<close> answers as if there
  were none, so links of one subnet are costed as if they could share a switch.\<close>

lemma potential_mappings_ignored:
  assumes "\<forall>p \<in> set ps. l_label (link_at s p) = 0" and "\<forall>l \<in> set (sn_links sn). l_label (link_at s l) \<noteq> 0"
  shows "subnet_mapped s sn cin ps excluded = subnet_mapped s sn cin [] excluded"
proof -
  have "\<forall>p \<in> set ps. l_label (link_at s p) \<notin> (\<lambda>l. l_label (link_at s l)) ` set (sn_links sn)"
    using assms by fastforce
  then have "potential_through s sn cin ps = Some False" by (rule potential_through_ignored)
  moreover have "potential_through s sn cin [] = Some False" by (rule potential_through_ignored) simp
  ultimately show ?thesis by (simp only: subnet_mapped_def)
qed

lemma potential_mappings_ignored_example:
  "subnet_mapped (upd_link 3 (\<lambda>x. x\<lparr>l_mapped_path := [1, 2]\<rparr>) small_net) \<lparr>sn_nodes = [0, 1], sn_links = [0]\<rparr> 5 [3] None =
    subnet_mapped (upd_link 3 (\<lambda>x. x\<lparr>l_mapped_path := [1, 2]\<rparr>) small_net) \<lparr>sn_nodes = [0, 1], sn_links = [0]\<rparr> 5 [] None"
  by (rule potential_mappings_ignored) (simp_all add: small_link_def new_link_def)

section \<open>Paths\<close>

text \<open>C15: The search for a path of a user's link returns over any testbed. It answers -1, changing nothing, only
  when there is no route with the capacity that is needed, and otherwise a cost that is not negative: the path object then
  gets this cost and links that lead from its first to its second end, through switches only, each
  with enough capacity between switches for the loads of the user's link in their directions.\<close>

theorem path_found:
  assumes "link_closed s M" "l_node1 (link_at s ulink) = Some n1" "n1 \<in> M" "l_node2 (link_at s ulink) = Some n2"
    and "link_closed s N" "l_node1 (link_at s path) = Some source" "source \<in> N" "l_node2 (link_at s path) = Some sink"
    and "paths_known s" "\<forall>n \<in> M. \<forall>l \<in> set (n_links (node_at s n)). l < link_count s" "\<forall>p \<in> set potential. p < link_count s"
    and "0 \<le> l_cost (link_at s ulink)"
  shows "\<exists>c s' subnet. find_cheapest_path ulink path potential s = Some (c, s') \<and>
    get_subnet s n1 (sint (l_node1_port (link_at s ulink))) = Some subnet \<and>
    path_result s (link_at s ulink) path source sink
      (path_query_of (link_at s ulink) (link_at s path) source subnet potential) c s'"
  by (rule find_cheapest_path_result [OF assms])

theorem path_found_witness:
  "\<exists>c s' subnet. find_cheapest_path 0 3 [] small_net = Some (c, s') \<and> c = 0 \<and> l_mapped_path (link_at s' 3) = [1, 2] \<and>
    path_result small_net (small_link 0) 3 2 3 (path_query_of (small_link 0) (small_link 3) 2 subnet []) c s'"
proof -
  have run: "map_option (\<lambda>(c, s). (c, l_mapped_path (link_at s 3))) (find_cheapest_path 0 3 [] small_net) = Some (0, [1, 2])"
    by code_simp
  have "\<exists>c s' subnet. find_cheapest_path 0 3 [] small_net = Some (c, s') \<and>
    get_subnet small_net 0 (sint (l_node1_port (link_at small_net 0))) = Some subnet \<and>
    path_result small_net (link_at small_net 0) 3 2 3 (path_query_of (link_at small_net 0) (link_at small_net 3) 2 subnet []) c s'"
    by (rule path_found [OF small_closed(1) _ _ _ small_closed(2) _ _ _ small_known, where ?n2.0 = 1])
      (simp_all add: small_link_def small_node_def new_link_def new_node_def)
  then show ?thesis using run by auto
qed

text \<open>C14: Mapping the links of a node of the experiment returns and keeps what it relies on. A link that was
  mapped stays as it is. A link that becomes mapped gets links of the testbed that lead from the node its first end
  is mapped to to the node of its second end, with one recorded direction for each of them.\<close>

theorem edges_routed:
  assumes "mapping_ok s M N" and "unode \<in> M" and "rnode \<in> N"
  shows "\<exists>s'. map_edges unode rnode base s = Some s' \<and> mapping_ok s' M N \<and>
    (\<forall>l \<in> set (n_links (node_at s unode)). (l_marked (link_at s l) \<longrightarrow> l_marked (link_at s' l) \<and>
        l_mapped_path (link_at s' l) = l_mapped_path (link_at s l) \<and> l_mp_linkdir (link_at s' l) = l_mp_linkdir (link_at s l)) \<and>
      (\<not> l_marked (link_at s l) \<and> l_marked (link_at s' l) \<longrightarrow> edge_routed s N unode rnode l s'))"
  by (rule map_edges_routed [OF assms])

theorem edges_routed_witness:
  "\<exists>s'. map_edges 1 3 small_base small_net = Some s' \<and> l_mapped_path (link_at s' 0) = [1, 2] \<and>
    l_mp_linkdir (link_at s' 0) = [1, 1] \<and> edge_routed small_net {2, 3, 4} 1 3 0 s'"
proof -
  have run: "map_option (\<lambda>s. (l_marked (link_at s 0), l_mapped_path (link_at s 0), l_mp_linkdir (link_at s 0)))
     (map_edges 1 3 small_base small_net) = Some (True, [1, 2], [1, 1])" by code_simp
  have "n_links (node_at small_net 1) = [0]" "\<not> l_marked (link_at small_net 0)"
    by (simp_all add: small_node_def small_link_def new_link_def new_node_def)
  then show ?thesis using edges_routed [OF small_ok, of 1 3 small_base] run by auto
qed

section \<open>Loads and virtual switches\<close>

text \<open>C28: Spreading the load of a leaf ends on every graph, also when virtual switches form cycles, and reaches every
  link that a path of the load can reach from the leaf, and no other one: each gets the load exactly once, in a
  direction in which a path crosses it, and nothing else changes. (A path is a walk over distinct links that leaves a
  virtual switch by any of its links, and another node by those at the port it has come to.)\<close>

theorem load_spread_once:
  assumes "link_closed s N" and "node \<in> N"
  shows "\<exists>seen s'. add_edge_load node port load [] s = Some (seen, s') \<and> distinct seen \<and> node_at s' = node_at s \<and>
    (\<forall>l. if \<exists>right. crossed s node port l right
      then l \<in> set seen \<and> (\<exists>right. crossed s node port l right \<and> link_at s' l = with_load right load (link_at s l))
      else l \<notin> set seen \<and> link_at s' l = link_at s l)"
  by (rule add_edge_load_spec [OF assms])

text \<open>Two virtual switches, 0 and 1, with two links between them and one host at each, 2 and 3; \<open>loop\<close> gives the
  first switch a link to itself.\<close>

definition switch_node :: "bool \<Rightarrow> nptr \<Rightarrow> node_resource" where
  "switch_node loop n = (
     if n = 0 then new_node\<lparr>n_type := ''vgige'', n_label := 1, n_links := (if loop then [4, 4] else []) @ [0, 1, 2]\<rparr>
     else if n = 1 then new_node\<lparr>n_type := ''vgige'', n_label := 2, n_links := [0, 1, 3]\<rparr>
     else if n = 2 then new_node\<lparr>n_type := ''pc'', n_label := 3, n_links := [2]\<rparr>
     else new_node\<lparr>n_type := ''pc'', n_label := 4, n_links := [3]\<rparr>)"

definition switch_link :: "lptr \<Rightarrow> link_resource" where
  "switch_link l = (
     if l = 0 then new_link\<lparr>l_node1 := Some 0, l_node2 := Some 1, l_rload := 20000\<rparr>
     else if l = 1 then new_link\<lparr>l_node1 := Some 1, l_node2 := Some 0\<rparr>
     else if l = 2 then new_link\<lparr>l_node1 := Some 0, l_node2 := Some 2\<rparr>
     else if l = 3 then new_link\<lparr>l_node1 := Some 3, l_node2 := Some 1\<rparr>
     else new_link\<lparr>l_node1 := Some 0, l_node2 := Some 0\<rparr>)"

definition switch_net :: "bool \<Rightarrow> store" where
  "switch_net loop = \<lparr>node_at = switch_node loop, link_at = switch_link, node_count = 4, link_count = 5\<rparr>"

definition switch_req :: "bool \<Rightarrow> topology" where
  "switch_req loop = topology_new\<lparr>t_nodes := [0, 1, 2, 3], t_links := (if loop then [4] else []) @ [0, 1, 2, 3]\<rparr>"

lemmas switch_defs = switch_node_def switch_link_def switch_net_def switch_req_def topology_new_def new_node_def new_link_def

text \<open>The load of the host 2 goes over its link to the first switch, on to the second switch, and to the host 3.\<close>

theorem load_spread_once_witness:
  "crossed (switch_net False) 2 0 3 False \<and>
   (\<exists>seen s' right. add_edge_load 2 0 300 [] (switch_net False) = Some (seen, s') \<and> 3 \<in> set seen \<and>
     crossed (switch_net False) 2 0 3 right \<and> link_at s' 3 = with_load right 300 (switch_link 3))"
proof -
  have 1: "load_path (switch_net False) 2 0 ([] @ [(2, False)]) 0 (far_port False (switch_link 2))"
    using load_path.cross [OF load_path.here, of "switch_net False" 2 0 False 2 0]
    by (simp add: leaves_def far_node_def switch_defs)
  have 2: "load_path (switch_net False) 2 0 (([] @ [(2, False)]) @ [(0, True)]) 1 (far_port True (switch_link 0))"
    using load_path.cross [OF 1, of True 0 1] by (simp add: leaves_def far_node_def switch_defs)
  have 3: "load_path (switch_net False) 2 0 ((([] @ [(2, False)]) @ [(0, True)]) @ [(3, False)]) 3 (far_port False (switch_link 3))"
    using load_path.cross [OF 2, of False 3 3] by (simp add: leaves_def far_node_def switch_defs)
  have c: "crossed (switch_net False) 2 0 3 False" unfolding crossed_def using 3 by blast
  have "link_closed (switch_net False) {0, 1, 2, 3}" by (simp add: link_closed_def switch_defs)
  from load_spread_once [OF this, of 2 0 300] obtain seen s' where
    "add_edge_load 2 0 300 [] (switch_net False) = Some (seen, s')"
    "if \<exists>right. crossed (switch_net False) 2 0 3 right
      then 3 \<in> set seen \<and> (\<exists>right. crossed (switch_net False) 2 0 3 right \<and>
        link_at s' 3 = with_load right 300 (link_at (switch_net False) 3))
      else 3 \<notin> set seen \<and> link_at s' 3 = link_at (switch_net False) 3" by auto
  moreover have "link_at (switch_net False) = switch_link" by (simp add: switch_net_def)
  ultimately show ?thesis using c by metis
qed

text \<open>C16: \<^verbatim>\<open>merge_vswitches\<close> ends on an experiment whose virtual switches have no link twice and none to
  themselves, and contracts it: every node stands for itself or is a virtual switch that one joined to it stands for, links
  join what stands for their ends, only links inside such a group are lost, and no two virtual switches with
  a link that carries at most 10000 each way are left.\<close>

theorem switches_merged:
  assumes "merge_ok req s" and "\<forall>n \<in> set (t_nodes req). \<not> n_fixed (node_at s n)"
  shows "\<exists>req' s' f. merge_vswitches req s = Some (req', s') \<and> contracts f req s req' s' \<and>
    (\<forall>l \<in> set (t_links req'). \<not> mergeable s' l)"
  using merge_loop_result [OF assms(1)] assms(2) by (auto simp: merge_vswitches_def list_ex_iff)

theorem switches_merged_witness:
  "\<exists>req' s' f. merge_vswitches (switch_req False) (switch_net False) = Some (req', s') \<and>
    contracts f (switch_req False) (switch_net False) req' s' \<and> t_nodes req' = [1, 2, 3] \<and> t_links req' = [2, 3] \<and> f 0 = 1"
proof -
  have run: "map_option (\<lambda>(t, s). (t_nodes t, t_links t)) (merge_vswitches (switch_req False) (switch_net False)) =
      Some ([1, 2, 3], [2, 3])" by code_simp
  have "merge_ok (switch_req False) (switch_net False)" by (auto simp: merge_ok_def switch_defs)
  moreover have "\<forall>n \<in> set (t_nodes (switch_req False)). \<not> n_fixed (node_at (switch_net False) n)" by (simp add: switch_defs)
  ultimately obtain req' s' f where r: "merge_vswitches (switch_req False) (switch_net False) = Some (req', s')"
    "contracts f (switch_req False) (switch_net False) req' s'" using switches_merged by blast
  then have t: "t_nodes req' = [1, 2, 3]" "t_links req' = [2, 3]" using run by auto
  have "map_option f (l_node1 (switch_link 0)) = map_option f (l_node2 (switch_link 0))"
    using contractsD(5) [OF r(2), of 0] t(2) by (simp add: switch_net_def switch_req_def)
  then have "f 0 = f 1" by (simp add: switch_link_def)
  moreover have "f 1 = 1" using contractsD(1) [OF r(2)] t(1) by (auto simp: switch_req_def split: if_splits)
  ultimately show ?thesis using r t by auto
qed

text \<open>A virtual switch with a light link to itself that is the first to be merged makes \<^verbatim>\<open>merge_vswitches\<close>
  run for ever when the switch has any other link: the loop over the links of the switch puts that link back at
  the end of the list it goes through.\<close>

lemma switch_loop_diverges:
  assumes "\<forall>n \<in> set (t_nodes req). \<not> n_fixed (node_at s n)" and "find_merge s (t_links req) = Some (Some r)"
    and "l_node1 (link_at s r) = Some n" "l_node2 (link_at s r) = Some n"
    and "k \<in> set (n_links (node_at s n))" "k \<noteq> r" "one_end n (link_at s k)"
  shows "merge_vswitches req s = None"
  by (rule merge_vswitches_forever [OF assms])

lemma switch_loop_diverges_example: "merge_vswitches (switch_req True) (switch_net True) = None"
  by (rule switch_loop_diverges [of _ _ 4 0 0]) (simp_all add: switch_defs one_end_def)

end
