(* ===== verification/Crd_Requests.thy ===== *)
theory Crd_Requests
  imports Onl_Messages Onl_Responses
begin

text \<open>
  The messages between the user interface and the resource daemon: the classes of
  \<^verbatim>\<open>crd/onlcrd_requests.cc\<close> with their parsers, which depend on the version the interface
  sends, and those of \<^verbatim>\<open>crd/onlcrd_responses.cc\<close> with their writers. The user interface is another
  program, so requests are only parsed and responses only written here; \<open>enc_session_add_link\<close> and its relatives state
  what the interface sends.
\<close>

section \<open>Requests about one node or link\<close>

record rlicrd_request = request +
  rc_expinfo :: experiment_info
  rc_comp :: component

definition rlicrd_request_parse :: "'a rlicrd_request_scheme \<Rightarrow> 'a rlicrd_request_scheme option" where
  "rlicrd_request_parse m = do {
     m \<leftarrow> request_parse m;
     (tmp, m) \<leftarrow> msg_get get_nstr m;
     (c, m) \<leftarrow> msg_get get_component m;
     Some (m\<lparr>rc_expinfo := (rc_expinfo m)\<lparr>ei_ID := nstr_of (c_str tmp)\<rparr>, rc_comp := c\<rparr>)
   }"

record session_add_component_req = rlicrd_request +
  ac_ipaddr :: nstring
  ac_cores :: u32
  ac_mem :: u32
  ac_num_interfaces :: u32
  ac_interfacebw :: u32
  ac_ext_tag :: nstring
  ac_reboot_params :: "param list"
  ac_init_params :: "param list"

text \<open>The part that is the same in a reservation.\<close>

definition add_component_fields :: "'a session_add_component_req_scheme \<Rightarrow> 'a session_add_component_req_scheme option" where
  "add_component_fields m = do {
     m \<leftarrow> rlicrd_request_parse m;
     (ip, m) \<leftarrow> msg_get get_nstr m;
     (rps, m) \<leftarrow> msg_get (get_param_list (ac_reboot_params m)) m;
     (ips, m) \<leftarrow> msg_get (get_param_list (ac_init_params m)) m;
     let m = m\<lparr>ac_ipaddr := ip, ac_reboot_params := rps, ac_init_params := ips\<rparr>;
     if msg_version m > 0x80 then do {
       (c, m) \<leftarrow> msg_get get_u32 m;
       (mem, m) \<leftarrow> msg_get get_u32 m;
       (n, m) \<leftarrow> msg_get get_u32 m;
       (bw, m) \<leftarrow> msg_get get_u32 m;
       Some (m\<lparr>ac_cores := c, ac_mem := mem, ac_num_interfaces := n, ac_interfacebw := bw\<rparr>) }
     else Some (m\<lparr>ac_cores := 1, ac_mem := 1, ac_num_interfaces := 0, ac_interfacebw := 0\<rparr>)
   }"

definition session_add_component_parse :: "'a session_add_component_req_scheme \<Rightarrow> 'a session_add_component_req_scheme option" where
  "session_add_component_parse m = do {
     m \<leftarrow> add_component_fields m;
     Some (if msg_version m > 0x91 \<and> isExtDev (rc_comp m) \<and> ac_init_params m \<noteq> []
       then m\<lparr>ac_ext_tag := nstr_of (param_getString (hd (ac_init_params m)))\<rparr> else m)
   }"

definition reservation_add_component_parse :: "'a session_add_component_req_scheme \<Rightarrow> 'a session_add_component_req_scheme option" where
  "reservation_add_component_parse m = add_component_fields m"

text \<open>A cluster's own object takes the members of the component; its array is not sent.\<close>

record session_add_cluster_req = rlicrd_request +
  cl_clus :: component

definition session_add_cluster_parse :: "'a session_add_cluster_req_scheme \<Rightarrow> 'a session_add_cluster_req_scheme option" where
  "session_add_cluster_parse m = do {
     m \<leftarrow> rlicrd_request_parse m;
     let c = rc_comp m;
     Some (m\<lparr>cl_clus := (cl_clus m)\<lparr>comp_type := nstr_of (c_str (comp_type c)), comp_id := comp_id c,
       comp_parent := comp_parent c, comp_label := nstr_of (c_str (comp_label c)),
       comp_cp := nstr_of (c_str (comp_cp c))\<rparr>\<rparr>)
   }"

definition reservation_add_cluster_parse :: "'a session_add_cluster_req_scheme \<Rightarrow> 'a session_add_cluster_req_scheme option" where
  "reservation_add_cluster_parse m = session_add_cluster_parse m"

record link_end =
  le_comp :: component
  le_port :: u16
  le_ip :: nstring
  le_subnet :: nstring
  le_nhip :: nstring
  le_cap :: u32

record session_add_link_req = rlicrd_request +
  al_from :: link_end
  al_to :: link_end
  al_bandwidth :: u32

definition get_link_end :: "u8 \<Rightarrow> byte_buffer \<Rightarrow> (link_end \<times> byte_buffer) option" where
  "get_link_end version b = do {
     (c, b) \<leftarrow> get_component b;
     (p, b) \<leftarrow> get_u16 b;
     (ip, b) \<leftarrow> get_nstr b;
     (sn, b) \<leftarrow> get_nstr b;
     (nh, b) \<leftarrow> get_nstr b;
     (cap, b) \<leftarrow> (if version \<ge> 0x80 then get_u32 b else Some (0, b));
     Some (\<lparr>le_comp = c, le_port = p, le_ip = ip, le_subnet = sn, le_nhip = nh, le_cap = cap\<rparr>, b)
   }"

definition session_add_link_parse :: "'a session_add_link_req_scheme \<Rightarrow> 'a session_add_link_req_scheme option" where
  "session_add_link_parse m = do {
     m \<leftarrow> rlicrd_request_parse m;
     (f, m) \<leftarrow> msg_get (get_link_end (msg_version m)) m;
     (t, m) \<leftarrow> msg_get (get_link_end (msg_version m)) m;
     (bw, m) \<leftarrow> msg_get get_u32 m;
     Some (m\<lparr>al_from := f, al_to := t, al_bandwidth := bw\<rparr>)
   }"

definition reservation_add_link_parse :: "'a session_add_link_req_scheme \<Rightarrow> 'a session_add_link_req_scheme option" where
  "reservation_add_link_parse m = session_add_link_parse m"

section \<open>Requests about a session or reservation\<close>

record begin_session_req = request +
  bs_expinfo :: experiment_info
  bs_password :: nstring
  bs_num_reqs :: u32

definition begin_session_parse :: "'a begin_session_req_scheme \<Rightarrow> 'a begin_session_req_scheme option" where
  "begin_session_parse m = do {
     m \<leftarrow> request_parse m;
     (e, m) \<leftarrow> msg_get get_experiment_info m;
     (pw, m) \<leftarrow> msg_get get_nstr m;
     (n, m) \<leftarrow> msg_get get_u32 m;
     Some (m\<lparr>bs_expinfo := e, bs_password := pw, bs_num_reqs := n\<rparr>)
   }"

record eid_req = request +
  eid :: nstring

definition eid_parse :: "'a eid_req_scheme \<Rightarrow> 'a eid_req_scheme option" where
  "eid_parse m = do {
     m \<leftarrow> request_parse m;
     (e, m) \<leftarrow> msg_get get_nstr m;
     Some (m\<lparr>eid := e\<rparr>)
   }"

definition commit_session_parse :: "'a eid_req_scheme \<Rightarrow> 'a eid_req_scheme option" where
  "commit_session_parse = eid_parse"

definition clear_session_parse :: "'a eid_req_scheme \<Rightarrow> 'a eid_req_scheme option" where
  "clear_session_parse = eid_parse"

definition commit_reservation_parse :: "'a eid_req_scheme \<Rightarrow> 'a eid_req_scheme option" where
  "commit_reservation_parse = eid_parse"

record begin_reservation_req = request +
  br_username :: nstring
  br_password :: nstring
  br_early :: nstring
  br_late :: nstring
  br_duration :: u32
  br_num_reqs :: u32

definition begin_reservation_parse :: "'a begin_reservation_req_scheme \<Rightarrow> 'a begin_reservation_req_scheme option" where
  "begin_reservation_parse m = do {
     m \<leftarrow> request_parse m;
     (u, m) \<leftarrow> msg_get get_nstr m;
     (pw, m) \<leftarrow> msg_get get_nstr m;
     (e, m) \<leftarrow> msg_get get_nstr m;
     (l, m) \<leftarrow> msg_get get_nstr m;
     (d, m) \<leftarrow> msg_get get_u32 m;
     (n, m) \<leftarrow> msg_get get_u32 m;
     Some (m\<lparr>br_username := u, br_password := pw, br_early := e, br_late := l, br_duration := d, br_num_reqs := n\<rparr>)
   }"

record user_req = request +
  ur_username :: nstring
  ur_password :: nstring

definition cancel_reservation_parse :: "'a user_req_scheme \<Rightarrow> 'a user_req_scheme option" where
  "cancel_reservation_parse m = do {
     m \<leftarrow> request_parse m;
     (u, m) \<leftarrow> msg_get get_nstr m;
     (pw, m) \<leftarrow> msg_get get_nstr m;
     Some (m\<lparr>ur_username := u, ur_password := pw\<rparr>)
   }"

record extend_reservation_req = user_req +
  er_mins :: u32

definition extend_reservation_parse :: "'a extend_reservation_req_scheme \<Rightarrow> 'a extend_reservation_req_scheme option" where
  "extend_reservation_parse m = do {
     m \<leftarrow> cancel_reservation_parse m;
     (n, m) \<leftarrow> msg_get get_u32 m;
     Some (m\<lparr>er_mins := n\<rparr>)
   }"

section \<open>Responses\<close>

type_synonym Session_Error = u32

abbreviation Session_No_Err :: Session_Error where "Session_No_Err \<equiv> 0"
abbreviation Session_Auth_Err :: Session_Error where "Session_Auth_Err \<equiv> 1"
abbreviation Session_No_Res_Err :: Session_Error where "Session_No_Res_Err \<equiv> 2"
abbreviation Session_Alloc_Err :: Session_Error where "Session_Alloc_Err \<equiv> 3"
abbreviation Session_Expired :: Session_Error where "Session_Expired \<equiv> 4"
abbreviation Session_Alert :: Session_Error where "Session_Alert \<equiv> 5"
abbreviation Session_Version_Err :: Session_Error where "Session_Version_Err \<equiv> 6"
abbreviation Session_Observe_Req :: Session_Error where "Session_Observe_Req \<equiv> 7"
abbreviation Session_Ack :: Session_Error where "Session_Ack \<equiv> 8"

record session_response = response +
  sr_status :: NCCP_StatusType
  sr_id :: nstring
  sr_status_msg :: nstring
  sr_error_code :: Session_Error

definition session_response_fine :: "(nat \<Rightarrow> u8) \<Rightarrow> addr \<Rightarrow> 'b request_scheme \<Rightarrow> string \<Rightarrow> session_response \<Rightarrow> session_response" where
  "session_response_fine junk ra req i r =
     (response_new junk ra req r)\<lparr>sr_status := NCCP_Status_Fine, sr_id := nstr_of i,
       sr_status_msg := nstr_of '''', sr_error_code := 0\<rparr>"

definition session_response_copy :: "(nat \<Rightarrow> u8) \<Rightarrow> addr \<Rightarrow> 'b request_scheme \<Rightarrow> nstring \<Rightarrow> session_response \<Rightarrow> session_response" where
  "session_response_copy junk ra req i r =
     (response_new junk ra req r)\<lparr>sr_status := NCCP_Status_Fine, sr_id := nstr_copy i,
       sr_status_msg := nstr_of '''', sr_error_code := 0\<rparr>"

definition session_response_error ::
    "(nat \<Rightarrow> u8) \<Rightarrow> addr \<Rightarrow> 'b request_scheme \<Rightarrow> string \<Rightarrow> Session_Error \<Rightarrow> session_response \<Rightarrow> session_response" where
  "session_response_error junk ra req msg err r =
     (response_new junk ra req r)\<lparr>sr_status := NCCP_Status_Failed, sr_id := nstr_of '''',
       sr_status_msg := nstr_of msg, sr_error_code := err\<rparr>"

definition session_response_of ::
    "(nat \<Rightarrow> u8) \<Rightarrow> addr \<Rightarrow> 'b request_scheme \<Rightarrow> nstring \<Rightarrow> string \<Rightarrow> Session_Error \<Rightarrow> session_response \<Rightarrow> session_response" where
  "session_response_of junk ra req i msg err r =
     (response_new junk ra req r)\<lparr>sr_status := NCCP_Status_Failed, sr_id := nstr_copy i,
       sr_status_msg := nstr_of msg, sr_error_code := err\<rparr>"

definition session_response_write :: "session_response \<Rightarrow> session_response option" where
  "session_response_write m = do {
     m \<leftarrow> response_write m;
     m \<leftarrow> msg_put (put_u32 (sr_status m)) m;
     m \<leftarrow> msg_put (put_nstr (sr_id m)) m;
     m \<leftarrow> msg_put (put_nstr (sr_status_msg m)) m;
     msg_put (put_u32 (sr_error_code m)) m
   }"

record reservation_response = response +
  vr_status :: NCCP_StatusType
  vr_status_msg :: nstring
  vr_error_code :: Session_Error
  vr_start_time :: nstring

text \<open>The four constructors differ in the values they give.\<close>

definition reservation_response_of ::
    "(nat \<Rightarrow> u8) \<Rightarrow> addr \<Rightarrow> 'b request_scheme \<Rightarrow> NCCP_StatusType \<Rightarrow> string \<Rightarrow> Session_Error \<Rightarrow> string \<Rightarrow>
     reservation_response \<Rightarrow> reservation_response" where
  "reservation_response_of junk ra req stat msg err start r =
     (response_new junk ra req r)\<lparr>vr_status := stat, vr_status_msg := nstr_of msg, vr_error_code := err,
       vr_start_time := nstr_of start\<rparr>"

definition reservation_response_failed where
  "reservation_response_failed junk ra req msg r =
     reservation_response_of junk ra req NCCP_Status_Failed msg Session_No_Err '''' r"

definition reservation_response_error where
  "reservation_response_error junk ra req msg err r =
     reservation_response_of junk ra req NCCP_Status_Failed msg err '''' r"

definition reservation_response_start where
  "reservation_response_start junk ra req msg start r =
     reservation_response_of junk ra req NCCP_Status_Fine msg Session_No_Err start r"

definition reservation_response_write :: "reservation_response \<Rightarrow> reservation_response option" where
  "reservation_response_write m = do {
     m \<leftarrow> response_write m;
     m \<leftarrow> msg_put (put_u32 (vr_status m)) m;
     m \<leftarrow> msg_put (put_nstr (vr_status_msg m)) m;
     m \<leftarrow> msg_put (put_u32 (vr_error_code m)) m;
     msg_put (put_nstr (vr_start_time m)) m
   }"

record rlicrd_response = response +
  lr_status :: NCCP_StatusType
  lr_exp :: onl_experiment
  lr_comp :: component

definition rlicrd_response_new ::
    "(nat \<Rightarrow> u8) \<Rightarrow> addr \<Rightarrow> 'b rlicrd_request_scheme \<Rightarrow> NCCP_StatusType \<Rightarrow> 'a rlicrd_response_scheme \<Rightarrow> 'a rlicrd_response_scheme" where
  "rlicrd_response_new junk ra req stat r =
     (response_new junk ra req r)\<lparr>lr_status := stat,
       lr_exp := (lr_exp r)\<lparr>exp_info := experiment_info_copy (rc_expinfo req)\<rparr>,
       lr_comp := component_copy (rc_comp req)\<rparr>"

definition rlicrd_response_write :: "'a rlicrd_response_scheme \<Rightarrow> 'a rlicrd_response_scheme option" where
  "rlicrd_response_write m = do {
     m \<leftarrow> response_write m;
     m \<leftarrow> msg_put (put_u32 (lr_status m)) m;
     m \<leftarrow> msg_put (put_experiment (lr_exp m)) m;
     msg_put (put_component (lr_comp m)) m
   }"

record component_response = rlicrd_response +
  kr_cp :: nstring
  kr_cp_port :: u32
  kr_vmname :: nstring

definition component_response_of ::
    "(nat \<Rightarrow> u8) \<Rightarrow> addr \<Rightarrow> 'b rlicrd_request_scheme \<Rightarrow> string \<Rightarrow> u32 \<Rightarrow> string \<Rightarrow> NCCP_StatusType \<Rightarrow>
     component_response \<Rightarrow> component_response" where
  "component_response_of junk ra req node port vmn stat r =
     (rlicrd_response_new junk ra req stat r)\<lparr>kr_cp := nstr_of node, kr_cp_port := port, kr_vmname := nstr_of vmn\<rparr>"

definition component_response_failed ::
    "(nat \<Rightarrow> u8) \<Rightarrow> addr \<Rightarrow> 'b rlicrd_request_scheme \<Rightarrow> NCCP_StatusType \<Rightarrow> component_response \<Rightarrow> component_response" where
  "component_response_failed junk ra req stat r =
     (rlicrd_response_new junk ra req stat r)\<lparr>kr_cp := nstr_of '''', kr_cp_port := 0, kr_vmname := nstr_of ''''\<rparr>"

text \<open>\<open>version\<close> is that of the request; \<^verbatim>\<open>get_request()\<close> must still exist.\<close>

definition component_response_write :: "u8 \<Rightarrow> component_response \<Rightarrow> component_response option" where
  "component_response_write version m = do {
     m \<leftarrow> rlicrd_response_write m;
     m \<leftarrow> msg_put (put_nstr (kr_cp m)) m;
     m \<leftarrow> msg_put (put_u32 (kr_cp_port m)) m;
     if version > 0x80 then msg_put (put_nstr (kr_vmname m)) m else Some m
   }"

record cluster_response = rlicrd_response +
  gr_cluster_index :: u32

definition cluster_response_of ::
    "(nat \<Rightarrow> u8) \<Rightarrow> addr \<Rightarrow> 'b rlicrd_request_scheme \<Rightarrow> NCCP_StatusType \<Rightarrow> u32 \<Rightarrow> cluster_response \<Rightarrow> cluster_response" where
  "cluster_response_of junk ra req stat index r = (rlicrd_response_new junk ra req stat r)\<lparr>gr_cluster_index := index\<rparr>"

definition cluster_response_write :: "cluster_response \<Rightarrow> cluster_response option" where
  "cluster_response_write m = do {
     m \<leftarrow> rlicrd_response_write m;
     msg_put (put_u32 (gr_cluster_index m)) m
   }"

section \<open>What the writers send and the parsers read\<close>

definition enc_rlicrd_response :: "'a rlicrd_response_scheme \<Rightarrow> u8 list" where
  "enc_rlicrd_response m = enc_response m @ be32 (lr_status m) @ enc_experiment (lr_exp m) @ enc_component (lr_comp m)"

lemma rlicrd_response_write_enc [wire_put]:
  "rlicrd_response_write m = map_option (\<lambda>b. m\<lparr>msg_buf := b\<rparr>) (put_bytes (enc_rlicrd_response m) (msg_buf m))"
  by (simp add: rlicrd_response_write_def enc_rlicrd_response_def class_simps wire_put)

lemma component_response_write_enc:
  "component_response_write version m = map_option (\<lambda>b. m\<lparr>msg_buf := b\<rparr>)
     (put_bytes (enc_rlicrd_response m @ enc_nstr (kr_cp m) @ be32 (kr_cp_port m) @
       (if version > 0x80 then enc_nstr (kr_vmname m) else [])) (msg_buf m))"
  by (simp add: component_response_write_def class_simps wire_put)

lemma cluster_response_write_enc:
  "cluster_response_write m = map_option (\<lambda>b. m\<lparr>msg_buf := b\<rparr>)
     (put_bytes (enc_rlicrd_response m @ be32 (gr_cluster_index m)) (msg_buf m))"
  by (simp add: cluster_response_write_def class_simps wire_put)

lemma session_response_write_enc:
  "session_response_write m = map_option (\<lambda>b. m\<lparr>msg_buf := b\<rparr>)
     (put_bytes (enc_response m @ be32 (sr_status m) @ enc_nstr (sr_id m) @ enc_nstr (sr_status_msg m) @
       be32 (sr_error_code m)) (msg_buf m))"
  by (simp add: session_response_write_def class_simps wire_put)

lemma reservation_response_write_enc:
  "reservation_response_write m = map_option (\<lambda>b. m\<lparr>msg_buf := b\<rparr>)
     (put_bytes (enc_response m @ be32 (vr_status m) @ enc_nstr (vr_status_msg m) @ be32 (vr_error_code m) @
       enc_nstr (vr_start_time m)) (msg_buf m))"
  by (simp add: reservation_response_write_def class_simps wire_put)

definition enc_link_end :: "u8 \<Rightarrow> link_end \<Rightarrow> u8 list" where
  "enc_link_end version e = enc_component (le_comp e) @ be16 (le_port e) @ enc_nstr (le_ip e) @ enc_nstr (le_subnet e) @
     enc_nstr (le_nhip e) @ (if version \<ge> 0x80 then be32 (le_cap e) else [])"

definition link_end_ok :: "u8 \<Rightarrow> link_end \<Rightarrow> bool" where
  "link_end_ok version e \<longleftrightarrow> component_ok (le_comp e) \<and> nstr_ok (le_ip e) \<and> nstr_ok (le_subnet e) \<and>
     nstr_ok (le_nhip e) \<and> (version < 0x80 \<longrightarrow> le_cap e = 0)"

lemma get_link_end_enc [wire_get]:
  assumes ok: "link_end_ok version e" and h: "holds b (enc_link_end version e)"
  shows "get_link_end version b = Some (e, skip (length (enc_link_end version e)) b)"
proof (cases "0x80 \<le> version")
  case True
  then show ?thesis using ok h
    unfolding get_link_end_def enc_link_end_def link_end_ok_def if_P [OF True]
    by (auto simp: wire_get ac_simps)
next
  case False
  have "le_cap e = 0" using ok False unfolding link_end_ok_def by (meson linorder_not_le)
  then show ?thesis using ok h
    unfolding get_link_end_def enc_link_end_def link_end_ok_def if_not_P [OF False]
    by (auto simp: wire_get ac_simps)
qed

definition enc_rlicrd_request :: "'a rlicrd_request_scheme \<Rightarrow> u8 list" where
  "enc_rlicrd_request m = enc_request m @ enc_nstr (ei_ID (rc_expinfo m)) @ enc_component (rc_comp m)"

definition rlicrd_request_ok :: "'a rlicrd_request_scheme \<Rightarrow> bool" where
  "rlicrd_request_ok m \<longleftrightarrow> request_ok m \<and> nstr_ok (ei_ID (rc_expinfo m)) \<and> no_nul (ei_ID (rc_expinfo m)) \<and>
     component_ok (rc_comp m)"

definition rlicrd_request_read :: "'a rlicrd_request_scheme \<Rightarrow> 'b rlicrd_request_scheme \<Rightarrow> 'b rlicrd_request_scheme" where
  "rlicrd_request_read m r = (request_read m r)\<lparr>rc_expinfo := (rc_expinfo r)\<lparr>ei_ID := ei_ID (rc_expinfo m)\<rparr>,
     rc_comp := rc_comp m, msg_buf := skip (length (enc_rlicrd_request m)) (msg_buf r)\<rparr>"

lemma rlicrd_request_parse_enc [wire_get]:
  assumes "rlicrd_request_ok m" and "holds (msg_buf r) (enc_rlicrd_request m)"
  shows "rlicrd_request_parse r = Some (rlicrd_request_read m r)"
  using assms
  by (auto simp: rlicrd_request_parse_def rlicrd_request_ok_def enc_rlicrd_request_def rlicrd_request_read_def
      request_read_def parse_simps wire_get ac_simps nstr_ok_def nstr_of_id c_str_id)

definition enc_session_add_link :: "'a session_add_link_req_scheme \<Rightarrow> u8 list" where
  "enc_session_add_link m = enc_rlicrd_request m @ enc_link_end (msg_version m) (al_from m) @
     enc_link_end (msg_version m) (al_to m) @ be32 (al_bandwidth m)"

lemma session_add_link_parse_enc:
  assumes "rlicrd_request_ok m" and "link_end_ok (msg_version m) (al_from m)" and "link_end_ok (msg_version m) (al_to m)"
    and "holds (msg_buf r) (enc_session_add_link m)"
  shows "\<exists>r'. session_add_link_parse r = Some r' \<and> rc_comp r' = rc_comp m \<and> ei_ID (rc_expinfo r') = ei_ID (rc_expinfo m) \<and>
    al_from r' = al_from m \<and> al_to r' = al_to m \<and> al_bandwidth r' = al_bandwidth m \<and> request_view r' = request_view m"
proof -
  have "session_add_link_parse r = Some ((rlicrd_request_read m r)\<lparr>al_from := al_from m, al_to := al_to m,
      al_bandwidth := al_bandwidth m, msg_buf := skip (length (enc_session_add_link m)) (msg_buf r)\<rparr>)"
    using assms
    by (auto simp: session_add_link_parse_def enc_session_add_link_def rlicrd_request_read_def request_read_def
        parse_simps wire_get ac_simps)
  then show ?thesis by (simp add: rlicrd_request_read_def request_read_def request_view_def)
qed

end
