(* ===== verification/Crd_World.thy ===== *)
theory Crd_World
  imports Crd_Requests Switch_Types Topology
begin

text \<open>
  The state of the resource daemon (\<^verbatim>\<open>src/crd\<close>): components, links, sessions and VLANs are objects
  known by address (all are held by \<^verbatim>\<open>boost::shared_ptr\<close>); the session manager's lists; the requests, which
  have one owner at a time, are values.

  What the daemon gets from outside comes from endless sequences that are read in order: the states the database tells
  (the empty text for a failed query), the answers to messages, whether connections and threads can be made,
  whether a node came up in time. The record \<open>answer\<close> is the outcome of one \<^verbatim>\<open>send_and_wait\<close> with the fields
  of the response that the code reads. What the daemon sends is appended to \<open>w_log\<close>.

  A thread is the list of the actions it still has to take. Undefined behaviour, and a thread that waits for itself or
  never comes back, are \<open>None\<close>.
\<close>

type_synonym cptr = nat
type_synonym kptr = nat
type_synonym sptr = nat
type_synonym vptr = nat

record answer =
  an_answered :: bool
  an_status :: NCCP_StatusType
  an_vlan :: switch_vlan
  an_vmname :: string

record crd_vlan =
  vlanid :: switch_vlan
  is_deleted :: bool

text \<open>The classes of components: \<^verbatim>\<open>crd_component\<close>, \<^verbatim>\<open>crd_virtual_switch\<close>, \<^verbatim>\<open>crd_virtual_machine\<close>.\<close>

datatype comp_class = Plain | Virtual_Switch | Virtual_Machine

record crd_component =
  cc_class :: comp_class
  cc_dependent_comp :: string
  cc_cluster_name :: string
  cc_name :: string
  cc_vmname :: string
  cc_cp :: string
  cc_devip :: string
  cc_cp_port :: u16
  cc_keeboot :: bool
  cc_is_dependent :: bool
  cc_vmid :: u32
  cc_cores :: u32
  cc_memory :: u32
  cc_sess :: "sptr option"
  cc_comp :: component
  cc_ip_addr :: string
  cc_reboot_params :: "param list"
  cc_init_params :: "param list"
  cc_compreq :: "session_add_component_req option"
  cc_links :: "kptr list"
  cc_connected :: bool
  cc_internal_state :: string
  cc_needs_refresh :: bool
  cc_local_state :: string
  cc_keebooting_now :: bool
  cc_received_up_msg :: bool
  cc_mark :: bool
  cc_init_timeout :: u32
  cc_vlan :: "vptr option"
  cc_alloc_vlan :: bool

record endpoint =
  ep_comp :: cptr
  ep_port :: u16
  ep_rport :: u16
  ep_cap :: u32
  ep_mac :: string

record crd_link =
  ck_p1 :: endpoint
  ck_p2 :: endpoint
  ck_comp :: component
  ck_switch_ports :: "switch_port list"
  ck_state :: string
  ck_needs_refresh :: bool
  ck_sess :: "sptr option"
  ck_linkreq :: "session_add_link_req option"
  ck_num_comps_done :: int
  ck_vlan :: vptr
  ck_alloc_vlan :: bool
  ck_mark :: bool
  ck_vlan_status :: NCCP_StatusType

record crd_session =
  ss_id :: string
  ss_user :: string
  ss_conn :: addr
  ss_errmsg :: string
  ss_cleared :: bool
  ss_mapping_written :: bool
  ss_begin_req :: "begin_session_req option"
  ss_component_reqs :: "session_add_component_req list"
  ss_cluster_reqs :: "session_add_cluster_req list"
  ss_link_reqs :: "session_add_link_req list"
  ss_topology :: topology
  ss_components :: "cptr list"
  ss_links :: "kptr list"
  ss_vlans_created :: bool
  ss_unreported_links :: "u32 list"
  ss_allowed_observers :: "string list"
  ss_observe_reqs :: "string list"

text \<open>What the daemon sends: to the user interface, to the network daemon, to the daemons of nodes; and the commands
  and files.\<close>

datatype event =
    Component_Response session_add_component_req NCCP_StatusType string u16 string
  | Cluster_Response session_add_cluster_req NCCP_StatusType u32
  | Link_Response session_add_link_req NCCP_StatusType
  | Session_Message string Session_Error
  | Session_Ping
  | Observe_Request string
  | Observe_Response string string Session_Error
  | Nmd_Initialize "switch_info list"
  | Nmd_Add_Vlan string
  | Nmd_Delete_Vlan switch_vlan string
  | Nmd_Add_Port switch_vlan switch_port string
  | Nmd_Delete_Port switch_vlan switch_port string
  | Nmd_Start_Session string
  | Nmd_End_Session string
  | Node_Start cptr
  | Node_Configure cptr component node_info
  | Node_End_Configure cptr
  | Node_Refresh cptr "param list"
  | Node_Keeboot cptr string
  | Db_State string string
  | Db_Return string
  | Db_Clear_All
  | Command string
  | Mapping_File string "(string \<times> string) list"

datatype action =
    Component_Do_Initialize cptr
  | Component_Wait cptr string
  | Component_Boot cptr
  | Component_Start cptr
  | Component_Finish cptr bool
  | Component_Do_Refresh cptr
  | Component_Clear cptr
  | Link_Ports kptr
  | Link_Check kptr
  | Link_Report kptr
  | Start_Vlans sptr
  | Link_Complete kptr NCCP_StatusType
  | Link_Refresh kptr
  | Link_Do_Refresh kptr
  | Link_Clear_Session kptr

record crd =
  comp_at :: "cptr \<Rightarrow> crd_component"
  clink_at :: "kptr \<Rightarrow> crd_link"
  sess_at :: "sptr \<Rightarrow> crd_session"
  vlan_at :: "vptr \<Rightarrow> crd_vlan"
  comp_count :: nat
  clink_count :: nat
  sess_count :: nat
  vlan_count :: nat
  res_store :: store
  num_ports_on_vlan :: "switch_vlan \<Rightarrow> int option"
  outstanding_ports :: "switch_port list"
  active_components :: "cptr list"
  refreshing_components :: "cptr list"
  keeboot_params :: "string \<Rightarrow> string option"
  active_sessions :: "sptr list"
  next_session_id :: u32
  initializing :: bool
  testing :: bool
  test_vlan :: switch_vlan
  w_log :: "event list"
  w_threads :: "action list list"
  o_state :: "nat \<Rightarrow> string"
  o_dependent :: "nat \<Rightarrow> string"
  o_answer :: "nat \<Rightarrow> answer"
  o_connect :: "nat \<Rightarrow> bool"
  o_up :: "nat \<Rightarrow> bool"
  o_thread :: "nat \<Rightarrow> bool"
  db_type :: "string \<Rightarrow> string"
  ignored :: "string \<Rightarrow> bool"
  install_link :: "string \<Rightarrow> bool"

section \<open>Objects\<close>

definition upd_comp :: "cptr \<Rightarrow> (crd_component \<Rightarrow> crd_component) \<Rightarrow> crd \<Rightarrow> crd" where
  "upd_comp c f w = w\<lparr>comp_at := (comp_at w)(c := f (comp_at w c))\<rparr>"

definition upd_clink :: "kptr \<Rightarrow> (crd_link \<Rightarrow> crd_link) \<Rightarrow> crd \<Rightarrow> crd" where
  "upd_clink k f w = w\<lparr>clink_at := (clink_at w)(k := f (clink_at w k))\<rparr>"

definition upd_sess :: "sptr \<Rightarrow> (crd_session \<Rightarrow> crd_session) \<Rightarrow> crd \<Rightarrow> crd" where
  "upd_sess s f w = w\<lparr>sess_at := (sess_at w)(s := f (sess_at w s))\<rparr>"

definition upd_cvlan :: "vptr \<Rightarrow> (crd_vlan \<Rightarrow> crd_vlan) \<Rightarrow> crd \<Rightarrow> crd" where
  "upd_cvlan v f w = w\<lparr>vlan_at := (vlan_at w)(v := f (vlan_at w v))\<rparr>"

definition new_vlan :: "crd_vlan \<Rightarrow> crd \<Rightarrow> vptr \<times> crd" where
  "new_vlan x w = (vlan_count w, w\<lparr>vlan_at := (vlan_at w)(vlan_count w := x), vlan_count := Suc (vlan_count w)\<rparr>)"

definition new_comp :: "crd_component \<Rightarrow> crd \<Rightarrow> cptr \<times> crd" where
  "new_comp x w = (comp_count w, w\<lparr>comp_at := (comp_at w)(comp_count w := x), comp_count := Suc (comp_count w)\<rparr>)"

definition new_clink :: "crd_link \<Rightarrow> crd \<Rightarrow> kptr \<times> crd" where
  "new_clink x w = (clink_count w, w\<lparr>clink_at := (clink_at w)(clink_count w := x), clink_count := Suc (clink_count w)\<rparr>)"

definition new_sess :: "crd_session \<Rightarrow> crd \<Rightarrow> sptr \<times> crd" where
  "new_sess x w = (sess_count w, w\<lparr>sess_at := (sess_at w)(sess_count w := x), sess_count := Suc (sess_count w)\<rparr>)"

definition emit :: "event \<Rightarrow> crd \<Rightarrow> crd" where
  "emit e w = w\<lparr>w_log := w_log w @ [e]\<rparr>"

definition spawn :: "action list \<Rightarrow> crd \<Rightarrow> crd" where
  "spawn t w = w\<lparr>w_threads := w_threads w @ [t]\<rparr>"

definition shift :: "(nat \<Rightarrow> 'a) \<Rightarrow> nat \<Rightarrow> 'a" where
  "shift f i = f (Suc i)"

definition next_answer :: "crd \<Rightarrow> answer \<times> crd" where
  "next_answer w = (o_answer w 0, w\<lparr>o_answer := shift (o_answer w)\<rparr>)"

definition next_state :: "crd \<Rightarrow> string \<times> crd" where
  "next_state w = (o_state w 0, w\<lparr>o_state := shift (o_state w)\<rparr>)"

definition next_dependent :: "crd \<Rightarrow> string \<times> crd" where
  "next_dependent w = (o_dependent w 0, w\<lparr>o_dependent := shift (o_dependent w)\<rparr>)"

definition next_connect :: "crd \<Rightarrow> bool \<times> crd" where
  "next_connect w = (o_connect w 0, w\<lparr>o_connect := shift (o_connect w)\<rparr>)"

definition next_up :: "crd \<Rightarrow> bool \<times> crd" where
  "next_up w = (o_up w 0, w\<lparr>o_up := shift (o_up w)\<rparr>)"

definition next_thread :: "crd \<Rightarrow> bool \<times> crd" where
  "next_thread w = (o_thread w 0, w\<lparr>o_thread := shift (o_thread w)\<rparr>)"

text \<open>A message and the outcome of waiting for its response.\<close>

definition ask :: "event \<Rightarrow> crd \<Rightarrow> answer \<times> crd" where
  "ask e w = next_answer (emit e w)"

definition fine :: "answer \<Rightarrow> bool" where
  "fine a \<longleftrightarrow> an_answered a \<and> an_status a = NCCP_Status_Fine"

end
