(* ===== verification/Crd_Manager.thy ===== *)
theory Crd_Manager
  imports Crd_World
begin

text \<open>
  The session manager (\<^verbatim>\<open>crd/onlcrd_session_manager.cc\<close>): VLANs, the lists of components, keeboot
  parameters and sessions. What it asks the database is an argument of the functions that use it.
\<close>

section \<open>VLANs\<close>

definition ports_on :: "switch_vlan \<Rightarrow> crd \<Rightarrow> int" where
  "ports_on v w = (case num_ports_on_vlan w v of None \<Rightarrow> 0 | Some n \<Rightarrow> n)"

definition start_session_vlans :: "string \<Rightarrow> crd \<Rightarrow> bool \<times> crd" where
  "start_session_vlans sid w = (if testing w then (True, w)
     else let (a, w) = ask (Nmd_Start_Session sid) w in (fine a, w))"

definition clear_session_vlans :: "string \<Rightarrow> crd \<Rightarrow> bool \<times> crd" where
  "clear_session_vlans sid w = (if testing w then (True, w)
     else let (a, w) = ask (Nmd_End_Session sid) w in (fine a, w))"

definition enter_vlan :: "switch_vlan \<Rightarrow> crd \<Rightarrow> vptr \<times> crd" where
  "enter_vlan v w = new_vlan \<lparr>vlanid = v, is_deleted = False\<rparr> (w\<lparr>num_ports_on_vlan := (num_ports_on_vlan w)(v \<mapsto> 0)\<rparr>)"

definition sm_add_vlan :: "string \<Rightarrow> crd \<Rightarrow> vptr \<times> crd" where
  "sm_add_vlan sid w = (let (null_ptr, w) = new_vlan \<lparr>vlanid = 0, is_deleted = True\<rparr> w in
     if testing w then (let v = test_vlan w + 1 in enter_vlan v (w\<lparr>test_vlan := v\<rparr>))
     else let (a, w) = ask (Nmd_Add_Vlan sid) w in
       if \<not> fine a then (null_ptr, w) else enter_vlan (an_vlan a) w)"

definition sm_add_port_to_vlan :: "vptr \<Rightarrow> switch_port \<Rightarrow> string \<Rightarrow> crd \<Rightarrow> bool \<times> crd" where
  "sm_add_port_to_vlan vp port sid w = (let v = vlanid (vlan_at w vp);
       count = (\<lambda>w. (True, w\<lparr>num_ports_on_vlan := (num_ports_on_vlan w)(v \<mapsto> ports_on v w + 1)\<rparr>)) in
     if testing w then count w
     else let (a, w) = ask (Nmd_Add_Port v port sid) w in if fine a then count w else (False, w))"

definition sm_delete_vlan :: "vptr \<Rightarrow> string \<Rightarrow> crd \<Rightarrow> bool \<times> crd" where
  "sm_delete_vlan vp sid w = (let v = vlanid (vlan_at w vp); w = w\<lparr>num_ports_on_vlan := (num_ports_on_vlan w)(v := None)\<rparr> in
     if is_deleted (vlan_at w vp) then (True, w)
     else let w = upd_cvlan vp (\<lambda>x. x\<lparr>is_deleted := True\<rparr>) w in
       if testing w then (True, w)
       else let (a, w) = ask (Nmd_Delete_Vlan v sid) w in
         if \<not> an_answered a then (False, upd_cvlan vp (\<lambda>x. x\<lparr>is_deleted := False\<rparr>) w)
         else (an_status a = NCCP_Status_Fine, w))"

definition sm_remove_port_from_vlan :: "vptr \<Rightarrow> switch_port \<Rightarrow> string \<Rightarrow> crd \<Rightarrow> bool \<times> crd" where
  "sm_remove_port_from_vlan vp port sid w = (let v = vlanid (vlan_at w vp);
       w = w\<lparr>num_ports_on_vlan := (num_ports_on_vlan w)(v \<mapsto> ports_on v w - 1)\<rparr>;
       last_port = (ports_on v w = 0);
       finish = (\<lambda>r w. (r, if last_port then snd (sm_delete_vlan vp sid w) else w)) in
     if testing w then finish True w
     else let (a, w) = ask (Nmd_Delete_Port v port sid) w in finish (fine a) w)"

text \<open>The wait for a port in the outstanding list: \<open>views\<close> are the lists that it finds when it looks again, as the other
  threads left them.\<close>

fun sm_add_port_to_outstanding_list :: "switch_port \<Rightarrow> nat \<Rightarrow> switch_port list list \<Rightarrow> crd \<Rightarrow> (bool \<times> crd) option" where
  "sm_add_port_to_outstanding_list port attempts views w =
    (if port \<notin> set (outstanding_ports w) then Some (True, w\<lparr>outstanding_ports := outstanding_ports w @ [port]\<rparr>)
     else if Suc attempts = 100 then Some (False, w)
     else case views of [] \<Rightarrow> None
       | v # vs \<Rightarrow> sm_add_port_to_outstanding_list port (Suc attempts) vs (w\<lparr>outstanding_ports := v\<rparr>))"

definition sm_remove_port_from_outstanding_list :: "switch_port \<Rightarrow> crd \<Rightarrow> crd" where
  "sm_remove_port_from_outstanding_list port w = w\<lparr>outstanding_ports := removeAll port (outstanding_ports w)\<rparr>"

section \<open>Keeboot parameters\<close>

definition set_keeboot_param :: "string \<Rightarrow> string \<Rightarrow> crd \<Rightarrow> crd" where
  "set_keeboot_param name p w = w\<lparr>keeboot_params := (keeboot_params w)(name \<mapsto> p)\<rparr>"

definition check_keeboot_param :: "string \<Rightarrow> crd \<Rightarrow> bool" where
  "check_keeboot_param name w \<longleftrightarrow> keeboot_params w name \<noteq> None"

definition get_keeboot_param :: "string \<Rightarrow> crd \<Rightarrow> string \<times> crd" where
  "get_keeboot_param name w = (case keeboot_params w name of
     None \<Rightarrow> (if install_link w name then ''install/'' @ name else '''', w)
   | Some fs \<Rightarrow> (fs, w\<lparr>keeboot_params := (keeboot_params w)(name := None)\<rparr>))"

section \<open>Components\<close>

text \<open>The type that the database knows; the classes of virtual components know their own.\<close>

definition comp_type_of :: "cptr \<Rightarrow> crd \<Rightarrow> string" where
  "comp_type_of c w = (case cc_class (comp_at w c) of Plain \<Rightarrow> db_type w (cc_name (comp_at w c))
     | Virtual_Switch \<Rightarrow> ''vgige'' | Virtual_Machine \<Rightarrow> ''vm'')"

definition comp_is_virtual :: "cptr \<Rightarrow> crd \<Rightarrow> bool" where
  "comp_is_virtual c w \<longleftrightarrow> cc_class (comp_at w c) \<noteq> Plain \<or> comp_type_of c w \<in> {''vgige'', ''vm''}"

definition comp_clear_session :: "cptr \<Rightarrow> crd \<Rightarrow> crd" where
  "comp_clear_session c = upd_comp c (\<lambda>x. x\<lparr>cc_sess := None\<rparr>)"

definition comp_set_session :: "cptr \<Rightarrow> sptr \<Rightarrow> crd \<Rightarrow> crd" where
  "comp_set_session c s = upd_comp c (\<lambda>x. x\<lparr>cc_sess := Some s\<rparr>)"

definition crd_component_new :: "string \<Rightarrow> string \<Rightarrow> u16 \<Rightarrow> bool \<Rightarrow> bool \<Rightarrow> crd_component" where
  "crd_component_new n cp port do_k is_d = \<lparr>cc_class = Plain, cc_dependent_comp = '''', cc_cluster_name = '''', cc_name = n,
     cc_vmname = '''', cc_cp = cp, cc_devip = '''', cc_cp_port = port, cc_keeboot = do_k, cc_is_dependent = is_d, cc_vmid = 0,
     cc_cores = 1, cc_memory = 1, cc_sess = None, cc_comp = component_new, cc_ip_addr = '''', cc_reboot_params = [],
     cc_init_params = [], cc_compreq = None, cc_links = [], cc_connected = False, cc_internal_state = ''free'',
     cc_needs_refresh = False, cc_local_state = ''new'', cc_keebooting_now = False, cc_received_up_msg = False,
     cc_mark = False, cc_init_timeout = 120, cc_vlan = None, cc_alloc_vlan = False\<rparr>"

definition crd_virtual_machine_new :: "u32 \<Rightarrow> string \<Rightarrow> string \<Rightarrow> u16 \<Rightarrow> bool \<Rightarrow> bool \<Rightarrow> crd_component" where
  "crd_virtual_machine_new vm n cp port do_k is_d = (crd_component_new n cp port do_k is_d)
     \<lparr>cc_class := Virtual_Machine, cc_vmid := vm, cc_init_timeout := 300\<rparr>"

definition crd_virtual_switch_new :: "string \<Rightarrow> crd \<Rightarrow> crd_component \<times> crd" where
  "crd_virtual_switch_new n w = (let (v, w) = new_vlan \<lparr>vlanid = 0, is_deleted = False\<rparr> w in
     ((crd_component_new n '''' 0 False False)\<lparr>cc_class := Virtual_Switch, cc_vlan := Some v\<rparr>, w))"

definition setCluster :: "string \<Rightarrow> crd_component \<Rightarrow> crd_component" where
  "setCluster str x = x\<lparr>cc_cluster_name := (if str = ''NULL'' then '''' else str)\<rparr>"

definition setDependentComp :: "string \<Rightarrow> crd_component \<Rightarrow> crd_component" where
  "setDependentComp str x = (if cc_is_dependent x then x else x\<lparr>cc_dependent_comp := str\<rparr>)"

text \<open>What the database knows of a node.\<close>

record db_node =
  dn_node :: string
  dn_cp :: "(string \<times> u16) option"
  dn_keeboot :: bool
  dn_dependent :: bool
  dn_cluster :: string
  dn_state :: string

definition dn_contact :: "db_node \<Rightarrow> string \<times> u16" where
  "dn_contact d = (case dn_cp d of None \<Rightarrow> ('''', 0) | Some x \<Rightarrow> x)"

definition sm_get_component :: "db_node option \<Rightarrow> string \<Rightarrow> u32 \<Rightarrow> crd \<Rightarrow> cptr option \<times> crd" where
  "sm_get_component info name vmid w =
    (if take 5 name = ''vgige'' then
       (let (x, w) = crd_virtual_switch_new name w; (c, w) = new_comp x w in (Some c, w))
     else case info of None \<Rightarrow> (None, w)
     | Some d \<Rightarrow> (let (cp, port) = dn_contact d;
           w = (if dn_keeboot d then w\<lparr>keeboot_params := (keeboot_params w)(name := None)\<rparr> else w);
           x = (if vmid = 0 then setCluster (dn_cluster d) (crd_component_new (dn_node d) cp port (dn_keeboot d) (dn_dependent d))
             else crd_virtual_machine_new vmid (dn_node d) cp port (dn_keeboot d) (dn_dependent d));
           (c, w) = new_comp x w in (Some c, w)))"

text \<open>Moving a component between the lists.\<close>

definition sm_remove_component :: "cptr \<Rightarrow> crd \<Rightarrow> crd" where
  "sm_remove_component c w = (if comp_is_virtual c w then w
     else w\<lparr>active_components := removeAll c (active_components w),
       refreshing_components := refreshing_components w @ replicate (count_list (active_components w) c) c\<rparr>)"

definition sm_clear_component :: "cptr \<Rightarrow> crd \<Rightarrow> crd" where
  "sm_clear_component c w = (if comp_is_virtual c w then comp_clear_session c w
     else if c \<in> set (refreshing_components w) then
       (let w = comp_clear_session c w; rest = remove1 c (refreshing_components w) in
        w\<lparr>refreshing_components := rest, initializing := (if initializing w \<and> rest = [] then False else initializing w)\<rparr>)
     else comp_clear_session c w)"

section \<open>Sessions\<close>

definition crd_session_new :: "u32 \<Rightarrow> string \<Rightarrow> addr \<Rightarrow> crd_session" where
  "crd_session_new sid username nc = \<lparr>ss_id = int2str sid, ss_user = username, ss_conn = nc, ss_errmsg = '''', ss_cleared = False,
     ss_mapping_written = False, ss_begin_req = None, ss_component_reqs = [], ss_cluster_reqs = [], ss_link_reqs = [],
     ss_topology = topology_new, ss_components = [], ss_links = [], ss_vlans_created = False, ss_unreported_links = [],
     ss_allowed_observers = [], ss_observe_reqs = []\<rparr>"

definition sm_find :: "(crd_session \<Rightarrow> bool) \<Rightarrow> crd \<Rightarrow> sptr option" where
  "sm_find p w = find (\<lambda>s. p (sess_at w s) \<and> \<not> ss_cleared (sess_at w s)) (active_sessions w)"

definition sm_has_session :: "string \<Rightarrow> crd \<Rightarrow> bool" where
  "sm_has_session username w \<longleftrightarrow> sm_find (\<lambda>x. ss_user x = username) w \<noteq> None"

definition sm_get_session_conn :: "addr \<Rightarrow> crd \<Rightarrow> sptr option" where
  "sm_get_session_conn conn = sm_find (\<lambda>x. ss_conn x = conn)"

definition sm_get_session_id :: "addr \<Rightarrow> string \<Rightarrow> crd \<Rightarrow> sptr option" where
  "sm_get_session_id conn sid = sm_find (\<lambda>x. ss_conn x = conn \<and> ss_id x = sid)"

definition sm_get_session_user :: "string \<Rightarrow> crd \<Rightarrow> sptr option" where
  "sm_get_session_user username = sm_find (\<lambda>x. ss_user x = username)"

text \<open>The thread that \<^verbatim>\<open>set_begin_request\<close> starts, which sends pings and alerts, is not modelled.\<close>

definition sm_add_session :: "string \<Rightarrow> addr \<Rightarrow> begin_session_req option \<Rightarrow> crd \<Rightarrow> sptr \<times> crd" where
  "sm_add_session username conn req w =
    (let (s, w) = new_sess ((crd_session_new (next_session_id w) username conn)\<lparr>ss_begin_req := req\<rparr>) w in
     (s, w\<lparr>next_session_id := next_session_id w + 1, active_sessions := active_sessions w @ [s]\<rparr>))"

fun remove_by_id :: "string \<Rightarrow> (sptr \<Rightarrow> string) \<Rightarrow> sptr list \<Rightarrow> sptr list" where
  "remove_by_id i f [] = []"
| "remove_by_id i f (s # ss) = (if f s = i then ss else s # remove_by_id i f ss)"

definition sm_remove_session :: "sptr \<Rightarrow> crd \<Rightarrow> crd" where
  "sm_remove_session s w = w\<lparr>active_sessions :=
     remove_by_id (ss_id (sess_at w s)) (\<lambda>t. ss_id (sess_at w t)) (active_sessions w)\<rparr>"

definition observable_by :: "string \<Rightarrow> crd_session \<Rightarrow> bool" where
  "observable_by username x \<longleftrightarrow> username \<in> set (ss_allowed_observers x)"

definition add_observer :: "string \<Rightarrow> crd_session \<Rightarrow> crd_session" where
  "add_observer username x = (if username \<in> set (ss_allowed_observers x) then x
     else x\<lparr>ss_allowed_observers := ss_allowed_observers x @ [username]\<rparr>)"

definition sm_get_observable_sessions :: "string \<Rightarrow> crd \<Rightarrow> sptr list" where
  "sm_get_observable_sessions username w = filter (\<lambda>s. observable_by username (sess_at w s)) (active_sessions w)"

end
