(* ===== verification/Crd_Link.thy ===== *)
theory Crd_Link
  imports Crd_Manager
begin

text \<open>
  Links (\<^verbatim>\<open>class crd_link\<close> in \<^verbatim>\<open>crd/onlcrd_component.cc\<close>) and the part of the session that collects
  their reports (\<^verbatim>\<open>session::link_vlanports_added\<close>). What a thread does is cut into actions at the places
  where it can be interleaved with others; \<open>link_act\<close> takes one action and gives those that follow in the same
  thread.
\<close>

definition link_vlanid :: "kptr \<Rightarrow> crd \<Rightarrow> switch_vlan" where
  "link_vlanid k w = vlanid (vlan_at w (ck_vlan (clink_at w k)))"

definition crd_link_new :: "cptr \<Rightarrow> u16 \<Rightarrow> cptr \<Rightarrow> u16 \<Rightarrow> crd \<Rightarrow> crd_link \<times> crd" where
  "crd_link_new e1 e1p e2 e2p w = (let (v, w) = new_vlan \<lparr>vlanid = 0, is_deleted = False\<rparr> w in
     (\<lparr>ck_p1 = \<lparr>ep_comp = e1, ep_port = e1p, ep_rport = 0, ep_cap = 0, ep_mac = ''''\<rparr>,
       ck_p2 = \<lparr>ep_comp = e2, ep_port = e2p, ep_rport = 0, ep_cap = 0, ep_mac = ''''\<rparr>,
       ck_comp = component_new, ck_switch_ports = [], ck_state = ''new'', ck_needs_refresh = False, ck_sess = None,
       ck_linkreq = None, ck_num_comps_done = 0, ck_vlan = v, ck_alloc_vlan = True, ck_mark = False,
       ck_vlan_status = NCCP_Status_OperationIncomplete\<rparr>, w))"

section \<open>Configuring the ports of a link\<close>

text \<open>Two components are the same when name and number agree: virtual machines may share a name.\<close>

definition same_comp :: "cptr \<Rightarrow> cptr \<Rightarrow> crd \<Rightarrow> bool" where
  "same_comp c d w \<longleftrightarrow> cc_name (comp_at w c) = cc_name (comp_at w d) \<and>
     comp_id (cc_comp (comp_at w c)) = comp_id (cc_comp (comp_at w d))"

definition is_loopback :: "kptr \<Rightarrow> crd \<Rightarrow> bool" where
  "is_loopback k w \<longleftrightarrow> same_comp (ep_comp (ck_p1 (clink_at w k))) (ep_comp (ck_p2 (clink_at w k))) w"

definition is_router :: "cptr \<Rightarrow> crd \<Rightarrow> bool" where
  "is_router c w \<longleftrightarrow> comp_is_router (cc_comp (comp_at w c))"

text \<open>The description of the port at \<open>here\<close>, with \<open>there\<close> as the next hop.\<close>

definition port_info :: "endpoint \<Rightarrow> endpoint \<Rightarrow> string \<Rightarrow> string \<Rightarrow> string \<Rightarrow> switch_vlan \<Rightarrow> crd \<Rightarrow> node_info" where
  "port_info here there myip subnet nhip vlan w =
    (let ni = node_info_of_dev myip subnet (ucast (ep_port here)) (ucast (ep_rport here)) (cc_devip (comp_at w (ep_comp here)));
         ni = setNextHop (comp_type_of (ep_comp there) w) (is_router (ep_comp there) w) nhip
           (cc_devip (comp_at w (ep_comp there))) (ep_mac there) ni
     in ni\<lparr>ni_vlanid := vlan, ni_bandwidth := ep_cap here\<rparr>)"

text \<open>The address of a router on a link is the next hop that the other side uses.\<close>

definition first_info :: "kptr \<Rightarrow> session_add_link_req \<Rightarrow> crd \<Rightarrow> node_info" where
  "first_info k r w = (let x = clink_at w k in
     port_info (ck_p1 x) (ck_p2 x) (c_str (if is_router (ep_comp (ck_p1 x)) w then le_nhip (al_to r) else le_ip (al_from r)))
       (c_str (le_subnet (al_from r))) (c_str (le_nhip (al_from r))) (link_vlanid k w) w)"

definition second_info :: "kptr \<Rightarrow> session_add_link_req \<Rightarrow> crd \<Rightarrow> node_info" where
  "second_info k r w = (let x = clink_at w k in
     port_info (ck_p2 x) (ck_p1 x) (c_str (if is_router (ep_comp (ck_p2 x)) w then le_nhip (al_from r) else le_ip (al_to r)))
       (c_str (le_subnet (al_to r))) (c_str (le_nhip (al_to r))) (link_vlanid k w) w)"

definition configure :: "cptr \<Rightarrow> node_info \<Rightarrow> crd \<Rightarrow> bool \<times> crd" where
  "configure c ni w = (let (a, w) = ask (Node_Configure c (cc_comp (comp_at w c)) ni) w in (fine a, w))"

definition send_port_configuration :: "cptr \<Rightarrow> bool \<Rightarrow> kptr \<Rightarrow> crd \<Rightarrow> (bool \<times> crd) option" where
  "send_port_configuration c use2 k w = (let x = clink_at w k in
     if ck_state x \<noteq> ''new'' then Some (True, w)
     else if ck_sess x = None then Some (False, w)
     else if same_comp c (ep_comp (ck_p1 x)) w \<and> \<not> use2 then do {
       r \<leftarrow> ck_linkreq x;
       Some (configure (ep_comp (ck_p1 x)) (first_info k r w) w) }
     else if same_comp c (ep_comp (ck_p2 x)) w then do {
       r \<leftarrow> ck_linkreq x;
       Some (configure (ep_comp (ck_p2 x)) (second_info k r w) w) }
     else Some (False, w))"

section \<open>Starting and ending a link\<close>

definition both_comps_done :: "kptr \<Rightarrow> crd \<Rightarrow> bool \<times> crd" where
  "both_comps_done k w = (let w = upd_clink k (\<lambda>x. x\<lparr>ck_num_comps_done := ck_num_comps_done x + 1\<rparr>) w in
     (ck_num_comps_done (clink_at w k) = 2, w))"

definition link_set_session :: "kptr \<Rightarrow> sptr \<Rightarrow> crd \<Rightarrow> crd" where
  "link_set_session k s = upd_clink k (\<lambda>x. x\<lparr>ck_sess := Some s\<rparr>)"

definition link_clear_session :: "kptr \<Rightarrow> crd \<Rightarrow> crd" where
  "link_clear_session k = upd_clink k (\<lambda>x. x\<lparr>ck_sess := None\<rparr>)"

definition set_link_state :: "string \<Rightarrow> kptr \<Rightarrow> crd \<Rightarrow> crd" where
  "set_link_state st k = upd_clink k (\<lambda>x. x\<lparr>ck_state := st\<rparr>)"

definition link_cleanup_reqs :: "kptr \<Rightarrow> crd \<Rightarrow> crd" where
  "link_cleanup_reqs k w = (let w = set_link_state ''failed'' k w in
     case ck_linkreq (clink_at w k) of None \<Rightarrow> w
     | Some r \<Rightarrow> upd_clink k (\<lambda>x. x\<lparr>ck_linkreq := None\<rparr>) (emit (Link_Response r NCCP_Status_Failed) w))"

text \<open>The three ways in which the creation of a thread can fail are one outcome.\<close>

definition link_initialize :: "kptr \<Rightarrow> crd \<Rightarrow> crd" where
  "link_initialize k w =
    (if ck_state (clink_at w k) \<noteq> ''new'' then w
     else let w = set_link_state ''initializing'' k w; (ok, w) = next_thread w in
       if ok then spawn [Link_Ports k, Link_Check k] w else link_cleanup_reqs k w)"

text \<open>What a component does for each of its links when it is done.\<close>

definition component_done :: "kptr \<Rightarrow> crd \<Rightarrow> crd" where
  "component_done k w = (let (b, w) = both_comps_done k w in if b then link_initialize k w else w)"

text \<open>The ports are added in order until one fails; the value are those that were added.\<close>

fun add_link_ports :: "vptr \<Rightarrow> switch_port list \<Rightarrow> sptr option \<Rightarrow> crd \<Rightarrow> (bool \<times> switch_port list \<times> crd) option" where
  "add_link_ports v [] se w = Some (True, [], w)"
| "add_link_ports v (p # ps) se w = do {
     s \<leftarrow> se;
     let (ok, w) = sm_add_port_to_vlan v p (ss_id (sess_at w s)) w;
     if ok then do { (ok, qs, w) \<leftarrow> add_link_ports v ps se w; Some (ok, p # qs, w) }
     else Some (False, [], w) }"

definition link_own_vlan :: "kptr \<Rightarrow> crd \<Rightarrow> crd" where
  "link_own_vlan k w = (case ck_sess (clink_at w k) of None \<Rightarrow> w
     | Some s \<Rightarrow> let (v, w) = sm_add_vlan (ss_id (sess_at w s)) w in upd_clink k (\<lambda>x. x\<lparr>ck_vlan := v\<rparr>) w)"

definition link_add_ports :: "kptr \<Rightarrow> crd \<Rightarrow> (bool \<times> crd) option" where
  "link_add_ports k w = (let x = clink_at w k in
     if link_vlanid k w = 0 then Some (True, w)
     else do {
       (ok, ps, w) \<leftarrow> add_link_ports (ck_vlan x) (ck_switch_ports x) (ck_sess x) w;
       Some (ok, upd_clink k (\<lambda>x. x\<lparr>ck_switch_ports := ps\<rparr>) w) })"

definition link_ports :: "kptr \<Rightarrow> crd \<Rightarrow> crd option" where
  "link_ports k w = (let x = clink_at w k in
     if testing w then Some (upd_clink k (\<lambda>x. x\<lparr>ck_vlan_status := NCCP_Status_Fine\<rparr>) w)
     else do {
       let wanted = (ck_alloc_vlan x \<and> link_vlanid k w = 0);
       let w = (if wanted then link_own_vlan k w else w);
       let failed = ((wanted \<and> ck_sess x = None) \<or> link_vlanid k w = 0);
       (ok, w) \<leftarrow> link_add_ports k w;
       let status = (if failed \<or> \<not> ok then NCCP_Status_Failed else NCCP_Status_Fine);
       Some (upd_clink k (\<lambda>x. x\<lparr>ck_vlan_status := status\<rparr>) w) })"

text \<open>The end of \<^verbatim>\<open>do_initialize\<close>: without a session there is nobody to report to.\<close>

definition link_check :: "kptr \<Rightarrow> crd \<Rightarrow> action list option" where
  "link_check k w = (let x = clink_at w k in
     if ck_needs_refresh x then Some [Link_Complete k (ck_vlan_status x)]
     else do { s \<leftarrow> ck_sess x; Some [Link_Report k] })"

definition link_report :: "kptr \<Rightarrow> crd \<Rightarrow> (action list \<times> crd) option" where
  "link_report k w = do {
     s \<leftarrow> ck_sess (clink_at w k);
     let lid = comp_id (ck_comp (clink_at w k));
     let w = upd_sess s (\<lambda>x. x\<lparr>ss_unreported_links := removeAll lid (ss_unreported_links x)\<rparr>) w;
     let x = sess_at w s;
     if ss_unreported_links x = [] \<and> \<not> ss_vlans_created x
     then Some ([Start_Vlans s], upd_sess s (\<lambda>x. x\<lparr>ss_vlans_created := True\<rparr>) w)
     else Some ([], w) }"

definition start_vlans :: "sptr \<Rightarrow> crd \<Rightarrow> action list \<times> crd" where
  "start_vlans s w = (let (ok, w) = start_session_vlans (ss_id (sess_at w s)) w;
       status = (if ok then NCCP_Status_Fine else NCCP_Status_Failed)
     in (map (\<lambda>k. Link_Complete k status) (ss_links (sess_at w s)), w))"

definition complete_initialization :: "kptr \<Rightarrow> NCCP_StatusType \<Rightarrow> crd \<Rightarrow> (action list \<times> crd) option" where
  "complete_initialization k sess_st w = do {
     let x = clink_at w k;
     let status = (if sess_st \<noteq> NCCP_Status_Fine \<or> ck_vlan_status x \<noteq> NCCP_Status_Fine then NCCP_Status_Failed else NCCP_Status_Fine);
     r \<leftarrow> ck_linkreq x;
     let w = emit (Link_Response r status) w;
     let w = upd_clink k (\<lambda>x. x\<lparr>ck_linkreq := None, ck_vlan_status := status,
       ck_state := (if status = NCCP_Status_Fine then ''active'' else ''failed'')\<rparr>) w;
     Some (if ck_needs_refresh x then [Link_Refresh k] else [], w) }"

definition allocate_vlan :: "kptr \<Rightarrow> crd \<Rightarrow> bool \<times> crd" where
  "allocate_vlan k w = (let x = clink_at w k in
     if \<not> testing w \<and> ck_alloc_vlan x \<and> link_vlanid k w = 0 then
       (case ck_sess x of None \<Rightarrow> (False, w)
        | Some s \<Rightarrow> let (v, w) = sm_add_vlan (ss_id (sess_at w s)) w in (True, upd_clink k (\<lambda>x. x\<lparr>ck_vlan := v\<rparr>) w))
     else (True, w))"

definition link_set_vlan :: "vptr \<Rightarrow> kptr \<Rightarrow> crd \<Rightarrow> crd" where
  "link_set_vlan v k = upd_clink k (\<lambda>x. x\<lparr>ck_vlan := v, ck_alloc_vlan := False\<rparr>)"

definition link_refresh :: "kptr \<Rightarrow> crd \<Rightarrow> crd" where
  "link_refresh k w = (let x = clink_at w k; st = ck_state x in
     if st = ''failed'' \<and> link_vlanid k w = 0 then link_clear_session k w
     else if st = ''new'' \<and> link_vlanid k w = 0 then link_clear_session k (set_link_state ''refreshing'' k w)
     else if st = ''initializing'' then upd_clink k (\<lambda>x. x\<lparr>ck_needs_refresh := True\<rparr>) w
     else let w = (if st \<noteq> ''failed'' then set_link_state ''refreshing'' k w else w); (ok, w) = next_thread w in
       if ok then spawn [Link_Do_Refresh k, Link_Clear_Session k] w else link_clear_session k w)"

definition link_do_refresh :: "kptr \<Rightarrow> crd \<Rightarrow> crd" where
  "link_do_refresh k w = (let x = clink_at w k;
       w = (if \<not> testing w \<and> ck_alloc_vlan x \<and> link_vlanid k w \<noteq> 0
         then snd (sm_delete_vlan (ck_vlan x) (case ck_sess x of None \<Rightarrow> '''' | Some s \<Rightarrow> ss_id (sess_at w s)) w) else w)
     in upd_clink k (\<lambda>x. x\<lparr>ck_switch_ports := []\<rparr>) w)"

section \<open>The actions of the threads of links\<close>

fun link_act :: "action \<Rightarrow> crd \<Rightarrow> (action list \<times> crd) option" where
  "link_act (Link_Ports k) w = map_option (Pair []) (link_ports k w)"
| "link_act (Link_Check k) w = map_option (\<lambda>a. (a, w)) (link_check k w)"
| "link_act (Link_Report k) w = link_report k w"
| "link_act (Start_Vlans s) w = Some (start_vlans s w)"
| "link_act (Link_Complete k st) w = complete_initialization k st w"
| "link_act (Link_Refresh k) w = Some ([], link_refresh k w)"
| "link_act (Link_Do_Refresh k) w = Some ([], link_do_refresh k w)"
| "link_act (Link_Clear_Session k) w = Some ([], link_clear_session k w)"
| "link_act _ w = Some ([], w)"

end
