(* ===== verification/Crd_Link_Protocol.thy ===== *)
theory Crd_Link_Protocol
  imports Crd_Link "HOL-Library.Multiset"
begin

text \<open>
  How the links of a session start and end, with any interleaving of their threads, any outcome of the messages they
  send and any moment at which the session is closed. \<open>link_inv\<close> is the invariant; no thread follows
  a null pointer, every request is answered at most once.
\<close>

section \<open>Steps\<close>

text \<open>A step is an action of a thread, the end of one component of a link, or the closing of a link by its session.\<close>

inductive thread_step :: "crd \<Rightarrow> crd \<Rightarrow> bool" where
  act: "w_threads w = ts @ (a # as) # ts' \<Longrightarrow> link_act a w = Some (new, w') \<Longrightarrow> w_threads w' = (ts @ (a # as) # ts') @ sp \<Longrightarrow>
    thread_step w (w'\<lparr>w_threads := (ts @ (new @ as) # ts') @ sp\<rparr>)"

inductive link_step :: "kptr set \<Rightarrow> crd \<Rightarrow> crd \<Rightarrow> bool" for K where
  thread: "thread_step w w' \<Longrightarrow> link_step K w w'"
| component: "k \<in> K \<Longrightarrow> link_step K w (component_done k w)"
| close: "k \<in> K \<Longrightarrow> link_step K w (link_refresh k w)"

section \<open>What an action leaves alone\<close>

text \<open>Talking to the network daemon changes neither sessions nor threads nor the core of a link, and answers no
  request.\<close>

fun answers_link :: "session_add_link_req \<Rightarrow> event \<Rightarrow> bool" where
  "answers_link r (Link_Response r' st) \<longleftrightarrow> r' = r"
| "answers_link r _ \<longleftrightarrow> False"

definition answers :: "session_add_link_req \<Rightarrow> crd \<Rightarrow> nat" where
  "answers r w = length (filter (answers_link r) (w_log w))"

definition link_core :: "crd_link \<Rightarrow> string \<times> sptr option \<times> session_add_link_req option \<times> bool \<times> component" where
  "link_core x = (ck_state x, ck_sess x, ck_linkreq x, ck_needs_refresh x, ck_comp x)"

definition quiet :: "crd \<Rightarrow> crd \<Rightarrow> bool" where
  "quiet w w' \<longleftrightarrow> (\<forall>k. link_core (clink_at w' k) = link_core (clink_at w k)) \<and> sess_at w' = sess_at w \<and> w_threads w' = w_threads w \<and>
     testing w' = testing w \<and> (\<forall>r. answers r w' = answers r w)"

lemma quiet_refl [simp]: "quiet w w"
  by (simp add: quiet_def)

lemma quiet_trans: "quiet w w' \<Longrightarrow> quiet w' w'' \<Longrightarrow> quiet w w''"
  by (simp add: quiet_def)

named_theorems quiets \<open>operations that are quiet\<close>

lemma quiet_ask [quiets]: "\<forall>r st. e \<noteq> Link_Response r st \<Longrightarrow> quiet w (snd (ask e w))"
  by (cases e) (auto simp: quiet_def ask_def next_answer_def emit_def answers_def)

lemma quiet_start_session [quiets]: "quiet w (snd (start_session_vlans sid w))"
  using quiet_ask [of "Nmd_Start_Session sid" w] by (auto simp: start_session_vlans_def split: prod.split)

lemma quiet_enter_vlan: "quiet w (snd (enter_vlan v w))"
  by (simp add: enter_vlan_def new_vlan_def quiet_def answers_def)

lemma quiet_fields:
  "quiet w w' \<Longrightarrow> quiet w (w'\<lparr>num_ports_on_vlan := f\<rparr>)" "quiet w w' \<Longrightarrow> quiet w (upd_cvlan u g w')"
  "quiet w w' \<Longrightarrow> quiet w (w'\<lparr>test_vlan := x\<rparr>)" "quiet w w' \<Longrightarrow> quiet w (snd (new_vlan v w'))"
  "quiet w w' \<Longrightarrow> \<forall>r st. e \<noteq> Link_Response r st \<Longrightarrow> quiet w (snd (ask e w'))"
  "quiet w w' \<Longrightarrow> quiet w (snd (enter_vlan u' w'))"
  using quiet_ask [of e w'] quiet_trans [of w w' "snd (ask e w')"]
    quiet_enter_vlan [of w' u'] quiet_trans [of w w' "snd (enter_vlan u' w')"]
  by (simp_all add: quiet_def answers_def upd_cvlan_def new_vlan_def)

lemma quiet_add_vlan [quiets]: "quiet w (snd (sm_add_vlan sid w))"
  by (auto simp: sm_add_vlan_def Let_def split_beta intro!: quiet_fields)

lemma quiet_add_port [quiets]: "quiet w (snd (sm_add_port_to_vlan v p sid w))"
  by (auto simp: sm_add_port_to_vlan_def Let_def split_beta intro!: quiet_fields)

lemma quiet_delete_vlan [quiets]: "quiet w (snd (sm_delete_vlan v sid w))"
  by (auto simp: sm_delete_vlan_def Let_def split_beta intro!: quiet_fields)

lemma quiet_upd_clink: "quiet w w' \<Longrightarrow> (\<And>x. link_core (f x) = link_core x) \<Longrightarrow> quiet w (upd_clink k f w')"
  by (simp add: quiet_def answers_def upd_clink_def)

lemma add_link_ports_quiet:
  "\<exists>ok qs w'. add_link_ports v ps (Some s) w = Some (ok, qs, w') \<and> quiet w w'"
proof (induction ps arbitrary: w)
  case (Cons p ps)
  obtain ok w1 where 1: "sm_add_port_to_vlan v p (ss_id (sess_at w s)) w = (ok, w1)" by force
  then have q: "quiet w w1" using quiet_add_port [of w v p "ss_id (sess_at w s)"] by simp
  from Cons [of w1] obtain ok2 qs w2 where "add_link_ports v ps (Some s) w1 = Some (ok2, qs, w2)" "quiet w1 w2" by blast
  then show ?case using 1 q quiet_trans [OF q] by (cases ok) auto
qed auto

lemma link_ports_quiet:
  assumes "ck_sess (clink_at w k) = Some s"
  shows "\<exists>w'. link_ports k w = Some w' \<and> quiet w w'"
proof (cases "testing w")
  case True
  then show ?thesis by (auto simp: link_ports_def link_core_def intro!: quiet_upd_clink)
next
  case False
  define w1 where "w1 = (if ck_alloc_vlan (clink_at w k) \<and> link_vlanid k w = 0 then link_own_vlan k w else w)"
  have "quiet w (link_own_vlan k w)" using quiet_add_vlan [of w "ss_id (sess_at w s)"] assms
    by (auto simp: link_own_vlan_def link_core_def split_beta intro!: quiet_upd_clink)
  then have q1: "quiet w w1" by (simp add: w1_def)
  then have "ck_sess (clink_at w1 k) = Some s" using assms by (auto simp: quiet_def link_core_def)
  then have "\<exists>ok w2. link_add_ports k w1 = Some (ok, w2) \<and> quiet w1 w2"
    using add_link_ports_quiet [of "ck_vlan (clink_at w1 k)" "ck_switch_ports (clink_at w1 k)" s w1]
    by (auto simp: link_add_ports_def Let_def link_core_def intro!: quiet_upd_clink)
  then obtain ok w2 where 2: "link_add_ports k w1 = Some (ok, w2)" "quiet w1 w2" by blast
  have "\<exists>st. link_ports k w = Some (upd_clink k (\<lambda>x. x\<lparr>ck_vlan_status := st\<rparr>) w2)"
    using False 2(1) unfolding link_ports_def Let_def w1_def by auto
  then show ?thesis using quiet_trans [OF q1 2(2)] by (auto simp: link_core_def intro!: quiet_upd_clink)
qed

section \<open>The invariant\<close>

text \<open>
  The tokens of a link are the pending actions that will answer its request. \<open>reported\<close>: its ports are
  added and the session knows it.
\<close>

fun token :: "sptr \<Rightarrow> kptr \<Rightarrow> action \<Rightarrow> bool" where
  "token s k (Link_Check j) \<longleftrightarrow> j = k"
| "token s k (Link_Report j) \<longleftrightarrow> j = k"
| "token s k (Link_Complete j st) \<longleftrightarrow> j = k"
| "token s k (Start_Vlans t) \<longleftrightarrow> t = s"
| "token s k _ \<longleftrightarrow> False"

fun waiting :: "kptr \<Rightarrow> action \<Rightarrow> bool" where
  "waiting k (Link_Check j) \<longleftrightarrow> j = k"
| "waiting k (Link_Report j) \<longleftrightarrow> j = k"
| "waiting k _ \<longleftrightarrow> False"

fun about :: "sptr \<Rightarrow> kptr set \<Rightarrow> action \<Rightarrow> bool" where
  "about s K (Start_Vlans t) \<longleftrightarrow> t = s"
| "about s K (Link_Ports k) \<longleftrightarrow> k \<in> K"
| "about s K (Link_Check k) \<longleftrightarrow> k \<in> K"
| "about s K (Link_Report k) \<longleftrightarrow> k \<in> K"
| "about s K (Link_Complete k st) \<longleftrightarrow> k \<in> K"
| "about s K (Link_Refresh k) \<longleftrightarrow> k \<in> K"
| "about s K (Link_Do_Refresh k) \<longleftrightarrow> k \<in> K"
| "about s K (Link_Clear_Session k) \<longleftrightarrow> k \<in> K"
| "about s K _ \<longleftrightarrow> False"

definition pending :: "crd \<Rightarrow> action list" where
  "pending w = concat (w_threads w)"

definition tokens :: "sptr \<Rightarrow> kptr \<Rightarrow> crd \<Rightarrow> nat" where
  "tokens s k w = length (filter (token s k) (pending w))"

definition link_id :: "crd \<Rightarrow> kptr \<Rightarrow> u32" where
  "link_id w k = comp_id (ck_comp (clink_at w k))"

definition reported :: "sptr \<Rightarrow> kptr \<Rightarrow> crd \<Rightarrow> bool" where
  "reported s k w \<longleftrightarrow> link_id w k \<notin> set (ss_unreported_links (sess_at w s))"

definition link_ok ::
    "sptr \<Rightarrow> session_add_link_req \<Rightarrow> bool \<Rightarrow> bool \<Rightarrow> sptr option \<Rightarrow> session_add_link_req option \<Rightarrow> bool \<Rightarrow> bool \<Rightarrow> nat \<Rightarrow> bool \<Rightarrow>
     bool \<Rightarrow> nat \<Rightarrow> bool" where
  "link_ok s r nw ini se rq rep created n wt cl ans \<longleftrightarrow>
     (nw \<or> ini \<longrightarrow> se = Some s) \<and> (nw \<longrightarrow> \<not> ini \<and> n = 0 \<and> \<not> rep \<and> rq \<noteq> None) \<and>
     n \<le> 1 \<and> (0 < n \<longrightarrow> ini \<and> rq \<noteq> None) \<and> (wt \<longrightarrow> \<not> rep) \<and>
     (rep \<and> \<not> created \<longrightarrow> n = 0 \<and> ini \<and> rq \<noteq> None) \<and>
     (cl \<longrightarrow> \<not> nw \<and> \<not> ini) \<and> (created \<longrightarrow> rep) \<and>
     (rq = None \<and> ans = 1 \<or> rq = Some r \<and> ans = 0)"

definition link_fine :: "sptr \<Rightarrow> (kptr \<Rightarrow> session_add_link_req) \<Rightarrow> crd \<Rightarrow> kptr \<Rightarrow> bool" where
  "link_fine s req w k \<longleftrightarrow> link_ok s (req k) (ck_state (clink_at w k) = ''new'') (ck_state (clink_at w k) = ''initializing'')
     (ck_sess (clink_at w k)) (ck_linkreq (clink_at w k))
     (reported s k w) (ss_vlans_created (sess_at w s)) (tokens s k w) (\<exists>a \<in> set (pending w). waiting k a)
     (Link_Clear_Session k \<in> set (pending w)) (answers (req k) w)"

definition ports_first :: "action list \<Rightarrow> bool" where
  "ports_first t \<longleftrightarrow> (\<forall>k. Link_Ports k \<in> set t \<longrightarrow> t = [Link_Ports k, Link_Check k])"

definition link_inv :: "sptr \<Rightarrow> kptr list \<Rightarrow> (kptr \<Rightarrow> session_add_link_req) \<Rightarrow> crd \<Rightarrow> bool" where
  "link_inv s ks req w \<longleftrightarrow> distinct ks \<and> ss_links (sess_at w s) = ks \<and> inj_on (link_id w) (set ks) \<and> inj_on req (set ks) \<and>
     (\<forall>t \<in> set (w_threads w). ports_first t) \<and> (\<forall>a \<in> set (pending w). about s (set ks) a) \<and>
     (\<forall>k \<in> set ks. link_fine s req w k)"

lemma quiet_link:
  assumes "quiet w w'"
  shows "ck_state (clink_at w' k) = ck_state (clink_at w k)" "ck_sess (clink_at w' k) = ck_sess (clink_at w k)"
    "ck_linkreq (clink_at w' k) = ck_linkreq (clink_at w k)" "ck_needs_refresh (clink_at w' k) = ck_needs_refresh (clink_at w k)"
    "link_id w' k = link_id w k" "reported s k w' = reported s k w" "sess_at w' = sess_at w" "w_threads w' = w_threads w"
    "pending w' = pending w" "tokens s k w' = tokens s k w" "answers r w' = answers r w" "testing w' = testing w"
proof -
  have "link_core (clink_at w' k) = link_core (clink_at w k)" using assms by (simp add: quiet_def)
  then show "ck_state (clink_at w' k) = ck_state (clink_at w k)" "ck_sess (clink_at w' k) = ck_sess (clink_at w k)"
    "ck_linkreq (clink_at w' k) = ck_linkreq (clink_at w k)" "ck_needs_refresh (clink_at w' k) = ck_needs_refresh (clink_at w k)"
    "link_id w' k = link_id w k" by (simp_all add: link_core_def link_id_def)
  then show "reported s k w' = reported s k w" using assms by (simp add: reported_def quiet_def)
qed (use assms in \<open>simp_all add: quiet_def pending_def tokens_def\<close>)

lemma link_inv_link: "link_inv s ks req w \<Longrightarrow> k \<in> set ks \<Longrightarrow> link_fine s req w k"
  by (simp add: link_inv_def)

lemmas link_fine_defs = link_fine_def link_ok_def

text \<open>A thread goes on: \<open>new\<close> takes the place of its first action, the threads \<open>sp\<close> are new.\<close>

definition set_threads :: "action list list \<Rightarrow> crd \<Rightarrow> crd" where
  "set_threads th w = w\<lparr>w_threads := th\<rparr>"

lemma set_threads_sel [simp]:
  "clink_at (set_threads th w) = clink_at w" "sess_at (set_threads th w) = sess_at w" "w_threads (set_threads th w) = th"
  "answers r (set_threads th w) = answers r w" "testing (set_threads th w) = testing w"
  "link_id (set_threads th w) = link_id w" "reported s k (set_threads th w) = reported s k w"
  "pending (set_threads th w) = concat th" "tokens s k (set_threads th w) = length (filter (token s k) (concat th))"
  by (simp_all add: set_threads_def answers_def link_id_def reported_def pending_def tokens_def fun_eq_iff)

lemma ports_firstD: "ports_first t \<Longrightarrow> Link_Ports k \<in> set t \<Longrightarrow> t = [Link_Ports k, Link_Check k]"
  unfolding ports_first_def by blast

lemma link_inv_thread:
  assumes inv: "link_inv s ks req w" and th: "w_threads w = ts @ (a # as) # ts'"
    and same: "\<forall>k \<in> set ks. link_id w' k = link_id w k" "ss_links (sess_at w' s) = ks"
    and first: "\<forall>k. Link_Ports k \<notin> set new" "\<forall>t \<in> set sp. ports_first t"
    and ab: "\<forall>b \<in> set new \<union> set (concat sp). about s (set ks) b"
    and fine: "\<forall>k \<in> set ks. link_fine s req (set_threads ((ts @ (new @ as) # ts') @ sp) w') k"
    and new: "\<And>k. a = Link_Ports k \<Longrightarrow> new = []"
  shows "link_inv s ks req (set_threads ((ts @ (new @ as) # ts') @ sp) w')"
proof -
  have t: "ports_first (a # as)" "\<forall>t \<in> set ts \<union> set ts'. ports_first t" using inv th by (auto simp: link_inv_def)
  have "ports_first (new @ as)"
  proof (cases "\<exists>k. a = Link_Ports k")
    case True
    then obtain k where k: "a = Link_Ports k" by blast
    have "a # as = [Link_Ports k, Link_Check k]" by (rule ports_firstD [OF t(1)]) (simp add: k)
    then have "as = [Link_Check k]" by simp
    then show ?thesis using new [OF k] by (simp add: ports_first_def)
  next
    case False
    have "Link_Ports k \<notin> set as" for k
    proof
      assume "Link_Ports k \<in> set as"
      then have "a # as = [Link_Ports k, Link_Check k]" by (intro ports_firstD [OF t(1)]) simp
      then show False using False by simp
    qed
    then have "\<forall>k. Link_Ports k \<notin> set (new @ as)" using first(1) by simp
    then show ?thesis unfolding ports_first_def by blast
  qed
  moreover have "\<forall>b \<in> set (concat ((ts @ (new @ as) # ts') @ sp)). about s (set ks) b"
    using inv th ab by (auto simp: link_inv_def pending_def)
  moreover have "inj_on (link_id w') (set ks)" using inv same(1) by (auto simp: link_inv_def inj_on_def)
  ultimately show ?thesis using inv same(2) first(2) t(2) fine unfolding link_inv_def by auto
qed

lemma link_ok_mono:
  "link_ok s r nw ini se rq rep created n wt cl ans \<Longrightarrow> (wt' \<longrightarrow> wt) \<Longrightarrow> (cl' \<longrightarrow> cl) \<Longrightarrow> link_ok s r nw ini se rq rep created n wt' cl' ans"
  unfolding link_ok_def by blast

text \<open>A link that is not touched stays fine.\<close>

lemma link_fine_other:
  assumes "link_fine s req w k"
    and "ck_state (clink_at w' k) = ck_state (clink_at w k)" "ck_sess (clink_at w' k) = ck_sess (clink_at w k)"
      "ck_linkreq (clink_at w' k) = ck_linkreq (clink_at w k)" "reported s k w' = reported s k w"
      "ss_vlans_created (sess_at w' s) = ss_vlans_created (sess_at w s)" "answers (req k) w' = answers (req k) w"
    and "tokens s k w' = tokens s k w" "\<forall>b \<in> set (pending w'). waiting k b \<longrightarrow> (\<exists>b \<in> set (pending w). waiting k b)"
      "Link_Clear_Session k \<in> set (pending w') \<Longrightarrow> Link_Clear_Session k \<in> set (pending w)"
  shows "link_fine s req w' k"
proof -
  have wt: "(\<exists>b \<in> set (pending w'). waiting k b) \<longrightarrow> (\<exists>b \<in> set (pending w). waiting k b)" using assms(9) by blast
  have cl: "Link_Clear_Session k \<in> set (pending w') \<longrightarrow> Link_Clear_Session k \<in> set (pending w)" using assms(10) by simp
  show ?thesis unfolding link_fine_def assms(2-8)
    by (rule link_ok_mono [OF assms(1) [unfolded link_fine_def] wt cl])
qed

lemma quiet_fine:
  assumes inv: "link_inv s ks req w" and th: "w_threads w = ts @ (a # as) # ts'" and q: "quiet w w'" and k: "k \<in> set ks"
    and tok: "length (filter (token s k) new) = length (filter (token s k) [a])"
    and wt: "\<forall>b \<in> set new. waiting k b \<longrightarrow> waiting k a" "Link_Clear_Session k \<notin> set new"
  shows "link_fine s req (set_threads (ts @ (new @ as) # ts') w') k"
proof (rule link_fine_other [OF link_inv_link [OF inv k]])
  show "tokens s k (set_threads (ts @ (new @ as) # ts') w') = tokens s k w"
    using tok th by (simp add: tokens_def pending_def)
  show "\<forall>b \<in> set (pending (set_threads (ts @ (new @ as) # ts') w')). waiting k b \<longrightarrow> (\<exists>b \<in> set (pending w). waiting k b)"
    using wt(1) th by (auto simp: pending_def)
  show "Link_Clear_Session k \<in> set (pending (set_threads (ts @ (new @ as) # ts') w')) \<Longrightarrow> Link_Clear_Session k \<in> set (pending w)"
    using wt(2) th by (auto simp: pending_def)
qed (simp_all add: quiet_link [OF q])

lemma quiet_step:
  assumes inv: "link_inv s ks req w" and th: "w_threads w = ts @ (a # as) # ts'" and q: "quiet w w'"
    and tok: "\<And>k. k \<in> set ks \<Longrightarrow> length (filter (token s k) new) = length (filter (token s k) [a])"
    and wt: "\<And>k. k \<in> set ks \<Longrightarrow> \<forall>b \<in> set new. waiting k b \<longrightarrow> waiting k a" "\<And>k. Link_Clear_Session k \<notin> set new"
      "\<forall>b \<in> set new. about s (set ks) b" "\<forall>k. Link_Ports k \<notin> set new" "\<And>k. a = Link_Ports k \<Longrightarrow> new = []"
  shows "link_inv s ks req (set_threads (ts @ (new @ as) # ts') w')"
proof -
  have "link_inv s ks req (set_threads ((ts @ (new @ as) # ts') @ []) w')"
  proof (rule link_inv_thread [OF inv th])
    show "\<forall>k \<in> set ks. link_id w' k = link_id w k" by (simp add: quiet_link [OF q])
    show "ss_links (sess_at w' s) = ks" using inv by (simp add: quiet_link [OF q] link_inv_def)
    show "\<forall>b \<in> set new \<union> set (concat []). about s (set ks) b" using wt(3) by simp
    show "\<forall>k \<in> set ks. link_fine s req (set_threads ((ts @ (new @ as) # ts') @ []) w') k"
      using quiet_fine [OF inv th q _ tok wt(1) wt(2)] by simp
  qed (use wt in simp_all)
  then show ?thesis by simp
qed

end
