(* ===== verification/Crd_Link_Invariant.thy ===== *)
theory Crd_Link_Invariant
  imports Crd_Link_Protocol
begin

text \<open>
  Every step keeps \<open>link_inv\<close>: how the state of one link moves, as lemmas on \<open>link_ok\<close>, then one lemma
  for each action.
\<close>

section \<open>How a link moves\<close>

lemma link_ok_refresh:
  "link_ok s r nw False se rq rep cr n wt cl ans \<Longrightarrow> link_ok s r False False se' rq rep cr n wt cl' ans"
  unfolding link_ok_def by auto

lemma link_ok_clear: "link_ok s r nw ini se rq rep cr n wt cl' ans \<Longrightarrow> cl' \<Longrightarrow> link_ok s r nw ini se' rq rep cr n wt cl ans"
  unfolding link_ok_def by auto

lemma link_ok_start:
  "link_ok s r True ini se rq rep cr n wt cl ans \<Longrightarrow> link_ok s r False True se rq rep cr (Suc n) wt' False ans \<and> \<not> cl"
  unfolding link_ok_def by auto

lemma link_ok_fail:
  "link_ok s r True ini se rq rep cr n wt cl ans \<Longrightarrow>
    rq = Some r \<and> ans = 0 \<and> link_ok s r False False se None rep cr n wt cl 1"
  unfolding link_ok_def by auto

lemma link_ok_report:
  "link_ok s r nw ini se rq rep cr (Suc n) True cl ans \<Longrightarrow> (cr' \<longleftrightarrow> m = 1) \<Longrightarrow> m \<le> 1 \<Longrightarrow>
    \<not> cr \<and> se = Some s \<and> link_ok s r nw ini se rq True cr' m False cl ans"
  unfolding link_ok_def by auto

lemma link_ok_created:
  "link_ok s r nw ini se rq True False n wt cl ans \<Longrightarrow> n = 0 \<and> link_ok s r nw ini se rq True True 1 wt cl ans"
  unfolding link_ok_def by auto

lemma link_ok_complete:
  "link_ok s r nw ini se rq rep cr (Suc n) wt cl ans \<Longrightarrow>
    rq = Some r \<and> ans = 0 \<and> n = 0 \<and> link_ok s r False False se None rep cr n False cl 1"
  unfolding link_ok_def by auto

lemma link_ok_live:
  "link_ok s r nw ini se rq rep cr n wt cl ans \<Longrightarrow> 0 < n \<Longrightarrow> se = Some s \<and> rq = Some r \<and> ans = 0 \<and> ini \<and> n = 1"
  unfolding link_ok_def by auto

section \<open>A step that changes one link\<close>

text \<open>\<open>only k r w w'\<close>: nothing but the link \<open>k\<close> and the answers to its request \<open>r\<close>.\<close>

definition only :: "kptr \<Rightarrow> session_add_link_req \<Rightarrow> crd \<Rightarrow> crd \<Rightarrow> bool" where
  "only k r w w' \<longleftrightarrow> (\<forall>j. j \<noteq> k \<longrightarrow> link_core (clink_at w' j) = link_core (clink_at w j)) \<and>
     ck_comp (clink_at w' k) = ck_comp (clink_at w k) \<and> sess_at w' = sess_at w \<and> (\<forall>r'. r' \<noteq> r \<longrightarrow> answers r' w' = answers r' w)"

lemma only_id: "only k r w w' \<Longrightarrow> link_id w' j = link_id w j"
  by (cases "j = k") (auto simp: only_def link_id_def link_core_def)

lemma only_reported: "only k r w w' \<Longrightarrow> reported s j w' = reported s j w"
  by (simp add: reported_def only_id) (simp add: only_def)

lemma waiting_token: "waiting k a \<Longrightarrow> token s k a"
  by (cases a) auto

lemma waiting_tokens: "a \<in> set (pending w) \<Longrightarrow> waiting k a \<Longrightarrow> 0 < tokens s k w"
  using waiting_token [of k a s] by (force simp: tokens_def filter_empty_conv)

lemma only_fine:
  assumes inv: "link_inv s ks req w" and o: "only k (req k) w w'" and k: "k \<in> set ks"
    and tok: "\<And>j. j \<in> set ks \<Longrightarrow> j \<noteq> k \<Longrightarrow> length (filter (token s j) (concat th)) = tokens s j w"
    and wt: "\<And>j b. j \<noteq> k \<Longrightarrow> b \<in> set (concat th) \<Longrightarrow> waiting j b \<Longrightarrow> b \<in> set (pending w)"
    and cl: "\<And>j. j \<noteq> k \<Longrightarrow> Link_Clear_Session j \<in> set (concat th) \<Longrightarrow> Link_Clear_Session j \<in> set (pending w)"
    and fine: "link_fine s req (set_threads th w') k"
  shows "\<forall>j \<in> set ks. link_fine s req (set_threads th w') j"
proof
  fix j assume j: "j \<in> set ks"
  show "link_fine s req (set_threads th w') j"
  proof (cases "j = k")
    case False
    then have c: "link_core (clink_at w' j) = link_core (clink_at w j)" "sess_at w' = sess_at w" using o by (simp_all add: only_def)
    have "req j \<noteq> req k" using inv j k False by (auto simp: link_inv_def inj_on_def)
    then have a: "answers (req j) w' = answers (req j) w" using o by (simp add: only_def)
    show ?thesis
    proof (rule link_fine_other [OF link_inv_link [OF inv j]])
      show "reported s j (set_threads th w') = reported s j w" by (simp add: only_reported [OF o])
      show "tokens s j (set_threads th w') = tokens s j w" by (simp only: set_threads_sel tok [OF j False])
      show "\<forall>b \<in> set (pending (set_threads th w')). waiting j b \<longrightarrow> (\<exists>b \<in> set (pending w). waiting j b)"
        using wt [OF False] by (simp only: set_threads_sel) blast
      show "Link_Clear_Session j \<in> set (pending (set_threads th w')) \<Longrightarrow> Link_Clear_Session j \<in> set (pending w)"
        using cl [OF False] by (simp only: set_threads_sel)
    qed (use c a in \<open>simp_all add: link_core_def\<close>)
  qed (simp add: fine)
qed

section \<open>Actions that are quiet\<close>

lemma act_about: "link_inv s ks req w \<Longrightarrow> w_threads w = ts @ (a # as) # ts' \<Longrightarrow> about s (set ks) a"
  by (simp add: link_inv_def pending_def)

lemma act_token:
  assumes inv: "link_inv s ks req w" and th: "w_threads w = ts @ (a # as) # ts'" and k: "k \<in> set ks" and t: "token s k a"
  shows "ck_sess (clink_at w k) = Some s" "ck_linkreq (clink_at w k) = Some (req k)" "ck_state (clink_at w k) = ''initializing''"
    "tokens s k w = 1" "answers (req k) w = 0"
proof -
  have "0 < tokens s k w" using th t by (simp add: tokens_def pending_def)
  note l = link_ok_live [OF link_inv_link [OF inv k, unfolded link_fine_def] this]
  show "ck_sess (clink_at w k) = Some s" "ck_linkreq (clink_at w k) = Some (req k)" "ck_state (clink_at w k) = ''initializing''"
    "tokens s k w = 1" "answers (req k) w = 0" using l by simp_all
qed

definition act_keeps :: "sptr \<Rightarrow> kptr list \<Rightarrow> (kptr \<Rightarrow> session_add_link_req) \<Rightarrow> action list list \<Rightarrow> action \<Rightarrow> action list \<Rightarrow>
    action list list \<Rightarrow> crd \<Rightarrow> bool" where
  "act_keeps s ks req ts a as ts' w \<longleftrightarrow> (\<exists>new w' sp. link_act a w = Some (new, w') \<and> w_threads w' = w_threads w @ sp \<and>
     link_inv s ks req (set_threads ((ts @ (new @ as) # ts') @ sp) w'))"

lemma act_keepsI:
  "link_act a w = Some (new, w') \<Longrightarrow> w_threads w' = w_threads w @ sp \<Longrightarrow>
    link_inv s ks req (set_threads ((ts @ (new @ as) # ts') @ sp) w') \<Longrightarrow> act_keeps s ks req ts a as ts' w"
  by (auto simp: act_keeps_def)

lemma act_keeps_quiet:
  assumes "link_act a w = Some (new, w')" "quiet w w'" "link_inv s ks req (set_threads (ts @ (new @ as) # ts') w')"
  shows "act_keeps s ks req ts a as ts' w"
  using assms quiet_link(8) [OF assms(2)] by (intro act_keepsI [where sp = "[]"]) simp_all

lemma ports_run:
  assumes inv: "link_inv s ks req w" and th: "w_threads w = ts @ (Link_Ports k # as) # ts'"
  shows "\<exists>w'. link_ports k w = Some w' \<and> quiet w w'"
proof -
  have k: "k \<in> set ks" using act_about [OF inv th] by simp
  have "ports_first (Link_Ports k # as)" using inv th by (simp add: link_inv_def)
  then have "Link_Ports k # as = [Link_Ports k, Link_Check k]" by (rule ports_firstD) simp
  then have "0 < tokens s k w" using th by (simp add: tokens_def pending_def)
  then have "ck_sess (clink_at w k) = Some s"
    using link_ok_live [OF link_inv_link [OF inv k, unfolded link_fine_def]] by simp
  then show ?thesis by (rule link_ports_quiet)
qed

lemma keeps_ports:
  assumes inv: "link_inv s ks req w" and th: "w_threads w = ts @ (Link_Ports k # as) # ts'"
  shows "act_keeps s ks req ts (Link_Ports k) as ts' w"
proof -
  obtain w' where w': "link_ports k w = Some w'" "quiet w w'" using ports_run [OF inv th] by blast
  have "link_inv s ks req (set_threads (ts @ ([] @ as) # ts') w')" by (rule quiet_step [OF inv th w'(2)]) simp_all
  then show ?thesis using w' by (intro act_keeps_quiet [of _ _ "[]" w']) simp_all
qed

lemma keeps_check:
  assumes inv: "link_inv s ks req w" and th: "w_threads w = ts @ (Link_Check k # as) # ts'"
  shows "act_keeps s ks req ts (Link_Check k) as ts' w"
proof -
  have k: "k \<in> set ks" using act_about [OF inv th] by simp
  have "\<exists>b. link_check k w = Some [b] \<and> (b = Link_Report k \<or> b = Link_Complete k (ck_vlan_status (clink_at w k)))"
    using act_token(1) [OF inv th k] by (auto simp: link_check_def Let_def)
  then obtain b where b: "link_check k w = Some [b]" "b = Link_Report k \<or> b = Link_Complete k (ck_vlan_status (clink_at w k))"
    by blast
  have "link_inv s ks req (set_threads (ts @ ([b] @ as) # ts') w)"
    by (rule quiet_step [OF inv th quiet_refl]) (use b(2) k in auto)
  then show ?thesis using b(1) by (intro act_keeps_quiet [of _ _ "[b]" w]) simp_all
qed

lemma keeps_do_refresh:
  assumes inv: "link_inv s ks req w" and th: "w_threads w = ts @ (Link_Do_Refresh k # as) # ts'"
  shows "act_keeps s ks req ts (Link_Do_Refresh k) as ts' w"
proof -
  have q: "quiet w (link_do_refresh k w)"
    unfolding link_do_refresh_def Let_def by (intro quiet_upd_clink) (simp_all add: quiet_delete_vlan link_core_def)
  have "link_inv s ks req (set_threads (ts @ ([] @ as) # ts') (link_do_refresh k w))"
    by (rule quiet_step [OF inv th q]) simp_all
  then show ?thesis using q by (intro act_keeps_quiet [of _ _ "[]" "link_do_refresh k w"]) simp_all
qed

lemma filter_eq_distinct: "distinct ks \<Longrightarrow> k \<in> set ks \<Longrightarrow> length (filter (\<lambda>j. j = k) ks) = 1"
  by (induction ks) (auto simp: filter_empty_conv)

lemma keeps_start:
  assumes inv: "link_inv s ks req w" and th: "w_threads w = ts @ (Start_Vlans t # as) # ts'"
  shows "act_keeps s ks req ts (Start_Vlans t) as ts' w"
proof -
  have t: "t = s" using act_about [OF inv th] by simp
  obtain ok w' where w': "start_session_vlans (ss_id (sess_at w s)) w = (ok, w')" by force
  then have q: "quiet w w'" using quiet_start_session [of w "ss_id (sess_at w s)"] by simp
  define st where "st = (if ok then NCCP_Status_Fine else NCCP_Status_Failed)"
  have ks: "ss_links (sess_at w' s) = ks" "distinct ks" using inv q by (simp_all add: link_inv_def quiet_def)
  have a: "start_vlans s w = (map (\<lambda>k. Link_Complete k st) ks, w')" by (simp add: start_vlans_def w' ks st_def)
  have "link_inv s ks req (set_threads (ts @ (map (\<lambda>k. Link_Complete k st) ks @ as) # ts') w')"
    by (rule quiet_step [OF inv th q]) (auto simp: t o_def filter_eq_distinct [OF ks(2)] filter_map)
  then show ?thesis using a q t by (intro act_keeps_quiet [of _ _ "map (\<lambda>k. Link_Complete k st) ks" w']) simp_all
qed

section \<open>Actions that change one link\<close>

lemma count_after:
  assumes "w_threads w = ts @ (a # as) # ts'"
  shows "length (filter P (concat ((ts @ (new @ as) # ts') @ sp))) + (if P a then 1 else 0) =
    length (filter P (pending w)) + length (filter P new) + length (filter P (concat sp))"
  using assms by (simp add: pending_def)

lemma no_token: "length (filter P xs) = 0 \<Longrightarrow> b \<in> set xs \<Longrightarrow> \<not> P b"
  by (simp add: filter_empty_conv)

lemma answers_emit: "answers r (emit e w) = answers r w + (if answers_link r e then 1 else 0)"
  by (simp add: answers_def emit_def)

lemma answers_upd_clink [simp]: "answers r (upd_clink k f w) = answers r w"
  by (simp add: answers_def upd_clink_def)

lemma only_respond:
  "(\<And>x. ck_comp (f x) = ck_comp x) \<Longrightarrow> only k r w (upd_clink k f (emit (Link_Response r st) w))"
  by (simp add: only_def answers_emit) (simp add: upd_clink_def emit_def)

lemma only_update: "(\<And>x. ck_comp (f x) = ck_comp x) \<Longrightarrow> only k r w (upd_clink k f w)"
  by (simp add: only_def) (simp add: upd_clink_def)

lemma only_trans: "only k r w w' \<Longrightarrow> only k r w' w'' \<Longrightarrow> only k r w w''"
  by (simp add: only_def)

text \<open>An action of the link \<open>k\<close> that is followed by nothing but the refreshing of \<open>k\<close>.\<close>

definition refreshes :: "kptr \<Rightarrow> action list \<Rightarrow> bool" where
  "refreshes k t \<longleftrightarrow> set t \<subseteq> {Link_Refresh k, Link_Do_Refresh k, Link_Clear_Session k}"

lemma refreshes_not:
  assumes "refreshes k t" "b \<in> set t"
  shows "\<not> token s j b" "\<not> waiting j b" "b \<noteq> Link_Ports j" "b = Link_Clear_Session j \<Longrightarrow> j = k" "k \<in> K \<Longrightarrow> about s K b"
  using assms by (auto simp: refreshes_def)

lemma refreshes_count: "refreshes k t \<Longrightarrow> filter (token s j) t = []"
  using refreshes_not(1) by (simp add: filter_empty_conv)

lemma keeps_one:
  assumes inv: "link_inv s ks req w" and th: "w_threads w = ts @ (a # as) # ts'" and run: "link_act a w = Some (new, w')"
    and same: "w_threads w' = w_threads w @ sp" and o: "only k (req k) w w'" and k: "k \<in> set ks"
    and ref: "refreshes k new" "refreshes k (concat sp)" and a: "\<And>j. j \<noteq> k \<Longrightarrow> \<not> token s j a" "\<And>j. a \<noteq> Link_Ports j"
    and fine: "link_fine s req (set_threads ((ts @ (new @ as) # ts') @ sp) w') k"
  shows "act_keeps s ks req ts a as ts' w"
proof -
  define th' where "th' = (ts @ (new @ as) # ts') @ sp"
  have sub: "b \<in> set (pending w) \<or> b \<in> set new \<or> b \<in> set (concat sp)" if "b \<in> set (concat th')" for b
    using that th by (auto simp: th'_def pending_def)
  have all: "\<forall>j \<in> set ks. link_fine s req (set_threads th' w') j"
  proof (rule only_fine [OF inv o k])
    fix j assume "j \<in> set ks" and j: "j \<noteq> k"
    then show "length (filter (token s j) (concat th')) = tokens s j w"
      using count_after [OF th, of "token s j" new sp] refreshes_count [OF ref(1)] refreshes_count [OF ref(2)] a(1) [OF j]
      by (simp only: th'_def tokens_def list.size add_0_right if_False)
  next
    fix j b assume "b \<in> set (concat th')" "waiting j b"
    then show "b \<in> set (pending w)" using sub refreshes_not(2) ref by blast
  next
    fix j assume "j \<noteq> k" "Link_Clear_Session j \<in> set (concat th')"
    then show "Link_Clear_Session j \<in> set (pending w)" using sub refreshes_not(4) ref by blast
  qed (use fine in \<open>simp add: th'_def\<close>)
  have "link_inv s ks req (set_threads th' w')" unfolding th'_def
  proof (rule link_inv_thread [OF inv th])
    show "\<forall>j \<in> set ks. link_id w' j = link_id w j" by (simp add: only_id [OF o])
    show "ss_links (sess_at w' s) = ks" using inv o by (simp add: link_inv_def only_def)
    show "\<forall>j. Link_Ports j \<notin> set new" using refreshes_not(3) [OF ref(1)] by blast
    have "\<forall>j. Link_Ports j \<notin> set (concat sp)" using refreshes_not(3) [OF ref(2)] by blast
    then show "\<forall>t \<in> set sp. ports_first t" by (auto simp: ports_first_def)
    show "\<forall>b \<in> set new \<union> set (concat sp). about s (set ks) b" using refreshes_not(5) [OF _ _ k] ref by blast
  qed (use all a(2) in \<open>simp_all add: th'_def\<close>)
  then show ?thesis using run same unfolding th'_def by (intro act_keepsI)
qed

lemma keeps_complete:
  assumes inv: "link_inv s ks req w" and th: "w_threads w = ts @ (Link_Complete k st # as) # ts'"
  shows "act_keeps s ks req ts (Link_Complete k st) as ts' w"
proof -
  have k: "k \<in> set ks" using act_about [OF inv th] by simp
  have t: "token s k (Link_Complete k st)" by simp
  note live = act_token [OF inv th k t]
  define status where "status = (if st \<noteq> NCCP_Status_Fine \<or> ck_vlan_status (clink_at w k) \<noteq> NCCP_Status_Fine
    then NCCP_Status_Failed else NCCP_Status_Fine)"
  define fin where "fin = (\<lambda>x :: crd_link. x\<lparr>ck_linkreq := None, ck_vlan_status := status,
    ck_state := (if status = NCCP_Status_Fine then ''active'' else ''failed'')\<rparr>)"
  define w' where "w' = upd_clink k fin (emit (Link_Response (req k) status) w)"
  define new where "new = (if ck_needs_refresh (clink_at w k) then [Link_Refresh k] else [])"
  define th' where "th' = (ts @ (new @ as) # ts') @ []"
  have run: "link_act (Link_Complete k st) w = Some (new, w')"
    using live(2) by (simp add: complete_initialization_def status_def fin_def w'_def new_def upd_clink_def emit_def)
  have o: "only k (req k) w w'" unfolding w'_def by (rule only_respond) (simp add: fin_def)
  have ref: "refreshes k new" by (auto simp: new_def refreshes_def)
  have none: "length (filter (token s k) (concat th')) = 0"
    using count_after [OF th, of "token s k" new "[]"] refreshes_count [OF ref] live(4)
    by (simp only: th'_def tokens_def) simp
  have "ck_state (clink_at w' k) \<noteq> ''new''" "ck_state (clink_at w' k) \<noteq> ''initializing''" "ck_linkreq (clink_at w' k) = None"
    "ck_sess (clink_at w' k) = ck_sess (clink_at w k)" by (simp_all add: w'_def upd_clink_def fin_def emit_def)
  moreover have "answers (req k) w' = 1" using live(5) by (simp add: w'_def answers_emit)
  moreover have "\<not> (\<exists>b \<in> set (concat th'). waiting k b)" using none waiting_token no_token by metis
  moreover have "ss_vlans_created (sess_at w' s) = ss_vlans_created (sess_at w s)" using o by (simp add: only_def)
  moreover have "Link_Clear_Session k \<in> set (concat th') \<longrightarrow> Link_Clear_Session k \<in> set (pending w)"
    using th by (auto simp: th'_def pending_def new_def)
  moreover have "link_ok s (req k) False False (ck_sess (clink_at w k)) None (reported s k w) (ss_vlans_created (sess_at w s)) 0 False
      (Link_Clear_Session k \<in> set (pending w)) 1"
    using link_ok_complete [OF link_inv_link [OF inv k, unfolded link_fine_def live(4) One_nat_def]] by blast
  ultimately have "link_fine s req (set_threads th' w') k"
    unfolding link_fine_def by (simp only: set_threads_sel only_reported [OF o] none) (blast intro: link_ok_mono)
  then show ?thesis unfolding th'_def
    by (intro keeps_one [OF inv th run _ o k ref]) (auto simp: w'_def upd_clink_def emit_def refreshes_def)
qed

lemma keeps_clear:
  assumes inv: "link_inv s ks req w" and th: "w_threads w = ts @ (Link_Clear_Session k # as) # ts'"
  shows "act_keeps s ks req ts (Link_Clear_Session k) as ts' w"
proof -
  have k: "k \<in> set ks" using act_about [OF inv th] by simp
  define w' where "w' = link_clear_session k w"
  define th' where "th' = (ts @ ([] @ as) # ts') @ []"
  have o: "only k (req k) w w'" unfolding w'_def link_clear_session_def by (rule only_update) simp
  have cl: "Link_Clear_Session k \<in> set (pending w)" using th by (simp add: pending_def)
  have sub: "b \<in> set (pending w)" if "b \<in> set (concat th')" for b using that th by (auto simp: th'_def pending_def)
  have tok: "length (filter (token s k) (concat th')) = tokens s k w"
    using count_after [OF th, of "token s k" "[]" "[]"] by (simp add: th'_def tokens_def)
  have core: "ck_state (clink_at w' k) = ck_state (clink_at w k)" "ck_linkreq (clink_at w' k) = ck_linkreq (clink_at w k)"
    "answers (req k) w' = answers (req k) w" "sess_at w' = sess_at w" "w_threads w' = w_threads w"
    by (simp_all add: w'_def link_clear_session_def answers_def upd_clink_def)
  have "link_ok s (req k) (ck_state (clink_at w k) = ''new'') (ck_state (clink_at w k) = ''initializing'') (ck_sess (clink_at w' k))
      (ck_linkreq (clink_at w k)) (reported s k w) (ss_vlans_created (sess_at w s)) (tokens s k w)
      (\<exists>b \<in> set (pending w). waiting k b) (Link_Clear_Session k \<in> set (concat th')) (answers (req k) w)"
    by (rule link_ok_clear [OF link_inv_link [OF inv k, unfolded link_fine_def] cl])
  then have "link_fine s req (set_threads th' w') k"
    unfolding link_fine_def by (simp only: set_threads_sel only_reported [OF o] tok core) (use sub in \<open>blast intro: link_ok_mono\<close>)
  then show ?thesis unfolding th'_def
    by (intro keeps_one [OF inv th _ _ o k]) (auto simp: w'_def [symmetric] core refreshes_def)
qed

section \<open>Closing a link\<close>

lemma only_spawn [simp]: "only k r w (spawn t w') = only k r w w'"
  by (simp add: only_def spawn_def answers_def)

lemma only_next_thread [simp]: "only k r w (snd (next_thread w')) = only k r w w'"
  by (simp add: only_def next_thread_def answers_def)

lemma refresh_fields [simp]:
  "w_threads (upd_clink k f w) = w_threads w" "w_threads (snd (next_thread w)) = w_threads w"
  "w_threads (spawn t w) = w_threads w @ [t]" "clink_at (snd (next_thread w)) = clink_at w" "clink_at (spawn t w) = clink_at w"
  "clink_at (upd_clink k f w) k = f (clink_at w k)"
  "answers r (snd (next_thread w)) = answers r w" "answers r (spawn t w) = answers r w"
  by (simp_all add: upd_clink_def next_thread_def spawn_def answers_def)

lemmas link_refresh_unfold = link_refresh_def Let_def split_beta link_clear_session_def set_link_state_def

lemma link_refresh_shape:
  "\<exists>sp. w_threads (link_refresh k w) = w_threads w @ sp \<and> refreshes k (concat sp) \<and>
     (ck_state (clink_at w k) = ''initializing'' \<longrightarrow> sp = [])"
proof -
  have "w_threads (link_refresh k w) \<in> {w_threads w, w_threads w @ [[Link_Do_Refresh k, Link_Clear_Session k]]}"
    unfolding link_refresh_unfold by (simp split: if_split)
  moreover have "w_threads (link_refresh k w) = w_threads w" if "ck_state (clink_at w k) = ''initializing''"
    unfolding link_refresh_unfold that by simp
  ultimately show ?thesis by (force simp: refreshes_def)
qed

lemma only_refl: "only k r w w"
  by (simp add: only_def)

lemma only_upd: "only k r w w' \<Longrightarrow> (\<And>x. ck_comp (f x) = ck_comp x) \<Longrightarrow> only k r w (upd_clink k f w')"
  using only_trans only_update by blast

lemma link_refresh_only: "only k r w (link_refresh k w)"
  unfolding link_refresh_unfold by (simp add: only_upd only_refl split: if_split)

lemma link_refresh_answers: "answers r (link_refresh k w) = answers r w"
  unfolding link_refresh_unfold by (simp split: if_split)

lemma link_refresh_req: "ck_linkreq (clink_at (link_refresh k w) k) = ck_linkreq (clink_at w k)"
  unfolding link_refresh_unfold by (simp split: if_split)

lemma link_refresh_init:
  "ck_state (clink_at w k) = ''initializing'' \<Longrightarrow> ck_state (clink_at (link_refresh k w) k) = ''initializing'' \<and>
     ck_sess (clink_at (link_refresh k w) k) = ck_sess (clink_at w k)"
  unfolding link_refresh_unfold by simp

lemma link_refresh_ended:
  assumes "ck_state (clink_at w k) \<noteq> ''initializing''"
  shows "ck_state (clink_at (link_refresh k w) k) \<in> {''failed'', ''refreshing''}"
  using assms unfolding link_refresh_unfold by (simp split: if_split)

lemma refresh_fine:
  assumes inv: "link_inv s ks req w" and k: "k \<in> set ks"
    and tok: "length (filter (token s k) (concat th)) = tokens s k w"
    and wt: "(\<exists>b \<in> set (concat th). waiting k b) \<longrightarrow> (\<exists>b \<in> set (pending w). waiting k b)"
    and cl: "ck_state (clink_at w k) = ''initializing'' \<Longrightarrow>
      Link_Clear_Session k \<in> set (concat th) \<longrightarrow> Link_Clear_Session k \<in> set (pending w)"
  shows "link_fine s req (set_threads th (link_refresh k w)) k"
proof -
  define w' where "w' = link_refresh k w"
  have o: "only k (req k) w w'" unfolding w'_def by (rule link_refresh_only)
  have c: "ss_vlans_created (sess_at w' s) = ss_vlans_created (sess_at w s)" using o by (simp add: only_def)
  note same = only_reported [OF o] tok c link_refresh_answers [of "req k" k w, folded w'_def] link_refresh_req [of k w, folded w'_def]
  note ok = link_inv_link [OF inv k, unfolded link_fine_def]
  have "link_fine s req (set_threads th w') k"
  proof (cases "ck_state (clink_at w k) = ''initializing''")
    case True
    note l = link_refresh_init [OF True, folded w'_def]
    show ?thesis unfolding link_fine_def set_threads_sel same
      by (rule link_ok_mono [OF _ wt cl [OF True]]) (use ok l True in simp)
  next
    case False
    have l: "(ck_state (clink_at w' k) = ''new'') = False" "(ck_state (clink_at w' k) = ''initializing'') = False"
      using link_refresh_ended [OF False] unfolding w'_def by auto
    show ?thesis unfolding link_fine_def set_threads_sel same l
      by (rule link_ok_mono [where cl = "Link_Clear_Session k \<in> set (concat th)", OF _ wt]) (use ok False in \<open>simp_all add: link_ok_refresh\<close>)
  qed
  then show ?thesis by (simp add: w'_def)
qed

lemma keeps_refresh:
  assumes inv: "link_inv s ks req w" and th: "w_threads w = ts @ (Link_Refresh k # as) # ts'"
  shows "act_keeps s ks req ts (Link_Refresh k) as ts' w"
proof -
  have k: "k \<in> set ks" using act_about [OF inv th] by simp
  obtain sp where sp: "w_threads (link_refresh k w) = w_threads w @ sp" "refreshes k (concat sp)"
      "ck_state (clink_at w k) = ''initializing'' \<longrightarrow> sp = []" using link_refresh_shape by blast
  define th' where "th' = (ts @ ([] @ as) # ts') @ sp"
  have sub: "b \<in> set (pending w) \<or> b \<in> set (concat sp)" if "b \<in> set (concat th')" for b
    using that th by (auto simp: th'_def pending_def)
  have "link_fine s req (set_threads th' (link_refresh k w)) k"
  proof (rule refresh_fine [OF inv k])
    show "length (filter (token s k) (concat th')) = tokens s k w"
      using count_after [OF th, of "token s k" "[]" sp] refreshes_count [OF sp(2)] by (simp only: th'_def tokens_def) simp
    show "(\<exists>b \<in> set (concat th'). waiting k b) \<longrightarrow> (\<exists>b \<in> set (pending w). waiting k b)"
      using sub refreshes_not(2) [OF sp(2)] by blast
    show "Link_Clear_Session k \<in> set (concat th') \<longrightarrow> Link_Clear_Session k \<in> set (pending w)"
      if "ck_state (clink_at w k) = ''initializing''" using sp(3) that sub by fastforce
  qed
  then show ?thesis unfolding th'_def
    by (intro keeps_one [OF inv th _ sp(1) link_refresh_only k _ sp(2)]) (auto simp: refreshes_def)
qed

section \<open>Steps outside the threads\<close>

lemma spawn_one:
  assumes inv: "link_inv s ks req w" and same: "w_threads w' = w_threads w @ sp" and o: "only k (req k) w w'" and k: "k \<in> set ks"
    and first: "\<forall>t \<in> set sp. ports_first t" and own: "\<And>b j. b \<in> set (concat sp) \<Longrightarrow> j \<noteq> k \<Longrightarrow> \<not> token s j b \<and> b \<noteq> Link_Clear_Session j"
      "\<forall>b \<in> set (concat sp). about s (set ks) b"
    and fine: "link_fine s req w' k"
  shows "link_inv s ks req w'"
proof -
  have self: "set_threads (w_threads w @ sp) w' = w'" using same by (simp add: set_threads_def)
  have "\<forall>j \<in> set ks. link_fine s req (set_threads (w_threads w @ sp) w') j"
  proof (rule only_fine [OF inv o k])
    fix j assume "j \<in> set ks" and j: "j \<noteq> k"
    have "filter (token s j) (concat sp) = []" using own(1) j by (simp add: filter_empty_conv)
    then show "length (filter (token s j) (concat (w_threads w @ sp))) = tokens s j w" by (simp add: tokens_def pending_def)
  next
    fix j b assume "j \<noteq> k" "b \<in> set (concat (w_threads w @ sp))" "waiting j b"
    then show "b \<in> set (pending w)" using own(1) [of b j] waiting_token [of j b s] by (auto simp: pending_def)
  next
    fix j assume "j \<noteq> k" "Link_Clear_Session j \<in> set (concat (w_threads w @ sp))"
    then show "Link_Clear_Session j \<in> set (pending w)" using own(1) [of "Link_Clear_Session j" j] by (auto simp: pending_def)
  qed (simp add: self fine)
  then have fine: "\<forall>j \<in> set ks. link_fine s req w' j" by (simp only: self)
  have "\<forall>j. link_id w' j = link_id w j" by (simp add: only_id [OF o])
  then have "inj_on (link_id w') (set ks)" using inv by (auto simp: link_inv_def inj_on_def)
  moreover have "ss_links (sess_at w' s) = ks" using inv o by (simp add: link_inv_def only_def)
  moreover have "\<forall>t \<in> set (w_threads w'). ports_first t" using inv first same by (auto simp: link_inv_def)
  moreover have "\<forall>b \<in> set (pending w'). about s (set ks) b" using inv own(2) same by (auto simp: link_inv_def pending_def)
  ultimately show ?thesis using inv fine unfolding link_inv_def by blast
qed

lemma close_inv:
  assumes inv: "link_inv s ks req w" and k: "k \<in> set ks"
  shows "link_inv s ks req (link_refresh k w)"
proof -
  obtain sp where sp: "w_threads (link_refresh k w) = w_threads w @ sp" "refreshes k (concat sp)"
      "ck_state (clink_at w k) = ''initializing'' \<longrightarrow> sp = []" using link_refresh_shape by blast
  have self: "set_threads (w_threads w @ sp) (link_refresh k w) = link_refresh k w" by (simp add: set_threads_def flip: sp(1))
  have "link_fine s req (set_threads (w_threads w @ sp) (link_refresh k w)) k"
  proof (rule refresh_fine [OF inv k])
    show "length (filter (token s k) (concat (w_threads w @ sp))) = tokens s k w"
      using refreshes_count [OF sp(2)] by (simp add: tokens_def pending_def)
    show "(\<exists>b \<in> set (concat (w_threads w @ sp)). waiting k b) \<longrightarrow> (\<exists>b \<in> set (pending w). waiting k b)"
      using refreshes_not(2) [OF sp(2)] by (auto simp: pending_def)
  qed (use sp(3) in \<open>simp add: pending_def\<close>)
  then show ?thesis
  proof (intro spawn_one [OF inv sp(1) link_refresh_only k])
    have "\<forall>j. Link_Ports j \<notin> set (concat sp)" using refreshes_not(3) [OF sp(2)] by blast
    then show "\<forall>t \<in> set sp. ports_first t" by (auto simp: ports_first_def)
    show "\<And>b j. b \<in> set (concat sp) \<Longrightarrow> j \<noteq> k \<Longrightarrow> \<not> token s j b \<and> b \<noteq> Link_Clear_Session j"
      using refreshes_not(1,4) [OF sp(2)] by blast
    show "\<forall>b \<in> set (concat sp). about s (set ks) b" using refreshes_not(5) [OF sp(2)] k by blast
  qed (simp add: self)
qed

lemma started_inv:
  assumes inv: "link_inv s ks req w" and k: "k \<in> set ks" and new: "ck_state (clink_at w k) = ''new''"
  shows "link_inv s ks req (spawn [Link_Ports k, Link_Check k] (snd (next_thread (set_link_state ''initializing'' k w))))"
    (is "link_inv s ks req ?w")
proof (rule spawn_one [OF inv, where k = k and sp = "[[Link_Ports k, Link_Check k]]"])
  show o: "only k (req k) w ?w" by (simp add: set_link_state_def only_update)
  have t: "tokens s k ?w = Suc (tokens s k w)" by (simp add: tokens_def pending_def set_link_state_def)
  have c: "ss_vlans_created (sess_at ?w s) = ss_vlans_created (sess_at w s)" using o by (simp add: only_def)
  have l: "ck_state (clink_at ?w k) = ''initializing''" "ck_sess (clink_at ?w k) = ck_sess (clink_at w k)"
    "ck_linkreq (clink_at ?w k) = ck_linkreq (clink_at w k)" "answers (req k) ?w = answers (req k) w"
    by (simp_all add: set_link_state_def)
  have cl: "Link_Clear_Session k \<in> set (pending ?w) \<longrightarrow> Link_Clear_Session k \<in> set (pending w)"
    by (simp add: pending_def set_link_state_def)
  have "link_ok s (req k) True False (ck_sess (clink_at w k)) (ck_linkreq (clink_at w k)) (reported s k w)
      (ss_vlans_created (sess_at w s)) (tokens s k w) (\<exists>b \<in> set (pending w). waiting k b)
      (Link_Clear_Session k \<in> set (pending w)) (answers (req k) w)"
    using link_inv_link [OF inv k] by (simp add: link_fine_def new)
  note st = link_ok_start [where wt' = True, OF this]
  have n: "(ck_state (clink_at ?w k) = ''new'') = False" "(ck_state (clink_at ?w k) = ''initializing'') = True" using l by simp_all
  show "link_fine s req ?w k" unfolding link_fine_def n l(2-4) t c only_reported [OF o]
    by (rule link_ok_mono [OF conjunct1 [OF st]]) (use st cl in blast)+
qed (use k in \<open>auto simp: set_link_state_def ports_first_def\<close>)

lemma failed_inv:
  assumes inv: "link_inv s ks req w" and k: "k \<in> set ks" and new: "ck_state (clink_at w k) = ''new''"
  shows "link_inv s ks req (link_cleanup_reqs k (snd (next_thread (set_link_state ''initializing'' k w))))"
    (is "link_inv s ks req ?w")
proof (rule spawn_one [OF inv, where k = k and sp = "[]"])
  note ok = link_ok_fail [OF link_inv_link [OF inv k, unfolded link_fine_def new simp_thms(6)]]
  have w: "?w = upd_clink k (\<lambda>x. x\<lparr>ck_linkreq := None\<rparr>) (emit (Link_Response (req k) NCCP_Status_Failed)
      (set_link_state ''failed'' k (snd (next_thread (set_link_state ''initializing'' k w)))))"
    using ok by (simp add: link_cleanup_reqs_def Let_def set_link_state_def)
  show o: "only k (req k) w ?w" unfolding w
    by (rule only_trans [OF _ only_respond]) (simp_all add: set_link_state_def only_upd only_refl)
  show th: "w_threads ?w = w_threads w @ []" unfolding w by (simp add: set_link_state_def emit_def)
  have p: "pending ?w = pending w" using th by (simp add: pending_def)
  have t: "tokens s k ?w = tokens s k w" by (simp add: tokens_def p)
  have c: "ss_vlans_created (sess_at ?w s) = ss_vlans_created (sess_at w s)" using o by (simp add: only_def)
  have l: "(ck_state (clink_at ?w k) = ''new'') = False" "(ck_state (clink_at ?w k) = ''initializing'') = False"
    "ck_sess (clink_at ?w k) = ck_sess (clink_at w k)" "ck_linkreq (clink_at ?w k) = None" "answers (req k) ?w = 1"
    unfolding w using ok by (simp_all add: set_link_state_def emit_def answers_emit [unfolded emit_def])
  show "link_fine s req ?w k" unfolding link_fine_def l t p c only_reported [OF o] using ok by blast
qed (use k in auto)

lemma component_done_inv:
  assumes inv: "link_inv s ks req w" and k: "k \<in> set ks"
  shows "link_inv s ks req (component_done k w)"
proof -
  define w1 where "w1 = snd (both_comps_done k w)"
  have q: "quiet w w1" by (simp add: w1_def both_comps_done_def Let_def quiet_upd_clink link_core_def)
  have "link_fine s req w1 j = link_fine s req w j" for j unfolding link_fine_def by (simp add: quiet_link [OF q])
  then have i1: "link_inv s ks req w1" using inv unfolding link_inv_def by (simp add: quiet_link [OF q] inj_on_def)
  have "link_inv s ks req (link_initialize k w1)"
    using started_inv [OF i1 k] failed_inv [OF i1 k] i1 by (simp add: link_initialize_def Let_def split_beta)
  then show ?thesis using i1 unfolding w1_def component_done_def by (simp add: split_beta)
qed

section \<open>The report of a link\<close>

definition report_sess :: "u32 list \<Rightarrow> bool \<Rightarrow> crd_session \<Rightarrow> crd_session" where
  "report_sess us cr x = x\<lparr>ss_unreported_links := us, ss_vlans_created := cr\<rparr>"

lemma report_fields [simp]:
  "clink_at (upd_sess s f w) = clink_at w" "w_threads (upd_sess s f w) = w_threads w" "answers r (upd_sess s f w) = answers r w"
  "link_id (upd_sess s f w) = link_id w" "pending (upd_sess s f w) = pending w" "sess_at (upd_sess s f w) s = f (sess_at w s)"
  by (simp_all add: upd_sess_def answers_def link_id_def pending_def fun_eq_iff)

lemma report_sel [simp]:
  "ss_unreported_links (report_sess us cr x) = us" "ss_vlans_created (report_sess us cr x) = cr" "ss_links (report_sess us cr x) = ss_links x"
  by (simp_all add: report_sess_def)

lemma not_created:
  "\<not> ss_vlans_created x \<Longrightarrow> x\<lparr>ss_unreported_links := us, ss_vlans_created := False\<rparr> = x\<lparr>ss_unreported_links := us\<rparr>"
  by (cases x) simp

lemma report_run:
  assumes "ck_sess (clink_at w k) = Some s" "\<not> ss_vlans_created (sess_at w s)"
    and "us = removeAll (link_id w k) (ss_unreported_links (sess_at w s))"
  shows "link_report k w = Some (if us = [] then [Start_Vlans s] else [], upd_sess s (report_sess us (us = [])) w)"
  using assms(1,2) unfolding assms(3)
  by (simp add: link_report_def Let_def upd_sess_def report_sess_def link_id_def not_created)

lemma report_other:
  assumes inv: "link_inv s ks req w" and j: "j \<in> set ks" and cr: "\<not> ss_vlans_created (sess_at w s)"
    and w': "w' = upd_sess s (report_sess us (us = [])) w" and r: "reported s j w' = reported s j w"
    and n: "length (filter (token s j) (concat th)) = tokens s j w + (if us = [] then 1 else 0)"
    and sub: "\<And>b. b \<in> set (concat th) \<Longrightarrow> b \<noteq> Start_Vlans s \<Longrightarrow> b \<in> set (pending w)"
  shows "link_fine s req (set_threads th w') j"
proof (cases "us = []")
  case True
  have rw: "reported s j w = True" using r True by (simp add: reported_def w')
  note c = link_ok_created [of s "req j", OF link_inv_link [OF inv j, unfolded link_fine_def rw eq_False [THEN iffD2, OF cr]]]
  have n1: "length (filter (token s j) (concat th)) = 1" using n c True by simp
  have c': "ss_vlans_created (sess_at w' s) = True" using True by (simp add: w')
  have l: "clink_at w' = clink_at w" "answers (req j) w' = answers (req j) w" by (simp_all add: w')
  have wtn: "waiting j b \<Longrightarrow> b \<noteq> Start_Vlans s" for b by auto
  show ?thesis unfolding link_fine_def set_threads_sel n1 r rw c' l
    by (rule link_ok_mono [OF conjunct2 [OF c]]) (use sub wtn in blast)+
next
  case False
  have wtn: "waiting j b \<Longrightarrow> b \<noteq> Start_Vlans s" for b by auto
  show ?thesis
  proof (rule link_fine_other [OF link_inv_link [OF inv j]])
    show "ss_vlans_created (sess_at (set_threads th w') s) = ss_vlans_created (sess_at w s)" using False cr by (simp add: w')
    show "tokens s j (set_threads th w') = tokens s j w" using n False by simp
    show "\<forall>b \<in> set (pending (set_threads th w')). waiting j b \<longrightarrow> (\<exists>b \<in> set (pending w). waiting j b)"
      using sub wtn by (simp only: set_threads_sel) blast
    show "Link_Clear_Session j \<in> set (pending (set_threads th w')) \<Longrightarrow> Link_Clear_Session j \<in> set (pending w)"
      using sub by (simp only: set_threads_sel) blast
  qed (use r in \<open>simp_all add: w'\<close>)
qed

lemma only_token:
  assumes th: "w_threads w = ts @ (a # as) # ts'" and t: "token s k a" "tokens s k w = 1"
    and new: "b \<in> set (concat ((ts @ (new @ as) # ts') @ []))" "waiting k b"
  shows "b \<in> set new"
proof -
  have "length (filter (token s k) (concat (ts @ as # ts'))) = 0"
    using count_after [OF th, of "token s k" "[]" "[]"] t by (simp add: tokens_def)
  then have "b \<notin> set (concat (ts @ as # ts'))" using no_token waiting_token [OF new(2)] by metis
  then show ?thesis using new(1) by auto
qed

lemma keeps_report:
  assumes inv: "link_inv s ks req w" and th: "w_threads w = ts @ (Link_Report k # as) # ts'"
  shows "act_keeps s ks req ts (Link_Report k) as ts' w"
proof -
  have k: "k \<in> set ks" using act_about [OF inv th] by simp
  have t: "token s k (Link_Report k)" by simp
  note live = act_token [OF inv th k t]
  have wt: "(\<exists>b \<in> set (pending w). waiting k b) = True" using th by (auto simp: pending_def)
  define us where "us = removeAll (link_id w k) (ss_unreported_links (sess_at w s))"
  define w' where "w' = upd_sess s (report_sess us (us = [])) w"
  define new where "new = (if us = [] then [Start_Vlans s] else [])"
  define th' where "th' = (ts @ (new @ as) # ts') @ []"
  have m: "(us = []) = (length new = 1)" "length new \<le> 1" by (simp_all add: new_def)
  note okk = link_ok_report [of s "req k", OF link_inv_link [OF inv k, unfolded link_fine_def live(4) One_nat_def wt] m]
  have cr: "\<not> ss_vlans_created (sess_at w s)" using okk by simp
  have rep: "reported s j w' \<longleftrightarrow> reported s j w \<or> j = k" if "j \<in> set ks" for j
    using inv that k unfolding w'_def by (auto simp: reported_def us_def link_inv_def inj_on_def)
  have cnt: "length (filter (token s j) (concat th')) + (if k = j then 1 else 0) = tokens s j w + length new" for j
    using count_after [OF th, of "token s j" new "[]"] by (auto simp: th'_def tokens_def new_def)
  have sub: "b \<in> set (pending w)" if "b \<in> set (concat th')" "b \<noteq> Start_Vlans s" for b
    using that th by (auto simp: th'_def pending_def new_def split: if_splits)
  have fk: "link_fine s req (set_threads th' w') k"
  proof -
    have n: "length (filter (token s k) (concat th')) = length new" using cnt [of k] live(4) by simp
    have nw: "\<not> (\<exists>b \<in> set (concat th'). waiting k b)"
    proof
      assume "\<exists>b \<in> set (concat th'). waiting k b"
      then obtain b where b: "b \<in> set (concat th')" "waiting k b" by blast
      then have "b \<in> set new" unfolding th'_def by (rule only_token [OF th t live(4)])
      then show False using b(2) by (simp add: new_def split: if_splits)
    qed
    have r: "reported s k w' = True" "ss_vlans_created (sess_at w' s) = (us = [])" "clink_at w' = clink_at w"
      "answers (req k) w' = answers (req k) w" using rep [OF k] by (simp_all add: w'_def)
    show ?thesis unfolding link_fine_def set_threads_sel n r
      by (rule link_ok_mono [OF conjunct2 [OF conjunct2 [OF okk]]]) (use nw sub in blast)+
  qed
  have fine: "link_fine s req (set_threads th' w') j" if j: "j \<in> set ks" for j
    using fk report_other [OF inv j cr w'_def, where th = th'] rep [OF j] cnt [of j] sub
    by (cases "j = k") (simp_all add: new_def)
  have "link_inv s ks req (set_threads th' w')" unfolding th'_def
  proof (rule link_inv_thread [OF inv th])
    show "\<forall>j \<in> set ks. link_fine s req (set_threads ((ts @ (new @ as) # ts') @ []) w') j" using fine by (simp only: th'_def) blast
    show "ss_links (sess_at w' s) = ks" using inv by (simp add: w'_def link_inv_def)
  qed (simp_all add: w'_def new_def)
  moreover have "link_act (Link_Report k) w = Some (new, w')"
    using report_run [OF live(1) cr us_def] by (simp add: new_def w'_def)
  ultimately show ?thesis unfolding th'_def by (intro act_keepsI [where sp = "[]"]) (simp_all add: w'_def)
qed

end
