(* ===== verification/Crd_Link_Progress.thy ===== *)
theory Crd_Link_Progress
  imports Crd_Link_Invariant Step_Systems
begin

text \<open>
  What follows from \<open>link_inv\<close>: no thread of the links crashes; the threads come to an end, from every state;
  a session whose links all get their thread and are not closed has every request answered; a link that gives up before it
  has reported leaves the requests of those that have reported without an answer.
\<close>

section \<open>Reachable states\<close>

text \<open>The links \<open>ks\<close> of the session \<open>s\<close> as \<^verbatim>\<open>session::commit\<close> leaves them.\<close>

definition links_committed :: "sptr \<Rightarrow> kptr list \<Rightarrow> (kptr \<Rightarrow> session_add_link_req) \<Rightarrow> crd \<Rightarrow> bool" where
  "links_committed s ks req w \<longleftrightarrow> distinct ks \<and> inj_on (link_id w) (set ks) \<and> inj_on req (set ks) \<and>
     ss_links (sess_at w s) = ks \<and> ss_unreported_links (sess_at w s) = map (link_id w) ks \<and> \<not> ss_vlans_created (sess_at w s) \<and>
     w_threads w = [] \<and>
     (\<forall>k \<in> set ks. ck_state (clink_at w k) = ''new'' \<and> ck_sess (clink_at w k) = Some s \<and> ck_linkreq (clink_at w k) = Some (req k) \<and>
       \<not> ck_needs_refresh (clink_at w k) \<and> answers (req k) w = 0)"

lemma links_committed_inv: "links_committed s ks req w \<Longrightarrow> link_inv s ks req w"
  by (auto simp: links_committed_def link_inv_def link_fine_def link_ok_def reported_def tokens_def pending_def ports_first_def)

lemma act_inv:
  assumes inv: "link_inv s ks req w" and th: "w_threads w = ts @ (a # as) # ts'"
  shows "act_keeps s ks req ts a as ts' w"
  using keeps_ports [OF inv] keeps_check [OF inv] keeps_report [OF inv] keeps_start [OF inv] keeps_complete [OF inv]
    keeps_refresh [OF inv] keeps_do_refresh [OF inv] keeps_clear [OF inv] act_about [OF inv th] th
  by (cases a) simp_all

lemma thread_step_inv:
  assumes inv: "link_inv s ks req w" and step: "thread_step w w'"
  shows "link_inv s ks req w'"
  using step
proof cases
  case (act ts a as ts' new w1 sp)
  then obtain new' w1' sp' where k: "link_act a w = Some (new', w1')" "w_threads w1' = w_threads w @ sp'"
      "link_inv s ks req (set_threads ((ts @ (new' @ as) # ts') @ sp') w1')"
    using act_inv [OF inv act(2)] unfolding act_keeps_def by blast
  have "new' = new" "w1' = w1" using k(1) act(3) by simp_all
  then show ?thesis using k(2,3) act(1,2,4) by (simp add: set_threads_def)
qed

lemma link_step_inv:
  assumes "link_inv s ks req w" "link_step (set ks) w w'"
  shows "link_inv s ks req w'"
  using assms(2,1) by cases (auto intro: thread_step_inv component_done_inv close_inv)

interpretation links: kept "link_step (set ks)" "link_inv s ks req" for s ks req
  by unfold_locales (rule link_step_inv)

text \<open>A thread that has something to do can do it.\<close>

lemma thread_goes_on:
  assumes inv: "link_inv s ks req w" and t: "a # as \<in> set (w_threads w)"
  shows "\<exists>w'. thread_step w w'"
proof -
  obtain ts ts' where th: "w_threads w = ts @ (a # as) # ts'" using t by (meson split_list)
  obtain new w1 sp where "link_act a w = Some (new, w1)" "w_threads w1 = w_threads w @ sp"
    using act_inv [OF inv th] unfolding act_keeps_def by blast
  then show ?thesis using thread_step.act [OF th, of new w1 sp] th by auto
qed

lemma stuck_pending:
  assumes "link_inv s ks req w" "\<nexists>w'. thread_step w w'"
  shows "pending w = []"
proof -
  have "t = []" if "t \<in> set (w_threads w)" for t using thread_goes_on [OF assms(1)] assms(2) that by (cases t) auto
  then show ?thesis by (simp add: pending_def)
qed

lemma answers_le: "link_inv s ks req w \<Longrightarrow> k \<in> set ks \<Longrightarrow> answers (req k) w \<le> 1"
  using link_inv_link [of s ks req w k] by (auto simp: link_fine_def link_ok_def)

section \<open>The threads come to an end\<close>

text \<open>\<open>weight\<close> bounds the actions that a pending action can lead to, with \<open>n\<close> links in the session.\<close>

fun weight :: "nat \<Rightarrow> action \<Rightarrow> nat" where
  "weight n (Link_Ports k) = 1"
| "weight n (Link_Clear_Session k) = 1"
| "weight n (Link_Do_Refresh k) = 1"
| "weight n (Link_Refresh k) = 3"
| "weight n (Link_Complete k st) = 4"
| "weight n (Start_Vlans s) = 4 * n + 1"
| "weight n (Link_Report k) = 4 * n + 2"
| "weight n (Link_Check k) = 4 * n + 5"
| "weight n _ = 0"

definition work :: "nat \<Rightarrow> crd \<Rightarrow> nat" where
  "work n w = sum_list (map (weight n) (pending w))"

abbreviation weights :: "nat \<Rightarrow> action list \<Rightarrow> nat" where
  "weights n as \<equiv> sum_list (map (weight n) as)"

text \<open>What an action is followed by, in the same thread and in new ones.\<close>

fun leads_to :: "crd \<Rightarrow> action \<Rightarrow> action list \<Rightarrow> action list list \<Rightarrow> bool" where
  "leads_to w (Link_Check k) new sp \<longleftrightarrow> sp = [] \<and>
     (if ck_needs_refresh (clink_at w k) then \<exists>st. new = [Link_Complete k st] else new = [Link_Report k])"
| "leads_to w (Link_Report k) new sp \<longleftrightarrow> sp = [] \<and> (new = [] \<or> (\<exists>s. new = [Start_Vlans s]))"
| "leads_to w (Start_Vlans s) new sp \<longleftrightarrow> sp = [] \<and> (\<exists>st. new = map (\<lambda>k. Link_Complete k st) (ss_links (sess_at w s)))"
| "leads_to w (Link_Complete k st) new sp \<longleftrightarrow> sp = [] \<and> new = (if ck_needs_refresh (clink_at w k) then [Link_Refresh k] else [])"
| "leads_to w (Link_Refresh k) new sp \<longleftrightarrow> new = [] \<and> (sp = [] \<or> sp = [[Link_Do_Refresh k, Link_Clear_Session k]])"
| "leads_to w a new sp \<longleftrightarrow> new = [] \<and> sp = []"

lemma quiet_sp: "quiet w w' \<Longrightarrow> w_threads w' = w_threads w @ sp \<Longrightarrow> sp = []"
  by (simp add: quiet_def)

lemma start_vlans_leads:
  assumes "start_vlans s w = (new, w')"
  shows "quiet w w' \<and> (\<exists>st. new = map (\<lambda>k. Link_Complete k st) (ss_links (sess_at w s)))"
proof -
  obtain ok w1 where w1: "start_session_vlans (ss_id (sess_at w s)) w = (ok, w1)" by force
  then have q: "quiet w w1" using quiet_start_session [of w "ss_id (sess_at w s)"] by simp
  then have "ss_links (sess_at w1 s) = ss_links (sess_at w s)" by (simp add: quiet_def)
  then show ?thesis using assms q by (auto simp: start_vlans_def w1)
qed

lemma act_leads:
  assumes inv: "link_inv s ks req w" and th: "w_threads w = ts @ (a # as) # ts'" and act: "link_act a w = Some (new, w')"
    and sp: "w_threads w' = w_threads w @ sp"
  shows "leads_to w a new sp"
proof (cases a)
  case (Link_Ports k)
  then show ?thesis using ports_run [OF inv th [unfolded Link_Ports]] act quiet_sp [OF _ sp] by auto
next
  case (Link_Check k)
  then show ?thesis using act sp by (auto simp: link_check_def Let_def split: if_splits bind_splits)
next
  case (Link_Report k)
  then show ?thesis using act sp by (auto simp: link_report_def Let_def upd_sess_def split: if_splits bind_splits)
next
  case (Start_Vlans t)
  then have r: "start_vlans t w = (new, w')" using act by simp
  then show ?thesis using start_vlans_leads [OF r] quiet_sp [OF _ sp] Start_Vlans by auto
next
  case (Link_Complete k st)
  then show ?thesis using act sp by (auto simp: complete_initialization_def Let_def upd_clink_def emit_def split: bind_splits)
next
  case (Link_Refresh k)
  have "w_threads (link_refresh k w) \<in> {w_threads w, w_threads w @ [[Link_Do_Refresh k, Link_Clear_Session k]]}"
    unfolding link_refresh_unfold by (simp split: if_split)
  then show ?thesis using act sp Link_Refresh by auto
next
  case (Link_Do_Refresh k)
  have "quiet w (link_do_refresh k w)"
    unfolding link_do_refresh_def Let_def by (intro quiet_upd_clink) (simp_all add: quiet_delete_vlan link_core_def)
  then show ?thesis using act sp Link_Do_Refresh quiet_sp by auto
next
  case (Link_Clear_Session k)
  then show ?thesis using act sp by (auto simp: link_clear_session_def)
qed (use act sp in auto)

lemma leads_to_weight:
  assumes "leads_to w a new sp" "length (ss_links (sess_at w s)) = n" "about s K a"
  shows "weights n new + weights n (concat sp) < weight n a"
  using assms by (cases a) (auto simp: sum_list_triv o_def split: if_splits)

lemma thread_step_work:
  assumes inv: "link_inv s ks req w" and step: "thread_step w w'"
  shows "work (length ks) w' < work (length ks) w"
  using step
proof cases
  case (act ts a as ts' new w1 sp)
  have "leads_to w a new sp" using act_leads [OF inv act(2,3)] act(2,4) by simp
  then have "weights (length ks) new + weights (length ks) (concat sp) < weight (length ks) a"
    by (rule leads_to_weight [OF _ _ act_about [OF inv act(2)]]) (use inv in \<open>simp add: link_inv_def\<close>)
  then show ?thesis using act(1,2) by (simp add: work_def pending_def)
qed

lemma thread_step_progress: "link_inv s ks req w \<Longrightarrow> pending w \<noteq> [] \<Longrightarrow> \<exists>w'. thread_step w w'"
  using stuck_pending by blast

interpretation threads: ending thread_step "link_inv s ks req" "work (length ks)" "\<lambda>w. pending w = []" for s ks req
  by unfold_locales (fact thread_step_inv thread_step_work thread_step_progress)+

section \<open>Every request is answered\<close>

text \<open>A step in which no link is closed and a link that starts gets its thread.\<close>

inductive calm_step :: "kptr set \<Rightarrow> crd \<Rightarrow> crd \<Rightarrow> bool" for K where
  calm_thread: "thread_step w w' \<Longrightarrow> calm_step K w w'"
| calm_component: "k \<in> K \<Longrightarrow> o_thread w 0 \<Longrightarrow> calm_step K w (component_done k w)"

lemma calm_link_step: "calm_step K w w' \<Longrightarrow> link_step K w w'"
  by (induction rule: calm_step.induct) (auto intro: link_step.intros)

text \<open>\<open>link_live\<close>: a link has not started, or has a token, or waits for the others, or is answered.\<close>

definition link_live :: "sptr \<Rightarrow> crd \<Rightarrow> kptr \<Rightarrow> bool" where
  "link_live s w k \<longleftrightarrow> \<not> ck_needs_refresh (clink_at w k) \<and>
     (ck_state (clink_at w k) = ''new'' \<or> 0 < tokens s k w \<or> reported s k w \<and> \<not> ss_vlans_created (sess_at w s) \<or>
      ck_linkreq (clink_at w k) = None \<and> ss_vlans_created (sess_at w s))"

fun live_act :: "bool \<Rightarrow> action \<Rightarrow> bool" where
  "live_act cr (Link_Ports k) \<longleftrightarrow> True"
| "live_act cr (Link_Check k) \<longleftrightarrow> True"
| "live_act cr (Link_Report k) \<longleftrightarrow> True"
| "live_act cr (Start_Vlans s) \<longleftrightarrow> cr"
| "live_act cr (Link_Complete k st) \<longleftrightarrow> cr"
| "live_act cr _ \<longleftrightarrow> False"

definition session_live :: "sptr \<Rightarrow> kptr list \<Rightarrow> crd \<Rightarrow> bool" where
  "session_live s ks w \<longleftrightarrow> set (ss_unreported_links (sess_at w s)) \<subseteq> link_id w ` set ks \<and>
     (ss_unreported_links (sess_at w s) = [] \<and> ks \<noteq> [] \<longrightarrow> ss_vlans_created (sess_at w s))"

definition links_live :: "sptr \<Rightarrow> kptr list \<Rightarrow> crd \<Rightarrow> bool" where
  "links_live s ks w \<longleftrightarrow> session_live s ks w \<and> (\<forall>a \<in> set (pending w). live_act (ss_vlans_created (sess_at w s)) a) \<and>
     (\<forall>k \<in> set ks. link_live s w k)"

lemma links_live_stuck:
  assumes inv: "link_inv s ks req w" and live: "links_live s ks w" and empty: "pending w = []"
    and started: "\<forall>k \<in> set ks. ck_state (clink_at w k) \<noteq> ''new''" and k: "k \<in> set ks"
  shows "answers (req k) w = 1"
proof -
  have wait: "reported s j w \<and> \<not> ss_vlans_created (sess_at w s) \<or> ck_linkreq (clink_at w j) = None \<and> ss_vlans_created (sess_at w s)"
    if "j \<in> set ks" for j
    using live started that empty by (auto simp: links_live_def link_live_def tokens_def)
  have ne: "ks \<noteq> []" using k by auto
  have "ss_vlans_created (sess_at w s)"
  proof (rule ccontr)
    assume no: "\<not> ss_vlans_created (sess_at w s)"
    then have "ss_unreported_links (sess_at w s) \<noteq> []" using live ne by (auto simp: links_live_def session_live_def)
    then obtain i where i: "i \<in> set (ss_unreported_links (sess_at w s))" by (cases "ss_unreported_links (sess_at w s)") auto
    then obtain j where "j \<in> set ks" "link_id w j = i" using live by (auto simp: links_live_def session_live_def)
    then show False using wait [of j] no i by (simp add: reported_def)
  qed
  then have "ck_linkreq (clink_at w k) = None" using wait [OF k] by simp
  then show ?thesis using link_inv_link [OF inv k] by (simp add: link_fine_def link_ok_def)
qed

lemma quiet_live:
  assumes live: "links_live s ks w" and th: "w_threads w = ts @ (a # as) # ts'" and q: "quiet w w'"
    and tok: "\<And>k. k \<in> set ks \<Longrightarrow> length (filter (token s k) new) = length (filter (token s k) [a])"
    and new: "\<forall>b \<in> set new. live_act (ss_vlans_created (sess_at w s)) b"
  shows "links_live s ks (set_threads (ts @ (new @ as) # ts') w')"
proof -
  have "tokens s k (set_threads (ts @ (new @ as) # ts') w') = tokens s k w" if "k \<in> set ks" for k
    using tok [OF that] th by (simp add: tokens_def pending_def)
  then have "\<forall>k \<in> set ks. link_live s (set_threads (ts @ (new @ as) # ts') w') k"
    using live unfolding links_live_def link_live_def by (simp del: set_threads_sel(9)) (simp add: quiet_link [OF q])
  moreover have "session_live s ks (set_threads (ts @ (new @ as) # ts') w')"
    using live by (simp add: links_live_def session_live_def quiet_link [OF q] image_def)
  moreover have "\<forall>b \<in> set (concat (ts @ (new @ as) # ts')). live_act (ss_vlans_created (sess_at w s)) b"
    using live th new by (auto simp: links_live_def pending_def)
  ultimately show ?thesis unfolding links_live_def by (simp only: set_threads_sel quiet_link [OF q])
qed

lemma created_live: "live_act False a \<Longrightarrow> live_act cr a"
  by (cases a) auto

lemma report_live:
  assumes inv: "link_inv s ks req w" and live: "links_live s ks w" and th: "w_threads w = ts @ (Link_Report k # as) # ts'"
    and run: "link_report k w = Some (new, w')"
  shows "links_live s ks (set_threads (ts @ (new @ as) # ts') w')"
proof -
  define us where "us = removeAll (link_id w k) (ss_unreported_links (sess_at w s))"
  have k: "k \<in> set ks" using act_about [OF inv th] by simp
  have t: "token s k (Link_Report k)" by simp
  note tk = act_token [OF inv th k t]
  have "\<exists>b \<in> set (pending w). waiting k b" using th by (auto simp: pending_def)
  then have cr: "\<not> ss_vlans_created (sess_at w s)"
    using link_inv_link [OF inv k] unfolding link_fine_def link_ok_def by blast
  have r: "new = (if us = [] then [Start_Vlans s] else [])" "w' = upd_sess s (report_sess us (us = [])) w"
    using report_run [OF tk(1) cr us_def] run by simp_all
  have acts: "\<forall>b \<in> set (concat (ts @ (new @ as) # ts')). live_act (us = []) b"
    using live th cr by (auto simp: links_live_def pending_def r intro: created_live)
  have "link_live s (set_threads (ts @ (new @ as) # ts') w') j" if j: "j \<in> set ks" for j
  proof -
    have c: "length (filter (token s j) (concat (ts @ (new @ as) # ts'))) + (if k = j then 1 else 0) = tokens s j w + length new"
    proof -
      have "filter (token s j) new = new" by (simp add: r(1))
      then show ?thesis using count_after [OF th, of "token s j" new "[]"] by (simp add: tokens_def)
    qed
    have l: "link_live s w j" using live j by (simp add: links_live_def)
    have o: "tokens s j w \<le> 1" using link_inv_link [OF inv j] unfolding link_fine_def link_ok_def by blast
    show ?thesis
    proof (cases "us = []")
      case True
      then show ?thesis using c l o by (auto simp: link_live_def r(2) r(1) split: if_splits)
    next
      case ne: False
      then show ?thesis using c l cr by (cases "j = k") (auto simp: link_live_def r reported_def us_def link_id_def)
    qed
  qed
  moreover have "session_live s ks (set_threads (ts @ (new @ as) # ts') w')"
    using live by (auto simp: links_live_def session_live_def r us_def)
  ultimately show ?thesis using acts unfolding links_live_def by (simp add: r)
qed

lemma complete_live:
  assumes inv: "link_inv s ks req w" and live: "links_live s ks w" and th: "w_threads w = ts @ (Link_Complete k st # as) # ts'"
    and run: "complete_initialization k st w = Some (new, w')"
  shows "links_live s ks (set_threads (ts @ (new @ as) # ts') w')"
proof -
  have k: "k \<in> set ks" using act_about [OF inv th] by simp
  have cr: "ss_vlans_created (sess_at w s)" using live th by (simp add: links_live_def pending_def)
  have nr: "\<not> ck_needs_refresh (clink_at w k)" using live k by (simp add: links_live_def link_live_def)
  obtain r where r: "ck_linkreq (clink_at w k) = Some r" using run by (auto simp: complete_initialization_def Let_def split: bind_splits)
  have w': "new = []" "\<And>j. j \<noteq> k \<Longrightarrow> clink_at w' j = clink_at w j" "sess_at w' = sess_at w" "ck_linkreq (clink_at w' k) = None"
    "ck_needs_refresh (clink_at w' k) = False" "ck_comp (clink_at w' k) = ck_comp (clink_at w k)"
    using run nr by (auto simp: complete_initialization_def Let_def r upd_clink_def emit_def)
  have id: "link_id w' j = link_id w j" for j using w'(2,6) by (cases "j = k") (simp_all add: link_id_def)
  have "link_live s (set_threads (ts @ (new @ as) # ts') w') j" if j: "j \<in> set ks" for j
  proof (cases "j = k")
    case True
    then show ?thesis using w' cr by (simp add: link_live_def)
  next
    case False
    have "length (filter (token s j) (concat (ts @ (new @ as) # ts'))) = tokens s j w"
      using count_after [OF th, of "token s j" new "[]"] False by (simp add: tokens_def w')
    moreover have "link_live s w j" using live j by (simp add: links_live_def)
    ultimately show ?thesis using w'(2) [OF False] w'(3) cr by (auto simp: link_live_def)
  qed
  moreover have "session_live s ks (set_threads (ts @ (new @ as) # ts') w')"
    using live by (simp add: links_live_def session_live_def w'(3) id image_def)
  moreover have "\<forall>b \<in> set (concat (ts @ (new @ as) # ts')). live_act True b"
    using live th cr by (auto simp: links_live_def pending_def w'(1))
  ultimately show ?thesis using cr unfolding links_live_def by (simp add: w'(3))
qed

lemma thread_step_live:
  assumes inv: "link_inv s ks req w" and live: "links_live s ks w" and step: "thread_step w w'"
  shows "links_live s ks w'"
  using step
proof cases
  case (act ts a as ts' new w1 sp)
  have lt: "leads_to w a new sp" using act_leads [OF inv act(2,3)] act(2,4) by simp
  have la: "live_act (ss_vlans_created (sess_at w s)) a" using live act(2) by (simp add: links_live_def pending_def)
  have ab: "about s (set ks) a" by (rule act_about [OF inv act(2)])
  have w': "w' = set_threads ((ts @ (new @ as) # ts') @ sp) w1" using act(1) by (simp add: set_threads_def)
  have "sp = []" using lt la by (cases a) auto
  then have w': "w' = set_threads (ts @ (new @ as) # ts') w1" using w' by simp
  note q = quiet_live [OF live act(2)]
  show ?thesis unfolding w'
  proof (cases a)
    case (Link_Ports k)
    then have "quiet w w1" using ports_run [OF inv act(2) [unfolded Link_Ports]] act(3) by auto
    then show "links_live s ks (set_threads (ts @ (new @ as) # ts') w1)" using lt Link_Ports by (intro q) auto
  next
    case (Link_Check k)
    have "k \<in> set ks" using ab Link_Check by simp
    then have "\<not> ck_needs_refresh (clink_at w k)" using live by (simp add: links_live_def link_live_def)
    then have "new = [Link_Report k]" "quiet w w1" using lt act(3) Link_Check by auto
    then show "links_live s ks (set_threads (ts @ (new @ as) # ts') w1)" using Link_Check by (intro q) auto
  next
    case (Link_Report k)
    then show "links_live s ks (set_threads (ts @ (new @ as) # ts') w1)"
      using report_live [OF inv live act(2) [unfolded Link_Report]] act(3) by simp
  next
    case (Start_Vlans t)
    then have r: "start_vlans t w = (new, w1)" "t = s" using act(3) ab by simp_all
    obtain st where n: "new = map (\<lambda>k. Link_Complete k st) ks" and qu: "quiet w w1"
      using start_vlans_leads [OF r(1)] inv r(2) by (auto simp: link_inv_def)
    have d: "distinct ks" using inv by (simp add: link_inv_def)
    show "links_live s ks (set_threads (ts @ (new @ as) # ts') w1)"
      using la Start_Vlans r(2) by (intro q [OF qu]) (auto simp: n o_def filter_map filter_eq_distinct [OF d])
  next
    case (Link_Complete k st)
    then show "links_live s ks (set_threads (ts @ (new @ as) # ts') w1)"
      using complete_live [OF inv live act(2) [unfolded Link_Complete]] act(3) by simp
  qed (use la ab in simp_all)
qed

lemma component_done_live:
  assumes live: "links_live s ks w" and k: "k \<in> set ks" and o: "o_thread w 0"
  shows "links_live s ks (component_done k w)"
proof -
  define w1 where "w1 = snd (both_comps_done k w)"
  have q: "quiet w w1" by (simp add: w1_def both_comps_done_def Let_def quiet_upd_clink link_core_def)
  have o1: "o_thread w1 0" using o by (simp add: w1_def both_comps_done_def Let_def upd_clink_def)
  have l1: "links_live s ks w1" using live unfolding links_live_def link_live_def session_live_def
    by (simp add: quiet_link [OF q] image_def)
  have "links_live s ks (link_initialize k w1)"
  proof (cases "ck_state (clink_at w1 k) = ''new''")
    case True
    define w2 where "w2 = link_initialize k w1"
    have w2: "w2 = spawn [Link_Ports k, Link_Check k] (snd (next_thread (set_link_state ''initializing'' k w1)))"
      using True o1 by (simp add: w2_def link_initialize_def Let_def split_beta set_link_state_def upd_clink_def next_thread_def)
    have f: "\<And>j. j \<noteq> k \<Longrightarrow> clink_at w2 j = clink_at w1 j" "sess_at w2 = sess_at w1" "ck_comp (clink_at w2 k) = ck_comp (clink_at w1 k)"
      "ck_needs_refresh (clink_at w2 k) = ck_needs_refresh (clink_at w1 k)" "pending w2 = pending w1 @ [Link_Ports k, Link_Check k]"
      by (simp_all add: w2 spawn_def next_thread_def set_link_state_def upd_clink_def pending_def)
    have id: "link_id w2 j = link_id w1 j" for j using f(1,3) by (cases "j = k") (simp_all add: link_id_def)
    have "link_live s w2 j" if "j \<in> set ks" for j
      using l1 that f(1) [of j] f(4) by (cases "j = k") (auto simp: links_live_def link_live_def tokens_def f(2,5) reported_def id)
    then show ?thesis using l1 f(5) by (auto simp: links_live_def session_live_def f(2) id image_def simp flip: w2_def)
  qed (use l1 in \<open>simp add: link_initialize_def\<close>)
  then show ?thesis using l1 unfolding w1_def component_done_def by (simp add: split_beta)
qed

lemma links_committed_live: "links_committed s ks req w \<Longrightarrow> links_live s ks w"
  by (auto simp: links_committed_def links_live_def session_live_def link_live_def pending_def)

lemma calm_step_keeps:
  assumes "link_inv s ks req w \<and> links_live s ks w" "calm_step (set ks) w w'"
  shows "link_inv s ks req w' \<and> links_live s ks w'"
proof -
  have i: "link_inv s ks req w" "links_live s ks w" using assms(1) by simp_all
  from assms(2) show ?thesis
  proof cases
    case calm_thread
    then show ?thesis using thread_step_inv [OF i(1)] thread_step_live [OF i] by simp
  next
    case (calm_component k)
    then show ?thesis using component_done_inv [OF i(1)] component_done_live [OF i(2)] by simp
  qed
qed

interpretation calm: kept "calm_step (set ks)" "\<lambda>w. link_inv s ks req w \<and> links_live s ks w" for s ks req
  by unfold_locales (rule calm_step_keeps)

lemma calm_reach:
  "(calm_step (set ks))\<^sup>*\<^sup>* w w' \<Longrightarrow> links_committed s ks req w \<Longrightarrow> link_inv s ks req w' \<and> links_live s ks w'"
  using calm.reach links_committed_inv links_committed_live by blast

section \<open>Lost reports\<close>

text \<open>A link that has given up: started or closed, not reported, and no action left that would report it.\<close>

definition gave_up :: "sptr \<Rightarrow> kptr \<Rightarrow> crd \<Rightarrow> bool" where
  "gave_up s k w \<longleftrightarrow> ck_state (clink_at w k) \<noteq> ''new'' \<and> tokens s k w = 0 \<and> \<not> reported s k w"

text \<open>What a step keeps of a link that has given up and of one that has reported.\<close>

definition still :: "sptr \<Rightarrow> kptr \<Rightarrow> crd \<Rightarrow> crd \<Rightarrow> bool" where
  "still s k w w' \<longleftrightarrow> ck_state (clink_at w' k) \<noteq> ''new'' \<and> \<not> reported s k w' \<and> (\<forall>j. reported s j w \<longrightarrow> reported s j w')"

lemma quiet_still: "quiet w w' \<Longrightarrow> gave_up s k w \<Longrightarrow> still s k w w'"
  by (simp add: gave_up_def still_def quiet_link)

lemma only_still:
  "only j r w w' \<Longrightarrow> gave_up s k w \<Longrightarrow> ck_state (clink_at w' k) = ck_state (clink_at w k) \<or> ck_state (clink_at w' k) \<noteq> ''new'' \<Longrightarrow>
    still s k w w'"
  unfolding gave_up_def still_def by (auto simp: only_reported)

lemma refresh_still:
  assumes "gave_up s k w"
  shows "still s k w (link_refresh j w)"
proof (rule only_still [OF link_refresh_only assms])
  have o: "only j r w (link_refresh j w)" for r by (rule link_refresh_only)
  show "ck_state (clink_at (link_refresh j w) k) = ck_state (clink_at w k) \<or> ck_state (clink_at (link_refresh j w) k) \<noteq> ''new''"
  proof (cases "j = k")
    case True
    then show ?thesis using link_refresh_init [of w k] link_refresh_ended [of w k] by fastforce
  next
    case False
    then show ?thesis using o by (simp add: only_def link_core_def)
  qed
qed

lemma report_still:
  assumes inv: "link_inv s ks req w" and th: "w_threads w = ts @ (Link_Report j # as) # ts'" and g: "gave_up s k w"
    and run: "link_report j w = Some (new, w')" and k: "k \<in> set ks"
  shows "still s k w w' \<and> new = []"
proof -
  define us where "us = removeAll (link_id w j) (ss_unreported_links (sess_at w s))"
  have j: "j \<in> set ks" using act_about [OF inv th] by simp
  have t: "token s j (Link_Report j)" by simp
  note tk = act_token [OF inv th j t]
  have jk: "j \<noteq> k" using tk(4) g by (auto simp: gave_up_def)
  have "\<exists>b \<in> set (pending w). waiting j b" using th by (auto simp: pending_def)
  then have cr: "\<not> ss_vlans_created (sess_at w s)"
    using link_inv_link [OF inv j] unfolding link_fine_def link_ok_def by blast
  have r: "new = (if us = [] then [Start_Vlans s] else [])" "w' = upd_sess s (report_sess us (us = [])) w"
    using report_run [OF tk(1) cr us_def] run by simp_all
  have "link_id w k \<noteq> link_id w j" using inv j k jk by (auto simp: link_inv_def inj_on_def)
  then have m: "link_id w k \<in> set us" using g by (simp add: us_def gave_up_def reported_def)
  then have "us \<noteq> []" by auto
  then show ?thesis using g m by (auto simp: still_def gave_up_def r reported_def us_def)
qed

lemma act_still:
  assumes inv: "link_inv s ks req w" and th: "w_threads w = ts @ (a # as) # ts'" and g: "gave_up s k w" and k: "k \<in> set ks"
    and run: "link_act a w = Some (new, w')" and sp: "w_threads w' = w_threads w @ sp"
  shows "still s k w w' \<and> filter (token s k) new = [] \<and> filter (token s k) (concat sp) = []"
proof -
  have lt: "leads_to w a new sp" by (rule act_leads [OF inv th run sp])
  have na: "\<not> token s k a" using g th by (simp add: gave_up_def tokens_def pending_def split: if_splits)
  have ab: "about s (set ks) a" by (rule act_about [OF inv th])
  show ?thesis
  proof (cases a)
    case (Link_Ports j)
    then show ?thesis using ports_run [OF inv th [unfolded Link_Ports]] run lt quiet_still [OF _ g] by auto
  next
    case (Link_Check j)
    then show ?thesis using run lt na quiet_still [OF quiet_refl g] by (auto split: if_splits)
  next
    case (Link_Report j)
    then show ?thesis using report_still [OF inv th [unfolded Link_Report] g _ k] run lt by auto
  next
    case (Link_Complete j st)
    then have jk: "j \<noteq> k" using na by auto
    then have "clink_at w' k = clink_at w k" "sess_at w' = sess_at w" "link_id w' i = link_id w i" for i
      using run Link_Complete by (auto simp: complete_initialization_def Let_def upd_clink_def emit_def link_id_def split: bind_splits)
    then show ?thesis using g lt Link_Complete jk by (auto simp: still_def gave_up_def reported_def)
  next
    case (Link_Refresh j)
    then show ?thesis using refresh_still [OF g] run lt by auto
  next
    case (Link_Do_Refresh j)
    have "quiet w (link_do_refresh j w)"
      unfolding link_do_refresh_def Let_def by (intro quiet_upd_clink) (simp_all add: quiet_delete_vlan link_core_def)
    then show ?thesis using run lt Link_Do_Refresh quiet_still [OF _ g] by auto
  next
    case (Link_Clear_Session j)
    have "only j (req j) w (link_clear_session j w)" unfolding link_clear_session_def by (rule only_update) simp
    moreover have "ck_state (clink_at (link_clear_session j w) k) = ck_state (clink_at w k)"
      by (simp add: link_clear_session_def upd_clink_def)
    ultimately show ?thesis using run lt Link_Clear_Session only_still [OF _ g] by auto
  qed (use na ab in simp_all)
qed

lemma gave_up_step:
  assumes inv: "link_inv s ks req w" and g: "gave_up s k w" and k: "k \<in> set ks" and step: "link_step (set ks) w w'"
  shows "gave_up s k w' \<and> (\<forall>j. reported s j w \<longrightarrow> reported s j w')"
  using step
proof cases
  case thread
  then show ?thesis
  proof cases
    case (act ts a as ts' new w1 sp)
    have s: "still s k w w1" "filter (token s k) new = []" "filter (token s k) (concat sp) = []"
      using act_still [OF inv act(2) g k act(3)] act(2,4) by simp_all
    have "tokens s k w' = 0"
      using count_after [OF act(2), of "token s k" new sp] s g by (simp add: act(1) tokens_def gave_up_def pending_def)
    then show ?thesis using s(1) by (auto simp: act(1) still_def gave_up_def reported_def link_id_def)
  qed
next
  case (component j)
  have q: "quiet w (snd (both_comps_done j w))" by (simp add: both_comps_done_def Let_def quiet_upd_clink link_core_def)
  define w1 where "w1 = snd (both_comps_done j w)"
  have g1: "gave_up s k w1" using g q by (simp add: gave_up_def w1_def quiet_link [OF q])
  have r1: "reported s i w1 = reported s i w" for i using q by (simp add: w1_def quiet_link [OF q])
  have "gave_up s k (link_initialize j w1) \<and> (\<forall>i. reported s i (link_initialize j w1) = reported s i w1)"
  proof (cases "ck_state (clink_at w1 j) = ''new''")
    case True
    then have jk: "j \<noteq> k" using g1 by (auto simp: gave_up_def)
    then show ?thesis using True g1 
      by (auto simp: link_initialize_def Let_def split_beta link_cleanup_reqs_def set_link_state_def gave_up_def reported_def link_id_def
        upd_clink_def next_thread_def spawn_def emit_def tokens_def pending_def split: option.split)
  qed (use g1 in \<open>simp add: link_initialize_def\<close>)
  then show ?thesis using g1 r1 unfolding component(1) component_done_def w1_def by (simp add: split_beta)
next
  case (close j)
  obtain sp where sp: "w_threads (link_refresh j w) = w_threads w @ sp" "refreshes j (concat sp)" using link_refresh_shape by blast
  have "tokens s k (link_refresh j w) = tokens s k w"
    using refreshes_count [OF sp(2)] sp(1) by (simp add: tokens_def pending_def)
  then show ?thesis using refresh_still [OF g, of j] g by (auto simp: close still_def gave_up_def)
qed

lemma gave_up_keeps:
  assumes "link_inv s ks req w \<and> k \<in> set ks \<and> gave_up s k w \<and> reported s j w" "link_step (set ks) w w'"
  shows "link_inv s ks req w' \<and> k \<in> set ks \<and> gave_up s k w' \<and> reported s j w'"
  using assms gave_up_step [of s ks req w k w'] link_step_inv [of s ks req w w'] by blast

interpretation given_up: kept "link_step (set ks)" "\<lambda>w. link_inv s ks req w \<and> k \<in> set ks \<and> gave_up s k w \<and> reported s j w" for s ks req k j
  by unfold_locales (rule gave_up_keeps)

lemma link_ok_lost: "link_ok s r nw ini se rq True False n wt cl ans \<Longrightarrow> ans = 0"
  unfolding link_ok_def by auto

lemma gave_up_unanswered:
  assumes "link_inv s ks req w" "gave_up s k w" "k \<in> set ks" "reported s j w" "j \<in> set ks"
  shows "answers (req j) w = 0 \<and> \<not> ss_vlans_created (sess_at w s)"
proof -
  have c: "\<not> ss_vlans_created (sess_at w s)"
    using link_inv_link [OF assms(1,3)] assms(2) unfolding link_fine_def link_ok_def gave_up_def by blast
  have l: "reported s j w = True" "ss_vlans_created (sess_at w s) = False" using assms(4) c by simp_all
  show ?thesis using link_ok_lost [OF link_inv_link [OF assms(1,5), unfolded link_fine_def l]] c by simp
qed

lemma thread_steps_calm: "thread_step\<^sup>*\<^sup>* w w' \<Longrightarrow> (calm_step K)\<^sup>*\<^sup>* w w'"
  by (induction rule: rtranclp_induct) (auto intro: calm_thread rtranclp.rtrancl_into_rtrancl)

lemma calm_steps_link: "(calm_step K)\<^sup>*\<^sup>* w w' \<Longrightarrow> (link_step K)\<^sup>*\<^sup>* w w'"
  by (induction rule: rtranclp_induct) (auto intro: calm_link_step rtranclp.rtrancl_into_rtrancl)

text \<open>A link that has started never becomes new again.\<close>

lemma leads_thread_state:
  assumes inv: "link_inv s ks req w" and step: "thread_step w w'" and st: "ck_state (clink_at w k) \<noteq> ''new''" and k: "k \<in> set ks"
  shows "ck_state (clink_at w' k) \<noteq> ''new''"
  using step
proof cases
  case (act ts a as ts' new w1 sp)
  have q: "ck_state (clink_at w1 k) = ck_state (clink_at w k)" if "quiet w w1" using that by (simp add: quiet_link)
  have "ck_state (clink_at w1 k) \<noteq> ''new''"
  proof (cases a)
    case (Link_Ports j)
    then show ?thesis using ports_run [OF inv act(2) [unfolded Link_Ports]] act(3) st q by auto
  next
    case (Link_Report j)
    then show ?thesis using act(3) st by (auto simp: link_report_def Let_def upd_sess_def split: if_splits bind_splits)
  next
    case (Start_Vlans t)
    then show ?thesis using start_vlans_leads [of t w new w1] act(3) st q by auto
  next
    case (Link_Complete j v)
    then show ?thesis using act(3) st
      by (cases "j = k") (auto simp: complete_initialization_def Let_def upd_clink_def emit_def split: bind_splits if_splits)
  next
    case (Link_Refresh j)
    then have w1: "w1 = link_refresh j w" using act(3) by simp
    show ?thesis
    proof (cases "j = k")
      case True
      then show ?thesis unfolding w1 using link_refresh_init [of w k] link_refresh_ended [of w k] by fastforce
    next
      case False
      have "only j r w (link_refresh j w)" for r by (rule link_refresh_only)
      then show ?thesis unfolding w1 using False st by (simp add: only_def link_core_def)
    qed
  next
    case (Link_Do_Refresh j)
    have "quiet w (link_do_refresh j w)"
      unfolding link_do_refresh_def Let_def by (intro quiet_upd_clink) (simp_all add: quiet_delete_vlan link_core_def)
    then show ?thesis using act(3) st q Link_Do_Refresh by auto
  qed (use act(3) st in \<open>auto simp: link_clear_session_def upd_clink_def link_check_def Let_def split: bind_splits if_splits\<close>)
  then show ?thesis by (simp add: act(1))
qed

interpretation started: kept thread_step
    "\<lambda>w. link_inv s ks req w \<and> (\<forall>k \<in> set ks. ck_state (clink_at w k) \<noteq> ''new'')" for s ks req
  using thread_step_inv leads_thread_state by unfold_locales blast

section \<open>Running the first thread\<close>

definition run_first :: "crd \<Rightarrow> crd" where
  "run_first w = (case w_threads w of (a # as) # ts \<Rightarrow>
       (case link_act a w of Some (new, w') \<Rightarrow> w'\<lparr>w_threads := (new @ as) # drop 1 (w_threads w')\<rparr> | None \<Rightarrow> w)
     | _ \<Rightarrow> w)"

lemma run_first_step:
  assumes inv: "link_inv s ks req w" and th: "w_threads w = (a # as) # ts"
  shows "thread_step w (run_first w)"
proof -
  have th': "w_threads w = [] @ (a # as) # ts" using th by simp
  obtain new w1 sp where r: "link_act a w = Some (new, w1)" "w_threads w1 = w_threads w @ sp"
    using act_inv [OF inv th'] unfolding act_keeps_def by blast
  have "thread_step w (w1\<lparr>w_threads := ([] @ (new @ as) # ts) @ sp\<rparr>)"
    using r th' by (intro thread_step.act) auto
  then show ?thesis using r th by (simp add: run_first_def)
qed

end
