(* ===== verification/Crd_Component.thy ===== *)
theory Crd_Component
  imports Crd_Link
begin

text \<open>
  Components (\<^verbatim>\<open>crd/onlcrd_component.cc\<close>): \<^verbatim>\<open>crd_component\<close> and what its subclasses
  \<^verbatim>\<open>crd_virtual_switch\<close> and \<^verbatim>\<open>crd_virtual_machine\<close> override. \<^verbatim>\<open>do_initialize\<close> is cut into actions where it
  releases its lock to wait, and before it boots, connects and answers.

  \<open>hold\<close> says that the caller has the \<^verbatim>\<open>state_lock\<close> of the component, which is not recursive: to take it again is
  \<open>None\<close>. The state that a component has in the database, and that of its dependent, come from outside.
\<close>

definition cname :: "cptr \<Rightarrow> crd \<Rightarrow> string" where
  "cname c w = cc_name (comp_at w c)"

definition hasCP :: "cptr \<Rightarrow> crd \<Rightarrow> bool" where
  "hasCP c w \<longleftrightarrow> cc_cp (comp_at w c) \<noteq> ''''"

section \<open>The state of a component\<close>

definition comp_get_state :: "cptr \<Rightarrow> crd \<Rightarrow> string \<times> crd" where
  "comp_get_state c w = (let x = comp_at w c in
     if cc_class x \<noteq> Plain then (cc_internal_state x, w)
     else let (s, w) = next_state w in (if s = ''testing'' then cc_internal_state x else s, w))"

definition comp_get_dependent_state :: "cptr \<Rightarrow> crd \<Rightarrow> string \<times> crd" where
  "comp_get_dependent_state c w = (let x = comp_at w c in
     if cc_is_dependent x \<or> cc_dependent_comp x = '''' then (''free'', w) else next_dependent w)"

definition power_cycle :: "cptr \<Rightarrow> crd \<Rightarrow> crd" where
  "power_cycle c w = (if \<not> cc_is_dependent (comp_at w c) \<and> \<not> testing w
     then emit (Command (''/root/scripts/power_cycle_node.pl '' @ cname c w)) w else w)"

definition comp_set_state :: "cptr \<Rightarrow> string \<Rightarrow> crd \<Rightarrow> crd" where
  "comp_set_state c s w = (let w = (if s = ''repair'' then upd_comp c (\<lambda>x. x\<lparr>cc_needs_refresh := False\<rparr>) w else w) in
     if cc_class (comp_at w c) = Virtual_Machine then upd_comp c (\<lambda>x. x\<lparr>cc_internal_state := s\<rparr>) w
     else let w = (if s = ''repair'' then power_cycle c w else w);
         w = upd_comp c (\<lambda>x. x\<lparr>cc_internal_state := s\<rparr>) w
       in emit (Db_State (cname c w) s) w)"

definition comp_is_admin_mode :: "cptr \<Rightarrow> crd \<Rightarrow> bool \<times> crd" where
  "comp_is_admin_mode c w = (let (s, w) = comp_get_state c w in (s = ''repair'' \<or> s = ''testing'', w))"

definition set_local_state :: "cptr \<Rightarrow> string \<Rightarrow> crd \<Rightarrow> crd" where
  "set_local_state c s = upd_comp c (\<lambda>x. x\<lparr>cc_local_state := s\<rparr>)"

definition set_keebooting :: "cptr \<Rightarrow> bool \<Rightarrow> crd \<Rightarrow> crd" where
  "set_keebooting c b = upd_comp c (\<lambda>x. x\<lparr>cc_keebooting_now := b\<rparr>)"

definition set_connected :: "cptr \<Rightarrow> bool \<Rightarrow> crd \<Rightarrow> crd" where
  "set_connected c b = upd_comp c (\<lambda>x. x\<lparr>cc_connected := b\<rparr>)"

section \<open>Parameters\<close>

text \<open>The first parameter of a node that can be told its file system names it.\<close>

definition names_fs :: "param list \<Rightarrow> string option" where
  "names_fs ps = (case ps of [] \<Rightarrow> None
     | p # _ \<Rightarrow> if pt p = string_param \<and> param_getString p \<noteq> '''' then Some (param_getString p) else None)"

definition comp_add_reboot_params :: "cptr \<Rightarrow> param list \<Rightarrow> crd \<Rightarrow> crd" where
  "comp_add_reboot_params c ps w = (let w = upd_comp c (\<lambda>x. x\<lparr>cc_reboot_params := ps\<rparr>) w in
     if \<not> cc_keeboot (comp_at w c) then w
     else case names_fs ps of None \<Rightarrow> w
       | Some fs \<Rightarrow> upd_comp c (\<lambda>x. x\<lparr>cc_reboot_params := tl ps\<rparr>) (set_keeboot_param (cname c w) fs w))"

definition comp_add_init_params :: "cptr \<Rightarrow> param list \<Rightarrow> crd \<Rightarrow> crd" where
  "comp_add_init_params c ps = upd_comp c (\<lambda>x. x\<lparr>cc_init_params := ps\<rparr>)"

definition comp_reset_params :: "cptr \<Rightarrow> crd \<Rightarrow> crd" where
  "comp_reset_params c = upd_comp c (\<lambda>x. x\<lparr>cc_reboot_params := [], cc_init_params := []\<rparr>)"

definition comp_add_link :: "cptr \<Rightarrow> kptr \<Rightarrow> crd \<Rightarrow> crd" where
  "comp_add_link c k = upd_comp c (\<lambda>x. x\<lparr>cc_links := cc_links x @ [k]\<rparr>)"

section \<open>Giving up\<close>

definition finish_links :: "kptr list \<Rightarrow> crd \<Rightarrow> crd" where
  "finish_links ks w = foldl (\<lambda>w k. component_done k w) w ks"

definition set_comp_links :: "cptr \<Rightarrow> kptr list \<Rightarrow> crd \<Rightarrow> crd" where
  "set_comp_links c ks = upd_comp c (\<lambda>x. x\<lparr>cc_links := ks\<rparr>)"

definition cleanup_links :: "cptr \<Rightarrow> bool \<Rightarrow> crd \<Rightarrow> crd" where
  "cleanup_links c do_init w = set_comp_links c [] (if do_init then finish_links (cc_links (comp_at w c)) w else w)"

definition component_failed :: "session_add_component_req \<Rightarrow> event" where
  "component_failed r = Component_Response r NCCP_Status_Failed '''' 0 ''''"

definition take_request :: "cptr \<Rightarrow> bool \<Rightarrow> crd \<Rightarrow> crd" where
  "take_request c failed w = (case cc_compreq (comp_at w c) of None \<Rightarrow> w
     | Some r \<Rightarrow> upd_comp c (\<lambda>x. x\<lparr>cc_compreq := None\<rparr>) (if failed then emit (component_failed r) w else w))"

definition to_repair :: "cptr \<Rightarrow> crd \<Rightarrow> crd" where
  "to_repair c w = set_local_state c ''repair'' (comp_set_state c ''repair'' w)"

text \<open>
  \<^verbatim>\<open>refresh\<close> and \<^verbatim>\<open>cleanup_reqs\<close> call each other, but not in turn: \<^verbatim>\<open>refresh\<close> resets
  \<^verbatim>\<open>needs_refresh\<close>, which a virtual switch never has, before it cleans up. \<open>give_up\<close> is the cleaning without the
  second refresh.
\<close>

definition give_up :: "cptr \<Rightarrow> crd \<Rightarrow> crd" where
  "give_up c w = sm_clear_component c (cleanup_links c False (to_repair c (take_request c True w)))"

definition start_refresh :: "cptr \<Rightarrow> crd \<Rightarrow> crd" where
  "start_refresh c w = (let (ok, w) = next_thread w in
     if ok then spawn [Component_Do_Refresh c, Component_Clear c] w else give_up c w)"

definition refresh_in :: "cptr \<Rightarrow> string \<Rightarrow> crd \<Rightarrow> crd" where
  "refresh_in c cur w = (let loc = cc_local_state (comp_at w c) in
     if loc = ''not_used'' then w
     else if cur = ''repair'' then
       (if loc \<noteq> ''repair''
        then sm_clear_component c (take_request c False (cleanup_links c False (set_local_state c ''repair'' w)))
        else sm_clear_component c w)
     else if loc = ''new'' \<and> cur \<noteq> ''free'' then sm_clear_component c (set_local_state c ''done'' w)
     else if cur = ''initializing'' then upd_comp c (\<lambda>x. x\<lparr>cc_needs_refresh := True\<rparr>) w
     else if cur = ''refreshing'' \<or> loc = ''refreshing'' then upd_comp c (\<lambda>x. x\<lparr>cc_needs_refresh := False\<rparr>) w
     else start_refresh c (upd_comp c (\<lambda>x. x\<lparr>cc_needs_refresh := False\<rparr>)
       (comp_set_state c ''refreshing'' (set_local_state c ''refreshing'' w))))"

definition comp_refresh :: "cptr \<Rightarrow> crd \<Rightarrow> crd" where
  "comp_refresh c w = (if cc_class (comp_at w c) = Virtual_Switch then start_refresh c w
     else let (cur, w) = comp_get_state c w in refresh_in c cur w)"

definition cleanup_reqs :: "cptr \<Rightarrow> bool \<Rightarrow> bool \<Rightarrow> crd \<Rightarrow> crd option" where
  "cleanup_reqs c failed hold w = (let w = take_request c failed w in
     if \<not> failed then Some w
     else if hold then None
     else let again = cc_needs_refresh (comp_at w c); w = to_repair c w in
       Some (if again \<and> \<not> cc_keebooting_now (comp_at w c) \<and> \<not> ignored w (cname c w) then comp_refresh c w else w))"

section \<open>Refreshing\<close>

text \<open>The loops that ask for the state of the dependent once a second, thirty times at most.\<close>

fun wait_dependent :: "nat \<Rightarrow> string set \<Rightarrow> cptr \<Rightarrow> string \<Rightarrow> crd \<Rightarrow> string \<times> crd" where
  "wait_dependent 0 bad c s w = (s, w)"
| "wait_dependent (Suc n) bad c s w =
     (if s \<in> bad then let (s, w) = comp_get_dependent_state c w in wait_dependent n bad c s w else (s, w))"

definition wait_for_up_msg :: "cptr \<Rightarrow> crd \<Rightarrow> bool \<times> crd" where
  "wait_for_up_msg c w = (let (up, w) = (if cc_received_up_msg (comp_at w c) then (True, w) else next_up w) in
     (up, upd_comp c (\<lambda>x. x\<lparr>cc_received_up_msg := False\<rparr>) w))"

definition got_up_msg :: "cptr \<Rightarrow> crd \<Rightarrow> crd" where
  "got_up_msg c = upd_comp c (\<lambda>x. x\<lparr>cc_received_up_msg := True\<rparr>)"

definition connect_cp :: "cptr \<Rightarrow> crd \<Rightarrow> bool \<times> crd" where
  "connect_cp c w = (let (ok, w) = next_connect w in (ok, set_connected c ok w))"

text \<open>\<open>refresh_failed\<close>: the node goes to repair. The value \<open>True\<close> of the steps below says to go on.\<close>

definition refresh_failed :: "cptr \<Rightarrow> bool \<Rightarrow> crd \<Rightarrow> (bool \<times> crd) option" where
  "refresh_failed c hold w = map_option (\<lambda>w. (False, cleanup_links c False w)) (cleanup_reqs c True hold w)"

definition send_refresh :: "cptr \<Rightarrow> bool \<Rightarrow> crd \<Rightarrow> (bool \<times> crd) option" where
  "send_refresh c hold w = (let dep = cc_is_dependent (comp_at w c);
       (ok, w) = (if cc_connected (comp_at w c) then (True, w) else connect_cp c w) in
     if \<not> ok then (if dep then Some (True, w) else refresh_failed c hold w)
     else let (a, w) = ask (Node_Refresh c (cc_reboot_params (comp_at w c))) w in
       if dep \<or> an_answered a then Some (True, w) else refresh_failed c hold w)"

definition keeboot_node :: "cptr \<Rightarrow> bool \<Rightarrow> crd \<Rightarrow> (bool \<times> crd) option" where
  "keeboot_node c hold w = (let (ok, w) = connect_cp c w in
     if \<not> ok then refresh_failed c hold w
     else let (fs, w) = get_keeboot_param (cname c w) w; (a, w) = ask (Node_Keeboot c fs) w in
       if \<not> fine a then refresh_failed c hold w
       else let w = set_connected c False w; (up, w) = wait_for_up_msg c w in
         if \<not> up then refresh_failed c hold w
         else Some (True, emit (Command (''unlink /export/keeboot_kernels/install/'' @ cname c w @ ''.fsa'')) w))"

definition switch_do_refresh :: "cptr \<Rightarrow> crd \<Rightarrow> crd option" where
  "switch_do_refresh c w = (let w = upd_comp c (\<lambda>x. x\<lparr>cc_internal_state := ''free''\<rparr>) w; x = comp_at w c in
     if cc_alloc_vlan x then do {
       v \<leftarrow> cc_vlan x;
       Some (if vlanid (vlan_at w v) = 0 then w
         else snd (sm_delete_vlan v (case cc_sess x of None \<Rightarrow> '''' | Some s \<Rightarrow> ss_id (sess_at w s)) w)) }
     else Some w)"

definition set_free :: "cptr \<Rightarrow> bool \<Rightarrow> crd \<Rightarrow> crd option" where
  "set_free c hold w = (if cc_keebooting_now (comp_at w c) then Some w
     else if hold then None else Some (comp_set_state c ''free'' w))"

text \<open>A node whose dependent does not come up is refreshed again, for ever if need be: without a result.\<close>

partial_function (option) comp_do_refresh :: "cptr \<Rightarrow> bool \<Rightarrow> crd \<Rightarrow> crd option" where
  "comp_do_refresh c hold w =
    (if cc_class (comp_at w c) = Virtual_Switch then switch_do_refresh c w
     else if \<not> hasCP c w \<or> testing w then set_free c hold w
     else do {
       (go, w) \<leftarrow> send_refresh c hold w;
       if \<not> go then Some w
       else if cc_class (comp_at w c) = Plain \<and> hold then None
       else if comp_type_of c w = ''vm'' then set_free c hold w
       else let (up, w) = wait_for_up_msg c (set_connected c False w) in
         if \<not> up then map_option snd (refresh_failed c hold w)
         else let (dep, w) = comp_get_dependent_state c w;
             (dep, w) = wait_dependent 30 {''refreshing'', ''repair''} c dep w in do {
           w \<leftarrow> (if dep \<in> {''refreshing'', ''repair''} then comp_do_refresh c hold w else Some w);
           (go, w) \<leftarrow> (if cc_keeboot (comp_at w c) then keeboot_node c hold w else Some (True, w));
           if go then set_free c hold w else Some w } })"

section \<open>The mapping of a session\<close>

text \<open>The file that maps labels to machines is written once, when every virtual machine has its name.\<close>

definition vm_pending :: "crd \<Rightarrow> cptr \<Rightarrow> bool" where
  "vm_pending w c \<longleftrightarrow> (let x = comp_at w c in cc_vmid x > 0 \<and> cc_vmname x = '''' \<and> \<not> isExtDev (cc_comp x))"

definition mapping_line :: "crd \<Rightarrow> cptr \<Rightarrow> (string \<times> string) list" where
  "mapping_line w c = (let x = comp_at w c; label = c_str (comp_label (cc_comp x)); short = filter (\<lambda>ch. ch \<noteq> CHR ''.'') label in
     if label = '''' then []
     else if cc_vmid x > 0 then (if isExtDev (cc_comp x) then [] else [(short, cc_vmname x)])
     else [(short, cc_name x)])"

definition write_mapping :: "sptr \<Rightarrow> crd \<Rightarrow> crd" where
  "write_mapping s w = (let x = sess_at w s in
     if ss_mapping_written x \<or> (\<exists>c \<in> set (ss_components x). vm_pending w c) then w
     else upd_sess s (\<lambda>x. x\<lparr>ss_mapping_written := True\<rparr>)
       (emit (Mapping_File (ss_user x) (concat (map (mapping_line w) (ss_components x)))) w))"

definition clear_mapping :: "sptr \<Rightarrow> crd \<Rightarrow> crd" where
  "clear_mapping s w = upd_sess s (\<lambda>x. x\<lparr>ss_mapping_written := False\<rparr>) (emit (Mapping_File (ss_user (sess_at w s)) []) w)"

section \<open>Starting a component\<close>

definition comp_initialize :: "cptr \<Rightarrow> crd \<Rightarrow> crd option" where
  "comp_initialize c w = (case cc_compreq (comp_at w c) of
     None \<Rightarrow> Some (cleanup_links c True (set_local_state c ''not_used'' w))
   | Some r \<Rightarrow> let (ok, w) = next_thread w in
       if ok then Some (spawn [Component_Do_Initialize c] w) else map_option (cleanup_links c True) (cleanup_reqs c True False w))"

text \<open>The outcome of an action: what follows in the same thread.\<close>

definition ended :: "crd \<Rightarrow> action list \<times> crd" where
  "ended w = ([], w)"

definition abandoned :: "cptr \<Rightarrow> crd \<Rightarrow> (action list \<times> crd) option" where
  "abandoned c w = map_option (\<lambda>w. ended (cleanup_links c True w)) (cleanup_reqs c True False w)"

definition refresh_for_boot :: "cptr \<Rightarrow> bool \<Rightarrow> crd \<Rightarrow> (bool \<times> crd) option" where
  "refresh_for_boot c hold w = do {
     w \<leftarrow> comp_do_refresh c hold (set_keebooting c True w);
     let (cur, w) = comp_get_state c (set_keebooting c False w);
     Some (if cur = ''repair'' then (False, sm_clear_component c w) else (True, w)) }"

definition do_initialize_free :: "cptr \<Rightarrow> crd \<Rightarrow> (action list \<times> crd) option" where
  "do_initialize_free c w = (if cc_local_state (comp_at w c) \<noteq> ''new''
     then map_option (\<lambda>w. ended (sm_clear_component c (cleanup_links c False w))) (cleanup_reqs c False False w)
     else Some ([Component_Boot c], comp_set_state c ''initializing'' (set_local_state c ''initializing'' w)))"

definition do_initialize_in :: "cptr \<Rightarrow> string \<Rightarrow> string \<Rightarrow> crd \<Rightarrow> (action list \<times> crd) option" where
  "do_initialize_in c cur dep w =
    (if cur \<noteq> ''free'' \<and> cur \<noteq> ''repair'' \<and> cc_local_state (comp_at w c) = ''new'' then Some ([Component_Wait c dep], w)
     else if cur = ''repair'' then
       (if cc_local_state (comp_at w c) \<noteq> ''repair''
        then map_option ended (cleanup_reqs c True False (cleanup_links c True (set_local_state c ''repair'' w)))
        else Some (ended (sm_clear_component c w)))
     else let (dep, w) = wait_dependent 30 {''refreshing''} c dep w in do {
       (go, w) \<leftarrow> (if dep \<in> {''refreshing'', ''repair''} then refresh_for_boot c True w else Some (True, w));
       if go then do_initialize_free c w else Some (ended w) })"

text \<open>A virtual switch needs a VLAN and no node.\<close>

definition switch_do_initialize :: "cptr \<Rightarrow> crd \<Rightarrow> (action list \<times> crd) option" where
  "switch_do_initialize c w = do {
     v \<leftarrow> cc_vlan (comp_at w c);
     r \<leftarrow> cc_compreq (comp_at w c);
     let status = (if vlanid (vlan_at w v) = 0 then NCCP_Status_Failed else NCCP_Status_Fine);
     let w = emit (Component_Response r status '''' 0 '''') w;
     let w = cleanup_links c True (upd_comp c (\<lambda>x. x\<lparr>cc_compreq := None, cc_internal_state := ''active''\<rparr>) w);
     Some (ended (if cc_needs_refresh (comp_at w c) then comp_refresh c w else w)) }"

definition do_initialize :: "cptr \<Rightarrow> crd \<Rightarrow> (action list \<times> crd) option" where
  "do_initialize c w = (if cc_class (comp_at w c) = Virtual_Switch then switch_do_initialize c w
     else let (cur, w) = comp_get_state c w; (dep, w) = comp_get_dependent_state c w in do_initialize_in c cur dep w)"

definition do_initialize_again :: "cptr \<Rightarrow> string \<Rightarrow> crd \<Rightarrow> (action list \<times> crd) option" where
  "do_initialize_again c dep w = (let (cur, w) = comp_get_state c w in do_initialize_in c cur dep w)"

definition boot_component :: "cptr \<Rightarrow> crd \<Rightarrow> (action list \<times> crd) option" where
  "boot_component c w =
    (if \<not> testing w \<and> cc_keeboot (comp_at w c) \<and> check_keeboot_param (cname c w) w
     then do { (go, w) \<leftarrow> refresh_for_boot c False w; Some (if go then [Component_Start c] else [], w) }
     else Some ([Component_Start c], w))"

text \<open>The ports of the node, both of a link to itself.\<close>

fun configure_ports :: "cptr \<Rightarrow> kptr list \<Rightarrow> crd \<Rightarrow> (bool \<times> crd) option" where
  "configure_ports c [] w = Some (True, w)"
| "configure_ports c (k # ks) w = do {
     (ok, w) \<leftarrow> send_port_configuration c False k w;
     (ok2, w) \<leftarrow> (if is_loopback k w then send_port_configuration c True k w else Some (True, w));
     (ok3, w) \<leftarrow> configure_ports c ks w;
     Some (ok \<and> ok2 \<and> ok3, w) }"

definition end_configuration :: "cptr \<Rightarrow> crd \<Rightarrow> bool \<times> crd" where
  "end_configuration c w = (let (a, w) = ask (Node_End_Configure c) w in
     if \<not> an_answered a then (False, w)
     else (an_status a = NCCP_Status_Fine, upd_comp c (\<lambda>x. x\<lparr>cc_vmname := an_vmname a\<rparr>) w))"

definition start_component :: "cptr \<Rightarrow> crd \<Rightarrow> (action list \<times> crd) option" where
  "start_component c w = (if \<not> hasCP c w \<or> testing w then Some ([Component_Finish c False], w)
     else let (ok, w) = connect_cp c w in
       if \<not> ok then abandoned c w
       else let (a, w) = ask (Node_Start c) w in
         if \<not> an_answered a then abandoned c w
         else do {
           (ok, w) \<leftarrow> configure_ports c (cc_links (comp_at w c)) w;
           let (ok2, w) = end_configuration c w;
           Some ([Component_Finish c (\<not> (fine a \<and> ok \<and> ok2))], w) })"

definition component_answer :: "cptr \<Rightarrow> bool \<Rightarrow> session_add_component_req \<Rightarrow> crd \<Rightarrow> event" where
  "component_answer c failed r w = (let x = comp_at w c in
     if failed then component_failed r
     else Component_Response r (if testing w then NCCP_Status_Testing else NCCP_Status_Fine) (cc_cp x) (cc_cp_port x) (cc_vmname x))"

definition finish_component :: "cptr \<Rightarrow> bool \<Rightarrow> crd \<Rightarrow> (action list \<times> crd) option" where
  "finish_component c failed w = do {
     r \<leftarrow> cc_compreq (comp_at w c);
     let w = upd_comp c (\<lambda>x. x\<lparr>cc_compreq := None\<rparr>) (emit (component_answer c failed r w) w);
     let w = comp_set_state c ''active'' w;
     let w = (case cc_sess (comp_at w c) of None \<Rightarrow> w | Some s \<Rightarrow> write_mapping s w);
     let w = cleanup_links c True w;
     Some (ended (if cc_needs_refresh (comp_at w c) then comp_refresh c w else w)) }"

section \<open>The actions of the threads of components\<close>

fun comp_act :: "action \<Rightarrow> crd \<Rightarrow> (action list \<times> crd) option" where
  "comp_act (Component_Do_Initialize c) w = do_initialize c w"
| "comp_act (Component_Wait c dep) w = do_initialize_again c dep w"
| "comp_act (Component_Boot c) w = boot_component c w"
| "comp_act (Component_Start c) w = start_component c w"
| "comp_act (Component_Finish c failed) w = finish_component c failed w"
| "comp_act (Component_Do_Refresh c) w = map_option ended (comp_do_refresh c False w)"
| "comp_act (Component_Clear c) w = Some (ended (sm_clear_component c w))"
| "comp_act a w = link_act a w"

end
