(* ===== verification/Crd_Session.thy ===== *)
theory Crd_Session
  imports Crd_Component
begin

text \<open>
  Sessions (\<^verbatim>\<open>crd/onlcrd_session.cc\<close>): the requests they collect, \<^verbatim>\<open>commit\<close> stage by stage, and
  \<^verbatim>\<open>clear\<close>. The record \<open>crd_database\<close> holds what they ask the database; \<open>env\<close> is what other threads do each time
  \<^verbatim>\<open>commit\<close> sleeps.
\<close>

record crd_database =
  db_virtual_port :: "string \<Rightarrow> bool"
  db_capacity :: "string \<Rightarrow> int \<Rightarrow> int"
  db_switch_ports :: "int \<Rightarrow> switch_port \<times> switch_port"
  db_is_admin :: "string \<Rightarrow> bool"
  db_node_info :: "string \<Rightarrow> db_node option"
  db_assign :: "string \<Rightarrow> topology \<Rightarrow> store \<Rightarrow> (int \<times> string) \<times> topology \<times> store"
  db_expired :: "string list option"

section \<open>Collecting requests\<close>

definition session_add_component :: "sptr \<Rightarrow> session_add_component_req \<Rightarrow> crd \<Rightarrow> crd" where
  "session_add_component s r = upd_sess s (\<lambda>x. x\<lparr>ss_component_reqs := ss_component_reqs x @ [r]\<rparr>)"

definition session_add_cluster :: "sptr \<Rightarrow> session_add_cluster_req \<Rightarrow> crd \<Rightarrow> crd" where
  "session_add_cluster s r = upd_sess s (\<lambda>x. x\<lparr>ss_cluster_reqs := ss_cluster_reqs x @ [r]\<rparr>)"

definition session_add_link :: "sptr \<Rightarrow> session_add_link_req \<Rightarrow> crd \<Rightarrow> crd" where
  "session_add_link s r = upd_sess s (\<lambda>x. x\<lparr>ss_link_reqs := ss_link_reqs x @ [r]\<rparr>)"

definition num_requests :: "crd_session \<Rightarrow> nat" where
  "num_requests x = length (ss_component_reqs x) + length (ss_cluster_reqs x) + length (ss_link_reqs x)"

text \<open>The wait for the requests that the user interface announced: a minute, in steps of 50 ms.\<close>

fun wait_requests :: "u32 \<Rightarrow> sptr \<Rightarrow> nat \<Rightarrow> (crd \<Rightarrow> crd) list \<Rightarrow> crd \<Rightarrow> (bool \<times> crd) option" where
  "wait_requests n s attempts env w =
    (if unat n \<le> num_requests (sess_at w s) then Some (True, w)
     else if 1200 < attempts then Some (False, w)
     else case env of [] \<Rightarrow> None | f # fs \<Rightarrow> wait_requests n s (Suc attempts) fs (f w))"

section \<open>Building the topology\<close>

definition topo_op :: "sptr \<Rightarrow> (topology \<Rightarrow> store \<Rightarrow> resp \<times> topology \<times> store) \<Rightarrow> crd \<Rightarrow> resp \<times> crd" where
  "topo_op s f w = (let (r, t, st) = f (ss_topology (sess_at w s)) (res_store w) in
     (r, upd_sess s (\<lambda>x. x\<lparr>ss_topology := t\<rparr>) (w\<lparr>res_store := st\<rparr>)))"

definition of_topo :: "(topology \<Rightarrow> store \<Rightarrow> 'a) \<Rightarrow> sptr \<Rightarrow> crd \<Rightarrow> 'a" where
  "of_topo f s w = f (ss_topology (sess_at w s)) (res_store w)"

definition cluster_node :: "session_add_cluster_req \<Rightarrow> topology \<Rightarrow> store \<Rightarrow> resp \<times> topology \<times> store" where
  "cluster_node r = (let c = rc_comp r in
     add_node (c_str (comp_type c)) (comp_id c) (comp_parent c) False 1 1 0 0 '''')"

definition component_node ::
    "crd_database \<Rightarrow> session_add_component_req \<Rightarrow> topology \<Rightarrow> store \<Rightarrow> resp \<times> topology \<times> store" where
  "component_node db r = (let c = rc_comp r; type = c_str (comp_type c) in
     add_node type (comp_id c) (comp_parent c) (db_virtual_port db type) (sint (ac_cores r)) (sint (ac_mem r))
       (sint (ac_num_interfaces r)) (sint (ac_interfacebw r)) (c_str (ac_ext_tag r)))"

text \<open>A request that the topology refuses is answered and dropped; those that stay are the value.\<close>

fun place_clusters :: "sptr \<Rightarrow> session_add_cluster_req list \<Rightarrow> crd \<Rightarrow> session_add_cluster_req list \<times> crd" where
  "place_clusters s [] w = ([], w)"
| "place_clusters s (r # rs) w = (let ((res, msg), w) = topo_op s (cluster_node r) w in
     if res < 1 then place_clusters s rs (emit (Cluster_Response r NCCP_Status_AllocFailed 0) w)
     else let (keep, w) = place_clusters s rs w in (r # keep, w))"

fun place_components ::
    "crd_database \<Rightarrow> sptr \<Rightarrow> session_add_component_req list \<Rightarrow> crd \<Rightarrow> session_add_component_req list \<times> crd" where
  "place_components db s [] w = ([], w)"
| "place_components db s (r # rs) w = (let ((res, msg), w) = topo_op s (component_node db r) w in
     if res < 1 then place_components db s rs (emit (Component_Response r NCCP_Status_AllocFailed '''' 0 '''') w)
     else let (keep, w) = place_components db s rs w in (r # keep, w))"

text \<open>
  The capacities of the ends of a link. Versions up to \<^verbatim>\<open>0x75\<close> do not send them; a virtual switch takes that of the
  other end, two virtual switches the most a line between clusters has.
\<close>

definition max_intercluster_capacity :: int where
  "max_intercluster_capacity = 10000"

definition link_capacities :: "crd_database \<Rightarrow> string \<Rightarrow> string \<Rightarrow> session_add_link_req \<Rightarrow> int \<times> int" where
  "link_capacities db t1 t2 r =
    (let p1 = uint (le_port (al_from r)); p2 = uint (le_port (al_to r)); c1 = sint (le_cap (al_from r));
         c2 = sint (le_cap (al_to r)); hascap = (msg_version r > 0x75);
         own1 = (if hascap then c1 else db_capacity db t1 p1); own2 = (if hascap then c2 else db_capacity db t2 p2) in
     if t1 = ''vgige'' \<and> t2 = ''vgige'' then (max_intercluster_capacity, max_intercluster_capacity)
     else if t1 = ''vgige'' then (own2, own2)
     else if t2 = ''vgige'' then (own1, own1)
     else (own1, own2))"

definition capacity_error :: "session_add_link_req \<Rightarrow> int \<times> int \<Rightarrow> bool" where
  "capacity_error r cs \<longleftrightarrow> fst cs = -1 \<or> snd cs = -1 \<or> (msg_version r \<le> 0x75 \<and> fst cs \<noteq> snd cs)"

definition from_id :: "session_add_link_req \<Rightarrow> u32" where
  "from_id r = comp_id (le_comp (al_from r))"

definition to_id :: "session_add_link_req \<Rightarrow> u32" where
  "to_id r = comp_id (le_comp (al_to r))"

definition link_edge :: "session_add_link_req \<Rightarrow> int \<times> int \<Rightarrow> topology \<Rightarrow> store \<Rightarrow> resp \<times> topology \<times> store" where
  "link_edge r cs = add_cap_link (comp_id (rc_comp r)) (of_int (fst cs)) (from_id r) (ucast (le_port (al_from r)))
     (of_int (fst cs)) (to_id r) (ucast (le_port (al_to r))) (of_int (snd cs)) 0 0"

fun place_links :: "crd_database \<Rightarrow> sptr \<Rightarrow> session_add_link_req list \<Rightarrow> crd \<Rightarrow> session_add_link_req list \<times> crd" where
  "place_links db s [] w = ([], w)"
| "place_links db s (r # rs) w =
    (let cs = link_capacities db (of_topo (topo_get_type (from_id r)) s w) (of_topo (topo_get_type (to_id r)) s w) r in
     if capacity_error r cs then place_links db s rs (emit (Link_Response r NCCP_Status_Failed) w)
     else let ((res, msg), w) = topo_op s (link_edge r cs) w in
       if res < 1 then place_links db s rs (emit (Link_Response r NCCP_Status_Failed) w)
       else let (keep, w) = place_links db s rs w in (r # keep, w))"

definition set_requests :: "sptr \<Rightarrow> session_add_cluster_req list \<Rightarrow> session_add_component_req list \<Rightarrow> session_add_link_req list \<Rightarrow>
    crd \<Rightarrow> crd" where
  "set_requests s cs hs ls = upd_sess s (\<lambda>x. x\<lparr>ss_cluster_reqs := cs, ss_component_reqs := hs, ss_link_reqs := ls\<rparr>)"

definition build_topology :: "crd_database \<Rightarrow> sptr \<Rightarrow> crd \<Rightarrow> crd" where
  "build_topology db s w = (let x = sess_at w s;
       (cs, w) = place_clusters s (ss_cluster_reqs x) w;
       (hs, w) = place_components db s (ss_component_reqs x) w;
       (ls, w) = place_links db s (ss_link_reqs x) w
     in set_requests s cs hs ls w)"

definition sm_assign_resources :: "crd_database \<Rightarrow> sptr \<Rightarrow> crd \<Rightarrow> bool \<times> crd" where
  "sm_assign_resources db s w = (let ((res, msg), w) = topo_op s (db_assign db (ss_user (sess_at w s))) w in
     if res < 1 then (False, upd_sess s (\<lambda>x. x\<lparr>ss_errmsg := msg\<rparr>) w) else (True, w))"

section \<open>Ending a session\<close>

definition session_expired :: "sptr \<Rightarrow> crd \<Rightarrow> crd" where
  "session_expired s w = (if ss_begin_req (sess_at w s) = None then w
     else emit (Session_Message ''Reservation Expired'' Session_Expired) w)"

definition refuse_requests :: "sptr \<Rightarrow> crd \<Rightarrow> crd" where
  "refuse_requests s w = (let x = sess_at w s;
       w = fold (\<lambda>r. emit (Cluster_Response r NCCP_Status_Failed 0)) (ss_cluster_reqs x) w;
       w = fold (\<lambda>r. emit (component_failed r)) (ss_component_reqs x) w;
       w = fold (\<lambda>r. emit (Link_Response r NCCP_Status_Failed)) (ss_link_reqs x) w
     in set_requests s [] [] [] w)"

definition close_link :: "sptr \<Rightarrow> kptr \<Rightarrow> crd \<Rightarrow> crd" where
  "close_link s k w = (let i = comp_id (ck_comp (clink_at w k)); w = link_refresh k w in
     snd (topo_op s (\<lambda>t st. let (r, t) = remove_link i t st in (r, t, st)) w))"

definition close_component :: "sptr \<Rightarrow> cptr \<Rightarrow> crd \<Rightarrow> crd" where
  "close_component s c w = (let i = comp_id (cc_comp (comp_at w c)); w = sm_remove_component c (comp_reset_params c w);
       w = (if ignored w (cname c w) then w else comp_refresh c w) in
     snd (topo_op s (\<lambda>t st. let (r, t) = remove_node i t st in (r, t, st)) w))"

definition refuse_observers :: "sptr \<Rightarrow> crd \<Rightarrow> crd" where
  "refuse_observers s w = upd_sess s (\<lambda>x. x\<lparr>ss_observe_reqs := []\<rparr>)
     (fold (\<lambda>u. emit (Observe_Response u ''Experiment closing'' Session_No_Err)) (ss_observe_reqs (sess_at w s)) w)"

definition clear_script :: "crd_session \<Rightarrow> event" where
  "clear_script x = Command (''/usr/testbed/scripts/clear_exp.sh '' @ ss_user x @ '' '' @ ss_id x)"

definition crd_session_clear :: "sptr \<Rightarrow> crd \<Rightarrow> crd" where
  "crd_session_clear s w = (if ss_cleared (sess_at w s) then w
     else let w = refuse_requests s (upd_sess s (\<lambda>x. x\<lparr>ss_cleared := True\<rparr>) w); x = sess_at w s;
         w = emit (Db_Return (ss_user x)) w;
         (ok, w) = clear_session_vlans (ss_id x) w;
         w = fold (close_link s) (ss_links x) w;
         w = fold (close_component s) (ss_components x) w;
         w = clear_mapping s (refuse_observers s w)
       in upd_sess s (\<lambda>x. x\<lparr>ss_begin_req := None\<rparr>) (emit (clear_script x) w))"

definition check_for_expired_sessions :: "crd_database \<Rightarrow> crd \<Rightarrow> crd" where
  "check_for_expired_sessions db w = (case db_expired db of None \<Rightarrow> w
     | Some users \<Rightarrow> fold (\<lambda>u w. case sm_get_session_user u w of None \<Rightarrow> w
         | Some s \<Rightarrow> crd_session_clear s (session_expired s w)) users w)"

section \<open>Starting a session\<close>

text \<open>A component that another session still has ends that session.\<close>

definition sm_add_component :: "cptr \<Rightarrow> sptr \<Rightarrow> crd \<Rightarrow> crd option" where
  "sm_add_component c s w = (let w = comp_set_session c s w in
     if comp_is_virtual c w then Some w
     else do {
       w \<leftarrow> (case find (\<lambda>d. cname d w = cname c w) (active_components w) of None \<Rightarrow> Some w
         | Some d \<Rightarrow> do { old \<leftarrow> cc_sess (comp_at w d); Some (crd_session_clear old (session_expired old w)) });
       Some (w\<lparr>active_components := active_components w @ [c]\<rparr>) })"

definition answer_clusters :: "sptr \<Rightarrow> crd \<Rightarrow> crd" where
  "answer_clusters s w = upd_sess s (\<lambda>x. x\<lparr>ss_cluster_reqs := []\<rparr>)
     (fold (\<lambda>r. emit (Cluster_Response r (if testing w then NCCP_Status_Testing else NCCP_Status_Fine) (comp_id (rc_comp r))))
       (ss_cluster_reqs (sess_at w s)) w)"

text \<open>What a component takes over from its request and from the topology.\<close>

definition equip_component :: "session_add_component_req \<Rightarrow> string \<Rightarrow> string \<Rightarrow> cptr \<Rightarrow> crd \<Rightarrow> crd" where
  "equip_component r name extip c w =
    (let w = comp_add_init_params c (ac_init_params r) (comp_add_reboot_params c (ac_reboot_params r)
           (upd_comp c (\<lambda>x. x\<lparr>cc_comp := rc_comp r\<rparr>) w))
     in upd_comp c (\<lambda>x. x\<lparr>cc_ip_addr := c_str (ac_ipaddr r), cc_devip := (if extip = '''' then name else extip),
       cc_cores := ac_cores r, cc_memory := ac_mem r\<rparr>) w)"

definition commit_component :: "crd_database \<Rightarrow> sptr \<Rightarrow> session_add_component_req \<Rightarrow> crd \<Rightarrow> crd option" where
  "commit_component db s r w = (let i = comp_id (rc_comp r); name = of_topo (topo_get_component i) s w;
       (found, w) = sm_get_component (db_node_info db name) name (of_topo (get_vmid i) s w) w in do {
     c \<leftarrow> found;
     let w = equip_component r name (of_topo (get_extip i) s w) c w;
     let w = upd_sess s (\<lambda>x. x\<lparr>ss_components := ss_components x @ [c]\<rparr>) w;
     let (admin, w) = comp_is_admin_mode c w;
     if admin \<and> \<not> db_is_admin db (ss_user (sess_at w s))
     then Some (emit (component_failed r) (upd_comp c (\<lambda>x. x\<lparr>cc_compreq := None\<rparr>) w))
     else do {
       w \<leftarrow> sm_add_component c s w;
       Some (upd_comp c (\<lambda>x. x\<lparr>cc_compreq := Some r\<rparr>) w) } })"

fun commit_components :: "crd_database \<Rightarrow> sptr \<Rightarrow> session_add_component_req list \<Rightarrow> crd \<Rightarrow> crd option" where
  "commit_components db s [] w = Some w"
| "commit_components db s (r # rs) w = do {
     w \<leftarrow> commit_component db s r (upd_sess s (\<lambda>x. x\<lparr>ss_component_reqs := rs\<rparr>) w);
     commit_components db s rs w }"

text \<open>The two sides of a cluster: a component and the last other one of its cluster.\<close>

definition other_side :: "cptr \<Rightarrow> cptr list \<Rightarrow> crd \<Rightarrow> cptr option" where
  "other_side c cs w = find (\<lambda>d. cc_cluster_name (comp_at w d) = cc_cluster_name (comp_at w c)) (takeWhile (\<lambda>d. d \<noteq> c) (rev cs))"

definition set_cluster_of :: "cptr list \<Rightarrow> cptr \<Rightarrow> crd \<Rightarrow> crd" where
  "set_cluster_of cs c w = (if cc_cluster_name (comp_at w c) = '''' then w
     else case other_side c cs w of None \<Rightarrow> w
       | Some d \<Rightarrow> upd_comp d (setDependentComp (cname c w)) (upd_comp c (setDependentComp (cname d w)) w))"

definition set_clusters :: "sptr \<Rightarrow> crd \<Rightarrow> crd" where
  "set_clusters s w = (let cs = ss_components (sess_at w s) in fold (set_cluster_of cs) cs w)"

section \<open>The links of a session\<close>

text \<open>The components at the ends of a link: the last ones with their labels.\<close>

definition comp_label_of :: "cptr \<Rightarrow> crd \<Rightarrow> u32" where
  "comp_label_of c w = comp_id (cc_comp (comp_at w c))"

definition find_end :: "u32 \<Rightarrow> cptr list \<Rightarrow> crd \<Rightarrow> cptr option" where
  "find_end i cs w = find (\<lambda>c. comp_label_of c w = i) (rev cs)"

fun link_switch_ports :: "crd_database \<Rightarrow> int list \<Rightarrow> switch_port list" where
  "link_switch_ports db [] = []"
| "link_switch_ports db (i # is) = (let (p1, p2) = db_switch_ports db i in
     (if c_str (sp_switchid p1) = '''' then [] else [p1]) @ (if c_str (sp_switchid p2) = '''' then [] else [p2]) @
     link_switch_ports db is)"

definition equip_link :: "crd_database \<Rightarrow> sptr \<Rightarrow> session_add_link_req \<Rightarrow> crd \<Rightarrow> crd_link \<Rightarrow> crd_link" where
  "equip_link db s r w x = (let i = comp_id (rc_comp r) in
     x\<lparr>ck_comp := rc_comp r,
       ck_p1 := (ck_p1 x)\<lparr>ep_rport := of_int (of_topo (get_realport i 1) s w), ep_cap := of_int (of_topo (topo_get_capacity i 1) s w),
         ep_mac := of_topo (get_macaddr i 1) s w\<rparr>,
       ck_p2 := (ck_p2 x)\<lparr>ep_rport := of_int (of_topo (get_realport i 2) s w), ep_cap := of_int (of_topo (topo_get_capacity i 2) s w),
         ep_mac := of_topo (get_macaddr i 1) s w\<rparr>,
       ck_switch_ports := link_switch_ports db (of_topo (get_conns i []) s w), ck_sess := Some s, ck_linkreq := Some r\<rparr>)"

definition commit_link :: "crd_database \<Rightarrow> sptr \<Rightarrow> session_add_link_req \<Rightarrow> crd \<Rightarrow> crd option" where
  "commit_link db s r w = (let cs = ss_components (sess_at w s) in do {
     c1 \<leftarrow> find_end (from_id r) cs w;
     c2 \<leftarrow> find_end (to_id r) cs w;
     let (x, w) = crd_link_new c1 (le_port (al_from r)) c2 (le_port (al_to r)) w;
     let (k, w) = new_clink (equip_link db s r w x) w;
     let w = comp_add_link c2 k (comp_add_link c1 k w);
     Some (upd_sess s (\<lambda>x. x\<lparr>ss_links := ss_links x @ [k],
       ss_unreported_links := ss_unreported_links x @ [comp_id (rc_comp r)]\<rparr>) w) })"

fun commit_links :: "crd_database \<Rightarrow> sptr \<Rightarrow> session_add_link_req list \<Rightarrow> crd \<Rightarrow> crd option" where
  "commit_links db s [] w = Some w"
| "commit_links db s (r # rs) w = do {
     w \<leftarrow> commit_link db s r (upd_sess s (\<lambda>x. x\<lparr>ss_link_reqs := rs\<rparr>) w);
     commit_links db s rs w }"

section \<open>The VLANs of virtual switches\<close>

definition comp_marked :: "cptr \<Rightarrow> crd \<Rightarrow> bool" where
  "comp_marked c w \<longleftrightarrow> cc_mark (comp_at w c)"

definition mark_comp :: "cptr \<Rightarrow> crd \<Rightarrow> crd" where
  "mark_comp c = upd_comp c (\<lambda>x. x\<lparr>cc_mark := True\<rparr>)"

definition comp_set_vlan :: "cptr \<Rightarrow> vptr \<Rightarrow> crd \<Rightarrow> crd" where
  "comp_set_vlan c v = upd_comp c (\<lambda>x. if cc_class x = Virtual_Switch then x\<lparr>cc_vlan := Some v\<rparr> else x)"

definition comp_set_vlan_allocated :: "cptr \<Rightarrow> crd \<Rightarrow> crd" where
  "comp_set_vlan_allocated c = upd_comp c (\<lambda>x. if cc_class x = Virtual_Switch then x\<lparr>cc_alloc_vlan := True\<rparr> else x)"

definition other_end :: "cptr \<Rightarrow> kptr \<Rightarrow> crd \<Rightarrow> cptr" where
  "other_end c k w = (let x = clink_at w k; d = ep_comp (ck_p1 x) in
     if cname d w = cname c w then ep_comp (ck_p2 x) else d)"

definition take_vlan :: "vptr \<Rightarrow> kptr \<Rightarrow> crd \<Rightarrow> crd" where
  "take_vlan v k w = link_set_vlan v k (upd_clink k (\<lambda>x. x\<lparr>ck_mark := True\<rparr>) w)"

text \<open>\<^verbatim>\<open>set_vlans\<close> with its stack: of each call, the component and the links that it still has to look at.\<close>

partial_function (option) set_vlans_loop :: "vptr \<Rightarrow> (cptr \<times> kptr list) list \<Rightarrow> crd \<Rightarrow> crd option" where
  "set_vlans_loop v stack w = (case stack of
     [] \<Rightarrow> Some w
   | (c, []) # stack \<Rightarrow> set_vlans_loop v stack w
   | (c, k # ks) # stack \<Rightarrow>
       if ck_mark (clink_at w k) then set_vlans_loop v ((c, ks) # stack) w
       else let w = take_vlan v k w; d = other_end c k w in
         if comp_marked d w then set_vlans_loop v ((c, ks) # stack) w
         else if comp_type_of d w = ''vgige''
         then set_vlans_loop v ((d, cc_links (comp_at w d)) # (c, ks) # stack) (comp_set_vlan d v (mark_comp d w))
         else set_vlans_loop v ((c, ks) # stack) (mark_comp d w))"

definition set_vlans :: "cptr \<Rightarrow> vptr \<Rightarrow> crd \<Rightarrow> crd option" where
  "set_vlans c v w = set_vlans_loop v [(c, cc_links (comp_at w c))] (comp_set_vlan c v (mark_comp c w))"

definition switch_vlan_of :: "sptr \<Rightarrow> cptr \<Rightarrow> crd \<Rightarrow> crd option" where
  "switch_vlan_of s c w = (if comp_marked c w \<or> comp_type_of c w \<noteq> ''vgige'' then Some w
     else let (v, w) = sm_add_vlan (ss_id (sess_at w s)) w in
       if vlanid (vlan_at w v) = 0 then Some w else set_vlans c v (comp_set_vlan_allocated c w))"

fun switch_vlans :: "sptr \<Rightarrow> cptr list \<Rightarrow> crd \<Rightarrow> crd option" where
  "switch_vlans s [] w = Some w"
| "switch_vlans s (c # cs) w = do { w \<leftarrow> switch_vlan_of s c w; switch_vlans s cs w }"

definition link_vlans :: "sptr \<Rightarrow> crd \<Rightarrow> crd" where
  "link_vlans s w = fold (\<lambda>k w. if ck_mark (clink_at w k) then w else snd (allocate_vlan k w)) (ss_links (sess_at w s)) w"

section \<open>Commit\<close>

fun initialize_components :: "cptr list \<Rightarrow> crd \<Rightarrow> crd option" where
  "initialize_components [] w = Some w"
| "initialize_components (c # cs) w = do {
     w \<leftarrow> (if ignored w (cname c w) then Some w else comp_initialize c w);
     initialize_components cs w }"

text \<open>\<open>prepare_session\<close>: everything between the answer of the database and the threads.\<close>

definition prepare_session :: "crd_database \<Rightarrow> sptr \<Rightarrow> crd \<Rightarrow> crd option" where
  "prepare_session db s w = do {
     let w = answer_clusters s w;
     w \<leftarrow> commit_components db s (ss_component_reqs (sess_at w s)) w;
     let w = set_clusters s w;
     w \<leftarrow> commit_links db s (ss_link_reqs (sess_at w s)) w;
     let w = check_for_expired_sessions db w;
     w \<leftarrow> switch_vlans s (ss_components (sess_at w s)) w;
     Some (link_vlans s w) }"

definition session_commit :: "crd_database \<Rightarrow> (crd \<Rightarrow> crd) list \<Rightarrow> sptr \<Rightarrow> crd \<Rightarrow> (bool \<times> crd) option" where
  "session_commit db env s w = (if ss_cleared (sess_at w s) then Some (False, w)
     else do {
       b \<leftarrow> ss_begin_req (sess_at w s);
       (all, w) \<leftarrow> wait_requests (bs_num_reqs b) s 0 env w;
       if \<not> all then Some (False, w)
       else let (ok, w) = sm_assign_resources db s (build_topology db s w) in
         if \<not> ok then Some (False, w)
         else do {
           w \<leftarrow> prepare_session db s w;
           w \<leftarrow> initialize_components (ss_components (sess_at w s)) w;
           Some (True, write_mapping s w) } })"

end
