(* ===== verification/Crd_Properties.thy ===== *)
theory Crd_Properties
  imports Crd_Link_Progress Crd_Session
begin

text \<open>The properties of the resource daemon.\<close>

section \<open>The links of a session\<close>

lemma commit_link_built:
  assumes "commit_link db s r w = Some w'"
  shows "ss_links (sess_at w' s) = ss_links (sess_at w s) @ [clink_count w]"
    "ss_unreported_links (sess_at w' s) = ss_unreported_links (sess_at w s) @ [comp_id (rc_comp r)]"
    "ss_vlans_created (sess_at w' s) = ss_vlans_created (sess_at w s)" "clink_count w' = Suc (clink_count w)"
    "w_threads w' = w_threads w" "w_log w' = w_log w"
    "\<exists>x. clink_at w' = (clink_at w)(clink_count w := x) \<and> ck_state x = ''new'' \<and> ck_sess x = Some s \<and> ck_linkreq x = Some r \<and>
       \<not> ck_needs_refresh x \<and> ck_comp x = rc_comp r"
  using assms by (auto simp: commit_link_def Let_def crd_link_new_def new_vlan_def new_clink_def comp_add_link_def upd_comp_def upd_sess_def
      equip_link_def split: bind_splits)

definition fresh_link :: "sptr \<Rightarrow> session_add_link_req \<Rightarrow> crd_link \<Rightarrow> bool" where
  "fresh_link s r x \<longleftrightarrow> ck_state x = ''new'' \<and> ck_sess x = Some s \<and> ck_linkreq x = Some r \<and> \<not> ck_needs_refresh x \<and> ck_comp x = rc_comp r"

definition links_built :: "sptr \<Rightarrow> session_add_link_req list \<Rightarrow> crd \<Rightarrow> crd \<Rightarrow> bool" where
  "links_built s rs w w' \<longleftrightarrow>
     ss_links (sess_at w' s) = ss_links (sess_at w s) @ [clink_count w..<clink_count w + length rs] \<and>
     ss_unreported_links (sess_at w' s) = ss_unreported_links (sess_at w s) @ map (\<lambda>r. comp_id (rc_comp r)) rs \<and>
     ss_vlans_created (sess_at w' s) = ss_vlans_created (sess_at w s) \<and> w_threads w' = w_threads w \<and> w_log w' = w_log w \<and>
     clink_count w' = clink_count w + length rs \<and> (\<forall>k < clink_count w. clink_at w' k = clink_at w k) \<and>
     (\<forall>i < length rs. fresh_link s (rs ! i) (clink_at w' (clink_count w + i)))"

lemma links_built_cons:
  assumes one: "commit_link db s r (upd_sess s (\<lambda>x. x\<lparr>ss_link_reqs := rs\<rparr>) w) = Some w1" and rest: "links_built s rs w1 w'"
  shows "links_built s (r # rs) w w'"
proof -
  note o = commit_link_built [OF one]
  let ?n = "clink_count w"
  have u: "clink_count (upd_sess s f w) = ?n" "w_threads (upd_sess s f w) = w_threads w" "w_log (upd_sess s f w) = w_log w"
    "clink_at (upd_sess s f w) = clink_at w" for f by (simp_all add: upd_sess_def)
  have x: "fresh_link s r (clink_at w1 ?n)" "\<forall>k. k \<noteq> ?n \<longrightarrow> clink_at w1 k = clink_at w k"
    using o(7) by (auto simp: fresh_link_def u)
  have n1: "clink_count w1 = Suc ?n" using o(4) by (simp add: u)
  have "fresh_link s ((r # rs) ! i) (clink_at w' (?n + i))" if "i < length (r # rs)" for i
    using that rest x(1) n1 by (cases i) (auto simp: links_built_def)
  moreover have "\<forall>k < ?n. clink_at w' k = clink_at w k" using rest x(2) n1 by (simp add: links_built_def)
  moreover have "[?n..<?n + length (r # rs)] = ?n # [Suc ?n..<Suc ?n + length rs]"
    using upt_conv_Cons [of ?n "?n + length (r # rs)"] by simp
  ultimately show ?thesis using rest o(1-6) n1 unfolding links_built_def by (simp add: u)
qed

lemma commit_links_built: "commit_links db s rs w = Some w' \<Longrightarrow> links_built s rs w w'"
proof (induction rs arbitrary: w)
  case Nil
  then show ?case by (simp add: links_built_def)
next
  case (Cons r rs)
  then obtain w1 where "commit_link db s r (upd_sess s (\<lambda>x. x\<lparr>ss_link_reqs := rs\<rparr>) w) = Some w1" "commit_links db s rs w1 = Some w'"
    by (auto split: bind_splits)
  then show ?case using Cons.IH links_built_cons by blast
qed

text \<open>The links can be built when the ends of every link are among the components of the session.\<close>

definition session_labels :: "sptr \<Rightarrow> crd \<Rightarrow> u32 set" where
  "session_labels s w = (\<lambda>c. comp_label_of c w) ` set (ss_components (sess_at w s))"

lemma find_end_some: "find_end i cs w \<noteq> None \<longleftrightarrow> i \<in> (\<lambda>c. comp_label_of c w) ` set cs"
  by (auto simp: find_end_def find_None_iff)

lemma commit_link_defined:
  "commit_link db s r w \<noteq> None \<longleftrightarrow> from_id r \<in> session_labels s w \<and> to_id r \<in> session_labels s w"
  using find_end_some [of "from_id r" "ss_components (sess_at w s)" w] find_end_some [of "to_id r" "ss_components (sess_at w s)" w]
  by (auto simp: commit_link_def session_labels_def Let_def split_beta split: bind_splits)

lemma commit_link_labels:
  assumes "commit_link db s r w = Some w'"
  shows "session_labels s w' = session_labels s w"
proof -
  have "\<And>c. comp_label_of c w' = comp_label_of c w" "ss_components (sess_at w' s) = ss_components (sess_at w s)"
    using assms by (auto simp: commit_link_def Let_def crd_link_new_def new_vlan_def new_clink_def comp_add_link_def upd_comp_def
      upd_sess_def comp_label_of_def split: bind_splits)
  then show ?thesis by (simp add: session_labels_def)
qed

lemma labels_upd [simp]: "session_labels s (upd_sess s (\<lambda>x. x\<lparr>ss_link_reqs := rs\<rparr>) w) = session_labels s w"
  by (simp add: session_labels_def upd_sess_def comp_label_of_def)

lemma commit_links_defined:
  "commit_links db s rs w \<noteq> None \<longleftrightarrow> (\<forall>r \<in> set rs. from_id r \<in> session_labels s w \<and> to_id r \<in> session_labels s w)"
proof (induction rs arbitrary: w)
  case (Cons r rs)
  let ?w = "upd_sess s (\<lambda>x. x\<lparr>ss_link_reqs := rs\<rparr>) w"
  show ?case
  proof (cases "commit_link db s r ?w")
    case None
    then show ?thesis using commit_link_defined [of db s r ?w] by auto
  next
    case (Some w1)
    then have "session_labels s w1 = session_labels s w" using commit_link_labels [OF Some] by simp
    moreover have "from_id r \<in> session_labels s w \<and> to_id r \<in> session_labels s w" using commit_link_defined [of db s r ?w] Some by simp
    ultimately show ?thesis using Cons.IH [of w1] Some by simp
  qed
qed simp

lemma commit_links_committed:
  assumes "commit_links db s rs w = Some w'" "distinct (map (\<lambda>r. comp_id (rc_comp r)) rs)" "w_threads w = []"
    "ss_links (sess_at w s) = []" "ss_unreported_links (sess_at w s) = []" "\<not> ss_vlans_created (sess_at w s)"
    "\<forall>r \<in> set rs. answers r w = 0"
  shows "links_committed s [clink_count w..<clink_count w + length rs] (\<lambda>k. rs ! (k - clink_count w)) w'"
proof -
  let ?n = "clink_count w" let ?ks = "[?n..<?n + length rs]" let ?req = "\<lambda>k. rs ! (k - ?n)"
  note b = commit_links_built [OF assms(1)]
  have f: "fresh_link s (?req k) (clink_at w' k)" if "k \<in> set ?ks" for k
    using b that unfolding links_built_def by (metis add.commute add_diff_inverse_nat atLeastLessThan_iff
        less_diff_conv2 not_less set_upt)
  have id: "link_id w' k = comp_id (rc_comp (?req k))" if "k \<in> set ?ks" for k
    using f [OF that] by (simp add: link_id_def fresh_link_def)
  have m: "map (link_id w') ?ks = map (\<lambda>r. comp_id (rc_comp r)) rs"
    by (rule nth_equalityI) (simp_all add: id)
  then have d: "distinct (map (link_id w') ?ks)" using assms(2) by simp
  have "inj_on (\<lambda>k. comp_id (rc_comp (?req k))) (set ?ks)"
    using d id unfolding distinct_map inj_on_def by simp
  then have "inj_on ?req (set ?ks)" unfolding inj_on_def by metis
  moreover have "inj_on (link_id w') (set ?ks)" using d by (simp add: distinct_map)
  moreover have "answers (?req k) w' = 0" if "k \<in> set ?ks" for k
  proof -
    have "?req k \<in> set rs" using that by auto
    then show ?thesis using assms(7) b by (simp add: answers_def links_built_def)
  qed
  ultimately show ?thesis
    using f b assms(3-6) m unfolding links_committed_def by (simp add: fresh_link_def links_built_def)
qed

section \<open>A daemon with two machines and two links\<close>

definition sample_end :: "u32 \<Rightarrow> link_end" where
  "sample_end i = \<lparr>le_comp = component_of ''pc'' i, le_port = 0, le_ip = nstr_of '''', le_subnet = nstr_of '''',
     le_nhip = nstr_of '''', le_cap = 1000\<rparr>"

definition sample_request :: "u32 \<Rightarrow> session_add_link_req" where
  "sample_request i = blank_request \<lparr>rc_expinfo = \<lparr>ei_ID = nstr_of '''', ei_expName = nstr_of '''', ei_userName = nstr_of ''''\<rparr>,
     rc_comp = component_of ''link'' i, al_from = sample_end 1, al_to = sample_end 2, al_bandwidth = 0\<rparr>"

definition sample_database :: crd_database where
  "sample_database = \<lparr>db_virtual_port = (\<lambda>_. False), db_capacity = (\<lambda>_ _. 1000),
     db_switch_ports = (\<lambda>_. (switch_port_new, switch_port_new)), db_is_admin = (\<lambda>_. False), db_node_info = (\<lambda>_. None),
     db_assign = (\<lambda>_ t st. ((1, ''''), t, st)), db_expired = None\<rparr>"

definition machine :: "u32 \<Rightarrow> crd_component" where
  "machine i = (crd_component_new ''pc1'' '''' 0 False False)\<lparr>cc_comp := component_of ''pc'' i, cc_sess := Some 0\<rparr>"

definition sample_link :: crd_link where
  "sample_link = (let e = \<lparr>ep_comp = 0, ep_port = 0, ep_rport = 0, ep_cap = 0, ep_mac = ''''\<rparr> in
     \<lparr>ck_p1 = e, ck_p2 = e, ck_comp = component_new, ck_switch_ports = [], ck_state = ''new'', ck_needs_refresh = False,
      ck_sess = None, ck_linkreq = None, ck_num_comps_done = 0, ck_vlan = 0, ck_alloc_vlan = True, ck_mark = False,
      ck_vlan_status = NCCP_Status_OperationIncomplete\<rparr>)"

text \<open>\<open>up\<close> tells which of the threads that are asked for can be made.\<close>

definition sample_daemon :: "(nat \<Rightarrow> bool) \<Rightarrow> crd" where
  "sample_daemon up = \<lparr>comp_at = (\<lambda>c. machine (if c = 0 then 1 else 2)), clink_at = (\<lambda>_. sample_link),
     sess_at = (\<lambda>_. (crd_session_new 1 ''ann'' 0)\<lparr>ss_components := [0, 1]\<rparr>), vlan_at = (\<lambda>_. \<lparr>vlanid = 0, is_deleted = False\<rparr>),
     comp_count = 2, clink_count = 0, sess_count = 1, vlan_count = 0, res_store = empty_store, num_ports_on_vlan = (\<lambda>_. None),
     outstanding_ports = [], active_components = [0, 1], refreshing_components = [], keeboot_params = (\<lambda>_. None),
     active_sessions = [0], next_session_id = 2, initializing = False, testing = True, test_vlan = 0, w_log = [], w_threads = [],
     o_state = (\<lambda>_. ''free''), o_dependent = (\<lambda>_. ''free''),
     o_answer = (\<lambda>_. \<lparr>an_answered = True, an_status = NCCP_Status_Fine, an_vlan = 1, an_vmname = ''''\<rparr>), o_connect = (\<lambda>_. True),
     o_up = (\<lambda>_. True), o_thread = up, db_type = (\<lambda>_. ''pc''), ignored = (\<lambda>_. False), install_link = (\<lambda>_. False)\<rparr>"

definition sample_session :: "u32 list \<Rightarrow> (nat \<Rightarrow> bool) \<Rightarrow> crd" where
  "sample_session is up = the (commit_links sample_database 0 (map sample_request is) (sample_daemon up))"

lemma sample_session_commit:
  "commit_links sample_database 0 [sample_request 7, sample_request 8] (sample_daemon up) = Some (sample_session [7, 8] up)"
proof -
  have "commit_links sample_database 0 [sample_request 7, sample_request 8] (sample_daemon up) \<noteq> None"
    unfolding commit_links_defined
    by (simp add: session_labels_def sample_daemon_def crd_session_new_def comp_label_of_def machine_def component_of_def
      sample_request_def blank_request_def sample_end_def from_id_def to_id_def)
  then show ?thesis by (auto simp: sample_session_def)
qed

lemma sample_committed:
  "links_committed 0 [0, 1] (\<lambda>k. [sample_request 7, sample_request 8] ! k) (sample_session [7, 8] up)"
proof -
  have "links_committed 0 [0..<0 + length [sample_request 7, sample_request 8]] (\<lambda>k. [sample_request 7, sample_request 8] ! (k - 0))
      (sample_session [7, 8] up)"
    using commit_links_committed [OF sample_session_commit [of up]]
    by (simp add: sample_daemon_def crd_session_new_def answers_def sample_request_def blank_request_def component_of_def)
  then show ?thesis by (simp add: upt_rec)
qed

text \<open>C31: when every link of a session ends at components of the session and no two have the same label, the links are built:
  every link is new and knows its session and its request, and the session waits for the report of every one of them, which
  is what the protocol of the links starts from.
\<close>

theorem session_links_built:
  assumes "\<forall>r \<in> set rs. from_id r \<in> session_labels s w \<and> to_id r \<in> session_labels s w"
    "distinct (map (\<lambda>r. comp_id (rc_comp r)) rs)" "w_threads w = []"
    "ss_links (sess_at w s) = []" "ss_unreported_links (sess_at w s) = []" "\<not> ss_vlans_created (sess_at w s)"
    "\<forall>r \<in> set rs. answers r w = 0"
  shows "\<exists>w'. commit_links db s rs w = Some w' \<and>
    links_committed s [clink_count w..<clink_count w + length rs] (\<lambda>k. rs ! (k - clink_count w)) w'"
proof -
  obtain w' where w': "commit_links db s rs w = Some w'" using assms(1) commit_links_defined [of db s rs w] by auto
  then show ?thesis using commit_links_committed [OF w' assms(2-7)] by blast
qed

theorem session_links_built_witness:
  "\<exists>w'. commit_links sample_database 0 [sample_request 7, sample_request 8] (sample_daemon (\<lambda>_. True)) = Some w' \<and>
    links_committed 0 [0..<0 + 2] (\<lambda>k. [sample_request 7, sample_request 8] ! (k - 0)) w'"
proof -
  have "clink_count (sample_daemon (\<lambda>_. True)) = 0" "length [sample_request 7, sample_request 8] = 2"
    by (simp_all add: sample_daemon_def)
  then show ?thesis
    using session_links_built [of "[sample_request 7, sample_request 8]" 0 "sample_daemon (\<lambda>_. True)" sample_database]
    by (simp add: sample_daemon_def session_labels_def comp_label_of_def machine_def crd_session_new_def answers_def sample_request_def
      blank_request_def component_of_def sample_end_def from_id_def to_id_def)
qed

text \<open>a link of which one end is not a component of the session, for example the label of a cluster, which the topology
  accepts, makes \<^verbatim>\<open>commit\<close> follow a null pointer.
\<close>

lemma link_to_nowhere:
  assumes "r \<in> set rs" "from_id r \<notin> session_labels s w \<or> to_id r \<notin> session_labels s w"
  shows "commit_links db s rs w = None"
  using assms commit_links_defined [of db s rs w] by auto

lemma link_to_nowhere_example:
  "commit_links sample_database 0 [sample_request 7, sample_request 8] ((sample_daemon (\<lambda>_. True))\<lparr>comp_at := \<lambda>_. machine 1\<rparr>) = None"
  by (rule link_to_nowhere [of "sample_request 7"])
    (simp_all add: session_labels_def sample_daemon_def crd_session_new_def comp_label_of_def machine_def component_of_def
      sample_request_def blank_request_def sample_end_def from_id_def to_id_def)

section \<open>The protocol of the links\<close>

text \<open>C6: whatever the order in which the threads of a session's links run, whatever is answered to them and whenever the session
  is closed, no thread follows a null pointer and no request is answered twice.
\<close>

theorem links_safe:
  assumes "links_committed s ks req w" "(link_step (set ks))\<^sup>*\<^sup>* w w'" "w_threads w' = ts @ (a # as) # ts'" "k \<in> set ks"
  shows "link_act a w' \<noteq> None \<and> answers (req k) w' \<le> 1"
proof -
  have inv: "link_inv s ks req w'" by (rule links.reach [OF assms(2) links_committed_inv [OF assms(1)]])
  then show ?thesis using act_inv [OF inv assms(3)] answers_le [OF inv assms(4)] by (auto simp: act_keeps_def)
qed

text \<open>C30: the threads of the links come to an end: from any state they can take at most \<open>work\<close> steps, a number that is
  known beforehand.
\<close>

theorem links_end:
  assumes "links_committed s ks req w0" "(link_step (set ks))\<^sup>*\<^sup>* w0 w" "(thread_step ^^ n) w w'"
  shows "n + work (length ks) w' \<le> work (length ks) w"
  by (rule threads.bound [OF assms(3) links.reach [OF assms(2) links_committed_inv [OF assms(1)]]])

text \<open>C2: when all links of a session have started, each with its thread, and the session is not closed, then every request is
  answered: the threads can run until none has anything left to do, and however they get there, each request has its
  response then.
\<close>

theorem links_answered:
  assumes "links_committed s ks req w0" "(calm_step (set ks))\<^sup>*\<^sup>* w0 w" "\<forall>k \<in> set ks. ck_state (clink_at w k) \<noteq> ''new''"
  shows "(\<exists>w'. thread_step\<^sup>*\<^sup>* w w' \<and> pending w' = []) \<and>
    (\<forall>w'. thread_step\<^sup>*\<^sup>* w w' \<and> pending w' = [] \<longrightarrow> (\<forall>k \<in> set ks. answers (req k) w' = 1))"
proof (intro conjI allI impI ballI)
  have inv: "link_inv s ks req w" using calm_reach [OF assms(2,1)] by simp
  then show "\<exists>w'. thread_step\<^sup>*\<^sup>* w w' \<and> pending w' = []" by (rule threads.ends)
  fix w' k assume run: "thread_step\<^sup>*\<^sup>* w w' \<and> pending w' = []" and k: "k \<in> set ks"
  have "(calm_step (set ks))\<^sup>*\<^sup>* w0 w'" using assms(2) thread_steps_calm [of w w' "set ks"] run by simp
  then have "link_inv s ks req w'" "links_live s ks w'" using calm_reach [OF _ assms(1)] by blast+
  moreover have "\<forall>j \<in> set ks. ck_state (clink_at w' j) \<noteq> ''new''" using started.reach [of w w' s ks req] run inv assms(3) by blast
  ultimately show "answers (req k) w' = 1" using links_live_stuck run k by blast
qed

text \<open>C36: the report of a link is lost when another link of the session gives up before it has reported, because it got no thread
  or because the session was closed: the requests of the links that have reported are never answered, nor does the session
  start its VLANs, whatever happens afterwards.
\<close>

theorem links_lost:
  assumes "links_committed s ks req w0" "(link_step (set ks))\<^sup>*\<^sup>* w0 w" "k \<in> set ks" "gave_up s k w"
    "j \<in> set ks" "reported s j w" "(link_step (set ks))\<^sup>*\<^sup>* w w'"
  shows "answers (req j) w' = 0 \<and> \<not> ss_vlans_created (sess_at w' s)"
proof -
  have "link_inv s ks req w" by (rule links.reach [OF assms(2) links_committed_inv [OF assms(1)]])
  then have "link_inv s ks req w' \<and> k \<in> set ks \<and> gave_up s k w' \<and> reported s j w'"
    using given_up.reach [OF assms(7)] assms(4,3,6) by blast
  then show ?thesis using gave_up_unanswered [of s ks req w' k j] assms(5) by blast
qed

text \<open>The two links of the example, before and after their components are done.\<close>

definition two_links :: "(nat \<Rightarrow> bool) \<Rightarrow> crd" where
  "two_links up = (sample_daemon up)
     \<lparr>clink_at := (\<lambda>k. sample_link\<lparr>ck_comp := component_of ''link'' (of_nat k), ck_sess := Some 0,
        ck_linkreq := Some (sample_request (of_nat k))\<rparr>),
      sess_at := (\<lambda>_. (crd_session_new 1 ''ann'' 0)\<lparr>ss_links := [0, 1], ss_unreported_links := [0, 1]\<rparr>)\<rparr>"

lemma sample_request_inj: "sample_request i = sample_request j \<longleftrightarrow> i = j"
  by (simp add: sample_request_def blank_request_def component_of_def)

lemma two_links_committed: "links_committed 0 [0, 1] (\<lambda>k. sample_request (of_nat k)) (two_links up)"
  by (simp add: links_committed_def two_links_def sample_daemon_def link_id_def sample_link_def component_of_def answers_def
      crd_session_new_def sample_request_inj Let_def)

lemmas link_run = component_done_def both_comps_done_def link_initialize_def link_cleanup_reqs_def set_link_state_def upd_clink_def
  upd_sess_def next_thread_def spawn_def emit_def shift_def split_beta Let_def two_links_def sample_daemon_def sample_link_def
  crd_session_new_def component_of_def

definition all_started :: crd where
  "all_started = component_done 1 (component_done 1 (component_done 0 (component_done 0 (two_links (\<lambda>_. True)))))"

lemma all_started_run:
  "w_threads all_started = [[Link_Ports 0, Link_Check 0], [Link_Ports 1, Link_Check 1]]"
  "ck_state (clink_at all_started 0) = ''initializing''" "ck_state (clink_at all_started 1) = ''initializing''"
  by (simp_all add: all_started_def link_run)

lemma component_done_thread: "\<forall>i. o_thread w i \<Longrightarrow> \<forall>i. o_thread (component_done k w) i"
  by (auto simp: component_done_def both_comps_done_def link_initialize_def link_cleanup_reqs_def set_link_state_def upd_clink_def
      next_thread_def spawn_def emit_def shift_def split_beta Let_def split: option.split)

lemma all_started_calm: "(calm_step (set [0, 1]))\<^sup>*\<^sup>* (two_links (\<lambda>_. True)) all_started"
proof -
  have up: "\<forall>i. o_thread (two_links (\<lambda>_. True)) i" by (simp add: two_links_def sample_daemon_def)
  note up1 = component_done_thread [OF up, of 0] note up2 = component_done_thread [OF up1, of 0]
  note up3 = component_done_thread [OF up2, of 1]
  have c: "calm_step (set [0, 1]) w (component_done k w)" if "\<forall>i. o_thread w i" "k = 0 \<or> k = 1" for w and k :: nat
    using that by (intro calm_component) auto
  show ?thesis unfolding all_started_def
    by (rule rtranclp.rtrancl_into_rtrancl [OF rtranclp.rtrancl_into_rtrancl [OF rtranclp.rtrancl_into_rtrancl
        [OF r_into_rtranclp [where r = "calm_step (set [0, 1])", OF c [OF up]] c [OF up1]] c [OF up2]] c [OF up3]]) simp_all
qed

theorem links_safe_witness:
  "link_act (Link_Ports 0) all_started \<noteq> None \<and> answers (sample_request (of_nat 1)) all_started \<le> 1"
  by (rule links_safe [OF two_links_committed calm_steps_link [OF all_started_calm], of "[]"]) (simp_all add: all_started_run)

theorem links_end_witness: "1 + work (length [0, 1 :: nat]) (run_first all_started) \<le> work (length [0, 1 :: nat]) all_started"
proof -
  have inv: "link_inv 0 [0, 1] (\<lambda>k. sample_request (of_nat k)) all_started"
    using calm_reach [OF all_started_calm two_links_committed] by simp
  have "(thread_step ^^ 1) all_started (run_first all_started)" using run_first_step [OF inv all_started_run(1)] by auto
  then show ?thesis by (rule links_end [OF two_links_committed calm_steps_link [OF all_started_calm]])
qed

theorem links_answered_witness:
  "\<exists>w'. thread_step\<^sup>*\<^sup>* all_started w' \<and> answers (sample_request 0) w' = 1 \<and> answers (sample_request 1) w' = 1"
proof -
  have "\<forall>k \<in> set [0, 1]. ck_state (clink_at all_started k) \<noteq> ''new''"
    using all_started_run(2,3) by simp
  from links_answered [OF two_links_committed all_started_calm this]
  obtain w' where "thread_step\<^sup>*\<^sup>* all_started w'" "\<forall>k \<in> set [0, 1]. answers (sample_request (of_nat k)) w' = 1" by blast
  then show ?thesis by (intro exI [of _ w']) simp
qed

text \<open>The second link gets no thread; the first then runs until it has reported.\<close>

definition one_failed :: crd where
  "one_failed = component_done 0 (component_done 0 (component_done 1 (component_done 1 (two_links (\<lambda>i. 0 < i)))))"

lemma one_failed_run:
  "w_threads one_failed = [[Link_Ports 0, Link_Check 0]]" "w_threads (run_first one_failed) = [[Link_Check 0]]"
  "w_threads (run_first (run_first one_failed)) = [[Link_Report 0]]" "w_threads (run_first (run_first (run_first one_failed))) = [[]]"
  by (simp_all add: one_failed_def link_run run_first_def link_ports_def link_check_def link_report_def)

lemma one_failed_state:
  "gave_up 0 1 (run_first (run_first (run_first one_failed)))" "reported 0 0 (run_first (run_first (run_first one_failed)))"
  by (simp_all add: one_failed_def link_run run_first_def link_ports_def link_check_def link_report_def gave_up_def reported_def
      link_id_def tokens_def pending_def)

lemma one_failed_reach:
  "(link_step (set [0, 1]))\<^sup>*\<^sup>* (two_links (\<lambda>i. 0 < i)) (run_first (run_first (run_first one_failed)))"
proof -
  let ?R = "link_step (set [0, 1])"
  have c: "?R w (component_done k w)" if "k = 0 \<or> k = 1" for w and k :: nat
    using that by (intro component) auto
  have r: "?R\<^sup>*\<^sup>* (two_links (\<lambda>i. 0 < i)) one_failed" unfolding one_failed_def
    by (rule rtranclp.rtrancl_into_rtrancl [OF rtranclp.rtrancl_into_rtrancl [OF rtranclp.rtrancl_into_rtrancl
        [OF r_into_rtranclp [where r = "?R", OF c] c] c] c]) simp_all
  have s: "?R\<^sup>*\<^sup>* (two_links (\<lambda>i. 0 < i)) (run_first w)" if "?R\<^sup>*\<^sup>* (two_links (\<lambda>i. 0 < i)) w" "w_threads w = (a # as) # ts" for w a as ts
  proof -
    have "link_inv 0 [0, 1] (\<lambda>k. sample_request (of_nat k)) w"
      by (rule links.reach [OF that(1) links_committed_inv [OF two_links_committed]])
    from run_first_step [OF this that(2)] show ?thesis using that(1) by (meson rtranclp.rtrancl_into_rtrancl thread)
  qed
  show ?thesis by (rule s [OF s [OF s [OF r one_failed_run(1)] one_failed_run(2)] one_failed_run(3)])
qed

theorem links_lost_witness:
  "answers (sample_request (of_nat 0)) (link_refresh 0 (run_first (run_first (run_first one_failed)))) = 0 \<and>
    \<not> ss_vlans_created (sess_at (link_refresh 0 (run_first (run_first (run_first one_failed)))) 0)"
  by (rule links_lost [OF two_links_committed one_failed_reach _ one_failed_state(1) _ one_failed_state(2)])
    (auto intro!: r_into_rtranclp close)

end
