(* ===== verification/Crd_Vlans.thy ===== *)
theory Crd_Vlans
  imports Crd_Properties
begin

text \<open>
  The VLANs of virtual switches (\<^verbatim>\<open>session::set_vlans\<close> in \<^verbatim>\<open>crd/onlcrd_session.cc\<close>): the
  search from one switch returns, on cyclic networks too, and gives its VLAN to exactly the switches it is joined to and to
  their links.
\<close>

section \<open>The network of a session\<close>

definition is_vswitch :: "crd \<Rightarrow> cptr \<Rightarrow> bool" where
  "is_vswitch w c \<longleftrightarrow> comp_type_of c w = ''vgige''"

definition links_of :: "crd \<Rightarrow> cptr \<Rightarrow> kptr set" where
  "links_of w c = set (cc_links (comp_at w c))"

definition ends_of :: "crd \<Rightarrow> kptr \<Rightarrow> cptr set" where
  "ends_of w k = {ep_comp (ck_p1 (clink_at w k)), ep_comp (ck_p2 (clink_at w k))}"

text \<open>\<open>C\<close> and \<open>ks\<close> are the components and links: links join components and are known at their ends, virtual switches have
  objects of their class, and names of their own.\<close>

definition vlan_net :: "cptr set \<Rightarrow> kptr set \<Rightarrow> crd \<Rightarrow> bool" where
  "vlan_net C ks w \<longleftrightarrow> finite ks \<and> (\<forall>k \<in> ks. ends_of w k \<subseteq> C) \<and>
     (\<forall>c \<in> C. links_of w c \<subseteq> ks \<and> (\<forall>k \<in> links_of w c. c \<in> ends_of w k) \<and>
       (is_vswitch w c \<longrightarrow> cc_class (comp_at w c) = Virtual_Switch \<and> (\<forall>d \<in> C. cname d w = cname c w \<longrightarrow> d = c)))"

definition joined :: "crd \<Rightarrow> cptr \<Rightarrow> cptr \<Rightarrow> bool" where
  "joined w c d \<longleftrightarrow> is_vswitch w d \<and> (\<exists>k \<in> links_of w c. other_end c k w = d)"

text \<open>What the search does not change.\<close>

definition same_net :: "crd \<Rightarrow> crd \<Rightarrow> bool" where
  "same_net w w' \<longleftrightarrow> (\<forall>c. is_vswitch w' c = is_vswitch w c \<and> links_of w' c = links_of w c \<and> cname c w' = cname c w \<and>
     cc_links (comp_at w' c) = cc_links (comp_at w c) \<and> cc_class (comp_at w' c) = cc_class (comp_at w c)) \<and>
     (\<forall>k. ck_p1 (clink_at w' k) = ck_p1 (clink_at w k) \<and> ck_p2 (clink_at w' k) = ck_p2 (clink_at w k))"

lemma same_net_refl: "same_net w w"
  by (simp add: same_net_def)

lemma same_net_trans: "same_net w w1 \<Longrightarrow> same_net w1 w2 \<Longrightarrow> same_net w w2"
  unfolding same_net_def by metis

lemma same_net_other_end: "same_net w w' \<Longrightarrow> other_end c k w' = other_end c k w"
  by (simp add: same_net_def other_end_def Let_def)

lemma same_net_take [simp]: "same_net w (take_vlan v k w)"
  by (auto simp: same_net_def take_vlan_def link_set_vlan_def upd_clink_def is_vswitch_def comp_type_of_def links_of_def cname_def
      split: comp_class.splits if_splits)

lemma same_net_mark [simp]: "same_net w (mark_comp d w)"
  by (auto simp: same_net_def mark_comp_def upd_comp_def is_vswitch_def comp_type_of_def links_of_def cname_def
      split: comp_class.splits if_splits)

lemma same_net_set_vlan [simp]: "same_net w (comp_set_vlan d v w)"
  by (auto simp: same_net_def comp_set_vlan_def upd_comp_def is_vswitch_def comp_type_of_def links_of_def cname_def
      split: comp_class.splits if_splits)

section \<open>The marks and VLANs that the search sets\<close>

lemma marks:
  "comp_marked c (mark_comp d w) \<longleftrightarrow> c = d \<or> comp_marked c w" "comp_marked c (comp_set_vlan d v w) = comp_marked c w"
  "comp_marked c (take_vlan v k w) = comp_marked c w" "ck_mark (clink_at (mark_comp d w) j) = ck_mark (clink_at w j)"
  "ck_mark (clink_at (comp_set_vlan d v w) j) = ck_mark (clink_at w j)"
  "ck_mark (clink_at (take_vlan v k w) j) \<longleftrightarrow> j = k \<or> ck_mark (clink_at w j)"
  by (auto simp: comp_marked_def mark_comp_def comp_set_vlan_def take_vlan_def link_set_vlan_def upd_comp_def upd_clink_def)

lemma vlans:
  "cc_vlan (comp_at (mark_comp d w) c) = cc_vlan (comp_at w c)" "cc_vlan (comp_at (take_vlan v k w) c) = cc_vlan (comp_at w c)"
  "cc_vlan (comp_at (comp_set_vlan d v w) c) =
     (if c = d \<and> cc_class (comp_at w d) = Virtual_Switch then Some v else cc_vlan (comp_at w c))"
  "ck_vlan (clink_at (mark_comp d w) j) = ck_vlan (clink_at w j)"
  "ck_vlan (clink_at (comp_set_vlan d v w) j) = ck_vlan (clink_at w j)"
  "ck_vlan (clink_at (take_vlan v k w) j) = (if j = k then v else ck_vlan (clink_at w j))"
  "cc_class (comp_at (mark_comp d w) c) = cc_class (comp_at w c)" "cc_class (comp_at (take_vlan v k w) c) = cc_class (comp_at w c)"
  by (auto simp: mark_comp_def comp_set_vlan_def take_vlan_def link_set_vlan_def upd_comp_def upd_clink_def)

section \<open>The search\<close>

lemma ends_other_end:
  assumes "vlan_net C ks w" and "c \<in> C" and "is_vswitch w c" and "k \<in> links_of w c"
  shows "ends_of w k = {c, other_end c k w} \<and> other_end c k w \<in> C \<and> k \<in> ks"
proof -
  have k: "k \<in> ks" "c \<in> ends_of w k" "ends_of w k \<subseteq> C" using assms unfolding vlan_net_def by blast+
  have own: "d = c" if "d \<in> C" "cname d w = cname c w" for d using assms that unfolding vlan_net_def by blast
  show ?thesis using k own by (auto simp: ends_of_def other_end_def Let_def)
qed

text \<open>\<open>group\<close>: the switches that the search is to find.\<close>

definition group :: "crd \<Rightarrow> cptr \<Rightarrow> cptr set" where
  "group w c = {d. (joined w)\<^sup>*\<^sup>* c d}"

definition group_links :: "crd \<Rightarrow> cptr \<Rightarrow> kptr set" where
  "group_links w c = (\<Union>d \<in> group w c. links_of w d)"

lemma group_props:
  assumes "vlan_net C ks w" and "c \<in> C" and "is_vswitch w c" and "d \<in> group w c"
  shows "d \<in> C \<and> is_vswitch w d"
proof -
  have "(joined w)\<^sup>*\<^sup>* c d" using assms(4) by (simp add: group_def)
  then show ?thesis
  proof induction
    case base
    show ?case using assms by simp
  next
    case (step d e)
    then obtain k where "k \<in> links_of w d" "other_end d k w = e" "is_vswitch w e" by (auto simp: joined_def)
    with step.IH ends_other_end [OF assms(1)] show ?case by blast
  qed
qed

definition vlan_inv :: "cptr \<Rightarrow> vptr \<Rightarrow> crd \<Rightarrow> (cptr \<times> kptr list) list \<Rightarrow> crd \<Rightarrow> bool" where
  "vlan_inv c0 v w0 stack w \<longleftrightarrow> same_net w0 w \<and> comp_marked c0 w \<and>
     (\<forall>(d, js) \<in> set stack. d \<in> group w0 c0 \<and> comp_marked d w \<and> set js \<subseteq> links_of w0 d) \<and>
     (\<forall>d. cc_vlan (comp_at w d) = (if d \<in> group w0 c0 \<and> comp_marked d w then Some v else cc_vlan (comp_at w0 d))) \<and>
     (\<forall>k. ck_vlan (clink_at w k) =
       (if k \<in> group_links w0 c0 \<and> ck_mark (clink_at w k) then v else ck_vlan (clink_at w0 k))) \<and>
     (\<forall>d \<in> group w0 c0. comp_marked d w \<longrightarrow>
       (\<forall>k \<in> links_of w0 d. ck_mark (clink_at w k) \<or> (\<exists>js. (d, js) \<in> set stack \<and> k \<in> set js))) \<and>
     (\<forall>k \<in> group_links w0 c0. ck_mark (clink_at w k) \<longrightarrow> (\<forall>e \<in> ends_of w0 k. is_vswitch w0 e \<longrightarrow> comp_marked e w))"

lemma vlan_invI:
  assumes "same_net w0 w" and "comp_marked c0 w"
    and "\<And>d js. (d, js) \<in> set stack \<Longrightarrow> d \<in> group w0 c0 \<and> comp_marked d w \<and> set js \<subseteq> links_of w0 d"
    and "\<And>d. cc_vlan (comp_at w d) = (if d \<in> group w0 c0 \<and> comp_marked d w then Some v else cc_vlan (comp_at w0 d))"
    and "\<And>k. ck_vlan (clink_at w k) =
       (if k \<in> group_links w0 c0 \<and> ck_mark (clink_at w k) then v else ck_vlan (clink_at w0 k))"
    and "\<And>d k. d \<in> group w0 c0 \<Longrightarrow> comp_marked d w \<Longrightarrow> k \<in> links_of w0 d \<Longrightarrow>
       ck_mark (clink_at w k) \<or> (\<exists>js. (d, js) \<in> set stack \<and> k \<in> set js)"
    and "\<And>k e. k \<in> group_links w0 c0 \<Longrightarrow> ck_mark (clink_at w k) \<Longrightarrow> e \<in> ends_of w0 k \<Longrightarrow> is_vswitch w0 e \<Longrightarrow> comp_marked e w"
  shows "vlan_inv c0 v w0 stack w"
  unfolding vlan_inv_def using assms by blast

lemmas vlan_invD = vlan_inv_def [THEN iffD1]

text \<open>A frame that is done, and a link that is marked, are left.\<close>

lemma vlan_inv_pop: "vlan_inv c0 v w0 ((c, []) # stack) w \<Longrightarrow> vlan_inv c0 v w0 stack w"
  unfolding vlan_inv_def by fastforce

lemma vlan_inv_skip:
  assumes "vlan_inv c0 v w0 ((c, k # js) # stack) w" and "ck_mark (clink_at w k)"
  shows "vlan_inv c0 v w0 ((c, js) # stack) w"
  using assms unfolding vlan_inv_def by fastforce

text \<open>A new link is marked, and so is its other end \<open>d\<close>; a switch that was not marked before is searched next.\<close>

lemma vlan_inv_take:
  assumes net: "vlan_net C ks w0" and c0: "c0 \<in> C" "is_vswitch w0 c0"
    and inv: "vlan_inv c0 v w0 ((c, k # js) # st) w" and d: "d = other_end c k w0" and same: "same_net w w2"
    and mark: "\<And>x. comp_marked x w2 \<longleftrightarrow> x = d \<or> comp_marked x w"
    and vlan: "\<And>x. cc_vlan (comp_at w2 x) = (if x = d \<and> is_vswitch w0 d then Some v else cc_vlan (comp_at w x))"
    and lmark: "\<And>j. ck_mark (clink_at w2 j) \<longleftrightarrow> j = k \<or> ck_mark (clink_at w j)"
    and lvlan: "\<And>j. ck_vlan (clink_at w2 j) = (if j = k then v else ck_vlan (clink_at w j))"
    and st2: "(c, js) \<in> set stack2" "set st \<subseteq> set stack2" "set stack2 \<subseteq> insert (d, cc_links (comp_at w0 d)) (insert (c, js) (set st))"
    and new: "if is_vswitch w0 d \<and> \<not> comp_marked d w then (d, cc_links (comp_at w0 d)) \<in> set stack2
      else set stack2 = insert (c, js) (set st)"
  shows "vlan_inv c0 v w0 stack2 w2"
proof -
  note I = inv [unfolded vlan_inv_def]
  have I1: "same_net w0 w" "comp_marked c0 w" using I by blast+
  have I2: "x \<in> group w0 c0 \<and> comp_marked x w \<and> set ys \<subseteq> links_of w0 x" if "(x, ys) \<in> set ((c, k # js) # st)" for x ys
    using I that by blast
  have I3: "cc_vlan (comp_at w x) = (if x \<in> group w0 c0 \<and> comp_marked x w then Some v else cc_vlan (comp_at w0 x))" for x
    using I by blast
  have I4: "ck_vlan (clink_at w j) = (if j \<in> group_links w0 c0 \<and> ck_mark (clink_at w j) then v
    else ck_vlan (clink_at w0 j))" for j
    using I by blast
  have I5: "comp_marked e w" if "j \<in> group_links w0 c0" "ck_mark (clink_at w j)" "e \<in> ends_of w0 j" "is_vswitch w0 e" for j e
    using I that by blast
  have c: "c \<in> group w0 c0" "comp_marked c w" "k \<in> links_of w0 c" using I2 [of c "k # js"] by auto
  have cC: "c \<in> C" "is_vswitch w0 c" using group_props [OF net c0 c(1)] by auto
  have ends: "ends_of w0 k = {c, d}" using ends_other_end [OF net cC c(3)] by (simp add: d)
  have dg: "d \<in> group w0 c0" if "is_vswitch w0 d"
  proof -
    have "joined w0 c d" using that c(3) by (auto simp: joined_def d)
    then show ?thesis using c(1) by (auto simp: group_def)
  qed
  have gv: "is_vswitch w0 e" if "e \<in> group w0 c0" for e using group_props [OF net c0 that] by simp
  have kg: "k \<in> group_links w0 c0" using c by (auto simp: group_links_def)
  show ?thesis
  proof (rule vlan_invI)
    show "same_net w0 w2" using I1(1) same same_net_trans by blast
    show "comp_marked c0 w2" using I1(2) mark by blast
  next
    fix x ys
    assume "(x, ys) \<in> set stack2"
    moreover have "set stack2 \<subseteq> insert (c, js) (set st)" if "\<not> is_vswitch w0 d" using new that by simp
    ultimately have "is_vswitch w0 d \<and> (x, ys) = (d, cc_links (comp_at w0 d)) \<or> (x, ys) = (c, js) \<or> (x, ys) \<in> set st"
      using st2(3) by blast
    then consider "is_vswitch w0 d" "(x, ys) = (d, cc_links (comp_at w0 d))" | "(x, ys) = (c, js)" | "(x, ys) \<in> set st"
      by blast
    then show "x \<in> group w0 c0 \<and> comp_marked x w2 \<and> set ys \<subseteq> links_of w0 x"
    proof cases
      case 1
      then show ?thesis using dg mark by (simp add: links_of_def)
    next
      case 2
      then show ?thesis using I2 [of c "k # js"] mark by simp
    next
      case 3
      then show ?thesis using I2 [of x ys] mark by simp
    qed
  next
    fix x
    show "cc_vlan (comp_at w2 x) = (if x \<in> group w0 c0 \<and> comp_marked x w2 then Some v else cc_vlan (comp_at w0 x))"
      using I3 [of x] dg gv [of x] by (auto simp: vlan mark)
  next
    fix j
    show "ck_vlan (clink_at w2 j) =
      (if j \<in> group_links w0 c0 \<and> ck_mark (clink_at w2 j) then v else ck_vlan (clink_at w0 j))"
      using I4 [of j] kg by (auto simp: lvlan lmark)
  next
    fix x j
    assume x: "x \<in> group w0 c0" "comp_marked x w2" "j \<in> links_of w0 x"
    show "ck_mark (clink_at w2 j) \<or> (\<exists>js. (x, js) \<in> set stack2 \<and> j \<in> set js)"
    proof (cases "comp_marked x w")
      case True
      with I x have "ck_mark (clink_at w j) \<or> (\<exists>js'. (x, js') \<in> set ((c, k # js) # st) \<and> j \<in> set js')" by blast
      then show ?thesis using st2(1,2) by (auto simp: lmark)
    next
      case False
      with x(2) mark have "x = d" by simp
      with False new gv [OF x(1)] x(3) show ?thesis by (auto simp: links_of_def split: if_splits)
    qed
  next
    fix j e
    assume "j \<in> group_links w0 c0" "ck_mark (clink_at w2 j)" "e \<in> ends_of w0 j" "is_vswitch w0 e"
    then show "comp_marked e w2" using I5 [of j e] ends c(2) by (auto simp: lmark mark)
  qed
qed

text \<open>Every round leaves fewer unmarked links, or as many and less on the stack.\<close>

definition unmarked :: "kptr set \<Rightarrow> crd \<Rightarrow> nat" where
  "unmarked ks w = card {k \<in> ks. \<not> ck_mark (clink_at w k)}"

definition stack_size :: "(cptr \<times> kptr list) list \<Rightarrow> nat" where
  "stack_size stack = sum_list (map (\<lambda>(d, js). Suc (length js)) stack)"

definition search_order :: "kptr set \<Rightarrow> (((cptr \<times> kptr list) list \<times> crd) \<times> ((cptr \<times> kptr list) list \<times> crd)) set" where
  "search_order ks = inv_image (less_than <*lex*> less_than) (\<lambda>(stack, w). (unmarked ks w, stack_size stack))"

lemma search_order_wf: "wf (search_order ks)"
  by (simp add: search_order_def wf_inv_image wf_lex_prod)

lemma search_order_stack:
  "unmarked ks w' = unmarked ks w \<Longrightarrow> stack_size stack' < stack_size stack \<Longrightarrow> ((stack', w'), (stack, w)) \<in> search_order ks"
  by (simp add: search_order_def)

lemma search_order_mark:
  assumes "finite ks" and "k \<in> ks" and "\<not> ck_mark (clink_at w k)"
    and "\<And>j. ck_mark (clink_at w' j) \<longleftrightarrow> j = k \<or> ck_mark (clink_at w j)"
  shows "((stack', w'), (stack, w)) \<in> search_order ks"
proof -
  have "{j \<in> ks. \<not> ck_mark (clink_at w' j)} \<subset> {j \<in> ks. \<not> ck_mark (clink_at w j)}" using assms by auto
  then have "unmarked ks w' < unmarked ks w" unfolding unmarked_def using assms(1) by (simp add: psubset_card_mono)
  then show ?thesis by (simp add: search_order_def)
qed

text \<open>The rounds of the loop for a new link.\<close>

definition after_link :: "vptr \<Rightarrow> cptr \<Rightarrow> kptr \<Rightarrow> kptr list \<Rightarrow> (cptr \<times> kptr list) list \<Rightarrow> crd \<Rightarrow> (cptr \<times> kptr list) list \<times> crd" where
  "after_link v c k js st w = (let w1 = take_vlan v k w; d = other_end c k w1 in
     if comp_marked d w1 then ((c, js) # st, w1)
     else if comp_type_of d w1 = ''vgige'' then ((d, cc_links (comp_at w1 d)) # (c, js) # st, comp_set_vlan d v (mark_comp d w1))
     else ((c, js) # st, mark_comp d w1))"

lemma loop_rounds:
  "set_vlans_loop v [] w = Some w"
  "set_vlans_loop v ((c, []) # st) w = set_vlans_loop v st w"
  "ck_mark (clink_at w k) \<Longrightarrow> set_vlans_loop v ((c, k # js) # st) w = set_vlans_loop v ((c, js) # st) w"
  "\<not> ck_mark (clink_at w k) \<Longrightarrow> after_link v c k js st w = (st', w') \<Longrightarrow>
     set_vlans_loop v ((c, k # js) # st) w = set_vlans_loop v st' w'"
  by (subst set_vlans_loop.simps, simp add: after_link_def Let_def split: if_splits)+

lemma after_link_inv:
  assumes net: "vlan_net C ks w0" and c0: "c0 \<in> C" "is_vswitch w0 c0"
    and inv: "vlan_inv c0 v w0 ((c, k # js) # st) w" and after: "after_link v c k js st w = (st', w')"
  shows "vlan_inv c0 v w0 st' w' \<and> (\<forall>j. ck_mark (clink_at w' j) \<longleftrightarrow> j = k \<or> ck_mark (clink_at w j))"
proof -
  let ?d = "other_end c k w0" and ?w = "take_vlan v k w"
  have same: "same_net w0 w" using inv by (simp add: vlan_inv_def)
  then have same1: "same_net w0 ?w" using same_net_trans same_net_take by blast
  have d: "other_end c k ?w = ?d" by (rule same_net_other_end [OF same1])
  have t: "comp_type_of x ?w = ''vgige'' \<longleftrightarrow> is_vswitch w0 x" and l: "cc_links (comp_at ?w x) = cc_links (comp_at w0 x)" for x
    using same1 by (auto simp: same_net_def is_vswitch_def)
  have cg: "c \<in> group w0 c0" "k \<in> links_of w0 c" using inv by (auto simp: vlan_inv_def)
  have cls: "cc_class (comp_at w ?d) = Virtual_Switch" if "is_vswitch w0 ?d"
  proof -
    have "?d \<in> C" using ends_other_end [OF net] group_props [OF net c0 cg(1)] cg(2) by blast
    then have "cc_class (comp_at w0 ?d) = Virtual_Switch" using net that unfolding vlan_net_def by blast
    then show ?thesis using same by (simp add: same_net_def)
  qed
  have v: "cc_vlan (comp_at w ?d) = Some v" if "is_vswitch w0 ?d" "comp_marked ?d w"
  proof -
    have "?d \<in> group w0 c0"
      using cg that(1) unfolding group_def joined_def by (metis (mono_tags, lifting) mem_Collect_eq rtranclp.rtrancl_into_rtrancl)
    then show ?thesis using inv that(2) by (simp add: vlan_inv_def)
  qed
  note take = vlan_inv_take [OF net c0 inv refl]
  have "vlan_inv c0 v w0 st' w'"
  proof (cases "comp_marked ?d w")
    case True
    then have "st' = (c, js) # st" "w' = ?w" using after by (simp_all add: after_link_def Let_def d marks)
    then show ?thesis using True v by (intro take) (auto simp: marks vlans)
  next
    case False
    show ?thesis
    proof (cases "is_vswitch w0 ?d")
      case True
      then have "st' = (?d, cc_links (comp_at w0 ?d)) # (c, js) # st" "w' = comp_set_vlan ?d v (mark_comp ?d ?w)"
        using after False by (simp_all add: after_link_def Let_def d marks t l)
      moreover have "same_net w (comp_set_vlan ?d v (mark_comp ?d ?w))"
        using same_net_trans same_net_take same_net_mark same_net_set_vlan by metis
      ultimately show ?thesis using True False cls by (intro take) (auto simp: marks vlans)
    next
      case plain: False
      then have "st' = (c, js) # st" "w' = mark_comp ?d ?w"
        using after False by (simp_all add: after_link_def Let_def d marks t)
      moreover have "same_net w (mark_comp ?d ?w)" using same_net_trans same_net_take same_net_mark by metis
      ultimately show ?thesis using plain by (intro take) (auto simp: marks vlans)
    qed
  qed
  moreover have "ck_mark (clink_at w' j) \<longleftrightarrow> j = k \<or> ck_mark (clink_at w j)" for j
    using after by (auto simp: after_link_def Let_def marks split: if_splits)
  ultimately show ?thesis by blast
qed

lemma search_returns:
  assumes net: "vlan_net C ks w0" and c0: "c0 \<in> C" "is_vswitch w0 c0" and inv: "vlan_inv c0 v w0 stack w"
  shows "\<exists>w'. set_vlans_loop v stack w = Some w' \<and> vlan_inv c0 v w0 [] w'"
  using search_order_wf [of ks] inv
proof (induction "(stack, w)" arbitrary: stack w rule: wf_induct_rule)
  case less
  show ?case
  proof (cases stack)
    case Nil
    with less.prems show ?thesis by (simp add: loop_rounds)
  next
    case (Cons f st)
    obtain c js where f: "f = (c, js)" by (cases f)
    show ?thesis
    proof (cases js)
      case Nil
      have "((st, w), (stack, w)) \<in> search_order ks"
        by (rule search_order_stack) (simp_all add: Cons f Nil stack_size_def)
      from less.hyps [OF this] show ?thesis
        using less.prems vlan_inv_pop by (simp add: Cons f Nil loop_rounds)
    next
      case js: (Cons k ks')
      show ?thesis
      proof (cases "ck_mark (clink_at w k)")
        case True
        have "(((c, ks') # st, w), (stack, w)) \<in> search_order ks"
          by (rule search_order_stack) (simp_all add: Cons f js stack_size_def)
        from less.hyps [OF this] show ?thesis
          using less.prems True vlan_inv_skip by (simp add: Cons f js loop_rounds)
      next
        case False
        obtain st2 w2 where after: "after_link v c k ks' st w = (st2, w2)" by force
        have inv: "vlan_inv c0 v w0 ((c, k # ks') # st) w" using less.prems by (simp add: Cons f js)
        note next1 = after_link_inv [OF net c0 inv after]
        have "c \<in> group w0 c0" "k \<in> links_of w0 c" using inv by (auto simp: vlan_inv_def)
        then have k: "k \<in> ks" "finite ks"
          using ends_other_end [OF net] group_props [OF net c0] net by (blast, simp add: vlan_net_def)
        have "((st2, w2), (stack, w)) \<in> search_order ks"
          by (rule search_order_mark [OF k(2,1) False]) (use next1 in blast)
        from less.hyps [OF this] show ?thesis
          using next1 loop_rounds(4) [OF False after] by (simp add: Cons f js)
      qed
    qed
  qed
qed

text \<open>Nothing of the group of the first switch may have been searched before.\<close>

definition untouched :: "crd \<Rightarrow> cptr \<Rightarrow> bool" where
  "untouched w c \<longleftrightarrow> (\<forall>d \<in> group w c. \<not> comp_marked d w) \<and> (\<forall>k \<in> group_links w c. \<not> ck_mark (clink_at w k))"

lemma vlan_start:
  assumes net: "vlan_net C ks w" and c: "c \<in> C" "is_vswitch w c" and new: "untouched w c"
  shows "vlan_inv c v w [(c, cc_links (comp_at w c))] (comp_set_vlan c v (mark_comp c w))"
proof -
  have cg: "c \<in> group w c" by (simp add: group_def)
  have cls: "cc_class (comp_at w c) = Virtual_Switch" using net c unfolding vlan_net_def by blast
  have same: "same_net w (comp_set_vlan c v (mark_comp c w))"
    using same_net_trans same_net_mark same_net_set_vlan by metis
  have off: "\<not> comp_marked d w" if "d \<in> group w c" for d using new that by (simp add: untouched_def)
  have off2: "\<not> ck_mark (clink_at w k)" if "k \<in> group_links w c" for k using new that by (simp add: untouched_def)
  show ?thesis
    by (rule vlan_invI [OF same]) (use cg cls off off2 in \<open>auto simp: marks vlans links_of_def\<close>)
qed

lemma group_searched:
  assumes inv: "vlan_inv c v w [] w'"
  shows "d \<in> group w c \<Longrightarrow> comp_marked d w'" and "k \<in> group_links w c \<Longrightarrow> ck_mark (clink_at w' k)"
proof -
  have links: "ck_mark (clink_at w' k)" if "d \<in> group w c" "comp_marked d w'" "k \<in> links_of w d" for d k
    using inv that by (auto simp: vlan_inv_def)
  show all: "comp_marked d w'" if "d \<in> group w c" for d
  proof -
    have "(joined w)\<^sup>*\<^sup>* c d" using that by (simp add: group_def)
    then show ?thesis
    proof induction
      case base
      show ?case using inv by (simp add: vlan_inv_def)
    next
      case (step d e)
      then obtain k where k: "k \<in> links_of w d" "other_end d k w = e" "is_vswitch w e" by (auto simp: joined_def)
      have d: "d \<in> group w c" using step.hyps(1) by (simp add: group_def)
      have "e \<in> ends_of w k" using k(2) by (auto simp: ends_of_def other_end_def Let_def split: if_splits)
      with inv k links [OF d step.IH k(1)] d show ?case by (auto simp: vlan_inv_def group_links_def)
    qed
  qed
  show "ck_mark (clink_at w' k)" if "k \<in> group_links w c" using that all links by (auto simp: group_links_def)
qed

text \<open>C8: The search for the switches of one VLAN returns, also when links form cycles, and gives the VLAN to exactly the
  virtual switches that the first one is joined to, directly or through others, and to exactly the links of those; every
  other switch and link keeps the VLAN it had.\<close>

theorem switches_share_vlan:
  assumes "vlan_net C ks w" and "c \<in> C" and "is_vswitch w c" and "untouched w c"
  shows "\<exists>w'. set_vlans c v w = Some w' \<and>
    (\<forall>d. cc_vlan (comp_at w' d) = (if d \<in> group w c then Some v else cc_vlan (comp_at w d))) \<and>
    (\<forall>k. ck_vlan (clink_at w' k) = (if k \<in> group_links w c then v else ck_vlan (clink_at w k)))"
proof -
  from search_returns [OF assms(1-3) vlan_start [OF assms]] obtain w' where
    w': "set_vlans c v w = Some w'" "vlan_inv c v w [] w'" by (auto simp: set_vlans_def)
  with group_searched [OF w'(2)] have
    "cc_vlan (comp_at w' d) = (if d \<in> group w c then Some v else cc_vlan (comp_at w d))"
    "ck_vlan (clink_at w' k) = (if k \<in> group_links w c then v else ck_vlan (clink_at w k))" for d k
    by (auto simp: vlan_inv_def)
  with w'(1) show ?thesis by blast
qed

section \<open>Two switches joined by two links\<close>

definition vswitch_named :: "string \<Rightarrow> crd_component" where
  "vswitch_named n = (crd_component_new n '''' 0 False False)\<lparr>cc_class := Virtual_Switch, cc_links := [0, 1]\<rparr>"

definition ring_link :: crd_link where
  "ring_link = sample_link\<lparr>ck_p2 := (ck_p2 sample_link)\<lparr>ep_comp := 1\<rparr>\<rparr>"

definition ring :: crd where
  "ring = (sample_daemon (\<lambda>_. True))\<lparr>comp_at := (\<lambda>c. vswitch_named (if c = 0 then ''vgige0'' else ''vgige1'')),
     clink_at := (\<lambda>_. ring_link)\<rparr>"

lemma ring_fields:
  "comp_type_of c ring = ''vgige''" "cc_class (comp_at ring c) = Virtual_Switch" "cc_links (comp_at ring c) = [0, 1]"
  "cname c ring = (if c = 0 then ''vgige0'' else ''vgige1'')" "comp_marked c ring = False"
  "ep_comp (ck_p1 (clink_at ring k)) = 0" "ep_comp (ck_p2 (clink_at ring k)) = 1" "ck_mark (clink_at ring k) = False"
  by (simp_all add: comp_type_of_def cname_def comp_marked_def ring_def vswitch_named_def crd_component_new_def ring_link_def
      sample_link_def Let_def)

lemma ring_switch: "is_vswitch ring c"
  by (simp add: is_vswitch_def ring_fields)

lemma ring_net: "vlan_net {0, 1} {0, 1} ring"
  by (auto simp: vlan_net_def ends_of_def links_of_def ring_fields)

lemma ring_untouched: "untouched ring 0"
  by (simp add: untouched_def ring_fields)

lemma ring_joined: "1 \<in> group ring 0" "0 \<in> group_links ring 0"
proof -
  have "joined ring 0 1"
    using ring_switch by (auto simp: joined_def links_of_def other_end_def ring_fields Let_def)
  then show "1 \<in> group ring 0" by (auto simp: group_def)
  have "0 \<in> group ring 0" by (simp add: group_def)
  then show "0 \<in> group_links ring 0" by (auto simp: group_links_def links_of_def ring_fields)
qed

theorem switches_share_vlan_witness:
  "\<exists>w'. set_vlans 0 5 ring = Some w' \<and> cc_vlan (comp_at w' 1) = Some 5 \<and> ck_vlan (clink_at w' 0) = 5"
proof -
  have "(0 :: nat) \<in> {0, 1}" by simp
  from switches_share_vlan [OF ring_net this ring_switch ring_untouched, of 5] ring_joined show ?thesis by auto
qed

end
