(* ===== verification/Crd_Reservation.thy ===== *)
theory Crd_Reservation
  imports Crd_Session
begin

text \<open>
  Reservations (\<^verbatim>\<open>crd/onlcrd_reservation.cc\<close> and the part of
  \<^verbatim>\<open>crd/onlcrd_session_manager.cc\<close> that keeps them). They are held by plain pointers and deleted by hand, so an
  address can lead nowhere: the map \<open>rw_at\<close> has no entry for a reservation that was deleted, and to follow a pointer to
  it is \<open>None\<close>. The answers to the user interface are appended to \<open>rw_replies\<close>.
\<close>

type_synonym rptr = nat

text \<open>The classes of requests have the members of those of a session.\<close>

record reservation =
  rv_id :: string
  rv_user :: string
  rv_conn :: addr
  rv_errmsg :: string
  rv_cleared :: bool
  rv_begin_req :: "begin_reservation_req option"
  rv_component_reqs :: "session_add_component_req list"
  rv_cluster_reqs :: "session_add_cluster_req list"
  rv_link_reqs :: "session_add_link_req list"
  rv_topology :: topology

text \<open>Answers: those about a node or link say whether more will follow; \<open>Begin_Reply\<close> is the second answer to the
  request that began a reservation; the other ones answer the request that is being handled.\<close>

datatype reply =
    Ping_Reply
  | Session_Reply NCCP_StatusType string string Session_Error
  | Reservation_Reply NCCP_StatusType string Session_Error string
  | Begin_Reply begin_reservation_req NCCP_StatusType string Session_Error string
  | Cluster_Reply session_add_cluster_req NCCP_StatusType bool
  | Component_Reply session_add_component_req NCCP_StatusType bool
  | Link_Reply session_add_link_req NCCP_StatusType bool
  | Rlicrd_Reply NCCP_StatusType
  | Observable_Reply NCCP_StatusType string Session_Error "(string \<times> string) list"
  | Observe_Reply NCCP_StatusType string Session_Error

text \<open>The requests that a reservation keeps until it has an answer for them.\<close>

datatype asked =
    Asked_Begin begin_reservation_req
  | Asked_Cluster session_add_cluster_req
  | Asked_Component session_add_component_req
  | Asked_Link session_add_link_req

fun reply_to :: "reply \<Rightarrow> asked option" where
  "reply_to (Begin_Reply r _ _ _ _) = Some (Asked_Begin r)"
| "reply_to (Cluster_Reply r _ _) = Some (Asked_Cluster r)"
| "reply_to (Component_Reply r _ _) = Some (Asked_Component r)"
| "reply_to (Link_Reply r _ _) = Some (Asked_Link r)"
| "reply_to _ = None"

record rsv_world =
  rw_at :: "rptr \<Rightarrow> reservation option"
  rw_count :: nat
  rw_active :: "rptr list"
  rw_next_id :: u32
  rw_store :: store
  rw_replies :: "reply list"

text \<open>What the daemon asks the database about users and reservations: the second number of \<open>db_cancel\<close> counts the
  attempts, \<open>db_cluster_of\<close> is \<open>None\<close> when the query fails and \<open>Some None\<close> when the node is in no cluster.\<close>

record rsv_database =
  db_base :: crd_database
  db_authenticate :: "string \<Rightarrow> string \<Rightarrow> bool"
  db_time_left :: "string \<Rightarrow> int"
  db_extend :: "string \<Rightarrow> u32 \<Rightarrow> bool"
  db_cancel :: "string \<Rightarrow> nat \<Rightarrow> bool"
  db_cluster_of :: "string \<Rightarrow> string option option"
  db_make_reservation ::
    "string \<Rightarrow> string \<Rightarrow> string \<Rightarrow> u32 \<Rightarrow> topology \<Rightarrow> store \<Rightarrow> (int \<times> string) \<times> topology \<times> store"

section \<open>Objects and lists\<close>

definition rsv_reply :: "reply \<Rightarrow> rsv_world \<Rightarrow> rsv_world" where
  "rsv_reply r w = w\<lparr>rw_replies := rw_replies w @ [r]\<rparr>"

definition upd_rsv :: "rptr \<Rightarrow> (reservation \<Rightarrow> reservation) \<Rightarrow> rsv_world \<Rightarrow> rsv_world" where
  "upd_rsv p f w = w\<lparr>rw_at := (rw_at w)(p := map_option f (rw_at w p))\<rparr>"

definition reservation_new :: "u32 \<Rightarrow> string \<Rightarrow> addr \<Rightarrow> reservation" where
  "reservation_new rid username nc = \<lparr>rv_id = int2str rid, rv_user = username, rv_conn = nc, rv_errmsg = '''',
     rv_cleared = False, rv_begin_req = None, rv_component_reqs = [], rv_cluster_reqs = [], rv_link_reqs = [],
     rv_topology = topology_new\<rparr>"

definition set_begin_request :: "begin_reservation_req \<Rightarrow> reservation \<Rightarrow> reservation" where
  "set_begin_request b x = x\<lparr>rv_begin_req := Some b\<rparr>"

definition rsv_add_component :: "session_add_component_req \<Rightarrow> reservation \<Rightarrow> reservation" where
  "rsv_add_component r x = x\<lparr>rv_component_reqs := rv_component_reqs x @ [r]\<rparr>"

definition rsv_add_cluster :: "session_add_cluster_req \<Rightarrow> reservation \<Rightarrow> reservation" where
  "rsv_add_cluster r x = x\<lparr>rv_cluster_reqs := rv_cluster_reqs x @ [r]\<rparr>"

definition rsv_add_link :: "session_add_link_req \<Rightarrow> reservation \<Rightarrow> reservation" where
  "rsv_add_link r x = x\<lparr>rv_link_reqs := rv_link_reqs x @ [r]\<rparr>"

text \<open>\<^verbatim>\<open>begin_req\<close> is not set by the constructor; the only caller of \<open>sm_add_reservation\<close> gives one.\<close>

definition sm_add_reservation :: "string \<Rightarrow> addr \<Rightarrow> begin_reservation_req \<Rightarrow> rsv_world \<Rightarrow> rptr \<times> rsv_world" where
  "sm_add_reservation username conn b w = (let p = rw_count w; x = set_begin_request b (reservation_new (rw_next_id w) username conn) in
     (p, w\<lparr>rw_at := (rw_at w)(p := Some x), rw_count := Suc p, rw_next_id := rw_next_id w + 1, rw_active := rw_active w @ [p]\<rparr>))"

text \<open>The loops over the list of reservations follow its pointers until one is the reservation sought.\<close>

fun find_rsv :: "(reservation \<Rightarrow> bool) \<Rightarrow> (rptr \<Rightarrow> reservation option) \<Rightarrow> rptr list \<Rightarrow> rptr option option" where
  "find_rsv p mem [] = Some None"
| "find_rsv p mem (q # qs) = do { x \<leftarrow> mem q; if p x then Some (Some q) else find_rsv p mem qs }"

definition sm_get_reservation_conn :: "addr \<Rightarrow> rsv_world \<Rightarrow> rptr option option" where
  "sm_get_reservation_conn conn w = find_rsv (\<lambda>x. rv_conn x = conn) (rw_at w) (rw_active w)"

definition sm_get_reservation :: "addr \<Rightarrow> string \<Rightarrow> rsv_world \<Rightarrow> rptr option option" where
  "sm_get_reservation conn rid w = find_rsv (\<lambda>x. rv_conn x = conn \<and> rv_id x = rid) (rw_at w) (rw_active w)"

section \<open>The topology of a reservation\<close>

definition rsv_topo_op :: "rptr \<Rightarrow> (topology \<Rightarrow> store \<Rightarrow> resp \<times> topology \<times> store) \<Rightarrow> rsv_world \<Rightarrow> (resp \<times> rsv_world) option" where
  "rsv_topo_op p f w = do {
     x \<leftarrow> rw_at w p;
     let (r, t, st) = f (rv_topology x) (rw_store w);
     Some (r, upd_rsv p (\<lambda>x. x\<lparr>rv_topology := t\<rparr>) (w\<lparr>rw_store := st\<rparr>)) }"

text \<open>A machine that the user chose, and its cluster.\<close>

definition fix_node :: "string \<Rightarrow> nptr \<Rightarrow> store \<Rightarrow> store" where
  "fix_node name n = upd_node n (\<lambda>y. y\<lparr>n_node := name, n_fixed := True\<rparr>)"

definition fix_component ::
    "(string \<Rightarrow> string option option) \<Rightarrow> u32 \<Rightarrow> string \<Rightarrow> topology \<Rightarrow> store \<Rightarrow> resp \<times> topology \<times> store" where
  "fix_component clu label name t st = (case node_with st label (t_nodes t) of
     None \<Rightarrow> ((0, ''no such label''), t, st)
   | Some n \<Rightarrow> let st = fix_node name n st in
       (case n_parent (node_at st n) of None \<Rightarrow> (success, t, st)
        | Some h \<Rightarrow> (case clu name of
            None \<Rightarrow> ((-1, ''database error''), t, st)
          | Some None \<Rightarrow> ((0, ''topology error''), t, st)
          | Some (Some c) \<Rightarrow> (success, t, fix_node c h st))))"

definition rsv_component_node :: "session_add_component_req \<Rightarrow> topology \<Rightarrow> store \<Rightarrow> resp \<times> topology \<times> store" where
  "rsv_component_node r = (let c = rc_comp r in
     add_node (c_str (comp_type c)) (comp_id c) (comp_parent c) False (sint (ac_cores r)) (sint (ac_mem r))
       (sint (ac_num_interfaces r)) (sint (ac_interfacebw r)) '''')"

definition alloc_status :: "resp \<Rightarrow> NCCP_StatusType" where
  "alloc_status r = (if fst r < 1 then NCCP_Status_AllocFailed else NCCP_Status_Fine)"

text \<open>The three loops of \<^verbatim>\<open>commit\<close>: every request is answered, whatever the topology says.\<close>

fun rsv_clusters :: "rptr \<Rightarrow> session_add_cluster_req list \<Rightarrow> rsv_world \<Rightarrow> rsv_world option" where
  "rsv_clusters p [] w = Some w"
| "rsv_clusters p (r # rs) w = do {
     (res, w) \<leftarrow> rsv_topo_op p (cluster_node r) w;
     rsv_clusters p rs (rsv_reply (Cluster_Reply r (alloc_status res) False) w) }"

fun rsv_components :: "rsv_database \<Rightarrow> rptr \<Rightarrow> session_add_component_req list \<Rightarrow> rsv_world \<Rightarrow> rsv_world option" where
  "rsv_components db p [] w = Some w"
| "rsv_components db p (r # rs) w = do {
     (res, w) \<leftarrow> rsv_topo_op p (rsv_component_node r) w;
     let c = rc_comp r;
     w \<leftarrow> (if fst res < 1 \<or> c_str (comp_cp c) = '''' then Some w
       else map_option snd (rsv_topo_op p (fix_component (db_cluster_of db) (comp_id c) (c_str (comp_cp c))) w));
     rsv_components db p rs (rsv_reply (Component_Reply r (alloc_status res) False) w) }"

definition rsv_link_edge ::
    "rsv_database \<Rightarrow> session_add_link_req \<Rightarrow> topology \<Rightarrow> store \<Rightarrow> resp \<times> topology \<times> store" where
  "rsv_link_edge db r t st =
    (let cs = link_capacities (db_base db) (topo_get_type (from_id r) t st) (topo_get_type (to_id r) t st) r in
     if capacity_error r cs then ((0, ''''), t, st) else link_edge r cs t st)"

fun rsv_links :: "rsv_database \<Rightarrow> rptr \<Rightarrow> session_add_link_req list \<Rightarrow> rsv_world \<Rightarrow> rsv_world option" where
  "rsv_links db p [] w = Some w"
| "rsv_links db p (r # rs) w = do {
     (res, w) \<leftarrow> rsv_topo_op p (rsv_link_edge db r) w;
     rsv_links db p rs (rsv_reply (Link_Reply r (alloc_status res) False) w) }"

section \<open>Commit and clear\<close>

definition rsv_num_requests :: "reservation \<Rightarrow> nat" where
  "rsv_num_requests x = length (rv_component_reqs x) + length (rv_cluster_reqs x) + length (rv_link_reqs x)"

text \<open>The wait of \<^verbatim>\<open>commit\<close>; \<open>env\<close> is what other threads do each time it sleeps, without the lock of the
  reservation.\<close>

fun rsv_wait :: "u32 \<Rightarrow> rptr \<Rightarrow> nat \<Rightarrow> (rsv_world \<Rightarrow> rsv_world) list \<Rightarrow> rsv_world \<Rightarrow> (bool \<times> rsv_world) option" where
  "rsv_wait n p attempts env w =
    (case rw_at w p of None \<Rightarrow> None
     | Some x \<Rightarrow> if unat n \<le> rsv_num_requests x then Some (True, w)
       else if 1200 < attempts then Some (False, w)
       else case env of [] \<Rightarrow> None | f # fs \<Rightarrow> rsv_wait n p (Suc attempts) fs (f w))"

declare rsv_wait.simps [simp del]

definition commit_done :: "begin_reservation_req \<Rightarrow> bool \<Rightarrow> string \<Rightarrow> string \<Rightarrow> reply" where
  "commit_done b ok msg start =
    (if ok then Begin_Reply b NCCP_Status_Fine msg Session_No_Err start
     else Begin_Reply b NCCP_Status_Failed msg Session_No_Err '''')"

definition set_rsv_requests :: "session_add_cluster_req list \<Rightarrow> session_add_component_req list \<Rightarrow> session_add_link_req list \<Rightarrow>
    reservation \<Rightarrow> reservation" where
  "set_rsv_requests cs hs ls x = x\<lparr>rv_cluster_reqs := cs, rv_component_reqs := hs, rv_link_reqs := ls\<rparr>"

definition sm_make_reservation :: "rsv_database \<Rightarrow> rptr \<Rightarrow> begin_reservation_req \<Rightarrow> rsv_world \<Rightarrow> (bool \<times> rsv_world) option" where
  "sm_make_reservation db p b w = do {
     x \<leftarrow> rw_at w p;
     ((res, msg), w) \<leftarrow> rsv_topo_op p (db_make_reservation db (rv_user x) (c_str (br_early b)) (c_str (br_late b)) (br_duration b)) w;
     Some (1 \<le> res, upd_rsv p (\<lambda>x. x\<lparr>rv_errmsg := msg\<rparr>) w) }"

definition reserve :: "rsv_database \<Rightarrow> rptr \<Rightarrow> rsv_world \<Rightarrow> rsv_world option" where
  "reserve db p w = do {
     x \<leftarrow> rw_at w p;
     b \<leftarrow> rv_begin_req x;
     (ok, w) \<leftarrow> sm_make_reservation db p b w;
     x \<leftarrow> rw_at w p;
     let done = (if ok then commit_done b True ''Reservation Request Succeeded'' (rv_errmsg x)
       else commit_done b False (rv_errmsg x) '''');
     Some (upd_rsv p (\<lambda>x. x\<lparr>rv_begin_req := None\<rparr>) (rsv_reply done w)) }"

definition reservation_commit :: "rsv_database \<Rightarrow> (rsv_world \<Rightarrow> rsv_world) list \<Rightarrow> rptr \<Rightarrow> rsv_world \<Rightarrow> rsv_world option" where
  "reservation_commit db env p w = do {
     x \<leftarrow> rw_at w p;
     if rv_cleared x then Some w
     else do {
       b \<leftarrow> rv_begin_req x;
       (all, w) \<leftarrow> rsv_wait (br_num_reqs b) p 0 env w;
       if \<not> all then Some w
       else do {
         x \<leftarrow> rw_at w p;
         w \<leftarrow> rsv_clusters p (rv_cluster_reqs x) w;
         w \<leftarrow> rsv_components db p (rv_component_reqs x) w;
         w \<leftarrow> rsv_links db p (rv_link_reqs x) w;
         reserve db p (upd_rsv p (set_rsv_requests [] [] []) w) } } }"

definition refusals :: "reservation \<Rightarrow> reply list" where
  "refusals x = map (\<lambda>r. Cluster_Reply r NCCP_Status_Failed True) (rv_cluster_reqs x) @
     map (\<lambda>r. Component_Reply r NCCP_Status_Failed True) (rv_component_reqs x) @
     map (\<lambda>r. Link_Reply r NCCP_Status_Failed True) (rv_link_reqs x) @
     (case rv_begin_req x of None \<Rightarrow> [] | Some b \<Rightarrow> [commit_done b False ''Reservation failed.'' ''''])"

definition reservation_clear :: "rptr \<Rightarrow> rsv_world \<Rightarrow> rsv_world option" where
  "reservation_clear p w = do {
     x \<leftarrow> rw_at w p;
     Some (if rv_cleared x then w
       else upd_rsv p (\<lambda>x. (set_rsv_requests [] [] [] x)\<lparr>rv_cleared := True, rv_begin_req := None\<rparr>)
         (w\<lparr>rw_replies := rw_replies w @ refusals x\<rparr>)) }"

text \<open>\<^verbatim>\<open>remove_reservation\<close> takes the first reservation with the connection of \<open>p\<close> from the list, then deletes \<open>p\<close>.\<close>

fun erase_conn :: "addr \<Rightarrow> (rptr \<Rightarrow> reservation option) \<Rightarrow> rptr list \<Rightarrow> rptr list option" where
  "erase_conn conn mem [] = Some []"
| "erase_conn conn mem (q # qs) = do {
     x \<leftarrow> mem q;
     if rv_conn x = conn then Some qs else map_option (\<lambda>qs. q # qs) (erase_conn conn mem qs) }"

definition sm_remove_reservation :: "rptr \<Rightarrow> rsv_world \<Rightarrow> rsv_world option" where
  "sm_remove_reservation p w = do {
     w \<leftarrow> reservation_clear p w;
     x \<leftarrow> rw_at w p;
     qs \<leftarrow> erase_conn (rv_conn x) (rw_at w) (rw_active w);
     Some (w\<lparr>rw_active := qs, rw_at := (rw_at w)(p := None)\<rparr>) }"

end
