(* ===== verification/Crd_Sharing.thy ===== *)
theory Crd_Sharing
  imports Crd_Requests
begin

text \<open>
  The messages about observing a session (\<^verbatim>\<open>crd/onlcrd_session_sharing.cc\<close>): requests of the user
  interface with their parsers, responses with their writers. A password is read but never written.
\<close>

record observe_data =
  od_sid :: nstring
  od_observer :: nstring
  od_observee :: nstring
  od_password :: nstring
  od_accept :: bool
  od_proxy_sid :: u32

definition observe_data_new :: observe_data where
  "observe_data_new = \<lparr>od_sid = nstr_of '''', od_observer = nstr_of '''', od_observee = nstr_of '''',
     od_password = nstr_of '''', od_accept = False, od_proxy_sid = 0\<rparr>"

definition observe_data_copy :: "observe_data \<Rightarrow> observe_data" where
  "observe_data_copy d = \<lparr>od_sid = nstr_copy (od_sid d), od_observer = nstr_copy (od_observer d),
     od_observee = nstr_copy (od_observee d), od_password = nstr_copy (od_password d), od_accept = od_accept d,
     od_proxy_sid = od_proxy_sid d\<rparr>"

definition put_observe_data :: "observe_data \<Rightarrow> byte_buffer \<Rightarrow> byte_buffer option" where
  "put_observe_data d b = do {
     b \<leftarrow> put_nstr (od_sid d) b;
     b \<leftarrow> put_nstr (od_observer d) b;
     b \<leftarrow> put_nstr (od_observee d) b;
     b \<leftarrow> put_u8 (if od_accept d then 1 else 0) b;
     put_u32 (od_proxy_sid d) b
   }"

definition get_observe_data :: "byte_buffer \<Rightarrow> (observe_data \<times> byte_buffer) option" where
  "get_observe_data b = do {
     (i, b) \<leftarrow> get_nstr b;
     (o1, b) \<leftarrow> get_nstr b;
     (o2, b) \<leftarrow> get_nstr b;
     (pw, b) \<leftarrow> get_nstr b;
     (a, b) \<leftarrow> get_u8 b;
     (p, b) \<leftarrow> get_u32 b;
     Some (\<lparr>od_sid = i, od_observer = o1, od_observee = o2, od_password = pw, od_accept = (a \<noteq> 0), od_proxy_sid = p\<rparr>, b)
   }"

section \<open>Requests\<close>

record add_observer_req = rlicrd_request +
  ao_username :: nstring

definition add_observer_parse :: "'a add_observer_req_scheme \<Rightarrow> 'a add_observer_req_scheme option" where
  "add_observer_parse m = do {
     m \<leftarrow> rlicrd_request_parse m;
     (u, m) \<leftarrow> msg_get get_nstr m;
     Some (m\<lparr>ao_username := u\<rparr>)
   }"

definition get_observable_parse :: "'a user_req_scheme \<Rightarrow> 'a user_req_scheme option" where
  "get_observable_parse m = do {
     m \<leftarrow> request_parse m;
     (u, m) \<leftarrow> msg_get get_nstr m;
     (pw, m) \<leftarrow> msg_get get_nstr m;
     Some (m\<lparr>ur_username := u, ur_password := pw\<rparr>)
   }"

record observe_req = request +
  ob_data :: observe_data

definition observe_parse :: "'a observe_req_scheme \<Rightarrow> 'a observe_req_scheme option" where
  "observe_parse m = do {
     m \<leftarrow> request_parse m;
     (d, m) \<leftarrow> msg_get get_observe_data m;
     Some (m\<lparr>ob_data := d\<rparr>)
   }"

section \<open>Responses\<close>

text \<open>A session of the list is its identifier and user.\<close>

record observable_response = response +
  or_status :: NCCP_StatusType
  or_status_msg :: nstring
  or_error_code :: Session_Error
  or_sess_list :: "(string \<times> string) list"

definition observable_response_error ::
    "(nat \<Rightarrow> u8) \<Rightarrow> addr \<Rightarrow> 'b request_scheme \<Rightarrow> string \<Rightarrow> Session_Error \<Rightarrow> observable_response \<Rightarrow> observable_response" where
  "observable_response_error junk ra req msg err r =
     (response_new junk ra req r)\<lparr>or_status := NCCP_Status_Failed, or_status_msg := nstr_of msg,
       or_error_code := err, or_sess_list := []\<rparr>"

definition observable_response_of ::
    "(nat \<Rightarrow> u8) \<Rightarrow> addr \<Rightarrow> 'b request_scheme \<Rightarrow> (string \<times> string) list \<Rightarrow> observable_response \<Rightarrow> observable_response" where
  "observable_response_of junk ra req ss r =
     (response_new junk ra req r)\<lparr>or_status := NCCP_Status_Fine, or_status_msg := nstr_of ''Success.'',
       or_error_code := Session_No_Err, or_sess_list := ss\<rparr>"

fun put_sessions :: "(string \<times> string) list \<Rightarrow> byte_buffer \<Rightarrow> byte_buffer option" where
  "put_sessions [] b = Some b"
| "put_sessions ((i, u) # ss) b = do {
     b \<leftarrow> put_nstr (nstr_of i) b;
     b \<leftarrow> put_nstr (nstr_of u) b;
     put_sessions ss b
   }"

definition observable_response_write :: "observable_response \<Rightarrow> observable_response option" where
  "observable_response_write m = do {
     m \<leftarrow> response_write m;
     m \<leftarrow> msg_put (put_u32 (or_status m)) m;
     m \<leftarrow> msg_put (put_nstr (or_status_msg m)) m;
     m \<leftarrow> msg_put (put_u32 (or_error_code m)) m;
     m \<leftarrow> msg_put (put_u32 (of_nat (length (or_sess_list m)))) m;
     m \<leftarrow> msg_put (put_sessions (or_sess_list m)) m;
     Some (m\<lparr>or_sess_list := []\<rparr>)
   }"

record observe_response = response +
  ov_status :: NCCP_StatusType
  ov_status_msg :: nstring
  ov_error_code :: Session_Error
  ov_data :: observe_data

text \<open>The constructors: three take the data of the request they answer, the last is told it.\<close>

definition observe_response_of ::
    "(nat \<Rightarrow> u8) \<Rightarrow> addr \<Rightarrow> 'b request_scheme \<Rightarrow> string \<Rightarrow> Session_Error \<Rightarrow> NCCP_StatusType \<Rightarrow> observe_data \<Rightarrow>
     observe_response \<Rightarrow> observe_response" where
  "observe_response_of junk ra req msg err stat d r =
     (response_new junk ra req r)\<lparr>ov_status := stat, ov_status_msg := nstr_of msg, ov_error_code := err,
       ov_data := observe_data_copy d\<rparr>"

definition observe_response_status :: "(nat \<Rightarrow> u8) \<Rightarrow> addr \<Rightarrow> observe_req \<Rightarrow> NCCP_StatusType \<Rightarrow> observe_response \<Rightarrow> observe_response" where
  "observe_response_status junk ra req stat = observe_response_of junk ra req '''' Session_No_Err stat (ob_data req)"

definition observe_response_error ::
    "(nat \<Rightarrow> u8) \<Rightarrow> addr \<Rightarrow> observe_req \<Rightarrow> string \<Rightarrow> Session_Error \<Rightarrow> observe_response \<Rightarrow> observe_response" where
  "observe_response_error junk ra req msg err = observe_response_of junk ra req msg err NCCP_Status_Failed (ob_data req)"

definition observe_response_write :: "observe_response \<Rightarrow> observe_response option" where
  "observe_response_write m = do {
     m \<leftarrow> response_write m;
     m \<leftarrow> msg_put (put_u32 (ov_status m)) m;
     m \<leftarrow> msg_put (put_nstr (ov_status_msg m)) m;
     m \<leftarrow> msg_put (put_u32 (ov_error_code m)) m;
     msg_put (put_observe_data (ov_data m)) m
   }"

section \<open>What travels\<close>

text \<open>What the daemon writes and what it reads differ by the password.\<close>

definition enc_observe_data :: "bool \<Rightarrow> observe_data \<Rightarrow> u8 list" where
  "enc_observe_data pw d = enc_nstr (od_sid d) @ enc_nstr (od_observer d) @ enc_nstr (od_observee d) @
     (if pw then enc_nstr (od_password d) else []) @ [if od_accept d then 1 else 0] @ be32 (od_proxy_sid d)"

definition observe_data_ok :: "observe_data \<Rightarrow> bool" where
  "observe_data_ok d \<longleftrightarrow> nstr_ok (od_sid d) \<and> nstr_ok (od_observer d) \<and> nstr_ok (od_observee d) \<and> nstr_ok (od_password d)"

lemma put_observe_data_enc [wire_put]: "put_observe_data d = put_bytes (enc_observe_data False d)"
  by (rule ext) (simp add: put_observe_data_def enc_observe_data_def wire_put)

lemma get_u8_first:
  assumes "holds b (x # xs)"
  shows "get_u8 b = Some (x, skip 1 b) \<and> holds (skip 1 b) xs"
proof -
  have "holds b [x]" and "holds (skip 1 b) xs" using assms holds_append [of b "[x]" xs] by simp_all
  then show ?thesis using get_u8_holds by blast
qed

lemma get_observe_data_enc [wire_get]:
  assumes "observe_data_ok d" and "holds b (enc_observe_data True d)"
  shows "get_observe_data b = Some (d, skip (length (enc_observe_data True d)) b)"
  using assms by (auto simp: get_observe_data_def enc_observe_data_def observe_data_ok_def wire_get ac_simps
      dest!: get_u8_first)

lemma observe_response_write_enc:
  "observe_response_write m = map_option (\<lambda>b. m\<lparr>msg_buf := b\<rparr>)
     (put_bytes (enc_response m @ be32 (ov_status m) @ enc_nstr (ov_status_msg m) @ be32 (ov_error_code m) @
       enc_observe_data False (ov_data m)) (msg_buf m))"
  by (simp add: observe_response_write_def class_simps wire_put)

end
