(* ===== verification/Crd_Handlers.thy ===== *)
theory Crd_Handlers
  imports Crd_Reservation Crd_Sharing Dispatcher
begin

text \<open>
  The handlers of the resource daemon (\<^verbatim>\<open>crd/onlcrd_requests.cc\<close>,
  \<^verbatim>\<open>crd/onlcrd_session_sharing.cc\<close>), the operations of a session and of the session manager that only they use,
  the thread that watches a user interface, and the tables of \<^verbatim>\<open>main\<close>. The first value of a handler says whether the
  request is done and is deleted; \<open>conn\<close> is the connection it came on.
\<close>

record onlcrd =
  oc_crd :: crd
  oc_rsv :: rsv_world

definition oc_reply :: "reply \<Rightarrow> onlcrd \<Rightarrow> onlcrd" where
  "oc_reply r d = d\<lparr>oc_rsv := rsv_reply r (oc_rsv d)\<rparr>"

definition finished :: "reply \<Rightarrow> onlcrd \<Rightarrow> (bool \<times> onlcrd) option" where
  "finished r d = Some (True, oc_reply r d)"

definition on_crd :: "(crd \<Rightarrow> crd) \<Rightarrow> onlcrd \<Rightarrow> onlcrd" where
  "on_crd f d = d\<lparr>oc_crd := f (oc_crd d)\<rparr>"

definition on_rsv :: "(rsv_world \<Rightarrow> rsv_world) \<Rightarrow> onlcrd \<Rightarrow> onlcrd" where
  "on_rsv f d = d\<lparr>oc_rsv := f (oc_rsv d)\<rparr>"

abbreviation session_error :: "string \<Rightarrow> Session_Error \<Rightarrow> reply" where
  "session_error msg err \<equiv> Session_Reply NCCP_Status_Failed '''' msg err"

abbreviation reservation_error :: "string \<Rightarrow> Session_Error \<Rightarrow> reply" where
  "reservation_error msg err \<equiv> Reservation_Reply NCCP_Status_Failed msg err ''''"

section \<open>Nodes\<close>

definition ping_handle :: "onlcrd \<Rightarrow> (bool \<times> onlcrd) option" where
  "ping_handle d = finished Ping_Reply d"

text \<open>What the database says about a machine that reports: its node, and whether its state could be set.\<close>

record up_database =
  ub_node :: "string \<Rightarrow> string option"
  ub_info :: "string \<Rightarrow> db_node option"
  ub_freed :: "string \<Rightarrow> bool"

definition find_host :: "string \<Rightarrow> cptr list \<Rightarrow> crd \<Rightarrow> cptr option" where
  "find_host hostname cs w = find (\<lambda>c. cc_cp (comp_at w c) = hostname) cs"

definition received_up_msg :: "up_database \<Rightarrow> string \<Rightarrow> crd \<Rightarrow> crd" where
  "received_up_msg db hostname w =
    (case find_host hostname (refreshing_components w @ active_components w) w of
       Some c \<Rightarrow> got_up_msg c w
     | None \<Rightarrow> (case ub_node db hostname of None \<Rightarrow> w
       | Some node \<Rightarrow> (case ub_info db node of None \<Rightarrow> w
         | Some d \<Rightarrow> let w = emit (Db_State node ''free'') w in
             if \<not> ub_freed db node \<or> \<not> dn_keeboot d then w
             else let (cp, port) = dn_contact d;
                 (c, w) = new_comp (crd_component_new node cp port True (dn_dependent d)) w in
               if ignored w node then w
               else comp_refresh c (w\<lparr>refreshing_components := refreshing_components w @ [c]\<rparr>))))"

definition i_am_up_handle :: "up_database \<Rightarrow> string \<Rightarrow> onlcrd \<Rightarrow> (bool \<times> onlcrd) option" where
  "i_am_up_handle db hostname d = Some (True, on_crd (received_up_msg db hostname) d)"

section \<open>Sessions\<close>

definition min_rli_version :: u8 where
  "min_rli_version = 0x54"

definition begin_session_handle :: "rsv_database \<Rightarrow> addr \<Rightarrow> begin_session_req \<Rightarrow> onlcrd \<Rightarrow> (bool \<times> onlcrd) option" where
  "begin_session_handle db conn req d =
    (let username = c_str (ei_userName (bs_expinfo req)); w = oc_crd d in
     if msg_version req < min_rli_version
     then finished (session_error ''Your RLI is out of date.  Please go to http://onl.wustl.edu to download a new version.''
       Session_Version_Err) d
     else if initializing w
     then finished (session_error ''ONL is currently rebooting. Please try again in 10 minutes.''
       (if msg_version req \<le> 0x73 then Session_Alert else Session_Alloc_Err)) d
     else if \<not> db_authenticate db username (c_str (bs_password req))
     then finished (session_error ''Authentication failed.'' Session_Auth_Err) d
     else if sm_has_session username w
     then finished (session_error ''You already have a running session.'' Session_Alloc_Err) d
     else if db_time_left db username \<le> 0
     then finished (session_error ''Reservation not found.'' Session_No_Res_Err) d
     else let (s, w) = sm_add_session username conn (Some req) w in
       Some (False, oc_reply (Session_Reply NCCP_Status_Fine (ss_id (sess_at w s)) '''' 0) (d\<lparr>oc_crd := w\<rparr>)))"

text \<open>A request about a node or link of a session: refused, or kept by the session.\<close>

definition for_session :: "addr \<Rightarrow> string \<Rightarrow> reply \<Rightarrow> (sptr \<Rightarrow> crd \<Rightarrow> crd) \<Rightarrow> onlcrd \<Rightarrow> (bool \<times> onlcrd) option" where
  "for_session conn sid refusal keep d = (case sm_get_session_id conn sid (oc_crd d) of
     None \<Rightarrow> finished refusal d
   | Some s \<Rightarrow> Some (False, on_crd (keep s) d))"

definition request_sid :: "'a rlicrd_request_scheme \<Rightarrow> string" where
  "request_sid req = c_str (ei_ID (rc_expinfo req))"

definition session_add_component_handle :: "addr \<Rightarrow> session_add_component_req \<Rightarrow> onlcrd \<Rightarrow> (bool \<times> onlcrd) option" where
  "session_add_component_handle conn req = for_session conn (request_sid req)
     (Component_Reply req NCCP_Status_OperationIncomplete False) (\<lambda>s. session_add_component s req)"

definition session_add_cluster_handle :: "addr \<Rightarrow> session_add_cluster_req \<Rightarrow> onlcrd \<Rightarrow> (bool \<times> onlcrd) option" where
  "session_add_cluster_handle conn req = for_session conn (request_sid req)
     (Cluster_Reply req NCCP_Status_Failed False) (\<lambda>s. session_add_cluster s req)"

definition session_add_link_handle :: "addr \<Rightarrow> session_add_link_req \<Rightarrow> onlcrd \<Rightarrow> (bool \<times> onlcrd) option" where
  "session_add_link_handle conn req = for_session conn (request_sid req)
     (Link_Reply req NCCP_Status_Failed False) (\<lambda>s. session_add_link s req)"

definition commit_session_handle ::
    "crd_database \<Rightarrow> (crd \<Rightarrow> crd) list \<Rightarrow> addr \<Rightarrow> eid_req \<Rightarrow> onlcrd \<Rightarrow> (bool \<times> onlcrd) option" where
  "commit_session_handle db env conn req d = (let i = c_str (eid req) in
     case sm_get_session_id conn i (oc_crd d) of
       None \<Rightarrow> finished (Session_Reply NCCP_Status_Failed i ''Session not found.'' Session_Alloc_Err) d
     | Some s \<Rightarrow> do {
         (ok, w) \<leftarrow> session_commit db env s (oc_crd d);
         finished (if ok then Session_Reply NCCP_Status_Fine i '''' 0
           else Session_Reply NCCP_Status_Failed i (ss_errmsg (sess_at w s)) Session_Alloc_Err) (d\<lparr>oc_crd := w\<rparr>) })"

definition clear_session_handle :: "addr \<Rightarrow> eid_req \<Rightarrow> onlcrd \<Rightarrow> (bool \<times> onlcrd) option" where
  "clear_session_handle conn req d = (case sm_get_session_id conn (c_str (eid req)) (oc_crd d) of
     None \<Rightarrow> Some (True, d)
   | Some s \<Rightarrow> Some (True, on_crd (crd_session_clear s) d))"

section \<open>The thread that watches the user interface\<close>

text \<open>
  A round of \<^verbatim>\<open>send_alerts\<close>: the minutes left, what other threads do in the first minute, whether the interface has
  answered the ping by then, and what they do until the next ping. Without rounds left the thread still runs: \<open>None\<close>.
\<close>

record alert_round =
  ar_min_left :: int
  ar_first :: "crd \<Rightarrow> crd"
  ar_acked :: bool
  ar_rest :: "crd \<Rightarrow> crd"

definition reservation_alert_time :: int where
  "reservation_alert_time = 15"

definition reservation_alert :: "int \<Rightarrow> event" where
  "reservation_alert min_left =
     Session_Message (''Reservation Alert - less than '' @ int2str (of_int min_left) @ '' minutes left'') Session_Alert"

fun send_alerts :: "alert_round list \<Rightarrow> bool \<Rightarrow> sptr \<Rightarrow> crd \<Rightarrow> crd option" where
  "send_alerts rounds sent s w =
    (if ss_cleared (sess_at w s) then Some w
     else case rounds of [] \<Rightarrow> None
     | r # rs \<Rightarrow>
       let near = (ar_min_left r \<le> reservation_alert_time);
           w = (if \<not> sent \<and> near then emit (reservation_alert (ar_min_left r)) w else w);
           w = ar_first r (emit Session_Ping w) in
       if ss_cleared (sess_at w s) then Some w
       else if \<not> ar_acked r then Some (crd_session_clear s w)
       else send_alerts rs near s (ar_rest r w))"

declare send_alerts.simps [simp del]

definition session_alerts :: "alert_round list \<Rightarrow> sptr \<Rightarrow> crd \<Rightarrow> crd option" where
  "session_alerts rounds s w = map_option (sm_remove_session s) (send_alerts rounds False s w)"

section \<open>Reservations\<close>

definition begin_reservation_handle ::
    "rsv_database \<Rightarrow> addr \<Rightarrow> begin_reservation_req \<Rightarrow> onlcrd \<Rightarrow> (bool \<times> onlcrd) option" where
  "begin_reservation_handle db conn req d = (let username = c_str (br_username req) in
     if msg_version req < min_rli_version
     then finished (reservation_error ''Your RLI is out of date.  Please go to http://onl.wustl.edu to download a new version.''
       Session_Version_Err) d
     else if \<not> db_authenticate db username (c_str (br_password req))
     then finished (reservation_error ''Authentication failed.'' Session_Auth_Err) d
     else let (p, w) = sm_add_reservation username conn req (oc_rsv d) in do {
       x \<leftarrow> rw_at w p;
       Some (False, oc_reply (reservation_error (rv_id x) Session_Ack) (d\<lparr>oc_rsv := w\<rparr>)) })"

definition for_reservation ::
    "addr \<Rightarrow> string \<Rightarrow> reply \<Rightarrow> (reservation \<Rightarrow> reservation) \<Rightarrow> onlcrd \<Rightarrow> (bool \<times> onlcrd) option" where
  "for_reservation conn rid refusal keep d = do {
     found \<leftarrow> sm_get_reservation conn rid (oc_rsv d);
     case found of None \<Rightarrow> finished refusal d | Some p \<Rightarrow> Some (False, on_rsv (upd_rsv p keep) d) }"

definition reservation_add_component_handle :: "addr \<Rightarrow> session_add_component_req \<Rightarrow> onlcrd \<Rightarrow> (bool \<times> onlcrd) option" where
  "reservation_add_component_handle conn req = for_reservation conn (request_sid req)
     (Component_Reply req NCCP_Status_OperationIncomplete False) (rsv_add_component req)"

definition reservation_add_cluster_handle :: "addr \<Rightarrow> session_add_cluster_req \<Rightarrow> onlcrd \<Rightarrow> (bool \<times> onlcrd) option" where
  "reservation_add_cluster_handle conn req = for_reservation conn (request_sid req)
     (Cluster_Reply req NCCP_Status_Failed False) (rsv_add_cluster req)"

definition reservation_add_link_handle :: "addr \<Rightarrow> session_add_link_req \<Rightarrow> onlcrd \<Rightarrow> (bool \<times> onlcrd) option" where
  "reservation_add_link_handle conn req = for_reservation conn (request_sid req)
     (Link_Reply req NCCP_Status_Failed False) (rsv_add_link req)"

definition commit_reservation_handle ::
    "rsv_database \<Rightarrow> (rsv_world \<Rightarrow> rsv_world) list \<Rightarrow> addr \<Rightarrow> eid_req \<Rightarrow> onlcrd \<Rightarrow> (bool \<times> onlcrd) option" where
  "commit_reservation_handle db env conn req d = do {
     found \<leftarrow> sm_get_reservation conn (c_str (eid req)) (oc_rsv d);
     case found of
       None \<Rightarrow> finished (reservation_error ''Reservation not found.'' Session_No_Err) d
     | Some p \<Rightarrow> do {
         w \<leftarrow> reservation_commit db env p (oc_rsv d);
         w \<leftarrow> sm_remove_reservation p w;
         Some (True, d\<lparr>oc_rsv := w\<rparr>) } }"

definition extend_reservation_handle :: "rsv_database \<Rightarrow> extend_reservation_req \<Rightarrow> onlcrd \<Rightarrow> (bool \<times> onlcrd) option" where
  "extend_reservation_handle db req d = (let username = c_str (ur_username req) in
     if \<not> db_authenticate db username (c_str (ur_password req))
     then finished (reservation_error ''Authentication failed.'' Session_Auth_Err) d
     else if db_time_left db username \<le> 0
     then finished (reservation_error ''You don't have a reservation now to extend.'' Session_No_Res_Err) d
     else if \<not> db_extend db username (er_mins req)
     then finished (reservation_error ''No room to extend your reservation.'' Session_No_Res_Err) d
     else finished (Reservation_Reply NCCP_Status_Fine ''Success'' Session_No_Err '''') d)"

definition cancel_reservation_handle :: "rsv_database \<Rightarrow> user_req \<Rightarrow> onlcrd \<Rightarrow> (bool \<times> onlcrd) option" where
  "cancel_reservation_handle db req d = (let username = c_str (ur_username req) in
     if \<not> db_authenticate db username (c_str (ur_password req))
     then finished (reservation_error ''Authentication failed.'' Session_Auth_Err) d
     else if sm_has_session username (oc_crd d)
     then finished (reservation_error ''Can't cancel reservation during running session.'' Session_No_Res_Err) d
     else if db_cancel db username 0 \<or> db_cancel db username 1
     then finished (Reservation_Reply NCCP_Status_Fine ''Success'' Session_No_Err '''') d
     else finished (reservation_error ''Could not cancel reservation.'' Session_No_Res_Err) d)"

section \<open>Observing a session\<close>

definition observer_of :: "observe_req \<Rightarrow> string" where
  "observer_of req = c_str (od_observer (ob_data req))"

text \<open>The session keeps a request of its owner's list by the name of the observer.\<close>

definition session_observe :: "string \<Rightarrow> sptr \<Rightarrow> crd \<Rightarrow> (bool \<times> crd) option" where
  "session_observe u s w = (let x = sess_at w s in
     if \<not> observable_by u x then Some (False, w)
     else if u \<in> set (ss_observe_reqs x) then Some (True, w)
     else do {
       b \<leftarrow> ss_begin_req x;
       Some (True, emit (Observe_Request u) (upd_sess s (\<lambda>x. x\<lparr>ss_observe_reqs := ss_observe_reqs x @ [u]\<rparr>) w)) })"

text \<open>The value says whether the request to grant was answered.\<close>

definition session_grant_observe :: "string \<Rightarrow> sptr \<Rightarrow> crd \<Rightarrow> bool \<times> crd" where
  "session_grant_observe u s w = (if u \<notin> set (ss_observe_reqs (sess_at w s)) then (False, w)
     else (True, emit (Observe_Response u '''' Session_No_Err)
       (upd_sess s (\<lambda>x. x\<lparr>ss_observe_reqs := remove1 u (ss_observe_reqs x)\<rparr>) w)))"

definition add_observer_handle :: "addr \<Rightarrow> add_observer_req \<Rightarrow> onlcrd \<Rightarrow> (bool \<times> onlcrd) option" where
  "add_observer_handle conn req d = (case sm_get_session_conn conn (oc_crd d) of
     None \<Rightarrow> finished (Rlicrd_Reply NCCP_Status_Failed) d
   | Some s \<Rightarrow> finished (Rlicrd_Reply NCCP_Status_Fine)
       (on_crd (upd_sess s (add_observer (c_str (ao_username req)))) d))"

definition get_observable_handle :: "rsv_database \<Rightarrow> user_req \<Rightarrow> onlcrd \<Rightarrow> (bool \<times> onlcrd) option" where
  "get_observable_handle db req d = (let username = c_str (ur_username req); w = oc_crd d in
     if \<not> db_authenticate db username (c_str (ur_password req))
     then finished (Observable_Reply NCCP_Status_Failed ''Authentication failed.'' Session_Auth_Err []) d
     else finished (Observable_Reply NCCP_Status_Fine ''Success.'' Session_No_Err
       (map (\<lambda>s. (ss_id (sess_at w s), ss_user (sess_at w s))) (sm_get_observable_sessions username w))) d)"

definition observe_session_handle :: "rsv_database \<Rightarrow> observe_req \<Rightarrow> onlcrd \<Rightarrow> (bool \<times> onlcrd) option" where
  "observe_session_handle db req d = (let x = ob_data req; not_found = finished (Observe_Reply NCCP_Status_Failed
       ''Session not found.'' Session_Alloc_Err) in
     if \<not> db_authenticate db (observer_of req) (c_str (od_password x))
     then finished (Observe_Reply NCCP_Status_Failed ''Authentication failed.'' Session_Auth_Err) d
     else case sm_get_session_user (c_str (od_observee x)) (oc_crd d) of
       None \<Rightarrow> not_found d
     | Some s \<Rightarrow> do {
         (ok, w) \<leftarrow> session_observe (observer_of req) s (oc_crd d);
         if \<not> ok then not_found (d\<lparr>oc_crd := w\<rparr>)
         else Some (False, oc_reply (Observe_Reply NCCP_Status_StillRemaining
           ''Request has been sent to experiment owner.'' Session_No_Err) (d\<lparr>oc_crd := w\<rparr>)) })"

text \<open>The session answers a request to grant, and so does its handler.\<close>

definition grant_observe_handle :: "addr \<Rightarrow> observe_req \<Rightarrow> onlcrd \<Rightarrow> (bool \<times> onlcrd) option" where
  "grant_observe_handle conn req d = (case sm_get_session_conn conn (oc_crd d) of
     None \<Rightarrow> finished (Observe_Reply NCCP_Status_Failed ''Authentication failed.'' Session_Auth_Err) d
   | Some s \<Rightarrow> (let (told, w) = session_grant_observe (observer_of req) s (oc_crd d); d = d\<lparr>oc_crd := w\<rparr>;
         granted = Observe_Reply NCCP_Status_Fine '''' Session_No_Err in
       finished granted (if told then oc_reply granted d else d)))"

end
