(* ===== verification/Crd_Main.thy ===== *)
theory Crd_Main
  imports Crd_Handlers Switch_Messages
begin

text \<open>
  The start of the resource daemon: the session manager's constructor and \<^verbatim>\<open>initialize\<close>
  (\<^verbatim>\<open>crd/onlcrd_session_manager.cc\<close>), the tables of \<^verbatim>\<open>main\<close>
  (\<^verbatim>\<open>crd/onlcrd_main.cc\<close>) and the virtual \<^verbatim>\<open>handle\<close>.
\<close>

section \<open>Start-up\<close>

text \<open>What the database knows of the switches (name, ports, management port) and of the nodes.\<close>

record start_database =
  sb_switches :: "(string \<times> u32 \<times> u32) list"
  sb_nodes :: "db_node list"

text \<open>The members the constructor sets; the others are the objects of the world and what comes from outside.\<close>

definition session_manager_new :: "crd \<Rightarrow> crd" where
  "session_manager_new w = w\<lparr>num_ports_on_vlan := (\<lambda>_. None), outstanding_ports := [], active_components := [],
     refreshing_components := [], keeboot_params := (\<lambda>_. None), active_sessions := [], next_session_id := 1,
     initializing := True, test_vlan := 0\<rparr>"

definition start_switch :: "string \<times> u32 \<times> u32 \<Rightarrow> switch_info" where
  "start_switch x = (case x of (name, ports, mgmt) \<Rightarrow> (switch_info_of name ports)\<lparr>sw_management_port := mgmt\<rparr>)"

fun new_nodes :: "db_node list \<Rightarrow> crd \<Rightarrow> cptr list \<times> crd" where
  "new_nodes [] w = ([], w)"
| "new_nodes (d # ds) w = (if dn_state d \<noteq> ''free'' then new_nodes ds w
     else let (cp, port) = dn_contact d;
         (c, w) = new_comp (setCluster (dn_cluster d) (crd_component_new (dn_node d) cp port (dn_keeboot d) (dn_dependent d))) w;
         (cs, w) = new_nodes ds w in (c # cs, w))"

definition refresh_new :: "cptr \<Rightarrow> crd \<Rightarrow> crd" where
  "refresh_new c w = (if ignored w (cname c w) then w
     else comp_refresh c (w\<lparr>refreshing_components := refreshing_components w @ [c]\<rparr>))"

definition start_nodes :: "db_node list \<Rightarrow> crd \<Rightarrow> crd" where
  "start_nodes ds w = (let (cs, w) = new_nodes ds w in fold refresh_new cs (fold (set_cluster_of cs) cs w))"

text \<open>The first value is false when the daemon ends itself because the network daemon does not answer.\<close>

definition sm_initialize :: "start_database \<Rightarrow> crd \<Rightarrow> bool \<times> crd" where
  "sm_initialize db w = (if testing w then (True, w)
     else let w = emit Db_Clear_All (emit (Command ''/usr/testbed/scripts/send_crd_email.pl'') w);
         (a, w) = ask (Nmd_Initialize (map start_switch (sb_switches db))) w in
       if an_answered a then (True, start_nodes (sb_nodes db) w) else (False, w))"

section \<open>The tables\<close>

abbreviation NCCP_Operation_SessionAddLink :: u8 where "NCCP_Operation_SessionAddLink \<equiv> 38"
abbreviation NCCP_Operation_SessionAddComponent :: u8 where "NCCP_Operation_SessionAddComponent \<equiv> 40"
abbreviation NCCP_Operation_SessionAddCluster :: u8 where "NCCP_Operation_SessionAddCluster \<equiv> 42"
abbreviation NCCP_Operation_EndSession :: u8 where "NCCP_Operation_EndSession \<equiv> 43"
abbreviation NCCP_Operation_CommitSession :: u8 where "NCCP_Operation_CommitSession \<equiv> 44"
abbreviation NCCP_Operation_BeginReservation :: u8 where "NCCP_Operation_BeginReservation \<equiv> 47"
abbreviation NCCP_Operation_BeginSession :: u8 where "NCCP_Operation_BeginSession \<equiv> 48"
abbreviation NCCP_Operation_ExtendReservation :: u8 where "NCCP_Operation_ExtendReservation \<equiv> 49"
abbreviation NCCP_Operation_CancelReservation :: u8 where "NCCP_Operation_CancelReservation \<equiv> 50"
abbreviation NCCP_Operation_SessionAddObserver :: u8 where "NCCP_Operation_SessionAddObserver \<equiv> 51"
abbreviation NCCP_Operation_GetObservableSessions :: u8 where "NCCP_Operation_GetObservableSessions \<equiv> 52"
abbreviation NCCP_Operation_ObserveSession :: u8 where "NCCP_Operation_ObserveSession \<equiv> 53"
abbreviation NCCP_Operation_GrantObserveSession :: u8 where "NCCP_Operation_GrantObserveSession \<equiv> 54"
abbreviation NCCP_Operation_ReservationAddLink :: u8 where "NCCP_Operation_ReservationAddLink \<equiv> 58"
abbreviation NCCP_Operation_ReservationAddComponent :: u8 where "NCCP_Operation_ReservationAddComponent \<equiv> 59"
abbreviation NCCP_Operation_ReservationAddCluster :: u8 where "NCCP_Operation_ReservationAddCluster \<equiv> 60"
abbreviation NCCP_Operation_CommitReservation :: u8 where "NCCP_Operation_CommitReservation \<equiv> 61"

text \<open>The objects of the classes that are registered.\<close>

datatype crd_message =
    Ping (un_ping: request)
  | I_Am_Up (un_i_am_up: i_am_up)
  | Begin_Reservation (un_begin_reservation: begin_reservation_req)
  | Reservation_Add_Component (un_reservation_add_component: session_add_component_req)
  | Reservation_Add_Cluster (un_reservation_add_cluster: session_add_cluster_req)
  | Reservation_Add_Link (un_reservation_add_link: session_add_link_req)
  | Commit_Reservation (un_commit_reservation: eid_req)
  | Extend_Reservation (un_extend_reservation: extend_reservation_req)
  | Cancel_Reservation (un_cancel_reservation: user_req)
  | Begin_Session (un_begin_session: begin_session_req)
  | Session_Add_Component (un_session_add_component: session_add_component_req)
  | Session_Add_Cluster (un_session_add_cluster: session_add_cluster_req)
  | Session_Add_Link (un_session_add_link: session_add_link_req)
  | Commit_Session (un_commit_session: eid_req)
  | Clear_Session (un_clear_session: eid_req)
  | Add_Observer (un_add_observer: add_observer_req)
  | Get_Observable (un_get_observable: user_req)
  | Observe_Session (un_observe_session: observe_req)
  | Grant_Observe (un_grant_observe: observe_req)
  | Node_Response (un_node_response: crd_response)
  | Node_Endconfig_Response (un_node_endconfig_response: crd_endconfig_response)
  | Network_Response (un_network_response: switch_response)
  | Network_Vlan_Response (un_network_vlan_response: add_vlan_response)

text \<open>The memory new objects are built in.\<close>

record crd_memory =
  cm_request :: request
  cm_i_am_up :: i_am_up
  cm_begin_reservation :: begin_reservation_req
  cm_component :: session_add_component_req
  cm_cluster :: session_add_cluster_req
  cm_link :: session_add_link_req
  cm_eid :: eid_req
  cm_extend :: extend_reservation_req
  cm_user :: user_req
  cm_begin_session :: begin_session_req
  cm_observer :: add_observer_req
  cm_observe :: observe_req
  cm_response :: crd_response
  cm_endconfig :: crd_endconfig_response
  cm_switch :: switch_response
  cm_add_vlan :: add_vlan_response

definition crd_requests ::
    "(nat \<Rightarrow> u8) \<Rightarrow> (nat \<Rightarrow> u8) \<Rightarrow> crd_memory \<Rightarrow> (u8 \<times> crd_message nccp_class) list" where
  "crd_requests junk junk' mem =
    [(NCCP_Operation_NOP, class_of (request_of_bytes junk junk') request_parse (cm_request mem) Ping un_ping),
     (NCCP_Operation_BeginReservation, class_of (request_of_bytes junk junk') begin_reservation_parse
       (cm_begin_reservation mem) Begin_Reservation un_begin_reservation),
     (NCCP_Operation_ReservationAddComponent, class_of (request_of_bytes junk junk') reservation_add_component_parse
       (cm_component mem) Reservation_Add_Component un_reservation_add_component),
     (NCCP_Operation_ReservationAddCluster, class_of (request_of_bytes junk junk') reservation_add_cluster_parse
       (cm_cluster mem) Reservation_Add_Cluster un_reservation_add_cluster),
     (NCCP_Operation_ReservationAddLink, class_of (request_of_bytes junk junk') reservation_add_link_parse
       (cm_link mem) Reservation_Add_Link un_reservation_add_link),
     (NCCP_Operation_CommitReservation, class_of (request_of_bytes junk junk') commit_reservation_parse
       (cm_eid mem) Commit_Reservation un_commit_reservation),
     (NCCP_Operation_ExtendReservation, class_of (request_of_bytes junk junk') extend_reservation_parse
       (cm_extend mem) Extend_Reservation un_extend_reservation),
     (NCCP_Operation_CancelReservation, class_of (request_of_bytes junk junk') cancel_reservation_parse
       (cm_user mem) Cancel_Reservation un_cancel_reservation),
     (NCCP_Operation_BeginSession, class_of (request_of_bytes junk junk') begin_session_parse
       (cm_begin_session mem) Begin_Session un_begin_session),
     (NCCP_Operation_SessionAddComponent, class_of (request_of_bytes junk junk') session_add_component_parse
       (cm_component mem) Session_Add_Component un_session_add_component),
     (NCCP_Operation_SessionAddCluster, class_of (request_of_bytes junk junk') session_add_cluster_parse
       (cm_cluster mem) Session_Add_Cluster un_session_add_cluster),
     (NCCP_Operation_SessionAddLink, class_of (request_of_bytes junk junk') session_add_link_parse
       (cm_link mem) Session_Add_Link un_session_add_link),
     (NCCP_Operation_CommitSession, class_of (request_of_bytes junk junk') commit_session_parse
       (cm_eid mem) Commit_Session un_commit_session),
     (NCCP_Operation_EndSession, class_of (request_of_bytes junk junk') clear_session_parse
       (cm_eid mem) Clear_Session un_clear_session),
     (NCCP_Operation_IAmUp, class_of (request_of_bytes junk junk') i_am_up_parse (cm_i_am_up mem) I_Am_Up un_i_am_up),
     (NCCP_Operation_SessionAddObserver, class_of (request_of_bytes junk junk') add_observer_parse
       (cm_observer mem) Add_Observer un_add_observer),
     (NCCP_Operation_GetObservableSessions, class_of (request_of_bytes junk junk') get_observable_parse
       (cm_user mem) Get_Observable un_get_observable),
     (NCCP_Operation_ObserveSession, class_of (request_of_bytes junk junk') observe_parse
       (cm_observe mem) Observe_Session un_observe_session),
     (NCCP_Operation_GrantObserveSession, class_of (request_of_bytes junk junk') observe_parse
       (cm_observe mem) Grant_Observe un_grant_observe)]"

definition crd_responses ::
    "(nat \<Rightarrow> u8) \<Rightarrow> (nat \<Rightarrow> u8) \<Rightarrow> crd_memory \<Rightarrow> (u8 \<times> crd_message nccp_class) list" where
  "crd_responses junk junk' mem =
    (let node = class_of (response_of_bytes junk junk') crd_response_parse (cm_response mem) Node_Response un_node_response;
         switch = class_of (response_of_bytes junk junk') switch_response_parse (cm_switch mem) Network_Response un_network_response
     in [(NCCP_Operation_StartExperiment, node), (NCCP_Operation_EndExperiment, node), (NCCP_Operation_Refresh, node),
       (NCCP_Operation_CfgNode, node),
       (NCCP_Operation_EndCfgNode, class_of (response_of_bytes junk junk') crd_endconfig_response_parse
         (cm_endconfig mem) Node_Endconfig_Response un_node_endconfig_response),
       (NCCP_Operation_Initialize, switch),
       (NCCP_Operation_AddVlan, class_of (response_of_bytes junk junk') add_vlan_response_parse
         (cm_add_vlan mem) Network_Vlan_Response un_network_vlan_response),
       (NCCP_Operation_DeleteVlan, switch), (NCCP_Operation_AddToVlan, switch), (NCCP_Operation_DeleteFromVlan, switch)])"

definition crd_register ::
    "(nat \<Rightarrow> u8) \<Rightarrow> (nat \<Rightarrow> u8) \<Rightarrow> crd_memory \<Rightarrow> crd_message dispatcher \<Rightarrow> crd_message dispatcher" where
  "crd_register junk junk' mem d =
     fold (\<lambda>(op, T) d. snd (register_resp T op d)) (crd_responses junk junk' mem)
       (fold (\<lambda>(op, T) d. snd (register_req T op d)) (crd_requests junk junk' mem) d)"

text \<open>\<^verbatim>\<open>main\<close>, up to the listener: the tables and the state, and whether the daemon goes on.\<close>

definition crd_main ::
    "(nat \<Rightarrow> u8) \<Rightarrow> (nat \<Rightarrow> u8) \<Rightarrow> crd_memory \<Rightarrow> (addr \<Rightarrow> request option) \<Rightarrow> start_database \<Rightarrow> crd \<Rightarrow>
     crd_message dispatcher \<times> bool \<times> crd" where
  "crd_main junk junk' mem heap db w =
     (crd_register junk junk' mem (dispatcher_new heap), sm_initialize db (session_manager_new w))"

section \<open>The virtual \<^verbatim>\<open>handle\<close>\<close>

text \<open>What a handler meets: the databases, the connection with its remote name, what other threads do while it waits.\<close>

record handling =
  hd_db :: rsv_database
  hd_up :: up_database
  hd_conn :: addr
  hd_hostname :: string
  hd_commit :: "(crd \<Rightarrow> crd) list"
  hd_reserve :: "(rsv_world \<Rightarrow> rsv_world) list"

text \<open>A response has no handler of its own: \<^verbatim>\<open>process_message\<close> gives it to the request that waits for it.\<close>

definition crd_handle :: "handling \<Rightarrow> crd_message \<Rightarrow> onlcrd \<Rightarrow> (bool \<times> onlcrd) option" where
  "crd_handle h m d = (let db = hd_db h; conn = hd_conn h in
     case m of
       Ping r \<Rightarrow> ping_handle d
     | I_Am_Up r \<Rightarrow> i_am_up_handle (hd_up h) (hd_hostname h) d
     | Begin_Reservation r \<Rightarrow> begin_reservation_handle db conn r d
     | Reservation_Add_Component r \<Rightarrow> reservation_add_component_handle conn r d
     | Reservation_Add_Cluster r \<Rightarrow> reservation_add_cluster_handle conn r d
     | Reservation_Add_Link r \<Rightarrow> reservation_add_link_handle conn r d
     | Commit_Reservation r \<Rightarrow> commit_reservation_handle db (hd_reserve h) conn r d
     | Extend_Reservation r \<Rightarrow> extend_reservation_handle db r d
     | Cancel_Reservation r \<Rightarrow> cancel_reservation_handle db r d
     | Begin_Session r \<Rightarrow> begin_session_handle db conn r d
     | Session_Add_Component r \<Rightarrow> session_add_component_handle conn r d
     | Session_Add_Cluster r \<Rightarrow> session_add_cluster_handle conn r d
     | Session_Add_Link r \<Rightarrow> session_add_link_handle conn r d
     | Commit_Session r \<Rightarrow> commit_session_handle (db_base db) (hd_commit h) conn r d
     | Clear_Session r \<Rightarrow> clear_session_handle conn r d
     | Add_Observer r \<Rightarrow> add_observer_handle conn r d
     | Get_Observable r \<Rightarrow> get_observable_handle db r d
     | Observe_Session r \<Rightarrow> observe_session_handle db r d
     | Grant_Observe r \<Rightarrow> grant_observe_handle conn r d
     | _ \<Rightarrow> Some (True, d))"

end
