(* ===== verification/Crd_Service.thy ===== *)
theory Crd_Service
  imports Crd_Main Crd_Properties
begin

text \<open>
  What the user interface can rely on: the answers to a reservation, the end of a session whose
  interface is gone, and the start of the daemon.
\<close>

section \<open>Loops over the requests of a reservation\<close>

text \<open>\<open>answering p as w w'\<close>: from \<open>w\<close> to \<open>w'\<close> exactly the requests \<open>as\<close> were answered, in this order, and of the
  reservations only the topology of \<open>p\<close> changed.\<close>

definition with_topology :: "topology \<Rightarrow> reservation \<Rightarrow> reservation" where
  "with_topology t x = x\<lparr>rv_topology := t\<rparr>"

definition answering :: "rptr \<Rightarrow> asked list \<Rightarrow> rsv_world \<Rightarrow> rsv_world \<Rightarrow> bool" where
  "answering p as w w' \<longleftrightarrow> (\<exists>t. rw_at w' = (rw_at w)(p := map_option (with_topology t) (rw_at w p))) \<and>
     rw_active w' = rw_active w \<and> (\<exists>new. rw_replies w' = rw_replies w @ new \<and> map reply_to new = map Some as)"

lemma with_topology_eq: "with_topology t = rv_topology_update (\<lambda>_. t)"
  by (rule ext) (simp add: with_topology_def)

lemma answeringI:
  assumes "rw_at w' = (rw_at w)(p := map_option (with_topology t) (rw_at w p))" and "rw_active w' = rw_active w"
    and "rw_replies w' = rw_replies w @ new" and "map reply_to new = map Some as"
  shows "answering p as w w'"
  unfolding answering_def using assms by blast

lemma answering_refl: "rw_at w p = Some x \<Longrightarrow> answering p [] w w"
  by (rule answeringI [where t = "rv_topology x" and new = "[]"]) (auto simp: with_topology_def)

lemma answering_trans:
  assumes "answering p as w w1" and "answering p bs w1 w2"
  shows "answering p (as @ bs) w w2"
proof -
  from assms obtain t1 n1 t2 n2 where
    1: "rw_at w1 = (rw_at w)(p := map_option (with_topology t1) (rw_at w p))" "rw_active w1 = rw_active w"
      "rw_replies w1 = rw_replies w @ n1" "map reply_to n1 = map Some as" and
    2: "rw_at w2 = (rw_at w1)(p := map_option (with_topology t2) (rw_at w1 p))" "rw_active w2 = rw_active w1"
      "rw_replies w2 = rw_replies w1 @ n2" "map reply_to n2 = map Some bs"
    unfolding answering_def by blast
  show ?thesis
    by (rule answeringI [where t = t2 and new = "n1 @ n2"])
      (use 1 2 in \<open>auto simp: fun_eq_iff with_topology_eq option.map_comp o_def\<close>)
qed

lemma answering_alive: "answering p as w w' \<Longrightarrow> rw_at w p = Some x \<Longrightarrow> \<exists>t. rw_at w' p = Some (with_topology t x)"
  by (auto simp: answering_def)

lemma topo_op_answering:
  assumes "rw_at w p = Some x"
  shows "\<exists>r w'. rsv_topo_op p f w = Some (r, w') \<and> answering p [] w w'"
proof -
  obtain r t st where f: "f (rv_topology x) (rw_store w) = (r, t, st)" by (metis prod_cases3)
  have "rsv_topo_op p f w = Some (r, upd_rsv p (with_topology t) (w\<lparr>rw_store := st\<rparr>))"
    using assms by (simp add: rsv_topo_op_def f with_topology_def [abs_def])
  moreover have "answering p [] w (upd_rsv p (with_topology t) (w\<lparr>rw_store := st\<rparr>))"
    by (rule answeringI [where t = t and new = "[]"]) (simp_all add: upd_rsv_def)
  ultimately show ?thesis by blast
qed

lemma reply_answering:
  assumes "rw_at w p = Some x" and "reply_to r = Some a"
  shows "answering p [a] w (rsv_reply r w)"
  by (rule answeringI [where t = "rv_topology x" and new = "[r]"])
    (use assms in \<open>auto simp: rsv_reply_def with_topology_def\<close>)

text \<open>One round of a loop: an operation on the topology, the answer, and the rest of the loop.\<close>

lemma answer_then:
  assumes op: "answering p [] w w1" and x: "rw_at w p = Some x" and a: "reply_to r = Some a"
    and rest: "\<And>y. rw_at (rsv_reply r w1) p = Some y \<Longrightarrow>
      \<exists>w'. f (rsv_reply r w1) = Some w' \<and> answering p as (rsv_reply r w1) w'"
  shows "\<exists>w'. f (rsv_reply r w1) = Some w' \<and> answering p (a # as) w w'"
proof -
  from answering_alive [OF op x] obtain x1 where x1: "rw_at w1 p = Some x1" by blast
  have r: "answering p [a] w1 (rsv_reply r w1)" by (rule reply_answering [OF x1 a])
  from answering_alive [OF this x1] rest obtain w' where
    "f (rsv_reply r w1) = Some w'" "answering p as (rsv_reply r w1) w'" by blast
  with answering_trans [OF answering_trans [OF op r], of as w'] show ?thesis by auto
qed

lemma clusters_answering:
  "rw_at w p = Some x \<Longrightarrow> \<exists>w'. rsv_clusters p rs w = Some w' \<and> answering p (map Asked_Cluster rs) w w'"
proof (induction rs arbitrary: w x)
  case Nil
  then show ?case by (auto intro: answering_refl)
next
  case (Cons r rs)
  from topo_op_answering [OF Cons.prems, of "cluster_node r"] obtain res w1 where
    1: "rsv_topo_op p (cluster_node r) w = Some (res, w1)" "answering p [] w w1" by blast
  show ?case
    using answer_then [where f = "rsv_clusters p rs", OF 1(2) Cons.prems reply_to.simps(2) Cons.IH] 1(1) by simp
qed

lemma fix_answering:
  assumes "rw_at w p = Some x"
  shows "\<exists>w'. (if b then Some w else map_option snd (rsv_topo_op p f w)) = Some w' \<and> answering p [] w w'"
  using topo_op_answering [OF assms, of f] answering_refl [OF assms] by auto

lemma components_answering:
  "rw_at w p = Some x \<Longrightarrow> \<exists>w'. rsv_components db p rs w = Some w' \<and> answering p (map Asked_Component rs) w w'"
proof (induction rs arbitrary: w x)
  case Nil
  then show ?case by (auto intro: answering_refl)
next
  case (Cons r rs)
  from topo_op_answering [OF Cons.prems, of "rsv_component_node r"] obtain res w1 where
    1: "rsv_topo_op p (rsv_component_node r) w = Some (res, w1)" "answering p [] w w1" by blast
  from answering_alive [OF 1(2) Cons.prems] obtain x1 where "rw_at w1 p = Some x1" by blast
  from fix_answering [OF this] obtain w2 where
    2: "(if fst res < 1 \<or> c_str (comp_cp (rc_comp r)) = '''' then Some w1
      else map_option snd (rsv_topo_op p (fix_component (db_cluster_of db) (comp_id (rc_comp r))
        (c_str (comp_cp (rc_comp r)))) w1)) = Some w2" "answering p [] w1 w2" by blast
  have "answering p [] w w2" using answering_trans [OF 1(2) 2(2)] by simp
  from answer_then [where f = "rsv_components db p rs", OF this Cons.prems reply_to.simps(3) Cons.IH] 1(1) 2(1)
  show ?case by (simp add: Let_def)
qed

lemma links_answering:
  "rw_at w p = Some x \<Longrightarrow> \<exists>w'. rsv_links db p rs w = Some w' \<and> answering p (map Asked_Link rs) w w'"
proof (induction rs arbitrary: w x)
  case Nil
  then show ?case by (auto intro: answering_refl)
next
  case (Cons r rs)
  from topo_op_answering [OF Cons.prems, of "rsv_link_edge db r"] obtain res w1 where
    1: "rsv_topo_op p (rsv_link_edge db r) w = Some (res, w1)" "answering p [] w w1" by blast
  show ?case
    using answer_then [where f = "rsv_links db p rs", OF 1(2) Cons.prems reply_to.simps(4) Cons.IH] 1(1) by simp
qed

section \<open>A reservation is answered\<close>

text \<open>The requests a reservation still has to answer.\<close>

definition pending_of :: "reservation \<Rightarrow> asked list" where
  "pending_of x = map Asked_Cluster (rv_cluster_reqs x) @ map Asked_Component (rv_component_reqs x) @
     map Asked_Link (rv_link_reqs x) @ (case rv_begin_req x of None \<Rightarrow> [] | Some b \<Rightarrow> [Asked_Begin b])"

text \<open>No pointer of the list leads nowhere.\<close>

definition rsv_ok :: "rsv_world \<Rightarrow> bool" where
  "rsv_ok w \<longleftrightarrow> (\<forall>q \<in> set (rw_active w). rw_at w q \<noteq> None)"

text \<open>\<open>open_rsv p b w\<close>: the reservation has begun with \<open>b\<close> and is not cleared. Threads that leave it so may add
  requests to it and do anything to other reservations.\<close>

definition open_rsv :: "rptr \<Rightarrow> begin_reservation_req \<Rightarrow> rsv_world \<Rightarrow> bool" where
  "open_rsv p b w \<longleftrightarrow> rsv_ok w \<and> (\<exists>x. rw_at w p = Some x \<and> \<not> rv_cleared x \<and> rv_begin_req x = Some b)"

definition leaves_open :: "rptr \<Rightarrow> begin_reservation_req \<Rightarrow> (rsv_world \<Rightarrow> rsv_world) \<Rightarrow> bool" where
  "leaves_open p b f \<longleftrightarrow> (\<forall>w. open_rsv p b w \<longrightarrow> open_rsv p b (f w))"

lemma wait_open:
  assumes "\<forall>f \<in> set env. leaves_open p b f" and "1201 \<le> length env + attempts" and "open_rsv p b w"
  shows "\<exists>all w'. rsv_wait n p attempts env w = Some (all, w') \<and> open_rsv p b w'"
  using assms
proof (induction env arbitrary: attempts w)
  case Nil
  then show ?case by (subst rsv_wait.simps) (auto simp: open_rsv_def)
next
  case (Cons f fs)
  then have "open_rsv p b (f w)" by (simp add: leaves_open_def)
  with Cons.IH [of "Suc attempts" "f w"] Cons.prems obtain all w' where
    "rsv_wait n p (Suc attempts) fs (f w) = Some (all, w')" "open_rsv p b w'" by auto
  with Cons.prems(3) show ?case by (subst rsv_wait.simps) (auto simp: open_rsv_def)
qed

text \<open>What \<^verbatim>\<open>clear\<close> and \<^verbatim>\<open>remove_reservation\<close> do with what is left.\<close>

lemma refusals_pending: "map reply_to (refusals x) = map Some (pending_of x)"
  by (auto simp: refusals_def pending_of_def commit_done_def split: option.split)

lemma erase_conn_some: "\<forall>q \<in> set qs. mem q \<noteq> None \<Longrightarrow> \<exists>rs. erase_conn c mem qs = Some rs \<and> set rs \<subseteq> set qs"
  by (induction qs) fastforce+

lemma remove_reservation_answers:
  assumes ok: "rsv_ok w" and x: "rw_at w p = Some x" and uncleared: "\<not> rv_cleared x"
  shows "\<exists>new w'. sm_remove_reservation p w = Some w' \<and> rw_replies w' = rw_replies w @ new \<and>
    map reply_to new = map Some (pending_of x) \<and> rw_at w' p = None"
proof -
  let ?x = "(set_rsv_requests [] [] [] x)\<lparr>rv_cleared := True, rv_begin_req := None\<rparr>"
  let ?w = "upd_rsv p (\<lambda>x. (set_rsv_requests [] [] [] x)\<lparr>rv_cleared := True, rv_begin_req := None\<rparr>)
    (w\<lparr>rw_replies := rw_replies w @ refusals x\<rparr>)"
  have clear: "reservation_clear p w = Some ?w" by (simp add: reservation_clear_def x uncleared)
  have at: "rw_at ?w = (rw_at w)(p \<mapsto> ?x)" and act: "rw_active ?w = rw_active w"
    by (simp_all add: upd_rsv_def x)
  have "\<forall>q \<in> set (rw_active ?w). rw_at ?w q \<noteq> None" using ok by (auto simp: rsv_ok_def at act)
  from erase_conn_some [OF this] obtain qs where qs: "erase_conn (rv_conn ?x) (rw_at ?w) (rw_active ?w) = Some qs"
    by blast
  have "sm_remove_reservation p w = Some (?w\<lparr>rw_active := qs, rw_at := (rw_at ?w)(p := None)\<rparr>)"
    using qs by (simp add: sm_remove_reservation_def clear at)
  then show ?thesis using refusals_pending by (fastforce simp: upd_rsv_def)
qed

lemma rsv_ok_answering:
  assumes "answering p as w w'" and "rsv_ok w"
  shows "rsv_ok w'"
  using assms by (auto simp: answering_def rsv_ok_def)

text \<open>The end of \<^verbatim>\<open>commit\<close>: the request that began the reservation is answered and forgotten.\<close>

lemma reserve_answers:
  assumes x: "rw_at w p = Some x" and b: "rv_begin_req x = Some b" and ok: "rsv_ok w"
  shows "\<exists>r y w'. reserve db p w = Some w' \<and> rw_replies w' = rw_replies w @ [r] \<and> reply_to r = Some (Asked_Begin b) \<and>
    rsv_ok w' \<and> rw_at w' p = Some y \<and> rv_begin_req y = None \<and> rv_cleared y = rv_cleared x \<and>
    rv_cluster_reqs y = rv_cluster_reqs x \<and> rv_component_reqs y = rv_component_reqs x \<and> rv_link_reqs y = rv_link_reqs x"
proof -
  let ?f = "db_make_reservation db (rv_user x) (c_str (br_early b)) (c_str (br_late b)) (br_duration b)"
  from topo_op_answering [OF x, of ?f] obtain r w1 where
    1: "rsv_topo_op p ?f w = Some (r, w1)" "answering p [] w w1" by blast
  obtain res msg where r: "r = (res, msg)" by (cases r)
  from answering_alive [OF 1(2) x] obtain t where x1: "rw_at w1 p = Some (with_topology t x)" by blast
  have rep: "rw_replies w1 = rw_replies w" using 1(2) by (auto simp: answering_def)
  have "rsv_ok w1" by (rule rsv_ok_answering [OF 1(2) ok])
  with 1(1) x1 rep show ?thesis
    by (auto simp: reserve_def sm_make_reservation_def x b r commit_done_def upd_rsv_def rsv_reply_def rsv_ok_def
        with_topology_def)
qed

lemma commit_answers:
  assumes x: "rw_at w p = Some x" and b: "rv_begin_req x = Some b" and ok: "rsv_ok w"
  shows "\<exists>new y w'. (do {
         w \<leftarrow> rsv_clusters p (rv_cluster_reqs x) w;
         w \<leftarrow> rsv_components db p (rv_component_reqs x) w;
         w \<leftarrow> rsv_links db p (rv_link_reqs x) w;
         reserve db p (upd_rsv p (set_rsv_requests [] [] []) w) }) = Some w' \<and>
    rw_replies w' = rw_replies w @ new \<and> map reply_to new = map Some (pending_of x) \<and> rsv_ok w' \<and>
    rw_at w' p = Some y \<and> rv_cleared y = rv_cleared x \<and> pending_of y = []"
proof -
  from clusters_answering [OF x] obtain w1 where
    1: "rsv_clusters p (rv_cluster_reqs x) w = Some w1" "answering p (map Asked_Cluster (rv_cluster_reqs x)) w w1" by blast
  from answering_alive [OF 1(2) x] obtain x1 where "rw_at w1 p = Some x1" by blast
  from this components_answering [OF this] obtain w2 where x1: "rw_at w1 p = Some x1" and
    2: "rsv_components db p (rv_component_reqs x) w1 = Some w2"
      "answering p (map Asked_Component (rv_component_reqs x)) w1 w2" by blast
  from answering_alive [OF 2(2) x1] obtain x2 where "rw_at w2 p = Some x2" by blast
  from links_answering [OF this] obtain w3 where
    3: "rsv_links db p (rv_link_reqs x) w2 = Some w3" "answering p (map Asked_Link (rv_link_reqs x)) w2 w3" by blast
  have a: "answering p (map Asked_Cluster (rv_cluster_reqs x) @ map Asked_Component (rv_component_reqs x) @
      map Asked_Link (rv_link_reqs x)) w w3"
    using answering_trans [OF answering_trans [OF 1(2) 2(2)] 3(2)] by simp
  then obtain n3 where n3: "rw_replies w3 = rw_replies w @ n3" "map reply_to n3 = map Some
      (map Asked_Cluster (rv_cluster_reqs x) @ map Asked_Component (rv_component_reqs x) @ map Asked_Link (rv_link_reqs x))"
    unfolding answering_def by blast
  from answering_alive [OF a x] obtain t where x3: "rw_at w3 p = Some (with_topology t x)" by blast
  let ?w = "upd_rsv p (set_rsv_requests [] [] []) w3" and ?y = "set_rsv_requests [] [] [] (with_topology t x)"
  have y: "rw_at ?w p = Some ?y" by (simp add: upd_rsv_def x3)
  have "rv_begin_req ?y = Some b" by (simp add: b set_rsv_requests_def with_topology_def)
  moreover have "rsv_ok ?w" using rsv_ok_answering [OF a ok] by (auto simp: rsv_ok_def upd_rsv_def)
  ultimately obtain r z w' where
    "reserve db p ?w = Some w'" "rw_replies w' = rw_replies ?w @ [r]" "reply_to r = Some (Asked_Begin b)" "rsv_ok w'"
    "rw_at w' p = Some z" "rv_begin_req z = None" "rv_cleared z = rv_cleared ?y" "rv_cluster_reqs z = []"
    "rv_component_reqs z = []" "rv_link_reqs z = []"
    using reserve_answers [OF y, where db = db] by (fastforce simp: set_rsv_requests_def)
  with 1(1) 2(1) 3(1) n3 b show ?thesis
    by (intro exI [of _ "n3 @ [r]"] exI [of _ z] exI [of _ w'])
      (simp add: pending_of_def upd_rsv_def set_rsv_requests_def with_topology_def)
qed

text \<open>C4: Committing a reservation answers every request that it has collected exactly once, in the order clusters,
  components, links, and then the request that began it, and deletes the reservation. This holds whatever the topology and the
  database say, also when requests are still missing after a minute, and whatever other threads do in between, as long
  as they leave this reservation open: \<open>x\<close> is the reservation as the wait leaves it.\<close>

theorem reservation_answered:
  assumes "sm_get_reservation conn (c_str (eid req)) (oc_rsv d) = Some (Some p)" and "open_rsv p b (oc_rsv d)"
    and "\<forall>f \<in> set env. leaves_open p b f" and "1200 < length env"
  shows "\<exists>all w x new d'. rsv_wait (br_num_reqs b) p 0 env (oc_rsv d) = Some (all, w) \<and> rw_at w p = Some x \<and>
    rv_begin_req x = Some b \<and> commit_reservation_handle db env conn req d = Some (True, d') \<and>
    rw_replies (oc_rsv d') = rw_replies w @ new \<and> map reply_to new = map Some (pending_of x) \<and>
    rw_at (oc_rsv d') p = None"
proof -
  from wait_open [OF assms(3) _ assms(2), of 0 "br_num_reqs b"] assms(4) obtain all w where
    wait: "rsv_wait (br_num_reqs b) p 0 env (oc_rsv d) = Some (all, w)" and opn: "open_rsv p b w" by auto
  from opn obtain x where x: "rw_at w p = Some x" "rv_begin_req x = Some b" "\<not> rv_cleared x" and ok: "rsv_ok w"
    by (auto simp: open_rsv_def)
  from assms(2) obtain x0 where x0: "rw_at (oc_rsv d) p = Some x0" "rv_begin_req x0 = Some b" "\<not> rv_cleared x0"
    by (auto simp: open_rsv_def)
  show ?thesis
  proof (cases all)
    case False
    from remove_reservation_answers [OF ok x(1,3)] obtain new w' where "sm_remove_reservation p w = Some w'"
      "rw_replies w' = rw_replies w @ new" "map reply_to new = map Some (pending_of x)" "rw_at w' p = None" by blast
    with wait x x0 False show ?thesis
      by (intro exI [of _ False]) (simp add: commit_reservation_handle_def reservation_commit_def assms(1))
  next
    case True
    from commit_answers [OF x(1,2) ok, of db] obtain new y w1 where c: "reservation_commit db env p (oc_rsv d) = Some w1"
      "rw_replies w1 = rw_replies w @ new" "map reply_to new = map Some (pending_of x)" "rsv_ok w1"
      "rw_at w1 p = Some y" "rv_cleared y = rv_cleared x" "pending_of y = []"
      using wait x x0 True by (fastforce simp: reservation_commit_def)
    from remove_reservation_answers [OF c(4,5)] c(6,7) x(3) obtain w' where "sm_remove_reservation p w1 = Some w'"
      "rw_replies w' = rw_replies w1" "rw_at w' p = None" by auto
    with wait x c show ?thesis
      by (simp add: commit_reservation_handle_def assms(1))
  qed
qed

text \<open>C37: When a user interface has begun two reservations on one connection and commits the second, the list keeps the
  pointer to the second, which is deleted, and loses the first: every later request for a reservation on this
  connection follows the pointer to freed memory.\<close>

theorem reservation_dangling:
  assumes "rw_active w = ps @ p # q # rs" and "rw_at w p = Some x" and "rw_at w q = Some y" and "p \<noteq> q"
    and "rv_conn x = rv_conn y" and "\<forall>o1 \<in> set ps. \<exists>z. rw_at w o1 = Some z \<and> rv_conn z \<noteq> rv_conn y"
  shows "\<exists>w'. sm_remove_reservation q w = Some w' \<and> rw_active w' = ps @ q # rs \<and> rw_at w' q = None \<and>
    p \<notin> set ps \<and> (\<forall>rid. sm_get_reservation (rv_conn y) rid w' = None)"
proof -
  have "\<exists>w1 y1. reservation_clear q w = Some w1 \<and> rw_active w1 = rw_active w \<and> rw_at w1 = (rw_at w)(q \<mapsto> y1) \<and>
    rv_conn y1 = rv_conn y"
  proof (cases "rv_cleared y")
    case True
    with assms(3) show ?thesis by (intro exI [of _ w] exI [of _ y]) (auto simp: reservation_clear_def)
  qed (use assms(3) in \<open>auto simp: reservation_clear_def upd_rsv_def set_rsv_requests_def\<close>)
  then obtain w1 y1 where 1: "reservation_clear q w = Some w1" "rw_active w1 = rw_active w"
    "rw_at w1 = (rw_at w)(q \<mapsto> y1)" "rv_conn y1 = rv_conn y" by blast
  have off: "q \<notin> set ps" "p \<notin> set ps" using assms(2,3,5,6) by auto
  have "erase_conn (rv_conn y) (rw_at w1) (ps @ p # q # rs) = Some (ps @ q # rs)"
    using assms(6) off(1) assms(2,4,5) by (induction ps) (auto simp: 1(3))
  then have 2: "sm_remove_reservation q w = Some (w1\<lparr>rw_active := ps @ q # rs, rw_at := (rw_at w1)(q := None)\<rparr>)"
    using 1 assms(1) by (simp add: sm_remove_reservation_def)
  have "find_rsv (\<lambda>z. rv_conn z = rv_conn y \<and> rv_id z = rid) ((rw_at w1)(q := None)) (ps @ q # rs) = None" for rid
    using assms(6) off(1) by (induction ps) (auto simp: 1(3))
  then show ?thesis using 2 off(2) by (simp add: sm_get_reservation_def)
qed

section \<open>Concrete reservations\<close>

definition sample_begin :: begin_reservation_req where
  "sample_begin = blank_request \<lparr>br_username = nstr_of ''jst'', br_password = nstr_of '''', br_early = nstr_of '''',
     br_late = nstr_of '''', br_duration = 60, br_num_reqs = 1\<rparr>"

definition sample_rsv :: reservation where
  "sample_rsv = set_begin_request sample_begin (reservation_new 1 ''jst'' 5)"

definition sample_rsvs :: rsv_world where
  "sample_rsvs = \<lparr>rw_at = [0 \<mapsto> sample_rsv, 1 \<mapsto> sample_rsv\<lparr>rv_id := ''2''\<rparr>], rw_count = 2, rw_active = [0, 1], rw_next_id = 3,
     rw_store = empty_store, rw_replies = []\<rparr>"

definition sample_eid :: eid_req where
  "sample_eid = blank_request \<lparr>eid = nstr_of (int2str 1)\<rparr>"

definition sample_rsv_database :: rsv_database where
  "sample_rsv_database = \<lparr>db_base = sample_database, db_authenticate = (\<lambda>_ _. True), db_time_left = (\<lambda>_. 60),
     db_extend = (\<lambda>_ _. True), db_cancel = (\<lambda>_ _. True), db_cluster_of = (\<lambda>_. Some None),
     db_make_reservation = (\<lambda>_ _ _ _ t st. ((1, ''20131112080000''), t, st))\<rparr>"

definition sample_onlcrd :: onlcrd where
  "sample_onlcrd = \<lparr>oc_crd = sample_daemon (\<lambda>_. True), oc_rsv = sample_rsvs\<rparr>"

text \<open>The link that the reservation waits for arrives, again and again.\<close>

definition link_arrives :: "rsv_world \<Rightarrow> rsv_world" where
  "link_arrives = upd_rsv 0 (rsv_add_link (sample_request 7))"

lemma link_arrives_open: "leaves_open 0 b link_arrives"
  by (auto simp: leaves_open_def open_rsv_def rsv_ok_def link_arrives_def upd_rsv_def rsv_add_link_def)

lemma sample_wait: "rsv_wait 1 0 0 (replicate 1201 link_arrives) sample_rsvs = Some (True, link_arrives sample_rsvs)"
proof -
  have "replicate 1201 link_arrives = link_arrives # replicate 1200 link_arrives" by (simp flip: replicate_Suc)
  then show ?thesis
    by (simp add: rsv_wait.simps [of _ _ 0] rsv_wait.simps [of _ _ "Suc 0"] sample_rsvs_def sample_rsv_def set_begin_request_def
        reservation_new_def rsv_num_requests_def link_arrives_def upd_rsv_def rsv_add_link_def)
qed

theorem reservation_answered_witness:
  "\<exists>d'. commit_reservation_handle sample_rsv_database (replicate 1201 link_arrives) 5 sample_eid sample_onlcrd = Some (True, d') \<and>
    map reply_to (rw_replies (oc_rsv d')) = [Some (Asked_Link (sample_request 7)), Some (Asked_Begin sample_begin)] \<and>
    rw_at (oc_rsv d') 0 = None"
proof -
  have at: "rw_at sample_rsvs 0 = Some sample_rsv" by (simp add: sample_rsvs_def)
  have "c_str (nstr_of (int2str 1)) = int2str 1" by code_simp
  moreover have "eid sample_eid = nstr_of (int2str 1)" by (simp add: sample_eid_def blank_request_def)
  moreover have "rv_id sample_rsv = int2str 1"
    by (simp add: sample_rsv_def set_begin_request_def reservation_new_def)
  ultimately have id: "c_str (eid sample_eid) = rv_id sample_rsv" by presburger
  have found: "sm_get_reservation 5 (c_str (eid sample_eid)) (oc_rsv sample_onlcrd) = Some (Some 0)"
    by (simp add: sm_get_reservation_def id sample_onlcrd_def sample_rsvs_def) (simp add: sample_rsv_def set_begin_request_def
        reservation_new_def)
  have opn: "open_rsv 0 sample_begin (oc_rsv sample_onlcrd)"
    by (auto simp: open_rsv_def rsv_ok_def sample_onlcrd_def sample_rsvs_def)
      (simp_all add: sample_rsv_def set_begin_request_def reservation_new_def)
  have n: "br_num_reqs sample_begin = 1" by (simp add: sample_begin_def blank_request_def)
  from reservation_answered [OF found opn, of "replicate 1201 link_arrives" sample_rsv_database] sample_wait link_arrives_open
  obtain x new d' where d': "rw_at (link_arrives sample_rsvs) 0 = Some x"
    "commit_reservation_handle sample_rsv_database (replicate 1201 link_arrives) 5 sample_eid sample_onlcrd = Some (True, d')"
    "rw_replies (oc_rsv d') = rw_replies (link_arrives sample_rsvs) @ new" "map reply_to new = map Some (pending_of x)"
    "rw_at (oc_rsv d') 0 = None"
    by (auto simp: n) (simp add: sample_onlcrd_def)
  have "x = rsv_add_link (sample_request 7) sample_rsv" using d'(1) at by (simp add: link_arrives_def upd_rsv_def)
  then have "pending_of x = [Asked_Link (sample_request 7), Asked_Begin sample_begin]"
    by (simp add: pending_of_def rsv_add_link_def sample_rsv_def set_begin_request_def reservation_new_def)
  moreover have "rw_replies (link_arrives sample_rsvs) = []" by (simp add: link_arrives_def upd_rsv_def sample_rsvs_def)
  ultimately show ?thesis using d' by simp
qed

theorem reservation_dangling_witness:
  "\<exists>w'. sm_remove_reservation 1 sample_rsvs = Some w' \<and> rw_active w' = [1] \<and> rw_at w' 1 = None \<and>
    sm_get_reservation 5 ''1'' w' = None"
proof -
  have "rv_conn sample_rsv = 5" by (simp add: sample_rsv_def set_begin_request_def reservation_new_def)
  then show ?thesis
    using reservation_dangling [of sample_rsvs "[]" 0 1 "[]" sample_rsv "sample_rsv\<lparr>rv_id := ''2''\<rparr>"]
    by (auto simp: sample_rsvs_def)
qed

end
