(* ===== verification/Crd_Closing.thy ===== *)
theory Crd_Closing
  imports Crd_Service
begin

text \<open>
  What closing a session can touch: the session itself, its components and its links. The threads it starts refresh these,
  and what it answers are requests of its own, or that one of its components still holds.
\<close>

named_theorems closings \<open>operations on what a session owns\<close>

section \<open>What belongs to a session\<close>

text \<open>The requests to add a component that the components of a session hold unanswered, and the names of their nodes.\<close>

definition held_reqs :: "crd_session \<Rightarrow> crd \<Rightarrow> session_add_component_req set" where
  "held_reqs x w = {r. \<exists>c \<in> set (ss_components x). cc_compreq (comp_at w c) = Some r}"

definition held_nodes :: "crd_session \<Rightarrow> crd \<Rightarrow> string set" where
  "held_nodes x w = (\<lambda>c. cc_name (comp_at w c)) ` set (ss_components x)"

fun own_event :: "crd_session \<Rightarrow> session_add_component_req set \<Rightarrow> string set \<Rightarrow> event \<Rightarrow> bool" where
  "own_event x R N (Component_Response r st n p u) \<longleftrightarrow> r \<in> set (ss_component_reqs x) \<union> R"
| "own_event x R N (Cluster_Response r st i) \<longleftrightarrow> r \<in> set (ss_cluster_reqs x)"
| "own_event x R N (Link_Response r st) \<longleftrightarrow> r \<in> set (ss_link_reqs x)"
| "own_event x R N (Observe_Response u msg st) \<longleftrightarrow> u \<in> set (ss_observe_reqs x)"
| "own_event x R N (Nmd_End_Session i) \<longleftrightarrow> i = ss_id x"
| "own_event x R N (Db_Return u) \<longleftrightarrow> u = ss_user x"
| "own_event x R N (Mapping_File u m) \<longleftrightarrow> u = ss_user x"
| "own_event x R N (Db_State n st) \<longleftrightarrow> n \<in> N"
| "own_event x R N (Command t) \<longleftrightarrow> (\<exists>n \<in> N. t = ''/root/scripts/power_cycle_node.pl '' @ n) \<or>
     t = ''/usr/testbed/scripts/clear_exp.sh '' @ ss_user x @ '' '' @ ss_id x"
| "own_event x R N _ \<longleftrightarrow> False"

fun own_action :: "crd_session \<Rightarrow> action \<Rightarrow> bool" where
  "own_action x (Component_Do_Refresh c) \<longleftrightarrow> c \<in> set (ss_components x)"
| "own_action x (Component_Clear c) \<longleftrightarrow> c \<in> set (ss_components x)"
| "own_action x (Link_Do_Refresh k) \<longleftrightarrow> k \<in> set (ss_links x)"
| "own_action x (Link_Clear_Session k) \<longleftrightarrow> k \<in> set (ss_links x)"
| "own_action x _ \<longleftrightarrow> False"

definition same_others :: "sptr \<Rightarrow> crd_session \<Rightarrow> crd \<Rightarrow> crd \<Rightarrow> bool" where
  "same_others s x w w' \<longleftrightarrow> active_sessions w' = active_sessions w \<and>
     (\<forall>t. t \<noteq> s \<longrightarrow> sess_at w' t = sess_at w t) \<and>
     (\<forall>c. c \<notin> set (ss_components x) \<longrightarrow> comp_at w' c = comp_at w c) \<and>
     (\<forall>k. k \<notin> set (ss_links x) \<longrightarrow> clink_at w' k = clink_at w k) \<and>
     vlan_at w' = vlan_at w \<and> num_ports_on_vlan w' = num_ports_on_vlan w"

definition own_output :: "crd_session \<Rightarrow> crd \<Rightarrow> crd \<Rightarrow> bool" where
  "own_output x w w' \<longleftrightarrow>
     (\<exists>es. w_log w' = w_log w @ es \<and> (\<forall>e \<in> set es. own_event x (held_reqs x w) (held_nodes x w) e)) \<and>
     (\<exists>ts. w_threads w' = w_threads w @ ts \<and> (\<forall>t \<in> set ts. \<forall>a \<in> set t. own_action x a))"

definition spares_others :: "sptr \<Rightarrow> crd_session \<Rightarrow> crd \<Rightarrow> crd \<Rightarrow> bool" where
  "spares_others s x w w' \<longleftrightarrow> same_others s x w w' \<and> own_output x w w'"

text \<open>What the operations need: no component takes a new request or another name, and the session, which is closed, keeps its
  user and gets no new observers.\<close>

definition own_kept :: "sptr \<Rightarrow> crd_session \<Rightarrow> crd \<Rightarrow> crd \<Rightarrow> bool" where
  "own_kept s x w w' \<longleftrightarrow> (\<forall>c. cc_compreq (comp_at w' c) = cc_compreq (comp_at w c) \<or> cc_compreq (comp_at w' c) = None) \<and>
     (\<forall>c. cc_name (comp_at w' c) = cc_name (comp_at w c)) \<and> ss_cleared (sess_at w' s) \<and>
     ss_user (sess_at w' s) = ss_user x \<and> set (ss_observe_reqs (sess_at w' s)) \<subseteq> set (ss_observe_reqs x)"

definition closing :: "sptr \<Rightarrow> crd_session \<Rightarrow> crd \<Rightarrow> crd \<Rightarrow> bool" where
  "closing s x w w' \<longleftrightarrow> same_others s x w w' \<and> own_output x w w' \<and> own_kept s x w w'"

lemmas closing_defs = closing_def same_others_def own_output_def own_kept_def

lemma closing_start:
  "x = sess_at w s \<Longrightarrow> closing s x w (upd_sess s (\<lambda>y. y\<lparr>ss_cleared := True\<rparr>) w)"
  "x = sess_at w s \<Longrightarrow> ss_cleared x \<Longrightarrow> closing s x w w"
  by (simp_all add: closing_defs upd_sess_def)

section \<open>The parts of the operations\<close>

lemma closing_upd_comp [closings]:
  assumes "closing s x w0 w" "c \<in> set (ss_components x)"
    "\<And>y. cc_compreq (f y) = cc_compreq y \<or> cc_compreq (f y) = None" "\<And>y. cc_name (f y) = cc_name y"
  shows "closing s x w0 (upd_comp c f w)"
proof -
  have "same_others s x w0 (upd_comp c f w)" using assms(1,2) by (simp add: closing_def same_others_def upd_comp_def)
  moreover have "own_output x w0 (upd_comp c f w)" using assms(1) by (simp add: closing_def own_output_def upd_comp_def)
  moreover have "own_kept s x w0 (upd_comp c f w)"
  proof -
    have "own_kept s x w0 w" using assms(1) by (simp add: closing_def)
    then show ?thesis unfolding own_kept_def upd_comp_def using assms(3,4) by simp metis
  qed
  ultimately show ?thesis by (simp add: closing_def)
qed

lemma closing_upd_clink [closings]:
  "closing s x w0 w \<Longrightarrow> k \<in> set (ss_links x) \<Longrightarrow> closing s x w0 (upd_clink k f w)"
  by (simp add: closing_defs upd_clink_def)

lemma closing_upd_sess [closings]:
  "closing s x w0 w \<Longrightarrow> (\<And>y. ss_user (f y) = ss_user y) \<Longrightarrow> (\<And>y. set (ss_observe_reqs (f y)) \<subseteq> set (ss_observe_reqs y)) \<Longrightarrow>
     (\<And>y. ss_cleared y \<Longrightarrow> ss_cleared (f y)) \<Longrightarrow> closing s x w0 (upd_sess s f w)"
  unfolding closing_defs by (simp add: upd_sess_def) (meson subset_trans)

lemma closing_emit [closings]:
  assumes "closing s x w0 w" "own_event x (held_reqs x w0) (held_nodes x w0) e"
  shows "closing s x w0 (emit e w)"
proof -
  obtain es where "w_log w = w_log w0 @ es" "\<forall>e \<in> set es. own_event x (held_reqs x w0) (held_nodes x w0) e"
    using assms(1) by (auto simp: closing_def own_output_def)
  then have "\<exists>es'. w_log (emit e w) = w_log w0 @ es' \<and> (\<forall>e \<in> set es'. own_event x (held_reqs x w0) (held_nodes x w0) e)"
    using assms(2) by (intro exI [of _ "es @ [e]"]) (simp add: emit_def)
  then show ?thesis using assms(1) unfolding closing_defs by (simp add: emit_def)
qed

lemma closing_spawn [closings]:
  assumes "closing s x w0 w" "\<forall>a \<in> set t. own_action x a"
  shows "closing s x w0 (spawn t w)"
proof -
  obtain ts where "w_threads w = w_threads w0 @ ts" "\<forall>t \<in> set ts. \<forall>a \<in> set t. own_action x a"
    using assms(1) by (auto simp: closing_def own_output_def)
  then have "\<exists>ts'. w_threads (spawn t w) = w_threads w0 @ ts' \<and> (\<forall>t \<in> set ts'. \<forall>a \<in> set t. own_action x a)"
    using assms(2) by (intro exI [of _ "ts @ [t]"]) (auto simp: spawn_def)
  then show ?thesis using assms(1) unfolding closing_defs by (simp add: spawn_def)
qed

lemma closing_outside [closings]:
  "closing s x w0 w \<Longrightarrow> closing s x w0 (snd (next_thread w))" "closing s x w0 w \<Longrightarrow> closing s x w0 (snd (next_answer w))"
  "closing s x w0 w \<Longrightarrow> closing s x w0 (snd (next_state w))" "closing s x w0 w \<Longrightarrow> closing s x w0 (w\<lparr>res_store := st\<rparr>)"
  "closing s x w0 w \<Longrightarrow> closing s x w0 (w\<lparr>active_components := a\<rparr>)"
  "closing s x w0 w \<Longrightarrow> closing s x w0 (w\<lparr>refreshing_components := r\<rparr>)"
  "closing s x w0 w \<Longrightarrow> closing s x w0 (w\<lparr>active_components := a, refreshing_components := r\<rparr>)"
  "closing s x w0 w \<Longrightarrow> closing s x w0 (w\<lparr>refreshing_components := r, initializing := i\<rparr>)"
  by (simp_all add: closing_defs next_thread_def next_answer_def next_state_def)

lemma closing_if [closings]:
  "(b \<Longrightarrow> closing s x w0 w) \<Longrightarrow> (\<not> b \<Longrightarrow> closing s x w0 w') \<Longrightarrow> closing s x w0 (if b then w else w')"
  by simp

lemma closing_fold:
  "closing s x w0 w \<Longrightarrow> (\<And>y w. y \<in> set ys \<Longrightarrow> closing s x w0 w \<Longrightarrow> closing s x w0 (f y w)) \<Longrightarrow> closing s x w0 (fold f ys w)"
  by (induction ys arbitrary: w) auto

lemma closing_held: "closing s x w0 w \<Longrightarrow> c \<in> set (ss_components x) \<Longrightarrow> cc_compreq (comp_at w c) = Some r \<Longrightarrow> r \<in> held_reqs x w0"
  unfolding closing_def own_kept_def held_reqs_def by (metis (mono_tags, lifting) mem_Collect_eq option.distinct(1))

lemma closing_named: "closing s x w0 w \<Longrightarrow> c \<in> set (ss_components x) \<Longrightarrow> cname c w \<in> held_nodes x w0"
  by (simp add: closing_def own_kept_def held_nodes_def cname_def)

section \<open>Links and components\<close>

lemma closing_topo_op [closings]: "closing s x w0 w \<Longrightarrow> closing s x w0 (snd (topo_op s f w))"
  unfolding topo_op_def Let_def split_beta snd_conv by (intro closings) simp_all

lemma closing_close_link: "closing s x w0 w \<Longrightarrow> k \<in> set (ss_links x) \<Longrightarrow> closing s x w0 (close_link s k w)"
  unfolding close_link_def link_refresh_def link_clear_session_def set_link_state_def Let_def split_beta
  by (intro closings) simp_all

lemma closing_take_request [closings]:
  assumes "closing s x w0 w" "c \<in> set (ss_components x)"
  shows "closing s x w0 (take_request c failed w)"
  using assms closing_held [OF assms] unfolding take_request_def component_failed_def
  by (cases "cc_compreq (comp_at w c)") (simp, simp, intro closings conjI impI, simp_all)

lemma closing_get_state [closings]: "closing s x w0 w \<Longrightarrow> closing s x w0 (snd (comp_get_state c w))"
  unfolding comp_get_state_def Let_def split_beta by (simp add: closings)

lemma closing_power_cycle [closings]:
  "closing s x w0 w \<Longrightarrow> c \<in> set (ss_components x) \<Longrightarrow> closing s x w0 (power_cycle c w)"
  unfolding power_cycle_def by (intro closings) (simp_all add: closing_named)

lemma closing_set_state [closings]:
  "closing s x w0 w \<Longrightarrow> c \<in> set (ss_components x) \<Longrightarrow> closing s x w0 (comp_set_state c st w)"
  unfolding comp_set_state_def Let_def
  by (intro closings) (simp_all add: closing_named closing_named [unfolded cname_def] cname_def upd_comp_def power_cycle_def emit_def)

lemma closing_set_local_state [closings]:
  "closing s x w0 w \<Longrightarrow> c \<in> set (ss_components x) \<Longrightarrow> closing s x w0 (set_local_state c st w)"
  unfolding set_local_state_def by (intro closings) simp_all

lemma closing_cleanup_links [closings]:
  "closing s x w0 w \<Longrightarrow> c \<in> set (ss_components x) \<Longrightarrow> closing s x w0 (cleanup_links c False w)"
  unfolding cleanup_links_def set_comp_links_def if_False by (intro closings) simp_all

lemma closing_clear_component [closings]:
  "closing s x w0 w \<Longrightarrow> c \<in> set (ss_components x) \<Longrightarrow> closing s x w0 (sm_clear_component c w)"
  unfolding sm_clear_component_def comp_clear_session_def Let_def by (intro closings) simp_all

lemma closing_start_refresh [closings]:
  "closing s x w0 w \<Longrightarrow> c \<in> set (ss_components x) \<Longrightarrow> closing s x w0 (start_refresh c w)"
  unfolding start_refresh_def give_up_def to_repair_def Let_def split_beta by (intro closings) simp_all

lemma closing_refresh [closings]:
  "closing s x w0 w \<Longrightarrow> c \<in> set (ss_components x) \<Longrightarrow> closing s x w0 (comp_refresh c w)"
  unfolding comp_refresh_def refresh_in_def Let_def split_beta by (intro closings) simp_all

lemma closing_close_component:
  "closing s x w0 w \<Longrightarrow> c \<in> set (ss_components x) \<Longrightarrow> closing s x w0 (close_component s c w)"
  unfolding close_component_def sm_remove_component_def comp_reset_params_def Let_def split_beta by (intro closings) simp_all

section \<open>Closing a session\<close>

lemma closing_emits: "closing s x w0 w \<Longrightarrow> (\<And>r. r \<in> set rs \<Longrightarrow> own_event x (held_reqs x w0) (held_nodes x w0) (f r)) \<Longrightarrow>
    closing s x w0 (fold (\<lambda>r. emit (f r)) rs w)"
  by (rule closing_fold) (auto intro: closings)

lemma closing_refuse_observers [closings]: "closing s x w0 w \<Longrightarrow> closing s x w0 (refuse_observers s w)"
  unfolding refuse_observers_def
  by (intro closings closing_emits) (auto simp: closing_def own_kept_def)

lemma closing_clear_mapping [closings]: "closing s x w0 w \<Longrightarrow> closing s x w0 (clear_mapping s w)"
  unfolding clear_mapping_def by (intro closings) (auto simp: closing_def own_kept_def)

text \<open>The session as its requests are refused: what it owns it keeps until it is closed.\<close>

lemma closing_refuse_requests:
  fixes s w
  defines "v \<equiv> refuse_requests s (upd_sess s (\<lambda>y. y\<lparr>ss_cleared := True\<rparr>) w)" and "x \<equiv> sess_at w s"
  shows "closing s x w v" "sess_at v s = x\<lparr>ss_cleared := True, ss_cluster_reqs := [], ss_component_reqs := [], ss_link_reqs := []\<rparr>"
proof -
  have kept: "sess_at (fold (\<lambda>r. emit (f r)) rs u) = sess_at u" for f :: "'a \<Rightarrow> event" and rs u
    by (induction rs arbitrary: u) (simp_all add: emit_def)
  show "sess_at v s = x\<lparr>ss_cleared := True, ss_cluster_reqs := [], ss_component_reqs := [], ss_link_reqs := []\<rparr>"
    by (simp add: v_def x_def refuse_requests_def set_requests_def upd_sess_def Let_def kept)
  show "closing s x w v"
    unfolding v_def refuse_requests_def set_requests_def component_failed_def Let_def
    by (intro closing_upd_sess [where f = "\<lambda>y. y\<lparr>ss_cluster_reqs := [], ss_component_reqs := [], ss_link_reqs := []\<rparr>"]
        closing_emits closing_start(1)) (simp_all add: x_def upd_sess_def)
qed

lemma closing_session_clear: "closing s (sess_at w s) w (crd_session_clear s w)"
proof (cases "ss_cleared (sess_at w s)")
  case True
  then show ?thesis by (simp add: crd_session_clear_def closing_start(2))
next
  case False
  note v = closing_refuse_requests [of s w]
  show ?thesis
    using False v(2) unfolding crd_session_clear_def clear_session_vlans_def clear_script_def ask_def Let_def split_beta
    by (simp, intro closings closing_fold closing_close_link closing_close_component v(1) conjI impI) simp_all
qed

end
