(* ===== verification/Crd_Watch.thy ===== *)
theory Crd_Watch
  imports Crd_Closing
begin

text \<open>
  The end of a session: closing it touches no other session (\<open>Crd_Closing\<close>), and the thread that watches a user interface
  closes the session of an interface that does not answer.
\<close>

lemma session_clear_clears: "ss_cleared (sess_at (crd_session_clear s w) s)"
  using closing_session_clear [of s w] by (simp add: closing_def own_kept_def)

section \<open>The thread that watches a user interface\<close>

lemma alerts_end:
  assumes "\<exists>r \<in> set rounds. \<not> ar_acked r"
  shows "\<exists>w'. send_alerts rounds sent s w = Some w' \<and> ss_cleared (sess_at w' s)"
  using assms
proof (induction rounds arbitrary: sent w)
  case Nil
  then show ?case by simp
next
  case (Cons r rs)
  then show ?case
    by (cases "ar_acked r") (subst send_alerts.simps, simp add: Let_def session_clear_clears)+
qed

lemma remove_by_id_gone: "distinct (map f xs) \<Longrightarrow> s \<notin> set (remove_by_id (f s) f xs)"
  by (induction xs) (force split: if_splits)+

text \<open>C26: When the user interface does not answer one of the pings, the thread that watches it ends, the session is closed,
  whatever the other threads do meanwhile, and, when no two sessions of the list have the same number, the session is no
  longer in the list.\<close>

theorem session_watch_ends:
  assumes "\<exists>r \<in> set rounds. \<not> ar_acked r"
  shows "\<exists>w'. send_alerts rounds False s w = Some w' \<and> ss_cleared (sess_at w' s) \<and>
    session_alerts rounds s w = Some (sm_remove_session s w') \<and>
    (distinct (map (\<lambda>t. ss_id (sess_at w' t)) (active_sessions w')) \<longrightarrow>
      s \<notin> set (active_sessions (sm_remove_session s w')))"
proof -
  from alerts_end [OF assms] obtain w' where "send_alerts rounds False s w = Some w'" "ss_cleared (sess_at w' s)" by blast
  then show ?thesis
    using remove_by_id_gone [of "\<lambda>t. ss_id (sess_at w' t)" "active_sessions w'" s]
    by (simp add: session_alerts_def sm_remove_session_def)
qed


section \<open>The start of the daemon\<close>

text \<open>When the daemon runs in testing mode, or none of the nodes is free when it starts, it never leaves its
  initializing phase by itself: no node is being refreshed, the end of which would be the end of the phase, and every user
  is told that the testbed is rebooting.\<close>

lemma startup_never_over:
  assumes "testing w \<or> (\<forall>n \<in> set (sb_nodes db). dn_state n \<noteq> ''free'')" and "sm_initialize db (session_manager_new w) = (True, w')"
    and "oc_crd d = w'" and "min_rli_version \<le> msg_version req"
  shows "initializing w' \<and> refreshing_components w' = [] \<and> w_threads w' = w_threads w \<and>
    begin_session_handle rdb conn req d = finished (session_error ''ONL is currently rebooting. Please try again in 10 minutes.''
      (if msg_version req \<le> 0x73 then Session_Alert else Session_Alloc_Err)) d"
proof -
  have none: "new_nodes ds v = ([], v)" if "\<forall>n \<in> set ds. dn_state n \<noteq> ''free''" for ds v
    using that by (induction ds) simp_all
  have "initializing w' \<and> refreshing_components w' = [] \<and> w_threads w' = w_threads w"
    using assms(1,2)
    by (auto simp: sm_initialize_def session_manager_new_def start_nodes_def none ask_def next_answer_def emit_def Let_def
        split: if_splits)
  moreover have "\<not> msg_version req < min_rli_version" using assms(4) by simp
  ultimately show ?thesis using assms(3) by (simp add: begin_session_handle_def Let_def)
qed

section \<open>A node whose dependent is in repair\<close>

lemma refresh_failed_locked: "refresh_failed c True w = None"
  by (simp add: refresh_failed_def cleanup_reqs_def)

lemma send_refresh_locked: "send_refresh c True w = Some (go, w') \<Longrightarrow> go"
  by (auto simp: send_refresh_def refresh_failed_locked Let_def split_beta split: if_splits)

lemma send_refresh_class:
  "send_refresh c True w = Some (go, w') \<Longrightarrow> cc_class (comp_at w' c) = cc_class (comp_at w c)"
  by (auto simp: send_refresh_def refresh_failed_locked connect_cp_def set_connected_def next_connect_def ask_def next_answer_def
      emit_def upd_comp_def Let_def split_beta split: if_splits)

lemma do_refresh_locked:
  assumes "cc_class (comp_at w c) = Plain" and "hasCP c w" and "\<not> testing w"
  shows "comp_do_refresh c True w = None"
proof (cases "send_refresh c True w")
  case None
  then show ?thesis using assms by (subst comp_do_refresh.simps) simp
next
  case (Some r)
  obtain go w' where r: "r = (go, w')" by (cases r)
  then show ?thesis using assms Some send_refresh_locked [of c w go w'] send_refresh_class [of c w go w']
    by (subst comp_do_refresh.simps) simp
qed

text \<open>C38: The thread that starts a free node whose dependent node is in repair refreshes it while it holds the lock of the
  component's state, takes that lock again and waits for itself for ever: the request for the component is never answered.\<close>

theorem starting_deadlocks:
  assumes "cc_class (comp_at w c) = Plain" and "hasCP c w" and "\<not> testing w"
  shows "do_initialize_in c ''free'' ''repair'' w = None"
proof -
  have "comp_do_refresh c True (set_keebooting c True w) = None"
    by (rule do_refresh_locked) (use assms in \<open>simp_all add: set_keebooting_def upd_comp_def hasCP_def\<close>)
  moreover have "wait_dependent 30 {''refreshing''} c ''repair'' w = (''repair'', w)"
    by (simp add: numeral_eq_Suc)
  ultimately show ?thesis by (simp add: do_initialize_in_def refresh_for_boot_def)
qed

section \<open>Examples\<close>

theorem starting_deadlocks_witness:
  "do_initialize_in 0 ''free'' ''repair'' ((sample_daemon (\<lambda>_. True))\<lparr>testing := False,
     comp_at := (\<lambda>_. crd_component_new ''pc1'' ''cp1'' 3551 False False)\<rparr>) = None"
  by (rule starting_deadlocks) (simp_all add: crd_component_new_def hasCP_def)

definition deaf :: alert_round where
  "deaf = \<lparr>ar_min_left = 10, ar_first = (\<lambda>w. w), ar_acked = False, ar_rest = (\<lambda>w. w)\<rparr>"

theorem session_watch_ends_witness:
  "\<exists>w'. session_alerts [deaf\<lparr>ar_acked := True\<rparr>, deaf] 0 (sample_daemon (\<lambda>_. True)) = Some w'"
proof -
  have "\<exists>r \<in> set [deaf\<lparr>ar_acked := True\<rparr>, deaf]. \<not> ar_acked r" by (simp add: deaf_def)
  from session_watch_ends [OF this, of 0 "sample_daemon (\<lambda>_. True)"] show ?thesis by blast
qed


definition up_to_date :: begin_session_req where
  "up_to_date = (blank_request \<lparr>bs_expinfo = \<lparr>ei_ID = [], ei_expName = [], ei_userName = []\<rparr>, bs_password = [],
     bs_num_reqs = 0\<rparr>)\<lparr>msg_version := 0x92\<rparr>"

definition started_in_testing :: onlcrd where
  "started_in_testing = \<lparr>oc_crd = snd (sm_initialize \<lparr>sb_switches = [], sb_nodes = []\<rparr>
     (session_manager_new (sample_daemon (\<lambda>_. True)))), oc_rsv = sample_rsvs\<rparr>"

lemma startup_never_over_example:
  "initializing (oc_crd started_in_testing) \<and>
    begin_session_handle sample_rsv_database 5 up_to_date started_in_testing = finished (session_error
      ''ONL is currently rebooting. Please try again in 10 minutes.'' Session_Alloc_Err) started_in_testing"
proof -
  let ?w = "sample_daemon (\<lambda>_. True)"
  have t: "testing ?w" by (simp add: sample_daemon_def)
  then have i: "sm_initialize \<lparr>sb_switches = [], sb_nodes = []\<rparr> (session_manager_new ?w) = (True, oc_crd started_in_testing)"
    by (simp add: sm_initialize_def started_in_testing_def session_manager_new_def)
  have v: "min_rli_version \<le> msg_version up_to_date" "\<not> msg_version up_to_date \<le> 0x73"
    by (simp_all add: up_to_date_def min_rli_version_def)
  show ?thesis using startup_never_over [OF disjI1 [OF t] i refl v(1), of sample_rsv_database 5] v(2) by simp
qed

end
