(* ===== verification/Vm_Sessions.thy ===== *)
theory Vm_Sessions
  imports Onl_Responses "HOL-Library.List_Lexorder"
begin

text \<open>
  The daemon of the hosts of virtual machines (\<^verbatim>\<open>vmbase/onlvmbased_session.cc\<close>,
  \<^verbatim>\<open>vmbase/onlvmbased_session_manager.cc\<close>): the sessions, their virtual machines with the interfaces, the
  VLANs, and the names that the machines are given.

  Sessions, machines and interfaces are objects known by address (all are held by \<^verbatim>\<open>boost::shared_ptr\<close>, so that
  none dies while it is in a list; \<^verbatim>\<open>remove\<close> compares addresses). A VLAN is reached only through the list of its
  session, where \<^verbatim>\<open>getVLan\<close> keeps its identifier unique, and is a value there. The exit codes of the commands are
  an endless sequence that is read in order; commands, files and answers are appended to \<open>vb_log\<close>.
\<close>

type_synonym vsptr = nat
type_synonym vmptr = nat
type_synonym iptr = nat

record vmname_info =
  nm_name :: string
  nm_index :: int
  nm_in_use :: bool

record vminterface_info =
  vi_ninfo :: node_info
  vi_vm :: vmptr

record vm_info =
  vm_name :: string
  vm_ctladdr :: string
  vm_comp :: component
  vm_interfaces :: "iptr list"
  vm_expaddr :: string
  vm_cores :: u32
  vm_memory :: u32
  vm_passwd :: string
  vm_img :: string

record vlan_info =
  vl_id :: u32
  vl_bridge_id :: u32
  vl_interfaces :: "iptr list"

record vm_session =
  vs_expInfo :: experiment_info
  vs_vms :: "vmptr list"
  vs_vlans :: "vlan_info list"

datatype vm_event =
    Vm_Command string
  | Vm_File string "string list"
  | Vm_Response crd_request NCCP_StatusType
  | Vm_Endconfig_Response crd_request NCCP_StatusType string
  | Vm_I_Am_Up

record vmbase =
  vm_at :: "vmptr \<Rightarrow> vm_info"
  if_at :: "iptr \<Rightarrow> vminterface_info"
  vsess_at :: "vsptr \<Rightarrow> vm_session"
  vm_count :: nat
  if_count :: nat
  vsess_count :: nat
  vm_sessions :: "vsptr list"
  vmnames :: "(string \<times> vmname_info) list"
  vb_user :: string
  vb_testing :: bool
  vb_exit :: "nat \<Rightarrow> int"
  vb_log :: "vm_event list"

section \<open>Objects, commands and files\<close>

definition upd_vm :: "vmptr \<Rightarrow> (vm_info \<Rightarrow> vm_info) \<Rightarrow> vmbase \<Rightarrow> vmbase" where
  "upd_vm p f w = w\<lparr>vm_at := (vm_at w)(p := f (vm_at w p))\<rparr>"

definition upd_vsess :: "vsptr \<Rightarrow> (vm_session \<Rightarrow> vm_session) \<Rightarrow> vmbase \<Rightarrow> vmbase" where
  "upd_vsess s f w = w\<lparr>vsess_at := (vsess_at w)(s := f (vsess_at w s))\<rparr>"

definition vm_emit :: "vm_event \<Rightarrow> vmbase \<Rightarrow> vmbase" where
  "vm_emit e w = w\<lparr>vb_log := vb_log w @ [e]\<rparr>"

definition vm_system :: "string \<Rightarrow> vmbase \<Rightarrow> int \<times> vmbase" where
  "vm_system cmd w = (vb_exit w 0, vm_emit (Vm_Command cmd) (w\<lparr>vb_exit := (\<lambda>n. vb_exit w (Suc n))\<rparr>))"

section \<open>Names\<close>

text \<open>\<open>vmnames\<close> is a \<^verbatim>\<open>std::map\<close>: its entries in the order of the keys. Assigning to a field of \<open>vmnames[nm]\<close> makes
  an entry of zeros first when there is none.\<close>

definition no_name_info :: vmname_info where
  "no_name_info = \<lparr>nm_name = '''', nm_index = 0, nm_in_use = False\<rparr>"

fun name_put :: "string \<Rightarrow> (vmname_info \<Rightarrow> vmname_info) \<Rightarrow> (string \<times> vmname_info) list \<Rightarrow> (string \<times> vmname_info) list" where
  "name_put k f [] = [(k, f no_name_info)]"
| "name_put k f ((n, x) # xs) =
     (if k = n then (n, f x) # xs
      else if k < n then (k, f no_name_info) # (n, x) # xs
      else (n, x) # name_put k f xs)"

text \<open>The constructor: \<open>buf\<close> is the block of 65 characters that \<^verbatim>\<open>gethostname\<close> has filled, of which the two after
  the eighth are taken.\<close>

definition vm_label :: "string \<Rightarrow> nat \<Rightarrow> string" where
  "vm_label hid i = (if i < 10 then ''vm12c'' @ hid @ ''v0'' @ int2str (of_nat i)
     else ''vm12c'' @ hid @ ''v'' @ int2str (of_nat i))"

fun init_names :: "string \<Rightarrow> nat list \<Rightarrow> (string \<times> vmname_info) list \<Rightarrow> (string \<times> vmname_info) list" where
  "init_names hid [] xs = xs"
| "init_names hid (i # is) xs = init_names hid is (name_put (vm_label hid i)
     (\<lambda>_. \<lparr>nm_name = vm_label hid i, nm_index = int i, nm_in_use = False\<rparr>) xs)"

definition vmbase_new :: "string \<Rightarrow> bool \<Rightarrow> (nat \<Rightarrow> int) \<Rightarrow> vmbase \<Rightarrow> vmbase" where
  "vmbase_new buf testing exits mem =
     mem\<lparr>vm_count := 0, if_count := 0, vsess_count := 0, vm_sessions := [],
       vmnames := init_names (take 2 (drop 8 buf)) [1..<25] [], vb_user := ''nobody'', vb_testing := testing,
       vb_exit := exits, vb_log := []\<rparr>"

definition assignVM :: "vmptr \<Rightarrow> vmbase \<Rightarrow> bool \<times> vmbase" where
  "assignVM p w = (case find (\<lambda>(n, x). \<not> nm_in_use x) (vmnames w) of
       Some (n, _) \<Rightarrow> (True, upd_vm p (\<lambda>v. v\<lparr>vm_name := n\<rparr>)
         (w\<lparr>vmnames := name_put n (\<lambda>x. x\<lparr>nm_in_use := True\<rparr>) (vmnames w)\<rparr>))
     | None \<Rightarrow> (False, upd_vm p (\<lambda>v. v\<lparr>vm_name := ''''\<rparr>) w))"

definition releaseVMname :: "string \<Rightarrow> vmbase \<Rightarrow> bool \<times> vmbase" where
  "releaseVMname n w = (True, w\<lparr>vmnames := name_put n (\<lambda>x. x\<lparr>nm_in_use := False\<rparr>) (vmnames w)\<rparr>)"

definition getVMIndex :: "string \<Rightarrow> vmbase \<Rightarrow> int \<times> vmbase" where
  "getVMIndex n w = (let xs = name_put n (\<lambda>x. x) (vmnames w) in
     (case map_of xs n of Some x \<Rightarrow> nm_index x | None \<Rightarrow> 0, w\<lparr>vmnames := xs\<rparr>))"

section \<open>A session\<close>

definition getInterface :: "vmptr \<Rightarrow> node_info \<Rightarrow> vmbase \<Rightarrow> iptr option" where
  "getInterface p ninfo w =
     find (\<lambda>i. ni_port (vi_ninfo (if_at w i)) = ni_port ninfo) (vm_interfaces (vm_at w p))"

definition vm_session_new :: "experiment_info \<Rightarrow> vm_session" where
  "vm_session_new ei = \<lparr>vs_expInfo = experiment_info_copy ei, vs_vms = [], vs_vlans = []\<rparr>"

definition getVM :: "vsptr \<Rightarrow> component \<Rightarrow> vmbase \<Rightarrow> vmptr option" where
  "getVM s c w = find (\<lambda>p. comp_id (vm_comp (vm_at w p)) = comp_id c) (vs_vms (vsess_at w s))"

text \<open>The memory is computed in \<^verbatim>\<open>int\<close>: the product overflows when it reaches \<open>2 ^ 31\<close>. The control
  address of a machine and the VLAN of an interface are never set; the latter is left out.\<close>

definition addVM :: "vsptr \<Rightarrow> component \<Rightarrow> string \<Rightarrow> u32 \<Rightarrow> u32 \<Rightarrow> string \<Rightarrow> string \<Rightarrow> vmbase \<Rightarrow> (vmptr option \<times> vmbase) option" where
  "addVM s c eaddr crs mem pw img w = (case getVM s c w of
       Some p \<Rightarrow> Some (Some p, w)
     | None \<Rightarrow>
         if unat mem div 1000 * 1024 \<ge> 2 ^ 31 then None
         else let p = vm_count w;
             v = \<lparr>vm_name = '''', vm_ctladdr = '''', vm_comp = component_copy c, vm_interfaces = [], vm_expaddr = eaddr,
               vm_cores = crs, vm_memory = of_nat (unat mem div 1000 * 1024), vm_passwd = pw, vm_img = img\<rparr>;
             w = w\<lparr>vm_count := Suc p, vm_at := (vm_at w)(p := v)\<rparr>;
             (ok, w) = assignVM p w in
           Some (if ok then (Some p, upd_vsess s (\<lambda>x. x\<lparr>vs_vms := vs_vms x @ [p]\<rparr>) w) else (None, w)))"

definition configureVM :: "vsptr \<Rightarrow> component \<Rightarrow> node_info \<Rightarrow> vmbase \<Rightarrow> bool \<times> vmbase" where
  "configureVM s c ninfo w = (case getVM s c w of
       None \<Rightarrow> (False, w)
     | Some p \<Rightarrow> (case getInterface p ninfo w of
         Some _ \<Rightarrow> (True, w)
       | None \<Rightarrow> let i = if_count w;
             w = w\<lparr>if_count := Suc i, if_at := (if_at w)(i := \<lparr>vi_ninfo = node_info_copy ninfo, vi_vm = p\<rparr>)\<rparr> in
           (True, upd_vm p (\<lambda>v. v\<lparr>vm_interfaces := vm_interfaces v @ [i]\<rparr>) w)))"

definition getVLan :: "vsptr \<Rightarrow> u32 \<Rightarrow> vmbase \<Rightarrow> vmbase" where
  "getVLan s v w = (if v \<in> vl_id ` set (vs_vlans (vsess_at w s)) then w
     else upd_vsess s (\<lambda>x. x\<lparr>vs_vlans := vs_vlans x @ [\<lparr>vl_id = v, vl_bridge_id = v, vl_interfaces = []\<rparr>]\<rparr>) w)"

definition on_vlan :: "u32 \<Rightarrow> (iptr list \<Rightarrow> iptr list) \<Rightarrow> vlan_info list \<Rightarrow> vlan_info list" where
  "on_vlan v f = map (\<lambda>l. if vl_id l = v then l\<lparr>vl_interfaces := f (vl_interfaces l)\<rparr> else l)"

definition if_vlan :: "iptr \<Rightarrow> vmbase \<Rightarrow> u32" where
  "if_vlan i w = ni_vlanid (vi_ninfo (if_at w i))"

definition vlan_empty :: "vsptr \<Rightarrow> u32 \<Rightarrow> vmbase \<Rightarrow> bool" where
  "vlan_empty s v w \<longleftrightarrow> (\<forall>l \<in> set (vs_vlans (vsess_at w s)). vl_id l = v \<longrightarrow> vl_interfaces l = [])"

text \<open>The body of the loop of \<^verbatim>\<open>removeVM\<close>, and the loop.\<close>

definition leave_vlan :: "vsptr \<Rightarrow> iptr \<Rightarrow> vmbase \<Rightarrow> vmbase" where
  "leave_vlan s i w =
     (let v = if_vlan i w; w = getVLan s v w;
          w = upd_vsess s (\<lambda>x. x\<lparr>vs_vlans := on_vlan v (removeAll i) (vs_vlans x)\<rparr>) w in
      if vlan_empty s v w
      then let (_, w) = vm_system (''/KVM_Images/scripts/cleanup_vlan.sh '' @ int2str v) w in
        upd_vsess s (\<lambda>x. x\<lparr>vs_vlans := filter (\<lambda>l. vl_id l \<noteq> v) (vs_vlans x)\<rparr>) w
      else w)"

fun leave_vlans :: "vsptr \<Rightarrow> iptr list \<Rightarrow> vmbase \<Rightarrow> vmbase" where
  "leave_vlans s [] w = w"
| "leave_vlans s (i # is) w = leave_vlans s is (leave_vlan s i w)"

definition removeVM_ptr :: "vsptr \<Rightarrow> vmptr \<Rightarrow> vmbase \<Rightarrow> bool \<times> vmbase" where
  "removeVM_ptr s p w =
     (let w = leave_vlans s (vm_interfaces (vm_at w p)) w;
          (code, w) = vm_system (''/KVM_Images/scripts/undefine_vm.sh '' @ vm_name (vm_at w p)) w in
      if code \<noteq> 0 then (False, w)
      else let (ok, w) = releaseVMname (vm_name (vm_at w p)) w in
        if \<not> ok then (False, w) else (True, upd_vsess s (\<lambda>x. x\<lparr>vs_vms := removeAll p (vs_vms x)\<rparr>) w))"

definition removeVM :: "vsptr \<Rightarrow> component \<Rightarrow> vmbase \<Rightarrow> bool \<times> vmbase" where
  "removeVM s c w = (case getVM s c w of None \<Rightarrow> (True, w) | Some p \<Rightarrow> removeVM_ptr s p w)"

text \<open>After \<^verbatim>\<open>removeVM\<close> has taken the front machine out, \<^verbatim>\<open>pop_front\<close> takes the next one, and is undefined when
  there is none.\<close>

partial_function (option) vm_session_clear :: "vsptr \<Rightarrow> vmbase \<Rightarrow> vmbase option" where
  "vm_session_clear s w =
     (if vs_vms (vsess_at w s) = [] then Some w
      else let w = snd (removeVM_ptr s (hd (vs_vms (vsess_at w s))) w) in
        if vs_vms (vsess_at w s) = [] then None
        else vm_session_clear s (upd_vsess s (\<lambda>x. x\<lparr>vs_vms := tl (vs_vms x)\<rparr>) w))"

section \<open>The session manager\<close>

definition getSession :: "experiment_info \<Rightarrow> vmbase \<Rightarrow> vsptr option" where
  "getSession e w = find (\<lambda>s. experiment_info_eq (vs_expInfo (vsess_at w s)) e) (vm_sessions w)"

definition addSession :: "experiment_info \<Rightarrow> vmbase \<Rightarrow> vsptr \<times> vmbase" where
  "addSession e w = (case getSession e w of Some s \<Rightarrow> (s, w)
     | None \<Rightarrow> let s = vsess_count w in
         (s, w\<lparr>vsess_count := Suc s, vsess_at := (vsess_at w)(s := vm_session_new e), vm_sessions := vm_sessions w @ [s]\<rparr>))"

definition join_vlan :: "vsptr \<Rightarrow> iptr \<Rightarrow> vmbase \<Rightarrow> vmbase" where
  "join_vlan s i w = (let v = if_vlan i w in
     upd_vsess s (\<lambda>x. x\<lparr>vs_vlans := on_vlan v (\<lambda>is. is @ [i]) (vs_vlans x)\<rparr>) (getVLan s v w))"

fun join_vlans :: "vsptr \<Rightarrow> iptr list \<Rightarrow> vmbase \<Rightarrow> vmbase" where
  "join_vlans s [] w = w"
| "join_vlans s (i # is) w = join_vlans s is (join_vlan s i w)"

fun configure_ports :: "vmptr \<Rightarrow> iptr list \<Rightarrow> vmbase \<Rightarrow> vmbase" where
  "configure_ports p [] w = w"
| "configure_ports p (i # is) w =
     (let n = vi_ninfo (if_at w i); bw_kbits = ni_bandwidth n * 1000;
          (_, w) = vm_system (''/KVM_Images/scripts/vm_configure_port.sh '' @ int2str (ni_port n) @ '' data'' @
            int2str (ni_real_port n) @ '' '' @ int2str (ni_vlanid n) @ '' '' @ c_str (ni_ipaddr n) @ '' '' @
            c_str (ni_subnet n) @ '' '' @ int2str bw_kbits @ '' 1000 '' @ int2str (ni_vlanid n) @ '' '' @
            vm_name (vm_at w p)) w
      in configure_ports p is w)"

primrec ping_vm :: "nat \<Rightarrow> string \<Rightarrow> vmbase \<Rightarrow> bool \<times> vmbase" where
  "ping_vm 0 cmd w = (False, w)"
| "ping_vm (Suc n) cmd w = (let (code, w) = vm_system cmd w in if code = 0 then (True, w) else ping_vm n cmd w)"

definition startVM :: "vsptr \<Rightarrow> vmptr \<Rightarrow> vmbase \<Rightarrow> bool \<times> vmbase" where
  "startVM s p w =
     (let v = vm_at w p; is = vm_interfaces v;
          vnm = ''/KVM_Images/scripts/lists/'' @ vm_name v @ ''_vlan.txt'';
          dipnm = ''/KVM_Images/scripts/lists/'' @ vm_name v @ ''_dataip.txt'';
          w = join_vlans s is w;
          w = vm_emit (Vm_File dipnm (map (\<lambda>i. c_str (ni_ipaddr (vi_ninfo (if_at w i)))) is)) w;
          w = vm_emit (Vm_File vnm (map (\<lambda>i. int2str (if_vlan i w) @ '' '' @
            int2str (ni_real_port (vi_ninfo (if_at w i)))) is)) w;
          (code, w) = vm_system (''/KVM_Images/scripts/start_new_vm.sh '' @ c_str (ei_userName (vs_expInfo (vsess_at w s))) @
            '' /KVM_Images/img/'' @ vm_img v @ '' '' @ int2str (vm_cores v) @ '' '' @ int2str (vm_memory v) @ '' '' @
            int2str (of_nat (length is)) @ '' '' @ vnm @ '' '' @ dipnm @ '' '' @ vm_name v @ '' '' @ vm_passwd v) w in
      if code \<noteq> 0 then (False, w)
      else ping_vm 15 (''ping -c 1 '' @ vm_name v) (configure_ports p is w))"

text \<open>When the last machine of a session goes, the session is cleared, taken out of the list, and cleared once more by
  its destructor.\<close>

definition deleteVM :: "component \<Rightarrow> experiment_info \<Rightarrow> vmbase \<Rightarrow> (bool \<times> vmbase) option" where
  "deleteVM c e w = (case getSession e w of None \<Rightarrow> Some (True, w)
     | Some s \<Rightarrow> let (ok, w) = removeVM s c w in
         if \<not> ok then Some (False, w)
         else if vs_vms (vsess_at w s) = [] then do {
             w \<leftarrow> vm_session_clear s w;
             w \<leftarrow> vm_session_clear s (w\<lparr>vm_sessions := removeAll s (vm_sessions w)\<rparr>);
             Some (True, w) }
         else Some (True, w))"

section \<open>Requests\<close>

text \<open>\<^verbatim>\<open>vmbase/onlvmbased_requests.cc\<close>. An answer keeps the request it is made from and the status.\<close>

definition vm_answer :: "'a crd_request_scheme \<Rightarrow> NCCP_StatusType \<Rightarrow> vmbase \<Rightarrow> vmbase" where
  "vm_answer req status w = vm_emit (Vm_Response (crd_request.truncate req) status) w"

text \<open>The second and third parameter are read without a look at the length of the list.\<close>

definition vm_start_experiment_handle :: "start_experiment \<Rightarrow> vmbase \<Rightarrow> vmbase option" where
  "vm_start_experiment_handle req w =
     (let e = exp_info (crd_exp req); (s, w) = addSession e w in
      case se_init_params req of
        _ # pw # img # _ \<Rightarrow> do {
          (r, w) \<leftarrow> addVM s (crd_comp req) (c_str (se_ipaddr req)) (se_cores req) (se_memory req)
            (param_getString pw) (param_getString img) w;
          let status = (if r = None then NCCP_Status_Failed else NCCP_Status_Fine);
          Some (vm_answer req status (w\<lparr>vb_user := c_str (ei_userName e)\<rparr>)) }
      | _ \<Rightarrow> None)"

definition vm_refresh_handle :: "refresh \<Rightarrow> vmbase \<Rightarrow> vmbase option" where
  "vm_refresh_handle req w =
     (let e = exp_info (crd_exp req) in
      if c_str (ei_ID e) = '''' then
        let w = vm_answer req NCCP_Status_Fine w in
        Some (if \<not> vb_testing w then snd (vm_system ''reboot'' w) else vm_emit Vm_I_Am_Up w)
      else do {
        (_, w) \<leftarrow> deleteVM (crd_comp req) e w;
        Some (vm_answer req NCCP_Status_Fine w) })"

definition vm_configure_node_handle :: "configure_node \<Rightarrow> vmbase \<Rightarrow> vmbase" where
  "vm_configure_node_handle req w = (case getSession (exp_info (crd_exp req)) w of
       Some s \<Rightarrow> let (ok, w) = configureVM s (crd_comp req) (cn_node_conf req) w in
         vm_answer req (if \<not> ok then NCCP_Status_Failed else NCCP_Status_Fine) w
     | None \<Rightarrow> vm_answer req NCCP_Status_Failed w)"

text \<open>The session's pointer is followed before it is tested, the machine's is never tested.\<close>

definition vm_end_configure_node_handle :: "crd_request \<Rightarrow> vmbase \<Rightarrow> vmbase option" where
  "vm_end_configure_node_handle req w = do {
     s \<leftarrow> getSession (exp_info (crd_exp req)) w;
     p \<leftarrow> getVM s (crd_comp req) w;
     let (ok, w) = startVM s p w;
     Some (vm_emit (Vm_Endconfig_Response req (if \<not> ok then NCCP_Status_Failed else NCCP_Status_Fine)
       (vm_name (vm_at w p))) w) }"

datatype vm_request =
    Vm_Start start_experiment
  | Vm_Refresh refresh
  | Vm_Configure configure_node
  | Vm_End_Configure crd_request

fun vm_handle :: "vm_request \<Rightarrow> vmbase \<Rightarrow> vmbase option" where
  "vm_handle (Vm_Start req) w = vm_start_experiment_handle req w"
| "vm_handle (Vm_Refresh req) w = vm_refresh_handle req w"
| "vm_handle (Vm_Configure req) w = Some (vm_configure_node_handle req w)"
| "vm_handle (Vm_End_Configure req) w = vm_end_configure_node_handle req w"

end
