(* ===== verification/Vm_Invariant.thy ===== *)
theory Vm_Invariant
  imports Vm_Sessions Step_Systems
begin

text \<open>
  The invariant of the daemon of the hosts of virtual machines, and that every request keeps it: a name is in use
  exactly when one machine of one session carries it; a session has one machine per component; its VLANs have members,
  and these are interfaces of its own machines.
\<close>

section \<open>The table of names\<close>

lemma name_put_keys: "set (map fst (name_put k f xs)) = insert k (set (map fst xs))"
  by (induction k f xs rule: name_put.induct) auto

lemma name_put_sorted: "sorted_wrt (<) (map fst xs) \<Longrightarrow> sorted_wrt (<) (map fst (name_put k f xs))"
proof (induction k f xs rule: name_put.induct)
  case (2 k f n x xs)
  have "n < k" if "\<not> k < n" "k \<noteq> n" using that by (meson linorder_less_linear)
  moreover have "\<forall>y \<in> fst ` set (name_put k f xs). n < y" if "n < k"
    using 2 that name_put_keys [of k f xs] by auto
  ultimately show ?case using 2 by auto
qed simp

lemma map_of_name_put:
  "sorted_wrt (<) (map fst xs) \<Longrightarrow>
     map_of (name_put k f xs) = (map_of xs)(k \<mapsto> f (case map_of xs k of Some x \<Rightarrow> x | None \<Rightarrow> no_name_info))"
proof (induction k f xs rule: name_put.induct)
  case (2 k f n x xs)
  have "map_of xs k = None" if "k < n"
    using 2 that by (auto simp: map_of_eq_None_iff)
  then show ?case using 2 by (auto simp: fun_upd_twist)
qed simp

definition name_in_use :: "vmbase \<Rightarrow> string \<Rightarrow> bool" where
  "name_in_use w n \<longleftrightarrow> (case map_of (vmnames w) n of Some x \<Rightarrow> nm_in_use x | None \<Rightarrow> False)"

lemma name_in_use_put:
  assumes "sorted_wrt (<) (map fst (vmnames w))"
  shows "name_in_use (w\<lparr>vmnames := name_put k (\<lambda>x. x\<lparr>nm_in_use := b\<rparr>) (vmnames w)\<rparr>) n \<longleftrightarrow> (if n = k then b else name_in_use w n)"
  using assms by (simp add: name_in_use_def map_of_name_put split: option.split)

lemma free_name_found:
  assumes "sorted_wrt (<) (map fst (vmnames w))" "find (\<lambda>(n, x). \<not> nm_in_use x) (vmnames w) = Some (n, x)"
  shows "\<not> name_in_use w n"
proof -
  obtain i where "i < length (vmnames w)" "vmnames w ! i = (n, x)" "\<not> nm_in_use x"
    using assms(2) by (auto simp: find_Some_iff)
  then have m: "(n, x) \<in> set (vmnames w)" "\<not> nm_in_use x" by (metis nth_mem)+
  then have "map_of (vmnames w) n = Some x"
    using assms(1) by (auto simp: strict_sorted_iff)
  then show ?thesis using m by (simp add: name_in_use_def)
qed

section \<open>What the loops over interfaces change\<close>

named_theorems vm_frame \<open>the fields that an operation leaves as they are\<close>

lemma upd_vsess_frame [vm_frame]:
  "vm_at (upd_vsess s f w) = vm_at w" "if_at (upd_vsess s f w) = if_at w" "vm_count (upd_vsess s f w) = vm_count w"
  "if_count (upd_vsess s f w) = if_count w" "vsess_count (upd_vsess s f w) = vsess_count w"
  "vm_sessions (upd_vsess s f w) = vm_sessions w" "vmnames (upd_vsess s f w) = vmnames w"
  "vsess_at (upd_vsess s f w) = (vsess_at w)(s := f (vsess_at w s))"
  by (simp_all add: upd_vsess_def)

definition same_machines :: "vmbase \<Rightarrow> vmbase \<Rightarrow> bool" where
  "same_machines w w' \<longleftrightarrow> vm_at w' = vm_at w \<and> if_at w' = if_at w \<and> vm_count w' = vm_count w \<and>
     if_count w' = if_count w \<and> vsess_count w' = vsess_count w \<and> vm_sessions w' = vm_sessions w \<and> vmnames w' = vmnames w"

text \<open>Only the VLANs of the session \<open>s\<close> change.\<close>

definition only_vlans :: "vsptr \<Rightarrow> vmbase \<Rightarrow> vmbase \<Rightarrow> bool" where
  "only_vlans s w w' \<longleftrightarrow> same_machines w w' \<and>
     vsess_at w' = (vsess_at w)(s := (vsess_at w s)\<lparr>vs_vlans := vs_vlans (vsess_at w' s)\<rparr>)"

lemma only_vlans_refl [simp]: "only_vlans s w w"
  by (simp add: only_vlans_def same_machines_def)

lemma only_vlans_trans: "only_vlans s w w1 \<Longrightarrow> only_vlans s w1 w2 \<Longrightarrow> only_vlans s w w2"
proof -
  assume a: "only_vlans s w w1" "only_vlans s w1 w2"
  let ?u = "\<lambda>v x. x\<lparr>vs_vlans := v\<rparr>"
  have "vsess_at w1 = (vsess_at w)(s := ?u (vs_vlans (vsess_at w1 s)) (vsess_at w s))"
    and "vsess_at w2 = (vsess_at w1)(s := ?u (vs_vlans (vsess_at w2 s)) (vsess_at w1 s))"
    using a by (simp_all add: only_vlans_def)
  then have "vsess_at w2 = (vsess_at w)(s := ?u (vs_vlans (vsess_at w2 s)) (?u (vs_vlans (vsess_at w1 s)) (vsess_at w s)))"
    by (metis fun_upd_same fun_upd_upd)
  then show ?thesis using a by (simp add: only_vlans_def same_machines_def)
qed

lemma only_vlans_quiet:
  "same_machines w w' \<Longrightarrow> vsess_at w' = vsess_at w \<Longrightarrow> only_vlans s w w'"
  by (simp add: only_vlans_def)

lemma vm_system_quiet: "same_machines w (snd (vm_system c w))" "vsess_at (snd (vm_system c w)) = vsess_at w"
  by (simp_all add: same_machines_def vm_system_def vm_emit_def)

lemma vm_emit_quiet: "same_machines w (vm_emit e w)" "vsess_at (vm_emit e w) = vsess_at w"
  by (simp_all add: same_machines_def vm_emit_def)

lemma upd_vlans_only: "only_vlans s w (upd_vsess s (\<lambda>x. x\<lparr>vs_vlans := f x\<rparr>) w)"
  by (simp add: only_vlans_def same_machines_def vm_frame)

lemma getVLan_only: "only_vlans s w (getVLan s v w)"
  by (simp add: getVLan_def upd_vlans_only)

lemma leave_vlan_only: "only_vlans s w (leave_vlan s i w)"
  unfolding leave_vlan_def Let_def split_beta
  by (auto intro!: only_vlans_trans [OF _ upd_vlans_only] only_vlans_trans [OF _ only_vlans_quiet [OF vm_system_quiet]]
      getVLan_only)

lemma leave_vlans_only: "only_vlans s w (leave_vlans s is w)"
  by (induction "is" arbitrary: w) (auto intro: only_vlans_trans leave_vlan_only)

lemma join_vlans_only: "only_vlans s w (join_vlans s is w)"
proof (induction "is" arbitrary: w)
  case (Cons i "is")
  have "only_vlans s w (join_vlan s i w)"
    unfolding join_vlan_def Let_def by (rule only_vlans_trans [OF getVLan_only upd_vlans_only])
  then show ?case using only_vlans_trans Cons.IH by fastforce
qed simp

lemma configure_ports_quiet: "same_machines w (configure_ports p is w) \<and> vsess_at (configure_ports p is w) = vsess_at w"
proof (induction "is" arbitrary: w)
  case (Cons i "is")
  show ?case using Cons.IH vm_system_quiet
    by (auto simp: Let_def split_beta same_machines_def)
qed (simp add: same_machines_def)

lemma ping_vm_quiet: "same_machines w (snd (ping_vm n c w)) \<and> vsess_at (snd (ping_vm n c w)) = vsess_at w"
proof (induction n arbitrary: w)
  case (Suc n)
  show ?case using Suc.IH [of "snd (vm_system c w)"] vm_system_quiet
    by (auto simp: Let_def split_beta same_machines_def)
qed (simp add: same_machines_def)

section \<open>VLANs\<close>

text \<open>The list of VLANs after the interfaces in \<open>I\<close> have left: a VLAN without members is gone.\<close>

definition leaving :: "iptr set \<Rightarrow> vlan_info list \<Rightarrow> vlan_info list" where
  "leaving I ls = filter (\<lambda>l. vl_interfaces l \<noteq> []) (map (\<lambda>l. l\<lparr>vl_interfaces := filter (\<lambda>i. i \<notin> I) (vl_interfaces l)\<rparr>) ls)"

definition vlans_ok :: "(iptr \<Rightarrow> u32) \<Rightarrow> vlan_info list \<Rightarrow> bool" where
  "vlans_ok f ls \<longleftrightarrow> distinct (map vl_id ls) \<and>
     (\<forall>l \<in> set ls. vl_interfaces l \<noteq> [] \<and> (\<forall>i \<in> set (vl_interfaces l). f i = vl_id l))"

definition members :: "vlan_info list \<Rightarrow> iptr set" where
  "members ls = (\<Union>l \<in> set ls. set (vl_interfaces l))"

lemma members_leaving: "members (leaving I ls) = members ls - I"
  by (auto simp: members_def leaving_def) (metis empty_iff empty_set filter_empty_conv)+

lemma distinct_ids_leaving: "distinct (map vl_id ls) \<Longrightarrow> distinct (map vl_id (leaving I ls))"
  by (induction ls) (auto simp: leaving_def)

lemma vlans_ok_leaving: "vlans_ok f ls \<Longrightarrow> vlans_ok f (leaving I ls)"
  by (auto simp: vlans_ok_def distinct_ids_leaving) (auto simp: leaving_def)

lemma leaving_leaving: "leaving J (leaving I ls) = leaving (I \<union> J) ls"
  by (induction ls) (auto simp: leaving_def filter_empty_conv)

lemma leaving_none: "vlans_ok f ls \<Longrightarrow> members ls \<inter> I = {} \<Longrightarrow> leaving I ls = ls"
proof (induction ls)
  case (Cons l ls)
  then have "filter (\<lambda>i. i \<notin> I) (vl_interfaces l) = vl_interfaces l"
    by (auto simp: members_def intro!: filter_True)
  moreover have "leaving I ls = ls" using Cons by (auto simp: vlans_ok_def members_def)
  ultimately show ?case using Cons.prems(1) by (simp add: leaving_def vlans_ok_def)
qed (simp add: leaving_def)

definition with_vlan :: "u32 \<Rightarrow> vlan_info list \<Rightarrow> vlan_info list" where
  "with_vlan v ls = (if v \<in> vl_id ` set ls then ls else ls @ [\<lparr>vl_id = v, vl_bridge_id = v, vl_interfaces = []\<rparr>])"

lemma getVLan_vlans: "vs_vlans (vsess_at (getVLan s v w) s) = with_vlan v (vs_vlans (vsess_at w s))"
  by (simp add: getVLan_def with_vlan_def vm_frame)

lemma leave_vlan_vlans:
  assumes ok: "vlans_ok (\<lambda>i. if_vlan i w) (vs_vlans (vsess_at w s))"
  shows "vs_vlans (vsess_at (leave_vlan s i w) s) = leaving {i} (vs_vlans (vsess_at w s))"
proof -
  let ?ls = "vs_vlans (vsess_at w s)" and ?v = "if_vlan i w"
  have l: "vs_vlans (vsess_at (leave_vlan s i w) s) =
     (let ls = on_vlan ?v (removeAll i) (with_vlan ?v ?ls)
      in if \<forall>l \<in> set ls. vl_id l = ?v \<longrightarrow> vl_interfaces l = [] then filter (\<lambda>l. vl_id l \<noteq> ?v) ls else ls)"
    by (simp add: leave_vlan_def Let_def split_beta getVLan_vlans vlan_empty_def vm_frame vm_system_quiet) blast
  show ?thesis
  proof (cases "?v \<in> vl_id ` set ?ls")
    case False
    have 1: "on_vlan ?v (removeAll i) ?ls = ?ls" "filter (\<lambda>l. vl_id l \<noteq> ?v) ?ls = ?ls"
      using False by (force simp: on_vlan_def intro!: map_idI filter_True)+
    have "members ?ls \<inter> {i} = {}" using False ok by (auto simp: members_def vlans_ok_def)
    then show ?thesis using False 1 leaving_none [OF ok] unfolding l Let_def
      by (simp add: on_vlan_def with_vlan_def) force
  next
    case True
    then obtain l where l1: "l \<in> set ?ls" "vl_id l = ?v" by auto
    then obtain xs ys where ls: "?ls = xs @ l # ys" by (meson split_list)
    have d: "?v \<notin> vl_id ` set xs" "?v \<notin> vl_id ` set ys" using ok l1 unfolding ls vlans_ok_def by auto
    have ne: "\<forall>m \<in> set xs \<union> set ys. vl_interfaces m \<noteq> [] \<and> i \<notin> set (vl_interfaces m)"
      using ok d unfolding ls vlans_ok_def by (auto simp: image_iff)
    have n: "on_vlan ?v f xs = xs" "on_vlan ?v f ys = ys" "filter (\<lambda>l. vl_id l \<noteq> ?v) xs = xs" "filter (\<lambda>l. vl_id l \<noteq> ?v) ys = ys" for f
      using d by (force simp: on_vlan_def intro!: map_idI filter_True)+
    have k: "leaving {i} xs = xs" "leaving {i} ys = ys"
      using ok ne unfolding ls
      by (auto intro!: leaving_none [of "\<lambda>i. if_vlan i w"] simp: vlans_ok_def members_def)
    have o: "on_vlan ?v (removeAll i) ?ls = xs @ l\<lparr>vl_interfaces := removeAll i (vl_interfaces l)\<rparr> # ys"
      using n l1(2) unfolding ls by (simp add: on_vlan_def)
    have "leaving {i} ?ls = xs @ (if removeAll i (vl_interfaces l) = [] then ys else l\<lparr>vl_interfaces := removeAll i (vl_interfaces l)\<rparr> # ys)"
      using k unfolding ls removeAll_filter_not_eq neq_commute [of i] by (simp add: leaving_def)
    moreover have "\<forall>m \<in> set xs \<union> set ys. vl_id m \<noteq> ?v" using d by force
    ultimately show ?thesis using True o n l1(2) unfolding l Let_def with_vlan_def by auto
  qed
qed

lemma leave_vlans_vlans:
  "vlans_ok (\<lambda>i. if_vlan i w) (vs_vlans (vsess_at w s)) \<Longrightarrow>
     vs_vlans (vsess_at (leave_vlans s is w) s) = leaving (set is) (vs_vlans (vsess_at w s))"
proof (induction "is" arbitrary: w)
  case Nil
  then show ?case using leaving_none [of _ _ "{}"] by force
next
  case (Cons i "is")
  have f: "if_vlan j (leave_vlan s i w) = if_vlan j w" for j
    using leave_vlan_only [of s w i] by (simp add: only_vlans_def same_machines_def if_vlan_def)
  show ?case using Cons.IH [of "leave_vlan s i w"] Cons.prems
    by (simp add: f leave_vlan_vlans vlans_ok_leaving leaving_leaving)
qed

lemma join_vlan_vlans: "vs_vlans (vsess_at (join_vlan s i w) s) =
    on_vlan (if_vlan i w) (\<lambda>is. is @ [i]) (with_vlan (if_vlan i w) (vs_vlans (vsess_at w s)))"
  by (simp add: join_vlan_def Let_def vm_frame getVLan_vlans)

lemma on_vlan_ok:
  assumes "vlans_ok f ls"
  shows "vlans_ok f (on_vlan (f i) (\<lambda>is. is @ [i]) (with_vlan (f i) ls))"
    and "members (on_vlan (f i) (\<lambda>is. is @ [i]) (with_vlan (f i) ls)) = insert i (members ls)"
proof -
  have ids: "map vl_id (on_vlan v g xs) = map vl_id xs" for v g xs
    by (simp add: on_vlan_def)
  show "vlans_ok f (on_vlan (f i) (\<lambda>is. is @ [i]) (with_vlan (f i) ls))"
    using assms unfolding vlans_ok_def ids by (auto simp: with_vlan_def on_vlan_def)
  show "members (on_vlan (f i) (\<lambda>is. is @ [i]) (with_vlan (f i) ls)) = insert i (members ls)"
    by (auto simp: members_def with_vlan_def on_vlan_def split: if_splits)
qed

lemma join_vlans_vlans:
  "vlans_ok (\<lambda>i. if_vlan i w) (vs_vlans (vsess_at w s)) \<Longrightarrow>
     vlans_ok (\<lambda>i. if_vlan i w) (vs_vlans (vsess_at (join_vlans s is w) s)) \<and>
     members (vs_vlans (vsess_at (join_vlans s is w) s)) = set is \<union> members (vs_vlans (vsess_at w s))"
proof (induction "is" arbitrary: w)
  case (Cons i "is")
  have f: "if_vlan j (join_vlan s i w) = if_vlan j w" for j
    using join_vlans_only [of s w "[i]"] by (simp add: only_vlans_def same_machines_def if_vlan_def)
  show ?case using Cons.IH [of "join_vlan s i w"] Cons.prems on_vlan_ok [OF Cons.prems, of i]
    by (simp add: f join_vlan_vlans)
qed simp

section \<open>The invariant\<close>

definition active_vms :: "vmbase \<Rightarrow> vmptr set" where
  "active_vms w = (\<Union>s \<in> set (vm_sessions w). set (vs_vms (vsess_at w s)))"

text \<open>The interfaces of the machines of a session.\<close>

definition own_interfaces :: "vsptr \<Rightarrow> vmbase \<Rightarrow> iptr set" where
  "own_interfaces s w = (\<Union>p \<in> set (vs_vms (vsess_at w s)). set (vm_interfaces (vm_at w p)))"

definition session_inv :: "vsptr \<Rightarrow> vmbase \<Rightarrow> bool" where
  "session_inv s w \<longleftrightarrow> s < vsess_count w \<and>
     distinct (map (\<lambda>p. comp_id (vm_comp (vm_at w p))) (vs_vms (vsess_at w s))) \<and>
     vlans_ok (\<lambda>i. if_vlan i w) (vs_vlans (vsess_at w s)) \<and> members (vs_vlans (vsess_at w s)) \<subseteq> own_interfaces s w"

definition names_inv :: "vmbase \<Rightarrow> bool" where
  "names_inv w \<longleftrightarrow> sorted_wrt (<) (map fst (vmnames w)) \<and> inj_on (\<lambda>p. vm_name (vm_at w p)) (active_vms w) \<and>
     (\<forall>n. name_in_use w n \<longleftrightarrow> n \<in> (\<lambda>p. vm_name (vm_at w p)) ` active_vms w)"

definition machines_inv :: "vmbase \<Rightarrow> bool" where
  "machines_inv w \<longleftrightarrow> (\<forall>p \<in> active_vms w. p < vm_count w \<and>
       (\<forall>i \<in> set (vm_interfaces (vm_at w p)). i < if_count w \<and> vi_vm (if_at w i) = p)) \<and>
     (\<forall>s \<in> set (vm_sessions w). \<forall>t \<in> set (vm_sessions w). s \<noteq> t \<longrightarrow>
        set (vs_vms (vsess_at w s)) \<inter> set (vs_vms (vsess_at w t)) = {})"

definition vm_inv :: "vmbase \<Rightarrow> bool" where
  "vm_inv w \<longleftrightarrow> distinct (vm_sessions w) \<and> names_inv w \<and> machines_inv w \<and> (\<forall>s \<in> set (vm_sessions w). session_inv s w)"

lemma vm_inv_quiet:
  assumes "same_machines w w'" "vsess_at w' = vsess_at w"
  shows "vm_inv w' \<longleftrightarrow> vm_inv w" "active_vms w' = active_vms w"
  using assms by (simp_all add: vm_inv_def names_inv_def machines_inv_def session_inv_def active_vms_def own_interfaces_def
      name_in_use_def same_machines_def if_vlan_def)

text \<open>When only the VLANs of one session have changed, only they have to be looked at.\<close>

lemma only_vlans_at:
  assumes "only_vlans s w w'"
  obtains ls where "vsess_at w' = (vsess_at w)(s := (vsess_at w s)\<lparr>vs_vlans := ls\<rparr>)" and "same_machines w w'"
  using assms unfolding only_vlans_def by blast

lemma vm_inv_vlans:
  assumes o: "only_vlans s w w'" and inv: "vm_inv w"
    and v: "s \<in> set (vm_sessions w) \<Longrightarrow> vlans_ok (\<lambda>i. if_vlan i w) (vs_vlans (vsess_at w' s)) \<and>
      members (vs_vlans (vsess_at w' s)) \<subseteq> own_interfaces s w"
  shows "vm_inv w'" "active_vms w' = active_vms w" "vs_vms (vsess_at w' t) = vs_vms (vsess_at w t)"
proof -
  obtain ls where ls: "vsess_at w' = (vsess_at w)(s := (vsess_at w s)\<lparr>vs_vlans := ls\<rparr>)" and m: "same_machines w w'"
    using o by (rule only_vlans_at)
  have vms: "vs_vms (vsess_at w' t) = vs_vms (vsess_at w t)" for t by (simp add: ls)
  then show "vs_vms (vsess_at w' t) = vs_vms (vsess_at w t)" .
  show a: "active_vms w' = active_vms w" using m by (simp add: active_vms_def vms same_machines_def)
  have "session_inv t w'" if "t \<in> set (vm_sessions w)" for t
    using inv v that m by (cases "t = s")
      (auto simp: vm_inv_def session_inv_def own_interfaces_def vms if_vlan_def same_machines_def ls)
  then show "vm_inv w'" using inv m
    by (simp add: vm_inv_def names_inv_def machines_inv_def name_in_use_def same_machines_def a vms)
qed

section \<open>Every operation keeps the invariant\<close>

lemma getSession_mem: "getSession e w = Some s \<Longrightarrow> s \<in> set (vm_sessions w)"
  unfolding getSession_def find_Some_iff by (metis nth_mem)

lemma getVM_mem:
  "getVM s c w = Some p \<Longrightarrow> p \<in> set (vs_vms (vsess_at w s)) \<and> comp_id (vm_comp (vm_at w p)) = comp_id c"
  unfolding getVM_def find_Some_iff by (metis nth_mem)

lemma getVM_None:
  "getVM s c w = None \<longleftrightarrow> (\<forall>p \<in> set (vs_vms (vsess_at w s)). comp_id (vm_comp (vm_at w p)) \<noteq> comp_id c)"
  by (auto simp: getVM_def find_None_iff)

lemma startVM_only: "only_vlans s w (snd (startVM s p w)) \<and>
    vsess_at (snd (startVM s p w)) = vsess_at (join_vlans s (vm_interfaces (vm_at w p)) w)"
proof -
  let ?w = "join_vlans s (vm_interfaces (vm_at w p)) w"
  have "same_machines ?w (snd (startVM s p w)) \<and> vsess_at (snd (startVM s p w)) = vsess_at ?w"
    unfolding startVM_def Let_def split_beta
    using configure_ports_quiet ping_vm_quiet vm_system_quiet vm_emit_quiet
    by (auto simp: same_machines_def)
  then show ?thesis using only_vlans_trans [OF join_vlans_only only_vlans_quiet] by metis
qed

lemma startVM_inv:
  assumes inv: "vm_inv w" and p: "p \<in> set (vs_vms (vsess_at w s))"
  shows "vm_inv (snd (startVM s p w))" "vm_at (snd (startVM s p w)) = vm_at w"
proof -
  have v: "vlans_ok (\<lambda>i. if_vlan i w) (vs_vlans (vsess_at (snd (startVM s p w)) s)) \<and>
      members (vs_vlans (vsess_at (snd (startVM s p w)) s)) \<subseteq> own_interfaces s w" if "s \<in> set (vm_sessions w)"
  proof -
    have "session_inv s w" using inv that by (simp add: vm_inv_def)
    moreover have "vsess_at (snd (startVM s p w)) = vsess_at (join_vlans s (vm_interfaces (vm_at w p)) w)"
      using startVM_only by blast
    moreover have "set (vm_interfaces (vm_at w p)) \<subseteq> own_interfaces s w" using p by (auto simp: own_interfaces_def)
    ultimately show ?thesis using join_vlans_vlans [of w s "vm_interfaces (vm_at w p)"]
      by (simp add: session_inv_def)
  qed
  show "vm_inv (snd (startVM s p w))" using vm_inv_vlans(1) [OF _ inv v] startVM_only by blast
  show "vm_at (snd (startVM s p w)) = vm_at w" using startVM_only [of s w p] by (simp add: only_vlans_def same_machines_def)
qed

lemma addSession_inv:
  assumes inv: "vm_inv w" and a: "addSession e w = (s, w')"
  shows "vm_inv w'" "s \<in> set (vm_sessions w')" "active_vms w' = active_vms w" "vmnames w' = vmnames w" "vm_at w' = vm_at w"
    "getVM s c w' = (case getSession e w of Some t \<Rightarrow> getVM t c w | None \<Rightarrow> None)" "getSession e w \<noteq> None \<Longrightarrow> w' = w"
    "vb_log w' = vb_log w"
proof -
  have "vm_inv w' \<and> s \<in> set (vm_sessions w') \<and> active_vms w' = active_vms w \<and> vmnames w' = vmnames w \<and> vm_at w' = vm_at w \<and>
     getVM s c w' = (case getSession e w of Some t \<Rightarrow> getVM t c w | None \<Rightarrow> None) \<and> (getSession e w \<noteq> None \<longrightarrow> w' = w) \<and>
     vb_log w' = vb_log w"
  proof (cases "getSession e w")
    case None
    let ?s = "vsess_count w"
    have w': "s = ?s" "w' = w\<lparr>vsess_count := Suc ?s, vsess_at := (vsess_at w)(?s := vm_session_new e), vm_sessions := vm_sessions w @ [?s]\<rparr>"
      using a None by (auto simp: addSession_def Let_def)
    have fresh: "?s \<notin> set (vm_sessions w)" using inv by (auto simp: vm_inv_def session_inv_def)
    have at: "vsess_at w' t = vsess_at w t" if "t \<in> set (vm_sessions w)" for t using fresh that by (auto simp: w')
    have act: "active_vms w' = active_vms w" using at by (simp add: active_vms_def) (simp add: w' vm_session_new_def)
    have "session_inv t w'" if "t \<in> set (vm_sessions w)" for t
      using inv that at [OF that] by (auto simp: vm_inv_def session_inv_def own_interfaces_def if_vlan_def w'(2))
    moreover have "session_inv ?s w'"
      by (simp add: session_inv_def w' vm_session_new_def vlans_ok_def members_def)
    ultimately have s: "\<forall>t \<in> set (vm_sessions w'). session_inv t w'" by (auto simp: w'(2))
    have "names_inv w'" using inv by (simp add: vm_inv_def names_inv_def act name_in_use_def) (simp add: w')
    moreover have vm: "vs_vms (vsess_at w' t) = (if t = ?s then [] else vs_vms (vsess_at w t))" for t
      by (simp add: w' vm_session_new_def)
    have fields: "vm_sessions w' = vm_sessions w @ [?s]" "vm_count w' = vm_count w" "if_count w' = if_count w"
      "vm_at w' = vm_at w" "if_at w' = if_at w" by (simp_all add: w')
    have "machines_inv w'" using inv by (auto simp: vm_inv_def machines_inv_def act vm fields)
    ultimately show ?thesis using inv fresh s act None
      by (simp add: vm_inv_def w' getVM_def vm_session_new_def)
  qed (use inv a getSession_mem in \<open>auto simp: addSession_def\<close>)
  then show "vm_inv w'" "s \<in> set (vm_sessions w')" "active_vms w' = active_vms w" "vmnames w' = vmnames w" "vm_at w' = vm_at w"
    "getVM s c w' = (case getSession e w of Some t \<Rightarrow> getVM t c w | None \<Rightarrow> None)" "getSession e w \<noteq> None \<Longrightarrow> w' = w"
    "vb_log w' = vb_log w" by auto
qed

lemma active_old: "vm_inv w \<Longrightarrow> vm_count w \<notin> active_vms w"
  by (auto simp: vm_inv_def machines_inv_def)

lemma vm_inv_fresh:
  assumes inv: "vm_inv w" and n: "names_inv w'"
    and w': "w' = w\<lparr>vm_count := Suc (vm_count w), vm_at := (vm_at w)(vm_count w := v), vsess_at := va, vmnames := ns\<rparr>"
    and va: "va = vsess_at w \<or> s \<in> set (vm_sessions w) \<and>
      (\<forall>p \<in> set (vs_vms (vsess_at w s)). comp_id (vm_comp (vm_at w p)) \<noteq> comp_id (vm_comp v)) \<and> vm_interfaces v = [] \<and>
      va = (vsess_at w)(s := (vsess_at w s)\<lparr>vs_vms := vs_vms (vsess_at w s) @ [vm_count w]\<rparr>)"
  shows "vm_inv w'"
proof -
  let ?p = "vm_count w"
  have old: "?p \<notin> set (vs_vms (vsess_at w t))" if "t \<in> set (vm_sessions w)" for t
    using active_old [OF inv] that by (auto simp: active_vms_def)
  have vms: "vs_vms (vsess_at w' t) = vs_vms (vsess_at w t) @ (if va \<noteq> vsess_at w \<and> t = s then [?p] else [])" for t
    using va by (auto simp: w')
  have vl: "vs_vlans (vsess_at w' t) = vs_vlans (vsess_at w t)" for t using va by (auto simp: w')
  have at: "vm_at w' q = vm_at w q" if "q \<noteq> ?p" for q using that by (simp add: w')
  have fields: "vm_sessions w' = vm_sessions w" "vm_count w' = Suc ?p" "if_count w' = if_count w" "if_at w' = if_at w"
      "vsess_count w' = vsess_count w" "vm_at w' ?p = v" by (simp_all add: w')
  have ats: "vm_at w' q = vm_at w q" if "t \<in> set (vm_sessions w)" "q \<in> set (vs_vms (vsess_at w t))" for t q
    using old [OF that(1)] that(2) by (intro at) auto
  have "session_inv t w'" if t: "t \<in> set (vm_sessions w)" for t
  proof -
    have i: "session_inv t w" using inv t by (simp add: vm_inv_def)
    have m: "map (\<lambda>p. comp_id (vm_comp (vm_at w' p))) (vs_vms (vsess_at w t)) = map (\<lambda>p. comp_id (vm_comp (vm_at w p))) (vs_vms (vsess_at w t))"
      using ats [OF t] by simp
    have d: "distinct (map (\<lambda>p. comp_id (vm_comp (vm_at w' p))) (vs_vms (vsess_at w t)))"
      using i unfolding m by (simp add: session_inv_def)
    have n: "comp_id (vm_comp v) \<notin> (\<lambda>p. comp_id (vm_comp (vm_at w' p))) ` set (vs_vms (vsess_at w t))" if "va \<noteq> vsess_at w" "t = s"
      using ats [OF t] va that by (auto simp: image_iff)
    have "own_interfaces t w \<subseteq> own_interfaces t w'"
      using ats [OF t] by (force simp: own_interfaces_def vms)
    then have "members (vs_vlans (vsess_at w t)) \<subseteq> own_interfaces t w'" using i by (auto simp: session_inv_def)
    then show ?thesis using i d n by (simp add: session_inv_def vms vl fields if_vlan_def)
  qed
  moreover have "machines_inv w'"
  proof -
    have "q < vm_count w' \<and> (\<forall>i \<in> set (vm_interfaces (vm_at w' q)). i < if_count w' \<and> vi_vm (if_at w' i) = q)"
      if "q \<in> active_vms w'" for q
    proof (cases "q = ?p")
      case True
      then have "va \<noteq> vsess_at w" using that old by (auto simp: active_vms_def vms fields split: if_splits)
      then show ?thesis using True va by (simp add: fields)
    next
      case False
      then have "q \<in> active_vms w" using that by (auto simp: active_vms_def vms fields split: if_splits)
      then show ?thesis using inv at [OF False] by (auto simp: vm_inv_def machines_inv_def fields less_Suc_eq)
    qed
    moreover have "set (vs_vms (vsess_at w' a)) \<inter> set (vs_vms (vsess_at w' b)) = {}"
      if "a \<in> set (vm_sessions w)" "b \<in> set (vm_sessions w)" "a \<noteq> b" for a b
    proof -
      have "set (vs_vms (vsess_at w a)) \<inter> set (vs_vms (vsess_at w b)) = {}"
        using inv that by (simp add: vm_inv_def machines_inv_def)
      then show ?thesis using old [OF that(1)] old [OF that(2)] that(3) by (auto simp: vms)
    qed
    ultimately show ?thesis by (simp add: machines_inv_def fields)
  qed
  ultimately show ?thesis using inv n by (simp add: vm_inv_def fields)
qed

text \<open>What adding a machine does when the session has none for the component.\<close>

lemma assignVM_cases:
  assumes "assignVM p w = (ok, w')"
  obtains n x where "ok" "find (\<lambda>(n, x). \<not> nm_in_use x) (vmnames w) = Some (n, x)"
      "w' = w\<lparr>vm_at := (vm_at w)(p := (vm_at w p)\<lparr>vm_name := n\<rparr>), vmnames := name_put n (\<lambda>x. x\<lparr>nm_in_use := True\<rparr>) (vmnames w)\<rparr>"
  | "\<not> ok" "find (\<lambda>(n, x). \<not> nm_in_use x) (vmnames w) = None" "w' = w\<lparr>vm_at := (vm_at w)(p := (vm_at w p)\<lparr>vm_name := ''''\<rparr>)\<rparr>"
  using assms by (cases "find (\<lambda>(n, x). \<not> nm_in_use x) (vmnames w)") (auto simp: assignVM_def upd_vm_def split: prod.splits)

lemma addVM_new:
  assumes inv: "vm_inv w" and s: "s \<in> set (vm_sessions w)" and new: "getVM s c w = None"
    and a: "addVM s c ip crs mem pw img w = Some (r, w')"
  shows "vm_inv w'" "vb_log w' = vb_log w" "vm_sessions w' = vm_sessions w"
    "r = (if \<forall>(n, x) \<in> set (vmnames w). nm_in_use x then None else Some (vm_count w))"
    "active_vms w' = set_option r \<union> active_vms w"
    "r \<noteq> None \<Longrightarrow> \<exists>n x. find (\<lambda>(n, x). \<not> nm_in_use x) (vmnames w) = Some (n, x) \<and> vm_name (vm_at w' (vm_count w)) = n \<and>
       (\<forall>m. name_in_use w' m \<longleftrightarrow> m = n \<or> name_in_use w m)"
    "r = None \<Longrightarrow> vmnames w' = vmnames w"
    "p \<in> active_vms w \<Longrightarrow> vm_at w' p = vm_at w p"
proof -
  let ?p = "vm_count w"
  define v where "v = \<lparr>vm_name = '''', vm_ctladdr = '''', vm_comp = component_copy c, vm_interfaces = [], vm_expaddr = ip,
    vm_cores = crs, vm_memory = of_nat (unat mem div 1000 * 1024), vm_passwd = pw, vm_img = img\<rparr>"
  define w1 where "w1 = w\<lparr>vm_count := Suc ?p, vm_at := (vm_at w)(?p := v)\<rparr>"
  obtain ok w2 where as: "assignVM ?p w1 = (ok, w2)" by (cases "assignVM ?p w1")
  have r: "r = (if ok then Some ?p else None)"
      "w' = (if ok then upd_vsess s (\<lambda>x. x\<lparr>vs_vms := vs_vms x @ [?p]\<rparr>) w2 else w2)"
    using a new as by (auto simp: addVM_def v_def w1_def Let_def split: if_splits prod.splits)
  have old: "?p \<notin> active_vms w" using inv by (rule active_old)
  have names: "names_inv w" using inv by (simp add: vm_inv_def)
  have iff: "(find (\<lambda>(n, x). \<not> nm_in_use x) (vmnames w) = None) = (\<forall>(n, x) \<in> set (vmnames w). nm_in_use x)"
    by (auto simp: find_None_iff)
  have "vm_inv w' \<and> vb_log w' = vb_log w \<and> vm_sessions w' = vm_sessions w \<and>
    r = (if \<forall>(n, x) \<in> set (vmnames w). nm_in_use x then None else Some (vm_count w)) \<and>
    active_vms w' = set_option r \<union> active_vms w \<and>
    (r \<noteq> None \<longrightarrow> (\<exists>n x. find (\<lambda>(n, x). \<not> nm_in_use x) (vmnames w) = Some (n, x) \<and> vm_name (vm_at w' (vm_count w)) = n \<and>
       (\<forall>m. name_in_use w' m \<longleftrightarrow> m = n \<or> name_in_use w m))) \<and>
    (r = None \<longrightarrow> vmnames w' = vmnames w) \<and> (p \<in> active_vms w \<longrightarrow> vm_at w' p = vm_at w p)"
    using as
  proof (cases rule: assignVM_cases)
    case (1 n x)
    have w': "w' = w\<lparr>vm_count := Suc ?p, vm_at := (vm_at w)(?p := v\<lparr>vm_name := n\<rparr>),
        vsess_at := (vsess_at w)(s := (vsess_at w s)\<lparr>vs_vms := vs_vms (vsess_at w s) @ [?p]\<rparr>),
        vmnames := name_put n (\<lambda>x. x\<lparr>nm_in_use := True\<rparr>) (vmnames w)\<rparr>"
      using 1 r by (simp add: w1_def upd_vsess_def)
    have act: "active_vms w' = insert ?p (active_vms w)"
      using s by (auto simp: active_vms_def w' split: if_splits)
    have u: "name_in_use w' m \<longleftrightarrow> m = n \<or> name_in_use w m" for m
      using names name_in_use_put [of w n True m] by (simp add: names_inv_def name_in_use_def w')
    have free: "\<not> name_in_use w n" using names 1(2) by (intro free_name_found) (auto simp: names_inv_def w1_def)
    have at: "vm_at w' q = vm_at w q" if "q \<in> active_vms w" for q using that old by (auto simp: w')
    have nm: "vm_name (vm_at w' ?p) = n" by (simp add: w')
    have im: "(\<lambda>q. vm_name (vm_at w' q)) ` active_vms w = (\<lambda>q. vm_name (vm_at w q)) ` active_vms w"
      using at by (auto simp: image_iff)
    have "inj_on (\<lambda>q. vm_name (vm_at w' q)) (active_vms w)"
      using names at by (simp add: names_inv_def inj_on_def)
    then have "inj_on (\<lambda>q. vm_name (vm_at w' q)) (insert ?p (active_vms w))"
      using free names im nm old by (auto simp: names_inv_def image_iff)
    then have n: "names_inv w'"
      using names nm im u by (simp add: names_inv_def act) (simp add: w' name_put_sorted)
    have "vm_inv w'"
      using inv n w' by (rule vm_inv_fresh [where s = s]) (use s new in \<open>simp add: v_def getVM_None component_copy_def\<close>)
    moreover have "r = Some ?p" "\<not> (\<forall>(n, x) \<in> set (vmnames w). nm_in_use x)" using 1 r iff by (auto simp: w1_def)
    ultimately show ?thesis using act u nm at 1(2) by (simp add: w' w1_def)
  next
    case 2
    have w': "w' = w\<lparr>vm_count := Suc ?p, vm_at := (vm_at w)(?p := v\<lparr>vm_name := ''''\<rparr>), vsess_at := vsess_at w, vmnames := vmnames w\<rparr>"
      using 2 r by (simp add: w1_def)
    have at: "vm_at w' q = vm_at w q" if "q \<in> active_vms w" for q using that old by (auto simp: w')
    have act: "active_vms w' = active_vms w" by (simp add: active_vms_def w')
    have u: "name_in_use w' = name_in_use w" "vmnames w' = vmnames w" by (simp_all add: w' name_in_use_def fun_eq_iff)
    have "(\<lambda>q. vm_name (vm_at w' q)) ` active_vms w = (\<lambda>q. vm_name (vm_at w q)) ` active_vms w"
      "inj_on (\<lambda>q. vm_name (vm_at w' q)) (active_vms w) = inj_on (\<lambda>q. vm_name (vm_at w q)) (active_vms w)"
      using at by (auto simp: image_iff intro!: inj_on_cong)
    then have "names_inv w'" using names by (simp add: names_inv_def act u)
    with inv have "vm_inv w'" using w' by (rule vm_inv_fresh [where s = s]) simp
    moreover have "r = None" "\<forall>(n, x) \<in> set (vmnames w). nm_in_use x" using 2 r iff by (auto simp: w1_def)
    ultimately show ?thesis using act at by (simp add: w')
  qed
  then show "vm_inv w'" "vb_log w' = vb_log w" "vm_sessions w' = vm_sessions w"
    "r = (if \<forall>(n, x) \<in> set (vmnames w). nm_in_use x then None else Some (vm_count w))"
    "active_vms w' = set_option r \<union> active_vms w"
    "r \<noteq> None \<Longrightarrow> \<exists>n x. find (\<lambda>(n, x). \<not> nm_in_use x) (vmnames w) = Some (n, x) \<and> vm_name (vm_at w' (vm_count w)) = n \<and>
       (\<forall>m. name_in_use w' m \<longleftrightarrow> m = n \<or> name_in_use w m)"
    "r = None \<Longrightarrow> vmnames w' = vmnames w" "p \<in> active_vms w \<Longrightarrow> vm_at w' p = vm_at w p" by - (elim conjE, (assumption | erule (1) mp))+
qed

lemma one_session:
  assumes "vm_inv w" "s \<in> set (vm_sessions w)" "t \<in> set (vm_sessions w)"
    "p \<in> set (vs_vms (vsess_at w s))" "p \<in> set (vs_vms (vsess_at w t))"
  shows "s = t"
proof (rule ccontr)
  assume "s \<noteq> t"
  then have "set (vs_vms (vsess_at w s)) \<inter> set (vs_vms (vsess_at w t)) = {}"
    using assms(1-3) by (simp add: vm_inv_def machines_inv_def)
  then show False using assms(4,5) by blast
qed

lemma members_old:
  assumes "vm_inv w" "s \<in> set (vm_sessions w)" "i \<in> members (vs_vlans (vsess_at w s))"
  shows "i < if_count w" "vi_vm (if_at w i) \<in> set (vs_vms (vsess_at w s))"
proof -
  have "i \<in> own_interfaces s w" using assms by (auto simp: vm_inv_def session_inv_def)
  then obtain p where "p \<in> set (vs_vms (vsess_at w s))" "i \<in> set (vm_interfaces (vm_at w p))"
    by (auto simp: own_interfaces_def)
  moreover from this have "p \<in> active_vms w" using assms(2) by (auto simp: active_vms_def)
  ultimately show "i < if_count w" "vi_vm (if_at w i) \<in> set (vs_vms (vsess_at w s))"
    using assms(1) by (auto simp: vm_inv_def machines_inv_def)
qed

lemma vlans_ok_cong: "(\<And>i. i \<in> members ls \<Longrightarrow> f i = g i) \<Longrightarrow> vlans_ok f ls = vlans_ok g ls"
  by (force simp: vlans_ok_def members_def)

lemma configureVM_inv:
  assumes inv: "vm_inv w" and s: "s \<in> set (vm_sessions w)" and c: "configureVM s c ni w = (ok, w')"
  shows "vm_inv w' \<and> active_vms w' = active_vms w \<and> vmnames w' = vmnames w \<and> vb_log w' = vb_log w \<and>
    vm_sessions w' = vm_sessions w \<and> (\<forall>p. vm_name (vm_at w' p) = vm_name (vm_at w p))"
proof (cases "\<exists>p. getVM s c w = Some p \<and> getInterface p ni w = None")
  case True
  then obtain p where p: "getVM s c w = Some p" "getInterface p ni w = None" by blast
  let ?i = "if_count w" and ?p = "(vm_at w p)\<lparr>vm_interfaces := vm_interfaces (vm_at w p) @ [if_count w]\<rparr>"
  have w': "w' = w\<lparr>if_count := Suc ?i, if_at := (if_at w)(?i := \<lparr>vi_ninfo = node_info_copy ni, vi_vm = p\<rparr>), vm_at := (vm_at w)(p := ?p)\<rparr>"
    using c p by (auto simp: configureVM_def Let_def upd_vm_def)
  have act: "active_vms w' = active_vms w" by (simp add: active_vms_def w')
  have same: "vm_name (vm_at w' q) = vm_name (vm_at w q)" "vm_comp (vm_at w' q) = vm_comp (vm_at w q)" for q
    by (simp_all add: w')
  have ints: "set (vm_interfaces (vm_at w' q)) = (if q = p then {?i} else {}) \<union> set (vm_interfaces (vm_at w q))" for q
    by (simp add: w')
  have fields: "vm_sessions w' = vm_sessions w" "vsess_at w' = vsess_at w" "vmnames w' = vmnames w" "vb_log w' = vb_log w"
      "vm_count w' = vm_count w" "if_count w' = Suc ?i" "vsess_count w' = vsess_count w" by (simp_all add: w')
  have ifs: "if_at w' i = if_at w i" if "i < ?i" for i using that by (simp add: w')
  have "session_inv t w'" if t: "t \<in> set (vm_sessions w)" for t
  proof -
    have i: "session_inv t w" using inv t by (simp add: vm_inv_def)
    have "vlans_ok (\<lambda>i. if_vlan i w') (vs_vlans (vsess_at w t))"
      using i members_old(1) [OF inv t] ifs by (subst vlans_ok_cong) (auto simp: session_inv_def if_vlan_def)
    moreover have "own_interfaces t w \<subseteq> own_interfaces t w'" by (auto simp: own_interfaces_def fields ints)
    ultimately show ?thesis using i by (auto simp: session_inv_def fields same)
  qed
  moreover have "machines_inv w'"
  proof -
    have "q < vm_count w \<and> (\<forall>i \<in> set (vm_interfaces (vm_at w' q)). i < Suc ?i \<and> vi_vm (if_at w' i) = q)" if "q \<in> active_vms w" for q
    proof -
      have "q < vm_count w \<and> (\<forall>i \<in> set (vm_interfaces (vm_at w q)). i < ?i \<and> vi_vm (if_at w i) = q)"
        using inv that by (simp add: vm_inv_def machines_inv_def)
      moreover have "vi_vm (if_at w' ?i) = p" by (simp add: w')
      ultimately show ?thesis using ifs by (auto simp: ints split: if_splits)
    qed
    then show ?thesis using inv by (simp add: machines_inv_def vm_inv_def fields act)
  qed
  ultimately have "vm_inv w'" using inv by (simp add: vm_inv_def names_inv_def act name_in_use_def fields same)
  then show ?thesis using act fields same by simp
qed (use c inv in \<open>auto simp: configureVM_def split: option.splits\<close>)

lemma removeVM_ptr_inv:
  assumes inv: "vm_inv w" and s: "s \<in> set (vm_sessions w)" and p: "p \<in> set (vs_vms (vsess_at w s))"
    and r: "removeVM_ptr s p w = (ok, w')"
  shows "vm_inv w'" "vm_at w' = vm_at w" "vm_sessions w' = vm_sessions w" "if_at w' = if_at w"
    "active_vms w' = active_vms w - (if ok then {p} else {})"
    "vs_vms (vsess_at w' s) = (if ok then removeAll p (vs_vms (vsess_at w s)) else vs_vms (vsess_at w s))"
    "vs_vlans (vsess_at w' s) = leaving (set (vm_interfaces (vm_at w p))) (vs_vlans (vsess_at w s))"
    "name_in_use w' n \<longleftrightarrow> name_in_use w n \<and> \<not> (ok \<and> n = vm_name (vm_at w p))"
proof -
  let ?is = "vm_interfaces (vm_at w p)"
  define cmd where "cmd = ''/KVM_Images/scripts/undefine_vm.sh '' @ vm_name (vm_at (leave_vlans s ?is w) p)"
  obtain code w1 where c: "vm_system cmd (leave_vlans s ?is w) = (code, w1)" by fastforce
  then have w1_def: "w1 = snd (vm_system cmd (leave_vlans s ?is w))" by simp
  have o: "only_vlans s w w1" unfolding w1_def by (rule only_vlans_trans [OF leave_vlans_only only_vlans_quiet [OF vm_system_quiet]])
  have si: "session_inv s w" using inv s by (simp add: vm_inv_def)
  then have vl: "vs_vlans (vsess_at w1 s) = leaving (set ?is) (vs_vlans (vsess_at w s))"
    by (simp add: w1_def vm_system_quiet leave_vlans_vlans session_inv_def)
  have "vm_inv w1" "active_vms w1 = active_vms w" and vms: "vs_vms (vsess_at w1 t) = vs_vms (vsess_at w t)" for t
    using vm_inv_vlans [OF o inv] si by (auto simp: vl session_inv_def vlans_ok_leaving members_leaving)
  note w1 = this
  have m: "same_machines w w1" using o by (simp add: only_vlans_def)
  then have at: "vm_at w1 = vm_at w" "vmnames w1 = vmnames w" "vm_sessions w1 = vm_sessions w" "if_at w1 = if_at w"
    "if_count w1 = if_count w" "vm_count w1 = vm_count w" "vsess_count w1 = vsess_count w"
    by (simp_all add: same_machines_def)
  have w': "w' = (if ok then upd_vsess s (\<lambda>x. x\<lparr>vs_vms := removeAll p (vs_vms x)\<rparr>)
      (w1\<lparr>vmnames := name_put (vm_name (vm_at w p)) (\<lambda>x. x\<lparr>nm_in_use := False\<rparr>) (vmnames w1)\<rparr>) else w1)"
    using r unfolding removeVM_ptr_def Let_def cmd_def [symmetric] c
    by (auto simp: releaseVMname_def at split: if_splits)
  have "vm_inv w' \<and> vm_at w' = vm_at w \<and> vm_sessions w' = vm_sessions w \<and> if_at w' = if_at w \<and>
      active_vms w' = active_vms w - (if ok then {p} else {}) \<and>
      vs_vms (vsess_at w' s) = (if ok then removeAll p (vs_vms (vsess_at w s)) else vs_vms (vsess_at w s)) \<and>
      vs_vlans (vsess_at w' s) = leaving (set ?is) (vs_vlans (vsess_at w s)) \<and>
      (name_in_use w' n \<longleftrightarrow> name_in_use w n \<and> \<not> (ok \<and> n = vm_name (vm_at w p)))"
  proof (cases ok)
    case False
    then show ?thesis using w1 at vl vms by (simp add: w' name_in_use_def)
  next
    case True
    have vms': "set (vs_vms (vsess_at w' t)) = set (vs_vms (vsess_at w t)) - {p}" if t: "t \<in> set (vm_sessions w)" for t
    proof (cases "t = s")
      case False
      then have "p \<notin> set (vs_vms (vsess_at w t))" using one_session [OF inv s t p] by blast
      then show ?thesis using False True by (simp add: w' vm_frame vms)
    qed (use True in \<open>simp add: w' vm_frame vms\<close>)
    have sess: "vm_sessions w' = vm_sessions w" using True by (simp add: w' vm_frame at)
    have act: "active_vms w' = active_vms w - {p}" using vms' by (auto simp: active_vms_def sess)
    have vlt: "vs_vlans (vsess_at w' t) = vs_vlans (vsess_at w1 t)" for t using True by (simp add: w' vm_frame)
    have fields: "vm_at w' = vm_at w" "if_at w' = if_at w" "if_count w' = if_count w" "vm_count w' = vm_count w"
      "vsess_count w' = vsess_count w"
      "vmnames w' = name_put (vm_name (vm_at w p)) (\<lambda>x. x\<lparr>nm_in_use := False\<rparr>) (vmnames w)"
      using True by (simp_all add: w' vm_frame at)
    have names: "names_inv w" using inv by (simp add: vm_inv_def)
    have u: "name_in_use w' m \<longleftrightarrow> name_in_use w m \<and> m \<noteq> vm_name (vm_at w p)" for m
      using names name_in_use_put [of w "vm_name (vm_at w p)" False m] by (simp add: names_inv_def name_in_use_def fields)
    have pa: "p \<in> active_vms w" using s p by (auto simp: active_vms_def)
    have "inj_on (\<lambda>q. vm_name (vm_at w q)) (active_vms w - {p})"
      using names by (auto simp: names_inv_def intro: inj_on_subset)
    moreover have "(m \<in> (\<lambda>q. vm_name (vm_at w q)) ` active_vms w \<and> m \<noteq> vm_name (vm_at w p)) =
        (m \<in> (\<lambda>q. vm_name (vm_at w q)) ` (active_vms w - {p}))" for m
      using names pa by (auto simp: names_inv_def inj_on_def)
    ultimately have "names_inv w'" using names name_put_sorted u
      by (simp add: names_inv_def act fields)
    moreover have "machines_inv w'"
    proof -
      have "set (vs_vms (vsess_at w' a)) \<inter> set (vs_vms (vsess_at w' b)) = {}"
        if "a \<in> set (vm_sessions w)" "b \<in> set (vm_sessions w)" "a \<noteq> b" for a b
        using one_session [OF inv that(1,2)] that by (auto simp: vms')
      then show ?thesis using inv by (simp add: vm_inv_def machines_inv_def act fields sess) blast
    qed
    moreover have "session_inv t w'" if t: "t \<in> set (vm_sessions w)" for t
    proof -
      have i: "session_inv t w1" using w1(1) t by (simp add: vm_inv_def at)
      have "distinct (map (\<lambda>q. comp_id (vm_comp (vm_at w' q))) (vs_vms (vsess_at w' t)))"
        using i True by (auto simp: session_inv_def w' vm_frame at removeAll_filter_not_eq distinct_map_filter)
      moreover have "members (vs_vlans (vsess_at w' t)) \<subseteq> own_interfaces t w'"
      proof
        fix j assume j: "j \<in> members (vs_vlans (vsess_at w' t))"
        then have "j \<in> own_interfaces t w1" using i by (auto simp: vlt session_inv_def)
        then obtain q where q: "q \<in> set (vs_vms (vsess_at w t))" "j \<in> set (vm_interfaces (vm_at w q))"
          by (auto simp: own_interfaces_def vms at)
        have "q \<noteq> p"
        proof
          assume "q = p"
          then have "t = s" using one_session [OF inv s t p] q(1) by simp
          then show False using j q(2) \<open>q = p\<close> by (simp add: vlt vl members_leaving)
        qed
        then show "j \<in> own_interfaces t w'" using q vms' [OF t] by (auto simp: own_interfaces_def fields)
      qed
      ultimately show ?thesis using i by (simp add: session_inv_def vlt fields at if_vlan_def)
    qed
    ultimately show ?thesis using w1(1) True act u fields sess vl vlt
      by (simp add: vm_inv_def at) (simp add: w' vm_frame vms)
  qed
  then show "vm_inv w'" "vm_at w' = vm_at w" "vm_sessions w' = vm_sessions w" "if_at w' = if_at w"
    "active_vms w' = active_vms w - (if ok then {p} else {})"
    "vs_vms (vsess_at w' s) = (if ok then removeAll p (vs_vms (vsess_at w s)) else vs_vms (vsess_at w s))"
    "vs_vlans (vsess_at w' s) = leaving (set ?is) (vs_vlans (vsess_at w s))"
    "name_in_use w' n \<longleftrightarrow> name_in_use w n \<and> \<not> (ok \<and> n = vm_name (vm_at w p))"
    by - (elim conjE, assumption)+
qed

lemma no_vms_no_vlans:
  assumes "vm_inv w" "s \<in> set (vm_sessions w)" "vs_vms (vsess_at w s) = []"
  shows "vs_vlans (vsess_at w s) = []"
proof -
  have "members (vs_vlans (vsess_at w s)) = {}" "vlans_ok (\<lambda>i. if_vlan i w) (vs_vlans (vsess_at w s))"
    using assms by (auto simp: vm_inv_def session_inv_def own_interfaces_def)
  then show ?thesis by (cases "vs_vlans (vsess_at w s)") (auto simp: members_def vlans_ok_def)
qed

lemma clear_no_vms: "vs_vms (vsess_at w s) = [] \<Longrightarrow> vm_session_clear s w = Some w"
  by (simp add: vm_session_clear.simps)

lemma drop_session_inv:
  assumes inv: "vm_inv w" and e: "vs_vms (vsess_at w s) = []"
  shows "vm_inv (w\<lparr>vm_sessions := removeAll s (vm_sessions w)\<rparr>)" (is "vm_inv ?w")
    and "active_vms (w\<lparr>vm_sessions := removeAll s (vm_sessions w)\<rparr>) = active_vms w"
proof -
  show a: "active_vms ?w = active_vms w" using e by (auto simp: active_vms_def)
  have "machines_inv ?w" using inv unfolding vm_inv_def machines_inv_def a by simp
  moreover have "session_inv t ?w" if "t \<in> set (vm_sessions w)" for t
    using inv that by (simp add: vm_inv_def session_inv_def own_interfaces_def if_vlan_def)
  ultimately show "vm_inv ?w" using inv unfolding vm_inv_def names_inv_def a
    by (simp add: name_in_use_def distinct_removeAll)
qed

lemma removeVM_inv:
  assumes inv: "vm_inv w" and s: "s \<in> set (vm_sessions w)" and r: "removeVM s c w = (ok, w')"
  shows "vm_inv w'" "vm_sessions w' = vm_sessions w" "vm_at w' = vm_at w"
    "name_in_use w' n \<longleftrightarrow> name_in_use w n \<and> \<not> (ok \<and> (\<exists>p. getVM s c w = Some p \<and> vm_name (vm_at w p) = n))"
    "active_vms w' = active_vms w - (if ok then set_option (getVM s c w) else {})"
    "vs_vms (vsess_at w' s) = (if ok then filter (\<lambda>p. getVM s c w \<noteq> Some p) (vs_vms (vsess_at w s)) else vs_vms (vsess_at w s))"
proof -
  have "vm_inv w' \<and> vm_sessions w' = vm_sessions w \<and> vm_at w' = vm_at w \<and>
      (name_in_use w' n \<longleftrightarrow> name_in_use w n \<and> \<not> (ok \<and> (\<exists>p. getVM s c w = Some p \<and> vm_name (vm_at w p) = n))) \<and>
      active_vms w' = active_vms w - (if ok then set_option (getVM s c w) else {}) \<and>
      vs_vms (vsess_at w' s) = (if ok then filter (\<lambda>p. getVM s c w \<noteq> Some p) (vs_vms (vsess_at w s)) else vs_vms (vsess_at w s))"
  proof (cases "getVM s c w")
    case (Some p)
    then have p: "p \<in> set (vs_vms (vsess_at w s))" and r': "removeVM_ptr s p w = (ok, w')"
      using r getVM_mem by (auto simp: removeVM_def)
    show ?thesis using removeVM_ptr_inv(1-7) [OF inv s p r'] removeVM_ptr_inv(8) [OF inv s p r', of n] Some
      by (auto simp: removeAll_filter_not_eq)
  qed (use r inv in \<open>auto simp: removeVM_def\<close>)
  then show "vm_inv w'" "vm_sessions w' = vm_sessions w" "vm_at w' = vm_at w"
    "name_in_use w' n \<longleftrightarrow> name_in_use w n \<and> \<not> (ok \<and> (\<exists>p. getVM s c w = Some p \<and> vm_name (vm_at w p) = n))"
    "active_vms w' = active_vms w - (if ok then set_option (getVM s c w) else {})"
    "vs_vms (vsess_at w' s) = (if ok then filter (\<lambda>p. getVM s c w \<noteq> Some p) (vs_vms (vsess_at w s)) else vs_vms (vsess_at w s))"
    by - (elim conjE, assumption)+
qed

lemma deleteVM_inv:
  assumes inv: "vm_inv w"
  obtains ok w' where "deleteVM c e w = Some (ok, w')" "vm_inv w'" "vm_at w' = vm_at w"
    "set (vm_sessions w') \<subseteq> set (vm_sessions w)"
    "\<And>n. name_in_use w' n \<longleftrightarrow> name_in_use w n \<and>
       \<not> (ok \<and> (\<exists>s p. getSession e w = Some s \<and> getVM s c w = Some p \<and> vm_name (vm_at w p) = n))"
    "\<And>s. getSession e w = Some s \<Longrightarrow> removeVM s c w = (ok, w') \<or>
       ok \<and> (\<exists>w1. removeVM s c w = (ok, w1) \<and> vs_vms (vsess_at w1 s) = [] \<and> w' = w1\<lparr>vm_sessions := removeAll s (vm_sessions w)\<rparr>)"
proof (cases "getSession e w")
  case None
  then show ?thesis using that [of True w] inv by (auto simp: deleteVM_def)
next
  case (Some s)
  then have s: "s \<in> set (vm_sessions w)" by (rule getSession_mem)
  obtain ok w1 where r: "removeVM s c w = (ok, w1)" by fastforce
  note w1 = removeVM_inv [OF inv s r]
  show ?thesis
  proof (cases "ok \<and> vs_vms (vsess_at w1 s) = []")
    case False
    then have "deleteVM c e w = Some (ok, w1)" using Some r by (auto simp: deleteVM_def)
    then show ?thesis using w1 r Some by (intro that [of ok w1]) auto
  next
    case True
    let ?w = "w1\<lparr>vm_sessions := removeAll s (vm_sessions w1)\<rparr>"
    have "deleteVM c e w = Some (True, ?w)" using Some r True by (simp add: deleteVM_def clear_no_vms)
    moreover have "name_in_use ?w = name_in_use w1" by (simp add: name_in_use_def fun_eq_iff)
    ultimately show ?thesis using w1 r Some True drop_session_inv [OF w1(1)] by (intro that [of True ?w]) auto
  qed
qed

end
