(* ===== verification/Vm_Properties.thy ===== *)
theory Vm_Properties
  imports Vm_Invariant
begin

text \<open>
  What the daemon of the hosts of virtual machines promises: who owns a name and a VLAN in every reachable state, which
  requests are answered, what a request for a machine gets, and what becomes of the names when a session is cleared.
\<close>

section \<open>The states that requests lead to\<close>

inductive vm_step :: "vmbase \<Rightarrow> vmbase \<Rightarrow> bool" where
  vm_step_handle: "vm_handle r w = Some w' \<Longrightarrow> vm_step w w'"

abbreviation vm_run :: "vmbase \<Rightarrow> vmbase \<Rightarrow> bool" where
  "vm_run \<equiv> vm_step\<^sup>*\<^sup>*"

inductive_cases vm_stepE: "vm_step w w'"

lemma init_names_inv:
  "sorted_wrt (<) (map fst xs) \<Longrightarrow> \<forall>n x. map_of xs n = Some x \<longrightarrow> \<not> nm_in_use x \<Longrightarrow>
     sorted_wrt (<) (map fst (init_names hid is xs)) \<and> (\<forall>n x. map_of (init_names hid is xs) n = Some x \<longrightarrow> \<not> nm_in_use x)"
proof (induction "is" arbitrary: xs)
  case (Cons i "is")
  let ?x = "\<lparr>nm_name = vm_label hid i, nm_index = int i, nm_in_use = False\<rparr>"
  have "\<not> nm_in_use ?x" by simp
  then have "\<forall>n x. map_of (name_put (vm_label hid i) (\<lambda>_. ?x) xs) n = Some x \<longrightarrow> \<not> nm_in_use x"
    using Cons.prems(2) unfolding map_of_name_put [OF Cons.prems(1)] by (metis fun_upd_apply option.inject)
  then show ?case unfolding init_names.simps by (rule Cons.IH [OF name_put_sorted [OF Cons.prems(1)]])
qed simp

lemma vmbase_new_inv: "vm_inv (vmbase_new buf t exits mem)"
proof -
  define ns where "ns = init_names (take 2 (drop 8 buf)) [1..<25] []"
  have "sorted_wrt (<) (map fst ns) \<and> (\<forall>n x. map_of ns n = Some x \<longrightarrow> \<not> nm_in_use x)"
    unfolding ns_def by (rule init_names_inv) simp_all
  then show ?thesis unfolding vmbase_new_def ns_def [symmetric]
    by (auto simp: vm_inv_def names_inv_def machines_inv_def active_vms_def name_in_use_def split: option.splits)
qed

lemma vm_inv_fields [simp]:
  "vm_inv (w\<lparr>vb_user := u\<rparr>) \<longleftrightarrow> vm_inv w" "vm_inv (vm_emit e w) \<longleftrightarrow> vm_inv w" "vm_inv (vm_answer r st w) \<longleftrightarrow> vm_inv w"
  "vm_inv (snd (vm_system c w)) \<longleftrightarrow> vm_inv w"
  by (rule vm_inv_quiet, simp_all add: same_machines_def vm_answer_def vm_emit_def vm_system_def)+

lemma addVM_inv:
  assumes inv: "vm_inv w" and s: "s \<in> set (vm_sessions w)" and a: "addVM s c ip crs mem pw img w = Some (r, w')"
  shows "vm_inv w'" "vb_log w' = vb_log w"
proof -
  have "vm_inv w' \<and> vb_log w' = vb_log w"
  proof (cases "getVM s c w")
    case None
    show ?thesis using addVM_new(1,2) [OF inv s None a] by simp
  qed (use a inv in \<open>simp add: addVM_def\<close>)
  then show "vm_inv w'" "vb_log w' = vb_log w" by simp_all
qed

lemma vm_handle_inv:
  assumes inv: "vm_inv w" and h: "vm_handle r w = Some w'"
  shows "vm_inv w'"
proof (cases r)
  case (Vm_Start req)
  obtain s w1 where s: "addSession (exp_info (crd_exp req)) w = (s, w1)" by fastforce
  show ?thesis using h Vm_Start s addVM_inv(1) [OF addSession_inv(1,2) [OF inv s]]
    by (auto simp: vm_start_experiment_handle_def Let_def bind_eq_Some_conv split: list.splits)
next
  case (Vm_Refresh req)
  obtain ok w1 where "deleteVM (crd_comp req) (exp_info (crd_exp req)) w = Some (ok, w1)" "vm_inv w1"
    by (rule deleteVM_inv [OF inv])
  then show ?thesis using h Vm_Refresh inv by (auto simp: vm_refresh_handle_def Let_def split: if_splits)
next
  case (Vm_Configure req)
  then show ?thesis using h inv getSession_mem [of "exp_info (crd_exp req)" w]
    by (auto simp: vm_configure_node_handle_def split: option.splits prod.splits dest!: configureVM_inv [OF inv])
next
  case (Vm_End_Configure req)
  then obtain s p where "getSession (exp_info (crd_exp req)) w = Some s" and p: "getVM s (crd_comp req) w = Some p"
    and w': "vm_inv w' = vm_inv (snd (startVM s p w))"
    using h by (auto simp: vm_end_configure_node_handle_def bind_eq_Some_conv split_beta Let_def)
  then show ?thesis using startVM_inv(1) [OF inv] getVM_mem by blast
qed

interpretation vm: kept vm_step vm_inv
  by unfold_locales (auto elim!: vm_stepE intro: vm_handle_inv)

lemma vm_run_inv: "vm_run (vmbase_new buf t exits mem) w \<Longrightarrow> vm_inv w"
  using vm.reach vmbase_new_inv by blast

section \<open>Answers and exit codes\<close>

definition vm_answers :: "vmbase \<Rightarrow> vm_event list" where
  "vm_answers w = filter (\<lambda>e. case e of Vm_Response _ _ \<Rightarrow> True | Vm_Endconfig_Response _ _ _ \<Rightarrow> True | _ \<Rightarrow> False) (vb_log w)"

fun answered_request :: "vm_event \<Rightarrow> crd_request option" where
  "answered_request (Vm_Response r _) = Some r"
| "answered_request (Vm_Endconfig_Response r _ _) = Some r"
| "answered_request _ = None"

text \<open>From \<open>w\<close> to \<open>w'\<close> commands have run, some of the exit codes are used, and nothing is answered.\<close>

definition only_commands :: "vmbase \<Rightarrow> vmbase \<Rightarrow> bool" where
  "only_commands w w' \<longleftrightarrow> vm_answers w' = vm_answers w \<and> vb_testing w' = vb_testing w \<and> (\<exists>k. vb_exit w' = (\<lambda>n. vb_exit w (n + k)))"

lemma only_commands_refl [simp]: "only_commands w w"
  unfolding only_commands_def by (auto intro!: exI [of _ 0])

lemma only_commands_trans: "only_commands w w1 \<Longrightarrow> only_commands w1 w2 \<Longrightarrow> only_commands w w2"
  unfolding only_commands_def by (auto simp: add.assoc fun_eq_iff)

lemma vm_system_commands: "only_commands w (snd (vm_system c w))"
  by (auto simp: only_commands_def vm_system_def vm_emit_def vm_answers_def intro!: exI [of _ 1])

lemma upd_commands [simp]:
  "only_commands w (upd_vsess s f w)" "only_commands w (upd_vm p g w)" "only_commands w (w\<lparr>vmnames := ns\<rparr>)"
  "only_commands w (vm_emit (Vm_File fn ls) w)" "only_commands w (w\<lparr>vm_sessions := ss\<rparr>)" "only_commands w (w\<lparr>vb_user := u\<rparr>)"
  by (auto simp: only_commands_def upd_vsess_def upd_vm_def vm_emit_def vm_answers_def intro!: exI [of _ 0])

lemmas commands_intro = only_commands_trans [OF _ upd_commands(1)] only_commands_trans [OF _ upd_commands(3)]
  only_commands_trans [OF _ upd_commands(4)] only_commands_trans [OF _ upd_commands(5)] only_commands_trans [OF _ vm_system_commands]

lemma getVLan_commands: "only_commands w (getVLan s v w)"
  by (simp add: getVLan_def)

lemma leave_vlans_commands: "only_commands w (leave_vlans s is w)"
proof (induction "is" arbitrary: w)
  case (Cons i "is")
  have "only_commands w (leave_vlan s i w)"
    unfolding leave_vlan_def Let_def split_beta by (auto intro!: commands_intro getVLan_commands)
  then show ?case using only_commands_trans Cons.IH by fastforce
qed simp

lemma join_vlans_commands: "only_commands w (join_vlans s is w)"
proof (induction "is" arbitrary: w)
  case (Cons i "is")
  have "only_commands w (join_vlan s i w)"
    unfolding join_vlan_def Let_def by (auto intro!: commands_intro getVLan_commands)
  then show ?case using only_commands_trans Cons.IH by fastforce
qed simp

lemma configure_ports_commands: "only_commands w (configure_ports p is w)"
proof (induction "is" arbitrary: w)
  case (Cons i "is")
  show ?case unfolding configure_ports.simps Let_def split_beta by (rule only_commands_trans [OF vm_system_commands Cons.IH])
qed simp

lemma ping_vm_commands: "only_commands w (snd (ping_vm n c w))"
proof (induction n arbitrary: w)
  case (Suc n)
  show ?case using only_commands_trans [OF vm_system_commands Suc.IH] vm_system_commands
    by (simp add: Let_def split_beta)
qed simp

lemma startVM_commands: "only_commands w (snd (startVM s p w))"
  unfolding startVM_def Let_def split_beta
  by (simp, intro conjI impI only_commands_trans [OF _ ping_vm_commands] only_commands_trans [OF _ configure_ports_commands]
      commands_intro join_vlans_commands)

lemma removeVM_ptr_commands: "only_commands w (snd (removeVM_ptr s p w))"
  unfolding removeVM_ptr_def Let_def split_beta releaseVMname_def
  by (simp, intro conjI impI commands_intro leave_vlans_commands)

lemma removeVM_commands: "only_commands w (snd (removeVM s c w))"
  using removeVM_ptr_commands by (simp add: removeVM_def split: option.split)

text \<open>The machine goes when its command succeeds.\<close>

lemma removeVM_ptr_ok:
  assumes "\<forall>n. (vb_exit w n = 0) = ok"
  shows "fst (removeVM_ptr s p w) = ok"
proof -
  obtain k where "vb_exit (leave_vlans s (vm_interfaces (vm_at w p)) w) = (\<lambda>n. vb_exit w (n + k))"
    using leave_vlans_commands [of w s "vm_interfaces (vm_at w p)"] unfolding only_commands_def by blast
  then show ?thesis using assms
    by (simp add: removeVM_ptr_def Let_def split_beta releaseVMname_def vm_system_def)
qed

section \<open>Who owns what\<close>

text \<open>C18: In every state that requests lead to, a name is in use exactly when a machine of a session carries it, and no
  two machines carry the same name; a VLAN of a session has members, all of them interfaces of the session's own machines
  with the VLAN's identifier, no identifier occurs twice, and a session without machines has no VLAN.\<close>

theorem vm_owned:
  assumes "vm_run (vmbase_new buf t exits mem) w"
  shows "(\<forall>n. name_in_use w n \<longleftrightarrow> (\<exists>s \<in> set (vm_sessions w). \<exists>p \<in> set (vs_vms (vsess_at w s)). vm_name (vm_at w p) = n)) \<and>
    (\<forall>s \<in> set (vm_sessions w). \<forall>a \<in> set (vm_sessions w). \<forall>p \<in> set (vs_vms (vsess_at w s)). \<forall>q \<in> set (vs_vms (vsess_at w a)).
       vm_name (vm_at w p) = vm_name (vm_at w q) \<longrightarrow> s = a \<and> p = q) \<and>
    (\<forall>s \<in> set (vm_sessions w). distinct (map vl_id (vs_vlans (vsess_at w s))) \<and>
       (\<forall>l \<in> set (vs_vlans (vsess_at w s)). vl_interfaces l \<noteq> [] \<and>
          (\<forall>i \<in> set (vl_interfaces l). if_vlan i w = vl_id l \<and>
             (\<exists>p \<in> set (vs_vms (vsess_at w s)). i \<in> set (vm_interfaces (vm_at w p))))) \<and>
       (vs_vms (vsess_at w s) = [] \<longrightarrow> vs_vlans (vsess_at w s) = []))"
proof -
  have inv: "vm_inv w" using assms by (rule vm_run_inv)
  then have n: "names_inv w" and s: "\<forall>s \<in> set (vm_sessions w). session_inv s w" by (simp_all add: vm_inv_def)
  have "\<forall>n. name_in_use w n \<longleftrightarrow> (\<exists>s \<in> set (vm_sessions w). \<exists>p \<in> set (vs_vms (vsess_at w s)). vm_name (vm_at w p) = n)"
    using n by (auto simp: names_inv_def active_vms_def image_iff)
  moreover have "s = a \<and> p = q" if m: "s \<in> set (vm_sessions w)" "a \<in> set (vm_sessions w)" "p \<in> set (vs_vms (vsess_at w s))"
      "q \<in> set (vs_vms (vsess_at w a))" "vm_name (vm_at w p) = vm_name (vm_at w q)" for s a p q
  proof -
    have "p = q" using n m by (auto simp: names_inv_def active_vms_def inj_on_def)
    then show ?thesis using one_session [OF inv m(1,2)] m(3,4) by blast
  qed
  moreover have "distinct (map vl_id (vs_vlans (vsess_at w s))) \<and>
      (\<forall>l \<in> set (vs_vlans (vsess_at w s)). vl_interfaces l \<noteq> [] \<and>
          (\<forall>i \<in> set (vl_interfaces l). if_vlan i w = vl_id l \<and>
             (\<exists>p \<in> set (vs_vms (vsess_at w s)). i \<in> set (vm_interfaces (vm_at w p)))))" if "s \<in> set (vm_sessions w)" for s
    using s that by (force simp: session_inv_def vlans_ok_def members_def own_interfaces_def)
  ultimately show ?thesis using no_vms_no_vlans [OF inv] by blast
qed

section \<open>Which requests are answered\<close>

text \<open>What a request has to bring: a start three parameters, and a memory that does not overflow unless the machine is
  there already; the end of the configuration a machine that is there.\<close>

fun vm_accepts :: "vm_request \<Rightarrow> vmbase \<Rightarrow> bool" where
  "vm_accepts (Vm_Start req) w \<longleftrightarrow> 3 \<le> length (se_init_params req) \<and>
     ((\<exists>s. getSession (exp_info (crd_exp req)) w = Some s \<and> getVM s (crd_comp req) w \<noteq> None) \<or>
      unat (se_memory req) div 1000 * 1024 < 2 ^ 31)"
| "vm_accepts (Vm_Refresh req) w \<longleftrightarrow> True"
| "vm_accepts (Vm_Configure req) w \<longleftrightarrow> True"
| "vm_accepts (Vm_End_Configure req) w \<longleftrightarrow>
     (\<exists>s. getSession (exp_info (crd_exp req)) w = Some s \<and> getVM s (crd_comp req) w \<noteq> None)"

fun vm_req :: "vm_request \<Rightarrow> crd_request" where
  "vm_req (Vm_Start req) = crd_request.truncate req"
| "vm_req (Vm_Refresh req) = crd_request.truncate req"
| "vm_req (Vm_Configure req) = crd_request.truncate req"
| "vm_req (Vm_End_Configure req) = req"

definition vm_answered :: "vm_request \<Rightarrow> vmbase \<Rightarrow> vmbase \<Rightarrow> bool" where
  "vm_answered r w w' \<longleftrightarrow> (\<exists>a. vm_answers w' = vm_answers w @ [a] \<and> answered_request a = Some (vm_req r))"

lemma vm_answer_answers [simp]:
  "vm_answers (vm_answer req st w) = vm_answers w @ [Vm_Response (crd_request.truncate req) st]"
  "vm_answers (vm_emit (Vm_Endconfig_Response r st n) w) = vm_answers w @ [Vm_Endconfig_Response r st n]"
  "vm_answers (vm_emit Vm_I_Am_Up w) = vm_answers w" "vm_answers (w\<lparr>vb_user := u\<rparr>) = vm_answers w"
  "vm_answers (snd (vm_system c w)) = vm_answers w"
  by (simp_all add: vm_answers_def vm_answer_def vm_emit_def vm_system_def)

lemma addVM_defined:
  "addVM s c ip crs m pw img w = None \<longleftrightarrow> getVM s c w = None \<and> 2 ^ 31 \<le> unat m div 1000 * 1024"
  by (auto simp: addVM_def Let_def split: option.split prod.splits)

lemma three_params: "3 \<le> length ps \<longleftrightarrow> (\<exists>a b c ds. ps = a # b # c # ds)"
  by (auto simp: numeral_3_eq_3 Suc_le_length_iff)

lemma start_answered:
  assumes inv: "vm_inv w"
  shows "(vm_handle (Vm_Start req) w \<noteq> None \<longleftrightarrow> vm_accepts (Vm_Start req) w) \<and>
    (\<forall>w'. vm_handle (Vm_Start req) w = Some w' \<longrightarrow> vm_answered (Vm_Start req) w w')"
proof (cases "3 \<le> length (se_init_params req)")
  case True
  then obtain a pw img ds where ps: "se_init_params req = a # pw # img # ds" by (auto simp: three_params)
  obtain s w1 where s: "addSession (exp_info (crd_exp req)) w = (s, w1)" by fastforce
  note f = addSession_inv [OF inv s]
  have "vb_log w2 = vb_log w" if "addVM s (crd_comp req) ip crs m pw' img' w1 = Some (r, w2)" for ip crs m pw' img' r w2
    using addVM_inv(2) [OF f(1,2) that] f(8) by simp
  then have "vm_answers w2 = vm_answers w" if "addVM s (crd_comp req) ip crs m pw' img' w1 = Some (r, w2)" for ip crs m pw' img' r w2
    using that by (simp add: vm_answers_def)
  moreover have "(\<exists>s. getSession (exp_info (crd_exp req)) w = Some s \<and> getVM s (crd_comp req) w \<noteq> None) \<longleftrightarrow> getVM s (crd_comp req) w1 \<noteq> None"
    using f(6) by (simp split: option.split)
  ultimately show ?thesis using ps s addVM_defined [of s "crd_comp req" _ _ "se_memory req" _ _ w1]
    by (fastforce simp: vm_start_experiment_handle_def Let_def bind_eq_Some_conv vm_answered_def not_le)
next
  case False
  then show ?thesis by (auto simp: vm_start_experiment_handle_def Let_def three_params split: list.splits prod.splits)
qed

lemma deleteVM_answers:
  assumes "vm_inv w" "deleteVM c e w = Some (ok, w')"
  shows "vm_answers w' = vm_answers w"
proof -
  obtain ok1 w1 where d: "deleteVM c e w = Some (ok1, w1)"
    and s: "\<And>s. getSession e w = Some s \<Longrightarrow> removeVM s c w = (ok1, w1) \<or>
       ok1 \<and> (\<exists>w2. removeVM s c w = (ok1, w2) \<and> vs_vms (vsess_at w2 s) = [] \<and> w1 = w2\<lparr>vm_sessions := removeAll s (vm_sessions w)\<rparr>)"
    using deleteVM_inv [OF assms(1), of c e] by metis
  show ?thesis
  proof (cases "getSession e w")
    case (Some s)
    have "vm_answers (snd (removeVM s c w)) = vm_answers w" using removeVM_commands unfolding only_commands_def by blast
    then show ?thesis using s [OF Some] d assms(2) by (auto simp: vm_answers_def)
  qed (use assms(2) in \<open>simp add: deleteVM_def\<close>)
qed

text \<open>C19: In every state that requests lead to, the daemon handles a request exactly when it brings what it has to, and
  then answers it exactly once: a start needs three parameters (they are read unseen) and a memory whose conversion does
  not overflow, unless the machine is there; the end of a configuration needs the experiment's session and the
  component's machine, whose pointers are followed unseen; the other two requests need nothing.\<close>

theorem vm_accepted:
  assumes "vm_run (vmbase_new buf t exits mem) w"
  shows "(vm_handle r w \<noteq> None \<longleftrightarrow> vm_accepts r w) \<and> (\<forall>w'. vm_handle r w = Some w' \<longrightarrow> vm_answered r w w')"
proof -
  have inv: "vm_inv w" using assms by (rule vm_run_inv)
  show ?thesis
  proof (cases r)
    case (Vm_Start req)
    then show ?thesis using start_answered [OF inv] by blast
  next
    case (Vm_Refresh req)
    obtain ok w1 where d: "deleteVM (crd_comp req) (exp_info (crd_exp req)) w = Some (ok, w1)"
      by (rule deleteVM_inv [OF inv])
    then show ?thesis using Vm_Refresh deleteVM_answers [OF inv d]
      by (auto simp: vm_refresh_handle_def Let_def vm_answered_def)
  next
    case (Vm_Configure req)
    have "vm_answers w' = vm_answers w" if "getSession (exp_info (crd_exp req)) w = Some s"
        "configureVM s (crd_comp req) (cn_node_conf req) w = (ok, w')" for s ok w'
      using configureVM_inv [OF inv getSession_mem [OF that(1)] that(2)] by (simp add: vm_answers_def)
    then show ?thesis using Vm_Configure
      by (auto simp: vm_configure_node_handle_def vm_answered_def split: option.split prod.split)
  next
    case (Vm_End_Configure req)
    have "vm_answers (snd (startVM s p w)) = vm_answers w" for s p
      using startVM_commands unfolding only_commands_def by blast
    then show ?thesis using Vm_End_Configure
      by (auto simp: vm_end_configure_node_handle_def bind_eq_Some_conv bind_eq_None_conv split_beta Let_def vm_answered_def)
  qed
qed

section \<open>Starting and removing a machine\<close>

lemma addSession_new:
  assumes "addSession e w = (s, w')"
  shows "vm_count w' = vm_count w" "getSession e w = None \<Longrightarrow> s = vsess_count w"
  using assms by (auto simp: addSession_def Let_def split: option.splits)

text \<open>C20: A start for a component that has no machine yet gives it the first name, in the order of the names, that is not
  in use, puts the name and nothing else into use, and is answered with success; when every name is in use the request
  fails, no name and no machine is changed, but the session that was made for it stays.\<close>

theorem vm_started:
  assumes run: "vm_run (vmbase_new buf t exits mem) w"
    and new: "\<forall>s. getSession (exp_info (crd_exp req)) w = Some s \<longrightarrow> getVM s (crd_comp req) w = None"
    and ps: "se_init_params req = a # pw # img # ds" and m: "unat (se_memory req) div 1000 * 1024 < 2 ^ 31"
  shows "\<exists>w'. vm_handle (Vm_Start req) w = Some w' \<and>
    (case find (\<lambda>(n, x). \<not> nm_in_use x) (vmnames w) of
       Some (n, _) \<Rightarrow> \<not> name_in_use w n \<and> (\<forall>k. name_in_use w' k \<longleftrightarrow> k = n \<or> name_in_use w k) \<and>
         active_vms w' = insert (vm_count w) (active_vms w) \<and> vm_name (vm_at w' (vm_count w)) = n \<and>
         (\<forall>p \<in> active_vms w. vm_at w' p = vm_at w p) \<and>
         vm_answers w' = vm_answers w @ [Vm_Response (crd_request.truncate req) NCCP_Status_Fine]
     | None \<Rightarrow> (\<forall>k. name_in_use w' k \<longleftrightarrow> name_in_use w k) \<and> active_vms w' = active_vms w \<and>
         (\<forall>p \<in> active_vms w. vm_at w' p = vm_at w p) \<and>
         (getSession (exp_info (crd_exp req)) w = None \<longrightarrow> vsess_count w \<in> set (vm_sessions w')) \<and>
         vm_answers w' = vm_answers w @ [Vm_Response (crd_request.truncate req) NCCP_Status_Failed])"
proof -
  let ?e = "exp_info (crd_exp req)"
  have inv: "vm_inv w" using run by (rule vm_run_inv)
  obtain s w1 where s: "addSession ?e w = (s, w1)" by fastforce
  note f = addSession_inv [OF inv s]
  have none: "getVM s (crd_comp req) w1 = None" using new f(6) by (auto split: option.split)
  obtain r w2 where r: "addVM s (crd_comp req) (c_str (se_ipaddr req)) (se_cores req) (se_memory req)
      (param_getString pw) (param_getString img) w1 = Some (r, w2)"
    using addVM_defined [of s "crd_comp req" _ _ "se_memory req" _ _ w1] m by (metis not_le not_None_eq surj_pair)
  note g = addVM_new [OF f(1,2) none r]
  let ?st = "if r = None then NCCP_Status_Failed else NCCP_Status_Fine"
  let ?w = "vm_answer req ?st (w2\<lparr>vb_user := c_str (ei_userName ?e)\<rparr>)"
  have h: "vm_handle (Vm_Start req) w = Some ?w" using s ps r by (simp add: vm_start_experiment_handle_def)
  have same: "name_in_use ?w = name_in_use w2" "active_vms ?w = active_vms w2" "vm_at ?w = vm_at w2" "vm_sessions ?w = vm_sessions w2"
    by (simp_all add: name_in_use_def active_vms_def vm_answer_def vm_emit_def fun_eq_iff)
  have u: "name_in_use w1 = name_in_use w" by (simp add: name_in_use_def f(4) fun_eq_iff)
  have l: "vm_answers ?w = vm_answers w @ [Vm_Response (crd_request.truncate req) ?st]"
    using g(2) f(8) vm_answer_answers(1,4) by (metis vm_answers_def)
  have at: "\<forall>p \<in> active_vms w. vm_at ?w p = vm_at w p" using g(8) f(3,5) same(3) by simp
  show ?thesis
  proof (cases "find (\<lambda>(n, x). \<not> nm_in_use x) (vmnames w)")
    case None
    then have "\<forall>(n, x) \<in> set (vmnames w1). nm_in_use x" using f(4) by (auto simp: find_None_iff)
    then have rn: "r = None" using g(4) by simp
    have "name_in_use w2 = name_in_use w1" using g(7) [OF rn] by (simp add: name_in_use_def fun_eq_iff)
    moreover have "getSession ?e w = None \<longrightarrow> vsess_count w \<in> set (vm_sessions w1)"
      using f(2) addSession_new(2) [OF s] by auto
    ultimately show ?thesis using h None l at rn same u g(5) f(3) g(3)
      by (intro exI [of _ ?w]) (simp del: vm_answer_answers)
  next
    case (Some nx)
    obtain n x where nx: "nx = (n, x)" by fastforce
    have fd: "find (\<lambda>(n, x). \<not> nm_in_use x) (vmnames w1) = Some (n, x)" using Some nx f(4) by simp
    then have "\<not> (\<forall>(n, x) \<in> set (vmnames w1). nm_in_use x)"
      using find_None_iff [of "\<lambda>(n, x). \<not> nm_in_use x" "vmnames w1"] by auto
    then have rn: "r = Some (vm_count w1)" using g(4) by (auto split: if_splits)
    then have rs: "r \<noteq> None" by simp
    obtain n' x' where k: "find (\<lambda>(n, x). \<not> nm_in_use x) (vmnames w1) = Some (n', x')" "vm_name (vm_at w2 (vm_count w1)) = n'"
      "\<forall>m. name_in_use w2 m \<longleftrightarrow> m = n' \<or> name_in_use w1 m" using g(6) [OF rs] by blast
    have k': "vm_name (vm_at w2 (vm_count w)) = n" "\<forall>m. name_in_use w2 m \<longleftrightarrow> m = n \<or> name_in_use w m"
      using k fd u addSession_new(1) [OF s] by simp_all
    have free: "\<not> name_in_use w n" using inv Some nx by (intro free_name_found) (auto simp: vm_inv_def names_inv_def)
    show ?thesis using h l at rn same k' free g(5) f(3) addSession_new(1) [OF s]
      by (intro exI [of _ ?w]) (simp add: Some nx del: vm_answer_answers)
  qed
qed

text \<open>C21: When an experiment leaves a machine, its interfaces leave the VLANs of the session, and a VLAN without members
  goes, whether the command that undefines the machine succeeds or not. With success its name, and only its name, is free
  again, and the session goes with its last machine; without, the machine keeps its name and its place. The answer is
  success in both cases.\<close>

theorem vm_removed:
  assumes run: "vm_run (vmbase_new buf t exits mem) w"
    and e: "c_str (ei_ID (exp_info (crd_exp req))) \<noteq> ''''" "getSession (exp_info (crd_exp req)) w = Some s"
    and p: "getVM s (crd_comp req) w = Some p" and x: "\<forall>n. (vb_exit w n = 0) = ok"
  shows "\<exists>w'. vm_handle (Vm_Refresh req) w = Some w' \<and>
    (\<forall>n. name_in_use w' n \<longleftrightarrow> name_in_use w n \<and> \<not> (ok \<and> n = vm_name (vm_at w p))) \<and>
    set (vm_sessions w') = set (vm_sessions w) - (if ok \<and> set (vs_vms (vsess_at w s)) = {p} then {s} else {}) \<and>
    set (vs_vms (vsess_at w' s)) = set (vs_vms (vsess_at w s)) - (if ok then {p} else {}) \<and>
    vs_vlans (vsess_at w' s) = leaving (set (vm_interfaces (vm_at w p))) (vs_vlans (vsess_at w s)) \<and>
    vm_answers w' = vm_answers w @ [Vm_Response (crd_request.truncate req) NCCP_Status_Fine]"
proof -
  let ?e = "exp_info (crd_exp req)" and ?c = "crd_comp req"
  have inv: "vm_inv w" using run by (rule vm_run_inv)
  have s: "s \<in> set (vm_sessions w)" using e(2) by (rule getSession_mem)
  have pm: "p \<in> set (vs_vms (vsess_at w s))" using getVM_mem [OF p] by simp
  obtain w1 where r: "removeVM_ptr s p w = (ok, w1)" using removeVM_ptr_ok [OF x, of s p] by (cases "removeVM_ptr s p w") auto
  note f = removeVM_ptr_inv [OF inv s pm r]
  have rm: "removeVM s ?c w = (ok, w1)" using p r by (simp add: removeVM_def)
  obtain w2 where d: "deleteVM ?c ?e w = Some (ok, w2)"
    and w2: "w2 = (if ok \<and> vs_vms (vsess_at w1 s) = [] then w1\<lparr>vm_sessions := removeAll s (vm_sessions w1)\<rparr> else w1)"
    using e(2) rm by (simp add: deleteVM_def clear_no_vms)
  let ?w = "vm_answer req NCCP_Status_Fine w2"
  have h: "vm_handle (Vm_Refresh req) w = Some ?w" using e(1) d by (simp add: vm_refresh_handle_def)
  have l: "vm_answers ?w = vm_answers w @ [Vm_Response (crd_request.truncate req) NCCP_Status_Fine]"
    using deleteVM_answers [OF inv d] by simp
  have empty: "vs_vms (vsess_at w1 s) = [] \<longleftrightarrow> set (vs_vms (vsess_at w s)) = {p}" if ok
    using f(6) that pm by (auto simp: removeAll_filter_not_eq filter_empty_conv)
  have names: "\<forall>n. name_in_use ?w n \<longleftrightarrow> name_in_use w n \<and> \<not> (ok \<and> n = vm_name (vm_at w p))"
    using removeVM_ptr_inv(8) [OF inv s pm r] by (simp add: w2 name_in_use_def vm_answer_def vm_emit_def)
  have at: "vsess_at ?w = vsess_at w1" by (simp add: w2 vm_answer_def vm_emit_def)
  have "set (vm_sessions ?w) = set (vm_sessions w) - (if ok \<and> set (vs_vms (vsess_at w s)) = {p} then {s} else {})"
    using empty f(3) by (cases ok) (auto simp: w2 vm_answer_def vm_emit_def)
  then show ?thesis using h l names f(6,7) unfolding at [symmetric] by (intro exI [of _ ?w]) simp
qed

text \<open>Clearing a session that still has machines takes every second one out without undefining it and without
  releasing its name, and takes from an empty list when their number is odd.\<close>

lemma vm_clear_skips:
  assumes run: "vm_run (vmbase_new buf t exits mem) w" and s: "s \<in> set (vm_sessions w)" and x: "\<forall>n. vb_exit w n = 0"
  shows "(vs_vms (vsess_at w s) = [p] \<longrightarrow> vm_session_clear s w = None) \<and>
    (vs_vms (vsess_at w s) = [p, q] \<longrightarrow> (\<exists>w'. vm_session_clear s w = Some w' \<and> vs_vms (vsess_at w' s) = [] \<and>
       \<not> name_in_use w' (vm_name (vm_at w p)) \<and> name_in_use w' (vm_name (vm_at w q)) \<and>
       q \<notin> active_vms w'))"
proof -
  have inv: "vm_inv w" using run by (rule vm_run_inv)
  obtain w1 where r: "removeVM_ptr s p w = (True, w1)" using removeVM_ptr_ok [of w True s p] x by (cases "removeVM_ptr s p w") auto
  have one: "vm_session_clear s w = None" if v: "vs_vms (vsess_at w s) = [p]"
  proof -
    have "vs_vms (vsess_at w1 s) = []" using removeVM_ptr_inv(6) [OF inv s _ r] v by simp
    then show ?thesis using v r by (simp add: vm_session_clear.simps [of s w])
  qed
  have two: "\<exists>w'. vm_session_clear s w = Some w' \<and> vs_vms (vsess_at w' s) = [] \<and>
       \<not> name_in_use w' (vm_name (vm_at w p)) \<and> name_in_use w' (vm_name (vm_at w q)) \<and> q \<notin> active_vms w'"
    if v: "vs_vms (vsess_at w s) = [p, q]"
  proof -
    have p: "p \<in> set (vs_vms (vsess_at w s))" using v by simp
    note f = removeVM_ptr_inv [OF inv s p r]
    have "session_inv s w" using inv s by (simp add: vm_inv_def)
    then have pq: "p \<noteq> q" using v by (auto simp: session_inv_def)
    have v1: "vs_vms (vsess_at w1 s) = [q]" using f(6) v pq by simp
    let ?w = "upd_vsess s (\<lambda>x. x\<lparr>vs_vms := tl (vs_vms x)\<rparr>) w1"
    have c: "vm_session_clear s w = Some ?w"
      using v r v1 by (simp add: vm_session_clear.simps [of s w]) (simp add: clear_no_vms vm_frame)
    have act: "p \<in> active_vms w" "q \<in> active_vms w" using v s by (force simp: active_vms_def)+
    then have "vm_name (vm_at w p) \<noteq> vm_name (vm_at w q)" "name_in_use w (vm_name (vm_at w q))"
      using inv pq by (auto simp: vm_inv_def names_inv_def inj_on_def)
    then have n: "\<not> name_in_use ?w (vm_name (vm_at w p))" "name_in_use ?w (vm_name (vm_at w q))"
      using removeVM_ptr_inv(8) [OF inv s p r] by (simp_all add: name_in_use_def upd_vsess_def)
    have "q \<notin> active_vms ?w"
    proof
      assume "q \<in> active_vms ?w"
      then obtain a where a: "a \<in> set (vm_sessions w1)" "q \<in> set (vs_vms (vsess_at ?w a))"
        by (auto simp: active_vms_def vm_frame)
      then have "a \<noteq> s" using v1 by (auto simp: vm_frame)
      then have "q \<in> set (vs_vms (vsess_at w1 a))" using a(2) by (simp add: vm_frame)
      then show False using one_session [OF f(1) a(1)] f(3) s v1 \<open>a \<noteq> s\<close> by auto
    qed
    then show ?thesis using c n v1 by (intro exI [of _ ?w]) (simp add: vm_frame)
  qed
  show ?thesis using one two by blast
qed

section \<open>A host with two machines\<close>

definition sample_vm_comp :: "u32 \<Rightarrow> component" where
  "sample_vm_comp i = component_of ''VM'' i"

definition sample_experiment :: onl_experiment where
  "sample_experiment = \<lparr>exp_addr = nstr_of '''', exp_port = 0,
     exp_info = \<lparr>ei_ID = nstr_of ''7'', ei_expName = nstr_of '''', ei_userName = nstr_of ''jst''\<rparr>\<rparr>"

definition sample_vm_start :: "u32 \<Rightarrow> start_experiment" where
  "sample_vm_start i = blank_request \<lparr>crd_exp = sample_experiment, crd_comp = sample_vm_comp i, se_ipaddr = nstr_of '''',
     se_cores = 1, se_memory = 2000, se_init_params = [param_of '''', param_of ''pw'', param_of ''img'']\<rparr>"

definition sample_vm_refresh :: "u32 \<Rightarrow> refresh" where
  "sample_vm_refresh i = blank_request \<lparr>crd_exp = sample_experiment, crd_comp = sample_vm_comp i, rf_reboot_params = []\<rparr>"

definition sample_mem :: vmbase where
  "sample_mem =
     \<lparr>vm_at = \<lambda>_. \<lparr>vm_name = '''', vm_ctladdr = '''', vm_comp = sample_vm_comp 0, vm_interfaces = [], vm_expaddr = '''',
        vm_cores = 0, vm_memory = 0, vm_passwd = '''', vm_img = ''''\<rparr>,
      if_at = \<lambda>_. \<lparr>vi_ninfo = node_info_new, vi_vm = 0\<rparr>, vsess_at = \<lambda>_. vm_session_new (exp_info sample_experiment),
      vm_count = 0, if_count = 0, vsess_count = 0, vm_sessions = [], vmnames = [], vb_user = '''', vb_testing = False,
      vb_exit = \<lambda>_. 0, vb_log = []\<rparr>"

definition sample_hosts :: vmbase where
  "sample_hosts = vmbase_new ''pc12core07'' False (\<lambda>_. 0) sample_mem"

abbreviation sample_run :: "vmbase \<Rightarrow> bool" where
  "sample_run \<equiv> vm_run (vmbase_new ''pc12core07'' False (\<lambda>_. 0) sample_mem)"

definition sample_host1 :: vmbase where
  "sample_host1 = the (vm_handle (Vm_Start (sample_vm_start 1)) sample_hosts)"

definition sample_host2 :: vmbase where
  "sample_host2 = the (vm_handle (Vm_Start (sample_vm_start 2)) sample_host1)"

lemma init_names_keys: "fst ` set (init_names hid is xs) = vm_label hid ` set is \<union> fst ` set xs"
proof (induction "is" arbitrary: xs)
  case (Cons i "is")
  show ?case using name_put_keys by (simp add: Cons.IH)
qed simp

lemma vm_label_12: "vm_label hid 1 \<noteq> vm_label hid 2"
  by (simp add: vm_label_def int2str_inj)

text \<open>As long as at most one name is in use, there is a free one.\<close>

lemma free_name_exists:
  assumes "fst ` set (vmnames w) = vm_label hid ` {1..<25}" "sorted_wrt (<) (map fst (vmnames w))"
    and "\<forall>m. name_in_use w m \<longrightarrow> m = n"
  obtains k x where "find (\<lambda>(n, x). \<not> nm_in_use x) (vmnames w) = Some (k, x)" "\<not> name_in_use w k"
proof -
  have "vm_label hid 1 \<noteq> n \<or> vm_label hid 2 \<noteq> n" using vm_label_12 by metis
  moreover have "vm_label hid 1 \<in> fst ` set (vmnames w)" "vm_label hid 2 \<in> fst ` set (vmnames w)"
    unfolding assms(1) by simp_all
  ultimately obtain k x where k: "(k, x) \<in> set (vmnames w)" "k \<noteq> n" by auto
  then have "map_of (vmnames w) k = Some x" using assms(2) by (auto simp: strict_sorted_iff)
  then have "\<not> nm_in_use x" using assms(3) k(2) by (auto simp: name_in_use_def)
  then obtain y where y: "find (\<lambda>(n, x). \<not> nm_in_use x) (vmnames w) = Some y"
    using k(1) find_None_iff [of "\<lambda>(n, x). \<not> nm_in_use x" "vmnames w"] by auto
  obtain a b where "y = (a, b)" by fastforce
  then show ?thesis using that [of a b] free_name_found [OF assms(2)] y by simp
qed

lemma sample_hosts: "vm_inv sample_hosts" "sample_run sample_hosts"
    "fst ` set (vmnames sample_hosts) = vm_label (take 2 (drop 8 ''pc12core07'')) ` {1..<25}"
  "vm_sessions sample_hosts = []" "vm_count sample_hosts = 0" "vsess_count sample_hosts = 0" "vb_exit sample_hosts = (\<lambda>_. 0)"
  unfolding sample_hosts_def
  by (rule vmbase_new_inv, rule rtranclp.rtrancl_refl, simp_all add: vmbase_new_def init_names_keys del: upt_rec_numeral)

lemma sample_hosts_free: "\<not> name_in_use sample_hosts n"
  using sample_hosts(1,4) by (simp add: vm_inv_def names_inv_def active_vms_def)

lemma sample_start_fields:
  "crd_exp (sample_vm_start i) = sample_experiment" "crd_comp (sample_vm_start i) = sample_vm_comp i"
  "se_memory (sample_vm_start i) = 2000" "se_init_params (sample_vm_start i) = [param_of '''', param_of ''pw'', param_of ''img'']"
  by (simp_all add: sample_vm_start_def blank_request_def)

lemma comp_id_sample [simp]: "comp_id (component_copy (sample_vm_comp i)) = i" "comp_id (sample_vm_comp i) = i"
  by (simp_all add: component_copy_def sample_vm_comp_def component_of_def)

lemma sample_eq: "experiment_info_eq (experiment_info_copy (exp_info sample_experiment)) (exp_info sample_experiment)"
  by code_simp

lemma sample_start_step:
  assumes inv: "vm_inv w" and f: "find (\<lambda>(n, x). \<not> nm_in_use x) (vmnames w) = Some (k, x)"
    and g: "addSession (exp_info sample_experiment) w = (s, w1)" and c: "\<forall>p \<in> set (vs_vms (vsess_at w1 s)). comp_id (vm_comp (vm_at w1 p)) \<noteq> i"
  shows "\<exists>w'. vm_handle (Vm_Start (sample_vm_start i)) w = Some w' \<and> vm_sessions w' = vm_sessions w1 \<and>
    vsess_at w' = (vsess_at w1)(s := (vsess_at w1 s)\<lparr>vs_vms := vs_vms (vsess_at w1 s) @ [vm_count w1]\<rparr>) \<and> vm_count w' = Suc (vm_count w1) \<and>
    comp_id (vm_comp (vm_at w' (vm_count w1))) = i \<and> (\<forall>p < vm_count w1. vm_at w' p = vm_at w1 p) \<and> vsess_count w' = vsess_count w1 \<and>
    vb_exit w' = vb_exit w1 \<and> vm_name (vm_at w' (vm_count w1)) = k \<and> (\<forall>m. name_in_use w' m \<longleftrightarrow> m = k \<or> name_in_use w m) \<and>
    fst ` set (vmnames w') = insert k (fst ` set (vmnames w))"
proof -
  have n: "getVM s (sample_vm_comp i) w1 = None" using c by (simp add: getVM_None)
  have v: "vmnames w1 = vmnames w" using addSession_inv(4) [OF inv g] .
  have u: "name_in_use w' m \<longleftrightarrow> m = k \<or> name_in_use w m"
    if "vmnames w' = name_put k (\<lambda>x. x\<lparr>nm_in_use := True\<rparr>) (vmnames w)" for w' m
    using inv name_in_use_put [of w k True m] that by (simp add: vm_inv_def names_inv_def name_in_use_def)
  have m: "unat (2000 :: u32) div 1000 * 1024 = 2048" by simp
  obtain w' where h: "vm_handle (Vm_Start (sample_vm_start i)) w = Some w'"
    and w': "vm_sessions w' = vm_sessions w1"
      "vsess_at w' = (vsess_at w1)(s := (vsess_at w1 s)\<lparr>vs_vms := vs_vms (vsess_at w1 s) @ [vm_count w1]\<rparr>)" "vm_count w' = Suc (vm_count w1)"
      "comp_id (vm_comp (vm_at w' (vm_count w1))) = i" "\<forall>p < vm_count w1. vm_at w' p = vm_at w1 p" "vsess_count w' = vsess_count w1"
      "vb_exit w' = vb_exit w1" "vm_name (vm_at w' (vm_count w1)) = k"
      "vmnames w' = name_put k (\<lambda>x. x\<lparr>nm_in_use := True\<rparr>) (vmnames w)"
    by (simp add: vm_start_experiment_handle_def sample_start_fields g addVM_def n v f m assignVM_def upd_vm_def upd_vsess_def
        vm_answer_def vm_emit_def Let_def)
  then show ?thesis using u [OF w'(9)] name_put_keys [of k _ "vmnames w"] by (intro exI [of _ w']) simp
qed

lemma sample_host1:
  "vm_handle (Vm_Start (sample_vm_start 1)) sample_hosts = Some sample_host1" "vm_sessions sample_host1 = [0]"
  "vs_vms (vsess_at sample_host1 0) = [0]" "vs_expInfo (vsess_at sample_host1 0) = experiment_info_copy (exp_info sample_experiment)"
  "vm_count sample_host1 = 1" "comp_id (vm_comp (vm_at sample_host1 0)) = 1" "vb_exit sample_host1 = (\<lambda>_. 0)"
  "name_in_use sample_host1 m \<longleftrightarrow> m = vm_name (vm_at sample_host1 0)"
  "fst ` set (vmnames sample_host1) = vm_label (take 2 (drop 8 ''pc12core07'')) ` {1..<25}"
proof -
  note h = sample_hosts
  obtain k x where k: "find (\<lambda>(n, x). \<not> nm_in_use x) (vmnames sample_hosts) = Some (k, x)"
    using free_name_exists [OF h(3)] h(1) sample_hosts_free by (metis vm_inv_def names_inv_def)
  then obtain i where "i < length (vmnames sample_hosts)" "vmnames sample_hosts ! i = (k, x)"
    by (auto simp: find_Some_iff)
  then have km: "k \<in> fst ` set (vmnames sample_hosts)" by (metis fst_conv image_eqI nth_mem)
  have a: "addSession (exp_info sample_experiment) sample_hosts = (0, sample_hosts\<lparr>vsess_count := 1,
      vsess_at := (vsess_at sample_hosts)(0 := vm_session_new (exp_info sample_experiment)), vm_sessions := [0]\<rparr>)"
    by (simp add: addSession_def getSession_def h)
  obtain w' where "vm_handle (Vm_Start (sample_vm_start 1)) sample_hosts = Some w'" "vm_sessions w' = [0]"
      "vs_vms (vsess_at w' 0) = [0]" "vs_expInfo (vsess_at w' 0) = experiment_info_copy (exp_info sample_experiment)"
      "vm_count w' = 1" "comp_id (vm_comp (vm_at w' 0)) = 1" "vb_exit w' = (\<lambda>_. 0)"
      "\<forall>m. name_in_use w' m \<longleftrightarrow> m = vm_name (vm_at w' 0)" "fst ` set (vmnames w') = insert k (fst ` set (vmnames sample_hosts))"
    using sample_start_step [OF h(1) k a, of 1] h sample_hosts_free by (auto simp: vm_session_new_def)
  then show "vm_handle (Vm_Start (sample_vm_start 1)) sample_hosts = Some sample_host1" "vm_sessions sample_host1 = [0]"
    "vs_vms (vsess_at sample_host1 0) = [0]" "vs_expInfo (vsess_at sample_host1 0) = experiment_info_copy (exp_info sample_experiment)"
    "vm_count sample_host1 = 1" "comp_id (vm_comp (vm_at sample_host1 0)) = 1" "vb_exit sample_host1 = (\<lambda>_. 0)"
    "name_in_use sample_host1 m \<longleftrightarrow> m = vm_name (vm_at sample_host1 0)"
    "fst ` set (vmnames sample_host1) = vm_label (take 2 (drop 8 ''pc12core07'')) ` {1..<25}"
    using insert_absorb [OF km] h(3) by (simp_all add: sample_host1_def)
qed

lemma sample_host1_run: "sample_run sample_host1"
  using vm_step_handle [OF sample_host1(1)] by (simp add: sample_hosts_def)

lemma sample_getSession:
  "vm_sessions w = [0] \<Longrightarrow> vs_expInfo (vsess_at w 0) = experiment_info_copy (exp_info sample_experiment) \<Longrightarrow>
     getSession (exp_info sample_experiment) w = Some 0"
  using sample_eq by (simp add: getSession_def)

lemma sample_host2:
  "sample_run sample_host2" "vm_sessions sample_host2 = [0]" "vs_vms (vsess_at sample_host2 0) = [0, 1]"
  "vb_exit sample_host2 = (\<lambda>_. 0)"
proof -
  have inv: "vm_inv sample_host1" using sample_host1_run by (rule vm_run_inv)
  then have srt: "sorted_wrt (<) (map fst (vmnames sample_host1))" by (simp add: vm_inv_def names_inv_def)
  obtain k x where k: "find (\<lambda>(n, x). \<not> nm_in_use x) (vmnames sample_host1) = Some (k, x)"
    using free_name_exists [OF sample_host1(9) srt] sample_host1(8) by blast
  have a: "addSession (exp_info sample_experiment) sample_host1 = (0, sample_host1)"
    by (simp add: addSession_def sample_getSession [OF sample_host1(2,4)])
  obtain w' where w': "vm_handle (Vm_Start (sample_vm_start 2)) sample_host1 = Some w'" "vm_sessions w' = [0]"
      "vs_vms (vsess_at w' 0) = [0, 1]" "vb_exit w' = (\<lambda>_. 0)"
    using sample_start_step [OF inv k a, of 2] sample_host1 by auto
  then show "vm_sessions sample_host2 = [0]" "vs_vms (vsess_at sample_host2 0) = [0, 1]" "vb_exit sample_host2 = (\<lambda>_. 0)"
    by (simp_all add: sample_host2_def)
  have "vm_step sample_host1 sample_host2" using vm_step_handle [OF w'(1)] w'(1) by (simp add: sample_host2_def)
  then show "sample_run sample_host2" using sample_host1_run by (rule rtranclp.rtrancl_into_rtrancl [rotated])
qed

theorem vm_owned_witness:
  "\<exists>p \<in> set (vs_vms (vsess_at sample_host1 0)). name_in_use sample_host1 (vm_name (vm_at sample_host1 p))"
  using vm_owned [OF sample_host1_run] sample_host1(2,3) by simp

theorem vm_accepted_witness:
  "vm_handle (Vm_End_Configure (crd_request.truncate (sample_vm_start 3))) sample_host1 = None \<and>
     (\<exists>w'. vm_handle (Vm_End_Configure (crd_request.truncate (sample_vm_start 1))) sample_host1 = Some w' \<and>
       vm_answered (Vm_End_Configure (crd_request.truncate (sample_vm_start 1))) sample_host1 w')"
proof -
  note a = vm_accepted [OF sample_host1_run]
  have f: "crd_exp (crd_request.truncate (sample_vm_start i)) = sample_experiment"
    "crd_comp (crd_request.truncate (sample_vm_start i)) = sample_vm_comp i" for i
    by (simp_all add: crd_request.truncate_def sample_start_fields)
  have g: "getVM 0 (sample_vm_comp i) sample_host1 = (if i = 1 then Some 0 else None)" for i
    using sample_host1 by (simp add: getVM_def)
  show ?thesis using a [of "Vm_End_Configure (crd_request.truncate (sample_vm_start 3))"]
      a [of "Vm_End_Configure (crd_request.truncate (sample_vm_start 1))"]
    by (simp add: f g sample_getSession [OF sample_host1(2,4)] del: vm_handle.simps) blast
qed

theorem vm_started_witness:
  "\<exists>w' k. vm_handle (Vm_Start (sample_vm_start 1)) sample_hosts = Some w' \<and> name_in_use w' k"
proof -
  have "\<exists>k x. find (\<lambda>(n, x). \<not> nm_in_use x) (vmnames sample_hosts) = Some (k, x)"
    using free_name_exists [OF sample_hosts(3)] sample_hosts(1) sample_hosts_free by (metis vm_inv_def names_inv_def)
  then obtain k x where k: "find (\<lambda>(n, x). \<not> nm_in_use x) (vmnames sample_hosts) = Some (k, x)" by blast
  obtain w' where "vm_handle (Vm_Start (sample_vm_start 1)) sample_hosts = Some w'" "\<forall>m. name_in_use w' m \<longleftrightarrow> m = k \<or> name_in_use sample_hosts m"
    using vm_started [OF sample_hosts(2), of "sample_vm_start 1"] k
    by (auto simp: sample_start_fields sample_hosts(4) getSession_def simp del: vm_handle.simps)
  then show ?thesis by blast
qed

theorem vm_removed_witness:
  "\<exists>w'. vm_handle (Vm_Refresh (sample_vm_refresh 1)) sample_host1 = Some w' \<and> vm_sessions w' = [] \<and> (\<forall>n. \<not> name_in_use w' n)"
proof -
  have f: "crd_exp (sample_vm_refresh 1) = sample_experiment" "crd_comp (sample_vm_refresh 1) = sample_vm_comp 1"
    by (simp_all add: sample_vm_refresh_def blank_request_def)
  have i: "c_str (ei_ID (exp_info sample_experiment)) \<noteq> ''''" by code_simp
  show ?thesis
    using vm_removed [OF sample_host1_run, of "sample_vm_refresh 1" 0 0 True] sample_host1 i
    by (simp add: f sample_getSession getVM_def del: vm_handle.simps) blast
qed

lemma vm_clear_skips_example:
  "\<exists>w'. vm_session_clear 0 sample_host2 = Some w' \<and> vs_vms (vsess_at w' 0) = [] \<and> (\<exists>n. name_in_use w' n)"
  using vm_clear_skips [OF sample_host2(1), of 0 0 1] sample_host2 by auto

end
