(* ===== verification/Base_Relay.thy ===== *)
theory Base_Relay
  imports Onl_Messages Onl_Responses
begin

text \<open>
  The daemon that every node runs (\<^verbatim>\<open>src/base\<close>): it starts the specialization daemon of the node and relays to it
  what the user interface and the resource daemon send. A relayed message is not understood: behind the header of the
  base class its bytes are kept as they are (\<^verbatim>\<open>data\<close>) and written behind a header of the daemon's own.
\<close>

section \<open>Bytes that are handed on\<close>

definition buf_byte :: "nat \<Rightarrow> byte_buffer \<Rightarrow> u8 option" where
  "buf_byte i b = (if i < unat (num_bytes_allocated b) then Some (buffer_data b i) else None)"

text \<open>The loop \<^verbatim>\<open>for(; i < len; ++i) dst << bytes[i]\<close>.\<close>

fun relay_bytes :: "nat list \<Rightarrow> byte_buffer \<Rightarrow> byte_buffer \<Rightarrow> byte_buffer option" where
  "relay_bytes [] src dst = Some dst"
| "relay_bytes (i # is) src dst = do { x \<leftarrow> buf_byte i src; dst \<leftarrow> put_u8 x dst; relay_bytes is src dst }"

text \<open>What \<^verbatim>\<open>parse\<close> keeps, behind the cursor of the message, and what \<^verbatim>\<open>write\<close> of a request and of a response append.\<close>

definition keep_rest :: "(nat \<Rightarrow> u8) \<Rightarrow> byte_buffer \<Rightarrow> byte_buffer \<Rightarrow> byte_buffer option" where
  "keep_rest junk buf data =
     (let len = num_bytes_stored buf; data = buf_resize junk len data in
      relay_bytes [unat (cur_index buf)..<unat len] buf data)"

definition put_kept :: "byte_buffer \<Rightarrow> byte_buffer \<Rightarrow> byte_buffer option" where
  "put_kept data buf = relay_bytes [0..<unat (num_bytes_stored data)] data buf"

definition put_rest :: "byte_buffer \<Rightarrow> byte_buffer \<Rightarrow> byte_buffer option" where
  "put_rest orig buf = relay_bytes [unat (cur_index orig)..<unat (num_bytes_stored orig)] orig buf"

section \<open>Relayed requests\<close>

record rli_relay_req = rli_request +
  rrq_data :: byte_buffer

record crd_relay_req = crd_request +
  crq_data :: byte_buffer

definition rli_relay_req_of_bytes ::
    "(nat \<Rightarrow> u8) \<Rightarrow> (nat \<Rightarrow> u8) \<Rightarrow> (nat \<Rightarrow> u8) \<Rightarrow> u8 list \<Rightarrow> rli_relay_req \<Rightarrow> rli_relay_req option" where
  "rli_relay_req_of_bytes junk junk' junkd mbuf r = do {
     r \<leftarrow> request_of_bytes junk junk' mbuf r;
     Some (r\<lparr>rrq_data := byte_buffer_new junkd, req_timeout := 300\<rparr>)
   }"

definition rli_relay_short_req_of_bytes ::
    "(nat \<Rightarrow> u8) \<Rightarrow> (nat \<Rightarrow> u8) \<Rightarrow> (nat \<Rightarrow> u8) \<Rightarrow> u8 list \<Rightarrow> rli_relay_req \<Rightarrow> rli_relay_req option" where
  "rli_relay_short_req_of_bytes junk junk' junkd mbuf r = do {
     r \<leftarrow> rli_relay_req_of_bytes junk junk' junkd mbuf r;
     Some (r\<lparr>req_timeout := 2\<rparr>)
   }"

definition rli_relay_req_parse :: "(nat \<Rightarrow> u8) \<Rightarrow> rli_relay_req \<Rightarrow> rli_relay_req option" where
  "rli_relay_req_parse junk m = do {
     m \<leftarrow> request_parse m;
     data \<leftarrow> keep_rest junk (msg_buf m) (rrq_data m);
     Some (m\<lparr>rrq_data := data\<rparr>)
   }"

definition rli_relay_req_write :: "rli_relay_req \<Rightarrow> rli_relay_req option" where
  "rli_relay_req_write m = do {
     m \<leftarrow> request_write (m\<lparr>msg_buf := buf_reset (msg_buf m)\<rparr>);
     msg_put (put_kept (rrq_data m)) m
   }"

definition crd_relay_req_of_bytes ::
    "(nat \<Rightarrow> u8) \<Rightarrow> (nat \<Rightarrow> u8) \<Rightarrow> (nat \<Rightarrow> u8) \<Rightarrow> u8 list \<Rightarrow> crd_relay_req \<Rightarrow> crd_relay_req option" where
  "crd_relay_req_of_bytes junk junk' junkd mbuf r = do {
     r \<leftarrow> crd_request_of_bytes junk junk' mbuf r;
     Some (r\<lparr>crq_data := byte_buffer_new junkd\<rparr>)
   }"

definition crd_relay_req_parse :: "(nat \<Rightarrow> u8) \<Rightarrow> crd_relay_req \<Rightarrow> crd_relay_req option" where
  "crd_relay_req_parse junk m = do {
     m \<leftarrow> request_parse m;
     data \<leftarrow> keep_rest junk (msg_buf m) (crq_data m);
     Some (m\<lparr>crq_data := data\<rparr>)
   }"

definition crd_relay_req_write :: "crd_relay_req \<Rightarrow> crd_relay_req option" where
  "crd_relay_req_write m = do {
     m \<leftarrow> request_write (m\<lparr>msg_buf := buf_reset (msg_buf m)\<rparr>);
     msg_put (put_kept (crq_data m)) m
   }"

section \<open>Relayed responses\<close>

text \<open>A response that is relayed: the response of the base class, and the original, of which the rest is handed on.\<close>

record rli_relay_resp =
  rrs_resp :: rli_response
  rrs_orig :: rli_response

record crd_relay_resp =
  crs_resp :: crd_response
  crs_orig :: crd_response

definition rli_relay_resp_new ::
    "(nat \<Rightarrow> u8) \<Rightarrow> addr \<Rightarrow> rli_response \<Rightarrow> 'b rli_request_scheme \<Rightarrow> rli_response \<Rightarrow> rli_relay_resp" where
  "rli_relay_resp_new junk ra r rq mem =
     \<lparr>rrs_resp = (rli_response_new junk ra rq mem)\<lparr>end_of_message := end_of_message r, rr_status := rr_status r,
        rr_time_stamp := rr_time_stamp r, rr_clock_rate := rr_clock_rate r, rr_value := rr_value r,
        rr_status_msg := nstr_copy (nstr_copy (rr_status_msg r))\<rparr>, rrs_orig = r\<rparr>"

definition rli_relay_resp_write :: "rli_relay_resp \<Rightarrow> rli_relay_resp option" where
  "rli_relay_resp_write m = do {
     r \<leftarrow> rli_response_write (rrs_resp m);
     r \<leftarrow> msg_put (put_rest (msg_buf (rrs_orig m))) r;
     Some (m\<lparr>rrs_resp := r\<rparr>)
   }"

definition crd_relay_resp_new ::
    "(nat \<Rightarrow> u8) \<Rightarrow> addr \<Rightarrow> crd_response \<Rightarrow> 'b crd_request_scheme \<Rightarrow> crd_response \<Rightarrow> crd_relay_resp" where
  "crd_relay_resp_new junk ra r rq mem =
     \<lparr>crs_resp = (crd_response_new junk ra rq mem)\<lparr>end_of_message := end_of_message r, cr_status := cr_status r,
        cr_exp := experiment_copy (cr_exp r), cr_comp := component_copy (cr_comp r)\<rparr>, crs_orig = r\<rparr>"

definition crd_relay_resp_write :: "crd_relay_resp \<Rightarrow> crd_relay_resp option" where
  "crd_relay_resp_write m = do {
     r \<leftarrow> crd_response_write (crs_resp m);
     r \<leftarrow> msg_put (put_rest (msg_buf (crs_orig m))) r;
     Some (m\<lparr>crs_resp := r\<rparr>)
   }"

section \<open>The daemon\<close>

text \<open>\<open>bd_spec\<close> is the connection to the specialization daemon with its flag \<^verbatim>\<open>closed\<close>; the values of
  \<^verbatim>\<open>system\<close>, and whether a connection can be made, are endless sequences read in order.\<close>

datatype base_event =
    Base_Command string
  | Base_Exec "string list option"
  | Base_Crd_Response NCCP_StatusType
  | Base_Endconfig_Response NCCP_StatusType
  | Base_I_Am_Up

record based =
  bd_using_spec :: bool
  bd_spec :: "(addr \<times> bool) option"
  bd_user :: string
  bd_testing :: bool
  bd_system :: "nat \<Rightarrow> int"
  bd_connect :: "nat \<Rightarrow> addr option"
  bd_log :: "base_event list"

definition base_new :: "bool \<Rightarrow> (nat \<Rightarrow> int) \<Rightarrow> (nat \<Rightarrow> addr option) \<Rightarrow> based" where
  "base_new testing sys conn = \<lparr>bd_using_spec = False, bd_spec = None, bd_user = ''nobody'', bd_testing = testing,
     bd_system = sys, bd_connect = conn, bd_log = []\<rparr>"

definition base_emit :: "base_event \<Rightarrow> based \<Rightarrow> based" where
  "base_emit e d = d\<lparr>bd_log := bd_log d @ [e]\<rparr>"

definition system_cmd :: "string \<Rightarrow> based \<Rightarrow> int \<times> based" where
  "system_cmd cmd d =
     (let rtn = bd_system d 0; d = base_emit (Base_Command cmd) (d\<lparr>bd_system := (\<lambda>n. bd_system d (Suc n))\<rparr>) in
      (if rtn = -1 then rtn else rtn div 256 mod 256, d))"

text \<open>The arguments of the new process: the parameters' C strings, of which the first is replaced by the name of the
  program, then the user. The text of a number is dead before it is read, which only harms the new process.\<close>

definition spec_argv :: "string \<Rightarrow> param list \<Rightarrow> string \<Rightarrow> string list option" where
  "spec_argv specd ps usr = do {
     cs \<leftarrow> those (map param_getCString ps);
     Some (cs[0 := specd] @ [''--onluser'', usr])
   }"

definition start_specialization_daemon :: "(string \<Rightarrow> bool) \<Rightarrow> string \<Rightarrow> param list \<Rightarrow> based \<Rightarrow> bool \<times> based" where
  "start_specialization_daemon there specd ps d =
     (if \<not> there specd then (False, d) else (True, base_emit (Base_Exec (spec_argv specd ps (bd_user d))) d))"

primrec connect_to_specialization_daemon :: "nat \<Rightarrow> based \<Rightarrow> bool \<times> based" where
  "connect_to_specialization_daemon 0 d = (False, d)"
| "connect_to_specialization_daemon (Suc n) d =
     (let c = bd_connect d 0; d = d\<lparr>bd_connect := (\<lambda>n. bd_connect d (Suc n))\<rparr> in
      case c of Some a \<Rightarrow> (True, d\<lparr>bd_spec := Some (a, False)\<rparr>)
      | None \<Rightarrow> connect_to_specialization_daemon n (d\<lparr>bd_spec := None\<rparr>))"

definition base_start_experiment_handle :: "(string \<Rightarrow> bool) \<Rightarrow> start_experiment \<Rightarrow> based \<Rightarrow> based" where
  "base_start_experiment_handle there req d =
     (let d = d\<lparr>bd_user := c_str (ei_userName (exp_info (crd_exp req)))\<rparr>;
          (rc, d) = system_cmd ''/bin/mkdir -p /users'' d;
          d = (if rc \<noteq> 0 then d else snd (system_cmd ''/bin/mount onlsrv:/users /users'' d));
          (status, d) = (case se_init_params req of [] \<Rightarrow> (NCCP_Status_Fine, d)
            | p # _ \<Rightarrow>
                if pt p = string_param \<and> param_getString p \<noteq> '''' then
                  let (ok, d) = start_specialization_daemon there (param_getString p) (se_init_params req) (d\<lparr>bd_using_spec := True\<rparr>) in
                  if \<not> ok then (NCCP_Status_Failed, d)
                  else let (ok, d) = connect_to_specialization_daemon 5 d in
                    (if \<not> ok then NCCP_Status_Failed else NCCP_Status_Fine, d)
                else (NCCP_Status_Fine, d))
      in base_emit (Base_Crd_Response status) d)"

definition base_refresh_handle :: "refresh \<Rightarrow> based \<Rightarrow> based" where
  "base_refresh_handle req d =
     (let d = base_emit (Base_Crd_Response NCCP_Status_Fine) d in
      if \<not> bd_testing d then snd (system_cmd ''reboot'' d) else base_emit Base_I_Am_Up d)"

definition base_end_configure_node_handle :: "crd_request \<Rightarrow> based \<Rightarrow> based" where
  "base_end_configure_node_handle req d = base_emit (Base_Endconfig_Response NCCP_Status_Fine) d"

section \<open>Relaying\<close>

text \<open>
  \<open>marker\<close> is the rendezvous marker that \<^verbatim>\<open>send_and_wait\<close> gives the request on the connection to the specialization
  daemon, \<open>reply\<close> the response it returns with, or \<open>None\<close>. The values: the request as it is written to the
  specialization daemon, the answer, and the request as it is afterwards.
\<close>

datatype relay_answer =
    Rli_Answer rli_response
  | Rli_Relayed rli_relay_resp
  | Crd_Answer crd_response
  | Crd_Relayed crd_relay_resp

definition no_spec :: "based \<Rightarrow> bool" where
  "no_spec d \<longleftrightarrow> (case bd_spec d of None \<Rightarrow> True | Some (_, closed) \<Rightarrow> closed)"

definition to_spec :: "based \<Rightarrow> rendezvous \<Rightarrow> 'a request_scheme \<Rightarrow> 'a request_scheme" where
  "to_spec d marker m = m\<lparr>msg_periodic := False, msg_conn := map_option fst (bd_spec d), msg_rend := marker\<rparr>"

definition rli_relay_handle ::
    "(nat \<Rightarrow> u8) \<Rightarrow> addr \<Rightarrow> rli_response \<Rightarrow> based \<Rightarrow> rendezvous \<Rightarrow> rli_response option \<Rightarrow> rli_relay_req \<Rightarrow>
     rli_relay_req option \<times> relay_answer \<times> rli_relay_req" where
  "rli_relay_handle junk ra mem d marker reply m =
     (if \<not> bd_using_spec d \<or> no_spec d
      then (None, Rli_Answer (rli_response_new_status junk ra m NCCP_Status_TimeoutRemote mem),
        if msg_periodic m then m\<lparr>req_received_stop := True\<rparr> else m)
      else (case reply of
          None \<Rightarrow> (Some (to_spec d marker m), Rli_Answer (rli_response_new_status junk ra m NCCP_Status_TimeoutRemote mem), m)
        | Some r \<Rightarrow>
            let m' = (if rr_status r \<noteq> NCCP_Status_Fine \<and> msg_periodic m then m\<lparr>req_received_stop := True\<rparr> else m) in
            (Some (to_spec d marker m), Rli_Relayed (rli_relay_resp_new junk ra r m' mem), m')))"

definition crd_relay_handle ::
    "(nat \<Rightarrow> u8) \<Rightarrow> addr \<Rightarrow> crd_response \<Rightarrow> based \<Rightarrow> rendezvous \<Rightarrow> crd_response option \<Rightarrow> crd_relay_req \<Rightarrow>
     crd_relay_req option \<times> relay_answer \<times> crd_relay_req" where
  "crd_relay_handle junk ra mem d marker reply m =
     (if \<not> bd_using_spec d then (None, Crd_Answer (crd_response_new_status junk ra m NCCP_Status_Fine mem), m)
      else if no_spec d
      then (None, Crd_Answer (crd_response_new_status junk ra m NCCP_Status_TimeoutRemote mem),
        if msg_periodic m then m\<lparr>req_received_stop := True\<rparr> else m)
      else (case reply of
          None \<Rightarrow> (Some (to_spec d marker m), Crd_Answer (crd_response_new_status junk ra m NCCP_Status_TimeoutRemote mem), m)
        | Some r \<Rightarrow>
            let m' = (if cr_status r \<noteq> NCCP_Status_Fine \<and> msg_periodic m then m\<lparr>req_received_stop := True\<rparr> else m) in
            (Some (to_spec d marker m), Crd_Relayed (crd_relay_resp_new junk ra r m' mem), m')))"

end
