(* ===== verification/Base_Userdata.thy ===== *)
theory Base_Userdata
  imports Base_Relay
begin

text \<open>
  The values that the user interface plots from a file of the user (\<^verbatim>\<open>base/onlbased_userdata.cc\<close>): each line of the file
  is a record, its words are the fields, the last of them a time. The contents of the file are an argument of every
  operation, since the user's program writes it meanwhile. Numbers with a fraction are kept as their text; \<open>millis\<close>
  stands for the floating-point conversion of a time to milliseconds.
\<close>

section \<open>Input streams\<close>

record istream =
  is_pos :: nat
  is_eof :: bool
  is_fail :: bool

definition stream_good :: "istream \<Rightarrow> bool" where
  "stream_good s \<longleftrightarrow> \<not> is_eof s \<and> \<not> is_fail s"

definition stream_clear :: "istream \<Rightarrow> istream" where
  "stream_clear s = s\<lparr>is_eof := False, is_fail := False\<rparr>"

definition stream_seek0 :: "istream \<Rightarrow> istream" where
  "stream_seek0 s = (if is_fail s then s else s\<lparr>is_pos := 0, is_eof := False\<rparr>)"

text \<open>
  \<^verbatim>\<open>getline(buf, n)\<close>: characters up to a newline, which is taken but not stored, or to the end of the file. When
  \<open>room = n - 1\<close> characters are stored and the line goes on, or nothing is taken, \<^verbatim>\<open>failbit\<close> is set. On a
  stream that is not good it stores the empty line.
\<close>

datatype line_end = At_End | At_Newline | No_Room

fun scan_line :: "nat \<Rightarrow> string \<Rightarrow> string \<times> nat \<times> line_end" where
  "scan_line room [] = ([], 0, At_End)"
| "scan_line room (c # cs) =
     (if c = CHR 0x0A then ([], 1, At_Newline)
      else if room = 0 then ([], 0, No_Room)
      else let (l, n, e) = scan_line (room - 1) cs in (c # l, Suc n, e))"

definition getline :: "nat \<Rightarrow> string \<Rightarrow> istream \<Rightarrow> string \<times> istream" where
  "getline n content s =
     (if \<not> stream_good s then ('''', s\<lparr>is_fail := True\<rparr>)
      else let (l, k, e) = scan_line (n - 1) (drop (is_pos s) content) in
        (l, s\<lparr>is_pos := is_pos s + k, is_eof := (e = At_End), is_fail := (e = No_Room \<or> k = 0)\<rparr>))"

section \<open>Fields of a line\<close>

definition is_space :: "char \<Rightarrow> bool" where
  "is_space c \<longleftrightarrow> c \<in> {CHR '' '', CHR 0x09, CHR 0x0A, CHR 0x0B, CHR 0x0C, CHR 0x0D}"

text \<open>The words that \<^verbatim>\<open>ss >> word\<close> takes, in order.\<close>

function line_words :: "string \<Rightarrow> string list" where
  "line_words cs = (let cs = dropWhile is_space cs in
     if cs = [] then [] else takeWhile (\<lambda>c. \<not> is_space c) cs # line_words (dropWhile (\<lambda>c. \<not> is_space c) cs))"
  by pat_completeness auto
termination
proof (relation "measure length")
  fix cs cs' :: string
  assume cs': "cs' = dropWhile is_space cs" and ne: "cs' \<noteq> []"
  then have "\<not> is_space (hd cs')" using hd_dropWhile by metis
  then have "length (dropWhile (\<lambda>c. \<not> is_space c) cs') < length cs'"
    using ne by (cases cs') (auto simp: le_imp_less_Suc length_dropWhile_le)
  then show "(dropWhile (\<lambda>c. \<not> is_space c) cs', cs) \<in> measure length"
    using length_dropWhile_le [of is_space cs] cs' by simp
qed simp

text \<open>\<^verbatim>\<open>atoi\<close>: a sign and digits, as \<^verbatim>\<open>strtol\<close> reads them into 64 bits, cut to 32.\<close>

definition is_digit :: "char \<Rightarrow> bool" where
  "is_digit c \<longleftrightarrow> CHR ''0'' \<le> c \<and> c \<le> CHR ''9''"

fun digits_value :: "int \<Rightarrow> string \<Rightarrow> int" where
  "digits_value v [] = v"
| "digits_value v (c # cs) = (if is_digit c then digits_value (10 * v + (of_char c - 48)) cs else v)"

definition strtol :: "string \<Rightarrow> int" where
  "strtol w = (let v = (case w of [] \<Rightarrow> 0 | c # cs \<Rightarrow>
       if c = CHR ''-'' then - digits_value 0 cs else if c = CHR ''+'' then digits_value 0 cs else digits_value 0 w)
     in max (- (2 ^ 63)) (min (2 ^ 63 - 1) v))"

definition atoi :: "string \<Rightarrow> u32" where
  "atoi w = word_of_int (strtol w)"

text \<open>\<^verbatim>\<open>get_val\<close> takes words up to its field; \<^verbatim>\<open>get_ts\<close> goes on behind it and takes the last.\<close>

fun get_val :: "nat \<Rightarrow> string list \<Rightarrow> u32 \<times> string list" where
  "get_val n [] = (0, [])"
| "get_val n (w # ws) = (if n = 0 then (atoi w, ws) else get_val (n - 1) ws)"

definition get_ts :: "(string \<Rightarrow> u32) \<Rightarrow> string list \<Rightarrow> u32" where
  "get_ts millis ws = (if ws = [] then 0 else millis (last ws))"

section \<open>The file\<close>

record userdata =
  ud_filename :: string
  ud_fieldnum :: u32
  ud_file :: istream

record ts_data =
  td_ts :: u32
  td_rate :: u32
  td_val :: u32

text \<open>The loop of \<^verbatim>\<open>read_last_value\<close>: \<open>None\<close> when it never ends.\<close>

partial_function (option) last_line :: "string \<Rightarrow> istream \<Rightarrow> string \<Rightarrow> (string \<times> istream) option" where
  "last_line content s line =
     (if is_eof s then Some (line, s)
      else last_line content (snd (getline 2048 content s))
        (if c_str (fst (getline 2048 content s)) \<noteq> '''' then c_str (fst (getline 2048 content s)) else line))"

definition read_last_value :: "string \<Rightarrow> userdata \<Rightarrow> ((string + u32) \<times> userdata) option" where
  "read_last_value content u =
     (let s = stream_seek0 (ud_file u) in
      if \<not> stream_good s then Some (Inl ''error reading file'', u\<lparr>ud_file := s\<rparr>)
      else do {
        (line, s) \<leftarrow> last_line content s '''';
        let u = u\<lparr>ud_file := stream_clear s\<rparr>;
        Some (Inr (if line = '''' then 0 else fst (get_val (unat (ud_fieldnum u)) (line_words line))), u) })"

partial_function (option) next_lines :: "string \<Rightarrow> istream \<Rightarrow> string list \<Rightarrow> (string list \<times> istream) option" where
  "next_lines content s ls =
     (if is_eof s then Some (ls, s)
      else next_lines content (snd (getline 2048 content s))
        (if c_str (fst (getline 2048 content s)) = '''' then ls else ls @ [c_str (fst (getline 2048 content s))]))"

definition line_data :: "(string \<Rightarrow> u32) \<Rightarrow> nat \<Rightarrow> string \<Rightarrow> ts_data" where
  "line_data millis n line = (let (v, ws) = get_val n (line_words line) in \<lparr>td_ts = get_ts millis ws, td_rate = 1000, td_val = v\<rparr>)"

definition read_next_values ::
    "(string \<Rightarrow> u32) \<Rightarrow> string \<Rightarrow> userdata \<Rightarrow> ((string + ts_data list) \<times> userdata) option" where
  "read_next_values millis content u =
     (if \<not> stream_good (ud_file u) then Some (Inl ''error reading file'', u)
      else do {
        (ls, s) \<leftarrow> next_lines content (ud_file u) [];
        Some (Inr (map (line_data millis (unat (ud_fieldnum u))) ls), u\<lparr>ud_file := stream_clear s\<rparr>) })"

text \<open>What \<^verbatim>\<open>stat\<close> says of a file and \<^verbatim>\<open>getpwnam\<close> of the user.\<close>

record file_stat =
  fs_regular :: bool
  fs_uid :: int
  fs_gid :: int
  fs_rusr :: bool
  fs_rgrp :: bool
  fs_roth :: bool

definition checkfile :: "file_stat option \<Rightarrow> (int \<times> int) option \<Rightarrow> bool" where
  "checkfile st pwent = (case st of None \<Rightarrow> False
     | Some st \<Rightarrow> if \<not> fs_regular st then False
       else (case pwent of None \<Rightarrow> False
         | Some (uid, gid) \<Rightarrow>
             if uid = fs_uid st \<and> fs_rusr st \<or> gid = fs_gid st \<and> fs_rgrp st \<or> fs_roth st then True else False))"

text \<open>The constructor, with what it finds of the file, and its contents when it can be opened.\<close>

definition userdata_new ::
    "file_stat option \<Rightarrow> (int \<times> int) option \<Rightarrow> string option \<Rightarrow> string \<Rightarrow> u32 \<Rightarrow> (string + userdata) option" where
  "userdata_new st pwent content file_name field =
     (if \<not> checkfile st pwent then Some (Inl (''file '' @ file_name @ '': permission denied''))
      else (case content of None \<Rightarrow> Some (Inl (''error opening file '' @ file_name))
        | Some c \<Rightarrow> do {
            (r, u) \<leftarrow> read_last_value c \<lparr>ud_filename = file_name, ud_fieldnum = field,
              ud_file = \<lparr>is_pos = 0, is_eof = False, is_fail = False\<rparr>\<rparr>;
            Some (case r of Inl e \<Rightarrow> Inl e | Inr _ \<Rightarrow> Inr u) }))"

section \<open>The requests\<close>

text \<open>A request keeps the file it has opened. \<open>found\<close> is what the constructor finds, \<open>content\<close> what the reading that
  follows sees. The values: the responses, with the failure's text, and the request's state: the file and whether it stops.\<close>

record user_data_req = rli_request +
  udr_file :: string
  udr_field :: u32
  udr_data :: "userdata option"

definition user_data_req_parse :: "user_data_req \<Rightarrow> user_data_req option" where
  "user_data_req_parse m = do {
     m \<leftarrow> rli_request_parse m;
     case rli_params m of
       p # q # _ \<Rightarrow> Some (m\<lparr>udr_file := param_getString p, udr_field := int_val q\<rparr>)
     | _ \<Rightarrow> None }"

datatype userdata_answer = Userdata_Value u32 | Userdata_Sample ts_data | Userdata_Failed string

definition open_userdata ::
    "file_stat option \<Rightarrow> (int \<times> int) option \<Rightarrow> string option \<Rightarrow> string \<Rightarrow> u32 \<Rightarrow> userdata option \<Rightarrow> (string + userdata) option" where
  "open_userdata st pwent found file field ud = (case ud of Some u \<Rightarrow> Some (Inr u) | None \<Rightarrow> userdata_new st pwent found file field)"

definition user_data_handle ::
    "file_stat option \<Rightarrow> (int \<times> int) option \<Rightarrow> string option \<Rightarrow> string \<Rightarrow> string \<Rightarrow> u32 \<Rightarrow> userdata option \<Rightarrow>
     (userdata_answer list \<times> userdata option \<times> bool) option" where
  "user_data_handle st pwent found content file field ud = do {
     r \<leftarrow> open_userdata st pwent found file field ud;
     case r of Inl e \<Rightarrow> Some ([Userdata_Failed e], ud, True)
     | Inr u \<Rightarrow> do {
         (r, u) \<leftarrow> read_last_value content u;
         Some (case r of Inl e \<Rightarrow> ([Userdata_Failed e], Some u, True) | Inr v \<Rightarrow> ([Userdata_Value v], Some u, False)) } }"

definition user_data_ts_handle ::
    "(string \<Rightarrow> u32) \<Rightarrow> file_stat option \<Rightarrow> (int \<times> int) option \<Rightarrow> string option \<Rightarrow> string \<Rightarrow> string \<Rightarrow> u32 \<Rightarrow> userdata option \<Rightarrow>
     (userdata_answer list \<times> userdata option \<times> bool) option" where
  "user_data_ts_handle millis st pwent found content file field ud = do {
     r \<leftarrow> open_userdata st pwent found file field ud;
     case r of Inl e \<Rightarrow> Some ([Userdata_Failed e], ud, True)
     | Inr u \<Rightarrow> do {
         (r, u) \<leftarrow> read_next_values millis content u;
         Some (case r of Inl e \<Rightarrow> ([Userdata_Failed e], Some u, True) | Inr vs \<Rightarrow> (map Userdata_Sample vs, Some u, False)) } }"

end
