(* ===== verification/Base_Properties.thy ===== *)
theory Base_Properties
  imports Base_Userdata
begin

text \<open>
  What relaying does to a message: the bytes behind the header reach the other side as they are.
\<close>

section \<open>Bytes that are handed on\<close>

lemma relay_bytes_put:
  "i + n \<le> unat (num_bytes_allocated src) \<Longrightarrow> relay_bytes [i..<i + n] src dst = put_bytes (read_mem (buffer_data src) i n) dst"
proof (induction n arbitrary: i dst)
  case (Suc n)
  have r: "read_mem (buffer_data src) i (Suc n) = buffer_data src i # read_mem (buffer_data src) (Suc i) n"
    by (simp add: read_mem_def upt_conv_Cons del: upt_Suc)
  have u: "[i..<i + Suc n] = i # [Suc i..<Suc i + n]" by (simp add: upt_conv_Cons del: upt_Suc)
  have ih: "relay_bytes [Suc i..<Suc i + n] src = put_bytes (read_mem (buffer_data src) (Suc i) n)"
    by (rule ext, rule Suc.IH) (use Suc.prems in simp)
  show ?case using Suc.prems unfolding r u relay_bytes.simps put_bytes.simps(2) ih by (simp add: buf_byte_def)
qed (simp add: read_mem_def)

text \<open>A buffer as the receiver finds it: \<open>bs\<close> behind the cursor, and nothing more.\<close>

definition ends_with :: "byte_buffer \<Rightarrow> u8 list \<Rightarrow> bool" where
  "ends_with b bs \<longleftrightarrow> holds b bs \<and> unat (num_bytes_stored b) = unat (cur_index b) + length bs"

lemma ends_with_skip: "ends_with b (xs @ ys) \<Longrightarrow> holds b xs \<and> ends_with (skip (length xs) b) ys"
  using unat_add_le [of "cur_index b" "length xs" "num_bytes_allocated b"]
  by (auto simp: ends_with_def holds_append) (auto simp: skip_def holds_def)

lemma relay_rest:
  assumes "ends_with b bs"
  shows "relay_bytes [unat (cur_index b)..<unat (num_bytes_stored b)] b dst = put_bytes bs dst"
  using assms relay_bytes_put [of "unat (cur_index b)" "length bs" b dst]
  by (simp add: ends_with_def holds_def)

lemma keep_rest_kept:
  assumes "ends_with b bs"
  shows "\<exists>d. keep_rest junk b data = Some d \<and> put_kept d = put_bytes bs"
proof -
  let ?d = "buf_resize junk (num_bytes_stored b) data"
  have len: "length bs \<le> unat (num_bytes_allocated ?d)"
    using assms by (auto simp: ends_with_def buf_resize_def word_less_nat_alt not_less Let_def)
  have k: "keep_rest junk b data = put_bytes bs ?d"
    using relay_rest [OF assms] by (simp add: keep_rest_def)
  show ?thesis
  proof (cases "bs = []")
    case True
    then show ?thesis using k by (simp add: put_kept_def buf_resize_def Let_def fun_eq_iff)
  next
    case False
    have r: "buf_reset ?d = ?d" by (simp add: buf_reset_def buf_resize_def Let_def)
    then obtain d where d: "put_bytes bs (buf_reset ?d) = Some d"
      using len False by (auto simp: put_bytes_closed buf_resize_def Let_def)
    note s = put_bytes_sent [OF d False]
    have n: "unat (num_bytes_stored d) = length bs"
      using s(2,5) unat_add_le [of 0 "length bs" "num_bytes_allocated ?d"] by simp
    have "put_kept d dst = put_bytes bs dst" for dst
      using relay_bytes_put [of 0 "length bs" d dst] s(1,3,5) n by (simp add: put_kept_def sent_bytes_def)
    then show ?thesis using k d r by (auto simp: fun_eq_iff)
  qed
qed

text \<open>A received message holds its bytes, and its buffer has room for as many.\<close>

lemma received_bytes:
  fixes m :: "'a message_scheme"
  assumes "length mbuf < 2 ^ 32" "mbuf \<noteq> []"
  shows "\<exists>b. message_of_bytes junk junk' mbuf m = Some (m\<lparr>msg_buf := b, msg_rend := rendezvous_new,
      msg_return_rend := rendezvous_new, msg_conn := None\<rparr>) \<and> ends_with b mbuf \<and> cur_index b = 0"
proof -
  let ?sz = "of_nat (length mbuf) :: u32" and ?b = "byte_buffer_new junk"
  define b0 where "b0 = (if ?sz \<ge> num_bytes_allocated ?b then buf_resize junk' ?sz ?b else ?b)"
  have c: "cur_index b0 = 0" by (simp add: b0_def buf_resize_def byte_buffer_new_def Let_def)
  have mb: "message_of_bytes junk junk' mbuf m = map_option (\<lambda>b. m\<lparr>msg_buf := buf_reset b, msg_rend := rendezvous_new,
      msg_return_rend := rendezvous_new, msg_conn := None\<rparr>) (put_bytes mbuf b0)"
    by (simp add: message_of_bytes_def put_all_u8 b0_def Let_def map_option_case bind_split split: option.split)
  obtain m' where m': "message_of_bytes junk junk' mbuf m = Some m'" "holds (msg_buf m') mbuf"
    using message_of_bytes_holds [OF assms(1)] by blast
  then obtain b where b: "put_bytes mbuf b0 = Some b" and m'b: "msg_buf m' = buf_reset b"
    using mb by auto
  have u: "unat ?sz = length mbuf"
    by (rule unat_of_nat_small) (use assms in simp)
  have "num_bytes_stored b = ?sz" using b c assms(2) by (auto simp: put_bytes_closed split: if_splits)
  then have "ends_with (buf_reset b) mbuf" using m'(2) m'b u by (simp add: ends_with_def buf_reset_def)
  then show ?thesis using mb b by (intro exI [of _ "buf_reset b"]) (simp add: buf_reset_def)
qed

section \<open>Requests\<close>

lemma enc_header:
  "enc_request (m\<lparr>msg_rend := marker, msg_periodic := False\<rparr>) = enc_message (m\<lparr>msg_rend := marker, msg_periodic := False\<rparr>)"
  by (simp add: enc_request_def)

lemma enc_to_spec: "request_view r = request_view m0 \<Longrightarrow>
    enc_request (to_spec d marker r) = enc_request (m0\<lparr>msg_rend := marker, msg_periodic := False\<rparr>)"
  by (simp add: to_spec_def enc_request_def enc_message_def request_view_def)

lemma header_shrinks: fixes m :: "'a request_scheme" shows "length (enc_request (m\<lparr>msg_rend := marker, msg_periodic := False\<rparr>)) \<le> length (enc_request m)"
  by (simp add: enc_request_def length_enc_message)

text \<open>The parts that both classes of relayed requests share: parsing keeps the rest, writing appends it.\<close>

lemma relay_parse:
  fixes m0 :: "'a request_scheme" and r :: "'b request_scheme"
  assumes "request_ok m0" "ends_with (msg_buf r) (enc_request m0 @ payload)"
  shows "\<exists>r' data'. request_parse r = Some r' \<and> request_view r' = request_view m0 \<and>
    keep_rest junk (msg_buf r') data = Some data' \<and> put_kept data' = put_bytes payload \<and>
    num_bytes_allocated (msg_buf r') = num_bytes_allocated (msg_buf r)"
proof -
  note e = ends_with_skip [OF assms(2)]
  have p: "request_parse r = Some (request_read m0 r)" using assms(1) e by (intro request_parse_enc) auto
  obtain d where "keep_rest junk (skip (length (enc_request m0)) (msg_buf r)) data = Some d" "put_kept d = put_bytes payload"
    using keep_rest_kept e by blast
  then show ?thesis using p by (intro exI [of _ "request_read m0 r"] exI [of _ d]) simp
qed

lemma relay_write:
  fixes m0 :: "'a request_scheme" and r :: "'b request_scheme"
  assumes "request_view r = request_view m0" "put_kept data = put_bytes payload"
    and "length (enc_request m0 @ payload) \<le> unat (num_bytes_allocated (msg_buf r))"
  shows "\<exists>w. (do { m \<leftarrow> request_write ((to_spec d marker r)\<lparr>msg_buf := buf_reset (msg_buf (to_spec d marker r))\<rparr>);
      msg_put (put_kept data) m }) = Some w \<and>
    sent_bytes (msg_buf w) = enc_request (m0\<lparr>msg_rend := marker, msg_periodic := False\<rparr>) @ payload"
proof -
  let ?e = "enc_request (m0\<lparr>msg_rend := marker, msg_periodic := False\<rparr>)" and ?s = "to_spec d marker r"
  have b: "msg_buf ?s = msg_buf r" by (simp add: to_spec_def)
  have ne: "?e @ payload \<noteq> []" by (simp add: enc_request_def)
  have "length (?e @ payload) \<le> unat (num_bytes_allocated (msg_buf r))"
    using assms(3) header_shrinks [where m = m0 and marker = marker] by simp
  then obtain b' where b': "put_bytes (?e @ payload) (buf_reset (msg_buf r)) = Some b'"
    using put_bytes_fits [OF ne, of "buf_reset (msg_buf r)"] by (auto simp: buf_reset_def)
  have "(do { m \<leftarrow> request_write (?s\<lparr>msg_buf := buf_reset (msg_buf ?s)\<rparr>); msg_put (put_kept data) m }) =
      map_option (\<lambda>b. ?s\<lparr>msg_buf := b\<rparr>) (put_bytes (?e @ payload) (buf_reset (msg_buf r)))"
    unfolding request_write_enc enc_request_buf enc_to_spec [OF assms(1)] assms(2) msg_put_def b put_bytes_append
    by (cases "put_bytes ?e (buf_reset (msg_buf r))") simp_all
  then show ?thesis using b' put_bytes_sent(1) [OF b' ne] by simp
qed

text \<open>C22: Whatever request the user interface sends, of any class and with any bytes behind the header of a request, the
  daemon that relays it accepts it and writes to the specialization daemon the same header, but for its own rendezvous
  marker and without a period, followed by exactly the same bytes; neither the copy nor the buffer it is written to is
  overrun.\<close>

theorem relay_request:
  fixes m0 :: "'a request_scheme"
  assumes "request_ok m0" and "length (enc_request m0 @ payload) < 2 ^ 32"
  shows "\<exists>r r'. rli_relay_req_of_bytes junk junk' junkd (enc_request m0 @ payload) mem = Some r \<and>
    rli_relay_req_parse junk2 r = Some r' \<and> request_view r' = request_view m0 \<and>
    (\<forall>d marker. \<exists>w. rli_relay_req_write (to_spec d marker r') = Some w \<and>
       sent_bytes (msg_buf w) = enc_request (m0\<lparr>msg_rend := marker, msg_periodic := False\<rparr>) @ payload)"
proof -
  let ?bs = "enc_request m0 @ payload"
  have ne: "?bs \<noteq> []" by (simp add: enc_request_def)
  obtain b where b: "message_of_bytes junk junk' ?bs mem = Some (mem\<lparr>msg_buf := b, msg_rend := rendezvous_new,
      msg_return_rend := rendezvous_new, msg_conn := None\<rparr>)" "ends_with b ?bs" "cur_index b = 0"
    using received_bytes [OF assms(2) ne] by blast
  obtain r where r: "rli_relay_req_of_bytes junk junk' junkd ?bs mem = Some r" "msg_buf r = b"
    using b(1) by (simp add: rli_relay_req_of_bytes_def request_of_bytes_def)
  then have er: "ends_with (msg_buf r) ?bs" using b(2) by simp
  obtain r1 data where p: "request_parse r = Some r1" "request_view r1 = request_view m0"
      "keep_rest junk2 (msg_buf r1) (rrq_data r1) = Some data" "put_kept data = put_bytes payload"
      "num_bytes_allocated (msg_buf r1) = num_bytes_allocated (msg_buf r)"
  proof -
    obtain r1 where "request_parse r = Some r1" using relay_parse [OF assms(1) er] by blast
    then show ?thesis using relay_parse [OF assms(1) er, of junk2 "rrq_data r1"] that by auto
  qed
  let ?r = "r1\<lparr>rrq_data := data\<rparr>"
  have v: "request_view ?r = request_view m0" using p(2) by (simp add: request_view_def split: if_splits)
  have room: "length ?bs \<le> unat (num_bytes_allocated (msg_buf ?r))"
    using b(2,3) p(5) r(2) by (simp add: ends_with_def holds_def)
  have data: "rrq_data (to_spec d marker ?r\<lparr>msg_buf := x\<rparr>) = data" for d marker x by (simp add: to_spec_def)
  have "\<exists>w. rli_relay_req_write (to_spec d marker ?r) = Some w \<and>
      sent_bytes (msg_buf w) = enc_request (m0\<lparr>msg_rend := marker, msg_periodic := False\<rparr>) @ payload" for d marker
  proof -
    have "rli_relay_req_write (to_spec d marker ?r) =
        (do { m \<leftarrow> request_write ((to_spec d marker ?r)\<lparr>msg_buf := buf_reset (msg_buf (to_spec d marker ?r))\<rparr>);
          msg_put (put_kept data) m })"
      unfolding rli_relay_req_write_def request_write_enc by (auto simp: data bind_map_option)
    then show ?thesis using relay_write [OF v p(4) room, of d marker] by simp
  qed
  then show ?thesis using r(1) p(1,3) v by (intro exI [of _ r] exI [of _ ?r]) (simp add: rli_relay_req_parse_def)
qed

lemma crd_relay_request:
  fixes m0 :: "'a request_scheme"
  assumes "request_ok m0" and "length (enc_request m0 @ payload) < 2 ^ 32"
  shows "\<exists>r r'. crd_relay_req_of_bytes junk junk' junkd (enc_request m0 @ payload) mem = Some r \<and>
    crd_relay_req_parse junk2 r = Some r' \<and> request_view r' = request_view m0 \<and>
    (\<forall>d marker. \<exists>w. crd_relay_req_write (to_spec d marker r') = Some w \<and>
       sent_bytes (msg_buf w) = enc_request (m0\<lparr>msg_rend := marker, msg_periodic := False\<rparr>) @ payload)"
proof -
  let ?bs = "enc_request m0 @ payload"
  have ne: "?bs \<noteq> []" by (simp add: enc_request_def)
  obtain b where b: "message_of_bytes junk junk' ?bs mem = Some (mem\<lparr>msg_buf := b, msg_rend := rendezvous_new,
      msg_return_rend := rendezvous_new, msg_conn := None\<rparr>)" "ends_with b ?bs" "cur_index b = 0"
    using received_bytes [OF assms(2) ne] by blast
  obtain r where r: "crd_relay_req_of_bytes junk junk' junkd ?bs mem = Some r" "msg_buf r = b"
    using b(1) by (simp add: crd_relay_req_of_bytes_def crd_request_of_bytes_def request_of_bytes_def)
  then have er: "ends_with (msg_buf r) ?bs" using b(2) by simp
  obtain r1 data where p: "request_parse r = Some r1" "request_view r1 = request_view m0"
      "keep_rest junk2 (msg_buf r1) (crq_data r1) = Some data" "put_kept data = put_bytes payload"
      "num_bytes_allocated (msg_buf r1) = num_bytes_allocated (msg_buf r)"
  proof -
    obtain r1 where "request_parse r = Some r1" using relay_parse [OF assms(1) er] by blast
    then show ?thesis using relay_parse [OF assms(1) er, of junk2 "crq_data r1"] that by auto
  qed
  let ?r = "r1\<lparr>crq_data := data\<rparr>"
  have v: "request_view ?r = request_view m0" using p(2) by (simp add: request_view_def split: if_splits)
  have room: "length ?bs \<le> unat (num_bytes_allocated (msg_buf ?r))"
    using b(2,3) p(5) r(2) by (simp add: ends_with_def holds_def)
  have data: "crq_data (to_spec d marker ?r\<lparr>msg_buf := x\<rparr>) = data" for d marker x by (simp add: to_spec_def)
  have "\<exists>w. crd_relay_req_write (to_spec d marker ?r) = Some w \<and>
      sent_bytes (msg_buf w) = enc_request (m0\<lparr>msg_rend := marker, msg_periodic := False\<rparr>) @ payload" for d marker
  proof -
    have "crd_relay_req_write (to_spec d marker ?r) =
        (do { m \<leftarrow> request_write ((to_spec d marker ?r)\<lparr>msg_buf := buf_reset (msg_buf (to_spec d marker ?r))\<rparr>);
          msg_put (put_kept data) m })"
      unfolding crd_relay_req_write_def request_write_enc by (auto simp: data bind_map_option)
    then show ?thesis using relay_write [OF v p(4) room, of d marker] by simp
  qed
  then show ?thesis using r(1) p(1,3) v by (intro exI [of _ r] exI [of _ ?r]) (simp add: crd_relay_req_parse_def)
qed

section \<open>Responses\<close>

text \<open>The header that the relayed response gets.\<close>

definition relay_header :: "(nat \<Rightarrow> u8) \<Rightarrow> addr \<Rightarrow> rli_response \<Rightarrow> 'b rli_request_scheme \<Rightarrow> rli_response \<Rightarrow> rli_response" where
  "relay_header junk ra o' rq mem = (response_new junk ra rq mem)\<lparr>end_of_message := end_of_message o'\<rparr>"

definition status_bytes :: "rli_response \<Rightarrow> u8 list" where
  "status_bytes m = be32 (rr_status m) @ be32 (rr_time_stamp m) @ be32 (rr_clock_rate m) @ be32 (rr_value m) @
     enc_nstr (rr_status_msg m)"

lemma enc_rli_response_parts: "enc_rli_response m = enc_response m @ status_bytes m"
  by (simp add: enc_rli_response_def status_bytes_def)

lemma rli_parse_ends:
  assumes "nstr_ok (rr_status_msg m0)" "ends_with (msg_buf r) (enc_rli_response m0 @ rest)"
  shows "\<exists>r'. rli_response_parse r = Some r' \<and> rli_response_view r' = rli_response_view m0 \<and> ends_with (msg_buf r') rest"
  using rli_response.parse_enc [OF assms(1) TrueI, of r] ends_with_skip [OF assms(2)] by auto

lemma relayed_bytes:
  assumes v: "rli_response_view r' = rli_response_view m0" and ok: "no_nul (rr_status_msg m0)"
  shows "enc_rli_response (rrs_resp (rli_relay_resp_new junk ra r' rq mem)) =
    enc_response (relay_header junk ra m0 rq mem) @ status_bytes m0"
  using v ok
  by (simp add: enc_rli_response_parts rli_relay_resp_new_def relay_header_def rli_response_view_def status_bytes_def
      enc_response_def response_view_def enc_message_def rli_response_new_def response_new_def message_new_def)

text \<open>C24: When the specialization daemon answers with a response of any class, the daemon that relays it writes the same
  status, times, value and message and exactly the same bytes behind them, under a header with the rendezvous marker of
  the user interface's request, if all of it fits into the 2048 bytes of a new buffer; a longer response, which the
  receiving side has made room for, is written past the end of the buffer.\<close>

theorem relay_response:
  fixes rq :: "'b rli_request_scheme"
  assumes "nstr_ok (rr_status_msg m0)" and "length (enc_rli_response m0 @ rest) < 2 ^ 32" and "no_nul (rr_status_msg m0)"
  shows "\<exists>r r'. message_of_bytes junk junk' (enc_rli_response m0 @ rest) mem0 = Some r \<and> rli_response_parse r = Some r' \<and>
    (let bytes = enc_response (relay_header junk2 ra m0 rq mem) @ status_bytes m0 @ rest;
         w = rli_relay_resp_write (rli_relay_resp_new junk2 ra r' rq mem) in
     if length bytes \<le> 2048 then \<exists>x. w = Some x \<and> sent_bytes (msg_buf (rrs_resp x)) = bytes else w = None) \<and>
    msg_rend (relay_header junk2 ra m0 rq mem) = msg_rend rq"
proof -
  let ?bs = "enc_rli_response m0 @ rest"
  have ne: "?bs \<noteq> []" by (simp add: rli_response.enc_not_Nil)
  obtain b where b: "message_of_bytes junk junk' ?bs mem0 = Some (mem0\<lparr>msg_buf := b, msg_rend := rendezvous_new,
      msg_return_rend := rendezvous_new, msg_conn := None\<rparr>)" "ends_with b ?bs"
    using received_bytes [OF assms(2) ne] by blast
  then obtain r where r: "message_of_bytes junk junk' ?bs mem0 = Some r" "ends_with (msg_buf r) ?bs" by simp
  obtain r' where r': "rli_response_parse r = Some r'" "rli_response_view r' = rli_response_view m0" "ends_with (msg_buf r') rest"
    using rli_parse_ends [OF assms(1) r(2)] by blast
  let ?h = "enc_response (relay_header junk2 ra m0 rq mem) @ status_bytes m0" and ?n = "rli_relay_resp_new junk2 ra r' rq mem"
  have buf: "msg_buf (rrs_resp ?n) = byte_buffer_new junk2"
    by (simp add: rli_relay_resp_new_def rli_response_new_def response_new_def message_new_def)
  have put: "put_rest (msg_buf (rrs_orig ?n)) b = put_bytes rest b" for b
    using relay_rest [OF r'(3)] by (simp add: put_rest_def rli_relay_resp_new_def)
  have w: "rli_relay_resp_write ?n = map_option (\<lambda>b. ?n\<lparr>rrs_resp := (rrs_resp ?n)\<lparr>msg_buf := b\<rparr>\<rparr>) (put_bytes (?h @ rest) (byte_buffer_new junk2))"
    unfolding rli_relay_resp_write_def rli_response.write_enc relayed_bytes [OF r'(2) assms(3)] buf put_bytes_append [of ?h rest]
    by (cases "put_bytes ?h (byte_buffer_new junk2)") (simp_all add: msg_put_def put bind_map_option map_option_case split: option.split)
  have hn: "?h @ rest \<noteq> []" by (simp add: enc_response_def)
  have new: "buf_reset (byte_buffer_new junk2) = byte_buffer_new junk2" "cur_index (byte_buffer_new junk2) = 0"
    "num_bytes_allocated (byte_buffer_new junk2) = 2048"
    by (simp_all add: buf_reset_def byte_buffer_new_def)
  have fits: "(\<exists>b. put_bytes (?h @ rest) (byte_buffer_new junk2) = Some b) \<longleftrightarrow> length (?h @ rest) \<le> 2048"
    using put_bytes_fits [OF hn, of "byte_buffer_new junk2"] by (simp add: new)
  have "if length (?h @ rest) \<le> 2048 then \<exists>x. rli_relay_resp_write ?n = Some x \<and> sent_bytes (msg_buf (rrs_resp x)) = ?h @ rest
      else rli_relay_resp_write ?n = None"
  proof (cases "put_bytes (?h @ rest) (byte_buffer_new junk2)")
    case None
    then show ?thesis using fits w by simp
  next
    case (Some b)
    then have "put_bytes (?h @ rest) (buf_reset (byte_buffer_new junk2)) = Some b" using new(1) by simp
    then have "sent_bytes b = ?h @ rest" using hn by (rule put_bytes_sent(1))
    moreover have "length (?h @ rest) \<le> 2048" using fits Some by blast
    ultimately show ?thesis using Some w by simp
  qed
  moreover have "msg_rend (relay_header junk2 ra m0 rq mem) = msg_rend rq"
    by (simp add: relay_header_def response_new_def)
  ultimately show ?thesis using r(1) r'(1) unfolding Let_def append_assoc by blast
qed

section \<open>Values from a file\<close>

text \<open>The lines of a file: what newlines separate, with what follows the last of them when it is not empty.\<close>

fun file_lines :: "string \<Rightarrow> string list" where
  "file_lines [] = []"
| "file_lines (c # cs) = (if c = CHR 0x0A then [] # file_lines cs
     else case file_lines cs of [] \<Rightarrow> [[c]] | l # ls \<Rightarrow> (c # l) # ls)"

abbreviation till_newline :: "string \<Rightarrow> string" where
  "till_newline \<equiv> takeWhile (\<lambda>c. c \<noteq> CHR 0x0A)"

lemma file_lines_unfold:
  "cs \<noteq> [] \<Longrightarrow> file_lines cs = till_newline cs # file_lines (drop (Suc (length (till_newline cs))) cs)"
proof (induction cs)
  case (Cons c cs)
  then show ?case by (cases cs) auto
qed simp

lemma scan_line_eq:
  "scan_line room cs = (let l = till_newline cs in
     if length l \<le> room then (if length l = length cs then (l, length l, At_End) else (l, Suc (length l), At_Newline))
     else (take room cs, room, No_Room))"
proof (induction room cs rule: scan_line.induct)
  case (2 room c cs)
  then show ?case by (cases room) (auto simp: Let_def split: prod.splits)
qed simp

lemma getline_good:
  assumes g: "stream_good s" and t: "t = drop (is_pos s) content"
  shows "getline 2048 content s = (let l = till_newline t in
     if length l \<le> 2047
     then (if length l = length t then (t, s\<lparr>is_pos := is_pos s + length t, is_eof := True, is_fail := (t = [])\<rparr>)
           else (l, s\<lparr>is_pos := is_pos s + Suc (length l)\<rparr>))
     else (take 2047 t, s\<lparr>is_pos := is_pos s + 2047, is_fail := True\<rparr>))"
proof -
  have "till_newline t = t" if "length (till_newline t) = length t"
    using that by (metis append_Nil2 append_eq_append_conv takeWhile_dropWhile_id)
  then show ?thesis using g by (simp add: getline_def scan_line_eq t [symmetric] Let_def stream_good_def)
qed

lemma getline_stuck: "is_fail s \<Longrightarrow> \<not> is_eof s \<Longrightarrow> getline 2048 content s = ('''', s)"
  by (simp add: getline_def stream_good_def)

text \<open>A stream that has failed before its end is never read to its end.\<close>

lemma next_lines_live: "next_lines content s ls = Some r \<Longrightarrow> \<not> (is_fail s \<and> \<not> is_eof s)"
proof (erule next_lines.raw_induct [where P = "\<lambda>content s ls r. \<not> (is_fail s \<and> \<not> is_eof s)", rotated])
  fix f :: "string \<Rightarrow> istream \<Rightarrow> string list \<Rightarrow> (string list \<times> istream) option" and content s ls y
  assume "\<And>content s ls y. f content s ls = Some y \<Longrightarrow> \<not> (is_fail s \<and> \<not> is_eof s)"
    and "(if is_eof s then Some (ls, s)
      else f content (snd (getline 2048 content s)) (if c_str (fst (getline 2048 content s)) = '''' then ls
        else ls @ [c_str (fst (getline 2048 content s))])) = Some y"
  then show "\<not> (is_fail s \<and> \<not> is_eof s)"
    using getline_stuck [of s content] by (metis snd_conv)
qed

lemma last_line_live: "last_line content s l = Some r \<Longrightarrow> \<not> (is_fail s \<and> \<not> is_eof s)"
proof (erule last_line.raw_induct [where P = "\<lambda>content s l r. \<not> (is_fail s \<and> \<not> is_eof s)", rotated])
  fix f :: "string \<Rightarrow> istream \<Rightarrow> string \<Rightarrow> (string \<times> istream) option" and content s l y
  assume "\<And>content s l y. f content s l = Some y \<Longrightarrow> \<not> (is_fail s \<and> \<not> is_eof s)"
    and "(if is_eof s then Some (l, s)
      else f content (snd (getline 2048 content s)) (if c_str (fst (getline 2048 content s)) \<noteq> ''''
        then c_str (fst (getline 2048 content s)) else l)) = Some y"
  then show "\<not> (is_fail s \<and> \<not> is_eof s)"
    using getline_stuck [of s content] by (metis snd_conv)
qed

text \<open>The records of a text: its lines as C strings, without the empty ones.\<close>

definition records :: "string \<Rightarrow> string list" where
  "records t = filter (\<lambda>l. l \<noteq> '''') (map c_str (file_lines t))"

definition lines_fit :: "string \<Rightarrow> bool" where
  "lines_fit t \<longleftrightarrow> (\<forall>l \<in> set (file_lines t). length l \<le> 2047)"

lemma records_unfold:
  "t \<noteq> [] \<Longrightarrow> records t = (if c_str (till_newline t) = '''' then [] else [c_str (till_newline t)]) @
     records (drop (Suc (length (till_newline t))) t)"
  "t \<noteq> [] \<Longrightarrow> lines_fit t \<longleftrightarrow> length (till_newline t) \<le> 2047 \<and> lines_fit (drop (Suc (length (till_newline t))) t)"
  by (simp_all add: records_def lines_fit_def file_lines_unfold)

text \<open>One step of both loops on a stream that is good and not yet at the end of the text.\<close>

lemma getline_step:
  assumes "stream_good s" and t: "t = drop (is_pos s) content" and "t \<noteq> []"
  shows "\<exists>s'. getline 2048 content s = (if length (till_newline t) \<le> 2047 then till_newline t else take 2047 t, s') \<and>
    (if length (till_newline t) \<le> 2047
     then (if length (till_newline t) = length t then is_eof s' \<and> drop (Suc (length (till_newline t))) t = []
           else stream_good s' \<and> drop (is_pos s') content = drop (Suc (length (till_newline t))) t) \<and>
       (is_pos s' = min (length content) (is_pos s + Suc (length (till_newline t))))
     else is_fail s' \<and> \<not> is_eof s')"
proof -
  have l: "length (till_newline t) = length t \<Longrightarrow> till_newline t = t"
    by (metis append_Nil2 append_eq_append_conv takeWhile_dropWhile_id)
  have le: "length (till_newline t) \<le> length t" by (rule length_takeWhile_le)
  have len: "length content = is_pos s + length t" using t assms(3) by simp
  have d: "drop (is_pos s + n) content = drop n t" for n using t by (simp add: add.commute)
  note g = getline_good [OF assms(1) t]
  show ?thesis
  proof (cases "length (till_newline t) \<le> 2047")
    case fit: True
    show ?thesis
    proof (cases "length (till_newline t) = length t")
      case True
      show ?thesis using g fit len unfolding Let_def l [OF True] by auto
    next
      case False
      then have "stream_good (s\<lparr>is_pos := is_pos s + Suc (length (till_newline t))\<rparr>)" using assms(1) by (simp add: stream_good_def)
      then show ?thesis using g fit False le len d [of "Suc (length (till_newline t))"] by (simp add: Let_def)
    qed
  next
    case False
    then show ?thesis using g assms(1) by (simp add: Let_def stream_good_def)
  qed
qed

lemma next_lines_at_end: "stream_good s \<Longrightarrow> drop (is_pos s) content = [] \<Longrightarrow>
    next_lines content s ls = Some (ls, s\<lparr>is_eof := True, is_fail := True\<rparr>)"
  using getline_good [of s "[]" content]
  by (simp add: next_lines.simps [of _ s] next_lines.simps [of _ "s\<lparr>is_eof := True, is_fail := True\<rparr>"] stream_good_def Let_def c_str_def)

lemma next_lines_records:
  "stream_good s \<Longrightarrow> t = drop (is_pos s) content \<Longrightarrow> is_pos s \<le> length content \<Longrightarrow>
     (if lines_fit t then \<exists>s'. next_lines content s ls = Some (ls @ records t, s') \<and> is_pos s' = length content
      else next_lines content s ls = None)"
proof (induction "length t" arbitrary: s t ls rule: less_induct)
  case less
  show ?case
  proof (cases "t = []")
    case True
    then show ?thesis using less.prems next_lines_at_end [OF less.prems(1), of content ls]
      by (auto simp: records_def lines_fit_def)
  next
    case False
    obtain s' where g: "getline 2048 content s = (if length (till_newline t) \<le> 2047 then till_newline t else take 2047 t, s')"
      and s': "if length (till_newline t) \<le> 2047
       then (if length (till_newline t) = length t then is_eof s' \<and> drop (Suc (length (till_newline t))) t = []
             else stream_good s' \<and> drop (is_pos s') content = drop (Suc (length (till_newline t))) t) \<and>
         (is_pos s' = min (length content) (is_pos s + Suc (length (till_newline t))))
       else is_fail s' \<and> \<not> is_eof s'"
      using getline_step [OF less.prems(1,2) False] by blast
    have e: "\<not> is_eof s" using less.prems(1) by (simp add: stream_good_def)
    let ?l = "till_newline t" and ?u = "drop (Suc (length (till_newline t))) t"
    show ?thesis
    proof (cases "length ?l \<le> 2047")
      case False
      then have "\<not> lines_fit t" using records_unfold(2) [OF \<open>t \<noteq> []\<close>] by blast
      moreover have "next_lines content s ls = None"
      proof -
        have "next_lines content s' x = None" for x
          using next_lines_live [of content s' x] s' False by (cases "next_lines content s' x") auto
        then show ?thesis using g e by (simp add: next_lines.simps [of _ s])
      qed
      ultimately show ?thesis by simp
    next
      case fit: True
      let ?ls = "if c_str ?l = '''' then ls else ls @ [c_str ?l]"
      have n: "next_lines content s ls = next_lines content s' ?ls"
        using g e fit by (simp add: next_lines.simps [of _ s])
      have r: "ls @ records t = ?ls @ records ?u" using records_unfold(1) [OF False] by simp
      show ?thesis
      proof (cases "length ?l = length t")
        case True
        have "length t = length content - is_pos s" using less.prems(2) by simp
        then have "is_pos s' = length content" using s' fit True less.prems(3) by (simp add: min_def)
        moreover have "?u = []" "is_eof s'" using s' fit True by auto
        moreover from this have "records ?u = []" "lines_fit t"
          using records_unfold(2) [OF False] fit by (simp_all add: records_def lines_fit_def)
        ultimately show ?thesis using n r by (simp add: next_lines.simps [of _ s'])
      next
        case False
        have "length ?u < length t" using \<open>t \<noteq> []\<close> by simp
        have q: "stream_good s' \<and> drop (is_pos s') content = ?u"
          using s' unfolding if_P [OF fit] if_not_P [OF False] by (rule conjunct1)
        have ih: "if lines_fit ?u then \<exists>s''. next_lines content s' ?ls = Some (?ls @ records ?u, s'') \<and> is_pos s'' = length content
            else next_lines content s' ?ls = None"
        proof (rule less.hyps)
          show "stream_good s'" "?u = drop (is_pos s') content" using q by simp_all
          show "is_pos s' \<le> length content" using s' fit by simp
        qed (use \<open>length ?u < length t\<close> in simp)
        have "lines_fit t = lines_fit ?u" using records_unfold(2) [OF \<open>t \<noteq> []\<close>] fit by simp
        then show ?thesis using ih unfolding n r by (simp only:)
      qed
    qed
  qed
qed

text \<open>Both loops read the same lines: one keeps the last of them.\<close>

lemma last_of_next: "next_lines content s ls = Some y \<Longrightarrow> last_line content s (last (l0 # ls)) = Some (last (l0 # fst y), snd y)"
proof (erule next_lines.raw_induct [where P = "\<lambda>content s ls y. last_line content s (last (l0 # ls)) = Some (last (l0 # fst y), snd y)", rotated])
  fix f :: "string \<Rightarrow> istream \<Rightarrow> string list \<Rightarrow> (string list \<times> istream) option" and content s ls y
  assume ih: "\<And>content s ls y. f content s ls = Some y \<Longrightarrow> last_line content s (last (l0 # ls)) = Some (last (l0 # fst y), snd y)"
    and f: "(if is_eof s then Some (ls, s)
      else f content (snd (getline 2048 content s)) (if c_str (fst (getline 2048 content s)) = '''' then ls
        else ls @ [c_str (fst (getline 2048 content s))])) = Some y"
  show "last_line content s (last (l0 # ls)) = Some (last (l0 # fst y), snd y)"
  proof (cases "is_eof s")
    case True
    then show ?thesis using f by (auto simp: last_line.simps [of _ s])
  next
    case False
    let ?l = "c_str (fst (getline 2048 content s))"
    have "f content (snd (getline 2048 content s)) (if ?l = '''' then ls else ls @ [?l]) = Some y" using f False by simp
    from ih [OF this] have "last_line content (snd (getline 2048 content s)) (if ?l \<noteq> '''' then ?l else last (l0 # ls)) = Some (last (l0 # fst y), snd y)"
      by (cases "?l = ''''") simp_all
    then show ?thesis using False by (simp only: last_line.simps [of _ s] if_False)
  qed
qed

lemma next_of_last: "last_line content s l = Some y \<Longrightarrow> next_lines content s ls \<noteq> None"
proof -
  have "last_line content s l = Some y \<Longrightarrow> \<forall>ls. next_lines content s ls \<noteq> None"
  proof (erule last_line.raw_induct [where P = "\<lambda>content s l y. \<forall>ls. next_lines content s ls \<noteq> None", rotated])
    fix f :: "string \<Rightarrow> istream \<Rightarrow> string \<Rightarrow> (string \<times> istream) option" and content s l y
    assume ih: "\<And>content s l y. f content s l = Some y \<Longrightarrow> \<forall>ls. next_lines content s ls \<noteq> None"
      and f: "(if is_eof s then Some (l, s)
        else f content (snd (getline 2048 content s)) (if c_str (fst (getline 2048 content s)) \<noteq> ''''
          then c_str (fst (getline 2048 content s)) else l)) = Some y"
    show "\<forall>ls. next_lines content s ls \<noteq> None"
    proof (cases "is_eof s")
      case False
      then have "f content (snd (getline 2048 content s)) (if c_str (fst (getline 2048 content s)) \<noteq> ''''
          then c_str (fst (getline 2048 content s)) else l) = Some y" using f by simp
      from ih [OF this] show ?thesis using False by (simp only: next_lines.simps [of _ s] if_False) blast
    qed (simp add: next_lines.simps [of _ s])
  qed
  then show "last_line content s l = Some y \<Longrightarrow> next_lines content s ls \<noteq> None" by blast
qed

lemma last_line_records:
  assumes "stream_good s" "is_pos s \<le> length content"
  shows "if lines_fit (drop (is_pos s) content)
    then \<exists>s'. last_line content s '''' = Some (last ('''' # records (drop (is_pos s) content)), s') \<and> is_pos s' = length content
    else last_line content s '''' = None"
proof (cases "lines_fit (drop (is_pos s) content)")
  case True
  then obtain s' where "next_lines content s [] = Some (records (drop (is_pos s) content), s')" "is_pos s' = length content"
    using next_lines_records [OF assms(1) refl assms(2), of "[]"] by auto
  then show ?thesis using last_of_next [of content s "[]" _ "''''"] True by fastforce
next
  case False
  then have "next_lines content s [] = None" using next_lines_records [OF assms(1) refl assms(2), of "[]"] by simp
  then have "last_line content s '''' = None" using next_of_last [of content s "''''"] by (cases "last_line content s ''''") auto
  then show ?thesis using False by simp
qed

text \<open>C23: Reading the current value of a file returns if and only if no line of the file is longer than 2047 characters,
  and then gives the field of the last line that is not empty, and zero when there is none; on a longer line it never
  returns. A file that has been read to its end and grows is read on where it ended: the values are those of the lines
  of what has been added, each once and in order, and the same condition on them decides whether the reading returns.\<close>

theorem userdata_read:
  assumes "\<not> is_fail (ud_file u)"
  shows "(if lines_fit content
      then \<exists>u'. read_last_value content u = Some (Inr (case records content of [] \<Rightarrow> 0
          | ls \<Rightarrow> fst (get_val (unat (ud_fieldnum u)) (line_words (last ls)))), u') \<and>
        ud_fieldnum u' = ud_fieldnum u \<and> stream_good (ud_file u') \<and> is_pos (ud_file u') = length content
      else read_last_value content u = None) \<and>
    (stream_good (ud_file u) \<and> is_pos (ud_file u) = length content \<longrightarrow>
      (if lines_fit added
       then \<exists>u'. read_next_values millis (content @ added) u =
           Some (Inr (map (line_data millis (unat (ud_fieldnum u))) (records added)), u') \<and>
         ud_fieldnum u' = ud_fieldnum u \<and> stream_good (ud_file u') \<and> is_pos (ud_file u') = length (content @ added)
       else read_next_values millis (content @ added) u = None))"
proof
  let ?s = "stream_seek0 (ud_file u)"
  have s: "stream_good ?s" "is_pos ?s = 0" using assms by (simp_all add: stream_seek0_def stream_good_def)
  have ne: "\<forall>l \<in> set (records content). l \<noteq> ''''" by (simp add: records_def)
  note l = last_line_records [OF s(1), of content]
  show "if lines_fit content
      then \<exists>u'. read_last_value content u = Some (Inr (case records content of [] \<Rightarrow> 0
          | ls \<Rightarrow> fst (get_val (unat (ud_fieldnum u)) (line_words (last ls)))), u') \<and>
        ud_fieldnum u' = ud_fieldnum u \<and> stream_good (ud_file u') \<and> is_pos (ud_file u') = length content
      else read_last_value content u = None"
  proof (cases "lines_fit content")
    case True
    then obtain s' where s': "last_line content ?s '''' = Some (last ('''' # records content), s')" "is_pos s' = length content"
      using l s(2) by auto
    have "last ('''' # records content) = '''' \<longleftrightarrow> records content = []"
      using ne by (cases "records content = []") auto
    then show ?thesis using True s s'
      by (auto simp: read_last_value_def stream_clear_def stream_good_def split: list.split)
  next
    case False
    then show ?thesis using l s by (simp add: read_last_value_def)
  qed
  show "stream_good (ud_file u) \<and> is_pos (ud_file u) = length content \<longrightarrow>
      (if lines_fit added
       then \<exists>u'. read_next_values millis (content @ added) u =
           Some (Inr (map (line_data millis (unat (ud_fieldnum u))) (records added)), u') \<and>
         ud_fieldnum u' = ud_fieldnum u \<and> stream_good (ud_file u') \<and> is_pos (ud_file u') = length (content @ added)
       else read_next_values millis (content @ added) u = None)"
  proof
    assume g: "stream_good (ud_file u) \<and> is_pos (ud_file u) = length content"
    then have "added = drop (is_pos (ud_file u)) (content @ added)" "is_pos (ud_file u) \<le> length (content @ added)" by simp_all
    note n = next_lines_records [OF conjunct1 [OF g] this, of "[]"]
    show "if lines_fit added
       then \<exists>u'. read_next_values millis (content @ added) u =
           Some (Inr (map (line_data millis (unat (ud_fieldnum u))) (records added)), u') \<and>
         ud_fieldnum u' = ud_fieldnum u \<and> stream_good (ud_file u') \<and> is_pos (ud_file u') = length (content @ added)
       else read_next_values millis (content @ added) u = None"
      using n g by (auto simp: read_next_values_def stream_clear_def stream_good_def)
  qed
qed

section \<open>Examples\<close>

definition sample_rli :: rli_response where
  "sample_rli = blank_response \<lparr>rr_status = NCCP_Status_Fine, rr_time_stamp = 0, rr_clock_rate = 0, rr_value = 7,
     rr_status_msg = []\<rparr>"

definition sample_relay :: rli_relay_req where
  "sample_relay = blank_request \<lparr>rli_id = 0, rli_port = 0, rli_version = [], rli_params = [],
     rrq_data = byte_buffer_new (\<lambda>_. 0)\<rparr>"

lemma length_status_bytes: "length (rr_status_msg m) \<le> 255 \<Longrightarrow> length (status_bytes m) \<le> 275"
  by (simp add: status_bytes_def wire_len)

theorem relay_request_witness:
  "\<exists>r r'. rli_relay_req_of_bytes (\<lambda>_. 0) (\<lambda>_. 0) (\<lambda>_. 0) (enc_request sample_relay @ [1, 2, 3]) sample_relay = Some r \<and>
    rli_relay_req_parse (\<lambda>_. 0) r = Some r'"
proof -
  have "request_ok sample_relay" by (simp add: request_ok_def sample_relay_def blank_request_def)
  moreover have "length (enc_request sample_relay @ [1, 2, 3]) < 2 ^ 32" using length_enc_request [of sample_relay] by simp
  ultimately show ?thesis using relay_request [of sample_relay "[1, 2, 3]"] by blast
qed

theorem relay_response_witness:
  "\<exists>r r' x. message_of_bytes (\<lambda>_. 0) (\<lambda>_. 0) (enc_rli_response sample_rli @ [1, 2, 3]) sample_rli = Some r \<and>
    rli_response_parse r = Some r' \<and> rli_relay_resp_write (rli_relay_resp_new (\<lambda>_. 0) 0 r' sample_relay sample_rli) = Some x"
proof -
  have m: "rr_status_msg sample_rli = []" by (simp add: sample_rli_def blank_response_def)
  then have ok: "nstr_ok (rr_status_msg sample_rli)" "no_nul (rr_status_msg sample_rli)" by (simp_all add: nstr_ok_def)
  have l: "length (enc_rli_response sample_rli @ [1, 2, 3]) < 2 ^ 32" using length_enc_rli_response [OF ok(1)] by simp
  have "length (enc_response (relay_header (\<lambda>_. 0) 0 sample_rli sample_relay sample_rli) @ status_bytes sample_rli @ [1, 2, 3]) \<le> 2048"
    using length_enc_response [of "relay_header (\<lambda>_. 0) 0 sample_rli sample_relay sample_rli"] length_status_bytes [of sample_rli] m by simp
  then show ?thesis
    using relay_response [OF ok(1) l ok(2), of "\<lambda>_. 0" "\<lambda>_. 0" sample_rli "\<lambda>_. 0" 0 sample_relay sample_rli]
    unfolding Let_def by auto
qed

theorem userdata_read_witness:
  "(\<exists>v u. read_last_value ''7'' \<lparr>ud_filename = '''', ud_fieldnum = 0, ud_file = \<lparr>is_pos = 0, is_eof = False, is_fail = False\<rparr>\<rparr> =
     Some (Inr v, u)) \<and>
   read_last_value (replicate 2048 CHR ''7'') \<lparr>ud_filename = '''', ud_fieldnum = 0,
     ud_file = \<lparr>is_pos = 0, is_eof = False, is_fail = False\<rparr>\<rparr> = None"
proof -
  let ?u = "\<lparr>ud_filename = '''', ud_fieldnum = 0, ud_file = \<lparr>is_pos = 0, is_eof = False, is_fail = False\<rparr>\<rparr>"
  have fit: "lines_fit ''7''" by (simp add: lines_fit_def)
  have "till_newline (replicate 2048 CHR ''7'') = replicate 2048 CHR ''7''" by (simp add: takeWhile_eq_all_conv)
  then have "\<not> lines_fit (replicate 2048 CHR ''7'')"
    unfolding lines_fit_def by (subst file_lines_unfold) simp_all
  then show ?thesis using userdata_read [of ?u "''7''"] userdata_read [of ?u "replicate 2048 CHR ''7''"] fit by auto
qed

end
