(* ===== verification/Spec2Isabelle.thy ===== *)
theory Spec2Isabelle
  imports Nmd_Properties Switch_Properties Rendezvous_Properties Wire_Properties Util_Properties
    Database_Properties Crd_Properties Crd_Vlans Crd_Watch Vm_Properties Base_Properties
begin

text \<open>
  The daemons of the Open Network Laboratory: the machinery that all of them share
  (\<^verbatim>\<open>src/shared\<close>), the network management daemon (\<^verbatim>\<open>src/nmd\<close>), the resource daemon
  (\<^verbatim>\<open>src/crd\<close>) with the sessions of users, the mapping of experiments to the testbed
  (\<^verbatim>\<open>src/database\<close>), the daemon of the hosts of virtual machines (\<^verbatim>\<open>src/vmbase\<close>) and the
  base daemon that runs on every node (\<^verbatim>\<open>src/base\<close>).

  \<^bold>\<open>How the parts interact.\<close> A daemon builds a message object and writes it into its byte buffer
  (\<open>Byte_Buffer\<close>, \<open>Wire\<close>, the theories of message classes). A connection sends a length and the bytes;
  the receiver's connection puts the bytes together again (\<open>Nccp_Connection\<close>), asks the dispatcher for an
  object of the class registered for the operation, and lets it parse itself (\<open>Dispatcher\<close>). A
  request is handled; a response is handed to the request that waits for it, which the dispatcher finds
  by the rendezvous marker (\<open>Rendezvous\<close>, \<open>Rendezvous_Matching\<close>, \<open>Process_Message\<close>). The requests of the
  network daemon allocate VLANs to sessions, give them ports and configure the switches
  (\<open>Nmd_Types\<close>, \<open>Nmd_Switch\<close>, \<open>Nmd_Requests\<close>). The resource daemon collects the requests of a user's session, builds
  a topology from them and hands it to the reservation database, which maps its nodes and links to the testbed
  (\<open>Topology\<close>, \<open>Path_Mapping\<close>); then it starts the machines, each in a thread (\<open>Crd_Session\<close>,
  \<open>Crd_Component\<close>), and, when both ends are done, the links, which ask the network daemon for their VLANs and answer
  together when all have reported (\<open>Crd_Link\<close>). The same requests, collected for a reservation, end in a topology
  that the database finds a time for (\<open>Crd_Reservation\<close>). A node that is a virtual machine is started, configured and
  removed by the daemon of its host, with the same requests (\<open>Vm_Sessions\<close>). On a node itself the base daemon answers
  these requests, starts the specialization daemon that the user has chosen, and relays to it the requests of the user
  interface and of the resource daemon that it does not know, and its responses back (\<open>Base_Relay\<close>); it also reads the
  values that the user interface plots from files of the user (\<open>Base_Userdata\<close>).

  \<^bold>\<open>Theories, in the order of the imports.\<close>
  \<^item> \<open>Prelude\<close>: word types, C strings, decimal numbers, positions in lists.
  \<^item> \<open>Byte_Buffer\<close>: \<^verbatim>\<open>byte_buffer.cc\<close>. \<open>Wire\<close>: the locale \<open>wire_codec\<close> that every pair of stream
    operators satisfies, and counted lists.
  \<^item> \<open>Nccp_String\<close>, \<open>Onl_Types\<close>, \<open>Onl_Nodes\<close>: the data of \<^verbatim>\<open>onl_types.cc\<close>. A wire string is modelled
    twice, as its array of 256 characters and as a list; \<open>nccp_refines\<close> are the refinement lemmas, and
    all later theories use the list.
  \<^item> \<open>Util\<close>: times, log files, guards of mutexes (\<^verbatim>\<open>util.cc\<close>, \<^verbatim>\<open>util.h\<close>); locale \<open>scoped_guard\<close>.
  \<^item> \<open>Rendezvous\<close>, \<open>Message\<close>: \<^verbatim>\<open>rendezvous.cc\<close>, \<^verbatim>\<open>message.cc\<close>. Classes are records, derived
    classes extensions of them. The locale \<open>wire_message\<close> is the contract of \<^verbatim>\<open>write\<close> and
    \<^verbatim>\<open>parse\<close>; each class interprets it.
  \<^item> \<open>Onl_Messages\<close>, \<open>Onl_Responses\<close>, \<open>Switch_Types\<close>, \<open>Switch_Messages\<close>: the message classes.
  \<^item> \<open>Dispatcher\<close>, \<open>Rendezvous_Matching\<close>: \<^verbatim>\<open>dispatcher.cc\<close>; the locale \<open>typed_message\<close> adds to
    \<open>wire_message\<close> what the dispatcher needs. The step relation \<open>rv_step\<close> interleaves the calls of
    any number of threads; \<open>rv_inv\<close> is its invariant. \<open>Rendezvous_Owners\<close>: the same from the side of the owners of
    requests (\<open>owner_step\<close>, \<open>owner_inv\<close>), whose deletions do not look at the map.
  \<^item> \<open>Nccp_Connection\<close>, \<open>Nccp_Listener\<close>, \<open>Process_Message\<close>: \<^verbatim>\<open>nccp_connection.cc\<close> and the parts of
    \<^verbatim>\<open>message.cc\<close> that use a connection.
  \<^item> \<open>Nmd_Switch\<close>, \<open>Nmd_Types\<close>, \<open>Nmd_Requests\<close>: the network daemon. \<open>Nmd_Pool\<close> and \<open>Nmd_Sessions\<close> hold
    its invariant (\<open>nmd_inv\<close>) and one lemma per operation that says what it does and that the invariant
    is kept; \<open>nmd_reach\<close> are the states that runs reach, which handle requests one after another, initialisations
    included; both carry the set of the VLANs that initialisations have lost. \<open>Nmd_Threads\<close>: the operations without
    threads, the limit on ssh connections and two interleavings. \<open>Nmd_Schedules\<close>: the threads that clear a session, in
    every order (\<open>clear_step\<close>); they end as \<open>session_clear\<close> does. \<open>Nmd_Wire\<close>: the table of
    the daemon and its messages over a connection.
  \<^item> \<open>Resource_Store\<close>, \<open>Topology\<close>: \<^verbatim>\<open>internal.h\<close> and \<^verbatim>\<open>topology.cc\<close>, a store of node and link objects
    and the operations on a topology; \<open>topo_wf\<close> is its invariant, \<open>node_map\<close> and \<open>link_map\<close> its abstraction.
  \<^item> \<open>Subnet\<close>, \<open>Path_Search\<close>, \<open>Path_Mapping\<close>: \<^verbatim>\<open>onldb.cc\<close>, the nodes that virtual switches connect, the
    search for a path in the testbed and the mapping of the links of a node. \<open>link_closed\<close>, \<open>query_ok\<close> and
    \<open>mapping_ok\<close> are what the graphs satisfy; the loops over graphs are partial functions that are proved to
    return. \<open>Edge_Loads\<close>, \<open>Switch_Merge\<close>: the loads on links, the merging of virtual switches, the costs;
    which links a load must reach is specified by paths (\<open>load_path\<close>), without the search.
  \<^item> \<open>Crd_Requests\<close>: the messages of the user interface. \<open>Crd_World\<close>: the objects of the resource daemon and what it gets
    from outside. \<open>Crd_Manager\<close>, \<open>Crd_Link\<close>, \<open>Crd_Component\<close>, \<open>Crd_Session\<close>:
    \<^verbatim>\<open>onlcrd_session_manager.cc\<close>, \<^verbatim>\<open>onlcrd_component.cc\<close>, \<^verbatim>\<open>onlcrd_session.cc\<close>. A thread is
    the list of actions it still has to take; \<open>link_act\<close> and \<open>comp_act\<close> take one.
  \<^item> \<open>Crd_Reservation\<close>, \<open>Crd_Sharing\<close>, \<open>Crd_Handlers\<close>, \<open>Crd_Main\<close>: \<^verbatim>\<open>onlcrd_reservation.cc\<close>,
    \<^verbatim>\<open>onlcrd_session_sharing.cc\<close>, the handlers of \<^verbatim>\<open>onlcrd_requests.cc\<close>, \<^verbatim>\<open>onlcrd_main.cc\<close>
    with the start of the session manager. A handler takes the world \<open>onlcrd\<close>, which joins sessions and reservations.
    \<open>Crd_Service\<close>: every request of a reservation is answered once. \<open>Crd_Vlans\<close>: the search through joined virtual switches,
    with the invariant \<open>vlan_inv\<close>. \<open>Crd_Closing\<close>: what closing a session leaves as it was (\<open>spares_others\<close>), for every
    operation it calls. \<open>Crd_Watch\<close>: the thread that watches a user
    interface, the start.
  \<^item> \<open>Vm_Sessions\<close>: \<^verbatim>\<open>onlvmbased_session.cc\<close>, \<^verbatim>\<open>onlvmbased_session_manager.cc\<close> and the handlers of
    \<^verbatim>\<open>onlvmbased_requests.cc\<close>. \<open>Vm_Invariant\<close>: the invariant \<open>vm_inv\<close> of names, machines and VLANs and that every
    operation keeps it; \<open>Vm_Properties\<close> interprets \<open>kept\<close> for the step relation of requests.
  \<^item> \<open>Base_Relay\<close>, \<open>Base_Userdata\<close>: \<^verbatim>\<open>onlbased_requests.cc\<close>, \<^verbatim>\<open>onlbased_responses.cc\<close> and
    \<^verbatim>\<open>onlbased_userdata.cc\<close>. \<open>Base_Properties\<close>: a relayed message keeps its bytes, and which contents of a file
    are read (\<open>records\<close>, \<open>lines_fit\<close>). The model of a stream is the library's: a position and two flags.
  \<^item> \<open>Step_Systems\<close>: the locales \<open>kept\<close> and \<open>ending\<close>, the contracts of a step relation.
    \<open>Crd_Link_Protocol\<close>, \<open>Crd_Link_Invariant\<close>, \<open>Crd_Link_Progress\<close>: the threads of the links of a session in any
    interleaving (\<open>link_step\<close>), the invariant \<open>link_inv\<close>, and what follows from it; they interpret the locales.
  \<^item> \<open>Nmd_Properties\<close>, \<open>Switch_Properties\<close>, \<open>Rendezvous_Properties\<close>, \<open>Wire_Properties\<close>,
    \<open>Util_Properties\<close>, \<open>Database_Properties\<close>, \<open>Crd_Properties\<close>, \<open>Crd_Service\<close>, \<open>Crd_Vlans\<close>,
    \<open>Crd_Watch\<close>, \<open>Vm_Properties\<close>, \<open>Base_Properties\<close> and this theory: the properties and their examples.

  \<^bold>\<open>Conventions.\<close> Undefined behaviour is \<^verbatim>\<open>None\<close>: an access outside a block or array, a null or dangling
  pointer, a shift by a negative amount. So a property that says \<open>\<exists>x. f a = Some x\<close> says that the
  code reaches no undefined behaviour. An object at an address is the value of a map from addresses.
  Memory that the code does not set is a parameter (\<open>junk\<close>, \<open>mem\<close>, \<open>word\<close>).

  \<^bold>\<open>Parameters of the model.\<close> What the code gets from the system is an argument: the pieces in which
  \<^verbatim>\<open>read\<close> returns data and the results of \<^verbatim>\<open>select\<close>, \<^verbatim>\<open>send\<close>, \<^verbatim>\<open>rename\<close> and
  \<^verbatim>\<open>nanosleep\<close>, readings of the clock, the exit status of the commands that \<^verbatim>\<open>system\<close> runs (the
  record \<open>shell\<close>), the contents of files, the conversion of a decimal fraction to
  milliseconds (\<open>millis\<close>), what other threads do meanwhile.

  \<^bold>\<open>Bounds.\<close> \<open>periodic_loop\<close> and the receiving loops run as long as their list of rounds; each result says
  whether the loop has returned. \<open>send_alerts\<close> runs as long as its
  rounds. The loops over graphs, the search for joined switches, the refreshing of a node and the reading of
  lines are partial functions without fuel: that they return, and for which graphs or files they do not, is proved.

  \<^bold>\<open>Not modelled.\<close> The threads that create the VLANs of a session run in the order in which they are started, and the
  handlers of the network daemon follow one another, but for the interleavings of \<open>Nmd_Threads\<close>. The text of log lines is left out where it has no effect. In the resource
  daemon, the actions of the links are interleaved within one session, with the end of a component as one step; a handler is one
  step, but for what other threads do while it sleeps; the order of answers and of messages to other daemons is not
  recorded. The handlers of the daemon of virtual machines follow one another; its relay, which repeats that of the
  base daemon, is not modelled. Of the process that the base daemon starts, only the arguments are modelled; the table of
  its main function is left out.
  The other daemons are not modelled beyond the messages: the queries of the database are SQL through a library that is not in the
  repository, the router daemons drive the memory of network processors or shell scripts.
\<close>

section \<open>A request from one daemon to the other\<close>

text \<open>C7: An add_to_vlan request that the resource daemon writes and sends over its connection arrives,
  however the network cuts its body into pieces, as the network daemon's add_to_vlan object with the
  same header, rendezvous marker, session, VLAN and port.\<close>

theorem add_to_vlan_end_to_end:
  assumes "\<not> closed c" and "sock_out c = []"
    and "add_to_vlan_write (m\<lparr>msg_buf := buf_reset (msg_buf m)\<rparr>) = Some m'" and "add_to_vlan_ok m"
    and "msg_type m = NCCP_MessageRequest" and "msg_op m = NCCP_Operation_AddToVlan"
    and "message_send add_to_vlan_write 4 (int (length (enc_add_to_vlan m))) m (Some c) = Some (sent, m'', Some c')"
    and "sock_in r = p # ps" and "pieces_ok (p # ps)" and "4 \<le> length p"
    and "concat (p # ps) = sock_out c'" and "req_map d = (\<lambda>_. None)"
  shows "\<exists>bytes r' x. get_message word r = (Some bytes, r') \<and>
    create_message pj pj' pmem (nmd_register junk junk' mem d) bytes = Some (Some (Obj (Add_To_Vlan x))) \<and>
    add_to_vlan_view x = add_to_vlan_view m"
proof -
  from add_to_vlan.sent_over [OF assms(1,3,2,7-11), of word] obtain r' where
    r': "get_message word r = (Some (enc_add_to_vlan m), r')" by blast
  have "sent_bytes (msg_buf m') = enc_add_to_vlan m" by (rule add_to_vlan.write_sent(1) [OF assms(3)])
  moreover from add_to_vlan.created [OF assms(3,4) TrueI, of un_add_to_vlan Add_To_Vlan
      "nmd_register junk junk' mem d" "class_of (request_of_bytes junk junk') add_to_vlan_parse (mem_add_to mem)
        Add_To_Vlan un_add_to_vlan" junk junk' "mem_add_to mem" pj pj' pmem]
    assms(5,6) nmd_table(3) [OF assms(12), of junk junk' mem]
  obtain x where "create_message pj pj' pmem (nmd_register junk junk' mem d) (sent_bytes (msg_buf m')) =
      Some (Some (Obj (Add_To_Vlan x)))" "add_to_vlan_view x = add_to_vlan_view m"
    by (auto simp: fun_eq_iff)
  ultimately show ?thesis using r' by auto
qed

definition sent_request :: add_to_vlan where
  "sent_request = (port_request ''exp'' 2)\<lparr>msg_op := NCCP_Operation_AddToVlan\<rparr>"

lemma sent_request_ok: "add_to_vlan_ok sent_request"
  by (simp add: add_to_vlan_ok_def switch_request_ok_def request_ok_def sent_request_def port_request_def
      blank_defs switch_port_of_def switch_port_ok_def nstr_ok_def nstr_of_def c_str_def add_to_vlan.defs)

theorem add_to_vlan_end_to_end_witness:
  "\<exists>bytes r' x. get_message [] (nccp_connection_of 4 0 0 0 0
      [be32 (of_nat (length (enc_add_to_vlan sent_request))), enc_add_to_vlan sent_request]) = (Some bytes, r') \<and>
    create_message (\<lambda>_. 0) (\<lambda>_. 0) (message.truncate (blank_request ())) (nmd_register (\<lambda>_. 0) (\<lambda>_. 0) sample_memory
      (dispatcher_new (\<lambda>_. None))) bytes = Some (Some (Obj (Add_To_Vlan x))) \<and>
    add_to_vlan_view x = add_to_vlan_view sent_request"
proof -
  have len: "length (enc_add_to_vlan (sent_request\<lparr>msg_buf := buf_reset (msg_buf sent_request)\<rparr>)) \<le> 2048"
    by (simp add: enc_add_to_vlan_def enc_switch_request_def enc_request_def enc_switch_port_def
        sent_request_def port_request_def blank_defs switch_port_of_def add_to_vlan.defs wire_len
        nstr_of_def c_str_def)
  obtain m' where m': "add_to_vlan_write (sent_request\<lparr>msg_buf := buf_reset (msg_buf sent_request)\<rparr>) = Some m'"
    using add_to_vlan.write_fits [of "sent_request\<lparr>msg_buf := buf_reset (msg_buf sent_request)\<rparr>"] len
    by (auto simp: buf_reset_def sent_request_def port_request_def blank_defs byte_buffer_new_def)
  define c where "c = nccp_connection_of 3 0 0 0 0 []"
  have c: "\<not> closed c" "sock_out c = []" by (simp_all add: c_def nccp_connection_of_def)
  have sel: "msg_type sent_request = NCCP_MessageRequest" "msg_op sent_request = NCCP_Operation_AddToVlan"
    by (simp_all add: sent_request_def port_request_def blank_defs)
  note f = wire_message.message_send_frame [OF add_to_vlan.wire_message_axioms c(1) m' refl refl]
  show ?thesis
    by (rule add_to_vlan_end_to_end [OF c m' sent_request_ok _ _ f(1),
          where p = "be32 (of_nat (length (enc_add_to_vlan sent_request)))" and ps = "[enc_add_to_vlan sent_request]"])
      (use f(2) in \<open>simp_all add: sel nccp_connection_of_def c frame_def be32_def dispatcher_new_def\<close>)
qed

end
